(* ===== verification/Prelude.thy ===== *)
theory Prelude
  imports Main "HOL-Library.Word"
begin

unbundle bit_operations_syntax

text \<open>
  What the component theories share: the machine types of the C sources (the fixed-width unsigned
  integers as words, memory as lists of bytes), the ways a C function can end without a result,
  the extraction and placement of single octets of a word (every shift-and-cast of the sources is
  one of the two), and the collections \<open>octets\<close>, \<open>wire\<close> and \<open>flag_defs\<close> that the
  component proofs hand to the simplifier.
\<close>

section \<open>Types of the C sources\<close>

type_synonym byte = "8 word"
type_synonym u16 = "16 word"
type_synonym u32 = "32 word"
type_synonym u64 = "64 word"
type_synonym bytes = "byte list"

text \<open>
  How a C function can end without its result. \<open>Ret_False\<close> is the source's own
  \<open>return false\<close>; \<open>Read_Overrun\<close> is a read of memory behind the end of the object that the
  pointer points into, \<open>Write_Overrun\<close> a write there, \<open>Null_Deref\<close> an access through a NULL
  pointer and \<open>Assert_Failed\<close> a failed \<open>assert\<close>. The last four are undefined behaviour or an
  abort: a model that ends in one of them says that the code has no defined result there.
\<close>

datatype c_error = Ret_False | Read_Overrun | Write_Overrun | Null_Deref | Assert_Failed

type_synonym 'a c_result = "c_error + 'a"

definition bind_c :: "'a c_result \<Rightarrow> ('a \<Rightarrow> 'b c_result) \<Rightarrow> 'b c_result" where
  "bind_c r f = (case r of Inl e \<Rightarrow> Inl e | Inr x \<Rightarrow> f x)"

definition check_c :: "bool \<Rightarrow> 'a c_result \<Rightarrow> 'a c_result" where
  \<comment> \<open>\<open>if (!b) return false; k\<close>\<close>
  "check_c b k = (if b then k else Inl Ret_False)"

definition assert_c :: "bool \<Rightarrow> 'a c_result \<Rightarrow> 'a c_result" where
  \<comment> \<open>\<open>assert(b); k\<close>\<close>
  "assert_c b k = (if b then k else Inl Assert_Failed)"

definition try_c :: "'a c_result \<Rightarrow> ('a option \<Rightarrow> 'b c_result) \<Rightarrow> 'b c_result" where
  \<comment> \<open>\<open>if (f(&x)) ... else ...\<close>: the caller looks at the result, undefined behaviour stays undefined\<close>
  "try_c r k = (case r of Inl e \<Rightarrow> if e = Ret_False then k None else Inl e | Inr x \<Rightarrow> k (Some x))"

named_theorems octets "octets of words built from octets"
named_theorems wire "reading what was written: cursor and push equations"
named_theorems flag_defs "definitions of the HTLC flag macros"

lemma bind_c_simps [simp]:
  "bind_c (Inl e) f = Inl e"
  "bind_c (Inr x) f = f x"
  by (simp_all add: bind_c_def)

lemma bind_c_Inr_iff: "bind_c r f = Inr y \<longleftrightarrow> (\<exists>x. r = Inr x \<and> f x = Inr y)"
  by (cases r) auto

lemma check_c_simps [simp]:
  "check_c True k = k"
  "check_c False k = Inl Ret_False"
  by (simp_all add: check_c_def)

lemma check_c_Inr_iff: "check_c b k = Inr y \<longleftrightarrow> b \<and> k = Inr y"
  by (simp add: check_c_def)

lemma assert_c_simps [simp]:
  "assert_c True k = k"
  "assert_c False k = Inl Assert_Failed"
  by (simp_all add: assert_c_def)

lemma assert_c_Inr_iff: "assert_c b k = Inr y \<longleftrightarrow> b \<and> k = Inr y"
  by (simp add: assert_c_def)

lemma try_c_simps [simp]:
  "try_c (Inl Ret_False) k = k None"
  "try_c (Inr x) k = k (Some x)"
  "e \<noteq> Ret_False \<Longrightarrow> try_c (Inl e) k = Inl e"
  by (simp_all add: try_c_def)

lemma try_c_Inr_iff:
  "try_c r k = Inr x \<longleftrightarrow> (r = Inl Ret_False \<and> k None = Inr x) \<or> (\<exists>v. r = Inr v \<and> k (Some v) = Inr x)"
  by (auto simp: try_c_def split: sum.splits)

section \<open>Octets of a word\<close>

text \<open>
  \<open>octet k v\<close> is the source's \<open>(uint8_t)(v >> k)\<close>; \<open>shl k b\<close> is its \<open>(uintN_t)b << k\<close>
  for a byte \<open>b\<close>.
\<close>

definition octet :: "nat \<Rightarrow> 'a::len word \<Rightarrow> byte" where
  "octet k v = ucast (drop_bit k v)"

definition shl :: "nat \<Rightarrow> byte \<Rightarrow> 'a::len word" where
  "shl k b = push_bit k (ucast b)"

lemma bit_octet: "bit (octet k v) n \<longleftrightarrow> n < 8 \<and> bit v (k + n)"
  by (auto simp: octet_def bit_simps ac_simps)

lemma bit_shl: "bit (shl k b :: 'a::len word) n \<longleftrightarrow> n < LENGTH('a) \<and> k \<le> n \<and> bit b (n - k)"
  by (auto simp: shl_def bit_simps)

lemma bit_byte_less: "bit (b::byte) n \<Longrightarrow> n < 8"
  using bit_imp_le_length [of b n] by simp

lemma octet_or [octets]: "octet k (x OR y) = octet k x OR octet k y"
  by (rule bit_word_eqI) (auto simp: bit_octet bit_simps)

lemma octet_shl_same [octets]: "k + 8 \<le> LENGTH('a) \<Longrightarrow> octet k (shl k b :: 'a::len word) = b"
  by (rule bit_word_eqI) (auto simp: bit_octet bit_shl)

lemma octet_shl_above [octets]: "k + 8 \<le> j \<Longrightarrow> octet k (shl j b :: 'a::len word) = 0"
  by (rule bit_word_eqI) (auto simp: bit_octet bit_shl)

lemma octet_shl_below [octets]: "j + 8 \<le> k \<Longrightarrow> octet k (shl j b :: 'a::len word) = 0"
  by (rule bit_word_eqI) (auto simp: bit_octet bit_shl dest: bit_byte_less)

lemma xor_cancel_left [simp]: "a XOR b = a XOR c \<longleftrightarrow> b = (c :: 'a::len word)"
proof
  assume "a XOR b = a XOR c"
  then have "a XOR (a XOR b) = a XOR (a XOR c)" by simp
  then show "b = c" by (simp flip: xor.assoc)
qed simp

text \<open>A word is determined by its octets.\<close>

lemma octet_eqI:
  fixes x y :: "'a::len word"
  assumes "\<And>i. 8 * i < LENGTH('a) \<Longrightarrow> octet (8 * i) x = octet (8 * i) y"
  shows "x = y"
proof (rule bit_word_eqI)
  fix n assume n: "n < LENGTH('a)"
  have "bit x n = bit (octet (8 * (n div 8)) x) (n mod 8)"
    by (simp add: bit_octet)
  also have "\<dots> = bit (octet (8 * (n div 8)) y) (n mod 8)"
    using assms [of "n div 8"] n by (simp add: le_less_trans [OF _ n])
  also have "\<dots> = bit y n"
    by (simp add: bit_octet)
  finally show "bit x n = bit y n" .
qed

lemma octets_16_eqI:
  fixes x y :: u16
  assumes "octet 0 x = octet 0 y" "octet 8 x = octet 8 y"
  shows "x = y"
proof (rule octet_eqI)
  fix i assume "8 * i < LENGTH(16)"
  then have "i = 0 \<or> i = 1" by auto
  with assms show "octet (8 * i) x = octet (8 * i) y" by auto
qed

lemma octets_32_eqI:
  fixes x y :: u32
  assumes "octet 0 x = octet 0 y" "octet 8 x = octet 8 y"
    "octet 16 x = octet 16 y" "octet 24 x = octet 24 y"
  shows "x = y"
proof (rule octet_eqI)
  fix i assume "8 * i < LENGTH(32)"
  then have "i = 0 \<or> i = 1 \<or> i = 2 \<or> i = 3" by auto
  with assms show "octet (8 * i) x = octet (8 * i) y" by auto
qed

lemma octets_64_eqI:
  fixes x y :: u64
  assumes "octet 0 x = octet 0 y" "octet 8 x = octet 8 y"
    "octet 16 x = octet 16 y" "octet 24 x = octet 24 y"
    "octet 32 x = octet 32 y" "octet 40 x = octet 40 y"
    "octet 48 x = octet 48 y" "octet 56 x = octet 56 y"
  shows "x = y"
proof (rule octet_eqI)
  fix i assume "8 * i < LENGTH(64)"
  then have "i = 0 \<or> i = 1 \<or> i = 2 \<or> i = 3 \<or> i = 4 \<or> i = 5 \<or> i = 6 \<or> i = 7" by auto
  with assms show "octet (8 * i) x = octet (8 * i) y" by auto
qed

section \<open>Conversions of 16-bit and 32-bit words\<close>

lemma unat_of_nat_u32 [simp]: "n < 2 ^ 32 \<Longrightarrow> unat (of_nat n :: u32) = n"
  by (simp add: unat_of_nat take_bit_nat_eq_self)

lemma unat_of_nat_u16 [simp]: "n < 2 ^ 16 \<Longrightarrow> unat (of_nat n :: u16) = n"
  by (simp add: unat_of_nat take_bit_nat_eq_self)

lemma unat_u16_less: "unat (v :: u16) < 65536"
  using unsigned_less [of v] by simp

lemma of_nat_u32_eq_0: "n < 2 ^ 32 \<Longrightarrow> (of_nat n :: u32) = 0 \<longleftrightarrow> n = 0"
  using nat_dvd_not_less [of n "2 ^ 32"] by (cases "n = 0") (auto simp: word_of_nat_eq_0_iff)

lemma of_nat_u32_inj:
  "m < 2 ^ 32 \<Longrightarrow> n < 2 ^ 32 \<Longrightarrow> (of_nat m :: u32) = of_nat n \<longleftrightarrow> m = n"
  by (simp add: word_of_nat_eq_iff take_bit_nat_eq_self)

lemma sint_word_of_int_u32:
  fixes k :: int
  assumes "- (2 ^ 31) \<le> k" "k < 2 ^ 31"
  shows "sint (word_of_int k :: u32) = k"
proof -
  have "sint (word_of_int k :: u32) = signed_take_bit 31 k"
    by (simp add: sint_sbintrunc')
  then show ?thesis using assms by (simp add: signed_take_bit_int_eq_self)
qed

text \<open>Sums of words that do not wrap around.\<close>

lemma unat_plus_no_wrap:
  "unat (a :: 'a::len word) + unat b < 2 ^ LENGTH('a) \<Longrightarrow> unat (a + b) = unat a + unat b"
  by (simp add: unat_plus_if')

lemma u64_le_max: "(v :: u64) \<le> 2 ^ 64 - 1"
proof -
  have "unat v < 2 ^ 64" using unsigned_less [of v] by simp
  then show ?thesis by (simp add: word_le_nat_alt)
qed

lemma u64_max_plus: "18446744073709551615 + r = r - (1 :: u64)"
proof -
  have "(18446744073709551615 :: u64) = - 1" by simp
  then show ?thesis by simp
qed

lemma unat_ucast_u32: "unat (ucast (v :: u32) :: u64) = unat v"
proof -
  have "unat v < 2 ^ 32" using unsigned_less [of v] by simp
  then show ?thesis by (simp add: unsigned_ucast_eq take_bit_nat_eq_self)
qed

lemma word_minus_1_le: "r \<noteq> 0 \<Longrightarrow> r - 1 \<le> (r :: 'a::len word)"
  by (auto simp: word_le_nat_alt unat_sub_if' unat_eq_0 Suc_le_eq)

section \<open>Lists\<close>

text \<open>A list of known length is a list of that many elements.\<close>

lemma length_2_conv: "length xs = 2 \<longleftrightarrow> (\<exists>a b. xs = [a, b])"
  by (auto simp: numeral_eq_Suc length_Suc_conv)

lemma length_4_conv: "length xs = 4 \<longleftrightarrow> (\<exists>a b c d. xs = [a, b, c, d])"
  by (auto simp: numeral_eq_Suc length_Suc_conv)

lemma length_8_conv:
  "length xs = 8 \<longleftrightarrow> (\<exists>a b c d e f g h. xs = [a, b, c, d, e, f, g, h])"
  by (auto simp: numeral_eq_Suc length_Suc_conv)

lemma length_ge_append_conv: "n \<le> length xs \<longleftrightarrow> (\<exists>us vs. xs = us @ vs \<and> length us = n)"
proof
  assume "n \<le> length xs"
  then have "xs = take n xs @ drop n xs \<and> length (take n xs) = n" by simp
  then show "\<exists>us vs. xs = us @ vs \<and> length us = n" by blast
qed auto

text \<open>
  The index of the first element that satisfies a condition: the result of a \<open>for\<close> loop that
  ends with \<open>break\<close> there.
\<close>

fun first_slot :: "('a \<Rightarrow> bool) \<Rightarrow> 'a list \<Rightarrow> nat option" where
  "first_slot P [] = None"
| "first_slot P (x # xs) = (if P x then Some 0 else map_option Suc (first_slot P xs))"

lemma first_slot_SomeD:
  "first_slot P xs = Some i \<Longrightarrow> i < length xs \<and> P (xs ! i) \<and> (\<forall>j<i. \<not> P (xs ! j))"
proof (induction xs arbitrary: i)
  case (Cons x xs)
  then show ?case by (auto simp: less_Suc_eq_0_disj split: if_splits)
qed simp

lemma first_slot_None_iff: "first_slot P xs = None \<longleftrightarrow> (\<forall>x\<in>set xs. \<not> P x)"
  by (induction xs) auto

section \<open>Memory\<close>

text \<open>
  \<open>put_bytes mem off xs\<close> stores \<open>xs\<close> in the object \<open>mem\<close> from index \<open>off\<close> on, as
  \<open>mem[off] = x0; mem[off + 1] = x1; ...\<close> or a \<open>memcpy\<close> does.
\<close>

definition put_bytes :: "'a list \<Rightarrow> nat \<Rightarrow> 'a list \<Rightarrow> 'a list c_result" where
  "put_bytes mem off xs =
     (if off + length xs \<le> length mem
      then Inr (take off mem @ xs @ drop (off + length xs) mem) else Inl Write_Overrun)"

lemma put_bytes_length: "put_bytes mem off xs = Inr mem' \<Longrightarrow> length mem' = length mem"
  by (auto simp: put_bytes_def split: if_splits)

lemma put_bytes_0: "length xs \<le> length mem \<Longrightarrow> put_bytes mem 0 xs = Inr (xs @ drop (length xs) mem)"
  by (simp add: put_bytes_def)

lemma put_bytes_append:
  "put_bytes (us @ vs) (length us) xs =
     (if length xs \<le> length vs then Inr (us @ xs @ drop (length xs) vs) else Inl Write_Overrun)"
  by (simp add: put_bytes_def)

end
