(* ===== verification/Utl_Int.thy ===== *)
theory Utl_Int
  imports Prelude
begin

text \<open>
  \<^verbatim>\<open>utl/utl_int.c\<close> and the readers of \<^verbatim>\<open>utl/utl_misc.c\<close>: fixed-width integers in memory,
  little and big endian. The pack functions read through a pointer with no length, so their model
  takes the bytes that are readable there and overruns when there are too few; the unpack functions
  write through a pointer, so their model takes the object written to and returns it. The locale
  \<open>int_codec\<close> is the contract that the callers rely on; every width and order is an
  interpretation of it.
\<close>

section \<open>Reading\<close>

fun utl_int_pack_u16le :: "bytes \<Rightarrow> u16 c_result" where
  "utl_int_pack_u16le (b0 # b1 # _) = Inr (shl 0 b0 OR shl 8 b1)"
| "utl_int_pack_u16le _ = Inl Read_Overrun"

fun utl_int_pack_u32le :: "bytes \<Rightarrow> u32 c_result" where
  "utl_int_pack_u32le (b0 # b1 # b2 # b3 # _) =
     Inr (shl 0 b0 OR shl 8 b1 OR shl 16 b2 OR shl 24 b3)"
| "utl_int_pack_u32le _ = Inl Read_Overrun"

fun utl_int_pack_u64le :: "bytes \<Rightarrow> u64 c_result" where
  "utl_int_pack_u64le (b0 # b1 # b2 # b3 # b4 # b5 # b6 # b7 # _) =
     Inr (shl 0 b0 OR shl 8 b1 OR shl 16 b2 OR shl 24 b3 OR
          shl 32 b4 OR shl 40 b5 OR shl 48 b6 OR shl 56 b7)"
| "utl_int_pack_u64le _ = Inl Read_Overrun"

fun utl_int_pack_u64be :: "bytes \<Rightarrow> u64 c_result" where
  "utl_int_pack_u64be (b0 # b1 # b2 # b3 # b4 # b5 # b6 # b7 # _) =
     Inr (shl 56 b0 OR shl 48 b1 OR shl 40 b2 OR shl 32 b3 OR
          shl 24 b4 OR shl 16 b5 OR shl 8 b6 OR shl 0 b7)"
| "utl_int_pack_u64be _ = Inl Read_Overrun"

fun utl_int_pack_u32be :: "bytes \<Rightarrow> u32 c_result" where
  "utl_int_pack_u32be (b0 # b1 # b2 # b3 # _) =
     Inr (shl 24 b0 OR shl 16 b1 OR shl 8 b2 OR shl 0 b3)"
| "utl_int_pack_u32be _ = Inl Read_Overrun"

fun utl_int_pack_u16be :: "bytes \<Rightarrow> u16 c_result" where
  "utl_int_pack_u16be (b0 # b1 # _) = Inr (shl 8 b0 OR shl 0 b1)"
| "utl_int_pack_u16be _ = Inl Read_Overrun"

section \<open>Writing\<close>

definition utl_int_unpack_u16be :: "bytes \<Rightarrow> u16 \<Rightarrow> bytes c_result" where
  "utl_int_unpack_u16be pData v = put_bytes pData 0 [octet 8 v, octet 0 v]"

definition utl_int_unpack_u32be :: "bytes \<Rightarrow> u32 \<Rightarrow> bytes c_result" where
  "utl_int_unpack_u32be pData v =
     put_bytes pData 0 [octet 24 v, octet 16 v, octet 8 v, octet 0 v]"

definition utl_int_unpack_u64be :: "bytes \<Rightarrow> u64 \<Rightarrow> bytes c_result" where
  "utl_int_unpack_u64be pData v =
     put_bytes pData 0 [octet 56 v, octet 48 v, octet 40 v, octet 32 v,
                        octet 24 v, octet 16 v, octet 8 v, octet 0 v]"

definition utl_int_unpack_u16le :: "bytes \<Rightarrow> u16 \<Rightarrow> bytes c_result" where
  "utl_int_unpack_u16le pData v = put_bytes pData 0 [octet 0 v, octet 8 v]"

definition utl_int_unpack_u32le :: "bytes \<Rightarrow> u32 \<Rightarrow> bytes c_result" where
  "utl_int_unpack_u32le pData v =
     put_bytes pData 0 [octet 0 v, octet 8 v, octet 16 v, octet 24 v]"

definition utl_int_unpack_u64le :: "bytes \<Rightarrow> u64 \<Rightarrow> bytes c_result" where
  "utl_int_unpack_u64le pData v =
     put_bytes pData 0 [octet 0 v, octet 8 v, octet 16 v, octet 24 v,
                        octet 32 v, octet 40 v, octet 48 v, octet 56 v]"

section \<open>The readers of utl_misc.c\<close>

fun utl_misc_be16 :: "bytes \<Rightarrow> u16 c_result" where
  "utl_misc_be16 (b0 # b1 # _) = Inr (shl 8 b0 OR shl 0 b1)"
| "utl_misc_be16 _ = Inl Read_Overrun"

fun utl_misc_be32 :: "bytes \<Rightarrow> u32 c_result" where
  "utl_misc_be32 (b0 # b1 # b2 # b3 # _) =
     Inr (shl 24 b0 OR shl 16 b1 OR shl 8 b2 OR shl 0 b3)"
| "utl_misc_be32 _ = Inl Read_Overrun"

fun utl_misc_be64 :: "bytes \<Rightarrow> u64 c_result" where
  "utl_misc_be64 (b0 # b1 # b2 # b3 # b4 # b5 # b6 # b7 # _) =
     Inr (shl 56 b0 OR shl 48 b1 OR shl 40 b2 OR shl 32 b3 OR
          shl 24 b4 OR shl 16 b5 OR shl 8 b6 OR shl 0 b7)"
| "utl_misc_be64 _ = Inl Read_Overrun"

section \<open>The contract of an integer codec\<close>

text \<open>
  \<open>get\<close> reads an integer of \<open>width\<close> bytes at a pointer, \<open>put\<close> writes one. The laws: both need
  exactly \<open>width\<close> accessible bytes, \<open>put\<close> touches no others, and what was put is got back.
\<close>

locale int_codec =
  fixes get :: "bytes \<Rightarrow> 'w c_result"
    and put :: "bytes \<Rightarrow> 'w \<Rightarrow> bytes c_result"
    and width :: nat
  assumes get_short: "length p < width \<Longrightarrow> get p = Inl Read_Overrun"
    and get_long: "width \<le> length p \<Longrightarrow> \<exists>v. get p = Inr v"
    and put_short: "length m < width \<Longrightarrow> put m v = Inl Write_Overrun"
    and put_long: "width \<le> length m \<Longrightarrow>
      \<exists>xs. length xs = width \<and> put m v = Inr (xs @ drop width m)"
    and get_put: "put m v = Inr m' \<Longrightarrow> get m' = Inr v"
    and put_get: "get p = Inr v \<Longrightarrow> width \<le> length m \<Longrightarrow>
      put m v = Inr (take width p @ drop width m)"
begin

lemma get_defined_iff: "(\<exists>v. get p = Inr v) \<longleftrightarrow> width \<le> length p"
  using get_short [of p] get_long [of p] by (cases "width \<le> length p") auto

lemma put_defined_iff: "(\<exists>m'. put m v = Inr m') \<longleftrightarrow> width \<le> length m"
  using put_short [of m v] put_long [of m v] by (cases "width \<le> length m") auto

lemma put_frame: "put m v = Inr m' \<Longrightarrow> length m' = length m \<and> drop width m' = drop width m"
  using put_short [of m v] put_long [of m v] by (cases "width \<le> length m") auto

lemma roundtrip:
  "width \<le> length m \<Longrightarrow> \<exists>m'. put m v = Inr m' \<and> get m' = Inr v \<and>
     length m' = length m \<and> drop width m' = drop width m"
  using put_defined_iff [of m v] get_put put_frame by blast

lemma get_prefix: "get p = Inr v \<Longrightarrow> get (take width p @ r) = Inr v"
proof -
  assume g: "get p = Inr v"
  then have w: "width \<le> length p" using get_defined_iff by blast
  have "put (take width p @ r) v = Inr (take width p @ r)"
    using put_get [OF g, of "take width p @ r"] w by simp
  then show ?thesis by (rule get_put)
qed

lemma get_Inr_iff:
  "get p = Inr v \<longleftrightarrow> width \<le> length p \<and> put (take width p) v = Inr (take width p)"
proof
  assume g: "get p = Inr v"
  then have "width \<le> length p" using get_defined_iff by blast
  with put_get [OF g, of "take width p"] show "width \<le> length p \<and> put (take width p) v = Inr (take width p)"
    by simp
next
  assume a: "width \<le> length p \<and> put (take width p) v = Inr (take width p)"
  then obtain v' where v': "get p = Inr v'" using get_defined_iff by blast
  from a have "get (take width p) = Inr v" by (blast intro: get_put)
  with get_prefix [OF v', of "[]"] v' show "get p = Inr v" by simp
qed

lemma put_inj: "put m v = Inr m' \<Longrightarrow> put m v' = Inr m' \<Longrightarrow> v = v'"
  using get_put [of m v m'] get_put [of m v' m'] by simp

end

section \<open>Every width and order meets the contract\<close>

lemma list_ge_2E:
  assumes "2 \<le> length (p :: 'a list)"
  obtains b0 b1 r where "p = b0 # b1 # r"
  using assms by (cases p; cases "tl p") auto

lemma list_ge_4E:
  assumes "4 \<le> length (p :: 'a list)"
  obtains b0 b1 b2 b3 r where "p = b0 # b1 # b2 # b3 # r"
proof -
  from assms have "2 \<le> length p" by simp
  then obtain b0 b1 q where p: "p = b0 # b1 # q" by (rule list_ge_2E)
  with assms have "2 \<le> length q" by simp
  then obtain b2 b3 r where "q = b2 # b3 # r" by (rule list_ge_2E)
  with p show thesis by (auto intro: that)
qed

lemma list_ge_8E:
  assumes "8 \<le> length (p :: 'a list)"
  obtains b0 b1 b2 b3 b4 b5 b6 b7 r where "p = b0 # b1 # b2 # b3 # b4 # b5 # b6 # b7 # r"
proof -
  from assms have "4 \<le> length p" by simp
  then obtain b0 b1 b2 b3 q where p: "p = b0 # b1 # b2 # b3 # q" by (rule list_ge_4E)
  with assms have "4 \<le> length q" by simp
  then obtain b4 b5 b6 b7 r where "q = b4 # b5 # b6 # b7 # r" by (rule list_ge_4E)
  with p show thesis by (auto intro: that)
qed

lemma int_codecI:
  assumes short: "\<And>p. length p < w \<Longrightarrow> get p = Inl Read_Overrun"
    and dec: "\<And>p. w \<le> length p \<Longrightarrow> get p = Inr (d (take w p))"
    and put: "\<And>m v. put m v = put_bytes m 0 (e v)"
    and len: "\<And>v. length (e v) = w"
    and de: "\<And>v. d (e v) = v"
    and ed: "\<And>xs. length xs = w \<Longrightarrow> e (d xs) = xs"
  shows "int_codec get put w"
proof
  show "\<And>p. length p < w \<Longrightarrow> get p = Inl Read_Overrun" by (rule short)
  show "\<And>p. w \<le> length p \<Longrightarrow> \<exists>v. get p = Inr v" using dec by blast
  show "\<And>m v. length m < w \<Longrightarrow> put m v = Inl Write_Overrun" by (simp add: put put_bytes_def len)
  show "\<And>m v. w \<le> length m \<Longrightarrow> \<exists>xs. length xs = w \<and> put m v = Inr (xs @ drop w m)"
    using len by (auto simp: put put_bytes_def)
  show "get m' = Inr v" if "put m v = Inr m'" for m v m'
    using that by (auto simp: put put_bytes_def len de dec split: if_splits)
  show "put m v = Inr (take w p @ drop w m)" if "get p = Inr v" "w \<le> length m" for p v m
  proof -
    have "w \<le> length p" using that(1) short [of p] by (cases "w \<le> length p") auto
    with that dec [of p] have "e v = take w p" by (auto simp: ed)
    with that(2) len [of v] show ?thesis by (simp add: put put_bytes_def)
  qed
qed

interpretation u16le: int_codec utl_int_pack_u16le utl_int_unpack_u16le 2
proof (rule int_codecI [where d = "\<lambda>xs. projr (utl_int_pack_u16le xs)"
      and e = "\<lambda>v. [octet 0 v, octet 8 v]"], goal_cases)
  case (1 p) then show ?case by (cases p rule: utl_int_pack_u16le.cases) simp_all
next
  case (2 p) then show ?case by (elim list_ge_2E) simp
next
  case (5 v) show ?case by (rule octets_16_eqI) (simp_all add: octets)
next
  case (6 xs) then show ?case by (auto simp: length_2_conv octets)
qed (simp_all add: utl_int_unpack_u16le_def)

interpretation u16be: int_codec utl_int_pack_u16be utl_int_unpack_u16be 2
proof (rule int_codecI [where d = "\<lambda>xs. projr (utl_int_pack_u16be xs)"
      and e = "\<lambda>v. [octet 8 v, octet 0 v]"], goal_cases)
  case (1 p) then show ?case by (cases p rule: utl_int_pack_u16be.cases) simp_all
next
  case (2 p) then show ?case by (elim list_ge_2E) simp
next
  case (5 v) show ?case by (rule octets_16_eqI) (simp_all add: octets)
next
  case (6 xs) then show ?case by (auto simp: length_2_conv octets)
qed (simp_all add: utl_int_unpack_u16be_def)

interpretation u32le: int_codec utl_int_pack_u32le utl_int_unpack_u32le 4
proof (rule int_codecI [where d = "\<lambda>xs. projr (utl_int_pack_u32le xs)"
      and e = "\<lambda>v. [octet 0 v, octet 8 v, octet 16 v, octet 24 v]"], goal_cases)
  case (1 p) then show ?case by (cases p rule: utl_int_pack_u32le.cases) simp_all
next
  case (2 p) then show ?case by (elim list_ge_4E) simp
next
  case (5 v) show ?case by (rule octets_32_eqI) (simp_all add: octets)
next
  case (6 xs) then show ?case by (auto simp: length_4_conv octets)
qed (simp_all add: utl_int_unpack_u32le_def)

interpretation u32be: int_codec utl_int_pack_u32be utl_int_unpack_u32be 4
proof (rule int_codecI [where d = "\<lambda>xs. projr (utl_int_pack_u32be xs)"
      and e = "\<lambda>v. [octet 24 v, octet 16 v, octet 8 v, octet 0 v]"], goal_cases)
  case (1 p) then show ?case by (cases p rule: utl_int_pack_u32be.cases) simp_all
next
  case (2 p) then show ?case by (elim list_ge_4E) simp
next
  case (5 v) show ?case by (rule octets_32_eqI) (simp_all add: octets)
next
  case (6 xs) then show ?case by (auto simp: length_4_conv octets)
qed (simp_all add: utl_int_unpack_u32be_def)

interpretation u64le: int_codec utl_int_pack_u64le utl_int_unpack_u64le 8
proof (rule int_codecI [where d = "\<lambda>xs. projr (utl_int_pack_u64le xs)"
      and e = "\<lambda>v. [octet 0 v, octet 8 v, octet 16 v, octet 24 v, octet 32 v, octet 40 v, octet 48 v, octet 56 v]"], goal_cases)
  case (1 p) then show ?case by (cases p rule: utl_int_pack_u64le.cases) simp_all
next
  case (2 p) then show ?case by (elim list_ge_8E) simp
next
  case (5 v) show ?case by (rule octets_64_eqI) (simp_all add: octets)
next
  case (6 xs) then show ?case by (auto simp: length_8_conv octets)
qed (simp_all add: utl_int_unpack_u64le_def)

interpretation u64be: int_codec utl_int_pack_u64be utl_int_unpack_u64be 8
proof (rule int_codecI [where d = "\<lambda>xs. projr (utl_int_pack_u64be xs)"
      and e = "\<lambda>v. [octet 56 v, octet 48 v, octet 40 v, octet 32 v, octet 24 v, octet 16 v, octet 8 v, octet 0 v]"], goal_cases)
  case (1 p) then show ?case by (cases p rule: utl_int_pack_u64be.cases) simp_all
next
  case (2 p) then show ?case by (elim list_ge_8E) simp
next
  case (5 v) show ?case by (rule octets_64_eqI) (simp_all add: octets)
next
  case (6 xs) then show ?case by (auto simp: length_8_conv octets)
qed (simp_all add: utl_int_unpack_u64be_def)

text \<open>
  The readers of \<^verbatim>\<open>utl_misc.c\<close> are the big endian readers of \<^verbatim>\<open>utl_int.c\<close>.
\<close>

lemma utl_misc_be_eq:
  "utl_misc_be16 p = utl_int_pack_u16be p"
  "utl_misc_be32 p = utl_int_pack_u32be p"
  "utl_misc_be64 p = utl_int_pack_u64be p"
  by (cases p rule: utl_misc_be16.cases, simp_all)
     (cases p rule: utl_misc_be32.cases, simp_all, cases p rule: utl_misc_be64.cases, simp_all)

section \<open>Properties\<close>

text \<open>
  What the \<^verbatim>\<open>utl_int_unpack_*\<close> functions write is what the matching
  \<^verbatim>\<open>utl_int_pack_*\<close> functions read, for every value, width and byte order; the write needs
  exactly the integer's own bytes and changes nothing behind them.
\<close>

theorem utl_int_roundtrip:
  "(2 \<le> length m \<longrightarrow> (\<exists>m'. utl_int_unpack_u16le m v16 = Inr m' \<and>
      utl_int_pack_u16le m' = Inr v16 \<and> length m' = length m \<and> drop 2 m' = drop 2 m)) \<and>
   (2 \<le> length m \<longrightarrow> (\<exists>m'. utl_int_unpack_u16be m v16 = Inr m' \<and>
      utl_int_pack_u16be m' = Inr v16 \<and> length m' = length m \<and> drop 2 m' = drop 2 m)) \<and>
   (4 \<le> length m \<longrightarrow> (\<exists>m'. utl_int_unpack_u32le m v32 = Inr m' \<and>
      utl_int_pack_u32le m' = Inr v32 \<and> length m' = length m \<and> drop 4 m' = drop 4 m)) \<and>
   (4 \<le> length m \<longrightarrow> (\<exists>m'. utl_int_unpack_u32be m v32 = Inr m' \<and>
      utl_int_pack_u32be m' = Inr v32 \<and> length m' = length m \<and> drop 4 m' = drop 4 m)) \<and>
   (8 \<le> length m \<longrightarrow> (\<exists>m'. utl_int_unpack_u64le m v64 = Inr m' \<and>
      utl_int_pack_u64le m' = Inr v64 \<and> length m' = length m \<and> drop 8 m' = drop 8 m)) \<and>
   (8 \<le> length m \<longrightarrow> (\<exists>m'. utl_int_unpack_u64be m v64 = Inr m' \<and>
      utl_int_pack_u64be m' = Inr v64 \<and> length m' = length m \<and> drop 8 m' = drop 8 m))"
  by (simp add: u16le.roundtrip u16be.roundtrip u32le.roundtrip u32be.roundtrip
        u64le.roundtrip u64be.roundtrip)

theorem utl_int_roundtrip_witness:
  "\<exists>m'. utl_int_unpack_u32be [7, 7, 7, 7, 9, 8, 1, 2] 0x01020304 = Inr m' \<and>
     utl_int_pack_u32be m' = Inr 0x01020304 \<and> drop 4 m' = [9, 8, 1, 2]"
proof -
  have "4 \<le> length [7, 7, 7, 7, 9, 8, 1, 2 :: byte]" by simp
  with utl_int_roundtrip [of "[7, 7, 7, 7, 9, 8, 1, 2]" 0 "0x01020304" 0]
  obtain m' where "utl_int_unpack_u32be [7, 7, 7, 7, 9, 8, 1, 2] 0x01020304 = Inr m'"
    "utl_int_pack_u32be m' = Inr 0x01020304" "drop 4 m' = drop 4 [7, 7, 7, 7, 9, 8, 1, 2]"
    by blast
  then show ?thesis by auto
qed

end
