(* ===== verification/Utl_Buf.thy ===== *)
theory Utl_Buf
  imports Utl_Int
begin

text \<open>
  \<^verbatim>\<open>utl/utl_buf.c\<close> and \<^verbatim>\<open>utl/utl_push.c\<close>: the growable byte buffers in which every message
  and script is built. A byte of allocated memory is \<open>Some b\<close> once it has been written and \<open>None\<close>
  while it is indeterminate (fresh from \<open>malloc\<close> or from a growing \<open>realloc\<close>), so a buffer whose
  bytes are all \<open>Some\<close> is known to expose no uninitialised memory. The allocator is the parameter
  \<open>alloc\<close>: \<open>alloc n\<close> says whether a request of \<open>n\<close> bytes returns a block.
\<close>

section \<open>utl_buf_t\<close>

type_synonym mem = "byte option list"

record utl_buf_t =
  buf :: "mem option"   \<comment> \<open>\<open>None\<close> is the NULL pointer\<close>
  len :: u32

definition UTL_BUF_INIT :: utl_buf_t where
  "UTL_BUF_INIT = \<lparr>buf = None, len = 0\<rparr>"

definition c_malloc :: "(nat \<Rightarrow> bool) \<Rightarrow> nat \<Rightarrow> mem option" where
  "c_malloc alloc n = (if alloc n then Some (replicate n None) else None)"

definition c_realloc :: "(nat \<Rightarrow> bool) \<Rightarrow> mem option \<Rightarrow> nat \<Rightarrow> mem option" where
  "c_realloc alloc p n =
     (case p of None \<Rightarrow> c_malloc alloc n
      | Some m \<Rightarrow> if alloc n then Some (take n m @ replicate (n - length m) None) else None)"

definition utl_buf_init :: "utl_buf_t \<Rightarrow> utl_buf_t" where
  "utl_buf_init pBuf = pBuf\<lparr>len := 0, buf := None\<rparr>"

definition utl_buf_free :: "utl_buf_t \<Rightarrow> utl_buf_t" where
  "utl_buf_free pBuf = (if buf pBuf \<noteq> None then pBuf\<lparr>buf := None, len := 0\<rparr> else pBuf)"

definition utl_buf_alloc :: "(nat \<Rightarrow> bool) \<Rightarrow> utl_buf_t \<Rightarrow> u32 \<Rightarrow> bool \<times> utl_buf_t" where
  "utl_buf_alloc alloc pBuf Size =
     (let b = c_malloc alloc (unat Size) in (b \<noteq> None, pBuf\<lparr>len := Size, buf := b\<rparr>))"

definition utl_buf_realloc :: "(nat \<Rightarrow> bool) \<Rightarrow> utl_buf_t \<Rightarrow> u32 \<Rightarrow> bool \<times> utl_buf_t" where
  "utl_buf_realloc alloc pBuf Size =
     (let b = c_realloc alloc (buf pBuf) (unat Size) in (b \<noteq> None, pBuf\<lparr>len := Size, buf := b\<rparr>))"

definition utl_buf_alloccopy ::
  "(nat \<Rightarrow> bool) \<Rightarrow> utl_buf_t \<Rightarrow> bytes \<Rightarrow> u32 \<Rightarrow> (bool \<times> utl_buf_t) c_result" where
  "utl_buf_alloccopy alloc pBuf pData Len =
     (if 0 < Len then
        (let (ok, b) = utl_buf_alloc alloc pBuf Len in
         if \<not> ok then Inr (False, b)
         else if length pData < unat Len then Inl Read_Overrun
         else Inr (True, b\<lparr>buf := Some (map Some (take (unat Len) pData))\<rparr>))
      else Inr (True, utl_buf_init pBuf))"

text \<open>\<open>memcmp\<close> reads \<open>len\<close> bytes of both blocks; a block that is too short is overrun.\<close>

definition c_memcmp_eq :: "mem option \<Rightarrow> mem option \<Rightarrow> nat \<Rightarrow> bool c_result" where
  "c_memcmp_eq p q n =
     (if n = 0 then Inr True
      else case (p, q) of
        (Some m1, Some m2) \<Rightarrow>
          if length m1 < n \<or> length m2 < n then Inl Read_Overrun else Inr (take n m1 = take n m2)
      | _ \<Rightarrow> Inl Null_Deref)"

definition utl_buf_cmp :: "utl_buf_t \<Rightarrow> utl_buf_t \<Rightarrow> bool c_result" where
  "utl_buf_cmp pBuf1 pBuf2 =
     (if len pBuf1 = len pBuf2 then c_memcmp_eq (buf pBuf1) (buf pBuf2) (unat (len pBuf1))
      else Inr False)"

text \<open>The invariant of a buffer: the block has exactly \<open>len\<close> bytes, none when there is no block.\<close>

definition wf_buf :: "utl_buf_t \<Rightarrow> bool" where
  "wf_buf b \<longleftrightarrow> (case buf b of None \<Rightarrow> len b = 0 | Some m \<Rightarrow> length m = unat (len b))"

definition buf_of :: "bytes \<Rightarrow> utl_buf_t" where
  "buf_of xs = (if xs = [] then UTL_BUF_INIT
                else \<lparr>buf = Some (map Some xs), len = of_nat (length xs)\<rparr>)"

lemma wf_buf_init [simp]: "wf_buf (utl_buf_init b)"
  by (simp add: wf_buf_def utl_buf_init_def)

lemma wf_buf_free: "wf_buf b \<Longrightarrow> wf_buf (utl_buf_free b)"
  by (auto simp: wf_buf_def utl_buf_free_def split: option.splits)

lemma wf_buf_alloc: "utl_buf_alloc alloc b n = (True, b') \<Longrightarrow> wf_buf b'"
  by (auto simp: utl_buf_alloc_def c_malloc_def wf_buf_def Let_def split: if_splits)

lemma wf_buf_realloc: "utl_buf_realloc alloc b n = (True, b') \<Longrightarrow> wf_buf b'"
  by (auto simp: utl_buf_realloc_def c_realloc_def c_malloc_def wf_buf_def Let_def
      split: if_splits option.splits)

lemma wf_buf_alloccopy: "utl_buf_alloccopy alloc b d n = Inr (True, b') \<Longrightarrow> wf_buf b'"
  by (auto simp: utl_buf_alloccopy_def utl_buf_alloc_def c_malloc_def wf_buf_def utl_buf_init_def
      Let_def split: if_splits)

text \<open>A failed allocation leaves \<open>len\<close> without a block: the caller must look at the result.\<close>

lemma utl_buf_alloc_fail:
  "\<not> alloc (unat n) \<Longrightarrow> utl_buf_alloc alloc b n = (False, b\<lparr>len := n, buf := None\<rparr>)"
  by (simp add: utl_buf_alloc_def c_malloc_def)

lemma utl_buf_alloccopy_eq:
  "alloc (unat n) \<Longrightarrow> unat n \<le> length d \<Longrightarrow>
     utl_buf_alloccopy alloc UTL_BUF_INIT d n = Inr (True, buf_of (take (unat n) d))"
  by (auto simp: utl_buf_alloccopy_def utl_buf_alloc_def c_malloc_def buf_of_def UTL_BUF_INIT_def
      utl_buf_init_def Let_def word_greater_zero_iff unat_eq_0)

lemma utl_buf_cmp_buf_of:
  assumes "length xs < 2 ^ 32" "length ys < 2 ^ 32"
  shows "utl_buf_cmp (buf_of xs) (buf_of ys) = Inr (xs = ys)"
proof -
  have "(of_nat (length xs) :: u32) = of_nat (length ys) \<longleftrightarrow> length xs = length ys"
    using assms by (rule of_nat_u32_inj)
  then show ?thesis
    using assms of_nat_u32_eq_0 [of "length xs"] of_nat_u32_eq_0 [of "length ys"]
    by (auto simp: utl_buf_cmp_def buf_of_def UTL_BUF_INIT_def c_memcmp_eq_def inj_map_eq_map)
qed

section \<open>utl_push_t\<close>

record utl_push_t =
  pos :: u32
  data :: utl_buf_t   \<comment> \<open>the buffer the source points to\<close>

definition utl_push_init ::
  "(nat \<Rightarrow> bool) \<Rightarrow> utl_buf_t \<Rightarrow> u32 \<Rightarrow> bool \<times> utl_push_t" where
  "utl_push_init alloc pBuf Size =
     (if Size \<noteq> 0 then (let (ok, b) = utl_buf_alloc alloc pBuf Size in (ok, \<lparr>pos = 0, data = b\<rparr>))
      else (True, \<lparr>pos = 0, data = utl_buf_init pBuf\<rparr>))"

text \<open>
  \<open>rest\<close> is computed in \<open>uint32_t\<close> and read back as an \<open>int\<close>; \<open>len - rest\<close> is again a
  \<open>uint32_t\<close>. A \<open>memcpy\<close> of no bytes touches no memory.
\<close>

definition utl_push_data ::
  "(nat \<Rightarrow> bool) \<Rightarrow> utl_push_t \<Rightarrow> bytes \<Rightarrow> u32 \<Rightarrow> (bool \<times> utl_push_t) c_result" where
  "utl_push_data alloc pPush pData Len =
     (let rest = sint (len (data pPush) - pos pPush - Len);
          newlen = len (data pPush) - word_of_int rest;
          d = (if rest < 0
               then (data pPush)\<lparr>buf := c_realloc alloc (buf (data pPush)) (unat newlen)\<rparr>
               else data pPush)
      in if rest < 0 \<and> buf d = None then Inr (False, pPush\<lparr>data := d\<rparr>)
         else let d' = (if rest < 0 then d\<lparr>len := newlen\<rparr> else d)
         in if Len = 0 then Inr (True, pPush\<lparr>data := d'\<rparr>)
         else if length pData < unat Len then Inl Read_Overrun
         else case buf d' of
                None \<Rightarrow> Inl Null_Deref
              | Some m \<Rightarrow>
                  bind_c (put_bytes m (unat (pos pPush)) (map Some (take (unat Len) pData)))
                    (\<lambda>m'. Inr (True, \<lparr>pos = pos pPush + Len, data = d'\<lparr>buf := Some m'\<rparr>\<rparr>)))"

text \<open>
  The bytes \<^verbatim>\<open>utl_push_value\<close> builds: \<open>OP_0\<close>, \<open>OP_1\<close> to \<open>OP_16\<close>, or a length byte and the
  value in little endian, with room for the sign bit. \<open>push_value_loop\<close> is the search
  \<open>for (len = 1; len <= 6; len++)\<close>; it returns \<open>None\<close> when it falls out of the loop with nothing
  stored.
\<close>

function push_value_loop :: "u64 \<Rightarrow> nat \<Rightarrow> bytes option" where
  "push_value_loop Value n =
     (if n \<le> 6 then
        (if Value < push_bit (8 * (n - 1)) 0x80
         then Some (of_nat n # map (\<lambda>lp. octet (8 * lp) Value) [0..<n])
         else push_value_loop Value (n + 1))
      else None)"
  by pat_completeness auto
termination
  by (relation "measure (\<lambda>(v, n). 7 - n)") auto

declare push_value_loop.simps [simp del]

definition push_value_bytes :: "u64 \<Rightarrow> bytes c_result" where
  "push_value_bytes Value =
     (if Value = 0 then Inr [0]
      else if Value \<le> 16 then Inr [0x50 + ucast Value]
      else if Value \<le> 0x7fffffffff
      then (case push_value_loop Value 1 of Some bs \<Rightarrow> Inr bs | None \<Rightarrow> Inl Read_Overrun)
      else Inl Ret_False)"

definition utl_push_value :: "(nat \<Rightarrow> bool) \<Rightarrow> utl_push_t \<Rightarrow> u64 \<Rightarrow> (bool \<times> utl_push_t) c_result" where
  "utl_push_value alloc pPush Value =
     (case push_value_bytes Value of
        Inr bs \<Rightarrow> utl_push_data alloc pPush bs (of_nat (length bs))
      | Inl Ret_False \<Rightarrow> Inr (False, pPush)
      | Inl e \<Rightarrow> Inl e)"

definition utl_push_trim :: "(nat \<Rightarrow> bool) \<Rightarrow> utl_push_t \<Rightarrow> bool \<times> utl_push_t" where
  "utl_push_trim alloc pPush =
     (if len (data pPush) \<noteq> pos pPush then
        (if pos pPush = 0 then (True, pPush\<lparr>data := utl_buf_free (data pPush)\<rparr>)
         else (let b = c_realloc alloc (buf (data pPush)) (unat (pos pPush)) in
               (b \<noteq> None, pPush\<lparr>data := (data pPush)\<lparr>len := pos pPush, buf := b\<rparr>\<rparr>)))
      else (True, pPush))"

section \<open>The states of a push buffer\<close>

text \<open>
  \<open>mk_push cap xs\<close> is the state in which the bytes \<open>xs\<close> have been pushed into a buffer of
  capacity \<open>cap\<close>, the rest of which is indeterminate. Every operation maps such states to such
  states; the equations below are what the message components compute with.
\<close>

definition mk_push :: "nat \<Rightarrow> bytes \<Rightarrow> utl_push_t" where
  "mk_push cap xs =
     \<lparr>pos = of_nat (length xs),
      data = \<lparr>buf = (if cap = 0 then None
                    else Some (map Some xs @ replicate (cap - length xs) None)),
              len = of_nat cap\<rparr>\<rparr>"

definition always_ok :: "nat \<Rightarrow> bool" where
  "always_ok n = True"

lemma always_ok [simp]: "always_ok n"
  by (simp add: always_ok_def)

lemma utl_push_init_eq:
  assumes "\<And>k. alloc k" "n < 2 ^ 31"
  shows "utl_push_init alloc b (of_nat n) = (True, mk_push n [])"
  using assms of_nat_u32_eq_0 [of n]
  by (auto simp: utl_push_init_def mk_push_def utl_buf_alloc_def c_malloc_def utl_buf_init_def Let_def)

lemma utl_push_data_eq:
  assumes alloc: "\<And>k. alloc k"
    and cap: "length xs \<le> cap" "cap < 2 ^ 31" "length xs + n < 2 ^ 31"
    and n: "n \<le> length d"
  shows "utl_push_data alloc (mk_push cap xs) d (of_nat n) =
           Inr (True, mk_push (max cap (length xs + n)) (xs @ take n d))"
proof -
  let ?r = "int cap - int (length xs) - int n"
  have "(of_nat cap - of_nat (length xs) - of_nat n :: u32) = word_of_int ?r"
    by simp
  moreover have "sint (word_of_int ?r :: u32) = ?r"
    using cap by (intro sint_word_of_int_u32) auto
  ultimately have rest: "sint (of_nat cap - of_nat (length xs) - of_nat n :: u32) = ?r"
    by (rule arg_cong [THEN trans])
  have newlen: "of_nat cap - word_of_int ?r = (of_nat (length xs + n) :: u32)"
    by simp
  have u: "unat (of_nat (length xs + n) :: u32) = length xs + n"
    "unat (of_nat (length xs) :: u32) = length xs" "unat (of_nat n :: u32) = n"
    using cap by (auto simp del: of_nat_add)
  note u' = u(1) [unfolded of_nat_add]
  have n0: "(of_nat n :: u32) = 0 \<longleftrightarrow> n = 0"
    using cap by (intro of_nat_u32_eq_0) auto
  show ?thesis
  proof (cases "?r < 0")
    case True
    then have "max cap (length xs + n) = length xs + n" "n \<noteq> 0" "cap < length xs + n"
      using cap by auto
    then show ?thesis
      using True alloc cap n n0
      by (auto simp: utl_push_data_def mk_push_def Let_def rest newlen u u' c_realloc_def c_malloc_def
          put_bytes_def min_def)
  next
    case False
    then have "max cap (length xs + n) = cap" by auto
    then show ?thesis
      using False cap n n0
      by (auto simp: utl_push_data_def mk_push_def Let_def rest u put_bytes_def min_def)
  qed
qed

lemma utl_push_trim_eq:
  assumes "\<And>k. alloc k" "length xs \<le> cap" "cap < 2 ^ 31"
  shows "utl_push_trim alloc (mk_push cap xs) = (True, mk_push (length xs) xs)"
proof -
  have "(of_nat cap :: u32) = of_nat (length xs) \<longleftrightarrow> cap = length xs"
    using assms by (intro of_nat_u32_inj) auto
  then show ?thesis
    using assms of_nat_u32_eq_0 [of "length xs"]
    by (auto simp: utl_push_trim_def mk_push_def utl_buf_free_def c_realloc_def Let_def)
qed

lemma data_mk_push: "data (mk_push (length xs) xs) = buf_of xs"
  by (simp add: mk_push_def buf_of_def UTL_BUF_INIT_def)

section \<open>A push buffer is a sequence of bytes\<close>

text \<open>
  The contract of a byte sink, which is all that the code that builds messages and scripts relies
  on: \<open>st cap xs\<close> are the states in which \<open>xs\<close> has been pushed, and the result of closing one is
  \<open>xs\<close>. \<open>lim\<close> bounds the total size.
\<close>

locale byte_sink =
  fixes init :: "nat \<Rightarrow> 's"
    and push :: "'s \<Rightarrow> bytes \<Rightarrow> 's c_result"
    and close :: "'s \<Rightarrow> bytes option"
    and st :: "nat \<Rightarrow> bytes \<Rightarrow> 's"
    and lim :: nat
  assumes init_st: "n < lim \<Longrightarrow> init n = st n []"
    and push_st: "length xs \<le> cap \<Longrightarrow> cap < lim \<Longrightarrow> length xs + length d < lim \<Longrightarrow>
      push (st cap xs) d = Inr (st (max cap (length xs + length d)) (xs @ d))"
    and close_st: "length xs \<le> cap \<Longrightarrow> cap < lim \<Longrightarrow> close (st cap xs) = Some xs"
begin

fun push_list :: "'s \<Rightarrow> bytes list \<Rightarrow> 's c_result" where
  "push_list s [] = Inr s"
| "push_list s (d # ds) = bind_c (push s d) (\<lambda>s. push_list s ds)"

lemma push_list_st:
  "length xs \<le> cap \<Longrightarrow> cap < lim \<Longrightarrow> length xs + length (concat ds) < lim \<Longrightarrow>
     push_list (st cap xs) ds =
       Inr (st (max cap (length xs + length (concat ds))) (xs @ concat ds))"
proof (induction ds arbitrary: cap xs)
  case Nil
  then show ?case by (simp add: max_def)
next
  case (Cons d ds)
  have "push (st cap xs) d = Inr (st (max cap (length xs + length d)) (xs @ d))"
    using Cons.prems by (intro push_st) auto
  moreover have "push_list (st (max cap (length xs + length d)) (xs @ d)) ds =
      Inr (st (max (max cap (length xs + length d)) (length (xs @ d) + length (concat ds)))
             ((xs @ d) @ concat ds))"
    using Cons.prems by (intro Cons.IH) auto
  moreover have "max (max cap (length xs + length d)) (length (xs @ d) + length (concat ds)) =
      max cap (length xs + length (concat (d # ds)))"
    by (simp add: max_def)
  ultimately show ?case by simp
qed

lemma push_list_close:
  "n < lim \<Longrightarrow> length (concat ds) < lim \<Longrightarrow>
     \<exists>s. push_list (init n) ds = Inr s \<and> close s = Some (concat ds)"
  using push_list_st [of "[]" n ds] by (simp add: init_st close_st)

end

text \<open>The bytes of a block, when none of them is indeterminate.\<close>

definition buf_bytes :: "utl_buf_t \<Rightarrow> bytes option" where
  "buf_bytes b = (case buf b of None \<Rightarrow> Some []
     | Some m \<Rightarrow> if None \<in> set m then None else Some (map the m))"

lemma buf_bytes_buf_of [simp]: "buf_bytes (buf_of xs) = Some xs"
  by (auto simp: buf_bytes_def buf_of_def UTL_BUF_INIT_def comp_def)

definition sink_init :: "nat \<Rightarrow> utl_push_t" where
  "sink_init n = snd (utl_push_init always_ok UTL_BUF_INIT (of_nat n))"

definition sink_push :: "utl_push_t \<Rightarrow> bytes \<Rightarrow> utl_push_t c_result" where
  "sink_push p d = bind_c (utl_push_data always_ok p d (of_nat (length d))) (\<lambda>r. Inr (snd r))"

definition sink_close :: "utl_push_t \<Rightarrow> bytes option" where
  "sink_close p = buf_bytes (data (snd (utl_push_trim always_ok p)))"

interpretation utl_sink: byte_sink sink_init sink_push sink_close mk_push "2 ^ 31"
proof
  show "sink_init n = mk_push n []" if "n < 2 ^ 31" for n
    using that by (simp add: sink_init_def utl_push_init_eq)
  show "sink_push (mk_push cap xs) d =
      Inr (mk_push (max cap (length xs + length d)) (xs @ d))"
    if "length xs \<le> cap" "cap < 2 ^ 31" "length xs + length d < 2 ^ 31" for xs cap d
    using that by (simp add: sink_push_def utl_push_data_eq)
  show "sink_close (mk_push cap xs) = Some xs" if "length xs \<le> cap" "cap < 2 ^ 31" for xs cap
    using that by (simp add: sink_close_def utl_push_trim_eq data_mk_push)
qed

fun sink_push_list :: "utl_push_t \<Rightarrow> bytes list \<Rightarrow> utl_push_t c_result" where
  "sink_push_list p [] = Inr p"
| "sink_push_list p (d # ds) = bind_c (sink_push p d) (\<lambda>p. sink_push_list p ds)"

lemma sink_push_list_eq: "sink_push_list p ds = utl_sink.push_list p ds"
  by (induction ds arbitrary: p) (auto simp: bind_c_def split: sum.splits)

text \<open>
  Whatever initial size \<^verbatim>\<open>utl_push_init\<close> was given, pushing chunks with
  \<^verbatim>\<open>utl_push_data\<close> and then trimming leaves exactly the concatenation of the chunks in the
  buffer: the buffer grows when it must, and no indeterminate byte is left over.
\<close>

theorem utl_push_concat:
  "n < 2 ^ 31 \<Longrightarrow> length (concat ds) < 2 ^ 31 \<Longrightarrow>
     \<exists>p. sink_push_list (sink_init n) ds = Inr p \<and> sink_close p = Some (concat ds)"
  unfolding sink_push_list_eq by (rule utl_sink.push_list_close)

theorem utl_push_concat_witness:
  "\<exists>p. sink_push_list (sink_init 2) [[1, 2, 3], [4]] = Inr p \<and> sink_close p = Some [1, 2, 3, 4]"
  using utl_push_concat [of 2 "[[1, 2, 3], [4]]"] by simp

section \<open>Script numbers\<close>

lemma unat_octet: "unat (octet k v) = unat v div 2 ^ k mod 256"
  by (simp only: octet_def unsigned_ucast_eq unsigned_drop_bit_eq)
     (simp add: drop_bit_eq_div take_bit_eq_mod)

lemma sum_octets:
  "(\<Sum>i<n. unat (octet (8 * i) v) * 256 ^ i) = unat v mod 256 ^ n"
proof (induction n)
  case (Suc n)
  have "unat v mod 256 ^ Suc n = 256 ^ n * (unat v div 256 ^ n mod 256) + unat v mod 256 ^ n"
    by (metis mod_mult2_eq mult.commute power_Suc2)
  then show ?case
    using Suc by (simp add: unat_octet power_mult)
qed simp

text \<open>
  The loop stops at the least \<open>n\<close> for which the value fits in \<open>8 * n - 1\<close> bits. \<open>fits n v\<close> is its
  exit test.
\<close>

definition fits :: "nat \<Rightarrow> u64 \<Rightarrow> bool" where
  "fits n v \<longleftrightarrow> v < push_bit (8 * (n - 1)) 0x80"

lemma push_value_loop_first:
  "fits m v \<Longrightarrow> n \<le> m \<Longrightarrow> m \<le> 6 \<Longrightarrow>
     \<exists>k\<ge>n. k \<le> m \<and> fits k v \<and> (n < k \<longrightarrow> \<not> fits (k - 1) v) \<and>
       push_value_loop v n = Some (of_nat k # map (\<lambda>lp. octet (8 * lp) v) [0..<k])"
proof (induction v n rule: push_value_loop.induct)
  case (1 v n)
  show ?case
  proof (cases "fits n v")
    case True
    with "1.prems" show ?thesis
      by (intro exI [of _ n]) (auto simp: push_value_loop.simps [of v n] fits_def)
  next
    case False
    with "1.prems" have "n + 1 \<le> m" by (cases "n = m") auto
    with "1" False obtain k where k: "n + 1 \<le> k" "k \<le> m" "fits k v" "n + 1 < k \<longrightarrow> \<not> fits (k - 1) v"
      "push_value_loop v (n + 1) = Some (of_nat k # map (\<lambda>lp. octet (8 * lp) v) [0..<k])"
      by (auto simp: fits_def)
    moreover have "\<not> fits (k - 1) v" using k False by (cases "n + 1 < k") auto
    moreover have "push_value_loop v n = push_value_loop v (n + 1)"
      using False "1.prems" by (simp add: push_value_loop.simps [of v n] fits_def)
    ultimately show ?thesis by (intro exI [of _ k]) auto
  qed
qed

lemma fits_iff: "1 \<le> n \<Longrightarrow> n \<le> 6 \<Longrightarrow> fits n v \<longleftrightarrow> unat v < 128 * 256 ^ (n - 1)"
proof -
  assume n: "1 \<le> n" "n \<le> 6"
  then have "n = 1 \<or> n = 2 \<or> n = 3 \<or> n = 4 \<or> n = 5 \<or> n = 6" by auto
  then show ?thesis by (auto simp: fits_def word_less_nat_alt)
qed

text \<open>
  Every value above 16 that \<^verbatim>\<open>utl_push_value\<close> accepts is pushed as a minimal script number: a
  length byte of at most 5, that many bytes holding the value in little endian, the sign bit of the
  last one clear, and no shorter encoding possible.
\<close>

theorem push_value_minimal:
  assumes "16 < v" "v \<le> 0x7fffffffff"
  shows "\<exists>n bs. push_value_bytes v = Inr (of_nat n # bs) \<and> length bs = n \<and> 1 \<le> n \<and> n \<le> 5 \<and>
    (\<Sum>i<n. unat (bs ! i) * 256 ^ i) = unat v \<and> unat v < 128 * 256 ^ (n - 1) \<and>
    (1 < n \<longrightarrow> 128 * 256 ^ (n - 2) \<le> unat v)"
proof -
  have v5: "unat v < 128 * 256 ^ (5 - 1)"
    using assms(2) by (simp add: word_le_nat_alt)
  then have "fits 5 v" by (simp add: fits_iff)
  then obtain k where k: "1 \<le> k" "k \<le> 5" "fits k v" "1 < k \<longrightarrow> \<not> fits (k - 1) v"
    "push_value_loop v 1 = Some (of_nat k # map (\<lambda>lp. octet (8 * lp) v) [0..<k])"
    using push_value_loop_first [of 5 v 1] by auto
  have "push_value_bytes v = Inr (of_nat k # map (\<lambda>lp. octet (8 * lp) v) [0..<k])"
    using assms k(5) by (auto simp: push_value_bytes_def)
  moreover have small: "unat v < 128 * 256 ^ (k - 1)"
    using k by (simp add: fits_iff)
  moreover have "(\<Sum>i<k. unat (map (\<lambda>lp. octet (8 * lp) v) [0..<k] ! i) * 256 ^ i) = unat v"
  proof -
    have "128 * 256 ^ (k - 1) \<le> (256::nat) ^ k"
      using k(1) by (cases k) auto
    with small have "unat v mod 256 ^ k = unat v" by simp
    then show ?thesis using sum_octets [of v k] by simp
  qed
  moreover have "1 < k \<longrightarrow> 128 * 256 ^ (k - 2) \<le> unat v"
    using k by (auto simp: fits_iff numeral_2_eq_2)
  ultimately show ?thesis using k by (intro exI [of _ k]) auto
qed

theorem push_value_minimal_witness:
  "\<exists>n bs. push_value_bytes 500000 = Inr (of_nat n # bs) \<and> length bs = n \<and>
     (\<Sum>i<n. unat (bs ! i) * 256 ^ i) = 500000"
proof -
  have "(16::u64) < 500000" "(500000::u64) \<le> 0x7fffffffff" by simp_all
  from push_value_minimal [OF this] show ?thesis by auto
qed

text \<open>A value that does not fit in 39 bits is refused and the buffer is not touched.\<close>

lemma push_value_reject:
  assumes "0x7fffffffff < v"
  shows "utl_push_value alloc p v = Inr (False, p)"
proof -
  from assms have "\<not> v \<le> 16" "\<not> v \<le> 0x7fffffffff" "v \<noteq> 0"
    by (auto simp: word_le_nat_alt word_less_nat_alt)
  then show ?thesis by (simp add: utl_push_value_def push_value_bytes_def)
qed

end
