(* ===== verification/Ln_Misc.thy ===== *)
theory Ln_Misc
  imports Utl_Buf
begin

text \<open>
  \<^verbatim>\<open>ln/ln_misc.c\<close>: the primitives with which every BOLT message is read and written (big endian
  integers, pushes into a \<open>utl_push_t\<close>), signatures in compact and in DER form, channel ids; and the
  interface between a message component and its clients, the locale \<open>wire_codec\<close> and its
  extensions.

  A reader walks through a message with a cursor: the source keeps \<open>pData\<close>, \<open>Len\<close> and \<open>pos\<close>, the
  model keeps the bytes that are left at \<open>pData + pos\<close>, so \<open>Len - pos\<close> is their number. A read that
  needs more bytes than are left is \<open>Read_Overrun\<close>. The \<open>assert(Len >= pos)\<close> that closes most
  readers has no counterpart: a cursor never stands behind the end. Allocation succeeds in this layer
  (\<open>always_ok\<close>): the sources do not look at the result of a push.
\<close>

section \<open>Message types\<close>

definition MSGTYPE_INIT :: u16 where "MSGTYPE_INIT = 0x0010"
definition MSGTYPE_ERROR :: u16 where "MSGTYPE_ERROR = 0x0011"
definition MSGTYPE_PING :: u16 where "MSGTYPE_PING = 0x0012"
definition MSGTYPE_PONG :: u16 where "MSGTYPE_PONG = 0x0013"
definition MSGTYPE_OPEN_CHANNEL :: u16 where "MSGTYPE_OPEN_CHANNEL = 0x0020"
definition MSGTYPE_ACCEPT_CHANNEL :: u16 where "MSGTYPE_ACCEPT_CHANNEL = 0x0021"
definition MSGTYPE_FUNDING_CREATED :: u16 where "MSGTYPE_FUNDING_CREATED = 0x0022"
definition MSGTYPE_FUNDING_SIGNED :: u16 where "MSGTYPE_FUNDING_SIGNED = 0x0023"
definition MSGTYPE_FUNDING_LOCKED :: u16 where "MSGTYPE_FUNDING_LOCKED = 0x0024"
definition MSGTYPE_SHUTDOWN :: u16 where "MSGTYPE_SHUTDOWN = 0x0026"
definition MSGTYPE_CLOSING_SIGNED :: u16 where "MSGTYPE_CLOSING_SIGNED = 0x0027"
definition MSGTYPE_UPDATE_ADD_HTLC :: u16 where "MSGTYPE_UPDATE_ADD_HTLC = 0x0080"
definition MSGTYPE_UPDATE_FULFILL_HTLC :: u16 where "MSGTYPE_UPDATE_FULFILL_HTLC = 0x0082"
definition MSGTYPE_UPDATE_FAIL_HTLC :: u16 where "MSGTYPE_UPDATE_FAIL_HTLC = 0x0083"
definition MSGTYPE_COMMITMENT_SIGNED :: u16 where "MSGTYPE_COMMITMENT_SIGNED = 0x0084"
definition MSGTYPE_REVOKE_AND_ACK :: u16 where "MSGTYPE_REVOKE_AND_ACK = 0x0085"
definition MSGTYPE_UPDATE_FEE :: u16 where "MSGTYPE_UPDATE_FEE = 0x0086"
definition MSGTYPE_UPDATE_FAIL_MALFORMED_HTLC :: u16 where
  "MSGTYPE_UPDATE_FAIL_MALFORMED_HTLC = 0x0087"
definition MSGTYPE_CHANNEL_REESTABLISH :: u16 where "MSGTYPE_CHANNEL_REESTABLISH = 0x0088"
definition MSGTYPE_CHANNEL_ANNOUNCEMENT :: u16 where "MSGTYPE_CHANNEL_ANNOUNCEMENT = 0x0100"
definition MSGTYPE_NODE_ANNOUNCEMENT :: u16 where "MSGTYPE_NODE_ANNOUNCEMENT = 0x0101"
definition MSGTYPE_CHANNEL_UPDATE :: u16 where "MSGTYPE_CHANNEL_UPDATE = 0x0102"
definition MSGTYPE_ANNOUNCEMENT_SIGNATURES :: u16 where "MSGTYPE_ANNOUNCEMENT_SIGNATURES = 0x0103"

lemmas msgtype_defs =
  MSGTYPE_INIT_def MSGTYPE_ERROR_def MSGTYPE_PING_def MSGTYPE_PONG_def MSGTYPE_OPEN_CHANNEL_def
  MSGTYPE_ACCEPT_CHANNEL_def MSGTYPE_FUNDING_CREATED_def MSGTYPE_FUNDING_SIGNED_def
  MSGTYPE_FUNDING_LOCKED_def MSGTYPE_SHUTDOWN_def MSGTYPE_CLOSING_SIGNED_def
  MSGTYPE_UPDATE_ADD_HTLC_def MSGTYPE_UPDATE_FULFILL_HTLC_def MSGTYPE_UPDATE_FAIL_HTLC_def
  MSGTYPE_COMMITMENT_SIGNED_def MSGTYPE_REVOKE_AND_ACK_def MSGTYPE_UPDATE_FEE_def
  MSGTYPE_UPDATE_FAIL_MALFORMED_HTLC_def MSGTYPE_CHANNEL_REESTABLISH_def
  MSGTYPE_CHANNEL_ANNOUNCEMENT_def MSGTYPE_NODE_ANNOUNCEMENT_def MSGTYPE_CHANNEL_UPDATE_def
  MSGTYPE_ANNOUNCEMENT_SIGNATURES_def

definition message_names :: "(u16 \<times> string) list" where
  "message_names =
    [(0x0010, ''init''), (0x0011, ''error''), (0x0012, ''ping''), (0x0013, ''pong''),
     (0x0020, ''open_channel''), (0x0021, ''accept_channel''), (0x0022, ''funding_created''),
     (0x0023, ''funding_signed''), (0x0024, ''funding_locked''), (0x0026, ''shutdown''),
     (0x0027, ''closing_signed''), (0x0080, ''update_add_htlc''),
     (0x0082, ''update_fulfill_htlc''), (0x0083, ''update_fail_htlc''),
     (0x0084, ''commitment_signed''), (0x0085, ''revoke_and_ack''), (0x0086, ''update_fee''),
     (0x0087, ''update_fail_malformed_htlc''), (0x0088, ''channel_reestablish''),
     (0x0100, ''channel_announcement''), (0x0101, ''node_announcement''),
     (0x0102, ''channel_update''), (0x0103, ''announcement_signatures'')]"

definition ln_misc_msgname :: "u16 \<Rightarrow> string" where
  "ln_misc_msgname Type =
     (case map_of message_names Type of Some n \<Rightarrow> n | None \<Rightarrow> ''UNKNOWN MESSAGE'')"

section \<open>Big endian integers\<close>

fun ln_misc_get16be :: "bytes \<Rightarrow> u16 c_result" where
  "ln_misc_get16be (b0 # b1 # _) = Inr (shl 8 b0 OR shl 0 b1)"
| "ln_misc_get16be _ = Inl Read_Overrun"

fun ln_misc_get32be :: "bytes \<Rightarrow> u32 c_result" where
  "ln_misc_get32be (b0 # b1 # b2 # b3 # _) =
     Inr (shl 24 b0 OR shl 16 b1 OR shl 8 b2 OR shl 0 b3)"
| "ln_misc_get32be _ = Inl Read_Overrun"

fun ln_misc_get64be :: "bytes \<Rightarrow> u64 c_result" where
  "ln_misc_get64be (b0 # b1 # b2 # b3 # b4 # b5 # b6 # b7 # _) =
     Inr (shl 56 b0 OR shl 48 b1 OR shl 40 b2 OR shl 32 b3 OR
          shl 24 b4 OR shl 16 b5 OR shl 8 b6 OR shl 0 b7)"
| "ln_misc_get64be _ = Inl Read_Overrun"

text \<open>The octets of an integer in network order.\<close>

definition be16 :: "u16 \<Rightarrow> bytes" where
  "be16 v = [octet 8 v, octet 0 v]"

definition be32 :: "u32 \<Rightarrow> bytes" where
  "be32 v = [octet 24 v, octet 16 v, octet 8 v, octet 0 v]"

definition be64 :: "u64 \<Rightarrow> bytes" where
  "be64 v = [octet 56 v, octet 48 v, octet 40 v, octet 32 v,
             octet 24 v, octet 16 v, octet 8 v, octet 0 v]"

definition push_bytes :: "utl_push_t \<Rightarrow> bytes \<Rightarrow> nat \<Rightarrow> utl_push_t c_result" where
  \<comment> \<open>\<open>utl_push_data(pPush, p, n);\<close> with the result ignored\<close>
  "push_bytes pPush p n = bind_c (utl_push_data always_ok pPush p (of_nat n)) (\<lambda>r. Inr (snd r))"

definition ln_misc_push8 :: "utl_push_t \<Rightarrow> byte \<Rightarrow> utl_push_t c_result" where
  "ln_misc_push8 pPush Value = push_bytes pPush [Value] 1"

definition ln_misc_push16be :: "utl_push_t \<Rightarrow> u16 \<Rightarrow> utl_push_t c_result" where
  "ln_misc_push16be pPush Value = push_bytes pPush [octet 8 Value, octet 0 Value] 2"

text \<open>The source shifts \<open>Value\<close> itself by 8 before it stores each further octet.\<close>

definition ln_misc_push32be :: "utl_push_t \<Rightarrow> u32 \<Rightarrow> utl_push_t c_result" where
  "ln_misc_push32be pPush Value =
     (let d3 = octet 0 Value; v1 = drop_bit 8 Value;
          d2 = octet 0 v1; v2 = drop_bit 8 v1;
          d1 = octet 0 v2; d0 = octet 8 v2
      in push_bytes pPush [d0, d1, d2, d3] 4)"

definition ln_misc_push64be :: "utl_push_t \<Rightarrow> u64 \<Rightarrow> utl_push_t c_result" where
  "ln_misc_push64be pPush Value =
     (let d7 = octet 0 Value; v1 = drop_bit 8 Value;
          d6 = octet 0 v1; v2 = drop_bit 8 v1;
          d5 = octet 0 v2; v3 = drop_bit 8 v2;
          d4 = octet 0 v3; v4 = drop_bit 8 v3;
          d3 = octet 0 v4; v5 = drop_bit 8 v4;
          d2 = octet 0 v5; v6 = drop_bit 8 v5;
          d1 = octet 0 v6; d0 = octet 8 v6
      in push_bytes pPush [d0, d1, d2, d3, d4, d5, d6, d7] 8)"

lemma octet_drop_bit: "octet k (drop_bit j v) = octet (k + j) v"
  by (rule bit_word_eqI) (auto simp: bit_octet bit_simps ac_simps)

lemma ln_misc_push_be:
  "ln_misc_push16be p v16 = push_bytes p (be16 v16) 2"
  "ln_misc_push32be p v32 = push_bytes p (be32 v32) 4"
  "ln_misc_push64be p v64 = push_bytes p (be64 v64) 8"
  by (simp_all add: ln_misc_push16be_def ln_misc_push32be_def ln_misc_push64be_def
      be16_def be32_def be64_def Let_def octet_drop_bit)

lemma length_be [simp]: "length (be16 a) = 2" "length (be32 b) = 4" "length (be64 c) = 8"
  by (simp_all add: be16_def be32_def be64_def)

lemma ln_misc_get16be_eq: "ln_misc_get16be p = utl_int_pack_u16be p"
  by (cases p rule: ln_misc_get16be.cases) simp_all

lemma ln_misc_get32be_eq: "ln_misc_get32be p = utl_int_pack_u32be p"
  by (cases p rule: ln_misc_get32be.cases) simp_all

lemma ln_misc_get64be_eq: "ln_misc_get64be p = utl_int_pack_u64be p"
  by (cases p rule: ln_misc_get64be.cases) simp_all

lemma get_be_Inr_iff:
  "ln_misc_get16be p = Inr v16 \<longleftrightarrow> 2 \<le> length p \<and> take 2 p = be16 v16"
  "ln_misc_get32be p = Inr v32 \<longleftrightarrow> 4 \<le> length p \<and> take 4 p = be32 v32"
  "ln_misc_get64be p = Inr v64 \<longleftrightarrow> 8 \<le> length p \<and> take 8 p = be64 v64"
  by (auto simp: ln_misc_get16be_eq u16be.get_Inr_iff utl_int_unpack_u16be_def
      ln_misc_get32be_eq u32be.get_Inr_iff utl_int_unpack_u32be_def
      ln_misc_get64be_eq u64be.get_Inr_iff utl_int_unpack_u64be_def
      be16_def be32_def be64_def put_bytes_def)

lemma get_be_append [simp]:
  "ln_misc_get16be (be16 v16 @ r) = Inr v16"
  "ln_misc_get32be (be32 v32 @ r) = Inr v32"
  "ln_misc_get64be (be64 v64 @ r) = Inr v64"
  by (simp_all add: get_be_Inr_iff)

lemma be_inject [simp]:
  "be16 a16 = be16 b16 \<longleftrightarrow> a16 = b16"
  "be32 a32 = be32 b32 \<longleftrightarrow> a32 = b32"
  "be64 a64 = be64 b64 \<longleftrightarrow> a64 = b64"
  using get_be_append(1) [of _ "[]"] get_be_append(2) [of _ "[]"] get_be_append(3) [of _ "[]"]
  by (metis sum.inject(2))+

section \<open>The reading cursor\<close>

definition get_bytes :: "nat \<Rightarrow> bytes \<Rightarrow> (bytes \<Rightarrow> bytes \<Rightarrow> 'a c_result) \<Rightarrow> 'a c_result" where
  \<comment> \<open>\<open>memcpy(x, pData + pos, n); pos += n;\<close>\<close>
  "get_bytes n p k = (if n \<le> length p then k (take n p) (drop n p) else Inl Read_Overrun)"

definition get_u8 :: "bytes \<Rightarrow> (byte \<Rightarrow> bytes \<Rightarrow> 'a c_result) \<Rightarrow> 'a c_result" where
  \<comment> \<open>\<open>x = *(pData + pos); pos++;\<close>\<close>
  "get_u8 p k = (case p of [] \<Rightarrow> Inl Read_Overrun | b # q \<Rightarrow> k b q)"

definition get_u16 :: "bytes \<Rightarrow> (u16 \<Rightarrow> bytes \<Rightarrow> 'a c_result) \<Rightarrow> 'a c_result" where
  \<comment> \<open>\<open>x = ln_misc_get16be(pData + pos); pos += sizeof(uint16_t);\<close>\<close>
  "get_u16 p k = bind_c (ln_misc_get16be p) (\<lambda>v. k v (drop 2 p))"

definition get_u32 :: "bytes \<Rightarrow> (u32 \<Rightarrow> bytes \<Rightarrow> 'a c_result) \<Rightarrow> 'a c_result" where
  "get_u32 p k = bind_c (ln_misc_get32be p) (\<lambda>v. k v (drop 4 p))"

definition get_u64 :: "bytes \<Rightarrow> (u64 \<Rightarrow> bytes \<Rightarrow> 'a c_result) \<Rightarrow> 'a c_result" where
  "get_u64 p k = bind_c (ln_misc_get64be p) (\<lambda>v. k v (drop 8 p))"

text \<open>Reading what stands at the cursor.\<close>

lemma get_bytes_append [wire]: "length x = n \<Longrightarrow> get_bytes n (x @ r) k = k x r"
  by (simp add: get_bytes_def)

lemma get_bytes_0 [simp]: "get_bytes 0 p k = k [] p"
  by (simp add: get_bytes_def)

lemma get_u8_Cons [wire]: "get_u8 (b # r) k = k b r"
  by (simp add: get_u8_def)

lemma get_u16_append [wire]: "get_u16 (be16 v @ r) k = k v r"
  by (simp add: get_u16_def)

lemma get_u32_append [wire]: "get_u32 (be32 v @ r) k = k v r"
  by (simp add: get_u32_def)

lemma get_u64_append [wire]: "get_u64 (be64 v @ r) k = k v r"
  by (simp add: get_u64_def)

lemma get_whole [wire]:
  "length x = n \<Longrightarrow> get_bytes n x kn = kn x []"
  "get_u16 (be16 v16) k16 = k16 v16 []"
  "get_u32 (be32 v32) k32 = k32 v32 []"
  "get_u64 (be64 v64) k64 = k64 v64 []"
  using get_u16_append [of v16 "[]" k16] get_u32_append [of v32 "[]" k32]
    get_u64_append [of v64 "[]" k64] by (simp_all add: get_bytes_def)

text \<open>A read that ends well found its field at the cursor.\<close>

lemma get_bytes_Inr_iff:
  "get_bytes n p k = Inr m \<longleftrightarrow> (\<exists>x q. p = x @ q \<and> length x = n \<and> k x q = Inr m)"
proof (cases "n \<le> length p")
  case True
  then have "p = take n p @ drop n p" "length (take n p) = n" by simp_all
  with True show ?thesis unfolding get_bytes_def by (metis append_eq_conv_conj)
qed (auto simp: get_bytes_def)

lemma get_u8_Inr_iff: "get_u8 p k = Inr m \<longleftrightarrow> (\<exists>b q. p = b # q \<and> k b q = Inr m)"
  by (auto simp: get_u8_def split: list.splits)

lemma get_u16_Inr_iff: "get_u16 p k = Inr m \<longleftrightarrow> (\<exists>v q. p = be16 v @ q \<and> k v q = Inr m)"
  by (auto simp: get_u16_def bind_c_Inr_iff get_be_Inr_iff) (metis append_take_drop_id)

lemma get_u32_Inr_iff: "get_u32 p k = Inr m \<longleftrightarrow> (\<exists>v q. p = be32 v @ q \<and> k v q = Inr m)"
  by (auto simp: get_u32_def bind_c_Inr_iff get_be_Inr_iff) (metis append_take_drop_id)

lemma get_u64_Inr_iff: "get_u64 p k = Inr m \<longleftrightarrow> (\<exists>v q. p = be64 v @ q \<and> k v q = Inr m)"
  by (auto simp: get_u64_def bind_c_Inr_iff get_be_Inr_iff) (metis append_take_drop_id)

text \<open>A reader whose checks are behind it either overruns or returns a value.\<close>

definition overrun_or_value :: "'a c_result \<Rightarrow> bool" where
  "overrun_or_value r \<longleftrightarrow> (case r of Inl e \<Rightarrow> e = Read_Overrun | Inr _ \<Rightarrow> True)"

lemma overrun_or_value_Inr [simp]: "overrun_or_value (Inr x)"
  by (simp add: overrun_or_value_def)

lemma overrun_or_value_get_bytes:
  "(\<And>x q. overrun_or_value (k x q)) \<Longrightarrow> overrun_or_value (get_bytes n p k)"
  by (simp add: get_bytes_def overrun_or_value_def)

lemma overrun_or_value_get_u16:
  "(\<And>x q. overrun_or_value (k x q)) \<Longrightarrow> overrun_or_value (get_u16 p k)"
  by (cases p rule: ln_misc_get16be.cases) (auto simp: get_u16_def overrun_or_value_def)

lemma overrun_or_value_eq: "overrun_or_value r \<Longrightarrow> r = Inl Read_Overrun \<longleftrightarrow> (\<nexists>x. r = Inr x)"
  by (cases r) (auto simp: overrun_or_value_def)

lemma be16_cases: "2 \<le> length d \<Longrightarrow> \<exists>v r. d = be16 v @ r"
  using u16be.get_long [of d] get_u16_Inr_iff [of d "\<lambda>v q. Inr ()" "()"]
  by (auto simp: get_u16_def ln_misc_get16be_eq)

lemmas get_Inr_iffs = get_bytes_Inr_iff get_u8_Inr_iff get_u16_Inr_iff get_u32_Inr_iff
  get_u64_Inr_iff check_c_Inr_iff

text \<open>
  A result is \<open>defined\<close> when the code neither overran an object, followed a NULL pointer nor failed
  an assertion: it returned a value or \<open>false\<close>.
\<close>

definition defined_c :: "'a c_result \<Rightarrow> bool" where
  "defined_c r \<longleftrightarrow> (case r of Inl e \<Rightarrow> e = Ret_False | Inr _ \<Rightarrow> True)"

lemma defined_c_simps [simp]: "defined_c (Inr x)" "defined_c (Inl e) \<longleftrightarrow> e = Ret_False"
  by (simp_all add: defined_c_def)

lemma defined_check: "(b \<Longrightarrow> defined_c k) \<Longrightarrow> defined_c (check_c b k)"
  by (simp add: check_c_def)

lemma defined_get_bytes:
  "n \<le> length p \<Longrightarrow> (\<And>x q. length x = n \<Longrightarrow> length p = n + length q \<Longrightarrow> defined_c (k x q)) \<Longrightarrow>
     defined_c (get_bytes n p k)"
  by (simp add: get_bytes_def)

lemma defined_get_u8:
  "1 \<le> length p \<Longrightarrow> (\<And>v q. length p = 1 + length q \<Longrightarrow> defined_c (k v q)) \<Longrightarrow>
     defined_c (get_u8 p k)"
  by (auto simp: get_u8_def split: list.splits)

lemma get_be_defined:
  "2 \<le> length p \<Longrightarrow> \<exists>v. ln_misc_get16be p = Inr v"
  "4 \<le> length p \<Longrightarrow> \<exists>v. ln_misc_get32be p = Inr v"
  "8 \<le> length p \<Longrightarrow> \<exists>v. ln_misc_get64be p = Inr v"
  by (simp_all add: ln_misc_get16be_eq ln_misc_get32be_eq ln_misc_get64be_eq
      u16be.get_long u32be.get_long u64be.get_long)

lemma defined_get_u16:
  "2 \<le> length p \<Longrightarrow> (\<And>v q. length p = 2 + length q \<Longrightarrow> defined_c (k v q)) \<Longrightarrow>
     defined_c (get_u16 p k)"
  using get_be_defined(1) [of p] by (auto simp: get_u16_def)

lemma defined_get_u32:
  "4 \<le> length p \<Longrightarrow> (\<And>v q. length p = 4 + length q \<Longrightarrow> defined_c (k v q)) \<Longrightarrow>
     defined_c (get_u32 p k)"
  using get_be_defined(2) [of p] by (auto simp: get_u32_def)

lemma defined_get_u64:
  "8 \<le> length p \<Longrightarrow> (\<And>v q. length p = 8 + length q \<Longrightarrow> defined_c (k v q)) \<Longrightarrow>
     defined_c (get_u64 p k)"
  using get_be_defined(3) [of p] by (auto simp: get_u64_def)

lemmas defined_intros = defined_check defined_get_bytes defined_get_u8 defined_get_u16
  defined_get_u32 defined_get_u64

section \<open>Building a message\<close>

text \<open>
  Every \<open>ln_msg_*_create\<close> has the same frame: \<open>utl_push_init\<close> with the size of the message, one push
  per field, \<open>assert(size == pBuf->len)\<close> and \<open>utl_push_trim\<close>. \<open>msg_build\<close> is that frame; its
  argument lists the pushes in the order of the source: \<open>P8\<close> to \<open>P64\<close> are the calls of
  \<open>ln_misc_push8\<close> to \<open>ln_misc_push64be\<close>, \<open>PN d n\<close> is \<open>utl_push_data(&proto, d, n)\<close>, and \<open>PF d\<close> is an
  area that is filled without a push, which does not grow the buffer:
  \<open>memset(pBuf->buf + proto.pos, c, n); proto.pos += n;\<close>, or \<open>proto.pos += n\<close> alone, where \<open>d\<close> is
  whatever the fresh block had there.
\<close>

datatype push_op = P8 byte | P16 u16 | P32 u32 | P64 u64 | PN bytes nat | is_PF: PF bytes

definition push_fill :: "utl_push_t \<Rightarrow> bytes \<Rightarrow> utl_push_t c_result" where
  "push_fill pPush d =
     (case buf (data pPush) of
        None \<Rightarrow> Inl Null_Deref
      | Some m \<Rightarrow> bind_c (put_bytes m (unat (pos pPush)) (map Some d)) (\<lambda>m.
          Inr (pPush\<lparr>pos := pos pPush + of_nat (length d), data := (data pPush)\<lparr>buf := Some m\<rparr>\<rparr>)))"

fun push_step :: "push_op \<Rightarrow> utl_push_t \<Rightarrow> utl_push_t c_result" where
  "push_step (P8 v) p = ln_misc_push8 p v"
| "push_step (P16 v) p = ln_misc_push16be p v"
| "push_step (P32 v) p = ln_misc_push32be p v"
| "push_step (P64 v) p = ln_misc_push64be p v"
| "push_step (PN d n) p = push_bytes p d n"
| "push_step (PF d) p = push_fill p d"

fun push_run :: "push_op list \<Rightarrow> utl_push_t \<Rightarrow> utl_push_t c_result" where
  "push_run [] p = Inr p"
| "push_run (f # fs) p = bind_c (push_step f p) (push_run fs)"

definition msg_build :: "nat \<Rightarrow> push_op list \<Rightarrow> utl_buf_t c_result" where
  "msg_build Size ops =
     bind_c (push_run ops (snd (utl_push_init always_ok UTL_BUF_INIT (of_nat Size)))) (\<lambda>proto.
     assert_c (Size = unat (len (data proto)))
       (Inr (data (snd (utl_push_trim always_ok proto)))))"

text \<open>The bytes that a push appends, and when it has them to append.\<close>

fun op_bytes :: "push_op \<Rightarrow> bytes" where
  "op_bytes (P8 v) = [v]"
| "op_bytes (P16 v) = be16 v"
| "op_bytes (P32 v) = be32 v"
| "op_bytes (P64 v) = be64 v"
| "op_bytes (PN d n) = take n d"
| "op_bytes (PF d) = d"

fun op_ok :: "push_op \<Rightarrow> bool" where
  "op_ok (PN d n) \<longleftrightarrow> n \<le> length d"
| "op_ok _ \<longleftrightarrow> True"

lemma push_bytes_eq:
  "length xs \<le> cap \<Longrightarrow> cap < 2 ^ 31 \<Longrightarrow> length xs + n < 2 ^ 31 \<Longrightarrow> n \<le> length d \<Longrightarrow>
     push_bytes (mk_push cap xs) d n = Inr (mk_push (max cap (length xs + n)) (xs @ take n d))"
  using utl_push_data_eq [of always_ok xs cap n d] by (simp add: push_bytes_def)

lemma push_fill_eq:
  assumes "0 < cap" "length xs + length d \<le> cap" "cap < 2 ^ 31"
  shows "push_fill (mk_push cap xs) d = Inr (mk_push cap (xs @ d))"
  using assms by (simp add: push_fill_def mk_push_def put_bytes_def ac_simps)

lemma push_step_eq:
  assumes "op_ok f" "length xs \<le> cap" "cap < 2 ^ 31" "length xs + length (op_bytes f) < 2 ^ 31"
    "is_PF f \<Longrightarrow> 0 < cap \<and> length xs + length (op_bytes f) \<le> cap"
  shows "push_step f (mk_push cap xs) =
    Inr (mk_push (max cap (length xs + length (op_bytes f))) (xs @ op_bytes f))"
  using assms by (cases f) (simp_all add: ln_misc_push8_def ln_misc_push_be push_bytes_eq push_fill_eq)

lemma push_run_eq:
  "list_all op_ok fs \<Longrightarrow> length xs \<le> cap \<Longrightarrow> cap < 2 ^ 31 \<Longrightarrow>
     length xs + length (concat (map op_bytes fs)) < 2 ^ 31 \<Longrightarrow>
     list_ex is_PF fs \<longrightarrow> 0 < cap \<and> length xs + length (concat (map op_bytes fs)) \<le> cap \<Longrightarrow>
   push_run fs (mk_push cap xs) =
     Inr (mk_push (max cap (length xs + length (concat (map op_bytes fs))))
            (xs @ concat (map op_bytes fs)))"
proof (induction fs arbitrary: cap xs)
  case Nil
  then show ?case by (simp add: max_def)
next
  case (Cons f fs)
  let ?d = "op_bytes f" and ?ds = "concat (map op_bytes fs)"
  have "push_step f (mk_push cap xs) = Inr (mk_push (max cap (length xs + length ?d)) (xs @ ?d))"
    using Cons.prems by (intro push_step_eq) auto
  moreover have "push_run fs (mk_push (max cap (length xs + length ?d)) (xs @ ?d)) =
      Inr (mk_push (max (max cap (length xs + length ?d)) (length (xs @ ?d) + length ?ds))
             ((xs @ ?d) @ ?ds))"
    using Cons.prems by (intro Cons.IH) auto
  moreover have "max (max cap (length xs + length ?d)) (length (xs @ ?d) + length ?ds) =
      max cap (length xs + length (concat (map op_bytes (f # fs))))"
    by (simp add: max_def)
  ultimately show ?case by simp
qed

lemma push_run_exact:
  assumes "list_all op_ok fs" "length (concat (map op_bytes fs)) = n" "n < 2 ^ 31" "0 < n"
  shows "push_run fs (snd (utl_push_init always_ok UTL_BUF_INIT (of_nat n))) =
    Inr (mk_push n (concat (map op_bytes fs)))"
  using push_run_eq [OF assms(1), of "[]" n] assms(2-4) by (simp add: utl_push_init_eq)

lemma msg_build_eq [wire]:
  assumes "list_all op_ok fs" "length (concat (map op_bytes fs)) \<le> n" "n < 2 ^ 31" "0 < n"
  shows "msg_build n fs = Inr (buf_of (concat (map op_bytes fs)))"
proof -
  let ?xs = "concat (map op_bytes fs)"
  have "snd (utl_push_init always_ok UTL_BUF_INIT (of_nat n)) = mk_push n []"
    using assms(3) by (simp add: utl_push_init_eq)
  moreover have "push_run fs (mk_push n []) = Inr (mk_push n ?xs)"
    using push_run_eq [OF assms(1), of "[]" n] assms(2-4) by simp
  moreover have "unat (len (data (mk_push n ?xs))) = n"
    using assms(3) by (simp add: mk_push_def)
  moreover have "utl_push_trim always_ok (mk_push n ?xs) = (True, mk_push (length ?xs) ?xs)"
    using assms(2,3) utl_push_trim_eq [of always_ok ?xs n] by simp
  ultimately show ?thesis
    using assms(2) data_mk_push [of ?xs] by (simp add: msg_build_def)
qed

text \<open>
  An assertion on the size fails exactly when the pushes need more room than was announced: the
  buffer has grown.
\<close>

lemma msg_build_too_small:
  assumes "list_all op_ok fs" "n < length (concat (map op_bytes fs))"
    "length (concat (map op_bytes fs)) < 2 ^ 31" "\<not> list_ex is_PF fs"
  shows "msg_build n fs = Inl Assert_Failed"
proof -
  let ?xs = "concat (map op_bytes fs)"
  have "snd (utl_push_init always_ok UTL_BUF_INIT (of_nat n)) = mk_push n []"
    using assms(2,3) by (simp add: utl_push_init_eq)
  moreover have "push_run fs (mk_push n []) = Inr (mk_push (length ?xs) ?xs)"
    using push_run_eq [OF assms(1), of "[]" n] assms(2-4) by simp
  moreover have "unat (len (data (mk_push (length ?xs) ?xs))) = length ?xs"
    using assms(3) unat_of_nat_u32 [of "length ?xs"] by (simp add: mk_push_def)
  ultimately show ?thesis using assms(2) by (simp add: msg_build_def)
qed

section \<open>The interface of a message component\<close>

text \<open>
  \<open>create\<close> and \<open>read\<close> are the two functions of a message; \<open>wire\<close> is its format, \<open>wf\<close> the
  messages that have one (array fields of the declared size, variable fields that fit their length
  field, values the creator does not refuse). Bytes behind the message are ignored by a reader, as
  BOLT#1 demands.
\<close>

locale wire_codec =
  fixes create :: "'m \<Rightarrow> utl_buf_t c_result"
    and read :: "bytes \<Rightarrow> 'm c_result"
    and wire :: "'m \<Rightarrow> bytes"
    and wf :: "'m \<Rightarrow> bool"
  assumes create_wire: "wf m \<Longrightarrow> create m = Inr (buf_of (wire m))"
    and read_wire: "wf m \<Longrightarrow> read (wire m @ r) = Inr m"
begin

lemma roundtrip: "wf m \<Longrightarrow> \<exists>xs. create m = Inr (buf_of xs) \<and> read xs = Inr m"
  using create_wire read_wire [of m "[]"] by auto

lemma wire_unique: "wf m \<Longrightarrow> wf m' \<Longrightarrow> wire m @ r = wire m' @ r' \<Longrightarrow> m = m' \<and> r = r'"
  using read_wire [of m r] read_wire [of m' r'] by simp

lemma create_inj:
  "wf m \<Longrightarrow> wf m' \<Longrightarrow> create m = create m' \<Longrightarrow> m = m'"
  using create_wire [of m] create_wire [of m'] wire_unique [of m m' "[]" "[]"]
  by (auto dest: arg_cong [where f = buf_bytes])

end

text \<open>A reader that has a defined result on every input, whatever the peer sends.\<close>

locale total_reader =
  fixes read :: "bytes \<Rightarrow> 'm c_result"
  assumes read_defined: "defined_c (read d)"
begin

lemma read_no_overrun: "read d \<noteq> Inl Read_Overrun"
  using read_defined [of d] by auto

lemma read_cases: "read d = Inl Ret_False \<or> (\<exists>m. read d = Inr m)"
  using read_defined [of d] by (cases "read d") auto

end

text \<open>A reader that accepts nothing but messages the creator would send, up to ignored bytes.\<close>

locale canonical_codec = wire_codec create read wire wf + total_reader read
  for create :: "'m \<Rightarrow> utl_buf_t c_result" and read wire wf +
  assumes read_sound: "read d = Inr m \<Longrightarrow> wf m \<and> (\<exists>r. d = wire m @ r)"
begin

lemma read_iff: "read d = Inr m \<longleftrightarrow> wf m \<and> (\<exists>r. d = wire m @ r)"
  using read_sound read_wire by auto

lemma reject_iff: "read d = Inl Ret_False \<longleftrightarrow> (\<nexists>m r. wf m \<and> d = wire m @ r)"
  using read_cases [of d] read_iff [of d] by fastforce

lemma recreate: "read d = Inr m \<Longrightarrow> \<exists>xs r. create m = Inr (buf_of xs) \<and> d = xs @ r"
  using read_sound create_wire by blast

end

end
