(* ===== verification/Ln_Const.thy ===== *)
theory Ln_Const
  imports Ln_Misc
begin

text \<open>
  Sizes and limits that the headers \<^verbatim>\<open>ln/ln.h\<close> and \<^verbatim>\<open>btc/btc.h\<close> fix, and the HTLC slot of a
  channel, \<^verbatim>\<open>ln_update_add_htlc_t\<close>, which is both the struct of the \<open>update_add_htlc\<close> message and
  the element of \<open>ln_self_t.cnl_add_htlc\<close>.
\<close>

definition LN_SZ_CHANNEL_ID :: nat where [simp]: "LN_SZ_CHANNEL_ID = 32"
definition LN_SZ_SIGNATURE :: nat where [simp]: "LN_SZ_SIGNATURE = 64"
definition LN_SZ_ONION_ROUTE :: nat where [simp]: "LN_SZ_ONION_ROUTE = 1366"
definition LN_SZ_PREIMAGE :: nat where [simp]: "LN_SZ_PREIMAGE = 32"
definition LN_FUNDIDX_MAX :: nat where [simp]: "LN_FUNDIDX_MAX = 6"
definition LN_HTLC_MAX :: nat where "LN_HTLC_MAX = 6"
definition BTC_SZ_HASH256 :: nat where [simp]: "BTC_SZ_HASH256 = 32"
definition BTC_SZ_TXID :: nat where [simp]: "BTC_SZ_TXID = 32"
definition BTC_SZ_PRIVKEY :: nat where [simp]: "BTC_SZ_PRIVKEY = 32"
definition BTC_SZ_PUBKEY :: nat where [simp]: "BTC_SZ_PUBKEY = 33"

definition LN_SATOSHI2MSAT :: "u64 \<Rightarrow> u64" where
  "LN_SATOSHI2MSAT sat = sat * 1000"

definition LN_MSAT2SATOSHI :: "u64 \<Rightarrow> u64" where
  "LN_MSAT2SATOSHI msat = msat div 1000"

section \<open>HTLC flags\<close>

text \<open>
  \<open>ln_htlcflag_t\<close> is a struct of bit fields that shares its storage with the 16-bit \<open>bits\<close>. The two
  multi-bit fields hold the constants \<open>LN_ADDHTLC_*\<close> and \<open>LN_DELHTLC_*\<close>; \<open>htlcflag_bits\<close> is the
  other view of the union, in the positions of the \<open>LN_HTLCFLAG_SFT_*\<close> macros.
\<close>

datatype addhtlc = LN_ADDHTLC_NONE | LN_ADDHTLC_OFFER | LN_ADDHTLC_RECV

datatype delhtlc = LN_DELHTLC_NONE | LN_DELHTLC_FULFILL | LN_DELHTLC_FAIL | LN_DELHTLC_MALFORMED

record ln_htlcflag_t =
  addhtlc :: addhtlc
  delhtlc :: delhtlc
  updsend :: bool
  comsend :: bool
  revrecv :: bool
  comrecv :: bool
  revsend :: bool
  fin_delhtlc :: delhtlc
  updwait :: bool

fun addhtlc_val :: "addhtlc \<Rightarrow> u16" where
  "addhtlc_val LN_ADDHTLC_NONE = 0"
| "addhtlc_val LN_ADDHTLC_OFFER = 1"
| "addhtlc_val LN_ADDHTLC_RECV = 2"

fun delhtlc_val :: "delhtlc \<Rightarrow> u16" where
  "delhtlc_val LN_DELHTLC_NONE = 0"
| "delhtlc_val LN_DELHTLC_FULFILL = 1"
| "delhtlc_val LN_DELHTLC_FAIL = 2"
| "delhtlc_val LN_DELHTLC_MALFORMED = 3"

definition htlcflag_bits :: "ln_htlcflag_t \<Rightarrow> u16" where
  "htlcflag_bits f =
     addhtlc_val (addhtlc f) OR push_bit 2 (delhtlc_val (delhtlc f)) OR
     push_bit 4 (of_bool (updsend f)) OR push_bit 5 (of_bool (comsend f)) OR
     push_bit 6 (of_bool (revrecv f)) OR push_bit 7 (of_bool (comrecv f)) OR
     push_bit 8 (of_bool (revsend f)) OR push_bit 9 (delhtlc_val (fin_delhtlc f)) OR
     push_bit 11 (of_bool (updwait f))"

definition flag_zero :: ln_htlcflag_t where
  "flag_zero = \<lparr>addhtlc = LN_ADDHTLC_NONE, delhtlc = LN_DELHTLC_NONE, updsend = False,
     comsend = False, revrecv = False, comrecv = False, revsend = False,
     fin_delhtlc = LN_DELHTLC_NONE, updwait = False\<rparr>"

section \<open>The HTLC slot\<close>

text \<open>The \<open>utl_buf_t\<close> fields are given by their contents; an empty buffer is \<open>[]\<close>.\<close>

record ln_update_add_htlc_t =
  p_channel_id :: bytes
  htlc_id :: u64
  amount_msat :: u64
  cltv_expiry :: u32
  payment_sha256 :: bytes
  buf_payment_preimage :: bytes
  buf_onion_reason :: bytes
  flag :: ln_htlcflag_t
  next_short_channel_id :: u64
  next_idx :: u16
  htlc_signature :: bytes
  prev_short_channel_id :: u64
  prev_idx :: u16
  buf_shared_secret :: bytes

text \<open>A slot after \<open>memset(p_htlc, 0, sizeof(ln_update_add_htlc_t))\<close>.\<close>

definition htlc_zero :: ln_update_add_htlc_t where
  "htlc_zero = \<lparr>p_channel_id = [], htlc_id = 0, amount_msat = 0, cltv_expiry = 0,
     payment_sha256 = replicate 32 0, buf_payment_preimage = [], buf_onion_reason = [],
     flag = flag_zero, next_short_channel_id = 0, next_idx = 0,
     htlc_signature = replicate 64 0, prev_short_channel_id = 0, prev_idx = 0,
     buf_shared_secret = []\<rparr>"

end
