(* ===== verification/Msg_Setupctl.thy ===== *)
theory Msg_Setupctl
  imports Ln_Const
begin

text \<open>
  \<^verbatim>\<open>ln/ln_msg_setupctl.c\<close>: the messages that set up and control a connection, \<open>init\<close>,
  \<open>error\<close>, \<open>ping\<close> and \<open>pong\<close>. \<open>init\<close> is a canonical codec. The readers of \<open>ping\<close> and \<open>pong\<close>
  do not look at the ignored bytes, so they accept more than the creators send. The reader of
  \<open>error\<close> is not total: it compares the length of the message with 6 and then reads 36 bytes and
  more.
\<close>

section \<open>init\<close>

record ln_init_t =
  globalfeatures :: bytes
  localfeatures :: bytes

definition ln_msg_init_create :: "ln_init_t \<Rightarrow> utl_buf_t c_result" where
  "ln_msg_init_create pMsg =
     msg_build (2 + 4 + length (globalfeatures pMsg) + length (localfeatures pMsg))
       ([P16 MSGTYPE_INIT,
         P16 (of_nat (length (globalfeatures pMsg)))] @
        (if 0 < length (globalfeatures pMsg)
         then [PN (globalfeatures pMsg) (length (globalfeatures pMsg))] else []) @
        [P16 (of_nat (length (localfeatures pMsg)))] @
        (if 0 < length (localfeatures pMsg)
         then [PN (localfeatures pMsg) (length (localfeatures pMsg))] else []))"

definition ln_msg_init_read :: "bytes \<Rightarrow> ln_init_t c_result" where
  "ln_msg_init_read pData =
     (let Len = length pData in
     check_c (\<not> Len < 2 + 4) (
     get_u16 pData (\<lambda>type p.
     check_c (type = MSGTYPE_INIT) (
     get_u16 p (\<lambda>gflen p.
     check_c (\<not> Len < 2 + 4 + unat gflen) (
     get_bytes (unat gflen) p (\<lambda>gf p.
     get_u16 p (\<lambda>lflen p.
     check_c (\<not> Len < 2 + 4 + unat gflen + unat lflen) (
     get_bytes (unat lflen) p (\<lambda>lf p.
     Inr \<lparr>globalfeatures = gf, localfeatures = lf\<rparr>))))))))))"

definition init_wire :: "ln_init_t \<Rightarrow> bytes" where
  "init_wire m =
     be16 MSGTYPE_INIT @ be16 (of_nat (length (globalfeatures m))) @ globalfeatures m @
     be16 (of_nat (length (localfeatures m))) @ localfeatures m"

definition init_wf :: "ln_init_t \<Rightarrow> bool" where
  "init_wf m \<longleftrightarrow> length (globalfeatures m) < 2 ^ 16 \<and> length (localfeatures m) < 2 ^ 16"

lemmas init_defs = ln_msg_init_create_def ln_msg_init_read_def init_wire_def init_wf_def

interpretation init: canonical_codec ln_msg_init_create ln_msg_init_read init_wire init_wf
  by unfold_locales (auto simp: init_defs wire get_Inr_iffs unat_u16_less Let_def
      intro!: defined_intros)

section \<open>error\<close>

text \<open>
  \<open>p_data\<close> points to \<open>len\<close> bytes and, after a read, to a NUL behind them.
\<close>

record ln_error_t =
  err_channel_id :: bytes
  err_len :: u16
  err_data :: bytes

definition ln_msg_error_create :: "ln_error_t \<Rightarrow> utl_buf_t c_result" where
  "ln_msg_error_create pMsg =
     msg_build (2 + LN_SZ_CHANNEL_ID + 2 + unat (err_len pMsg))
       ([P16 MSGTYPE_ERROR,
         PN (err_channel_id pMsg) LN_SZ_CHANNEL_ID,
         P16 (err_len pMsg)] @
        (if 0 < err_len pMsg then [PN (err_data pMsg) (unat (err_len pMsg))] else []))"

definition ln_msg_error_read :: "bytes \<Rightarrow> ln_error_t c_result" where
  "ln_msg_error_read pData =
     check_c (\<not> length pData < 2 + 4) (
     get_u16 pData (\<lambda>type p.
     check_c (type = MSGTYPE_ERROR) (
     get_bytes LN_SZ_CHANNEL_ID p (\<lambda>channel_id p.
     get_u16 p (\<lambda>len p.
     get_bytes (unat len) p (\<lambda>dat p.
     Inr \<lparr>err_channel_id = channel_id, err_len = len, err_data = dat @ [0]\<rparr>))))))"

definition error_wire :: "ln_error_t \<Rightarrow> bytes" where
  "error_wire m =
     be16 MSGTYPE_ERROR @ err_channel_id m @ be16 (err_len m) @ take (unat (err_len m)) (err_data m)"

definition error_wf :: "ln_error_t \<Rightarrow> bool" where
  "error_wf m \<longleftrightarrow>
     length (err_channel_id m) = LN_SZ_CHANNEL_ID \<and>
     (\<exists>d. length d = unat (err_len m) \<and> err_data m = d @ [0])"

lemmas error_defs = ln_msg_error_create_def ln_msg_error_read_def error_wire_def error_wf_def

interpretation error: wire_codec ln_msg_error_create ln_msg_error_read error_wire error_wf
proof
  fix m :: ln_error_t and r :: bytes
  assume "error_wf m"
  then show "ln_msg_error_create m = Inr (buf_of (error_wire m))"
    using unat_u16_less [of "err_len m"]
    by (auto simp: error_defs wire word_greater_zero_iff unat_eq_0)
  show "ln_msg_error_read (error_wire m @ r) = Inr m"
    using \<open>error_wf m\<close> by (auto simp: error_defs wire)
qed

text \<open>
  The reader of \<open>error\<close> reads behind the end of the message exactly when the message has the type
  \<open>error\<close> and at least four further bytes, but is not a complete \<open>error\<close> message: it is too short for
  the channel id and the length field, or the length field announces more data than there are.
\<close>

theorem error_read_overrun_iff:
  "ln_msg_error_read d = Inl Read_Overrun \<longleftrightarrow>
     (\<exists>r. d = be16 MSGTYPE_ERROR @ r \<and> 4 \<le> length r \<and>
        (\<nexists>c n q. r = c @ be16 n @ q \<and> length c = LN_SZ_CHANNEL_ID \<and> unat n \<le> length q))"
proof (cases "length d < 6 \<or> (\<nexists>r. d = be16 MSGTYPE_ERROR @ r)")
  case True
  then have "ln_msg_error_read d = Inl Ret_False"
    using be16_cases [of d] by (auto simp: ln_msg_error_read_def wire check_c_def)
  then show ?thesis using True by auto
next
  case False
  then obtain r where d: "d = be16 MSGTYPE_ERROR @ r" "4 \<le> length r" by auto
  define body where "body = get_bytes 32 r (\<lambda>channel_id p. get_u16 p (\<lambda>len p.
    get_bytes (unat len) p (\<lambda>dat p.
    Inr \<lparr>err_channel_id = channel_id, err_len = len, err_data = dat @ [0]\<rparr>)))"
  have "ln_msg_error_read d = body"
    using d by (simp add: ln_msg_error_read_def wire body_def)
  moreover have "overrun_or_value body"
    unfolding body_def by (intro overrun_or_value_get_bytes overrun_or_value_get_u16) simp
  moreover have "(\<exists>m. body = Inr m) \<longleftrightarrow>
      (\<exists>c n q. r = c @ be16 n @ q \<and> length c = LN_SZ_CHANNEL_ID \<and> unat n \<le> length q)"
    by (simp add: body_def get_Inr_iffs length_ge_append_conv) metis
  ultimately show ?thesis using d overrun_or_value_eq [of body] by auto
qed

section \<open>ping\<close>

record ln_ping_t =
  num_pong_bytes :: u16
  ping_byteslen :: u16

definition ln_msg_ping_create :: "ln_ping_t \<Rightarrow> utl_buf_t c_result" where
  "ln_msg_ping_create pMsg =
     check_c (\<not> 65532 \<le> num_pong_bytes pMsg) (
     msg_build (2 + 4 + unat (ping_byteslen pMsg))
       [P16 MSGTYPE_PING,
        P16 (num_pong_bytes pMsg),
        P16 (ping_byteslen pMsg),
        PF (replicate (unat (ping_byteslen pMsg)) 0)])"

definition ln_msg_ping_read :: "bytes \<Rightarrow> ln_ping_t c_result" where
  "ln_msg_ping_read pData =
     (let Len = length pData in
     check_c (\<not> Len < 2 + 4) (
     get_u16 pData (\<lambda>type p.
     check_c (type = MSGTYPE_PING) (
     get_u16 p (\<lambda>num p.
     check_c (\<not> 65531 < num) (
     get_u16 p (\<lambda>byteslen p.
     check_c (\<not> Len < 2 + 4 + unat byteslen) (
     Inr \<lparr>num_pong_bytes = num, ping_byteslen = byteslen\<rparr>))))))))"

definition ping_wire :: "ln_ping_t \<Rightarrow> bytes" where
  "ping_wire m =
     be16 MSGTYPE_PING @ be16 (num_pong_bytes m) @ be16 (ping_byteslen m) @
     replicate (unat (ping_byteslen m)) 0"

definition ping_wf :: "ln_ping_t \<Rightarrow> bool" where
  "ping_wf m \<longleftrightarrow> num_pong_bytes m \<le> 65531"

lemmas ping_defs = ln_msg_ping_create_def ln_msg_ping_read_def ping_wire_def ping_wf_def

lemma pong_limit: "65532 \<le> (v::u16) \<longleftrightarrow> \<not> v \<le> 65531"
  by (simp add: word_le_nat_alt) linarith

interpretation ping: wire_codec ln_msg_ping_create ln_msg_ping_read ping_wire ping_wf
proof
  fix m :: ln_ping_t and r :: bytes
  assume "ping_wf m"
  then show "ln_msg_ping_create m = Inr (buf_of (ping_wire m))"
    using unat_u16_less [of "ping_byteslen m"] by (auto simp: ping_defs wire pong_limit)
  show "ln_msg_ping_read (ping_wire m @ r) = Inr m"
    using \<open>ping_wf m\<close> by (auto simp: ping_defs wire Let_def not_less)
qed

interpretation ping: total_reader ln_msg_ping_read
  by unfold_locales (auto simp: ping_defs Let_def intro!: defined_intros)

section \<open>pong\<close>

record ln_pong_t =
  pong_byteslen :: u16

definition ln_msg_pong_create :: "ln_pong_t \<Rightarrow> utl_buf_t c_result" where
  "ln_msg_pong_create pMsg =
     check_c (\<not> 65532 \<le> pong_byteslen pMsg) (
     msg_build (2 + 2 + unat (pong_byteslen pMsg))
       [P16 MSGTYPE_PONG,
        P16 (pong_byteslen pMsg),
        PF (replicate (unat (pong_byteslen pMsg)) 0)])"

definition ln_msg_pong_read :: "bytes \<Rightarrow> ln_pong_t c_result" where
  "ln_msg_pong_read pData =
     (let Len = length pData in
     check_c (\<not> Len < 2 + 2) (
     get_u16 pData (\<lambda>type p.
     check_c (type = MSGTYPE_PONG) (
     get_u16 p (\<lambda>byteslen p.
     check_c (\<not> 65531 < byteslen) (
     check_c (\<not> Len < 2 + 2 + unat byteslen) (
     Inr \<lparr>pong_byteslen = byteslen\<rparr>)))))))"

definition pong_wire :: "ln_pong_t \<Rightarrow> bytes" where
  "pong_wire m =
     be16 MSGTYPE_PONG @ be16 (pong_byteslen m) @ replicate (unat (pong_byteslen m)) 0"

definition pong_wf :: "ln_pong_t \<Rightarrow> bool" where
  "pong_wf m \<longleftrightarrow> pong_byteslen m \<le> 65531"

lemmas pong_defs = ln_msg_pong_create_def ln_msg_pong_read_def pong_wire_def pong_wf_def

interpretation pong: wire_codec ln_msg_pong_create ln_msg_pong_read pong_wire pong_wf
proof
  fix m :: ln_pong_t and r :: bytes
  assume "pong_wf m"
  then show "ln_msg_pong_create m = Inr (buf_of (pong_wire m))"
    using unat_u16_less [of "pong_byteslen m"] by (auto simp: pong_defs wire pong_limit)
  show "ln_msg_pong_read (pong_wire m @ r) = Inr m"
    using \<open>pong_wf m\<close> by (auto simp: pong_defs wire Let_def not_less)
qed

interpretation pong: total_reader ln_msg_pong_read
  by unfold_locales (auto simp: pong_defs Let_def intro!: defined_intros)

end
