(* ===== verification/Msg_Close.thy ===== *)
theory Msg_Close
  imports Ln_Const
begin

text \<open>
  \<^verbatim>\<open>ln/ln_msg_close.c\<close>: the messages of a mutual close, \<open>shutdown\<close> and \<open>closing_signed\<close>. Both
  are canonical codecs.
\<close>

section \<open>shutdown\<close>

record ln_shutdown_t =
  sd_channel_id :: bytes
  sd_scriptpk :: bytes

definition ln_msg_shutdown_create :: "ln_shutdown_t \<Rightarrow> utl_buf_t c_result" where
  "ln_msg_shutdown_create pMsg =
     msg_build (2 + 34 + length (sd_scriptpk pMsg))
       [P16 MSGTYPE_SHUTDOWN,
        PN (sd_channel_id pMsg) LN_SZ_CHANNEL_ID,
        P16 (of_nat (length (sd_scriptpk pMsg))),
        PN (sd_scriptpk pMsg) (length (sd_scriptpk pMsg))]"

definition ln_msg_shutdown_read :: "bytes \<Rightarrow> ln_shutdown_t c_result" where
  "ln_msg_shutdown_read pData =
     check_c (\<not> length pData < 2 + 34) (
     get_u16 pData (\<lambda>type p.
     check_c (type = MSGTYPE_SHUTDOWN) (
     get_bytes LN_SZ_CHANNEL_ID p (\<lambda>channel_id p.
     get_u16 p (\<lambda>len p.
     check_c (\<not> length p < unat len) (
     get_bytes (unat len) p (\<lambda>scriptpk p.
     Inr \<lparr>sd_channel_id = channel_id, sd_scriptpk = scriptpk\<rparr>)))))))"

definition shutdown_wire :: "ln_shutdown_t \<Rightarrow> bytes" where
  "shutdown_wire m =
     be16 MSGTYPE_SHUTDOWN @ sd_channel_id m @ be16 (of_nat (length (sd_scriptpk m))) @ sd_scriptpk m"

definition shutdown_wf :: "ln_shutdown_t \<Rightarrow> bool" where
  "shutdown_wf m \<longleftrightarrow>
     length (sd_channel_id m) = LN_SZ_CHANNEL_ID \<and> length (sd_scriptpk m) < 2 ^ 16"

lemmas shutdown_defs = ln_msg_shutdown_create_def ln_msg_shutdown_read_def shutdown_wire_def
  shutdown_wf_def

interpretation shutdown: canonical_codec ln_msg_shutdown_create ln_msg_shutdown_read
  shutdown_wire shutdown_wf
  by unfold_locales (auto simp: shutdown_defs wire get_Inr_iffs unat_u16_less
      intro!: defined_intros)

section \<open>closing_signed\<close>

record ln_closing_signed_t =
  clo_channel_id :: bytes
  clo_fee_sat :: u64
  clo_signature :: bytes

definition ln_msg_closing_signed_create :: "ln_closing_signed_t \<Rightarrow> utl_buf_t c_result" where
  "ln_msg_closing_signed_create pMsg =
     msg_build (2 + 104)
       [P16 MSGTYPE_CLOSING_SIGNED,
        PN (clo_channel_id pMsg) LN_SZ_CHANNEL_ID,
        P64 (clo_fee_sat pMsg),
        PN (clo_signature pMsg) LN_SZ_SIGNATURE]"

definition ln_msg_closing_signed_read :: "bytes \<Rightarrow> ln_closing_signed_t c_result" where
  "ln_msg_closing_signed_read pData =
     check_c (\<not> length pData < 2 + 104) (
     get_u16 pData (\<lambda>type p.
     check_c (type = MSGTYPE_CLOSING_SIGNED) (
     get_bytes LN_SZ_CHANNEL_ID p (\<lambda>channel_id p.
     get_u64 p (\<lambda>fee p.
     get_bytes LN_SZ_SIGNATURE p (\<lambda>signature p.
     Inr \<lparr>clo_channel_id = channel_id, clo_fee_sat = fee, clo_signature = signature\<rparr>))))))"

definition closing_signed_wire :: "ln_closing_signed_t \<Rightarrow> bytes" where
  "closing_signed_wire m =
     be16 MSGTYPE_CLOSING_SIGNED @ clo_channel_id m @ be64 (clo_fee_sat m) @ clo_signature m"

definition closing_signed_wf :: "ln_closing_signed_t \<Rightarrow> bool" where
  "closing_signed_wf m \<longleftrightarrow>
     length (clo_channel_id m) = LN_SZ_CHANNEL_ID \<and> length (clo_signature m) = LN_SZ_SIGNATURE"

lemmas closing_signed_defs = ln_msg_closing_signed_create_def ln_msg_closing_signed_read_def
  closing_signed_wire_def closing_signed_wf_def

interpretation closing_signed: canonical_codec ln_msg_closing_signed_create
  ln_msg_closing_signed_read closing_signed_wire closing_signed_wf
  by unfold_locales (auto simp: closing_signed_defs wire get_Inr_iffs intro!: defined_intros)

end
