(* ===== verification/Ln_Sig.thy ===== *)
theory Ln_Sig
  imports Ln_Const
begin

text \<open>
  The second half of \<^verbatim>\<open>ln/ln_misc.c\<close>: signatures in compact form (64 bytes, \<open>r\<close> and \<open>s\<close>) and in
  DER form (\<open>ln_misc_sigtrim\<close>, \<open>ln_misc_sigexpand\<close>), the channel id and the short channel id. The
  main results are that a compact signature survives the conversion to DER and back, and that the
  short channel id is a bijection between 64-bit words and its three parts.
\<close>

section \<open>Byte order\<close>

definition ln_misc_setbe :: "bytes \<Rightarrow> nat \<Rightarrow> bytes c_result" where
  "ln_misc_setbe pData Len =
     (if length pData < Len then Inl Read_Overrun
      else Inr (map (\<lambda>lp. pData ! (Len - lp - 1)) [0..<Len]))"

lemma ln_misc_setbe_rev: "ln_misc_setbe p (length p) = Inr (rev p)"
  by (auto simp: ln_misc_setbe_def rev_nth intro!: nth_equalityI)

section \<open>From DER to compact\<close>

definition get_at :: "nat \<Rightarrow> bytes \<Rightarrow> (byte \<Rightarrow> 'a c_result) \<Rightarrow> 'a c_result" where
  \<comment> \<open>\<open>p[i]\<close>\<close>
  "get_at i p k = (if i < length p then k (p ! i) else Inl Read_Overrun)"

text \<open>
  The loop that removes leading zeros: both \<open>lp\<close> and the bound \<open>sz - 1\<close> move, so it stops half way
  through a run of zeros. The result is the remaining size and the remaining bytes.
\<close>

fun sig_strip :: "nat \<Rightarrow> nat \<Rightarrow> bytes \<Rightarrow> (nat \<times> bytes) c_result" where
  "sig_strip lp sz [] = (if lp + 1 < sz then Inl Read_Overrun else Inr (sz, []))"
| "sig_strip lp sz (b # p) =
     (if lp + 1 < sz
      then (if b \<noteq> 0 then Inr (sz, b # p) else sig_strip (lp + 1) (sz - 1) p)
      else Inr (sz, b # p))"

definition sig_part :: "nat \<Rightarrow> bytes \<Rightarrow> (bytes \<Rightarrow> bytes \<Rightarrow> 'a c_result) \<Rightarrow> 'a c_result" where
  \<comment> \<open>one of the two integers: the zero removal, the test of the size, padding and copying\<close>
  "sig_part sz p k =
     bind_c (sig_strip 0 sz p) (\<lambda>(sz, p).
     check_c (\<not> 32 < sz) (
     get_bytes sz p (\<lambda>x p. k (replicate (32 - sz) 0 @ x) p)))"

definition ln_misc_sigtrim :: "bytes \<Rightarrow> bytes c_result" where
  "ln_misc_sigtrim pBuf =
     get_at 1 pBuf (\<lambda>b1.
     get_at 3 pBuf (\<lambda>sz_r.
     get_at (4 + unat sz_r + 1) pBuf (\<lambda>sz_s.
     let sz = b1 - 4 in
     check_c (\<not> unat sz \<noteq> unat sz_r + unat sz_s) (
     sig_part (unat sz_r) (drop 4 pBuf) (\<lambda>r p.
     get_bytes 2 p (\<lambda>_ p.
     sig_part (unat sz_s) p (\<lambda>s _. Inr (r @ s))))))))"

section \<open>From compact to DER\<close>

fun sig_lead :: "nat \<Rightarrow> bytes \<Rightarrow> bytes" where
  "sig_lead (Suc lp) (b # p) = (if b \<noteq> 0 then b # p else sig_lead lp p)"
| "sig_lead _ p = p"

definition ln_misc_sigexpand :: "bytes \<Rightarrow> utl_buf_t c_result" where
  "ln_misc_sigexpand pBuf =
     (if length pBuf < 64 then Inl Read_Overrun
      else
        (let r_p = sig_lead 31 (take 32 pBuf);
             s_p = sig_lead 31 (take 32 (drop 32 pBuf));
             r_neg = hd r_p AND 0x80 \<noteq> 0; s_neg = hd s_p AND 0x80 \<noteq> 0;
             r_len = length r_p + (if r_neg then 1 else 0);
             s_len = length s_p + (if s_neg then 1 else 0) in
         bind_c (push_run
           ([PN [0x30, of_nat (4 + r_len + s_len), 0x02, of_nat r_len] 4] @
            (if r_neg then [PN [0x00] 1] else []) @
            [PN r_p (length r_p), PN [0x02, of_nat s_len] 2] @
            (if s_neg then [PN [0x00] 1] else []) @
            [PN s_p (length s_p), PN [0x01] 1])
           (snd (utl_push_init always_ok UTL_BUF_INIT (of_nat (7 + r_len + s_len))))) (\<lambda>push.
         Inr (data push))))"

section \<open>The round trip\<close>

text \<open>\<open>int32 x\<close>: the 32-byte big endian form of an integer given by at most 32 bytes.\<close>

definition int32 :: "bytes \<Rightarrow> bytes" where
  "int32 x = replicate (32 - length x) 0 @ x"

definition der_int :: "bytes \<Rightarrow> bytes" where
  \<comment> \<open>the DER form of the integer in 32 bytes\<close>
  "der_int x =
     (let l = sig_lead 31 x in if hd l AND 0x80 \<noteq> 0 then 0 # l else l)"

definition der_sig :: "bytes \<Rightarrow> bytes" where
  "der_sig rs =
     (let r = der_int (take 32 rs); s = der_int (drop 32 rs) in
      [0x30, of_nat (4 + length r + length s), 0x02, of_nat (length r)] @ r @
      [0x02, of_nat (length s)] @ s @ [0x01])"

lemma int32_shift: "length x + a \<le> 32 \<Longrightarrow> int32 (replicate a 0 @ x) = int32 x"
  by (simp add: int32_def flip: replicate_add append_assoc)

lemma sig_lead_split:
  "\<exists>a. x = replicate a 0 @ sig_lead n x \<and> a + length (sig_lead n x) = length x"
proof (induction n x rule: sig_lead.induct)
  case (1 lp b p)
  show ?case
  proof (cases "b = 0")
    case True
    with 1 obtain a where "p = replicate a 0 @ sig_lead lp p" "a + length (sig_lead lp p) = length p"
      by auto
    with True show ?thesis by (intro exI [of _ "Suc a"]) simp
  qed simp
qed simp_all

lemma sig_lead_nonempty: "n < length x \<Longrightarrow> sig_lead n x \<noteq> []"
  by (induction n x rule: sig_lead.induct) auto

lemma sig_strip_spec:
  assumes "length x = sz"
  shows "\<exists>a y. sig_strip lp sz (x @ q) = Inr (length y, y @ q) \<and> x = replicate a 0 @ y \<and>
    (lp + 1 < sz \<and> hd x = 0 \<longrightarrow> 0 < a)"
  using assms
proof (induction x arbitrary: lp sz)
  case Nil
  then show ?case by (cases q) (auto intro!: exI [of _ "[]"])
next
  case (Cons b x)
  show ?case
  proof (cases "lp + 1 < sz \<and> b = 0")
    case True
    obtain a y where "sig_strip (lp + 1) (sz - 1) (x @ q) = Inr (length y, y @ q)"
      "x = replicate a 0 @ y"
      using Cons.IH [of "sz - 1" "lp + 1"] Cons.prems by fastforce
    with True show ?thesis by (intro exI [of _ "Suc a"] exI [of _ y]) simp
  next
    case False
    with Cons.prems show ?thesis by (intro exI [of _ 0] exI [of _ "b # x"]) auto
  qed
qed

lemma der_int_spec:
  assumes "length x = 32"
  obtains a where "der_int x = replicate a 0 @ sig_lead 31 x" "a \<le> 1"
    "sig_lead 31 x \<noteq> []" "length (sig_lead 31 x) \<le> 32" "int32 (sig_lead 31 x) = x"
proof -
  obtain b where b: "x = replicate b 0 @ sig_lead 31 x" "b + length (sig_lead 31 x) = length x"
    using sig_lead_split [of x 31] by blast
  have "int32 (sig_lead 31 x) = x"
    using b assms by (simp add: int32_def) (metis add_diff_cancel_right')
  moreover have "sig_lead 31 x \<noteq> []" using sig_lead_nonempty [of 31 x] assms by simp
  moreover have "length (sig_lead 31 x) \<le> 32" using b assms by simp
  moreover have "\<exists>a\<le>1. der_int x = replicate a 0 @ sig_lead 31 x"
    by (cases "hd (sig_lead 31 x) AND 0x80 \<noteq> 0")
      (auto simp: der_int_def Let_def intro: exI [of _ 1] exI [of _ 0])
  ultimately show ?thesis using that by blast
qed

lemma length_der_int: "length x = 32 \<Longrightarrow> 1 \<le> length (der_int x) \<and> length (der_int x) \<le> 33"
  by (elim der_int_spec) (auto simp: Suc_le_eq)

lemma sig_part_der_int:
  assumes "length x = 32"
  shows "sig_part (length (der_int x)) (der_int x @ q) k = k x q"
proof -
  obtain a where a: "der_int x = replicate a 0 @ sig_lead 31 x" "a \<le> 1"
    "sig_lead 31 x \<noteq> []" "length (sig_lead 31 x) \<le> 32" "int32 (sig_lead 31 x) = x"
    using der_int_spec [OF assms] .
  obtain b y where y: "sig_strip 0 (length (der_int x)) (der_int x @ q) = Inr (length y, y @ q)"
    "der_int x = replicate b 0 @ y" "1 < length (der_int x) \<and> hd (der_int x) = 0 \<longrightarrow> 0 < b"
    using sig_strip_spec [of "der_int x" "length (der_int x)" 0 q] by fastforce
  have ab: "replicate a 0 @ sig_lead 31 x = replicate b 0 @ y" using a y by simp
  have "int32 y = x \<and> length y \<le> 32"
  proof (cases "b \<le> a")
    case True
    then have "y = replicate (a - b) 0 @ sig_lead 31 x"
      using ab by (metis append_assoc le_add_diff_inverse replicate_add same_append_eq)
    moreover have "length (sig_lead 31 x) + (a - b) \<le> 32"
      using a y(2,3) True by (cases "a = 0") (auto simp: le_Suc_eq)
    ultimately show ?thesis using a(5) int32_shift by simp
  next
    case False
    then have "sig_lead 31 x = replicate (b - a) 0 @ y"
      using ab by (metis append_assoc le_add_diff_inverse nat_le_linear replicate_add same_append_eq)
    moreover from this have "length y + (b - a) \<le> 32" using a(4) by simp
    ultimately show ?thesis using a(5) int32_shift [of y "b - a"] by simp
  qed
  with y(1) show ?thesis
    by (simp add: sig_part_def wire int32_def not_less)
qed

lemma data_mk_push_eq: "length xs = n \<Longrightarrow> data (mk_push n xs) = buf_of xs"
  using data_mk_push by blast

lemma ln_misc_sigexpand_eq:
  assumes "length rs = 64"
  shows "ln_misc_sigexpand rs = Inr (buf_of (der_sig rs))"
proof -
  let ?r = "sig_lead 31 (take 32 rs)" and ?s = "sig_lead 31 (drop 32 rs)"
  have s: "take 32 (drop 32 rs) = drop 32 rs" using assms by simp
  have len: "length ?r \<le> 32" "length ?s \<le> 32"
    using sig_lead_split [of "take 32 rs" 31] sig_lead_split [of "drop 32 rs" 31] assms by auto
  show ?thesis
    unfolding ln_misc_sigexpand_def s Let_def
    using assms len
    by (subst push_run_exact) (auto simp: der_sig_def der_int_def Let_def data_mk_push_eq ac_simps)
qed

lemma ln_misc_sigtrim_der_sig:
  assumes "length rs = 64"
  shows "ln_misc_sigtrim (der_sig rs) = Inr rs"
proof -
  let ?r = "der_int (take 32 rs)" and ?s = "der_int (drop 32 rs)"
  have len: "length ?r \<le> 33" "length ?s \<le> 33"
    using length_der_int [of "take 32 rs"] length_der_int [of "drop 32 rs"] assms by auto
  have [simp]: "unat (of_nat (length ?r) :: byte) = length ?r"
    "unat (of_nat (length ?s) :: byte) = length ?s"
    "unat (of_nat (length ?r) + of_nat (length ?s) :: byte) = length ?r + length ?s"
    using len by (simp_all add: unat_of_nat take_bit_nat_eq_self flip: of_nat_add)
  have at: "der_sig rs = [0x30, of_nat (4 + length ?r + length ?s), 0x02, of_nat (length ?r)] @ ?r @
      [0x02, of_nat (length ?s)] @ ?s @ [0x01]"
    by (simp add: der_sig_def Let_def)
  then have "der_sig rs ! 1 = of_nat (4 + length ?r + length ?s)"
    "der_sig rs ! 3 = of_nat (length ?r)"
    "der_sig rs ! (5 + length ?r) = of_nat (length ?s)"
    "length (der_sig rs) = 7 + length ?r + length ?s"
    "drop 4 (der_sig rs) = ?r @ [0x02, of_nat (length ?s)] @ ?s @ [0x01]"
    by (simp_all add: nth_append nth_Cons')
  moreover have "get_bytes 2 ([a, b] @ p) k = k [a, b] p" for a b p and k :: "_ \<Rightarrow> _ \<Rightarrow> bytes c_result"
    by (simp add: get_bytes_def)
  ultimately show ?thesis
    using assms by (simp add: ln_misc_sigtrim_def get_at_def sig_part_der_int)
qed

text \<open>
  Every 64-byte signature is turned into a DER signature, and \<^verbatim>\<open>ln_misc_sigtrim\<close> gets
  the same 64 bytes back from it, whatever leading zeros and leading one bits \<open>r\<close> and \<open>s\<close> have.
\<close>

theorem sigexpand_sigtrim:
  assumes "length rs = 64"
  shows "\<exists>d. ln_misc_sigexpand rs = Inr (buf_of d) \<and> ln_misc_sigtrim d = Inr rs"
  using ln_misc_sigexpand_eq [OF assms] ln_misc_sigtrim_der_sig [OF assms] by blast

theorem sigexpand_sigtrim_witness:
  "\<exists>d. ln_misc_sigexpand (replicate 31 0 @ [0x80] @ replicate 32 0xff) = Inr (buf_of d) \<and>
     ln_misc_sigtrim d = Inr (replicate 31 0 @ [0x80] @ replicate 32 0xff)"
  using sigexpand_sigtrim [of "replicate 31 0 @ [0x80] @ replicate 32 0xff"] by simp

section \<open>Channel ids\<close>

definition ln_misc_calc_channel_id :: "bytes \<Rightarrow> u16 \<Rightarrow> bytes c_result" where
  "ln_misc_calc_channel_id pTxid Index =
     (if length pTxid < LN_SZ_CHANNEL_ID then Inl Read_Overrun
      else Inr (take (LN_SZ_CHANNEL_ID - 2) pTxid @
             [pTxid ! (LN_SZ_CHANNEL_ID - 2) XOR octet 8 Index,
              pTxid ! (LN_SZ_CHANNEL_ID - 1) XOR octet 0 Index]))"

definition ln_misc_calc_short_channel_id :: "u32 \<Rightarrow> u32 \<Rightarrow> u32 \<Rightarrow> u64" where
  "ln_misc_calc_short_channel_id Height BIndex VIndex =
     push_bit 40 (ucast (Height AND 0xffffff)) OR push_bit 16 (ucast (BIndex AND 0xffffff)) OR
     ucast (VIndex AND 0xffff)"

definition ln_misc_get_short_channel_id_param :: "u64 \<Rightarrow> u32 \<times> u32 \<times> u32" where
  "ln_misc_get_short_channel_id_param short_channel_id =
     (ucast (drop_bit 40 short_channel_id), ucast (drop_bit 16 short_channel_id AND 0xffffff),
      ucast (short_channel_id AND 0xffff))"

text \<open>
  For one funding transaction the channel id determines the output index, and the id of output
  0 is the transaction id.
\<close>

theorem calc_channel_id_inj:
  assumes "length txid = 32"
  shows "(ln_misc_calc_channel_id txid i = ln_misc_calc_channel_id txid j \<longleftrightarrow> i = j) \<and>
    ln_misc_calc_channel_id txid 0 = Inr txid"
proof
  have "octet 8 i = octet 8 j \<and> octet 0 i = octet 0 j \<longleftrightarrow> i = j"
    by (auto intro: octets_16_eqI)
  then show "ln_misc_calc_channel_id txid i = ln_misc_calc_channel_id txid j \<longleftrightarrow> i = j"
    using assms by (auto simp: ln_misc_calc_channel_id_def)
  have "txid = take 30 txid @ [txid ! 30, txid ! 31]"
    using assms id_take_nth_drop [of 30 txid] id_take_nth_drop [of 31 txid]
    by (simp add: take_Suc_conv_app_nth [of 30 txid, simplified])
  moreover have "octet k (0::u16) = 0" for k by (simp add: octet_def)
  ultimately show "ln_misc_calc_channel_id txid 0 = Inr txid"
    using assms by (simp add: ln_misc_calc_channel_id_def)
qed

theorem calc_channel_id_inj_witness:
  "ln_misc_calc_channel_id (replicate 32 7) 1 \<noteq> ln_misc_calc_channel_id (replicate 32 7) 256 \<and>
   ln_misc_calc_channel_id (replicate 32 7) 0 = Inr (replicate 32 7)"
  using calc_channel_id_inj [of "replicate 32 7" 1 256] by simp

text \<open>
  Composing and decomposing a short channel id are inverse to each other: every 64-bit id is
  the id of its height, index and output, and the parts of a composed id are the low 24, 24 and 16
  bits of the arguments.
\<close>

theorem short_channel_id_bij:
  "(case ln_misc_get_short_channel_id_param i of (h, b, v) \<Rightarrow> ln_misc_calc_short_channel_id h b v) = i \<and>
   ln_misc_get_short_channel_id_param (ln_misc_calc_short_channel_id h b v) =
     (h AND 0xffffff, b AND 0xffffff, v AND 0xffff)"
proof
  have m: "(0xffffff :: 'a::len word) = mask 24" "(0xffff :: 'a::len word) = mask 16"
    by (simp_all add: mask_eq_exp_minus_1)
  show "(case ln_misc_get_short_channel_id_param i of (h, b, v) \<Rightarrow>
      ln_misc_calc_short_channel_id h b v) = i"
    unfolding ln_misc_get_short_channel_id_param_def ln_misc_calc_short_channel_id_def m prod.case
  proof (rule bit_word_eqI)
    fix n assume "n < LENGTH(64)"
    then consider "n < 16" | "16 \<le> n" "n < 40" | "40 \<le> n" "n < 64" by fastforce
    then show "bit (push_bit 40 (ucast (ucast (drop_bit 40 i) AND mask 24 :: u32)) OR
        push_bit 16 (ucast (ucast (drop_bit 16 i AND mask 24) AND mask 24 :: u32)) OR
        ucast (ucast (i AND mask 16) AND mask 16 :: u32) :: u64) n = bit i n"
      by cases (auto simp: bit_simps)
  qed
  show "ln_misc_get_short_channel_id_param (ln_misc_calc_short_channel_id h b v) =
     (h AND 0xffffff, b AND 0xffffff, v AND 0xffff)"
    unfolding ln_misc_get_short_channel_id_param_def ln_misc_calc_short_channel_id_def m
    by (auto intro!: bit_word_eqI simp: bit_simps)
qed

end
