(* ===== verification/Enc_Auth.thy ===== *)
theory Enc_Auth
  imports Ln_Misc Ln_Const
begin

text \<open>
  \<^verbatim>\<open>ln/ln_enc_auth.c\<close>: the Noise handshake (BOLT#8) and the encryption of the messages. The
  cryptographic functions of mbedTLS are parameters: SHA-256, HKDF, multiplication of a curve point,
  and the authenticated encryption ChaCha20-Poly1305 with a separate tag. \<open>noise_laws\<close> states what is
  used of them: lengths, that decryption inverts encryption, and that two nodes compute the same
  shared secret.
\<close>

section \<open>Parameters and state\<close>

definition M_CHACHAPOLY_MAC :: nat where [simp]: "M_CHACHAPOLY_MAC = 16"
definition LN_SZ_NOISE_HEADER :: nat where [simp]: "LN_SZ_NOISE_HEADER = 2 + 16"

record noise_env =
  ne_sha256 :: "bytes \<Rightarrow> bytes"
  ne_hkdf :: "bytes \<Rightarrow> bytes \<Rightarrow> bytes option"              \<comment> \<open>salt, input; 64 bytes\<close>
  ne_mul_pubkey :: "bytes \<Rightarrow> bytes \<Rightarrow> bytes"                \<comment> \<open>public key, private key\<close>
  ne_encrypt :: "bytes \<Rightarrow> bytes \<Rightarrow> bytes \<Rightarrow> bytes \<Rightarrow> (bytes \<times> bytes) option"
    \<comment> \<open>key, nonce, additional data, plaintext; ciphertext and tag\<close>
  ne_decrypt :: "bytes \<Rightarrow> bytes \<Rightarrow> bytes \<Rightarrow> bytes \<Rightarrow> bytes \<Rightarrow> bytes option"
    \<comment> \<open>key, nonce, additional data, ciphertext, tag\<close>

datatype state_t = INIT | START_INITIATOR | WAIT_ACT_TWO | END_INITIATOR
  | WAIT_ACT_ONE | WAIT_ACT_THREE | END_RESPONDER

record node_keys =
  nk_priv :: bytes
  nk_pub :: bytes

record bolt8_t =
  b8_e :: node_keys
  b8_h :: bytes
  b8_ck :: bytes
  b8_temp_k :: bytes
  b8_state :: state_t

record noise_t =
  noise_key :: bytes
  noise_nonce :: u64
  noise_ck :: bytes

text \<open>The fields of \<open>ln_self_t\<close> that the file uses, and the keys of the own node (\<^verbatim>\<open>ln_node.c\<close>).\<close>

record noise_self =
  p_handshake :: "bolt8_t option"
  noise_send :: noise_t
  noise_recv :: noise_t
  own :: node_keys

section \<open>Helpers\<close>

definition sha256cat :: "noise_env \<Rightarrow> bytes \<Rightarrow> bytes \<Rightarrow> bytes" where
  "sha256cat env a b = ne_sha256 env (a @ b)"

definition le64 :: "u64 \<Rightarrow> bytes" where
  "le64 v = map (\<lambda>k. octet (8 * k) v) [0..<8]"

definition noise_nonce12 :: "u64 \<Rightarrow> bytes" where
  \<comment> \<open>\<open>memset(nonce, 0, 4); memcpy(nonce + 4, &nonce, 8)\<close> on a little-endian host\<close>
  "noise_nonce12 n = replicate 4 0 @ le64 n"

definition noise_hkdf :: "noise_env \<Rightarrow> bytes \<times> bytes \<Rightarrow> bytes \<Rightarrow> bytes option \<Rightarrow> bytes \<times> bytes" where
  \<comment> \<open>the new \<open>ck\<close> and \<open>k\<close>, the old ones when it fails (no caller looks at the result)\<close>
  "noise_hkdf env old pSalt pIkm =
     (case ne_hkdf env pSalt (case pIkm of Some ikm \<Rightarrow> ikm | None \<Rightarrow> []) of
        Some okm \<Rightarrow> (take 32 okm, drop 32 okm)
      | None \<Rightarrow> old)"

definition generate_shared_secret :: "noise_env \<Rightarrow> bytes \<Rightarrow> bytes \<Rightarrow> bytes" where
  \<comment> \<open>\<^verbatim>\<open>ln_misc_generate_shared_secret\<close>, \<^verbatim>\<open>ln_node_generate_shared_secret\<close>\<close>
  "generate_shared_secret env pPubKey pPrivKey = ne_sha256 env (ne_mul_pubkey env pPubKey pPrivKey)"

section \<open>The three acts\<close>

text \<open>
  Every act returns its buffer, \<open>None\<close> for \<open>return false\<close>, and the data as it has been changed so far.
  \<open>pBuf\<close> is the received buffer.
\<close>

definition M_PROTOCOL_NAME :: bytes where
  "M_PROTOCOL_NAME = map (of_nat \<circ> of_char) ''Noise_XK_secp256k1_ChaChaPoly_SHA256''"

definition M_PROLOGUE :: bytes where
  "M_PROLOGUE = map (of_nat \<circ> of_char) ''lightning''"

definition mix_key :: "noise_env \<Rightarrow> bytes \<Rightarrow> bolt8_t \<Rightarrow> bolt8_t" where
  \<comment> \<open>\<open>noise_hkdf(pBolt->ck, pBolt->temp_k, pBolt->ck, ss)\<close>\<close>
  "mix_key env ss b =
     (let (ck, k) = noise_hkdf env (b8_ck b, b8_temp_k b) (b8_ck b) (Some ss) in
      b\<lparr>b8_ck := ck, b8_temp_k := k\<rparr>)"

definition mix_hash :: "noise_env \<Rightarrow> bytes \<Rightarrow> bolt8_t \<Rightarrow> bolt8_t" where
  \<comment> \<open>\<open>btc_util_sha256cat(pBolt->h, pBolt->h, BTC_SZ_HASH256, d, len)\<close>\<close>
  "mix_hash env d b = b\<lparr>b8_h := sha256cat env (b8_h b) d\<rparr>"

definition act_send :: "noise_env \<Rightarrow> bytes \<Rightarrow> bool \<Rightarrow> bolt8_t \<Rightarrow> (bytes option \<times> bolt8_t) c_result" where
  \<comment> \<open>what \<^verbatim>\<open>actone_sender\<close> and \<^verbatim>\<open>acttwo_sender\<close> have in common; only the first has an \<open>assert(0)\<close>\<close>
  "act_send env pub abort b =
     (let b = mix_hash env (nk_pub (b8_e b)) b;
          b = mix_key env (generate_shared_secret env pub (nk_priv (b8_e b))) b in
      case ne_encrypt env (b8_temp_k b) (replicate 12 0) (b8_h b) [] of
        None \<Rightarrow> if abort then Inl Assert_Failed else Inr (None, b)
      | Some (_, c) \<Rightarrow> Inr (Some ([0] @ nk_pub (b8_e b) @ c), mix_hash env c b))"

definition actone_sender :: "noise_env \<Rightarrow> bytes \<Rightarrow> bolt8_t \<Rightarrow> (bytes option \<times> bolt8_t) c_result" where
  "actone_sender env pRS b = act_send env pRS True b"

definition acttwo_sender :: "noise_env \<Rightarrow> bytes \<Rightarrow> bolt8_t \<Rightarrow> (bytes option \<times> bolt8_t) c_result" where
  "acttwo_sender env pRE b = act_send env pRE False b"

definition act_recv :: "noise_env \<Rightarrow> bytes \<Rightarrow> bytes \<Rightarrow> bolt8_t \<Rightarrow> bytes option \<times> bolt8_t" where
  \<comment> \<open>the part of \<^verbatim>\<open>actone_receiver\<close> and \<^verbatim>\<open>acttwo_receiver\<close> before the answer: the key of the peer\<close>
  "act_recv env priv pBuf b =
     (if length pBuf \<noteq> 50 \<or> hd pBuf \<noteq> 0 then (None, b)
      else
       (let re = take BTC_SZ_PUBKEY (drop 1 pBuf); c = drop (1 + BTC_SZ_PUBKEY) pBuf;
            b = mix_key env (generate_shared_secret env re priv) (mix_hash env re b) in
        case ne_decrypt env (b8_temp_k b) (replicate 12 0) (b8_h b) [] c of
          None \<Rightarrow> (None, b)
        | Some _ \<Rightarrow> (Some re, mix_hash env c b)))"

definition actone_receiver ::
  "noise_env \<Rightarrow> node_keys \<Rightarrow> bytes \<Rightarrow> bolt8_t \<Rightarrow> (bytes option \<times> bolt8_t) c_result" where
  "actone_receiver env s pBuf b =
     (case act_recv env (nk_priv s) pBuf b of
        (Some re, b) \<Rightarrow> acttwo_sender env re b
      | (None, b) \<Rightarrow> Inr (None, b))"

definition actthree_sender ::
  "noise_env \<Rightarrow> bytes \<Rightarrow> noise_self \<Rightarrow> bolt8_t \<Rightarrow> bytes option \<times> noise_self \<times> bolt8_t" where
  "actthree_sender env pRE self b =
     (case ne_encrypt env (b8_temp_k b) (noise_nonce12 1) (b8_h b) (nk_pub (own self)) of
        None \<Rightarrow> (None, self, b)
      | Some (c, mac) \<Rightarrow>
          let c = c @ mac;
              b = mix_key env (generate_shared_secret env pRE (nk_priv (own self))) (mix_hash env c b) in
          (case ne_encrypt env (b8_temp_k b) (replicate 12 0) (b8_h b) [] of
             None \<Rightarrow> (None, self, b)
           | Some (_, t) \<Rightarrow>
               let (sk, rk) = noise_hkdf env (noise_key (noise_send self), noise_key (noise_recv self)) (b8_ck b) None in
               (Some ([0] @ c @ t),
                self\<lparr>noise_send := (noise_send self)\<lparr>noise_key := sk\<rparr>,
                  noise_recv := (noise_recv self)\<lparr>noise_key := rk\<rparr>\<rparr>, b)))"

definition acttwo_receiver ::
  "noise_env \<Rightarrow> bytes \<Rightarrow> noise_self \<Rightarrow> bolt8_t \<Rightarrow> bytes option \<times> noise_self \<times> bolt8_t" where
  "acttwo_receiver env pBuf self b =
     (case act_recv env (nk_priv (b8_e b)) pBuf b of
        (Some re, b) \<Rightarrow> actthree_sender env re self b
      | (None, b) \<Rightarrow> (None, self, b))"

definition actthree_receiver ::
  "noise_env \<Rightarrow> bytes \<Rightarrow> noise_self \<Rightarrow> bolt8_t \<Rightarrow> bytes option \<times> noise_self \<times> bolt8_t" where
  "actthree_receiver env pBuf self b =
     (if length pBuf \<noteq> 66 \<or> hd pBuf \<noteq> 0 then (None, self, b)
      else
       (let c = take (BTC_SZ_PUBKEY + M_CHACHAPOLY_MAC) (drop 1 pBuf);
            t = drop (1 + (BTC_SZ_PUBKEY + M_CHACHAPOLY_MAC)) pBuf in
        case ne_decrypt env (b8_temp_k b) (noise_nonce12 1) (b8_h b) (take BTC_SZ_PUBKEY c) (drop BTC_SZ_PUBKEY c) of
          None \<Rightarrow> (None, self, b)
        | Some rs \<Rightarrow>
            let b = mix_key env (generate_shared_secret env rs (nk_priv (b8_e b))) (mix_hash env c b) in
            (case ne_decrypt env (b8_temp_k b) (replicate 12 0) (b8_h b) [] t of
               None \<Rightarrow> (None, self, b)
             | Some _ \<Rightarrow>
                 let (rk, sk) = noise_hkdf env (noise_key (noise_recv self), noise_key (noise_send self)) (b8_ck b) None in
                 (Some rs,
                  self\<lparr>noise_send := (noise_send self)\<lparr>noise_key := sk\<rparr>,
                    noise_recv := (noise_recv self)\<lparr>noise_key := rk\<rparr>\<rparr>, b))))"

section \<open>The handshake\<close>

text \<open>
  The results carry the Boolean or the buffer, and the state. \<open>e\<close> is the fresh key pair that
  \<^verbatim>\<open>btc_util_createkeys\<close> returns and \<open>fresh\<close> what the fresh block has in \<open>temp_k\<close>. The responder passes
  NULL (\<open>None\<close>) as the id of the peer.
\<close>

definition ln_enc_auth_handshake_init ::
  "noise_env \<Rightarrow> node_keys option \<Rightarrow> bytes \<Rightarrow> bytes option \<Rightarrow> noise_self \<Rightarrow> bool \<times> noise_self" where
  "ln_enc_auth_handshake_init env e fresh pNodeId self =
     (case e of
        None \<Rightarrow> (False, self\<lparr>p_handshake := None\<rparr>)
      | Some e \<Rightarrow>
          let ck = ne_sha256 env M_PROTOCOL_NAME;
              h = sha256cat env ck M_PROLOGUE;
              (st, node_id) = (case pNodeId of Some i \<Rightarrow> (START_INITIATOR, i)
                | None \<Rightarrow> (WAIT_ACT_ONE, nk_pub (own self))) in
          (True, self\<lparr>p_handshake := Some \<lparr>b8_e = e, b8_h = sha256cat env h node_id, b8_ck = ck,
             b8_temp_k = fresh, b8_state = st\<rparr>\<rparr>))"

definition ln_enc_auth_handshake_start ::
  "noise_env \<Rightarrow> bytes \<Rightarrow> noise_self \<Rightarrow> (bytes option \<times> noise_self) c_result" where
  "ln_enc_auth_handshake_start env pNodeId self =
     (case p_handshake self of
        None \<Rightarrow> Inr (None, self)
      | Some b \<Rightarrow>
          if b8_state b \<noteq> START_INITIATOR then Inr (None, self)
          else bind_c (actone_sender env pNodeId b) (\<lambda>(r, b).
            Inr (r, self\<lparr>p_handshake := (if r \<noteq> None then Some (b\<lparr>b8_state := WAIT_ACT_TWO\<rparr>) else None)\<rparr>)))"

definition handshake_end :: "bytes \<Rightarrow> noise_self \<Rightarrow> noise_self" where
  "handshake_end ck self = self\<lparr>p_handshake := None,
     noise_send := (noise_send self)\<lparr>noise_ck := ck, noise_nonce := 0\<rparr>,
     noise_recv := (noise_recv self)\<lparr>noise_ck := ck, noise_nonce := 0\<rparr>\<rparr>"

definition ln_enc_auth_handshake_recv ::
  "noise_env \<Rightarrow> bytes \<Rightarrow> noise_self \<Rightarrow> (bytes option \<times> noise_self) c_result" where
  "ln_enc_auth_handshake_recv env pBuf self =
     (case p_handshake self of
        None \<Rightarrow> Inr (None, self)
      | Some b \<Rightarrow>
          (case b8_state b of
             WAIT_ACT_TWO \<Rightarrow>
               let (r, self, b) = acttwo_receiver env pBuf self b in Inr (r, handshake_end (b8_ck b) self)
           | WAIT_ACT_ONE \<Rightarrow>
               bind_c (actone_receiver env (own self) pBuf b) (\<lambda>(r, b).
               Inr (r, self\<lparr>p_handshake := (if r \<noteq> None then Some (b\<lparr>b8_state := WAIT_ACT_THREE\<rparr>) else None)\<rparr>))
           | WAIT_ACT_THREE \<Rightarrow>
               let (r, self, b) = actthree_receiver env pBuf self b in Inr (r, handshake_end (b8_ck b) self)
           | _ \<Rightarrow> Inr (None, self\<lparr>p_handshake := None\<rparr>)))"

definition ln_enc_auth_handshake_state :: "noise_self \<Rightarrow> bool" where
  "ln_enc_auth_handshake_state self \<longleftrightarrow> p_handshake self \<noteq> None"

definition ln_enc_auth_handshake_free :: "noise_self \<Rightarrow> noise_self" where
  "ln_enc_auth_handshake_free self = self\<lparr>p_handshake := None\<rparr>"

section \<open>Encryption of messages\<close>

definition len_octets :: "u32 \<Rightarrow> bytes" where
  \<comment> \<open>\<open>uint16_t l = (len >> 8) | (len << 8)\<close>, then the memory of \<open>l\<close> on a little-endian host\<close>
  "len_octets n = (let l = ucast (drop_bit 8 n OR push_bit 8 n) :: u16 in [octet 0 l, octet 8 l])"

definition rotate_key :: "noise_env \<Rightarrow> noise_t \<Rightarrow> noise_t" where
  \<comment> \<open>after \<open>nonce++\<close>\<close>
  "rotate_key env n =
     (if noise_nonce n = 1000 then
        (let (ck, k) = noise_hkdf env (noise_ck n, noise_key n) (noise_ck n) (Some (noise_key n)) in
         n\<lparr>noise_ck := ck, noise_key := k, noise_nonce := 0\<rparr>)
      else n)"

definition ln_enc_auth_enc :: "noise_env \<Rightarrow> bytes \<Rightarrow> noise_t \<Rightarrow> (bytes \<times> noise_t) c_result" where
  "ln_enc_auth_enc env bufIn n =
     (case ne_encrypt env (noise_key n) (noise_nonce12 (noise_nonce n)) [] (len_octets (of_nat (length bufIn))) of
        None \<Rightarrow> Inl Assert_Failed
      | Some (cl, cl_mac) \<Rightarrow>
          let n = n\<lparr>noise_nonce := noise_nonce n + 1\<rparr> in
          check_c (noise_nonce n \<noteq> 1000)
          (case ne_encrypt env (noise_key n) (noise_nonce12 (noise_nonce n)) [] bufIn of
             None \<Rightarrow> Inl Assert_Failed
           | Some (cm, cm_mac) \<Rightarrow>
               Inr (cl @ cl_mac @ cm @ cm_mac, rotate_key env (n\<lparr>noise_nonce := noise_nonce n + 1\<rparr>))))"

text \<open>The length that the receiver has to read next; 0 is the error.\<close>

definition ln_enc_auth_dec_len :: "noise_env \<Rightarrow> bytes \<Rightarrow> noise_t \<Rightarrow> u16 \<times> noise_t" where
  "ln_enc_auth_dec_len env pData n =
     (if length pData \<noteq> LN_SZ_NOISE_HEADER then (0, n)
      else
        (case ne_decrypt env (noise_key n) (noise_nonce12 (noise_nonce n)) [] (take 2 pData) (drop 2 pData) of
           None \<Rightarrow> (0, n)
         | Some pl \<Rightarrow>
             let n = n\<lparr>noise_nonce := noise_nonce n + 1\<rparr> in
             if noise_nonce n = 1000 then (0, n)
             else (ucast (push_bit 8 (ucast (pl ! 0)) OR ucast (pl ! 1) :: u32) + 16, n)))"

definition ln_enc_auth_dec_msg :: "noise_env \<Rightarrow> bytes \<Rightarrow> noise_t \<Rightarrow> (bytes \<times> noise_t) c_result" where
  "ln_enc_auth_dec_msg env pBuf n =
     (let l = unat (of_nat (length pBuf) - 16 :: u16) in
      if length pBuf < l + M_CHACHAPOLY_MAC then Inl Read_Overrun
      else
        (case ne_decrypt env (noise_key n) (noise_nonce12 (noise_nonce n)) [] (take l pBuf)
           (take M_CHACHAPOLY_MAC (drop l pBuf)) of
           None \<Rightarrow> Inl Ret_False
         | Some pm \<Rightarrow> Inr (pm, rotate_key env (n\<lparr>noise_nonce := noise_nonce n + 1\<rparr>))))"

section \<open>The laws of the parameters\<close>

definition noise_laws :: "noise_env \<Rightarrow> bool" where
  "noise_laws env \<longleftrightarrow>
     (\<forall>x. length (ne_sha256 env x) = 32) \<and>
     (\<forall>salt ikm. length salt = 32 \<longrightarrow> (\<exists>okm. ne_hkdf env salt ikm = Some okm \<and> length okm = 64)) \<and>
     (\<forall>k n a p. length k = 32 \<longrightarrow> length n = 12 \<longrightarrow>
        (\<exists>c t. ne_encrypt env k n a p = Some (c, t) \<and> length c = length p \<and> length t = 16 \<and>
           ne_decrypt env k n a c t = Some p))"

definition dh_agree :: "noise_env \<Rightarrow> node_keys \<Rightarrow> node_keys \<Rightarrow> bool" where
  \<comment> \<open>two key pairs of the curve\<close>
  "dh_agree env a b \<longleftrightarrow>
     length (nk_pub a) = BTC_SZ_PUBKEY \<and> length (nk_pub b) = BTC_SZ_PUBKEY \<and>
     ne_mul_pubkey env (nk_pub a) (nk_priv b) = ne_mul_pubkey env (nk_pub b) (nk_priv a)"

lemma length_nonce12: "length (noise_nonce12 n) = 12"
  by (simp add: noise_nonce12_def le64_def)

lemma noise_hkdf_lengths:
  assumes "noise_laws env" "length salt = 32"
  shows "length (fst (noise_hkdf env old salt ikm)) = 32" "length (snd (noise_hkdf env old salt ikm)) = 32"
    "noise_hkdf env old salt ikm = noise_hkdf env old' salt ikm"
proof -
  obtain okm where "ne_hkdf env salt (case ikm of Some i \<Rightarrow> i | None \<Rightarrow> []) = Some okm" "length okm = 64"
    using assms unfolding noise_laws_def by blast
  then show "length (fst (noise_hkdf env old salt ikm)) = 32" "length (snd (noise_hkdf env old salt ikm)) = 32"
    "noise_hkdf env old salt ikm = noise_hkdf env old' salt ikm"
    by (simp_all add: noise_hkdf_def)
qed

text \<open>Decryption undoes encryption.\<close>

lemma encrypt_ok:
  assumes "noise_laws env" "length k = 32" "length n = 12"
  obtains c t where "ne_encrypt env k n a p = Some (c, t)" "length c = length p" "length t = 16"
    "ne_decrypt env k n a c t = Some p"
  using assms unfolding noise_laws_def by blast

section \<open>Encrypted messages\<close>

definition noise_ok :: "noise_t \<Rightarrow> bool" where
  "noise_ok n \<longleftrightarrow> length (noise_key n) = 32 \<and> length (noise_ck n) = 32 \<and>
     even (unat (noise_nonce n)) \<and> unat (noise_nonce n) < 1000"

lemma high_bits_u32: "unat (v :: u32) < 2 ^ 16 \<Longrightarrow> \<not> bit v (16 + i)"
proof -
  assume "unat v < 2 ^ 16"
  then have "take_bit 16 v = v"
    by (metis take_bit_nat_eq_self unsigned_take_bit_eq word_unat_eq_iff)
  then show ?thesis by (metis bit_take_bit_iff not_add_less1)
qed

lemma len_octets_be16:
  assumes "unat v < 65536"
  shows "len_octets v = be16 (ucast v)"
proof -
  let ?l = "ucast (drop_bit 8 v OR push_bit 8 v) :: u16"
  have "octet 0 ?l = octet 8 (ucast v :: u16)"
    by (rule bit_word_eqI) (auto simp: bit_octet bit_simps ac_simps)
  moreover have "octet 8 ?l = octet 0 (ucast v :: u16)"
    using high_bits_u32 [of v] assms by (intro bit_word_eqI) (auto simp: bit_octet bit_simps ac_simps)
  ultimately show ?thesis by (simp add: len_octets_def be16_def)
qed

lemma be16_value:
  "ucast (push_bit 8 (ucast (be16 v ! 0)) OR ucast (be16 v ! Suc 0) :: u32) = v"
  by (rule bit_word_eqI) (auto simp: be16_def bit_octet bit_simps ac_simps)

lemma rotate_ok:
  assumes "noise_laws env" "length (noise_key n) = 32" "length (noise_ck n) = 32"
    and "even (unat (noise_nonce n))" "unat (noise_nonce n) \<le> 1000"
  shows "noise_ok (rotate_key env n)"
proof (cases "noise_nonce n = 1000")
  case True
  then show ?thesis
    using noise_hkdf_lengths [OF assms(1,3), of "(noise_ck n, noise_key n)" "Some (noise_key n)"] assms(2)
    by (auto simp: noise_ok_def rotate_key_def split: prod.split)
next
  case False
  then have "unat (noise_nonce n) \<noteq> 1000" by (simp add: word_unat_eq_iff)
  then show ?thesis
    using False assms by (simp add: noise_ok_def rotate_key_def)
qed

text \<open>What a message does to the state of either side.\<close>

definition noise_next :: "noise_env \<Rightarrow> noise_t \<Rightarrow> noise_t" where
  "noise_next env n = rotate_key env (n\<lparr>noise_nonce := noise_nonce n + 2\<rparr>)"

lemma nonce_step:
  assumes "noise_ok n"
  shows "unat (noise_nonce n + 1) = unat (noise_nonce n) + 1" "unat (noise_nonce n + 2) = unat (noise_nonce n) + 2"
    "noise_nonce n + 1 \<noteq> 1000"
proof -
  have b: "unat (noise_nonce n) < 1000" "even (unat (noise_nonce n))" using assms by (simp_all add: noise_ok_def)
  show u: "unat (noise_nonce n + 1) = unat (noise_nonce n) + 1" "unat (noise_nonce n + 2) = unat (noise_nonce n) + 2"
    using b(1) by (simp_all add: unat_word_ariths)
  show "noise_nonce n + 1 \<noteq> 1000"
  proof
    assume "noise_nonce n + 1 = 1000"
    then have "unat (noise_nonce n) + 1 = 1000" using u(1) by simp
    then show False using b(2) by presburger
  qed
qed

lemma noise_next_ok: "noise_laws env \<Longrightarrow> noise_ok n \<Longrightarrow> noise_ok (noise_next env n)"
  using nonce_step(2) [of n] unfolding noise_next_def
  by (intro rotate_ok) (auto simp: noise_ok_def)

lemma unat_u16: "n < 65536 \<Longrightarrow> unat (of_nat n :: u16) = n"
  by (simp add: unat_of_nat take_bit_nat_eq_self)

lemma unat_u64: "n < 2 ^ 64 \<Longrightarrow> unat (of_nat n :: u64) = n"
  by (simp add: unat_of_nat take_bit_nat_eq_self)

lemma message_roundtrip:
  assumes "noise_laws env" "noise_ok n" "length msg < 65520"
  obtains c where "ln_enc_auth_enc env msg n = Inr (c, noise_next env n)"
    "length c = LN_SZ_NOISE_HEADER + (length msg + M_CHACHAPOLY_MAC)"
    "ln_enc_auth_dec_len env (take LN_SZ_NOISE_HEADER c) n =
      (of_nat (length msg + M_CHACHAPOLY_MAC), n\<lparr>noise_nonce := noise_nonce n + 1\<rparr>)"
    "ln_enc_auth_dec_msg env (drop LN_SZ_NOISE_HEADER c) (n\<lparr>noise_nonce := noise_nonce n + 1\<rparr>) =
      Inr (msg, noise_next env n)"
proof -
  let ?len = "of_nat (length msg) :: u16"
  have k: "length (noise_key n) = 32" using assms(2) by (simp add: noise_ok_def)
  have len: "len_octets (of_nat (length msg)) = be16 ?len"
    using assms(3) len_octets_be16 [of "of_nat (length msg)"]
    by (simp add: unsigned_of_nat take_bit_nat_eq_self)
  obtain cl t1 where l: "ne_encrypt env (noise_key n) (noise_nonce12 (noise_nonce n)) [] (be16 ?len) = Some (cl, t1)"
    "length cl = length (be16 ?len)" "length t1 = 16"
    "ne_decrypt env (noise_key n) (noise_nonce12 (noise_nonce n)) [] cl t1 = Some (be16 ?len)"
    by (rule encrypt_ok [OF assms(1) k length_nonce12])
  obtain cm t2 where m: "ne_encrypt env (noise_key n) (noise_nonce12 (noise_nonce n + 1)) [] msg = Some (cm, t2)"
    "length cm = length msg" "length t2 = 16"
    "ne_decrypt env (noise_key n) (noise_nonce12 (noise_nonce n + 1)) [] cm t2 = Some msg"
    by (rule encrypt_ok [OF assms(1) k length_nonce12])
  have cl: "length cl = 2" using l(2) by (simp add: be16_def)
  have next_n: "rotate_key env (n\<lparr>noise_nonce := noise_nonce n + 1 + 1\<rparr>) = noise_next env n"
    by (simp add: noise_next_def add.assoc)
  have "unat (of_nat (length msg + 16) - 16 :: u16) = length msg"
    using assms(3) by (simp add: unat_of_nat take_bit_nat_eq_self)
  then show ?thesis
    using that [of "cl @ t1 @ cm @ t2"] l m cl nonce_step(3) [OF assms(2)] next_n
    by (simp add: ln_enc_auth_enc_def ln_enc_auth_dec_len_def ln_enc_auth_dec_msg_def len Let_def be16_value)
qed

section \<open>The stream\<close>

text \<open>
  The sender encrypts one message after the other; the receiving thread of the daemon
  (\<^verbatim>\<open>thread_recv_start\<close>) reads the header, then as many bytes as it announces, and stops at an error.
  \<open>k\<close> is the number of messages to read, the stream is what the peer has sent.
\<close>

fun noise_send_all :: "noise_env \<Rightarrow> bytes list \<Rightarrow> noise_t \<Rightarrow> (bytes \<times> noise_t) c_result" where
  "noise_send_all env [] n = Inr ([], n)"
| "noise_send_all env (msg # msgs) n =
     bind_c (ln_enc_auth_enc env msg n) (\<lambda>(c, n).
     bind_c (noise_send_all env msgs n) (\<lambda>(cs, n). Inr (c @ cs, n)))"

fun thread_recv_loop :: "noise_env \<Rightarrow> nat \<Rightarrow> bytes \<Rightarrow> noise_t \<Rightarrow> (bytes list \<times> noise_t) c_result" where
  "thread_recv_loop env 0 stream n = Inr ([], n)"
| "thread_recv_loop env (Suc k) stream n =
     (let (len, n) = ln_enc_auth_dec_len env (take LN_SZ_NOISE_HEADER stream) n;
          stream = drop LN_SZ_NOISE_HEADER stream in
      check_c (len \<noteq> 0 \<and> unat len \<le> length stream)
      (bind_c (ln_enc_auth_dec_msg env (take (unat len) stream) n) (\<lambda>(msg, n).
       bind_c (thread_recv_loop env k (drop (unat len) stream) n) (\<lambda>(msgs, n). Inr (msg # msgs, n)))))"

lemma stream_roundtrip:
  assumes "noise_laws env" "noise_ok n" "\<forall>msg\<in>set msgs. length msg < 65520"
  shows "\<exists>cs. noise_send_all env msgs n = Inr (cs, (noise_next env ^^ length msgs) n) \<and>
    thread_recv_loop env (length msgs) (cs @ rest) n = Inr (msgs, (noise_next env ^^ length msgs) n)"
  using assms(2,3)
proof (induction msgs arbitrary: n)
  case (Cons msg msgs)
  obtain c where c: "ln_enc_auth_enc env msg n = Inr (c, noise_next env n)"
    "length c = LN_SZ_NOISE_HEADER + (length msg + M_CHACHAPOLY_MAC)"
    "ln_enc_auth_dec_len env (take LN_SZ_NOISE_HEADER c) n =
      (of_nat (length msg + M_CHACHAPOLY_MAC), n\<lparr>noise_nonce := noise_nonce n + 1\<rparr>)"
    "ln_enc_auth_dec_msg env (drop LN_SZ_NOISE_HEADER c) (n\<lparr>noise_nonce := noise_nonce n + 1\<rparr>) =
      Inr (msg, noise_next env n)"
    using message_roundtrip [OF assms(1) Cons.prems(1)] Cons.prems(2) by (metis list.set_intros(1))
  obtain cs where cs: "noise_send_all env msgs (noise_next env n) = Inr (cs, (noise_next env ^^ length msgs) (noise_next env n))"
    "thread_recv_loop env (length msgs) (cs @ rest) (noise_next env n) =
      Inr (msgs, (noise_next env ^^ length msgs) (noise_next env n))"
    using Cons.IH [OF noise_next_ok [OF assms(1) Cons.prems(1)]] Cons.prems(2) by auto
  have len: "unat (of_nat (length msg + M_CHACHAPOLY_MAC) :: u16) = length msg + M_CHACHAPOLY_MAC"
    using Cons.prems(2) unat_u16 [of "length msg + M_CHACHAPOLY_MAC"] by simp
  then have "(of_nat (length msg + M_CHACHAPOLY_MAC) :: u16) \<noteq> 0" by (metis M_CHACHAPOLY_MAC_def add_is_0 unat_0 zero_neq_numeral)
  then show ?case
    using c cs len by (simp add: funpow_swap1 Let_def)
qed simp

text \<open>Key rotation: \<open>ck', k' = HKDF(ck, k)\<close>.\<close>

definition rekey :: "noise_env \<Rightarrow> bytes \<times> bytes \<Rightarrow> bytes \<times> bytes" where
  "rekey env = (\<lambda>(ck, k). noise_hkdf env (ck, k) ck (Some k))"

lemma noise_next_fields:
  assumes "noise_ok n" "noise_nonce n = of_nat (2 * j)" "j < 500"
  shows "noise_nonce (noise_next env n) = of_nat (2 * (Suc j mod 500))"
    "(noise_ck (noise_next env n), noise_key (noise_next env n)) =
      (if Suc j = 500 then rekey env (noise_ck n, noise_key n) else (noise_ck n, noise_key n))"
proof -
  have v: "noise_nonce n + 2 = of_nat (2 * Suc j)" using assms(2) by simp
  have "(of_nat (2 * Suc j) :: u64) = 1000 \<longleftrightarrow> 2 * Suc j = 1000"
  proof -
    have "unat (of_nat (2 * Suc j) :: u64) = 2 * Suc j"
      using assms(3) by (intro unat_u64) simp
    then show ?thesis unfolding word_unat_eq_iff by simp
  qed
  then show "noise_nonce (noise_next env n) = of_nat (2 * (Suc j mod 500))"
    "(noise_ck (noise_next env n), noise_key (noise_next env n)) =
      (if Suc j = 500 then rekey env (noise_ck n, noise_key n) else (noise_ck n, noise_key n))"
    using assms(3) v by (auto simp: noise_next_def rotate_key_def rekey_def Let_def split: prod.split)
qed

lemma noise_after:
  assumes "noise_laws env" "noise_ok n" "noise_nonce n = 0"
  shows "noise_ok ((noise_next env ^^ k) n) \<and>
    noise_nonce ((noise_next env ^^ k) n) = of_nat (2 * (k mod 500)) \<and>
    (noise_ck ((noise_next env ^^ k) n), noise_key ((noise_next env ^^ k) n)) =
      (rekey env ^^ (k div 500)) (noise_ck n, noise_key n)"
proof (induction k)
  case (Suc k)
  let ?n = "(noise_next env ^^ k) n"
  have "noise_ok ?n" "noise_nonce ?n = of_nat (2 * (k mod 500))" using Suc by blast+
  note f = noise_next_fields [OF this, of env]
  have "Suc (k mod 500) = 500 \<longleftrightarrow> Suc k mod 500 = 0" "Suc (k mod 500) mod 500 = Suc k mod 500"
    by (simp_all add: mod_Suc)
  moreover have "Suc k div 500 = (if Suc k mod 500 = 0 then Suc (k div 500) else k div 500)"
    by (simp add: div_Suc)
  ultimately show ?case
    using Suc f noise_next_ok [OF assms(1)] by simp
qed (use assms in simp)

text \<open>
  C16: the two ends of an encrypted connection stay in step. From equal states after the handshake,
  whatever messages of less than 65520 bytes one side sends, the other side decrypts exactly them,
  in order, out of the stream of bytes, and both end in the same state: the nonce is two per
  message, and the key has been rotated every 500 messages.
\<close>

theorem encrypted_stream:
  assumes "noise_laws env" "noise_ok n" "noise_nonce n = 0" "\<forall>msg\<in>set msgs. length msg < 65520"
  shows "\<exists>cs n'. noise_send_all env msgs n = Inr (cs, n') \<and>
    thread_recv_loop env (length msgs) (cs @ rest) n = Inr (msgs, n') \<and>
    noise_nonce n' = of_nat (2 * (length msgs mod 500)) \<and>
    (noise_ck n', noise_key n') = (rekey env ^^ (length msgs div 500)) (noise_ck n, noise_key n)"
  using stream_roundtrip [OF assms(1,2,4), of rest] noise_after [OF assms(1-3), of "length msgs"] by blast

text \<open>A trivial cipher for concrete runs.\<close>

definition toy_noise :: noise_env where
  "toy_noise = \<lparr>ne_sha256 = (\<lambda>x. take 32 (x @ replicate 32 0)),
     ne_hkdf = (\<lambda>salt ikm. Some (take 64 (ikm @ salt @ replicate 64 0))),
     ne_mul_pubkey = (\<lambda>pub priv. [hd pub * hd priv]),
     ne_encrypt = (\<lambda>k n a p. Some (p, replicate 16 0)), ne_decrypt = (\<lambda>k n a c t. Some c)\<rparr>"

lemma toy_noise_laws: "noise_laws toy_noise"
  by (auto simp: noise_laws_def toy_noise_def min_def)

definition toy_noise_state :: noise_t where
  "toy_noise_state = \<lparr>noise_key = replicate 32 1, noise_nonce = 0, noise_ck = replicate 32 2\<rparr>"

theorem encrypted_stream_witness:
  "\<exists>cs n'. noise_send_all toy_noise [[1, 2], [], replicate 65519 7] toy_noise_state = Inr (cs, n') \<and>
     thread_recv_loop toy_noise 3 cs toy_noise_state = Inr ([[1, 2], [], replicate 65519 7], n') \<and>
     noise_nonce n' = 6"
proof -
  have "noise_ok toy_noise_state" "noise_nonce toy_noise_state = 0"
    by (simp_all add: noise_ok_def toy_noise_state_def)
  moreover have "\<forall>msg\<in>set [[1, 2], [], replicate 65519 (7 :: byte)]. length msg < 65520" by simp
  ultimately show ?thesis
    using encrypted_stream [OF toy_noise_laws, of toy_noise_state "[[1, 2], [], replicate 65519 7]" "[]"]
    unfolding append_Nil2 by (simp only: length_Cons list.size(3) eval_nat_numeral One_nat_def) fastforce
qed

text \<open>
  The announced length is enlarged by the tag in 16 bits. An authenticated header that announces
  more than 65520 bytes makes the receiver read fewer bytes than a tag has; the decryption of what
  it has read then takes the length modulo 65536 and reads behind the buffer.
\<close>

theorem announced_length_wraps:
  assumes "ne_decrypt env (noise_key n) (noise_nonce12 (noise_nonce n)) [] (take 2 header) (drop 2 header) =
      Some (be16 v)"
    and "length header = LN_SZ_NOISE_HEADER" "noise_nonce n + 1 \<noteq> 1000" "65520 < unat v"
  shows "\<exists>len n'. ln_enc_auth_dec_len env header n = (len, n') \<and> unat len = unat v - 65520 \<and> 0 < unat len \<and>
    (\<forall>pBuf. length pBuf = unat len \<longrightarrow> ln_enc_auth_dec_msg env pBuf n' = Inl Read_Overrun)"
proof -
  have v: "unat v < 65536" using unsigned_less [of v] by simp
  have len: "unat (v + 16) = unat v - 65520"
    using assms(4) v by (simp add: unat_word_ariths mod_if)
  then have "ln_enc_auth_dec_len env header n = (v + 16, n\<lparr>noise_nonce := noise_nonce n + 1\<rparr>)"
    using assms(1-3) be16_value [of v] by (simp add: ln_enc_auth_dec_len_def Let_def)
  moreover have "ln_enc_auth_dec_msg env pBuf n' = Inl Read_Overrun" if "length pBuf = unat v - 65520" for pBuf n'
  proof -
    have "of_nat (length pBuf) = v + 16" using that by (simp flip: len)
    then have "of_nat (length pBuf) - 16 = v" by simp
    moreover have "length pBuf < unat v + 16" using that v by linarith
    ultimately show ?thesis by (simp add: ln_enc_auth_dec_msg_def Let_def)
  qed
  ultimately show ?thesis using len assms(4) by auto
qed

theorem announced_length_wraps_witness:
  "\<exists>len n'. ln_enc_auth_dec_len toy_noise (be16 65530 @ replicate 16 0) toy_noise_state = (len, n') \<and>
     unat len = 10 \<and> ln_enc_auth_dec_msg toy_noise (replicate 10 0) n' = Inl Read_Overrun"
proof -
  have "length (be16 65530 @ replicate 16 0) = LN_SZ_NOISE_HEADER" by (simp add: be16_def)
  moreover have "ne_decrypt toy_noise k nn [] (take 2 (be16 65530 @ replicate 16 0)) d = Some (be16 65530)" for k nn d
    by (simp add: toy_noise_def be16_def)
  ultimately show ?thesis
    using announced_length_wraps [of toy_noise toy_noise_state "be16 65530 @ replicate 16 0" 65530]
    by (auto simp: toy_noise_state_def)
qed

section \<open>The handshake of two nodes\<close>

lemma mix_simps [simp]:
  "b8_e (mix_key env ss b) = b8_e b" "b8_h (mix_key env ss b) = b8_h b" "b8_state (mix_key env ss b) = b8_state b"
  "b8_e (mix_hash env d b) = b8_e b" "b8_ck (mix_hash env d b) = b8_ck b" "b8_temp_k (mix_hash env d b) = b8_temp_k b"
  "b8_state (mix_hash env d b) = b8_state b" "b8_h (mix_hash env d b) = sha256cat env (b8_h b) d"
  by (simp_all add: mix_key_def mix_hash_def split: prod.split)

text \<open>\<open>same_keys a b\<close>: both sides have the same hash, chaining key and temporary key.\<close>

definition same_keys :: "bolt8_t \<Rightarrow> bolt8_t \<Rightarrow> bool" where
  "same_keys a b \<longleftrightarrow> b8_h a = b8_h b \<and> b8_ck a = b8_ck b \<and> b8_temp_k a = b8_temp_k b \<and>
     length (b8_h a) = 32 \<and> length (b8_ck a) = 32 \<and> length (b8_temp_k a) = 32"

definition same_ck :: "bolt8_t \<Rightarrow> bolt8_t \<Rightarrow> bool" where
  "same_ck a b \<longleftrightarrow> b8_h a = b8_h b \<and> b8_ck a = b8_ck b \<and> length (b8_ck a) = 32"

lemma same_keys_ck: "same_keys a b \<Longrightarrow> same_ck a b"
  by (auto simp: same_keys_def same_ck_def)

lemma mix_key_same:
  assumes "noise_laws env" "same_ck a b"
  shows "same_ck (mix_key env ss a) (mix_key env ss b)" "b8_temp_k (mix_key env ss a) = b8_temp_k (mix_key env ss b)"
    "length (b8_temp_k (mix_key env ss a)) = 32"
  using assms noise_hkdf_lengths [OF assms(1), of "b8_ck a"]
    noise_hkdf_lengths(3) [OF assms(1), of "b8_ck a" "(b8_ck a, b8_temp_k a)" "Some ss" "(b8_ck b, b8_temp_k b)"]
  by (auto simp: same_ck_def mix_key_def split: prod.split) (metis fst_conv snd_conv)+

lemma mix_hash_same:
  assumes "noise_laws env" "same_ck a b"
  shows "same_ck (mix_hash env d a) (mix_hash env d b)"
  using assms by (auto simp: same_ck_def)

text \<open>One act: the receiver of what was sent learns the ephemeral key and has the same keys.\<close>

lemma act_exchange:
  assumes "noise_laws env" "same_ck a b" "length (nk_pub (b8_e a)) = BTC_SZ_PUBKEY"
    and "generate_shared_secret env pub (nk_priv (b8_e a)) = generate_shared_secret env (nk_pub (b8_e a)) priv"
  obtains m a' b' where "act_send env pub abort a = Inr (Some m, a')" "length m = 50"
    "act_recv env priv m b = (Some (nk_pub (b8_e a)), b')" "same_keys a' b'"
    "b8_e a' = b8_e a" "b8_e b' = b8_e b" "b8_state a' = b8_state a" "b8_state b' = b8_state b"
proof -
  let ?e = "nk_pub (b8_e a)" and ?ss = "generate_shared_secret env pub (nk_priv (b8_e a))"
  let ?a = "mix_key env ?ss (mix_hash env ?e a)" and ?b = "mix_key env ?ss (mix_hash env ?e b)"
  have m: "same_ck (mix_hash env ?e a) (mix_hash env ?e b)" by (rule mix_hash_same [OF assms(1,2)])
  note k = mix_key_same [OF assms(1) m, of ?ss]
  obtain x c where c: "ne_encrypt env (b8_temp_k ?a) (replicate 12 0) (b8_h ?a) [] = Some (x, c)"
    "length x = length ([] :: bytes)" "length c = 16"
    "ne_decrypt env (b8_temp_k ?a) (replicate 12 0) (b8_h ?a) x c = Some []"
    by (rule encrypt_ok [OF assms(1) k(3), of "replicate 12 0" "b8_h ?a" "[]"]) simp
  have "b8_h ?a = b8_h ?b" using k(1) by (simp only: same_ck_def)
  then have dec: "ne_decrypt env (b8_temp_k ?b) (replicate 12 0) (b8_h ?b) [] c = Some []"
    using c k(2) by simp
  have "act_send env pub abort a = Inr (Some ([0] @ ?e @ c), mix_hash env c ?a)"
    unfolding act_send_def Let_def using c(1) by simp
  moreover have "act_recv env priv ([0] @ ?e @ c) b = (Some ?e, mix_hash env c ?b)"
    unfolding act_recv_def Let_def using dec assms(3,4) c(3) by simp
  moreover have "same_keys (mix_hash env c ?a) (mix_hash env c ?b)"
    using mix_hash_same [OF assms(1) k(1), of c] k(2,3) assms(1)
    by (auto simp: same_keys_def same_ck_def noise_laws_def sha256cat_def)
  ultimately show ?thesis
    using that [of "[0] @ ?e @ c"] assms(3) c(3) by simp
qed

lemma dh_agreeD:
  assumes "dh_agree env a b"
  shows "length (nk_pub a) = BTC_SZ_PUBKEY" "length (nk_pub b) = BTC_SZ_PUBKEY"
    "generate_shared_secret env (nk_pub b) (nk_priv a) = generate_shared_secret env (nk_pub a) (nk_priv b)"
  using assms by (simp_all add: dh_agree_def generate_shared_secret_def)

text \<open>The third act: the responder learns the id, and the two directions get their keys.\<close>

lemma act_three:
  assumes "noise_laws env" "same_keys a b" "dh_agree env (own I) (b8_e b)"
  obtains m I' a' R' b' where "actthree_sender env (nk_pub (b8_e b)) I a = (Some m, I', a')"
    "actthree_receiver env m R b = (Some (nk_pub (own I)), R', b')"
    "b8_ck a' = b8_ck b'" "length (b8_ck a') = 32"
    "noise_key (noise_send I') = noise_key (noise_recv R')" "noise_key (noise_recv I') = noise_key (noise_send R')"
    "length (noise_key (noise_send I')) = 32" "length (noise_key (noise_recv I')) = 32"
proof -
  let ?s = "nk_pub (own I)"
  have k: "b8_temp_k a = b8_temp_k b" "b8_h a = b8_h b" "length (b8_temp_k a) = 32"
    using assms(2) by (auto simp: same_keys_def)
  obtain c t where c: "ne_encrypt env (b8_temp_k a) (noise_nonce12 1) (b8_h a) ?s = Some (c, t)" "length c = length ?s"
    "length t = 16" "ne_decrypt env (b8_temp_k a) (noise_nonce12 1) (b8_h a) c t = Some ?s"
    by (rule encrypt_ok [OF assms(1) k(3) length_nonce12])
  let ?ss = "generate_shared_secret env (nk_pub (b8_e b)) (nk_priv (own I))"
  have ss: "generate_shared_secret env ?s (nk_priv (b8_e b)) = ?ss"
    using assms(3) by (simp add: generate_shared_secret_def dh_agree_def)
  let ?a = "mix_key env ?ss (mix_hash env (c @ t) a)" and ?b = "mix_key env ?ss (mix_hash env (c @ t) b)"
  have m: "same_ck (mix_hash env (c @ t) a) (mix_hash env (c @ t) b)"
    by (rule mix_hash_same [OF assms(1) same_keys_ck [OF assms(2)]])
  note mk = mix_key_same [OF assms(1) m, of ?ss]
  obtain x t2 where t2: "ne_encrypt env (b8_temp_k ?a) (replicate 12 0) (b8_h ?a) [] = Some (x, t2)"
    "length x = length ([] :: bytes)" "length t2 = 16"
    "ne_decrypt env (b8_temp_k ?a) (replicate 12 0) (b8_h ?a) x t2 = Some []"
    by (rule encrypt_ok [OF assms(1) mk(3), of "replicate 12 0" "b8_h ?a" "[]"]) simp
  have ck: "b8_ck ?a = b8_ck ?b" "length (b8_ck ?a) = 32" "b8_h ?a = b8_h ?b" using mk(1) by (auto simp: same_ck_def)
  have dec: "ne_decrypt env (b8_temp_k ?b) (replicate 12 0) (b8_h ?b) [] t2 = Some []"
    using t2 mk(2) ck(3) by simp
  let ?old = "(noise_key (noise_send I), noise_key (noise_recv I))"
  obtain sk rk where h: "noise_hkdf env ?old (b8_ck ?a) None = (sk, rk)" by (cases "noise_hkdf env ?old (b8_ck ?a) None")
  then have h': "noise_hkdf env (noise_key (noise_recv R), noise_key (noise_send R)) (b8_ck ?b) None = (sk, rk)"
    using noise_hkdf_lengths(3) [OF assms(1) ck(2), of ?old None] ck(1) by metis
  have len: "length sk = 32" "length rk = 32"
    using noise_hkdf_lengths(1,2) [OF assms(1) ck(2), of ?old None] h by simp_all
  have pub: "length ?s = 33" using assms(3) by (simp add: dh_agree_def)
  have "actthree_sender env (nk_pub (b8_e b)) I a =
      (Some ([0] @ (c @ t) @ t2), I\<lparr>noise_send := (noise_send I)\<lparr>noise_key := sk\<rparr>,
         noise_recv := (noise_recv I)\<lparr>noise_key := rk\<rparr>\<rparr>, ?a)"
    unfolding actthree_sender_def Let_def using c(1) t2(1) h by simp
  moreover have "actthree_receiver env ([0] @ (c @ t) @ t2) R b =
      (Some ?s, R\<lparr>noise_send := (noise_send R)\<lparr>noise_key := rk\<rparr>,
         noise_recv := (noise_recv R)\<lparr>noise_key := sk\<rparr>\<rparr>, ?b)"
    unfolding actthree_receiver_def Let_def using c t2(3) dec h' k ss pub by simp
  ultimately show ?thesis using that ck len by simp
qed

text \<open>
  C15: two nodes complete the handshake. If the messages are delivered, the initiator and the
  responder accept the three acts; the responder has learnt the id of the initiator, each side
  encrypts with the key with which the other decrypts, both with the same chaining key and nonce 0,
  and the data of the handshake is gone.
\<close>

theorem handshake_agree:
  assumes "noise_laws env" "dh_agree env ei (own R)" "dh_agree env ei er" "dh_agree env (own I) er"
    and "I0 = snd (ln_enc_auth_handshake_init env (Some ei) fi (Some (nk_pub (own R))) I)"
    and "R0 = snd (ln_enc_auth_handshake_init env (Some er) fr None R)"
  shows "\<exists>m1 m2 m3 I1 I2 R1 R2.
    ln_enc_auth_handshake_start env (nk_pub (own R)) I0 = Inr (Some m1, I1) \<and>
    ln_enc_auth_handshake_recv env m1 R0 = Inr (Some m2, R1) \<and>
    ln_enc_auth_handshake_recv env m2 I1 = Inr (Some m3, I2) \<and>
    ln_enc_auth_handshake_recv env m3 R1 = Inr (Some (nk_pub (own I)), R2) \<and>
    \<not> ln_enc_auth_handshake_state I2 \<and> \<not> ln_enc_auth_handshake_state R2 \<and>
    noise_send I2 = noise_recv R2 \<and> noise_recv I2 = noise_send R2 \<and>
    noise_ok (noise_send I2) \<and> noise_ok (noise_recv I2) \<and>
    noise_nonce (noise_send I2) = 0 \<and> noise_nonce (noise_recv I2) = 0"
proof -
  let ?h = "sha256cat env (sha256cat env (ne_sha256 env M_PROTOCOL_NAME) M_PROLOGUE) (nk_pub (own R))"
  let ?a0 = "\<lparr>b8_e = ei, b8_h = ?h, b8_ck = ne_sha256 env M_PROTOCOL_NAME, b8_temp_k = fi, b8_state = START_INITIATOR\<rparr>"
  let ?b0 = "\<lparr>b8_e = er, b8_h = ?h, b8_ck = ne_sha256 env M_PROTOCOL_NAME, b8_temp_k = fr, b8_state = WAIT_ACT_ONE\<rparr>"
  have init: "I0 = I\<lparr>p_handshake := Some ?a0\<rparr>" "R0 = R\<lparr>p_handshake := Some ?b0\<rparr>"
    using assms(5,6) by (simp_all add: ln_enc_auth_handshake_init_def Let_def)
  have same: "same_ck ?a0 ?b0" using assms(1) by (simp add: same_ck_def noise_laws_def)
  obtain m1 a1 b1 where one: "act_send env (nk_pub (own R)) True ?a0 = Inr (Some m1, a1)"
    "act_recv env (nk_priv (own R)) m1 ?b0 = (Some (nk_pub ei), b1)" "same_keys a1 b1" "b8_e a1 = ei" "b8_e b1 = er"
    by (rule act_exchange [OF assms(1) same, of "nk_pub (own R)" "nk_priv (own R)" True])
      (simp_all add: dh_agreeD [OF assms(2)])
  let ?a1 = "a1\<lparr>b8_state := WAIT_ACT_TWO\<rparr>"
  have same1: "same_ck b1 ?a1" using same_keys_ck [OF one(3)] by (auto simp: same_ck_def)
  obtain m2 b2 a2 where two: "act_send env (nk_pub ei) False b1 = Inr (Some m2, b2)"
    "act_recv env (nk_priv ei) m2 ?a1 = (Some (nk_pub er), a2)" "same_keys b2 a2" "b8_e b2 = er"
    by (rule act_exchange [OF assms(1) same1, of "nk_pub ei" "nk_priv ei" False])
      (simp_all add: dh_agreeD [OF assms(3)] one(5))
  let ?b2 = "b2\<lparr>b8_state := WAIT_ACT_THREE\<rparr>" and ?I1 = "I\<lparr>p_handshake := Some ?a1\<rparr>"
  let ?R1 = "R\<lparr>p_handshake := Some ?b2\<rparr>"
  have same2: "same_keys a2 ?b2" using two(3) by (auto simp: same_keys_def)
  obtain m3 I' a3 R' b3 where three: "actthree_sender env (nk_pub er) ?I1 a2 = (Some m3, I', a3)"
    "actthree_receiver env m3 ?R1 ?b2 = (Some (nk_pub (own I)), R', b3)"
    "b8_ck a3 = b8_ck b3" "length (b8_ck a3) = 32"
    "noise_key (noise_send I') = noise_key (noise_recv R')" "noise_key (noise_recv I') = noise_key (noise_send R')"
    "length (noise_key (noise_send I')) = 32" "length (noise_key (noise_recv I')) = 32"
    by (rule act_three [OF assms(1) same2, of ?I1 ?R1]) (simp_all add: assms(4) two(4))
  have "ln_enc_auth_handshake_start env (nk_pub (own R)) I0 = Inr (Some m1, ?I1)"
    by (simp add: init ln_enc_auth_handshake_start_def actone_sender_def one(1))
  moreover have "ln_enc_auth_handshake_recv env m1 R0 = Inr (Some m2, ?R1)"
    by (simp add: init ln_enc_auth_handshake_recv_def actone_receiver_def acttwo_sender_def one(2) two(1))
  moreover have "ln_enc_auth_handshake_recv env m2 ?I1 = Inr (Some m3, handshake_end (b8_ck a3) I')"
    by (simp add: ln_enc_auth_handshake_recv_def acttwo_receiver_def one(4) two(2) three(1))
  moreover have "ln_enc_auth_handshake_recv env m3 ?R1 = Inr (Some (nk_pub (own I)), handshake_end (b8_ck b3) R')"
    by (simp add: ln_enc_auth_handshake_recv_def three(2))
  ultimately show ?thesis
    using three(3-8) by (intro exI conjI) (assumption | simp add: handshake_end_def ln_enc_auth_handshake_state_def noise_ok_def)+
qed

text \<open>Two nodes over the trivial cipher.\<close>

definition toy_keys :: "byte \<Rightarrow> node_keys" where
  "toy_keys x = \<lparr>nk_priv = [x], nk_pub = replicate 33 x\<rparr>"

definition toy_node :: "byte \<Rightarrow> noise_self" where
  "toy_node x = \<lparr>p_handshake = None, noise_send = toy_noise_state, noise_recv = toy_noise_state, own = toy_keys x\<rparr>"

lemma toy_dh: "dh_agree toy_noise (toy_keys x) (toy_keys y)"
  by (simp add: dh_agree_def toy_noise_def toy_keys_def mult.commute)

theorem handshake_agree_witness:
  "\<exists>m1 m2 m3 I1 I2 R1 R2.
    ln_enc_auth_handshake_start toy_noise (replicate 33 7)
      (snd (ln_enc_auth_handshake_init toy_noise (Some (toy_keys 3)) [] (Some (replicate 33 7)) (toy_node 5))) =
      Inr (Some m1, I1) \<and>
    ln_enc_auth_handshake_recv toy_noise m1
      (snd (ln_enc_auth_handshake_init toy_noise (Some (toy_keys 4)) [] None (toy_node 7))) = Inr (Some m2, R1) \<and>
    ln_enc_auth_handshake_recv toy_noise m2 I1 = Inr (Some m3, I2) \<and>
    ln_enc_auth_handshake_recv toy_noise m3 R1 = Inr (Some (replicate 33 5), R2) \<and>
    noise_send I2 = noise_recv R2 \<and> noise_recv I2 = noise_send R2"
proof -
  have own: "own (toy_node x) = toy_keys x" "nk_pub (toy_keys x) = replicate 33 x" for x
    by (simp_all add: toy_node_def toy_keys_def)
  have dh: "dh_agree toy_noise (toy_keys x) (own (toy_node y))" "dh_agree toy_noise (own (toy_node x)) (toy_keys y)" for x y
    by (simp_all add: own toy_dh)
  show ?thesis
    using handshake_agree [OF toy_noise_laws dh(1) [of 3 7] toy_dh [of 3 4] dh(2) [of 5 4] refl refl, of "[]" "[]"]
    unfolding own by blast
qed

end
