(* ===== verification/Derkey.thy ===== *)
theory Derkey
  imports Ln_Const
begin

text \<open>
  \<^verbatim>\<open>ln/ln_derkey.c\<close>: per-commitment secrets and key derivation (BOLT#3). \<open>sha\<close> is the parameter
  for SHA-256; nothing is assumed of it. The store keeps at most 49 secrets and answers for every
  secret received so far; the main result of the theory is that this holds for the code, for every
  number of secrets inserted in the order of the protocol.
\<close>

section \<open>Generation from a seed\<close>

definition flip_at :: "nat \<Rightarrow> bytes \<Rightarrow> bytes" where
  \<comment> \<open>\<open>output[lp / 8] ^= (1 << (lp % 8))\<close>\<close>
  "flip_at lp output = output[lp div 8 := output ! (lp div 8) XOR push_bit (lp mod 8) 1]"

text \<open>
  The loop runs from \<open>bit\<close> down to 0. The model counts the bits that are left, \<open>n = bit + 1\<close>, so
  that \<open>bit - 1\<close> of the caller, which may be \<open>-1\<close>, is a natural number.
\<close>

fun derive_secret :: "(bytes \<Rightarrow> bytes) \<Rightarrow> bytes \<Rightarrow> nat \<Rightarrow> u64 \<Rightarrow> bytes" where
  "derive_secret sha output 0 Index = output"
| "derive_secret sha output (Suc lp) Index =
     derive_secret sha
       (if Index AND push_bit lp 1 \<noteq> 0 then sha (flip_at lp output) else output) lp Index"

definition ln_derkey_create_secret :: "(bytes \<Rightarrow> bytes) \<Rightarrow> bytes \<Rightarrow> u64 \<Rightarrow> bytes" where
  "ln_derkey_create_secret sha pSeed Index = derive_secret sha pSeed (47 + 1) Index"

fun where_loop :: "nat \<Rightarrow> nat \<Rightarrow> u64 \<Rightarrow> nat" where
  "where_loop 0 lp Index = lp"
| "where_loop (Suc n) lp Index =
     (if Index AND push_bit lp 1 \<noteq> 0 then lp else where_loop n (lp + 1) Index)"

definition where_to_put_secret :: "u64 \<Rightarrow> nat" where
  "where_to_put_secret Index =
     (if Index AND 0xffffffffffff = 0 then 48 else where_loop 48 0 Index)"

section \<open>The store\<close>

record derkey_entry =
  secret :: bytes
  index :: u64

type_synonym ln_derkey_storage_t = "derkey_entry list"

definition entry_init :: derkey_entry where
  "entry_init = \<lparr>secret = replicate BTC_SZ_PRIVKEY 0xcc, index = 0x123456789abc\<rparr>"

definition ln_derkey_storage_init :: ln_derkey_storage_t where
  "ln_derkey_storage_init = replicate 49 entry_init"

text \<open>The comparison of the derived secrets with the stored ones, for the buckets below \<open>B\<close>,
  the source's \<open>bit\<close>.\<close>

fun insert_check :: "(bytes \<Rightarrow> bytes) \<Rightarrow> ln_derkey_storage_t \<Rightarrow> bytes \<Rightarrow> nat \<Rightarrow> nat \<Rightarrow> nat \<Rightarrow> bool" where
  "insert_check sha st pSecret B 0 lp = True"
| "insert_check sha st pSecret B (Suc n) lp =
     (derive_secret sha pSecret B (index (st ! lp)) = secret (st ! lp) \<and>
      insert_check sha st pSecret B n (lp + 1))"

definition ln_derkey_storage_insert_secret ::
  "(bytes \<Rightarrow> bytes) \<Rightarrow> ln_derkey_storage_t \<Rightarrow> bytes \<Rightarrow> u64 \<Rightarrow> ln_derkey_storage_t c_result" where
  "ln_derkey_storage_insert_secret sha st pSecret Index =
     (let B = where_to_put_secret Index in
      assert_c (insert_check sha st pSecret B B 0)
        (Inr (st[B := \<lparr>secret = pSecret, index = Index\<rparr>])))"

fun get_loop :: "(bytes \<Rightarrow> bytes) \<Rightarrow> ln_derkey_storage_t \<Rightarrow> u64 \<Rightarrow> nat \<Rightarrow> bytes option" where
  "get_loop sha st Index 0 = None"
| "get_loop sha st Index (Suc lp) =
     (let MASK = NOT (push_bit lp 1 - 1) in
      if Index AND MASK = index (st ! lp) then
        (if Index = index (st ! lp) then Some (secret (st ! lp))
         else Some (derive_secret sha (secret (st ! lp)) (lp + 1) (Index - index (st ! lp))))
      else get_loop sha st Index lp)"

definition ln_derkey_storage_get_secret ::
  "(bytes \<Rightarrow> bytes) \<Rightarrow> ln_derkey_storage_t \<Rightarrow> u64 \<Rightarrow> bytes option" where
  "ln_derkey_storage_get_secret sha st Index = get_loop sha st Index 49"

section \<open>Bits and numbers\<close>

lemma and_push_bit_1: "w AND 2 ^ n = (0 :: 'a::len word) \<longleftrightarrow> \<not> bit w n"
  by (simp add: bit_iff_and_push_bit_not_eq_0)

lemma bit_unat: "bit (unat w) n \<longleftrightarrow> bit (w :: 'a::len word) n"
  by (simp add: bit_unsigned_iff)

text \<open>Clearing the low bits of an index.\<close>

definition clear_low :: "nat \<Rightarrow> nat \<Rightarrow> nat" where
  "clear_low b n = n div 2 ^ b * 2 ^ b"

lemma clear_low_le: "clear_low b n \<le> n"
  by (simp add: clear_low_def)

lemma clear_low_0 [simp]: "clear_low 0 n = n"
  by (simp add: clear_low_def)

lemma bit_clear_low: "bit (clear_low b n) k \<longleftrightarrow> b \<le> k \<and> bit n k"
proof -
  have "clear_low b n = push_bit b (drop_bit b n)"
    by (simp add: clear_low_def push_bit_eq_mult drop_bit_eq_div)
  then show ?thesis by (auto simp: bit_simps)
qed

lemma unat_and_mask: "unat (w AND NOT (push_bit b 1 - 1)) = clear_low b (unat (w :: 'a::len word))"
proof (rule bit_eqI)
  fix k
  have "NOT (push_bit b 1 - 1) = (NOT (mask b) :: 'a word)"
    by (simp add: mask_eq_exp_minus_1 push_bit_eq_mult)
  then show "bit (unat (w AND NOT (push_bit b 1 - 1))) k \<longleftrightarrow> bit (clear_low b (unat w)) k"
    by (auto simp: bit_unat bit_clear_low bit_simps dest: bit_imp_le_length)
qed

text \<open>The derivation over numbers.\<close>

fun dseq :: "(bytes \<Rightarrow> bytes) \<Rightarrow> bytes \<Rightarrow> nat \<Rightarrow> nat \<Rightarrow> bytes" where
  "dseq sha P 0 i = P"
| "dseq sha P (Suc k) i = dseq sha (if bit i k then sha (flip_at k P) else P) k i"

lemma derive_secret_dseq: "derive_secret sha P n I = dseq sha P n (unat I)"
  by (induction n arbitrary: P) (simp_all add: and_push_bit_1 bit_unat)

lemma dseq_cong: "(\<And>k. k < n \<Longrightarrow> bit i k = bit j k) \<Longrightarrow> dseq sha P n i = dseq sha P n j"
  by (induction n arbitrary: P) simp_all

lemma dseq_id: "(\<And>k. k < n \<Longrightarrow> \<not> bit i k) \<Longrightarrow> dseq sha P n i = P"
  by (induction n arbitrary: P) simp_all

text \<open>The high bits first, then the low bits.\<close>

lemma dseq_split: "b \<le> n \<Longrightarrow> dseq sha P n i = dseq sha (dseq sha P n (clear_low b i)) b i"
proof (induction n arbitrary: P)
  case (Suc n)
  show ?case
  proof (cases "b = Suc n")
    case True
    then have "dseq sha P (Suc n) (clear_low b i) = P" by (intro dseq_id) (simp add: bit_clear_low)
    with True show ?thesis by simp
  next
    case False
    with Suc.prems have "bit (clear_low b i) n = bit i n" by (simp add: bit_clear_low)
    with False Suc.prems Suc.IH show ?thesis by simp
  qed
qed simp

text \<open>\<open>tz n b\<close>: the secret with the index \<open>n\<close> belongs into bucket \<open>b\<close>.\<close>

definition tz :: "nat \<Rightarrow> nat \<Rightarrow> bool" where
  "tz n b \<longleftrightarrow> (if n = 0 then b = 48 else bit n b \<and> (\<forall>k<b. \<not> bit n k))"

lemma tz_unique: "tz n b \<Longrightarrow> tz n c \<Longrightarrow> b = c"
  by (metis linorder_neqE_nat tz_def)

lemma bit_less_exp: "n < 2 ^ k \<Longrightarrow> bit (n :: nat) b \<Longrightarrow> b < k"
  by (metis bit_take_bit_iff take_bit_nat_eq_self)

lemma tz_le: "tz n b \<Longrightarrow> n < 2 ^ 48 \<Longrightarrow> b \<le> 48"
  using bit_less_exp [of n 48 b] by (auto simp: tz_def split: if_splits)

lemma where_loop_spec:
  "\<exists>k. lp \<le> k \<and> k < lp + n \<and> bit I k \<Longrightarrow>
     bit I (where_loop n lp I) \<and> (\<forall>k. lp \<le> k \<and> k < where_loop n lp I \<longrightarrow> \<not> bit I k)"
proof (induction n arbitrary: lp)
  case (Suc n)
  show ?case
  proof (cases "bit I lp")
    case False
    with Suc.prems have "\<exists>k. lp + 1 \<le> k \<and> k < lp + 1 + n \<and> bit I k"
      by (metis add.commute add_Suc_right le_neq_implies_less plus_1_eq_Suc Suc_leI)
    from Suc.IH [OF this] False show ?thesis
      by (simp add: and_push_bit_1) (metis Suc_leI le_neq_implies_less)
  qed (auto simp: and_push_bit_1)
qed auto

lemma tz_where_to_put:
  assumes "unat I < 2 ^ 48"
  shows "tz (unat I) (where_to_put_secret I)"
proof (cases "I = 0")
  case False
  have m: "(0xffffffffffff :: u64) = mask 48" by (simp add: mask_eq_exp_minus_1)
  from assms have "take_bit 48 I = I"
    by (metis take_bit_nat_eq_self unsigned_take_bit_eq word_unat_eq_iff)
  with False have "I AND 0xffffffffffff \<noteq> 0" by (simp add: m flip: take_bit_eq_mask)
  moreover obtain k where "bit I k" using False by (auto simp: bit_eq_iff)
  moreover from this have "k < 48" using assms bit_less_exp [of "unat I" 48 k] by (simp add: bit_unat)
  ultimately show ?thesis
    using where_loop_spec [of 0 48 I] False
    by (auto simp: where_to_put_secret_def tz_def bit_unat unat_eq_0)
qed (simp add: where_to_put_secret_def tz_def)

lemma tz_clear_low: "tz n b \<Longrightarrow> clear_low b n = n"
  by (rule bit_eqI) (auto simp: tz_def bit_clear_low not_less split: if_splits)

lemma tz_dvd: "tz n b \<Longrightarrow> 2 ^ b dvd n"
  by (metis clear_low_def dvd_triv_right tz_clear_low)

lemma tz_add:
  assumes "tz J b" "lp < b"
  shows "clear_low b (J + 2 ^ lp) = J" "tz (J + 2 ^ lp) lp"
proof -
  obtain q where J: "J = 2 ^ b * q" using tz_dvd [OF assms(1)] by (auto elim: dvdE)
  have "(2::nat) ^ lp < 2 ^ b" using assms(2) by simp
  then show c: "clear_low b (J + 2 ^ lp) = J"
    by (simp add: clear_low_def J)
  have "bit (J + 2 ^ lp) k \<longleftrightarrow> k = lp" if "k \<le> lp" for k
  proof -
    have "J = 2 ^ (Suc k) * (2 ^ (b - Suc k) * q)"
      using that assms(2) by (simp add: J flip: power_add power_Suc mult.assoc)
    moreover have "2 ^ lp = (2::nat) ^ k * 2 ^ (lp - k)"
      using that by (simp flip: power_add)
    ultimately have "(J + 2 ^ lp) div 2 ^ k = 2 * (2 ^ (b - Suc k) * q) + 2 ^ (lp - k)"
      by (simp add: algebra_simps flip: distrib_left)
    then show ?thesis using that by (auto simp: bit_iff_odd)
  qed
  then show "tz (J + 2 ^ lp) lp" by (auto simp: tz_def)
qed

lemma tz_add_less: "tz J b \<Longrightarrow> lp < b \<Longrightarrow> J < 2 ^ 48 \<Longrightarrow> J + 2 ^ lp < 2 ^ 48"
proof -
  assume a: "tz J b" "lp < b" "J < 2 ^ 48"
  have b: "b \<le> 48" using a by (intro tz_le)
  obtain q where J: "J = 2 ^ b * q" using tz_dvd [OF a(1)] by (auto elim: dvdE)
  have e: "(2::nat) ^ 48 = 2 ^ b * 2 ^ (48 - b)" using b by (simp flip: power_add)
  then have "2 ^ b * q < 2 ^ b * 2 ^ (48 - b)" using a(3) unfolding J by (simp only:)
  then have "q < 2 ^ (48 - b)" by simp
  then have "2 ^ b * (q + 1) \<le> 2 ^ b * (2 ^ (48 - b) :: nat)" by (intro mult_le_mono2) simp
  moreover have "J + 2 ^ lp < 2 ^ b * (q + 1)" using a(2) J by simp
  ultimately show ?thesis unfolding e by (rule order_less_le_trans [rotated])
qed

lemma tz_gap: "tz J b \<Longrightarrow> lp < b \<Longrightarrow> J < I \<Longrightarrow> I < J + 2 ^ lp \<Longrightarrow> \<not> tz I lp"
proof
  assume a: "tz J b" "lp < b" "J < I" "I < J + 2 ^ lp" "tz I lp"
  have "2 ^ lp dvd J" using a(1,2) tz_dvd by (meson dvd_trans le_imp_power_dvd less_imp_le)
  moreover have "2 ^ lp dvd I" using a(5) by (rule tz_dvd)
  ultimately have "2 ^ lp dvd I - J" using a(3) by (simp add: dvd_diff_nat)
  with a(3,4) show False using nat_dvd_not_less [of "I - J" "2 ^ lp"] by simp
qed

section \<open>The invariant of the store\<close>

text \<open>
  The secrets of a seed, and the store after all secrets with an index of at least \<open>J\<close> have been
  inserted: a bucket holds the secret with the least such index that belongs there, or is as
  \<open>ln_derkey_storage_init\<close> left it when there is none.
\<close>

definition secret_of :: "(bytes \<Rightarrow> bytes) \<Rightarrow> bytes \<Rightarrow> nat \<Rightarrow> bytes" where
  "secret_of sha seed n = dseq sha seed 48 n"

definition bucket_least :: "nat \<Rightarrow> nat \<Rightarrow> nat \<Rightarrow> bool" where
  "bucket_least J b I \<longleftrightarrow> J \<le> I \<and> I < 2 ^ 48 \<and> tz I b \<and> (\<forall>n. J \<le> n \<and> n < I \<longrightarrow> \<not> tz n b)"

definition storage_inv ::
  "(bytes \<Rightarrow> bytes) \<Rightarrow> bytes \<Rightarrow> ln_derkey_storage_t \<Rightarrow> nat \<Rightarrow> bool" where
  "storage_inv sha seed st J \<longleftrightarrow> length st = 49 \<and>
     (\<forall>b<49. (st ! b = entry_init \<and> (\<forall>n. J \<le> n \<and> n < 2 ^ 48 \<longrightarrow> \<not> tz n b)) \<or>
       (\<exists>I. bucket_least J b I \<and> st ! b = \<lparr>secret = secret_of sha seed I, index = of_nat I\<rparr>))"

lemma ln_derkey_create_secret_eq: "ln_derkey_create_secret sha seed I = secret_of sha seed (unat I)"
  by (simp add: ln_derkey_create_secret_def secret_of_def derive_secret_dseq)

lemma storage_inv_init: "storage_inv sha seed ln_derkey_storage_init (2 ^ 48)"
  by (auto simp: storage_inv_def ln_derkey_storage_init_def)

lemma unat_of_nat_48: "n < 2 ^ 48 \<Longrightarrow> unat (of_nat n :: u64) = n"
  by (simp add: unat_of_nat take_bit_nat_eq_self)

lemma secret_of_low: "b \<le> 48 \<Longrightarrow> secret_of sha seed n = dseq sha (secret_of sha seed (clear_low b n)) b n"
  unfolding secret_of_def by (rule dseq_split)

text \<open>The bucket below that of \<open>J\<close> holds the secret of \<open>J + 2 ^ lp\<close>.\<close>

lemma storage_inv_lower:
  assumes "storage_inv sha seed st (Suc J)" "J < 2 ^ 48" "tz J b" "lp < b"
  shows "st ! lp = \<lparr>secret = secret_of sha seed (J + 2 ^ lp), index = of_nat (J + 2 ^ lp)\<rparr>"
proof -
  let ?K = "J + 2 ^ lp"
  have lp: "lp < 49" using assms tz_le [of J b] by simp
  have K: "Suc J \<le> ?K" "?K < 2 ^ 48" "tz ?K lp"
    using tz_add_less [of J b lp] tz_add [of J b lp] assms by (simp_all add: Suc_le_eq)
  then obtain I where I: "bucket_least (Suc J) lp I"
    "st ! lp = \<lparr>secret = secret_of sha seed I, index = of_nat I\<rparr>"
    using assms(1) lp unfolding storage_inv_def by blast
  have "\<not> ?K < I" using I(1) K by (auto simp: bucket_least_def)
  moreover have "\<not> I < ?K" using I(1) tz_gap [OF assms(3,4), of I] by (auto simp: bucket_least_def)
  ultimately have "I = ?K" by simp
  with I show ?thesis by simp
qed

lemma insert_check_True:
  "(\<And>k. lp \<le> k \<Longrightarrow> k < lp + n \<Longrightarrow> derive_secret sha s B (index (st ! k)) = secret (st ! k)) \<Longrightarrow>
     insert_check sha st s B n lp"
  by (induction n arbitrary: lp) simp_all

lemma storage_inv_insert:
  assumes inv: "storage_inv sha seed st (Suc J)" and J: "J < 2 ^ 48"
  shows "\<exists>st'. ln_derkey_storage_insert_secret sha st (secret_of sha seed J) (of_nat J) = Inr st' \<and>
    storage_inv sha seed st' J"
proof -
  let ?b = "where_to_put_secret (of_nat J)"
  let ?st = "st[?b := \<lparr>secret = secret_of sha seed J, index = of_nat J\<rparr>]"
  have tz: "tz J ?b" using tz_where_to_put [of "of_nat J"] J by (simp add: unat_of_nat_48)
  have "insert_check sha st (secret_of sha seed J) ?b ?b 0"
  proof (rule insert_check_True)
    fix k assume "k < 0 + ?b"
    then have k: "k < ?b" by simp
    have "dseq sha (secret_of sha seed J) ?b (J + 2 ^ k) = secret_of sha seed (J + 2 ^ k)"
      using secret_of_low [of ?b sha seed "J + 2 ^ k"] tz_add(1) [OF tz k] tz_le [OF tz J] by simp
    then show "derive_secret sha (secret_of sha seed J) ?b (index (st ! k)) = secret (st ! k)"
      using storage_inv_lower [OF inv J tz k] unat_of_nat_48 [OF tz_add_less [OF tz k J]]
      by (simp add: derive_secret_dseq)
  qed
  moreover have "storage_inv sha seed ?st J"
    unfolding storage_inv_def
  proof (intro conjI allI impI)
    show "length ?st = 49" using inv by (simp add: storage_inv_def)
    fix c assume c: "c < (49::nat)"
    show "(?st ! c = entry_init \<and> (\<forall>n. J \<le> n \<and> n < 2 ^ 48 \<longrightarrow> \<not> tz n c)) \<or>
      (\<exists>I. bucket_least J c I \<and> ?st ! c = \<lparr>secret = secret_of sha seed I, index = of_nat I\<rparr>)"
    proof (cases "c = ?b")
      case True
      have "bucket_least J c J" using tz J True by (auto simp: bucket_least_def)
      then show ?thesis using True c inv by (auto simp: storage_inv_def)
    next
      case False
      then have "\<not> tz J c" using tz tz_unique by blast
      then have "bucket_least (Suc J) c I \<Longrightarrow> bucket_least J c I" for I
        unfolding bucket_least_def by (metis Suc_leI Suc_leD le_neq_implies_less)
      moreover have "(\<forall>n. Suc J \<le> n \<and> n < 2 ^ 48 \<longrightarrow> \<not> tz n c) \<Longrightarrow> (\<forall>n. J \<le> n \<and> n < 2 ^ 48 \<longrightarrow> \<not> tz n c)"
        using \<open>\<not> tz J c\<close> by (metis Suc_leI le_neq_implies_less)
      ultimately show ?thesis using inv c False unfolding storage_inv_def by (metis nth_list_update_neq)
    qed
  qed
  ultimately show ?thesis by (simp add: ln_derkey_storage_insert_secret_def Let_def)
qed

section \<open>The secrets that the store answers\<close>

text \<open>A bucket that matches gives the right secret.\<close>

lemma bucket_hit:
  assumes "I = clear_low b K" "b \<le> 48" "K < 2 ^ 48"
    and e: "e = \<lparr>secret = secret_of sha seed I, index = of_nat I\<rparr>"
  shows "(if of_nat K = index e then Some (secret e)
          else Some (derive_secret sha (secret e) (b + 1) (of_nat K - index e))) =
         Some (secret_of sha seed K)"
proof -
  have I: "I \<le> K" "I < 2 ^ 48" using assms clear_low_le [of b K] by auto
  have "unat (of_nat K - of_nat I :: u64) = K - I"
    using I assms by (simp add: unat_sub unat_of_nat_48 word_le_nat_alt)
  moreover have "K - I = K mod 2 ^ b"
    using assms(1) by (simp add: clear_low_def minus_div_mult_eq_mod)
  ultimately have d: "unat (of_nat K - of_nat I :: u64) = take_bit b K"
    by (simp add: take_bit_eq_mod)
  have "dseq sha (secret_of sha seed I) (b + 1) (take_bit b K) =
      dseq sha (secret_of sha seed I) b (take_bit b K)"
    by (simp add: bit_simps)
  also have "\<dots> = dseq sha (secret_of sha seed I) b K"
    by (rule dseq_cong) (simp add: bit_simps)
  also have "\<dots> = secret_of sha seed K"
    using secret_of_low [OF assms(2), of sha seed K] assms(1) by simp
  finally have "dseq sha (secret_of sha seed I) (b + 1) (take_bit b K) = secret_of sha seed K" .
  moreover have "(of_nat K :: u64) = of_nat I \<longleftrightarrow> K = I"
    using I assms unat_of_nat_48 by metis
  ultimately show ?thesis using d by (simp add: e derive_secret_dseq)
qed

text \<open>
  The loop returns the secret of \<open>K\<close> as soon as some bucket matches, provided that no bucket in its
  initial state does.
\<close>

lemma get_loop_hit:
  assumes "n \<le> 49" "K < 2 ^ 48"
    and "\<And>b. b < n \<Longrightarrow> clear_low b K = unat (index (st ! b)) \<Longrightarrow>
      st ! b = \<lparr>secret = secret_of sha seed (clear_low b K), index = of_nat (clear_low b K)\<rparr>"
    and "\<exists>b<n. clear_low b K = unat (index (st ! b))"
  shows "get_loop sha st (of_nat K) n = Some (secret_of sha seed K)"
  using assms
proof (induction n)
  case (Suc n)
  have mask: "of_nat K AND NOT (push_bit n 1 - 1) = index (st ! n) \<longleftrightarrow>
      clear_low n K = unat (index (st ! n))"
    using Suc.prems(2) by (simp only: word_unat_eq_iff unat_and_mask unat_of_nat_48)
  show ?case
  proof (cases "clear_low n K = unat (index (st ! n))")
    case True
    then have "st ! n = \<lparr>secret = secret_of sha seed (clear_low n K), index = of_nat (clear_low n K)\<rparr>"
      using Suc.prems(3) [of n] by simp
    then have hit: "(if of_nat K = index (st ! n) then Some (secret (st ! n))
        else Some (derive_secret sha (secret (st ! n)) (n + 1) (of_nat K - index (st ! n)))) =
      Some (secret_of sha seed K)"
      using Suc.prems(1,2) by (intro bucket_hit [OF refl]) simp_all
    have "of_nat K AND NOT (push_bit n 1 - 1) = index (st ! n)" using mask True by blast
    then show ?thesis unfolding get_loop.simps Let_def hit by (rule if_P)
  next
    case False
    moreover have "\<exists>b<n. clear_low b K = unat (index (st ! b))"
      using Suc.prems(4) False by (metis less_Suc_eq)
    ultimately show ?thesis using Suc mask by simp
  qed
qed simp

text \<open>Some bucket matches: that of the largest block around \<open>K\<close> whose first index is not below \<open>J\<close>.\<close>

lemma clear_low_Suc:
  "clear_low (Suc b) n = (if bit n b then clear_low b n - 2 ^ b else clear_low b n)"
  "bit n b \<Longrightarrow> 2 ^ b \<le> clear_low b n"
proof -
  have n: "n div 2 ^ b = 2 * (n div 2 ^ Suc b) + of_bool (bit n b)"
    unfolding power_Suc2 div_mult2_eq bit_iff_odd
    using div_mult_mod_eq [of "n div 2 ^ b" 2] by (simp add: mod_2_eq_odd mult.commute)
  show "clear_low (Suc b) n = (if bit n b then clear_low b n - 2 ^ b else clear_low b n)"
    unfolding clear_low_def n by (simp add: algebra_simps)
  show "2 ^ b \<le> clear_low b n" if "bit n b"
    unfolding clear_low_def n using that by simp
qed

lemma tz_clear_low_bit: "bit n b \<Longrightarrow> tz (clear_low b n) b"
  using clear_low_Suc(2) [of n b] by (auto simp: tz_def bit_clear_low)

lemma bucket_exists:
  assumes "J \<le> K" "K < 2 ^ 48"
  shows "\<exists>b<49. bucket_least J b (clear_low b K)"
proof -
  define b where "b = (GREATEST b. b \<le> 48 \<and> J \<le> clear_low b K)"
  have "0 \<le> (48::nat) \<and> J \<le> clear_low 0 K" using assms by simp
  from GreatestI_nat [of "\<lambda>b. b \<le> 48 \<and> J \<le> clear_low b K", OF this, of 48]
  have b: "b \<le> 48" "J \<le> clear_low b K" by (simp_all add: b_def)
  have max: "\<not> J \<le> clear_low (Suc b) K" if "b < 48"
  proof
    assume "J \<le> clear_low (Suc b) K"
    with that have "Suc b \<le> b"
      using Greatest_le_nat [of "\<lambda>b. b \<le> 48 \<and> J \<le> clear_low b K" "Suc b" 48] by (simp add: b_def)
    then show False by simp
  qed
  have less: "clear_low b K < 2 ^ 48" using clear_low_le [of b K] assms by simp
  show ?thesis
  proof (cases "b = 48")
    case True
    then have "clear_low b K = 0" using assms by (simp add: clear_low_def)
    with True b show ?thesis by (intro exI [of _ 48]) (simp add: bucket_least_def tz_def)
  next
    case False
    with b max have m: "\<not> J \<le> clear_low (Suc b) K" by simp
    with b have bit: "bit K b" using clear_low_Suc(1) [of b K] by (auto split: if_splits)
    have "\<not> tz n b" if n: "J \<le> n" "n < clear_low b K" for n
    proof
      assume "tz n b"
      then have "2 ^ b dvd clear_low b K - n" using tz_dvd [of n b] by (simp add: clear_low_def dvd_diff_nat)
      then have "2 ^ b \<le> clear_low b K - n" using n(2) by (intro dvd_imp_le) simp_all
      with n m show False using clear_low_Suc(1) [of b K] bit by simp
    qed
    with b less tz_clear_low_bit [OF bit] show ?thesis
      by (intro exI [of _ b]) (auto simp: bucket_least_def)
  qed
qed

lemma clear_low_init:
  assumes "clear_low b K = 0x123456789abc"
  shows "b \<le> 2" "0x123456789abc \<le> K" "K < 0x123456789abc + 2 ^ b"
proof -
  show "b \<le> 2"
  proof (rule ccontr)
    assume "\<not> b \<le> 2"
    then have "\<not> bit (clear_low b K) 2" by (simp add: bit_clear_low)
    then show False by (simp add: assms bit_iff_odd)
  qed
  show "0x123456789abc \<le> K" using clear_low_le [of b K] assms by simp
  have "K mod 2 ^ b < 2 ^ b" by simp
  then show "K < 0x123456789abc + 2 ^ b"
    using div_mult_mod_eq [of K "2 ^ b"] assms unfolding clear_low_def by linarith
qed

lemma entry_init_no_match:
  assumes "\<forall>n. J \<le> n \<and> n < 2 ^ 48 \<longrightarrow> \<not> tz n b" "J \<le> K" "K < 2 ^ 48" "b < 49"
  shows "clear_low b K \<noteq> unat (index entry_init)"
proof
  assume m: "clear_low b K = unat (index entry_init)"
  then have c: "clear_low b K = 0x123456789abc" by (simp add: entry_init_def)
  note K = clear_low_init [OF c]
  then consider "b = 0" | "b = 1" | "b = 2" by linarith
  then have "tz (2 ^ 48 - 2 ^ b) b"
    by cases (auto simp: tz_def bit_iff_odd less_2_cases_iff)
  with assms(1) have "2 ^ 48 - 2 ^ b < J" by (metis diff_less not_le_imp_less zero_less_numeral zero_less_power)
  moreover from K(1) have "(2::nat) ^ b \<le> 2 ^ 2" by (intro power_increasing) simp_all
  ultimately show False using K(3) assms(2) by simp
qed

lemma storage_inv_get:
  assumes "storage_inv sha seed st J" "J \<le> K" "K < 2 ^ 48"
  shows "ln_derkey_storage_get_secret sha st (of_nat K) = Some (secret_of sha seed K)"
  unfolding ln_derkey_storage_get_secret_def
proof (rule get_loop_hit)
  fix b assume b: "b < (49::nat)" "clear_low b K = unat (index (st ! b))"
  from assms(1) b(1) consider "st ! b = entry_init" "\<forall>n. J \<le> n \<and> n < 2 ^ 48 \<longrightarrow> \<not> tz n b"
    | I where "bucket_least J b I" "st ! b = \<lparr>secret = secret_of sha seed I, index = of_nat I\<rparr>"
    unfolding storage_inv_def by blast
  then show "st ! b = \<lparr>secret = secret_of sha seed (clear_low b K), index = of_nat (clear_low b K)\<rparr>"
  proof cases
    case 1
    with b assms entry_init_no_match show ?thesis by metis
  next
    case (2 I)
    with b have "clear_low b K = I" by (simp add: bucket_least_def unat_of_nat_48)
    with 2 show ?thesis by simp
  qed
next
  obtain b where b: "b < 49" "bucket_least J b (clear_low b K)"
    using bucket_exists [OF assms(2,3)] by blast
  let ?I = "clear_low b K"
  have I: "J \<le> ?I" "?I < 2 ^ 48" "tz ?I b" using b by (simp_all add: bucket_least_def)
  then obtain I where "bucket_least J b I" "st ! b = \<lparr>secret = secret_of sha seed I, index = of_nat I\<rparr>"
    using assms(1) b(1) unfolding storage_inv_def by blast
  moreover from this have "I = ?I"
    using b(2) by (metis bucket_least_def linorder_neqE_nat)
  ultimately have "clear_low b K = unat (index (st ! b))" using I by (simp add: unat_of_nat_48)
  with b show "\<exists>b<49. clear_low b K = unat (index (st ! b))" by blast
qed (use assms in simp_all)

section \<open>The contract of the store\<close>

text \<open>
  What a channel relies on: \<open>known st J\<close> says that the secrets from \<open>J\<close> on are in the store. The next
  lower secret can be inserted, and every known secret is found.
\<close>

locale secret_store =
  fixes known :: "'st \<Rightarrow> nat \<Rightarrow> bool" and empty :: 'st
    and insert :: "'st \<Rightarrow> nat \<Rightarrow> 'st c_result"
    and lookup :: "'st \<Rightarrow> nat \<Rightarrow> bytes option"
    and sec :: "nat \<Rightarrow> bytes" and top :: nat
  assumes known_empty: "known empty top"
    and known_insert: "known st (Suc J) \<Longrightarrow> J < top \<Longrightarrow> \<exists>st'. insert st J = Inr st' \<and> known st' J"
    and known_lookup: "known st J \<Longrightarrow> J \<le> K \<Longrightarrow> K < top \<Longrightarrow> lookup st K = Some (sec K)"
begin

fun fill :: "nat \<Rightarrow> 'st c_result" where
  "fill 0 = Inr empty"
| "fill (Suc k) = bind_c (fill k) (\<lambda>st. insert st (top - Suc k))"

lemma fill_known: "k \<le> top \<Longrightarrow> \<exists>st. fill k = Inr st \<and> known st (top - k)"
proof (induction k)
  case (Suc k)
  then obtain st where "fill k = Inr st" "known st (Suc (top - Suc k))"
    using Suc_diff_Suc [of k top] by auto
  with known_insert [of st "top - Suc k"] Suc.prems show ?case by auto
qed (simp add: known_empty)

lemma fill_lookup:
  "k \<le> top \<Longrightarrow>
     \<exists>st. fill k = Inr st \<and> (\<forall>K. top - k \<le> K \<and> K < top \<longrightarrow> lookup st K = Some (sec K))"
  using fill_known known_lookup by blast

end

interpretation shachain: secret_store "storage_inv sha seed" ln_derkey_storage_init
  "\<lambda>st J. ln_derkey_storage_insert_secret sha st (ln_derkey_create_secret sha seed (of_nat J)) (of_nat J)"
  "\<lambda>st J. ln_derkey_storage_get_secret sha st (of_nat J)" "secret_of sha seed" "2 ^ 48"
  for sha seed
proof
  show "storage_inv sha seed ln_derkey_storage_init (2 ^ 48)" by (rule storage_inv_init)
  show "\<exists>st'. ln_derkey_storage_insert_secret sha st (ln_derkey_create_secret sha seed (of_nat J))
      (of_nat J) = Inr st' \<and> storage_inv sha seed st' J"
    if "storage_inv sha seed st (Suc J)" "J < 2 ^ 48" for st J
    using storage_inv_insert [OF that] that(2)
    by (simp only: ln_derkey_create_secret_eq unat_of_nat_48)
  show "ln_derkey_storage_get_secret sha st (of_nat K) = Some (secret_of sha seed K)"
    if "storage_inv sha seed st J" "J \<le> K" "K < 2 ^ 48" for st J K
    using that by (rule storage_inv_get)
qed

text \<open>
  The secrets in the order of the protocol: the first is that of index \<open>0xffffffffffff\<close>, each
  further one has the next lower index.
\<close>

fun insert_all :: "(bytes \<Rightarrow> bytes) \<Rightarrow> bytes \<Rightarrow> nat \<Rightarrow> ln_derkey_storage_t c_result" where
  "insert_all sha seed 0 = Inr ln_derkey_storage_init"
| "insert_all sha seed (Suc k) =
     bind_c (insert_all sha seed k) (\<lambda>st.
     let I = 0xffffffffffff - of_nat k in
     ln_derkey_storage_insert_secret sha st (ln_derkey_create_secret sha seed I) I)"

lemma insert_all_fill: "k \<le> 2 ^ 48 \<Longrightarrow> insert_all sha seed k = shachain.fill sha seed k"
proof (induction k)
  case (Suc k)
  have "(0xffffffffffff - of_nat k :: u64) = of_nat (2 ^ 48 - Suc k)"
    using Suc.prems by (simp add: of_nat_diff)
  then show ?case
    using Suc by (simp only: insert_all.simps shachain.fill.simps Let_def)
qed (simp only: insert_all.simps shachain.fill.simps)

text \<open>
  C7: however many secrets of a peer's seed have been inserted in the order of the protocol, no
  insertion fails its consistency check, and the store of 49 entries returns every one of them: for
  each index received so far it gives the secret that \<^verbatim>\<open>ln_derkey_create_secret\<close> made.
  This holds for every hash function.
\<close>

theorem shachain_complete:
  assumes "k \<le> 2 ^ 48"
  shows "\<exists>st. insert_all sha seed k = Inr st \<and>
    (\<forall>I. 2 ^ 48 - k \<le> unat I \<and> unat I < 2 ^ 48 \<longrightarrow>
      ln_derkey_storage_get_secret sha st I = Some (ln_derkey_create_secret sha seed I))"
proof -
  obtain st where st: "insert_all sha seed k = Inr st"
    "\<forall>K. 2 ^ 48 - k \<le> K \<and> K < 2 ^ 48 \<longrightarrow>
       ln_derkey_storage_get_secret sha st (of_nat K) = Some (secret_of sha seed K)"
    using shachain.fill_lookup [OF assms] insert_all_fill [OF assms] by metis
  have "ln_derkey_storage_get_secret sha st I = Some (ln_derkey_create_secret sha seed I)"
    if "2 ^ 48 - k \<le> unat I" "unat I < 2 ^ 48" for I
    using st(2) [rule_format, of "unat I"] that by (simp add: ln_derkey_create_secret_eq)
  with st show ?thesis by blast
qed

theorem shachain_complete_witness:
  "\<exists>st. insert_all rev [1, 2, 3, 4, 5, 6, 7, 8] 1000 = Inr st \<and>
     ln_derkey_storage_get_secret rev st 0xfffffffffff0 =
       Some (ln_derkey_create_secret rev [1, 2, 3, 4, 5, 6, 7, 8] 0xfffffffffff0)"
  using shachain_complete [of 1000 rev "[1, 2, 3, 4, 5, 6, 7, 8]"] by force

lemma get_loop_None:
  "get_loop sha st I n = None \<longleftrightarrow> (\<forall>b<n. clear_low b (unat I) \<noteq> unat (index (st ! b)))"
proof (induction n)
  case (Suc n)
  have "I AND NOT (push_bit n 1 - 1) = index (st ! n) \<longleftrightarrow>
      clear_low n (unat I) = unat (index (st ! n))"
    by (simp only: word_unat_eq_iff unat_and_mask)
  with Suc show ?case by (auto simp: Let_def less_Suc_eq)
qed simp

text \<open>
  A store in which nothing has been inserted answers, with the filler \<open>0xcc\<close> or a hash of it,
  for exactly four indices, those from its initial index \<open>0x123456789abc\<close> on; for every other
  index it reports that the secret is unknown.
\<close>

theorem fresh_store_answers:
  "ln_derkey_storage_get_secret sha ln_derkey_storage_init I \<noteq> None \<longleftrightarrow>
     0x123456789abc \<le> I \<and> I \<le> 0x123456789abf"
proof -
  have "ln_derkey_storage_get_secret sha ln_derkey_storage_init I \<noteq> None \<longleftrightarrow>
      (\<exists>b<49. clear_low b (unat I) = 0x123456789abc)"
    by (simp add: ln_derkey_storage_get_secret_def get_loop_None ln_derkey_storage_init_def
        entry_init_def)
  also have "\<dots> \<longleftrightarrow> 0x123456789abc \<le> unat I \<and> unat I < 0x123456789abc + 4"
  proof
    assume "\<exists>b<49. clear_low b (unat I) = 0x123456789abc"
    then obtain b where b: "clear_low b (unat I) = 0x123456789abc" by blast
    have "(2::nat) ^ b \<le> 2 ^ 2" using clear_low_init(1) [OF b] by (intro power_increasing) simp_all
    with clear_low_init(2,3) [OF b] show "0x123456789abc \<le> unat I \<and> unat I < 0x123456789abc + 4"
      by simp
  next
    assume "0x123456789abc \<le> unat I \<and> unat I < 0x123456789abc + 4"
    then have "unat I div 4 = 5003999585967" by (intro div_nat_eqI) simp_all
    then have "clear_low 2 (unat I) = 0x123456789abc" by (simp add: clear_low_def)
    then show "\<exists>b<49. clear_low b (unat I) = 0x123456789abc" by (intro exI [of _ 2]) simp
  qed
  finally show ?thesis by (auto simp: word_le_nat_alt)
qed

end
