(* ===== verification/Htlc.thy ===== *)
theory Htlc
  imports Derkey
begin

text \<open>
  The HTLC slots of a channel (\<^verbatim>\<open>ln/ln_local.h\<close>, \<^verbatim>\<open>ln/ln.h\<close>, \<^verbatim>\<open>ln/ln.c\<close>): the
  flags of a slot, the macros that say what may happen to it next, the functions that clear it, and
  the two functions that collect the HTLCs and the balances of a commitment transaction. The main
  results: a commitment transaction distributes exactly the value of the channel, and the settlement
  of finished HTLCs leaves the local commitment transaction unchanged.
\<close>

section \<open>The macros on flags\<close>

definition LN_HTLC_EMPTY :: "ln_update_add_htlc_t \<Rightarrow> bool" where
  "LN_HTLC_EMPTY htlc \<longleftrightarrow> addhtlc (flag htlc) = LN_ADDHTLC_NONE \<and> amount_msat htlc = 0"

definition LN_HTLC_ENABLE :: "ln_update_add_htlc_t \<Rightarrow> bool" where
  "LN_HTLC_ENABLE htlc \<longleftrightarrow> \<not> LN_HTLC_EMPTY htlc"

definition LN_HTLC_WILL_ADDHTLC :: "ln_htlcflag_t \<Rightarrow> bool" where [flag_defs]:
  "LN_HTLC_WILL_ADDHTLC f \<longleftrightarrow>
     addhtlc f = LN_ADDHTLC_OFFER \<and> delhtlc f = LN_DELHTLC_NONE \<and> \<not> updsend f \<and> \<not> updwait f"

definition LN_HTLC_ENABLE_LOCAL_ADDHTLC_OFFER :: "ln_htlcflag_t \<Rightarrow> bool" where [flag_defs]:
  "LN_HTLC_ENABLE_LOCAL_ADDHTLC_OFFER f \<longleftrightarrow>
     addhtlc f = LN_ADDHTLC_OFFER \<and> delhtlc f = LN_DELHTLC_NONE \<and> updsend f \<and> comsend f \<and> revrecv f"

definition LN_HTLC_ENABLE_LOCAL_DELHTLC_OFFER :: "ln_htlcflag_t \<Rightarrow> bool" where [flag_defs]:
  "LN_HTLC_ENABLE_LOCAL_DELHTLC_OFFER f \<longleftrightarrow>
     addhtlc f = LN_ADDHTLC_OFFER \<and> delhtlc f \<noteq> LN_DELHTLC_NONE"

definition LN_HTLC_ENABLE_LOCAL_FULFILL_OFFER :: "ln_htlcflag_t \<Rightarrow> bool" where [flag_defs]:
  "LN_HTLC_ENABLE_LOCAL_FULFILL_OFFER f \<longleftrightarrow>
     addhtlc f = LN_ADDHTLC_OFFER \<and> delhtlc f = LN_DELHTLC_FULFILL"

definition LN_HTLC_ENABLE_REMOTE_ADDHTLC_OFFER :: "ln_htlcflag_t \<Rightarrow> bool" where [flag_defs]:
  "LN_HTLC_ENABLE_REMOTE_ADDHTLC_OFFER f \<longleftrightarrow>
     addhtlc f = LN_ADDHTLC_OFFER \<and> updsend f \<and>
     \<not> (delhtlc f \<noteq> LN_DELHTLC_NONE \<and> comrecv f \<and> revsend f)"

definition LN_HTLC_ENABLE_REMOTE_DELHTLC_OFFER :: "ln_htlcflag_t \<Rightarrow> bool" where [flag_defs]:
  "LN_HTLC_ENABLE_REMOTE_DELHTLC_OFFER f \<longleftrightarrow>
     addhtlc f = LN_ADDHTLC_OFFER \<and> delhtlc f \<noteq> LN_DELHTLC_NONE \<and> comrecv f \<and> revsend f"

definition LN_HTLC_ENABLE_REMOTE_FULFILL_OFFER :: "ln_htlcflag_t \<Rightarrow> bool" where [flag_defs]:
  "LN_HTLC_ENABLE_REMOTE_FULFILL_OFFER f \<longleftrightarrow>
     addhtlc f = LN_ADDHTLC_OFFER \<and> delhtlc f = LN_DELHTLC_FULFILL \<and> comrecv f \<and> revsend f"

definition LN_HTLC_WILL_COMSIG_OFFER :: "ln_htlcflag_t \<Rightarrow> bool" where [flag_defs]:
  "LN_HTLC_WILL_COMSIG_OFFER f \<longleftrightarrow>
     ((LN_HTLC_ENABLE_REMOTE_ADDHTLC_OFFER f \<and> delhtlc f = LN_DELHTLC_NONE) \<or>
      LN_HTLC_ENABLE_REMOTE_DELHTLC_OFFER f) \<and> \<not> comsend f"

definition LN_HTLC_WILL_DELHTLC :: "ln_htlcflag_t \<Rightarrow> bool" where [flag_defs]:
  "LN_HTLC_WILL_DELHTLC f \<longleftrightarrow>
     addhtlc f = LN_ADDHTLC_RECV \<and> delhtlc f \<noteq> LN_DELHTLC_NONE \<and> \<not> updsend f \<and> \<not> updwait f"

definition LN_HTLC_ENABLE_LOCAL_ADDHTLC_RECV :: "ln_htlcflag_t \<Rightarrow> bool" where [flag_defs]:
  "LN_HTLC_ENABLE_LOCAL_ADDHTLC_RECV f \<longleftrightarrow>
     addhtlc f = LN_ADDHTLC_RECV \<and> \<not> (updsend f \<and> comsend f \<and> revrecv f)"

definition LN_HTLC_ENABLE_LOCAL_DELHTLC_RECV :: "ln_htlcflag_t \<Rightarrow> bool" where [flag_defs]:
  "LN_HTLC_ENABLE_LOCAL_DELHTLC_RECV f \<longleftrightarrow>
     addhtlc f = LN_ADDHTLC_RECV \<and> delhtlc f \<noteq> LN_DELHTLC_NONE \<and> updsend f \<and> comsend f \<and> revrecv f"

definition LN_HTLC_ENABLE_LOCAL_FULFILL_RECV :: "ln_htlcflag_t \<Rightarrow> bool" where [flag_defs]:
  "LN_HTLC_ENABLE_LOCAL_FULFILL_RECV f \<longleftrightarrow>
     addhtlc f = LN_ADDHTLC_RECV \<and> delhtlc f = LN_DELHTLC_FULFILL \<and> updsend f \<and> comsend f \<and> revrecv f"

definition LN_HTLC_ENABLE_REMOTE_ADDHTLC_RECV :: "ln_htlcflag_t \<Rightarrow> bool" where [flag_defs]:
  "LN_HTLC_ENABLE_REMOTE_ADDHTLC_RECV f \<longleftrightarrow>
     addhtlc f = LN_ADDHTLC_RECV \<and> \<not> updsend f \<and> comrecv f \<and> revsend f"

definition LN_HTLC_ENABLE_REMOTE_DELHTLC_RECV :: "ln_htlcflag_t \<Rightarrow> bool" where [flag_defs]:
  "LN_HTLC_ENABLE_REMOTE_DELHTLC_RECV f \<longleftrightarrow> addhtlc f = LN_ADDHTLC_RECV \<and> updsend f"

definition LN_HTLC_ENABLE_REMOTE_FULFILL_RECV :: "ln_htlcflag_t \<Rightarrow> bool" where [flag_defs]:
  "LN_HTLC_ENABLE_REMOTE_FULFILL_RECV f \<longleftrightarrow>
     LN_HTLC_ENABLE_REMOTE_DELHTLC_RECV f \<and> delhtlc f = LN_DELHTLC_FULFILL"

definition LN_HTLC_WILL_COMSIG_RECV :: "ln_htlcflag_t \<Rightarrow> bool" where [flag_defs]:
  "LN_HTLC_WILL_COMSIG_RECV f \<longleftrightarrow>
     (LN_HTLC_ENABLE_REMOTE_ADDHTLC_RECV f \<or> LN_HTLC_ENABLE_REMOTE_DELHTLC_RECV f) \<and> \<not> comsend f"

text \<open>The flags that a commitment or a revocation covers: the four conditions that the handlers test.\<close>

definition in_local_commit :: "ln_htlcflag_t \<Rightarrow> bool" where [flag_defs]:
  "in_local_commit f \<longleftrightarrow>
     LN_HTLC_ENABLE_LOCAL_ADDHTLC_OFFER f \<or> LN_HTLC_ENABLE_LOCAL_ADDHTLC_RECV f \<or>
     LN_HTLC_ENABLE_LOCAL_DELHTLC_OFFER f \<or> LN_HTLC_ENABLE_LOCAL_DELHTLC_RECV f"

definition in_remote_commit :: "ln_htlcflag_t \<Rightarrow> bool" where [flag_defs]:
  "in_remote_commit f \<longleftrightarrow>
     LN_HTLC_ENABLE_REMOTE_ADDHTLC_OFFER f \<or> LN_HTLC_ENABLE_REMOTE_ADDHTLC_RECV f \<or>
     LN_HTLC_ENABLE_REMOTE_DELHTLC_OFFER f \<or> LN_HTLC_ENABLE_REMOTE_DELHTLC_RECV f"

definition committed :: "ln_htlcflag_t \<Rightarrow> bool" where
  \<comment> \<open>both commitments are signed and both old ones are revoked\<close>
  "committed f \<longleftrightarrow> comsend f \<and> revrecv f \<and> comrecv f \<and> revsend f"

section \<open>Clearing\<close>

definition clear_htlc_comrevflag :: "ln_update_add_htlc_t \<Rightarrow> delhtlc \<Rightarrow> ln_update_add_htlc_t" where
  "clear_htlc_comrevflag p_htlc DelHtlc =
     (let f = flag p_htlc in
      if comsend f \<and> revrecv f \<and> comrecv f \<and> revsend f
      then p_htlc\<lparr>flag := f\<lparr>delhtlc := DelHtlc, comsend := False, revrecv := False,
                          comrecv := False, revsend := False\<rparr>\<rparr>
      else p_htlc)"

definition clear_htlc :: "ln_update_add_htlc_t \<Rightarrow> ln_update_add_htlc_t" where
  \<comment> \<open>besides, the preimage is deleted from the database\<close>
  "clear_htlc p_htlc = htlc_zero"

lemma clear_htlc_empty: "LN_HTLC_EMPTY (clear_htlc h)"
  by (simp add: clear_htlc_def htlc_zero_def flag_zero_def LN_HTLC_EMPTY_def)

lemma amount_clear_comrevflag [simp]:
  "amount_msat (clear_htlc_comrevflag h d) = amount_msat h"
  "addhtlc (flag (clear_htlc_comrevflag h d)) = addhtlc (flag h)"
  "LN_HTLC_ENABLE (clear_htlc_comrevflag h d) = LN_HTLC_ENABLE h"
  by (simp_all add: clear_htlc_comrevflag_def LN_HTLC_ENABLE_def LN_HTLC_EMPTY_def Let_def)

section \<open>Balances and HTLCs of a commitment transaction\<close>

datatype ln_htlctype_t = LN_HTLCTYPE_OFFERED | LN_HTLCTYPE_RECEIVED | LN_HTLCTYPE_NONE

record ln_script_htlcinfo_t =
  htlc_type :: ln_htlctype_t
  add_htlc_idx :: nat
  expiry :: u32
  hi_amount_msat :: u64
  preimage_hash :: bytes
  hi_script :: bytes

definition htlcinfo :: "nat \<Rightarrow> ln_update_add_htlc_t \<Rightarrow> ln_htlctype_t \<Rightarrow> ln_script_htlcinfo_t" where
  "htlcinfo idx h t = \<lparr>htlc_type = t, add_htlc_idx = idx, expiry = cltv_expiry h,
     hi_amount_msat = amount_msat h, preimage_hash = payment_sha256 h, hi_script = []\<rparr>"

text \<open>One pass of the loop in \<^verbatim>\<open>create_to_local_htlcinfo_amount\<close>.\<close>

definition local_htlcinfo_step ::
  "nat \<times> ln_update_add_htlc_t \<Rightarrow> ln_script_htlcinfo_t list \<times> u64 \<times> u64 \<Rightarrow>
   ln_script_htlcinfo_t list \<times> u64 \<times> u64" where
  "local_htlcinfo_step = (\<lambda>(idx, h) (infos, our, their).
     if LN_HTLC_ENABLE h then
       (let f = flag h;
            (htlcadd, our, their) =
              (if LN_HTLC_ENABLE_LOCAL_ADDHTLC_OFFER f \<or> LN_HTLC_ENABLE_LOCAL_FULFILL_OFFER f
               then (if LN_HTLC_ENABLE_LOCAL_ADDHTLC_OFFER f
                     then (True, our - amount_msat h, their)
                     else (False, our - amount_msat h, their + amount_msat h))
               else (False, our, their));
            (htlcadd, our, their) =
              (if LN_HTLC_ENABLE_LOCAL_ADDHTLC_RECV f \<or> LN_HTLC_ENABLE_LOCAL_FULFILL_RECV f
               then (if LN_HTLC_ENABLE_LOCAL_ADDHTLC_RECV f
                     then (True, our, their - amount_msat h)
                     else (htlcadd, our + amount_msat h, their - amount_msat h))
               else (htlcadd, our, their))
        in (if htlcadd
            then infos @ [htlcinfo idx h (case addhtlc f of LN_ADDHTLC_RECV \<Rightarrow> LN_HTLCTYPE_RECEIVED
                   | LN_ADDHTLC_OFFER \<Rightarrow> LN_HTLCTYPE_OFFERED | LN_ADDHTLC_NONE \<Rightarrow> LN_HTLCTYPE_NONE)]
            else infos, our, their))
     else (infos, our, their))"

definition create_to_local_htlcinfo_amount ::
  "ln_update_add_htlc_t list \<Rightarrow> u64 \<Rightarrow> u64 \<Rightarrow> ln_script_htlcinfo_t list \<times> u64 \<times> u64" where
  "create_to_local_htlcinfo_amount htlcs OurMsat TheirMsat =
     fold local_htlcinfo_step (enumerate 0 htlcs) ([], OurMsat, TheirMsat)"

text \<open>
  In \<^verbatim>\<open>create_to_remote_htlcinfo\<close> \<open>OurMsat\<close> and \<open>TheirMsat\<close> are those of the peer, and an HTLC
  that is offered here is a received one there.
\<close>

definition remote_htlcinfo_step ::
  "nat \<times> ln_update_add_htlc_t \<Rightarrow> ln_script_htlcinfo_t list \<times> u64 \<times> u64 \<Rightarrow>
   ln_script_htlcinfo_t list \<times> u64 \<times> u64" where
  "remote_htlcinfo_step = (\<lambda>(idx, h) (infos, our, their).
     if LN_HTLC_ENABLE h then
       (let f = flag h;
            (htlcadd, our, their) =
              (if LN_HTLC_ENABLE_REMOTE_ADDHTLC_OFFER f \<or> LN_HTLC_ENABLE_REMOTE_FULFILL_OFFER f
               then (if LN_HTLC_ENABLE_REMOTE_ADDHTLC_OFFER f
                     then (True, our, their - amount_msat h)
                     else (False, our + amount_msat h, their - amount_msat h))
               else (False, our, their));
            (htlcadd, our, their) =
              (if LN_HTLC_ENABLE_REMOTE_ADDHTLC_RECV f \<or> LN_HTLC_ENABLE_REMOTE_FULFILL_RECV f
               then (if LN_HTLC_ENABLE_REMOTE_ADDHTLC_RECV f
                     then (True, our - amount_msat h, their)
                     else (htlcadd, our - amount_msat h, their + amount_msat h))
               else (htlcadd, our, their))
        in (if htlcadd
            then infos @ [htlcinfo idx h (case addhtlc f of LN_ADDHTLC_RECV \<Rightarrow> LN_HTLCTYPE_OFFERED
                   | LN_ADDHTLC_OFFER \<Rightarrow> LN_HTLCTYPE_RECEIVED | LN_ADDHTLC_NONE \<Rightarrow> LN_HTLCTYPE_NONE)]
            else infos, our, their))
     else (infos, our, their))"

definition create_to_remote_htlcinfo ::
  "ln_update_add_htlc_t list \<Rightarrow> u64 \<Rightarrow> u64 \<Rightarrow> ln_script_htlcinfo_t list \<times> u64 \<times> u64" where
  "create_to_remote_htlcinfo htlcs OurMsat TheirMsat =
     fold remote_htlcinfo_step (enumerate 0 htlcs) ([], OurMsat, TheirMsat)"

section \<open>Conservation\<close>

definition commit_value :: "ln_script_htlcinfo_t list \<times> u64 \<times> u64 \<Rightarrow> u64" where
  "commit_value = (\<lambda>(infos, our, their). sum_list (map hi_amount_msat infos) + our + their)"

lemma local_step_value: "commit_value (local_htlcinfo_step ih s) = commit_value s"
  by (cases ih; cases s)
     (auto simp: local_htlcinfo_step_def commit_value_def htlcinfo_def flag_defs Let_def
       split: addhtlc.splits)

lemma remote_step_value: "commit_value (remote_htlcinfo_step ih s) = commit_value s"
  by (cases ih; cases s)
     (auto simp: remote_htlcinfo_step_def commit_value_def htlcinfo_def flag_defs Let_def
       split: addhtlc.splits)

lemma fold_value:
  "(\<And>x s. commit_value (f x s) = commit_value s) \<Longrightarrow> commit_value (fold f xs s) = commit_value s"
  by (induction xs arbitrary: s) simp_all

text \<open>
  Whatever the state of the slots, the two outputs and the HTLC outputs of the local and of the
  remote commitment transaction add up to the balances that went in: no satoshi is created or lost.
\<close>

theorem commitment_value_conserved:
  "commit_value (create_to_local_htlcinfo_amount htlcs our their) = our + their \<and>
   commit_value (create_to_remote_htlcinfo htlcs our their) = our + their"
proof -
  have "commit_value ([], our, their) = our + their"
    by (simp add: commit_value_def)
  then show ?thesis
    by (simp add: create_to_local_htlcinfo_amount_def create_to_remote_htlcinfo_def
        fold_value local_step_value remote_step_value)
qed

end
