(* ===== verification/Commit_Tx.thy ===== *)
theory Commit_Tx
  imports Htlc Utl_Buf "HOL-Library.Multiset" "HOL-Library.List_Lexorder" "HOL-Library.Product_Lexorder"
begin

text \<open>
  \<^verbatim>\<open>ln/ln_script.c\<close> and the sorting in \<^verbatim>\<open>btc/btc_util.c\<close>: the scripts of the outputs of a
  commitment transaction, its fee, its outputs in the order of BIP 69 and the commitment number that
  is hidden in its sequence and lock time. The hash functions are parameters (mbedTLS); the
  transaction is signed by the callers.
\<close>

section \<open>Scripts\<close>

definition BTC_OP_IF :: byte where "BTC_OP_IF = 0x63"
definition BTC_OP_NOTIF :: byte where "BTC_OP_NOTIF = 0x64"
definition BTC_OP_ELSE :: byte where "BTC_OP_ELSE = 0x67"
definition BTC_OP_ENDIF :: byte where "BTC_OP_ENDIF = 0x68"
definition BTC_OP_CSV :: byte where "BTC_OP_CSV = 0xb2"
definition BTC_OP_CLTV :: byte where "BTC_OP_CLTV = 0xb1"
definition BTC_OP_DROP :: byte where "BTC_OP_DROP = 0x75"
definition BTC_OP_DUP :: byte where "BTC_OP_DUP = 0x76"
definition BTC_OP_SWAP :: byte where "BTC_OP_SWAP = 0x7c"
definition BTC_OP_SIZE :: byte where "BTC_OP_SIZE = 0x82"
definition BTC_OP_EQUAL :: byte where "BTC_OP_EQUAL = 0x87"
definition BTC_OP_EQUALVERIFY :: byte where "BTC_OP_EQUALVERIFY = 0x88"
definition BTC_OP_HASH160 :: byte where "BTC_OP_HASH160 = 0xa9"
definition BTC_OP_CHECKSIG :: byte where "BTC_OP_CHECKSIG = 0xac"
definition BTC_OP_CHECKMULTISIG :: byte where "BTC_OP_CHECKMULTISIG = 0xae"
definition BTC_OP_2 :: byte where "BTC_OP_2 = 0x52"
definition BTC_OP_SZ1 :: byte where "BTC_OP_SZ1 = 0x01"
definition BTC_OP_SZ20 :: byte where "BTC_OP_SZ20 = 0x14"
definition BTC_OP_SZ32 :: byte where "BTC_OP_SZ32 = 0x20"
definition BTC_OP_SZ_PUBKEY :: byte where "BTC_OP_SZ_PUBKEY = 0x21"
definition BTC_SZ_HASH160 :: nat where [simp]: "BTC_SZ_HASH160 = 20"

text \<open>
  The scripts are written with \<^verbatim>\<open>utl_push_data\<close> (\<open>SD d n\<close>: the first \<open>n\<close> bytes at \<open>d\<close>) and
  \<^verbatim>\<open>utl_push_value\<close> (\<open>SV v\<close>), whose results the source does not look at, between
  \<^verbatim>\<open>utl_push_init\<close> and \<^verbatim>\<open>utl_push_trim\<close>.
\<close>

datatype script_op = SD bytes nat | SV u64

fun script_run :: "script_op list \<Rightarrow> utl_push_t \<Rightarrow> utl_push_t c_result" where
  "script_run [] p = Inr p"
| "script_run (SD d n # ops) p =
     bind_c (utl_push_data always_ok p d (of_nat n)) (\<lambda>r. script_run ops (snd r))"
| "script_run (SV v # ops) p =
     bind_c (utl_push_value always_ok p v) (\<lambda>r. script_run ops (snd r))"

definition script_build :: "nat \<Rightarrow> script_op list \<Rightarrow> utl_buf_t c_result" where
  "script_build Size ops =
     bind_c (script_run ops (snd (utl_push_init always_ok UTL_BUF_INIT (of_nat Size)))) (\<lambda>p.
     Inr (data (snd (utl_push_trim always_ok p))))"

definition ln_script_create_tolocal :: "bytes \<Rightarrow> bytes \<Rightarrow> u32 \<Rightarrow> utl_buf_t c_result" where
  "ln_script_create_tolocal pLocalRevoKey pLocalDelayedKey LocalDelay =
     script_build 77
       [SD [BTC_OP_IF, BTC_OP_SZ_PUBKEY] 2,
        SD pLocalRevoKey BTC_SZ_PUBKEY,
        SD [BTC_OP_ELSE] 1,
        SV (ucast LocalDelay),
        SD [BTC_OP_CSV, BTC_OP_DROP, BTC_OP_SZ_PUBKEY] 3,
        SD pLocalDelayedKey BTC_SZ_PUBKEY,
        SD [BTC_OP_ENDIF, BTC_OP_CHECKSIG] 2]"

definition btc_util_hash160 :: "(bytes \<Rightarrow> bytes) \<Rightarrow> (bytes \<Rightarrow> bytes) \<Rightarrow> bytes \<Rightarrow> bytes" where
  "btc_util_hash160 sha rip d = rip (sha d)"

definition create_script_offered ::
  "(bytes \<Rightarrow> bytes) \<Rightarrow> (bytes \<Rightarrow> bytes) \<Rightarrow> bytes \<Rightarrow> bytes \<Rightarrow> bytes \<Rightarrow> bytes \<Rightarrow> utl_buf_t c_result" where
  "create_script_offered sha rip pLocalHtlcKey pLocalRevoKey pLocalPreImageHash160 pRemoteHtlcKey =
     script_build 133
       [SD [BTC_OP_DUP, BTC_OP_HASH160, BTC_OP_SZ20] 3,
        SD (btc_util_hash160 sha rip (take BTC_SZ_PUBKEY pLocalRevoKey)) BTC_SZ_HASH160,
        SD [BTC_OP_EQUAL, BTC_OP_IF, BTC_OP_CHECKSIG, BTC_OP_ELSE, BTC_OP_SZ_PUBKEY] 5,
        SD pRemoteHtlcKey BTC_SZ_PUBKEY,
        SD [BTC_OP_SWAP, BTC_OP_SIZE, BTC_OP_SZ1, BTC_OP_SZ32, BTC_OP_EQUAL, BTC_OP_NOTIF,
            BTC_OP_DROP, BTC_OP_2, BTC_OP_SWAP, BTC_OP_SZ_PUBKEY] 10,
        SD pLocalHtlcKey BTC_SZ_PUBKEY,
        SD [BTC_OP_2, BTC_OP_CHECKMULTISIG, BTC_OP_ELSE, BTC_OP_HASH160, BTC_OP_SZ20] 5,
        SD pLocalPreImageHash160 BTC_SZ_HASH160,
        SD [BTC_OP_EQUALVERIFY, BTC_OP_CHECKSIG, BTC_OP_ENDIF, BTC_OP_ENDIF] 4]"

definition create_script_received ::
  "(bytes \<Rightarrow> bytes) \<Rightarrow> (bytes \<Rightarrow> bytes) \<Rightarrow> bytes \<Rightarrow> bytes \<Rightarrow> bytes \<Rightarrow> bytes \<Rightarrow> u32 \<Rightarrow> utl_buf_t c_result" where
  "create_script_received sha rip pLocalHtlcKey pLocalRevoKey pRemoteHtlcKey pRemotePreImageHash160
      RemoteExpiry =
     script_build 138
       [SD [BTC_OP_DUP, BTC_OP_HASH160, BTC_OP_SZ20] 3,
        SD (btc_util_hash160 sha rip (take BTC_SZ_PUBKEY pLocalRevoKey)) BTC_SZ_HASH160,
        SD [BTC_OP_EQUAL, BTC_OP_IF, BTC_OP_CHECKSIG, BTC_OP_ELSE, BTC_OP_SZ_PUBKEY] 5,
        SD pRemoteHtlcKey BTC_SZ_PUBKEY,
        SD [BTC_OP_SWAP, BTC_OP_SIZE, BTC_OP_SZ1, BTC_OP_SZ32, BTC_OP_EQUAL, BTC_OP_IF,
            BTC_OP_HASH160, BTC_OP_SZ20] 8,
        SD pRemotePreImageHash160 BTC_SZ_HASH160,
        SD [BTC_OP_EQUALVERIFY, BTC_OP_2, BTC_OP_SWAP, BTC_OP_SZ_PUBKEY] 4,
        SD pLocalHtlcKey BTC_SZ_PUBKEY,
        SD [BTC_OP_2, BTC_OP_CHECKMULTISIG, BTC_OP_ELSE, BTC_OP_DROP] 4,
        SV (ucast RemoteExpiry),
        SD [BTC_OP_CLTV, BTC_OP_DROP, BTC_OP_CHECKSIG, BTC_OP_ENDIF, BTC_OP_ENDIF] 5]"

text \<open>The type selects the script; another type leaves the buffer empty.\<close>

definition ln_script_htlcinfo_script ::
  "(bytes \<Rightarrow> bytes) \<Rightarrow> (bytes \<Rightarrow> bytes) \<Rightarrow> ln_htlctype_t \<Rightarrow> bytes \<Rightarrow> bytes \<Rightarrow> bytes \<Rightarrow> bytes \<Rightarrow> u32 \<Rightarrow>
   utl_buf_t c_result" where
  "ln_script_htlcinfo_script sha rip Type pLocalHtlcKey pLocalRevoKey pRemoteHtlcKey pPaymentHash Expiry =
     (let hash160 = rip (take BTC_SZ_HASH256 pPaymentHash) in
      case Type of
        LN_HTLCTYPE_OFFERED \<Rightarrow>
          create_script_offered sha rip pLocalHtlcKey pLocalRevoKey hash160 pRemoteHtlcKey
      | LN_HTLCTYPE_RECEIVED \<Rightarrow>
          create_script_received sha rip pLocalHtlcKey pLocalRevoKey pRemoteHtlcKey hash160 Expiry
      | LN_HTLCTYPE_NONE \<Rightarrow> Inr UTL_BUF_INIT)"

definition ln_script_scriptpkh_check :: "bytes \<Rightarrow> bool" where
  "ln_script_scriptpkh_check p =
     (if length p = 25 then
        p ! 0 = 0x76 \<and> p ! 1 = 0xa9 \<and> p ! 2 = 20 \<and> p ! 23 = 0x88 \<and> p ! 24 = 0xac
      else if length p = 23 then p ! 0 = 0xa9 \<and> p ! 1 = 20 \<and> p ! 22 = 0x87
      else if length p = 22 then p ! 0 = 0x00 \<and> p ! 1 = 20
      else if length p = 34 then p ! 0 = 0x00 \<and> p ! 1 = 32
      else False)"

section \<open>Fees\<close>

record ln_script_feeinfo_t =
  fi_feerate_per_kw :: u32
  dust_limit_satoshi :: u64
  htlc_success :: u64
  htlc_timeout :: u64
  fi_commit :: u64

definition M_FEE_HTLCSUCCESS :: u64 where "M_FEE_HTLCSUCCESS = 703"
definition M_FEE_HTLCTIMEOUT :: u64 where "M_FEE_HTLCTIMEOUT = 663"
definition M_FEE_COMMIT_HTLC :: u64 where "M_FEE_COMMIT_HTLC = 172"
definition LN_FEE_COMMIT_BASE :: u64 where "LN_FEE_COMMIT_BASE = 724"

definition fee_step ::
  "u64 \<Rightarrow> u64 \<Rightarrow> u64 \<Rightarrow> ln_script_htlcinfo_t \<Rightarrow> u64 \<times> u64 \<Rightarrow> u64 \<times> u64" where
  "fee_step dust success timeout info = (\<lambda>(commit, dusts).
     let sat = LN_MSAT2SATOSHI (hi_amount_msat info) in
     case htlc_type info of
       LN_HTLCTYPE_OFFERED \<Rightarrow>
         if sat \<ge> dust + timeout then (commit + M_FEE_COMMIT_HTLC, dusts) else (commit, dusts + sat)
     | LN_HTLCTYPE_RECEIVED \<Rightarrow>
         if sat \<ge> dust + success then (commit + M_FEE_COMMIT_HTLC, dusts) else (commit, dusts + sat)
     | LN_HTLCTYPE_NONE \<Rightarrow> (commit, dusts))"

definition ln_script_fee_calc ::
  "u32 \<Rightarrow> u64 \<Rightarrow> ln_script_htlcinfo_t list \<Rightarrow> ln_script_feeinfo_t \<times> u64" where
  "ln_script_fee_calc feerate dust infos =
     (let success = M_FEE_HTLCSUCCESS * ucast feerate div 1000;
          timeout = M_FEE_HTLCTIMEOUT * ucast feerate div 1000;
          (commit, dusts) = fold (fee_step dust success timeout) infos (LN_FEE_COMMIT_BASE, 0);
          commit = commit * ucast feerate div 1000
      in (\<lparr>fi_feerate_per_kw = feerate, dust_limit_satoshi = dust, htlc_success = success,
           htlc_timeout = timeout, fi_commit = commit\<rparr>, commit + dusts))"

section \<open>Outputs\<close>

record btc_vout_t =
  vout_value :: u64
  vout_script :: bytes
  vout_opt :: byte

definition LN_HTLCTYPE_TOLOCAL :: byte where "LN_HTLCTYPE_TOLOCAL = 0xfe"
definition LN_HTLCTYPE_TOREMOTE :: byte where "LN_HTLCTYPE_TOREMOTE = 0xff"

text \<open>The scripts of native segwit outputs, the only ones that Lightning uses.\<close>

definition btc_sw_wit2prog_p2wsh :: "(bytes \<Rightarrow> bytes) \<Rightarrow> bytes \<Rightarrow> bytes" where
  "btc_sw_wit2prog_p2wsh sha pWitScript = [0x00, 32] @ sha pWitScript"

definition p2wpkh_pub :: "(bytes \<Rightarrow> bytes) \<Rightarrow> (bytes \<Rightarrow> bytes) \<Rightarrow> bytes \<Rightarrow> bytes" where
  "p2wpkh_pub sha rip pPubKey = [0x00, 20] @ btc_util_hash160 sha rip (take BTC_SZ_PUBKEY pPubKey)"

record ln_script_committx_t =
  fund_txid :: bytes
  fund_txid_index :: u32
  fund_satoshi :: u64
  fund_script :: bytes
  local_satoshi :: u64
  local_script :: bytes
  remote_satoshi :: u64
  remote_pubkey :: bytes
  ct_obscured :: u64
  ct_feeinfo :: ln_script_feeinfo_t
  ct_htlcinfos :: "ln_script_htlcinfo_t list"

record btc_tx_t =
  vin_txid :: bytes
  vin_index :: u32
  vin_sequence :: u32
  tx_vout :: "btc_vout_t list"
  tx_locktime :: u32

definition htlc_fee :: "ln_script_feeinfo_t \<Rightarrow> ln_htlctype_t \<Rightarrow> u64" where
  \<comment> \<open>the \<open>switch\<close> over the type in the loop over the HTLCs\<close>
  "htlc_fee fi t = (case t of LN_HTLCTYPE_OFFERED \<Rightarrow> htlc_timeout fi
     | LN_HTLCTYPE_RECEIVED \<Rightarrow> htlc_success fi | LN_HTLCTYPE_NONE \<Rightarrow> 0)"

definition htlc_vouts ::
  "(bytes \<Rightarrow> bytes) \<Rightarrow> ln_script_feeinfo_t \<Rightarrow> nat \<Rightarrow> ln_script_htlcinfo_t list \<Rightarrow> btc_vout_t list" where
  \<comment> \<open>the loop from index \<open>n\<close> on\<close>
  "htlc_vouts sha fi n infos =
     concat (map (\<lambda>(lp, info).
       let output_sat = LN_MSAT2SATOSHI (hi_amount_msat info) in
       if output_sat \<ge> dust_limit_satoshi fi + htlc_fee fi (htlc_type info)
       then [\<lparr>vout_value = output_sat, vout_script = btc_sw_wit2prog_p2wsh sha (hi_script info),
              vout_opt = of_nat lp\<rparr>]
       else []) (enumerate n infos))"

definition committx_vouts ::
  "(bytes \<Rightarrow> bytes) \<Rightarrow> (bytes \<Rightarrow> bytes) \<Rightarrow> ln_script_committx_t \<Rightarrow> bool \<Rightarrow> btc_vout_t list" where
  "committx_vouts sha rip cmt Local =
     (let fi = ct_feeinfo cmt;
          (fee_local, fee_remote) = (if Local then (fi_commit fi, 0) else (0, fi_commit fi)) in
      (if remote_satoshi cmt \<ge> dust_limit_satoshi fi + fee_remote
       then [\<lparr>vout_value = remote_satoshi cmt - fee_remote,
              vout_script = p2wpkh_pub sha rip (remote_pubkey cmt), vout_opt = LN_HTLCTYPE_TOREMOTE\<rparr>]
       else []) @
      (if local_satoshi cmt \<ge> dust_limit_satoshi fi + fee_local
       then [\<lparr>vout_value = local_satoshi cmt - fee_local,
              vout_script = btc_sw_wit2prog_p2wsh sha (local_script cmt),
              vout_opt = LN_HTLCTYPE_TOLOCAL\<rparr>]
       else []) @
      htlc_vouts sha fi 0 (ct_htlcinfos cmt))"

section \<open>BIP 69\<close>

text \<open>
  The two nested loops over the outputs exchange two elements when the earlier one is greater: by
  value, then by \<open>memcmp\<close> over the length of the shorter script. One run of the inner loop is
  \<open>sort_pass\<close>: it carries the element that stands at place \<open>lp\<close>.
\<close>

fun memcmp_gt :: "bytes \<Rightarrow> bytes \<Rightarrow> bool" where
  "memcmp_gt (x # xs) (y # ys) \<longleftrightarrow> y < x \<or> (x = y \<and> memcmp_gt xs ys)"
| "memcmp_gt _ _ \<longleftrightarrow> False"

definition vout_gt :: "btc_vout_t \<Rightarrow> btc_vout_t \<Rightarrow> bool" where
  "vout_gt a b =
     (if vout_value a < vout_value b then False
      else if vout_value a > vout_value b then True
      else memcmp_gt (vout_script a) (vout_script b))"

fun sort_pass :: "btc_vout_t \<Rightarrow> btc_vout_t list \<Rightarrow> btc_vout_t \<times> btc_vout_t list" where
  "sort_pass x [] = (x, [])"
| "sort_pass x (y # ys) =
     (if vout_gt x y then (let (m, r) = sort_pass y ys in (m, x # r))
      else (let (m, r) = sort_pass x ys in (m, y # r)))"

lemma sort_pass_length: "sort_pass x ys = (m, r) \<Longrightarrow> length r = length ys"
  by (induction x ys arbitrary: m r rule: sort_pass.induct) (auto split: if_splits prod.splits)

function btc_util_sort_bip69 :: "btc_vout_t list \<Rightarrow> btc_vout_t list" where
  "btc_util_sort_bip69 [] = []"
| "btc_util_sort_bip69 (x # xs) =
     fst (sort_pass x xs) # btc_util_sort_bip69 (snd (sort_pass x xs))"
  by pat_completeness auto
termination
  by (relation "measure length") (auto simp: sort_pass_length [OF surjective_pairing])

section \<open>The transaction\<close>

definition LN_SEQUENCE :: "u64 \<Rightarrow> u32" where
  "LN_SEQUENCE obs = ucast (0x80000000 OR (drop_bit 24 obs AND 0xffffff))"

definition LN_LOCKTIME :: "u64 \<Rightarrow> u32" where
  "LN_LOCKTIME obs = ucast (0x20000000 OR (obs AND 0xffffff))"

text \<open>The transaction before it is signed; its only input is the funding output.\<close>

definition ln_script_committx_create ::
  "(bytes \<Rightarrow> bytes) \<Rightarrow> (bytes \<Rightarrow> bytes) \<Rightarrow> ln_script_committx_t \<Rightarrow> bool \<Rightarrow> btc_tx_t" where
  "ln_script_committx_create sha rip cmt Local =
     \<lparr>vin_txid = fund_txid cmt, vin_index = fund_txid_index cmt,
      vin_sequence = LN_SEQUENCE (ct_obscured cmt),
      tx_vout = btc_util_sort_bip69 (committx_vouts sha rip cmt Local),
      tx_locktime = LN_LOCKTIME (ct_obscured cmt)\<rparr>"

definition ln_script_htlctx_create ::
  "(bytes \<Rightarrow> bytes) \<Rightarrow> u64 \<Rightarrow> bytes \<Rightarrow> ln_htlctype_t \<Rightarrow> u32 \<Rightarrow> bytes \<Rightarrow> nat \<Rightarrow> btc_tx_t c_result" where
  "ln_script_htlctx_create sha Value pScript Type CltvExpiry pTxid Index =
     (let tx = (\<lambda>opt locktime.
        \<lparr>vin_txid = pTxid, vin_index = of_nat Index, vin_sequence = 0,
         tx_vout = [\<lparr>vout_value = Value, vout_script = btc_sw_wit2prog_p2wsh sha pScript, vout_opt = opt\<rparr>],
         tx_locktime = locktime\<rparr>) in
      case Type of
        LN_HTLCTYPE_RECEIVED \<Rightarrow> Inr (tx 2 0)
      | LN_HTLCTYPE_OFFERED \<Rightarrow> Inr (tx 1 CltvExpiry)
      | LN_HTLCTYPE_NONE \<Rightarrow> Inl Assert_Failed)"

text \<open>The obscuring factor, and the commitment number read back from a transaction.\<close>

definition ln_script_calc_obscured_txnum :: "(bytes \<Rightarrow> bytes) \<Rightarrow> bytes \<Rightarrow> bytes \<Rightarrow> u64" where
  "ln_script_calc_obscured_txnum sha pOpenBasePt pAcceptBasePt =
     (let base = sha (take BTC_SZ_PUBKEY pOpenBasePt @ take BTC_SZ_PUBKEY pAcceptBasePt) in
      fold (\<lambda>lp obs. push_bit 8 obs OR ucast (base ! (32 - 6 + lp))) [0..<6] 0)"

definition calc_commit_num :: "u64 \<Rightarrow> btc_tx_t \<Rightarrow> u64" where
  "calc_commit_num obscured tx =
     (push_bit 24 (ucast (vin_sequence tx AND 0xffffff)) OR ucast (tx_locktime tx AND 0xffffff))
       XOR obscured"

section \<open>The scripts by their bytes\<close>

lemmas opcode_defs = BTC_OP_IF_def BTC_OP_NOTIF_def BTC_OP_ELSE_def BTC_OP_ENDIF_def BTC_OP_CSV_def
  BTC_OP_CLTV_def BTC_OP_DROP_def BTC_OP_DUP_def BTC_OP_SWAP_def BTC_OP_SIZE_def BTC_OP_EQUAL_def
  BTC_OP_EQUALVERIFY_def BTC_OP_HASH160_def BTC_OP_CHECKSIG_def BTC_OP_CHECKMULTISIG_def
  BTC_OP_2_def BTC_OP_SZ1_def BTC_OP_SZ20_def BTC_OP_SZ32_def BTC_OP_SZ_PUBKEY_def

definition script_num :: "u64 \<Rightarrow> bytes" where
  "script_num v = (case push_value_bytes v of Inr bs \<Rightarrow> bs | Inl _ \<Rightarrow> [])"

lemma push_value_bytes_u32:
  "push_value_bytes (ucast (v :: u32)) = Inr (script_num (ucast v)) \<and> script_num (ucast v) \<noteq> [] \<and>
   length (script_num (ucast v)) \<le> 6"
proof -
  have "unat v < 2 ^ 32" using unsigned_less [of v] by simp
  then have "unat (ucast v :: u64) < 2 ^ 32" by (simp add: unat_ucast_u32)
  then have small: "(ucast v :: u64) \<le> 0x7fffffffff" and fit: "fits 5 (ucast v)"
    by (simp_all add: word_le_nat_alt fits_iff)
  obtain k where "k \<le> 5" "push_value_loop (ucast v) 1 =
      Some (of_nat k # map (\<lambda>lp. octet (8 * lp) (ucast v :: u64)) [0..<k])"
    using push_value_loop_first [OF fit, of 1] by auto
  then show ?thesis
    using small by (auto simp: script_num_def push_value_bytes_def)
qed

fun script_op_bytes :: "script_op \<Rightarrow> bytes" where
  "script_op_bytes (SD d n) = take n d"
| "script_op_bytes (SV v) = script_num v"

fun script_op_ok :: "script_op \<Rightarrow> bool" where
  "script_op_ok (SD d n) \<longleftrightarrow> n \<le> length d"
| "script_op_ok (SV v) \<longleftrightarrow> (\<exists>w :: u32. v = ucast w)"

lemma script_run_eq:
  "list_all script_op_ok ops \<Longrightarrow> length xs \<le> cap \<Longrightarrow> cap < 2 ^ 31 \<Longrightarrow>
     length xs + length (concat (map script_op_bytes ops)) < 2 ^ 31 \<Longrightarrow>
   script_run ops (mk_push cap xs) =
     Inr (mk_push (max cap (length xs + length (concat (map script_op_bytes ops))))
            (xs @ concat (map script_op_bytes ops)))"
proof (induction ops arbitrary: cap xs)
  case Nil
  then show ?case by (simp add: max_def)
next
  case (Cons f ops)
  let ?d = "script_op_bytes f" and ?ds = "concat (map script_op_bytes ops)"
  have "script_run (f # ops) (mk_push cap xs) =
      script_run ops (mk_push (max cap (length xs + length ?d)) (xs @ ?d))"
  proof (cases f)
    case (SD d n)
    then show ?thesis
      using Cons.prems by (simp add: utl_push_data_eq)
  next
    case (SV v)
    then obtain w :: u32 where "v = ucast w" using Cons.prems(1) by auto
    then have "push_value_bytes v = Inr (script_num v)" using push_value_bytes_u32 [of w] by simp
    then show ?thesis
      using SV Cons.prems by (simp add: utl_push_value_def utl_push_data_eq)
  qed
  moreover have "script_run ops (mk_push (max cap (length xs + length ?d)) (xs @ ?d)) =
      Inr (mk_push (max (max cap (length xs + length ?d)) (length (xs @ ?d) + length ?ds))
             ((xs @ ?d) @ ?ds))"
    using Cons.prems by (intro Cons.IH) auto
  moreover have "max (max cap (length xs + length ?d)) (length (xs @ ?d) + length ?ds) =
      max cap (length xs + length (concat (map script_op_bytes (f # ops))))"
    by (simp add: max_def)
  ultimately show ?case by simp
qed

lemma script_build_eq:
  assumes "list_all script_op_ok ops" "length (concat (map script_op_bytes ops)) < 2 ^ 31" "n < 2 ^ 31"
    and "concat (map script_op_bytes ops) \<noteq> []"
  shows "script_build n ops = Inr (buf_of (concat (map script_op_bytes ops)))"
  using script_run_eq [OF assms(1), of "[]" n] assms(2-4)
  by (simp add: script_build_def utl_push_init_eq utl_push_trim_eq data_mk_push)

lemma create_tolocal_eq:
  assumes "length r = BTC_SZ_PUBKEY" "length d = BTC_SZ_PUBKEY"
  shows "ln_script_create_tolocal r d delay = Inr (buf_of
    ([BTC_OP_IF, BTC_OP_SZ_PUBKEY] @ r @ [BTC_OP_ELSE] @ script_num (ucast delay) @
     [BTC_OP_CSV, BTC_OP_DROP, BTC_OP_SZ_PUBKEY] @ d @ [BTC_OP_ENDIF, BTC_OP_CHECKSIG]))"
  unfolding ln_script_create_tolocal_def
  by (subst script_build_eq) (use assms push_value_bytes_u32 [of delay] in auto)

lemma create_script_received_eq:
  assumes "length lk = BTC_SZ_PUBKEY" "length rk = BTC_SZ_PUBKEY" "length h = BTC_SZ_HASH160"
    and "length (btc_util_hash160 sha rip (take BTC_SZ_PUBKEY rv)) = BTC_SZ_HASH160"
  shows "create_script_received sha rip lk rv rk h cltv = Inr (buf_of
    ([BTC_OP_DUP, BTC_OP_HASH160, BTC_OP_SZ20] @ btc_util_hash160 sha rip (take BTC_SZ_PUBKEY rv) @
     [BTC_OP_EQUAL, BTC_OP_IF, BTC_OP_CHECKSIG, BTC_OP_ELSE, BTC_OP_SZ_PUBKEY] @ rk @
     [BTC_OP_SWAP, BTC_OP_SIZE, BTC_OP_SZ1, BTC_OP_SZ32, BTC_OP_EQUAL, BTC_OP_IF,
      BTC_OP_HASH160, BTC_OP_SZ20] @ h @
     [BTC_OP_EQUALVERIFY, BTC_OP_2, BTC_OP_SWAP, BTC_OP_SZ_PUBKEY] @ lk @
     [BTC_OP_2, BTC_OP_CHECKMULTISIG, BTC_OP_ELSE, BTC_OP_DROP] @ script_num (ucast cltv) @
     [BTC_OP_CLTV, BTC_OP_DROP, BTC_OP_CHECKSIG, BTC_OP_ENDIF, BTC_OP_ENDIF]))"
  unfolding create_script_received_def
  by (subst script_build_eq) (use assms push_value_bytes_u32 [of cltv] in auto)

lemma create_script_offered_eq:
  assumes "length lk = BTC_SZ_PUBKEY" "length rk = BTC_SZ_PUBKEY" "length h = BTC_SZ_HASH160"
    and "length (btc_util_hash160 sha rip (take BTC_SZ_PUBKEY rv)) = BTC_SZ_HASH160"
  shows "create_script_offered sha rip lk rv h rk = Inr (buf_of
    ([BTC_OP_DUP, BTC_OP_HASH160, BTC_OP_SZ20] @ btc_util_hash160 sha rip (take BTC_SZ_PUBKEY rv) @
     [BTC_OP_EQUAL, BTC_OP_IF, BTC_OP_CHECKSIG, BTC_OP_ELSE, BTC_OP_SZ_PUBKEY] @ rk @
     [BTC_OP_SWAP, BTC_OP_SIZE, BTC_OP_SZ1, BTC_OP_SZ32, BTC_OP_EQUAL, BTC_OP_NOTIF,
      BTC_OP_DROP, BTC_OP_2, BTC_OP_SWAP, BTC_OP_SZ_PUBKEY] @ lk @
     [BTC_OP_2, BTC_OP_CHECKMULTISIG, BTC_OP_ELSE, BTC_OP_HASH160, BTC_OP_SZ20] @ h @
     [BTC_OP_EQUALVERIFY, BTC_OP_CHECKSIG, BTC_OP_ENDIF, BTC_OP_ENDIF]))"
  unfolding create_script_offered_def
  by (subst script_build_eq) (use assms in auto)

text \<open>A script number determines its value.\<close>

lemma script_num_cases:
  obtains (zero) "v = 0" "script_num (ucast (v :: u32)) = [0]"
  | (small) "v \<noteq> 0" "v \<le> 16" "script_num (ucast v) = [0x50 + ucast (ucast v :: u64)]"
  | (large) k where "1 \<le> k" "k \<le> 5" "unat v < 256 ^ k"
      "script_num (ucast v) = of_nat k # map (\<lambda>i. octet (8 * i) (ucast v :: u64)) [0..<k]"
proof -
  have u: "unat (ucast v :: u64) = unat v" by (rule unat_ucast_u32)
  have lt: "unat v < 2 ^ 32" using unsigned_less [of v] by simp
  show thesis
  proof (cases "v \<le> 16")
    case True
    then have le: "(ucast v :: u64) \<le> 16" by (simp add: word_le_nat_alt u)
    have "(ucast v :: u64) = 0 \<longleftrightarrow> v = 0" by (simp add: word_unat_eq_iff u)
    then show thesis
      using True le zero small by (cases "v = 0") (simp_all add: script_num_def push_value_bytes_def)
  next
    case False
    then have gt: "\<not> (ucast v :: u64) \<le> 16" "(ucast v :: u64) \<noteq> 0" "(ucast v :: u64) \<le> 0x7fffffffff"
      using lt by (auto simp: word_le_nat_alt word_unat_eq_iff u)
    have fit: "fits 5 (ucast v)" using lt by (simp add: fits_iff u)
    obtain k where k: "1 \<le> k" "k \<le> 5" "fits k (ucast v)" "push_value_loop (ucast v) 1 =
        Some (of_nat k # map (\<lambda>i. octet (8 * i) (ucast v :: u64)) [0..<k])"
      using push_value_loop_first [OF fit, of 1] by auto
    have "128 * 256 ^ (k - 1) \<le> (256::nat) ^ k" using k(1) by (cases k) auto
    then have "unat v < 256 ^ k" using k by (simp add: fits_iff u)
    moreover have "script_num (ucast v) = of_nat k # map (\<lambda>i. octet (8 * i) (ucast v :: u64)) [0..<k]"
      using gt k(4) by (simp add: script_num_def push_value_bytes_def)
    ultimately show thesis using large k(1,2) by blast
  qed
qed

definition script_num_value :: "bytes \<Rightarrow> nat" where
  "script_num_value bs =
     (if length bs = 1 then (if hd bs = 0 then 0 else unat (hd bs) - 0x50)
      else \<Sum>i<length bs - 1. unat (bs ! (i + 1)) * 256 ^ i)"

lemma script_num_value: "script_num_value (script_num (ucast (v :: u32))) = unat v"
proof (cases v rule: script_num_cases)
  case small
  have "unat v \<le> 16" using small(2) by (simp add: word_le_nat_alt)
  moreover have "unat (ucast x :: byte) = unat x" if "unat x \<le> 16" for x :: u64
    using that by (simp add: unsigned_ucast_eq take_bit_nat_eq_self)
  ultimately have u: "unat (ucast (ucast v :: u64) :: byte) = unat v"
    using unat_ucast_u32 [of v] by metis
  have "unat (0x50 + ucast (ucast v :: u64) :: byte) = 0x50 + unat v"
    using u \<open>unat v \<le> 16\<close> by (subst unat_plus_no_wrap) simp_all
  then show ?thesis
    using small by (auto simp: script_num_value_def word_unat_eq_iff)
next
  case (large k)
  have "(\<Sum>i<k. unat (octet (8 * i) (ucast v :: u64)) * 256 ^ i) = unat v"
    using sum_octets [of "ucast v :: u64" k] large(3) by (simp add: unat_ucast_u32)
  then show ?thesis
    using large by (simp add: script_num_value_def)
qed (simp add: script_num_value_def)

lemma script_num_inj: "script_num (ucast (v :: u32)) = script_num (ucast w) \<longleftrightarrow> v = w"
  using script_num_value [of v] script_num_value [of w] by (metis word_unat_eq_iff)

text \<open>
  The output scripts of a commitment transaction determine what they are made from: two
  \<open>to_local\<close> scripts are equal exactly when keys and delay are, and two scripts of received HTLCs
  are equal exactly when both HTLC keys, the hash of the revocation key, the payment hash and the
  expiry are.
\<close>

theorem scripts_determine_terms:
  assumes "length r = BTC_SZ_PUBKEY" "length r' = BTC_SZ_PUBKEY" "length d = BTC_SZ_PUBKEY"
    "length d' = BTC_SZ_PUBKEY" "length h = BTC_SZ_HASH160" "length h' = BTC_SZ_HASH160"
    and hash: "\<And>x. length (rip x) = BTC_SZ_HASH160"
  shows "(ln_script_create_tolocal r d t = ln_script_create_tolocal r' d' t' \<longleftrightarrow>
      r = r' \<and> d = d' \<and> t = t') \<and>
    (create_script_received sha rip r v d h t = create_script_received sha rip r' v' d' h' t' \<longleftrightarrow>
      r = r' \<and> d = d' \<and> h = h' \<and> t = t' \<and>
      btc_util_hash160 sha rip (take BTC_SZ_PUBKEY v) = btc_util_hash160 sha rip (take BTC_SZ_PUBKEY v'))"
proof -
  have inj: "buf_of xs = buf_of ys \<longleftrightarrow> xs = ys" for xs ys
    using buf_bytes_buf_of [of xs] buf_bytes_buf_of [of ys] by (metis option.inject)
  have len: "length (btc_util_hash160 sha rip x) = BTC_SZ_HASH160" for x
    using hash by (simp add: btc_util_hash160_def)
  show ?thesis
    using assms len
    by (auto simp: create_tolocal_eq create_script_received_eq inj script_num_inj)
qed

theorem scripts_determine_terms_witness:
  "ln_script_create_tolocal (replicate 33 1) (replicate 33 2) 144 \<noteq>
     ln_script_create_tolocal (replicate 33 1) (replicate 33 2) 145 \<and>
   create_script_received id (\<lambda>_. replicate 20 0) (replicate 33 1) [] (replicate 33 2)
       (replicate 20 3) 500000 \<noteq>
     create_script_received id (\<lambda>_. replicate 20 0) (replicate 33 1) [] (replicate 33 2)
       (replicate 20 4) 500000"
proof -
  have "replicate 20 (3 :: byte) \<noteq> replicate 20 4" by (simp add: replicate_eq_replicate)
  then show ?thesis
    using scripts_determine_terms [of "replicate 33 1" "replicate 33 1" "replicate 33 2"
        "replicate 33 2" "replicate 20 3" "replicate 20 4" "\<lambda>_. replicate 20 0" 144 145]
      scripts_determine_terms [of "replicate 33 1" "replicate 33 1" "replicate 33 2"
        "replicate 33 2" "replicate 20 3" "replicate 20 4" "\<lambda>_. replicate 20 0" 500000 500000 id "[]" "[]"]
    by simp
qed

section \<open>What the outputs add up to\<close>

lemma fee_step_eq:
  assumes "htlc_type info \<noteq> LN_HTLCTYPE_NONE"
    and "fi = \<lparr>fi_feerate_per_kw = feerate, dust_limit_satoshi = dust, htlc_success = success,
           htlc_timeout = timeout, fi_commit = c\<rparr>"
  shows "fee_step dust success timeout info (commit, dusts) =
    (if LN_MSAT2SATOSHI (hi_amount_msat info) \<ge> dust_limit_satoshi fi + htlc_fee fi (htlc_type info)
     then (commit + M_FEE_COMMIT_HTLC, dusts)
     else (commit, dusts + LN_MSAT2SATOSHI (hi_amount_msat info)))"
  using assms by (cases "htlc_type info") (simp_all add: fee_step_def htlc_fee_def)

lemma htlc_vouts_fee:
  assumes "\<forall>info\<in>set infos. htlc_type info \<noteq> LN_HTLCTYPE_NONE"
    and fi: "fi = \<lparr>fi_feerate_per_kw = feerate, dust_limit_satoshi = dust, htlc_success = success,
           htlc_timeout = timeout, fi_commit = c\<rparr>"
  shows "fold (fee_step dust success timeout) infos (commit, dusts) =
    (commit + M_FEE_COMMIT_HTLC * of_nat (length (htlc_vouts sha fi n infos)),
     dusts + (sum_list (map (LN_MSAT2SATOSHI \<circ> hi_amount_msat) infos) -
              sum_list (map vout_value (htlc_vouts sha fi n infos))))"
  using assms(1)
proof (induction infos arbitrary: n commit dusts)
  case (Cons info infos)
  then have "htlc_type info \<noteq> LN_HTLCTYPE_NONE" by simp
  note step = fee_step_eq [OF this fi, of commit dusts]
  show ?case
    using Cons.IH [of "commit + M_FEE_COMMIT_HTLC" dusts "Suc n"]
      Cons.IH [of commit "dusts + LN_MSAT2SATOSHI (hi_amount_msat info)" "Suc n"] Cons.prems
    by (simp add: step htlc_vouts_def algebra_simps)
qed (simp add: htlc_vouts_def)

text \<open>
  C28: a commitment transaction pays out what the two sides and the HTLCs have, less the fee that
  \<^verbatim>\<open>ln_script_fee_calc\<close> returns: when neither side's output is trimmed, the outputs of the transaction
  and that fee add up to the two balances and the HTLC amounts, and the fee is charged for exactly
  the HTLC outputs that are in the transaction. The trimming in the two functions therefore agrees.
\<close>

theorem committx_fee_exact:
  assumes "ln_script_fee_calc feerate dust infos = (fi, fee)"
    and "\<forall>info\<in>set infos. htlc_type info \<noteq> LN_HTLCTYPE_NONE"
    and "ct_feeinfo cmt = fi" "ct_htlcinfos cmt = infos"
    and "dust + (if Local then 0 else fi_commit fi) \<le> remote_satoshi cmt"
    and "dust + (if Local then fi_commit fi else 0) \<le> local_satoshi cmt"
  shows "sum_list (map vout_value (committx_vouts sha rip cmt Local)) + fee =
      local_satoshi cmt + remote_satoshi cmt +
      sum_list (map (LN_MSAT2SATOSHI \<circ> hi_amount_msat) infos) \<and>
    fi_commit fi = (LN_FEE_COMMIT_BASE + M_FEE_COMMIT_HTLC *
      of_nat (length (committx_vouts sha rip cmt Local) - 2)) * ucast feerate div 1000"
proof -
  let ?s = "M_FEE_HTLCSUCCESS * ucast feerate div 1000"
    and ?t = "M_FEE_HTLCTIMEOUT * ucast feerate div 1000"
  obtain commit dusts where f: "fold (fee_step dust ?s ?t) infos (LN_FEE_COMMIT_BASE, 0) = (commit, dusts)"
    by fastforce
  have fi: "fi = \<lparr>fi_feerate_per_kw = feerate, dust_limit_satoshi = dust, htlc_success = ?s,
      htlc_timeout = ?t, fi_commit = commit * ucast feerate div 1000\<rparr>"
    and fee: "fee = fi_commit fi + dusts"
    using assms(1) f by (auto simp: ln_script_fee_calc_def Let_def)
  have dl: "dust_limit_satoshi fi = dust" by (simp add: fi)
  have "commit = LN_FEE_COMMIT_BASE + M_FEE_COMMIT_HTLC * of_nat (length (htlc_vouts sha fi 0 infos))"
    "dusts = sum_list (map (LN_MSAT2SATOSHI \<circ> hi_amount_msat) infos) -
      sum_list (map vout_value (htlc_vouts sha fi 0 infos))"
    using htlc_vouts_fee [OF assms(2) fi, of LN_FEE_COMMIT_BASE 0 sha 0] f
    by simp_all
  moreover have "committx_vouts sha rip cmt Local =
      [\<lparr>vout_value = remote_satoshi cmt - (if Local then 0 else fi_commit fi),
        vout_script = p2wpkh_pub sha rip (remote_pubkey cmt), vout_opt = LN_HTLCTYPE_TOREMOTE\<rparr>,
       \<lparr>vout_value = local_satoshi cmt - (if Local then fi_commit fi else 0),
        vout_script = btc_sw_wit2prog_p2wsh sha (local_script cmt),
        vout_opt = LN_HTLCTYPE_TOLOCAL\<rparr>] @ htlc_vouts sha fi 0 infos"
    using assms(3-6) dl by (cases Local) (simp_all add: committx_vouts_def Let_def)
  ultimately show ?thesis
    using fee fi by (simp add: algebra_simps)
qed

theorem committx_fee_exact_witness:
  "let infos = [(htlcinfo 0 (htlc_zero\<lparr>amount_msat := 5000000\<rparr>) LN_HTLCTYPE_OFFERED),
                (htlcinfo 1 (htlc_zero\<lparr>amount_msat := 300000\<rparr>) LN_HTLCTYPE_RECEIVED)];
       (fi, fee) = ln_script_fee_calc 1000 546 infos;
       cmt = \<lparr>fund_txid = [], fund_txid_index = 0, fund_satoshi = 100000, fund_script = [],
         local_satoshi = 60000, local_script = [], remote_satoshi = 34700, remote_pubkey = [],
         ct_obscured = 0, ct_feeinfo = fi, ct_htlcinfos = infos\<rparr> in
   sum_list (map vout_value (committx_vouts id id cmt True)) + fee = 100000"
proof -
  let ?infos = "[(htlcinfo 0 (htlc_zero\<lparr>amount_msat := 5000000\<rparr>) LN_HTLCTYPE_OFFERED),
    (htlcinfo 1 (htlc_zero\<lparr>amount_msat := 300000\<rparr>) LN_HTLCTYPE_RECEIVED)]"
  have "ln_script_fee_calc 1000 546 ?infos =
      (\<lparr>fi_feerate_per_kw = 1000, dust_limit_satoshi = 546, htlc_success = 703, htlc_timeout = 663,
        fi_commit = 896\<rparr>, 1196)"
    by (simp add: ln_script_fee_calc_def htlcinfo_def htlc_zero_def fee_step_def LN_MSAT2SATOSHI_def
        M_FEE_HTLCSUCCESS_def M_FEE_HTLCTIMEOUT_def M_FEE_COMMIT_HTLC_def LN_FEE_COMMIT_BASE_def)
  from committx_fee_exact [OF this, where cmt = "\<lparr>fund_txid = [], fund_txid_index = 0,
      fund_satoshi = 100000, fund_script = [], local_satoshi = 60000, local_script = [],
      remote_satoshi = 34700, remote_pubkey = [], ct_obscured = 0, ct_feeinfo = _,
      ct_htlcinfos = _\<rparr>" and Local = True and sha = id and rip = id] this
  show ?thesis
    by (simp add: Let_def htlcinfo_def LN_MSAT2SATOSHI_def)
qed

section \<open>The order of the outputs\<close>

lemma sort_pass_mset: "sort_pass x ys = (m, r) \<Longrightarrow> add_mset m (mset r) = add_mset x (mset ys)"
  by (induction x ys arbitrary: m r rule: sort_pass.induct)
     (auto split: if_splits prod.splits simp: add_mset_commute)

lemma bip69_mset: "mset (btc_util_sort_bip69 xs) = mset xs"
proof (induction xs rule: btc_util_sort_bip69.induct)
  case (2 x xs)
  then show ?case
    using sort_pass_mset [OF surjective_pairing, of x xs] by simp
qed simp

text \<open>
  Scripts of which none is a proper initial part of another: then \<open>memcmp\<close> over the shorter length
  is the lexicographic order. The key of an output is its value and its script.
\<close>

definition vout_key :: "btc_vout_t \<Rightarrow> u64 \<times> bytes" where
  "vout_key v = (vout_value v, vout_script v)"

definition prefix_free :: "btc_vout_t set \<Rightarrow> bool" where
  "prefix_free V \<longleftrightarrow> (\<forall>a\<in>V. \<forall>b\<in>V. \<forall>zs. vout_script b = vout_script a @ zs \<longrightarrow> zs = [])"

lemma prefix_free_scripts:
  "prefix_free V \<longleftrightarrow> (\<forall>s\<in>vout_script ` V. \<forall>t\<in>vout_script ` V. \<forall>zs. t = s @ zs \<longrightarrow> zs = [])"
  by (auto simp: prefix_free_def)

lemma memcmp_gt_iff:
  "(\<And>zs. xs = ys @ zs \<Longrightarrow> zs = []) \<Longrightarrow> memcmp_gt xs ys \<longleftrightarrow> ys < xs"
  by (induction xs ys rule: memcmp_gt.induct) (auto simp: less_list_code)

lemma vout_gt_iff:
  assumes "prefix_free V" "a \<in> V" "b \<in> V"
  shows "vout_gt a b \<longleftrightarrow> vout_key b < vout_key a"
proof -
  have "memcmp_gt (vout_script a) (vout_script b) \<longleftrightarrow> vout_script b < vout_script a"
    using assms by (intro memcmp_gt_iff) (auto simp: prefix_free_def)
  then show ?thesis
    by (auto simp: vout_gt_def vout_key_def less_prod_def')
qed

lemma sort_pass_least:
  assumes "prefix_free V" "insert x (set ys) \<subseteq> V" "sort_pass x ys = (m, r)"
  shows "\<forall>z\<in>set r. vout_key m \<le> vout_key z"
  using assms
proof (induction x ys arbitrary: m r rule: sort_pass.induct)
  case (2 x y ys)
  show ?case
  proof (cases "vout_gt x y")
    case True
    then obtain r' where r: "sort_pass y ys = (m, r')" "r = x # r'"
      using "2.prems" by (auto split: prod.splits)
    then have "\<forall>z\<in>set r'. vout_key m \<le> vout_key z" using 2 True by auto
    moreover have "vout_key m \<le> vout_key y"
      using sort_pass_mset [OF r(1)] calculation
      by (metis insert_iff order_refl set_mset_add_mset_insert set_mset_mset)
    ultimately show ?thesis
      using r True vout_gt_iff [of V x y] "2.prems" by auto
  next
    case False
    then obtain r' where r: "sort_pass x ys = (m, r')" "r = y # r'"
      using "2.prems" by (auto split: prod.splits)
    then have "\<forall>z\<in>set r'. vout_key m \<le> vout_key z" using 2 False by auto
    moreover have "vout_key m \<le> vout_key x"
      using sort_pass_mset [OF r(1)] calculation
      by (metis insert_iff order_refl set_mset_add_mset_insert set_mset_mset)
    ultimately show ?thesis
      using r False vout_gt_iff [of V x y] "2.prems" by auto
  qed
qed auto

lemma bip69_sorted: "prefix_free (set xs) \<Longrightarrow> sorted (map vout_key (btc_util_sort_bip69 xs))"
proof (induction xs rule: btc_util_sort_bip69.induct)
  case (2 x xs)
  obtain m r where pass: "sort_pass x xs = (m, r)" by fastforce
  have "set (m # r) = set (x # xs)"
    using arg_cong [OF sort_pass_mset [OF pass], of set_mset] by simp
  then have set: "set r \<subseteq> set (x # xs)" by auto
  then have "prefix_free (set r)" using "2.prems" unfolding prefix_free_def by blast
  then have "sorted (map vout_key (btc_util_sort_bip69 r))" using "2.IH" pass by simp
  moreover have "set (btc_util_sort_bip69 r) = set r"
    using bip69_mset [of r] by (metis set_mset_mset)
  moreover have "\<forall>z\<in>set r. vout_key m \<le> vout_key z"
    using sort_pass_least [OF "2.prems" _ pass] by simp
  ultimately show ?case
    using pass by simp
qed simp

lemma bip69_canonical:
  assumes "prefix_free (set xs)" "mset (map vout_key xs) = mset (map vout_key ys)"
  shows "sorted (map vout_key (btc_util_sort_bip69 xs)) \<and> mset (btc_util_sort_bip69 xs) = mset xs \<and>
    map vout_key (btc_util_sort_bip69 xs) = map vout_key (btc_util_sort_bip69 ys)"
proof -
  have "vout_script ` set xs = snd ` set (map vout_key xs)"
    "vout_script ` set ys = snd ` set (map vout_key ys)"
    by (auto simp: vout_key_def image_image)
  moreover have "set (map vout_key xs) = set (map vout_key ys)"
    using assms(2) by (metis set_mset_mset)
  ultimately have "vout_script ` set xs = vout_script ` set ys" by simp
  then have "prefix_free (set ys)"
    using assms(1) by (simp add: prefix_free_scripts)
  moreover have "mset (map vout_key (btc_util_sort_bip69 xs)) = mset (map vout_key (btc_util_sort_bip69 ys))"
    using assms(2) by (simp add: bip69_mset)
  moreover have "sorted (map vout_key (btc_util_sort_bip69 xs))"
    using assms(1) by (rule bip69_sorted)
  ultimately show ?thesis
    using bip69_sorted [of ys] bip69_mset [of xs] properties_for_sort by metis
qed

lemma committx_prefix_free:
  assumes "\<And>x. length (sha x) = BTC_SZ_HASH256" "\<And>x. length (rip x) = BTC_SZ_HASH160"
  shows "prefix_free (set (committx_vouts sha rip cmt Local))"
proof -
  define kinds :: "btc_vout_t set" where "kinds = {v. \<exists>x. vout_script v = [0x00, 32] @ sha x \<or> vout_script v = [0x00, 20] @ rip x}"
  have "set (htlc_vouts sha fi n infos) \<subseteq> kinds" for fi n infos
    by (auto simp: htlc_vouts_def Let_def kinds_def btc_sw_wit2prog_p2wsh_def split: if_splits)
  from this [of "ct_feeinfo cmt" 0 "ct_htlcinfos cmt"]
  have sub: "set (committx_vouts sha rip cmt Local) \<subseteq> kinds"
    by (auto simp: committx_vouts_def Let_def kinds_def btc_sw_wit2prog_p2wsh_def p2wpkh_pub_def
        btc_util_hash160_def split: if_splits)
  have same: "zs = []" if "f x @ zs = f y" "\<And>x. length (f x) = n"
    for f :: "bytes \<Rightarrow> bytes" and x y zs n
    using arg_cong [OF that(1), of length] that(2) by simp
  have nil: "zs = []" if "a \<in> kinds" "b \<in> kinds" "vout_script b = vout_script a @ zs" for a b zs
  proof -
    note ab = that
    obtain x y where "vout_script a = [0x00, 32] @ sha x \<or> vout_script a = [0x00, 20] @ rip x"
      "vout_script b = [0x00, 32] @ sha y \<or> vout_script b = [0x00, 20] @ rip y"
      using ab(1,2) unfolding kinds_def by blast
    then have "sha x @ zs = sha y \<or> rip x @ zs = rip y"
      using ab(3) by auto
    then show ?thesis
      using same [of sha x zs y, OF _ assms(1)] same [of rip x zs y, OF _ assms(2)] by blast
  qed
  show ?thesis
    unfolding prefix_free_def by (intro ballI allI impI nil [OF subsetD [OF sub] subsetD [OF sub]])
qed

text \<open>
  The outputs of a commitment transaction are in ascending order of value and script, and two
  nodes that put the same outputs together in different orders, as the two sides of a channel do with
  their HTLC slots, get the same sequence of outputs.
\<close>

theorem committx_canonical:
  assumes "\<And>x. length (sha x) = BTC_SZ_HASH256" "\<And>x. length (rip x) = BTC_SZ_HASH160"
    and "mset (map vout_key (committx_vouts sha rip cmt L)) =
      mset (map vout_key (committx_vouts sha rip cmt' L'))"
  shows "sorted (map vout_key (tx_vout (ln_script_committx_create sha rip cmt L))) \<and>
    mset (tx_vout (ln_script_committx_create sha rip cmt L)) = mset (committx_vouts sha rip cmt L) \<and>
    map vout_key (tx_vout (ln_script_committx_create sha rip cmt L)) =
      map vout_key (tx_vout (ln_script_committx_create sha rip cmt' L'))"
  using bip69_canonical [OF committx_prefix_free [OF assms(1,2)] assms(3)]
  unfolding ln_script_committx_create_def btc_tx_t.simps .

text \<open>The two sides of a channel with two HTLCs: here the slots are in the opposite order.\<close>

definition toy_cmt :: "ln_script_htlcinfo_t list \<Rightarrow> ln_script_committx_t" where
  "toy_cmt infos = \<lparr>fund_txid = [], fund_txid_index = 0, fund_satoshi = 100000, fund_script = [],
     local_satoshi = 60000, local_script = [], remote_satoshi = 30000, remote_pubkey = [],
     ct_obscured = 0, ct_feeinfo = \<lparr>fi_feerate_per_kw = 1000, dust_limit_satoshi = 546,
       htlc_success = 703, htlc_timeout = 663, fi_commit = 1068\<rparr>, ct_htlcinfos = infos\<rparr>"

theorem committx_canonical_witness:
  "let h = htlcinfo 0 (htlc_zero\<lparr>amount_msat := 5000000\<rparr>) LN_HTLCTYPE_OFFERED;
       h' = htlcinfo 1 (htlc_zero\<lparr>amount_msat := 4000000\<rparr>) LN_HTLCTYPE_OFFERED;
       sha = \<lambda>x. take 32 (x @ replicate 32 0); rip = \<lambda>x. take 20 (x @ replicate 20 0) in
   map vout_key (tx_vout (ln_script_committx_create sha rip (toy_cmt [h, h']) True)) =
     map vout_key (tx_vout (ln_script_committx_create sha rip (toy_cmt [h', h]) True))"
  unfolding Let_def
  by (rule committx_canonical [THEN conjunct2, THEN conjunct2])
     (simp_all add: committx_vouts_def toy_cmt_def htlc_vouts_def htlcinfo_def htlc_fee_def
        LN_MSAT2SATOSHI_def vout_key_def add_mset_commute)

section \<open>The commitment number\<close>

lemma obscured_bits: "bit (ln_script_calc_obscured_txnum sha a b) n \<Longrightarrow> n < 48"
  by (auto simp: ln_script_calc_obscured_txnum_def Let_def upt_rec bit_simps dest: bit_byte_less)

lemma small_bits:
  assumes "(c :: u64) < 2 ^ 48" "bit c n"
  shows "n < 48"
proof -
  have "take_bit 48 c = c"
    using assms(1) by (simp add: word_unat_eq_iff unsigned_take_bit_eq take_bit_nat_eq_self_iff word_less_nat_alt)
  then show ?thesis using assms(2) by (metis bit_take_bit_iff)
qed

text \<open>
  The commitment number of a transaction can be read back: \<^verbatim>\<open>calc_commit_num\<close> undoes the
  obscuring and the splitting over sequence and lock time for all the 48-bit commitment numbers.
\<close>

theorem commit_number_recovered:
  assumes "commit_num < 2 ^ 48"
    and "ct_obscured cmt = ln_script_calc_obscured_txnum sha p q XOR commit_num"
  shows "calc_commit_num (ln_script_calc_obscured_txnum sha p q)
    (ln_script_committx_create sha rip cmt Local) = commit_num"
proof (rule bit_word_eqI)
  fix n
  assume n: "n < LENGTH(64)"
  let ?o = "ln_script_calc_obscured_txnum sha p q"
  have m: "(0xffffff :: 'a::len word) = mask 24" by (simp add: mask_eq_exp_minus_1)
  have hi: "bit (0x80000000 :: u64) k \<Longrightarrow> k = 31" "bit (0x20000000 :: u64) k \<Longrightarrow> k = 29" for k
    using bit_exp_iff [where ?'a = u64, of 31 k] bit_exp_iff [where ?'a = u64, of 29 k] by simp_all
  have hi32: "bit (0x80000000 :: u32) k \<Longrightarrow> k = 31" "bit (0x20000000 :: u32) k \<Longrightarrow> k = 29" for k
    using bit_exp_iff [where ?'a = u32, of 31 k] bit_exp_iff [where ?'a = u32, of 29 k] by simp_all
  have hi_int: "bit (0x80000000 :: int) k \<Longrightarrow> k = 31" "bit (0x20000000 :: int) k \<Longrightarrow> k = 29" for k
    using bit_exp_iff [where ?'a = int, of 31 k] bit_exp_iff [where ?'a = int, of 29 k] by simp_all
  have seq: "bit (ucast (LN_SEQUENCE x AND mask 24) :: u64) k \<longleftrightarrow> k < 24 \<and> bit x (k + 24)" for x k
    by (auto simp: LN_SEQUENCE_def m bit_simps add.commute dest: hi hi32 hi_int)
  have lock: "bit (ucast (LN_LOCKTIME x AND mask 24) :: u64) k \<longleftrightarrow> k < 24 \<and> bit x k" for x k
    by (auto simp: LN_LOCKTIME_def m bit_simps dest: hi hi32 hi_int)
  let ?x = "?o XOR commit_num"
  have "bit (calc_commit_num ?o (ln_script_committx_create sha rip cmt Local)) n \<longleftrightarrow>
      ((24 \<le> n \<and> n - 24 < 24 \<and> bit ?x n) \<or> (n < 24 \<and> bit ?x n)) \<noteq> bit ?o n"
    using n unfolding calc_commit_num_def ln_script_committx_create_def btc_tx_t.simps m assms(2)
    by (cases "24 \<le> n") (simp_all add: bit_xor_iff bit_or_iff bit_push_bit_iff seq lock)
  also have "\<dots> \<longleftrightarrow> (n < 48 \<and> bit ?x n) \<noteq> bit ?o n"
    by auto
  also have "\<dots> \<longleftrightarrow> bit commit_num n"
    using small_bits [OF assms(1), of n] obscured_bits [of sha p q n] by (auto simp: bit_xor_iff)
  finally show "bit (calc_commit_num ?o (ln_script_committx_create sha rip cmt Local)) n = bit commit_num n" .
qed

theorem commit_number_recovered_witness:
  "calc_commit_num (ln_script_calc_obscured_txnum (\<lambda>d. replicate 32 0xa5) [] [])
     (ln_script_committx_create (\<lambda>d. replicate 32 0xa5) id (toy_cmt []\<lparr>ct_obscured :=
        ln_script_calc_obscured_txnum (\<lambda>d. replicate 32 0xa5) [] [] XOR 1000000\<rparr>) True) = 1000000"
  by (intro commit_number_recovered) simp_all

end
