(* ===== verification/Derkey_Keys.thy ===== *)
theory Derkey_Keys
  imports Ln_Const
begin

text \<open>
  The other half of \<^verbatim>\<open>ln/ln_derkey.c\<close>: keys derived from a basepoint and a per-commitment
  point. The curve is in mbed TLS; its operations are the fields of the parameter \<open>ec\<close>, \<open>None\<close> being
  an error code, and \<open>sha\<close> is SHA-256. Private keys are computed by the code itself, as big
  integers, and written out in 32 bytes.
\<close>

section \<open>Big integers\<close>

definition mpi_read :: "bytes \<Rightarrow> nat" where
  \<comment> \<open>\<open>mbedtls_mpi_read_binary\<close>\<close>
  "mpi_read bs = foldl (\<lambda>a b. a * 256 + unat b) 0 bs"

fun mpi_octets :: "nat \<Rightarrow> nat \<Rightarrow> bytes" where
  "mpi_octets 0 v = []"
| "mpi_octets (Suc n) v = mpi_octets n (v div 256) @ [of_nat (v mod 256)]"

definition mpi_write :: "nat \<Rightarrow> nat \<Rightarrow> bytes option" where
  \<comment> \<open>\<open>mbedtls_mpi_write_binary\<close>: an error when the number needs more bytes\<close>
  "mpi_write n v = (if v < 256 ^ n then Some (mpi_octets n v) else None)"

lemma length_mpi_octets [simp]: "length (mpi_octets n v) = n"
  by (induction n arbitrary: v) simp_all

lemma mpi_read_snoc: "mpi_read (bs @ [b]) = mpi_read bs * 256 + unat b"
  by (simp add: mpi_read_def)

lemma mpi_read_octets: "v < 256 ^ n \<Longrightarrow> mpi_read (mpi_octets n v) = v"
proof (induction n arbitrary: v)
  case (Suc n)
  have "v div 256 < 256 ^ n" using Suc.prems by (simp add: less_mult_imp_div_less mult.commute)
  with Suc.IH show ?case by (simp add: mpi_read_snoc unat_of_nat take_bit_nat_eq_self)
qed (simp add: mpi_read_def)

lemma mpi_write_read: "mpi_write n v = Some bs \<Longrightarrow> mpi_read bs = v"
  by (auto simp: mpi_write_def mpi_read_octets split: if_splits)

section \<open>Key derivation\<close>

record 'p ec_grp =
  ec_read :: "bytes \<Rightarrow> 'p option"
  ec_write :: "'p \<Rightarrow> bytes option"
  ec_muladd :: "nat \<Rightarrow> 'p \<Rightarrow> nat \<Rightarrow> 'p \<Rightarrow> 'p option"
  ec_G :: 'p
  ec_inf :: "'p \<Rightarrow> bool"
  ec_N :: nat

definition btc_util_ecp_muladd :: "'p ec_grp \<Rightarrow> bytes \<Rightarrow> nat \<Rightarrow> bytes option" where
  "btc_util_ecp_muladd ec pPubKeyIn A =
     Option.bind (ec_read ec pPubKeyIn) (\<lambda>P1.
     Option.bind (ec_muladd ec A (ec_G ec) 1 P1) (\<lambda>P2.
     if ec_inf ec P2 then None else ec_write ec P2))"

definition ln_derkey_pubkey ::
  "'p ec_grp \<Rightarrow> (bytes \<Rightarrow> bytes) \<Rightarrow> bytes \<Rightarrow> bytes \<Rightarrow> bytes option" where
  "ln_derkey_pubkey ec sha pBasePoint pPerCommitPoint =
     (let base = sha (pPerCommitPoint @ pBasePoint) in
      btc_util_ecp_muladd ec pBasePoint (mpi_read base))"

definition ln_derkey_privkey ::
  "'p ec_grp \<Rightarrow> (bytes \<Rightarrow> bytes) \<Rightarrow> bytes \<Rightarrow> bytes \<Rightarrow> bytes \<Rightarrow> bytes option" where
  "ln_derkey_privkey ec sha pBasePoint pPerCommitPoint pBaseSecret =
     (let a = mpi_read (sha (pPerCommitPoint @ pBasePoint)); b = mpi_read pBaseSecret in
      mpi_write BTC_SZ_PRIVKEY ((a + b) mod ec_N ec))"

definition ln_derkey_revocationkey ::
  "'p ec_grp \<Rightarrow> (bytes \<Rightarrow> bytes) \<Rightarrow> bytes \<Rightarrow> bytes \<Rightarrow> bytes option" where
  "ln_derkey_revocationkey ec sha pBasePoint pPerCommitPoint =
     (let bp1 = mpi_read (sha (pBasePoint @ pPerCommitPoint));
          bp2 = mpi_read (sha (pPerCommitPoint @ pBasePoint)) in
      Option.bind (ec_read ec pBasePoint) (\<lambda>S1.
      Option.bind (ec_read ec pPerCommitPoint) (\<lambda>S2.
      Option.bind (ec_muladd ec bp1 S1 bp2 S2) (\<lambda>S.
      ec_write ec S))))"

definition ln_derkey_revocationprivkey ::
  "'p ec_grp \<Rightarrow> (bytes \<Rightarrow> bytes) \<Rightarrow> bytes \<Rightarrow> bytes \<Rightarrow> bytes \<Rightarrow> bytes \<Rightarrow> bytes option" where
  "ln_derkey_revocationprivkey ec sha pBasePoint pPerCommitPoint pBaseSecret pPerCommitSecret =
     (let a = mpi_read (sha (pBasePoint @ pPerCommitPoint)) * mpi_read pBaseSecret;
          b = mpi_read (sha (pPerCommitPoint @ pBasePoint)) * mpi_read pPerCommitSecret in
      mpi_write BTC_SZ_PRIVKEY ((a + b) mod ec_N ec))"

text \<open>
  What is assumed of the curve: \<open>P x\<close> is the point \<open>x * G\<close> of the cyclic group of order \<open>N\<close>, \<open>pub x\<close>
  its compressed form; only the points other than infinity are read and written. The scalars that mbed
  TLS multiplies with are those from 1 to \<open>N - 1\<close>, which are also the private keys, and it multiplies
  only points other than infinity.
\<close>

definition ec_scalar :: "'p ec_grp \<Rightarrow> nat \<Rightarrow> bool" where
  "ec_scalar ec a \<longleftrightarrow> 0 < a \<and> a < ec_N ec"

definition ec_laws :: "'p ec_grp \<Rightarrow> (nat \<Rightarrow> 'p) \<Rightarrow> (nat \<Rightarrow> bytes) \<Rightarrow> bool" where
  "ec_laws ec P pub \<longleftrightarrow>
     1 < ec_N ec \<and> ec_N ec \<le> 256 ^ 32 \<and> ec_G ec = P 1 \<and>
     (\<forall>x. P (x mod ec_N ec) = P x \<and> (ec_inf ec (P x) \<longleftrightarrow> x mod ec_N ec = 0)) \<and>
     (\<forall>x. x mod ec_N ec \<noteq> 0 \<longrightarrow> ec_read ec (pub x) = Some (P x) \<and> ec_write ec (P x) = Some (pub x)) \<and>
     (\<forall>a x b y. ec_scalar ec a \<and> ec_scalar ec b \<and> x mod ec_N ec \<noteq> 0 \<and> y mod ec_N ec \<noteq> 0 \<longrightarrow>
        ec_muladd ec a (P x) b (P y) = Some (P (a * x + b * y)))"

text \<open>The key derived from a scalar, and its public key.\<close>

lemma ec_reduce:
  assumes "ec_laws ec P pub" "s mod ec_N ec \<noteq> 0"
  shows "\<exists>sk. mpi_write 32 (s mod ec_N ec) = Some sk \<and> length sk = 32 \<and>
    ec_write ec (P s) = Some (pub (mpi_read sk)) \<and> \<not> ec_inf ec (P s) \<and> ec_scalar ec (mpi_read sk)"
proof -
  let ?r = "s mod ec_N ec"
  have "?r < ec_N ec" using assms(1) by (simp add: ec_laws_def)
  then have r: "?r < 256 ^ 32" using assms(1) by (simp only: ec_laws_def) linarith
  have laws: "\<forall>x. P (x mod ec_N ec) = P x \<and> (ec_inf ec (P x) \<longleftrightarrow> x mod ec_N ec = 0)"
    "\<forall>x. x mod ec_N ec \<noteq> 0 \<longrightarrow> ec_read ec (pub x) = Some (P x) \<and> ec_write ec (P x) = Some (pub x)"
    using assms(1) [unfolded ec_laws_def, THEN conjunct2, THEN conjunct2, THEN conjunct2, THEN conjunct1]
      assms(1) [unfolded ec_laws_def, THEN conjunct2, THEN conjunct2, THEN conjunct2, THEN conjunct2,
        THEN conjunct1] .
  have "ec_write ec (P ?r) = Some (pub ?r)"
    using laws(2) [rule_format, of ?r] assms(2) by simp
  moreover have "P ?r = P s" by (rule laws(1) [rule_format, THEN conjunct1])
  moreover have "\<not> ec_inf ec (P s)" using laws(1) [rule_format, of s, THEN conjunct2] assms(2) by blast
  ultimately have "ec_write ec (P s) = Some (pub ?r)" "\<not> ec_inf ec (P s)" by simp_all
  moreover have "ec_scalar ec ?r" using \<open>?r < ec_N ec\<close> assms(2) by (simp add: ec_scalar_def)
  ultimately show ?thesis
    using r by (intro exI [of _ "mpi_octets 32 ?r"]) (simp add: mpi_write_def mpi_read_octets)
qed

text \<open>
  The private keys that a node derives belong to the public keys that its peer derives: the
  local key from the basepoint secret, and the revocation key from the basepoint secret of one side
  and the revealed per-commitment secret of the other. Excluded is only that one of the two hashes is
  no scalar, or that a sum happens to be 0 modulo the group order.
\<close>

theorem derkey_pairs:
  assumes ec: "ec_laws ec P pub"
    and x: "x = mpi_read bsec" "x mod ec_N ec \<noteq> 0"
    and y: "y = mpi_read csec" "y mod ec_N ec \<noteq> 0"
    and sc: "ec_scalar ec (mpi_read (sha (pub x @ pub y)))" "ec_scalar ec (mpi_read (sha (pub y @ pub x)))"
    and "(mpi_read (sha (pub y @ pub x)) + x) mod ec_N ec \<noteq> 0"
    and "(mpi_read (sha (pub x @ pub y)) * x + mpi_read (sha (pub y @ pub x)) * y) mod ec_N ec \<noteq> 0"
  shows "\<exists>sk rk. ln_derkey_privkey ec sha (pub x) (pub y) bsec = Some sk \<and>
    ln_derkey_pubkey ec sha (pub x) (pub y) = Some (pub (mpi_read sk)) \<and>
    ln_derkey_revocationprivkey ec sha (pub x) (pub y) bsec csec = Some rk \<and>
    ln_derkey_revocationkey ec sha (pub x) (pub y) = Some (pub (mpi_read rk))"
proof -
  have rd: "ec_read ec (pub x) = Some (P x)" "ec_read ec (pub y) = Some (P y)"
    using ec x y by (simp_all add: ec_laws_def)
  have G: "ec_G ec = P 1" "1 mod ec_N ec \<noteq> 0" "ec_scalar ec 1"
    and ma: "ec_scalar ec a \<Longrightarrow> ec_scalar ec b \<Longrightarrow> u mod ec_N ec \<noteq> 0 \<Longrightarrow> v mod ec_N ec \<noteq> 0 \<Longrightarrow>
      ec_muladd ec a (P u) b (P v) = Some (P (a * u + b * v))" for a b u v
    using ec by (simp_all add: ec_laws_def ec_scalar_def)
  have m: "ec_muladd ec (mpi_read (sha (pub y @ pub x))) (P 1) 1 (P x) = Some (P (mpi_read (sha (pub y @ pub x)) + x))"
    "ec_muladd ec (mpi_read (sha (pub x @ pub y))) (P x) (mpi_read (sha (pub y @ pub x))) (P y) =
      Some (P (mpi_read (sha (pub x @ pub y)) * x + mpi_read (sha (pub y @ pub x)) * y))"
    using ma [OF sc(2) G(3) G(2) x(2)] ma [OF sc x(2) y(2)] by simp_all
  obtain sk where sk: "mpi_write 32 ((mpi_read (sha (pub y @ pub x)) + x) mod ec_N ec) = Some sk"
    "ec_write ec (P (mpi_read (sha (pub y @ pub x)) + x)) = Some (pub (mpi_read sk))"
    "\<not> ec_inf ec (P (mpi_read (sha (pub y @ pub x)) + x))"
    using ec_reduce [OF ec assms(8)] by blast
  obtain rk where rk: "mpi_write 32 ((mpi_read (sha (pub x @ pub y)) * x +
      mpi_read (sha (pub y @ pub x)) * y) mod ec_N ec) = Some rk"
    "ec_write ec (P (mpi_read (sha (pub x @ pub y)) * x + mpi_read (sha (pub y @ pub x)) * y)) =
      Some (pub (mpi_read rk))"
    using ec_reduce [OF ec assms(9)] by blast
  show ?thesis
    using sk rk rd m
    by (simp add: ln_derkey_privkey_def ln_derkey_pubkey_def ln_derkey_revocationprivkey_def
        ln_derkey_revocationkey_def btc_util_ecp_muladd_def G(1) Let_def flip: x(1) y(1))
qed

text \<open>A group of order 7, in which the points are their scalars.\<close>

definition toy_ec :: "nat ec_grp" where
  "toy_ec = \<lparr>ec_read = (\<lambda>bs. Some (mpi_read bs)), ec_write = mpi_write 33,
     ec_muladd = (\<lambda>a p b q. Some ((a * p + b * q) mod 7)), ec_G = 1, ec_inf = (\<lambda>p. p = 0),
     ec_N = 7\<rparr>"

lemma toy_ec_laws: "ec_laws toy_ec (\<lambda>x. x mod 7) (\<lambda>x. mpi_octets 33 (x mod 7))"
proof -
  have small: "x mod 7 < 256 ^ 33" for x :: nat
    using less_trans [of "x mod 7" 7 "256 ^ 33"] by simp
  have "(a * (x mod 7) + b * (y mod 7)) mod 7 = (a * x + b * y) mod 7" for a b x y :: nat
    by (metis mod_add_cong mod_mult_right_eq)
  then show ?thesis
    using small by (simp add: ec_laws_def toy_ec_def mpi_read_octets mpi_write_def)
qed

theorem derkey_pairs_witness:
  "\<exists>sk rk. ln_derkey_privkey toy_ec (\<lambda>d. [1]) (mpi_octets 33 2) (mpi_octets 33 3) [2] = Some sk \<and>
     ln_derkey_pubkey toy_ec (\<lambda>d. [1]) (mpi_octets 33 2) (mpi_octets 33 3) =
       Some (mpi_octets 33 (mpi_read sk mod 7)) \<and>
     ln_derkey_revocationprivkey toy_ec (\<lambda>d. [1]) (mpi_octets 33 2) (mpi_octets 33 3) [2] [3] = Some rk"
  using derkey_pairs [OF toy_ec_laws, of 2 "[2]" 3 "[3]" "\<lambda>d. [1]"]
  by (auto simp: mpi_read_def toy_ec_def ec_scalar_def)

section \<open>The keys of the commitment scripts\<close>

text \<open>
  \<^verbatim>\<open>ln_misc_update_scriptkeys\<close> in \<^verbatim>\<open>ln/ln_misc.c\<close>. The two funding structs hold the
  public keys at the \<open>MSG_FUNDIDX_*\<close> places and the derived keys at the \<open>MSG_SCRIPTIDX_*\<close> places. A
  derivation that fails leaves the old key where it is; its result is not looked at.
\<close>

definition MSG_FUNDIDX_FUNDING :: nat where "MSG_FUNDIDX_FUNDING = 0"
definition MSG_FUNDIDX_REVOCATION :: nat where "MSG_FUNDIDX_REVOCATION = 1"
definition MSG_FUNDIDX_PAYMENT :: nat where "MSG_FUNDIDX_PAYMENT = 2"
definition MSG_FUNDIDX_DELAYED :: nat where "MSG_FUNDIDX_DELAYED = 3"
definition MSG_FUNDIDX_HTLC :: nat where "MSG_FUNDIDX_HTLC = 4"
definition MSG_FUNDIDX_PER_COMMIT :: nat where "MSG_FUNDIDX_PER_COMMIT = 5"
definition MSG_SCRIPTIDX_REMOTEKEY :: nat where "MSG_SCRIPTIDX_REMOTEKEY = 0"
definition MSG_SCRIPTIDX_DELAYED :: nat where "MSG_SCRIPTIDX_DELAYED = 1"
definition MSG_SCRIPTIDX_REVOCATION :: nat where "MSG_SCRIPTIDX_REVOCATION = 2"
definition MSG_SCRIPTIDX_LOCALHTLCKEY :: nat where "MSG_SCRIPTIDX_LOCALHTLCKEY = 3"
definition MSG_SCRIPTIDX_REMOTEHTLCKEY :: nat where "MSG_SCRIPTIDX_REMOTEHTLCKEY = 4"

lemmas fundidx_defs = MSG_FUNDIDX_FUNDING_def MSG_FUNDIDX_REVOCATION_def MSG_FUNDIDX_PAYMENT_def
  MSG_FUNDIDX_DELAYED_def MSG_FUNDIDX_HTLC_def MSG_FUNDIDX_PER_COMMIT_def
  MSG_SCRIPTIDX_REMOTEKEY_def MSG_SCRIPTIDX_DELAYED_def MSG_SCRIPTIDX_REVOCATION_def
  MSG_SCRIPTIDX_LOCALHTLCKEY_def MSG_SCRIPTIDX_REMOTEHTLCKEY_def

record ln_funding_data_t =
  pubkeys :: "bytes list"
  scriptpubkeys :: "bytes list"

definition set_script_key :: "nat \<Rightarrow> bytes option \<Rightarrow> ln_funding_data_t \<Rightarrow> ln_funding_data_t" where
  "set_script_key i k d =
     (case k of Some x \<Rightarrow> d\<lparr>scriptpubkeys := (scriptpubkeys d)[i := x]\<rparr> | None \<Rightarrow> d)"

definition ln_misc_update_scriptkeys ::
  "'p ec_grp \<Rightarrow> (bytes \<Rightarrow> bytes) \<Rightarrow> ln_funding_data_t \<Rightarrow> ln_funding_data_t \<Rightarrow>
   ln_funding_data_t \<times> ln_funding_data_t" where
  "ln_misc_update_scriptkeys ec sha pLocal pRemote =
     (let L = (\<lambda>i. pubkeys pLocal ! i); R = (\<lambda>i. pubkeys pRemote ! i);
          pLocal =
            set_script_key MSG_SCRIPTIDX_REMOTEHTLCKEY
              (ln_derkey_pubkey ec sha (R MSG_FUNDIDX_HTLC) (L MSG_FUNDIDX_PER_COMMIT))
           (set_script_key MSG_SCRIPTIDX_LOCALHTLCKEY
              (ln_derkey_pubkey ec sha (L MSG_FUNDIDX_HTLC) (L MSG_FUNDIDX_PER_COMMIT))
           (set_script_key MSG_SCRIPTIDX_REVOCATION
              (ln_derkey_revocationkey ec sha (R MSG_FUNDIDX_REVOCATION) (L MSG_FUNDIDX_PER_COMMIT))
           (set_script_key MSG_SCRIPTIDX_DELAYED
              (ln_derkey_pubkey ec sha (L MSG_FUNDIDX_DELAYED) (L MSG_FUNDIDX_PER_COMMIT))
           (set_script_key MSG_SCRIPTIDX_REMOTEKEY
              (ln_derkey_pubkey ec sha (R MSG_FUNDIDX_PAYMENT) (L MSG_FUNDIDX_PER_COMMIT)) pLocal))));
          pRemote =
            set_script_key MSG_SCRIPTIDX_REMOTEHTLCKEY
              (ln_derkey_pubkey ec sha (L MSG_FUNDIDX_HTLC) (R MSG_FUNDIDX_PER_COMMIT))
           (set_script_key MSG_SCRIPTIDX_LOCALHTLCKEY
              (ln_derkey_pubkey ec sha (R MSG_FUNDIDX_HTLC) (R MSG_FUNDIDX_PER_COMMIT))
           (set_script_key MSG_SCRIPTIDX_REVOCATION
              (ln_derkey_revocationkey ec sha (L MSG_FUNDIDX_REVOCATION) (R MSG_FUNDIDX_PER_COMMIT))
           (set_script_key MSG_SCRIPTIDX_DELAYED
              (ln_derkey_pubkey ec sha (R MSG_FUNDIDX_DELAYED) (R MSG_FUNDIDX_PER_COMMIT))
           (set_script_key MSG_SCRIPTIDX_REMOTEKEY
              (ln_derkey_pubkey ec sha (L MSG_FUNDIDX_PAYMENT) (R MSG_FUNDIDX_PER_COMMIT)) pRemote))))
      in (pLocal, pRemote))"

lemma pubkeys_set_script_key [simp]: "pubkeys (set_script_key i k d) = pubkeys d"
  by (simp add: set_script_key_def split: option.splits)

text \<open>
  Two nodes that know the same public keys, each as its own and as the peer's, derive the same
  script keys for the commitment transaction of either side: what one of them computes as local keys
  the other computes as remote keys. The public keys themselves are not touched.
\<close>

theorem scriptkeys_agree:
  assumes "pubkeys lA = pubkeys rB" "pubkeys rA = pubkeys lB"
    and "scriptpubkeys lA = scriptpubkeys rB" "scriptpubkeys rA = scriptpubkeys lB"
    and "ln_misc_update_scriptkeys ec sha lA rA = (lA', rA')"
    and "ln_misc_update_scriptkeys ec sha lB rB = (lB', rB')"
  shows "scriptpubkeys lA' = scriptpubkeys rB' \<and> scriptpubkeys rA' = scriptpubkeys lB' \<and>
    pubkeys lA' = pubkeys lA \<and> pubkeys rA' = pubkeys rA"
proof -
  have set: "scriptpubkeys (set_script_key i k d) = scriptpubkeys (set_script_key i k e)"
    if "scriptpubkeys d = scriptpubkeys e" for i k d e
    using that by (simp add: set_script_key_def split: option.splits)
  show ?thesis
    using assms(3-6) assms(1,2) unfolding ln_misc_update_scriptkeys_def Let_def
    by (auto intro!: set)
qed

theorem scriptkeys_agree_witness:
  "let k = map (mpi_octets 33) [1, 2, 3, 4, 5, 6]; k' = map (mpi_octets 33) [6, 5, 4, 3, 2, 1];
       z = replicate 5 [];
       d = \<lparr>pubkeys = k, scriptpubkeys = z\<rparr>; d' = \<lparr>pubkeys = k', scriptpubkeys = z\<rparr> in
   scriptpubkeys (fst (ln_misc_update_scriptkeys toy_ec rev d d')) =
     scriptpubkeys (snd (ln_misc_update_scriptkeys toy_ec rev d' d))"
  using scriptkeys_agree [OF refl refl refl refl surjective_pairing surjective_pairing]
  unfolding Let_def by blast

end
