(* ===== verification/Msg_Normalope.thy ===== *)
theory Msg_Normalope
  imports Ln_Const
begin

text \<open>
  \<^verbatim>\<open>ln/ln_msg_normalope.c\<close>: the messages of normal operation. For each message its struct, the
  pair of functions that create and read it, its wire format and the interpretation of the codec
  interface. \<open>commitment_signed\<close> has a codec but no total reader: its reader copies the HTLC
  signatures before anything has compared their number with the length of the message.
\<close>

section \<open>update_add_htlc\<close>

definition ln_msg_update_add_htlc_create :: "ln_update_add_htlc_t \<Rightarrow> utl_buf_t c_result" where
  "ln_msg_update_add_htlc_create pMsg =
     msg_build (2 + 1450)
       [P16 MSGTYPE_UPDATE_ADD_HTLC,
        PN (p_channel_id pMsg) LN_SZ_CHANNEL_ID,
        P64 (htlc_id pMsg),
        P64 (amount_msat pMsg),
        PN (payment_sha256 pMsg) BTC_SZ_HASH256,
        P32 (cltv_expiry pMsg),
        PN (buf_onion_reason pMsg) LN_SZ_ONION_ROUTE]"

text \<open>The reader fills the six fields of the message and leaves the others of the slot alone.\<close>

definition ln_msg_update_add_htlc_read ::
  "ln_update_add_htlc_t \<Rightarrow> bytes \<Rightarrow> ln_update_add_htlc_t c_result" where
  "ln_msg_update_add_htlc_read pMsg pData =
     check_c (\<not> length pData < 2 + 1450) (
     get_u16 pData (\<lambda>type p.
     check_c (type = MSGTYPE_UPDATE_ADD_HTLC) (
     get_bytes LN_SZ_CHANNEL_ID p (\<lambda>channel_id p.
     get_u64 p (\<lambda>id p.
     get_u64 p (\<lambda>amount p.
     get_bytes BTC_SZ_HASH256 p (\<lambda>hash p.
     get_u32 p (\<lambda>cltv p.
     get_bytes LN_SZ_ONION_ROUTE p (\<lambda>onion p.
     Inr (pMsg\<lparr>p_channel_id := channel_id, htlc_id := id, amount_msat := amount,
       payment_sha256 := hash, cltv_expiry := cltv, buf_onion_reason := onion\<rparr>))))))))))"

definition update_add_htlc_wire :: "ln_update_add_htlc_t \<Rightarrow> bytes" where
  "update_add_htlc_wire m =
     be16 MSGTYPE_UPDATE_ADD_HTLC @ p_channel_id m @ be64 (htlc_id m) @ be64 (amount_msat m) @
     payment_sha256 m @ be32 (cltv_expiry m) @ buf_onion_reason m"

text \<open>
  The fields of the message, and the rest of the slot as \<open>base\<close> has it.
\<close>

definition update_add_htlc_wf :: "ln_update_add_htlc_t \<Rightarrow> bool" where
  "update_add_htlc_wf m \<longleftrightarrow>
     length (p_channel_id m) = LN_SZ_CHANNEL_ID \<and> length (payment_sha256 m) = BTC_SZ_HASH256 \<and>
     length (buf_onion_reason m) = LN_SZ_ONION_ROUTE \<and>
     m = htlc_zero\<lparr>p_channel_id := p_channel_id m, htlc_id := htlc_id m,
       amount_msat := amount_msat m, payment_sha256 := payment_sha256 m,
       cltv_expiry := cltv_expiry m, buf_onion_reason := buf_onion_reason m\<rparr>"

lemmas update_add_htlc_defs = ln_msg_update_add_htlc_create_def ln_msg_update_add_htlc_read_def
  update_add_htlc_wire_def update_add_htlc_wf_def

interpretation update_add_htlc: canonical_codec ln_msg_update_add_htlc_create
  "ln_msg_update_add_htlc_read htlc_zero" update_add_htlc_wire update_add_htlc_wf
  by unfold_locales (auto simp: update_add_htlc_defs wire get_Inr_iffs intro!: defined_intros)

section \<open>update_fulfill_htlc\<close>

record ln_update_fulfill_htlc_t =
  ful_channel_id :: bytes
  ful_id :: u64
  ful_preimage :: bytes

definition ln_msg_update_fulfill_htlc_create :: "ln_update_fulfill_htlc_t \<Rightarrow> utl_buf_t c_result" where
  "ln_msg_update_fulfill_htlc_create pMsg =
     msg_build (2 + 72)
       [P16 MSGTYPE_UPDATE_FULFILL_HTLC,
        PN (ful_channel_id pMsg) LN_SZ_CHANNEL_ID,
        P64 (ful_id pMsg),
        PN (ful_preimage pMsg) BTC_SZ_PRIVKEY]"

definition ln_msg_update_fulfill_htlc_read :: "bytes \<Rightarrow> ln_update_fulfill_htlc_t c_result" where
  "ln_msg_update_fulfill_htlc_read pData =
     check_c (\<not> length pData < 2 + 72) (
     get_u16 pData (\<lambda>type p.
     check_c (type = MSGTYPE_UPDATE_FULFILL_HTLC) (
     get_bytes LN_SZ_CHANNEL_ID p (\<lambda>channel_id p.
     get_u64 p (\<lambda>id p.
     get_bytes BTC_SZ_PRIVKEY p (\<lambda>preimage p.
     Inr \<lparr>ful_channel_id = channel_id, ful_id = id, ful_preimage = preimage\<rparr>))))))"

definition update_fulfill_htlc_wire :: "ln_update_fulfill_htlc_t \<Rightarrow> bytes" where
  "update_fulfill_htlc_wire m =
     be16 MSGTYPE_UPDATE_FULFILL_HTLC @ ful_channel_id m @ be64 (ful_id m) @ ful_preimage m"

definition update_fulfill_htlc_wf :: "ln_update_fulfill_htlc_t \<Rightarrow> bool" where
  "update_fulfill_htlc_wf m \<longleftrightarrow>
     length (ful_channel_id m) = LN_SZ_CHANNEL_ID \<and> length (ful_preimage m) = BTC_SZ_PRIVKEY"

lemmas update_fulfill_htlc_defs = ln_msg_update_fulfill_htlc_create_def
  ln_msg_update_fulfill_htlc_read_def update_fulfill_htlc_wire_def update_fulfill_htlc_wf_def

interpretation update_fulfill_htlc: canonical_codec ln_msg_update_fulfill_htlc_create
  ln_msg_update_fulfill_htlc_read update_fulfill_htlc_wire update_fulfill_htlc_wf
  by unfold_locales (auto simp: update_fulfill_htlc_defs wire get_Inr_iffs intro!: defined_intros)

section \<open>update_fail_htlc\<close>

record ln_update_fail_htlc_t =
  fail_channel_id :: bytes
  fail_id :: u64
  fail_reason :: bytes

text \<open>The length of the reason is pushed as a \<open>uint16_t\<close>, its bytes are pushed in full.\<close>

definition ln_msg_update_fail_htlc_create :: "ln_update_fail_htlc_t \<Rightarrow> utl_buf_t c_result" where
  "ln_msg_update_fail_htlc_create pMsg =
     msg_build (2 + 42 + length (fail_reason pMsg))
       [P16 MSGTYPE_UPDATE_FAIL_HTLC,
        PN (fail_channel_id pMsg) LN_SZ_CHANNEL_ID,
        P64 (fail_id pMsg),
        P16 (of_nat (length (fail_reason pMsg))),
        PN (fail_reason pMsg) (length (fail_reason pMsg))]"

definition ln_msg_update_fail_htlc_read :: "bytes \<Rightarrow> ln_update_fail_htlc_t c_result" where
  "ln_msg_update_fail_htlc_read pData =
     check_c (\<not> length pData < 2 + 42) (
     get_u16 pData (\<lambda>type p.
     check_c (type = MSGTYPE_UPDATE_FAIL_HTLC) (
     get_bytes LN_SZ_CHANNEL_ID p (\<lambda>channel_id p.
     get_u64 p (\<lambda>id p.
     get_u16 p (\<lambda>len p.
     check_c (\<not> length p < unat len) (
     get_bytes (unat len) p (\<lambda>reason p.
     Inr \<lparr>fail_channel_id = channel_id, fail_id = id, fail_reason = reason\<rparr>))))))))"

definition update_fail_htlc_wire :: "ln_update_fail_htlc_t \<Rightarrow> bytes" where
  "update_fail_htlc_wire m =
     be16 MSGTYPE_UPDATE_FAIL_HTLC @ fail_channel_id m @ be64 (fail_id m) @
     be16 (of_nat (length (fail_reason m))) @ fail_reason m"

definition update_fail_htlc_wf :: "ln_update_fail_htlc_t \<Rightarrow> bool" where
  "update_fail_htlc_wf m \<longleftrightarrow>
     length (fail_channel_id m) = LN_SZ_CHANNEL_ID \<and> length (fail_reason m) < 2 ^ 16"

lemmas update_fail_htlc_defs = ln_msg_update_fail_htlc_create_def
  ln_msg_update_fail_htlc_read_def update_fail_htlc_wire_def update_fail_htlc_wf_def

interpretation update_fail_htlc: canonical_codec ln_msg_update_fail_htlc_create
  ln_msg_update_fail_htlc_read update_fail_htlc_wire update_fail_htlc_wf
  by unfold_locales (auto simp: update_fail_htlc_defs wire get_Inr_iffs unat_u16_less
      intro!: defined_intros)

section \<open>commitment_signed\<close>

record ln_commit_signed_t =
  cs_channel_id :: bytes
  cs_signature :: bytes
  num_htlcs :: u16
  cs_htlc_signature :: bytes

definition ln_msg_commit_signed_create :: "ln_commit_signed_t \<Rightarrow> utl_buf_t c_result" where
  "ln_msg_commit_signed_create pMsg =
     msg_build (2 + 98 + unat (num_htlcs pMsg) * LN_SZ_SIGNATURE)
       [P16 MSGTYPE_COMMITMENT_SIGNED,
        PN (cs_channel_id pMsg) LN_SZ_CHANNEL_ID,
        PN (cs_signature pMsg) LN_SZ_SIGNATURE,
        P16 (num_htlcs pMsg),
        PN (cs_htlc_signature pMsg) (unat (num_htlcs pMsg) * LN_SZ_SIGNATURE)]"

definition ln_msg_commit_signed_read :: "bytes \<Rightarrow> ln_commit_signed_t c_result" where
  "ln_msg_commit_signed_read pData =
     check_c (\<not> length pData < 2 + 98) (
     get_u16 pData (\<lambda>type p.
     check_c (type = MSGTYPE_COMMITMENT_SIGNED) (
     get_bytes LN_SZ_CHANNEL_ID p (\<lambda>channel_id p.
     get_bytes LN_SZ_SIGNATURE p (\<lambda>signature p.
     get_u16 p (\<lambda>num p.
     get_bytes (unat num * LN_SZ_SIGNATURE) p (\<lambda>htlc_signature p.
     Inr \<lparr>cs_channel_id = channel_id, cs_signature = signature, num_htlcs = num,
       cs_htlc_signature = htlc_signature\<rparr>)))))))"

definition commit_signed_wire :: "ln_commit_signed_t \<Rightarrow> bytes" where
  "commit_signed_wire m =
     be16 MSGTYPE_COMMITMENT_SIGNED @ cs_channel_id m @ cs_signature m @ be16 (num_htlcs m) @
     cs_htlc_signature m"

definition commit_signed_wf :: "ln_commit_signed_t \<Rightarrow> bool" where
  "commit_signed_wf m \<longleftrightarrow>
     length (cs_channel_id m) = LN_SZ_CHANNEL_ID \<and> length (cs_signature m) = LN_SZ_SIGNATURE \<and>
     length (cs_htlc_signature m) = unat (num_htlcs m) * LN_SZ_SIGNATURE"

lemmas commit_signed_defs = ln_msg_commit_signed_create_def ln_msg_commit_signed_read_def
  commit_signed_wire_def commit_signed_wf_def

interpretation commit_signed: wire_codec ln_msg_commit_signed_create ln_msg_commit_signed_read
  commit_signed_wire commit_signed_wf
proof
  show "ln_msg_commit_signed_create m = Inr (buf_of (commit_signed_wire m))"
    if "commit_signed_wf m" for m
    using that unat_u16_less [of "num_htlcs m"] by (simp add: commit_signed_defs wire)
qed (simp add: commit_signed_defs wire)

text \<open>
  The reader of \<open>commitment_signed\<close> reads behind the end of the message exactly when the message
  has the fixed part of \<open>commitment_signed\<close> and \<open>num_htlcs\<close> announces more signatures than follow.
\<close>

theorem commit_signed_read_overrun_iff:
  "ln_msg_commit_signed_read d = Inl Read_Overrun \<longleftrightarrow>
     (\<exists>c s n q. d = be16 MSGTYPE_COMMITMENT_SIGNED @ c @ s @ be16 n @ q \<and>
        length c = LN_SZ_CHANNEL_ID \<and> length s = LN_SZ_SIGNATURE \<and>
        length q < unat n * LN_SZ_SIGNATURE)"
proof (cases "\<exists>c s n q. d = be16 MSGTYPE_COMMITMENT_SIGNED @ c @ s @ be16 n @ q \<and>
    length c = LN_SZ_CHANNEL_ID \<and> length s = LN_SZ_SIGNATURE")
  case True
  then obtain c s n q where d: "d = be16 MSGTYPE_COMMITMENT_SIGNED @ c @ s @ be16 n @ q"
    "length c = LN_SZ_CHANNEL_ID" "length s = LN_SZ_SIGNATURE" by blast
  then have "ln_msg_commit_signed_read d = Inl Read_Overrun \<longleftrightarrow> length q < unat n * 64"
    by (simp add: ln_msg_commit_signed_read_def wire get_bytes_def [of "unat n * 64"])
  then show ?thesis using d by auto
next
  case no: False
  have "ln_msg_commit_signed_read d = Inl Ret_False"
  proof (cases "length d < 100")
    case False
    then obtain v r where r: "d = be16 v @ r" using be16_cases [of d] by auto
    then obtain c p where p: "r = c @ p" "length c = 32"
      using False length_ge_append_conv [of 32 r] by auto
    then obtain s p' where p': "p = s @ p'" "length s = 64"
      using False r length_ge_append_conv [of 64 p] by auto
    then obtain n q where "p' = be16 n @ q" using False r p be16_cases [of p'] by auto
    with r p p' have "v \<noteq> MSGTYPE_COMMITMENT_SIGNED"
      using no by auto
    with r False show ?thesis by (simp add: ln_msg_commit_signed_read_def wire)
  qed (simp add: ln_msg_commit_signed_read_def)
  then show ?thesis using no by auto
qed

section \<open>revoke_and_ack\<close>

record ln_revoke_and_ack_t =
  ra_channel_id :: bytes
  per_commit_secret :: bytes
  per_commitpt :: bytes

definition ln_msg_revoke_and_ack_create :: "ln_revoke_and_ack_t \<Rightarrow> utl_buf_t c_result" where
  "ln_msg_revoke_and_ack_create pMsg =
     msg_build (2 + 97)
       [P16 MSGTYPE_REVOKE_AND_ACK,
        PN (ra_channel_id pMsg) LN_SZ_CHANNEL_ID,
        PN (per_commit_secret pMsg) BTC_SZ_PRIVKEY,
        PN (per_commitpt pMsg) BTC_SZ_PUBKEY]"

definition ln_msg_revoke_and_ack_read :: "bytes \<Rightarrow> ln_revoke_and_ack_t c_result" where
  "ln_msg_revoke_and_ack_read pData =
     check_c (\<not> length pData < 2 + 97) (
     get_u16 pData (\<lambda>type p.
     check_c (type = MSGTYPE_REVOKE_AND_ACK) (
     get_bytes LN_SZ_CHANNEL_ID p (\<lambda>channel_id p.
     get_bytes BTC_SZ_PRIVKEY p (\<lambda>secret p.
     get_bytes BTC_SZ_PUBKEY p (\<lambda>commitpt p.
     Inr \<lparr>ra_channel_id = channel_id, per_commit_secret = secret, per_commitpt = commitpt\<rparr>))))))"

definition revoke_and_ack_wire :: "ln_revoke_and_ack_t \<Rightarrow> bytes" where
  "revoke_and_ack_wire m =
     be16 MSGTYPE_REVOKE_AND_ACK @ ra_channel_id m @ per_commit_secret m @ per_commitpt m"

definition revoke_and_ack_wf :: "ln_revoke_and_ack_t \<Rightarrow> bool" where
  "revoke_and_ack_wf m \<longleftrightarrow>
     length (ra_channel_id m) = LN_SZ_CHANNEL_ID \<and> length (per_commit_secret m) = BTC_SZ_PRIVKEY \<and>
     length (per_commitpt m) = BTC_SZ_PUBKEY"

lemmas revoke_and_ack_defs = ln_msg_revoke_and_ack_create_def ln_msg_revoke_and_ack_read_def
  revoke_and_ack_wire_def revoke_and_ack_wf_def

interpretation revoke_and_ack: canonical_codec ln_msg_revoke_and_ack_create
  ln_msg_revoke_and_ack_read revoke_and_ack_wire revoke_and_ack_wf
  by unfold_locales (auto simp: revoke_and_ack_defs wire get_Inr_iffs intro!: defined_intros)

section \<open>update_fee\<close>

record ln_update_fee_t =
  fee_channel_id :: bytes
  fee_feerate_per_kw :: u32

definition ln_msg_update_fee_create :: "ln_update_fee_t \<Rightarrow> utl_buf_t c_result" where
  "ln_msg_update_fee_create pMsg =
     msg_build (2 + 36)
       [P16 MSGTYPE_UPDATE_FEE,
        PN (fee_channel_id pMsg) LN_SZ_CHANNEL_ID,
        P32 (fee_feerate_per_kw pMsg)]"

definition ln_msg_update_fee_read :: "bytes \<Rightarrow> ln_update_fee_t c_result" where
  "ln_msg_update_fee_read pData =
     check_c (\<not> length pData < 2 + 36) (
     get_u16 pData (\<lambda>type p.
     check_c (type = MSGTYPE_UPDATE_FEE) (
     get_bytes LN_SZ_CHANNEL_ID p (\<lambda>channel_id p.
     get_u32 p (\<lambda>feerate p.
     Inr \<lparr>fee_channel_id = channel_id, fee_feerate_per_kw = feerate\<rparr>)))))"

definition update_fee_wire :: "ln_update_fee_t \<Rightarrow> bytes" where
  "update_fee_wire m = be16 MSGTYPE_UPDATE_FEE @ fee_channel_id m @ be32 (fee_feerate_per_kw m)"

definition update_fee_wf :: "ln_update_fee_t \<Rightarrow> bool" where
  "update_fee_wf m \<longleftrightarrow> length (fee_channel_id m) = LN_SZ_CHANNEL_ID"

lemmas update_fee_defs = ln_msg_update_fee_create_def ln_msg_update_fee_read_def
  update_fee_wire_def update_fee_wf_def

interpretation update_fee: canonical_codec ln_msg_update_fee_create ln_msg_update_fee_read
  update_fee_wire update_fee_wf
  by unfold_locales (auto simp: update_fee_defs wire get_Inr_iffs intro!: defined_intros)

section \<open>update_fail_malformed_htlc\<close>

record ln_update_fail_malformed_htlc_t =
  mal_channel_id :: bytes
  mal_id :: u64
  sha256_onion :: bytes
  failure_code :: u16

definition ln_msg_update_fail_malformed_htlc_create ::
  "ln_update_fail_malformed_htlc_t \<Rightarrow> utl_buf_t c_result" where
  "ln_msg_update_fail_malformed_htlc_create pMsg =
     msg_build (2 + 74)
       [P16 MSGTYPE_UPDATE_FAIL_MALFORMED_HTLC,
        PN (mal_channel_id pMsg) LN_SZ_CHANNEL_ID,
        P64 (mal_id pMsg),
        PN (sha256_onion pMsg) BTC_SZ_HASH256,
        P16 (failure_code pMsg)]"

definition ln_msg_update_fail_malformed_htlc_read ::
  "bytes \<Rightarrow> ln_update_fail_malformed_htlc_t c_result" where
  "ln_msg_update_fail_malformed_htlc_read pData =
     check_c (\<not> length pData < 2 + 74) (
     get_u16 pData (\<lambda>type p.
     check_c (type = MSGTYPE_UPDATE_FAIL_MALFORMED_HTLC) (
     get_bytes LN_SZ_CHANNEL_ID p (\<lambda>channel_id p.
     get_u64 p (\<lambda>id p.
     get_bytes BTC_SZ_HASH256 p (\<lambda>sha256 p.
     get_u16 p (\<lambda>code p.
     Inr \<lparr>mal_channel_id = channel_id, mal_id = id, sha256_onion = sha256,
       failure_code = code\<rparr>)))))))"

definition update_fail_malformed_htlc_wire :: "ln_update_fail_malformed_htlc_t \<Rightarrow> bytes" where
  "update_fail_malformed_htlc_wire m =
     be16 MSGTYPE_UPDATE_FAIL_MALFORMED_HTLC @ mal_channel_id m @ be64 (mal_id m) @
     sha256_onion m @ be16 (failure_code m)"

definition update_fail_malformed_htlc_wf :: "ln_update_fail_malformed_htlc_t \<Rightarrow> bool" where
  "update_fail_malformed_htlc_wf m \<longleftrightarrow>
     length (mal_channel_id m) = LN_SZ_CHANNEL_ID \<and> length (sha256_onion m) = BTC_SZ_HASH256"

lemmas update_fail_malformed_htlc_defs = ln_msg_update_fail_malformed_htlc_create_def
  ln_msg_update_fail_malformed_htlc_read_def update_fail_malformed_htlc_wire_def
  update_fail_malformed_htlc_wf_def

interpretation update_fail_malformed_htlc: canonical_codec
  ln_msg_update_fail_malformed_htlc_create ln_msg_update_fail_malformed_htlc_read
  update_fail_malformed_htlc_wire update_fail_malformed_htlc_wf
  by unfold_locales
    (auto simp: update_fail_malformed_htlc_defs wire get_Inr_iffs intro!: defined_intros)

end
