(* ===== verification/Msg_Establish.thy ===== *)
theory Msg_Establish
  imports Ln_Const
begin

text \<open>
  \<^verbatim>\<open>ln/ln_msg_establish.c\<close>: the messages that open a channel and that re-establish it after a
  reconnection. The check of a public key (\<open>btc_keys_chkpub\<close>, in libsecp256k1) is the parameter
  \<open>chkpub\<close> and the chain hash of the genesis block (\<open>gGenesisChainHash\<close>, set by the application)
  the parameter \<open>genesis\<close>.
\<close>

section \<open>The six public keys\<close>

text \<open>
  \<open>open_channel\<close> and \<open>accept_channel\<close> share the loop over \<open>LN_FUNDIDX_MAX\<close> keys: the creator checks
  every key before it pushes it, the reader before it copies it.
\<close>

definition push_keys :: "bytes list \<Rightarrow> push_op list" where
  "push_keys keys = map (\<lambda>k. PN k BTC_SZ_PUBKEY) keys"

fun get_keys :: "(bytes \<Rightarrow> bool) \<Rightarrow> nat \<Rightarrow> bytes \<Rightarrow> (bytes list \<Rightarrow> bytes \<Rightarrow> 'a c_result) \<Rightarrow> 'a c_result"
where
  "get_keys chkpub 0 p k = k [] p"
| "get_keys chkpub (Suc n) p k =
     get_bytes BTC_SZ_PUBKEY p (\<lambda>key q.
     check_c (chkpub key) (
     get_keys chkpub n q (\<lambda>keys q. k (key # keys) q)))"

definition wf_keys :: "(bytes \<Rightarrow> bool) \<Rightarrow> nat \<Rightarrow> bytes list \<Rightarrow> bool" where
  "wf_keys chkpub n keys \<longleftrightarrow>
     length keys = n \<and> list_all (\<lambda>k. length k = BTC_SZ_PUBKEY \<and> chkpub k) keys"

lemma get_keys_append [wire]:
  "wf_keys chkpub n keys \<Longrightarrow> get_keys chkpub n (concat keys @ r) k = k keys r"
  by (induction n arbitrary: keys k)
     (auto simp: wf_keys_def wire length_Suc_conv)

lemma wf_keys_Suc: "wf_keys chkpub (Suc n) keys \<Longrightarrow> \<exists>key ks. keys = key # ks"
  by (auto simp: wf_keys_def length_Suc_conv)

lemma get_keys_Inr_iff:
  "get_keys chkpub n p k = Inr m \<longleftrightarrow>
     (\<exists>keys q. p = concat keys @ q \<and> wf_keys chkpub n keys \<and> k keys q = Inr m)"
proof (induction n arbitrary: p k)
  case (Suc n)
  have "get_keys chkpub (Suc n) p k = Inr m \<longleftrightarrow>
      (\<exists>key keys q. p = concat (key # keys) @ q \<and> wf_keys chkpub (Suc n) (key # keys) \<and>
        k (key # keys) q = Inr m)"
    by (auto simp: get_Inr_iffs Suc.IH wf_keys_def)
  also have "\<dots> \<longleftrightarrow> (\<exists>keys q. p = concat keys @ q \<and> wf_keys chkpub (Suc n) keys \<and> k keys q = Inr m)"
    using wf_keys_Suc by blast
  finally show ?case .
qed (auto simp: wf_keys_def)

lemma defined_get_keys:
  "33 * n \<le> length p \<Longrightarrow> (\<And>ks q. length p = 33 * n + length q \<Longrightarrow> defined_c (k ks q)) \<Longrightarrow>
     defined_c (get_keys chkpub n p k)"
proof (induction n arbitrary: p k)
  case (Suc n)
  then show ?case by (auto intro!: defined_intros Suc.IH)
qed simp

lemma op_bytes_push_keys [simp]:
  "wf_keys chkpub n keys \<Longrightarrow> concat (map op_bytes (push_keys keys)) = concat keys"
  by (induction keys arbitrary: n) (auto simp: wf_keys_def push_keys_def)

lemma list_all_push_keys [simp]:
  "wf_keys chkpub n keys \<Longrightarrow> list_all op_ok (push_keys keys)"
  by (auto simp: wf_keys_def push_keys_def list_all_iff)

lemma length_concat_keys [simp]: "wf_keys chkpub n keys \<Longrightarrow> length (concat keys) = 33 * n"
  by (induction keys arbitrary: n) (auto simp: wf_keys_def)

lemma wf_keys_take [simp]: "wf_keys chkpub n keys \<Longrightarrow> take n keys = keys"
  by (simp add: wf_keys_def)

lemma wf_keys_chkpub [simp]: "wf_keys chkpub n keys \<Longrightarrow> list_all chkpub keys"
  by (auto simp: wf_keys_def list_all_iff)

text \<open>
  \<open>option_upfront_shutdown_script\<close>: both readers look at a length that may follow and skip the
  script when it is there in full; neither keeps it.
\<close>

definition skip_shutdown :: "bytes \<Rightarrow> (bytes \<Rightarrow> 'a c_result) \<Rightarrow> 'a c_result" where
  "skip_shutdown p k =
     (if 2 \<le> length p
      then get_u16 p (\<lambda>shutdown_len p.
             k (if unat shutdown_len \<le> length p then drop (unat shutdown_len) p else p))
      else k p)"

lemma skip_shutdown_const [simp]: "skip_shutdown p (\<lambda>_. r) = r"
  using get_be_defined(1) [of p] by (auto simp: skip_shutdown_def get_u16_def)

section \<open>open_channel\<close>

record ln_open_channel_t =
  oc_temp_channel_id :: bytes
  oc_funding_sat :: u64
  oc_push_msat :: u64
  oc_dust_limit_sat :: u64
  oc_max_htlc_value_in_flight_msat :: u64
  oc_channel_reserve_sat :: u64
  oc_htlc_minimum_msat :: u64
  oc_feerate_per_kw :: u32
  oc_to_self_delay :: u16
  oc_max_accepted_htlcs :: u16
  oc_pubkeys :: "bytes list"
  oc_channel_flags :: byte

definition ln_msg_open_channel_create ::
  "(bytes \<Rightarrow> bool) \<Rightarrow> bytes \<Rightarrow> ln_open_channel_t \<Rightarrow> utl_buf_t c_result" where
  "ln_msg_open_channel_create chkpub genesis pMsg =
     check_c (\<not> (16777216 \<le> oc_funding_sat pMsg \<or>
                 LN_SATOSHI2MSAT (oc_funding_sat pMsg) < oc_push_msat pMsg \<or>
                 483 < oc_max_accepted_htlcs pMsg)) (
     check_c (list_all chkpub (take LN_FUNDIDX_MAX (oc_pubkeys pMsg))) (
     msg_build (2 + 319)
       ([P16 MSGTYPE_OPEN_CHANNEL,
         PN genesis BTC_SZ_HASH256,
         PN (oc_temp_channel_id pMsg) LN_SZ_CHANNEL_ID,
         P64 (oc_funding_sat pMsg),
         P64 (oc_push_msat pMsg),
         P64 (oc_dust_limit_sat pMsg),
         P64 (oc_max_htlc_value_in_flight_msat pMsg),
         P64 (oc_channel_reserve_sat pMsg),
         P64 (oc_htlc_minimum_msat pMsg),
         P32 (oc_feerate_per_kw pMsg),
         P16 (oc_to_self_delay pMsg),
         P16 (oc_max_accepted_htlcs pMsg)] @
        push_keys (take LN_FUNDIDX_MAX (oc_pubkeys pMsg)) @
        [P8 (oc_channel_flags pMsg)])))"

definition CHANNEL_FLAGS_MASK :: byte where "CHANNEL_FLAGS_MASK = 1"

definition ln_msg_open_channel_read ::
  "(bytes \<Rightarrow> bool) \<Rightarrow> bytes \<Rightarrow> bytes \<Rightarrow> ln_open_channel_t c_result" where
  "ln_msg_open_channel_read chkpub genesis pData =
     check_c (\<not> length pData < 2 + 319) (
     get_u16 pData (\<lambda>type p.
     check_c (type = MSGTYPE_OPEN_CHANNEL) (
     get_bytes BTC_SZ_HASH256 p (\<lambda>chain_hash p.
     check_c (chain_hash = genesis) (
     get_bytes LN_SZ_CHANNEL_ID p (\<lambda>temp_channel_id p.
     get_u64 p (\<lambda>funding_sat p.
     check_c (\<not> 16777216 \<le> funding_sat) (
     get_u64 p (\<lambda>push_msat p.
     check_c (\<not> LN_SATOSHI2MSAT funding_sat < push_msat) (
     get_u64 p (\<lambda>dust_limit_sat p.
     get_u64 p (\<lambda>max_in_flight p.
     get_u64 p (\<lambda>reserve p.
     get_u64 p (\<lambda>htlc_minimum p.
     get_u32 p (\<lambda>feerate p.
     get_u16 p (\<lambda>to_self_delay p.
     get_u16 p (\<lambda>max_accepted p.
     check_c (\<not> 483 < max_accepted) (
     get_keys chkpub LN_FUNDIDX_MAX p (\<lambda>pubkeys p.
     get_u8 p (\<lambda>flags p.
     check_c (flags AND NOT CHANNEL_FLAGS_MASK = 0) (
     skip_shutdown p (\<lambda>_.
     Inr \<lparr>oc_temp_channel_id = temp_channel_id, oc_funding_sat = funding_sat,
       oc_push_msat = push_msat, oc_dust_limit_sat = dust_limit_sat,
       oc_max_htlc_value_in_flight_msat = max_in_flight, oc_channel_reserve_sat = reserve,
       oc_htlc_minimum_msat = htlc_minimum, oc_feerate_per_kw = feerate,
       oc_to_self_delay = to_self_delay, oc_max_accepted_htlcs = max_accepted,
       oc_pubkeys = pubkeys, oc_channel_flags = flags\<rparr>))))))))))))))))))))))"

definition open_channel_wire :: "bytes \<Rightarrow> ln_open_channel_t \<Rightarrow> bytes" where
  "open_channel_wire genesis m =
     be16 MSGTYPE_OPEN_CHANNEL @ genesis @ oc_temp_channel_id m @ be64 (oc_funding_sat m) @
     be64 (oc_push_msat m) @ be64 (oc_dust_limit_sat m) @
     be64 (oc_max_htlc_value_in_flight_msat m) @ be64 (oc_channel_reserve_sat m) @
     be64 (oc_htlc_minimum_msat m) @ be32 (oc_feerate_per_kw m) @ be16 (oc_to_self_delay m) @
     be16 (oc_max_accepted_htlcs m) @ concat (oc_pubkeys m) @ [oc_channel_flags m]"

definition open_channel_wf :: "(bytes \<Rightarrow> bool) \<Rightarrow> bytes \<Rightarrow> ln_open_channel_t \<Rightarrow> bool" where
  "open_channel_wf chkpub genesis m \<longleftrightarrow>
     length genesis = BTC_SZ_HASH256 \<and> length (oc_temp_channel_id m) = LN_SZ_CHANNEL_ID \<and>
     \<not> 16777216 \<le> oc_funding_sat m \<and> \<not> LN_SATOSHI2MSAT (oc_funding_sat m) < oc_push_msat m \<and>
     \<not> 483 < oc_max_accepted_htlcs m \<and> wf_keys chkpub LN_FUNDIDX_MAX (oc_pubkeys m) \<and>
     oc_channel_flags m AND NOT CHANNEL_FLAGS_MASK = 0"

lemmas open_channel_defs = ln_msg_open_channel_create_def ln_msg_open_channel_read_def
  open_channel_wire_def open_channel_wf_def

interpretation open_channel: canonical_codec "ln_msg_open_channel_create chkpub genesis"
  "ln_msg_open_channel_read chkpub genesis" "open_channel_wire genesis"
  "open_channel_wf chkpub genesis" for chkpub genesis
proof
  fix m :: ln_open_channel_t and r d :: bytes
  show "ln_msg_open_channel_create chkpub genesis m = Inr (buf_of (open_channel_wire genesis m))"
    if "open_channel_wf chkpub genesis m"
    using that by (auto simp: open_channel_defs wire)
  show "ln_msg_open_channel_read chkpub genesis (open_channel_wire genesis m @ r) = Inr m"
    if "open_channel_wf chkpub genesis m"
    using that by (auto simp: open_channel_defs wire simp del: get_keys.simps)
  show "defined_c (ln_msg_open_channel_read chkpub genesis d)"
    by (auto simp: open_channel_defs Suc_le_eq intro!: defined_intros defined_get_keys)
  show "open_channel_wf chkpub genesis m \<and> (\<exists>r. d = open_channel_wire genesis m @ r)"
    if "ln_msg_open_channel_read chkpub genesis d = Inr m"
    using that unfolding open_channel_defs by (clarsimp simp: get_Inr_iffs get_keys_Inr_iff)
qed

section \<open>accept_channel\<close>

record ln_accept_channel_t =
  ac_temp_channel_id :: bytes
  ac_dust_limit_sat :: u64
  ac_max_htlc_value_in_flight_msat :: u64
  ac_channel_reserve_sat :: u64
  ac_htlc_minimum_msat :: u64
  ac_min_depth :: u32
  ac_to_self_delay :: u16
  ac_max_accepted_htlcs :: u16
  ac_pubkeys :: "bytes list"

definition ln_msg_accept_channel_create ::
  "(bytes \<Rightarrow> bool) \<Rightarrow> ln_accept_channel_t \<Rightarrow> utl_buf_t c_result" where
  "ln_msg_accept_channel_create chkpub pMsg =
     check_c (list_all chkpub (take LN_FUNDIDX_MAX (ac_pubkeys pMsg))) (
     msg_build (2 + 270)
       ([P16 MSGTYPE_ACCEPT_CHANNEL,
         PN (ac_temp_channel_id pMsg) LN_SZ_CHANNEL_ID,
         P64 (ac_dust_limit_sat pMsg),
         P64 (ac_max_htlc_value_in_flight_msat pMsg),
         P64 (ac_channel_reserve_sat pMsg),
         P64 (ac_htlc_minimum_msat pMsg),
         P32 (ac_min_depth pMsg),
         P16 (ac_to_self_delay pMsg),
         P16 (ac_max_accepted_htlcs pMsg)] @
        push_keys (take LN_FUNDIDX_MAX (ac_pubkeys pMsg))))"

definition ln_msg_accept_channel_read ::
  "(bytes \<Rightarrow> bool) \<Rightarrow> bytes \<Rightarrow> ln_accept_channel_t c_result" where
  "ln_msg_accept_channel_read chkpub pData =
     check_c (\<not> length pData < 2 + 270) (
     get_u16 pData (\<lambda>type p.
     check_c (type = MSGTYPE_ACCEPT_CHANNEL) (
     get_bytes LN_SZ_CHANNEL_ID p (\<lambda>temp_channel_id p.
     get_u64 p (\<lambda>dust_limit_sat p.
     get_u64 p (\<lambda>max_in_flight p.
     get_u64 p (\<lambda>reserve p.
     get_u64 p (\<lambda>htlc_minimum p.
     get_u32 p (\<lambda>min_depth p.
     get_u16 p (\<lambda>to_self_delay p.
     get_u16 p (\<lambda>max_accepted p.
     get_keys chkpub LN_FUNDIDX_MAX p (\<lambda>pubkeys p.
     skip_shutdown p (\<lambda>_.
     Inr \<lparr>ac_temp_channel_id = temp_channel_id, ac_dust_limit_sat = dust_limit_sat,
       ac_max_htlc_value_in_flight_msat = max_in_flight, ac_channel_reserve_sat = reserve,
       ac_htlc_minimum_msat = htlc_minimum, ac_min_depth = min_depth,
       ac_to_self_delay = to_self_delay, ac_max_accepted_htlcs = max_accepted,
       ac_pubkeys = pubkeys\<rparr>)))))))))))))"

definition accept_channel_wire :: "ln_accept_channel_t \<Rightarrow> bytes" where
  "accept_channel_wire m =
     be16 MSGTYPE_ACCEPT_CHANNEL @ ac_temp_channel_id m @ be64 (ac_dust_limit_sat m) @
     be64 (ac_max_htlc_value_in_flight_msat m) @ be64 (ac_channel_reserve_sat m) @
     be64 (ac_htlc_minimum_msat m) @ be32 (ac_min_depth m) @ be16 (ac_to_self_delay m) @
     be16 (ac_max_accepted_htlcs m) @ concat (ac_pubkeys m)"

definition accept_channel_wf :: "(bytes \<Rightarrow> bool) \<Rightarrow> ln_accept_channel_t \<Rightarrow> bool" where
  "accept_channel_wf chkpub m \<longleftrightarrow>
     length (ac_temp_channel_id m) = LN_SZ_CHANNEL_ID \<and>
     wf_keys chkpub LN_FUNDIDX_MAX (ac_pubkeys m)"

lemmas accept_channel_defs = ln_msg_accept_channel_create_def ln_msg_accept_channel_read_def
  accept_channel_wire_def accept_channel_wf_def

interpretation accept_channel: canonical_codec "ln_msg_accept_channel_create chkpub"
  "ln_msg_accept_channel_read chkpub" accept_channel_wire "accept_channel_wf chkpub" for chkpub
proof
  fix m :: ln_accept_channel_t and r d :: bytes
  show "ln_msg_accept_channel_create chkpub m = Inr (buf_of (accept_channel_wire m))"
    if "accept_channel_wf chkpub m"
    using that by (auto simp: accept_channel_defs wire)
  show "ln_msg_accept_channel_read chkpub (accept_channel_wire m @ r) = Inr m"
    if "accept_channel_wf chkpub m"
    using that by (auto simp: accept_channel_defs wire)
  show "defined_c (ln_msg_accept_channel_read chkpub d)"
    by (auto simp: accept_channel_defs intro!: defined_intros defined_get_keys)
  show "accept_channel_wf chkpub m \<and> (\<exists>r. d = accept_channel_wire m @ r)"
    if "ln_msg_accept_channel_read chkpub d = Inr m"
    using that by (auto simp: accept_channel_defs get_Inr_iffs get_keys_Inr_iff)
qed

section \<open>funding_created\<close>

record ln_funding_created_t =
  fc_temp_channel_id :: bytes
  fc_funding_txid :: bytes
  fc_funding_output_idx :: u16
  fc_signature :: bytes

definition ln_msg_funding_created_create :: "ln_funding_created_t \<Rightarrow> utl_buf_t c_result" where
  "ln_msg_funding_created_create pMsg =
     msg_build (2 + 130)
       [P16 MSGTYPE_FUNDING_CREATED,
        PN (fc_temp_channel_id pMsg) LN_SZ_CHANNEL_ID,
        PN (fc_funding_txid pMsg) BTC_SZ_TXID,
        P16 (fc_funding_output_idx pMsg),
        PN (fc_signature pMsg) LN_SZ_SIGNATURE]"

definition ln_msg_funding_created_read :: "bytes \<Rightarrow> ln_funding_created_t c_result" where
  "ln_msg_funding_created_read pData =
     check_c (\<not> length pData < 2 + 130) (
     get_u16 pData (\<lambda>type p.
     check_c (type = MSGTYPE_FUNDING_CREATED) (
     get_bytes LN_SZ_CHANNEL_ID p (\<lambda>temp_channel_id p.
     get_bytes BTC_SZ_TXID p (\<lambda>txid p.
     get_u16 p (\<lambda>idx p.
     get_bytes LN_SZ_SIGNATURE p (\<lambda>signature p.
     Inr \<lparr>fc_temp_channel_id = temp_channel_id, fc_funding_txid = txid,
       fc_funding_output_idx = idx, fc_signature = signature\<rparr>)))))))"

definition funding_created_wire :: "ln_funding_created_t \<Rightarrow> bytes" where
  "funding_created_wire m =
     be16 MSGTYPE_FUNDING_CREATED @ fc_temp_channel_id m @ fc_funding_txid m @
     be16 (fc_funding_output_idx m) @ fc_signature m"

definition funding_created_wf :: "ln_funding_created_t \<Rightarrow> bool" where
  "funding_created_wf m \<longleftrightarrow>
     length (fc_temp_channel_id m) = LN_SZ_CHANNEL_ID \<and> length (fc_funding_txid m) = BTC_SZ_TXID \<and>
     length (fc_signature m) = LN_SZ_SIGNATURE"

lemmas funding_created_defs = ln_msg_funding_created_create_def ln_msg_funding_created_read_def
  funding_created_wire_def funding_created_wf_def

interpretation funding_created: canonical_codec ln_msg_funding_created_create
  ln_msg_funding_created_read funding_created_wire funding_created_wf
  by unfold_locales (auto simp: funding_created_defs wire get_Inr_iffs intro!: defined_intros)

section \<open>funding_signed\<close>

record ln_funding_signed_t =
  fs_channel_id :: bytes
  fs_signature :: bytes

definition ln_msg_funding_signed_create :: "ln_funding_signed_t \<Rightarrow> utl_buf_t c_result" where
  "ln_msg_funding_signed_create pMsg =
     msg_build (2 + 96)
       [P16 MSGTYPE_FUNDING_SIGNED,
        PN (fs_channel_id pMsg) LN_SZ_CHANNEL_ID,
        PN (fs_signature pMsg) LN_SZ_SIGNATURE]"

definition ln_msg_funding_signed_read :: "bytes \<Rightarrow> ln_funding_signed_t c_result" where
  "ln_msg_funding_signed_read pData =
     check_c (\<not> length pData < 2 + 96) (
     get_u16 pData (\<lambda>type p.
     check_c (type = MSGTYPE_FUNDING_SIGNED) (
     get_bytes LN_SZ_CHANNEL_ID p (\<lambda>channel_id p.
     get_bytes LN_SZ_SIGNATURE p (\<lambda>signature p.
     Inr \<lparr>fs_channel_id = channel_id, fs_signature = signature\<rparr>)))))"

definition funding_signed_wire :: "ln_funding_signed_t \<Rightarrow> bytes" where
  "funding_signed_wire m = be16 MSGTYPE_FUNDING_SIGNED @ fs_channel_id m @ fs_signature m"

definition funding_signed_wf :: "ln_funding_signed_t \<Rightarrow> bool" where
  "funding_signed_wf m \<longleftrightarrow>
     length (fs_channel_id m) = LN_SZ_CHANNEL_ID \<and> length (fs_signature m) = LN_SZ_SIGNATURE"

lemmas funding_signed_defs = ln_msg_funding_signed_create_def ln_msg_funding_signed_read_def
  funding_signed_wire_def funding_signed_wf_def

interpretation funding_signed: canonical_codec ln_msg_funding_signed_create
  ln_msg_funding_signed_read funding_signed_wire funding_signed_wf
  by unfold_locales (auto simp: funding_signed_defs wire get_Inr_iffs intro!: defined_intros)

section \<open>funding_locked\<close>

record ln_funding_locked_t =
  fl_channel_id :: bytes
  fl_per_commitpt :: bytes

definition ln_msg_funding_locked_create :: "ln_funding_locked_t \<Rightarrow> utl_buf_t c_result" where
  "ln_msg_funding_locked_create pMsg =
     msg_build (2 + 65)
       [P16 MSGTYPE_FUNDING_LOCKED,
        PN (fl_channel_id pMsg) LN_SZ_CHANNEL_ID,
        PN (fl_per_commitpt pMsg) BTC_SZ_PUBKEY]"

definition ln_msg_funding_locked_read :: "bytes \<Rightarrow> ln_funding_locked_t c_result" where
  "ln_msg_funding_locked_read pData =
     check_c (\<not> length pData < 2 + 65) (
     get_u16 pData (\<lambda>type p.
     check_c (type = MSGTYPE_FUNDING_LOCKED) (
     get_bytes LN_SZ_CHANNEL_ID p (\<lambda>channel_id p.
     get_bytes BTC_SZ_PUBKEY p (\<lambda>commitpt p.
     Inr \<lparr>fl_channel_id = channel_id, fl_per_commitpt = commitpt\<rparr>)))))"

definition funding_locked_wire :: "ln_funding_locked_t \<Rightarrow> bytes" where
  "funding_locked_wire m = be16 MSGTYPE_FUNDING_LOCKED @ fl_channel_id m @ fl_per_commitpt m"

definition funding_locked_wf :: "ln_funding_locked_t \<Rightarrow> bool" where
  "funding_locked_wf m \<longleftrightarrow>
     length (fl_channel_id m) = LN_SZ_CHANNEL_ID \<and> length (fl_per_commitpt m) = BTC_SZ_PUBKEY"

lemmas funding_locked_defs = ln_msg_funding_locked_create_def ln_msg_funding_locked_read_def
  funding_locked_wire_def funding_locked_wf_def

interpretation funding_locked: canonical_codec ln_msg_funding_locked_create
  ln_msg_funding_locked_read funding_locked_wire funding_locked_wf
  by unfold_locales (auto simp: funding_locked_defs wire get_Inr_iffs intro!: defined_intros)

section \<open>channel_reestablish\<close>

record ln_channel_reestablish_t =
  re_channel_id :: bytes
  next_local_commitment_number :: u64
  next_remote_revocation_number :: u64
  option_data_loss_protect :: bool
  your_last_per_commitment_secret :: bytes
  my_current_per_commitment_point :: bytes

definition ln_msg_channel_reestablish_create :: "ln_channel_reestablish_t \<Rightarrow> utl_buf_t c_result" where
  "ln_msg_channel_reestablish_create pMsg =
     msg_build (if option_data_loss_protect pMsg then 2 + 48 + 65 else 2 + 48)
       ([P16 MSGTYPE_CHANNEL_REESTABLISH,
         PN (re_channel_id pMsg) LN_SZ_CHANNEL_ID,
         P64 (next_local_commitment_number pMsg),
         P64 (next_remote_revocation_number pMsg)] @
        (if option_data_loss_protect pMsg
         then [PN (your_last_per_commitment_secret pMsg) BTC_SZ_PRIVKEY,
               PN (my_current_per_commitment_point pMsg) BTC_SZ_PUBKEY]
         else []))"

text \<open>
  The reader takes the optional fields from the length of the message alone; it leaves their old
  content in \<open>pMsg\<close> when they are absent.
\<close>

definition ln_msg_channel_reestablish_read ::
  "ln_channel_reestablish_t \<Rightarrow> bytes \<Rightarrow> ln_channel_reestablish_t c_result" where
  "ln_msg_channel_reestablish_read pMsg pData =
     check_c (\<not> length pData < 2 + 48) (
     let option_dlp = 2 + 113 \<le> length pData in
     get_u16 pData (\<lambda>type p.
     check_c (type = MSGTYPE_CHANNEL_REESTABLISH) (
     get_bytes LN_SZ_CHANNEL_ID p (\<lambda>channel_id p.
     get_u64 p (\<lambda>next_local p.
     get_u64 p (\<lambda>next_remote p.
     let m = pMsg\<lparr>re_channel_id := channel_id, next_local_commitment_number := next_local,
               next_remote_revocation_number := next_remote,
               option_data_loss_protect := option_dlp\<rparr> in
     if option_dlp then
       (let secret_k = (\<lambda>m p.
          if BTC_SZ_PUBKEY \<le> length p
          then get_bytes BTC_SZ_PUBKEY p (\<lambda>pt p. Inr (m\<lparr>my_current_per_commitment_point := pt\<rparr>))
          else Inr m) in
        if BTC_SZ_PRIVKEY \<le> length p
        then get_bytes BTC_SZ_PRIVKEY p (\<lambda>secret p.
               secret_k (m\<lparr>your_last_per_commitment_secret := secret\<rparr>) p)
        else secret_k m p)
     else Inr m))))))"

definition channel_reestablish_wire :: "ln_channel_reestablish_t \<Rightarrow> bytes" where
  "channel_reestablish_wire m =
     be16 MSGTYPE_CHANNEL_REESTABLISH @ re_channel_id m @ be64 (next_local_commitment_number m) @
     be64 (next_remote_revocation_number m) @
     (if option_data_loss_protect m
      then your_last_per_commitment_secret m @ my_current_per_commitment_point m else [])"

text \<open>
  The messages with \<open>option_data_loss_protect\<close>: only for these does the reader ignore whatever
  follows the message.
\<close>

definition channel_reestablish_wf :: "ln_channel_reestablish_t \<Rightarrow> bool" where
  "channel_reestablish_wf m \<longleftrightarrow>
     length (re_channel_id m) = LN_SZ_CHANNEL_ID \<and> option_data_loss_protect m \<and>
     length (your_last_per_commitment_secret m) = BTC_SZ_PRIVKEY \<and>
     length (my_current_per_commitment_point m) = BTC_SZ_PUBKEY"

lemmas channel_reestablish_defs = ln_msg_channel_reestablish_create_def
  ln_msg_channel_reestablish_read_def channel_reestablish_wire_def channel_reestablish_wf_def

interpretation channel_reestablish: wire_codec ln_msg_channel_reestablish_create
  "ln_msg_channel_reestablish_read base" channel_reestablish_wire channel_reestablish_wf for base
  by unfold_locales (auto simp: channel_reestablish_defs wire Let_def)

interpretation channel_reestablish: total_reader "ln_msg_channel_reestablish_read base" for base
  by unfold_locales
    (auto simp: channel_reestablish_defs Let_def intro!: defined_intros)

text \<open>
  Without the option the round trip holds as long as fewer than 65 bytes follow; the optional
  fields keep what the receiver had there.
\<close>

lemma channel_reestablish_no_option:
  assumes "length (re_channel_id m) = LN_SZ_CHANNEL_ID" "\<not> option_data_loss_protect m" "length r < 65"
  shows "ln_msg_channel_reestablish_create m = Inr (buf_of (channel_reestablish_wire m))"
    "ln_msg_channel_reestablish_read base (channel_reestablish_wire m @ r) =
       Inr (m\<lparr>your_last_per_commitment_secret := your_last_per_commitment_secret base,
              my_current_per_commitment_point := my_current_per_commitment_point base\<rparr>)"
  using assms by (auto simp: channel_reestablish_defs wire Let_def)

end
