(* ===== verification/Msg_Anno.thy ===== *)
theory Msg_Anno
  imports Ln_Const
begin

text \<open>
  \<^verbatim>\<open>ln/ln_msg_anno.c\<close>: the gossip messages \<open>channel_announcement\<close>, \<open>node_announcement\<close>,
  \<open>channel_update\<close> and \<open>announcement_signatures\<close>. What lies in the crypto libraries is a parameter:
  \<open>hash256\<close> is \<open>btc_util_hash256\<close>, \<open>verify_rs sig hash pub\<close> is \<open>btc_tx_verify_rs\<close>,
  \<open>sign_node\<close> and \<open>sign_btc\<close> are \<open>ln_node_sign_nodekey\<close> and \<open>ln_signer_sign_rs\<close> (\<open>None\<close> when
  they return \<open>false\<close>), and \<open>genesis\<close> is the global \<open>gGenesisChainHash\<close>. A signature area that the
  source skips before it signs has the content \<open>junk\<close>.
\<close>

datatype btc_keys_sort_t = BTC_KEYS_SORT_ASC | BTC_KEYS_SORT_OTHER

text \<open>The bytes of a finished message; reading an indeterminate byte has no defined result.\<close>

definition with_bytes :: "utl_buf_t c_result \<Rightarrow> (bytes \<Rightarrow> 'a c_result) \<Rightarrow> 'a c_result" where
  "with_bytes b k =
     bind_c b (\<lambda>b. case buf_bytes b of Some xs \<Rightarrow> k xs | None \<Rightarrow> Inl Read_Overrun)"

lemma with_bytes_buf_of [simp]: "with_bytes (Inr (buf_of xs)) k = k xs"
  by (simp add: with_bytes_def)

section \<open>channel_announcement\<close>

record ln_cnl_announce_create_t =
  ca_short_channel_id :: u64
  p_my_node_pub :: bytes
  p_my_funding_pub :: bytes
  p_peer_node_pub :: bytes
  p_peer_funding_pub :: bytes
  ca_sort :: btc_keys_sort_t

text \<open>
  Signing fills the two signatures of the own node. The result carries the message beside the
  returned truth value, because a failing \<open>sign_btc\<close> leaves the node signature behind.
\<close>

definition cnl_announce_sign ::
  "(bytes \<Rightarrow> bytes) \<Rightarrow> (bytes \<Rightarrow> bytes option) \<Rightarrow> (bytes \<Rightarrow> bytes option) \<Rightarrow>
   bytes \<Rightarrow> btc_keys_sort_t \<Rightarrow> (bool \<times> bytes) c_result" where
  "cnl_announce_sign hash256 sign_node sign_btc pData Sort =
     (let offset_sig = (if Sort = BTC_KEYS_SORT_ASC then 0 else LN_SZ_SIGNATURE) in
      if length pData < 2 + LN_SZ_SIGNATURE * 4 then Inl Read_Overrun
      else
        (let hash = hash256 (drop (2 + LN_SZ_SIGNATURE * 4) pData) in
         case sign_node hash of
           None \<Rightarrow> Inr (False, pData)
         | Some sig \<Rightarrow>
             bind_c (put_bytes pData (2 + offset_sig) sig) (\<lambda>pData.
             case sign_btc hash of
               None \<Rightarrow> Inr (False, pData)
             | Some sig \<Rightarrow>
                 bind_c (put_bytes pData (2 + offset_sig + LN_SZ_SIGNATURE * 2) sig) (\<lambda>pData.
                 Inr (True, pData)))))"

definition ln_msg_cnl_announce_create ::
  "bytes \<Rightarrow> (bytes \<Rightarrow> bytes) \<Rightarrow> (bytes \<Rightarrow> bytes option) \<Rightarrow> (bytes \<Rightarrow> bytes option) \<Rightarrow>
   ln_cnl_announce_create_t \<Rightarrow> (bool \<times> bytes) c_result" where
  "ln_msg_cnl_announce_create genesis hash256 sign_node sign_btc pMsg =
     (let (p_node_1, p_node_2, p_btc_1, p_btc_2) =
        (if ca_sort pMsg = BTC_KEYS_SORT_ASC
         then (p_my_node_pub pMsg, p_peer_node_pub pMsg, p_my_funding_pub pMsg,
               p_peer_funding_pub pMsg)
         else (p_peer_node_pub pMsg, p_my_node_pub pMsg, p_peer_funding_pub pMsg,
               p_my_funding_pub pMsg)) in
      with_bytes (msg_build (2 + 430)
        [P16 MSGTYPE_CHANNEL_ANNOUNCEMENT,
         PF (replicate (LN_SZ_SIGNATURE * 4) 0xcc),
         P16 0,
         PN genesis BTC_SZ_HASH256,
         P64 (ca_short_channel_id pMsg),
         PN p_node_1 BTC_SZ_PUBKEY,
         PN p_node_2 BTC_SZ_PUBKEY,
         PN p_btc_1 BTC_SZ_PUBKEY,
         PN p_btc_2 BTC_SZ_PUBKEY]) (\<lambda>buf.
      cnl_announce_sign hash256 sign_node sign_btc buf (ca_sort pMsg)))"

record cnl_announce_ptr_t =
  ptr_node_signature1 :: bytes
  ptr_node_signature2 :: bytes
  ptr_btc_signature1 :: bytes
  ptr_btc_signature2 :: bytes
  ptr_short_channel_id :: u64
  ptr_node_id1 :: bytes
  ptr_node_id2 :: bytes
  ptr_btc_key1 :: bytes
  ptr_btc_key2 :: bytes

text \<open>
  The source records pointers into the message and returns \<open>Len == pos\<close>; only then do its callers
  follow them. A \<open>short_channel_id\<close> of 0 is logged and nothing else.
\<close>

definition cnl_announce_ptr :: "bytes \<Rightarrow> bytes \<Rightarrow> cnl_announce_ptr_t c_result" where
  "cnl_announce_ptr genesis pData =
     get_bytes 2 pData (\<lambda>_ p.
     get_bytes LN_SZ_SIGNATURE p (\<lambda>node_signature1 p.
     get_bytes LN_SZ_SIGNATURE p (\<lambda>node_signature2 p.
     get_bytes LN_SZ_SIGNATURE p (\<lambda>btc_signature1 p.
     get_bytes LN_SZ_SIGNATURE p (\<lambda>btc_signature2 p.
     get_u16 p (\<lambda>len p.
     get_bytes (unat len) p (\<lambda>features p.
     get_bytes BTC_SZ_HASH256 p (\<lambda>chain_hash p.
     check_c (chain_hash = genesis) (
     get_u64 p (\<lambda>short_channel_id p.
     check_c (length p = 4 * BTC_SZ_PUBKEY) (
     get_bytes BTC_SZ_PUBKEY p (\<lambda>node_id1 p.
     get_bytes BTC_SZ_PUBKEY p (\<lambda>node_id2 p.
     get_bytes BTC_SZ_PUBKEY p (\<lambda>btc_key1 p.
     get_bytes BTC_SZ_PUBKEY p (\<lambda>btc_key2 p.
     Inr \<lparr>ptr_node_signature1 = node_signature1, ptr_node_signature2 = node_signature2,
       ptr_btc_signature1 = btc_signature1, ptr_btc_signature2 = btc_signature2,
       ptr_short_channel_id = short_channel_id, ptr_node_id1 = node_id1, ptr_node_id2 = node_id2,
       ptr_btc_key1 = btc_key1, ptr_btc_key2 = btc_key2\<rparr>)))))))))))))))"

record ln_cnl_announce_read_t =
  car_short_channel_id :: u64
  car_node_id1 :: bytes
  car_node_id2 :: bytes
  car_btc_key1 :: bytes
  car_btc_key2 :: bytes

definition ln_msg_cnl_announce_read :: "bytes \<Rightarrow> bytes \<Rightarrow> ln_cnl_announce_read_t c_result" where
  "ln_msg_cnl_announce_read genesis pData =
     check_c (\<not> length pData < 2 + 430) (
     get_u16 pData (\<lambda>type _.
     check_c (type = MSGTYPE_CHANNEL_ANNOUNCEMENT) (
     bind_c (cnl_announce_ptr genesis pData) (\<lambda>ptr.
     Inr \<lparr>car_short_channel_id = ptr_short_channel_id ptr, car_node_id1 = ptr_node_id1 ptr,
       car_node_id2 = ptr_node_id2 ptr, car_btc_key1 = ptr_btc_key1 ptr,
       car_btc_key2 = ptr_btc_key2 ptr\<rparr>))))"

definition ln_msg_cnl_announce_verify ::
  "bytes \<Rightarrow> (bytes \<Rightarrow> bytes) \<Rightarrow> (bytes \<Rightarrow> bytes \<Rightarrow> bytes \<Rightarrow> bool) \<Rightarrow> bytes \<Rightarrow> unit c_result" where
  "ln_msg_cnl_announce_verify genesis hash256 verify_rs pData =
     bind_c (cnl_announce_ptr genesis pData) (\<lambda>ptr.
     let hash = hash256 (drop (2 + LN_SZ_SIGNATURE * 4) pData) in
     assert_c (verify_rs (ptr_node_signature1 ptr) hash (ptr_node_id1 ptr)) (
     assert_c (verify_rs (ptr_node_signature2 ptr) hash (ptr_node_id2 ptr)) (
     assert_c (verify_rs (ptr_btc_signature1 ptr) hash (ptr_btc_key1 ptr)) (
     assert_c (verify_rs (ptr_btc_signature2 ptr) hash (ptr_btc_key2 ptr)) (
     Inr ())))))"

text \<open>The places of the two signatures of one side, as offsets into \<open>self->cnl_anno.buf\<close>.\<close>

definition ln_msg_get_anno_signs :: "bool \<Rightarrow> btc_keys_sort_t \<Rightarrow> nat \<times> nat" where
  "ln_msg_get_anno_signs bLocal Sort =
     (let sig_node = (if (Sort = BTC_KEYS_SORT_ASC \<and> bLocal) \<or> (Sort \<noteq> BTC_KEYS_SORT_ASC \<and> \<not> bLocal)
                      then 2 else 2 + LN_SZ_SIGNATURE)
      in (sig_node, sig_node + LN_SZ_SIGNATURE * 2))"

definition ln_msg_cnl_announce_update_short_cnl_id ::
  "(bytes \<Rightarrow> bytes) \<Rightarrow> (bytes \<Rightarrow> bytes option) \<Rightarrow> (bytes \<Rightarrow> bytes option) \<Rightarrow>
   bytes \<Rightarrow> u64 \<Rightarrow> btc_keys_sort_t \<Rightarrow> (bool \<times> bytes) c_result" where
  "ln_msg_cnl_announce_update_short_cnl_id hash256 sign_node sign_btc pData ShortChannelId Sort =
     (let pos = 2 + LN_SZ_SIGNATURE * 4 in
      bind_c (ln_misc_get16be (drop pos pData)) (\<lambda>len.
      bind_c (put_bytes pData (pos + 2 + unat len + BTC_SZ_HASH256) (be64 ShortChannelId)) (\<lambda>pData.
      cnl_announce_sign hash256 sign_node sign_btc pData Sort)))"

section \<open>node_announcement\<close>

definition M_ADDRLEN :: "nat list" where "M_ADDRLEN = [0, 4, 16, 10, 35]"
definition M_ADDRLEN2 :: "nat list" where "M_ADDRLEN2 = [0, 6, 18, 12, 37]"
definition LN_NODEDESC_NONE :: byte where "LN_NODEDESC_NONE = 0"
definition LN_NODEDESC_MAX :: byte where "LN_NODEDESC_MAX = 4"
definition LN_SZ_ALIAS :: nat where [simp]: "LN_SZ_ALIAS = 32"

record ln_nodeaddr_t =
  na_type :: byte
  na_port :: u16
  na_addr :: bytes

text \<open>
  \<open>nod_node_id\<close> and \<open>nod_alias\<close> are the objects that \<open>p_node_id\<close> and \<open>p_alias\<close> point to, \<open>None\<close>
  for a NULL pointer. An alias is a C string of up to \<open>LN_SZ_ALIAS\<close> characters.
\<close>

record ln_node_announce_t =
  nod_timestamp :: u32
  nod_node_id :: "bytes option"
  nod_alias :: "bytes option"
  nod_rgbcolor :: bytes
  nod_addr :: ln_nodeaddr_t

text \<open>
  The creator builds a copy of the alias that is padded with zeros, but pushes the \<open>LN_SZ_ALIAS\<close>
  bytes at \<open>p_alias\<close>; \<open>strlen\<close> needs a NUL in the object. A type above \<open>LN_NODEDESC_MAX\<close> indexes
  \<open>M_ADDRLEN2\<close> out of bounds before the \<open>switch\<close> can refuse it.
\<close>

definition ln_msg_node_announce_create ::
  "(bytes \<Rightarrow> bytes) \<Rightarrow> (bytes \<Rightarrow> bytes option) \<Rightarrow> bytes \<Rightarrow> ln_node_announce_t \<Rightarrow> bytes c_result" where
  "ln_msg_node_announce_create hash256 sign_node junk pMsg =
     (case (nod_node_id pMsg, nod_alias pMsg) of
        (Some node_id, Some alias) \<Rightarrow>
          (let type = na_type (nod_addr pMsg) in
           if LN_NODEDESC_MAX < type \<or> 0 \<notin> set alias then Inl Read_Overrun
           else
             with_bytes (msg_build (2 + 141 + M_ADDRLEN2 ! unat type)
               ([P16 MSGTYPE_NODE_ANNOUNCEMENT,
                 PF junk,
                 P16 0,
                 P32 (nod_timestamp pMsg),
                 PN node_id BTC_SZ_PUBKEY,
                 PN (nod_rgbcolor pMsg) 3,
                 PN alias LN_SZ_ALIAS] @
                (if type = LN_NODEDESC_NONE then [P16 0]
                 else [P16 (of_nat (1 + M_ADDRLEN2 ! unat type)),
                       P8 type,
                       PN (na_addr (nod_addr pMsg)) (M_ADDRLEN ! unat type),
                       P16 (na_port (nod_addr pMsg))]))) (\<lambda>buf.
             let hash = hash256 (drop (2 + LN_SZ_SIGNATURE) buf) in
             case sign_node hash of None \<Rightarrow> Inl Ret_False | Some sig \<Rightarrow> put_bytes buf 2 sig))
      | _ \<Rightarrow> Inl Null_Deref)"

text \<open>
  The reader leaves what it does not read as \<open>pMsg\<close> has it. \<open>pos += addrlen\<close> may move behind the
  end of the message; then the assertion fails.
\<close>

definition ln_msg_node_announce_read ::
  "(bytes \<Rightarrow> bytes) \<Rightarrow> (bytes \<Rightarrow> bytes \<Rightarrow> bytes \<Rightarrow> bool) \<Rightarrow> ln_node_announce_t \<Rightarrow> bytes \<Rightarrow>
   ln_node_announce_t c_result" where
  "ln_msg_node_announce_read hash256 verify_rs pMsg pData =
     check_c (\<not> length pData < 2 + 140) (
     get_u16 pData (\<lambda>type p.
     check_c (type = MSGTYPE_NODE_ANNOUNCEMENT) (
     get_bytes LN_SZ_SIGNATURE p (\<lambda>signature signed.
     get_u16 signed (\<lambda>flen p.
     get_bytes (unat flen) p (\<lambda>_ p.
     get_u32 p (\<lambda>timestamp p.
     get_bytes BTC_SZ_PUBKEY p (\<lambda>node_id p.
     get_bytes 3 p (\<lambda>rgbcolor p.
     get_bytes LN_SZ_ALIAS p (\<lambda>alias p.
     get_u16 p (\<lambda>addrlen p.
     let m = pMsg\<lparr>nod_timestamp := timestamp, nod_rgbcolor := rgbcolor,
               nod_node_id := map_option (\<lambda>_. node_id) (nod_node_id pMsg),
               nod_alias := map_option (\<lambda>_. alias @ [0]) (nod_alias pMsg)\<rparr>;
         finish = (\<lambda>m (p :: bytes) n.
           assert_c (n \<le> length p) (
           if nod_node_id m \<noteq> None
           then check_c (verify_rs signature
                  (hash256 (take (length signed - (length p - n)) signed)) node_id) (Inr m)
           else Inr m)) in
     if 0 < addrlen then
       get_u8 p (\<lambda>desc p.
       check_c (\<not> LN_NODEDESC_MAX < desc) (
       let n = unat addrlen - 1 in
       check_c (\<not> n < M_ADDRLEN2 ! unat desc) (
       if desc \<noteq> LN_NODEDESC_NONE then
         get_bytes (M_ADDRLEN ! unat desc) p (\<lambda>addr q.
         get_u16 q (\<lambda>port _.
         finish (m\<lparr>nod_addr := \<lparr>na_type = desc, na_port = port, na_addr = addr\<rparr>\<rparr>) p n))
       else finish (m\<lparr>nod_addr := (nod_addr m)\<lparr>na_type := desc\<rparr>\<rparr>) p n)))
     else finish (m\<lparr>nod_addr := (nod_addr m)\<lparr>na_type := LN_NODEDESC_NONE\<rparr>\<rparr>) p 0)))))))))))"

section \<open>channel_update\<close>

record ln_cnl_update_t =
  cu_short_channel_id :: u64
  cu_timestamp :: u32
  cu_flags :: u16
  cu_cltv_expiry_delta :: u16
  cu_htlc_minimum_msat :: u64
  cu_fee_base_msat :: u32
  cu_fee_prop_millionths :: u32
  cu_htlc_maximum_msat :: u64

definition ln_msg_cnl_update_create ::
  "bytes \<Rightarrow> (bytes \<Rightarrow> bytes) \<Rightarrow> (bytes \<Rightarrow> bytes option) \<Rightarrow> bytes \<Rightarrow> ln_cnl_update_t \<Rightarrow> bytes c_result" where
  "ln_msg_cnl_update_create genesis hash256 sign_node junk pMsg =
     with_bytes (msg_build (2 + 128)
       [P16 MSGTYPE_CHANNEL_UPDATE,
        PF junk,
        PN genesis BTC_SZ_HASH256,
        P64 (cu_short_channel_id pMsg),
        P32 (cu_timestamp pMsg),
        P16 (cu_flags pMsg),
        P16 (cu_cltv_expiry_delta pMsg),
        P64 (cu_htlc_minimum_msat pMsg),
        P32 (cu_fee_base_msat pMsg),
        P32 (cu_fee_prop_millionths pMsg)]) (\<lambda>buf.
     let hash = hash256 (drop (2 + LN_SZ_SIGNATURE) buf) in
     case sign_node hash of None \<Rightarrow> Inl Ret_False | Some sig \<Rightarrow> put_bytes buf 2 sig)"

text \<open>The reader fills \<open>pMsg\<close> before it reports a foreign chain; the flag is part of the result.\<close>

definition ln_msg_cnl_update_read :: "bytes \<Rightarrow> bytes \<Rightarrow> (bool \<times> ln_cnl_update_t) c_result" where
  "ln_msg_cnl_update_read genesis pData =
     check_c (\<not> length pData < 2 + 128) (
     get_u16 pData (\<lambda>type p.
     check_c (type = MSGTYPE_CHANNEL_UPDATE) (
     get_bytes LN_SZ_SIGNATURE p (\<lambda>_ p.
     get_bytes BTC_SZ_HASH256 p (\<lambda>chain_hash p.
     let chain_match = (chain_hash = genesis) in
     get_u64 p (\<lambda>short_channel_id p.
     check_c (short_channel_id \<noteq> 0) (
     get_u32 p (\<lambda>timestamp p.
     get_u16 p (\<lambda>flags p.
     get_u16 p (\<lambda>cltv_expiry_delta p.
     get_u64 p (\<lambda>htlc_minimum_msat p.
     get_u32 p (\<lambda>fee_base_msat p.
     get_u32 p (\<lambda>fee_prop_millionths p.
     let upd = (\<lambda>htlc_maximum_msat.
       Inr (chain_match,
         \<lparr>cu_short_channel_id = short_channel_id, cu_timestamp = timestamp, cu_flags = flags,
          cu_cltv_expiry_delta = cltv_expiry_delta, cu_htlc_minimum_msat = htlc_minimum_msat,
          cu_fee_base_msat = fee_base_msat, cu_fee_prop_millionths = fee_prop_millionths,
          cu_htlc_maximum_msat = htlc_maximum_msat\<rparr>)) in
     if 8 \<le> length p then get_u64 p (\<lambda>htlc_maximum_msat _. upd htlc_maximum_msat)
     else upd 0)))))))))))))"

definition ln_msg_cnl_update_verify ::
  "(bytes \<Rightarrow> bytes) \<Rightarrow> (bytes \<Rightarrow> bytes \<Rightarrow> bytes \<Rightarrow> bool) \<Rightarrow> bytes \<Rightarrow> bytes \<Rightarrow> bool c_result" where
  "ln_msg_cnl_update_verify hash256 verify_rs pPubkey pData =
     get_bytes 2 pData (\<lambda>_ p.
     get_bytes LN_SZ_SIGNATURE p (\<lambda>sig p.
     Inr (verify_rs sig (hash256 p) pPubkey)))"

definition cnl_update_body :: "bytes \<Rightarrow> ln_cnl_update_t \<Rightarrow> bytes" where
  "cnl_update_body genesis m =
     genesis @ be64 (cu_short_channel_id m) @ be32 (cu_timestamp m) @ be16 (cu_flags m) @
     be16 (cu_cltv_expiry_delta m) @ be64 (cu_htlc_minimum_msat m) @ be32 (cu_fee_base_msat m) @
     be32 (cu_fee_prop_millionths m)"

section \<open>announcement_signatures\<close>

record ln_announce_signs_t =
  as_channel_id :: bytes
  as_short_channel_id :: u64
  as_node_signature :: bytes
  as_btc_signature :: bytes

definition ln_msg_announce_signs_create :: "ln_announce_signs_t \<Rightarrow> utl_buf_t c_result" where
  "ln_msg_announce_signs_create pMsg =
     msg_build (2 + 168)
       [P16 MSGTYPE_ANNOUNCEMENT_SIGNATURES,
        PN (as_channel_id pMsg) LN_SZ_CHANNEL_ID,
        P64 (as_short_channel_id pMsg),
        PN (as_node_signature pMsg) LN_SZ_SIGNATURE,
        PN (as_btc_signature pMsg) LN_SZ_SIGNATURE]"

definition ln_msg_announce_signs_read_short_cnl_id :: "bytes \<Rightarrow> bytes \<Rightarrow> u64 c_result" where
  "ln_msg_announce_signs_read_short_cnl_id pData pChannelId =
     (if length pData < 2 + 168 then Inr 0
      else
        get_u16 pData (\<lambda>type p.
        if type \<noteq> MSGTYPE_ANNOUNCEMENT_SIGNATURES then Inr 0
        else
          get_bytes LN_SZ_CHANNEL_ID p (\<lambda>channel_id p.
          if channel_id \<noteq> pChannelId then Inr 0
          else get_u64 p (\<lambda>scid _. Inr scid))))"

text \<open>\<open>scid\<close> is the \<open>short_channel_id\<close> that the caller has put into \<open>pMsg\<close>, 0 when it has none yet.\<close>

definition ln_msg_announce_signs_read :: "u64 \<Rightarrow> bytes \<Rightarrow> ln_announce_signs_t c_result" where
  "ln_msg_announce_signs_read scid pData =
     check_c (\<not> length pData < 2 + 168) (
     get_u16 pData (\<lambda>type p.
     check_c (type = MSGTYPE_ANNOUNCEMENT_SIGNATURES) (
     get_bytes LN_SZ_CHANNEL_ID p (\<lambda>channel_id p.
     get_u64 p (\<lambda>short_channel_id p.
     check_c (scid = 0 \<or> scid = short_channel_id) (
     get_bytes LN_SZ_SIGNATURE p (\<lambda>node_signature p.
     get_bytes LN_SZ_SIGNATURE p (\<lambda>btc_signature p.
     Inr \<lparr>as_channel_id = channel_id, as_short_channel_id = short_channel_id,
       as_node_signature = node_signature, as_btc_signature = btc_signature\<rparr>))))))))"

definition announce_signs_wire :: "ln_announce_signs_t \<Rightarrow> bytes" where
  "announce_signs_wire m =
     be16 MSGTYPE_ANNOUNCEMENT_SIGNATURES @ as_channel_id m @ be64 (as_short_channel_id m) @
     as_node_signature m @ as_btc_signature m"

definition announce_signs_wf :: "u64 \<Rightarrow> ln_announce_signs_t \<Rightarrow> bool" where
  "announce_signs_wf scid m \<longleftrightarrow>
     length (as_channel_id m) = LN_SZ_CHANNEL_ID \<and> length (as_node_signature m) = LN_SZ_SIGNATURE \<and>
     length (as_btc_signature m) = LN_SZ_SIGNATURE \<and> (scid = 0 \<or> scid = as_short_channel_id m)"

lemmas announce_signs_defs = ln_msg_announce_signs_create_def ln_msg_announce_signs_read_def
  announce_signs_wire_def announce_signs_wf_def

interpretation announce_signs: canonical_codec ln_msg_announce_signs_create
  "ln_msg_announce_signs_read scid" announce_signs_wire "announce_signs_wf scid" for scid
  by unfold_locales (auto simp: announce_signs_defs wire get_Inr_iffs intro!: defined_intros)

section \<open>Signed announcements are read back\<close>

lemma put_bytes_mid:
  "length us = n \<Longrightarrow> length xs = length vs \<Longrightarrow> put_bytes (us @ vs @ ws) n xs = Inr (us @ xs @ ws)"
  by (auto simp: put_bytes_def)

text \<open>
  A \<open>channel_update\<close> that the node signs is read back with the same fields (the
  \<open>htlc_maximum_msat\<close> is not sent and reads as 0), on the right chain, and its signature verifies
  under the node's key. \<open>sign_node\<close> and \<open>verify_rs\<close> are only assumed to fit on the hash of this
  message.
\<close>

theorem cnl_update_roundtrip:
  assumes "length genesis = BTC_SZ_HASH256" "length junk = LN_SZ_SIGNATURE"
    and "cu_short_channel_id m \<noteq> 0"
    and "sign_node (hash256 (cnl_update_body genesis m)) = Some sig" "length sig = LN_SZ_SIGNATURE"
    and "verify_rs sig (hash256 (cnl_update_body genesis m)) pub"
  shows "\<exists>d. ln_msg_cnl_update_create genesis hash256 sign_node junk m = Inr d \<and>
    ln_msg_cnl_update_read genesis d = Inr (True, m\<lparr>cu_htlc_maximum_msat := 0\<rparr>) \<and>
    ln_msg_cnl_update_verify hash256 verify_rs pub d = Inr True"
proof (intro exI conjI)
  let ?d = "be16 MSGTYPE_CHANNEL_UPDATE @ sig @ cnl_update_body genesis m"
  have "msg_build (2 + 128) [P16 MSGTYPE_CHANNEL_UPDATE, PF junk, PN genesis BTC_SZ_HASH256,
      P64 (cu_short_channel_id m), P32 (cu_timestamp m), P16 (cu_flags m),
      P16 (cu_cltv_expiry_delta m), P64 (cu_htlc_minimum_msat m), P32 (cu_fee_base_msat m),
      P32 (cu_fee_prop_millionths m)] =
    Inr (buf_of (be16 MSGTYPE_CHANNEL_UPDATE @ junk @ cnl_update_body genesis m))"
    using assms by (simp add: wire cnl_update_body_def)
  then show "ln_msg_cnl_update_create genesis hash256 sign_node junk m = Inr ?d"
    using assms by (simp add: ln_msg_cnl_update_create_def put_bytes_mid Let_def)
  show "ln_msg_cnl_update_read genesis ?d = Inr (True, m\<lparr>cu_htlc_maximum_msat := 0\<rparr>)"
    using assms by (simp add: ln_msg_cnl_update_read_def cnl_update_body_def wire Let_def)
  show "ln_msg_cnl_update_verify hash256 verify_rs pub ?d = Inr True"
    using assms by (simp add: ln_msg_cnl_update_verify_def wire)
qed

theorem cnl_update_roundtrip_witness:
  "\<exists>d. ln_msg_cnl_update_create (replicate 32 9) (take 32) (\<lambda>h. Some (h @ h)) (replicate 64 1)
       \<lparr>cu_short_channel_id = 5, cu_timestamp = 6, cu_flags = 1, cu_cltv_expiry_delta = 144,
        cu_htlc_minimum_msat = 1000, cu_fee_base_msat = 1, cu_fee_prop_millionths = 2,
        cu_htlc_maximum_msat = 0\<rparr> = Inr d \<and>
     ln_msg_cnl_update_verify (take 32) (\<lambda>s h p. s = h @ h) [] d = Inr True"
proof -
  let ?m = "\<lparr>cu_short_channel_id = 5, cu_timestamp = 6, cu_flags = 1, cu_cltv_expiry_delta = 144,
    cu_htlc_minimum_msat = 1000, cu_fee_base_msat = 1, cu_fee_prop_millionths = 2,
    cu_htlc_maximum_msat = 0\<rparr>"
  let ?h = "take 32 (cnl_update_body (replicate 32 9) ?m)"
  show ?thesis
    using cnl_update_roundtrip [of "replicate 32 9" "replicate 64 1" ?m "\<lambda>h. Some (h @ h)" "take 32"
        "?h @ ?h" "\<lambda>s h p. s = h @ h" "[]"]
    by (auto simp: cnl_update_body_def)
qed

text \<open>
  A \<open>channel_announcement\<close> by its four signatures and the part that they sign.
\<close>

definition cnl_anno_msg :: "bytes \<Rightarrow> bytes \<Rightarrow> bytes \<Rightarrow> bytes \<Rightarrow> bytes \<Rightarrow> bytes" where
  "cnl_anno_msg n1 n2 b1 b2 body =
     be16 MSGTYPE_CHANNEL_ANNOUNCEMENT @ n1 @ n2 @ b1 @ b2 @ body"

definition cnl_anno_body :: "bytes \<Rightarrow> u64 \<Rightarrow> bytes \<Rightarrow> bytes \<Rightarrow> bytes \<Rightarrow> bytes \<Rightarrow> bytes" where
  "cnl_anno_body genesis scid n1 n2 b1 b2 =
     be16 0 @ genesis @ be64 scid @ n1 @ n2 @ b1 @ b2"

lemma get_u16_cnl_anno:
  "get_u16 (cnl_anno_msg n1 n2 b1 b2 body) k =
     k MSGTYPE_CHANNEL_ANNOUNCEMENT (n1 @ n2 @ b1 @ b2 @ body)"
  by (simp add: cnl_anno_msg_def wire)

lemma put_cnl_anno:
  assumes "length n1 = 64" "length n2 = 64" "length b1 = 64" "length b2 = 64" "length x = 64"
  shows "put_bytes (cnl_anno_msg n1 n2 b1 b2 body) 2 x = Inr (cnl_anno_msg x n2 b1 b2 body)"
    "put_bytes (cnl_anno_msg n1 n2 b1 b2 body) 66 x = Inr (cnl_anno_msg n1 x b1 b2 body)"
    "put_bytes (cnl_anno_msg n1 n2 b1 b2 body) 130 x = Inr (cnl_anno_msg n1 n2 x b2 body)"
    "put_bytes (cnl_anno_msg n1 n2 b1 b2 body) 194 x = Inr (cnl_anno_msg n1 n2 b1 x body)"
  using assms by (simp_all add: cnl_anno_msg_def put_bytes_def)

lemma cnl_announce_sign_eq:
  assumes "length n1 = 64" "length n2 = 64" "length b1 = 64" "length b2 = 64"
    and "sign_node (hash256 body) = Some s" "length s = 64"
    and "sign_btc (hash256 body) = Some t" "length t = 64"
  shows "cnl_announce_sign hash256 sign_node sign_btc (cnl_anno_msg n1 n2 b1 b2 body) Sort =
    Inr (True, if Sort = BTC_KEYS_SORT_ASC then cnl_anno_msg s n2 t b2 body
               else cnl_anno_msg n1 s b1 t body)"
proof -
  have "drop 258 (cnl_anno_msg n1 n2 b1 b2 body) = body"
    "\<not> length (cnl_anno_msg n1 n2 b1 b2 body) < 258"
    using assms by (simp_all add: cnl_anno_msg_def)
  then show ?thesis
    using assms by (auto simp: cnl_announce_sign_def put_cnl_anno put_cnl_anno(1) [unfolded numeral_2_eq_2])
qed

lemma ln_msg_cnl_announce_create_eq:
  assumes "length genesis = 32" "length (p_my_node_pub m) = 33" "length (p_peer_node_pub m) = 33"
    "length (p_my_funding_pub m) = 33" "length (p_peer_funding_pub m) = 33"
    and body: "body = (if ca_sort m = BTC_KEYS_SORT_ASC
      then cnl_anno_body genesis (ca_short_channel_id m) (p_my_node_pub m) (p_peer_node_pub m)
             (p_my_funding_pub m) (p_peer_funding_pub m)
      else cnl_anno_body genesis (ca_short_channel_id m) (p_peer_node_pub m) (p_my_node_pub m)
             (p_peer_funding_pub m) (p_my_funding_pub m))"
    and sign: "sign_node (hash256 body) = Some s" "length s = 64"
      "sign_btc (hash256 body) = Some t" "length t = 64"
  shows "ln_msg_cnl_announce_create genesis hash256 sign_node sign_btc m =
    Inr (True, let c = replicate 64 0xcc in
      if ca_sort m = BTC_KEYS_SORT_ASC then cnl_anno_msg s c t c body else cnl_anno_msg c s c t body)"
proof -
  let ?c = "replicate 64 0xcc :: bytes"
  have cc: "replicate 256 0xcc = ?c @ ?c @ ?c @ ?c"
    by (simp flip: replicate_add)
  have "cnl_announce_sign hash256 sign_node sign_btc (cnl_anno_msg ?c ?c ?c ?c body) (ca_sort m) =
    Inr (True, if ca_sort m = BTC_KEYS_SORT_ASC then cnl_anno_msg s ?c t ?c body
               else cnl_anno_msg ?c s ?c t body)"
    using sign by (intro cnl_announce_sign_eq) auto
  then show ?thesis
    using assms(1-5)
    by (cases "ca_sort m")
       (simp_all add: ln_msg_cnl_announce_create_def wire body cnl_anno_body_def cnl_anno_msg_def cc
         Let_def)
qed

text \<open>
  What the two nodes exchange: \<open>announcement_signatures\<close> carries the two signatures that a node
  finds in its own announcement, and the receiver stores them in the places of the peer.
\<close>

definition own_anno_signs :: "bytes \<Rightarrow> btc_keys_sort_t \<Rightarrow> bytes \<times> bytes" where
  "own_anno_signs d Sort =
     (let (n, b) = ln_msg_get_anno_signs True Sort in (take 64 (drop n d), take 64 (drop b d)))"

definition put_anno_signs :: "bytes \<Rightarrow> btc_keys_sort_t \<Rightarrow> bytes \<times> bytes \<Rightarrow> bytes c_result" where
  "put_anno_signs d Sort sigs =
     (let (n, b) = ln_msg_get_anno_signs False Sort in
      bind_c (put_bytes d n (fst sigs)) (\<lambda>d. put_bytes d b (snd sigs)))"

lemma own_anno_signs_eq:
  assumes "length n1 = 64" "length n2 = 64" "length b1 = 64" "length b2 = 64"
  shows "own_anno_signs (cnl_anno_msg n1 n2 b1 b2 body) Sort =
    (if Sort = BTC_KEYS_SORT_ASC then (n1, b1) else (n2, b2))"
  using assms by (simp add: own_anno_signs_def ln_msg_get_anno_signs_def cnl_anno_msg_def)

lemma put_anno_signs_eq:
  assumes "length n1 = 64" "length n2 = 64" "length b1 = 64" "length b2 = 64" "length s = 64"
    "length t = 64"
  shows "put_anno_signs (cnl_anno_msg n1 n2 b1 b2 body) Sort (s, t) =
    Inr (if Sort = BTC_KEYS_SORT_ASC then cnl_anno_msg n1 s b1 t body
         else cnl_anno_msg s n2 t b2 body)"
  using assms
  by (simp add: put_anno_signs_def ln_msg_get_anno_signs_def put_cnl_anno
      put_cnl_anno(1) [unfolded numeral_2_eq_2])

lemma cnl_announce_ptr_eq:
  assumes "length n1 = 64" "length n2 = 64" "length b1 = 64" "length b2 = 64" "length genesis = 32"
    "length i1 = 33" "length i2 = 33" "length k1 = 33" "length k2 = 33"
  shows "cnl_announce_ptr genesis (cnl_anno_msg n1 n2 b1 b2 (cnl_anno_body genesis scid i1 i2 k1 k2)) =
    Inr \<lparr>ptr_node_signature1 = n1, ptr_node_signature2 = n2, ptr_btc_signature1 = b1,
      ptr_btc_signature2 = b2, ptr_short_channel_id = scid, ptr_node_id1 = i1, ptr_node_id2 = i2,
      ptr_btc_key1 = k1, ptr_btc_key2 = k2\<rparr>"
  using assms by (simp add: cnl_announce_ptr_def cnl_anno_msg_def cnl_anno_body_def wire)

text \<open>
  Two nodes that create the announcement of their common channel independently, each with its
  own signatures and the node ids in the same order, and then store the peer's signatures where
  \<^verbatim>\<open>ln_msg_get_anno_signs\<close> says, end with the same message; all its four signatures
  verify, and a reader gets the ids and keys in that order. The nodes are \<open>A\<close>, whose id comes
  first, and \<open>B\<close>; the hypotheses on signing are that each key signs the hash of the announcement.
\<close>

theorem cnl_announce_agree:
  assumes "length genesis = 32" "length nA = 33" "length nB = 33" "length kA = 33" "length kB = 33"
    and h: "h = hash256 (cnl_anno_body genesis scid nA nB kA kB)"
    and A: "sign_nodeA h = Some sA" "length sA = 64" "verify_rs sA h nA"
      "sign_btcA h = Some tA" "length tA = 64" "verify_rs tA h kA"
    and B: "sign_nodeB h = Some sB" "length sB = 64" "verify_rs sB h nB"
      "sign_btcB h = Some tB" "length tB = 64" "verify_rs tB h kB"
  shows "\<exists>dA dB d.
    ln_msg_cnl_announce_create genesis hash256 sign_nodeA sign_btcA
      \<lparr>ca_short_channel_id = scid, p_my_node_pub = nA, p_my_funding_pub = kA,
       p_peer_node_pub = nB, p_peer_funding_pub = kB, ca_sort = BTC_KEYS_SORT_ASC\<rparr> = Inr (True, dA) \<and>
    ln_msg_cnl_announce_create genesis hash256 sign_nodeB sign_btcB
      \<lparr>ca_short_channel_id = scid, p_my_node_pub = nB, p_my_funding_pub = kB,
       p_peer_node_pub = nA, p_peer_funding_pub = kA, ca_sort = BTC_KEYS_SORT_OTHER\<rparr> = Inr (True, dB) \<and>
    put_anno_signs dA BTC_KEYS_SORT_ASC (own_anno_signs dB BTC_KEYS_SORT_OTHER) = Inr d \<and>
    put_anno_signs dB BTC_KEYS_SORT_OTHER (own_anno_signs dA BTC_KEYS_SORT_ASC) = Inr d \<and>
    ln_msg_cnl_announce_verify genesis hash256 verify_rs d = Inr () \<and>
    ln_msg_cnl_announce_read genesis d =
      Inr \<lparr>car_short_channel_id = scid, car_node_id1 = nA, car_node_id2 = nB,
        car_btc_key1 = kA, car_btc_key2 = kB\<rparr>"
proof (intro exI conjI)
  let ?body = "cnl_anno_body genesis scid nA nB kA kB" and ?c = "replicate 64 0xcc :: bytes"
  let ?dA = "cnl_anno_msg sA ?c tA ?c ?body" and ?dB = "cnl_anno_msg ?c sB ?c tB ?body"
  let ?d = "cnl_anno_msg sA sB tA tB ?body"
  note len = assms(1-5) A(2,5) B(2,5)
  show "ln_msg_cnl_announce_create genesis hash256 sign_nodeA sign_btcA
      \<lparr>ca_short_channel_id = scid, p_my_node_pub = nA, p_my_funding_pub = kA,
       p_peer_node_pub = nB, p_peer_funding_pub = kB, ca_sort = BTC_KEYS_SORT_ASC\<rparr> = Inr (True, ?dA)"
    using len A(1,4) h by (simp add: ln_msg_cnl_announce_create_eq Let_def)
  show "ln_msg_cnl_announce_create genesis hash256 sign_nodeB sign_btcB
      \<lparr>ca_short_channel_id = scid, p_my_node_pub = nB, p_my_funding_pub = kB,
       p_peer_node_pub = nA, p_peer_funding_pub = kA, ca_sort = BTC_KEYS_SORT_OTHER\<rparr> = Inr (True, ?dB)"
    using len B(1,4) h by (simp add: ln_msg_cnl_announce_create_eq Let_def)
  show "put_anno_signs ?dA BTC_KEYS_SORT_ASC (own_anno_signs ?dB BTC_KEYS_SORT_OTHER) = Inr ?d"
    "put_anno_signs ?dB BTC_KEYS_SORT_OTHER (own_anno_signs ?dA BTC_KEYS_SORT_ASC) = Inr ?d"
    using len by (simp_all add: own_anno_signs_eq put_anno_signs_eq)
  have "drop 258 ?d = ?body" using len by (simp add: cnl_anno_msg_def)
  then show "ln_msg_cnl_announce_verify genesis hash256 verify_rs ?d = Inr ()"
    using len A(3,6) B(3,6) h by (simp add: ln_msg_cnl_announce_verify_def cnl_announce_ptr_eq)
  have "length ?d = 432" using len by (simp add: cnl_anno_msg_def cnl_anno_body_def)
  then show "ln_msg_cnl_announce_read genesis ?d =
      Inr \<lparr>car_short_channel_id = scid, car_node_id1 = nA, car_node_id2 = nB,
        car_btc_key1 = kA, car_btc_key2 = kB\<rparr>"
    using len by (simp add: ln_msg_cnl_announce_read_def cnl_announce_ptr_eq get_u16_cnl_anno)
qed

theorem cnl_announce_agree_witness:
  "\<exists>d. ln_msg_cnl_announce_verify (replicate 32 9) (take 32) (\<lambda>s h p. s = h @ h) d = Inr () \<and>
     ln_msg_cnl_announce_read (replicate 32 9) d =
      Inr \<lparr>car_short_channel_id = 77, car_node_id1 = replicate 33 2, car_node_id2 = replicate 33 3,
        car_btc_key1 = replicate 33 4, car_btc_key2 = replicate 33 5\<rparr>"
proof -
  let ?h = "take 32 (cnl_anno_body (replicate 32 9) 77 (replicate 33 2) (replicate 33 3)
    (replicate 33 4) (replicate 33 5))"
  have "length ?h = 32" by (simp add: cnl_anno_body_def)
  then show ?thesis
    using cnl_announce_agree [of "replicate 32 9" "replicate 33 2" "replicate 33 3" "replicate 33 4"
        "replicate 33 5" ?h "take 32" 77 "\<lambda>h. Some (h @ h)" "?h @ ?h" "\<lambda>s h p. s = h @ h"
        "\<lambda>h. Some (h @ h)" "?h @ ?h" "\<lambda>h. Some (h @ h)" "?h @ ?h" "\<lambda>h. Some (h @ h)" "?h @ ?h"]
    by auto
qed

text \<open>The signed part of a \<open>node_announcement\<close>.\<close>

definition node_anno_addr :: "ln_nodeaddr_t \<Rightarrow> bytes" where
  "node_anno_addr a =
     (if na_type a = LN_NODEDESC_NONE then be16 0
      else be16 (of_nat (1 + M_ADDRLEN2 ! unat (na_type a))) @ [na_type a] @ na_addr a @ be16 (na_port a))"

definition node_anno_body :: "ln_node_announce_t \<Rightarrow> bytes \<Rightarrow> bytes \<Rightarrow> bytes" where
  "node_anno_body m node_id alias =
     be16 0 @ be32 (nod_timestamp m) @ node_id @ nod_rgbcolor m @ alias @ node_anno_addr (nod_addr m)"

definition nodeaddr_wf :: "ln_nodeaddr_t \<Rightarrow> bool" where
  "nodeaddr_wf a \<longleftrightarrow> na_type a \<le> LN_NODEDESC_MAX \<and> length (na_addr a) = M_ADDRLEN ! unat (na_type a)"

lemma nodedesc_cases: "t \<le> LN_NODEDESC_MAX \<Longrightarrow> t = 0 \<or> t = 1 \<or> t = 2 \<or> t = 3 \<or> t = 4"
proof -
  assume "t \<le> LN_NODEDESC_MAX"
  then have "unat t \<le> 4" by (simp add: LN_NODEDESC_MAX_def word_le_nat_alt)
  then have "unat t = 0 \<or> unat t = 1 \<or> unat t = 2 \<or> unat t = 3 \<or> unat t = 4" by linarith
  then show ?thesis by (auto simp: word_unat_eq_iff)
qed

lemmas nodedesc_defs = LN_NODEDESC_MAX_def LN_NODEDESC_NONE_def M_ADDRLEN_def M_ADDRLEN2_def

text \<open>
  A \<open>node_announcement\<close> that a node creates and signs is accepted by the reader, which gets
  the fields of the announcement back: for every kind of address, and without one (then the
  receiver's address data stay as they are). The alias is an object of \<open>LN_SZ_ALIAS + 1\<close> bytes that
  ends with a NUL.
\<close>

theorem node_announce_roundtrip:
  assumes m: "nod_node_id m = Some node_id" "length node_id = BTC_SZ_PUBKEY"
      "nod_alias m = Some (alias @ [0])" "length alias = LN_SZ_ALIAS" "length (nod_rgbcolor m) = 3"
      "nodeaddr_wf (nod_addr m)"
    and base: "nod_node_id base \<noteq> None" "nod_alias base \<noteq> None"
    and sign: "length junk = LN_SZ_SIGNATURE"
      "sign_node (hash256 (node_anno_body m node_id alias)) = Some sig" "length sig = LN_SZ_SIGNATURE"
      "verify_rs sig (hash256 (node_anno_body m node_id alias)) node_id"
  shows "\<exists>d. ln_msg_node_announce_create hash256 sign_node junk m = Inr d \<and>
    ln_msg_node_announce_read hash256 verify_rs base d =
      Inr (m\<lparr>nod_addr := if na_type (nod_addr m) = LN_NODEDESC_NONE
               then (nod_addr base)\<lparr>na_type := LN_NODEDESC_NONE\<rparr> else nod_addr m\<rparr>)"
proof (intro exI conjI)
  let ?t = "na_type (nod_addr m)"
  let ?d = "be16 MSGTYPE_NODE_ANNOUNCEMENT @ sig @ node_anno_body m node_id alias"
  have t: "?t = 0 \<or> ?t = 1 \<or> ?t = 2 \<or> ?t = 3 \<or> ?t = 4"
    using m(6) by (auto simp: nodeaddr_wf_def dest: nodedesc_cases)
  have "msg_build (2 + 141 + M_ADDRLEN2 ! unat ?t)
      ([P16 MSGTYPE_NODE_ANNOUNCEMENT, PF junk, P16 0, P32 (nod_timestamp m),
        PN node_id BTC_SZ_PUBKEY, PN (nod_rgbcolor m) 3, PN (alias @ [0]) LN_SZ_ALIAS] @
       (if ?t = LN_NODEDESC_NONE then [P16 0]
        else [P16 (of_nat (1 + M_ADDRLEN2 ! unat ?t)), P8 ?t,
              PN (na_addr (nod_addr m)) (M_ADDRLEN ! unat ?t), P16 (na_port (nod_addr m))])) =
    Inr (buf_of (be16 MSGTYPE_NODE_ANNOUNCEMENT @ junk @ node_anno_body m node_id alias))"
    using m sign(1) t
    by (auto simp: wire node_anno_body_def node_anno_addr_def nodeaddr_wf_def nodedesc_defs)
  then show "ln_msg_node_announce_create hash256 sign_node junk m = Inr ?d"
    using m sign by (simp add: ln_msg_node_announce_create_def put_bytes_mid Let_def
        nodeaddr_wf_def not_less)
  show "ln_msg_node_announce_read hash256 verify_rs base ?d =
      Inr (m\<lparr>nod_addr := if ?t = LN_NODEDESC_NONE
               then (nod_addr base)\<lparr>na_type := LN_NODEDESC_NONE\<rparr> else nod_addr m\<rparr>)"
    using t m base sign
    by (elim disjE; cases m; cases "nod_addr m")
      (auto simp: ln_msg_node_announce_read_def node_anno_body_def node_anno_addr_def wire Let_def
        nodedesc_defs nodeaddr_wf_def)
qed

theorem node_announce_roundtrip_witness:
  "\<exists>d. ln_msg_node_announce_create (take 32) (\<lambda>h. Some (h @ h)) (replicate 64 1)
       \<lparr>nod_timestamp = 100, nod_node_id = Some (replicate 33 2), nod_alias = Some (replicate 32 65 @ [0]),
        nod_rgbcolor = [1, 2, 3], nod_addr = \<lparr>na_type = 1, na_port = 9735, na_addr = [10, 0, 0, 1]\<rparr>\<rparr> =
       Inr d \<and>
     ln_msg_node_announce_read (take 32) (\<lambda>s h p. s = h @ h)
       \<lparr>nod_timestamp = 0, nod_node_id = Some [], nod_alias = Some [], nod_rgbcolor = [],
        nod_addr = \<lparr>na_type = 0, na_port = 0, na_addr = []\<rparr>\<rparr> d =
     Inr \<lparr>nod_timestamp = 100, nod_node_id = Some (replicate 33 2), nod_alias = Some (replicate 32 65 @ [0]),
        nod_rgbcolor = [1, 2, 3], nod_addr = \<lparr>na_type = 1, na_port = 9735, na_addr = [10, 0, 0, 1]\<rparr>\<rparr>"
proof -
  let ?m = "\<lparr>nod_timestamp = 100, nod_node_id = Some (replicate 33 2),
    nod_alias = Some (replicate 32 65 @ [0]), nod_rgbcolor = [1, 2, 3],
    nod_addr = \<lparr>na_type = 1, na_port = 9735, na_addr = [10, 0, 0, 1]\<rparr>\<rparr>"
  let ?b = "\<lparr>nod_timestamp = 0, nod_node_id = Some [], nod_alias = Some [], nod_rgbcolor = [],
    nod_addr = \<lparr>na_type = 0, na_port = 0, na_addr = []\<rparr>\<rparr>"
  let ?h = "take 32 (node_anno_body ?m (replicate 33 2) (replicate 32 65))"
  have "length ?h = 32" by (simp add: node_anno_body_def)
  then show ?thesis
    using node_announce_roundtrip [of ?m "replicate 33 2" "replicate 32 65" ?b "replicate 64 1"
        "\<lambda>h. Some (h @ h)" "take 32" "?h @ ?h" "\<lambda>s h p. s = h @ h"]
    by (auto simp: nodeaddr_wf_def nodedesc_defs)
qed

section \<open>Lengths that the readers do not check\<close>

text \<open>
  The readers of \<open>node_announcement\<close> and \<open>channel_announcement\<close> add the announced length of the
  features to their position without comparing it with the length of the message: a message of the
  minimal length or more whose features length exceeds what follows is read behind its end.
\<close>

theorem gossip_features_overrun:
  assumes "length r < unat flen" "length r' < unat flen" "74 \<le> length r" "172 \<le> length r'"
    and "length s = 64" "length n1 = 64" "length n2 = 64" "length b1 = 64" "length b2 = 64"
  shows "ln_msg_node_announce_read hash256 verify_rs base
      (be16 MSGTYPE_NODE_ANNOUNCEMENT @ s @ be16 flen @ r) = Inl Read_Overrun \<and>
    ln_msg_cnl_announce_read genesis (cnl_anno_msg n1 n2 b1 b2 (be16 flen @ r')) = Inl Read_Overrun"
proof
  show "ln_msg_node_announce_read hash256 verify_rs base
      (be16 MSGTYPE_NODE_ANNOUNCEMENT @ s @ be16 flen @ r) = Inl Read_Overrun"
    using assms by (simp add: ln_msg_node_announce_read_def wire get_bytes_def [of "unat flen"])
  have "cnl_announce_ptr genesis (cnl_anno_msg n1 n2 b1 b2 (be16 flen @ r')) = Inl Read_Overrun"
    using assms by (simp add: cnl_announce_ptr_def cnl_anno_msg_def wire get_bytes_def [of "unat flen"])
  then show "ln_msg_cnl_announce_read genesis (cnl_anno_msg n1 n2 b1 b2 (be16 flen @ r')) =
      Inl Read_Overrun"
    using assms
    by (simp add: ln_msg_cnl_announce_read_def get_u16_cnl_anno) (simp add: cnl_anno_msg_def)
qed

theorem gossip_features_overrun_witness:
  "ln_msg_node_announce_read (\<lambda>_. []) (\<lambda>_ _ _. True)
     \<lparr>nod_timestamp = 0, nod_node_id = None, nod_alias = None, nod_rgbcolor = [],
      nod_addr = \<lparr>na_type = 0, na_port = 0, na_addr = []\<rparr>\<rparr>
     (be16 MSGTYPE_NODE_ANNOUNCEMENT @ replicate 64 0 @ be16 0xffff @ replicate 74 0) = Inl Read_Overrun"
  using gossip_features_overrun [of "replicate 74 0" "0xffff" "replicate 172 0" "replicate 64 0"
      "replicate 64 0" "replicate 64 0" "replicate 64 0" "replicate 64 0" "\<lambda>_. []" "\<lambda>_ _ _. True"]
  by simp

text \<open>
  A \<open>channel_announcement\<close> from a peer that is well formed but carries one signature that does
  not verify does not make \<^verbatim>\<open>ln_msg_cnl_announce_verify\<close> return \<open>false\<close>: it fails the
  assertion. With four good signatures it returns \<open>true\<close>.
\<close>

theorem cnl_announce_verify_iff:
  assumes "cnl_announce_ptr genesis d = Inr ptr"
  shows "ln_msg_cnl_announce_verify genesis hash256 verify_rs d =
    (let h = hash256 (drop 258 d) in
     if verify_rs (ptr_node_signature1 ptr) h (ptr_node_id1 ptr) \<and>
        verify_rs (ptr_node_signature2 ptr) h (ptr_node_id2 ptr) \<and>
        verify_rs (ptr_btc_signature1 ptr) h (ptr_btc_key1 ptr) \<and>
        verify_rs (ptr_btc_signature2 ptr) h (ptr_btc_key2 ptr)
     then Inr () else Inl Assert_Failed)"
  using assms by (auto simp: ln_msg_cnl_announce_verify_def assert_c_def Let_def)

theorem cnl_announce_verify_iff_witness:
  "ln_msg_cnl_announce_verify (replicate 32 9) (\<lambda>_. []) (\<lambda>_ _ _. False)
     (cnl_anno_msg (replicate 64 1) (replicate 64 2) (replicate 64 3) (replicate 64 4)
       (cnl_anno_body (replicate 32 9) 7 (replicate 33 1) (replicate 33 2) (replicate 33 3)
         (replicate 33 4))) = Inl Assert_Failed"
  using cnl_announce_verify_iff [OF cnl_announce_ptr_eq, of "replicate 64 1" "replicate 64 2"
      "replicate 64 3" "replicate 64 4" "replicate 32 9" "replicate 33 1" "replicate 33 2"
      "replicate 33 3" "replicate 33 4" "\<lambda>_. []" "\<lambda>_ _ _. False" 7]
  by simp

end
