(* ===== verification/Channel_State.thy ===== *)
theory Channel_State
  imports Commit_Tx Derkey_Keys Ln_Sig Msg_Normalope Msg_Setupctl Msg_Establish Msg_Close Msg_Anno
begin

text \<open>
  The state of a channel, \<^verbatim>\<open>ln_self_t\<close> in \<^verbatim>\<open>ln/ln.h\<close>, as far as normal operation uses it, and
  the operations on its per-commitment secrets (\<^verbatim>\<open>ln/ln_signer.c\<close>,
  \<^verbatim>\<open>store_peer_percommit_secret\<close> in \<^verbatim>\<open>ln/ln.c\<close>). The callbacks to the application and the
  writes to the database are not functions of the model: the state carries their sequence in
  \<open>events\<close>, in the order in which the code issues them.
\<close>

section \<open>The record\<close>

datatype lnerr_t = LNERR_ERROR | LNERR_INV_VALUE | LNERR_INV_STATE | LNERR_INV_ID
  | LNERR_INV_CHANNEL | LNERR_MSG_READ | LNERR_MSG_ERROR | LNERR_HTLC_FULL | LNERR_BITCOIND
  | LNERR_ONION | LNERR_INV_SIDE | LNERR_ALREADY_FUNDING | LNERR_INV_PRIVKEY | LNERR_CREATE_MSG
  | LNERR_CREATE_TX | LNERR_CREATE_2OF2 | LNERR_NO_PEER | LNERR_PINGPONG | LNERR_INV_FEATURE | LNERR_MSG_INIT

datatype anno_type_t = LN_CB_UPDATE_ANNODB_NONE | LN_CB_UPDATE_ANNODB_CNL_ANNO
  | LN_CB_UPDATE_ANNODB_CNL_UPD | LN_CB_UPDATE_ANNODB_NODE_ANNO

datatype cb_event =
    CB_SEND_REQ "bytes option"
  | CB_FWD_ADDHTLC_START u64 u16
  | CB_BWD_DELHTLC_START delhtlc
  | CB_PAYMENT_RETRY bytes
  | CB_REV_AND_ACK_EXCG
  | CB_FULFILL_HTLC_RECV u64 u16 bytes u64 u64
  | CB_FAIL_HTLC_RECV u64 nat u64 bytes bytes u16
  | CB_ADD_HTLC_RECV u64 nat u64 u32
  | CB_UPDATE_FEE_RECV u32
  | CB_REESTABLISH_RECV
  | CB_QUIT
  | DB_SELF_SAVE
  | DB_SELF_SAVE_STATUS
  | DB_SECRET_SAVE
  | DB_PREIMG_DEL bytes
  | CB_SHUTDOWN_RECV
  | CB_CLOSED_FEE u64
  | CB_CLOSED btc_tx_t bytes bytes      \<comment> \<open>transaction, own and remote signature\<close>
  | CB_SET_LATEST_FEERATE
  | CB_SIGN_FUNDINGTX_REQ
  | CB_FUNDINGTX_WAIT bool
  | CB_FUNDINGLOCKED_RECV
  | CB_INIT_RECV bool
  | CB_ERROR ln_error_t
  | CB_UPDATE_ANNODB anno_type_t
  | DB_ANNOCNL_SAVE bytes u64 "bytes option" bytes bytes
  | DB_ANNOCNLUPD_SAVE bytes u64 u16 "bytes option"
  | DB_ANNONOD_SAVE bytes bytes

record ln_commit_data_t =
  dust_limit_sat :: u64
  max_htlc_value_in_flight_msat :: u64
  channel_reserve_sat :: u64
  htlc_minimum_msat :: u64
  to_self_delay :: u16
  max_accepted_htlcs :: u16
  cd_signature :: bytes
  txid :: bytes
  htlc_num :: u16
  commit_num :: u64
  revoke_num :: u64

datatype ln_status_t = LN_STATUS_NONE | LN_STATUS_ESTABLISH | LN_STATUS_NORMAL | LN_STATUS_CLOSE_WAIT
  | LN_STATUS_CLOSE_SPENT | LN_STATUS_CLOSE_MUTUAL | LN_STATUS_CLOSE_UNI_LOCAL
  | LN_STATUS_CLOSE_UNI_REMOTE | LN_STATUS_CLOSE_REVOKED

text \<open>The work area of the opening of a channel; pointers are the values they point to.\<close>

record ln_fundin_t =
  fi_txid :: bytes
  fi_index :: u32
  fi_amount :: u64
  fi_change_spk :: bytes

record ln_establish_prm_t =
  ep_dust_limit_sat :: u64
  ep_max_htlc_value_in_flight_msat :: u64
  ep_channel_reserve_sat :: u64
  ep_htlc_minimum_msat :: u64
  ep_to_self_delay :: u16
  ep_max_accepted_htlcs :: u16
  ep_min_depth :: u32

record ln_establish_t =
  cnl_open :: ln_open_channel_t
  cnl_accept :: ln_accept_channel_t
  p_fundin :: "ln_fundin_t option"
  estprm :: ln_establish_prm_t

record ln_self_t =
  channel_id :: bytes
  short_channel_id :: u64
  init_flag :: byte
  shutdown_flag :: byte
  lfeature_local :: byte
  peer_storage :: ln_derkey_storage_t
  peer_storage_index :: u64
  storage_index :: u64
  storage_seed :: bytes
  priv_percommit :: bytes
  funding_local :: ln_funding_data_t
  funding_remote :: ln_funding_data_t
  prev_percommit :: bytes
  funding_txid :: bytes            \<comment> \<open>\<open>funding_local.txid\<close>, \<open>funding_local.txindex\<close>\<close>
  funding_txindex :: u16
  funding_sat :: u64
  redeem_fund :: bytes
  is_funder :: bool                \<comment> \<open>\<open>ln_is_funder(self)\<close>, a bit of \<open>fund_flag\<close> as the next three\<close>
  is_announce :: bool              \<comment> \<open>\<open>LN_FUNDFLAG_ANNO_CH\<close>\<close>
  is_funding :: bool               \<comment> \<open>\<open>LN_FUNDFLAG_FUNDING\<close>\<close>
  is_opened :: bool                \<comment> \<open>\<open>LN_FUNDFLAG_OPENED\<close>\<close>
  peer_node_id :: bytes
  anno_flag :: byte
  cnl_anno :: "bytes option"       \<comment> \<open>\<open>None\<close> if \<open>cnl_anno.buf == NULL\<close>\<close>
  anno_cltv_expiry_delta :: u16    \<comment> \<open>\<open>anno_prm\<close>, with the two fees below\<close>
  anno_htlc_minimum_msat :: u64
  key_fund_local_first :: bool     \<comment> \<open>\<open>key_fund_sort == BTC_KEYS_SORT_ASC\<close>\<close>
  p_establish :: "ln_establish_t option"
  tx_funding :: "btc_vout_t list"  \<comment> \<open>the outputs\<close>
  min_depth :: u32
  ch_status :: ln_status_t
  close_fee_sat :: u64
  close_last_fee_sat :: u64
  shutdown_scriptpk_local :: bytes
  shutdown_scriptpk_remote :: bytes
  lfeature_remote :: byte
  missing_pong_cnt :: u16
  last_num_pong_bytes :: u16
  obscured :: u64
  htlc_id_num :: u64
  our_msat :: u64
  their_msat :: u64
  cnl_add_htlc :: "ln_update_add_htlc_t list"
  commit_local :: ln_commit_data_t
  commit_remote :: ln_commit_data_t
  feerate_per_kw :: u32
  fee_base_msat :: u32
  fee_prop_millionths :: u32
  reest_commit_num :: u64
  reest_revoke_num :: u64
  err :: "lnerr_t option"
  events :: "cb_event list"

definition set_err :: "lnerr_t \<Rightarrow> ln_self_t \<Rightarrow> ln_self_t" where
  \<comment> \<open>\<open>M_SET_ERR\<close>\<close>
  "set_err e self = self\<lparr>err := Some e\<rparr>"

definition callback :: "cb_event \<Rightarrow> ln_self_t \<Rightarrow> ln_self_t" where
  \<comment> \<open>\<open>(*self->p_callback)(self, ...)\<close>, \<open>M_DB_SELF_SAVE(self)\<close>\<close>
  "callback e self = self\<lparr>events := events self @ [e]\<rparr>"

definition upd_htlc :: "nat \<Rightarrow> (ln_update_add_htlc_t \<Rightarrow> ln_update_add_htlc_t) \<Rightarrow> ln_self_t \<Rightarrow> ln_self_t" where
  "upd_htlc idx f self =
     self\<lparr>cnl_add_htlc := (cnl_add_htlc self)[idx := f (cnl_add_htlc self ! idx)]\<rparr>"

definition set_updsend :: "ln_update_add_htlc_t \<Rightarrow> ln_update_add_htlc_t" where
  "set_updsend h = h\<lparr>flag := (flag h)\<lparr>updsend := True\<rparr>\<rparr>"

definition set_comrecv :: "ln_htlcflag_t \<Rightarrow> ln_htlcflag_t" where
  "set_comrecv f = f\<lparr>comrecv := True\<rparr>"

definition set_revsend :: "ln_htlcflag_t \<Rightarrow> ln_htlcflag_t" where
  "set_revsend f = f\<lparr>revsend := True\<rparr>"

definition set_revrecv :: "ln_htlcflag_t \<Rightarrow> ln_htlcflag_t" where
  "set_revrecv f = f\<lparr>revrecv := True\<rparr>"

definition set_comsend :: "ln_htlcflag_t \<Rightarrow> ln_htlcflag_t" where
  "set_comsend f = f\<lparr>comsend := True\<rparr>"

text \<open>A loop that sets a flag in every used slot whose flags satisfy a condition.\<close>

definition mark_htlcs ::
  "(ln_htlcflag_t \<Rightarrow> bool) \<Rightarrow> (ln_htlcflag_t \<Rightarrow> ln_htlcflag_t) \<Rightarrow> ln_self_t \<Rightarrow> ln_self_t" where
  "mark_htlcs c f self =
     self\<lparr>cnl_add_htlc := map (\<lambda>h. if LN_HTLC_ENABLE h \<and> c (flag h) then h\<lparr>flag := f (flag h)\<rparr> else h)
            (cnl_add_htlc self)\<rparr>"

definition chk_channelid :: "bytes \<Rightarrow> bytes \<Rightarrow> bool" where
  "chk_channelid recv_id mine_id \<longleftrightarrow> take LN_SZ_CHANNEL_ID recv_id = take LN_SZ_CHANNEL_ID mine_id"

text \<open>
  What the handlers use of code that the model does not contain: the hash and curve functions of
  mbedTLS; the signing, verification and identification of a transaction, for which libbtc
  serialises it and hashes it; the onion layer, the database and the callbacks that answer.
\<close>

record ln_hop_dataout_t =
  b_exit :: bool
  hop_short_channel_id :: u64
  amt_to_forward :: u64
  outgoing_cltv_value :: u32

datatype onion_result =
    Onion_Ok ln_hop_dataout_t bytes bytes   \<comment> \<open>hop data, next onion, shared secret\<close>
  | Onion_Err bytes bytes                   \<comment> \<open>reason, shared secret\<close>

record next_channel =
  nc_normal :: bool
  nc_htlc_minimum_msat :: u64
  nc_cltv_expiry_delta :: u16

record 'p ln_env =
  sha256 :: "bytes \<Rightarrow> bytes"
  ripemd160 :: "bytes \<Rightarrow> bytes"
  ec :: "'p ec_grp"
  priv2pub :: "bytes \<Rightarrow> bytes option"
  chain_hash :: bytes
  tx_sign :: "btc_tx_t \<Rightarrow> u64 \<Rightarrow> bytes \<Rightarrow> bytes option"  \<comment> \<open>amount and script of the funding output\<close>
  tx_verify_2of2 :: "btc_tx_t \<Rightarrow> u64 \<Rightarrow> bytes \<Rightarrow> bytes \<Rightarrow> bytes \<Rightarrow> bool"  \<comment> \<open>own, remote signature\<close>
  tx_txid :: "btc_tx_t \<Rightarrow> bytes option"
  htlc_verify :: "btc_tx_t \<Rightarrow> u64 \<Rightarrow> bytes \<Rightarrow> bytes \<Rightarrow> bytes \<Rightarrow> bool"  \<comment> \<open>amount, key, signature, script\<close>
  htlc_sign :: "btc_tx_t \<Rightarrow> u64 \<Rightarrow> bytes \<Rightarrow> bytes option"
  fresh_sig :: bytes                           \<comment> \<open>what a fresh block has at the place of a signature\<close>
  update_get_peer :: "bytes option"             \<comment> \<open>channel_update of the peer in the database\<close>
  onion_read :: "bytes \<Rightarrow> bytes \<Rightarrow> onion_result"
  failure_create :: "bytes \<Rightarrow> bytes \<Rightarrow> bytes"   \<comment> \<open>shared secret, reason\<close>
  failure_forward :: "bytes \<Rightarrow> bytes \<Rightarrow> bytes"
  block_count :: int
  preimages :: "(bytes \<times> u64) list"            \<comment> \<open>the invoices: preimage and amount\<close>
  next_self :: "u64 \<Rightarrow> next_channel option"
  fwd_update :: "u64 \<Rightarrow> bytes option"          \<comment> \<open>channel_update of the outgoing channel\<close>
  add_htlc_recv :: "bool \<times> u16"                \<comment> \<open>answer to \<open>LN_CB_ADD_HTLC_RECV\<close>\<close>

text \<open>The base fee of the final commitment transaction.\<close>

definition ln_closing_signed_initfee :: "ln_self_t \<Rightarrow> u64" where
  "ln_closing_signed_initfee self = LN_FEE_COMMIT_BASE * ucast (feerate_per_kw self) div 1000"

section \<open>Per-commitment secrets\<close>

definition LN_SECINDEX_INIT :: u64 where "LN_SECINDEX_INIT = 0xffffffffffff"

definition create_percommitsec :: "'p ln_env \<Rightarrow> ln_self_t \<Rightarrow> u64 \<Rightarrow> bytes \<times> bytes option" where
  \<comment> \<open>secret and point\<close>
  "create_percommitsec env self Index =
     (let s = ln_derkey_create_secret (sha256 env) (storage_seed self) Index in (s, priv2pub env s))"

text \<open>
  A failing \<^verbatim>\<open>btc_keys_priv2pub\<close>, for a secret that is no private key, leaves the old point here; the code
  copies an uninitialised buffer then.
\<close>

definition ln_signer_keys_update_force :: "'p ln_env \<Rightarrow> u64 \<Rightarrow> ln_self_t \<Rightarrow> ln_self_t" where
  "ln_signer_keys_update_force env Index self =
     (let (s, pt) = create_percommitsec env self Index; d = funding_local self in
      self\<lparr>priv_percommit := s,
        funding_local := (case pt of Some p \<Rightarrow> d\<lparr>pubkeys := (pubkeys d)[MSG_FUNDIDX_PER_COMMIT := p]\<rparr>
                          | None \<Rightarrow> d)\<rparr>)"

definition ln_signer_keys_update_storage :: "'p ln_env \<Rightarrow> ln_self_t \<Rightarrow> ln_self_t" where
  "ln_signer_keys_update_storage env self =
     (let self = ln_signer_keys_update_force env (storage_index self) self in
      self\<lparr>storage_index := storage_index self - 1\<rparr>)"

definition ln_signer_create_prev_percommitsec :: "'p ln_env \<Rightarrow> ln_self_t \<Rightarrow> bytes" where
  "ln_signer_create_prev_percommitsec env self =
     (if storage_index self + 2 \<le> LN_SECINDEX_INIT
      then fst (create_percommitsec env self (storage_index self + 2))
      else replicate BTC_SZ_PRIVKEY 0)"

definition store_peer_percommit_secret :: "'p ln_env \<Rightarrow> bytes \<Rightarrow> ln_self_t \<Rightarrow> ln_self_t c_result" where
  "store_peer_percommit_secret env p_prev_secret self =
     bind_c (ln_derkey_storage_insert_secret (sha256 env) (peer_storage self) p_prev_secret
       (peer_storage_index self)) (\<lambda>st.
     Inr (self\<lparr>peer_storage := st, peer_storage_index := peer_storage_index self - 1\<rparr>))"

definition update_scriptkeys :: "'p ln_env \<Rightarrow> ln_self_t \<Rightarrow> ln_self_t" where
  \<comment> \<open>\<open>ln_misc_update_scriptkeys(&self->funding_local, &self->funding_remote)\<close>\<close>
  "update_scriptkeys env self =
     (let (l, r) = ln_misc_update_scriptkeys (ec env) (sha256 env) (funding_local self) (funding_remote self)
      in self\<lparr>funding_local := l, funding_remote := r\<rparr>)"

section \<open>A concrete channel\<close>

text \<open>
  A small environment and a channel in it, for evaluating the handlers: the hash keeps 32 octets of
  its input, the curve is the group of order 7, and the commitment transactions are always built.
\<close>

definition toy_hash :: "bytes \<Rightarrow> bytes" where
  "toy_hash d = take 32 (d @ replicate 32 0)"

definition toy_commit :: ln_commit_data_t where
  "toy_commit = \<lparr>dust_limit_sat = 546, max_htlc_value_in_flight_msat = 1000000000,
     channel_reserve_sat = 700, htlc_minimum_msat = 0, to_self_delay = 40,
     max_accepted_htlcs = 6, cd_signature = replicate 64 0, txid = replicate 32 0, htlc_num = 0,
     commit_num = 0, revoke_num = 0\<rparr>"

definition toy_funding :: ln_funding_data_t where
  "toy_funding = \<lparr>pubkeys = map (mpi_octets 33) [1, 2, 3, 4, 5, 6],
     scriptpubkeys = replicate 5 (replicate 33 0)\<rparr>"

definition toy_self :: ln_self_t where
  "toy_self = \<lparr>channel_id = replicate 32 7, short_channel_id = 5, init_flag = 3, shutdown_flag = 0,
     lfeature_local = 2, peer_storage = ln_derkey_storage_init,
     peer_storage_index = LN_SECINDEX_INIT, storage_index = LN_SECINDEX_INIT - 2,
     storage_seed = replicate 32 1, priv_percommit = replicate 32 1, funding_local = toy_funding,
     funding_remote = toy_funding, prev_percommit = replicate 33 0,
     funding_txid = replicate 32 8, funding_txindex = 1, funding_sat = 1000000, redeem_fund = [],
     is_funder = True, is_announce = False, is_funding = False, is_opened = True, peer_node_id = 3 # replicate 32 2,
     anno_flag = 0, cnl_anno = None, anno_cltv_expiry_delta = 36, anno_htlc_minimum_msat = 0,
     key_fund_local_first = True,
     p_establish = None, tx_funding = [], min_depth = 3, ch_status = LN_STATUS_NORMAL,
     close_fee_sat = 0, close_last_fee_sat = 0, shutdown_scriptpk_local = [0x00, 20] @ replicate 20 1,
     shutdown_scriptpk_remote = [], lfeature_remote = 2, missing_pong_cnt = 0, last_num_pong_bytes = 0,
     obscured = 0, htlc_id_num = 0,
     our_msat = 600000000, their_msat = 400000000,
     cnl_add_htlc = replicate LN_HTLC_MAX htlc_zero, commit_local = toy_commit,
     commit_remote = toy_commit, feerate_per_kw = 500, fee_base_msat = 1000,
     fee_prop_millionths = 0, reest_commit_num = 0, reest_revoke_num = 0, err = None, events = []\<rparr>"

definition toy_update :: ln_cnl_update_t where
  "toy_update = \<lparr>cu_short_channel_id = 9, cu_timestamp = 6, cu_flags = 1,
     cu_cltv_expiry_delta = 36, cu_htlc_minimum_msat = 0, cu_fee_base_msat = 1000,
     cu_fee_prop_millionths = 0, cu_htlc_maximum_msat = 0\<rparr>"

definition toy_hop :: ln_hop_dataout_t where
  "toy_hop = \<lparr>b_exit = False, hop_short_channel_id = 9, amt_to_forward = 5000,
     outgoing_cltv_value = 500\<rparr>"

definition toy_env :: "nat ln_env" where
  "toy_env = \<lparr>sha256 = toy_hash, ripemd160 = (\<lambda>d. take 20 (toy_hash d)), ec = toy_ec, priv2pub = (\<lambda>s. Some (0 # s)),
     chain_hash = replicate 32 9, tx_sign = (\<lambda>_ _ _. Some (der_sig (replicate 64 1))),
     tx_verify_2of2 = (\<lambda>_ _ _ _ _. True), tx_txid = (\<lambda>_. Some (replicate 32 6)),
     htlc_verify = (\<lambda>_ _ _ _ _. True), htlc_sign = (\<lambda>_ _ _. Some (der_sig (replicate 64 2))),
     fresh_sig = replicate 64 0xcc, update_get_peer = None,
     onion_read = (\<lambda>packet hash. Onion_Ok toy_hop packet (replicate 32 3)),
     failure_create = (\<lambda>secret reason. reason), failure_forward = (\<lambda>secret reason. reason),
     block_count = 480, preimages = [(replicate 32 4, 10000)],
     next_self = (\<lambda>scid. if scid = 9 then Some \<lparr>nc_normal = True, nc_htlc_minimum_msat = 0,
       nc_cltv_expiry_delta = 36\<rparr> else None),
     fwd_update = (\<lambda>scid. Some (be16 MSGTYPE_CHANNEL_UPDATE @ replicate 64 0 @
       cnl_update_body (replicate 32 9) toy_update)),
     add_htlc_recv = (True, 0)\<rparr>"

lemmas toy_defs = toy_hash_def toy_commit_def toy_funding_def toy_self_def toy_update_def
  toy_hop_def toy_env_def LN_HTLC_MAX_def

end
