(* ===== verification/Channel_Check.thy ===== *)
theory Channel_Check
  imports Channel_State
begin

text \<open>
  The checks of \<^verbatim>\<open>ln/ln.c\<close> before an HTLC is offered (\<^verbatim>\<open>check_create_add_htlc\<close>) and when one
  arrives (\<^verbatim>\<open>check_recv_add_htlc_bolt2\<close>, \<^verbatim>\<open>..._bolt4_final\<close>, \<^verbatim>\<open>..._bolt4_forward\<close>,
  \<^verbatim>\<open>..._bolt4_common\<close>), with the reasons that they push for the onion error. All amounts and
  expiries are machine words: the lemmas say when a comparison means what its comment says and when
  a sum wraps around.
\<close>

section \<open>Constants\<close>

definition BTC_TX_LOCKTIME_LIMIT :: u32 where "BTC_TX_LOCKTIME_LIMIT = 500000000"
definition LN_MIN_FINAL_CLTV_EXPIRY :: u32 where "LN_MIN_FINAL_CLTV_EXPIRY = 9"
definition M_HYSTE_CLTV_EXPIRY_MIN :: u32 where "M_HYSTE_CLTV_EXPIRY_MIN = 7"
definition M_HYSTE_CLTV_EXPIRY_SOON :: u32 where "M_HYSTE_CLTV_EXPIRY_SOON = 1"
definition M_HYSTE_CLTV_EXPIRY_FAR :: u32 where "M_HYSTE_CLTV_EXPIRY_FAR = 144 * 15"
definition LN_SHDN_FLAG_SEND :: byte where "LN_SHDN_FLAG_SEND = 0x01"
definition LN_SHDN_FLAG_RECV :: byte where "LN_SHDN_FLAG_RECV = 0x02"
definition LN_CNLUPD_FLAGS_DISABLE :: u16 where "LN_CNLUPD_FLAGS_DISABLE = 0x0002"

definition LNERR_ONION_BADONION :: u16 where "LNERR_ONION_BADONION = 0x8000"
definition LNERR_ONION_PERM :: u16 where "LNERR_ONION_PERM = 0x4000"
definition LNERR_ONION_UPDATE :: u16 where "LNERR_ONION_UPDATE = 0x1000"
definition LNONION_TMP_CHAN_FAIL :: u16 where "LNONION_TMP_CHAN_FAIL = LNERR_ONION_UPDATE OR 7"
definition LNONION_PERM_CHAN_FAIL :: u16 where "LNONION_PERM_CHAN_FAIL = LNERR_ONION_PERM OR 8"
definition LNONION_UNKNOWN_NEXT_PEER :: u16 where "LNONION_UNKNOWN_NEXT_PEER = LNERR_ONION_PERM OR 10"
definition LNONION_AMT_BELOW_MIN :: u16 where "LNONION_AMT_BELOW_MIN = LNERR_ONION_UPDATE OR 11"
definition LNONION_FEE_INSUFFICIENT :: u16 where "LNONION_FEE_INSUFFICIENT = LNERR_ONION_UPDATE OR 12"
definition LNONION_INCORR_CLTV_EXPIRY :: u16 where "LNONION_INCORR_CLTV_EXPIRY = LNERR_ONION_UPDATE OR 13"
definition LNONION_EXPIRY_TOO_SOON :: u16 where "LNONION_EXPIRY_TOO_SOON = LNERR_ONION_UPDATE OR 14"
definition LNONION_UNKNOWN_PAY_HASH :: u16 where "LNONION_UNKNOWN_PAY_HASH = LNERR_ONION_PERM OR 15"
definition LNONION_INCORR_PAY_AMT :: u16 where "LNONION_INCORR_PAY_AMT = LNERR_ONION_PERM OR 16"
definition LNONION_FINAL_EXPIRY_TOO_SOON :: u16 where "LNONION_FINAL_EXPIRY_TOO_SOON = 17"
definition LNONION_FINAL_INCORR_CLTV_EXP :: u16 where "LNONION_FINAL_INCORR_CLTV_EXP = 18"
definition LNONION_FINAL_INCORR_HTLC_AMT :: u16 where "LNONION_FINAL_INCORR_HTLC_AMT = 19"
definition LNONION_CHAN_DISABLE :: u16 where "LNONION_CHAN_DISABLE = LNERR_ONION_UPDATE OR 20"
definition LNONION_EXPIRY_TOO_FAR :: u16 where "LNONION_EXPIRY_TOO_FAR = 21"

lemmas cltv_consts = BTC_TX_LOCKTIME_LIMIT_def LN_MIN_FINAL_CLTV_EXPIRY_def
  M_HYSTE_CLTV_EXPIRY_MIN_def M_HYSTE_CLTV_EXPIRY_SOON_def M_HYSTE_CLTV_EXPIRY_FAR_def

section \<open>Offering an HTLC\<close>

definition in_flight_offered :: "ln_update_add_htlc_t list \<Rightarrow> u64" where
  \<comment> \<open>the loop over \<open>addhtlc == LN_ADDHTLC_OFFER\<close>\<close>
  "in_flight_offered htlcs =
     sum_list (map amount_msat (filter (\<lambda>h. addhtlc (flag h) = LN_ADDHTLC_OFFER) htlcs))"

text \<open>The checks up to \<open>LABEL_EXIT\<close>: the error, or the slot that is free.\<close>

definition create_add_htlc_slot ::
  "'p ln_env \<Rightarrow> u64 \<Rightarrow> u32 \<Rightarrow> ln_self_t \<Rightarrow> lnerr_t + nat" where
  "create_add_htlc_slot env amount cltv_value self =
     (let close_fee_msat = LN_SATOSHI2MSAT (ln_closing_signed_initfee self) in
      if cltv_value \<ge> BTC_TX_LOCKTIME_LIMIT then Inl LNERR_INV_VALUE
      else if our_msat self < amount + LN_SATOSHI2MSAT (channel_reserve_sat (commit_remote self))
      then Inl LNERR_INV_VALUE
      else if our_msat self < amount + close_fee_msat then Inl LNERR_INV_VALUE
      else if max_accepted_htlcs (commit_remote self) \<le> htlc_num (commit_remote self)
      then Inl LNERR_INV_VALUE
      else if amount = 0 \<or> amount < htlc_minimum_msat (commit_remote self) then Inl LNERR_INV_VALUE
      else if in_flight_offered (cnl_add_htlc self) >
              max_htlc_value_in_flight_msat (commit_remote self)
      then Inl LNERR_INV_VALUE
      else (case first_slot LN_HTLC_EMPTY (cnl_add_htlc self) of
              None \<Rightarrow> Inl LNERR_HTLC_FULL | Some idx \<Rightarrow> Inr idx))"

text \<open>
  What follows \<open>LABEL_EXIT\<close> when the caller wants a reason: \<open>None\<close> is a NULL \<open>pReason\<close>, otherwise
  the new content of the buffer.
\<close>

definition create_add_htlc_reason ::
  "'p ln_env \<Rightarrow> bool \<Rightarrow> bytes option \<Rightarrow> bytes option c_result" where
  "create_add_htlc_reason env ret pReason =
     (case pReason of
        None \<Rightarrow> Inr None
      | Some old \<Rightarrow>
          let k = (\<lambda>upd. case upd of
                Some (buf_bolt, u) \<Rightarrow>
                  if ret
                  then (if cu_flags u AND LN_CNLUPD_FLAGS_DISABLE \<noteq> 0
                        then Inr (Some (be16 LNONION_CHAN_DISABLE @ be16 (of_nat (length buf_bolt)) @ buf_bolt))
                        else Inr (Some old))
                  else Inr (Some (be16 LNONION_TMP_CHAN_FAIL @ be16 (of_nat (length buf_bolt)) @ buf_bolt))
              | None \<Rightarrow>
                  if ret then Inr (Some old) else Inr (Some (be16 LNONION_PERM_CHAN_FAIL)))
          in (case update_get_peer env of
                None \<Rightarrow> k None
              | Some buf_bolt \<Rightarrow>
                  try_c (ln_msg_cnl_update_read (chain_hash env) buf_bolt)
                    (\<lambda>r. case r of Some (True, u) \<Rightarrow> k (Some (buf_bolt, u)) | _ \<Rightarrow> k None)))"

text \<open>The whole check: the slot if it succeeds, the reason, and the state with its error.\<close>

definition check_create_add_htlc ::
  "'p ln_env \<Rightarrow> bytes option \<Rightarrow> u64 \<Rightarrow> u32 \<Rightarrow> ln_self_t \<Rightarrow>
   (nat option \<times> bytes option \<times> ln_self_t) c_result" where
  "check_create_add_htlc env pReason amount cltv_value self =
     (let (slot, self) = (case create_add_htlc_slot env amount cltv_value self of
            Inl e \<Rightarrow> (None, set_err e self) | Inr idx \<Rightarrow> (Some idx, self)) in
      bind_c (create_add_htlc_reason env (slot \<noteq> None) pReason) (\<lambda>reason.
      Inr (slot, reason, self)))"

section \<open>Receiving an HTLC: BOLT 2\<close>

definition check_recv_add_htlc_bolt2 ::
  "ln_self_t \<Rightarrow> ln_update_add_htlc_t \<Rightarrow> bool \<times> ln_self_t" where
  "check_recv_add_htlc_bolt2 self p_htlc =
     (let fail = (\<lambda>e. (False, set_err e self)) in
      if shutdown_flag self AND LN_SHDN_FLAG_RECV \<noteq> 0 then fail LNERR_INV_STATE
      else if amount_msat p_htlc < htlc_minimum_msat (commit_local self) then fail LNERR_INV_VALUE
      else if their_msat self < amount_msat p_htlc then fail LNERR_INV_VALUE
      else if max_accepted_htlcs (commit_local self) < htlc_num (commit_local self)
      then fail LNERR_INV_VALUE
      else if in_flight_offered (cnl_add_htlc self) >
              max_htlc_value_in_flight_msat (commit_local self)
      then fail LNERR_INV_VALUE
      else if cltv_expiry p_htlc \<ge> BTC_TX_LOCKTIME_LIMIT then fail LNERR_INV_VALUE
      else if amount_msat p_htlc AND 0xffffffff00000000 \<noteq> 0 then fail LNERR_INV_VALUE
      else (True, self))"

section \<open>Receiving an HTLC: BOLT 4\<close>

text \<open>
  The checks return the bytes pushed for the onion error, or their result: for the final node the
  preimage.
\<close>

definition check_recv_add_htlc_bolt4_final ::
  "'p ln_env \<Rightarrow> ln_hop_dataout_t \<Rightarrow> ln_update_add_htlc_t \<Rightarrow> u32 \<Rightarrow> ln_self_t \<Rightarrow>
   (bytes + bytes) \<times> ln_self_t" where
  "check_recv_add_htlc_bolt4_final env pDataOut pAddHtlc Height self =
     (let fail = (\<lambda>reason. (Inl reason, set_err LNERR_INV_VALUE self));
          outgoing = outgoing_cltv_value pDataOut; amount = amount_msat pAddHtlc in
      case List.find (\<lambda>(preimage, _). sha256 env preimage = payment_sha256 pAddHtlc) (preimages env) of
        None \<Rightarrow> fail (be16 LNONION_UNKNOWN_PAY_HASH)
      | Some (preimage, preimg_amount) \<Rightarrow>
          if amount < preimg_amount then fail (be16 LNONION_INCORR_PAY_AMT)
          else if preimg_amount * 2 < amount then fail (be16 LNONION_INCORR_PAY_AMT)
          else if outgoing + M_HYSTE_CLTV_EXPIRY_SOON < Height + LN_MIN_FINAL_CLTV_EXPIRY \<or>
                  outgoing < Height + M_HYSTE_CLTV_EXPIRY_MIN
          then fail (be16 LNONION_FINAL_EXPIRY_TOO_SOON)
          else if outgoing \<noteq> cltv_expiry pAddHtlc
          then fail (be16 LNONION_FINAL_INCORR_CLTV_EXP @ be32 outgoing)
          else if amt_to_forward pDataOut > amount
          then fail (be16 LNONION_FINAL_INCORR_HTLC_AMT @ be32 (ucast amount))
          else (Inr preimage, self))"

definition ln_forward_fee :: "ln_self_t \<Rightarrow> u64 \<Rightarrow> u64" where
  "ln_forward_fee self AmountMsat =
     ucast (fee_base_msat self) + AmountMsat * ucast (fee_prop_millionths self) div 1000000"

definition check_recv_add_htlc_bolt4_forward ::
  "'p ln_env \<Rightarrow> ln_hop_dataout_t \<Rightarrow> ln_update_add_htlc_t \<Rightarrow> u32 \<Rightarrow> ln_self_t \<Rightarrow>
   ((bytes + unit) \<times> ln_self_t) c_result" where
  "check_recv_add_htlc_bolt4_forward env pDataOut pAddHtlc Height self =
     (let fail = (\<lambda>reason. Inr (Inl reason, set_err LNERR_INV_VALUE self));
          scid = hop_short_channel_id pDataOut; amt = amt_to_forward pDataOut;
          outgoing = outgoing_cltv_value pDataOut; cltv = cltv_expiry pAddHtlc;
          next = (if scid \<noteq> 0 then next_self env scid else None) in
      case next of
        None \<Rightarrow> fail (be16 LNONION_UNKNOWN_NEXT_PEER)
      | Some p_next_self \<Rightarrow>
          if \<not> nc_normal p_next_self then fail (be16 LNONION_UNKNOWN_NEXT_PEER)
          else (case fwd_update env scid of
            None \<Rightarrow> fail (be16 LNONION_UNKNOWN_NEXT_PEER)
          | Some cnlupd_buf \<Rightarrow>
              let with_update = (\<lambda>code. be16 code @ be16 (of_nat (length cnlupd_buf)) @ cnlupd_buf) in
              try_c (ln_msg_cnl_update_read (chain_hash env) cnlupd_buf) (\<lambda>r.
              case r of
                Some (True, cnlupd) \<Rightarrow>
                  let delta = ucast (cu_cltv_expiry_delta cnlupd);
                      next_delta = ucast (nc_cltv_expiry_delta p_next_self) in
                  if amt < nc_htlc_minimum_msat p_next_self
                  then fail (with_update LNONION_AMT_BELOW_MIN)
                  else if amount_msat pAddHtlc < amt + ln_forward_fee self amt
                  then fail (with_update LNONION_FEE_INSUFFICIENT)
                  else if cltv \<le> outgoing \<or> cltv + next_delta < outgoing
                  then fail (with_update LNONION_INCORR_CLTV_EXPIRY)
                  else if cltv + M_HYSTE_CLTV_EXPIRY_SOON < Height + delta \<or>
                          cltv < Height + M_HYSTE_CLTV_EXPIRY_MIN
                  then fail (with_update LNONION_EXPIRY_TOO_SOON)
                  else if cltv > Height + delta + M_HYSTE_CLTV_EXPIRY_FAR
                  then fail (be16 LNONION_EXPIRY_TOO_FAR)
                  else Inr (Inr (), self)
              | _ \<Rightarrow> fail (be16 LNONION_UNKNOWN_NEXT_PEER))))"

definition check_recv_add_htlc_bolt4_common ::
  "ln_self_t \<Rightarrow> (bytes + unit) \<times> ln_self_t" where
  "check_recv_add_htlc_bolt4_common self =
     (if shutdown_flag self AND LN_SHDN_FLAG_SEND \<noteq> 0
      then (Inl (be16 LNONION_PERM_CHAN_FAIL), set_err LNERR_INV_STATE self)
      else (Inr (), self))"

section \<open>What the checks establish\<close>

text \<open>The masks of the flag bytes.\<close>

lemma high_bits_zero_iff: "(x :: u64) AND 0xffffffff00000000 = 0 \<longleftrightarrow> x < 2 ^ 32"
proof -
  have eq: "(0xffffffff00000000 :: u64) = NOT (mask 32)"
    by (simp add: mask_eq_exp_minus_1)
  have split: "x = take_bit 32 x OR (x AND NOT (mask 32))"
    by (rule bit_word_eqI) (auto simp: bit_simps)
  have disj: "take_bit 32 x AND NOT (mask 32) = 0"
    by (rule bit_word_eqI) (auto simp: bit_simps)
  have "x AND NOT (mask 32) = 0 \<longleftrightarrow> take_bit 32 x = x"
    using split disj by (metis or.right_neutral)
  then show ?thesis
    unfolding eq
    by (simp add: word_unat_eq_iff unsigned_take_bit_eq take_bit_nat_eq_self_iff word_less_nat_alt)
qed

text \<open>
  An \<open>update_add_htlc\<close> that passes the BOLT 2 check is within its limits: the peer has the
  amount, the amount fits into 32 bits and is not below the node's own minimum, the expiry is a block
  height. Conversely the amount 0, which the comment at the check rejects, passes whenever the node's
  minimum is 0 and the other conditions hold.
\<close>

theorem bolt2_check_sound:
  assumes "fst (check_recv_add_htlc_bolt2 self h)"
  shows "amount_msat h \<le> their_msat self \<and> amount_msat h < 2 ^ 32 \<and>
    htlc_minimum_msat (commit_local self) \<le> amount_msat h \<and> cltv_expiry h < 500000000 \<and>
    shutdown_flag self AND LN_SHDN_FLAG_RECV = 0 \<and>
    (htlc_minimum_msat (commit_local self) = 0 \<longrightarrow>
     fst (check_recv_add_htlc_bolt2 self (h\<lparr>amount_msat := 0\<rparr>)))"
  using assms
  by (auto simp: check_recv_add_htlc_bolt2_def Let_def high_bits_zero_iff BTC_TX_LOCKTIME_LIMIT_def
      split: if_splits)

theorem bolt2_check_sound_witness:
  "let h = htlc_zero\<lparr>amount_msat := 5000, cltv_expiry := 500\<rparr> in
   amount_msat h \<le> their_msat toy_self \<and>
   fst (check_recv_add_htlc_bolt2 toy_self (h\<lparr>amount_msat := 0\<rparr>))"
proof -
  let ?h = "htlc_zero\<lparr>amount_msat := 5000, cltv_expiry := 500\<rparr>"
  have "fst (check_recv_add_htlc_bolt2 toy_self ?h)"
    by (simp add: check_recv_add_htlc_bolt2_def in_flight_offered_def toy_defs htlc_zero_def
        flag_zero_def BTC_TX_LOCKTIME_LIMIT_def)
  from bolt2_check_sound [OF this] show ?thesis
    unfolding Let_def by (simp add: toy_self_def toy_commit_def)
qed

lemma find_SomeD: "List.find P xs = Some x \<Longrightarrow> x \<in> set xs \<and> P x"
  by (induction xs) (auto split: if_splits)

text \<open>
  C31: an HTLC that passes the check of the final node pays an invoice of the node: the preimage in
  the result is the one of the invoice and hashes to the payment hash, the amount is at least the
  invoiced one and, for invoices below half of the 64-bit range, at most twice that; the onion agrees
  with the HTLC, and the expiry is at least eight blocks away.
\<close>

theorem final_check_sound:
  assumes "fst (check_recv_add_htlc_bolt4_final env d h Height self) = Inr p"
    and "cltv_expiry h < BTC_TX_LOCKTIME_LIMIT" and "Height < 2 ^ 31"
  shows "\<exists>invoiced. (p, invoiced) \<in> set (preimages env) \<and> sha256 env p = payment_sha256 h \<and>
    invoiced \<le> amount_msat h \<and>
    (invoiced < 2 ^ 63 \<longrightarrow> unat (amount_msat h) \<le> 2 * unat invoiced) \<and>
    outgoing_cltv_value d = cltv_expiry h \<and> amt_to_forward d \<le> amount_msat h \<and>
    unat Height + 8 \<le> unat (cltv_expiry h)"
proof -
  obtain a where find: "List.find (\<lambda>(p, _). sha256 env p = payment_sha256 h) (preimages env) = Some (p, a)"
    and le: "\<not> amount_msat h < a" "\<not> a * 2 < amount_msat h"
    and soon: "\<not> outgoing_cltv_value d + M_HYSTE_CLTV_EXPIRY_SOON < Height + LN_MIN_FINAL_CLTV_EXPIRY"
    and eq: "outgoing_cltv_value d = cltv_expiry h" "\<not> amt_to_forward d > amount_msat h"
    using assms(1) by (auto simp: check_recv_add_htlc_bolt4_final_def Let_def split: option.splits if_splits)
  have "unat Height + 9 \<le> unat (cltv_expiry h) + 1"
    using soon assms(2,3) unfolding eq(1)
    by (simp add: cltv_consts not_less word_le_nat_alt word_less_nat_alt unat_plus_no_wrap)
  moreover have "unat (amount_msat h) \<le> 2 * unat a" if "a < 2 ^ 63"
    using le(2) that by (simp add: not_less word_le_nat_alt word_less_nat_alt unat_word_ariths)
  ultimately show ?thesis
    using find_SomeD [OF find] le(1) eq by (intro exI [of _ a]) auto
qed

theorem final_check_sound_witness:
  "\<exists>invoiced. (replicate 32 4, invoiced) \<in> set (preimages toy_env) \<and> invoiced \<le> 10000 \<and>
     unat (480 :: u32) + 8 \<le> unat (500 :: u32)"
proof -
  let ?h = "htlc_zero\<lparr>amount_msat := 10000, cltv_expiry := 500, payment_sha256 := replicate 32 4\<rparr>"
  have "fst (check_recv_add_htlc_bolt4_final toy_env toy_hop ?h 480 toy_self) = Inr (replicate 32 4)"
    by (simp add: check_recv_add_htlc_bolt4_final_def toy_env_def toy_hop_def toy_hash_def cltv_consts)
  from final_check_sound [OF this] show ?thesis
    by (auto simp: cltv_consts)
qed

text \<open>Reading the \<open>channel_update\<close> of the database never leaves the message.\<close>

lemma cnl_update_read_defined: "defined_c (ln_msg_cnl_update_read genesis d)"
  unfolding ln_msg_cnl_update_read_def Let_def
  by (intro defined_intros conjI impI | simp split: if_split)+

lemma try_c_defined:
  "defined_c r \<Longrightarrow> (\<exists>o'. try_c r k = k o')"
  by (cases r) auto

lemma cnl_update_read_body:
  assumes "length genesis = BTC_SZ_HASH256" "length sig = LN_SZ_SIGNATURE" "cu_short_channel_id m \<noteq> 0"
  shows "ln_msg_cnl_update_read genesis
      (be16 MSGTYPE_CHANNEL_UPDATE @ sig @ cnl_update_body genesis m) =
    Inr (True, m\<lparr>cu_htlc_maximum_msat := 0\<rparr>)"
  using assms by (simp add: ln_msg_cnl_update_read_def cnl_update_body_def wire Let_def)

text \<open>What the acceptance by the forwarding check says of its inputs, in one place.\<close>

lemma forward_accept_iff:
  "check_recv_add_htlc_bolt4_forward env d h Height self = Inr (Inr (), self') \<longleftrightarrow>
   self' = self \<and> hop_short_channel_id d \<noteq> 0 \<and>
   (\<exists>nxt buf upd. next_self env (hop_short_channel_id d) = Some nxt \<and> nc_normal nxt \<and>
      fwd_update env (hop_short_channel_id d) = Some buf \<and>
      ln_msg_cnl_update_read (chain_hash env) buf = Inr (True, upd) \<and>
      nc_htlc_minimum_msat nxt \<le> amt_to_forward d \<and>
      amt_to_forward d + ln_forward_fee self (amt_to_forward d) \<le> amount_msat h \<and>
      outgoing_cltv_value d < cltv_expiry h \<and>
      outgoing_cltv_value d \<le> cltv_expiry h + ucast (nc_cltv_expiry_delta nxt) \<and>
      Height + ucast (cu_cltv_expiry_delta upd) \<le> cltv_expiry h + M_HYSTE_CLTV_EXPIRY_SOON \<and>
      Height + M_HYSTE_CLTV_EXPIRY_MIN \<le> cltv_expiry h \<and>
      cltv_expiry h \<le> Height + ucast (cu_cltv_expiry_delta upd) + M_HYSTE_CLTV_EXPIRY_FAR)"
  by (auto simp: check_recv_add_htlc_bolt4_forward_def Let_def try_c_def not_less not_le
      split: option.splits bool.splits if_splits sum.splits prod.splits)

text \<open>The sum of the fee check in natural numbers, as long as it does not wrap around.\<close>

lemma forward_fee_nat:
  assumes "unat (amt_to_forward d) * (unat (fee_prop_millionths self) + 1) < 2 ^ 63"
  shows "unat (amt_to_forward d + ln_forward_fee self (amt_to_forward d)) =
    unat (amt_to_forward d) + unat (fee_base_msat self) +
      unat (amt_to_forward d) * unat (fee_prop_millionths self) div 1000000"
proof -
  let ?a = "unat (amt_to_forward d)" and ?p = "unat (fee_prop_millionths self)"
    and ?b = "unat (fee_base_msat self)"
  have prod: "?a * ?p + ?a < 2 ^ 63" using assms by (simp add: algebra_simps)
  have lt: "unat (v :: u32) < 2 ^ 32" for v using unsigned_less [of v] by simp
  have "unat (amt_to_forward d * ucast (fee_prop_millionths self)) = ?a * ?p"
    using prod by (simp add: unat_word_ariths unat_ucast_u32)
  then have mul: "unat (amt_to_forward d * ucast (fee_prop_millionths self) div 1000000) =
      ?a * ?p div 1000000"
    by (simp add: unat_div)
  have le: "?a * ?p div 1000000 \<le> ?a * ?p" by simp
  have fee: "unat (ln_forward_fee self (amt_to_forward d)) = ?b + ?a * ?p div 1000000"
    unfolding ln_forward_fee_def using lt [of "fee_base_msat self"] le prod
    by (subst unat_plus_no_wrap) (simp_all add: mul unat_ucast_u32)
  have "unat (amt_to_forward d + ln_forward_fee self (amt_to_forward d)) =
      ?a + (?b + ?a * ?p div 1000000)"
    unfolding fee [symmetric] using fee lt [of "fee_base_msat self"] le prod by (intro unat_plus_no_wrap) simp
  then show ?thesis by simp
qed

text \<open>
  C6: which HTLCs the forwarding check lets through, in natural numbers: provided that the computation
  of the fee does not wrap around in 64 bits, exactly those whose onion names a channel of the node that
  is in normal operation and has a readable \<open>channel_update\<close>, that forward at least the minimum of that
  channel, that pay the amount to forward with the node's base and proportional fee on top, whose outgoing
  expiry is below the incoming one, and whose incoming expiry is at least seven blocks ahead, at least
  \<open>cltv_expiry_delta - 1\<close> and at most \<open>cltv_expiry_delta + 2160\<close> blocks ahead, for the delta of that
  \<open>channel_update\<close>. It does not ask that the outgoing expiry lies this delta below the incoming one.
\<close>

theorem forward_check_exact:
  assumes "cltv_expiry h < BTC_TX_LOCKTIME_LIMIT" "Height < 2 ^ 31"
    and "unat (amt_to_forward d) * (unat (fee_prop_millionths self) + 1) < 2 ^ 63"
  shows "check_recv_add_htlc_bolt4_forward env d h Height self = Inr (Inr (), self') \<longleftrightarrow>
    self' = self \<and> hop_short_channel_id d \<noteq> 0 \<and>
    (\<exists>nxt buf upd. next_self env (hop_short_channel_id d) = Some nxt \<and> nc_normal nxt \<and>
      fwd_update env (hop_short_channel_id d) = Some buf \<and>
      ln_msg_cnl_update_read (chain_hash env) buf = Inr (True, upd) \<and>
      unat (nc_htlc_minimum_msat nxt) \<le> unat (amt_to_forward d) \<and>
      unat (amt_to_forward d) + unat (fee_base_msat self) +
        unat (amt_to_forward d) * unat (fee_prop_millionths self) div 1000000 \<le> unat (amount_msat h) \<and>
      unat (outgoing_cltv_value d) < unat (cltv_expiry h) \<and>
      unat Height + 7 \<le> unat (cltv_expiry h) \<and>
      unat Height + unat (cu_cltv_expiry_delta upd) \<le> unat (cltv_expiry h) + 1 \<and>
      unat (cltv_expiry h) \<le> unat Height + unat (cu_cltv_expiry_delta upd) + 2160)"
proof -
  let ?h = "cltv_expiry h"
  have small: "unat ?h < 500000000" "unat Height < 2147483648"
    using assms(1,2) by (simp_all add: BTC_TX_LOCKTIME_LIMIT_def word_less_nat_alt)
  have u: "unat (ucast x :: u32) = unat x" "unat x < 65536" for x :: u16
    using unat_u16_less [of x] by (simp_all add: unsigned_ucast_eq take_bit_nat_eq_self)
  have add: "unat (a + b) = unat a + unat b" if "unat a + unat b < 4294967296" for a b :: u32
    using that by (simp add: unat_plus_no_wrap)
  have delta: "unat (Height + ucast x) = unat Height + unat x" "unat (?h + ucast x) = unat ?h + unat x" for x :: u16
    using small u(2) [of x] by (simp_all add: add u(1))
  have sums: "unat (Height + 7) = unat Height + 7" "unat (?h + 1) = unat ?h + 1"
    "unat (Height + ucast x + 2160) = unat Height + unat x + 2160" for x :: u16
    using small u(2) [of x] delta(1) [of x] by (simp_all add: add)
  have below: "outgoing_cltv_value d \<le> ?h + ucast x" if "outgoing_cltv_value d < ?h" for x :: u16
    using that delta(2) [of x] by (simp add: word_le_nat_alt word_less_nat_alt)
  show ?thesis
    unfolding forward_accept_iff cltv_consts
    using below by (auto simp: word_le_nat_alt word_less_nat_alt sums delta forward_fee_nat [OF assms(3)])
qed

lemma forward_accept_toy:
  "check_recv_add_htlc_bolt4_forward toy_env toy_hop
     (htlc_zero\<lparr>amount_msat := 6000, cltv_expiry := 536\<rparr>) 480 toy_self = Inr (Inr (), toy_self)"
  unfolding forward_accept_iff
  by (auto simp: toy_env_def toy_hop_def toy_self_def toy_update_def ln_forward_fee_def cltv_consts
      cnl_update_read_body)

theorem forward_check_exact_witness:
  "check_recv_add_htlc_bolt4_forward toy_env toy_hop
     (htlc_zero\<lparr>amount_msat := 6000, cltv_expiry := 536\<rparr>) 480 toy_self = Inr (Inr (), toy_self) \<and>
   check_recv_add_htlc_bolt4_forward toy_env toy_hop
     (htlc_zero\<lparr>amount_msat := 5999, cltv_expiry := 536\<rparr>) 480 toy_self \<noteq> Inr (Inr (), toy_self)"
proof -
  note exact = forward_check_exact [where env = toy_env and d = toy_hop and Height = 480 and self = toy_self
      and self' = toy_self]
  show ?thesis
    using exact [where h = "htlc_zero\<lparr>amount_msat := 6000, cltv_expiry := 536\<rparr>"]
      exact [where h = "htlc_zero\<lparr>amount_msat := 5999, cltv_expiry := 536\<rparr>"]
    by (simp add: toy_env_def toy_hop_def toy_self_def toy_update_def cltv_consts cnl_update_read_body)
qed

text \<open>
  The check that the comment at B10 describes, that the outgoing expiry is at least the
  \<open>cltv_expiry_delta\<close> of the outgoing channel below the incoming one, is not made: whatever that
  delta is, the result of the check is the same for every HTLC that passed the BOLT 2 check.
\<close>

theorem forward_ignores_outgoing_delta:
  assumes "cltv_expiry h < BTC_TX_LOCKTIME_LIMIT"
  shows "check_recv_add_htlc_bolt4_forward
      (env\<lparr>next_self := (\<lambda>scid. map_option (\<lambda>n. n\<lparr>nc_cltv_expiry_delta := delta\<rparr>) (next_self env scid))\<rparr>)
      d h Height self =
    check_recv_add_htlc_bolt4_forward env d h Height self"
proof -
  have no_wrap: "cltv_expiry h \<le> cltv_expiry h + ucast (x :: u16)" for x
  proof -
    have "unat (ucast x :: u32) < 65536"
      using unat_u16_less [of x] by (simp add: unsigned_ucast_eq take_bit_nat_eq_self)
    then show ?thesis
      using assms by (simp add: word_le_nat_alt word_less_nat_alt BTC_TX_LOCKTIME_LIMIT_def
          unat_plus_no_wrap)
  qed
  have late: "(cltv_expiry h \<le> outgoing_cltv_value d \<or>
      cltv_expiry h + ucast x < outgoing_cltv_value d) \<longleftrightarrow> cltv_expiry h \<le> outgoing_cltv_value d" for x :: u16
    using no_wrap [of x] by auto
  show ?thesis
    unfolding check_recv_add_htlc_bolt4_forward_def Let_def late
    by (cases "hop_short_channel_id d = 0"; cases "next_self env (hop_short_channel_id d)")
      (auto simp: late try_c_def split: option.split sum.split bool.split)
qed

theorem forward_ignores_outgoing_delta_witness:
  "check_recv_add_htlc_bolt4_forward
     (toy_env\<lparr>next_self := (\<lambda>scid. map_option (\<lambda>n. n\<lparr>nc_cltv_expiry_delta := 60000\<rparr>) (next_self toy_env scid))\<rparr>)
     toy_hop (htlc_zero\<lparr>amount_msat := 6000, cltv_expiry := 536\<rparr>) 480 toy_self =
   Inr (Inr (), toy_self)"
  using forward_ignores_outgoing_delta
      [where h = "htlc_zero\<lparr>amount_msat := 6000, cltv_expiry := 536\<rparr>" and env = toy_env and
        delta = 60000 and d = toy_hop and Height = 480 and self = toy_self]
  by (simp add: forward_accept_toy BTC_TX_LOCKTIME_LIMIT_def)

text \<open>
  The sum of the fee check wraps around. A node without a proportional fee that forwards some
  HTLC also accepts the same HTLC with an onion that asks it to forward the largest 64-bit amount.
\<close>

theorem forward_fee_wraps:
  assumes "check_recv_add_htlc_bolt4_forward env d h Height self = Inr (Inr (), self')"
    and "fee_prop_millionths self = 0" "0 < fee_base_msat self"
    and "ucast (fee_base_msat self) \<le> amount_msat h"
  shows "check_recv_add_htlc_bolt4_forward env (d\<lparr>amt_to_forward := 2 ^ 64 - 1\<rparr>) h Height self =
    Inr (Inr (), self)"
proof -
  have "(ucast (fee_base_msat self) :: u64) \<noteq> 0"
    using assms(3) by (simp add: word_unat_eq_iff word_less_nat_alt unat_ucast_u32)
  then have "(ucast (fee_base_msat self) :: u64) - 1 \<le> amount_msat h"
    using assms(4) by (rule order_trans [OF word_minus_1_le])
  moreover have "nc_htlc_minimum_msat n \<le> (2 ^ 64 - 1 :: u64)" for n
    by (rule u64_le_max)
  ultimately show ?thesis
    using assms(1,2) unfolding forward_accept_iff ln_forward_fee_def
    by (auto simp: u64_max_plus)
qed

theorem forward_fee_wraps_witness:
  "check_recv_add_htlc_bolt4_forward toy_env (toy_hop\<lparr>amt_to_forward := 2 ^ 64 - 1\<rparr>)
     (htlc_zero\<lparr>amount_msat := 6000, cltv_expiry := 536\<rparr>) 480 toy_self = Inr (Inr (), toy_self)"
  using forward_fee_wraps [OF forward_accept_toy] by (simp add: toy_self_def)

text \<open>
  What a successful \<^verbatim>\<open>check_create_add_htlc\<close> establishes for the HTLC to be offered: a free
  slot, an amount within the peer's minimum, an expiry that is a block height, room for another HTLC,
  and, unless the sums wrap around, that the node keeps the peer's channel reserve and can pay the
  closing fee. The state is not changed.
\<close>

theorem create_add_htlc_sound:
  assumes "check_create_add_htlc env reason amount cltv self = Inr (Some idx, reason', self')"
    and "unat amount + unat (LN_SATOSHI2MSAT (channel_reserve_sat (commit_remote self))) < 2 ^ 64"
    and "unat amount + unat (LN_SATOSHI2MSAT (ln_closing_signed_initfee self)) < 2 ^ 64"
  shows "self' = self \<and> idx < length (cnl_add_htlc self) \<and> LN_HTLC_EMPTY (cnl_add_htlc self ! idx) \<and>
    amount \<noteq> 0 \<and> htlc_minimum_msat (commit_remote self) \<le> amount \<and> cltv < 500000000 \<and>
    htlc_num (commit_remote self) < max_accepted_htlcs (commit_remote self) \<and>
    unat amount + unat (LN_SATOSHI2MSAT (channel_reserve_sat (commit_remote self))) \<le> unat (our_msat self) \<and>
    unat amount + unat (LN_SATOSHI2MSAT (ln_closing_signed_initfee self)) \<le> unat (our_msat self)"
proof -
  have slot: "create_add_htlc_slot env amount cltv self = Inr idx" "self' = self"
    using assms(1) by (auto simp: check_create_add_htlc_def bind_c_Inr_iff split: sum.splits)
  then have "first_slot LN_HTLC_EMPTY (cnl_add_htlc self) = Some idx"
    and le: "\<not> our_msat self < amount + LN_SATOSHI2MSAT (channel_reserve_sat (commit_remote self))"
      "\<not> our_msat self < amount + LN_SATOSHI2MSAT (ln_closing_signed_initfee self)"
    and rest: "amount \<noteq> 0" "htlc_minimum_msat (commit_remote self) \<le> amount" "cltv < 500000000"
      "htlc_num (commit_remote self) < max_accepted_htlcs (commit_remote self)"
    by (auto simp: create_add_htlc_slot_def Let_def BTC_TX_LOCKTIME_LIMIT_def
        split: if_splits option.splits)
  then show ?thesis
    using slot(2) first_slot_SomeD [of LN_HTLC_EMPTY "cnl_add_htlc self" idx]
      unat_plus_no_wrap [of amount] assms(2,3)
    by (simp add: not_less word_le_nat_alt)
qed

lemma toy_slots: "cnl_add_htlc toy_self = htlc_zero # replicate 5 htlc_zero"
proof -
  have max: "LN_HTLC_MAX = Suc 5" by (simp add: LN_HTLC_MAX_def)
  have "replicate LN_HTLC_MAX htlc_zero = htlc_zero # replicate 5 htlc_zero"
    by (simp only: max replicate_Suc)
  then show ?thesis by (simp add: toy_self_def)
qed

lemma toy_create: "create_add_htlc_slot toy_env 5000 500 toy_self = Inr 0"
  unfolding create_add_htlc_slot_def toy_slots
  by (simp add: toy_defs htlc_zero_def flag_zero_def in_flight_offered_def BTC_TX_LOCKTIME_LIMIT_def
      LN_SATOSHI2MSAT_def LN_HTLC_EMPTY_def ln_closing_signed_initfee_def LN_FEE_COMMIT_BASE_def)

theorem create_add_htlc_sound_witness:
  "LN_HTLC_EMPTY (cnl_add_htlc toy_self ! 0) \<and> 5000 + 700000 \<le> unat (our_msat toy_self)"
proof -
  have "check_create_add_htlc toy_env None 5000 500 toy_self = Inr (Some 0, None, toy_self)"
    by (simp add: check_create_add_htlc_def create_add_htlc_reason_def toy_create)
  from create_add_htlc_sound [OF this] show ?thesis
    by (simp add: toy_env_def toy_self_def toy_commit_def LN_SATOSHI2MSAT_def LN_HTLC_MAX_def
        ln_closing_signed_initfee_def LN_FEE_COMMIT_BASE_def)
qed

text \<open>
  Without that proviso the check is not safe. Where some HTLC can be offered, the largest 64-bit
  amount can be offered too, as soon as the peer's reserve and the closing fee are not 0: both sums
  wrap around to less than the balance, and no other check bounds the amount from above.
\<close>

theorem create_add_htlc_wraps:
  assumes "create_add_htlc_slot env amount cltv self = Inr idx"
    and "LN_SATOSHI2MSAT (channel_reserve_sat (commit_remote self)) \<noteq> 0"
    and "LN_SATOSHI2MSAT (ln_closing_signed_initfee self) \<noteq> 0"
    and "LN_SATOSHI2MSAT (channel_reserve_sat (commit_remote self)) \<le> our_msat self"
    and "LN_SATOSHI2MSAT (ln_closing_signed_initfee self) \<le> our_msat self"
  shows "create_add_htlc_slot env (2 ^ 64 - 1) cltv self = Inr idx"
proof -
  have le: "r - 1 \<le> our_msat self" if "r \<noteq> 0" "r \<le> our_msat self" for r
    using that by (rule order_trans [OF word_minus_1_le])
  have top: "htlc_minimum_msat (commit_remote self) \<le> (2 ^ 64 - 1 :: u64)"
    by (rule u64_le_max)
  have "\<not> our_msat self < (2 ^ 64 - 1) + LN_SATOSHI2MSAT (channel_reserve_sat (commit_remote self))"
    "\<not> our_msat self < (2 ^ 64 - 1) + LN_SATOSHI2MSAT (ln_closing_signed_initfee self)"
    using le assms(2-5) by (simp_all add: u64_max_plus not_less)
  then show ?thesis
    using assms(1) top unfolding create_add_htlc_slot_def Let_def
    by (auto split: if_splits)
qed

theorem create_add_htlc_wraps_witness:
  "create_add_htlc_slot toy_env (2 ^ 64 - 1) 500 toy_self = Inr 0"
  using create_add_htlc_wraps [OF toy_create]
  by (simp add: toy_env_def toy_self_def toy_commit_def LN_SATOSHI2MSAT_def
      ln_closing_signed_initfee_def LN_FEE_COMMIT_BASE_def)

end
