(* ===== verification/Commit_Build.thy ===== *)
theory Commit_Build
  imports Channel_State
begin

text \<open>
  Building a commitment transaction out of the state of a channel, \<^verbatim>\<open>create_to_local\<close> and
  \<^verbatim>\<open>create_to_remote\<close> in \<^verbatim>\<open>ln/ln.c\<close> with the functions below them, in the mode of normal
  operation (\<open>pClose\<close> is NULL: nothing is kept for a unilateral close). The local transaction is
  checked against the signatures of a \<open>commitment_signed\<close>, the remote one is signed for it.
\<close>

section \<open>HTLC scripts\<close>

text \<open>The loop that fills in \<open>script\<close> for every HTLC, with the script keys of one side.\<close>

fun htlcinfo_scripts ::
  "'p ln_env \<Rightarrow> bytes list \<Rightarrow> ln_script_htlcinfo_t list \<Rightarrow> ln_script_htlcinfo_t list c_result" where
  "htlcinfo_scripts env keys [] = Inr []"
| "htlcinfo_scripts env keys (info # infos) =
     with_bytes (ln_script_htlcinfo_script (sha256 env) (ripemd160 env) (htlc_type info)
         (keys ! MSG_SCRIPTIDX_LOCALHTLCKEY) (keys ! MSG_SCRIPTIDX_REVOCATION)
         (keys ! MSG_SCRIPTIDX_REMOTEHTLCKEY) (preimage_hash info) (expiry info)) (\<lambda>s.
     bind_c (htlcinfo_scripts env keys infos) (\<lambda>r. Inr (info\<lparr>hi_script := s\<rparr> # r)))"

definition get_info ::
  "ln_script_htlcinfo_t list \<Rightarrow> byte \<Rightarrow> (ln_script_htlcinfo_t \<Rightarrow> 'a c_result) \<Rightarrow> 'a c_result" where
  \<comment> \<open>\<open>ppHtlcInfo[htlc_idx]\<close>\<close>
  "get_info infos i k = (if unat i < length infos then k (infos ! unat i) else Inl Read_Overrun)"

definition spent_fee :: "ln_script_feeinfo_t \<Rightarrow> ln_script_htlcinfo_t \<Rightarrow> u64" where
  \<comment> \<open>\<open>fee_sat\<close>\<close>
  "spent_fee fi info = (if htlc_type info = LN_HTLCTYPE_OFFERED then htlc_timeout fi else htlc_success fi)"

section \<open>The local commitment transaction\<close>

definition create_to_local_htlcverify ::
  "'p ln_env \<Rightarrow> ln_self_t \<Rightarrow> btc_tx_t \<Rightarrow> bytes \<Rightarrow> bytes \<Rightarrow> u64 \<Rightarrow> bool c_result" where
  "create_to_local_htlcverify env self tx pHtlcSig script Amount =
     with_bytes (ln_misc_sigexpand pHtlcSig) (\<lambda>sig.
     Inr (htlc_verify env tx Amount
       (scriptpubkeys (funding_local self) ! MSG_SCRIPTIDX_REMOTEHTLCKEY) sig script))"

text \<open>
  The loop over the outputs. \<open>pHtlcSigs\<close> is the block of signatures, \<open>None\<close> for NULL; \<open>n\<close> is \<open>htlc_num\<close>.
  The signature is read at the place that \<open>n\<close> gives, whatever the number of signatures.
\<close>

fun local_spent_loop ::
  "'p ln_env \<Rightarrow> bytes option \<Rightarrow> byte \<Rightarrow> bytes \<Rightarrow> ln_script_htlcinfo_t list \<Rightarrow> ln_script_feeinfo_t \<Rightarrow>
   nat \<Rightarrow> btc_vout_t list \<Rightarrow> u16 \<Rightarrow> ln_self_t \<Rightarrow> (bool \<times> u16 \<times> ln_self_t) c_result" where
  "local_spent_loop env pHtlcSigs HtlcSigsNum ws infos fi idx [] n self = Inr (True, n, self)"
| "local_spent_loop env pHtlcSigs HtlcSigsNum ws infos fi idx (v # vs) n self =
     (if vout_opt v = LN_HTLCTYPE_TOLOCAL \<or> vout_opt v = LN_HTLCTYPE_TOREMOTE
      then local_spent_loop env pHtlcSigs HtlcSigsNum ws infos fi (Suc idx) vs n self
      else
        get_info infos (vout_opt v) (\<lambda>info.
        let fee_sat = spent_fee fi info in
        assert_c (vout_value v \<ge> dust_limit_satoshi fi + fee_sat) (
        bind_c (ln_script_htlctx_create (sha256 env) (vout_value v - fee_sat) ws (htlc_type info)
            (expiry info) (txid (commit_local self)) idx) (\<lambda>tx.
        if pHtlcSigs \<noteq> None \<and> HtlcSigsNum \<noteq> 0 then
          get_bytes LN_SZ_SIGNATURE (drop (unat n * LN_SZ_SIGNATURE) (the pHtlcSigs)) (\<lambda>sig _.
          bind_c (create_to_local_htlcverify env self tx sig (hi_script info) (vout_value v)) (\<lambda>ret.
          if ret
          then local_spent_loop env pHtlcSigs HtlcSigsNum ws infos fi (Suc idx) vs (n + 1)
                 (upd_htlc (add_htlc_idx info) (\<lambda>h. h\<lparr>htlc_signature := sig\<rparr>) self)
          else Inr (False, n, self)))
        else local_spent_loop env pHtlcSigs HtlcSigsNum ws infos fi (Suc idx) vs (n + 1) self))))"

definition create_to_local_spent ::
  "'p ln_env \<Rightarrow> bytes option \<Rightarrow> byte \<Rightarrow> btc_tx_t \<Rightarrow> bytes \<Rightarrow> ln_script_htlcinfo_t list \<Rightarrow>
   ln_script_feeinfo_t \<Rightarrow> ln_self_t \<Rightarrow> (bool \<times> ln_self_t) c_result" where
  "create_to_local_spent env pHtlcSigs HtlcSigsNum tx ws infos fi self =
     bind_c (local_spent_loop env pHtlcSigs HtlcSigsNum ws infos fi 0 (tx_vout tx) 0 self)
       (\<lambda>(ret, n, self).
       let ret = (if pHtlcSigs \<noteq> None \<and> unat n \<noteq> unat HtlcSigsNum then False else ret) in
       Inr (ret, self\<lparr>commit_local := (commit_local self)\<lparr>htlc_num := n\<rparr>\<rparr>))"

definition create_to_local_sign_verify ::
  "'p ln_env \<Rightarrow> ln_self_t \<Rightarrow> btc_tx_t \<Rightarrow> bytes \<Rightarrow> bool c_result" where
  "create_to_local_sign_verify env self tx own_sig =
     with_bytes (ln_misc_sigexpand (cd_signature (commit_local self))) (\<lambda>remote_sig.
     Inr (tx_verify_2of2 env tx (funding_sat self) (redeem_fund self) own_sig remote_sig))"

text \<open>
  The transaction that the state describes: the HTLCs, the fee, the amounts and the outputs.
  \<open>own\<close> are the script keys, \<open>our\<close> and \<open>their\<close> the balances left after the HTLCs \<open>infos\<close>.
\<close>

definition commit_struct ::
  "ln_self_t \<Rightarrow> bytes \<Rightarrow> bytes list \<Rightarrow> ln_script_feeinfo_t \<Rightarrow> ln_script_htlcinfo_t list \<Rightarrow> u64 \<Rightarrow> u64 \<Rightarrow> u64 \<Rightarrow>
   ln_script_committx_t" where
  "commit_struct self ws own fi infos our their CommitNum =
     \<lparr>fund_txid = funding_txid self, fund_txid_index = ucast (funding_txindex self),
      fund_satoshi = funding_sat self, fund_script = redeem_fund self,
      local_satoshi = LN_MSAT2SATOSHI our, local_script = ws,
      remote_satoshi = LN_MSAT2SATOSHI their, remote_pubkey = own ! MSG_SCRIPTIDX_REMOTEKEY,
      ct_obscured = obscured self XOR CommitNum, ct_feeinfo = fi, ct_htlcinfos = infos\<rparr>"

definition local_commit_tx ::
  "'p ln_env \<Rightarrow> u64 \<Rightarrow> u32 \<Rightarrow> u64 \<Rightarrow> ln_self_t \<Rightarrow>
   (bytes \<times> ln_script_htlcinfo_t list \<times> ln_script_feeinfo_t \<times> btc_tx_t) c_result" where
  \<comment> \<open>\<^verbatim>\<open>create_to_local\<close> up to \<^verbatim>\<open>ln_script_committx_create\<close>\<close>
  "local_commit_tx env CommitNum ToSelfDelay DustLimitSat self =
     (let keys = scriptpubkeys (funding_local self) in
      with_bytes (ln_script_create_tolocal (keys ! MSG_SCRIPTIDX_REVOCATION)
          (keys ! MSG_SCRIPTIDX_DELAYED) ToSelfDelay) (\<lambda>ws.
      let (infos, our, their) =
        create_to_local_htlcinfo_amount (cnl_add_htlc self) (our_msat self) (their_msat self) in
      bind_c (htlcinfo_scripts env keys infos) (\<lambda>infos.
      let fi = fst (ln_script_fee_calc (feerate_per_kw self) DustLimitSat infos) in
      Inr (ws, infos, fi, ln_script_committx_create (sha256 env) (ripemd160 env)
        (commit_struct self ws keys fi infos our their CommitNum) (is_funder self)))))"

definition create_to_local ::
  "'p ln_env \<Rightarrow> bytes option \<Rightarrow> byte \<Rightarrow> u64 \<Rightarrow> u32 \<Rightarrow> u64 \<Rightarrow> ln_self_t \<Rightarrow> (bool \<times> ln_self_t) c_result" where
  "create_to_local env pHtlcSigs HtlcSigsNum CommitNum ToSelfDelay DustLimitSat self =
     bind_c (local_commit_tx env CommitNum ToSelfDelay DustLimitSat self) (\<lambda>(ws, infos, fi, tx).
     case tx_sign env tx (funding_sat self) (redeem_fund self) of
       None \<Rightarrow> Inr (False, self)
     | Some sig \<Rightarrow>
         bind_c (create_to_local_sign_verify env self tx sig) (\<lambda>ret.
         if ret then
           (case tx_txid env tx of
              None \<Rightarrow> Inr (False, self)
            | Some tid \<Rightarrow>
                create_to_local_spent env pHtlcSigs HtlcSigsNum tx ws infos fi
                  (self\<lparr>commit_local := (commit_local self)\<lparr>txid := tid\<rparr>\<rparr>))
         else Inr (False, self)))"

section \<open>The remote commitment transaction\<close>

text \<open>
  Every HTLC transaction is signed; the signature goes to its place in the block \<open>sigs\<close> (\<open>None\<close> for
  NULL). The DER form that the signer returns is converted without a look at the result. The
  witness that the source adds afterwards is discarded with the transaction.
\<close>

definition put_sig :: "bytes \<Rightarrow> byte \<Rightarrow> bytes option \<Rightarrow> bytes option c_result" where
  "put_sig sig HtlcNum sigs =
     (case sigs of
        None \<Rightarrow> Inr None
      | Some blk \<Rightarrow>
          try_c (ln_misc_sigtrim sig) (\<lambda>s. case s of
            None \<Rightarrow> Inr (Some blk)
          | Some rs \<Rightarrow> bind_c (put_bytes blk (LN_SZ_SIGNATURE * unat HtlcNum) rs) (\<lambda>blk. Inr (Some blk))))"

definition create_to_remote_spenthtlc ::
  "'p ln_env \<Rightarrow> bytes \<Rightarrow> bytes option \<Rightarrow> btc_vout_t \<Rightarrow> bytes \<Rightarrow> ln_script_htlcinfo_t \<Rightarrow> u64 \<Rightarrow> byte \<Rightarrow> nat \<Rightarrow>
   (bool \<times> bytes option) c_result" where
  "create_to_remote_spenthtlc env remote_txid sigs v ws info Fee HtlcNum VoutIdx =
     bind_c (ln_script_htlctx_create (sha256 env) (vout_value v - Fee) ws (htlc_type info)
       (expiry info) remote_txid VoutIdx) (\<lambda>tx.
     case htlc_sign env tx (vout_value v) (hi_script info) of
       None \<Rightarrow> Inr (False, sigs)
     | Some sig \<Rightarrow> bind_c (put_sig sig HtlcNum sigs) (\<lambda>sigs. Inr (True, sigs)))"

fun remote_spent_loop ::
  "'p ln_env \<Rightarrow> bytes \<Rightarrow> bytes \<Rightarrow> ln_script_htlcinfo_t list \<Rightarrow> ln_script_feeinfo_t \<Rightarrow>
   nat \<Rightarrow> btc_vout_t list \<Rightarrow> u16 \<Rightarrow> bytes option \<Rightarrow> (bool \<times> u16 \<times> bytes option) c_result" where
  "remote_spent_loop env remote_txid ws infos fi idx [] n sigs = Inr (True, n, sigs)"
| "remote_spent_loop env remote_txid ws infos fi idx (v # vs) n sigs =
     (if vout_opt v = LN_HTLCTYPE_TOLOCAL \<or> vout_opt v = LN_HTLCTYPE_TOREMOTE
      then remote_spent_loop env remote_txid ws infos fi (Suc idx) vs n sigs
      else
        get_info infos (vout_opt v) (\<lambda>info.
        let fee_sat = spent_fee fi info in
        if vout_value v \<ge> dust_limit_satoshi fi + fee_sat then
          bind_c (create_to_remote_spenthtlc env remote_txid sigs v ws info fee_sat (ucast n) idx)
            (\<lambda>(ret, sigs).
            if ret then remote_spent_loop env remote_txid ws infos fi (Suc idx) vs (n + 1) sigs
            else Inr (False, n, sigs))
        else remote_spent_loop env remote_txid ws infos fi (Suc idx) vs n sigs))"

definition create_to_remote_spent ::
  "'p ln_env \<Rightarrow> ln_self_t \<Rightarrow> ln_commit_data_t \<Rightarrow> bytes option \<Rightarrow> btc_tx_t \<Rightarrow> bytes \<Rightarrow>
   ln_script_htlcinfo_t list \<Rightarrow> ln_script_feeinfo_t \<Rightarrow> (bool \<times> ln_commit_data_t \<times> bytes option) c_result" where
  "create_to_remote_spent env self pCommit sigs tx ws infos fi =
     with_bytes (ln_misc_sigexpand (cd_signature (commit_local self))) (\<lambda>_.
     bind_c (remote_spent_loop env (txid pCommit) ws infos fi 0 (tx_vout tx) 0 sigs) (\<lambda>(ret, n, sigs).
     Inr (ret, pCommit\<lparr>htlc_num := n\<rparr>, sigs)))"

definition remote_commit_tx ::
  "'p ln_env \<Rightarrow> u64 \<Rightarrow> u64 \<Rightarrow> ln_self_t \<Rightarrow>
   (bytes \<times> ln_script_htlcinfo_t list \<times> ln_script_feeinfo_t \<times> btc_tx_t) c_result" where
  \<comment> \<open>\<^verbatim>\<open>create_to_remote\<close> up to \<^verbatim>\<open>ln_script_committx_create\<close>\<close>
  "remote_commit_tx env CommitNum DustLimitSat self =
     (let keys = scriptpubkeys (funding_remote self) in
      with_bytes (ln_script_create_tolocal (keys ! MSG_SCRIPTIDX_REVOCATION)
          (keys ! MSG_SCRIPTIDX_DELAYED) (ucast (to_self_delay (commit_local self)))) (\<lambda>ws.
      let (infos, our, their) =
        create_to_remote_htlcinfo (cnl_add_htlc self) (their_msat self) (our_msat self) in
      bind_c (htlcinfo_scripts env keys infos) (\<lambda>infos.
      let fi = fst (ln_script_fee_calc (feerate_per_kw self) DustLimitSat infos) in
      Inr (ws, infos, fi, ln_script_committx_create (sha256 env) (ripemd160 env)
        (commit_struct self ws keys fi infos our their CommitNum) (\<not> is_funder self)))))"

text \<open>
  \<open>want\<close> says that the caller passed \<open>ppHtlcSigs\<close>; the block is allocated when there are HTLCs. The
  result is \<open>ret\<close>, the new \<open>*pCommit\<close> and the block.
\<close>

definition create_to_remote ::
  "'p ln_env \<Rightarrow> ln_commit_data_t \<Rightarrow> bool \<Rightarrow> u64 \<Rightarrow> ln_self_t \<Rightarrow>
   (bool \<times> ln_commit_data_t \<times> bytes option) c_result" where
  "create_to_remote env pCommit want CommitNum self =
     bind_c (remote_commit_tx env CommitNum (dust_limit_sat pCommit) self) (\<lambda>(ws, infos, fi, tx).
     case tx_sign env tx (funding_sat self) (redeem_fund self) of
       None \<Rightarrow> Inr (False, pCommit, None)
     | Some sig \<Rightarrow>
         (case tx_txid env tx of
            None \<Rightarrow> Inr (False, pCommit, None)
          | Some tid \<Rightarrow>
              try_c (ln_misc_sigtrim sig) (\<lambda>s.
              let pCommit = pCommit\<lparr>txid := tid\<rparr>;
                  pCommit = (case s of Some rs \<Rightarrow> pCommit\<lparr>cd_signature := rs\<rparr> | None \<Rightarrow> pCommit);
                  sigs = (if 0 < length infos \<and> want
                          then Some (concat (replicate (length infos) (fresh_sig env))) else None) in
              create_to_remote_spent env self pCommit sigs tx ws infos fi)))"

section \<open>Well-formed channels\<close>

text \<open>
  The sizes that the C types fix: the arrays of the channel, and what the hash functions, the curve
  and the signer return.
\<close>

definition wf_keys :: "ln_funding_data_t \<Rightarrow> bool" where
  "wf_keys d \<longleftrightarrow> length (pubkeys d) = 6 \<and> length (scriptpubkeys d) = 5 \<and>
     (\<forall>k\<in>set (pubkeys d) \<union> set (scriptpubkeys d). length k = BTC_SZ_PUBKEY)"

definition wf_htlc :: "ln_update_add_htlc_t \<Rightarrow> bool" where
  "wf_htlc h \<longleftrightarrow> length (payment_sha256 h) = BTC_SZ_HASH256 \<and> length (htlc_signature h) = LN_SZ_SIGNATURE"

definition wf_self :: "ln_self_t \<Rightarrow> bool" where
  "wf_self self \<longleftrightarrow>
     length (channel_id self) = LN_SZ_CHANNEL_ID \<and> length (storage_seed self) = BTC_SZ_PRIVKEY \<and>
     length (cnl_add_htlc self) = LN_HTLC_MAX \<and> (\<forall>h\<in>set (cnl_add_htlc self). wf_htlc h) \<and>
     wf_keys (funding_local self) \<and> wf_keys (funding_remote self) \<and>
     length (cd_signature (commit_local self)) = LN_SZ_SIGNATURE \<and>
     length (cd_signature (commit_remote self)) = LN_SZ_SIGNATURE"

definition wf_env :: "'p ln_env \<Rightarrow> bool" where
  "wf_env env \<longleftrightarrow>
     (\<forall>x. length (sha256 env x) = BTC_SZ_HASH256) \<and> (\<forall>x. length (ripemd160 env x) = BTC_SZ_HASH160) \<and>
     (\<forall>p k. ec_write (ec env) p = Some k \<longrightarrow> length k = BTC_SZ_PUBKEY) \<and>
     (\<forall>s k. length s = BTC_SZ_PRIVKEY \<longrightarrow> priv2pub env s = Some k \<longrightarrow> length k = BTC_SZ_PUBKEY) \<and>
     (\<forall>tx v s d. tx_sign env tx v s = Some d \<longrightarrow> (\<exists>rs. length rs = LN_SZ_SIGNATURE \<and> d = der_sig rs)) \<and>
     (\<forall>tx v s d. htlc_sign env tx v s = Some d \<longrightarrow> (\<exists>rs. length rs = LN_SZ_SIGNATURE \<and> d = der_sig rs)) \<and>
     length (fresh_sig env) = LN_SZ_SIGNATURE"

lemma wf_keys_nth: "wf_keys d \<Longrightarrow> i < 5 \<Longrightarrow> length (scriptpubkeys d ! i) = BTC_SZ_PUBKEY"
  by (auto simp: wf_keys_def)

lemma upd_htlc_simps [simp]:
  "funding_local (upd_htlc i f self) = funding_local self"
  "funding_remote (upd_htlc i f self) = funding_remote self"
  "commit_local (upd_htlc i f self) = commit_local self"
  "commit_remote (upd_htlc i f self) = commit_remote self"
  "channel_id (upd_htlc i f self) = channel_id self"
  "storage_seed (upd_htlc i f self) = storage_seed self"
  "storage_index (upd_htlc i f self) = storage_index self"
  "our_msat (upd_htlc i f self) = our_msat self"
  "their_msat (upd_htlc i f self) = their_msat self"
  "length (cnl_add_htlc (upd_htlc i f self)) = length (cnl_add_htlc self)"
  by (simp_all add: upd_htlc_def)

lemma set_upd_htlc:
  "h \<in> set (cnl_add_htlc (upd_htlc i f self)) \<Longrightarrow>
     h \<in> set (cnl_add_htlc self) \<or> (i < length (cnl_add_htlc self) \<and> h = f (cnl_add_htlc self ! i))"
  by (cases "i < length (cnl_add_htlc self)")
     (auto simp: upd_htlc_def list_update_beyond dest: set_update_subset_insert [THEN subsetD])

lemma wf_upd_htlc:
  assumes "wf_self self" "\<And>h. wf_htlc h \<Longrightarrow> wf_htlc (f h)"
  shows "wf_self (upd_htlc i f self)"
proof -
  have "wf_htlc h" if "h \<in> set (cnl_add_htlc (upd_htlc i f self))" for h
    using set_upd_htlc [OF that] assms nth_mem [of i "cnl_add_htlc self"] by (auto simp: wf_self_def)
  then show ?thesis using assms(1) by (simp add: wf_self_def)
qed

section \<open>The HTLCs of a commitment transaction\<close>

definition info_ok :: "ln_update_add_htlc_t list \<Rightarrow> ln_script_htlcinfo_t \<Rightarrow> bool" where
  "info_ok htlcs info \<longleftrightarrow> htlc_type info \<noteq> LN_HTLCTYPE_NONE \<and> add_htlc_idx info < length htlcs \<and>
     preimage_hash info \<in> payment_sha256 ` set htlcs"

lemma htlcinfo_simps [simp]:
  "htlc_type (htlcinfo i h t) = t" "add_htlc_idx (htlcinfo i h t) = i"
  "preimage_hash (htlcinfo i h t) = payment_sha256 h"
  by (simp_all add: htlcinfo_def)

lemma local_step_infos:
  "\<exists>new. fst (local_htlcinfo_step (i, h) s) = fst s @ new \<and> length new \<le> 1 \<and>
     (\<forall>info\<in>set new. htlc_type info \<noteq> LN_HTLCTYPE_NONE \<and> add_htlc_idx info = i \<and>
        preimage_hash info = payment_sha256 h)"
  by (cases s) (auto simp: local_htlcinfo_step_def flag_defs Let_def split: addhtlc.splits)

lemma remote_step_infos:
  "\<exists>new. fst (remote_htlcinfo_step (i, h) s) = fst s @ new \<and> length new \<le> 1 \<and>
     (\<forall>info\<in>set new. htlc_type info \<noteq> LN_HTLCTYPE_NONE \<and> add_htlc_idx info = i \<and>
        preimage_hash info = payment_sha256 h)"
  by (cases s) (auto simp: remote_htlcinfo_step_def flag_defs Let_def split: addhtlc.splits)

lemma fold_infos:
  assumes "\<And>i h s. \<exists>new. fst (f (i, h) s) = fst s @ new \<and> length new \<le> 1 \<and>
     (\<forall>info\<in>set new. htlc_type info \<noteq> LN_HTLCTYPE_NONE \<and> add_htlc_idx info = i \<and>
        preimage_hash info = payment_sha256 h)"
  shows "\<exists>new. fst (fold f (enumerate n hs) s) = fst s @ new \<and> length new \<le> length hs \<and>
     (\<forall>info\<in>set new. htlc_type info \<noteq> LN_HTLCTYPE_NONE \<and> add_htlc_idx info < n + length hs \<and>
        preimage_hash info \<in> payment_sha256 ` set hs)"
proof (induction hs arbitrary: n s)
  case (Cons h hs)
  obtain new where new: "fst (f (n, h) s) = fst s @ new" "length new \<le> 1"
    "\<forall>info\<in>set new. htlc_type info \<noteq> LN_HTLCTYPE_NONE \<and> add_htlc_idx info = n \<and>
        preimage_hash info = payment_sha256 h"
    using assms by blast
  obtain new' where "fst (fold f (enumerate (Suc n) hs) (f (n, h) s)) = fst (f (n, h) s) @ new'"
    "length new' \<le> length hs"
    "\<forall>info\<in>set new'. htlc_type info \<noteq> LN_HTLCTYPE_NONE \<and> add_htlc_idx info < Suc n + length hs \<and>
        preimage_hash info \<in> payment_sha256 ` set hs"
    using Cons.IH by blast
  with new show ?case by (intro exI [of _ "new @ new'"]) auto
qed simp

lemma htlcinfos_ok:
  "create_to_local_htlcinfo_amount htlcs a b = (infos, r) \<Longrightarrow>
     length infos \<le> length htlcs \<and> (\<forall>info\<in>set infos. info_ok htlcs info)"
  "create_to_remote_htlcinfo htlcs a b = (infos, r) \<Longrightarrow>
     length infos \<le> length htlcs \<and> (\<forall>info\<in>set infos. info_ok htlcs info)"
  using fold_infos [of local_htlcinfo_step 0 htlcs "([], a, b)", OF local_step_infos]
    fold_infos [of remote_htlcinfo_step 0 htlcs "([], a, b)", OF remote_step_infos]
  by (auto simp: create_to_local_htlcinfo_amount_def create_to_remote_htlcinfo_def info_ok_def)

text \<open>The scripts are always built, and nothing but the script changes.\<close>

lemma htlcinfo_script_defined:
  assumes "wf_env env" "length lk = BTC_SZ_PUBKEY" "length rk = BTC_SZ_PUBKEY"
  shows "\<exists>s. ln_script_htlcinfo_script (sha256 env) (ripemd160 env) t lk rv rk hash ex = Inr (buf_of s)"
proof -
  have "UTL_BUF_INIT = buf_of []" by (simp add: buf_of_def)
  then show ?thesis
    using assms create_script_offered_eq create_script_received_eq
    by (cases t) (auto simp: ln_script_htlcinfo_script_def wf_env_def Let_def btc_util_hash160_def)
qed

lemma htlcinfo_scripts_defined:
  assumes "wf_env env" "wf_keys d"
  shows "\<exists>r. htlcinfo_scripts env (scriptpubkeys d) infos = Inr r \<and>
    list_all2 (\<lambda>i j. \<exists>s. j = i\<lparr>hi_script := s\<rparr>) infos r"
proof (induction infos)
  case (Cons info infos)
  obtain s where s: "ln_script_htlcinfo_script (sha256 env) (ripemd160 env) (htlc_type info)
      (scriptpubkeys d ! MSG_SCRIPTIDX_LOCALHTLCKEY) (scriptpubkeys d ! MSG_SCRIPTIDX_REVOCATION)
      (scriptpubkeys d ! MSG_SCRIPTIDX_REMOTEHTLCKEY) (preimage_hash info) (expiry info) = Inr (buf_of s)"
    using assms(1) wf_keys_nth [OF assms(2)]
    by (atomize_elim, intro htlcinfo_script_defined) (simp_all add: fundidx_defs)
  with Cons.IH show ?case by auto
qed simp

section \<open>The HTLC outputs\<close>

definition is_htlc_out :: "btc_vout_t \<Rightarrow> bool" where
  "is_htlc_out v \<longleftrightarrow> vout_opt v \<noteq> LN_HTLCTYPE_TOLOCAL \<and> vout_opt v \<noteq> LN_HTLCTYPE_TOREMOTE"

text \<open>The HTLC outputs with their indices, in the order of the transaction.\<close>

fun htlc_outs :: "nat \<Rightarrow> btc_vout_t list \<Rightarrow> (nat \<times> btc_vout_t) list" where
  "htlc_outs idx [] = []"
| "htlc_outs idx (v # vs) = (if is_htlc_out v then [(idx, v)] else []) @ htlc_outs (Suc idx) vs"

lemma length_htlc_outs: "length (htlc_outs idx vs) = length (filter is_htlc_out vs)"
  by (induction vs arbitrary: idx) auto

lemma in_htlc_outs: "(i, v) \<in> set (htlc_outs idx vs) \<Longrightarrow> v \<in> set vs \<and> is_htlc_out v"
  by (induction vs arbitrary: idx) (auto split: if_splits)

text \<open>
  An output is sound when its \<open>opt\<close> is the index of an HTLC, and its value covers the dust limit and
  the fee of the HTLC transaction.
\<close>

definition out_ok :: "ln_script_feeinfo_t \<Rightarrow> ln_script_htlcinfo_t list \<Rightarrow> btc_vout_t \<Rightarrow> bool" where
  "out_ok fi infos v \<longleftrightarrow>
     (unat (vout_opt v) < length infos \<and>
      htlc_type (infos ! unat (vout_opt v)) \<noteq> LN_HTLCTYPE_NONE \<and>
      dust_limit_satoshi fi + spent_fee fi (infos ! unat (vout_opt v)) \<le> vout_value v)"

lemma unat_of_nat_byte: "n < 256 \<Longrightarrow> unat (of_nat n :: byte) = n"
  by (simp add: unat_of_nat take_bit_nat_eq_self)

lemma htlc_vouts_ok:
  assumes "length infos \<le> 253" "\<forall>info\<in>set infos. htlc_type info \<noteq> LN_HTLCTYPE_NONE"
    and "v \<in> set (htlc_vouts sha fi 0 infos)"
  shows "is_htlc_out v \<and> out_ok fi infos v"
proof -
  obtain lp where lp: "lp < length infos" "vout_opt v = of_nat lp"
    "dust_limit_satoshi fi + htlc_fee fi (htlc_type (infos ! lp)) \<le> vout_value v"
    using assms(3) by (auto simp: htlc_vouts_def Let_def in_set_enumerate_eq split: if_splits)
  have "unat (vout_opt v) = lp" using lp(1,2) assms(1) by (simp add: unat_of_nat_byte)
  moreover have "htlc_fee fi (htlc_type (infos ! lp)) = spent_fee fi (infos ! lp)"
    using assms(2) lp(1) nth_mem [of lp infos]
    by (cases "htlc_type (infos ! lp)") (auto simp: htlc_fee_def spent_fee_def)
  ultimately show ?thesis
    using lp assms by (auto simp: out_ok_def is_htlc_out_def LN_HTLCTYPE_TOLOCAL_def
        LN_HTLCTYPE_TOREMOTE_def)
qed

lemma length_htlc_vouts: "length (htlc_vouts sha fi n infos) \<le> length infos"
  by (induction infos arbitrary: n) (auto simp: htlc_vouts_def Let_def le_SucI)

text \<open>A transaction built from HTLCs that the state has: what the loops over its outputs find.\<close>

definition tx_ok :: "ln_script_feeinfo_t \<Rightarrow> ln_script_htlcinfo_t list \<Rightarrow> btc_tx_t \<Rightarrow> bool" where
  "tx_ok fi infos tx \<longleftrightarrow> (\<forall>v\<in>set (tx_vout tx). is_htlc_out v \<longrightarrow> out_ok fi infos v) \<and>
     length (htlc_outs 0 (tx_vout tx)) \<le> length infos"

lemma committx_tx_ok:
  assumes "length infos \<le> 253" "\<forall>info\<in>set infos. htlc_type info \<noteq> LN_HTLCTYPE_NONE"
    and "ct_htlcinfos cmt = infos" "ct_feeinfo cmt = fi"
  shows "tx_ok fi infos (ln_script_committx_create sha rip cmt Local)"
proof -
  let ?vs = "committx_vouts sha rip cmt Local"
  let ?hs = "htlc_vouts sha fi 0 infos"
  obtain pre where vs: "?vs = pre @ ?hs" "\<forall>v\<in>set pre. \<not> is_htlc_out v"
    using assms(3,4) unfolding committx_vouts_def Let_def is_htlc_out_def
    by (intro that [of "committx_vouts sha rip (cmt\<lparr>ct_htlcinfos := []\<rparr>) Local"])
      (auto simp: committx_vouts_def htlc_vouts_def Let_def is_htlc_out_def split: if_splits)
  have m: "mset (btc_util_sort_bip69 ?vs) = mset ?vs" by (rule bip69_mset)
  then have st: "set (btc_util_sort_bip69 ?vs) = set ?vs" by (metis set_mset_mset)
  have "length (filter is_htlc_out (btc_util_sort_bip69 ?vs)) = length (filter is_htlc_out ?vs)"
    using m by (metis mset_filter size_mset)
  also have "\<dots> \<le> length ?hs"
    using vs by simp
  also have "\<dots> \<le> length infos"
    by (rule length_htlc_vouts)
  finally show ?thesis
    using st vs htlc_vouts_ok [OF assms(1,2), of _ sha fi]
    by (auto simp: tx_ok_def ln_script_committx_create_def length_htlc_outs)
qed

lemma list_all2_scripts:
  assumes "list_all2 (\<lambda>i j. \<exists>s. j = i\<lparr>hi_script := s\<rparr>) infos r"
  shows "length r = length infos \<and>
    (\<forall>info\<in>set infos. info_ok htlcs info) = (\<forall>info\<in>set r. info_ok htlcs info)"
  using assms by (induction rule: list_all2_induct) (auto simp: info_ok_def)

text \<open>Both transactions are always built, and their HTLC outputs are sound.\<close>

lemma local_commit_tx_defined:
  assumes "wf_env env" "wf_self self"
  shows "\<exists>ws infos fi tx. local_commit_tx env CommitNum Delay Dust self = Inr (ws, infos, fi, tx) \<and>
    tx_ok fi infos tx \<and> length infos \<le> LN_HTLC_MAX"
proof -
  let ?d = "funding_local self"
  have d: "wf_keys ?d" using assms(2) by (simp add: wf_self_def)
  obtain infos our their where amt: "create_to_local_htlcinfo_amount (cnl_add_htlc self) (our_msat self)
      (their_msat self) = (infos, our, their)" by (metis prod_cases3)
  have ok: "length infos \<le> LN_HTLC_MAX" "\<forall>info\<in>set infos. info_ok (cnl_add_htlc self) info"
    using htlcinfos_ok(1) [OF amt] assms(2) by (auto simp: wf_self_def)
  obtain r where r: "htlcinfo_scripts env (scriptpubkeys ?d) infos = Inr r"
    "list_all2 (\<lambda>i j. \<exists>s. j = i\<lparr>hi_script := s\<rparr>) infos r"
    using htlcinfo_scripts_defined [OF assms(1) d] by blast
  then have r': "length r \<le> 253" "\<forall>info\<in>set r. htlc_type info \<noteq> LN_HTLCTYPE_NONE" "length r \<le> LN_HTLC_MAX"
    using list_all2_scripts [OF r(2), of "cnl_add_htlc self"] ok
    by (auto simp: LN_HTLC_MAX_def info_ok_def)
  show ?thesis
    using r amt r'
    by (auto simp: local_commit_tx_def Let_def commit_struct_def fundidx_defs
        create_tolocal_eq [OF wf_keys_nth [OF d] wf_keys_nth [OF d]] intro!: committx_tx_ok)
qed

lemma remote_commit_tx_defined:
  assumes "wf_env env" "wf_self self"
  shows "\<exists>ws infos fi tx. remote_commit_tx env CommitNum Dust self = Inr (ws, infos, fi, tx) \<and>
    tx_ok fi infos tx \<and> length infos \<le> LN_HTLC_MAX"
proof -
  let ?d = "funding_remote self"
  have d: "wf_keys ?d" using assms(2) by (simp add: wf_self_def)
  obtain infos our their where amt: "create_to_remote_htlcinfo (cnl_add_htlc self) (their_msat self)
      (our_msat self) = (infos, our, their)" by (metis prod_cases3)
  have ok: "length infos \<le> LN_HTLC_MAX" "\<forall>info\<in>set infos. info_ok (cnl_add_htlc self) info"
    using htlcinfos_ok(2) [OF amt] assms(2) by (auto simp: wf_self_def)
  obtain r where r: "htlcinfo_scripts env (scriptpubkeys ?d) infos = Inr r"
    "list_all2 (\<lambda>i j. \<exists>s. j = i\<lparr>hi_script := s\<rparr>) infos r"
    using htlcinfo_scripts_defined [OF assms(1) d] by blast
  then have r': "length r \<le> 253" "\<forall>info\<in>set r. htlc_type info \<noteq> LN_HTLCTYPE_NONE" "length r \<le> LN_HTLC_MAX"
    using list_all2_scripts [OF r(2), of "cnl_add_htlc self"] ok
    by (auto simp: LN_HTLC_MAX_def info_ok_def)
  show ?thesis
    using r amt r'
    by (auto simp: remote_commit_tx_def Let_def commit_struct_def fundidx_defs
        create_tolocal_eq [OF wf_keys_nth [OF d] wf_keys_nth [OF d]] intro!: committx_tx_ok)
qed

section \<open>Signatures of the HTLC outputs\<close>

definition nth_sig :: "bytes \<Rightarrow> nat \<Rightarrow> bytes" where
  "nth_sig s k = take LN_SZ_SIGNATURE (drop (k * LN_SZ_SIGNATURE) s)"

text \<open>What the peer's signature of an HTLC output has to be: valid for the HTLC transaction.\<close>

definition htlc_sig_ok ::
  "'p ln_env \<Rightarrow> ln_self_t \<Rightarrow> bytes \<Rightarrow> bytes \<Rightarrow> ln_script_htlcinfo_t list \<Rightarrow> ln_script_feeinfo_t \<Rightarrow>
   nat \<times> btc_vout_t \<Rightarrow> bytes \<Rightarrow> bool" where
  "htlc_sig_ok env self commit_txid ws infos fi = (\<lambda>(idx, v) sig.
     let info = infos ! unat (vout_opt v) in
     case ln_script_htlctx_create (sha256 env) (vout_value v - spent_fee fi info) ws (htlc_type info)
         (expiry info) commit_txid idx of
       Inr tx \<Rightarrow> htlc_verify env tx (vout_value v)
         (scriptpubkeys (funding_local self) ! MSG_SCRIPTIDX_REMOTEHTLCKEY) (der_sig sig) (hi_script info)
     | Inl _ \<Rightarrow> False)"

lemma htlc_sig_ok_upd [simp]:
  "htlc_sig_ok env (upd_htlc i f self) = htlc_sig_ok env self"
  by (simp add: htlc_sig_ok_def fun_eq_iff Let_def split: sum.splits)

lemma htlctx_create_defined:
  "t \<noteq> LN_HTLCTYPE_NONE \<Longrightarrow> \<exists>tx. ln_script_htlctx_create sha v ws t ex tid idx = Inr tx"
  by (cases t) (simp_all add: ln_script_htlctx_create_def)

lemma htlc_sig_okI:
  assumes "out_ok fi infos v" "\<And>tx a k g c. htlc_verify env tx a k g c"
  shows "htlc_sig_ok env self tid ws infos fi (idx, v) sig"
proof -
  let ?info = "infos ! unat (vout_opt v)"
  obtain tx where "ln_script_htlctx_create (sha256 env) (vout_value v - spent_fee fi ?info) ws
      (htlc_type ?info) (expiry ?info) tid idx = Inr tx"
    using assms(1) htlctx_create_defined unfolding out_ok_def by blast
  then show ?thesis using assms(2) by (simp add: htlc_sig_ok_def Let_def)
qed

text \<open>One pass of the loop over an HTLC output, with the signature of the message.\<close>

lemma local_loop_htlc:
  assumes "is_htlc_out v" "out_ok fi infos v" "N \<noteq> 0"
  shows "local_spent_loop env (Some s) N ws infos fi idx (v # vs) n self =
    (if (unat n + 1) * LN_SZ_SIGNATURE \<le> length s
     then (if htlc_sig_ok env self (txid (commit_local self)) ws infos fi (idx, v) (nth_sig s (unat n))
           then local_spent_loop env (Some s) N ws infos fi (Suc idx) vs (n + 1)
                  (upd_htlc (add_htlc_idx (infos ! unat (vout_opt v)))
                     (\<lambda>h. h\<lparr>htlc_signature := nth_sig s (unat n)\<rparr>) self)
           else Inr (False, n, self))
     else Inl Read_Overrun)"
proof -
  let ?info = "infos ! unat (vout_opt v)"
  obtain tx where tx: "ln_script_htlctx_create (sha256 env) (vout_value v - spent_fee fi ?info) ws
      (htlc_type ?info) (expiry ?info) (txid (commit_local self)) idx = Inr tx"
    using assms(2) htlctx_create_defined unfolding out_ok_def by blast
  have "length (nth_sig s (unat n)) = LN_SZ_SIGNATURE" if "(unat n + 1) * LN_SZ_SIGNATURE \<le> length s"
    using that by (simp add: nth_sig_def)
  moreover have "LN_SZ_SIGNATURE \<le> length (drop (unat n * LN_SZ_SIGNATURE) s) \<longleftrightarrow>
      (unat n + 1) * LN_SZ_SIGNATURE \<le> length s"
    by auto
  ultimately show ?thesis
    using assms tx
    by (auto simp: is_htlc_out_def out_ok_def get_info_def get_bytes_def nth_sig_def htlc_sig_ok_def
        create_to_local_htlcverify_def ln_misc_sigexpand_eq Let_def)
qed

lemma local_loop_skip:
  "\<not> is_htlc_out v \<Longrightarrow> local_spent_loop env sigs N ws infos fi idx (v # vs) n self =
     local_spent_loop env sigs N ws infos fi (Suc idx) vs n self"
  by (auto simp: is_htlc_out_def)

lemma local_loop_unsigned:
  assumes "is_htlc_out v" "out_ok fi infos v" "sigs = None \<or> N = 0"
  shows "local_spent_loop env sigs N ws infos fi idx (v # vs) n self =
    local_spent_loop env sigs N ws infos fi (Suc idx) vs (n + 1) self"
proof -
  let ?info = "infos ! unat (vout_opt v)"
  obtain tx where "ln_script_htlctx_create (sha256 env) (vout_value v - spent_fee fi ?info) ws
      (htlc_type ?info) (expiry ?info) (txid (commit_local self)) idx = Inr tx"
    using assms(2) htlctx_create_defined unfolding out_ok_def by blast
  then show ?thesis
    using assms by (auto simp: is_htlc_out_def out_ok_def get_info_def Let_def)
qed

text \<open>What the loop may change: the signatures in the slots.\<close>

definition same_but_sigs :: "ln_self_t \<Rightarrow> ln_self_t \<Rightarrow> bool" where
  "same_but_sigs self self' \<longleftrightarrow>
     (\<exists>sl. self' = self\<lparr>cnl_add_htlc := sl\<rparr> \<and>
        map (htlc_signature_update (\<lambda>_. [])) sl = map (htlc_signature_update (\<lambda>_. [])) (cnl_add_htlc self) \<and>
        ((\<forall>h\<in>set (cnl_add_htlc self). wf_htlc h) \<longrightarrow> (\<forall>h\<in>set sl. wf_htlc h)))"

lemma same_but_sigs_refl: "same_but_sigs self self"
  unfolding same_but_sigs_def by (rule exI [of _ "cnl_add_htlc self"]) simp

lemma same_but_sigs_trans: "same_but_sigs a b \<Longrightarrow> same_but_sigs b c \<Longrightarrow> same_but_sigs a c"
  unfolding same_but_sigs_def by auto

lemma same_but_sigs_upd:
  assumes "length s = LN_SZ_SIGNATURE"
  shows "same_but_sigs self (upd_htlc i (\<lambda>h. h\<lparr>htlc_signature := s\<rparr>) self)"
proof (cases "i < length (cnl_add_htlc self)")
  case True
  let ?sl = "(cnl_add_htlc self)[i := (cnl_add_htlc self ! i)\<lparr>htlc_signature := s\<rparr>]"
  have "map (htlc_signature_update (\<lambda>_. [])) ?sl = map (htlc_signature_update (\<lambda>_. [])) (cnl_add_htlc self)"
    using True by (simp add: map_update list_update_same_conv)
  moreover have "\<forall>h\<in>set ?sl. wf_htlc h" if "\<forall>h\<in>set (cnl_add_htlc self). wf_htlc h"
  proof
    fix h assume "h \<in> set ?sl"
    then have "h \<in> insert ((cnl_add_htlc self ! i)\<lparr>htlc_signature := s\<rparr>) (set (cnl_add_htlc self))"
      using set_update_subset_insert by (rule subsetD [rotated])
    then show "wf_htlc h" using that assms nth_mem [OF True] by (auto simp: wf_htlc_def)
  qed
  ultimately show ?thesis unfolding same_but_sigs_def upd_htlc_def by (intro exI [of _ ?sl]) simp
next
  case False
  then have "upd_htlc i (\<lambda>h. h\<lparr>htlc_signature := s\<rparr>) self = self"
    by (simp add: upd_htlc_def list_update_beyond)
  then show ?thesis by (simp add: same_but_sigs_refl)
qed

lemma length_nth_sig: "(k + 1) * LN_SZ_SIGNATURE \<le> length s \<Longrightarrow> length (nth_sig s k) = LN_SZ_SIGNATURE"
  by (simp add: nth_sig_def)

lemma unat_Suc_u16: "unat (n :: u16) + 1 < 2 ^ 16 \<Longrightarrow> unat (n + 1) = unat n + 1"
  by (simp add: unat_plus_no_wrap)

text \<open>
  What the loop computes with signatures: it goes through the HTLC outputs and the block side by
  side, from the \<open>n\<close>-th signature on.
\<close>

fun sig_check :: "('a \<Rightarrow> bytes \<Rightarrow> bool) \<Rightarrow> bytes \<Rightarrow> nat \<Rightarrow> 'a list \<Rightarrow> bool c_result" where
  "sig_check ok s n [] = Inr True"
| "sig_check ok s n (x # xs) =
     (if (n + 1) * LN_SZ_SIGNATURE \<le> length s
      then (if ok x (nth_sig s n) then sig_check ok s (n + 1) xs else Inr False)
      else Inl Read_Overrun)"

lemma sig_check_True:
  "sig_check ok s n xs = Inr True \<Longrightarrow> \<forall>k<length xs. ok (xs ! k) (nth_sig s (n + k))"
  by (induction xs arbitrary: n) (force simp: less_Suc_eq_0_disj split: if_splits)+

lemma sig_check_overrun:
  assumes "\<forall>k<m. ok (xs ! k) (nth_sig s (n + k))" "m < length xs" "length s < (n + m + 1) * LN_SZ_SIGNATURE"
  shows "sig_check ok s n xs = Inl Read_Overrun"
  using assms
proof (induction xs arbitrary: n m)
  case (Cons x xs)
  show ?case
  proof (cases m)
    case (Suc m')
    have "ok x (nth_sig s n)" using Cons.prems(1) Suc by force
    moreover have "\<forall>k<m'. ok (xs ! k) (nth_sig s (n + 1 + k))"
      using Cons.prems(1) Suc by force
    then have "sig_check ok s (n + 1) xs = Inl Read_Overrun"
      using Cons.IH [of m' "n + 1"] Cons.prems(2,3) Suc by simp
    ultimately show ?thesis by simp
  qed (use Cons.prems in simp)
qed simp

lemma sig_check_defined:
  "(n + length xs) * LN_SZ_SIGNATURE \<le> length s \<Longrightarrow> \<exists>b. sig_check ok s n xs = Inr b"
  by (induction xs arbitrary: n) auto

lemma sig_check_result: "sig_check ok s n xs = Inl e \<Longrightarrow> e = Read_Overrun"
  by (induction xs arbitrary: n) (auto split: if_splits)

lemma local_loop_signed:
  assumes "N \<noteq> 0" "\<forall>v\<in>set vs. is_htlc_out v \<longrightarrow> out_ok fi infos v"
    and "unat n + length (htlc_outs idx vs) < 2 ^ 16"
  shows "case sig_check (htlc_sig_ok env self (txid (commit_local self)) ws infos fi) s (unat n)
      (htlc_outs idx vs) of
    Inl e \<Rightarrow> local_spent_loop env (Some s) N ws infos fi idx vs n self = Inl e
  | Inr ret \<Rightarrow> \<exists>n' self'. local_spent_loop env (Some s) N ws infos fi idx vs n self = Inr (ret, n', self') \<and>
      same_but_sigs self self' \<and> (ret \<longrightarrow> unat n' = unat n + length (htlc_outs idx vs))"
  using assms(2,3)
proof (induction vs arbitrary: idx n self)
  case (Cons v vs)
  show ?case
  proof (cases "is_htlc_out v")
    case False
    then have outs: "htlc_outs idx (v # vs) = htlc_outs (Suc idx) vs" by simp
    show ?thesis
      using Cons.IH [of n "Suc idx" self] Cons.prems False
      unfolding local_loop_skip [OF False] outs by simp
  next
    case True
    have n: "unat (n + 1) = unat n + 1" using Cons.prems(2) True by (intro unat_Suc_u16) simp
    have ok: "out_ok fi infos v" using Cons.prems(1) True by simp
    note step = local_loop_htlc [OF True ok assms(1), of env s ws idx vs n self]
    show ?thesis
    proof (cases "(unat n + 1) * LN_SZ_SIGNATURE \<le> length s \<and>
        htlc_sig_ok env self (txid (commit_local self)) ws infos fi (idx, v) (nth_sig s (unat n))")
      case go: True
      let ?self2 = "upd_htlc (add_htlc_idx (infos ! unat (vout_opt v)))
        (\<lambda>h. h\<lparr>htlc_signature := nth_sig s (unat n)\<rparr>) self"
      have "same_but_sigs self ?self2"
        using go same_but_sigs_upd length_nth_sig by blast
      then show ?thesis
        using Cons.IH [of "n + 1" "Suc idx" ?self2] Cons.prems True go step
        by (auto simp: n split: sum.splits intro: same_but_sigs_trans)
    next
      case False
      then show ?thesis using step True by (auto simp: same_but_sigs_refl)
    qed
  qed
qed (simp add: same_but_sigs_refl)

lemma local_loop_none:
  assumes "sigs = None \<or> N = 0" "\<forall>v\<in>set vs. is_htlc_out v \<longrightarrow> out_ok fi infos v"
  shows "local_spent_loop env sigs N ws infos fi idx vs n self =
    Inr (True, n + of_nat (length (htlc_outs idx vs)), self)"
  using assms(2)
proof (induction vs arbitrary: idx n)
  case (Cons v vs)
  show ?case
  proof (cases "is_htlc_out v")
    case True
    then show ?thesis
      using Cons local_loop_unsigned [OF True _ assms(1), of fi infos env ws idx vs n self] by simp
  next
    case False
    then show ?thesis using Cons unfolding local_loop_skip [OF False] by simp
  qed
qed simp

section \<open>Accepting a local commitment transaction\<close>

lemma htlc_sig_ok_commit [simp]:
  "htlc_sig_ok env (self\<lparr>commit_local := c\<rparr>) = htlc_sig_ok env self"
  by (simp add: htlc_sig_ok_def fun_eq_iff Let_def split: sum.splits)

lemma same_but_sigs_fields:
  assumes "same_but_sigs self self'"
  shows "commit_local self' = commit_local self" "funding_local self' = funding_local self"
  using assms by (auto simp: same_but_sigs_def)

text \<open>The check of the outputs against a block of signatures, with its bookkeeping.\<close>

lemma create_to_local_spent_signed:
  assumes "tx_ok fi infos tx" "length infos \<le> LN_HTLC_MAX"
  defines "outs \<equiv> htlc_outs 0 (tx_vout tx)"
  shows "case (if N = 0 then Inr True
        else sig_check (htlc_sig_ok env self (txid (commit_local self)) ws infos fi) s 0 outs) of
      Inl e \<Rightarrow> create_to_local_spent env (Some s) N tx ws infos fi self = Inl e
    | Inr ret \<Rightarrow> \<exists>self2 n. same_but_sigs self self2 \<and>
        create_to_local_spent env (Some s) N tx ws infos fi self =
          Inr (ret \<and> length outs = unat N, self2\<lparr>commit_local := (commit_local self)\<lparr>htlc_num := n\<rparr>\<rparr>) \<and>
        (ret \<longrightarrow> unat n = length outs)"
proof -
  have ok: "\<forall>v\<in>set (tx_vout tx). is_htlc_out v \<longrightarrow> out_ok fi infos v"
    and len: "length outs \<le> LN_HTLC_MAX"
    using assms(1,2) by (auto simp: tx_ok_def outs_def)
  have small: "length outs < 2 ^ 16" using len by (simp add: LN_HTLC_MAX_def)
  let ?loop = "local_spent_loop env (Some s) N ws infos fi 0 (tx_vout tx) 0 self"
  show ?thesis
  proof (cases "N = 0")
    case True
    have "?loop = Inr (True, of_nat (length outs), self)"
      using local_loop_none [of "Some s" N "tx_vout tx" fi infos env ws 0 0 self] ok True
      by (simp add: outs_def)
    then have "create_to_local_spent env (Some s) N tx ws infos fi self =
        Inr (length outs = unat N, self\<lparr>commit_local := (commit_local self)\<lparr>htlc_num := of_nat (length outs)\<rparr>\<rparr>)"
      using small by (simp add: create_to_local_spent_def)
    then show ?thesis
      using True small
      by (auto intro!: exI [of _ self] exI [of _ "of_nat (length outs)"] same_but_sigs_refl)
  next
    case False
    let ?sc = "sig_check (htlc_sig_ok env self (txid (commit_local self)) ws infos fi) s 0 outs"
    note L = local_loop_signed [OF False ok, where idx = 0 and n = 0 and env = env and self = self
        and ws = ws and s = s, folded outs_def, simplified, OF small [simplified]]
    show ?thesis
    proof (cases ?sc)
      case (Inl e)
      then show ?thesis using L False by (simp add: create_to_local_spent_def)
    next
      case (Inr ret)
      then obtain n self2 where r: "?loop = Inr (ret, n, self2)" "same_but_sigs self self2"
        "ret \<longrightarrow> unat n = length outs" using L by auto
      have "create_to_local_spent env (Some s) N tx ws infos fi self =
          Inr (ret \<and> length outs = unat N, self2\<lparr>commit_local := (commit_local self)\<lparr>htlc_num := n\<rparr>\<rparr>)"
        using r(1,3) Inr same_but_sigs_fields(1) [OF r(2)]
        by (cases ret) (simp_all add: create_to_local_spent_def)
      then show ?thesis
        unfolding Inr if_not_P [OF False] sum.case using r by blast
    qed
  qed
qed

lemma wf_cd_signature: "wf_self self \<Longrightarrow> length (cd_signature (commit_local self)) = 64"
  by (simp add: wf_self_def)

lemma create_to_local_eq:
  assumes "wf_self self" "local_commit_tx env CommitNum Delay Dust self = Inr (ws, infos, fi, tx)"
  shows "create_to_local env sigs N CommitNum Delay Dust self =
    (case tx_sign env tx (funding_sat self) (redeem_fund self) of
       None \<Rightarrow> Inr (False, self)
     | Some own \<Rightarrow>
         if tx_verify_2of2 env tx (funding_sat self) (redeem_fund self) own
              (der_sig (cd_signature (commit_local self)))
         then (case tx_txid env tx of
                 None \<Rightarrow> Inr (False, self)
               | Some tid \<Rightarrow> create_to_local_spent env sigs N tx ws infos fi
                   (self\<lparr>commit_local := (commit_local self)\<lparr>txid := tid\<rparr>\<rparr>))
         else Inr (False, self))"
  using assms
  by (simp add: create_to_local_def create_to_local_sign_verify_def
      ln_misc_sigexpand_eq [OF wf_cd_signature] split: option.splits)

text \<open>
  A commitment that \<^verbatim>\<open>create_to_local\<close> accepts is fully signed.
\<close>

lemma local_commit_accepted:
  assumes "wf_env env" "wf_self self"
    and "create_to_local env (Some sigs) N CommitNum Delay Dust self = Inr (True, self')"
  shows "\<exists>ws infos fi tx own tid.
    local_commit_tx env CommitNum Delay Dust self = Inr (ws, infos, fi, tx) \<and>
    tx_sign env tx (funding_sat self) (redeem_fund self) = Some own \<and>
    tx_verify_2of2 env tx (funding_sat self) (redeem_fund self) own
      (der_sig (cd_signature (commit_local self))) \<and>
    tx_txid env tx = Some tid \<and> txid (commit_local self') = tid \<and>
    length (htlc_outs 0 (tx_vout tx)) = unat N \<and> unat (htlc_num (commit_local self')) = unat N \<and>
    (\<forall>k<unat N. htlc_sig_ok env self tid ws infos fi (htlc_outs 0 (tx_vout tx) ! k) (nth_sig sigs k))"
proof -
  obtain ws infos fi tx where tx: "local_commit_tx env CommitNum Delay Dust self = Inr (ws, infos, fi, tx)"
    "tx_ok fi infos tx" "length infos \<le> LN_HTLC_MAX"
    using local_commit_tx_defined [OF assms(1,2)] by blast
  note eq = assms(3) [unfolded create_to_local_eq [OF assms(2) tx(1)]]
  obtain own tid where own: "tx_sign env tx (funding_sat self) (redeem_fund self) = Some own"
    "tx_verify_2of2 env tx (funding_sat self) (redeem_fund self) own (der_sig (cd_signature (commit_local self)))"
    "tx_txid env tx = Some tid"
    using eq by (auto split: option.splits if_splits)
  let ?self = "self\<lparr>commit_local := (commit_local self)\<lparr>txid := tid\<rparr>\<rparr>"
  let ?ok = "htlc_sig_ok env self tid ws infos fi"
  have sp: "create_to_local_spent env (Some sigs) N tx ws infos fi ?self = Inr (True, self')"
    using eq own by simp
  let ?r = "if N = 0 then Inr True else sig_check ?ok sigs 0 (htlc_outs 0 (tx_vout tx))"
  note S = create_to_local_spent_signed [OF tx(2,3), where N = N and env = env and self = ?self and ws = ws and s = sigs]
  have r: "?r = Inr True"
    using S sp by (cases ?r) (auto split: if_splits)
  then obtain n where n: "length (htlc_outs 0 (tx_vout tx)) = unat N" "unat n = length (htlc_outs 0 (tx_vout tx))"
    "commit_local self' = (commit_local ?self)\<lparr>htlc_num := n\<rparr>"
    using S sp by (auto split: if_splits)
  have "\<forall>k<unat N. ?ok (htlc_outs 0 (tx_vout tx) ! k) (nth_sig sigs k)"
    using r sig_check_True [of ?ok sigs 0 "htlc_outs 0 (tx_vout tx)"] n(1) by (auto split: if_splits)
  then show ?thesis
    using tx(1) own n by auto
qed

text \<open>A channel with received HTLCs of 5000 satoshi in its first two slots.\<close>

definition toy_htlc :: ln_update_add_htlc_t where
  "toy_htlc = htlc_zero\<lparr>amount_msat := 5000000, cltv_expiry := 500,
     flag := flag_zero\<lparr>addhtlc := LN_ADDHTLC_RECV, comrecv := True, revsend := True\<rparr>\<rparr>"

definition toy_self2 :: ln_self_t where
  "toy_self2 = toy_self\<lparr>cnl_add_htlc := toy_htlc # toy_htlc # replicate 4 htlc_zero\<rparr>"

lemma toy_wf: "wf_env toy_env" "wf_self toy_self2"
proof -
  have "\<exists>rs. length rs = LN_SZ_SIGNATURE \<and> der_sig (replicate 64 b) = der_sig rs" for b
    by (rule exI [of _ "replicate 64 b"]) simp
  moreover have "sha256 toy_env = toy_hash" "ripemd160 toy_env = (\<lambda>d. take 20 (toy_hash d))"
    "ec_write (ec toy_env) = mpi_write 33" "priv2pub toy_env = (\<lambda>s. Some (0 # s))"
    "tx_sign toy_env = (\<lambda>_ _ _. Some (der_sig (replicate 64 1)))"
    "htlc_sign toy_env = (\<lambda>_ _ _. Some (der_sig (replicate 64 2)))"
    "length (fresh_sig toy_env) = LN_SZ_SIGNATURE"
    by (simp_all add: toy_env_def toy_ec_def)
  moreover have "length (toy_hash x) = 32" for x by (simp add: toy_hash_def)
  ultimately show "wf_env toy_env"
    by (simp add: wf_env_def mpi_write_def)
  show "wf_self toy_self2"
    by (auto simp: wf_self_def toy_self2_def toy_self_def wf_keys_def toy_funding_def wf_htlc_def
        toy_htlc_def htlc_zero_def toy_commit_def LN_HTLC_MAX_def)
qed

lemma committx_outs:
  assumes "length infos \<le> 253" "\<forall>info\<in>set infos. htlc_type info \<noteq> LN_HTLCTYPE_NONE"
    and "ct_htlcinfos cmt = infos" "ct_feeinfo cmt = fi"
  shows "length (htlc_outs 0 (tx_vout (ln_script_committx_create sha rip cmt Local))) =
    length (htlc_vouts sha fi 0 infos)"
proof -
  let ?vs = "committx_vouts sha rip cmt Local" and ?hs = "htlc_vouts sha fi 0 infos"
  have "filter is_htlc_out ?vs = filter is_htlc_out ?hs"
    using assms(3,4) by (simp add: committx_vouts_def Let_def is_htlc_out_def)
  also have "\<dots> = ?hs"
    using htlc_vouts_ok [OF assms(1,2)] by (simp add: filter_id_conv)
  finally have "length (filter is_htlc_out ?vs) = length ?hs" by simp
  then show ?thesis
    by (simp add: ln_script_committx_create_def length_htlc_outs)
      (metis bip69_mset mset_filter size_mset)
qed

lemma toy_local_commit:
  "\<exists>ws infos fi tx. local_commit_tx toy_env CommitNum 40 546 toy_self2 = Inr (ws, infos, fi, tx) \<and>
     length (htlc_outs 0 (tx_vout tx)) = 2 \<and> tx_ok fi infos tx \<and> length infos \<le> LN_HTLC_MAX"
proof -
  let ?keys = "scriptpubkeys (funding_local toy_self2)"
  let ?info = "htlcinfo 0 toy_htlc LN_HTLCTYPE_RECEIVED"
  let ?info' = "htlcinfo (Suc 0) toy_htlc LN_HTLCTYPE_RECEIVED"
  have wfk: "wf_keys (funding_local toy_self2)" using toy_wf(2) by (simp add: wf_self_def)
  then have k: "length (?keys ! i) = BTC_SZ_PUBKEY" if "i < 5" for i
    using that by (rule wf_keys_nth)
  have amt: "create_to_local_htlcinfo_amount (cnl_add_htlc toy_self2) (our_msat toy_self2) (their_msat toy_self2) =
      ([?info, ?info'], 600000000, 390000000)"
    by (simp add: create_to_local_htlcinfo_amount_def toy_self2_def toy_htlc_def toy_self_def
        local_htlcinfo_step_def htlc_zero_def flag_zero_def LN_HTLC_ENABLE_def LN_HTLC_EMPTY_def
        flag_defs eval_nat_numeral)
  obtain r where "htlcinfo_scripts toy_env ?keys [?info, ?info'] = Inr r"
    "list_all2 (\<lambda>i j. \<exists>s. j = i\<lparr>hi_script := s\<rparr>) [?info, ?info'] r"
    using htlcinfo_scripts_defined [OF toy_wf(1) wfk] by blast
  then obtain s s' where s: "htlcinfo_scripts toy_env ?keys [?info, ?info'] =
      Inr [?info\<lparr>hi_script := s\<rparr>, ?info'\<lparr>hi_script := s'\<rparr>]"
    by (auto simp: list_all2_Cons1)
  have fr: "feerate_per_kw toy_self2 = 500" by (simp add: toy_self2_def toy_self_def)
  let ?infos = "[?info\<lparr>hi_script := s\<rparr>, ?info'\<lparr>hi_script := s'\<rparr>]"
  let ?fi = "fst (ln_script_fee_calc 500 546 ?infos)"
  have "htlc_success ?fi = 351" "dust_limit_satoshi ?fi = 546"
    by (simp_all add: ln_script_fee_calc_def Let_def case_prod_beta M_FEE_HTLCSUCCESS_def)
  then have outs: "length (htlc_vouts sha ?fi 0 ?infos) = 2" for sha
    by (simp add: htlc_vouts_def htlcinfo_def toy_htlc_def LN_MSAT2SATOSHI_def htlc_fee_def)
  obtain ws tx where tx: "local_commit_tx toy_env CommitNum 40 546 toy_self2 = Inr (ws, ?infos, ?fi, tx)"
    "tx = ln_script_committx_create (sha256 toy_env) (ripemd160 toy_env)
        (commit_struct toy_self2 ws ?keys ?fi ?infos 600000000 390000000 CommitNum) (is_funder toy_self2)"
    using amt s fr by (auto simp: local_commit_tx_def Let_def fundidx_defs create_tolocal_eq k
        simp del: htlcinfo_scripts.simps)
  have "length (htlc_outs 0 (tx_vout tx)) = 2"
    unfolding tx(2)
    by (subst committx_outs [where infos = ?infos and fi = ?fi]) (simp_all add: commit_struct_def outs)
  moreover have "tx_ok ?fi ?infos tx"
    unfolding tx(2) by (rule committx_tx_ok) (simp_all add: commit_struct_def)
  ultimately show ?thesis using tx(1) by (auto simp: LN_HTLC_MAX_def)
qed

lemma toy_sigs_ok:
  assumes "tx_ok fi infos tx" "k < length (htlc_outs 0 (tx_vout tx))"
  shows "htlc_sig_ok toy_env self tid ws infos fi (htlc_outs 0 (tx_vout tx) ! k) sig"
proof -
  obtain i v where v: "htlc_outs 0 (tx_vout tx) ! k = (i, v)" by (cases "htlc_outs 0 (tx_vout tx) ! k")
  then have "(i, v) \<in> set (htlc_outs 0 (tx_vout tx))" using assms(2) nth_mem by metis
  then have "out_ok fi infos v" using in_htlc_outs assms(1) by (auto simp: tx_ok_def)
  moreover have "htlc_verify toy_env tx a k g c" for tx a k g c by (simp add: toy_env_def)
  ultimately show ?thesis by (simp add: v htlc_sig_okI)
qed

lemma toy_local_accepted:
  "\<exists>self'. create_to_local toy_env (Some (replicate 128 3)) 2 CommitNum 40 546 toy_self2 = Inr (True, self')"
proof -
  obtain ws infos fi tx where tx: "local_commit_tx toy_env CommitNum 40 546 toy_self2 = Inr (ws, infos, fi, tx)"
    "length (htlc_outs 0 (tx_vout tx)) = 2" "tx_ok fi infos tx" "length infos \<le> LN_HTLC_MAX"
    using toy_local_commit by blast
  let ?self = "toy_self2\<lparr>commit_local := (commit_local toy_self2)\<lparr>txid := replicate 32 6\<rparr>\<rparr>"
  obtain v w where v: "htlc_outs 0 (tx_vout tx) = [v, w]" using tx(2) by (auto simp: length_2_conv)
  then have "htlc_sig_ok toy_env ?self (txid (commit_local ?self)) ws infos fi v sig"
    "htlc_sig_ok toy_env ?self (txid (commit_local ?self)) ws infos fi w sig" for sig
    using toy_sigs_ok [OF tx(3), of 0] toy_sigs_ok [OF tx(3), of 1] by simp_all
  then have "\<exists>self'. create_to_local_spent toy_env (Some (replicate 128 3)) 2 tx ws infos fi ?self = Inr (True, self')"
    using create_to_local_spent_signed [OF tx(3,4), where N = 2 and env = toy_env and self = ?self
        and ws = ws and s = "replicate 128 3"] v by auto
  then show ?thesis
    unfolding create_to_local_eq [OF toy_wf(2) tx(1)] by (simp add: toy_env_def)
qed

text \<open>
  The number of signatures is compared with the number of HTLC outputs only after the loop. A
  message whose signatures are all valid, but fewer than the HTLC outputs, makes the loop read
  behind the end of the block of signatures.
\<close>

theorem missing_signatures_overrun:
  assumes "wf_env env" "wf_self self"
    and "local_commit_tx env CommitNum Delay Dust self = Inr (ws, infos, fi, tx)"
    and "tx_sign env tx (funding_sat self) (redeem_fund self) = Some own"
    and "tx_verify_2of2 env tx (funding_sat self) (redeem_fund self) own
      (der_sig (cd_signature (commit_local self)))"
    and "tx_txid env tx = Some tid"
    and "length sigs = unat N * LN_SZ_SIGNATURE" "N \<noteq> 0" "unat N < length (htlc_outs 0 (tx_vout tx))"
    and "\<forall>k<unat N. htlc_sig_ok env self tid ws infos fi (htlc_outs 0 (tx_vout tx) ! k) (nth_sig sigs k)"
  shows "create_to_local env (Some sigs) N CommitNum Delay Dust self = Inl Read_Overrun"
proof -
  have ok: "tx_ok fi infos tx" "length infos \<le> LN_HTLC_MAX"
    using local_commit_tx_defined [OF assms(1,2), of CommitNum Delay Dust] assms(3) by auto
  let ?self = "self\<lparr>commit_local := (commit_local self)\<lparr>txid := tid\<rparr>\<rparr>"
  have "sig_check (htlc_sig_ok env self tid ws infos fi) sigs 0 (htlc_outs 0 (tx_vout tx)) = Inl Read_Overrun"
    using assms(7,9,10) by (intro sig_check_overrun [where m = "unat N"]) auto
  then have "create_to_local_spent env (Some sigs) N tx ws infos fi ?self = Inl Read_Overrun"
    using create_to_local_spent_signed [OF ok, where N = N and env = env and self = ?self and ws = ws
        and s = sigs] assms(8) by simp
  then show ?thesis
    using assms(4-6) unfolding create_to_local_eq [OF assms(2,3)] by simp
qed

theorem missing_signatures_overrun_witness:
  "create_to_local toy_env (Some (replicate 64 3)) 1 1 40 546 toy_self2 = Inl Read_Overrun"
proof -
  obtain ws infos fi tx where tx: "local_commit_tx toy_env 1 40 546 toy_self2 = Inr (ws, infos, fi, tx)"
    "length (htlc_outs 0 (tx_vout tx)) = 2" "tx_ok fi infos tx"
    using toy_local_commit by blast
  have "tx_sign toy_env tx v s = Some (der_sig (replicate 64 1))" "tx_verify_2of2 toy_env tx v s a b"
    "tx_txid toy_env tx = Some (replicate 32 6)" for v s a b by (simp_all add: toy_env_def)
  then show ?thesis
    using missing_signatures_overrun [OF toy_wf tx(1)] toy_sigs_ok [OF tx(3)] tx(2) by simp
qed

section \<open>What the two functions change\<close>

text \<open>
  \<^verbatim>\<open>create_to_local\<close> changes nothing but the id and the HTLC count of the local commitment data, and the
  signatures in the slots. It is defined unless it reads behind the block of signatures.
\<close>

lemma same_but_sigs_wf:
  assumes "same_but_sigs self self'" "wf_self self"
  shows "wf_self self'"
proof -
  obtain sl where sl: "self' = self\<lparr>cnl_add_htlc := sl\<rparr>"
    "map (htlc_signature_update (\<lambda>_. [])) sl = map (htlc_signature_update (\<lambda>_. [])) (cnl_add_htlc self)"
    "\<forall>h\<in>set sl. wf_htlc h"
    using assms by (auto simp: same_but_sigs_def wf_self_def)
  have "length sl = length (cnl_add_htlc self)" using arg_cong [OF sl(2), of length] by simp
  then show ?thesis using sl assms(2) by (simp add: wf_self_def)
qed

definition local_frame :: "ln_self_t \<Rightarrow> ln_self_t \<Rightarrow> bool" where
  "local_frame self self' \<longleftrightarrow>
     (\<exists>self2 tid n. same_but_sigs self self2 \<and>
        self' = self2\<lparr>commit_local := (commit_local self)\<lparr>txid := tid, htlc_num := n\<rparr>\<rparr>)"

lemma local_frame_refl: "local_frame self self"
  unfolding local_frame_def
  by (rule exI [of _ self], rule exI [of _ "txid (commit_local self)"],
      rule exI [of _ "htlc_num (commit_local self)"]) (simp add: same_but_sigs_refl)

lemma create_to_local_result:
  assumes "wf_env env" "wf_self self"
  shows "case create_to_local env (Some sigs) N CommitNum Delay Dust self of
      Inl e \<Rightarrow> e = Read_Overrun | Inr (ret, self') \<Rightarrow> local_frame self self'"
proof -
  obtain ws infos fi tx where tx: "local_commit_tx env CommitNum Delay Dust self = Inr (ws, infos, fi, tx)"
    "tx_ok fi infos tx" "length infos \<le> LN_HTLC_MAX"
    using local_commit_tx_defined [OF assms] by blast
  have spent: "case create_to_local_spent env (Some sigs) N tx ws infos fi
        (self\<lparr>commit_local := (commit_local self)\<lparr>txid := tid\<rparr>\<rparr>) of
      Inl e \<Rightarrow> e = Read_Overrun | Inr (ret, self') \<Rightarrow> local_frame self self'" for tid
  proof -
    let ?self = "self\<lparr>commit_local := (commit_local self)\<lparr>txid := tid\<rparr>\<rparr>"
    let ?r = "if N = 0 then Inr True else sig_check (htlc_sig_ok env self tid ws infos fi) sigs 0
      (htlc_outs 0 (tx_vout tx))"
    have frame: "local_frame self (self2\<lparr>commit_local := (commit_local ?self)\<lparr>htlc_num := n\<rparr>\<rparr>)"
      if "same_but_sigs ?self self2" for self2 n
    proof -
      obtain sl where "self2 = ?self\<lparr>cnl_add_htlc := sl\<rparr>" "same_but_sigs self (self\<lparr>cnl_add_htlc := sl\<rparr>)"
        using \<open>same_but_sigs ?self self2\<close> by (auto simp: same_but_sigs_def)
      then show ?thesis
        unfolding local_frame_def by (intro exI [of _ "self\<lparr>cnl_add_htlc := sl\<rparr>"]) auto
    qed
    show ?thesis
      using create_to_local_spent_signed [OF tx(2,3), where N = N and env = env and self = ?self and ws = ws
          and s = sigs] frame
      by (cases ?r) (auto dest: sig_check_result split: if_splits)
  qed
  show ?thesis
    using spent local_frame_refl unfolding create_to_local_eq [OF assms(2) tx(1)]
    by (auto split: option.splits)
qed

section \<open>Signing the remote commitment transaction\<close>

definition htlc_signed ::
  "'p ln_env \<Rightarrow> bytes \<Rightarrow> bytes \<Rightarrow> ln_script_htlcinfo_t list \<Rightarrow> ln_script_feeinfo_t \<Rightarrow>
   nat \<times> btc_vout_t \<Rightarrow> bytes \<Rightarrow> bool" where
  "htlc_signed env commit_txid ws infos fi = (\<lambda>(idx, v) sig.
     let info = infos ! unat (vout_opt v) in
     case ln_script_htlctx_create (sha256 env) (vout_value v - spent_fee fi info) ws (htlc_type info)
         (expiry info) commit_txid idx of
       Inr tx \<Rightarrow> htlc_sign env tx (vout_value v) (hi_script info) = Some (der_sig sig)
     | Inl _ \<Rightarrow> False)"

lemma remote_loop_skip:
  "\<not> is_htlc_out v \<Longrightarrow> remote_spent_loop env tid ws infos fi idx (v # vs) n sigs =
     remote_spent_loop env tid ws infos fi (Suc idx) vs n sigs"
  by (auto simp: is_htlc_out_def)

lemma put_sig_eq:
  assumes "length rs = LN_SZ_SIGNATURE" "(unat b + 1) * LN_SZ_SIGNATURE \<le> length blk"
  shows "put_sig (der_sig rs) b (Some blk) =
    Inr (Some (take (LN_SZ_SIGNATURE * unat b) blk @ rs @ drop (LN_SZ_SIGNATURE * unat b + LN_SZ_SIGNATURE) blk))"
  using assms by (simp add: put_sig_def ln_misc_sigtrim_der_sig put_bytes_def)

lemma put_sig_None [simp]: "put_sig d b None = Inr None"
  by (simp add: put_sig_def)

text \<open>One pass over an HTLC output: the signer refuses, or its signature is in its place.\<close>

lemma remote_loop_htlc:
  assumes env: "wf_env env" and v: "is_htlc_out v" "out_ok fi infos v"
    and n: "unat n < 256" "case sigs of None \<Rightarrow> True | Some blk \<Rightarrow> (unat n + 1) * LN_SZ_SIGNATURE \<le> length blk"
  obtains (refused) "remote_spent_loop env tid ws infos fi idx (v # vs) n sigs = Inr (False, n, sigs)"
      "\<exists>tx v s. htlc_sign env tx v s = None"
  | (signed) rs where "length rs = LN_SZ_SIGNATURE" "htlc_signed env tid ws infos fi (idx, v) rs"
      "remote_spent_loop env tid ws infos fi idx (v # vs) n sigs =
         remote_spent_loop env tid ws infos fi (Suc idx) vs (n + 1)
           (map_option (\<lambda>blk. take (LN_SZ_SIGNATURE * unat n) blk @ rs @
              drop (LN_SZ_SIGNATURE * unat n + LN_SZ_SIGNATURE) blk) sigs)"
proof -
  let ?info = "infos ! unat (vout_opt v)"
  have b: "unat (ucast n :: byte) = unat n"
    using n(1) by (simp add: unsigned_ucast_eq take_bit_nat_eq_self)
  obtain tx where tx: "ln_script_htlctx_create (sha256 env) (vout_value v - spent_fee fi ?info) ws
      (htlc_type ?info) (expiry ?info) tid idx = Inr tx"
    using v(2) htlctx_create_defined unfolding out_ok_def by blast
  have step: "remote_spent_loop env tid ws infos fi idx (v # vs) n sigs =
      (case htlc_sign env tx (vout_value v) (hi_script ?info) of
         None \<Rightarrow> Inr (False, n, sigs)
       | Some d \<Rightarrow> bind_c (put_sig d (ucast n) sigs)
           (\<lambda>sigs. remote_spent_loop env tid ws infos fi (Suc idx) vs (n + 1) sigs))"
    using v tx by (auto simp: is_htlc_out_def out_ok_def get_info_def create_to_remote_spenthtlc_def
        bind_c_def Let_def split: option.splits sum.splits)
  show ?thesis
  proof (cases "htlc_sign env tx (vout_value v) (hi_script ?info)")
    case None
    then show ?thesis using step refused by (metis (no_types, lifting) option.simps(4))
  next
    case (Some d)
    then obtain rs where rs: "length rs = LN_SZ_SIGNATURE" "d = der_sig rs"
      using env unfolding wf_env_def by blast
    have "put_sig d (ucast n) sigs = Inr (map_option (\<lambda>blk. take (LN_SZ_SIGNATURE * unat n) blk @ rs @
              drop (LN_SZ_SIGNATURE * unat n + LN_SZ_SIGNATURE) blk) sigs)"
      using put_sig_eq [OF rs(1), of "ucast n"] rs(2) n(2) b by (cases sigs) simp_all
    then show ?thesis
      using signed [OF rs(1)] step Some tx rs(2) by (simp add: htlc_signed_def)
  qed
qed

lemma nth_sig_put:
  assumes "length rs = LN_SZ_SIGNATURE" "(n + 1) * LN_SZ_SIGNATURE \<le> length blk"
  defines "blk' \<equiv> take (LN_SZ_SIGNATURE * n) blk @ rs @ drop (LN_SZ_SIGNATURE * n + LN_SZ_SIGNATURE) blk"
  shows "length blk' = length blk" "nth_sig blk' n = rs" "k < n \<Longrightarrow> nth_sig blk' k = nth_sig blk k"
proof -
  show "length blk' = length blk" "nth_sig blk' n = rs"
    using assms(1,2) by (simp_all add: blk'_def nth_sig_def mult.commute)
  assume "k < n"
  then have "64 * k + 64 \<le> 64 * n" by simp
  then show "nth_sig blk' k = nth_sig blk k"
    using assms(1,2) by (simp add: blk'_def nth_sig_def take_drop min_def mult.commute)
qed

lemma remote_loop_result:
  assumes "wf_env env" "\<forall>v\<in>set vs. is_htlc_out v \<longrightarrow> out_ok fi infos v"
    and "unat n + length (htlc_outs idx vs) < 256"
    and "case sigs of None \<Rightarrow> True
      | Some blk \<Rightarrow> (unat n + length (htlc_outs idx vs)) * LN_SZ_SIGNATURE \<le> length blk"
  shows "\<exists>ret n' sigs'. remote_spent_loop env tid ws infos fi idx vs n sigs = Inr (ret, n', sigs') \<and>
    (\<not> ret \<longrightarrow> (\<exists>tx v s. htlc_sign env tx v s = None)) \<and>
    (ret \<longrightarrow> unat n' = unat n + length (htlc_outs idx vs) \<and>
      (\<forall>blk. sigs = Some blk \<longrightarrow> (\<exists>blk'. sigs' = Some blk' \<and> length blk' = length blk \<and>
         (\<forall>k<unat n. nth_sig blk' k = nth_sig blk k) \<and>
         (\<forall>k<length (htlc_outs idx vs).
            htlc_signed env tid ws infos fi (htlc_outs idx vs ! k) (nth_sig blk' (unat n + k))))))"
  using assms(2-)
proof (induction vs arbitrary: idx n sigs)
  case (Cons v vs)
  show ?case
  proof (cases "is_htlc_out v")
    case False
    then have outs: "htlc_outs idx (v # vs) = htlc_outs (Suc idx) vs" by simp
    show ?thesis
      using Cons.IH [of n "Suc idx" sigs] Cons.prems unfolding remote_loop_skip [OF False] outs by simp
  next
    case True
    let ?outs = "htlc_outs (Suc idx) vs"
    have outs: "htlc_outs idx (v # vs) = (idx, v) # ?outs" using True by simp
    have n: "unat (n + 1) = unat n + 1" using Cons.prems(2) True by (intro unat_Suc_u16) simp
    have room: "case sigs of None \<Rightarrow> True | Some blk \<Rightarrow> (unat n + 1) * LN_SZ_SIGNATURE \<le> length blk"
      using Cons.prems(3) True by (cases sigs) simp_all
    have small: "unat n < 256" using Cons.prems(2) by simp
    have ok: "out_ok fi infos v" using Cons.prems(1) True by simp
    show ?thesis
    proof (cases rule: remote_loop_htlc [OF assms(1) True ok small room, of tid ws idx vs])
      case 1
      then show ?thesis by (intro exI [of _ False]) (simp del: remote_spent_loop.simps)
    next
      case (2 rs)
      define put where "put = (\<lambda>blk. take (LN_SZ_SIGNATURE * unat n) blk @ rs @
        drop (LN_SZ_SIGNATURE * unat n + LN_SZ_SIGNATURE) blk)"
      have put_facts: "length (put blk) = length blk" "nth_sig (put blk) (unat n) = rs"
        "k < unat n \<Longrightarrow> nth_sig (put blk) k = nth_sig blk k" if "sigs = Some blk" for blk k
        using nth_sig_put [OF 2(1), of "unat n" blk] room that by (simp_all add: put_def)
      have room2: "case map_option put sigs of None \<Rightarrow> True
        | Some blk \<Rightarrow> (unat (n + 1) + length ?outs) * LN_SZ_SIGNATURE \<le> length blk"
        using Cons.prems(3) put_facts(1) n True by (cases sigs) simp_all
      have pre: "\<forall>v\<in>set vs. is_htlc_out v \<longrightarrow> out_ok fi infos v"
        "unat (n + 1) + length ?outs < 256"
        using Cons.prems(1,2) True n by simp_all
      obtain ret n' sigs' where r:
        "remote_spent_loop env tid ws infos fi (Suc idx) vs (n + 1) (map_option put sigs) = Inr (ret, n', sigs')"
        "\<not> ret \<longrightarrow> (\<exists>tx v s. htlc_sign env tx v s = None)"
        "ret \<longrightarrow> unat n' = unat (n + 1) + length ?outs \<and>
          (\<forall>blk. map_option put sigs = Some blk \<longrightarrow> (\<exists>blk'. sigs' = Some blk' \<and> length blk' = length blk \<and>
            (\<forall>k<unat (n + 1). nth_sig blk' k = nth_sig blk k) \<and>
            (\<forall>k<length ?outs. htlc_signed env tid ws infos fi (?outs ! k) (nth_sig blk' (unat (n + 1) + k)))))"
        using Cons.IH [OF pre room2] by (elim exE conjE) (rule that)
      have "\<exists>blk'. sigs' = Some blk' \<and> length blk' = length blk \<and>
          (\<forall>k<unat n. nth_sig blk' k = nth_sig blk k) \<and>
          (\<forall>k<Suc (length ?outs). htlc_signed env tid ws infos fi (((idx, v) # ?outs) ! k) (nth_sig blk' (unat n + k)))"
        if ret: ret and blk: "sigs = Some blk" for blk
      proof -
        have all: "\<And>k. k < unat (n + 1) \<Longrightarrow> k < unat n \<or> k = unat n" by (auto simp: n)
        obtain blk' where b: "sigs' = Some blk'" "length blk' = length (put blk)"
          "\<forall>k<unat (n + 1). nth_sig blk' k = nth_sig (put blk) k"
          "\<forall>k<length ?outs. htlc_signed env tid ws infos fi (?outs ! k) (nth_sig blk' (unat (n + 1) + k))"
          using r(3) ret blk by auto
        have "nth_sig blk' (unat n) = rs" using b(3) put_facts(2) [OF blk] n by simp
        moreover have "\<forall>k<unat n. nth_sig blk' k = nth_sig blk k"
          using b(3) put_facts(3) [OF blk] n by simp
        ultimately show ?thesis
          using b(1,2,4) put_facts(1) [OF blk] 2(2) n by (auto simp: less_Suc_eq_0_disj)
      qed
      then show ?thesis
        using r 2(3) n unfolding outs put_def [symmetric] by (auto simp del: remote_spent_loop.simps)
    qed
  qed
qed auto

text \<open>
  \<^verbatim>\<open>create_to_remote\<close> is defined for every state, and changes the id, the signature and the HTLC count of
  the commitment data it was given.
\<close>

definition sig_block :: "'p ln_env \<Rightarrow> ln_script_htlcinfo_t list \<Rightarrow> bool \<Rightarrow> bytes option" where
  "sig_block env infos want =
     (if 0 < length infos \<and> want then Some (concat (replicate (length infos) (fresh_sig env))) else None)"

lemma length_concat_replicate: "length (concat (replicate n xs)) = n * length xs"
  by (induction n) simp_all

lemma create_to_remote_eq:
  assumes env: "wf_env env" and self: "wf_self self"
    and tx: "remote_commit_tx env CommitNum (dust_limit_sat c) self = Inr (ws, infos, fi, tx)"
      "tx_ok fi infos tx" "length infos \<le> LN_HTLC_MAX"
  shows "create_to_remote env c want CommitNum self = Inr (False, c, None) \<and>
      (tx_sign env tx (funding_sat self) (redeem_fund self) = None \<or> tx_txid env tx = None) \<or>
    (\<exists>rs tid ret n sigs. tx_sign env tx (funding_sat self) (redeem_fund self) = Some (der_sig rs) \<and>
       length rs = LN_SZ_SIGNATURE \<and> tx_txid env tx = Some tid \<and>
       create_to_remote env c want CommitNum self =
         Inr (ret, c\<lparr>txid := tid, cd_signature := rs, htlc_num := n\<rparr>, sigs) \<and>
       (\<not> ret \<longrightarrow> (\<exists>tx v s. htlc_sign env tx v s = None)) \<and>
       (ret \<longrightarrow> unat n = length (htlc_outs 0 (tx_vout tx)) \<and>
         (0 < length infos \<and> want \<longrightarrow> (\<exists>blk. sigs = Some blk \<and> length blk = length infos * LN_SZ_SIGNATURE \<and>
           (\<forall>k<length (htlc_outs 0 (tx_vout tx)).
              htlc_signed env tid ws infos fi (htlc_outs 0 (tx_vout tx) ! k) (nth_sig blk k))))))"
proof (cases "tx_sign env tx (funding_sat self) (redeem_fund self) = None \<or> tx_txid env tx = None")
  case True
  then show ?thesis
    using tx(1) by (auto simp: create_to_remote_def split: option.splits)
next
  case False
  then obtain d tid where d: "tx_sign env tx (funding_sat self) (redeem_fund self) = Some d"
    "tx_txid env tx = Some tid" by auto
  obtain rs where rs: "length rs = LN_SZ_SIGNATURE" "d = der_sig rs"
    using env d(1) unfolding wf_env_def by blast
  let ?outs = "htlc_outs 0 (tx_vout tx)"
  let ?sigs = "sig_block env infos want"
  have "length ?outs \<le> length infos" using tx(2) by (simp add: tx_ok_def)
  then have room: "case ?sigs of None \<Rightarrow> True | Some blk \<Rightarrow> (unat (0 :: u16) + length ?outs) * LN_SZ_SIGNATURE \<le> length blk"
    using env by (simp add: sig_block_def length_concat_replicate wf_env_def)
  have small: "unat (0 :: u16) + length ?outs < 256"
    using tx(2,3) by (simp add: tx_ok_def LN_HTLC_MAX_def)
  have ok: "\<forall>v\<in>set (tx_vout tx). is_htlc_out v \<longrightarrow> out_ok fi infos v" using tx(2) by (simp add: tx_ok_def)
  obtain ret n sigs where r: "remote_spent_loop env tid ws infos fi 0 (tx_vout tx) 0 ?sigs = Inr (ret, n, sigs)"
    "\<not> ret \<longrightarrow> (\<exists>tx v s. htlc_sign env tx v s = None)"
    "ret \<longrightarrow> unat n = unat (0 :: u16) + length ?outs \<and>
      (\<forall>blk. ?sigs = Some blk \<longrightarrow> (\<exists>blk'. sigs = Some blk' \<and> length blk' = length blk \<and>
         (\<forall>k<unat (0 :: u16). nth_sig blk' k = nth_sig blk k) \<and>
         (\<forall>k<length ?outs. htlc_signed env tid ws infos fi (?outs ! k) (nth_sig blk' (unat (0 :: u16) + k)))))"
    using remote_loop_result [OF env ok small room, where tid = tid and ws = ws]
    by (elim exE conjE) (rule that)
  have "create_to_remote env c want CommitNum self =
      Inr (ret, c\<lparr>txid := tid, cd_signature := rs, htlc_num := n\<rparr>, sigs)"
    using tx(1) d rs r(1) by (simp add: create_to_remote_def ln_misc_sigtrim_der_sig Let_def
        create_to_remote_spent_def ln_misc_sigexpand_eq [OF wf_cd_signature [OF self]] sig_block_def)
  moreover have "\<exists>blk. sigs = Some blk \<and> length blk = length infos * LN_SZ_SIGNATURE \<and>
      (\<forall>k<length ?outs. htlc_signed env tid ws infos fi (?outs ! k) (nth_sig blk k))"
    if "ret" "0 < length infos \<and> want"
    using r(3) that env by (auto simp: sig_block_def length_concat_replicate wf_env_def)
  ultimately show ?thesis
    using d rs r(2,3) by (intro disjI2) auto
qed

lemma create_to_remote_result:
  assumes "wf_env env" "wf_self self"
  shows "\<exists>ret c' sigs. create_to_remote env c want CommitNum self = Inr (ret, c', sigs) \<and>
    (length (cd_signature c) = LN_SZ_SIGNATURE \<longrightarrow> length (cd_signature c') = LN_SZ_SIGNATURE) \<and>
    (\<exists>t s n. c' = c\<lparr>txid := t, cd_signature := s, htlc_num := n\<rparr>)"
proof -
  obtain ws infos fi tx where tx: "remote_commit_tx env CommitNum (dust_limit_sat c) self = Inr (ws, infos, fi, tx)"
    "tx_ok fi infos tx" "length infos \<le> LN_HTLC_MAX"
    using remote_commit_tx_defined [OF assms] by blast
  have "\<exists>t s n. c = c\<lparr>txid := t, cd_signature := s, htlc_num := n\<rparr>"
    by (rule exI [of _ "txid c"], rule exI [of _ "cd_signature c"], rule exI [of _ "htlc_num c"]) simp
  moreover have "\<exists>t s n. c\<lparr>txid := a, cd_signature := b, htlc_num := d\<rparr> =
      c\<lparr>txid := t, cd_signature := s, htlc_num := n\<rparr>" for a b d by blast
  ultimately show ?thesis
    using create_to_remote_eq [OF assms tx, of want] by fastforce
qed

text \<open>
  What \<^verbatim>\<open>create_to_remote\<close> produces for a \<open>commitment_signed\<close> is complete: the signature of the
  transaction that the state describes, as many signatures as it has HTLC outputs, and each of them,
  in the order of the outputs, the signature of the HTLC transaction that spends the output.
\<close>

theorem remote_commit_signed:
  assumes "wf_env env" "wf_self self"
    and "create_to_remote env c True CommitNum self = Inr (True, c', sigs)"
  shows "\<exists>ws infos fi tx tid.
    remote_commit_tx env CommitNum (dust_limit_sat c) self = Inr (ws, infos, fi, tx) \<and>
    tx_sign env tx (funding_sat self) (redeem_fund self) = Some (der_sig (cd_signature c')) \<and>
    tx_txid env tx = Some tid \<and> txid c' = tid \<and>
    unat (htlc_num c') = length (htlc_outs 0 (tx_vout tx)) \<and>
    (\<forall>k<unat (htlc_num c').
       htlc_signed env tid ws infos fi (htlc_outs 0 (tx_vout tx) ! k) (nth_sig (the sigs) k))"
proof -
  obtain ws infos fi tx where tx: "remote_commit_tx env CommitNum (dust_limit_sat c) self = Inr (ws, infos, fi, tx)"
    "tx_ok fi infos tx" "length infos \<le> LN_HTLC_MAX"
    using remote_commit_tx_defined [OF assms(1,2)] by blast
  have "length (htlc_outs 0 (tx_vout tx)) = 0 \<or> 0 < length infos"
    using tx(2) by (auto simp: tx_ok_def)
  then show ?thesis
    using create_to_remote_eq [OF assms(1,2) tx, of True] assms(3) tx(1) by auto
qed

lemma toy_remote_commit:
  "\<exists>ws infos fi tx. remote_commit_tx toy_env CommitNum 546 toy_self2 = Inr (ws, infos, fi, tx) \<and>
     length (htlc_outs 0 (tx_vout tx)) = 2 \<and> tx_ok fi infos tx \<and> length infos \<le> LN_HTLC_MAX \<and>
     (\<exists>v\<in>set (tx_vout tx). vout_opt v = LN_HTLCTYPE_TOLOCAL)"
proof -
  let ?keys = "scriptpubkeys (funding_remote toy_self2)"
  let ?info = "htlcinfo 0 toy_htlc LN_HTLCTYPE_OFFERED"
  let ?info' = "htlcinfo (Suc 0) toy_htlc LN_HTLCTYPE_OFFERED"
  have wfk: "wf_keys (funding_remote toy_self2)" using toy_wf(2) by (simp add: wf_self_def)
  then have k: "length (?keys ! i) = BTC_SZ_PUBKEY" if "i < 5" for i
    using that by (rule wf_keys_nth)
  have amt: "create_to_remote_htlcinfo (cnl_add_htlc toy_self2) (their_msat toy_self2) (our_msat toy_self2) =
      ([?info, ?info'], 390000000, 600000000)"
    by (simp add: create_to_remote_htlcinfo_def toy_self2_def toy_htlc_def toy_self_def
        remote_htlcinfo_step_def htlc_zero_def flag_zero_def LN_HTLC_ENABLE_def LN_HTLC_EMPTY_def
        flag_defs eval_nat_numeral)
  obtain r where "htlcinfo_scripts toy_env ?keys [?info, ?info'] = Inr r"
    "list_all2 (\<lambda>i j. \<exists>s. j = i\<lparr>hi_script := s\<rparr>) [?info, ?info'] r"
    using htlcinfo_scripts_defined [OF toy_wf(1) wfk] by blast
  then obtain s s' where s: "htlcinfo_scripts toy_env ?keys [?info, ?info'] =
      Inr [?info\<lparr>hi_script := s\<rparr>, ?info'\<lparr>hi_script := s'\<rparr>]"
    by (auto simp: list_all2_Cons1)
  have fr: "feerate_per_kw toy_self2 = 500" by (simp add: toy_self2_def toy_self_def)
  let ?infos = "[?info\<lparr>hi_script := s\<rparr>, ?info'\<lparr>hi_script := s'\<rparr>]"
  let ?fi = "fst (ln_script_fee_calc 500 546 ?infos)"
  have "htlc_timeout ?fi = 331" "dust_limit_satoshi ?fi = 546"
    by (simp_all add: ln_script_fee_calc_def Let_def case_prod_beta M_FEE_HTLCTIMEOUT_def)
  then have outs: "length (htlc_vouts sha ?fi 0 ?infos) = 2" for sha
    by (simp add: htlc_vouts_def htlcinfo_def toy_htlc_def LN_MSAT2SATOSHI_def htlc_fee_def)
  obtain ws tx where tx: "remote_commit_tx toy_env CommitNum 546 toy_self2 = Inr (ws, ?infos, ?fi, tx)"
    "tx = ln_script_committx_create (sha256 toy_env) (ripemd160 toy_env)
        (commit_struct toy_self2 ws ?keys ?fi ?infos 390000000 600000000 CommitNum) (\<not> is_funder toy_self2)"
    using amt s fr by (auto simp: remote_commit_tx_def Let_def fundidx_defs create_tolocal_eq k
        simp del: htlcinfo_scripts.simps)
  have "length (htlc_outs 0 (tx_vout tx)) = 2"
    unfolding tx(2)
    by (subst committx_outs [where infos = ?infos and fi = ?fi]) (simp_all add: commit_struct_def outs)
  moreover have "tx_ok ?fi ?infos tx"
    unfolding tx(2) by (rule committx_tx_ok) (simp_all add: commit_struct_def)
  moreover have "\<exists>v\<in>set (tx_vout tx). vout_opt v = LN_HTLCTYPE_TOLOCAL"
    unfolding tx(2) using bip69_mset [THEN arg_cong [of _ _ set_mset]]
    by (simp del: btc_util_sort_bip69.simps add: ln_script_committx_create_def committx_vouts_def commit_struct_def toy_self2_def
        toy_self_def LN_MSAT2SATOSHI_def ln_script_fee_calc_def fee_step_def htlcinfo_def toy_htlc_def
        M_FEE_HTLCSUCCESS_def M_FEE_HTLCTIMEOUT_def M_FEE_COMMIT_HTLC_def LN_FEE_COMMIT_BASE_def Let_def)
  ultimately show ?thesis using tx(1) by (auto simp: LN_HTLC_MAX_def)
qed

lemma toy_remote_signed:
  "\<exists>c' sigs. create_to_remote toy_env toy_commit True 1 toy_self2 = Inr (True, c', sigs) \<and> unat (htlc_num c') = 2"
proof -
  obtain ws infos fi tx where tx: "remote_commit_tx toy_env 1 546 toy_self2 = Inr (ws, infos, fi, tx)"
    "length (htlc_outs 0 (tx_vout tx)) = 2" "tx_ok fi infos tx" "length infos \<le> LN_HTLC_MAX"
    using toy_remote_commit by blast
  have "tx_sign toy_env t v s = Some (der_sig (replicate 64 1))" "tx_txid toy_env t = Some (replicate 32 6)"
    "htlc_sign toy_env t v s = Some (der_sig (replicate 64 2))" for t v s
    by (simp_all add: toy_env_def)
  moreover have "dust_limit_sat toy_commit = 546" by (simp add: toy_commit_def)
  ultimately show ?thesis
    using create_to_remote_eq [OF toy_wf _ tx(3,4), of 1 toy_commit ws True] tx(1,2) by auto
qed

theorem remote_commit_signed_witness:
  "\<exists>c' sigs ws infos fi tx. create_to_remote toy_env toy_commit True 1 toy_self2 = Inr (True, c', sigs) \<and>
     remote_commit_tx toy_env 1 546 toy_self2 = Inr (ws, infos, fi, tx) \<and>
     htlc_signed toy_env (replicate 32 6) ws infos fi (htlc_outs 0 (tx_vout tx) ! 1) (nth_sig (the sigs) 1)"
proof -
  obtain c' sigs where c: "create_to_remote toy_env toy_commit True 1 toy_self2 = Inr (True, c', sigs)"
    "unat (htlc_num c') = 2" using toy_remote_signed by blast
  moreover have "tx_txid toy_env tx = Some (replicate 32 6)" for tx by (simp add: toy_env_def)
  moreover have "dust_limit_sat toy_commit = 546" "1 < (2 :: nat)" by (simp_all add: toy_commit_def)
  ultimately show ?thesis
    using remote_commit_signed [OF toy_wf c(1)] by (metis option.inject)
qed

end
