(* ===== verification/Channel_Recv.thy ===== *)
theory Channel_Recv
  imports Channel_Check Commit_Build
begin

text \<open>
  The handlers of \<^verbatim>\<open>ln/ln.c\<close> for the messages of normal operation: \<^verbatim>\<open>recv_update_add_htlc\<close>,
  \<^verbatim>\<open>recv_update_fulfill_htlc\<close>, \<^verbatim>\<open>recv_update_fail_htlc\<close>, \<^verbatim>\<open>recv_update_fail_malformed_htlc\<close>,
  \<^verbatim>\<open>recv_commitment_signed\<close>, \<^verbatim>\<open>recv_revoke_and_ack\<close>, \<^verbatim>\<open>recv_update_fee\<close> and
  \<^verbatim>\<open>recv_channel_reestablish\<close>. A handler returns the \<open>bool\<close> of the source and the new state; what it
  tells the application and the database is in \<open>events\<close>.
\<close>

type_synonym handler_result = "(bool \<times> ln_self_t) c_result"

section \<open>What the handlers share\<close>

definition read_msg ::
  "'m c_result \<Rightarrow> ln_self_t \<Rightarrow> ('m \<Rightarrow> handler_result) \<Rightarrow> handler_result" where
  \<comment> \<open>\<open>if (!ret) { M_SET_ERR(self, LNERR_MSG_READ, ...); return false; }\<close>\<close>
  "read_msg r self k = try_c r (\<lambda>m. case m of
     None \<Rightarrow> Inr (False, set_err LNERR_MSG_READ self) | Some m \<Rightarrow> k m)"

definition chk_chan :: "bytes \<Rightarrow> ln_self_t \<Rightarrow> handler_result \<Rightarrow> handler_result" where
  "chk_chan recv_id self k =
     (if chk_channelid recv_id (channel_id self) then k else Inr (False, set_err LNERR_INV_CHANNEL self))"

text \<open>The loop that looks for the offered HTLC with a given id.\<close>

definition find_offered :: "u64 \<Rightarrow> ln_self_t \<Rightarrow> nat option" where
  "find_offered i self =
     first_slot (\<lambda>h. htlc_id h = i \<and> addhtlc (flag h) = LN_ADDHTLC_OFFER) (cnl_add_htlc self)"

section \<open>update_add_htlc\<close>

datatype ln_cb_add_htlc_result_t =
    LN_CB_ADD_HTLC_RESULT_OK | LN_CB_ADD_HTLC_RESULT_FAIL | LN_CB_ADD_HTLC_RESULT_MALFORMED

text \<open>
  The BOLT 4 part, from \<^verbatim>\<open>ln_onion_read_packet\<close> to the call of \<^verbatim>\<open>check_recv_add_htlc_bolt4_common\<close>:
  the verdict, the hop data (those of the onion, if it could be read) and the reason pushed so far.
\<close>

definition add_htlc_common ::
  "ln_hop_dataout_t \<Rightarrow> ln_self_t \<Rightarrow> ln_cb_add_htlc_result_t \<times> ln_hop_dataout_t option \<times> bytes \<times> ln_self_t" where
  "add_htlc_common hop self =
     (case check_recv_add_htlc_bolt4_common self of
        (Inr _, self) \<Rightarrow> (LN_CB_ADD_HTLC_RESULT_OK, Some hop, [], self)
      | (Inl reason, self) \<Rightarrow> (LN_CB_ADD_HTLC_RESULT_FAIL, Some hop, reason, self))"

definition add_htlc_bolt4 ::
  "'p ln_env \<Rightarrow> nat \<Rightarrow> ln_self_t \<Rightarrow>
   (ln_cb_add_htlc_result_t \<times> ln_hop_dataout_t option \<times> bytes \<times> ln_self_t) c_result" where
  "add_htlc_bolt4 env idx self =
     (let h = cnl_add_htlc self ! idx in
      case onion_read env (buf_onion_reason h) (payment_sha256 h) of
        Onion_Ok hop onion shared \<Rightarrow>
          let self = upd_htlc idx (\<lambda>h. h\<lparr>buf_onion_reason := onion, buf_shared_secret := shared\<rparr>) self;
              h = cnl_add_htlc self ! idx;
              height = of_int (block_count env) in
          if 0 < block_count env then
            if b_exit hop then
              (case check_recv_add_htlc_bolt4_final env hop h height self of
                 (Inl reason, self) \<Rightarrow> Inr (LN_CB_ADD_HTLC_RESULT_FAIL, Some hop, reason, self)
               | (Inr preimage, self) \<Rightarrow>
                   Inr (add_htlc_common hop (upd_htlc idx (\<lambda>h. h\<lparr>prev_short_channel_id := - 1,
                     buf_payment_preimage := preimage, buf_onion_reason := []\<rparr>) self)))
            else
              bind_c (check_recv_add_htlc_bolt4_forward env hop h height self) (\<lambda>r.
              case r of
                (Inl reason, self) \<Rightarrow> Inr (LN_CB_ADD_HTLC_RESULT_FAIL, Some hop, reason, self)
              | (Inr _, self) \<Rightarrow> Inr (add_htlc_common hop self))
          else Inr (LN_CB_ADD_HTLC_RESULT_FAIL, Some hop, [], set_err LNERR_BITCOIND self)
      | Onion_Err reason shared \<Rightarrow>
          let self = set_err LNERR_ONION
                (upd_htlc idx (\<lambda>h. h\<lparr>buf_shared_secret := shared, buf_onion_reason := []\<rparr>) self) in
          get_u16 reason (\<lambda>failure_code _.
          Inr (if failure_code AND LNERR_ONION_BADONION \<noteq> 0 then LN_CB_ADD_HTLC_RESULT_MALFORMED
               else LN_CB_ADD_HTLC_RESULT_FAIL, None, reason, self)))"

text \<open>The answer of the application to \<open>LN_CB_ADD_HTLC_RECV\<close>, for an HTLC that passed all checks.\<close>

definition add_htlc_accept ::
  "'p ln_env \<Rightarrow> nat \<Rightarrow> ln_hop_dataout_t \<Rightarrow> bytes \<Rightarrow> ln_self_t \<Rightarrow>
   ln_cb_add_htlc_result_t \<times> bytes \<times> ln_self_t" where
  "add_htlc_accept env idx hop reason self =
     (let h = cnl_add_htlc self ! idx;
          self = callback (CB_ADD_HTLC_RECV (htlc_id h) idx (amount_msat h) (cltv_expiry h)) self;
          (ret, next) = add_htlc_recv env in
      if ret then
        (if b_exit hop
         then (LN_CB_ADD_HTLC_RESULT_OK, reason,
               upd_htlc idx (\<lambda>h. h\<lparr>flag := (flag h)\<lparr>fin_delhtlc := LN_DELHTLC_FULFILL\<rparr>\<rparr>) self)
         else (LN_CB_ADD_HTLC_RESULT_OK, reason,
               upd_htlc idx (\<lambda>h. h\<lparr>next_short_channel_id := hop_short_channel_id hop, next_idx := next\<rparr>) self))
      else (LN_CB_ADD_HTLC_RESULT_FAIL,
            reason @ (case update_get_peer env of
              Some buf_bolt \<Rightarrow> be16 LNONION_TMP_CHAN_FAIL @ be16 (of_nat (length buf_bolt)) @ buf_bolt
            | None \<Rightarrow> be16 LNONION_UNKNOWN_NEXT_PEER),
            self))"

definition add_htlc_finish ::
  "'p ln_env \<Rightarrow> nat \<Rightarrow> ln_cb_add_htlc_result_t \<Rightarrow> ln_hop_dataout_t option \<Rightarrow> bytes \<Rightarrow> ln_self_t \<Rightarrow> ln_self_t" where
  "add_htlc_finish env idx result hop reason self =
     (let self = upd_htlc idx (\<lambda>h. h\<lparr>flag := (flag h)\<lparr>addhtlc := LN_ADDHTLC_RECV\<rparr>\<rparr>) self;
          (result, reason, self) =
            (case (result, hop) of
               (LN_CB_ADD_HTLC_RESULT_OK, Some hop) \<Rightarrow> add_htlc_accept env idx hop reason self
             | _ \<Rightarrow> (result, reason, self)) in
      case result of
        LN_CB_ADD_HTLC_RESULT_OK \<Rightarrow> self
      | LN_CB_ADD_HTLC_RESULT_FAIL \<Rightarrow>
          upd_htlc idx (\<lambda>h. h\<lparr>flag := (flag h)\<lparr>fin_delhtlc := LN_DELHTLC_FAIL\<rparr>,
            buf_onion_reason := failure_create env (buf_shared_secret h) reason\<rparr>) self
      | LN_CB_ADD_HTLC_RESULT_MALFORMED \<Rightarrow>
          upd_htlc idx (\<lambda>h. h\<lparr>flag := (flag h)\<lparr>fin_delhtlc := LN_DELHTLC_MALFORMED\<rparr>,
            buf_onion_reason := reason\<rparr>) self)"

definition recv_update_add_htlc :: "'p ln_env \<Rightarrow> bytes \<Rightarrow> ln_self_t \<Rightarrow> handler_result" where
  "recv_update_add_htlc env pData self =
     (case first_slot LN_HTLC_EMPTY (cnl_add_htlc self) of
        None \<Rightarrow> Inr (False, set_err LNERR_HTLC_FULL self)
      | Some idx \<Rightarrow>
          read_msg (ln_msg_update_add_htlc_read (cnl_add_htlc self ! idx) pData) self (\<lambda>h.
          let self = upd_htlc idx (\<lambda>_. h) self in
          chk_chan (p_channel_id h) self (
          let (ok, self) = check_recv_add_htlc_bolt2 self h in
          if \<not> ok then Inr (False, self)
          else
            bind_c (add_htlc_bolt4 env idx self) (\<lambda>(result, hop, reason, self).
            Inr (True, add_htlc_finish env idx result hop reason self)))))"

section \<open>update_fulfill_htlc, update_fail_htlc, update_fail_malformed_htlc\<close>

definition recv_update_fulfill_htlc :: "'p ln_env \<Rightarrow> bytes \<Rightarrow> ln_self_t \<Rightarrow> handler_result" where
  "recv_update_fulfill_htlc env pData self =
     read_msg (ln_msg_update_fulfill_htlc_read pData) self (\<lambda>m.
     chk_chan (ful_channel_id m) self (
     case find_offered (ful_id m) self of
       Some idx \<Rightarrow>
         let h = cnl_add_htlc self ! idx in
         if sha256 env (ful_preimage m) = payment_sha256 h then
           Inr (True, callback (CB_FULFILL_HTLC_RECV (prev_short_channel_id h) (prev_idx h)
                    (ful_preimage m) (htlc_id h) (amount_msat h))
                  (upd_htlc idx (\<lambda>h. clear_htlc_comrevflag h LN_DELHTLC_FULFILL) self))
         else Inr (True, set_err LNERR_INV_ID self)
     | None \<Rightarrow> Inr (True, set_err LNERR_INV_ID self)))"

definition recv_update_fail_htlc :: "bytes \<Rightarrow> ln_self_t \<Rightarrow> handler_result" where
  "recv_update_fail_htlc pData self =
     read_msg (ln_msg_update_fail_htlc_read pData) self (\<lambda>m.
     chk_chan (fail_channel_id m) self (
     case find_offered (fail_id m) self of
       Some idx \<Rightarrow>
         let h = cnl_add_htlc self ! idx in
         Inr (True, callback (CB_FAIL_HTLC_RECV (prev_short_channel_id h) idx (htlc_id h)
                  (payment_sha256 h) (fail_reason m) 0)
                (upd_htlc idx (\<lambda>h. clear_htlc_comrevflag h LN_DELHTLC_FAIL) self))
     | None \<Rightarrow> Inr (False, self)))"

definition recv_update_fail_malformed_htlc :: "bytes \<Rightarrow> ln_self_t \<Rightarrow> handler_result" where
  "recv_update_fail_malformed_htlc pData self =
     read_msg (ln_msg_update_fail_malformed_htlc_read pData) self (\<lambda>m.
     chk_chan (mal_channel_id m) self (
     if failure_code m AND LNERR_ONION_BADONION = 0 then Inr (False, set_err LNERR_INV_CHANNEL self)
     else
       (case find_offered (mal_id m) self of
          Some idx \<Rightarrow>
            let h = cnl_add_htlc self ! idx in
            Inr (True, callback (CB_FAIL_HTLC_RECV (prev_short_channel_id h) idx (htlc_id h)
                     (payment_sha256 h) (be16 (failure_code m) @ sha256_onion m) (failure_code m))
                   (upd_htlc idx (\<lambda>h. clear_htlc_comrevflag h LN_DELHTLC_MALFORMED) self))
        | None \<Rightarrow> Inr (True, self))))"

section \<open>commitment_signed\<close>

text \<open>
  The two struct members that the message carries are read into the state; what follows
  \<open>LABEL_EXIT\<close> on failure restores the signature only.
\<close>

definition restore_sig :: "bytes \<Rightarrow> ln_self_t \<Rightarrow> ln_self_t" where
  "restore_sig bak self = self\<lparr>commit_local := (commit_local self)\<lparr>cd_signature := bak\<rparr>\<rparr>"

definition revoke_local :: "ln_self_t \<Rightarrow> ln_self_t" where
  \<comment> \<open>the success case after \<open>LABEL_EXIT\<close>\<close>
  "revoke_local self =
     callback DB_SELF_SAVE (callback DB_SECRET_SAVE
       (self\<lparr>commit_local := (commit_local self)\<lparr>revoke_num := commit_num (commit_local self),
          commit_num := commit_num (commit_local self) + 1\<rparr>\<rparr>))"

definition commitment_answer ::
  "'p ln_env \<Rightarrow> bytes \<Rightarrow> bytes \<Rightarrow> ln_self_t \<Rightarrow> handler_result" where
  \<comment> \<open>from the loop that sets \<open>comrecv\<close> to the end\<close>
  "commitment_answer env bak id32 self =
     (let self = mark_htlcs in_local_commit set_comrecv self;
          prev_secret = ln_signer_create_prev_percommitsec env self;
          self = update_scriptkeys env (ln_signer_keys_update_storage env self) in
      try_c (with_bytes (ln_msg_revoke_and_ack_create \<lparr>ra_channel_id = id32,
           per_commit_secret = prev_secret,
           per_commitpt = pubkeys (funding_local self) ! MSG_FUNDIDX_PER_COMMIT\<rparr>) Inr) (\<lambda>b.
      case b of
        Some buf_bolt \<Rightarrow>
          Inr (True, revoke_local (callback (CB_SEND_REQ (Some buf_bolt))
            (mark_htlcs in_local_commit set_revsend self)))
      | None \<Rightarrow> Inr (False, restore_sig bak self)))"

definition recv_commitment_signed :: "'p ln_env \<Rightarrow> bytes \<Rightarrow> ln_self_t \<Rightarrow> handler_result" where
  "recv_commitment_signed env pData self =
     (let bak = cd_signature (commit_local self) in
      read_msg (ln_msg_commit_signed_read pData) self (\<lambda>m.
      let self = self\<lparr>commit_local := (commit_local self)\<lparr>cd_signature := cs_signature m\<rparr>\<rparr> in
      if \<not> chk_channelid (cs_channel_id m) (channel_id self)
      then Inr (False, restore_sig bak (set_err LNERR_INV_CHANNEL self))
      else
        bind_c (create_to_local env (Some (cs_htlc_signature m)) (ucast (num_htlcs m))
            (commit_num (commit_local self) + 1) (ucast (to_self_delay (commit_remote self)))
            (dust_limit_sat (commit_local self)) self) (\<lambda>(ret, self).
        if \<not> ret then Inr (False, restore_sig bak self)
        else commitment_answer env bak (cs_channel_id m) self)))"

section \<open>revoke_and_ack\<close>

definition recv_revoke_and_ack :: "'p ln_env \<Rightarrow> bytes \<Rightarrow> ln_self_t \<Rightarrow> handler_result" where
  "recv_revoke_and_ack env pData self =
     read_msg (ln_msg_revoke_and_ack_read pData) self (\<lambda>m.
     chk_chan (ra_channel_id m) self (
     case priv2pub env (per_commit_secret m) of
       None \<Rightarrow> Inr (False, self)
     | Some _ \<Rightarrow>
         bind_c (store_peer_percommit_secret env (per_commit_secret m) self) (\<lambda>self.
         let d = funding_remote self;
             self = self\<lparr>prev_percommit := pubkeys d ! MSG_FUNDIDX_PER_COMMIT,
               funding_remote := d\<lparr>pubkeys := (pubkeys d)[MSG_FUNDIDX_PER_COMMIT := per_commitpt m]\<rparr>\<rparr>;
             self = mark_htlcs in_remote_commit set_revrecv (update_scriptkeys env self);
             self = self\<lparr>commit_remote := (commit_remote self)\<lparr>revoke_num := commit_num (commit_remote self) - 1\<rparr>\<rparr>
         in Inr (True, callback DB_SELF_SAVE self))))"

section \<open>update_fee, channel_reestablish\<close>

definition recv_update_fee :: "bytes \<Rightarrow> ln_self_t \<Rightarrow> handler_result" where
  "recv_update_fee pData self =
     read_msg (ln_msg_update_fee_read pData) self (\<lambda>m.
     chk_chan (fee_channel_id m) self (
     Inr (True, callback (CB_UPDATE_FEE_RECV (feerate_per_kw self))
       (self\<lparr>feerate_per_kw := fee_feerate_per_kw m\<rparr>))))"

definition LN_INIT_LF_OPT_DATALOSS :: byte where "LN_INIT_LF_OPT_DATALOSS = 0x02"

text \<open>\<open>base\<close> are the uninitialised optional members of the local struct.\<close>

definition recv_channel_reestablish ::
  "'p ln_env \<Rightarrow> ln_channel_reestablish_t \<Rightarrow> bytes \<Rightarrow> ln_self_t \<Rightarrow> handler_result" where
  "recv_channel_reestablish env base pData self =
     read_msg (ln_msg_channel_reestablish_read base pData) self (\<lambda>reest.
     chk_chan (re_channel_id reest) self (
     let self = self\<lparr>reest_commit_num := next_local_commitment_number reest,
           reest_revoke_num := next_remote_revocation_number reest\<rparr>;
         chk_commit_num =
           (commit_num (commit_remote self) + 1 = next_local_commitment_number reest \<or>
            commit_num (commit_remote self) = next_local_commitment_number reest);
         chk_revoke_num =
           (revoke_num (commit_local self) + 1 = next_remote_revocation_number reest \<or>
            revoke_num (commit_local self) = next_remote_revocation_number reest);
         ok = Inr (True, callback CB_REESTABLISH_RECV self) in
     if \<not> (chk_commit_num \<and> chk_revoke_num) \<and> lfeature_local self AND LN_INIT_LF_OPT_DATALOSS \<noteq> 0 \<and>
        option_data_loss_protect reest
     then
       (if next_remote_revocation_number reest > commit_num (commit_local self) \<and>
           ln_derkey_create_secret (sha256 env) (storage_seed self) (storage_index self + 4) =
             your_last_per_commitment_secret reest
        then ok else Inr (False, self))
     else ok))"

end
