(* ===== verification/Channel_Send.thy ===== *)
theory Channel_Send
  imports Channel_Check Commit_Build
begin

text \<open>
  The other half of normal operation in \<^verbatim>\<open>ln/ln.c\<close>: putting an HTLC into a slot and taking it back
  (\<^verbatim>\<open>ln_add_htlc_set\<close>, \<^verbatim>\<open>ln_fulfill_htlc_set\<close>, \<^verbatim>\<open>ln_fail_htlc_set\<close>), the messages made from a
  slot, \<^verbatim>\<open>create_commitment_signed\<close>, and the work done when nothing is received
  (\<^verbatim>\<open>ln_recv_idle_proc\<close>): it sends what has to be sent, and settles what both sides have committed to.
  The debug switches of the source are off.
\<close>

section \<open>Offering an HTLC\<close>

definition check_create_remote_commit_tx ::
  "'p ln_env \<Rightarrow> nat \<Rightarrow> ln_self_t \<Rightarrow> (bool \<times> ln_self_t) c_result" where
  "check_create_remote_commit_tx env idx self =
     (let trial = upd_htlc idx (\<lambda>h. h\<lparr>flag := flag_zero\<lparr>addhtlc := LN_ADDHTLC_OFFER, updsend := True\<rparr>\<rparr>) self in
      bind_c (create_to_remote env (commit_remote self) True (commit_num (commit_remote self) + 1) trial)
        (\<lambda>(ret, _, _).
        Inr (ret, if ret then self else set_err LNERR_MSG_ERROR self)))"

definition clear_slot :: "nat \<Rightarrow> ln_self_t \<Rightarrow> ln_self_t" where
  \<comment> \<open>\<open>clear_htlc(&self->cnl_add_htlc[idx])\<close> with its deletion of the preimage\<close>
  "clear_slot idx self =
     upd_htlc idx clear_htlc
       (callback (DB_PREIMG_DEL (buf_payment_preimage (cnl_add_htlc self ! idx))) self)"

text \<open>The result is the slot and the id of the HTLC, the reason buffer (see
  \<^verbatim>\<open>check_create_add_htlc\<close>), and the state.\<close>

definition set_add_htlc ::
  "'p ln_env \<Rightarrow> bytes option \<Rightarrow> bytes \<Rightarrow> u64 \<Rightarrow> u32 \<Rightarrow> bytes \<Rightarrow> u64 \<Rightarrow> u16 \<Rightarrow> bytes option \<Rightarrow> ln_self_t \<Rightarrow>
   ((nat \<times> u64) option \<times> bytes option \<times> ln_self_t) c_result" where
  "set_add_htlc env pReason pPacket AmountMsat CltvValue pPaymentHash PrevScid PrevIdx pSharedSecrets self =
     bind_c (check_create_add_htlc env pReason AmountMsat CltvValue self) (\<lambda>(slot, reason, self).
     case slot of
       None \<Rightarrow> Inr (None, reason, self)
     | Some idx \<Rightarrow>
         get_bytes LN_SZ_ONION_ROUTE pPacket (\<lambda>packet _.
         get_bytes BTC_SZ_HASH256 pPaymentHash (\<lambda>hash _.
         let i = htlc_id_num self;
             self = upd_htlc idx (\<lambda>h. h\<lparr>p_channel_id := channel_id self, htlc_id := i,
               amount_msat := AmountMsat, cltv_expiry := CltvValue, payment_sha256 := hash,
               buf_onion_reason := packet, prev_short_channel_id := PrevScid, prev_idx := PrevIdx,
               buf_shared_secret := (case pSharedSecrets of Some s \<Rightarrow> s | None \<Rightarrow> [])\<rparr>)
               (self\<lparr>htlc_id_num := i + 1\<rparr>) in
         bind_c (check_create_remote_commit_tx env idx self) (\<lambda>(ret, self).
         if ret then Inr (Some (idx, i), reason, self)
         else Inr (None, reason, clear_slot idx (set_err LNERR_MSG_ERROR self))))))"

definition ln_add_htlc_start_fwd :: "nat \<Rightarrow> ln_self_t \<Rightarrow> ln_self_t" where
  "ln_add_htlc_start_fwd idx self =
     upd_htlc idx (\<lambda>h. h\<lparr>flag := (flag h)\<lparr>addhtlc := LN_ADDHTLC_OFFER\<rparr>\<rparr>) self"

definition ln_add_htlc_set_fwd ::
  "'p ln_env \<Rightarrow> bytes option \<Rightarrow> bytes \<Rightarrow> u64 \<Rightarrow> u32 \<Rightarrow> bytes \<Rightarrow> u64 \<Rightarrow> u16 \<Rightarrow> bytes option \<Rightarrow> ln_self_t \<Rightarrow>
   ((nat \<times> u64) option \<times> bytes option \<times> ln_self_t) c_result" where
  "ln_add_htlc_set_fwd env pReason pPacket AmountMsat CltvValue pPaymentHash PrevScid PrevIdx pShared self =
     (if shutdown_flag self \<noteq> 0 then Inr (None, pReason, set_err LNERR_INV_STATE self)
      else set_add_htlc env pReason pPacket AmountMsat CltvValue pPaymentHash PrevScid PrevIdx pShared self)"

definition ln_add_htlc_set ::
  "'p ln_env \<Rightarrow> bytes option \<Rightarrow> bytes \<Rightarrow> u64 \<Rightarrow> u32 \<Rightarrow> bytes \<Rightarrow> u64 \<Rightarrow> u16 \<Rightarrow> bytes option \<Rightarrow> ln_self_t \<Rightarrow>
   ((nat \<times> u64) option \<times> bytes option \<times> ln_self_t) c_result" where
  "ln_add_htlc_set env pReason pPacket AmountMsat CltvValue pPaymentHash PrevScid PrevIdx pShared self =
     (if shutdown_flag self \<noteq> 0 then Inr (None, pReason, set_err LNERR_INV_STATE self)
      else
        bind_c (set_add_htlc env pReason pPacket AmountMsat CltvValue pPaymentHash PrevScid PrevIdx pShared self)
          (\<lambda>(r, reason, self). Inr (r, reason,
             case r of Some (idx, _) \<Rightarrow>
               upd_htlc idx (\<lambda>h. h\<lparr>flag := (flag h)\<lparr>addhtlc := LN_ADDHTLC_OFFER\<rparr>\<rparr>) self
             | None \<Rightarrow> self)))"

section \<open>Taking an HTLC back\<close>

definition ln_fulfill_htlc_set :: "nat \<Rightarrow> bytes \<Rightarrow> ln_self_t \<Rightarrow> ln_self_t" where
  "ln_fulfill_htlc_set idx pPreImage self =
     callback DB_SELF_SAVE
       (upd_htlc idx (\<lambda>h. (clear_htlc_comrevflag h LN_DELHTLC_FULFILL)\<lparr>buf_payment_preimage := pPreImage\<rparr>) self)"

definition ln_fail_htlc_set :: "'p ln_env \<Rightarrow> nat \<Rightarrow> bytes \<Rightarrow> ln_self_t \<Rightarrow> ln_self_t" where
  "ln_fail_htlc_set env idx pReason self =
     upd_htlc idx (\<lambda>h. let h = clear_htlc_comrevflag h LN_DELHTLC_FAIL in
       h\<lparr>flag := (flag h)\<lparr>delhtlc := LN_DELHTLC_FAIL\<rparr>,
         buf_onion_reason := failure_forward env (buf_shared_secret h) pReason\<rparr>) self"

section \<open>The messages made from a slot\<close>

text \<open>
  The content of the message, or nothing when it could not be created; then an error message is sent
  (\<open>CB_SEND_REQ None\<close>).
\<close>

definition slot_msg :: "nat \<Rightarrow> utl_buf_t c_result \<Rightarrow> ln_self_t \<Rightarrow> (bytes option \<times> ln_self_t) c_result" where
  "slot_msg idx r self =
     try_c (with_bytes r Inr) (\<lambda>b. case b of
       Some bolt \<Rightarrow> Inr (Some bolt, upd_htlc idx set_updsend self)
     | None \<Rightarrow> Inr (None, callback (CB_SEND_REQ None) (set_err LNERR_ERROR self)))"

definition add_htlc_create :: "nat \<Rightarrow> ln_self_t \<Rightarrow> (bytes option \<times> ln_self_t) c_result" where
  "add_htlc_create idx self =
     slot_msg idx (ln_msg_update_add_htlc_create (cnl_add_htlc self ! idx)) self"

definition fulfill_htlc_create :: "nat \<Rightarrow> ln_self_t \<Rightarrow> (bytes option \<times> ln_self_t) c_result" where
  "fulfill_htlc_create idx self =
     (let h = cnl_add_htlc self ! idx in
      slot_msg idx (ln_msg_update_fulfill_htlc_create \<lparr>ful_channel_id = channel_id self,
        ful_id = htlc_id h, ful_preimage = buf_payment_preimage h\<rparr>) self)"

definition fail_htlc_create :: "nat \<Rightarrow> ln_self_t \<Rightarrow> (bytes option \<times> ln_self_t) c_result" where
  "fail_htlc_create idx self =
     (let h = cnl_add_htlc self ! idx in
      slot_msg idx (ln_msg_update_fail_htlc_create \<lparr>fail_channel_id = channel_id self,
        fail_id = htlc_id h, fail_reason = buf_onion_reason h\<rparr>) self)"

definition fail_malformed_htlc_create :: "nat \<Rightarrow> ln_self_t \<Rightarrow> (bytes option \<times> ln_self_t) c_result" where
  "fail_malformed_htlc_create idx self =
     (let h = cnl_add_htlc self ! idx in
      get_u16 (buf_onion_reason h) (\<lambda>code p.
      get_bytes BTC_SZ_HASH256 p (\<lambda>sha _.
      slot_msg idx (ln_msg_update_fail_malformed_htlc_create \<lparr>mal_channel_id = channel_id self,
        mal_id = htlc_id h, sha256_onion = sha, failure_code = code\<rparr>) self)))"

definition M_INIT_FLAG_EXCHNAGED :: "byte \<Rightarrow> bool" where
  "M_INIT_FLAG_EXCHNAGED f \<longleftrightarrow> f AND 3 = 3"

definition create_commitment_signed :: "'p ln_env \<Rightarrow> ln_self_t \<Rightarrow> (bytes option \<times> ln_self_t) c_result" where
  "create_commitment_signed env self =
     (if \<not> M_INIT_FLAG_EXCHNAGED (init_flag self) then Inr (None, set_err LNERR_INV_STATE self)
      else
        bind_c (create_to_remote env (commit_remote self) True (commit_num (commit_remote self) + 1) self)
          (\<lambda>(ret, c, sigs).
          let self = self\<lparr>commit_remote := c\<rparr> in
          if \<not> ret then Inr (None, set_err LNERR_MSG_ERROR self)
          else
            (let self = self\<lparr>commit_remote := (commit_remote self)\<lparr>commit_num := commit_num (commit_remote self) + 1\<rparr>\<rparr>
             in try_c (with_bytes (ln_msg_commit_signed_create \<lparr>cs_channel_id = channel_id self,
                    cs_signature = cd_signature (commit_remote self), num_htlcs = htlc_num (commit_remote self),
                    cs_htlc_signature = (case sigs of Some s \<Rightarrow> s | None \<Rightarrow> [])\<rparr>) Inr)
                  (\<lambda>b. Inr (b, self)))))"

section \<open>Idle: everything is committed\<close>

text \<open>One slot of the loop in \<^verbatim>\<open>recv_idle_proc_final\<close>, with \<open>db_upd\<close> and \<open>revack\<close>.\<close>

definition idle_forward :: "nat \<Rightarrow> ln_self_t \<times> bool \<Rightarrow> ln_self_t \<times> bool" where
  "idle_forward idx = (\<lambda>(self, db_upd).
     let h = cnl_add_htlc self ! idx in
     if next_short_channel_id h \<noteq> 0 then
       (upd_htlc idx (\<lambda>h. h\<lparr>next_short_channel_id := 0\<rparr>)
          (callback (CB_FWD_ADDHTLC_START (next_short_channel_id h) (next_idx h)) self), True)
     else (self, db_upd))"

definition idle_backward :: "nat \<Rightarrow> ln_self_t \<times> bool \<Rightarrow> ln_self_t \<times> bool" where
  "idle_backward idx = (\<lambda>(self, db_upd).
     let h = cnl_add_htlc self ! idx; fin = fin_delhtlc (flag h) in
     if fin \<noteq> LN_DELHTLC_NONE then
       (upd_htlc idx (\<lambda>h. clear_htlc_comrevflag h fin) (callback (CB_BWD_DELHTLC_START fin) self), True)
     else (self, db_upd))"

definition idle_settle :: "nat \<Rightarrow> ln_self_t \<Rightarrow> ln_self_t" where
  "idle_settle idx self =
     (let h = cnl_add_htlc self ! idx; fulfill = (delhtlc (flag h) = LN_DELHTLC_FULFILL) in
      clear_slot idx
       (case addhtlc (flag h) of
          LN_ADDHTLC_OFFER \<Rightarrow>
            let self = (if fulfill then self\<lparr>our_msat := our_msat self - amount_msat h,
                          their_msat := their_msat self + amount_msat h\<rparr> else self) in
            if prev_short_channel_id h = 0 \<and> \<not> fulfill
            then callback (CB_PAYMENT_RETRY (payment_sha256 h)) self else self
        | LN_ADDHTLC_RECV \<Rightarrow>
            if fulfill then self\<lparr>our_msat := our_msat self + amount_msat h,
                             their_msat := their_msat self - amount_msat h\<rparr> else self
        | LN_ADDHTLC_NONE \<Rightarrow> self))"

definition idle_final_slot :: "nat \<Rightarrow> ln_self_t \<times> bool \<times> bool \<Rightarrow> ln_self_t \<times> bool \<times> bool" where
  "idle_final_slot idx = (\<lambda>(self, db_upd, revack).
     let h = cnl_add_htlc self ! idx in
     if \<not> LN_HTLC_ENABLE h then (self, db_upd, revack)
     else if LN_HTLC_ENABLE_LOCAL_ADDHTLC_OFFER (flag h) then (self, db_upd, revack)
     else if LN_HTLC_ENABLE_LOCAL_ADDHTLC_RECV (flag h) then
       (let (self, db_upd) = idle_backward idx (idle_forward idx (self, db_upd)) in (self, db_upd, revack))
     else (idle_settle idx self, True, True))"

definition recv_idle_proc_final :: "ln_self_t \<Rightarrow> ln_self_t" where
  "recv_idle_proc_final self =
     (let (self, db_upd, revack) = fold idle_final_slot [0..<LN_HTLC_MAX] (self, False, False) in
      if db_upd then
        (let self = callback DB_SELF_SAVE self in if revack then callback CB_REV_AND_ACK_EXCG self else self)
      else self)"

section \<open>Idle: something has to be committed\<close>

text \<open>One slot of the second loop in \<^verbatim>\<open>recv_idle_proc_nonfinal\<close>, with \<open>b_comsig\<close>.\<close>

definition idle_slot_msg :: "nat \<Rightarrow> ln_self_t \<Rightarrow> (bytes option \<times> ln_self_t) c_result option" where
  \<comment> \<open>the message that the slot wants to send; \<open>None\<close> if it has none to send\<close>
  "idle_slot_msg idx self =
     (let f = flag (cnl_add_htlc self ! idx) in
      if LN_HTLC_WILL_ADDHTLC f then Some (add_htlc_create idx self)
      else if LN_HTLC_WILL_DELHTLC f then
        (case delhtlc f of
           LN_DELHTLC_FULFILL \<Rightarrow> Some (fulfill_htlc_create idx self)
         | LN_DELHTLC_FAIL \<Rightarrow> Some (fail_htlc_create idx self)
         | LN_DELHTLC_MALFORMED \<Rightarrow> Some (fail_malformed_htlc_create idx self)
         | LN_DELHTLC_NONE \<Rightarrow> None)
      else None)"

definition idle_nonfinal_slot :: "nat \<Rightarrow> ln_self_t \<times> bool \<Rightarrow> (ln_self_t \<times> bool) c_result" where
  "idle_nonfinal_slot idx = (\<lambda>(self, b_comsig).
     let h = cnl_add_htlc self ! idx; f = flag h in
     if \<not> LN_HTLC_ENABLE h then Inr (self, b_comsig)
     else
       (case idle_slot_msg idx self of
          Some r \<Rightarrow>
            bind_c r (\<lambda>(b, self).
            case b of
              Some buf_bolt \<Rightarrow>
                if buf_bolt \<noteq> [] then
                  Inr (upd_htlc idx set_updsend (callback (CB_SEND_REQ (Some buf_bolt)) self), b_comsig)
                else Inr (self, b_comsig)
            | None \<Rightarrow> Inr (self, b_comsig))
        | None \<Rightarrow>
            Inr (self, b_comsig \<or> (\<not> LN_HTLC_WILL_ADDHTLC f \<and> \<not> LN_HTLC_WILL_DELHTLC f \<and>
              (LN_HTLC_WILL_COMSIG_OFFER f \<or> LN_HTLC_WILL_COMSIG_RECV f)))))"

fun idle_nonfinal_loop :: "nat list \<Rightarrow> ln_self_t \<times> bool \<Rightarrow> (ln_self_t \<times> bool) c_result" where
  "idle_nonfinal_loop [] s = Inr s"
| "idle_nonfinal_loop (idx # is) s = bind_c (idle_nonfinal_slot idx s) (idle_nonfinal_loop is)"

definition comsiging :: "ln_self_t \<Rightarrow> bool" where
  \<comment> \<open>\<open>b_comsiging\<close>: an exchange of \<open>commitment_signed\<close> and \<open>revoke_and_ack\<close> is half done\<close>
  "comsiging self \<longleftrightarrow> (\<exists>h\<in>set (cnl_add_htlc self).
     comsend (flag h) \<noteq> revrecv (flag h) \<or> comrecv (flag h) \<noteq> revsend (flag h))"

definition recv_idle_proc_nonfinal :: "'p ln_env \<Rightarrow> ln_self_t \<Rightarrow> ln_self_t c_result" where
  "recv_idle_proc_nonfinal env self =
     bind_c (if comsiging self then Inr (self, False) else idle_nonfinal_loop [0..<LN_HTLC_MAX] (self, False))
       (\<lambda>(self, b_comsig).
       if b_comsig then
         bind_c (create_commitment_signed env self) (\<lambda>(b, self).
         case b of
           Some buf_bolt \<Rightarrow>
             Inr (callback DB_SELF_SAVE (mark_htlcs in_remote_commit set_comsend
               (callback (CB_SEND_REQ (Some buf_bolt)) self)))
         | None \<Rightarrow> Inr (callback CB_QUIT self))
       else Inr self)"

definition ln_recv_idle_proc :: "'p ln_env \<Rightarrow> ln_self_t \<Rightarrow> ln_self_t c_result" where
  "ln_recv_idle_proc env self =
     (if \<forall>h\<in>set (cnl_add_htlc self). \<not> LN_HTLC_ENABLE h then Inr self
      else if \<forall>h\<in>set (cnl_add_htlc self). LN_HTLC_ENABLE h \<longrightarrow> committed (flag h)
      then Inr (recv_idle_proc_final self)
      else recv_idle_proc_nonfinal env self)"

section \<open>A closed channel\<close>

definition free_establish :: "bool \<Rightarrow> ln_self_t \<Rightarrow> ln_self_t" where
  "free_establish bEndEstablish self =
     self\<lparr>p_establish := (if bEndEstablish then None else map_option (\<lambda>e. e\<lparr>p_fundin := None\<rparr>) (p_establish self)),
       is_funding := False, is_opened := True\<rparr>"

definition channel_clear :: "ln_self_t \<Rightarrow> ln_self_t" where
  \<comment> \<open>the part of it that concerns the fields of the record\<close>
  "channel_clear self =
     (free_establish True self)\<lparr>shutdown_scriptpk_local := [], shutdown_scriptpk_remote := [], redeem_fund := [],
       tx_funding := [], shutdown_flag := 0, cnl_anno := None, anno_flag := 0,
       peer_node_id := replicate BTC_SZ_PUBKEY 0,
       cnl_add_htlc := map (\<lambda>h. h\<lparr>buf_payment_preimage := [], buf_onion_reason := [],
         buf_shared_secret := []\<rparr>) (cnl_add_htlc self)\<rparr>"

end
