(* ===== verification/Channel_Inv.thy ===== *)
theory Channel_Inv
  imports Channel_Recv Channel_Send
begin

text \<open>
  What every operation of a channel keeps. \<open>step_ok\<close> relates the state before and after: the sizes
  stay well-formed, the two balances keep their sum, the index of the next per-commitment secret
  moves with the number of the local commitment, the local commitment is one ahead of the last
  revoked one, and \<open>commitment_signed\<close> is always answered at once. The handlers are interpretations
  of one interface, so that \<^verbatim>\<open>ln_recv\<close> and every sequence of steps inherit it.
\<close>

section \<open>The relation\<close>

definition numbers_ok :: "ln_self_t \<Rightarrow> bool" where
  "numbers_ok self \<longleftrightarrow> commit_num (commit_local self) = revoke_num (commit_local self) + 1"

definition answered :: "ln_update_add_htlc_t \<Rightarrow> bool" where
  "answered h \<longleftrightarrow> comrecv (flag h) = revsend (flag h)"

definition step_ok :: "ln_self_t \<Rightarrow> ln_self_t \<Rightarrow> bool" where
  "step_ok self self' \<longleftrightarrow>
     (wf_self self \<longrightarrow> wf_self self') \<and>
     our_msat self' + their_msat self' = our_msat self + their_msat self \<and>
     storage_index self' + commit_num (commit_local self') =
       storage_index self + commit_num (commit_local self) \<and>
     storage_seed self' = storage_seed self \<and> channel_id self' = channel_id self \<and>
     p_establish self' = p_establish self \<and> short_channel_id self' = short_channel_id self \<and>
     (numbers_ok self \<longrightarrow> numbers_ok self') \<and>
     ((\<forall>h\<in>set (cnl_add_htlc self). answered h) \<longrightarrow> (\<forall>h\<in>set (cnl_add_htlc self'). answered h))"

lemma step_ok_refl [intro, simp]: "step_ok self self"
  by (simp add: step_ok_def)

lemma step_ok_trans: "step_ok a b \<Longrightarrow> step_ok b c \<Longrightarrow> step_ok a c"
  unfolding step_ok_def by (elim conjE, intro conjI) (blast | metis)+

lemma step_ok_set_err [intro, simp]: "step_ok self (set_err e self)"
  by (simp add: step_ok_def set_err_def wf_self_def numbers_ok_def)

lemma step_ok_callback [intro, simp]: "step_ok self (callback e self)"
  by (simp add: step_ok_def callback_def wf_self_def numbers_ok_def)

lemma step_ok_upd:
  assumes "\<And>h. wf_htlc h \<Longrightarrow> wf_htlc (f h)" "\<And>h. answered h \<Longrightarrow> answered (f h)"
  shows "step_ok self (upd_htlc i f self)"
proof -
  have "answered h" if "h \<in> set (cnl_add_htlc (upd_htlc i f self))" "\<forall>h\<in>set (cnl_add_htlc self). answered h" for h
    using set_upd_htlc [OF that(1)] that(2) assms(2) nth_mem [of i "cnl_add_htlc self"] by auto
  then show ?thesis
    using wf_upd_htlc [OF _ assms(1), where self = self and i = i]
    by (simp add: step_ok_def numbers_ok_def) (simp add: upd_htlc_def)
qed

lemma step_ok_upd_const:
  assumes "wf_htlc h" "answered h"
  shows "step_ok self (upd_htlc i (\<lambda>_. h) self)"
  using assms by (intro step_ok_upd)

lemma step_ok_mark:
  assumes "\<And>f. (comrecv f = revsend f) \<Longrightarrow> (comrecv (m f) = revsend (m f))"
  shows "step_ok self (mark_htlcs c m self)"
  using assms by (auto simp: step_ok_def mark_htlcs_def wf_self_def wf_htlc_def numbers_ok_def answered_def)

text \<open>The rules, and the shape of the updates of a slot.\<close>

lemma clear_comrevflag_keeps:
  "wf_htlc h \<Longrightarrow> wf_htlc (clear_htlc_comrevflag h d)"
  "answered h \<Longrightarrow> answered (clear_htlc_comrevflag h d)"
  by (simp_all add: wf_htlc_def answered_def clear_htlc_comrevflag_def Let_def)

lemma clear_htlc_keeps: "wf_htlc (clear_htlc h)" "answered (clear_htlc h)"
  by (simp_all add: wf_htlc_def answered_def clear_htlc_def htlc_zero_def flag_zero_def)

lemma wf_htlc_update [simp]:
  "wf_htlc (h\<lparr>flag := f\<rparr>) = wf_htlc h"
  "wf_htlc (h\<lparr>buf_onion_reason := b\<rparr>) = wf_htlc h"
  "wf_htlc (h\<lparr>buf_shared_secret := b\<rparr>) = wf_htlc h"
  "wf_htlc (h\<lparr>buf_payment_preimage := b\<rparr>) = wf_htlc h"
  "wf_htlc (h\<lparr>next_short_channel_id := x\<rparr>) = wf_htlc h"
  "wf_htlc (h\<lparr>next_idx := n\<rparr>) = wf_htlc h"
  "wf_htlc (h\<lparr>prev_short_channel_id := x\<rparr>) = wf_htlc h"
  by (simp_all add: wf_htlc_def)

lemma answered_update [simp]:
  "answered (h\<lparr>buf_onion_reason := b\<rparr>) = answered h"
  "answered (h\<lparr>buf_shared_secret := b\<rparr>) = answered h"
  "answered (h\<lparr>buf_payment_preimage := b\<rparr>) = answered h"
  "answered (h\<lparr>next_short_channel_id := x\<rparr>) = answered h"
  "answered (h\<lparr>next_idx := n\<rparr>) = answered h"
  "answered (h\<lparr>prev_short_channel_id := x\<rparr>) = answered h"
  "answered (h\<lparr>flag := (flag h)\<lparr>addhtlc := a\<rparr>\<rparr>) = answered h"
  "answered (h\<lparr>flag := (flag h)\<lparr>delhtlc := d\<rparr>\<rparr>) = answered h"
  "answered (h\<lparr>flag := (flag h)\<lparr>fin_delhtlc := d\<rparr>\<rparr>) = answered h"
  "answered (h\<lparr>flag := (flag h)\<lparr>updsend := b'\<rparr>\<rparr>) = answered h"
  by (simp_all add: answered_def)

section \<open>Keys and secrets\<close>

lemma length_flip_at [simp]: "length (flip_at n xs) = length xs"
  by (simp add: flip_at_def)

lemma length_derive_secret:
  "(\<And>x. length (sha x) = 32) \<Longrightarrow> length s = 32 \<Longrightarrow> length (derive_secret sha s n I) = 32"
  by (induction n arbitrary: s) auto

lemma wf_keys_set_script:
  "wf_keys d \<Longrightarrow> (\<And>x. k = Some x \<Longrightarrow> length x = BTC_SZ_PUBKEY) \<Longrightarrow> wf_keys (set_script_key i k d)"
  by (auto simp: wf_keys_def set_script_key_def split: option.splits
      dest: set_update_subset_insert [THEN subsetD])

lemma derived_key_length:
  assumes "wf_env env"
  shows "ln_derkey_pubkey (ec env) sha a b = Some x \<Longrightarrow> length x = BTC_SZ_PUBKEY"
    "ln_derkey_revocationkey (ec env) sha a b = Some x \<Longrightarrow> length x = BTC_SZ_PUBKEY"
  using assms
  by (auto simp: wf_env_def ln_derkey_pubkey_def ln_derkey_revocationkey_def Let_def
      btc_util_ecp_muladd_def bind_eq_Some_conv split: if_splits)

lemma step_ok_scriptkeys:
  assumes "wf_env env"
  shows "step_ok self (update_scriptkeys env self)"
proof -
  obtain l r where lr: "ln_misc_update_scriptkeys (ec env) (sha256 env) (funding_local self) (funding_remote self) = (l, r)"
    by (cases "ln_misc_update_scriptkeys (ec env) (sha256 env) (funding_local self) (funding_remote self)")
  have "wf_keys l \<and> wf_keys r" if "wf_keys (funding_local self)" "wf_keys (funding_remote self)"
    using that lr derived_key_length [OF assms]
    by (auto simp: ln_misc_update_scriptkeys_def Let_def intro!: wf_keys_set_script)
  then show ?thesis
    by (simp add: step_ok_def update_scriptkeys_def lr wf_self_def numbers_ok_def)
qed

lemma wf_keys_pubkey:
  "wf_keys d \<Longrightarrow> length p = BTC_SZ_PUBKEY \<Longrightarrow> wf_keys (d\<lparr>pubkeys := (pubkeys d)[i := p]\<rparr>)"
  by (auto simp: wf_keys_def dest: set_update_subset_insert [THEN subsetD])

text \<open>A handler or another operation that takes a message.\<close>

locale handler =
  fixes env :: "'p ln_env" and handle :: "bytes \<Rightarrow> ln_self_t \<Rightarrow> handler_result"
  assumes handle_keeps:
    "wf_env env \<Longrightarrow> wf_self self \<Longrightarrow> handle d self = Inr (ret, self') \<Longrightarrow> step_ok self self'"
begin

fun handle_all :: "bytes list \<Rightarrow> ln_self_t \<Rightarrow> ln_self_t c_result" where
  "handle_all [] self = Inr self"
| "handle_all (d # ds) self = bind_c (handle d self) (\<lambda>(ret, self). handle_all ds self)"

lemma handle_all_keeps:
  "wf_env env \<Longrightarrow> wf_self self \<Longrightarrow> handle_all ds self = Inr self' \<Longrightarrow> step_ok self self' \<and> wf_self self'"
proof (induction ds arbitrary: self)
  case (Cons d ds)
  obtain ret self1 where h: "handle d self = Inr (ret, self1)" "handle_all ds self1 = Inr self'"
    using Cons.prems(3) by (auto simp: bind_c_Inr_iff)
  have "step_ok self self1" using handle_keeps [OF Cons.prems(1,2) h(1)] .
  moreover from this have "wf_self self1" using Cons.prems(2) by (simp add: step_ok_def)
  ultimately show ?case using Cons.IH [OF Cons.prems(1) _ h(2)] step_ok_trans by blast
qed simp

end

lemma read_msg_Inr:
  assumes "read_msg r self k = Inr (ret, self')"
    "\<And>m. r = Inr m \<Longrightarrow> k m = Inr (ret, self') \<Longrightarrow> step_ok self self'"
  shows "step_ok self self'"
  using assms by (auto simp: read_msg_def try_c_def split: sum.splits if_splits option.splits)

lemma chk_chan_Inr:
  assumes "chk_chan i self k = Inr (ret, self')" "k = Inr (ret, self') \<Longrightarrow> step_ok self self'"
  shows "step_ok self self'"
  using assms by (auto simp: chk_chan_def split: if_splits)

lemma step_ok_then_callback: "step_ok self self' \<Longrightarrow> step_ok self (callback e self')"
  using step_ok_trans step_ok_callback by blast

lemma step_ok_fields [intro, simp]:
  "step_ok self (self\<lparr>feerate_per_kw := r\<rparr>)"
  "step_ok self (self\<lparr>reest_commit_num := a, reest_revoke_num := b\<rparr>)"
  by (simp_all add: step_ok_def wf_self_def numbers_ok_def)

interpretation recv_update_fee: handler env "recv_update_fee" for env :: "'p ln_env"
proof
  fix self self' ret d
  assume "recv_update_fee d self = Inr (ret, self')"
  then show "step_ok self self'"
    unfolding recv_update_fee_def
    by (elim read_msg_Inr chk_chan_Inr) (auto intro!: step_ok_then_callback)
qed

interpretation recv_update_fulfill_htlc: handler env "recv_update_fulfill_htlc env" for env :: "'p ln_env"
proof
  fix self self' ret d
  assume "recv_update_fulfill_htlc env d self = Inr (ret, self')"
  then show "step_ok self self'"
    unfolding recv_update_fulfill_htlc_def
    by (elim read_msg_Inr chk_chan_Inr)
      (auto simp: Let_def split: option.splits if_splits
        intro!: step_ok_then_callback step_ok_upd clear_comrevflag_keeps)
qed

interpretation recv_update_fail_htlc: handler env "recv_update_fail_htlc" for env :: "'p ln_env"
proof
  fix self self' ret d
  assume "recv_update_fail_htlc d self = Inr (ret, self')"
  then show "step_ok self self'"
    unfolding recv_update_fail_htlc_def
    by (elim read_msg_Inr chk_chan_Inr)
      (auto simp: Let_def split: option.splits if_splits
        intro!: step_ok_then_callback step_ok_upd clear_comrevflag_keeps)
qed

interpretation recv_update_fail_malformed_htlc: handler env "recv_update_fail_malformed_htlc"
  for env :: "'p ln_env"
proof
  fix self self' ret d
  assume "recv_update_fail_malformed_htlc d self = Inr (ret, self')"
  then show "step_ok self self'"
    unfolding recv_update_fail_malformed_htlc_def
    by (elim read_msg_Inr chk_chan_Inr)
      (auto simp: Let_def split: option.splits if_splits
        intro!: step_ok_then_callback step_ok_upd clear_comrevflag_keeps)
qed

interpretation recv_channel_reestablish: handler env "recv_channel_reestablish env base"
  for env :: "'p ln_env" and base
proof
  fix self self' ret d
  assume "recv_channel_reestablish env base d self = Inr (ret, self')"
  then show "step_ok self self'"
    unfolding recv_channel_reestablish_def
    by (elim read_msg_Inr chk_chan_Inr)
      (auto simp: Let_def split: if_splits intro!: step_ok_then_callback)
qed

section \<open>update_add_htlc\<close>

lemma upd_htlc_slot: "upd_htlc i (\<lambda>_. f (cnl_add_htlc self ! i)) self = upd_htlc i f self"
  by (simp add: upd_htlc_def)

lemma update_add_htlc_read_slot:
  assumes "ln_msg_update_add_htlc_read slot d = Inr h"
  shows "\<exists>c i a s e b. h = slot\<lparr>p_channel_id := c, htlc_id := i, amount_msat := a, payment_sha256 := s,
    cltv_expiry := e, buf_onion_reason := b\<rparr> \<and> length s = BTC_SZ_HASH256 \<and> length b = LN_SZ_ONION_ROUTE"
  using assms unfolding ln_msg_update_add_htlc_read_def get_Inr_iffs by blast

lemma checks_step_ok:
  "check_recv_add_htlc_bolt2 self h = (ok, self') \<Longrightarrow> step_ok self self'"
  "check_recv_add_htlc_bolt4_final env hop h height self = (r, self') \<Longrightarrow> step_ok self self'"
  "check_recv_add_htlc_bolt4_forward env hop h height self = Inr (q, self') \<Longrightarrow> step_ok self self'"
  "add_htlc_common hop self = (v, o', reason, self') \<Longrightarrow> step_ok self self'"
  by (auto simp: check_recv_add_htlc_bolt2_def check_recv_add_htlc_bolt4_final_def
      check_recv_add_htlc_bolt4_forward_def check_recv_add_htlc_bolt4_common_def add_htlc_common_def
      try_c_def Let_def
      split: if_splits option.splits sum.splits prod.splits bool.splits)

lemma add_htlc_onion_step_ok:
  "step_ok self (upd_htlc idx (\<lambda>h. h\<lparr>buf_onion_reason := onion, buf_shared_secret := shared\<rparr>) self)"
  "step_ok self (upd_htlc idx (\<lambda>h. h\<lparr>buf_shared_secret := shared, buf_onion_reason := onion\<rparr>) self)"
  "step_ok self (upd_htlc idx (\<lambda>h. h\<lparr>prev_short_channel_id := x, buf_payment_preimage := preimage,
     buf_onion_reason := onion\<rparr>) self)"
  by (rule step_ok_upd; simp)+

lemma add_htlc_bolt4_step_ok:
  assumes "add_htlc_bolt4 env idx self = Inr (v, hop, reason, self')"
  shows "step_ok self self'"
proof (cases "onion_read env (buf_onion_reason (cnl_add_htlc self ! idx)) (payment_sha256 (cnl_add_htlc self ! idx))")
  case (Onion_Ok hop onion shared)
  let ?self = "upd_htlc idx (\<lambda>h. h\<lparr>buf_onion_reason := onion, buf_shared_secret := shared\<rparr>) self"
  let ?h = "cnl_add_htlc ?self ! idx" and ?height = "of_int (block_count env)"
  note eq = assms [unfolded add_htlc_bolt4_def Let_def Onion_Ok onion_result.case]
  have "step_ok ?self self'"
  proof (cases "0 < block_count env")
    case pos: True
    show ?thesis
    proof (cases "b_exit hop")
      case True
      obtain r s where f: "check_recv_add_htlc_bolt4_final env hop ?h ?height ?self = (r, s)"
        by (cases "check_recv_add_htlc_bolt4_final env hop ?h ?height ?self")
      note fin = checks_step_ok(2) [OF f]
      show ?thesis
      proof (cases r)
        case (Inl x)
        then show ?thesis using eq pos True f fin by simp
      next
        case (Inr preimage)
        then obtain o' where "add_htlc_common hop (upd_htlc idx (\<lambda>h. h\<lparr>prev_short_channel_id := - 1,
            buf_payment_preimage := preimage, buf_onion_reason := []\<rparr>) s) = (v, o', reason, self')"
          using eq pos True f by simp
        then show ?thesis
          using checks_step_ok(4) step_ok_trans [OF fin step_ok_trans [OF add_htlc_onion_step_ok(3)]] by blast
      qed
    next
      case False
      obtain r s where f: "check_recv_add_htlc_bolt4_forward env hop ?h ?height ?self = Inr (r, s)"
        using eq pos False by (auto simp: bind_c_Inr_iff)
      note fwd = checks_step_ok(3) [OF f]
      then show ?thesis
        using eq pos False f checks_step_ok(4) step_ok_trans [OF fwd] by (auto split: sum.splits)
    qed
  next
    case False
    then show ?thesis using eq by auto
  qed
  then show ?thesis using add_htlc_onion_step_ok(1) step_ok_trans by blast
next
  case (Onion_Err r shared)
  note eq = assms [unfolded add_htlc_bolt4_def Let_def Onion_Err onion_result.case get_u16_Inr_iff]
  show ?thesis
    using eq step_ok_trans [OF add_htlc_onion_step_ok(2) step_ok_set_err] by auto
qed

lemma add_htlc_accept_step_ok:
  "add_htlc_accept env idx hop reason self = (v, reason', self') \<Longrightarrow> step_ok self self'"
  by (auto simp: add_htlc_accept_def Let_def split: if_splits prod.splits
      intro!: step_ok_trans [OF step_ok_callback step_ok_upd])

lemma add_htlc_finish_step_ok: "step_ok self (add_htlc_finish env idx v hop reason self)"
proof -
  let ?self = "upd_htlc idx (\<lambda>h. h\<lparr>flag := (flag h)\<lparr>addhtlc := LN_ADDHTLC_RECV\<rparr>\<rparr>) self"
  obtain v' reason' self' where r: "(case (v, hop) of
      (LN_CB_ADD_HTLC_RESULT_OK, Some hop) \<Rightarrow> add_htlc_accept env idx hop reason ?self
    | _ \<Rightarrow> (v, reason, ?self)) = (v', reason', self')"
    by (cases "(case (v, hop) of
      (LN_CB_ADD_HTLC_RESULT_OK, Some hop) \<Rightarrow> add_htlc_accept env idx hop reason ?self
    | _ \<Rightarrow> (v, reason, ?self))")
  have "step_ok self ?self" by (rule step_ok_upd) simp_all
  moreover have "step_ok ?self self'"
    using r add_htlc_accept_step_ok
    by (auto split: ln_cb_add_htlc_result_t.splits option.splits)
  ultimately have "step_ok self self'" by (rule step_ok_trans)
  moreover have "step_ok self' (add_htlc_finish env idx v hop reason self)"
    using r by (auto simp: add_htlc_finish_def Let_def split: ln_cb_add_htlc_result_t.split
        intro!: step_ok_upd)
  ultimately show ?thesis by (rule step_ok_trans)
qed

interpretation recv_update_add_htlc: handler env "recv_update_add_htlc env" for env :: "'p ln_env"
proof
  fix self self' ret d
  assume h: "recv_update_add_htlc env d self = Inr (ret, self')"
  show "step_ok self self'"
  proof (cases "first_slot LN_HTLC_EMPTY (cnl_add_htlc self)")
    case (Some idx)
    note h = h [unfolded recv_update_add_htlc_def Some option.case]
    show ?thesis
      using h
    proof (rule read_msg_Inr)
      fix m
      let ?self = "upd_htlc idx (\<lambda>_. m) self"
      assume m: "ln_msg_update_add_htlc_read (cnl_add_htlc self ! idx) d = Inr m"
        and k: "(let self = ?self in chk_chan (p_channel_id m) self (
          let (ok, self) = check_recv_add_htlc_bolt2 self m in
          if \<not> ok then Inr (False, self)
          else bind_c (add_htlc_bolt4 env idx self) (\<lambda>(result, hop, reason, self).
            Inr (True, add_htlc_finish env idx result hop reason self)))) = Inr (ret, self')"
      obtain c i a s e b where "?self = upd_htlc idx (\<lambda>h. h\<lparr>p_channel_id := c, htlc_id := i, amount_msat := a,
          payment_sha256 := s, cltv_expiry := e, buf_onion_reason := b\<rparr>) self" "length s = BTC_SZ_HASH256"
        using update_add_htlc_read_slot [OF m]
          upd_htlc_slot [of idx "\<lambda>h. h\<lparr>p_channel_id := _, htlc_id := _, amount_msat := _,
          payment_sha256 := _, cltv_expiry := _, buf_onion_reason := _\<rparr>"] by auto
      then have "step_ok self ?self"
        by (auto intro!: step_ok_upd simp: wf_htlc_def answered_def)
      moreover have "step_ok ?self self'"
        using k unfolding Let_def
      proof (rule chk_chan_Inr)
        assume "(case check_recv_add_htlc_bolt2 ?self m of (ok, self) \<Rightarrow> if \<not> ok then Inr (False, self)
          else bind_c (add_htlc_bolt4 env idx self) (\<lambda>(result, hop, reason, self).
            Inr (True, add_htlc_finish env idx result hop reason self))) = Inr (ret, self')"
        then show ?thesis
          using checks_step_ok(1) [of ?self m] add_htlc_bolt4_step_ok add_htlc_finish_step_ok
          by (auto simp: bind_c_Inr_iff split: prod.splits if_splits) (blast intro: step_ok_trans)
      qed
      ultimately show ?thesis by (rule step_ok_trans)
    qed
  qed (use h in \<open>auto simp: recv_update_add_htlc_def\<close>)
qed

section \<open>commitment_signed and revoke_and_ack\<close>

text \<open>
  The answer to an accepted commitment, as one update: the revocation of the old one has been sent
  and the numbers have moved.
\<close>

lemma length_create_secret:
  "wf_env env \<Longrightarrow> wf_self self \<Longrightarrow> length (ln_derkey_create_secret (sha256 env) (storage_seed self) I) = 32"
  by (simp add: ln_derkey_create_secret_def length_derive_secret wf_env_def wf_self_def)

lemma length_prev_secret:
  "wf_env env \<Longrightarrow> wf_self self \<Longrightarrow> length (ln_signer_create_prev_percommitsec env self) = BTC_SZ_PRIVKEY"
  by (simp add: ln_signer_create_prev_percommitsec_def create_percommitsec_def Let_def length_create_secret)

lemma mark_htlcs_simps [simp]:
  "commit_local (mark_htlcs c m self) = commit_local self"
  "commit_remote (mark_htlcs c m self) = commit_remote self"
  "funding_local (mark_htlcs c m self) = funding_local self"
  "funding_remote (mark_htlcs c m self) = funding_remote self"
  "storage_index (mark_htlcs c m self) = storage_index self"
  "storage_seed (mark_htlcs c m self) = storage_seed self"
  "channel_id (mark_htlcs c m self) = channel_id self"
  "our_msat (mark_htlcs c m self) = our_msat self"
  "their_msat (mark_htlcs c m self) = their_msat self"
  "peer_storage (mark_htlcs c m self) = peer_storage self"
  "peer_storage_index (mark_htlcs c m self) = peer_storage_index self"
  by (simp_all add: mark_htlcs_def)

lemma wf_mark_htlcs: "wf_self self \<Longrightarrow> wf_self (mark_htlcs c m self)"
  by (auto simp: wf_self_def mark_htlcs_def wf_htlc_def)

lemma wf_keys_update:
  assumes "wf_env env" "wf_self self"
  shows "wf_self (ln_signer_keys_update_storage env self)"
proof -
  have "length p = BTC_SZ_PUBKEY"
    if "priv2pub env (ln_derkey_create_secret (sha256 env) (storage_seed self) I) = Some p" for p I
    using assms that length_create_secret [OF assms, of I] by (simp add: wf_env_def)
  then show ?thesis
    using assms(2) wf_keys_pubkey
    by (auto simp: ln_signer_keys_update_storage_def ln_signer_keys_update_force_def create_percommitsec_def
        wf_self_def Let_def split: option.split)
qed

lemma in_local_commit_comrecv [simp]:
  "in_local_commit (set_comrecv f) = in_local_commit f"
  "LN_HTLC_ENABLE (h\<lparr>flag := set_comrecv (flag h)\<rparr>) = LN_HTLC_ENABLE h"
  by (simp_all add: flag_defs set_comrecv_def LN_HTLC_ENABLE_def LN_HTLC_EMPTY_def)

definition commitment_ack :: "'p ln_env \<Rightarrow> ln_self_t \<Rightarrow> ln_revoke_and_ack_t" where
  "commitment_ack env self = \<lparr>ra_channel_id = take LN_SZ_CHANNEL_ID (channel_id self),
     per_commit_secret = ln_signer_create_prev_percommitsec env self,
     per_commitpt = pubkeys (funding_local (update_scriptkeys env (ln_signer_keys_update_storage env self))) !
       MSG_FUNDIDX_PER_COMMIT\<rparr>"

lemma pubkeys_update_scriptkeys [simp]:
  "pubkeys (funding_local (update_scriptkeys env self)) = pubkeys (funding_local self)"
  "pubkeys (funding_remote (update_scriptkeys env self)) = pubkeys (funding_remote self)"
  by (simp_all add: update_scriptkeys_def ln_misc_update_scriptkeys_def Let_def)

lemma update_scriptkeys_simps [simp]:
  "cnl_add_htlc (update_scriptkeys env self) = cnl_add_htlc self"
  "commit_local (update_scriptkeys env self) = commit_local self"
  "commit_remote (update_scriptkeys env self) = commit_remote self"
  "storage_index (update_scriptkeys env self) = storage_index self"
  "storage_seed (update_scriptkeys env self) = storage_seed self"
  "peer_storage (update_scriptkeys env self) = peer_storage self"
  "peer_storage_index (update_scriptkeys env self) = peer_storage_index self"
  "channel_id (update_scriptkeys env self) = channel_id self"
  "our_msat (update_scriptkeys env self) = our_msat self"
  "their_msat (update_scriptkeys env self) = their_msat self"
  "events (update_scriptkeys env self) = events self"
  by (simp_all add: update_scriptkeys_def Let_def split: prod.split)

lemma keys_update_simps [simp]:
  "cnl_add_htlc (ln_signer_keys_update_storage env self) = cnl_add_htlc self"
  "commit_local (ln_signer_keys_update_storage env self) = commit_local self"
  "commit_remote (ln_signer_keys_update_storage env self) = commit_remote self"
  "storage_index (ln_signer_keys_update_storage env self) = storage_index self - 1"
  "storage_seed (ln_signer_keys_update_storage env self) = storage_seed self"
  "peer_storage (ln_signer_keys_update_storage env self) = peer_storage self"
  "peer_storage_index (ln_signer_keys_update_storage env self) = peer_storage_index self"
  "channel_id (ln_signer_keys_update_storage env self) = channel_id self"
  "our_msat (ln_signer_keys_update_storage env self) = our_msat self"
  "their_msat (ln_signer_keys_update_storage env self) = their_msat self"
  "events (ln_signer_keys_update_storage env self) = events self"
  by (simp_all add: ln_signer_keys_update_storage_def ln_signer_keys_update_force_def Let_def split: prod.split)

text \<open>An accepted commitment is always answered, with the acknowledgement for the state.\<close>

lemma commitment_answer_eq:
  assumes env: "wf_env env" and self: "wf_self self" and c: "c = take LN_SZ_CHANNEL_ID (channel_id self)"
  defines "marked \<equiv> mark_htlcs in_local_commit set_comrecv self"
  shows "revoke_and_ack_wf (commitment_ack env self)"
    "commitment_answer env bak c self =
       Inr (True, revoke_local (callback (CB_SEND_REQ (Some (revoke_and_ack_wire (commitment_ack env self))))
         (mark_htlcs in_local_commit set_revsend
            (update_scriptkeys env (ln_signer_keys_update_storage env marked)))))"
proof -
  have secret: "ln_signer_create_prev_percommitsec env marked = ln_signer_create_prev_percommitsec env self"
    by (simp add: marked_def ln_signer_create_prev_percommitsec_def create_percommitsec_def)
  have pt: "pubkeys (funding_local (ln_signer_keys_update_storage env marked)) =
      pubkeys (funding_local (ln_signer_keys_update_storage env self))"
    by (simp add: marked_def ln_signer_keys_update_storage_def ln_signer_keys_update_force_def
        create_percommitsec_def Let_def split: option.split)
  have "length (pubkeys (funding_local (ln_signer_keys_update_storage env self)) ! MSG_FUNDIDX_PER_COMMIT) = BTC_SZ_PUBKEY"
    using wf_keys_update [OF env self] by (auto simp: wf_self_def wf_keys_def fundidx_defs)
  moreover have "length (take LN_SZ_CHANNEL_ID (channel_id self)) = LN_SZ_CHANNEL_ID"
    using self by (simp add: wf_self_def)
  ultimately show wf: "revoke_and_ack_wf (commitment_ack env self)"
    using length_prev_secret [OF env self] by (simp add: revoke_and_ack_wf_def commitment_ack_def)
  have ack: "\<lparr>ra_channel_id = c, per_commit_secret = ln_signer_create_prev_percommitsec env marked,
      per_commitpt = pubkeys (funding_local (ln_signer_keys_update_storage env marked)) !
        MSG_FUNDIDX_PER_COMMIT\<rparr> = commitment_ack env self"
    using c secret pt by (simp add: commitment_ack_def)
  show "commitment_answer env bak c self =
       Inr (True, revoke_local (callback (CB_SEND_REQ (Some (revoke_and_ack_wire (commitment_ack env self))))
         (mark_htlcs in_local_commit set_revsend
            (update_scriptkeys env (ln_signer_keys_update_storage env marked)))))"
    unfolding commitment_answer_def Let_def marked_def [symmetric] pubkeys_update_scriptkeys ack
      revoke_and_ack.create_wire [OF wf] by simp
qed

lemma revoke_local_simps [simp]:
  "wf_self (revoke_local s) = wf_self s" "our_msat (revoke_local s) = our_msat s"
  "their_msat (revoke_local s) = their_msat s" "storage_index (revoke_local s) = storage_index s"
  "storage_seed (revoke_local s) = storage_seed s" "channel_id (revoke_local s) = channel_id s"
  "commit_num (commit_local (revoke_local s)) = commit_num (commit_local s) + 1"
  "revoke_num (commit_local (revoke_local s)) = commit_num (commit_local s)"
  "cnl_add_htlc (revoke_local s) = cnl_add_htlc s"
  by (simp_all add: revoke_local_def callback_def wf_self_def)

lemma callback_simps [simp]:
  "wf_self (callback e s) = wf_self s" "our_msat (callback e s) = our_msat s"
  "their_msat (callback e s) = their_msat s" "storage_index (callback e s) = storage_index s"
  "storage_seed (callback e s) = storage_seed s" "channel_id (callback e s) = channel_id s"
  "commit_local (callback e s) = commit_local s" "commit_remote (callback e s) = commit_remote s"
  "cnl_add_htlc (callback e s) = cnl_add_htlc s" "events (callback e s) = events s @ [e]"
  "funding_local (callback e s) = funding_local s" "funding_remote (callback e s) = funding_remote s"
  "peer_storage (callback e s) = peer_storage s" "peer_storage_index (callback e s) = peer_storage_index s"
  by (simp_all add: callback_def wf_self_def)

lemma commitment_answer_step_ok:
  assumes "wf_env env" "wf_self self" "c = take LN_SZ_CHANNEL_ID (channel_id self)"
    and "commitment_answer env bak c self = Inr (ret, self')"
  shows "step_ok self self'"
proof -
  let ?marked = "mark_htlcs in_local_commit set_comrecv self"
  let ?keyed = "update_scriptkeys env (ln_signer_keys_update_storage env ?marked)"
  have self': "self' = revoke_local (callback (CB_SEND_REQ (Some (revoke_and_ack_wire (commitment_ack env self))))
      (mark_htlcs in_local_commit set_revsend ?keyed))"
    using commitment_answer_eq(2) [OF assms(1-3), of bak] assms(4) by simp
  have "wf_self ?keyed"
    using step_ok_scriptkeys [OF assms(1)] wf_keys_update [OF assms(1) wf_mark_htlcs [OF assms(2)]]
    by (simp add: step_ok_def)
  moreover have "\<forall>h\<in>set (cnl_add_htlc self'). answered h" if "\<forall>h\<in>set (cnl_add_htlc self). answered h"
  proof -
    have "cnl_add_htlc self' = map (\<lambda>h. if LN_HTLC_ENABLE h \<and> in_local_commit (flag h)
        then h\<lparr>flag := set_revsend (set_comrecv (flag h))\<rparr> else h) (cnl_add_htlc self)"
      by (simp add: self' mark_htlcs_def)
    then show ?thesis
      using that by (auto simp: answered_def set_revsend_def set_comrecv_def)
  qed
  ultimately show ?thesis
    by (simp add: step_ok_def self' wf_mark_htlcs numbers_ok_def)
      (simp add: revoke_local_def callback_def mark_htlcs_def update_scriptkeys_def ln_signer_keys_update_storage_def
        ln_signer_keys_update_force_def Let_def split: prod.split option.split)
qed

lemma same_but_sigs_slots:
  assumes "same_but_sigs self self'"
  shows "map flag (cnl_add_htlc self') = map flag (cnl_add_htlc self)"
    "map amount_msat (cnl_add_htlc self') = map amount_msat (cnl_add_htlc self)"
proof -
  have m: "map (htlc_signature_update (\<lambda>_. [])) (cnl_add_htlc self') =
      map (htlc_signature_update (\<lambda>_. [])) (cnl_add_htlc self)"
    using assms by (auto simp: same_but_sigs_def)
  show "map flag (cnl_add_htlc self') = map flag (cnl_add_htlc self)"
    using arg_cong [OF m, of "map flag"] by (simp add: comp_def)
  show "map amount_msat (cnl_add_htlc self') = map amount_msat (cnl_add_htlc self)"
    using arg_cong [OF m, of "map amount_msat"] by (simp add: comp_def)
qed

lemma answered_flags:
  "(\<forall>h\<in>set hs. answered h) \<longleftrightarrow> (\<forall>f\<in>set (map flag hs). comrecv f = revsend f)"
  by (auto simp: answered_def)

lemma step_ok_local_frame:
  assumes "local_frame self self'"
  shows "step_ok self self'"
proof -
  obtain self2 tid n where s: "same_but_sigs self self2"
    "self' = self2\<lparr>commit_local := (commit_local self)\<lparr>txid := tid, htlc_num := n\<rparr>\<rparr>"
    using assms by (auto simp: local_frame_def)
  have slots: "map flag (cnl_add_htlc self2) = map flag (cnl_add_htlc self)"
    by (rule same_but_sigs_slots(1) [OF s(1)])
  obtain sl where sl: "self2 = self\<lparr>cnl_add_htlc := sl\<rparr>" using s(1) by (auto simp: same_but_sigs_def)
  have "wf_self self'" if "wf_self self"
    using same_but_sigs_wf [OF s(1) that] that sl s(2) by (simp add: wf_self_def)
  then show ?thesis
    using s(2) sl slots by (simp add: step_ok_def numbers_ok_def answered_flags)
qed

lemma step_ok_sig:
  "length s = LN_SZ_SIGNATURE \<Longrightarrow> step_ok self (restore_sig s self)"
  by (simp add: step_ok_def restore_sig_def wf_self_def numbers_ok_def)

lemma chk_channelid_eq:
  "chk_channelid c (channel_id self) \<Longrightarrow> length c = LN_SZ_CHANNEL_ID \<Longrightarrow>
     c = take LN_SZ_CHANNEL_ID (channel_id self)"
  by (simp add: chk_channelid_def)

text \<open>The branches of the handler.\<close>

lemma recv_commitment_signed_cases:
  assumes "recv_commitment_signed env d self = Inr (ret, self')"
  obtains (unread) "ln_msg_commit_signed_read d = Inl Ret_False" "\<not> ret"
      "self' = set_err LNERR_MSG_READ self"
  | (channel) m where "ln_msg_commit_signed_read d = Inr m" "\<not> ret"
      "self' = restore_sig (cd_signature (commit_local self))
         (set_err LNERR_INV_CHANNEL (restore_sig (cs_signature m) self))"
  | (rejected) m self1 where "ln_msg_commit_signed_read d = Inr m" "\<not> ret"
      "create_to_local env (Some (cs_htlc_signature m)) (ucast (num_htlcs m))
         (commit_num (commit_local self) + 1) (ucast (to_self_delay (commit_remote self)))
         (dust_limit_sat (commit_local self)) (restore_sig (cs_signature m) self) = Inr (False, self1)"
      "self' = restore_sig (cd_signature (commit_local self)) self1"
  | (accepted) m self1 where "ln_msg_commit_signed_read d = Inr m"
      "chk_channelid (cs_channel_id m) (channel_id self)"
      "create_to_local env (Some (cs_htlc_signature m)) (ucast (num_htlcs m))
         (commit_num (commit_local self) + 1) (ucast (to_self_delay (commit_remote self)))
         (dust_limit_sat (commit_local self)) (restore_sig (cs_signature m) self) = Inr (True, self1)"
      "commitment_answer env (cd_signature (commit_local self)) (cs_channel_id m) self1 = Inr (ret, self')"
proof (cases "ln_msg_commit_signed_read d")
  case (Inl e)
  then show ?thesis
    using assms unread
    by (auto simp: recv_commitment_signed_def read_msg_def try_c_def Let_def split: if_splits)
next
  case (Inr m)
  note eq = assms [unfolded recv_commitment_signed_def read_msg_def Inr try_c_simps Let_def option.case,
      folded restore_sig_def]
  show ?thesis
  proof (cases "chk_channelid (cs_channel_id m) (channel_id self)")
    case False
    then show ?thesis
      using eq channel [OF Inr] by (simp add: restore_sig_def)
  next
    case True
    have "channel_id (restore_sig (cs_signature m) self) = channel_id self"
      "commit_remote (restore_sig (cs_signature m) self) = commit_remote self"
      "commit_num (commit_local (restore_sig (cs_signature m) self)) = commit_num (commit_local self)"
      "dust_limit_sat (commit_local (restore_sig (cs_signature m) self)) = dust_limit_sat (commit_local self)"
      by (simp_all add: restore_sig_def)
    then obtain b self1 where "create_to_local env (Some (cs_htlc_signature m)) (ucast (num_htlcs m))
         (commit_num (commit_local self) + 1) (ucast (to_self_delay (commit_remote self)))
         (dust_limit_sat (commit_local self)) (restore_sig (cs_signature m) self) = Inr (b, self1)"
      "(if \<not> b then Inr (False, restore_sig (cd_signature (commit_local self)) self1)
        else commitment_answer env (cd_signature (commit_local self)) (cs_channel_id m) self1) = Inr (ret, self')"
      using eq True by (auto simp: bind_c_Inr_iff)
    then show ?thesis
      using rejected [OF Inr] accepted [OF Inr True] by (cases b) auto
  qed
qed

lemma commit_signed_read_lengths:
  assumes "ln_msg_commit_signed_read d = Inr m"
  shows "length (cs_channel_id m) = LN_SZ_CHANNEL_ID \<and> length (cs_signature m) = LN_SZ_SIGNATURE \<and>
    length (cs_htlc_signature m) = unat (num_htlcs m) * LN_SZ_SIGNATURE"
  using assms by (auto simp: ln_msg_commit_signed_read_def get_Inr_iffs)

lemma create_to_local_frame:
  assumes "wf_env env" "wf_self self" "create_to_local env (Some sigs) N cn dl du self = Inr (ret, self')"
  shows "local_frame self self'"
  using create_to_local_result [OF assms(1,2), of sigs N cn dl du] assms(3) by auto

lemma create_to_local_step_ok:
  assumes "wf_env env" "wf_self self" "create_to_local env (Some sigs) N cn dl du self = Inr (ret, self')"
  shows "step_ok self self'"
  using create_to_local_frame [OF assms] by (rule step_ok_local_frame)

interpretation recv_commitment_signed: handler env "recv_commitment_signed env" for env :: "'p ln_env"
proof
  fix self self' ret d
  assume env: "wf_env env" and self: "wf_self self" and h: "recv_commitment_signed env d self = Inr (ret, self')"
  have bak: "length (cd_signature (commit_local self)) = LN_SZ_SIGNATURE"
    using self by (simp add: wf_self_def)
  from h show "step_ok self self'"
  proof (cases rule: recv_commitment_signed_cases)
    case (channel m)
    then show ?thesis
      using commit_signed_read_lengths step_ok_sig bak step_ok_set_err by (metis step_ok_trans)
  next
    case (rejected m self1)
    have sig: "step_ok self (restore_sig (cs_signature m) self)"
      using commit_signed_read_lengths [OF rejected(1)] by (intro step_ok_sig) simp
    then have "wf_self (restore_sig (cs_signature m) self)" using self by (simp add: step_ok_def)
    then have "step_ok self self1"
      using step_ok_trans [OF sig create_to_local_step_ok [OF env _ rejected(3)]] by simp
    then show ?thesis using rejected(4) step_ok_trans [OF _ step_ok_sig [OF bak]] by simp
  next
    case (accepted m self1)
    have sig: "step_ok self (restore_sig (cs_signature m) self)"
      using commit_signed_read_lengths [OF accepted(1)] by (intro step_ok_sig) simp
    then have "wf_self (restore_sig (cs_signature m) self)" using self by (simp add: step_ok_def)
    then have ok: "step_ok self self1"
      using step_ok_trans [OF sig create_to_local_step_ok [OF env _ accepted(3)]] by simp
    then have "wf_self self1" "channel_id self1 = channel_id self" using self by (simp_all add: step_ok_def)
    then have "step_ok self1 self'"
      using commitment_answer_step_ok [OF env _ _ accepted(4)] chk_channelid_eq [OF accepted(2)]
        commit_signed_read_lengths [OF accepted(1)] by simp
    with ok show ?thesis by (rule step_ok_trans)
  qed simp
qed

lemma storage_insert_Inr:
  "store_peer_percommit_secret env s self = Inr self' \<Longrightarrow>
     \<exists>st. self' = self\<lparr>peer_storage := st, peer_storage_index := peer_storage_index self - 1\<rparr>"
  by (auto simp: store_peer_percommit_secret_def bind_c_Inr_iff)

interpretation recv_revoke_and_ack: handler env "recv_revoke_and_ack env" for env :: "'p ln_env"
proof
  fix self self' ret d
  assume env: "wf_env env" and self: "wf_self self" and h: "recv_revoke_and_ack env d self = Inr (ret, self')"
  show "step_ok self self'"
    using h unfolding recv_revoke_and_ack_def
  proof (elim read_msg_Inr chk_chan_Inr)
    fix m
    assume m: "ln_msg_revoke_and_ack_read d = Inr m"
      and k: "(case priv2pub env (per_commit_secret m) of None \<Rightarrow> Inr (False, self)
        | Some _ \<Rightarrow> bind_c (store_peer_percommit_secret env (per_commit_secret m) self) (\<lambda>self.
            let d = funding_remote self;
                self = self\<lparr>prev_percommit := pubkeys d ! MSG_FUNDIDX_PER_COMMIT,
                  funding_remote := d\<lparr>pubkeys := (pubkeys d)[MSG_FUNDIDX_PER_COMMIT := per_commitpt m]\<rparr>\<rparr>;
                self = mark_htlcs in_remote_commit set_revrecv (update_scriptkeys env self);
                self = self\<lparr>commit_remote := (commit_remote self)\<lparr>revoke_num := commit_num (commit_remote self) - 1\<rparr>\<rparr>
            in Inr (True, callback DB_SELF_SAVE self))) = Inr (ret, self')"
    have pt: "length (per_commitpt m) = BTC_SZ_PUBKEY"
      using revoke_and_ack.read_sound [OF m] by (simp add: revoke_and_ack_wf_def)
    show ?thesis
    proof (cases "priv2pub env (per_commit_secret m)")
      case (Some p)
      then obtain s1 where s1: "store_peer_percommit_secret env (per_commit_secret m) self = Inr s1"
        using k by (auto simp: bind_c_Inr_iff)
      obtain st where st: "s1 = self\<lparr>peer_storage := st, peer_storage_index := peer_storage_index self - 1\<rparr>"
        using storage_insert_Inr [OF s1] by blast
      let ?d = "funding_remote s1"
      let ?s2 = "s1\<lparr>prev_percommit := pubkeys ?d ! MSG_FUNDIDX_PER_COMMIT,
          funding_remote := ?d\<lparr>pubkeys := (pubkeys ?d)[MSG_FUNDIDX_PER_COMMIT := per_commitpt m]\<rparr>\<rparr>"
      let ?s3 = "mark_htlcs in_remote_commit set_revrecv (update_scriptkeys env ?s2)"
      let ?s4 = "?s3\<lparr>commit_remote := (commit_remote ?s3)\<lparr>revoke_num := commit_num (commit_remote ?s3) - 1\<rparr>\<rparr>"
      have a: "step_ok self ?s2"
        using wf_keys_pubkey [OF _ pt] by (simp add: step_ok_def st wf_self_def numbers_ok_def)
      have b: "step_ok ?s2 ?s3"
        by (rule step_ok_trans [OF step_ok_scriptkeys [OF env] step_ok_mark]) (simp add: set_revrecv_def)
      have c: "step_ok ?s3 ?s4"
        by (simp add: step_ok_def wf_self_def numbers_ok_def)
      have "self' = callback DB_SELF_SAVE ?s4"
        using k Some s1 by (simp add: Let_def)
      moreover have "step_ok self (callback DB_SELF_SAVE ?s4)"
        by (rule step_ok_then_callback [OF step_ok_trans [OF a step_ok_trans [OF b c]]])
      ultimately show ?thesis by simp
    qed (use k in auto)
  qed
qed

section \<open>The idle procedure\<close>

lemma step_ok_clear_slot: "step_ok self (clear_slot idx self)"
  unfolding clear_slot_def
  by (rule step_ok_trans [OF step_ok_callback step_ok_upd]) (simp_all add: clear_htlc_keeps)

lemma step_ok_move:
  "step_ok self (self\<lparr>our_msat := our_msat self - a, their_msat := their_msat self + a\<rparr>)"
  "step_ok self (self\<lparr>our_msat := our_msat self + a, their_msat := their_msat self - a\<rparr>)"
  by (simp_all add: step_ok_def wf_self_def numbers_ok_def)

lemma step_ok_settle: "step_ok self (idle_settle idx self)"
proof -
  let ?mid = "case addhtlc (flag (cnl_add_htlc self ! idx)) of
      LN_ADDHTLC_OFFER \<Rightarrow>
        let s = (if delhtlc (flag (cnl_add_htlc self ! idx)) = LN_DELHTLC_FULFILL
          then self\<lparr>our_msat := our_msat self - amount_msat (cnl_add_htlc self ! idx),
            their_msat := their_msat self + amount_msat (cnl_add_htlc self ! idx)\<rparr> else self) in
        if prev_short_channel_id (cnl_add_htlc self ! idx) = 0 \<and>
           delhtlc (flag (cnl_add_htlc self ! idx)) \<noteq> LN_DELHTLC_FULFILL
        then callback (CB_PAYMENT_RETRY (payment_sha256 (cnl_add_htlc self ! idx))) s else s
    | LN_ADDHTLC_RECV \<Rightarrow>
        if delhtlc (flag (cnl_add_htlc self ! idx)) = LN_DELHTLC_FULFILL
        then self\<lparr>our_msat := our_msat self + amount_msat (cnl_add_htlc self ! idx),
          their_msat := their_msat self - amount_msat (cnl_add_htlc self ! idx)\<rparr> else self
    | LN_ADDHTLC_NONE \<Rightarrow> self"
  have "step_ok self ?mid"
    using step_ok_move by (auto simp: Let_def split: addhtlc.split intro: step_ok_then_callback)
  then show ?thesis
    unfolding idle_settle_def Let_def by (rule step_ok_trans [OF _ step_ok_clear_slot])
qed

lemma step_ok_final_slot: "step_ok (fst s) (fst (idle_final_slot idx s))"
proof -
  obtain self db rev where s: "s = (self, db, rev)" by (cases s)
  have f: "step_ok self1 (fst (idle_forward idx (self1, d)))" for self1 d
    by (auto simp: idle_forward_def Let_def intro!: step_ok_trans [OF step_ok_callback step_ok_upd])
  have b: "step_ok self1 (fst (idle_backward idx (self1, d)))" for self1 d
    by (auto simp: idle_backward_def Let_def
        intro!: step_ok_trans [OF step_ok_callback step_ok_upd] clear_comrevflag_keeps)
  have "step_ok self (fst (idle_backward idx (idle_forward idx (self, db))))"
    using step_ok_trans [OF f b] by (cases "idle_forward idx (self, db)") (metis fst_conv)
  then show ?thesis
    using step_ok_settle by (auto simp: s idle_final_slot_def Let_def split: prod.split)
qed

lemma step_ok_fold_final: "step_ok (fst s) (fst (fold idle_final_slot is s))"
proof (induction "is" arbitrary: s)
  case (Cons i "is")
  show ?case
    using step_ok_trans [OF step_ok_final_slot Cons.IH] by simp
qed simp

lemma step_ok_idle_final: "step_ok self (recv_idle_proc_final self)"
proof -
  obtain self2 db rev where f: "fold idle_final_slot [0..<LN_HTLC_MAX] (self, False, False) = (self2, db, rev)"
    by (cases "fold idle_final_slot [0..<LN_HTLC_MAX] (self, False, False)")
  then have "step_ok self self2" using step_ok_fold_final [of "(self, False, False)"] by (metis fst_conv)
  then show ?thesis
    by (auto simp: recv_idle_proc_final_def f Let_def intro: step_ok_then_callback)
qed

lemma step_ok_updsend: "step_ok self (upd_htlc idx set_updsend self)"
  by (rule step_ok_upd) (simp_all add: set_updsend_def)

lemma step_ok_slot_msg: "slot_msg idx r self = Inr (b, self') \<Longrightarrow> step_ok self self'"
  using step_ok_updsend
  by (auto simp: slot_msg_def try_c_def split: sum.splits if_splits intro: step_ok_then_callback)

lemma step_ok_idle_slot_msg:
  "idle_slot_msg idx self = Some r \<Longrightarrow> r = Inr (b, self') \<Longrightarrow> step_ok self self'"
  using step_ok_slot_msg
  by (auto simp: idle_slot_msg_def Let_def add_htlc_create_def fulfill_htlc_create_def fail_htlc_create_def
      fail_malformed_htlc_create_def get_Inr_iffs split: if_splits delhtlc.splits)

lemma step_ok_nonfinal_slot:
  assumes "idle_nonfinal_slot idx (self, c) = Inr (self', c')"
  shows "step_ok self self'"
proof (cases "idle_slot_msg idx self")
  case None
  then show ?thesis using assms by (auto simp: idle_nonfinal_slot_def Let_def split: if_splits)
next
  case (Some r)
  show ?thesis
  proof (cases "LN_HTLC_ENABLE (cnl_add_htlc self ! idx)")
    case True
    then obtain b s1 where r: "r = Inr (b, s1)"
      "(case b of Some bolt \<Rightarrow> if bolt \<noteq> [] then Inr (upd_htlc idx set_updsend (callback (CB_SEND_REQ (Some bolt)) s1), c)
          else Inr (s1, c)
        | None \<Rightarrow> Inr (s1, c)) = (Inr (self', c') :: (ln_self_t \<times> bool) c_result)"
      using assms Some by (auto simp: idle_nonfinal_slot_def Let_def bind_c_Inr_iff)
    have "step_ok self s1" by (rule step_ok_idle_slot_msg [OF Some r(1)])
    moreover have "step_ok s1 self'"
      using r(2) by (auto split: option.splits if_splits
          intro: step_ok_trans [OF step_ok_callback step_ok_updsend])
    ultimately show ?thesis by (rule step_ok_trans)
  qed (use assms in \<open>simp add: idle_nonfinal_slot_def\<close>)
qed

lemma step_ok_nonfinal_loop:
  "idle_nonfinal_loop is (self, c) = Inr (self', c') \<Longrightarrow> step_ok self self'"
proof (induction "is" arbitrary: self c)
  case (Cons i "is")
  then obtain s1 c1 where "idle_nonfinal_slot i (self, c) = Inr (s1, c1)"
    "idle_nonfinal_loop is (s1, c1) = Inr (self', c')" by (auto simp: bind_c_Inr_iff)
  then show ?case using step_ok_trans [OF step_ok_nonfinal_slot Cons.IH] by blast
qed simp

lemma step_ok_commit_remote:
  "length (cd_signature c) = LN_SZ_SIGNATURE \<Longrightarrow> step_ok self (self\<lparr>commit_remote := c\<rparr>)"
  by (simp add: step_ok_def wf_self_def numbers_ok_def)

lemma step_ok_create_commitment_signed:
  assumes "wf_env env" "wf_self self" "create_commitment_signed env self = Inr (b, self')"
  shows "step_ok self self'"
proof (cases "M_INIT_FLAG_EXCHNAGED (init_flag self)")
  case True
  obtain ret c' sigs where c: "create_to_remote env (commit_remote self) True
      (commit_num (commit_remote self) + 1) self = Inr (ret, c', sigs)" "length (cd_signature c') = LN_SZ_SIGNATURE"
    using create_to_remote_result [OF assms(1,2), of "commit_remote self" True
        "commit_num (commit_remote self) + 1"] assms(2)
    by (auto simp: wf_self_def)
  have "step_ok self (self\<lparr>commit_remote := c'\<rparr>)" by (rule step_ok_commit_remote [OF c(2)])
  moreover have "step_ok self (self\<lparr>commit_remote := c'\<lparr>commit_num := commit_num c' + 1\<rparr>\<rparr>)"
    by (rule step_ok_commit_remote) (simp add: c(2))
  ultimately show ?thesis
    using assms(3) True c(1) step_ok_trans [OF _ step_ok_set_err]
    by (auto simp: create_commitment_signed_def Let_def try_c_def split: if_splits sum.splits)
qed (use assms(3) in \<open>auto simp: create_commitment_signed_def\<close>)

lemma step_ok_idle_nonfinal:
  assumes "wf_env env" "wf_self self" "recv_idle_proc_nonfinal env self = Inr self'"
  shows "step_ok self self'"
proof -
  obtain s1 c where s1: "(if comsiging self then Inr (self, False)
      else idle_nonfinal_loop [0..<LN_HTLC_MAX] (self, False)) = Inr (s1, c)"
    "(if c then bind_c (create_commitment_signed env s1) (\<lambda>(b, s). case b of
         Some bolt \<Rightarrow> Inr (callback DB_SELF_SAVE (mark_htlcs in_remote_commit set_comsend
            (callback (CB_SEND_REQ (Some bolt)) s)))
       | None \<Rightarrow> Inr (callback CB_QUIT s)) else Inr s1) = Inr self'"
    using assms(3) by (auto simp: recv_idle_proc_nonfinal_def bind_c_Inr_iff)
  have a: "step_ok self s1"
    using s1(1) step_ok_nonfinal_loop by (auto split: if_splits)
  then have wf: "wf_self s1" using assms(2) by (simp add: step_ok_def)
  have "step_ok s1 self'"
  proof (cases c)
    case True
    then obtain b s where s: "create_commitment_signed env s1 = Inr (b, s)"
      "(case b of Some bolt \<Rightarrow> Inr (callback DB_SELF_SAVE (mark_htlcs in_remote_commit set_comsend
            (callback (CB_SEND_REQ (Some bolt)) s)))
       | None \<Rightarrow> Inr (callback CB_QUIT s)) = (Inr self' :: ln_self_t c_result)"
      using s1(2) by (auto simp: bind_c_Inr_iff)
    have m: "step_ok x (mark_htlcs in_remote_commit set_comsend x)" for x
      by (rule step_ok_mark) (simp add: set_comsend_def)
    have "step_ok s self'"
      using s(2) step_ok_then_callback [OF step_ok_trans [OF step_ok_callback m]]
      by (auto split: option.splits)
    then show ?thesis
      by (rule step_ok_trans [OF step_ok_create_commitment_signed [OF assms(1) wf s(1)]])
  qed (use s1(2) in auto)
  with a show ?thesis by (rule step_ok_trans)
qed

lemma step_ok_idle:
  "wf_env env \<Longrightarrow> wf_self self \<Longrightarrow> ln_recv_idle_proc env self = Inr self' \<Longrightarrow> step_ok self self'"
  using step_ok_idle_final step_ok_idle_nonfinal
  by (auto simp: ln_recv_idle_proc_def split: if_splits)

section \<open>The operations of the application\<close>

lemma step_ok_check_create:
  "check_create_add_htlc env reason amount cltv self = Inr (slot, r, self') \<Longrightarrow> step_ok self self'"
  by (auto simp: check_create_add_htlc_def Let_def bind_c_Inr_iff split: sum.splits)

lemma step_ok_set_add_htlc:
  assumes "set_add_htlc env reason packet amount cltv hash scid pidx shared self = Inr (r, reason', self')"
  shows "step_ok self self'"
proof -
  obtain slot reason1 s1 where s1: "check_create_add_htlc env reason amount cltv self = Inr (slot, reason1, s1)"
    using assms by (auto simp: set_add_htlc_def bind_c_Inr_iff)
  have a: "step_ok self s1" by (rule step_ok_check_create [OF s1])
  show ?thesis
  proof (cases slot)
    case None
    then show ?thesis using assms s1 a by (simp add: set_add_htlc_def)
  next
    case (Some idx)
    obtain hash' p h where h: "length hash' = BTC_SZ_HASH256"
      "(let i = htlc_id_num s1;
            s = upd_htlc idx (\<lambda>h. h\<lparr>p_channel_id := channel_id s1, htlc_id := i,
               amount_msat := amount, cltv_expiry := cltv, payment_sha256 := hash',
               buf_onion_reason := p, prev_short_channel_id := scid, prev_idx := pidx,
               buf_shared_secret := (case shared of Some s \<Rightarrow> s | None \<Rightarrow> [])\<rparr>)
               (s1\<lparr>htlc_id_num := i + 1\<rparr>) in
        bind_c (check_create_remote_commit_tx env idx s) (\<lambda>(ret, s).
          if ret then Inr (Some (idx, i), reason1, s)
          else Inr (None, reason1, clear_slot idx (set_err LNERR_MSG_ERROR s)))) = Inr (r, reason', self')"
      using assms s1 Some by (auto simp: set_add_htlc_def get_bytes_Inr_iff)
    define s2 where "s2 = upd_htlc idx (\<lambda>h. h\<lparr>p_channel_id := channel_id s1, htlc_id := htlc_id_num s1,
               amount_msat := amount, cltv_expiry := cltv, payment_sha256 := hash',
               buf_onion_reason := p, prev_short_channel_id := scid, prev_idx := pidx,
               buf_shared_secret := (case shared of Some s \<Rightarrow> s | None \<Rightarrow> [])\<rparr>)
               (s1\<lparr>htlc_id_num := htlc_id_num s1 + 1\<rparr>)"
    have "step_ok s1 (s1\<lparr>htlc_id_num := n\<rparr>)" for n
      by (simp add: step_ok_def wf_self_def numbers_ok_def)
    then have b: "step_ok s1 s2"
      unfolding s2_def
      by (rule step_ok_trans [OF _ step_ok_upd]) (simp_all add: wf_htlc_def answered_def h(1))
    have "step_ok s2 self'"
      using h(2) step_ok_trans [OF step_ok_set_err step_ok_clear_slot]
        step_ok_trans [OF step_ok_set_err step_ok_trans [OF step_ok_set_err step_ok_clear_slot]]
      by (auto simp: s2_def [symmetric] Let_def bind_c_Inr_iff check_create_remote_commit_tx_def
          split: if_splits)
    then show ?thesis using a b step_ok_trans by blast
  qed
qed

lemma step_ok_set_flag:
  "step_ok self (upd_htlc idx (\<lambda>h. h\<lparr>flag := (flag h)\<lparr>addhtlc := a\<rparr>\<rparr>) self)"
  by (rule step_ok_upd) simp_all

lemma step_ok_add_htlc_set:
  "ln_add_htlc_set env reason packet amount cltv hash scid pidx shared self = Inr (r, reason', self') \<Longrightarrow>
     step_ok self self'"
  "ln_add_htlc_set_fwd env reason packet amount cltv hash scid pidx shared self = Inr (r, reason', self') \<Longrightarrow>
     step_ok self self'"
  using step_ok_set_add_htlc step_ok_trans [OF step_ok_set_add_htlc step_ok_set_flag]
  by (auto simp: ln_add_htlc_set_def ln_add_htlc_set_fwd_def bind_c_Inr_iff split: if_splits option.splits)

lemma step_ok_del_htlc_set:
  "step_ok self (ln_fulfill_htlc_set idx preimage self)"
  "step_ok self (ln_fail_htlc_set env idx reason self)"
  by (auto simp: ln_fulfill_htlc_set_def ln_fail_htlc_set_def Let_def
      intro!: step_ok_then_callback step_ok_upd clear_comrevflag_keeps)

section \<open>The state machine\<close>

text \<open>
  Everything that can happen to a channel in normal operation: a message of the peer arrives, nothing
  arrives and the idle procedure runs, or the application sets an HTLC to be added, forwarded,
  fulfilled or failed. The two sides act in any order.
\<close>

inductive channel_step :: "'p ln_env \<Rightarrow> ln_self_t \<Rightarrow> ln_self_t \<Rightarrow> bool" for env where
  recv_add: "recv_update_add_htlc env d self = Inr (ret, self') \<Longrightarrow> channel_step env self self'"
| recv_fulfill: "recv_update_fulfill_htlc env d self = Inr (ret, self') \<Longrightarrow> channel_step env self self'"
| recv_fail: "recv_update_fail_htlc d self = Inr (ret, self') \<Longrightarrow> channel_step env self self'"
| recv_malformed: "recv_update_fail_malformed_htlc d self = Inr (ret, self') \<Longrightarrow> channel_step env self self'"
| recv_commit: "recv_commitment_signed env d self = Inr (ret, self') \<Longrightarrow> channel_step env self self'"
| recv_revoke: "recv_revoke_and_ack env d self = Inr (ret, self') \<Longrightarrow> channel_step env self self'"
| recv_fee: "recv_update_fee d self = Inr (ret, self') \<Longrightarrow> channel_step env self self'"
| recv_reest: "recv_channel_reestablish env base d self = Inr (ret, self') \<Longrightarrow> channel_step env self self'"
| idle: "ln_recv_idle_proc env self = Inr self' \<Longrightarrow> channel_step env self self'"
| add_set: "ln_add_htlc_set env reason packet amount cltv hash scid pidx shared self = Inr (r, reason', self') \<Longrightarrow>
    channel_step env self self'"
| add_set_fwd: "ln_add_htlc_set_fwd env reason packet amount cltv hash scid pidx shared self =
    Inr (r, reason', self') \<Longrightarrow> channel_step env self self'"
| start_fwd: "channel_step env self (ln_add_htlc_start_fwd idx self)"
| fulfill_set: "channel_step env self (ln_fulfill_htlc_set idx preimage self)"
| fail_set: "channel_step env self (ln_fail_htlc_set env idx reason self)"

inductive channel_run :: "'p ln_env \<Rightarrow> ln_self_t \<Rightarrow> ln_self_t \<Rightarrow> bool" for env where
  run_refl: "channel_run env self self"
| run_step: "channel_run env self self' \<Longrightarrow> channel_step env self' self'' \<Longrightarrow> channel_run env self self''"

lemma channel_step_ok:
  assumes "channel_step env self self'" "wf_env env" "wf_self self"
  shows "step_ok self self'"
  using assms(1)
proof (cases rule: channel_step.cases)
  case (recv_add d ret)
  then show ?thesis by (rule recv_update_add_htlc.handle_keeps [OF assms(2,3)])
next
  case (recv_fulfill d ret)
  then show ?thesis by (rule recv_update_fulfill_htlc.handle_keeps [OF assms(2,3)])
next
  case (recv_fail d ret)
  then show ?thesis by (rule recv_update_fail_htlc.handle_keeps [OF assms(2,3)])
next
  case (recv_malformed d ret)
  then show ?thesis by (rule recv_update_fail_malformed_htlc.handle_keeps [OF assms(2,3)])
next
  case (recv_commit d ret)
  then show ?thesis by (rule recv_commitment_signed.handle_keeps [OF assms(2,3)])
next
  case (recv_revoke d ret)
  then show ?thesis by (rule recv_revoke_and_ack.handle_keeps [OF assms(2,3)])
next
  case (recv_fee d ret)
  then show ?thesis by (rule recv_update_fee.handle_keeps [OF assms(2,3)])
next
  case (recv_reest base d ret)
  then show ?thesis by (rule recv_channel_reestablish.handle_keeps [OF assms(2,3)])
next
  case idle
  then show ?thesis by (rule step_ok_idle [OF assms(2,3)])
next
  case add_set
  then show ?thesis by (rule step_ok_add_htlc_set(1))
next
  case add_set_fwd
  then show ?thesis by (rule step_ok_add_htlc_set(2))
next
  case (start_fwd idx)
  then show ?thesis by (simp add: ln_add_htlc_start_fwd_def step_ok_set_flag)
next
  case (fulfill_set idx preimage)
  then show ?thesis using step_ok_del_htlc_set(1) by blast
next
  case (fail_set idx reason)
  then show ?thesis using step_ok_del_htlc_set(2) by blast
qed

lemma channel_run_ok:
  "channel_run env self self' \<Longrightarrow> wf_env env \<Longrightarrow> wf_self self \<Longrightarrow> step_ok self self' \<and> wf_self self'"
proof (induction rule: channel_run.induct)
  case (run_step self self' self'')
  then have a: "step_ok self self'" "wf_self self'" by blast+
  then have "step_ok self' self''" using run_step channel_step_ok by blast
  then have "step_ok self self''" using a(1) step_ok_trans by blast
  then show ?case using run_step(5) unfolding step_ok_def by blast
qed simp

text \<open>A channel with one received HTLC that both sides have committed to fulfil, and a run of it.\<close>

definition toy_self3 :: ln_self_t where
  "toy_self3 = toy_self\<lparr>commit_local := toy_commit\<lparr>commit_num := 1\<rparr>,
     cnl_add_htlc := toy_htlc\<lparr>flag := flag_zero\<lparr>addhtlc := LN_ADDHTLC_RECV, delhtlc := LN_DELHTLC_FULFILL,
       updsend := True, comsend := True, revrecv := True, comrecv := True, revsend := True\<rparr>\<rparr> #
       replicate 5 htlc_zero\<rparr>"

lemma toy_self3_wf: "wf_self toy_self3" "numbers_ok toy_self3" "\<forall>h\<in>set (cnl_add_htlc toy_self3). answered h"
  by (auto simp: wf_self_def toy_self3_def toy_self_def wf_keys_def toy_funding_def wf_htlc_def
      toy_htlc_def htlc_zero_def toy_commit_def LN_HTLC_MAX_def numbers_ok_def answered_def flag_zero_def)

lemma toy_self3_settles:
  "our_msat (recv_idle_proc_final toy_self3) = 605000000"
  "their_msat (recv_idle_proc_final toy_self3) = 395000000"
  "cnl_add_htlc (recv_idle_proc_final toy_self3) = replicate 6 htlc_zero"
  by code_simp+

lemma toy_self3_run:
  "channel_run toy_env toy_self3 (recv_idle_proc_final toy_self3)"
proof -
  have "ln_recv_idle_proc toy_env toy_self3 = Inr (recv_idle_proc_final toy_self3)"
    by (simp add: ln_recv_idle_proc_def toy_self3_def toy_htlc_def htlc_zero_def flag_zero_def
        LN_HTLC_ENABLE_def LN_HTLC_EMPTY_def committed_def)
  then show ?thesis by (intro run_step [OF run_refl] idle)
qed

text \<open>
  Along every run, whatever the peer sends and in whatever order, the two balances of a channel
  keep their sum, and the state stays well-formed.
\<close>

theorem channel_balance_conserved:
  assumes "channel_run env self self'" "wf_env env" "wf_self self"
  shows "our_msat self' + their_msat self' = our_msat self + their_msat self \<and> wf_self self'"
  using channel_run_ok [OF assms] by (simp add: step_ok_def)

theorem channel_balance_conserved_witness:
  "our_msat (recv_idle_proc_final toy_self3) = our_msat toy_self3 + 5000000 \<and>
   our_msat (recv_idle_proc_final toy_self3) + their_msat (recv_idle_proc_final toy_self3) =
     our_msat toy_self3 + their_msat toy_self3"
  using channel_balance_conserved [OF toy_self3_run toy_wf(1) toy_self3_wf(1)] toy_self3_settles(1)
  by (simp add: toy_self3_def toy_self_def)

text \<open>
  C11: along every run, the index of the next per-commitment secret falls as the number of the local
  commitment rises, the local commitment stays exactly one ahead of the last revoked one, and no
  HTLC is covered by a received \<open>commitment_signed\<close> that has not been answered with \<open>revoke_and_ack\<close>.
\<close>

theorem channel_commitment_numbers:
  assumes "channel_run env self self'" "wf_env env" "wf_self self"
    and "numbers_ok self" "\<forall>h\<in>set (cnl_add_htlc self). answered h"
  shows "storage_index self' + commit_num (commit_local self') =
      storage_index self + commit_num (commit_local self) \<and>
    commit_num (commit_local self') = revoke_num (commit_local self') + 1 \<and>
    (\<forall>h\<in>set (cnl_add_htlc self'). comrecv (flag h) = revsend (flag h))"
proof -
  have "step_ok self self'" using channel_run_ok [OF assms(1-3)] by blast
  then show ?thesis using assms(4,5) unfolding step_ok_def numbers_ok_def answered_def by blast
qed

theorem channel_commitment_numbers_witness:
  "commit_num (commit_local (recv_idle_proc_final toy_self3)) =
    revoke_num (commit_local (recv_idle_proc_final toy_self3)) + 1"
  using channel_commitment_numbers [OF toy_self3_run toy_wf(1) toy_self3_wf] by blast

end
