(* ===== verification/Channel_Flow.thy ===== *)
theory Channel_Flow
  imports Channel_Inv
begin

text \<open>
  What the steps of normal operation achieve: the settlement of finished HTLCs, the exchange of
  \<open>commitment_signed\<close> and \<open>revoke_and_ack\<close> between two nodes, the fate of a received HTLC, and where
  the code leaves a slot or notifies the wrong one.
\<close>

section \<open>Settlement\<close>

text \<open>The pass over a slot commutes with a shift of the balances.\<close>

lemma local_step_shift:
  "local_htlcinfo_step ih (infos, our + a, their + b) =
     (let (i, o', t) = local_htlcinfo_step ih (infos, our, their) in (i, o' + a, t + b))"
  by (cases ih) (simp add: local_htlcinfo_step_def Let_def algebra_simps split: addhtlc.split)

lemma local_fold_shift:
  "fold local_htlcinfo_step ihs (infos, our + a, their + b) =
     (let (i, o', t) = fold local_htlcinfo_step ihs (infos, our, their) in (i, o' + a, t + b))"
proof (induction ihs arbitrary: infos our their)
  case (Cons ih ihs)
  obtain i o' t where s: "local_htlcinfo_step ih (infos, our, their) = (i, o', t)"
    by (cases "local_htlcinfo_step ih (infos, our, their)")
  then show ?case using Cons.IH by (simp add: local_step_shift)
qed simp

lemma enumerate_update:
  "i < length hs \<Longrightarrow> enumerate 0 (hs[i := h]) =
     enumerate 0 (take i hs) @ (i, h) # enumerate (Suc i) (drop (Suc i) hs)"
  by (simp add: upd_conv_take_nth_drop enumerate_append_eq)

lemma local_amount_replace:
  assumes "i < length hs"
    and "\<And>infos o' t. local_htlcinfo_step (i, h') (infos, o' + a, t + b) =
      local_htlcinfo_step (i, hs ! i) (infos, o', t)"
  shows "create_to_local_htlcinfo_amount (hs[i := h']) (our + a) (their + b) =
    create_to_local_htlcinfo_amount hs our their"
proof -
  obtain infos o' t where pre: "fold local_htlcinfo_step (enumerate 0 (take i hs)) ([], our, their) = (infos, o', t)"
    by (cases "fold local_htlcinfo_step (enumerate 0 (take i hs)) ([], our, their)")
  have "enumerate 0 hs = enumerate 0 (take i hs) @ (i, hs ! i) # enumerate (Suc i) (drop (Suc i) hs)"
    using enumerate_update [OF assms(1), of "hs ! i"] by simp
  then show ?thesis
    using pre assms(2) [of infos o' t] local_fold_shift [of "enumerate 0 (take i hs)" "[]" our a their b]
    by (simp add: create_to_local_htlcinfo_amount_def enumerate_update [OF assms(1)])
qed

lemma local_step_zero: "local_htlcinfo_step (i, htlc_zero) s = s"
  by (cases s) (simp add: local_htlcinfo_step_def htlc_zero_def flag_zero_def LN_HTLC_ENABLE_def LN_HTLC_EMPTY_def)

text \<open>A slot that the loop settles contributes to the balances what the settlement moves.\<close>

lemma local_step_settled:
  assumes "LN_HTLC_ENABLE h" "\<not> LN_HTLC_ENABLE_LOCAL_ADDHTLC_OFFER (flag h)"
    "\<not> LN_HTLC_ENABLE_LOCAL_ADDHTLC_RECV (flag h)"
  shows "local_htlcinfo_step (i, h) (infos, o', t) =
    (infos,
     o' + (if delhtlc (flag h) = LN_DELHTLC_FULFILL then
             (case addhtlc (flag h) of LN_ADDHTLC_OFFER \<Rightarrow> - amount_msat h | LN_ADDHTLC_RECV \<Rightarrow> amount_msat h
              | LN_ADDHTLC_NONE \<Rightarrow> 0) else 0),
     t - (if delhtlc (flag h) = LN_DELHTLC_FULFILL then
             (case addhtlc (flag h) of LN_ADDHTLC_OFFER \<Rightarrow> - amount_msat h | LN_ADDHTLC_RECV \<Rightarrow> amount_msat h
              | LN_ADDHTLC_NONE \<Rightarrow> 0) else 0))"
  using assms by (auto simp: local_htlcinfo_step_def flag_defs Let_def split: addhtlc.splits)

text \<open>What the local commitment depends on.\<close>

definition local_view :: "ln_self_t \<Rightarrow> ln_script_htlcinfo_t list \<times> u64 \<times> u64" where
  "local_view self = create_to_local_htlcinfo_amount (cnl_add_htlc self) (our_msat self) (their_msat self)"

definition rest :: "ln_self_t \<Rightarrow> ln_self_t" where
  \<comment> \<open>everything but the slots, the balances and the events\<close>
  "rest self = self\<lparr>cnl_add_htlc := [], our_msat := 0, their_msat := 0, events := []\<rparr>"

lemma rest_simps [simp]:
  "rest (upd_htlc i f self) = rest self" "rest (callback e self) = rest self"
  "rest (self\<lparr>our_msat := a, their_msat := b\<rparr>) = rest self"
  "rest (clear_slot i self) = rest self"
  by (simp_all add: rest_def upd_htlc_def callback_def clear_slot_def)

lemma local_view_callback [simp]: "local_view (callback e self) = local_view self"
  by (simp add: local_view_def)

lemma local_view_upd:
  assumes "\<And>infos o' t. local_htlcinfo_step (i, f (cnl_add_htlc self ! i)) (infos, o', t) =
      local_htlcinfo_step (i, cnl_add_htlc self ! i) (infos, o', t)"
  shows "local_view (upd_htlc i f self) = local_view self"
proof (cases "i < length (cnl_add_htlc self)")
  case True
  then show ?thesis
    using local_amount_replace [OF True, of "f (cnl_add_htlc self ! i)" 0 0] assms
    by (simp add: local_view_def upd_htlc_def)
qed (simp add: local_view_def upd_htlc_def list_update_beyond)

lemma local_commit_tx_view:
  assumes "local_view self' = local_view self" "rest self' = rest self"
  shows "local_commit_tx env n dl du self' = local_commit_tx env n dl du self"
proof -
  have "funding_local self' = funding_local self" "feerate_per_kw self' = feerate_per_kw self"
    "is_funder self' = is_funder self" "funding_txid self' = funding_txid self"
    "funding_txindex self' = funding_txindex self" "funding_sat self' = funding_sat self"
    "redeem_fund self' = redeem_fund self" "obscured self' = obscured self"
    using assms(2) by (cases self; cases self'; simp add: rest_def)+
  then show ?thesis
    using assms(1) by (simp add: local_commit_tx_def local_view_def commit_struct_def)
qed

lemma local_step_cong:
  assumes "LN_HTLC_ENABLE h' = LN_HTLC_ENABLE h" "amount_msat h' = amount_msat h"
    "cltv_expiry h' = cltv_expiry h" "payment_sha256 h' = payment_sha256 h"
    "addhtlc (flag h') = LN_ADDHTLC_RECV" "addhtlc (flag h) = LN_ADDHTLC_RECV"
    "LN_HTLC_ENABLE_LOCAL_ADDHTLC_RECV (flag h')" "LN_HTLC_ENABLE_LOCAL_ADDHTLC_RECV (flag h)"
  shows "local_htlcinfo_step (i, h') s = local_htlcinfo_step (i, h) s"
  using assms by (cases s) (simp add: local_htlcinfo_step_def htlcinfo_def Let_def
      LN_HTLC_ENABLE_LOCAL_ADDHTLC_OFFER_def LN_HTLC_ENABLE_LOCAL_FULFILL_OFFER_def)

lemma settle_view:
  assumes "i < length (cnl_add_htlc self)"
    and "LN_HTLC_ENABLE (cnl_add_htlc self ! i)"
    "\<not> LN_HTLC_ENABLE_LOCAL_ADDHTLC_OFFER (flag (cnl_add_htlc self ! i))"
    "\<not> LN_HTLC_ENABLE_LOCAL_ADDHTLC_RECV (flag (cnl_add_htlc self ! i))"
  shows "local_view (idle_settle i self) = local_view self \<and> rest (idle_settle i self) = rest self"
proof -
  let ?h = "cnl_add_htlc self ! i"
  let ?d = "if delhtlc (flag ?h) = LN_DELHTLC_FULFILL then
      (case addhtlc (flag ?h) of LN_ADDHTLC_OFFER \<Rightarrow> - amount_msat ?h | LN_ADDHTLC_RECV \<Rightarrow> amount_msat ?h
       | LN_ADDHTLC_NONE \<Rightarrow> 0) else 0"
  have "our_msat (idle_settle i self) = our_msat self + ?d"
    "their_msat (idle_settle i self) = their_msat self + - ?d"
    "cnl_add_htlc (idle_settle i self) = (cnl_add_htlc self)[i := htlc_zero]"
    by (auto simp: idle_settle_def clear_slot_def clear_htlc_def upd_htlc_def Let_def callback_def
        split: addhtlc.split)
  moreover have "create_to_local_htlcinfo_amount ((cnl_add_htlc self)[i := htlc_zero])
      (our_msat self + ?d) (their_msat self + - ?d) =
      create_to_local_htlcinfo_amount (cnl_add_htlc self) (our_msat self) (their_msat self)"
    using assms(1)
  proof (rule local_amount_replace)
    fix infos o' t
    show "local_htlcinfo_step (i, htlc_zero) (infos, o' + ?d, t + - ?d) =
        local_htlcinfo_step (i, ?h) (infos, o', t)"
      unfolding local_step_zero local_step_settled [OF assms(2-4)] by simp
  qed
  moreover have "rest (idle_settle i self) = rest self"
    by (auto simp: idle_settle_def Let_def split: addhtlc.split)
  ultimately show ?thesis unfolding local_view_def by metis
qed

lemma nth_upd_htlc: "i < length (cnl_add_htlc self) \<Longrightarrow> cnl_add_htlc (upd_htlc i f self) ! i = f (cnl_add_htlc self ! i)"
  by (simp add: upd_htlc_def)

lemma start_view:
  assumes "i < length (cnl_add_htlc self)"
    and recv: "LN_HTLC_ENABLE_LOCAL_ADDHTLC_RECV (flag (cnl_add_htlc self ! i))"
  shows "local_view (fst (idle_backward i (idle_forward i (self, d)))) = local_view self \<and>
    rest (fst (idle_backward i (idle_forward i (self, d)))) = rest self"
proof -
  let ?h = "cnl_add_htlc self ! i"
  have fwd: "local_htlcinfo_step (i, ?h\<lparr>next_short_channel_id := x\<rparr>) s = local_htlcinfo_step (i, ?h) s" for x s
    using recv by (intro local_step_cong)
      (auto simp: LN_HTLC_ENABLE_def LN_HTLC_EMPTY_def LN_HTLC_ENABLE_LOCAL_ADDHTLC_RECV_def)
  obtain s1 d1 where s1: "idle_forward i (self, d) = (s1, d1)" by (cases "idle_forward i (self, d)")
  have view: "local_view s1 = local_view self" "rest s1 = rest self"
    using s1 fwd local_view_upd [of i "\<lambda>h. h\<lparr>next_short_channel_id := 0\<rparr>" "callback e self" for e]
    by (auto simp: idle_forward_def Let_def split: if_splits)
  have h1: "flag (cnl_add_htlc s1 ! i) = flag ?h" "length (cnl_add_htlc s1) = length (cnl_add_htlc self)"
    using s1 nth_upd_htlc [of i "callback e self" for e] assms(1)
    by (auto simp: idle_forward_def Let_def split: if_splits)
  let ?h1 = "cnl_add_htlc s1 ! i"
  have bwd: "local_htlcinfo_step (i, clear_htlc_comrevflag ?h1 fin) s = local_htlcinfo_step (i, ?h1) s" for fin s
    using recv by (intro local_step_cong)
      (auto simp: h1 clear_htlc_comrevflag_def Let_def LN_HTLC_ENABLE_LOCAL_ADDHTLC_RECV_def
        LN_HTLC_ENABLE_def LN_HTLC_EMPTY_def)
  have "local_view (fst (idle_backward i (s1, d1))) = local_view s1 \<and>
      rest (fst (idle_backward i (s1, d1))) = rest s1"
    using bwd local_view_upd [of i "\<lambda>h. clear_htlc_comrevflag h f" "callback e s1" for f e]
    by (auto simp: idle_backward_def Let_def)
  with view s1 show ?thesis by simp
qed

lemma final_slot_view:
  assumes "i < length (cnl_add_htlc (fst s))"
  shows "local_view (fst (idle_final_slot i s)) = local_view (fst s) \<and>
    rest (fst (idle_final_slot i s)) = rest (fst s) \<and>
    length (cnl_add_htlc (fst (idle_final_slot i s))) = length (cnl_add_htlc (fst s))"
proof -
  obtain self d r where s: "s = (self, d, r)" by (cases s)
  have i: "i < length (cnl_add_htlc self)" using assms s by simp
  have "length (cnl_add_htlc (fst (idle_final_slot i s))) = length (cnl_add_htlc self)"
    by (auto simp: s idle_final_slot_def Let_def idle_settle_def clear_slot_def idle_forward_def
        idle_backward_def split: prod.splits addhtlc.split if_splits)
  moreover have "local_view (fst (idle_final_slot i s)) = local_view self \<and>
      rest (fst (idle_final_slot i s)) = rest self"
    using start_view [OF i, of d] settle_view [OF i]
    by (cases "idle_backward i (idle_forward i (self, d))")
      (simp add: s idle_final_slot_def Let_def)
  ultimately show ?thesis by (simp add: s)
qed

lemma fold_final_view:
  assumes "\<forall>i\<in>set is. i < length (cnl_add_htlc (fst s))"
  shows "local_view (fst (fold idle_final_slot is s)) = local_view (fst s) \<and>
    rest (fst (fold idle_final_slot is s)) = rest (fst s)"
  using assms
proof (induction "is" arbitrary: s)
  case (Cons i "is")
  then show ?case using final_slot_view [of i s] Cons.IH [of "idle_final_slot i s"] by simp
qed simp

text \<open>
  C26: settling does not touch what has been agreed. When all HTLCs are irrevocably committed, the idle
  procedure moves the amounts of fulfilled HTLCs between the balances and clears the finished slots;
  the local commitment transaction that the state describes, for every commitment number, is the
  same before and after.
\<close>

theorem settlement_keeps_local_commit:
  assumes "length (cnl_add_htlc self) = LN_HTLC_MAX"
  shows "local_commit_tx env n dl du (recv_idle_proc_final self) = local_commit_tx env n dl du self"
proof (rule local_commit_tx_view)
  obtain s2 d r where f: "fold idle_final_slot [0..<LN_HTLC_MAX] (self, False, False) = (s2, d, r)"
    by (cases "fold idle_final_slot [0..<LN_HTLC_MAX] (self, False, False)")
  have "local_view s2 = local_view self \<and> rest s2 = rest self"
    using fold_final_view [of "[0..<LN_HTLC_MAX]" "(self, False, False)"] f assms by simp
  then show "local_view (recv_idle_proc_final self) = local_view self"
    "rest (recv_idle_proc_final self) = rest self"
    by (auto simp: recv_idle_proc_final_def f Let_def)
qed

theorem settlement_keeps_local_commit_witness:
  "local_commit_tx toy_env 2 40 546 (recv_idle_proc_final toy_self3) = local_commit_tx toy_env 2 40 546 toy_self3 \<and>
   our_msat (recv_idle_proc_final toy_self3) = 605000000 \<and>
   cnl_add_htlc (recv_idle_proc_final toy_self3) = replicate 6 htlc_zero"
  by (intro conjI settlement_keeps_local_commit toy_self3_settles)
    (simp add: toy_self3_def LN_HTLC_MAX_def)

section \<open>commitment_signed and revoke_and_ack\<close>

lemma events_simps [simp]:
  "events (mark_htlcs c m self) = events self" "events (upd_htlc i f self) = events self"
  "events (set_err e self) = events self"
  by (simp_all add: mark_htlcs_def upd_htlc_def set_err_def)

lemma local_frame_eq:
  assumes "local_frame self self'"
  shows "\<exists>sl tid n. self' = self\<lparr>cnl_add_htlc := sl,
    commit_local := (commit_local self)\<lparr>txid := tid, htlc_num := n\<rparr>\<rparr>"
  using assms by (auto simp: local_frame_def same_but_sigs_def)

lemma commitment_ack_cong:
  "commitment_ack env (self\<lparr>cnl_add_htlc := sl, commit_local := c\<rparr>) = commitment_ack env self"
  "commitment_ack env (restore_sig s self) = commitment_ack env self"
  by (simp_all add: commitment_ack_def ln_signer_create_prev_percommitsec_def create_percommitsec_def
      ln_signer_keys_update_storage_def ln_signer_keys_update_force_def Let_def restore_sig_def
      split: option.split prod.split)

lemma local_commit_tx_sig:
  "local_commit_tx env n dl du (restore_sig s self) = local_commit_tx env n dl du self"
  by (simp add: local_commit_tx_def restore_sig_def commit_struct_def)

lemma htlc_sig_ok_sig:
  "htlc_sig_ok env (restore_sig s self) = htlc_sig_ok env self"
  by (intro ext) (simp add: htlc_sig_ok_def create_to_local_htlcverify_def restore_sig_def)

text \<open>What an accepted \<open>commitment_signed\<close> leaves behind.\<close>

definition signed_commitment :: "'p ln_env \<Rightarrow> ln_commit_signed_t \<Rightarrow> ln_self_t \<Rightarrow> bool" where
  "signed_commitment env m self \<longleftrightarrow>
     (\<exists>ws infos fi tx own tid.
        local_commit_tx env (commit_num (commit_local self) + 1) (ucast (to_self_delay (commit_remote self)))
          (dust_limit_sat (commit_local self)) self = Inr (ws, infos, fi, tx) \<and>
        tx_sign env tx (funding_sat self) (redeem_fund self) = Some own \<and>
        tx_verify_2of2 env tx (funding_sat self) (redeem_fund self) own (der_sig (cs_signature m)) \<and>
        tx_txid env tx = Some tid \<and>
        length (htlc_outs 0 (tx_vout tx)) = unat (ucast (num_htlcs m) :: byte) \<and>
        (\<forall>k<length (htlc_outs 0 (tx_vout tx)).
           htlc_sig_ok env self tid ws infos fi (htlc_outs 0 (tx_vout tx) ! k) (nth_sig (cs_htlc_signature m) k)))"

lemma accepted_effect:
  assumes env: "wf_env env" and self: "wf_self self"
    and h: "recv_commitment_signed env d self = Inr (True, self')"
  obtains m self1 where "ln_msg_commit_signed_read d = Inr m"
    "chk_channelid (cs_channel_id m) (channel_id self)" "signed_commitment env m self"
    "local_frame (restore_sig (cs_signature m) self) self1" "wf_self self1"
    "self' = revoke_local (callback (CB_SEND_REQ (Some (revoke_and_ack_wire (commitment_ack env self))))
       (mark_htlcs in_local_commit set_revsend (update_scriptkeys env (ln_signer_keys_update_storage env
          (mark_htlcs in_local_commit set_comrecv self1)))))"
proof -
  from h obtain m self1 where m: "ln_msg_commit_signed_read d = Inr m"
    "chk_channelid (cs_channel_id m) (channel_id self)"
    and c: "create_to_local env (Some (cs_htlc_signature m)) (ucast (num_htlcs m))
         (commit_num (commit_local self) + 1) (ucast (to_self_delay (commit_remote self)))
         (dust_limit_sat (commit_local self)) (restore_sig (cs_signature m) self) = Inr (True, self1)"
    and a: "commitment_answer env (cd_signature (commit_local self)) (cs_channel_id m) self1 = Inr (True, self')"
    by (cases rule: recv_commitment_signed_cases) auto
  have lens: "length (cs_channel_id m) = LN_SZ_CHANNEL_ID" "length (cs_signature m) = LN_SZ_SIGNATURE"
    using commit_signed_read_lengths [OF m(1)] by simp_all
  have self0: "wf_self (restore_sig (cs_signature m) self)"
    using step_ok_sig [OF lens(2), of self] self by (simp add: step_ok_def)
  have fr: "local_frame (restore_sig (cs_signature m) self) self1"
    by (rule create_to_local_frame [OF env self0 c])
  have self1: "wf_self self1"
    using step_ok_local_frame [OF fr] self0 by (simp add: step_ok_def)
  obtain sl tid n where s1: "self1 = (restore_sig (cs_signature m) self)\<lparr>cnl_add_htlc := sl,
      commit_local := (commit_local (restore_sig (cs_signature m) self))\<lparr>txid := tid, htlc_num := n\<rparr>\<rparr>"
    using local_frame_eq [OF fr] by blast
  have "cs_channel_id m = take LN_SZ_CHANNEL_ID (channel_id self1)"
    using chk_channelid_eq [OF m(2) lens(1)] by (simp add: s1 restore_sig_def)
  then have "self' = revoke_local (callback (CB_SEND_REQ (Some (revoke_and_ack_wire (commitment_ack env self1))))
       (mark_htlcs in_local_commit set_revsend (update_scriptkeys env (ln_signer_keys_update_storage env
          (mark_htlcs in_local_commit set_comrecv self1)))))"
    using a commitment_answer_eq(2) [OF env self1] by simp
  moreover have "commitment_ack env self1 = commitment_ack env self"
    by (simp add: s1 commitment_ack_cong)
  moreover have "signed_commitment env m self"
    using local_commit_accepted [OF env self0 c] unfolding local_commit_tx_sig htlc_sig_ok_sig
    by (auto simp: signed_commitment_def restore_sig_def)
  ultimately show ?thesis using that m fr self1 by simp
qed

subsection \<open>A concrete exchange\<close>

definition toy_comsig :: ln_commit_signed_t where
  "toy_comsig = \<lparr>cs_channel_id = replicate 32 7, cs_signature = replicate 64 0, num_htlcs = 2,
     cs_htlc_signature = replicate 128 3\<rparr>"

definition strict_env :: "nat ln_env" where
  \<comment> \<open>no signature is valid\<close>
  "strict_env = toy_env\<lparr>tx_verify_2of2 := (\<lambda>_ _ _ _ _. False)\<rparr>"

lemma wf_strict_env: "wf_env strict_env"
  using toy_wf(1) by (simp add: wf_env_def strict_env_def)

lemma toy_comsig_read:
  "ln_msg_commit_signed_read (commit_signed_wire toy_comsig) = Inr toy_comsig"
  using commit_signed.read_wire [of toy_comsig "[]"]
  by (simp add: commit_signed_wf_def toy_comsig_def)

lemma toy_comsig_handler:
  "recv_commitment_signed env (commit_signed_wire toy_comsig) toy_self2 =
     bind_c (create_to_local env (Some (replicate 128 3)) 2 1 40 546 toy_self2)
       (\<lambda>(ret, self). if \<not> ret then Inr (False, restore_sig (replicate 64 0) self)
         else commitment_answer env (replicate 64 0) (replicate 32 7) self)"
proof -
  have m: "cs_channel_id toy_comsig = replicate 32 7" "cs_signature toy_comsig = replicate 64 0"
    "num_htlcs toy_comsig = 2" "cs_htlc_signature toy_comsig = replicate 128 3"
    by (simp_all add: toy_comsig_def)
  have same: "toy_self2\<lparr>commit_local := (commit_local toy_self2)\<lparr>cd_signature := replicate 64 0\<rparr>\<rparr> = toy_self2"
    by (simp add: toy_self2_def toy_self_def toy_commit_def)
  have s: "channel_id toy_self2 = replicate 32 7" "commit_num (commit_local toy_self2) = 0"
    "to_self_delay (commit_remote toy_self2) = 40" "dust_limit_sat (commit_local toy_self2) = 546"
    "cd_signature (commit_local toy_self2) = replicate 64 0"
    by (simp_all add: toy_self2_def toy_self_def toy_commit_def)
  show ?thesis
    unfolding recv_commitment_signed_def read_msg_def toy_comsig_read Let_def try_c_simps option.case m same s
    by (simp add: chk_channelid_def)
qed

lemma toy_comsig_accepted:
  "\<exists>self'. recv_commitment_signed toy_env (commit_signed_wire toy_comsig) toy_self2 = Inr (True, self')"
proof -
  obtain self1 where c: "create_to_local toy_env (Some (replicate 128 3)) 2 1 40 546 toy_self2 = Inr (True, self1)"
    using toy_local_accepted by blast
  have "step_ok toy_self2 self1" by (rule create_to_local_step_ok [OF toy_wf c])
  then have "wf_self self1" "channel_id self1 = channel_id toy_self2"
    using toy_wf(2) by (simp_all add: step_ok_def)
  then show ?thesis
    using commitment_answer_eq(2) [OF toy_wf(1), of self1 "replicate 32 7" "replicate 64 0"]
    by (simp add: toy_comsig_handler c) (simp add: toy_self2_def toy_self_def)
qed

lemma toy_comsig_rejected:
  "\<exists>self'. recv_commitment_signed strict_env (commit_signed_wire toy_comsig) toy_self2 = Inr (False, self')"
proof -
  obtain ws infos fi tx where "local_commit_tx strict_env 1 40 546 toy_self2 = Inr (ws, infos, fi, tx)"
    using local_commit_tx_defined [OF wf_strict_env toy_wf(2)] by blast
  then show ?thesis
    unfolding toy_comsig_handler by (subst create_to_local_eq [OF toy_wf(2)])
      (auto simp: strict_env_def toy_env_def)
qed

text \<open>
  C1: an old state is revoked only when the new commitment is fully signed. If \<^verbatim>\<open>recv_commitment_signed\<close>
  succeeds, the signature in the message is valid for the transaction that the state describes
  under the next commitment number, and there is a valid HTLC signature for each of its HTLC
  outputs; then exactly one message is sent, the \<open>revoke_and_ack\<close> for the previous state, before the
  secrets and the state are saved, and the commitment number has moved by one.
\<close>

theorem commitment_signed_accepted:
  assumes "wf_env env" "wf_self self" "recv_commitment_signed env d self = Inr (True, self')"
  shows "\<exists>m. ln_msg_commit_signed_read d = Inr m \<and> signed_commitment env m self \<and>
    cd_signature (commit_local self') = cs_signature m \<and>
    commit_num (commit_local self') = commit_num (commit_local self) + 1 \<and>
    revoke_num (commit_local self') = commit_num (commit_local self) \<and>
    events self' = events self @
      [CB_SEND_REQ (Some (revoke_and_ack_wire (commitment_ack env self))), DB_SECRET_SAVE, DB_SELF_SAVE]"
  using assms
proof (cases rule: accepted_effect)
  case (1 m self1)
  obtain sl tid n where "self1 = (restore_sig (cs_signature m) self)\<lparr>cnl_add_htlc := sl,
      commit_local := (commit_local (restore_sig (cs_signature m) self))\<lparr>txid := tid, htlc_num := n\<rparr>\<rparr>"
    using local_frame_eq [OF 1(4)] by blast
  with 1 show ?thesis
    by (intro exI [of _ m]) (simp add: revoke_local_def restore_sig_def)
qed

theorem commitment_signed_accepted_witness:
  "\<exists>self'. recv_commitment_signed toy_env (commit_signed_wire toy_comsig) toy_self2 = Inr (True, self') \<and>
     signed_commitment toy_env toy_comsig toy_self2 \<and> commit_num (commit_local self') = 1"
proof -
  obtain self' where h: "recv_commitment_signed toy_env (commit_signed_wire toy_comsig) toy_self2 = Inr (True, self')"
    using toy_comsig_accepted by blast
  moreover have "commit_num (commit_local toy_self2) = 0" by (simp add: toy_self2_def toy_self_def toy_commit_def)
  ultimately show ?thesis
    using commitment_signed_accepted [OF toy_wf h] by (auto simp: toy_comsig_read)
qed

text \<open>What a rejected \<open>commitment_signed\<close> can leave behind.\<close>

definition rejected_frame :: "ln_self_t \<Rightarrow> ln_self_t \<Rightarrow> bool" where
  "rejected_frame self self' \<longleftrightarrow>
     (\<exists>htlcs tid n e. self' = self\<lparr>cnl_add_htlc := htlcs, err := e,
        commit_local := (commit_local self)\<lparr>txid := tid, htlc_num := n\<rparr>\<rparr> \<and>
      map (htlc_signature_update (\<lambda>_. [])) htlcs = map (htlc_signature_update (\<lambda>_. [])) (cnl_add_htlc self))"

lemma rejected_frameI:
  assumes "local_frame (restore_sig s self) self1"
  shows "rejected_frame self (restore_sig (cd_signature (commit_local self)) self1)"
proof -
  obtain self2 tid n where s: "same_but_sigs (restore_sig s self) self2"
    "self1 = self2\<lparr>commit_local := (commit_local (restore_sig s self))\<lparr>txid := tid, htlc_num := n\<rparr>\<rparr>"
    using assms by (auto simp: local_frame_def)
  obtain sl where sl: "self2 = (restore_sig s self)\<lparr>cnl_add_htlc := sl\<rparr>"
    "map (htlc_signature_update (\<lambda>_. [])) sl = map (htlc_signature_update (\<lambda>_. [])) (cnl_add_htlc self)"
    using s(1) by (auto simp: same_but_sigs_def restore_sig_def)
  show ?thesis
    unfolding rejected_frame_def s(2) sl(1)
    by (intro exI [of _ sl] exI [of _ tid] exI [of _ n] exI [of _ "err self"] conjI sl(2)) (simp add: restore_sig_def)
qed

lemma rejected_frame_err:
  "rejected_frame self (set_err e self)" "rejected_frame self (restore_sig (cd_signature (commit_local self)) (set_err e (restore_sig s self)))"
proof -
  have "self\<lparr>err := e'\<rparr> = self\<lparr>cnl_add_htlc := cnl_add_htlc self, err := e',
      commit_local := (commit_local self)\<lparr>txid := txid (commit_local self), htlc_num := htlc_num (commit_local self)\<rparr>\<rparr>" for e'
    by simp
  then have "rejected_frame self (self\<lparr>err := e'\<rparr>)" for e' unfolding rejected_frame_def by blast
  moreover have "\<exists>e'. set_err e self = self\<lparr>err := e'\<rparr>"
    "\<exists>e'. restore_sig (cd_signature (commit_local self)) (set_err e (restore_sig s self)) = self\<lparr>err := e'\<rparr>"
    by (auto simp: set_err_def restore_sig_def)
  ultimately show "rejected_frame self (set_err e self)"
    "rejected_frame self (restore_sig (cd_signature (commit_local self)) (set_err e (restore_sig s self)))"
    by metis+
qed

lemma commitment_signed_rejected_frame:
  assumes "wf_env env" "wf_self self" "recv_commitment_signed env d self = Inr (False, self')"
  shows "rejected_frame self self'"
  using assms(3)
proof (cases rule: recv_commitment_signed_cases)
  case (rejected m self1)
  have lens: "length (cs_signature m) = LN_SZ_SIGNATURE"
    using commit_signed_read_lengths [OF rejected(1)] by simp
  have "wf_self (restore_sig (cs_signature m) self)"
    using step_ok_sig [OF lens, of self] assms(2) by (simp add: step_ok_def)
  then have "local_frame (restore_sig (cs_signature m) self) self1"
    using create_to_local_frame [OF assms(1) _ rejected(3)] by blast
  then show ?thesis
    using rejected_frameI rejected(4) by simp
next
  case (accepted m self1)
  have lens: "length (cs_channel_id m) = LN_SZ_CHANNEL_ID" "length (cs_signature m) = LN_SZ_SIGNATURE"
    using commit_signed_read_lengths [OF accepted(1)] by simp_all
  have self0: "wf_self (restore_sig (cs_signature m) self)"
    using step_ok_sig [OF lens(2), of self] assms(2) by (simp add: step_ok_def)
  have "wf_self self1 \<and> channel_id self1 = channel_id self"
    using create_to_local_step_ok [OF assms(1) self0 accepted(3)] self0
    by (simp add: step_ok_def restore_sig_def)
  then have "commitment_answer env (cd_signature (commit_local self)) (cs_channel_id m) self1 \<noteq> Inr (False, self')"
    using commitment_answer_eq(2) [OF assms(1), of self1 "cs_channel_id m"]
      chk_channelid_eq [OF accepted(2) lens(1)] by simp
  with accepted(4) show ?thesis by simp
qed (simp_all add: rejected_frame_err)

text \<open>
  C30: a rejected \<open>commitment_signed\<close> revokes nothing: the state keeps every field except the error and
  what the check computes on the way, the id and the number of HTLC outputs of the transaction it has
  built and the signatures of HTLC transactions in the table of HTLCs. So no message is sent and nothing
  is saved; the stored secrets of the peer, the seed and the index of the own ones, all keys and points,
  the signature and the numbers of the commitment in force, the balances and the flags of the HTLCs are
  as before.
\<close>

theorem commitment_signed_rejected:
  assumes "wf_env env" "wf_self self" "recv_commitment_signed env d self = Inr (False, self')"
  shows "(\<exists>htlcs tid n e.
      self' = self\<lparr>cnl_add_htlc := htlcs, err := e,
        commit_local := (commit_local self)\<lparr>txid := tid, htlc_num := n\<rparr>\<rparr> \<and>
      map (htlc_signature_update (\<lambda>_. [])) htlcs = map (htlc_signature_update (\<lambda>_. [])) (cnl_add_htlc self)) \<and>
    events self' = events self \<and>
    peer_storage self' = peer_storage self \<and> peer_storage_index self' = peer_storage_index self \<and>
    storage_seed self' = storage_seed self \<and> storage_index self' = storage_index self \<and>
    priv_percommit self' = priv_percommit self \<and>
    funding_local self' = funding_local self \<and> funding_remote self' = funding_remote self \<and>
    cd_signature (commit_local self') = cd_signature (commit_local self) \<and>
    commit_num (commit_local self') = commit_num (commit_local self) \<and>
    revoke_num (commit_local self') = revoke_num (commit_local self) \<and>
    our_msat self' = our_msat self \<and> their_msat self' = their_msat self \<and>
    map flag (cnl_add_htlc self') = map flag (cnl_add_htlc self)"
proof -
  note fr = commitment_signed_rejected_frame [OF assms, unfolded rejected_frame_def]
  then obtain htlcs tid n e where f: "self' = self\<lparr>cnl_add_htlc := htlcs, err := e,
        commit_local := (commit_local self)\<lparr>txid := tid, htlc_num := n\<rparr>\<rparr>"
      "map (htlc_signature_update (\<lambda>_. [])) htlcs = map (htlc_signature_update (\<lambda>_. [])) (cnl_add_htlc self)"
    by blast
  have "map flag htlcs = map flag (cnl_add_htlc self)"
    using arg_cong [OF f(2), of "map flag"] by (simp add: comp_def)
  then show ?thesis using fr by (simp add: f(1))
qed

theorem commitment_signed_rejected_witness:
  "\<exists>self'. recv_commitment_signed strict_env (commit_signed_wire toy_comsig) toy_self2 = Inr (False, self') \<and>
     events self' = [] \<and> commit_num (commit_local self') = 0"
proof -
  obtain self' where h: "recv_commitment_signed strict_env (commit_signed_wire toy_comsig) toy_self2 = Inr (False, self')"
    using toy_comsig_rejected by blast
  moreover have "commit_num (commit_local toy_self2) = 0" "events toy_self2 = []"
    by (simp_all add: toy_self2_def toy_self_def toy_commit_def)
  ultimately show ?thesis
    using commitment_signed_rejected [OF wf_strict_env toy_wf(2) h] by simp
qed

subsection \<open>The exchange between two nodes\<close>

text \<open>
  \<open>holds_secrets env a b\<close>: node \<open>b\<close> is the peer of \<open>a\<close> in the channel, its storage holds every secret that
  \<open>a\<close> has revealed, and it waits for the next one.
\<close>

definition holds_secrets :: "'p ln_env \<Rightarrow> ln_self_t \<Rightarrow> ln_self_t \<Rightarrow> bool" where
  "holds_secrets env a b \<longleftrightarrow>
     take LN_SZ_CHANNEL_ID (channel_id b) = take LN_SZ_CHANNEL_ID (channel_id a) \<and>
     peer_storage_index b = storage_index a + 2 \<and> peer_storage_index b \<le> LN_SECINDEX_INIT \<and>
     storage_inv (sha256 env) (storage_seed a) (peer_storage b) (Suc (unat (peer_storage_index b)))"

lemma recv_revoke_honest:
  assumes "holds_secrets env a b" "wf_env env" "wf_self a" "wf_self b"
    and "priv2pub env (ln_signer_create_prev_percommitsec env a) = Some P"
  shows "\<exists>b'. recv_revoke_and_ack env (revoke_and_ack_wire (commitment_ack env a)) b = Inr (True, b') \<and>
    channel_id b' = channel_id b \<and> peer_storage_index b' = peer_storage_index b - 1 \<and>
    storage_inv (sha256 env) (storage_seed a) (peer_storage b') (unat (peer_storage_index b)) \<and>
    pubkeys (funding_remote b') ! MSG_FUNDIDX_PER_COMMIT = per_commitpt (commitment_ack env a)"
proof -
  let ?ack = "commitment_ack env a" and ?I = "peer_storage_index b"
  let ?secret = "ln_signer_create_prev_percommitsec env a"
  have idx: "?I = storage_index a + 2" "storage_index a + 2 \<le> LN_SECINDEX_INIT"
    using assms(1) unfolding holds_secrets_def by metis+
  have inv: "storage_inv (sha256 env) (storage_seed a) (peer_storage b) (Suc (unat ?I))"
    using assms(1) unfolding holds_secrets_def by blast
  have wf: "revoke_and_ack_wf ?ack" by (rule commitment_answer_eq(1) [OF assms(2,3) refl])
  have read: "ln_msg_revoke_and_ack_read (revoke_and_ack_wire ?ack) = Inr ?ack"
    using revoke_and_ack.read_wire [OF wf, of "[]"] by simp
  have I: "unat ?I < 2 ^ 48"
    using assms(1) unfolding holds_secrets_def LN_SECINDEX_INIT_def word_le_nat_alt by (elim conjE) simp
  have sec: "per_commit_secret ?ack = ?secret" "?secret = secret_of (sha256 env) (storage_seed a) (unat ?I)"
    using idx by (simp_all add: commitment_ack_def ln_signer_create_prev_percommitsec_def
        create_percommitsec_def ln_derkey_create_secret_eq Let_def)
  obtain st where st: "ln_derkey_storage_insert_secret (sha256 env) (peer_storage b) ?secret ?I = Inr st"
    "storage_inv (sha256 env) (storage_seed a) st (unat ?I)"
    using storage_inv_insert [OF inv I] unfolding sec(2) by auto
  let ?b1 = "b\<lparr>peer_storage := st, peer_storage_index := ?I - 1\<rparr>"
  have "store_peer_percommit_secret env ?secret b = Inr ?b1"
    by (simp add: store_peer_percommit_secret_def st)
  moreover have "chk_channelid (ra_channel_id ?ack) (channel_id b)"
    using assms(1) by (simp add: chk_channelid_def commitment_ack_def holds_secrets_def)
  moreover have "MSG_FUNDIDX_PER_COMMIT < length (pubkeys (funding_remote b))"
    using assms(4) by (simp add: wf_self_def wf_keys_def fundidx_defs)
  ultimately show ?thesis
    by (simp add: recv_revoke_and_ack_def read_msg_def read chk_chan_def
        sec(1) assms(5) st(2) Let_def)
qed

text \<open>
  C3: the exchange works. When a node has accepted a \<open>commitment_signed\<close>, the message that it sends is
  accepted by the peer, which from then on holds the revealed secret too and can find every secret
  revealed so far; both have the same point for the next commitment, and both are ready for the
  next exchange.
\<close>

theorem revocation_exchange:
  assumes "wf_env env" "wf_self a" "wf_self b" "holds_secrets env a b" "peer_storage_index b \<noteq> 0"
    and "recv_commitment_signed env d a = Inr (True, a')"
    and "priv2pub env (ln_signer_create_prev_percommitsec env a) = Some P"
  shows "\<exists>msg b'. events a' = events a @ [CB_SEND_REQ (Some msg), DB_SECRET_SAVE, DB_SELF_SAVE] \<and>
    recv_revoke_and_ack env msg b = Inr (True, b') \<and> holds_secrets env a' b' \<and>
    pubkeys (funding_remote b') ! MSG_FUNDIDX_PER_COMMIT = pubkeys (funding_local a') ! MSG_FUNDIDX_PER_COMMIT \<and>
    (\<forall>I. peer_storage_index b \<le> I \<and> I \<le> LN_SECINDEX_INIT \<longrightarrow>
      ln_derkey_storage_get_secret (sha256 env) (peer_storage b') I =
        Some (ln_derkey_create_secret (sha256 env) (storage_seed a) I))"
  using assms(1,2,6)
proof (cases rule: accepted_effect)
  case (1 m self1)
  obtain sl tid n where s1: "self1 = (restore_sig (cs_signature m) a)\<lparr>cnl_add_htlc := sl,
      commit_local := (commit_local (restore_sig (cs_signature m) a))\<lparr>txid := tid, htlc_num := n\<rparr>\<rparr>"
    using local_frame_eq [OF 1(4)] by blast
  obtain b' where b': "recv_revoke_and_ack env (revoke_and_ack_wire (commitment_ack env a)) b = Inr (True, b')"
    "channel_id b' = channel_id b" "peer_storage_index b' = peer_storage_index b - 1"
    "storage_inv (sha256 env) (storage_seed a) (peer_storage b') (unat (peer_storage_index b))"
    "pubkeys (funding_remote b') ! MSG_FUNDIDX_PER_COMMIT = per_commitpt (commitment_ack env a)"
    using recv_revoke_honest [OF assms(4,1,2,3,7)] by blast
  let ?keyed = "ln_signer_keys_update_storage env (mark_htlcs in_local_commit set_comrecv self1)"
  have "pubkeys (funding_local ?keyed) = pubkeys (funding_local (ln_signer_keys_update_storage env a))"
    by (simp add: s1 restore_sig_def ln_signer_keys_update_storage_def ln_signer_keys_update_force_def
        create_percommitsec_def mark_htlcs_def Let_def split: option.split)
  then have pt: "pubkeys (funding_local a') ! MSG_FUNDIDX_PER_COMMIT = per_commitpt (commitment_ack env a)"
    by (simp add: 1(6) revoke_local_def commitment_ack_def)
  have a': "storage_index a' = storage_index a - 1" "storage_seed a' = storage_seed a" "channel_id a' = channel_id a"
    "events a' = events a @ [CB_SEND_REQ (Some (revoke_and_ack_wire (commitment_ack env a))), DB_SECRET_SAVE, DB_SELF_SAVE]"
    by (simp_all add: 1(6) s1 restore_sig_def) (simp add: revoke_local_def)
  have dec: "Suc (unat (peer_storage_index b - 1)) = unat (peer_storage_index b)"
    using assms(5) by (simp add: unat_minus_one unat_gt_0)
  then have le: "peer_storage_index b' \<le> LN_SECINDEX_INIT"
    using assms(4) b'(3) unfolding holds_secrets_def word_le_nat_alt by (elim conjE) simp
  have "peer_storage_index b' = storage_index a' + 2"
    using assms(4) unfolding holds_secrets_def b'(3) a'(1) by (elim conjE) simp
  moreover have "storage_inv (sha256 env) (storage_seed a') (peer_storage b') (Suc (unat (peer_storage_index b')))"
    unfolding a'(2) b'(3) dec by (rule b'(4))
  moreover have "take LN_SZ_CHANNEL_ID (channel_id b') = take LN_SZ_CHANNEL_ID (channel_id a')"
    unfolding a'(3) b'(2) using assms(4) unfolding holds_secrets_def by blast
  ultimately have "holds_secrets env a' b'"
    using le unfolding holds_secrets_def by blast
  moreover have "ln_derkey_storage_get_secret (sha256 env) (peer_storage b') I =
      Some (ln_derkey_create_secret (sha256 env) (storage_seed a) I)"
    if "peer_storage_index b \<le> I" "I \<le> LN_SECINDEX_INIT" for I
  proof -
    have "unat (peer_storage_index b) \<le> unat I" "unat I < 2 ^ 48"
      using that unfolding word_le_nat_alt LN_SECINDEX_INIT_def by simp_all
    then show ?thesis
      using storage_inv_get [OF b'(4), of "unat I"] unfolding ln_derkey_create_secret_eq by simp
  qed
  ultimately show ?thesis using a'(4) b'(1,5) pt by metis
qed

theorem revocation_exchange_witness:
  "\<exists>a' msg b'. recv_commitment_signed toy_env (commit_signed_wire toy_comsig) toy_self2 = Inr (True, a') \<and>
     events a' = [CB_SEND_REQ (Some msg), DB_SECRET_SAVE, DB_SELF_SAVE] \<and>
     recv_revoke_and_ack toy_env msg toy_self2 = Inr (True, b') \<and> holds_secrets toy_env a' b'"
proof -
  obtain a' where h: "recv_commitment_signed toy_env (commit_signed_wire toy_comsig) toy_self2 = Inr (True, a')"
    using toy_comsig_accepted by blast
  have p: "peer_storage_index toy_self2 = LN_SECINDEX_INIT" "storage_index toy_self2 = LN_SECINDEX_INIT - 2"
    "peer_storage toy_self2 = ln_derkey_storage_init" "events toy_self2 = []"
    by (simp_all add: toy_self2_def toy_self_def)
  have "Suc (unat LN_SECINDEX_INIT) = 2 ^ 48" by (simp add: LN_SECINDEX_INIT_def)
  then have "holds_secrets toy_env toy_self2 toy_self2"
    using storage_inv_init [of "sha256 toy_env" "storage_seed toy_self2"] by (simp add: holds_secrets_def p)
  moreover have "priv2pub toy_env s = Some (0 # s)" for s by (simp add: toy_env_def)
  moreover have "peer_storage_index toy_self2 \<noteq> 0" by (simp add: p LN_SECINDEX_INIT_def)
  ultimately show ?thesis
    using revocation_exchange [OF toy_wf(1) toy_wf(2) toy_wf(2) _ _ h] h p(4) by (metis append_Nil)
qed

end
