(* ===== verification/Channel_Relay.thy ===== *)
theory Channel_Relay
  imports Channel_Flow
begin

text \<open>
  The way of an HTLC through a node: what a received HTLC becomes, and how its settlement in the
  downstream channel reaches the upstream channel, with the callbacks of \<^verbatim>\<open>ptarmd/lnapp.c\<close> that
  connect the two.
\<close>

section \<open>The fate of a received HTLC\<close>

text \<open>Only the slot is changed, and in it neither the flags nor what the HTLC pays.\<close>

definition only_slot :: "nat \<Rightarrow> ln_self_t \<Rightarrow> ln_self_t \<Rightarrow> bool" where
  "only_slot idx self self' \<longleftrightarrow>
     length (cnl_add_htlc self') = length (cnl_add_htlc self) \<and>
     (\<forall>i. i \<noteq> idx \<longrightarrow> cnl_add_htlc self' ! i = cnl_add_htlc self ! i) \<and>
     (let h = cnl_add_htlc self ! idx; h' = cnl_add_htlc self' ! idx in
      flag h' = flag h \<and> payment_sha256 h' = payment_sha256 h \<and> amount_msat h' = amount_msat h \<and>
      cltv_expiry h' = cltv_expiry h \<and> htlc_id h' = htlc_id h)"

lemma only_slot_refl [simp]: "only_slot idx self self"
  by (simp add: only_slot_def)

lemma only_slot_trans: "only_slot idx a b \<Longrightarrow> only_slot idx b c \<Longrightarrow> only_slot idx a c"
  by (simp add: only_slot_def Let_def)

lemma only_slot_upd:
  assumes "\<And>h. flag (f h) = flag h \<and> payment_sha256 (f h) = payment_sha256 h \<and>
    amount_msat (f h) = amount_msat h \<and> cltv_expiry (f h) = cltv_expiry h \<and> htlc_id (f h) = htlc_id h"
  shows "only_slot idx self (upd_htlc idx f self)"
  using assms by (cases "idx < length (cnl_add_htlc self)")
    (auto simp: only_slot_def upd_htlc_def Let_def list_update_beyond)

lemma slots_set_err [simp]: "cnl_add_htlc (set_err e self) = cnl_add_htlc self"
  by (simp add: set_err_def)

lemma checks_slots:
  "check_recv_add_htlc_bolt2 self h = (ok, self') \<Longrightarrow> cnl_add_htlc self' = cnl_add_htlc self"
  "check_recv_add_htlc_bolt4_final env hop h height self = (r, self') \<Longrightarrow> cnl_add_htlc self' = cnl_add_htlc self"
  "check_recv_add_htlc_bolt4_forward env hop h height self = Inr (q, self') \<Longrightarrow> cnl_add_htlc self' = cnl_add_htlc self"
  "add_htlc_common hop self = (v, o', reason, self') \<Longrightarrow> cnl_add_htlc self' = cnl_add_htlc self \<and> o' = Some hop"
  by (auto simp: check_recv_add_htlc_bolt2_def check_recv_add_htlc_bolt4_final_def
      check_recv_add_htlc_bolt4_forward_def check_recv_add_htlc_bolt4_common_def add_htlc_common_def
      try_c_def Let_def
      split: if_splits option.splits sum.splits prod.splits bool.splits)

lemma only_slot_same: "cnl_add_htlc self' = cnl_add_htlc self \<Longrightarrow> only_slot idx self self'"
  by (simp add: only_slot_def)

lemma final_preimage:
  "check_recv_add_htlc_bolt4_final env d h height self = (Inr p, self') \<Longrightarrow>
     sha256 env p = payment_sha256 h \<and> p \<in> fst ` set (preimages env)"
  by (force simp: check_recv_add_htlc_bolt4_final_def Let_def dest!: find_SomeD split: option.splits if_splits)

text \<open>What the BOLT 4 part establishes about an HTLC that it lets pass.\<close>

definition may_pay :: "'p ln_env \<Rightarrow> ln_hop_dataout_t \<Rightarrow> ln_update_add_htlc_t \<Rightarrow> bool" where
  "may_pay env hop h \<longleftrightarrow>
     (if b_exit hop then sha256 env (buf_payment_preimage h) = payment_sha256 h \<and>
        buf_payment_preimage h \<in> fst ` set (preimages env)
      else hop_short_channel_id hop \<noteq> 0)"

lemma may_pay_slots:
  "cnl_add_htlc self' = cnl_add_htlc self \<Longrightarrow> may_pay env hop (cnl_add_htlc self ! idx) \<Longrightarrow>
     may_pay env hop (cnl_add_htlc self' ! idx)"
  by simp

lemma add_htlc_bolt4_outcome:
  assumes "add_htlc_bolt4 env idx self = Inr (v, hop, reason, self')" "idx < length (cnl_add_htlc self)"
  shows "only_slot idx self self' \<and>
    (v = LN_CB_ADD_HTLC_RESULT_OK \<longrightarrow> (\<exists>d. hop = Some d \<and> may_pay env d (cnl_add_htlc self' ! idx)))"
proof (cases "onion_read env (buf_onion_reason (cnl_add_htlc self ! idx)) (payment_sha256 (cnl_add_htlc self ! idx))")
  case (Onion_Ok d onion shared)
  let ?self = "upd_htlc idx (\<lambda>h. h\<lparr>buf_onion_reason := onion, buf_shared_secret := shared\<rparr>) self"
  let ?h = "cnl_add_htlc ?self ! idx" and ?height = "of_int (block_count env)"
  note eq = assms(1) [unfolded add_htlc_bolt4_def Let_def Onion_Ok onion_result.case]
  have "only_slot idx self ?self" by (rule only_slot_upd) simp
  moreover have "only_slot idx ?self self' \<and>
      (v = LN_CB_ADD_HTLC_RESULT_OK \<longrightarrow> (\<exists>d. hop = Some d \<and> may_pay env d (cnl_add_htlc self' ! idx)))"
  proof (cases "0 < block_count env")
    case pos: True
    show ?thesis
    proof (cases "b_exit d")
      case True
      obtain r s where f: "check_recv_add_htlc_bolt4_final env d ?h ?height ?self = (r, s)"
        by (cases "check_recv_add_htlc_bolt4_final env d ?h ?height ?self")
      note slots = checks_slots(2) [OF f]
      show ?thesis
      proof (cases r)
        case (Inl x)
        then show ?thesis using eq pos True f slots by (auto intro: only_slot_same)
      next
        case (Inr preimage)
        let ?s = "upd_htlc idx (\<lambda>h. h\<lparr>prev_short_channel_id := - 1,
            buf_payment_preimage := preimage, buf_onion_reason := []\<rparr>) s"
        have c: "add_htlc_common d ?s = (v, hop, reason, self')"
          using eq pos True f Inr by simp
        have "only_slot idx s ?s" by (rule only_slot_upd) simp
        then have "only_slot idx ?self self'"
          using checks_slots(4) [OF c] slots by (simp add: only_slot_def)
        moreover have "may_pay env d (cnl_add_htlc ?s ! idx)"
          using final_preimage [OF f [unfolded Inr]] True slots assms(2)
          by (simp add: may_pay_def upd_htlc_def)
        ultimately show ?thesis using checks_slots(4) [OF c] by auto
      qed
    next
      case False
      obtain r s where f: "check_recv_add_htlc_bolt4_forward env d ?h ?height ?self = Inr (r, s)"
        using eq pos False by (auto simp: bind_c_Inr_iff)
      note slots = checks_slots(3) [OF f]
      show ?thesis
      proof (cases r)
        case (Inl x)
        then show ?thesis using eq pos False f slots by (auto intro: only_slot_same)
      next
        case (Inr u)
        then have c: "add_htlc_common d s = (v, hop, reason, self')" using eq pos False f by simp
        have "hop_short_channel_id d \<noteq> 0" using f Inr by (simp add: forward_accept_iff)
        then show ?thesis
          using checks_slots(4) [OF c] slots False by (auto simp: may_pay_def intro: only_slot_same)
      qed
    qed
  next
    case False
    then show ?thesis using eq by (auto intro: only_slot_same)
  qed
  ultimately show ?thesis using only_slot_trans by blast
next
  case (Onion_Err r shared)
  note eq = assms(1) [unfolded add_htlc_bolt4_def Let_def Onion_Err onion_result.case get_u16_Inr_iff]
  have "only_slot idx self (upd_htlc idx (\<lambda>h. h\<lparr>buf_shared_secret := shared, buf_onion_reason := []\<rparr>) self)"
    by (rule only_slot_upd) simp
  moreover have "self' = set_err LNERR_ONION
      (upd_htlc idx (\<lambda>h. h\<lparr>buf_shared_secret := shared, buf_onion_reason := []\<rparr>) self)"
    "v \<noteq> LN_CB_ADD_HTLC_RESULT_OK"
    using eq by (auto split: if_splits)
  ultimately show ?thesis using only_slot_trans [OF _ only_slot_same] slots_set_err by blast
qed

text \<open>The three fates: settled here, refused, handed on.\<close>

definition htlc_fate :: "'p ln_env \<Rightarrow> ln_htlcflag_t \<Rightarrow> ln_update_add_htlc_t \<Rightarrow> bool" where
  "htlc_fate env f h \<longleftrightarrow>
     flag h = f\<lparr>addhtlc := LN_ADDHTLC_RECV, fin_delhtlc := LN_DELHTLC_FULFILL\<rparr> \<and>
       sha256 env (buf_payment_preimage h) = payment_sha256 h \<and>
       buf_payment_preimage h \<in> fst ` set (preimages env) \<or>
     flag h = f\<lparr>addhtlc := LN_ADDHTLC_RECV, fin_delhtlc := LN_DELHTLC_FAIL\<rparr> \<or>
     flag h = f\<lparr>addhtlc := LN_ADDHTLC_RECV, fin_delhtlc := LN_DELHTLC_MALFORMED\<rparr> \<or>
     flag h = f\<lparr>addhtlc := LN_ADDHTLC_RECV\<rparr> \<and> next_short_channel_id h \<noteq> 0 \<and>
       add_htlc_recv env = (True, next_idx h)"

lemma slots_upd: "cnl_add_htlc (upd_htlc i f self) = (cnl_add_htlc self)[i := f (cnl_add_htlc self ! i)]"
  by (simp add: upd_htlc_def)

lemma read_msg_True:
  assumes "read_msg r self k = Inr (True, self')"
  obtains m where "r = Inr m" "k m = Inr (True, self')"
  using assms by (auto simp: read_msg_def try_c_def split: sum.splits if_splits option.splits)

lemma exI_slot: "P x \<Longrightarrow> \<exists>h. xs[i := x] = xs[i := h] \<and> P h"
  by blast

lemma add_htlc_finish_outcome:
  assumes i: "idx < length (cnl_add_htlc self)"
    and ok: "v = LN_CB_ADD_HTLC_RESULT_OK \<longrightarrow> (\<exists>d. hop = Some d \<and> may_pay env d (cnl_add_htlc self ! idx))"
  shows "\<exists>h. cnl_add_htlc (add_htlc_finish env idx v hop reason self) = (cnl_add_htlc self)[idx := h] \<and>
    htlc_id h = htlc_id (cnl_add_htlc self ! idx) \<and> amount_msat h = amount_msat (cnl_add_htlc self ! idx) \<and>
    payment_sha256 h = payment_sha256 (cnl_add_htlc self ! idx) \<and>
    htlc_fate env (flag (cnl_add_htlc self ! idx)) h"
proof (cases v)
  case LN_CB_ADD_HTLC_RESULT_OK
  then obtain d where d: "hop = Some d" "may_pay env d (cnl_add_htlc self ! idx)" using ok by blast
  obtain b n where r: "add_htlc_recv env = (b, n)" by (cases "add_htlc_recv env")
  have "htlc_fate env (flag h) (h\<lparr>flag := (flag h)\<lparr>addhtlc := LN_ADDHTLC_RECV, fin_delhtlc := LN_DELHTLC_FAIL\<rparr>,
      buf_onion_reason := x\<rparr>)" for h x by (simp add: htlc_fate_def)
  moreover have "htlc_fate env (flag h) (h\<lparr>flag := (flag h)\<lparr>addhtlc := LN_ADDHTLC_RECV, fin_delhtlc := LN_DELHTLC_FULFILL\<rparr>\<rparr>)"
    if "may_pay env d h" "b_exit d" for h using that by (simp add: htlc_fate_def may_pay_def)
  moreover have "htlc_fate env (flag h) (h\<lparr>flag := (flag h)\<lparr>addhtlc := LN_ADDHTLC_RECV\<rparr>,
      next_short_channel_id := hop_short_channel_id d, next_idx := n\<rparr>)"
    if "may_pay env d h" "\<not> b_exit d" b for h using that r by (simp add: htlc_fate_def may_pay_def)
  ultimately show ?thesis
    using i d by (cases b; cases "b_exit d")
      (simp_all add: LN_CB_ADD_HTLC_RESULT_OK add_htlc_finish_def add_htlc_accept_def Let_def slots_upd r exI_slot)
next
  case LN_CB_ADD_HTLC_RESULT_FAIL
  then show ?thesis
    using i by (simp add: add_htlc_finish_def Let_def slots_upd) (rule exI_slot, simp add: htlc_fate_def)
next
  case LN_CB_ADD_HTLC_RESULT_MALFORMED
  then show ?thesis
    using i by (simp add: add_htlc_finish_def Let_def slots_upd) (rule exI_slot, simp add: htlc_fate_def)
qed

text \<open>
  C5: no received HTLC is left without a fate. If \<^verbatim>\<open>recv_update_add_htlc\<close> succeeds, the HTLC is in the first
  slot that was empty, no other slot has changed, and it is either to be fulfilled, with a preimage of
  an invoice that hashes to its payment hash, or to be failed, or it has been handed to the next
  channel, whose answer is the slot number that is kept.
\<close>

theorem received_htlc_outcome:
  assumes "recv_update_add_htlc env d self = Inr (True, self')"
  shows "\<exists>idx m h. first_slot LN_HTLC_EMPTY (cnl_add_htlc self) = Some idx \<and>
    ln_msg_update_add_htlc_read (cnl_add_htlc self ! idx) d = Inr m \<and>
    cnl_add_htlc self' = (cnl_add_htlc self)[idx := h] \<and>
    htlc_id h = htlc_id m \<and> amount_msat h = amount_msat m \<and> payment_sha256 h = payment_sha256 m \<and>
    htlc_fate env (flag (cnl_add_htlc self ! idx)) h"
proof -
  obtain idx where idx: "first_slot LN_HTLC_EMPTY (cnl_add_htlc self) = Some idx"
    using assms by (auto simp: recv_update_add_htlc_def split: option.splits)
  have i: "idx < length (cnl_add_htlc self)" using first_slot_SomeD [OF idx] by blast
  obtain m where m: "ln_msg_update_add_htlc_read (cnl_add_htlc self ! idx) d = Inr m"
    and k: "chk_chan (p_channel_id m) (upd_htlc idx (\<lambda>_. m) self) (
        let (ok, self) = check_recv_add_htlc_bolt2 (upd_htlc idx (\<lambda>_. m) self) m in
        if \<not> ok then Inr (False, self)
        else bind_c (add_htlc_bolt4 env idx self) (\<lambda>(result, hop, reason, self).
          Inr (True, add_htlc_finish env idx result hop reason self))) = Inr (True, self')"
    using assms unfolding recv_update_add_htlc_def idx option.case Let_def by (elim read_msg_True) blast
  obtain self1 v hop reason self2 where
    c: "check_recv_add_htlc_bolt2 (upd_htlc idx (\<lambda>_. m) self) m = (True, self1)"
    "add_htlc_bolt4 env idx self1 = Inr (v, hop, reason, self2)"
    "self' = add_htlc_finish env idx v hop reason self2"
    using k by (auto simp: chk_chan_def bind_c_Inr_iff split: prod.splits if_splits)
  have s1: "cnl_add_htlc self1 = (cnl_add_htlc self)[idx := m]"
    using checks_slots(1) [OF c(1)] by (simp add: slots_upd)
  have i1: "idx < length (cnl_add_htlc self1)" using s1 i by simp
  note o4 = add_htlc_bolt4_outcome [OF c(2) i1]
  have i2: "idx < length (cnl_add_htlc self2)" using o4 i1 by (simp add: only_slot_def)
  obtain h where h: "cnl_add_htlc self' = (cnl_add_htlc self2)[idx := h]"
    "htlc_id h = htlc_id (cnl_add_htlc self2 ! idx)" "amount_msat h = amount_msat (cnl_add_htlc self2 ! idx)"
    "payment_sha256 h = payment_sha256 (cnl_add_htlc self2 ! idx)"
    "htlc_fate env (flag (cnl_add_htlc self2 ! idx)) h"
    using add_htlc_finish_outcome [OF i2] o4 unfolding c(3) by metis
  have "(cnl_add_htlc self2)[idx := h] = (cnl_add_htlc self)[idx := h]"
    using o4 s1 i i2 by (intro nth_equalityI) (auto simp: only_slot_def nth_list_update)
  moreover have "flag m = flag (cnl_add_htlc self ! idx)"
    using update_add_htlc_read_slot [OF m] by auto
  moreover have "cnl_add_htlc self1 ! idx = m" using s1 i by simp
  ultimately show ?thesis
    using idx m h o4 by (intro exI [of _ idx] exI [of _ m] exI [of _ h]) (simp add: only_slot_def Let_def)
qed

text \<open>A payment that the toy node forwards.\<close>

definition toy_add :: ln_update_add_htlc_t where
  "toy_add = htlc_zero\<lparr>p_channel_id := replicate 32 7, htlc_id := 3, amount_msat := 6000,
     payment_sha256 := replicate 32 4, cltv_expiry := 536,
     buf_onion_reason := replicate LN_SZ_ONION_ROUTE 0\<rparr>"

lemma toy_add_read: "ln_msg_update_add_htlc_read htlc_zero (update_add_htlc_wire toy_add) = Inr toy_add"
  using update_add_htlc.read_wire [of toy_add "[]"] by (simp add: update_add_htlc_wf_def toy_add_def)

lemma toy_add_accepted:
  "\<exists>self'. recv_update_add_htlc toy_env (update_add_htlc_wire toy_add) toy_self = Inr (True, self')"
proof -
  let ?self = "upd_htlc 0 (\<lambda>_. toy_add) toy_self"
  have slots: "cnl_add_htlc toy_self = htlc_zero # replicate 5 htlc_zero" by (rule toy_slots)
  have slot: "cnl_add_htlc ?self ! 0 = toy_add" by (simp add: slots_upd slots)
  have first: "first_slot LN_HTLC_EMPTY (cnl_add_htlc toy_self) = Some 0"
    by (simp add: slots LN_HTLC_EMPTY_def htlc_zero_def flag_zero_def)
  have chan: "chk_channelid (p_channel_id toy_add) (channel_id ?self)"
    by (simp add: chk_channelid_def toy_add_def toy_self_def)
  have b2: "check_recv_add_htlc_bolt2 ?self toy_add = (True, ?self)"
    by (simp add: check_recv_add_htlc_bolt2_def in_flight_offered_def slots_upd slots cltv_consts)
      (simp add: upd_htlc_def toy_add_def toy_self_def toy_commit_def htlc_zero_def flag_zero_def)
  define onion where "onion = buf_onion_reason toy_add"
  let ?self1 = "upd_htlc 0 (\<lambda>h. h\<lparr>buf_onion_reason := onion, buf_shared_secret := replicate 32 3\<rparr>) ?self"
  have read: "onion_read toy_env (buf_onion_reason toy_add) hash = Onion_Ok toy_hop onion (replicate 32 3)" for hash
    by (simp add: toy_env_def onion_def)
  have slot1: "cnl_add_htlc ?self1 ! 0 = toy_add\<lparr>buf_onion_reason := onion, buf_shared_secret := replicate 32 3\<rparr>"
    by (simp add: slots_upd slots)
  have fwd: "check_recv_add_htlc_bolt4_forward toy_env toy_hop
      (toy_add\<lparr>buf_onion_reason := onion, buf_shared_secret := replicate 32 3\<rparr>) 480 ?self1 = Inr (Inr (), ?self1)"
    unfolding forward_accept_iff
    by (auto simp: toy_add_def toy_env_def toy_hop_def toy_self_def toy_update_def ln_forward_fee_def cltv_consts
        cnl_update_read_body upd_htlc_def)
  have common: "add_htlc_common toy_hop ?self1 = (LN_CB_ADD_HTLC_RESULT_OK, Some toy_hop, [], ?self1)"
    by (simp add: add_htlc_common_def check_recv_add_htlc_bolt4_common_def upd_htlc_def toy_self_def)
  have "block_count toy_env = 480" "\<not> b_exit toy_hop" by (simp_all add: toy_env_def toy_hop_def)
  then have b4: "add_htlc_bolt4 toy_env 0 ?self = Inr (LN_CB_ADD_HTLC_RESULT_OK, Some toy_hop, [], ?self1)"
    unfolding add_htlc_bolt4_def slot Let_def read onion_result.case slot1 by (simp add: fwd common)
  have zero: "cnl_add_htlc toy_self ! 0 = htlc_zero" by (simp add: slots)
  show ?thesis
    unfolding recv_update_add_htlc_def first option.case zero read_msg_def toy_add_read try_c_simps Let_def b2
      chk_chan_def
    using chan b4 by simp
qed

theorem received_htlc_outcome_witness:
  "\<exists>self' h. recv_update_add_htlc toy_env (update_add_htlc_wire toy_add) toy_self = Inr (True, self') \<and>
     cnl_add_htlc self' = h # replicate 5 htlc_zero \<and> htlc_id h = 3 \<and> amount_msat h = 6000 \<and>
     htlc_fate toy_env flag_zero h"
proof -
  obtain self' where r: "recv_update_add_htlc toy_env (update_add_htlc_wire toy_add) toy_self = Inr (True, self')"
    using toy_add_accepted by blast
  have first: "first_slot LN_HTLC_EMPTY (cnl_add_htlc toy_self) = Some 0"
    by (simp add: toy_slots LN_HTLC_EMPTY_def htlc_zero_def flag_zero_def)
  have zero: "cnl_add_htlc toy_self ! 0 = htlc_zero" "flag htlc_zero = flag_zero"
    by (simp_all add: toy_slots htlc_zero_def)
  have "htlc_id toy_add = 3" "amount_msat toy_add = 6000" by (simp_all add: toy_add_def)
  with received_htlc_outcome [OF r] first zero r toy_slots toy_add_read show ?thesis by auto
qed

section \<open>From the downstream to the upstream channel\<close>

text \<open>
  The callbacks that pass the settlement of a forwarded HTLC on. The upstream channel is the one that
  \<^verbatim>\<open>ptarmd_search_transferable_cnl\<close> finds; logging and the event scripts are left out.
\<close>

definition cbsub_fulfill_backwind :: "cb_event \<Rightarrow> ln_self_t \<Rightarrow> ln_self_t" where
  "cbsub_fulfill_backwind p_fulfill p_self =
     (case p_fulfill of
        CB_FULFILL_HTLC_RECV scid pidx preimage i amount \<Rightarrow> ln_fulfill_htlc_set (unat pidx) preimage p_self
      | _ \<Rightarrow> p_self)"

definition cbsub_fail_backwind :: "'p ln_env \<Rightarrow> cb_event \<Rightarrow> ln_self_t \<Rightarrow> ln_self_t" where
  "cbsub_fail_backwind env p_fail p_self =
     (case p_fail of
        CB_FAIL_HTLC_RECV scid pidx i hash reason malformed \<Rightarrow> ln_fail_htlc_set env pidx reason p_self
      | _ \<Rightarrow> p_self)"

subsection \<open>Two concrete channels\<close>

definition flag_committed :: "addhtlc \<Rightarrow> ln_htlcflag_t" where
  "flag_committed a = flag_zero\<lparr>addhtlc := a, comsend := True, revrecv := True, comrecv := True, revsend := True\<rparr>"

definition toy_down :: ln_self_t where
  \<comment> \<open>slot 0 holds the HTLC that came in slot 1 of the upstream channel\<close>
  "toy_down = toy_self\<lparr>cnl_add_htlc := htlc_zero\<lparr>htlc_id := 5, amount_msat := 5000,
     payment_sha256 := replicate 32 4, prev_short_channel_id := 5, prev_idx := 1,
     flag := (flag_committed LN_ADDHTLC_OFFER)\<lparr>updsend := True\<rparr>\<rparr> # replicate 5 htlc_zero\<rparr>"

definition toy_up :: ln_self_t where
  "toy_up = toy_self\<lparr>cnl_add_htlc := [
     htlc_zero\<lparr>htlc_id := 7, amount_msat := 9000, flag := flag_committed LN_ADDHTLC_RECV\<rparr>,
     htlc_zero\<lparr>htlc_id := 8, amount_msat := 6000, payment_sha256 := replicate 32 4,
       flag := flag_committed LN_ADDHTLC_RECV\<rparr>] @ replicate 4 htlc_zero\<rparr>"

definition toy_fulfill :: ln_update_fulfill_htlc_t where
  "toy_fulfill = \<lparr>ful_channel_id = replicate 32 7, ful_id = 5, ful_preimage = replicate 32 4\<rparr>"

definition toy_fail :: ln_update_fail_htlc_t where
  "toy_fail = \<lparr>fail_channel_id = replicate 32 7, fail_id = 5, fail_reason = [1, 2, 3]\<rparr>"

lemmas toy_relay_defs = toy_down_def toy_up_def toy_fulfill_def toy_fail_def flag_committed_def flag_zero_def

lemma toy_relay_read:
  "ln_msg_update_fulfill_htlc_read (update_fulfill_htlc_wire toy_fulfill) = Inr toy_fulfill"
  "ln_msg_update_fail_htlc_read (update_fail_htlc_wire toy_fail) = Inr toy_fail"
  using update_fulfill_htlc.read_wire [of toy_fulfill "[]"] update_fail_htlc.read_wire [of toy_fail "[]"]
  by (simp_all add: update_fulfill_htlc_wf_def update_fail_htlc_wf_def toy_fulfill_def toy_fail_def)

lemma toy_relay_facts:
  "find_offered 5 toy_down = Some 0" "prev_idx (cnl_add_htlc toy_down ! 0) = 1" "channel_id toy_down = replicate 32 7"
  "payment_sha256 (cnl_add_htlc toy_down ! 0) = replicate 32 4" "sha256 toy_env (replicate 32 4) = replicate 32 4"
  by (simp_all add: find_offered_def toy_relay_defs toy_self_def toy_env_def toy_hash_def)

lemma toy_relay_accepted:
  "\<exists>down'. recv_update_fulfill_htlc toy_env (update_fulfill_htlc_wire toy_fulfill) toy_down = Inr (True, down')"
  "\<exists>down'. recv_update_fail_htlc (update_fail_htlc_wire toy_fail) toy_down = Inr (True, down')"
  using toy_relay_facts
  by (simp_all add: recv_update_fulfill_htlc_def recv_update_fail_htlc_def read_msg_def toy_relay_read chk_chan_def
      chk_channelid_def Let_def) (simp_all add: toy_fulfill_def toy_fail_def Let_def)

text \<open>
  C29: a preimage travels upstream. When the downstream channel accepts an \<open>update_fulfill_htlc\<close> for an
  HTLC that it offered, the application is told the preimage and the slot that the HTLC came from; put
  there, the upstream channel will send \<open>update_fulfill_htlc\<close> for it, with a preimage of its payment hash.
\<close>

theorem fulfill_relayed:
  assumes "recv_update_fulfill_htlc env d down = Inr (True, down')"
    and "ln_msg_update_fulfill_htlc_read d = Inr m" "find_offered (ful_id m) down = Some idx"
    and "sha256 env (ful_preimage m) = payment_sha256 (cnl_add_htlc down ! idx)"
    and "u = cnl_add_htlc up ! unat (prev_idx (cnl_add_htlc down ! idx))"
    and "unat (prev_idx (cnl_add_htlc down ! idx)) < length (cnl_add_htlc up)"
    and "addhtlc (flag u) = LN_ADDHTLC_RECV" "committed (flag u)" "\<not> updsend (flag u)" "\<not> updwait (flag u)"
    and "payment_sha256 u = payment_sha256 (cnl_add_htlc down ! idx)"
  shows "\<exists>e. events down' = events down @ [e] \<and>
    (let u' = cnl_add_htlc (cbsub_fulfill_backwind e up) ! unat (prev_idx (cnl_add_htlc down ! idx)) in
       LN_HTLC_WILL_DELHTLC (flag u') \<and> delhtlc (flag u') = LN_DELHTLC_FULFILL \<and>
       sha256 env (buf_payment_preimage u') = payment_sha256 u' \<and> htlc_id u' = htlc_id u)"
  using assms
  by (auto simp: recv_update_fulfill_htlc_def read_msg_def chk_chan_def Let_def cbsub_fulfill_backwind_def
      ln_fulfill_htlc_set_def slots_upd clear_htlc_comrevflag_def committed_def flag_defs split: if_splits)

theorem fulfill_relayed_witness:
  "\<exists>down' e. recv_update_fulfill_htlc toy_env (update_fulfill_htlc_wire toy_fulfill) toy_down = Inr (True, down') \<and>
     events down' = [e] \<and>
     LN_HTLC_WILL_DELHTLC (flag (cnl_add_htlc (cbsub_fulfill_backwind e toy_up) ! 1)) \<and>
     htlc_id (cnl_add_htlc (cbsub_fulfill_backwind e toy_up) ! 1) = 8"
proof -
  obtain down' where r: "recv_update_fulfill_htlc toy_env (update_fulfill_htlc_wire toy_fulfill) toy_down = Inr (True, down')"
    using toy_relay_accepted(1) by blast
  let ?u = "cnl_add_htlc toy_up ! unat (prev_idx (cnl_add_htlc toy_down ! 0))"
  have u: "addhtlc (flag ?u) = LN_ADDHTLC_RECV" "committed (flag ?u)" "\<not> updsend (flag ?u)" "\<not> updwait (flag ?u)"
    "payment_sha256 ?u = payment_sha256 (cnl_add_htlc toy_down ! 0)" "htlc_id ?u = 8"
    "unat (prev_idx (cnl_add_htlc toy_down ! 0)) < length (cnl_add_htlc toy_up)" "events toy_down = []"
    "find_offered (ful_id toy_fulfill) toy_down = Some 0"
    "sha256 toy_env (ful_preimage toy_fulfill) = payment_sha256 (cnl_add_htlc toy_down ! 0)"
    using toy_relay_facts
    by (simp_all add: committed_def) (simp_all add: toy_relay_defs toy_self_def)
  show ?thesis
    using fulfill_relayed [OF r toy_relay_read(1) u(9,10) refl u(7,1-5)] r u(6,8) toy_relay_facts(2)
    by (auto simp: Let_def)
qed

text \<open>
  C36: a failure does not. The slot that the application is told for \<open>update_fail_htlc\<close> is the one of the
  downstream channel: if the HTLC came in another slot, that slot of the upstream channel stays as it
  is, and a slot that has nothing to do with the HTLC is set to be failed.
\<close>

theorem fail_relayed_to_wrong_slot:
  assumes "recv_update_fail_htlc d down = Inr (True, down')"
    and "ln_msg_update_fail_htlc_read d = Inr m" "find_offered (fail_id m) down = Some idx"
    and "unat (prev_idx (cnl_add_htlc down ! idx)) \<noteq> idx" "idx < length (cnl_add_htlc up)"
  shows "\<exists>e. events down' = events down @ [e] \<and>
    (let up' = cbsub_fail_backwind env e up in
       cnl_add_htlc up' ! unat (prev_idx (cnl_add_htlc down ! idx)) =
         cnl_add_htlc up ! unat (prev_idx (cnl_add_htlc down ! idx)) \<and>
       delhtlc (flag (cnl_add_htlc up' ! idx)) = LN_DELHTLC_FAIL)"
  using assms
  by (auto simp: recv_update_fail_htlc_def read_msg_def chk_chan_def Let_def cbsub_fail_backwind_def
      ln_fail_htlc_set_def slots_upd split: if_splits)

theorem fail_relayed_to_wrong_slot_witness:
  "\<exists>down' e. recv_update_fail_htlc (update_fail_htlc_wire toy_fail) toy_down = Inr (True, down') \<and>
     events down' = [e] \<and> cnl_add_htlc (cbsub_fail_backwind toy_env e toy_up) ! 1 = cnl_add_htlc toy_up ! 1 \<and>
     delhtlc (flag (cnl_add_htlc (cbsub_fail_backwind toy_env e toy_up) ! 0)) = LN_DELHTLC_FAIL"
proof -
  obtain down' where r: "recv_update_fail_htlc (update_fail_htlc_wire toy_fail) toy_down = Inr (True, down')"
    using toy_relay_accepted(2) by blast
  have "find_offered (fail_id toy_fail) toy_down = Some 0" "0 < length (cnl_add_htlc toy_up)"
    "unat (prev_idx (cnl_add_htlc toy_down ! 0)) \<noteq> 0" "events toy_down = []"
    using toy_relay_facts by simp_all (simp_all add: toy_relay_defs toy_self_def)
  from fail_relayed_to_wrong_slot [OF r toy_relay_read(2) this(1,3,2), of toy_env] r this(4) toy_relay_facts(2)
  show ?thesis by (auto simp: Let_def)
qed

end
