(* ===== verification/Channel_Errors.thy ===== *)
theory Channel_Errors
  imports Channel_Flow
begin

text \<open>
  Where the handlers of a channel fall short of what their comments and the protocol ask for: the
  secret of a revocation is not compared with the point it must belong to, and the proof of a lost
  state in \<open>channel_reestablish\<close> is compared with the wrong secret.
\<close>

section \<open>The secret of a revocation\<close>

lemma recv_revoke_cases:
  assumes "revoke_and_ack_wf m" "ra_channel_id m = take LN_SZ_CHANNEL_ID (channel_id self)"
    and "priv2pub env (per_commit_secret m) = Some P"
  defines "I \<equiv> peer_storage_index self"
  shows "if insert_check (sha256 env) (peer_storage self) (per_commit_secret m)
        (where_to_put_secret I) (where_to_put_secret I) 0
    then \<exists>self'. recv_revoke_and_ack env (revoke_and_ack_wire m) self = Inr (True, self') \<and>
      peer_storage self' = (peer_storage self)[where_to_put_secret I := \<lparr>secret = per_commit_secret m, index = I\<rparr>] \<and>
      cnl_add_htlc self' = cnl_add_htlc (mark_htlcs in_remote_commit set_revrecv self)
    else recv_revoke_and_ack env (revoke_and_ack_wire m) self = Inl Assert_Failed"
proof -
  have read: "ln_msg_revoke_and_ack_read (revoke_and_ack_wire m) = Inr m"
    using revoke_and_ack.read_wire [OF assms(1), of "[]"] by simp
  have chan: "chk_channelid (ra_channel_id m) (channel_id self)"
    by (simp add: chk_channelid_def assms(2))
  show ?thesis
    by (simp add: recv_revoke_and_ack_def read_msg_def read chk_chan_def chan assms(3) I_def Let_def
        store_peer_percommit_secret_def ln_derkey_storage_insert_secret_def assert_c_def mark_htlcs_def)
qed

text \<open>
  C38: the secret in \<open>revoke_and_ack\<close> is not compared with the point of the revoked commitment. For
  every odd index, that is for every second revocation, any valid private key is accepted, takes the
  place of the secret, and all HTLCs count as revoked by the peer. For the other indices a secret
  that does not agree with the stored ones runs into an assertion.
\<close>

theorem revocation_secret_unchecked:
  assumes "revoke_and_ack_wf m" "ra_channel_id m = take LN_SZ_CHANNEL_ID (channel_id self)"
    and "priv2pub env (per_commit_secret m) = Some P" "length (peer_storage self) = 49"
  defines "I \<equiv> peer_storage_index self"
  shows "(odd (unat I) \<longrightarrow>
      (\<exists>self'. recv_revoke_and_ack env (revoke_and_ack_wire m) self = Inr (True, self') \<and>
         peer_storage self' ! 0 = \<lparr>secret = per_commit_secret m, index = I\<rparr> \<and>
         cnl_add_htlc self' = cnl_add_htlc (mark_htlcs in_remote_commit set_revrecv self))) \<and>
    (\<not> insert_check (sha256 env) (peer_storage self) (per_commit_secret m)
        (where_to_put_secret I) (where_to_put_secret I) 0 \<longrightarrow>
      recv_revoke_and_ack env (revoke_and_ack_wire m) self = Inl Assert_Failed)"
proof -
  have "where_to_put_secret I = 0" if "odd (unat I)"
  proof -
    have b: "bit I 0" using that bit_unat [of I 0] by (simp add: bit_0)
    moreover have "bit (I AND 0xffffffffffff) 0" using b by (simp add: bit_and_iff)
    then have "I AND 0xffffffffffff \<noteq> 0" by auto
    ultimately show ?thesis
      using where_loop_spec [of 0 48 I] by (force simp: where_to_put_secret_def)
  qed
  then show ?thesis
    using recv_revoke_cases [OF assms(1-3)] assms(4) unfolding I_def [symmetric] by auto
qed

theorem revocation_secret_unchecked_witness:
  "\<exists>self'. recv_revoke_and_ack toy_env (revoke_and_ack_wire \<lparr>ra_channel_id = replicate 32 7,
       per_commit_secret = replicate 32 77, per_commitpt = replicate 33 2\<rparr>) toy_self2 = Inr (True, self') \<and>
     secret (peer_storage self' ! 0) = replicate 32 77"
proof -
  let ?m = "\<lparr>ra_channel_id = replicate 32 7, per_commit_secret = replicate 32 77, per_commitpt = replicate 33 2\<rparr>"
  have "revoke_and_ack_wf ?m" by (simp add: revoke_and_ack_wf_def)
  moreover have "ra_channel_id ?m = take LN_SZ_CHANNEL_ID (channel_id toy_self2)"
    "priv2pub toy_env (per_commit_secret ?m) = Some (0 # replicate 32 77)"
    "length (peer_storage toy_self2) = 49" "peer_storage_index toy_self2 = LN_SECINDEX_INIT"
    by (simp_all add: toy_self2_def toy_self_def toy_env_def ln_derkey_storage_init_def)
  moreover have "odd (unat LN_SECINDEX_INIT)" by (simp add: LN_SECINDEX_INIT_def)
  ultimately show ?thesis
    using revocation_secret_unchecked [of ?m toy_self2 toy_env "0 # replicate 32 77"] by auto
qed

section \<open>The proof of a lost state\<close>

text \<open>
  C39: a peer that proves that this node has lost its state is not believed. With the numbers of a
  running channel, a peer that knows of a commitment \<open>R\<close> beyond the own one and shows the secret of
  commitment \<open>R - 1\<close>, as the protocol asks, is rejected, unless that secret equals the one of commitment
  \<open>commit_num - 2\<close>: the code compares with the latter, which the peer has known for long.
\<close>

theorem data_loss_proof_rejected:
  assumes "ln_msg_channel_reestablish_read base d = Inr reest" "chk_channelid (re_channel_id reest) (channel_id self)"
    and "lfeature_local self AND LN_INIT_LF_OPT_DATALOSS \<noteq> 0" "option_data_loss_protect reest"
    and "numbers_ok self" "storage_index self + commit_num (commit_local self) = LN_SECINDEX_INIT - 2"
    and "next_remote_revocation_number reest > commit_num (commit_local self)" "0 < commit_num (commit_local self)"
    and "secret_at = (\<lambda>n. ln_derkey_create_secret (sha256 env) (storage_seed self) (LN_SECINDEX_INIT - n))"
  shows "(your_last_per_commitment_secret reest = secret_at (next_remote_revocation_number reest - 1) \<and>
      secret_at (next_remote_revocation_number reest - 1) \<noteq> secret_at (commit_num (commit_local self) - 2) \<longrightarrow>
      (\<exists>self'. recv_channel_reestablish env base d self = Inr (False, self'))) \<and>
    (your_last_per_commitment_secret reest = secret_at (commit_num (commit_local self) - 2) \<longrightarrow>
      (\<exists>self'. recv_channel_reestablish env base d self = Inr (True, self')))"
proof -
  let ?n = "commit_num (commit_local self)" and ?R = "next_remote_revocation_number reest"
  have idx: "storage_index self + 4 = LN_SECINDEX_INIT - (?n - 2)"
    using assms(6) by (simp add: algebra_simps)
  have "revoke_num (commit_local self) + 1 = ?n" using assms(5) by (simp add: numbers_ok_def)
  moreover have "revoke_num (commit_local self) = ?n - 1" using assms(5) by (simp add: numbers_ok_def)
  then have "revoke_num (commit_local self) < ?n" using assms(8) unat_minus_one [of ?n] unat_gt_0 [of ?n]
    by (simp add: word_less_nat_alt)
  then have "revoke_num (commit_local self) \<noteq> ?R" using assms(7) by auto
  ultimately have "\<not> (revoke_num (commit_local self) + 1 = ?R \<or> revoke_num (commit_local self) = ?R)"
    using assms(7) by auto
  then show ?thesis
    using assms(1-4,7) unfolding assms(9)
    by (simp add: recv_channel_reestablish_def read_msg_def chk_chan_def Let_def idx)
qed

definition toy_lost :: ln_self_t where
  \<comment> \<open>three commitments accepted\<close>
  "toy_lost = toy_self\<lparr>commit_local := toy_commit\<lparr>commit_num := 3, revoke_num := 2\<rparr>,
     storage_index := LN_SECINDEX_INIT - 5\<rparr>"

definition toy_secret :: "u64 \<Rightarrow> bytes" where
  "toy_secret n = ln_derkey_create_secret toy_hash (replicate 32 1) (LN_SECINDEX_INIT - n)"

definition toy_reest :: "bytes \<Rightarrow> ln_channel_reestablish_t" where
  \<comment> \<open>the peer has received five revocations\<close>
  "toy_reest s = \<lparr>re_channel_id = replicate 32 7, next_local_commitment_number = 1,
     next_remote_revocation_number = 5, option_data_loss_protect = True,
     your_last_per_commitment_secret = s, my_current_per_commitment_point = replicate 33 2\<rparr>"

lemma toy_secrets_differ: "toy_secret 4 \<noteq> toy_secret 1"
  by code_simp

lemma toy_secret_length: "length (toy_secret n) = 32"
  using length_create_secret [OF toy_wf] by (simp add: toy_secret_def toy_env_def toy_self2_def toy_self_def)

theorem data_loss_proof_rejected_witness:
  "\<exists>self'. recv_channel_reestablish toy_env (toy_reest []) (channel_reestablish_wire (toy_reest (toy_secret 4))) toy_lost =
     Inr (False, self')"
proof -
  have "channel_reestablish_wf (toy_reest (toy_secret 4))"
    by (simp add: channel_reestablish_wf_def toy_reest_def toy_secret_length)
  then have read: "ln_msg_channel_reestablish_read (toy_reest []) (channel_reestablish_wire (toy_reest (toy_secret 4))) =
      Inr (toy_reest (toy_secret 4))"
    using channel_reestablish.read_wire [of _ "toy_reest []" "[]"] by simp
  have s: "toy_secret = (\<lambda>n. ln_derkey_create_secret (sha256 toy_env) (storage_seed toy_lost) (LN_SECINDEX_INIT - n))"
    by (simp add: fun_eq_iff toy_secret_def toy_env_def toy_lost_def toy_self_def)
  have n: "commit_num (commit_local toy_lost) = 3" "numbers_ok toy_lost"
    "storage_index toy_lost + commit_num (commit_local toy_lost) = LN_SECINDEX_INIT - 2"
    "lfeature_local toy_lost AND LN_INIT_LF_OPT_DATALOSS \<noteq> 0"
    "chk_channelid (re_channel_id (toy_reest (toy_secret 4))) (channel_id toy_lost)"
    "option_data_loss_protect (toy_reest (toy_secret 4))"
    "next_remote_revocation_number (toy_reest (toy_secret 4)) = 5"
    "your_last_per_commitment_secret (toy_reest (toy_secret 4)) = toy_secret 4"
    by (simp_all add: toy_lost_def toy_self_def toy_commit_def toy_reest_def numbers_ok_def LN_SECINDEX_INIT_def
        LN_INIT_LF_OPT_DATALOSS_def chk_channelid_def)
  show ?thesis
    using data_loss_proof_rejected [OF read n(5,4,6,2,3) _ _ s] n toy_secrets_differ by simp
qed

end
