(* ===== verification/Channel_Close.thy ===== *)
theory Channel_Close
  imports Channel_Flow
begin

text \<open>
  The mutual close of a channel: \<^verbatim>\<open>ln_shutdown_create\<close>, \<^verbatim>\<open>recv_shutdown\<close>, \<^verbatim>\<open>recv_closing_signed\<close> and
  \<^verbatim>\<open>create_closing_tx\<close> of \<^verbatim>\<open>ln/ln.c\<close>, with the callbacks by which the daemon (\<^verbatim>\<open>ptarmd/lnapp.c\<close>) takes part
  in the negotiation of the fee. \<open>bc\<close> is bitcoind: whether it accepts a transaction with the own and the
  remote signature.
\<close>

section \<open>The closing transaction\<close>

definition BTC_DUST_LIMIT :: u64 where "BTC_DUST_LIMIT = 546"

text \<open>Both outputs, before they are sorted; the funder pays the fee.\<close>

definition closing_vouts :: "u64 \<Rightarrow> ln_self_t \<Rightarrow> btc_vout_t list" where
  "closing_vouts FeeSat self =
     (let fee_local = (if is_funder self then FeeSat else 0);
          fee_remote = (if is_funder self then 0 else FeeSat) in
      (if LN_MSAT2SATOSHI (our_msat self) > fee_local + BTC_DUST_LIMIT
       then [\<lparr>vout_value = LN_MSAT2SATOSHI (our_msat self) - fee_local,
         vout_script = shutdown_scriptpk_local self, vout_opt = 0\<rparr>] else []) @
      (if LN_MSAT2SATOSHI (their_msat self) > fee_remote + BTC_DUST_LIMIT
       then [\<lparr>vout_value = LN_MSAT2SATOSHI (their_msat self) - fee_remote,
         vout_script = shutdown_scriptpk_remote self, vout_opt = 0\<rparr>] else []))"

definition closing_tx :: "u64 \<Rightarrow> ln_self_t \<Rightarrow> btc_tx_t" where
  "closing_tx FeeSat self =
     \<lparr>vin_txid = funding_txid self, vin_index = ucast (funding_txindex self), vin_sequence = 0xffffffff,
      tx_vout = btc_util_sort_bip69 (closing_vouts FeeSat self), tx_locktime = 0\<rparr>"

text \<open>
  The own signature goes to \<open>commit_remote.signature\<close>, the one of the peer is in
  \<open>commit_local.signature\<close>.
\<close>

definition create_closing_tx :: "'p ln_env \<Rightarrow> u64 \<Rightarrow> bool \<Rightarrow> ln_self_t \<Rightarrow> (bool \<times> ln_self_t) c_result" where
  "create_closing_tx env FeeSat bVerify self =
     (if shutdown_scriptpk_local self = [] \<or> shutdown_scriptpk_remote self = [] then Inr (False, self)
      else
        let tx = closing_tx FeeSat self in
        case tx_sign env tx (funding_sat self) (redeem_fund self) of
          None \<Rightarrow> Inr (False, self)
        | Some sig \<Rightarrow>
            try_c (ln_misc_sigtrim sig) (\<lambda>s.
            let self = (case s of
                Some rs \<Rightarrow> self\<lparr>commit_remote := (commit_remote self)\<lparr>cd_signature := rs\<rparr>\<rparr>
              | None \<Rightarrow> self) in
            if bVerify then
              with_bytes (ln_misc_sigexpand (cd_signature (commit_local self))) (\<lambda>remote_sig.
              Inr (tx_verify_2of2 env tx (funding_sat self) (redeem_fund self) sig remote_sig, self))
            else Inr (True, self)))"

section \<open>shutdown\<close>

definition ln_shutdown_update_fee :: "u64 \<Rightarrow> ln_self_t \<Rightarrow> ln_self_t" where
  "ln_shutdown_update_fee Fee self =
     (let feemax = ln_closing_signed_initfee self in
      self\<lparr>close_fee_sat := (if Fee > feemax then feemax else Fee)\<rparr>)"

definition cb_shutdown_recv :: "ln_self_t \<Rightarrow> ln_self_t" where
  "cb_shutdown_recv self = ln_shutdown_update_fee (ln_closing_signed_initfee self) self"

definition cb_closed_fee :: "u64 \<Rightarrow> ln_self_t \<Rightarrow> ln_self_t" where
  "cb_closed_fee fee self = ln_shutdown_update_fee fee self"

definition ln_shutdown_create :: "ln_self_t \<Rightarrow> (bytes \<times> ln_self_t) c_result" where
  "ln_shutdown_create self =
     with_bytes (ln_msg_shutdown_create
       \<lparr>sd_channel_id = channel_id self, sd_scriptpk = shutdown_scriptpk_local self\<rparr>) (\<lambda>b.
     Inr (b, callback DB_SELF_SAVE (self\<lparr>shutdown_flag := shutdown_flag self OR LN_SHDN_FLAG_SEND\<rparr>)))"

text \<open>The request of the user (\<^verbatim>\<open>lnapp_close_channel\<close>); \<open>ln_status_is_closing\<close> is \<open>status > NORMAL\<close>.\<close>

definition ln_status_is_closing :: "ln_self_t \<Rightarrow> bool" where
  "ln_status_is_closing self \<longleftrightarrow>
     ch_status self \<notin> {LN_STATUS_NONE, LN_STATUS_ESTABLISH, LN_STATUS_NORMAL}"

definition lnapp_close_channel :: "ln_self_t \<Rightarrow> handler_result" where
  "lnapp_close_channel self =
     (if ln_status_is_closing self then Inr (False, self)
      else
        let self = cb_shutdown_recv self in
        try_c (ln_shutdown_create self) (\<lambda>r. case r of
          Some (b, self) \<Rightarrow> Inr (True, callback (CB_SEND_REQ (Some b)) self)
        | None \<Rightarrow> Inr (False, self)))"

definition M_SHDN_FLAG_EXCHANGED :: "byte \<Rightarrow> bool" where
  "M_SHDN_FLAG_EXCHANGED f \<longleftrightarrow>
     f AND (LN_SHDN_FLAG_SEND OR LN_SHDN_FLAG_RECV) = LN_SHDN_FLAG_SEND OR LN_SHDN_FLAG_RECV"

definition shutdown_reply :: "ln_self_t \<Rightarrow> handler_result" where
  \<comment> \<open>the branch for a node that has not sent its own message\<close>
  "shutdown_reply self =
     (if shutdown_flag self AND LN_SHDN_FLAG_SEND = 0 then
        let self = cb_shutdown_recv (callback CB_SHUTDOWN_RECV self) in
        try_c (ln_shutdown_create self) (\<lambda>r. case r of
          Some (b, self) \<Rightarrow> Inr (True, callback (CB_SEND_REQ (Some b)) self)
        | None \<Rightarrow> Inr (False, set_err LNERR_CREATE_MSG self))
      else Inr (True, self))"

definition closing_first :: "'p ln_env \<Rightarrow> ln_self_t \<Rightarrow> handler_result" where
  \<comment> \<open>the first \<open>closing_signed\<close>, sent by the funder\<close>
  "closing_first env self =
     bind_c (create_closing_tx env (close_fee_sat self) False self) (\<lambda>(ret, self).
     if \<not> ret then Inr (False, self)
     else
       try_c (with_bytes (ln_msg_closing_signed_create \<lparr>clo_channel_id = channel_id self,
           clo_fee_sat = close_fee_sat self, clo_signature = cd_signature (commit_remote self)\<rparr>) Inr) (\<lambda>b.
       case b of
         Some buf_bolt \<Rightarrow> Inr (True, callback DB_SELF_SAVE (callback (CB_SEND_REQ (Some buf_bolt))
           (self\<lparr>close_last_fee_sat := close_fee_sat self\<rparr>)))
       | None \<Rightarrow> Inr (False, self)))"

definition recv_shutdown :: "'p ln_env \<Rightarrow> bytes \<Rightarrow> ln_self_t \<Rightarrow> handler_result" where
  "recv_shutdown env pData self =
     (if shutdown_flag self AND LN_SHDN_FLAG_RECV \<noteq> 0 then Inr (False, self)
      else
        read_msg (ln_msg_shutdown_read pData) self (\<lambda>m.
        let self = self\<lparr>shutdown_scriptpk_remote := sd_scriptpk m\<rparr> in
        chk_chan (sd_channel_id m) self (
        if \<not> ln_script_scriptpkh_check (sd_scriptpk m) then Inr (False, set_err LNERR_INV_PRIVKEY self)
        else
          let self = (callback DB_SELF_SAVE
                (self\<lparr>shutdown_flag := shutdown_flag self OR LN_SHDN_FLAG_RECV\<rparr>))\<lparr>close_last_fee_sat := 0\<rparr> in
          bind_c (shutdown_reply self) (\<lambda>(ret, self).
          let exchanged = M_SHDN_FLAG_EXCHANGED (shutdown_flag self);
              self = (if exchanged then callback DB_SELF_SAVE (self\<lparr>ch_status := LN_STATUS_CLOSE_WAIT\<rparr>)
                else self) in
          if exchanged \<and> is_funder self then closing_first env self else Inr (ret, self)))))"

section \<open>closing_signed\<close>

definition cb_closed ::
  "(btc_tx_t \<Rightarrow> bytes \<Rightarrow> bytes \<Rightarrow> bool) \<Rightarrow> btc_tx_t \<Rightarrow> bytes \<Rightarrow> bytes \<Rightarrow> ln_self_t \<Rightarrow> handler_result" where
  \<comment> \<open>the daemon broadcasts; a refused transaction is an \<open>assert(0)\<close>\<close>
  "cb_closed bc tx own remote self =
     (if bc tx own remote then Inr (True, callback (CB_CLOSED tx own remote) self) else Inl Assert_Failed)"

definition closing_publish ::
  "(btc_tx_t \<Rightarrow> bytes \<Rightarrow> bytes \<Rightarrow> bool) \<Rightarrow> ln_self_t \<Rightarrow> handler_result" where
  "closing_publish bc self =
     bind_c (cb_closed bc (closing_tx (close_fee_sat self) self) (cd_signature (commit_remote self))
       (cd_signature (commit_local self)) self) (\<lambda>(result, self).
     Inr (True, if result then self\<lparr>ch_status := LN_STATUS_CLOSE_SPENT\<rparr> else self))"

definition closing_answer :: "u64 \<Rightarrow> ln_self_t \<Rightarrow> handler_result" where
  \<comment> \<open>\<open>fee_sat\<close> of the message is the one that was received\<close>
  "closing_answer fee self =
     try_c (with_bytes (ln_msg_closing_signed_create \<lparr>clo_channel_id = channel_id self,
         clo_fee_sat = fee, clo_signature = cd_signature (commit_remote self)\<rparr>) Inr) (\<lambda>b.
     case b of
       Some buf_bolt \<Rightarrow>
         Inr (True, callback (CB_SEND_REQ (Some buf_bolt)) (self\<lparr>close_last_fee_sat := close_fee_sat self\<rparr>))
     | None \<Rightarrow> Inl Assert_Failed)"

definition recv_closing_signed ::
  "'p ln_env \<Rightarrow> (btc_tx_t \<Rightarrow> bytes \<Rightarrow> bytes \<Rightarrow> bool) \<Rightarrow> bytes \<Rightarrow> ln_self_t \<Rightarrow> handler_result" where
  "recv_closing_signed env bc pData self =
     (if \<not> M_SHDN_FLAG_EXCHANGED (shutdown_flag self) then Inr (False, set_err LNERR_INV_STATE self)
      else
        read_msg (ln_msg_closing_signed_read pData) self (\<lambda>m.
        let self = self\<lparr>commit_local := (commit_local self)\<lparr>cd_signature := clo_signature m\<rparr>\<rparr> in
        chk_chan (clo_channel_id m) self (
        if clo_fee_sat m > ln_closing_signed_initfee self then Inr (False, self)
        else
          bind_c (create_closing_tx env (clo_fee_sat m) True self) (\<lambda>(ret, self).
          if \<not> ret then Inl Assert_Failed
          else
            let need_closetx = (close_last_fee_sat self = clo_fee_sat m);
                self = (if need_closetx then self
                  else cb_closed_fee (clo_fee_sat m) (callback (CB_CLOSED_FEE (clo_fee_sat m)) self)) in
            bind_c (create_closing_tx env (close_fee_sat self) need_closetx self) (\<lambda>(ret, self).
            if \<not> ret then Inr (False, self)
            else
              bind_c (if need_closetx then closing_publish bc self else closing_answer (clo_fee_sat m) self)
                (\<lambda>(ret, self). Inr (ret, callback DB_SELF_SAVE self)))))))"

section \<open>Both sides build the same transaction\<close>

lemma scriptpkh_check_length:
  "ln_script_scriptpkh_check p \<Longrightarrow> p \<noteq> [] \<and> length p < 2 ^ 16 \<and> 2 \<le> length p \<and>
     length p = (if p ! 0 = 0 then (if p ! 1 = 20 then 22 else 34) else if p ! 0 = 0xa9 then 23 else 25)"
  by (auto simp: ln_script_scriptpkh_check_def split: if_splits)

lemma scriptpkh_check_prefix:
  assumes "ln_script_scriptpkh_check s" "ln_script_scriptpkh_check t" "t = s @ zs"
  shows "zs = []"
proof -
  note s = scriptpkh_check_length [OF assms(1)] and t = scriptpkh_check_length [OF assms(2)]
  have "t ! 0 = s ! 0" "t ! 1 = s ! 1" using s assms(3) by (simp_all add: nth_append)
  then have "length t = length s" using s t by presburger
  then show ?thesis using assms(3) by simp
qed

text \<open>What the two sides of a channel agree on once \<open>shutdown\<close> has been exchanged.\<close>

definition closing_mirror :: "ln_self_t \<Rightarrow> ln_self_t \<Rightarrow> bool" where
  "closing_mirror a b \<longleftrightarrow>
     channel_id a = channel_id b \<and> funding_txid a = funding_txid b \<and> funding_txindex a = funding_txindex b \<and>
     funding_sat a = funding_sat b \<and> redeem_fund a = redeem_fund b \<and> feerate_per_kw a = feerate_per_kw b \<and>
     is_funder a \<noteq> is_funder b \<and> our_msat a = their_msat b \<and> their_msat a = our_msat b"

definition scripts_exchanged :: "ln_self_t \<Rightarrow> ln_self_t \<Rightarrow> bool" where
  "scripts_exchanged a b \<longleftrightarrow>
     shutdown_scriptpk_local a = shutdown_scriptpk_remote b \<and> shutdown_scriptpk_remote a = shutdown_scriptpk_local b \<and>
     ln_script_scriptpkh_check (shutdown_scriptpk_local a) \<and> ln_script_scriptpkh_check (shutdown_scriptpk_remote a)"

lemma closing_vouts_opt: "v \<in> set (closing_vouts fee self) \<Longrightarrow> vout_opt v = 0"
  by (auto simp: closing_vouts_def Let_def split: if_splits)

lemma vouts_eqI:
  assumes "map vout_key xs = map vout_key ys" "\<forall>v\<in>set xs. vout_opt v = 0" "\<forall>v\<in>set ys. vout_opt v = 0"
  shows "xs = ys"
  using assms
proof (induction xs ys rule: list_induct2')
  case (4 x xs y ys)
  then show ?case by (cases x; cases y) (simp add: vout_key_def)
qed simp_all

lemma closing_tx_mirror:
  assumes "closing_mirror a b" "scripts_exchanged a b"
  shows "closing_tx fee a = closing_tx fee b"
proof -
  let ?a = "closing_vouts fee a" and ?b = "closing_vouts fee b"
  have "prefix_free (set ?a)"
    using assms(2) scriptpkh_check_prefix unfolding prefix_free_def scripts_exchanged_def closing_vouts_def Let_def
    by (auto split: if_splits)
  moreover have "mset (map vout_key ?a) = mset (map vout_key ?b)"
    using assms by (auto simp: closing_vouts_def closing_mirror_def scripts_exchanged_def Let_def)
  ultimately have "map vout_key (btc_util_sort_bip69 ?a) = map vout_key (btc_util_sort_bip69 ?b)"
    using bip69_canonical by blast
  moreover have "set (btc_util_sort_bip69 x) = set x" for x
    using bip69_mset [of x] by (metis set_mset_mset)
  ultimately have "btc_util_sort_bip69 ?a = btc_util_sort_bip69 ?b"
    using closing_vouts_opt by (intro vouts_eqI) auto
  then show ?thesis using assms(1) by (simp add: closing_tx_def closing_mirror_def)
qed

section \<open>The steps of an undisturbed close\<close>

lemma create_closing_tx_eq:
  assumes "wf_self self" "shutdown_scriptpk_local self \<noteq> []" "shutdown_scriptpk_remote self \<noteq> []"
    and "tx_sign env (closing_tx fee self) (funding_sat self) (redeem_fund self) = Some (der_sig rs)"
    and "length rs = LN_SZ_SIGNATURE"
  shows "create_closing_tx env fee v self =
    Inr (v \<longrightarrow> tx_verify_2of2 env (closing_tx fee self) (funding_sat self) (redeem_fund self) (der_sig rs)
        (der_sig (cd_signature (commit_local self))),
      self\<lparr>commit_remote := (commit_remote self)\<lparr>cd_signature := rs\<rparr>\<rparr>)"
  using assms wf_cd_signature [OF assms(1)]
  by (simp add: create_closing_tx_def Let_def ln_misc_sigtrim_der_sig ln_misc_sigexpand_eq)

definition shutdown_of :: "ln_self_t \<Rightarrow> bytes" where
  "shutdown_of self = shutdown_wire \<lparr>sd_channel_id = channel_id self, sd_scriptpk = shutdown_scriptpk_local self\<rparr>"

definition closing_signed_of :: "u64 \<Rightarrow> bytes \<Rightarrow> ln_self_t \<Rightarrow> bytes" where
  "closing_signed_of fee rs self =
     closing_signed_wire \<lparr>clo_channel_id = channel_id self, clo_fee_sat = fee, clo_signature = rs\<rparr>"

lemma ln_shutdown_create_eq:
  assumes "length (channel_id self) = LN_SZ_CHANNEL_ID" "ln_script_scriptpkh_check (shutdown_scriptpk_local self)"
  shows "ln_shutdown_create self =
    Inr (shutdown_of self, callback DB_SELF_SAVE (self\<lparr>shutdown_flag := shutdown_flag self OR LN_SHDN_FLAG_SEND\<rparr>))"
  using shutdown.create_wire [of "\<lparr>sd_channel_id = channel_id self, sd_scriptpk = shutdown_scriptpk_local self\<rparr>"]
    scriptpkh_check_length [OF assms(2)] assms(1)
  by (simp add: ln_shutdown_create_def shutdown_of_def shutdown_wf_def)

lemma read_shutdown_of:
  assumes "length (channel_id self) = LN_SZ_CHANNEL_ID" "ln_script_scriptpkh_check (shutdown_scriptpk_local self)"
  shows "ln_msg_shutdown_read (shutdown_of self) =
    Inr \<lparr>sd_channel_id = channel_id self, sd_scriptpk = shutdown_scriptpk_local self\<rparr>"
  using shutdown.read_wire [of "\<lparr>sd_channel_id = channel_id self, sd_scriptpk = shutdown_scriptpk_local self\<rparr>" "[]"]
    scriptpkh_check_length [OF assms(2)] assms(1)
  by (simp add: shutdown_of_def shutdown_wf_def)

lemma closing_signed_of_eq:
  assumes "length (channel_id self) = LN_SZ_CHANNEL_ID" "length rs = LN_SZ_SIGNATURE"
  shows "ln_msg_closing_signed_create \<lparr>clo_channel_id = channel_id self, clo_fee_sat = fee, clo_signature = rs\<rparr> =
      Inr (buf_of (closing_signed_of fee rs self))"
    "ln_msg_closing_signed_read (closing_signed_of fee rs self) =
      Inr \<lparr>clo_channel_id = channel_id self, clo_fee_sat = fee, clo_signature = rs\<rparr>"
  using closing_signed.create_wire [of "\<lparr>clo_channel_id = channel_id self, clo_fee_sat = fee, clo_signature = rs\<rparr>"]
    closing_signed.read_wire [of "\<lparr>clo_channel_id = channel_id self, clo_fee_sat = fee, clo_signature = rs\<rparr>" "[]"] assms
  by (simp_all add: closing_signed_of_def closing_signed_wf_def)

lemmas shdn_defs = LN_SHDN_FLAG_SEND_def LN_SHDN_FLAG_RECV_def M_SHDN_FLAG_EXCHANGED_def

text \<open>The messages that a node has asked to be sent, and what the close leaves alone.\<close>

definition sent :: "ln_self_t \<Rightarrow> bytes list" where
  "sent self = concat (map (\<lambda>e. case e of CB_SEND_REQ (Some b) \<Rightarrow> [b] | _ \<Rightarrow> []) (events self))"

lemma sent_simps [simp]:
  "sent (callback e self) = sent self @ (case e of CB_SEND_REQ (Some b) \<Rightarrow> [b] | _ \<Rightarrow> [])"
  "sent (self\<lparr>shutdown_flag := a\<rparr>) = sent self" "sent (self\<lparr>ch_status := st\<rparr>) = sent self"
  "sent (self\<lparr>close_fee_sat := x\<rparr>) = sent self" "sent (self\<lparr>close_last_fee_sat := x\<rparr>) = sent self"
  "sent (self\<lparr>shutdown_scriptpk_remote := b\<rparr>) = sent self"
  "sent (self\<lparr>commit_local := cd\<rparr>) = sent self" "sent (self\<lparr>commit_remote := cd\<rparr>) = sent self"
  by (simp_all add: sent_def callback_def)

lemma callback_close [simp]:
  "shutdown_flag (callback e s) = shutdown_flag s" "close_fee_sat (callback e s) = close_fee_sat s"
  "close_last_fee_sat (callback e s) = close_last_fee_sat s" "is_funder (callback e s) = is_funder s"
  "shutdown_scriptpk_local (callback e s) = shutdown_scriptpk_local s"
  "shutdown_scriptpk_remote (callback e s) = shutdown_scriptpk_remote s"
  "funding_sat (callback e s) = funding_sat s" "redeem_fund (callback e s) = redeem_fund s"
  "funding_txid (callback e s) = funding_txid s" "funding_txindex (callback e s) = funding_txindex s"
  "feerate_per_kw (callback e s) = feerate_per_kw s"
  "ch_status (callback e s) = ch_status s" "closing_tx fee (callback e s) = closing_tx fee s"
  "ln_closing_signed_initfee (callback e s) = ln_closing_signed_initfee s"
  by (simp_all add: callback_def closing_tx_def closing_vouts_def ln_closing_signed_initfee_def)

lemma closing_tx_simps [simp]:
  "closing_tx fee (s\<lparr>commit_local := cd\<rparr>) = closing_tx fee s" "closing_tx fee (s\<lparr>commit_remote := cd\<rparr>) = closing_tx fee s"
  "closing_tx fee (s\<lparr>close_fee_sat := x\<rparr>) = closing_tx fee s" "closing_tx fee (s\<lparr>close_last_fee_sat := x\<rparr>) = closing_tx fee s"
  "closing_tx fee (s\<lparr>ch_status := st\<rparr>) = closing_tx fee s" "closing_tx fee (s\<lparr>cnl_add_htlc := hs\<rparr>) = closing_tx fee s"
  by (simp_all add: closing_tx_def closing_vouts_def)

definition close_frame :: "ln_self_t \<Rightarrow> ln_self_t \<Rightarrow> bool" where
  "close_frame a b \<longleftrightarrow>
     channel_id a = channel_id b \<and> funding_txid a = funding_txid b \<and> funding_txindex a = funding_txindex b \<and>
     funding_sat a = funding_sat b \<and> redeem_fund a = redeem_fund b \<and> feerate_per_kw a = feerate_per_kw b \<and>
     is_funder a = is_funder b \<and> our_msat a = our_msat b \<and> their_msat a = their_msat b \<and>
     shutdown_scriptpk_local a = shutdown_scriptpk_local b \<and> (wf_self a \<longrightarrow> wf_self b)"

lemma wf_close_simps:
  "wf_self (s\<lparr>close_last_fee_sat := x\<rparr>) = wf_self s" "wf_self (s\<lparr>close_fee_sat := x\<rparr>) = wf_self s"
  "wf_self (s\<lparr>ch_status := st\<rparr>) = wf_self s" "wf_self (s\<lparr>shutdown_flag := f\<rparr>) = wf_self s"
  "wf_self (s\<lparr>shutdown_scriptpk_remote := p\<rparr>) = wf_self s"
  by (simp_all add: wf_self_def)

lemma close_frame_simps [simp]:
  "close_frame a (callback e s) = close_frame a s" "close_frame a (s\<lparr>close_last_fee_sat := x\<rparr>) = close_frame a s"
  "close_frame a (s\<lparr>close_fee_sat := x\<rparr>) = close_frame a s" "close_frame a (s\<lparr>ch_status := st\<rparr>) = close_frame a s"
  "close_frame a (s\<lparr>shutdown_flag := f\<rparr>) = close_frame a s" "close_frame a (s\<lparr>shutdown_scriptpk_remote := p\<rparr>) = close_frame a s"
  by (simp_all add: close_frame_def wf_close_simps)

lemma close_frame_sig:
  assumes "close_frame a s" "length rs = LN_SZ_SIGNATURE"
  shows "close_frame a (s\<lparr>commit_remote := (commit_remote s)\<lparr>cd_signature := rs\<rparr>\<rparr>)"
    "close_frame a (s\<lparr>commit_local := (commit_local s)\<lparr>cd_signature := rs\<rparr>\<rparr>)"
proof -
  have "wf_self s \<Longrightarrow> wf_self (s\<lparr>commit_remote := (commit_remote s)\<lparr>cd_signature := rs\<rparr>\<rparr>)"
    "wf_self s \<Longrightarrow> wf_self (s\<lparr>commit_local := (commit_local s)\<lparr>cd_signature := rs\<rparr>\<rparr>)"
    using assms(2) by (simp_all add: wf_self_def)
  then show "close_frame a (s\<lparr>commit_remote := (commit_remote s)\<lparr>cd_signature := rs\<rparr>\<rparr>)"
    "close_frame a (s\<lparr>commit_local := (commit_local s)\<lparr>cd_signature := rs\<rparr>\<rparr>)"
    using assms(1) by (simp_all add: close_frame_def)
qed

lemma close_frame_mirror:
  "close_frame a a' \<Longrightarrow> close_frame b b' \<Longrightarrow> closing_mirror a b \<Longrightarrow> closing_mirror a' b'"
  by (simp add: close_frame_def closing_mirror_def)

lemma close_frame_trans: "close_frame a b \<Longrightarrow> close_frame b c \<Longrightarrow> close_frame a c"
  by (simp add: close_frame_def)

text \<open>A node that is ready to close: well-formed, funded, with a valid script of its own.\<close>

definition can_close :: "ln_self_t \<Rightarrow> bool" where
  "can_close self \<longleftrightarrow> wf_self self \<and> length (funding_txid self) = BTC_SZ_TXID \<and>
     ln_script_scriptpkh_check (shutdown_scriptpk_local self)"

lemma can_closeD:
  assumes "can_close self"
  shows "wf_self self" "length (channel_id self) = LN_SZ_CHANNEL_ID"
    "ln_script_scriptpkh_check (shutdown_scriptpk_local self)" "shutdown_scriptpk_local self \<noteq> []"
    "length (funding_txid self) = BTC_SZ_TXID"
  using assms scriptpkh_check_length by (auto simp: can_close_def wf_self_def)

text \<open>
  The transactions that can be signed: those that \<open>btc_tx_is_valid\<close> accepts, which the computation of
  the hash asks for, have an output, and no output without a script or a value. The signer of a node
  signs them for the script of its funding output; \<open>Btc_Sw\<close> shows this of the code with an ECDSA key.
\<close>

definition signable_tx :: "btc_tx_t \<Rightarrow> bool" where
  "signable_tx tx \<longleftrightarrow> length (vin_txid tx) = BTC_SZ_TXID \<and> tx_vout tx \<noteq> [] \<and>
     (\<forall>v\<in>set (tx_vout tx). vout_script v \<noteq> [] \<and> vout_value v \<noteq> 0)"

definition signs :: "'p ln_env \<Rightarrow> bytes \<Rightarrow> bool" where
  "signs env redeem \<longleftrightarrow> (\<forall>tx v. signable_tx tx \<longrightarrow>
     (\<exists>rs. length rs = LN_SZ_SIGNATURE \<and> tx_sign env tx v redeem = Some (der_sig rs)))"

lemma div1000_small: "unat ((x :: u64) div 1000) < 2 ^ 63"
proof -
  have "unat x < 2 ^ LENGTH(64)" by (rule unsigned_less)
  then show ?thesis by (simp add: unat_div)
qed

lemma sub_nonzero:
  assumes "d + fee \<le> x" "0 < d" "unat d < 2 ^ 63" "unat fee < 2 ^ 63"
  shows "x - fee \<noteq> (0 :: u64)"
proof -
  have "unat (d + fee) = unat d + unat fee"
    using add_strict_mono [OF assms(3,4)] by (intro unat_add_lem [THEN iffD1]) simp
  moreover have "0 < unat d" using assms(2) by (simp add: unat_gt_0)
  ultimately show ?thesis using assms(1) by (auto simp: word_le_nat_alt)
qed

lemma signable_closing:
  assumes "length (funding_txid self) = BTC_SZ_TXID" "shutdown_scriptpk_local self \<noteq> []"
    and "shutdown_scriptpk_remote self \<noteq> []" "closing_vouts fee self \<noteq> []" "fee \<le> ln_closing_signed_initfee self"
  shows "signable_tx (closing_tx fee self)"
proof -
  have "tx_vout (closing_tx fee self) \<noteq> []"
    using bip69_mset [of "closing_vouts fee self"] assms(4) by (auto simp: closing_tx_def)
  moreover have "set (tx_vout (closing_tx fee self)) = set (closing_vouts fee self)"
    using mset_eq_setD [OF bip69_mset [of "closing_vouts fee self"]] by (simp add: closing_tx_def)
  moreover have "\<forall>v\<in>set (closing_vouts fee self). vout_script v \<noteq> [] \<and> vout_value v \<noteq> 0"
  proof -
    have f: "unat fee < 2 ^ 63"
      using assms(5) div1000_small [of "LN_FEE_COMMIT_BASE * ucast (feerate_per_kw self)"]
      by (simp add: ln_closing_signed_initfee_def word_le_nat_alt)
    have d: "0 < BTC_DUST_LIMIT" "unat BTC_DUST_LIMIT < 2 ^ 63" by (simp_all add: BTC_DUST_LIMIT_def)
    have "x - f \<noteq> 0" if "f + BTC_DUST_LIMIT < x" "unat f < 2 ^ 63" for x f :: u64
      using that by (intro sub_nonzero [OF _ d]) (simp_all add: add.commute)
    then show ?thesis using assms(2,3) f by (auto simp: closing_vouts_def Let_def)
  qed
  ultimately show ?thesis
    using assms(1) by (simp add: signable_tx_def) (simp add: closing_tx_def)
qed

lemma close_start:
  assumes "can_close self" "\<not> ln_status_is_closing self" "shutdown_flag self = 0"
  obtains self1 where "lnapp_close_channel self = Inr (True, self1)" "sent self1 = sent self @ [shutdown_of self]"
    "close_frame self self1" "shutdown_flag self1 = LN_SHDN_FLAG_SEND"
    "close_fee_sat self1 = ln_closing_signed_initfee self"
proof -
  let ?s = "cb_shutdown_recv self"
  have "ln_shutdown_create ?s = Inr (shutdown_of self,
      callback DB_SELF_SAVE (?s\<lparr>shutdown_flag := LN_SHDN_FLAG_SEND\<rparr>))"
    using ln_shutdown_create_eq [of ?s] can_closeD [OF assms(1)] assms(3)
    by (simp add: cb_shutdown_recv_def ln_shutdown_update_fee_def Let_def shutdown_of_def)
  then show ?thesis
    using that assms
    by (simp add: lnapp_close_channel_def close_frame_def cb_shutdown_recv_def ln_shutdown_update_fee_def Let_def
        callback_def sent_def wf_self_def)
qed

lemma shutdown_received:
  assumes "can_close self" "signs env (redeem_fund self)" "ln_script_scriptpkh_check (shutdown_scriptpk_local peer)"
    and "channel_id peer = channel_id self"
    and "shutdown_flag self = 0 \<or>
      shutdown_flag self = LN_SHDN_FLAG_SEND \<and> close_fee_sat self = ln_closing_signed_initfee self"
    and "closing_vouts (ln_closing_signed_initfee self) self \<noteq> []"
  obtains self1 rs where "recv_shutdown env (shutdown_of peer) self = Inr (True, self1)"
    "close_frame self self1" "shutdown_flag self1 = LN_SHDN_FLAG_SEND OR LN_SHDN_FLAG_RECV"
    "shutdown_scriptpk_remote self1 = shutdown_scriptpk_local peer"
    "close_fee_sat self1 = ln_closing_signed_initfee self"
    "close_last_fee_sat self1 = (if is_funder self then ln_closing_signed_initfee self else 0)"
    "sent self1 = sent self @ (if shutdown_flag self = 0 then [shutdown_of self] else []) @
      (if is_funder self then [closing_signed_of (ln_closing_signed_initfee self) rs self] else [])"
    "length rs = LN_SZ_SIGNATURE"
    "is_funder self \<Longrightarrow> tx_sign env (closing_tx (ln_closing_signed_initfee self) self1) (funding_sat self)
      (redeem_fund self) = Some (der_sig rs)"
proof -
  let ?fee = "ln_closing_signed_initfee self"
  let ?a = "(callback DB_SELF_SAVE (self\<lparr>shutdown_scriptpk_remote := shutdown_scriptpk_local peer,
      shutdown_flag := shutdown_flag self OR LN_SHDN_FLAG_RECV\<rparr>))\<lparr>close_last_fee_sat := 0\<rparr>"
  note can = can_closeD [OF assms(1)]
  have read: "ln_msg_shutdown_read (shutdown_of peer) =
      Inr \<lparr>sd_channel_id = channel_id self, sd_scriptpk = shutdown_scriptpk_local peer\<rparr>"
    using read_shutdown_of [of peer] can assms(3,4) by simp
  obtain b where b: "shutdown_reply ?a = Inr (True, b)" "close_frame self b"
    "shutdown_flag b = LN_SHDN_FLAG_SEND OR LN_SHDN_FLAG_RECV" "close_fee_sat b = ?fee" "close_last_fee_sat b = 0"
    "shutdown_scriptpk_remote b = shutdown_scriptpk_local peer"
    "sent b = sent self @ (if shutdown_flag self = 0 then [shutdown_of self] else [])"
  proof (cases "shutdown_flag self = 0")
    case True
    let ?s = "cb_shutdown_recv (callback CB_SHUTDOWN_RECV ?a)"
    have "ln_shutdown_create ?s = Inr (shutdown_of self,
      callback DB_SELF_SAVE (?s\<lparr>shutdown_flag := LN_SHDN_FLAG_SEND OR LN_SHDN_FLAG_RECV\<rparr>))"
      using ln_shutdown_create_eq [of ?s] can True
      by (simp add: cb_shutdown_recv_def ln_shutdown_update_fee_def Let_def shutdown_of_def callback_def shdn_defs)
    then show ?thesis
      using True can
      by (intro that [of "callback (CB_SEND_REQ (Some (shutdown_of self))) (callback DB_SELF_SAVE
            (?s\<lparr>shutdown_flag := LN_SHDN_FLAG_SEND OR LN_SHDN_FLAG_RECV\<rparr>))"])
        (simp_all add: shutdown_reply_def close_frame_def cb_shutdown_recv_def ln_shutdown_update_fee_def
          Let_def callback_def sent_def wf_self_def shdn_defs ln_closing_signed_initfee_def)
  next
    case False
    then show ?thesis
      using assms(5) can
      by (intro that [of ?a])
        (simp_all add: shutdown_reply_def close_frame_def callback_def sent_def wf_self_def shdn_defs)
  qed
  let ?c = "callback DB_SELF_SAVE (b\<lparr>ch_status := LN_STATUS_CLOSE_WAIT\<rparr>)"
  have c: "close_frame self ?c" "shutdown_scriptpk_remote ?c = shutdown_scriptpk_local peer"
    "shutdown_scriptpk_local ?c \<noteq> []" "shutdown_scriptpk_remote ?c \<noteq> []" "sent ?c = sent b" "wf_self ?c"
    using b(2,6) can scriptpkh_check_length [OF assms(3)]
    by (simp_all add: close_frame_def callback_def wf_self_def sent_def)
  have zero: "shutdown_flag self AND LN_SHDN_FLAG_RECV = 0" using assms(5) by (auto simp: shdn_defs)
  have step: "recv_shutdown env (shutdown_of peer) self =
      (if is_funder self then closing_first env ?c else Inr (True, ?c))"
    using b(1-3) c(1) assms(3) zero
    by (simp add: recv_shutdown_def read_msg_def read chk_chan_def chk_channelid_def shdn_defs Let_def close_frame_def)
  have vouts: "signable_tx (closing_tx ?fee ?c)"
  proof (rule signable_closing)
    show "closing_vouts ?fee ?c \<noteq> []"
      using assms(6) c(1) by (auto simp: closing_vouts_def close_frame_def Let_def split: if_splits)
    show "length (funding_txid ?c) = BTC_SZ_TXID" "?fee \<le> ln_closing_signed_initfee ?c"
      using can(5) c(1) by (simp_all add: close_frame_def ln_closing_signed_initfee_def)
  qed (rule c)+
  obtain rs where rs: "length rs = LN_SZ_SIGNATURE"
    "tx_sign env (closing_tx ?fee ?c) (funding_sat self) (redeem_fund self) = Some (der_sig rs)"
    using assms(2) vouts unfolding signs_def by blast
  show ?thesis
  proof (cases "is_funder self")
    case False
    then show ?thesis by (intro that [of ?c rs]) (simp_all add: step b c rs(1))
  next
    case True
    let ?d = "?c\<lparr>commit_remote := (commit_remote ?c)\<lparr>cd_signature := rs\<rparr>, close_last_fee_sat := ?fee\<rparr>"
    let ?e = "callback DB_SELF_SAVE (callback (CB_SEND_REQ (Some (closing_signed_of ?fee rs self))) ?d)"
    have fee: "close_fee_sat ?c = ?fee" "funding_sat ?c = funding_sat self" "redeem_fund ?c = redeem_fund self"
      "channel_id ?c = channel_id self"
      using b(4) c(1) by (simp_all add: callback_def close_frame_def)
    have "create_closing_tx env (close_fee_sat ?c) False ?c =
        Inr (True, ?c\<lparr>commit_remote := (commit_remote ?c)\<lparr>cd_signature := rs\<rparr>\<rparr>)"
      using create_closing_tx_eq [of ?c env ?fee rs False] c(3,4,6) rs fee by simp
    then have "closing_first env ?c = Inr (True, ?e)"
      using closing_signed_of_eq(1) [of self rs ?fee] can rs(1) fee
      by (simp add: closing_first_def)
    then have st: "recv_shutdown env (shutdown_of peer) self = Inr (True, ?e)" using step True by simp
    have fr: "close_frame self ?e"
      using close_frame_sig(1) [OF c(1) rs(1)] by simp
    have tx: "closing_tx ?fee ?c = closing_tx ?fee b" by simp
    show ?thesis
      by (rule that [OF st fr _ _ _ _ _ rs(1)]) (use True b(3-7) rs(2) in \<open>simp_all add: tx\<close>)
  qed
qed

text \<open>What the two answers to \<open>closing_signed\<close> share: the transaction with the received fee is built and verifies.\<close>

lemma closing_verified:
  assumes "wf_self self" "shutdown_flag self = LN_SHDN_FLAG_SEND OR LN_SHDN_FLAG_RECV"
    and "shutdown_scriptpk_local self \<noteq> []" "shutdown_scriptpk_remote self \<noteq> []"
    and "channel_id peer = channel_id self" "length rs = LN_SZ_SIGNATURE" "length own = LN_SZ_SIGNATURE"
    and "fee \<le> ln_closing_signed_initfee self"
    and "tx_sign env (closing_tx fee self) (funding_sat self) (redeem_fund self) = Some (der_sig own)"
    and "tx_verify_2of2 env (closing_tx fee self) (funding_sat self) (redeem_fund self) (der_sig own) (der_sig rs)"
    and "s1 = self\<lparr>commit_local := (commit_local self)\<lparr>cd_signature := rs\<rparr>,
      commit_remote := (commit_remote self)\<lparr>cd_signature := own\<rparr>\<rparr>"
  shows "recv_closing_signed env bc (closing_signed_of fee rs peer) self =
    (let need_closetx = (close_last_fee_sat s1 = fee);
         s2 = (if need_closetx then s1 else cb_closed_fee fee (callback (CB_CLOSED_FEE fee) s1)) in
     bind_c (create_closing_tx env (close_fee_sat s2) need_closetx s2) (\<lambda>(ret, self).
     if \<not> ret then Inr (False, self)
     else bind_c (if need_closetx then closing_publish bc self else closing_answer fee self)
       (\<lambda>(ret, self). Inr (ret, callback DB_SELF_SAVE self))))"
proof -
  let ?s = "self\<lparr>commit_local := (commit_local self)\<lparr>cd_signature := rs\<rparr>\<rparr>"
  have "wf_self ?s" using assms(1,6) by (simp add: wf_self_def)
  then have "create_closing_tx env fee True ?s = Inr (True, s1)"
    using create_closing_tx_eq [of ?s env fee own True] assms by simp
  moreover have "ln_msg_closing_signed_read (closing_signed_of fee rs peer) =
      Inr \<lparr>clo_channel_id = channel_id self, clo_fee_sat = fee, clo_signature = rs\<rparr>"
    using closing_signed_of_eq(2) [of peer rs fee] assms(1,5,6) by (simp add: wf_self_def)
  moreover have "\<not> ln_closing_signed_initfee ?s < fee" using assms(8) by (simp add: ln_closing_signed_initfee_def)
  ultimately show ?thesis
    using assms(2)
    by (simp add: recv_closing_signed_def read_msg_def chk_chan_def chk_channelid_def shdn_defs Let_def
        cong del: prod.case_cong_weak if_weak_cong)
qed

lemma closing_answered:
  assumes "can_close self" "signs env (redeem_fund self)" "shutdown_flag self = LN_SHDN_FLAG_SEND OR LN_SHDN_FLAG_RECV"
    and "shutdown_scriptpk_remote self \<noteq> []" "channel_id peer = channel_id self" "length rs = LN_SZ_SIGNATURE"
    and "fee \<le> ln_closing_signed_initfee self" "close_last_fee_sat self \<noteq> fee" "closing_vouts fee self \<noteq> []"
    and "\<And>own. tx_sign env (closing_tx fee self) (funding_sat self) (redeem_fund self) = Some (der_sig own) \<Longrightarrow>
      tx_verify_2of2 env (closing_tx fee self) (funding_sat self) (redeem_fund self) (der_sig own) (der_sig rs)"
  obtains self1 own where "recv_closing_signed env bc (closing_signed_of fee rs peer) self = Inr (True, self1)"
    "sent self1 = sent self @ [closing_signed_of fee own self]" "length own = LN_SZ_SIGNATURE"
    "tx_sign env (closing_tx fee self) (funding_sat self) (redeem_fund self) = Some (der_sig own)"
proof -
  note can = can_closeD [OF assms(1)]
  obtain own where own: "length own = LN_SZ_SIGNATURE"
    "tx_sign env (closing_tx fee self) (funding_sat self) (redeem_fund self) = Some (der_sig own)"
    using assms(2) signable_closing [OF can(5,4) assms(4,9,7)] unfolding signs_def by blast
  let ?s1 = "self\<lparr>commit_local := (commit_local self)\<lparr>cd_signature := rs\<rparr>,
      commit_remote := (commit_remote self)\<lparr>cd_signature := own\<rparr>\<rparr>"
  let ?s2 = "(callback (CB_CLOSED_FEE fee) ?s1)\<lparr>close_fee_sat := fee\<rparr>"
  let ?s3 = "?s2\<lparr>commit_remote := (commit_remote self)\<lparr>cd_signature := own\<rparr>\<rparr>"
  let ?s4 = "callback DB_SELF_SAVE (callback (CB_SEND_REQ (Some (closing_signed_of fee own self)))
      (?s3\<lparr>close_last_fee_sat := fee\<rparr>))"
  have s2: "cb_closed_fee fee (callback (CB_CLOSED_FEE fee) ?s1) = ?s2"
    using assms(7) by (simp add: cb_closed_fee_def ln_shutdown_update_fee_def ln_closing_signed_initfee_def callback_def Let_def not_less)
  have "wf_self ?s2" using can(1) assms(6) own(1) by (simp add: wf_self_def)
  then have c: "create_closing_tx env fee False ?s2 = Inr (True, ?s3)"
    using create_closing_tx_eq [of ?s2 env fee own False] can assms(4) own by simp
  have "closing_answer fee ?s3 = Inr (True, callback (CB_SEND_REQ (Some (closing_signed_of fee own self)))
      (?s3\<lparr>close_last_fee_sat := fee\<rparr>))"
    using closing_signed_of_eq(1) [of self own fee] can(2) own(1) by (simp add: closing_answer_def)
  then have "recv_closing_signed env bc (closing_signed_of fee rs peer) self = Inr (True, ?s4)"
    using closing_verified [OF can(1) assms(3) can(4) assms(4-6) own(1) assms(7) own(2) assms(10) [OF own(2)] refl]
      assms(8) s2 c by simp
  then show ?thesis
    by (rule that [OF _ _ own]) simp
qed

lemma closing_published:
  assumes "can_close self" "signs env (redeem_fund self)" "shutdown_flag self = LN_SHDN_FLAG_SEND OR LN_SHDN_FLAG_RECV"
    and "shutdown_scriptpk_remote self \<noteq> []" "channel_id peer = channel_id self" "length rs = LN_SZ_SIGNATURE"
    and "fee \<le> ln_closing_signed_initfee self" "close_last_fee_sat self = fee" "close_fee_sat self = fee"
    and "closing_vouts fee self \<noteq> []"
    and "\<And>own. tx_sign env (closing_tx fee self) (funding_sat self) (redeem_fund self) = Some (der_sig own) \<Longrightarrow>
      tx_verify_2of2 env (closing_tx fee self) (funding_sat self) (redeem_fund self) (der_sig own) (der_sig rs) \<and>
      bc (closing_tx fee self) own rs"
  obtains self1 own where "recv_closing_signed env bc (closing_signed_of fee rs peer) self = Inr (True, self1)"
    "ch_status self1 = LN_STATUS_CLOSE_SPENT" "CB_CLOSED (closing_tx fee self) own rs \<in> set (events self1)"
    "length own = LN_SZ_SIGNATURE"
    "tx_sign env (closing_tx fee self) (funding_sat self) (redeem_fund self) = Some (der_sig own)"
proof -
  note can = can_closeD [OF assms(1)]
  obtain own where own: "length own = LN_SZ_SIGNATURE"
    "tx_sign env (closing_tx fee self) (funding_sat self) (redeem_fund self) = Some (der_sig own)"
    using assms(2) signable_closing [OF can(5,4) assms(4,10,7)] unfolding signs_def by blast
  note ok = assms(11) [OF own(2)]
  let ?s1 = "self\<lparr>commit_local := (commit_local self)\<lparr>cd_signature := rs\<rparr>,
      commit_remote := (commit_remote self)\<lparr>cd_signature := own\<rparr>\<rparr>"
  let ?s2 = "?s1\<lparr>commit_remote := (commit_remote self)\<lparr>cd_signature := own\<rparr>\<rparr>"
  let ?s3 = "(callback (CB_CLOSED (closing_tx fee self) own rs) ?s2)\<lparr>ch_status := LN_STATUS_CLOSE_SPENT\<rparr>"
  have "wf_self ?s1" using can(1) assms(6) own(1) by (simp add: wf_self_def)
  then have c: "create_closing_tx env fee True ?s1 = Inr (True, ?s2)"
    using create_closing_tx_eq [of ?s1 env fee own True] can assms(4) own ok by simp
  have "closing_publish bc ?s2 = Inr (True, ?s3)"
    using ok assms(9) by (simp add: closing_publish_def cb_closed_def)
  then have "recv_closing_signed env bc (closing_signed_of fee rs peer) self = Inr (True, callback DB_SELF_SAVE ?s3)"
    using closing_verified [OF can(1) assms(3) can(4) assms(4-6) own(1) assms(7) own(2) conjunct1 [OF ok] refl]
      assms(8,9) c by simp
  then show ?thesis
    by (rule that [OF _ _ _ own]) simp_all
qed

section \<open>The close completes\<close>

text \<open>
  Signatures of the two holders of a funding output verify at both of them; \<open>Btc_Sw\<close> shows this of the
  code with two ECDSA keys.
\<close>

definition mutual_signers :: "'p ln_env \<Rightarrow> 'q ln_env \<Rightarrow> bytes \<Rightarrow> bool" where
  "mutual_signers ef eg redeem \<longleftrightarrow> signs ef redeem \<and> signs eg redeem \<and>
     (\<forall>tx v a b. signable_tx tx \<and> tx_sign ef tx v redeem = Some (der_sig a) \<and>
          tx_sign eg tx v redeem = Some (der_sig b) \<longrightarrow>
        tx_verify_2of2 ef tx v redeem (der_sig a) (der_sig b) \<and>
        tx_verify_2of2 eg tx v redeem (der_sig b) (der_sig a))"

text \<open>bitcoind accepts this transaction with signatures that the node has verified.\<close>

definition broadcasts :: "'p ln_env \<Rightarrow> (btc_tx_t \<Rightarrow> bytes \<Rightarrow> bytes \<Rightarrow> bool) \<Rightarrow> ln_self_t \<Rightarrow> btc_tx_t \<Rightarrow> bool" where
  "broadcasts ef bc f tx \<longleftrightarrow> (\<forall>own rem.
     tx_verify_2of2 ef tx (funding_sat f) (redeem_fund f) (der_sig own) (der_sig rem) \<longrightarrow> bc tx own rem)"

text \<open>The closing transaction of two sides that have exchanged their scripts.\<close>

definition agreed_closing :: "ln_self_t \<Rightarrow> ln_self_t \<Rightarrow> btc_tx_t" where
  "agreed_closing f g = closing_tx (ln_closing_signed_initfee f)
     (f\<lparr>shutdown_scriptpk_remote := shutdown_scriptpk_local g\<rparr>)"

lemma mirror_closing_vouts: "closing_mirror a b \<Longrightarrow> closing_vouts fee a \<noteq> [] \<Longrightarrow> closing_vouts fee b \<noteq> []"
  by (auto simp: closing_vouts_def closing_mirror_def Let_def split: if_splits)

lemma closing_mirror_sym: "closing_mirror a b \<Longrightarrow> closing_mirror b a"
  by (auto simp: closing_mirror_def)

lemma initfee_mirror: "closing_mirror a b \<Longrightarrow> ln_closing_signed_initfee b = ln_closing_signed_initfee a"
  by (simp add: closing_mirror_def ln_closing_signed_initfee_def)

text \<open>The fee is agreed in one round: the fundee answers with the proposal, and the funder publishes.\<close>

lemma closing_round:
  assumes "mutual_signers ef eg (redeem_fund f)" "broadcasts ef bc f (closing_tx (ln_closing_signed_initfee f) f)"
    and "can_close f" "can_close g" "closing_mirror f g" "scripts_exchanged f g"
    and "shutdown_flag f = LN_SHDN_FLAG_SEND OR LN_SHDN_FLAG_RECV" "shutdown_flag g = LN_SHDN_FLAG_SEND OR LN_SHDN_FLAG_RECV"
    and "close_fee_sat f = ln_closing_signed_initfee f" "close_last_fee_sat f = ln_closing_signed_initfee f"
    and "close_last_fee_sat g = 0" "ln_closing_signed_initfee f \<noteq> 0"
    and "closing_vouts (ln_closing_signed_initfee f) f \<noteq> []" "length rs = LN_SZ_SIGNATURE"
    and "tx_sign ef (closing_tx (ln_closing_signed_initfee f) f) (funding_sat f) (redeem_fund f) = Some (der_sig rs)"
  obtains m g1 f1 own rem where
    "recv_closing_signed eg bc' (closing_signed_of (ln_closing_signed_initfee f) rs f) g = Inr (True, g1)"
    "sent g1 = sent g @ [m]" "recv_closing_signed ef bc m f = Inr (True, f1)" "ch_status f1 = LN_STATUS_CLOSE_SPENT"
    "CB_CLOSED (closing_tx (ln_closing_signed_initfee f) f) own rem \<in> set (events f1)"
    "tx_verify_2of2 ef (closing_tx (ln_closing_signed_initfee f) f) (funding_sat f) (redeem_fund f) (der_sig own) (der_sig rem)"
proof -
  let ?fee = "ln_closing_signed_initfee f"
  let ?tx = "closing_tx ?fee f"
  note m = assms(5)
  have same: "channel_id f = channel_id g" "funding_sat g = funding_sat f" "redeem_fund g = redeem_fund f"
    "closing_tx ?fee g = ?tx" "ln_closing_signed_initfee g = ?fee" "closing_vouts ?fee g \<noteq> []"
    using m closing_tx_mirror [OF m assms(6)] initfee_mirror [OF m] mirror_closing_vouts [OF m assms(13)]
    by (simp_all add: closing_mirror_def)
  have scripts: "shutdown_scriptpk_remote f \<noteq> []" "shutdown_scriptpk_remote g \<noteq> []"
    using assms(6) can_closeD(4) [OF assms(3)] can_closeD(4) [OF assms(4)] by (simp_all add: scripts_exchanged_def)
  have "signable_tx ?tx"
    using can_closeD(5,4) [OF assms(3)] scripts(1) assms(13) by (intro signable_closing) simp_all
  then have ver: "tx_verify_2of2 ef ?tx v (redeem_fund f) (der_sig a) (der_sig b)"
    "tx_verify_2of2 eg ?tx v (redeem_fund f) (der_sig b) (der_sig a)"
    if "tx_sign ef ?tx v (redeem_fund f) = Some (der_sig a)" "tx_sign eg ?tx v (redeem_fund f) = Some (der_sig b)" for v a b
    using assms(1) that unfolding mutual_signers_def by blast+
  have sg: "signs ef (redeem_fund f)" "signs eg (redeem_fund g)" using assms(1) same(3) by (simp_all add: mutual_signers_def)
  obtain g1 own where g1: "recv_closing_signed eg bc' (closing_signed_of ?fee rs f) g = Inr (True, g1)"
    "sent g1 = sent g @ [closing_signed_of ?fee own g]" "length own = LN_SZ_SIGNATURE"
    "tx_sign eg ?tx (funding_sat f) (redeem_fund f) = Some (der_sig own)"
    by (rule closing_answered [OF assms(4) sg(2) assms(8) scripts(2) same(1) assms(14), of ?fee bc'])
      (use assms(11,12) ver(2) [OF assms(15)] same in simp_all)
  obtain f1 own' where f1: "recv_closing_signed ef bc (closing_signed_of ?fee own g) f = Inr (True, f1)"
    "ch_status f1 = LN_STATUS_CLOSE_SPENT" "CB_CLOSED ?tx own' own \<in> set (events f1)"
    "tx_sign ef ?tx (funding_sat f) (redeem_fund f) = Some (der_sig own')"
    by (rule closing_published [OF assms(3) sg(1) assms(7) scripts(1) same(1) [symmetric] g1(3) order_refl assms(10,9,13), of bc])
      (use ver(1) [OF _ g1(4)] assms(2) in \<open>simp_all add: broadcasts_def\<close>)
  show ?thesis
    by (rule that [OF g1(1,2) f1(1,2,3)]) (rule ver(1) [OF f1(4) g1(4)])
qed

text \<open>The exchange of \<open>shutdown\<close>, up to the first \<open>closing_signed\<close>.\<close>

lemma shutdown_exchange:
  assumes "signs ef (redeem_fund f)" "signs eg (redeem_fund g)" "can_close f" "can_close g" "closing_mirror f g"
    and "is_funder f" "\<not> ln_status_is_closing f" "shutdown_flag f = 0" "shutdown_flag g = 0"
    and "closing_vouts (ln_closing_signed_initfee f) f \<noteq> []"
  obtains f1 g1 f2 rs where "lnapp_close_channel f = Inr (True, f1)" "sent f1 = sent f @ [shutdown_of f]"
    "recv_shutdown eg (shutdown_of f) g = Inr (True, g1)" "sent g1 = sent g @ [shutdown_of g]"
    "recv_shutdown ef (shutdown_of g) f1 = Inr (True, f2)"
    "sent f2 = sent f1 @ [closing_signed_of (ln_closing_signed_initfee f) rs f2]"
    "close_frame f f2" "close_frame g g1" "scripts_exchanged f2 g1"
    "shutdown_flag f2 = LN_SHDN_FLAG_SEND OR LN_SHDN_FLAG_RECV" "shutdown_flag g1 = LN_SHDN_FLAG_SEND OR LN_SHDN_FLAG_RECV"
    "close_fee_sat f2 = ln_closing_signed_initfee f" "close_last_fee_sat f2 = ln_closing_signed_initfee f"
    "close_last_fee_sat g1 = 0" "length rs = LN_SZ_SIGNATURE"
    "tx_sign ef (closing_tx (ln_closing_signed_initfee f) f2) (funding_sat f) (redeem_fund f) = Some (der_sig rs)"
proof -
  let ?fee = "ln_closing_signed_initfee f"
  note cf = can_closeD [OF assms(3)] and cg = can_closeD [OF assms(4)]
  have g: "channel_id f = channel_id g" "\<not> is_funder g" "closing_vouts (ln_closing_signed_initfee g) g \<noteq> []"
    using assms(5,6) mirror_closing_vouts [OF assms(5,10)] initfee_mirror [OF assms(5)]
    by (simp_all add: closing_mirror_def)
  obtain f1 where f1: "lnapp_close_channel f = Inr (True, f1)" "sent f1 = sent f @ [shutdown_of f]" "close_frame f f1"
    "shutdown_flag f1 = LN_SHDN_FLAG_SEND" "close_fee_sat f1 = ?fee"
    by (rule close_start [OF assms(3,7,8)])
  obtain g1 where g1: "recv_shutdown eg (shutdown_of f) g = Inr (True, g1)" "close_frame g g1"
    "shutdown_flag g1 = LN_SHDN_FLAG_SEND OR LN_SHDN_FLAG_RECV"
    "shutdown_scriptpk_remote g1 = shutdown_scriptpk_local f" "close_last_fee_sat g1 = 0"
    "sent g1 = sent g @ [shutdown_of g]"
    by (rule shutdown_received [OF assms(4,2) cf(3) g(1) disjI1 [OF assms(9)] g(3)])
      (simp_all add: g(2) assms(9))
  have cf1: "can_close f1" "signs ef (redeem_fund f1)" using f1(3) assms(1,3) by (simp_all add: can_close_def close_frame_def)
  have fee1: "ln_closing_signed_initfee f1 = ?fee" "closing_vouts ?fee f1 \<noteq> []" "is_funder f1"
    "channel_id g = channel_id f1" "funding_sat f1 = funding_sat f" "redeem_fund f1 = redeem_fund f"
    using f1(3) assms(6,10) g(1)
    by (auto simp: close_frame_def ln_closing_signed_initfee_def closing_vouts_def Let_def split: if_splits)
  obtain f2 rs where f2: "recv_shutdown ef (shutdown_of g) f1 = Inr (True, f2)" "close_frame f1 f2"
    "shutdown_flag f2 = LN_SHDN_FLAG_SEND OR LN_SHDN_FLAG_RECV"
    "shutdown_scriptpk_remote f2 = shutdown_scriptpk_local g" "close_fee_sat f2 = ?fee" "close_last_fee_sat f2 = ?fee"
    "sent f2 = sent f1 @ [closing_signed_of ?fee rs f1]" "length rs = LN_SZ_SIGNATURE"
    "tx_sign ef (closing_tx ?fee f2) (funding_sat f) (redeem_fund f) = Some (der_sig rs)"
    by (rule shutdown_received [OF cf1 cg(3) fee1(4)])
      (use f1(4,5) fee1 in \<open>simp_all add: shdn_defs\<close>)
  note frame = close_frame_trans [OF f1(3) f2(2)]
  have ex: "scripts_exchanged f2 g1"
    using frame g1(2,4) f2(4) cf(3) cg(3) by (simp add: scripts_exchanged_def close_frame_def)
  have "closing_signed_of ?fee rs f1 = closing_signed_of ?fee rs f2"
    using f2(2) by (simp add: closing_signed_of_def close_frame_def)
  with f2(7) have "sent f2 = sent f1 @ [closing_signed_of ?fee rs f2]" by simp
  then show ?thesis
    using that [OF f1(1,2) g1(1,6) f2(1) _ frame g1(2) ex f2(3) g1(3) f2(5,6) g1(5) f2(8,9)] by blast
qed

text \<open>
  C10: a mutual close that the funder starts completes. From a channel without shutdown, with both
  scripts set, a non-zero base fee and an output above the dust limit, the four messages shutdown,
  shutdown, closing_signed, closing_signed are each accepted, and the funder ends with the closing
  transaction published under two valid signatures. Assumed is that the two sign and verify for the script
  of their funding output, and that bitcoind takes this transaction with signatures that have been
  verified.
\<close>

theorem mutual_close_completes:
  assumes "mutual_signers ef eg (redeem_fund f)" "broadcasts ef bc f (agreed_closing f g)"
    and "can_close f" "can_close g" "closing_mirror f g"
    and "is_funder f" "\<not> ln_status_is_closing f" "shutdown_flag f = 0" "shutdown_flag g = 0"
    and "ln_closing_signed_initfee f \<noteq> 0" "closing_vouts (ln_closing_signed_initfee f) f \<noteq> []"
  shows "\<exists>f1 m1 g1 m2 f2 m3 g2 m4 f3 own rem.
    lnapp_close_channel f = Inr (True, f1) \<and> sent f1 = sent f @ [m1] \<and>
    recv_shutdown eg m1 g = Inr (True, g1) \<and> sent g1 = sent g @ [m2] \<and>
    recv_shutdown ef m2 f1 = Inr (True, f2) \<and> sent f2 = sent f1 @ [m3] \<and>
    recv_closing_signed eg bc' m3 g1 = Inr (True, g2) \<and> sent g2 = sent g1 @ [m4] \<and>
    recv_closing_signed ef bc m4 f2 = Inr (True, f3) \<and> ch_status f3 = LN_STATUS_CLOSE_SPENT \<and>
    CB_CLOSED (agreed_closing f g) own rem \<in> set (events f3) \<and>
    tx_verify_2of2 ef (agreed_closing f g) (funding_sat f) (redeem_fund f) (der_sig own) (der_sig rem)"
proof -
  let ?fee = "ln_closing_signed_initfee f"
  have "signs ef (redeem_fund f)" "signs eg (redeem_fund g)"
    using assms(1,5) by (simp_all add: mutual_signers_def closing_mirror_def)
  then obtain f1 g1 f2 rs where x: "lnapp_close_channel f = Inr (True, f1)" "sent f1 = sent f @ [shutdown_of f]"
    "recv_shutdown eg (shutdown_of f) g = Inr (True, g1)" "sent g1 = sent g @ [shutdown_of g]"
    "recv_shutdown ef (shutdown_of g) f1 = Inr (True, f2)" "sent f2 = sent f1 @ [closing_signed_of ?fee rs f2]"
    "close_frame f f2" "close_frame g g1" "scripts_exchanged f2 g1"
    "shutdown_flag f2 = LN_SHDN_FLAG_SEND OR LN_SHDN_FLAG_RECV" "shutdown_flag g1 = LN_SHDN_FLAG_SEND OR LN_SHDN_FLAG_RECV"
    "close_fee_sat f2 = ?fee" "close_last_fee_sat f2 = ?fee" "close_last_fee_sat g1 = 0" "length rs = LN_SZ_SIGNATURE"
    "tx_sign ef (closing_tx ?fee f2) (funding_sat f) (redeem_fund f) = Some (der_sig rs)"
    by (rule shutdown_exchange [OF _ _ assms(3-9,11)])
  have m: "closing_mirror f2 g1" by (rule close_frame_mirror [OF x(7,8) assms(5)])
  have cc: "can_close f2" "can_close g1" using x(7,8) assms(3,4) by (simp_all add: can_close_def close_frame_def)
  have fee2: "ln_closing_signed_initfee f2 = ?fee" "closing_vouts ?fee f2 \<noteq> []" "funding_sat f2 = funding_sat f"
    "redeem_fund f2 = redeem_fund f"
    using x(7) assms(11)
    by (auto simp: close_frame_def ln_closing_signed_initfee_def closing_vouts_def Let_def split: if_splits)
  have tx: "closing_tx ?fee f2 = agreed_closing f g"
    using x(7,8,9) by (simp add: agreed_closing_def closing_tx_def closing_vouts_def close_frame_def scripts_exchanged_def Let_def)
  have bc: "mutual_signers ef eg (redeem_fund f2)" "broadcasts ef bc f2 (closing_tx (ln_closing_signed_initfee f2) f2)"
    using assms(1,2) fee2 tx by (simp_all add: broadcasts_def)
  obtain m4 g2 f3 own rem where
    "recv_closing_signed eg bc' (closing_signed_of ?fee rs f2) g1 = Inr (True, g2)"
    "sent g2 = sent g1 @ [m4]" "recv_closing_signed ef bc m4 f2 = Inr (True, f3)" "ch_status f3 = LN_STATUS_CLOSE_SPENT"
    "CB_CLOSED (closing_tx ?fee f2) own rem \<in> set (events f3)"
    "tx_verify_2of2 ef (closing_tx ?fee f2) (funding_sat f) (redeem_fund f) (der_sig own) (der_sig rem)"
    by (rule closing_round [OF bc cc m x(9-11), where rs = rs and bc' = bc'])
      (use x(12-16) assms(10) fee2 in simp_all)
  then show ?thesis using x(1-6) unfolding tx by metis
qed

text \<open>The two sides of a concrete channel.\<close>

definition toy_peer :: ln_self_t where
  "toy_peer = toy_self\<lparr>is_funder := False, our_msat := 400000000, their_msat := 600000000,
     shutdown_scriptpk_local := [0xa9, 20] @ replicate 20 2 @ [0x87]\<rparr>"

text \<open>A signer that refuses what cannot be signed, and a verifier that knows one signature.\<close>

definition sign_toy_env :: "nat ln_env" where
  "sign_toy_env = toy_env\<lparr>tx_sign := (\<lambda>tx _ _. if signable_tx tx then Some (der_sig (replicate 64 1)) else None),
     tx_verify_2of2 := (\<lambda>tx _ _ a b. signable_tx tx \<and> a = der_sig (replicate 64 1) \<and> b = der_sig (replicate 64 1))\<rparr>"

lemma toy_signs: "signs toy_env redeem" "signs sign_toy_env redeem"
  by (auto simp: signs_def toy_env_def sign_toy_env_def intro!: exI [of _ "replicate 64 1"])

lemma toy_signers: "mutual_signers sign_toy_env sign_toy_env redeem" "broadcasts sign_toy_env (\<lambda>_ _ _. True) f tx"
  using toy_signs by (simp_all add: mutual_signers_def broadcasts_def) (auto simp: sign_toy_env_def)

lemma toy_wf_self: "wf_self toy_self"
  by (simp add: wf_self_def toy_self_def toy_commit_def toy_funding_def wf_keys_def wf_htlc_def htlc_zero_def
      length_mpi_octets)

lemma toy_can_close: "can_close toy_self" "can_close toy_peer"
  using toy_wf_self by (simp_all add: can_close_def toy_peer_def wf_self_def toy_self_def ln_script_scriptpkh_check_def
      nth_append)

lemma toy_closing_facts:
  "closing_mirror toy_self toy_peer" "is_funder toy_self" "\<not> ln_status_is_closing toy_self"
  "shutdown_flag toy_self = 0" "shutdown_flag toy_peer = 0" "ln_closing_signed_initfee toy_self = 362"
  "closing_vouts 362 toy_self \<noteq> []"
  by (simp_all add: closing_mirror_def toy_peer_def toy_self_def ln_status_is_closing_def
      ln_closing_signed_initfee_def LN_FEE_COMMIT_BASE_def closing_vouts_def BTC_DUST_LIMIT_def LN_MSAT2SATOSHI_def)

theorem mutual_close_completes_witness:
  "\<exists>f1 m1 g1 m2 f2 m3 g2 m4 f3.
    lnapp_close_channel toy_self = Inr (True, f1) \<and> sent f1 = sent toy_self @ [m1] \<and>
    recv_shutdown sign_toy_env m1 toy_peer = Inr (True, g1) \<and> sent g1 = sent toy_peer @ [m2] \<and>
    recv_shutdown sign_toy_env m2 f1 = Inr (True, f2) \<and> sent f2 = sent f1 @ [m3] \<and>
    recv_closing_signed sign_toy_env (\<lambda>_ _ _. False) m3 g1 = Inr (True, g2) \<and> sent g2 = sent g1 @ [m4] \<and>
    recv_closing_signed sign_toy_env (\<lambda>_ _ _. True) m4 f2 = Inr (True, f3) \<and> ch_status f3 = LN_STATUS_CLOSE_SPENT"
proof -
  have "ln_closing_signed_initfee toy_self \<noteq> 0" "closing_vouts (ln_closing_signed_initfee toy_self) toy_self \<noteq> []"
    by (simp_all add: toy_closing_facts)
  then show ?thesis
    using mutual_close_completes [OF toy_signers(1) toy_signers(2) toy_can_close toy_closing_facts(1-5), of "\<lambda>_ _ _. False"]
    by blast
qed

section \<open>What the handlers do not check\<close>

text \<open>
  Nothing asks whether HTLCs are still pending. A funder that has sent shutdown answers the shutdown of
  its peer with its signature on the closing transaction of the two balances, whatever is in its
  slots. Until an HTLC is settled its amount is part of the balance of the side that offered it, so the
  transaction gives every pending HTLC back, also one whose preimage has already been revealed.
\<close>

theorem closing_ignores_htlcs:
  assumes "can_close self" "signs env (redeem_fund self)" "ln_script_scriptpkh_check (shutdown_scriptpk_local peer)"
    and "channel_id peer = channel_id self" "is_funder self" "shutdown_flag self = LN_SHDN_FLAG_SEND"
    and "close_fee_sat self = ln_closing_signed_initfee self"
    and "closing_vouts (ln_closing_signed_initfee self) self \<noteq> []"
  shows "\<exists>self1 rs. recv_shutdown env (shutdown_of peer) self = Inr (True, self1) \<and>
    sent self1 = sent self @ [closing_signed_of (ln_closing_signed_initfee self) rs self] \<and>
    tx_sign env (agreed_closing (self\<lparr>cnl_add_htlc := hs\<rparr>) peer) (funding_sat self) (redeem_fund self) = Some (der_sig rs)"
proof -
  let ?fee = "ln_closing_signed_initfee self"
  obtain self1 rs where r: "recv_shutdown env (shutdown_of peer) self = Inr (True, self1)" "close_frame self self1"
    "shutdown_scriptpk_remote self1 = shutdown_scriptpk_local peer"
    "sent self1 = sent self @ [closing_signed_of ?fee rs self]"
    "tx_sign env (closing_tx ?fee self1) (funding_sat self) (redeem_fund self) = Some (der_sig rs)"
    by (rule shutdown_received [OF assms(1-4) _ assms(8)]) (use assms(5-7) in \<open>simp_all add: shdn_defs\<close>)
  have "closing_tx ?fee self1 = agreed_closing (self\<lparr>cnl_add_htlc := hs\<rparr>) peer"
    using r(2,3) by (simp add: agreed_closing_def closing_tx_def closing_vouts_def close_frame_def Let_def
        ln_closing_signed_initfee_def)
  then show ?thesis using r by metis
qed

definition toy_pending :: ln_self_t where
  "toy_pending = toy_self\<lparr>shutdown_flag := LN_SHDN_FLAG_SEND, close_fee_sat := 362,
     cnl_add_htlc := toy_htlc # replicate 5 htlc_zero\<rparr>"

theorem closing_ignores_htlcs_witness:
  "\<exists>self1 rs. recv_shutdown sign_toy_env (shutdown_of toy_peer) toy_pending = Inr (True, self1) \<and>
    tx_sign sign_toy_env (agreed_closing (toy_pending\<lparr>cnl_add_htlc := replicate 6 htlc_zero\<rparr>) toy_peer) 1000000 [] =
      Some (der_sig rs)"
proof -
  have "wf_htlc toy_htlc" "wf_htlc htlc_zero" by (simp_all add: wf_htlc_def toy_htlc_def htlc_zero_def)
  then have can: "can_close toy_pending"
    using toy_can_close(1) by (auto simp: can_close_def wf_self_def toy_pending_def toy_self_def LN_HTLC_MAX_def)
  have fee: "ln_closing_signed_initfee toy_pending = 362" "close_fee_sat toy_pending = 362" "redeem_fund toy_pending = []"
    "is_funder toy_pending" "shutdown_flag toy_pending = LN_SHDN_FLAG_SEND" "channel_id toy_peer = channel_id toy_pending"
    "funding_sat toy_pending = 1000000"
    by (simp_all add: toy_pending_def toy_self_def toy_peer_def ln_closing_signed_initfee_def LN_FEE_COMMIT_BASE_def)
  have "closing_vouts 362 toy_pending \<noteq> []"
    by (simp add: closing_vouts_def toy_pending_def toy_self_def BTC_DUST_LIMIT_def LN_MSAT2SATOSHI_def)
  then show ?thesis
    using closing_ignores_htlcs [OF can toy_signs(2) can_closeD(3) [OF toy_can_close(2)] fee(6,4,5)] fee by auto
qed

text \<open>
  The reader writes the signature of closing_signed over the one of the local commitment
  transaction before anything is checked, and nothing restores it: a message with too high a fee, or for
  another channel, is refused, but from then on the state holds its signature instead of the one with
  which the last commitment can be enforced.
\<close>

theorem closing_signed_clobbers:
  assumes "M_SHDN_FLAG_EXCHANGED (shutdown_flag self)" "length (clo_channel_id m) = LN_SZ_CHANNEL_ID"
    and "length (clo_signature m) = LN_SZ_SIGNATURE"
    and "clo_channel_id m \<noteq> channel_id self \<or> ln_closing_signed_initfee self < clo_fee_sat m"
    and "length (channel_id self) = LN_SZ_CHANNEL_ID"
  shows "\<exists>self1. recv_closing_signed env bc (closing_signed_wire m) self = Inr (False, self1) \<and>
    cd_signature (commit_local self1) = clo_signature m \<and> sent self1 = sent self"
proof -
  have "ln_msg_closing_signed_read (closing_signed_wire m) = Inr m"
    using closing_signed.read_wire [of m "[]"] assms(2,3) by (simp add: closing_signed_wf_def)
  moreover have "ln_closing_signed_initfee (self\<lparr>commit_local := cd\<rparr>) = ln_closing_signed_initfee self" for cd
    by (simp add: ln_closing_signed_initfee_def)
  moreover have "sent (set_err e s) = sent s" "commit_local (set_err e s) = commit_local s" for e s
    by (simp_all add: set_err_def sent_def)
  ultimately show ?thesis
    using assms by (cases "clo_channel_id m = channel_id self")
      (simp_all add: recv_closing_signed_def read_msg_def chk_chan_def chk_channelid_def Let_def)
qed

text \<open>
  A signature that does not verify stops the node. Once shutdown has been exchanged, any
  closing_signed for the channel with an acceptable fee and a wrong signature runs into the
  \<open>assert(false)\<close> behind \<^verbatim>\<open>create_closing_tx\<close>.
\<close>

theorem closing_bad_signature_aborts:
  assumes "can_close self" "signs env (redeem_fund self)" "M_SHDN_FLAG_EXCHANGED (shutdown_flag self)"
    and "shutdown_scriptpk_remote self \<noteq> []" "clo_channel_id m = channel_id self"
    and "length (clo_signature m) = LN_SZ_SIGNATURE" "clo_fee_sat m \<le> ln_closing_signed_initfee self"
    and "closing_vouts (clo_fee_sat m) self \<noteq> []"
    and "\<forall>own. \<not> tx_verify_2of2 env (closing_tx (clo_fee_sat m) self) (funding_sat self) (redeem_fund self) own
      (der_sig (clo_signature m))"
  shows "recv_closing_signed env bc (closing_signed_wire m) self = Inl Assert_Failed"
proof -
  note can = can_closeD [OF assms(1)]
  let ?s = "self\<lparr>commit_local := (commit_local self)\<lparr>cd_signature := clo_signature m\<rparr>\<rparr>"
  obtain own where own: "length own = LN_SZ_SIGNATURE"
    "tx_sign env (closing_tx (clo_fee_sat m) self) (funding_sat self) (redeem_fund self) = Some (der_sig own)"
    using assms(2) signable_closing [OF can(5,4) assms(4,8,7)] unfolding signs_def by blast
  have "wf_self ?s" using can(1) assms(6) by (simp add: wf_self_def)
  then have "create_closing_tx env (clo_fee_sat m) True ?s =
      Inr (False, ?s\<lparr>commit_remote := (commit_remote self)\<lparr>cd_signature := own\<rparr>\<rparr>)"
    using create_closing_tx_eq [of ?s env "clo_fee_sat m" own True] can assms(4,9) own by simp
  moreover have "ln_msg_closing_signed_read (closing_signed_wire m) = Inr m"
    using closing_signed.read_wire [of m "[]"] assms(5,6) can(2) by (simp add: closing_signed_wf_def)
  moreover have "\<not> ln_closing_signed_initfee ?s < clo_fee_sat m"
    using assms(7) by (simp add: ln_closing_signed_initfee_def)
  ultimately show ?thesis
    using assms(3,5) by (simp add: recv_closing_signed_def read_msg_def chk_chan_def chk_channelid_def)
qed

definition toy_closing :: ln_self_t where
  "toy_closing = toy_self\<lparr>shutdown_flag := 3, shutdown_scriptpk_remote := [0x00, 20] @ replicate 20 3\<rparr>"

theorem closing_signed_clobbers_witness:
  "\<exists>self1. recv_closing_signed toy_env (\<lambda>_ _ _. True)
      (closing_signed_wire \<lparr>clo_channel_id = replicate 32 9, clo_fee_sat = 0, clo_signature = replicate 64 5\<rparr>) toy_closing =
      Inr (False, self1) \<and>
    cd_signature (commit_local self1) = replicate 64 5 \<and> cd_signature (commit_local toy_closing) = replicate 64 0"
  using closing_signed_clobbers [of toy_closing
      "\<lparr>clo_channel_id = replicate 32 9, clo_fee_sat = 0, clo_signature = replicate 64 5\<rparr>" toy_env "\<lambda>_ _ _. True"]
  by (auto simp: toy_closing_def toy_defs shdn_defs)

theorem closing_bad_signature_aborts_witness:
  "recv_closing_signed strict_env (\<lambda>_ _ _. True)
      (closing_signed_wire \<lparr>clo_channel_id = replicate 32 7, clo_fee_sat = 300, clo_signature = replicate 64 5\<rparr>) toy_closing =
    Inl Assert_Failed"
proof -
  have "can_close toy_closing" using toy_can_close(1) by (simp add: can_close_def toy_closing_def wf_self_def toy_self_def)
  moreover have "signs strict_env redeem" for redeem using toy_signs by (simp add: signs_def strict_env_def)
  ultimately show ?thesis
    by (rule closing_bad_signature_aborts)
      (simp_all add: toy_closing_def toy_defs shdn_defs strict_env_def ln_closing_signed_initfee_def
        LN_FEE_COMMIT_BASE_def closing_vouts_def BTC_DUST_LIMIT_def LN_MSAT2SATOSHI_def)
qed

end
