(* ===== verification/Channel_Open.thy ===== *)
theory Channel_Open
  imports Channel_Close
begin

text \<open>
  The opening of a channel in \<^verbatim>\<open>ln/ln.c\<close>: \<^verbatim>\<open>ln_open_channel_create\<close>, the handlers \<^verbatim>\<open>recv_open_channel\<close>,
  \<^verbatim>\<open>recv_accept_channel\<close>, \<^verbatim>\<open>recv_funding_created\<close>, \<^verbatim>\<open>recv_funding_signed\<close>, \<^verbatim>\<open>recv_funding_locked\<close>, and what they
  use (built for bitcoind, without \<open>USE_SPV\<close>). The work area \<open>p_establish\<close> is allocated by the daemon;
  a handler that uses it when it is not there dereferences NULL. A message that cannot be read may have
  been stored in part in the work area and in the temporary channel id; the model leaves the state.
\<close>

section \<open>Parameters\<close>

text \<open>
  Random keys and channel id, the fee rate and the wallet of bitcoind, and the check of a public key.
  The wallet signs the funding transaction with the outputs it is given, which may be rearranged.
\<close>

record open_env =
  oe_chkpub :: "bytes \<Rightarrow> bool"
  oe_privs :: "bytes list"
  oe_id :: bytes
  oe_feerate :: u32
  oe_sign_funding :: "btc_vout_t list \<Rightarrow> u64 \<Rightarrow> (btc_vout_t list \<times> bytes) option" \<comment> \<open>outputs, txid\<close>
  oe_send_funding :: bool

definition LN_FEERATE_PER_KW_MIN :: u32 where "LN_FEERATE_PER_KW_MIN = 253"
definition LN_FUNDSAT_MIN :: u64 where "LN_FUNDSAT_MIN = 1000"
definition LN_SZ_FUNDINGTX_VSIZE :: u32 where "LN_SZ_FUNDINGTX_VSIZE = 177"
definition CHANNEL_FLAGS_VALUE :: byte where "CHANNEL_FLAGS_VALUE = 1"

definition ln_calc_fee :: "u32 \<Rightarrow> u64 \<Rightarrow> u64" where
  "ln_calc_fee vsize feerate_kw = ucast vsize * feerate_kw * 4 div 1000"

definition ln_estimate_initcommittx_fee :: "u32 \<Rightarrow> u64" where
  "ln_estimate_initcommittx_fee FeeratePerKw = LN_FEE_COMMIT_BASE * ucast FeeratePerKw div 1000"

section \<open>Keys and scripts\<close>

text \<open>\<^verbatim>\<open>ln_signer_create_channelkeys\<close>: the five base keys and the first per-commitment point.\<close>

definition set_base_key :: "'p ln_env \<Rightarrow> bytes list \<Rightarrow> nat \<Rightarrow> ln_funding_data_t \<Rightarrow> ln_funding_data_t" where
  "set_base_key env privs lp d =
     (case priv2pub env (privs ! lp) of Some p \<Rightarrow> d\<lparr>pubkeys := (pubkeys d)[lp := p]\<rparr> | None \<Rightarrow> d)"

definition ln_signer_create_channelkeys :: "'p ln_env \<Rightarrow> open_env \<Rightarrow> ln_self_t \<Rightarrow> ln_self_t" where
  "ln_signer_create_channelkeys env oe self =
     ln_signer_keys_update_storage env
       (self\<lparr>storage_index := LN_SECINDEX_INIT,
          funding_local := fold (set_base_key env (oe_privs oe))
            (filter (\<lambda>lp. lp \<noteq> MSG_FUNDIDX_PER_COMMIT) [MSG_FUNDIDX_FUNDING..<LN_FUNDIDX_MAX]) (funding_local self)\<rparr>)"

definition btc_keys_create2of2 :: "bytes \<Rightarrow> bytes \<Rightarrow> bytes" where
  "btc_keys_create2of2 pPubKey1 pPubKey2 =
     [0x52, of_nat BTC_SZ_PUBKEY] @ pPubKey1 @ [of_nat BTC_SZ_PUBKEY] @ pPubKey2 @ [0x52, BTC_OP_CHECKMULTISIG]"

text \<open>\<open>memcmp(k1, k2) < 0\<close>: the first differing octet of \<open>k2\<close> is the larger one.\<close>

definition btc_util_create2of2 :: "bytes \<Rightarrow> bytes \<Rightarrow> bytes \<times> bool" where
  "btc_util_create2of2 pPubKey1 pPubKey2 =
     (if memcmp_gt pPubKey2 pPubKey1 then (btc_keys_create2of2 pPubKey1 pPubKey2, True)
      else (btc_keys_create2of2 pPubKey2 pPubKey1, False))"

definition create_redeem :: "ln_self_t \<Rightarrow> ln_self_t" where
  \<comment> \<open>\<open>btc_util_create2of2(&self->redeem_fund, &self->key_fund_sort, ...)\<close>\<close>
  "create_redeem self =
     (let (redeem, sort) = btc_util_create2of2 (pubkeys (funding_local self) ! MSG_FUNDIDX_FUNDING)
        (pubkeys (funding_remote self) ! MSG_FUNDIDX_FUNDING) in
      self\<lparr>redeem_fund := redeem, key_fund_local_first := sort\<rparr>)"

definition p2wsh_vout :: "'p ln_env \<Rightarrow> u64 \<Rightarrow> bytes \<Rightarrow> btc_vout_t" where
  "p2wsh_vout env Value script =
     \<lparr>vout_value = Value, vout_script = btc_sw_wit2prog_p2wsh (sha256 env) script, vout_opt = 0\<rparr>"

section \<open>Sending\<close>

text \<open>
  The results of \<open>ln_msg_..._create\<close> are not looked at: a message that could not be created leaves the
  buffer on the stack uninitialised, and it is sent.
\<close>

definition send_created :: "utl_buf_t c_result \<Rightarrow> ln_self_t \<Rightarrow> ln_self_t c_result" where
  "send_created r self =
     try_c (with_bytes r Inr) (\<lambda>b. case b of
       Some buf_bolt \<Rightarrow> Inr (callback (CB_SEND_REQ (Some buf_bolt)) self)
     | None \<Rightarrow> Inl Read_Overrun)"

definition text_bytes :: "string \<Rightarrow> bytes" where
  "text_bytes s = map (\<lambda>c. of_nat (of_char c)) s"

fun decimal :: "nat \<Rightarrow> string" where
  "decimal n = (if n < 10 then [char_of (48 + n)] else decimal (n div 10) @ [char_of (48 + n mod 10)])"

definition send_err :: "lnerr_t \<Rightarrow> string \<Rightarrow> ln_self_t \<Rightarrow> (bool \<times> ln_self_t) c_result" where
  \<comment> \<open>\<open>M_SEND_ERR(self, err, ...); return false;\<close>\<close>
  "send_err e msg self =
     bind_c (send_created (ln_msg_error_create \<lparr>err_channel_id = channel_id self,
         err_len = of_nat (length msg), err_data = text_bytes msg\<rparr>) (set_err e self)) (\<lambda>self.
     Inr (False, self))"

section \<open>open_channel\<close>

text \<open>
  The work area is set by \<^verbatim>\<open>ln_establish_alloc\<close>; what is in the messages before the first one is
  written is what \<^verbatim>\<open>malloc\<close> returned.
\<close>

definition ln_establish_alloc ::
  "ln_open_channel_t \<Rightarrow> ln_accept_channel_t \<Rightarrow> ln_establish_prm_t \<Rightarrow> ln_self_t \<Rightarrow> ln_self_t" where
  "ln_establish_alloc fresh_open fresh_accept prm self =
     (case p_establish self of
        Some _ \<Rightarrow> self
      | None \<Rightarrow> self\<lparr>p_establish := Some \<lparr>cnl_open = fresh_open, cnl_accept = fresh_accept,
          p_fundin = None, estprm = prm\<rparr>\<rparr>)"

definition set_open_params :: "ln_open_channel_t \<Rightarrow> ln_commit_data_t \<Rightarrow> ln_commit_data_t" where
  "set_open_params m cd = cd\<lparr>dust_limit_sat := oc_dust_limit_sat m,
     max_htlc_value_in_flight_msat := oc_max_htlc_value_in_flight_msat m,
     channel_reserve_sat := oc_channel_reserve_sat m, htlc_minimum_msat := oc_htlc_minimum_msat m,
     to_self_delay := oc_to_self_delay m, max_accepted_htlcs := oc_max_accepted_htlcs m\<rparr>"

definition set_accept_params :: "ln_accept_channel_t \<Rightarrow> ln_commit_data_t \<Rightarrow> ln_commit_data_t" where
  "set_accept_params m cd = cd\<lparr>dust_limit_sat := ac_dust_limit_sat m,
     max_htlc_value_in_flight_msat := ac_max_htlc_value_in_flight_msat m,
     channel_reserve_sat := ac_channel_reserve_sat m, htlc_minimum_msat := ac_htlc_minimum_msat m,
     to_self_delay := ac_to_self_delay m, max_accepted_htlcs := ac_max_accepted_htlcs m\<rparr>"

definition open_message :: "ln_establish_prm_t \<Rightarrow> u64 \<Rightarrow> u64 \<Rightarrow> u32 \<Rightarrow> ln_self_t \<Rightarrow> ln_open_channel_t" where
  "open_message prm FundingSat PushSat FeeRate self =
     \<lparr>oc_temp_channel_id = channel_id self, oc_funding_sat = FundingSat,
      oc_push_msat = LN_SATOSHI2MSAT PushSat, oc_dust_limit_sat = ep_dust_limit_sat prm,
      oc_max_htlc_value_in_flight_msat = ep_max_htlc_value_in_flight_msat prm,
      oc_channel_reserve_sat = ep_channel_reserve_sat prm, oc_htlc_minimum_msat = ep_htlc_minimum_msat prm,
      oc_feerate_per_kw = FeeRate, oc_to_self_delay = ep_to_self_delay prm,
      oc_max_accepted_htlcs = ep_max_accepted_htlcs prm, oc_pubkeys = pubkeys (funding_local self),
      oc_channel_flags = CHANNEL_FLAGS_VALUE\<rparr>"

definition chk_peer_node :: "ln_self_t \<Rightarrow> bool" where
  "chk_peer_node self \<longleftrightarrow> peer_node_id self ! 0 \<noteq> 0"

text \<open>The result is the return value, the content of \<open>pOpen\<close> (\<open>None\<close> if it was not filled) and the state.\<close>

definition ln_open_channel_create ::
  "'p ln_env \<Rightarrow> open_env \<Rightarrow> ln_fundin_t \<Rightarrow> u64 \<Rightarrow> u64 \<Rightarrow> u32 \<Rightarrow> ln_self_t \<Rightarrow>
   (bool \<times> bytes option \<times> ln_self_t) c_result" where
  "ln_open_channel_create env oe pFundin FundingSat PushSat FeeRate self =
     (if init_flag self AND 3 \<noteq> 3 then Inr (False, None, set_err LNERR_INV_STATE self)
      else if \<not> chk_peer_node self then Inr (False, None, set_err LNERR_NO_PEER self)
      else if is_funding self then Inr (False, None, set_err LNERR_ALREADY_FUNDING self)
      else
        let self = update_scriptkeys env (ln_signer_create_channelkeys env oe (self\<lparr>channel_id := oe_id oe\<rparr>)) in
        case p_establish self of
          None \<Rightarrow> Inl Null_Deref
        | Some est \<Rightarrow>
            if p_fundin est \<noteq> None then Inl Assert_Failed
            else
              let m = open_message (estprm est) FundingSat PushSat FeeRate self;
                  self = self\<lparr>p_establish := Some (est\<lparr>p_fundin := Some pFundin, cnl_open := m\<rparr>)\<rparr> in
              try_c (with_bytes (ln_msg_open_channel_create (oe_chkpub oe) (chain_hash env) m) Inr) (\<lambda>pOpen.
              Inr (True, pOpen, self\<lparr>
                commit_local := set_open_params m (commit_local self),
                our_msat := LN_SATOSHI2MSAT (oc_funding_sat m) - oc_push_msat m, their_msat := oc_push_msat m,
                funding_sat := oc_funding_sat m, feerate_per_kw := oc_feerate_per_kw m,
                is_funder := True, is_announce := oc_channel_flags m AND 1 \<noteq> 0, is_funding := True, is_opened := False\<rparr>)))"

declare decimal.simps [simp del]

definition no_establish :: "ln_self_t \<Rightarrow> (ln_establish_t \<Rightarrow> handler_result) \<Rightarrow> handler_result" where
  \<comment> \<open>\<open>self->p_establish->...\<close>\<close>
  "no_establish self k = (case p_establish self of None \<Rightarrow> Inl Null_Deref | Some est \<Rightarrow> k est)"

definition accept_message :: "ln_establish_prm_t \<Rightarrow> ln_self_t \<Rightarrow> ln_accept_channel_t" where
  "accept_message prm self =
     \<lparr>ac_temp_channel_id = channel_id self, ac_dust_limit_sat = ep_dust_limit_sat prm,
      ac_max_htlc_value_in_flight_msat = ep_max_htlc_value_in_flight_msat prm,
      ac_channel_reserve_sat = ep_channel_reserve_sat prm, ac_htlc_minimum_msat = ep_htlc_minimum_msat prm,
      ac_min_depth = ep_min_depth prm, ac_to_self_delay = ep_to_self_delay prm,
      ac_max_accepted_htlcs = ep_max_accepted_htlcs prm, ac_pubkeys = pubkeys (funding_local self)\<rparr>"

text \<open>The checks after \<open>open_channel\<close> has been read: the error, or nothing.\<close>

definition open_channel_error :: "ln_open_channel_t \<Rightarrow> string option" where
  "open_channel_error m =
     (if oc_feerate_per_kw m < LN_FEERATE_PER_KW_MIN then Some ''fail: feerate_per_kw is too short''
      else
        let fee = ln_estimate_initcommittx_fee (oc_feerate_per_kw m) in
        if oc_funding_sat m < fee + BTC_DUST_LIMIT + LN_FUNDSAT_MIN
        then Some (''funding_sat too low('' @ decimal (unat (oc_funding_sat m)) @ '' < '' @
          decimal (unat (fee + BTC_DUST_LIMIT + LN_FUNDSAT_MIN)) @ '')'' @ [CHR 0x0A])
        else None)"

definition recv_open_channel :: "'p ln_env \<Rightarrow> open_env \<Rightarrow> bytes \<Rightarrow> ln_self_t \<Rightarrow> handler_result" where
  "recv_open_channel env oe pData self =
     (if is_funder self then Inr (False, set_err LNERR_INV_SIDE self)
      else if is_funding self then Inr (False, set_err LNERR_ALREADY_FUNDING self)
      else if short_channel_id self \<noteq> 0 then Inr (False, set_err LNERR_ALREADY_FUNDING self)
      else
        no_establish self (\<lambda>est.
        read_msg (ln_msg_open_channel_read (oe_chkpub oe) (chain_hash env) pData) self (\<lambda>m.
        let self = (callback CB_SET_LATEST_FEERATE (self\<lparr>channel_id := oc_temp_channel_id m,
              funding_remote := (funding_remote self)\<lparr>pubkeys := oc_pubkeys m\<rparr>,
              p_establish := Some (est\<lparr>cnl_open := m\<rparr>)\<rparr>))\<lparr>feerate_per_kw := oe_feerate oe\<rparr> in
        case open_channel_error m of
          Some msg \<Rightarrow> send_err LNERR_INV_VALUE msg self
        | None \<Rightarrow>
            let self = self\<lparr>commit_remote := set_open_params m (commit_remote self),
                  prev_percommit := oc_pubkeys m ! MSG_FUNDIDX_PER_COMMIT,
                  funding_sat := oc_funding_sat m, feerate_per_kw := oc_feerate_per_kw m,
                  our_msat := oc_push_msat m,
                  their_msat := LN_SATOSHI2MSAT (oc_funding_sat m) - oc_push_msat m\<rparr>;
                self = update_scriptkeys env (ln_signer_create_channelkeys env oe self);
                acc = accept_message (estprm est) self;
                self = self\<lparr>p_establish := Some (est\<lparr>cnl_open := m, cnl_accept := acc\<rparr>)\<rparr> in
            bind_c (send_created (ln_msg_accept_channel_create (oe_chkpub oe) acc) self) (\<lambda>self.
            Inr (True, (create_redeem (self\<lparr>min_depth := ac_min_depth acc,
              commit_local := set_accept_params acc (commit_local self),
              obscured := ln_script_calc_obscured_txnum (sha256 env) (oc_pubkeys m ! MSG_FUNDIDX_PAYMENT)
                (ac_pubkeys acc ! MSG_FUNDIDX_PAYMENT)\<rparr>))
              \<lparr>is_funder := False, is_announce := oc_channel_flags m AND 1 \<noteq> 0, is_funding := True, is_opened := False\<rparr>)))))"

section \<open>accept_channel\<close>

definition find_vout :: "bytes \<Rightarrow> btc_vout_t list \<Rightarrow> nat option" where
  "find_vout script vs = first_slot (\<lambda>v. vout_script v = script) vs"

text \<open>\<^verbatim>\<open>create_funding_tx(self, true)\<close>; the state keeps the outputs of the transaction.\<close>

definition create_funding_tx ::
  "'p ln_env \<Rightarrow> open_env \<Rightarrow> ln_establish_t \<Rightarrow> ln_self_t \<Rightarrow> handler_result" where
  "create_funding_tx env oe est self =
     (let self = create_redeem (self\<lparr>tx_funding := []\<rparr>);
          self = self\<lparr>funding_txindex := 0\<rparr>;
          sat = oc_funding_sat (cnl_open est) in
      case p_fundin est of
        None \<Rightarrow> Inl Null_Deref
      | Some fundin \<Rightarrow>
          let fee = ln_calc_fee LN_SZ_FUNDINGTX_VSIZE (ucast (oc_feerate_per_kw (cnl_open est)));
              outs = [p2wsh_vout env sat (redeem_fund self),
                \<lparr>vout_value = (if fi_amount fundin \<ge> sat + fee then fi_amount fundin - sat - fee else - 1),
                  vout_script = fi_change_spk fundin, vout_opt = 0\<rparr>] in
          if \<not> fi_amount fundin \<ge> sat + fee then Inr (False, self\<lparr>tx_funding := outs\<rparr>)
          else
            let self = callback CB_SIGN_FUNDINGTX_REQ self in
            case oe_sign_funding oe outs (fi_amount fundin) of
              None \<Rightarrow> Inr (False, self\<lparr>tx_funding := []\<rparr>)
            | Some (outs, tid) \<Rightarrow>
                let self = self\<lparr>tx_funding := outs, funding_txid := tid\<rparr> in
                case find_vout (btc_sw_wit2prog_p2wsh (sha256 env) (redeem_fund self)) outs of
                  Some lp \<Rightarrow> Inr (True, self\<lparr>funding_txindex := of_nat lp\<rparr>)
                | None \<Rightarrow> Inr (False, self))"

definition recv_accept_channel :: "'p ln_env \<Rightarrow> open_env \<Rightarrow> bytes \<Rightarrow> ln_self_t \<Rightarrow> handler_result" where
  "recv_accept_channel env oe pData self =
     (if \<not> is_funder self then Inr (False, set_err LNERR_INV_SIDE self)
      else
        no_establish self (\<lambda>est.
        read_msg (ln_msg_accept_channel_read (oe_chkpub oe) pData) self (\<lambda>m.
        let est = est\<lparr>cnl_accept := m\<rparr>;
            self = self\<lparr>p_establish := Some est, funding_remote := (funding_remote self)\<lparr>pubkeys := ac_pubkeys m\<rparr>\<rparr> in
        chk_chan (ac_temp_channel_id m) self (
        let self = update_scriptkeys env (self\<lparr>min_depth := ac_min_depth m,
              commit_remote := set_accept_params m (commit_remote self),
              prev_percommit := ac_pubkeys m ! MSG_FUNDIDX_PER_COMMIT\<rparr>) in
        bind_c (create_funding_tx env oe est self) (\<lambda>(ret, self).
        if \<not> ret then Inr (False, set_err LNERR_CREATE_TX self)
        else
          let self = self\<lparr>obscured := ln_script_calc_obscured_txnum (sha256 env)
                  (oc_pubkeys (cnl_open est) ! MSG_FUNDIDX_PAYMENT) (ac_pubkeys m ! MSG_FUNDIDX_PAYMENT),
                commit_local := (commit_local self)\<lparr>to_self_delay := oc_to_self_delay (cnl_open est)\<rparr>,
                commit_remote := (commit_remote self)\<lparr>dust_limit_sat := ac_dust_limit_sat m\<rparr>\<rparr> in
          bind_c (create_to_remote env (commit_remote self) False 0 self) (\<lambda>(ret, cd, _).
          let self = self\<lparr>commit_remote := cd\<rparr> in
          if ret then
            bind_c (send_created (ln_msg_funding_created_create \<lparr>fc_temp_channel_id = channel_id self,
                fc_funding_txid = funding_txid self, fc_funding_output_idx = funding_txindex self,
                fc_signature = cd_signature (commit_remote self)\<rparr>) self) (\<lambda>self.
            Inr (True, self))
          else Inr (False, self)))))))"

section \<open>funding_created, funding_signed\<close>

definition start_funding_wait :: "'p ln_env \<Rightarrow> open_env \<Rightarrow> bool \<Rightarrow> ln_self_t \<Rightarrow> ln_self_t" where
  "start_funding_wait env oe bSendTx self =
     (let self = self\<lparr>commit_local := (commit_local self)\<lparr>commit_num := 0, revoke_num := - 1\<rparr>,
            commit_remote := (commit_remote self)\<lparr>commit_num := 0, revoke_num := - 1\<rparr>\<rparr>;
          self = callback (CB_FUNDINGTX_WAIT bSendTx)
            (update_scriptkeys env (ln_signer_keys_update_storage env self)) in
      if bSendTx \<longrightarrow> oe_send_funding oe then
        callback DB_SELF_SAVE (callback DB_SECRET_SAVE (self\<lparr>ch_status := LN_STATUS_ESTABLISH\<rparr>))
      else self)"

definition recv_funding_created :: "'p ln_env \<Rightarrow> open_env \<Rightarrow> bytes \<Rightarrow> ln_self_t \<Rightarrow> handler_result" where
  "recv_funding_created env oe pData self =
     (if is_funder self then Inr (False, set_err LNERR_INV_SIDE self)
      else
        no_establish self (\<lambda>est.
        read_msg (ln_msg_funding_created_read pData) self (\<lambda>m.
        let self = self\<lparr>funding_txid := fc_funding_txid m,
              commit_local := (commit_local self)\<lparr>cd_signature := fc_signature m\<rparr>\<rparr> in
        chk_chan (fc_temp_channel_id m) self (
        let self = self\<lparr>funding_txindex := fc_funding_output_idx m,
              tx_funding := replicate (unat (fc_funding_output_idx m)) \<lparr>vout_value = 0, vout_script = [], vout_opt = 0\<rparr> @
                [p2wsh_vout env (oc_funding_sat (cnl_open est)) (redeem_fund self)]\<rparr> in
        bind_c (create_to_local env None 0 0 (ucast (oc_to_self_delay (cnl_open est)))
            (ac_dust_limit_sat (cnl_accept est)) self) (\<lambda>(ret, self).
        if \<not> ret then Inr (False, self)
        else
          let self = self\<lparr>commit_local := (commit_local self)\<lparr>to_self_delay := ac_to_self_delay (cnl_accept est)\<rparr>,
                commit_remote := (commit_remote self)\<lparr>dust_limit_sat := oc_dust_limit_sat (cnl_open est)\<rparr>\<rparr> in
          bind_c (create_to_remote env (commit_remote self) False 0 self) (\<lambda>(ret, cd, _).
          let self = self\<lparr>commit_remote := cd\<rparr> in
          if \<not> ret then Inr (False, self)
          else
            bind_c (ln_misc_calc_channel_id (funding_txid self) (funding_txindex self)) (\<lambda>cid.
            let self = self\<lparr>channel_id := cid\<rparr> in
            bind_c (send_created (ln_msg_funding_signed_create \<lparr>fs_channel_id = channel_id self,
                fs_signature = cd_signature (commit_remote self)\<rparr>) self) (\<lambda>self.
            Inr (True, start_funding_wait env oe False self)))))))))"

definition recv_funding_signed :: "'p ln_env \<Rightarrow> open_env \<Rightarrow> bytes \<Rightarrow> ln_self_t \<Rightarrow> handler_result" where
  "recv_funding_signed env oe pData self =
     (if \<not> is_funder self then Inr (False, set_err LNERR_INV_SIDE self)
      else
        no_establish self (\<lambda>est.
        read_msg (ln_msg_funding_signed_read pData) self (\<lambda>m.
        bind_c (ln_misc_calc_channel_id (funding_txid self) (funding_txindex self)) (\<lambda>cid.
        let self = self\<lparr>commit_local := (commit_local self)\<lparr>cd_signature := fs_signature m\<rparr>, channel_id := cid\<rparr> in
        chk_chan (fs_channel_id m) self (
        bind_c (create_to_local env None 0 0 (ucast (ac_to_self_delay (cnl_accept est)))
            (oc_dust_limit_sat (cnl_open est)) self) (\<lambda>(ret, self).
        if \<not> ret then Inr (False, self)
        else Inr (True, start_funding_wait env oe True self)))))))"

section \<open>funding_locked\<close>

definition ln_funding_locked_check_need :: "ln_self_t \<Rightarrow> bool" where
  "ln_funding_locked_check_need self \<longleftrightarrow>
     short_channel_id self \<noteq> 0 \<and>
     (commit_num (commit_local self) = 0 \<and> commit_num (commit_remote self) = 0 \<or>
      reest_commit_num self = 1 \<and> reest_revoke_num self = 0)"

definition ln_funding_locked_create :: "ln_self_t \<Rightarrow> utl_buf_t c_result" where
  "ln_funding_locked_create self =
     ln_msg_funding_locked_create \<lparr>fl_channel_id = channel_id self,
       fl_per_commitpt = pubkeys (funding_local self) ! MSG_FUNDIDX_PER_COMMIT\<rparr>"

definition recv_funding_locked :: "'p ln_env \<Rightarrow> bytes \<Rightarrow> ln_self_t \<Rightarrow> handler_result" where
  "recv_funding_locked env pData self =
     read_msg (ln_msg_funding_locked_read pData) self (\<lambda>m.
     chk_chan (fl_channel_id m) self (
     let d = funding_remote self;
         self = self\<lparr>funding_remote := d\<lparr>pubkeys := (pubkeys d)[MSG_FUNDIDX_PER_COMMIT := fl_per_commitpt m]\<rparr>\<rparr>;
         self = update_scriptkeys env (free_establish True self) in
     Inr (True, callback CB_FUNDINGLOCKED_RECV (callback DB_SELF_SAVE self))))"

section \<open>The two sides of a commitment transaction\<close>

text \<open>Without HTLCs, what the one side builds as its own transaction the other builds as the remote one.\<close>

definition commit_mirror :: "ln_self_t \<Rightarrow> ln_self_t \<Rightarrow> bool" where
  "commit_mirror a b \<longleftrightarrow>
     set (cnl_add_htlc a) \<subseteq> {htlc_zero} \<and> set (cnl_add_htlc b) \<subseteq> {htlc_zero} \<and>
     funding_txid a = funding_txid b \<and> funding_txindex a = funding_txindex b \<and> funding_sat a = funding_sat b \<and>
     redeem_fund a = redeem_fund b \<and> feerate_per_kw a = feerate_per_kw b \<and> obscured a = obscured b \<and>
     is_funder a \<noteq> is_funder b \<and> our_msat a = their_msat b \<and> their_msat a = our_msat b \<and>
     scriptpubkeys (funding_local a) = scriptpubkeys (funding_remote b) \<and>
     scriptpubkeys (funding_remote a) = scriptpubkeys (funding_local b)"

lemma commit_mirror_sym: "commit_mirror a b \<Longrightarrow> commit_mirror b a"
  by (auto simp: commit_mirror_def)

lemma remote_step_zero: "remote_htlcinfo_step (i, htlc_zero) s = s"
  by (cases s) (simp add: remote_htlcinfo_step_def htlc_zero_def flag_zero_def LN_HTLC_ENABLE_def LN_HTLC_EMPTY_def)

lemma fold_zero:
  assumes "set hs \<subseteq> {h}" "\<And>i s. f (i, h) s = s"
  shows "fold f (enumerate n hs) s = s"
  using assms(1) by (induction hs arbitrary: n) (simp_all add: assms(2))

lemma no_htlcs:
  assumes "set hs \<subseteq> {htlc_zero}"
  shows "create_to_local_htlcinfo_amount hs our their = ([], our, their)"
    "create_to_remote_htlcinfo hs our their = ([], our, their)"
  unfolding create_to_local_htlcinfo_amount_def create_to_remote_htlcinfo_def
  by (rule fold_zero [OF assms], rule local_step_zero, rule fold_zero [OF assms], rule remote_step_zero)

lemma commit_tx_mirror:
  assumes "commit_mirror a b" "sha256 ea = sha256 eb" "ripemd160 ea = ripemd160 eb"
    and "Delay = ucast (to_self_delay (commit_local b))"
  shows "local_commit_tx ea CommitNum Delay Dust a = remote_commit_tx eb CommitNum Dust b"
  using assms
  by (auto simp: local_commit_tx_def remote_commit_tx_def commit_mirror_def no_htlcs commit_struct_def Let_def)

text \<open>The transaction of the side \<open>self\<close>, and when it has an output.\<close>

lemma committx_scripts:
  assumes "0 < dust_limit_satoshi (ct_feeinfo cmt)" "unat (dust_limit_satoshi (ct_feeinfo cmt)) < 2 ^ 63"
    and "unat (fi_commit (ct_feeinfo cmt)) < 2 ^ 63" "ct_htlcinfos cmt = []"
  shows "\<forall>v\<in>set (committx_vouts sha rip cmt Local). vout_script v \<noteq> [] \<and> vout_value v \<noteq> 0"
proof -
  have "x - fee \<noteq> 0" if "dust_limit_satoshi (ct_feeinfo cmt) + fee \<le> x" "fee \<in> {0, fi_commit (ct_feeinfo cmt)}" for x fee
    using sub_nonzero [OF that(1) assms(1,2)] that(2) assms(3) by auto
  then show ?thesis
    using assms(4) by (auto simp: committx_vouts_def htlc_vouts_def p2wpkh_pub_def btc_sw_wit2prog_p2wsh_def Let_def)
qed

lemma first_commit_tx:
  assumes "wf_env env" "wf_self self" "set (cnl_add_htlc self) \<subseteq> {htlc_zero}"
  obtains ws tx where
    "local_commit_tx env CommitNum Delay Dust self = Inr (ws, [], fst (ln_script_fee_calc (feerate_per_kw self) Dust []), tx)"
    "tx_ok (fst (ln_script_fee_calc (feerate_per_kw self) Dust [])) [] tx"
    "Dust + fi_commit (fst (ln_script_fee_calc (feerate_per_kw self) Dust [])) \<le>
       LN_MSAT2SATOSHI (if is_funder self then our_msat self else their_msat self) \<Longrightarrow>
     0 < Dust \<Longrightarrow> Dust < 2 ^ 63 \<Longrightarrow> length (funding_txid self) = BTC_SZ_TXID \<Longrightarrow> signable_tx tx"
proof -
  let ?fi = "fst (ln_script_fee_calc (feerate_per_kw self) Dust [])"
  let ?k = "scriptpubkeys (funding_local self)"
  obtain ws infos fi tx where tx: "local_commit_tx env CommitNum Delay Dust self = Inr (ws, infos, fi, tx)"
    "tx_ok fi infos tx"
    using local_commit_tx_defined [OF assms(1,2)] by blast
  let ?cmt = "commit_struct self ws ?k ?fi [] (our_msat self) (their_msat self) CommitNum"
  let ?vouts = "committx_vouts (sha256 env) (ripemd160 env) ?cmt (is_funder self)"
  have eq: "infos = []" "fi = ?fi"
    "tx = ln_script_committx_create (sha256 env) (ripemd160 env) ?cmt (is_funder self)"
    using tx(1) by (auto simp: local_commit_tx_def Let_def no_htlcs [OF assms(3)] with_bytes_def bind_c_def
        split: sum.splits option.splits)
  have fi: "dust_limit_satoshi ?fi = Dust" "unat (fi_commit ?fi) < 2 ^ 63"
    using div1000_small by (simp_all add: ln_script_fee_calc_def Let_def case_prod_beta)
  show ?thesis
  proof (rule that)
    assume pay: "Dust + fi_commit ?fi \<le> LN_MSAT2SATOSHI (if is_funder self then our_msat self else their_msat self)"
      and dust: "0 < Dust" "Dust < 2 ^ 63" and id: "length (funding_txid self) = BTC_SZ_TXID"
    have "?vouts \<noteq> []"
      using pay fi(1) by (cases "is_funder self") (simp_all add: committx_vouts_def commit_struct_def Let_def)
    then have "tx_vout tx \<noteq> []"
      using bip69_mset unfolding eq(3) ln_script_committx_create_def by (metis btc_tx_t.select_convs(4) mset_zero_iff)
    moreover have "set (tx_vout tx) = set ?vouts"
      unfolding eq(3) ln_script_committx_create_def by (simp add: mset_eq_setD [OF bip69_mset])
    moreover have "\<forall>v\<in>set ?vouts. vout_script v \<noteq> [] \<and> vout_value v \<noteq> 0"
      using fi dust by (intro committx_scripts) (simp_all add: commit_struct_def word_less_nat_alt)
    moreover have "vin_txid tx = funding_txid self"
      unfolding eq(3) by (simp add: ln_script_committx_create_def commit_struct_def)
    ultimately show "signable_tx tx" using id by (simp add: signable_tx_def)
  qed (use tx eq in simp_all)
qed

section \<open>The steps of an undisturbed opening\<close>

text \<open>
  The keys of a node for one channel: the random ones and the first per-commitment secret are private
  keys, that is, have public keys.
\<close>

definition channel_privs :: "'p ln_env \<Rightarrow> open_env \<Rightarrow> ln_self_t \<Rightarrow> bytes list" where
  "channel_privs env oe self =
     oe_privs oe @ [ln_derkey_create_secret (sha256 env) (storage_seed self) LN_SECINDEX_INIT]"

definition key_service :: "'p ln_env \<Rightarrow> open_env \<Rightarrow> ln_self_t \<Rightarrow> bool" where
  "key_service env oe self \<longleftrightarrow>
     length (oe_privs oe) = 5 \<and> (\<forall>s\<in>set (oe_privs oe). length s = BTC_SZ_PRIVKEY) \<and>
     length (oe_id oe) = LN_SZ_CHANNEL_ID \<and> length (chain_hash env) = BTC_SZ_HASH256 \<and>
     (\<forall>s\<in>set (channel_privs env oe self). \<exists>p. priv2pub env s = Some p \<and> oe_chkpub oe p)"

text \<open>The keys of the scripts for the commitment transaction of the side with the keys \<open>l\<close> can be derived.\<close>

definition keys_derive :: "'p ln_env \<Rightarrow> bytes list \<Rightarrow> bytes list \<Rightarrow> bool" where
  "keys_derive env l r \<longleftrightarrow>
     (\<forall>b\<in>{r ! MSG_FUNDIDX_PAYMENT, l ! MSG_FUNDIDX_DELAYED, l ! MSG_FUNDIDX_HTLC, r ! MSG_FUNDIDX_HTLC}.
        ln_derkey_pubkey (ec env) (sha256 env) b (l ! MSG_FUNDIDX_PER_COMMIT) \<noteq> None) \<and>
     ln_derkey_revocationkey (ec env) (sha256 env) (r ! MSG_FUNDIDX_REVOCATION) (l ! MSG_FUNDIDX_PER_COMMIT) \<noteq> None"

definition public_keys :: "open_env \<Rightarrow> bytes list \<Rightarrow> bool" where
  "public_keys oe ks \<longleftrightarrow> length ks = 6 \<and> (\<forall>k\<in>set ks. length k = BTC_SZ_PUBKEY \<and> oe_chkpub oe k)"

text \<open>The script keys for the commitment transaction of the side with the keys \<open>l\<close>.\<close>

definition script_keys :: "'p ln_env \<Rightarrow> bytes list \<Rightarrow> bytes list \<Rightarrow> bytes list" where
  "script_keys env l r =
     [the (ln_derkey_pubkey (ec env) (sha256 env) (r ! MSG_FUNDIDX_PAYMENT) (l ! MSG_FUNDIDX_PER_COMMIT)),
      the (ln_derkey_pubkey (ec env) (sha256 env) (l ! MSG_FUNDIDX_DELAYED) (l ! MSG_FUNDIDX_PER_COMMIT)),
      the (ln_derkey_revocationkey (ec env) (sha256 env) (r ! MSG_FUNDIDX_REVOCATION) (l ! MSG_FUNDIDX_PER_COMMIT)),
      the (ln_derkey_pubkey (ec env) (sha256 env) (l ! MSG_FUNDIDX_HTLC) (l ! MSG_FUNDIDX_PER_COMMIT)),
      the (ln_derkey_pubkey (ec env) (sha256 env) (r ! MSG_FUNDIDX_HTLC) (l ! MSG_FUNDIDX_PER_COMMIT))]"

lemma set_script_keys:
  assumes "length (scriptpubkeys d) = 5" "a \<noteq> None" "b \<noteq> None" "c \<noteq> None" "e \<noteq> None" "f \<noteq> None"
  shows "scriptpubkeys (set_script_key 4 f (set_script_key 3 e (set_script_key 2 c
    (set_script_key (Suc 0) b (set_script_key 0 a d))))) = [the a, the b, the c, the e, the f]"
  using assms by (auto simp: set_script_key_def length_Suc_conv eval_nat_numeral)

lemma scriptkeys_derived:
  assumes "wf_self self"
    and "keys_derive env (pubkeys (funding_local self)) (pubkeys (funding_remote self))"
      "keys_derive env (pubkeys (funding_remote self)) (pubkeys (funding_local self))"
  shows "scriptpubkeys (funding_local (update_scriptkeys env self)) =
      script_keys env (pubkeys (funding_local self)) (pubkeys (funding_remote self))"
    "scriptpubkeys (funding_remote (update_scriptkeys env self)) =
      script_keys env (pubkeys (funding_remote self)) (pubkeys (funding_local self))"
proof -
  let ?l = "pubkeys (funding_local self)" and ?r = "pubkeys (funding_remote self)"
  have len: "length (scriptpubkeys (funding_local self)) = 5" "length (scriptpubkeys (funding_remote self)) = 5"
    using assms(1) by (simp_all add: wf_self_def Commit_Build.wf_keys_def)
  show "scriptpubkeys (funding_local (update_scriptkeys env self)) = script_keys env ?l ?r"
    by (simp add: update_scriptkeys_def ln_misc_update_scriptkeys_def Let_def fundidx_defs script_keys_def,
        rule set_script_keys [OF len(1)]) (use assms(2) in \<open>simp_all add: keys_derive_def fundidx_defs\<close>)
  show "scriptpubkeys (funding_remote (update_scriptkeys env self)) = script_keys env ?r ?l"
    by (simp add: update_scriptkeys_def ln_misc_update_scriptkeys_def Let_def fundidx_defs script_keys_def,
        rule set_script_keys [OF len(2)]) (use assms(3) in \<open>simp_all add: keys_derive_def fundidx_defs\<close>)
qed

text \<open>A channel before it is opened, and the public keys that it will use.\<close>

definition fresh_channel :: "ln_establish_t \<Rightarrow> ln_self_t \<Rightarrow> bool" where
  "fresh_channel est self \<longleftrightarrow>
     wf_self self \<and> set (cnl_add_htlc self) \<subseteq> {htlc_zero} \<and> p_establish self = Some est \<and>
     p_fundin est = None \<and> init_flag self AND 3 = 3 \<and> \<not> is_funder self \<and> \<not> is_funding self \<and>
     short_channel_id self = 0"

definition channel_keys :: "'p ln_env \<Rightarrow> open_env \<Rightarrow> ln_self_t \<Rightarrow> bytes list" where
  "channel_keys env oe self = map (\<lambda>s. the (priv2pub env s)) (channel_privs env oe self)"

lemma key_point:
  assumes "wf_env env" "key_service env oe self" "wf_self self" "s \<in> set (channel_privs env oe self)"
  obtains p where "priv2pub env s = Some p" "oe_chkpub oe p" "length p = BTC_SZ_PUBKEY"
proof -
  have "length s = BTC_SZ_PRIVKEY"
    using assms(2,4) length_create_secret [OF assms(1,3)] by (auto simp: key_service_def channel_privs_def)
  moreover have "\<forall>s k. length s = BTC_SZ_PRIVKEY \<longrightarrow> priv2pub env s = Some k \<longrightarrow> length k = BTC_SZ_PUBKEY"
    using assms(1) unfolding wf_env_def by (elim conjE) assumption
  ultimately show ?thesis using assms(2,4) that by (auto simp: key_service_def)
qed

lemma channel_keys_public:
  assumes "wf_env env" "key_service env oe self" "wf_self self"
  shows "public_keys oe (channel_keys env oe self)"
proof -
  have "length (the (priv2pub env s)) = BTC_SZ_PUBKEY \<and> oe_chkpub oe (the (priv2pub env s))"
    if "s \<in> set (channel_privs env oe self)" for s
    using key_point [OF assms that] by (metis option.sel)
  moreover have "length (channel_privs env oe self) = 6"
    using assms(2) by (simp add: key_service_def channel_privs_def)
  ultimately show ?thesis by (auto simp: public_keys_def channel_keys_def)
qed

lemma fold_base_keys:
  assumes "length (pubkeys d) = 6" "length privs = 5" "\<And>s. s \<in> set privs \<Longrightarrow> priv2pub env s \<noteq> None"
  shows "fold (set_base_key env privs) [0..<5] d =
    d\<lparr>pubkeys := map (\<lambda>s. the (priv2pub env s)) privs @ [pubkeys d ! 5]\<rparr>"
proof -
  obtain k0 k1 k2 k3 k4 k5 where k: "pubkeys d = [k0, k1, k2, k3, k4, k5]"
    using assms(1) by (auto simp: length_Suc_conv eval_nat_numeral)
  obtain s0 s1 s2 s3 s4 where s: "privs = [s0, s1, s2, s3, s4]"
    using assms(2) by (auto simp: length_Suc_conv eval_nat_numeral)
  have "\<forall>x\<in>set privs. \<exists>p. priv2pub env x = Some p" using assms(3) by blast
  then obtain p0 p1 p2 p3 p4 where "priv2pub env s0 = Some p0" "priv2pub env s1 = Some p1"
    "priv2pub env s2 = Some p2" "priv2pub env s3 = Some p3" "priv2pub env s4 = Some p4"
    unfolding s by auto
  then show ?thesis by (simp add: s k set_base_key_def upt_rec eval_nat_numeral)
qed

lemma create_channelkeys_eq:
  assumes "wf_env env" "key_service env oe self" "wf_self self"
  shows "ln_signer_create_channelkeys env oe self =
    self\<lparr>priv_percommit := ln_derkey_create_secret (sha256 env) (storage_seed self) LN_SECINDEX_INIT,
      funding_local := (funding_local self)\<lparr>pubkeys := channel_keys env oe self\<rparr>,
      storage_index := LN_SECINDEX_INIT - 1\<rparr>"
proof -
  let ?s = "ln_derkey_create_secret (sha256 env) (storage_seed self) LN_SECINDEX_INIT"
  have six: "length (pubkeys (funding_local self)) = 6" using assms(3) by (simp add: wf_self_def Commit_Build.wf_keys_def)
  have privs: "length (oe_privs oe) = 5" using assms(2) by (simp add: key_service_def)
  have pub: "priv2pub env s \<noteq> None" if "s \<in> set (oe_privs oe) \<or> s = ?s" for s
    using key_point [OF assms, of s] that by (auto simp: channel_privs_def)
  have idx: "filter (\<lambda>lp. lp \<noteq> MSG_FUNDIDX_PER_COMMIT) [MSG_FUNDIDX_FUNDING..<LN_FUNDIDX_MAX] = [0..<5]"
    by (simp add: fundidx_defs upt_rec)
  obtain p where p: "priv2pub env ?s = Some p" using pub [of ?s] by blast
  have fold_eq: "fold (set_base_key env (oe_privs oe)) [0..<5] (funding_local self) = (funding_local self)
      \<lparr>pubkeys := map (\<lambda>s. the (priv2pub env s)) (oe_privs oe) @ [pubkeys (funding_local self) ! 5]\<rparr>"
    by (rule fold_base_keys [OF six privs]) (rule pub, simp)
  show ?thesis
    unfolding ln_signer_create_channelkeys_def idx fold_eq
    using p privs
    by (simp add: ln_signer_keys_update_storage_def ln_signer_keys_update_force_def create_percommitsec_def Let_def
        channel_keys_def channel_privs_def fundidx_defs list_update_append)
qed

lemma redeem_sym:
  assumes "length a = length b"
  shows "fst (btc_util_create2of2 a b) = fst (btc_util_create2of2 b a)"
proof -
  have "\<not> memcmp_gt b a \<Longrightarrow> \<not> memcmp_gt a b \<Longrightarrow> a = b" "\<not> (memcmp_gt b a \<and> memcmp_gt a b)"
    using assms by (induction a b rule: list_induct2') auto
  then show ?thesis by (auto simp: btc_util_create2of2_def)
qed

lemma update_scriptkeys_open [simp]:
  "funding_sat (update_scriptkeys env self) = funding_sat self"
  "funding_txid (update_scriptkeys env self) = funding_txid self"
  "funding_txindex (update_scriptkeys env self) = funding_txindex self"
  "redeem_fund (update_scriptkeys env self) = redeem_fund self"
  "feerate_per_kw (update_scriptkeys env self) = feerate_per_kw self"
  "obscured (update_scriptkeys env self) = obscured self"
  "is_funder (update_scriptkeys env self) = is_funder self"
  "is_funding (update_scriptkeys env self) = is_funding self"
  "short_channel_id (update_scriptkeys env self) = short_channel_id self"
  "p_establish (update_scriptkeys env self) = p_establish self"
  "ch_status (update_scriptkeys env self) = ch_status self"
  by (simp_all add: update_scriptkeys_def Let_def split: prod.split)

lemma wf_update_scriptkeys: "wf_env env \<Longrightarrow> wf_self self \<Longrightarrow> wf_self (update_scriptkeys env self)"
  using step_ok_scriptkeys by (auto simp: step_ok_def)

text \<open>What the messages \<open>m\<close> and \<open>acc\<close> settle for a channel: the amounts, then the keys and the parameters.\<close>

definition terms_of :: "ln_open_channel_t \<Rightarrow> ln_self_t \<Rightarrow> bool" where
  "terms_of m a \<longleftrightarrow>
     wf_self a \<and> set (cnl_add_htlc a) \<subseteq> {htlc_zero} \<and> channel_id a = oc_temp_channel_id m \<and>
     funding_sat a = oc_funding_sat m \<and> feerate_per_kw a = oc_feerate_per_kw m \<and>
     (if is_funder a then our_msat a else their_msat a) = LN_SATOSHI2MSAT (oc_funding_sat m) - oc_push_msat m \<and>
     (if is_funder a then their_msat a else our_msat a) = oc_push_msat m"

definition redeem_of :: "bytes list \<Rightarrow> bytes list \<Rightarrow> bytes" where
  "redeem_of l r = fst (btc_util_create2of2 (l ! MSG_FUNDIDX_FUNDING) (r ! MSG_FUNDIDX_FUNDING))"

definition agreed :: "'p ln_env \<Rightarrow> ln_open_channel_t \<Rightarrow> ln_accept_channel_t \<Rightarrow> ln_self_t \<Rightarrow> bool" where
  "agreed env m acc a \<longleftrightarrow>
     (let (l, r) = (if is_funder a then (oc_pubkeys m, ac_pubkeys acc) else (ac_pubkeys acc, oc_pubkeys m));
          (cf, cg) = (if is_funder a then (commit_local a, commit_remote a) else (commit_remote a, commit_local a)) in
      pubkeys (funding_local a) = l \<and> pubkeys (funding_remote a) = r \<and>
      scriptpubkeys (funding_local a) = script_keys env l r \<and> scriptpubkeys (funding_remote a) = script_keys env r l \<and>
      redeem_fund a = redeem_of (oc_pubkeys m) (ac_pubkeys acc) \<and>
      obscured a = ln_script_calc_obscured_txnum (sha256 env) (oc_pubkeys m ! MSG_FUNDIDX_PAYMENT)
        (ac_pubkeys acc ! MSG_FUNDIDX_PAYMENT) \<and>
      set_open_params m cf = cf \<and> set_accept_params acc cg = cg)"

definition offer_of :: "'p ln_env \<Rightarrow> open_env \<Rightarrow> ln_establish_t \<Rightarrow> u64 \<Rightarrow> u64 \<Rightarrow> u32 \<Rightarrow> ln_self_t \<Rightarrow> ln_open_channel_t" where
  "offer_of env oe est FundingSat PushSat FeeRate f =
     open_message (estprm est) FundingSat PushSat FeeRate
       (f\<lparr>channel_id := oe_id oe, funding_local := (funding_local f)\<lparr>pubkeys := channel_keys env oe f\<rparr>\<rparr>)"

lemma set_params_idem [simp]:
  "set_open_params m (set_open_params m c) = set_open_params m c"
  "set_accept_params acc (set_accept_params acc c) = set_accept_params acc c"
  by (simp_all add: set_open_params_def set_accept_params_def)

lemma set_open_params_delay:
  "set_open_params m c = c \<Longrightarrow> c\<lparr>to_self_delay := oc_to_self_delay m\<rparr> = c"
  "set_open_params m c = c \<Longrightarrow> c\<lparr>dust_limit_sat := oc_dust_limit_sat m\<rparr> = c"
  unfolding set_open_params_def by (cases c; simp)+

lemma set_accept_params_delay:
  "set_accept_params acc c = c \<Longrightarrow> c\<lparr>to_self_delay := ac_to_self_delay acc\<rparr> = c"
  "set_accept_params acc c = c \<Longrightarrow> c\<lparr>dust_limit_sat := ac_dust_limit_sat acc\<rparr> = c"
  unfolding set_accept_params_def by (cases c; simp)+

lemma sat2msat_le:
  assumes "\<not> 16777216 \<le> (f :: u64)" "p \<le> f"
  shows "\<not> LN_SATOSHI2MSAT f < LN_SATOSHI2MSAT p"
proof -
  have "unat f < 16777216" "unat p \<le> unat f"
    using assms by (simp_all add: word_le_nat_alt not_le)
  then have "unat (LN_SATOSHI2MSAT f) = unat f * 1000" "unat (LN_SATOSHI2MSAT p) = unat p * 1000"
    by (simp_all add: LN_SATOSHI2MSAT_def unat_word_ariths)
  then show ?thesis using \<open>unat p \<le> unat f\<close> by (simp add: word_less_nat_alt)
qed

lemma wf_self_funding_keys:
  "wf_self self \<Longrightarrow> length ks = 6 \<Longrightarrow> \<forall>k\<in>set ks. length k = BTC_SZ_PUBKEY \<Longrightarrow>
   wf_self (self\<lparr>funding_local := (funding_local self)\<lparr>pubkeys := ks\<rparr>\<rparr>) \<and>
   wf_self (self\<lparr>funding_remote := (funding_remote self)\<lparr>pubkeys := ks\<rparr>\<rparr>)"
  by (auto simp: wf_self_def Commit_Build.wf_keys_def)

lemma open_sent:
  assumes "wf_env env" "key_service env oe f" "fresh_channel est f" "chk_peer_node f"
    and "\<not> 16777216 \<le> FundingSat" "PushSat \<le> FundingSat" "\<not> 483 < ep_max_accepted_htlcs (estprm est)"
    and "m = offer_of env oe est FundingSat PushSat FeeRate f"
  obtains f1 where
    "ln_open_channel_create env oe fundin FundingSat PushSat FeeRate f = Inr (True, Some (open_channel_wire (chain_hash env) m), f1)"
    "open_channel_wf (oe_chkpub oe) (chain_hash env) m" "terms_of m f1" "is_funder f1"
    "p_establish f1 = Some (est\<lparr>p_fundin := Some fundin, cnl_open := m\<rparr>)"
    "pubkeys (funding_local f1) = oc_pubkeys m" "set_open_params m (commit_local f1) = commit_local f1"
    "sent f1 = sent f"
proof -
  note fresh = assms(3) [unfolded fresh_channel_def]
  let ?c = "f\<lparr>channel_id := oe_id oe\<rparr>"
  let ?k = "ln_signer_create_channelkeys env oe ?c"
  let ?u = "update_scriptkeys env ?k"
  have pk: "public_keys oe (channel_keys env oe f)"
    using channel_keys_public [OF assms(1,2)] fresh by blast
  have wfc: "wf_self ?c" using assms(2) fresh by (simp add: wf_self_def key_service_def)
  have ks: "key_service env oe ?c" using assms(2) by (simp add: key_service_def channel_privs_def)
  note k = create_channelkeys_eq [OF assms(1) ks wfc]
  have ck: "channel_keys env oe ?c = channel_keys env oe f" by (simp add: channel_keys_def channel_privs_def)
  have "wf_self ?k"
    unfolding k ck using wf_self_funding_keys [OF wfc, of "channel_keys env oe f"] pk
    by (simp add: public_keys_def wf_self_def)
  then have wfu: "wf_self ?u" by (rule wf_update_scriptkeys [OF assms(1)])
  have m: "open_message (estprm est) FundingSat PushSat FeeRate ?u = m"
    by (simp add: assms(8) offer_of_def open_message_def k ck)
  have wfm: "open_channel_wf (oe_chkpub oe) (chain_hash env) m"
    using assms(2,5,7) pk sat2msat_le [OF assms(5,6)]
    by (simp add: assms(8) offer_of_def open_message_def open_channel_wf_def key_service_def public_keys_def
        Msg_Establish.wf_keys_def list_all_iff CHANNEL_FLAGS_VALUE_def CHANNEL_FLAGS_MASK_def)
  let ?f1 = "?u\<lparr>p_establish := Some (est\<lparr>p_fundin := Some fundin, cnl_open := m\<rparr>),
    commit_local := set_open_params m (commit_local f),
    our_msat := LN_SATOSHI2MSAT (oc_funding_sat m) - oc_push_msat m, their_msat := oc_push_msat m,
    funding_sat := oc_funding_sat m, feerate_per_kw := oc_feerate_per_kw m,
    is_funder := True, is_announce := oc_channel_flags m AND 1 \<noteq> 0, is_funding := True, is_opened := False\<rparr>"
  have est: "p_establish ?u = Some est" "commit_local ?u = commit_local f"
    using fresh by (simp_all add: k)
  have run: "ln_open_channel_create env oe fundin FundingSat PushSat FeeRate f =
      Inr (True, Some (open_channel_wire (chain_hash env) m), ?f1)"
    unfolding ln_open_channel_create_def Let_def est m
    using assms(4) fresh est open_channel.create_wire [OF wfm] by (simp add: m)
  have pubs: "pubkeys (funding_local ?f1) = oc_pubkeys m" "channel_id ?f1 = oc_temp_channel_id m"
    "cnl_add_htlc ?f1 = cnl_add_htlc f" "sent ?f1 = sent f"
    by (simp_all add: k ck assms(8) offer_of_def open_message_def sent_def)
  have "wf_self ?f1" using wfu est(2) by (simp add: wf_self_def set_open_params_def)
  then have "terms_of m ?f1" using fresh pubs by (simp add: terms_of_def)
  then show ?thesis
    by (rule that [OF run wfm]) (use pubs in simp_all)
qed

text \<open>The answer of the fundee.\<close>

definition accept_of :: "'p ln_env \<Rightarrow> open_env \<Rightarrow> ln_establish_t \<Rightarrow> ln_open_channel_t \<Rightarrow> ln_self_t \<Rightarrow> ln_accept_channel_t" where
  "accept_of env oe est m g =
     accept_message (estprm est) (g\<lparr>channel_id := oc_temp_channel_id m,
       funding_local := (funding_local g)\<lparr>pubkeys := channel_keys env oe g\<rparr>\<rparr>)"

lemma public_keys_wf: "Msg_Establish.wf_keys (oe_chkpub oe) 6 ks = public_keys oe ks"
  by (auto simp: Msg_Establish.wf_keys_def public_keys_def list_all_iff)

lemma accept_wf:
  assumes "open_channel_wf (oe_chkpub oe) chain m" "wf_env env" "key_service env oe g" "wf_self g"
  shows "accept_channel_wf (oe_chkpub oe) (accept_of env oe est m g)"
  using assms(1) channel_keys_public [OF assms(2-4)]
  by (simp add: accept_of_def accept_message_def accept_channel_wf_def open_channel_wf_def public_keys_wf)

lemma create_redeem_simps [simp]:
  "funding_local (create_redeem s) = funding_local s" "funding_remote (create_redeem s) = funding_remote s"
  "cnl_add_htlc (create_redeem s) = cnl_add_htlc s" "channel_id (create_redeem s) = channel_id s"
  "funding_sat (create_redeem s) = funding_sat s" "feerate_per_kw (create_redeem s) = feerate_per_kw s"
  "our_msat (create_redeem s) = our_msat s" "their_msat (create_redeem s) = their_msat s"
  "commit_local (create_redeem s) = commit_local s" "commit_remote (create_redeem s) = commit_remote s"
  "obscured (create_redeem s) = obscured s" "p_establish (create_redeem s) = p_establish s"
  "is_funder (create_redeem s) = is_funder s" "sent (create_redeem s) = sent s" "wf_self (create_redeem s) = wf_self s"
  "funding_txid (create_redeem s) = funding_txid s" "funding_txindex (create_redeem s) = funding_txindex s"
  "redeem_fund (create_redeem s) = redeem_of (pubkeys (funding_local s)) (pubkeys (funding_remote s))"
  by (simp_all add: create_redeem_def Let_def case_prod_beta sent_def wf_self_def redeem_of_def)

lemma redeem_of_sym:
  assumes "public_keys oe l" "public_keys oe r"
  shows "redeem_of l r = redeem_of r l"
proof -
  have "length (l ! 0) = BTC_SZ_PUBKEY" "length (r ! 0) = BTC_SZ_PUBKEY"
    using assms by (simp_all add: public_keys_def)
  then show ?thesis unfolding redeem_of_def by (intro redeem_sym) (simp add: fundidx_defs)
qed

lemma open_accepted:
  assumes "wf_env env" "key_service env oe g" "fresh_channel est g"
    and "open_channel_wf (oe_chkpub oe) (chain_hash env) m" "open_channel_error m = None"
    and "acc = accept_of env oe est m g"
    and "keys_derive env (channel_keys env oe g) (oc_pubkeys m)" "keys_derive env (oc_pubkeys m) (channel_keys env oe g)"
  obtains g1 where
    "recv_open_channel env oe (open_channel_wire (chain_hash env) m) g = Inr (True, g1)"
    "sent g1 = sent g @ [accept_channel_wire acc]" "terms_of m g1" "agreed env m acc g1" "\<not> is_funder g1"
    "p_establish g1 = Some (est\<lparr>cnl_open := m, cnl_accept := acc\<rparr>)" "ch_status g1 = ch_status g"
proof -
  note fresh = assms(3) [unfolded fresh_channel_def]
  let ?r = "(callback CB_SET_LATEST_FEERATE (g\<lparr>channel_id := oc_temp_channel_id m,
      funding_remote := (funding_remote g)\<lparr>pubkeys := oc_pubkeys m\<rparr>,
      p_establish := Some (est\<lparr>cnl_open := m\<rparr>)\<rparr>))\<lparr>feerate_per_kw := oe_feerate oe\<rparr>"
  let ?c = "?r\<lparr>commit_remote := set_open_params m (commit_remote ?r),
      prev_percommit := oc_pubkeys m ! MSG_FUNDIDX_PER_COMMIT,
      funding_sat := oc_funding_sat m, feerate_per_kw := oc_feerate_per_kw m,
      our_msat := oc_push_msat m, their_msat := LN_SATOSHI2MSAT (oc_funding_sat m) - oc_push_msat m\<rparr>"
  let ?k = "ln_signer_create_channelkeys env oe ?c"
  let ?u = "update_scriptkeys env ?k"
  have pk: "public_keys oe (oc_pubkeys m)" "public_keys oe (channel_keys env oe g)"
    using channel_keys_public [OF assms(1,2)] fresh assms(4) by (simp_all add: open_channel_wf_def public_keys_wf)
  have "wf_self ((g\<lparr>channel_id := oc_temp_channel_id m\<rparr>)\<lparr>funding_remote := (funding_remote g)\<lparr>pubkeys := oc_pubkeys m\<rparr>\<rparr>)"
    using wf_self_funding_keys [of "g\<lparr>channel_id := oc_temp_channel_id m\<rparr>" "oc_pubkeys m"] fresh assms(4) pk(1)
    by (simp add: public_keys_def wf_self_def open_channel_wf_def)
  then have wfc: "wf_self ?c" by (simp add: wf_self_def set_open_params_def callback_def)
  have ks: "key_service env oe ?c" using assms(2) by (simp add: key_service_def channel_privs_def callback_def)
  note k = create_channelkeys_eq [OF assms(1) ks wfc]
  have ck: "channel_keys env oe ?c = channel_keys env oe g"
    by (simp add: channel_keys_def channel_privs_def callback_def)
  have kk: "pubkeys (funding_local ?k) = channel_keys env oe g" "pubkeys (funding_remote ?k) = oc_pubkeys m"
    "p_establish ?k = Some (est\<lparr>cnl_open := m\<rparr>)" "channel_id ?k = oc_temp_channel_id m"
    "events ?k = events g @ [CB_SET_LATEST_FEERATE]" "cnl_add_htlc ?k = cnl_add_htlc g" "is_funder ?k = is_funder g"
    "commit_local ?k = commit_local g" "commit_remote ?k = set_open_params m (commit_remote g)"
    "ch_status ?k = ch_status g" "our_msat ?k = oc_push_msat m"
    "their_msat ?k = LN_SATOSHI2MSAT (oc_funding_sat m) - oc_push_msat m"
    "funding_sat ?k = oc_funding_sat m" "feerate_per_kw ?k = oc_feerate_per_kw m"
    unfolding k ck by (simp_all add: callback_def)
  have "wf_self ?k"
    unfolding k ck using wf_self_funding_keys [OF wfc, of "channel_keys env oe g"] pk(2)
    by (simp add: public_keys_def wf_self_def)
  note wfk = this and wfu = wf_update_scriptkeys [OF assms(1) this]
  have acc: "accept_message (estprm est) ?u = acc" "ac_pubkeys acc = channel_keys env oe g"
    unfolding accept_message_def update_scriptkeys_simps pubkeys_update_scriptkeys kk
    by (simp_all add: assms(6) accept_of_def accept_message_def)
  define u where "u = ?u"
  let ?s = "u\<lparr>p_establish := Some (est\<lparr>cnl_open := m, cnl_accept := acc\<rparr>)\<rparr>"
  let ?g1 = "(create_redeem ((callback (CB_SEND_REQ (Some (accept_channel_wire acc))) ?s)\<lparr>min_depth := ac_min_depth acc,
      commit_local := set_accept_params acc (commit_local g),
      obscured := ln_script_calc_obscured_txnum (sha256 env) (oc_pubkeys m ! MSG_FUNDIDX_PAYMENT)
        (ac_pubkeys acc ! MSG_FUNDIDX_PAYMENT)\<rparr>))
      \<lparr>is_funder := False, is_announce := oc_channel_flags m AND 1 \<noteq> 0, is_funding := True, is_opened := False\<rparr>"
  have uf: "commit_local u = commit_local g" "is_funder u = is_funder g" "ch_status u = ch_status g"
    "pubkeys (funding_local u) = channel_keys env oe g" "pubkeys (funding_remote u) = oc_pubkeys m"
    "our_msat u = oc_push_msat m" "their_msat u = LN_SATOSHI2MSAT (oc_funding_sat m) - oc_push_msat m"
    "funding_sat u = oc_funding_sat m" "feerate_per_kw u = oc_feerate_per_kw m" "channel_id u = oc_temp_channel_id m"
    "commit_remote u = set_open_params m (commit_remote g)" "cnl_add_htlc u = cnl_add_htlc g"
    "events u = events g @ [CB_SET_LATEST_FEERATE]" "wf_self u"
    unfolding u_def update_scriptkeys_simps update_scriptkeys_open pubkeys_update_scriptkeys kk
    using wfu by simp_all
  have made: "ln_msg_accept_channel_create (oe_chkpub oe) acc = Inr (buf_of (accept_channel_wire acc))"
    using accept_channel.create_wire accept_wf [OF assms(4,1,2)] fresh unfolding assms(6) by blast
  have read: "ln_msg_open_channel_read (oe_chkpub oe) (chain_hash env) (open_channel_wire (chain_hash env) m) = Inr m"
    using open_channel.read_wire [OF assms(4), of "[]"] by simp
  have pre: "p_establish g = Some est" "is_funder g = False" "is_funding g = False" "(short_channel_id g \<noteq> 0) = False"
    using fresh by simp_all
  have run: "recv_open_channel env oe (open_channel_wire (chain_hash env) m) g = Inr (True, ?g1)"
    by (simp only: recv_open_channel_def Let_def pre if_False no_establish_def option.case read_msg_def read try_c_simps
        assms(5) u_def [symmetric] acc(1) [folded u_def] send_created_def made with_bytes_buf_of bind_c_simps
        callback_simps) (simp add: uf(1))
  have sk: "scriptpubkeys (funding_local u) = script_keys env (ac_pubkeys acc) (oc_pubkeys m)"
    "scriptpubkeys (funding_remote u) = script_keys env (oc_pubkeys m) (ac_pubkeys acc)"
    using scriptkeys_derived [OF wfk] unfolding kk(1,2) u_def acc(2) using assms(7,8) by blast+
  have g1: "funding_local ?g1 = funding_local u" "funding_remote ?g1 = funding_remote u"
    "redeem_fund ?g1 = redeem_of (pubkeys (funding_local u)) (pubkeys (funding_remote u))"
    "commit_local ?g1 = set_accept_params acc (commit_local g)" "commit_remote ?g1 = commit_remote u"
    "is_funder ?g1 = False" "channel_id ?g1 = channel_id u" "funding_sat ?g1 = funding_sat u"
    "feerate_per_kw ?g1 = feerate_per_kw u" "our_msat ?g1 = our_msat u" "their_msat ?g1 = their_msat u"
    "cnl_add_htlc ?g1 = cnl_add_htlc u" "ch_status ?g1 = ch_status u"
    "obscured ?g1 = ln_script_calc_obscured_txnum (sha256 env) (oc_pubkeys m ! MSG_FUNDIDX_PAYMENT)
        (ac_pubkeys acc ! MSG_FUNDIDX_PAYMENT)"
    "p_establish ?g1 = Some (est\<lparr>cnl_open := m, cnl_accept := acc\<rparr>)"
    "sent ?g1 = sent u @ [accept_channel_wire acc]"
    by (simp_all add: create_redeem_def Let_def case_prod_beta redeem_of_def callback_def sent_def)
  have "wf_self ?g1"
    using uf(14) fresh by (simp add: wf_self_def create_redeem_def Let_def case_prod_beta set_accept_params_def callback_def)
  then have "terms_of m ?g1"
    unfolding terms_of_def g1 uf using fresh by simp
  moreover have "agreed env m acc ?g1"
    unfolding agreed_def g1 acc(2) using redeem_of_sym [OF pk] sk by (simp add: uf acc(2))
  moreover have "sent ?g1 = sent g @ [accept_channel_wire acc]"
    unfolding g1 by (simp add: sent_def uf)
  ultimately show ?thesis
    by (intro that [OF run]) (simp_all only: g1 uf not_False_eq_True)
qed

text \<open>The two uses of the first commitment transaction, which has no HTLC output.\<close>

lemma no_htlc_outs:
  assumes "tx_ok fi [] tx"
  shows "\<forall>v\<in>set (tx_vout tx). \<not> is_htlc_out v" "htlc_outs i (tx_vout tx) = []"
proof -
  show none: "\<forall>v\<in>set (tx_vout tx). \<not> is_htlc_out v" using assms by (simp add: tx_ok_def out_ok_def)
  then show "htlc_outs i (tx_vout tx) = []"
    using length_htlc_outs [of i "tx_vout tx"] by (simp add: filter_empty_conv)
qed

lemma remote_loop_none:
  assumes "\<forall>v\<in>set vs. \<not> is_htlc_out v"
  shows "remote_spent_loop env t ws infos fi idx vs n sigs = Inr (True, n, sigs)"
  using assms
proof (induction vs arbitrary: idx)
  case (Cons v vs)
  then show ?case using remote_loop_skip [of v env t ws infos fi idx vs n sigs] by simp
qed simp

lemma first_remote_commit:
  assumes "wf_self a" "local_commit_tx eb 0 D d b = Inr (ws, [], fi, tx)" "tx_ok fi [] tx"
    and "commit_mirror b a" "sha256 eb = sha256 env" "ripemd160 eb = ripemd160 env"
    and "D = ucast (to_self_delay (commit_local a))" "d = dust_limit_sat (commit_remote a)"
    and "signs env (redeem_fund a)" "signable_tx tx" "tx_txid env tx = Some tid"
  obtains rs where "create_to_remote env (commit_remote a) False 0 a =
      Inr (True, (commit_remote a)\<lparr>txid := tid, cd_signature := rs, htlc_num := 0\<rparr>, None)"
    "length rs = LN_SZ_SIGNATURE" "tx_sign env tx (funding_sat a) (redeem_fund a) = Some (der_sig rs)"
proof -
  obtain rs where rs: "length rs = LN_SZ_SIGNATURE" "tx_sign env tx (funding_sat a) (redeem_fund a) = Some (der_sig rs)"
    using assms(9,10) unfolding signs_def by blast
  have "remote_commit_tx env 0 d a = Inr (ws, [], fi, tx)"
    using commit_tx_mirror [OF assms(4-7), of 0 d] assms(2) by simp
  moreover have "remote_spent_loop env tid ws [] fi 0 (tx_vout tx) 0 None = Inr (True, 0, None)"
    using remote_loop_none no_htlc_outs [OF assms(3)] by blast
  ultimately show ?thesis
    using rs assms(8,11) by (intro that [of rs]) (simp_all add: create_to_remote_def ln_misc_sigtrim_der_sig Let_def
        create_to_remote_spent_def ln_misc_sigexpand_eq [OF wf_cd_signature [OF assms(1)]])
qed

lemma first_local_commit:
  assumes "wf_self b" "local_commit_tx env 0 D d b = Inr (ws, [], fi, tx)" "tx_ok fi [] tx"
    and "signs env (redeem_fund b)" "signable_tx tx" "tx_txid env tx = Some tid"
    and "\<And>own. tx_sign env tx (funding_sat b) (redeem_fund b) = Some (der_sig own) \<Longrightarrow>
      tx_verify_2of2 env tx (funding_sat b) (redeem_fund b) (der_sig own) (der_sig (cd_signature (commit_local b)))"
  shows "create_to_local env None 0 0 D d b =
    Inr (True, b\<lparr>commit_local := (commit_local b)\<lparr>txid := tid, htlc_num := 0\<rparr>\<rparr>)"
proof -
  obtain own where own: "tx_sign env tx (funding_sat b) (redeem_fund b) = Some (der_sig own)"
    using assms(4,5) unfolding signs_def by blast
  have "local_spent_loop env None 0 ws [] fi 0 (tx_vout tx) 0 s = Inr (True, 0, s)" for s
    using local_loop_none [of None 0 "tx_vout tx" fi "[]" env ws 0 0 s] no_htlc_outs [OF assms(3)] by simp
  then show ?thesis
    unfolding create_to_local_eq [OF assms(1,2)] using own assms(6,7) by (simp add: create_to_local_spent_def)
qed

lemma agreed_mirror:
  assumes "terms_of m a" "terms_of m b" "agreed ea m acc a" "agreed eb m acc b" "is_funder a" "\<not> is_funder b"
    and "sha256 ea = sha256 eb" "ec ea = ec eb"
    and "funding_txid a = funding_txid b" "funding_txindex a = funding_txindex b"
  shows "commit_mirror a b"
proof -
  have "script_keys ea = script_keys eb" using assms(7,8) by (intro ext) (simp only: script_keys_def)
  then show ?thesis
    using assms by (simp add: commit_mirror_def terms_of_def agreed_def Let_def)
qed

text \<open>
  The wallet signs this funding transaction, keeping the outputs; the peer finds the one of the channel.
\<close>

definition funding_outs :: "'p ln_env \<Rightarrow> u64 \<Rightarrow> u32 \<Rightarrow> ln_fundin_t \<Rightarrow> bytes \<Rightarrow> btc_vout_t list" where
  "funding_outs env FundingSat FeeRate fundin redeem =
     [p2wsh_vout env FundingSat redeem,
      \<lparr>vout_value = fi_amount fundin - FundingSat - ln_calc_fee LN_SZ_FUNDINGTX_VSIZE (ucast FeeRate),
       vout_script = fi_change_spk fundin, vout_opt = 0\<rparr>]"

definition wallet_signs :: "open_env \<Rightarrow> btc_vout_t list \<Rightarrow> u64 \<Rightarrow> bool" where
  "wallet_signs oe outs amount \<longleftrightarrow> (\<exists>outs' tid. oe_sign_funding oe outs amount = Some (outs', tid) \<and>
     set outs \<subseteq> set outs' \<and> length tid = BTC_SZ_TXID)"

lemma find_vout_Some:
  "v \<in> set vs \<Longrightarrow> \<exists>lp. find_vout (vout_script v) vs = Some lp"
  unfolding find_vout_def by (induction vs) auto

lemma funding_made:
  assumes "wf_env env" "keys_derive env (oc_pubkeys m) (ac_pubkeys acc) \<and> keys_derive env (ac_pubkeys acc) (oc_pubkeys m)"
    and "wallet_signs oe (funding_outs env (oc_funding_sat m) (oc_feerate_per_kw m) fundin
        (redeem_of (oc_pubkeys m) (ac_pubkeys acc))) (fi_amount fundin)"
    and "terms_of m f" "is_funder f" "p_establish f = Some est" "cnl_open est = m" "p_fundin est = Some fundin"
    and "pubkeys (funding_local f) = oc_pubkeys m" "set_open_params m (commit_local f) = commit_local f"
    and "public_keys oe (oc_pubkeys m)" "accept_channel_wf (oe_chkpub oe) acc"
    and "ac_temp_channel_id acc = oc_temp_channel_id m"
    and "oc_funding_sat m + ln_calc_fee LN_SZ_FUNDINGTX_VSIZE (ucast (oc_feerate_per_kw m)) \<le> fi_amount fundin"
  obtains fp where
    "recv_accept_channel env oe (accept_channel_wire acc) f =
      bind_c (create_to_remote env (commit_remote fp) False 0 fp) (\<lambda>(ret, cd, _).
        let self = fp\<lparr>commit_remote := cd\<rparr> in
        if ret then
          bind_c (send_created (ln_msg_funding_created_create \<lparr>fc_temp_channel_id = channel_id self,
              fc_funding_txid = funding_txid self, fc_funding_output_idx = funding_txindex self,
              fc_signature = cd_signature (commit_remote self)\<rparr>) self) (\<lambda>self. Inr (True, self))
        else Inr (False, self))"
    "terms_of m fp" "agreed env m acc fp" "is_funder fp" "length (funding_txid fp) = BTC_SZ_TXID"
    "p_establish fp = Some (est\<lparr>cnl_accept := acc\<rparr>)" "sent fp = sent f" "ch_status fp = ch_status f"
proof -
  note terms = assms(4) [unfolded terms_of_def]
  let ?a = "f\<lparr>p_establish := Some (est\<lparr>cnl_accept := acc\<rparr>),
      funding_remote := (funding_remote f)\<lparr>pubkeys := ac_pubkeys acc\<rparr>\<rparr>"
  let ?b = "?a\<lparr>min_depth := ac_min_depth acc, commit_remote := set_accept_params acc (commit_remote ?a),
      prev_percommit := ac_pubkeys acc ! MSG_FUNDIDX_PER_COMMIT\<rparr>"
  define u where "u = update_scriptkeys env ?b"
  have pk: "public_keys oe (ac_pubkeys acc)" using assms(12) by (simp add: accept_channel_wf_def public_keys_wf)
  have "wf_self (f\<lparr>funding_remote := (funding_remote f)\<lparr>pubkeys := ac_pubkeys acc\<rparr>\<rparr>)"
    using wf_self_funding_keys [of f "ac_pubkeys acc"] terms pk unfolding public_keys_def by blast
  then have wfb: "wf_self ?b" by (simp add: wf_self_def set_accept_params_def)
  have uf: "wf_self u" "pubkeys (funding_local u) = oc_pubkeys m" "pubkeys (funding_remote u) = ac_pubkeys acc"
    "commit_local u = commit_local f" "commit_remote u = set_accept_params acc (commit_remote f)"
    "cnl_add_htlc u = cnl_add_htlc f" "channel_id u = channel_id f" "funding_sat u = funding_sat f"
    "feerate_per_kw u = feerate_per_kw f" "our_msat u = our_msat f" "their_msat u = their_msat f"
    "is_funder u" "p_establish u = Some (est\<lparr>cnl_accept := acc\<rparr>)" "sent u = sent f" "ch_status u = ch_status f"
    "events u = events f"
    unfolding u_def update_scriptkeys_simps update_scriptkeys_open pubkeys_update_scriptkeys
    using wf_update_scriptkeys [OF assms(1) wfb] assms(5,9) by (simp_all add: sent_def)
  have sk: "scriptpubkeys (funding_local u) = script_keys env (oc_pubkeys m) (ac_pubkeys acc)"
    "scriptpubkeys (funding_remote u) = script_keys env (ac_pubkeys acc) (oc_pubkeys m)"
    using scriptkeys_derived [OF wfb, of env] assms(2,9) by (simp_all add: u_def)
  let ?redeem = "redeem_of (oc_pubkeys m) (ac_pubkeys acc)"
  define c where "c = (create_redeem (u\<lparr>tx_funding := []\<rparr>))\<lparr>funding_txindex := 0\<rparr>"
  let ?amount = "fi_amount fundin"
  let ?fee = "ln_calc_fee LN_SZ_FUNDINGTX_VSIZE (ucast (oc_feerate_per_kw m))"
  let ?outs = "[p2wsh_vout env (oc_funding_sat m) ?redeem, \<lparr>vout_value = ?amount - oc_funding_sat m - ?fee,
      vout_script = fi_change_spk fundin, vout_opt = 0\<rparr>]"
  obtain outs' tid where w: "oe_sign_funding oe ?outs ?amount = Some (outs', tid)" "set ?outs \<subseteq> set outs'"
    "length tid = BTC_SZ_TXID"
    using assms(3) unfolding wallet_signs_def funding_outs_def by blast
  obtain lp where lp: "find_vout (btc_sw_wit2prog_p2wsh (sha256 env) ?redeem) outs' = Some lp"
    using find_vout_Some [of "p2wsh_vout env (oc_funding_sat m) ?redeem" outs'] w(2) by (auto simp: p2wsh_vout_def)
  define d where "d = (callback CB_SIGN_FUNDINGTX_REQ c)\<lparr>tx_funding := outs', funding_txid := tid,
    funding_txindex := of_nat lp\<rparr>"
  have redeem: "redeem_fund c = ?redeem" by (simp add: c_def uf)
  have made: "create_funding_tx env oe (est\<lparr>cnl_accept := acc\<rparr>) u = Inr (True, d)"
    unfolding create_funding_tx_def Let_def c_def [symmetric]
    using assms(7,8,14) redeem w(1) lp by (simp add: d_def)
  let ?fp = "d\<lparr>obscured := ln_script_calc_obscured_txnum (sha256 env) (oc_pubkeys m ! MSG_FUNDIDX_PAYMENT)
        (ac_pubkeys acc ! MSG_FUNDIDX_PAYMENT),
      commit_local := (commit_local d)\<lparr>to_self_delay := oc_to_self_delay m\<rparr>,
      commit_remote := (commit_remote d)\<lparr>dust_limit_sat := ac_dust_limit_sat acc\<rparr>\<rparr>"
  have df: "funding_local d = funding_local u" "funding_remote d = funding_remote u" "redeem_fund d = ?redeem"
    "commit_local d = commit_local f" "commit_remote d = set_accept_params acc (commit_remote f)"
    "cnl_add_htlc d = cnl_add_htlc f" "channel_id d = channel_id f" "funding_sat d = funding_sat f"
    "feerate_per_kw d = feerate_per_kw f" "our_msat d = our_msat f" "their_msat d = their_msat f"
    "is_funder d" "p_establish d = Some (est\<lparr>cnl_accept := acc\<rparr>)" "sent d = sent f" "ch_status d = ch_status f"
    "funding_txid d = tid" "wf_self d"
    by (simp_all add: d_def c_def create_redeem_def Let_def case_prod_beta redeem_of_def callback_def sent_def
        uf wf_self_def [of "_ :: ln_self_t"]) (use uf(1) in \<open>simp_all add: wf_self_def uf\<close>)
  have "(commit_local f)\<lparr>to_self_delay := oc_to_self_delay m\<rparr> = commit_local f"
    using assms(10) by (metis (no_types, lifting) set_open_params_delay)
  moreover have "(set_accept_params acc (commit_remote f))\<lparr>dust_limit_sat := ac_dust_limit_sat acc\<rparr> =
      set_accept_params acc (commit_remote f)"
    by (simp add: set_accept_params_def)
  ultimately have cd: "commit_local ?fp = commit_local f" "commit_remote ?fp = set_accept_params acc (commit_remote f)"
    by (simp_all add: df)
  have "wf_self ?fp" using df(17) cd by (simp add: wf_self_def df(4,5))
  then have "terms_of m ?fp" using terms df assms(5) by (simp add: terms_of_def)
  moreover have "agreed env m acc ?fp"
    using uf sk assms(10) df unfolding agreed_def cd by simp
  moreover have "recv_accept_channel env oe (accept_channel_wire acc) f =
      bind_c (create_to_remote env (commit_remote ?fp) False 0 ?fp) (\<lambda>(ret, cd, _).
        let self = ?fp\<lparr>commit_remote := cd\<rparr> in
        if ret then
          bind_c (send_created (ln_msg_funding_created_create \<lparr>fc_temp_channel_id = channel_id self,
              fc_funding_txid = funding_txid self, fc_funding_output_idx = funding_txindex self,
              fc_signature = cd_signature (commit_remote self)\<rparr>) self) (\<lambda>self. Inr (True, self))
        else Inr (False, self))"
  proof -
    have "ln_msg_accept_channel_read (oe_chkpub oe) (accept_channel_wire acc) = Inr acc"
      using accept_channel.read_wire [OF assms(12), of "[]"] by simp
    moreover have "chk_channelid (ac_temp_channel_id acc) (channel_id f)"
      using terms assms(13) by (simp add: chk_channelid_def)
    ultimately show ?thesis
      using assms(5,6,7) made [unfolded u_def]
      by (simp add: recv_accept_channel_def no_establish_def read_msg_def chk_chan_def Let_def
        cong del: prod.case_cong_weak if_weak_cong)
  qed
  ultimately show ?thesis
    by (intro that [of ?fp]) (use df w(3) in \<open>simp_all add: sent_def\<close>)
qed

lemma callback_open [simp]:
  "obscured (callback e s) = obscured s" "p_establish (callback e s) = p_establish s"
  by (simp_all add: callback_def)

lemma keys_update_open [simp]:
  "funding_sat (ln_signer_keys_update_storage env self) = funding_sat self"
  "funding_txid (ln_signer_keys_update_storage env self) = funding_txid self"
  "funding_txindex (ln_signer_keys_update_storage env self) = funding_txindex self"
  "redeem_fund (ln_signer_keys_update_storage env self) = redeem_fund self"
  "feerate_per_kw (ln_signer_keys_update_storage env self) = feerate_per_kw self"
  "obscured (ln_signer_keys_update_storage env self) = obscured self"
  "is_funder (ln_signer_keys_update_storage env self) = is_funder self"
  by (simp_all add: ln_signer_keys_update_storage_def ln_signer_keys_update_force_def Let_def split: prod.split)

lemma start_funding_wait_fields:
  fixes env :: "'p ln_env"
  assumes "b \<longrightarrow> oe_send_funding oe" "s' = start_funding_wait env oe b s"
  shows "channel_id s' = channel_id s" "funding_txid s' = funding_txid s" "funding_txindex s' = funding_txindex s"
    "funding_sat s' = funding_sat s" "redeem_fund s' = redeem_fund s" "feerate_per_kw s' = feerate_per_kw s"
    "obscured s' = obscured s" "is_funder s' = is_funder s" "our_msat s' = our_msat s" "their_msat s' = their_msat s"
    "commit_local s' = (commit_local s)\<lparr>commit_num := 0, revoke_num := - 1\<rparr>"
    "commit_remote s' = (commit_remote s)\<lparr>commit_num := 0, revoke_num := - 1\<rparr>"
    "events s' = events s @ [CB_FUNDINGTX_WAIT b, DB_SECRET_SAVE, DB_SELF_SAVE]" "ch_status s' = LN_STATUS_ESTABLISH"
    "sent s' = sent s"
  using assms(1) by (simp_all add: assms(2) start_funding_wait_def Let_def sent_def)

text \<open>A side's first commitment transaction, with the dust limit and the delay that are in force for it.\<close>

definition first_tx :: "'p ln_env \<Rightarrow> u16 \<Rightarrow> u64 \<Rightarrow> ln_self_t \<Rightarrow> bytes \<Rightarrow> ln_script_feeinfo_t \<Rightarrow> btc_tx_t \<Rightarrow> bool" where
  "first_tx env delay dust s ws fi tx \<longleftrightarrow>
     local_commit_tx env 0 (ucast delay) dust s = Inr (ws, [], fi, tx) \<and> tx_ok fi [] tx \<and> signable_tx tx"

lemma calc_channel_id_ok:
  assumes "length t = BTC_SZ_TXID"
  obtains cid where "ln_misc_calc_channel_id t i = Inr cid" "length cid = LN_SZ_CHANNEL_ID"
  using assms by (simp add: ln_misc_calc_channel_id_def)

lemma local_commit_tx_cong:
  assumes "cnl_add_htlc a = cnl_add_htlc b" "our_msat a = our_msat b" "their_msat a = their_msat b"
    and "funding_local a = funding_local b" "feerate_per_kw a = feerate_per_kw b" "funding_txid a = funding_txid b"
    and "funding_txindex a = funding_txindex b" "funding_sat a = funding_sat b" "redeem_fund a = redeem_fund b"
    and "obscured a = obscured b" "is_funder a = is_funder b"
  shows "local_commit_tx env n D d a = local_commit_tx env n D d b"
  using assms by (simp add: local_commit_tx_def commit_struct_def)

lemma funding_created_answered:
  assumes "signs env (redeem_fund g)" "terms_of m g" "agreed env m acc g" "\<not> is_funder g"
    and "p_establish g = Some est" "cnl_open est = m" "cnl_accept est = acc"
    and "length tid = BTC_SZ_TXID" "length rs = LN_SZ_SIGNATURE"
    and "b = g\<lparr>funding_txid := tid, funding_txindex := ix\<rparr>"
    and "first_tx env (oc_to_self_delay m) (ac_dust_limit_sat acc) b ws fi tx" "tx_txid env tx = Some t"
    and "\<And>own. tx_sign env tx (funding_sat g) (redeem_fund g) = Some (der_sig own) \<Longrightarrow>
      tx_verify_2of2 env tx (funding_sat g) (redeem_fund g) (der_sig own) (der_sig rs)"
    and "first_tx ef (ac_to_self_delay acc) (oc_dust_limit_sat m) a ws' fi' tx'" "tx_txid env tx' = Some t'"
    and "commit_mirror a b" "sha256 ef = sha256 env" "ripemd160 ef = ripemd160 env"
    and "ln_misc_calc_channel_id tid ix = Inr cid" "length cid = LN_SZ_CHANNEL_ID"
  obtains g2 rs' where
    "recv_funding_created env oe (funding_created_wire \<lparr>fc_temp_channel_id = oc_temp_channel_id m, fc_funding_txid = tid,
       fc_funding_output_idx = ix, fc_signature = rs\<rparr>) g = Inr (True, g2)"
    "sent g2 = sent g @ [funding_signed_wire \<lparr>fs_channel_id = cid, fs_signature = rs'\<rparr>]"
    "length rs' = LN_SZ_SIGNATURE" "tx_sign env tx' (funding_sat g) (redeem_fund g) = Some (der_sig rs')"
    "channel_id g2 = cid" "funding_txid g2 = tid" "funding_txindex g2 = ix" "funding_sat g2 = funding_sat g"
    "redeem_fund g2 = redeem_fund g" "feerate_per_kw g2 = feerate_per_kw g" "obscured g2 = obscured g" "\<not> is_funder g2"
    "our_msat g2 = our_msat g" "their_msat g2 = their_msat g"
    "commit_local g2 = (commit_local g)\<lparr>cd_signature := rs, txid := t, htlc_num := 0, commit_num := 0, revoke_num := - 1\<rparr>"
    "commit_remote g2 = (commit_remote g)\<lparr>cd_signature := rs', txid := t', htlc_num := 0, commit_num := 0, revoke_num := - 1\<rparr>"
    "CB_FUNDINGTX_WAIT False \<in> set (events g2)" "ch_status g2 = LN_STATUS_ESTABLISH"
proof -
  note terms = assms(2) [unfolded terms_of_def]
  let ?m = "\<lparr>fc_temp_channel_id = oc_temp_channel_id m, fc_funding_txid = tid, fc_funding_output_idx = ix, fc_signature = rs\<rparr>"
  have "length (channel_id g) = LN_SZ_CHANNEL_ID" "channel_id g = oc_temp_channel_id m"
    using terms unfolding wf_self_def by blast+
  then have "funding_created_wf ?m" using assms(8,9) by (simp add: funding_created_wf_def)
  then have read: "ln_msg_funding_created_read (funding_created_wire ?m) = Inr ?m"
    using funding_created.read_wire [of ?m "[]"] by simp
  let ?tf = "replicate (unat ix) \<lparr>vout_value = 0, vout_script = [], vout_opt = 0\<rparr> @
      [p2wsh_vout env (oc_funding_sat (cnl_open est)) (redeem_fund g)]"
  let ?b = "g\<lparr>funding_txid := tid, commit_local := (commit_local g)\<lparr>cd_signature := rs\<rparr>, funding_txindex := ix, tx_funding := ?tf\<rparr>"
  have wfg: "wf_self g" using terms by blast
  then have wfb: "wf_self ?b" using assms(9) by (simp add: wf_self_def)
  have tx: "local_commit_tx env 0 (ucast (oc_to_self_delay m)) (ac_dust_limit_sat acc) ?b = Inr (ws, [], fi, tx)"
    "tx_ok fi [] tx" "signable_tx tx"
    using assms(11) local_commit_tx_cong [of ?b b env 0 _ _] unfolding first_tx_def assms(10) by simp_all
  let ?c = "?b\<lparr>commit_local := (commit_local g)\<lparr>cd_signature := rs, txid := t, htlc_num := 0\<rparr>\<rparr>"
  have local: "create_to_local env None 0 0 (ucast (oc_to_self_delay m)) (ac_dust_limit_sat acc) ?b = Inr (True, ?c)"
    using first_local_commit [OF wfb tx(1,2) _ tx(3) assms(12)] assms(1,13) by simp
  have par: "set_accept_params acc (commit_local g) = commit_local g" "set_open_params m (commit_remote g) = commit_remote g"
    using assms(3,4) by (simp_all add: agreed_def)
  have "(commit_local g)\<lparr>cd_signature := rs, txid := t, htlc_num := 0, to_self_delay := ac_to_self_delay acc\<rparr> =
      ((commit_local g)\<lparr>to_self_delay := ac_to_self_delay acc\<rparr>)\<lparr>cd_signature := rs, txid := t, htlc_num := 0\<rparr>"
    by simp
  also have "\<dots> = (commit_local g)\<lparr>cd_signature := rs, txid := t, htlc_num := 0\<rparr>"
    by (simp only: set_accept_params_delay(1) [OF par(1)])
  finally have cd: "(commit_local g)\<lparr>cd_signature := rs, txid := t, htlc_num := 0, to_self_delay := ac_to_self_delay acc\<rparr> =
      (commit_local g)\<lparr>cd_signature := rs, txid := t, htlc_num := 0\<rparr>"
    "(commit_remote g)\<lparr>dust_limit_sat := oc_dust_limit_sat m\<rparr> = commit_remote g"
    "to_self_delay (commit_local g) = ac_to_self_delay acc" "dust_limit_sat (commit_remote g) = oc_dust_limit_sat m"
    subgoal .
    subgoal by (rule set_open_params_delay(2) [OF par(2)])
    subgoal using arg_cong [OF par(1), of to_self_delay] by (simp add: set_accept_params_def)
    subgoal using arg_cong [OF par(2), of dust_limit_sat] by (simp add: set_open_params_def)
    done
  have wfc: "wf_self ?c" using wfb assms(9) by (simp add: wf_self_def)
  have mir: "commit_mirror a ?c" using assms(16) by (simp add: commit_mirror_def assms(10))
  have tx': "local_commit_tx ef 0 (ucast (ac_to_self_delay acc)) (oc_dust_limit_sat m) a = Inr (ws', [], fi', tx')"
    "tx_ok fi' [] tx'" "signable_tx tx'"
    using assms(14) unfolding first_tx_def by blast+
  define c where "c = ?c"
  have c: "to_self_delay (commit_local c) = ac_to_self_delay acc" "commit_remote c = commit_remote g"
    "dust_limit_sat (commit_remote c) = oc_dust_limit_sat m"
    "funding_sat c = funding_sat g" "redeem_fund c = redeem_fund g"
    using cd(3,4) by (simp_all add: c_def)
  have same: "(commit_local c)\<lparr>to_self_delay := ac_to_self_delay acc\<rparr> = commit_local c"
    "(commit_remote c)\<lparr>dust_limit_sat := oc_dust_limit_sat m\<rparr> = commit_remote c" "funding_txid c = tid" "funding_txindex c = ix"
    using cd(1,2) by (simp_all add: c_def)
  obtain rs' where remote: "create_to_remote env (commit_remote c) False 0 c =
      Inr (True, (commit_remote c)\<lparr>txid := t', cd_signature := rs', htlc_num := 0\<rparr>, None)"
    "length rs' = LN_SZ_SIGNATURE" "tx_sign env tx' (funding_sat c) (redeem_fund c) = Some (der_sig rs')"
    by (rule first_remote_commit [OF wfc [folded c_def] tx'(1,2) mir [folded c_def] assms(17,18) _ _ _ tx'(3) assms(15)])
      (simp_all only: c cd(4) assms(1))
  define w where "w = (callback (CB_SEND_REQ (Some (funding_signed_wire \<lparr>fs_channel_id = cid, fs_signature = rs'\<rparr>)))
      (c\<lparr>commit_remote := (commit_remote c)\<lparr>txid := t', cd_signature := rs', htlc_num := 0\<rparr>, channel_id := cid\<rparr>))"
  have "funding_signed_wf \<lparr>fs_channel_id = cid, fs_signature = rs'\<rparr>"
    using assms(20) remote(2) by (simp add: funding_signed_wf_def)
  note made = funding_signed.create_wire [OF this]
  have "chk_channelid (oc_temp_channel_id m) (channel_id g)" using terms by (simp add: chk_channelid_def)
  then have run: "recv_funding_created env oe (funding_created_wire ?m) g = Inr (True, start_funding_wait env oe False w)"
    using assms(4-7,19) read made local [folded c_def] remote(1) same
    by (simp add: recv_funding_created_def no_establish_def read_msg_def chk_chan_def send_created_def w_def
        cong del: prod.case_cong_weak if_weak_cong)
  note f = start_funding_wait_fields [OF _ refl, of False oe env w, simplified]
  show ?thesis
    by (rule that [OF run _ remote(2) remote(3) [unfolded c]]) (simp_all add: f, simp_all add: w_def c_def sent_def assms(4))
qed

lemma funding_signed_taken:
  assumes "signs env (redeem_fund f)" "wf_self f" "is_funder f" "p_establish f = Some est" "cnl_open est = m" "cnl_accept est = acc"
    and "oe_send_funding oe" "length rs = LN_SZ_SIGNATURE"
    and "ln_misc_calc_channel_id (funding_txid f) (funding_txindex f) = Inr cid" "length cid = LN_SZ_CHANNEL_ID"
    and "first_tx env (ac_to_self_delay acc) (oc_dust_limit_sat m) f ws fi tx" "tx_txid env tx = Some t"
    and "\<And>own. tx_sign env tx (funding_sat f) (redeem_fund f) = Some (der_sig own) \<Longrightarrow>
      tx_verify_2of2 env tx (funding_sat f) (redeem_fund f) (der_sig own) (der_sig rs)"
  obtains f3 where
    "recv_funding_signed env oe (funding_signed_wire \<lparr>fs_channel_id = cid, fs_signature = rs\<rparr>) f = Inr (True, f3)"
    "channel_id f3 = cid" "funding_txid f3 = funding_txid f" "funding_txindex f3 = funding_txindex f"
    "funding_sat f3 = funding_sat f" "redeem_fund f3 = redeem_fund f" "feerate_per_kw f3 = feerate_per_kw f"
    "obscured f3 = obscured f" "is_funder f3" "our_msat f3 = our_msat f" "their_msat f3 = their_msat f"
    "commit_local f3 = (commit_local f)\<lparr>cd_signature := rs, txid := t, htlc_num := 0, commit_num := 0, revoke_num := - 1\<rparr>"
    "commit_remote f3 = (commit_remote f)\<lparr>commit_num := 0, revoke_num := - 1\<rparr>"
    "CB_FUNDINGTX_WAIT True \<in> set (events f3)" "ch_status f3 = LN_STATUS_ESTABLISH"
proof -
  let ?m = "\<lparr>fs_channel_id = cid, fs_signature = rs\<rparr>"
  have "funding_signed_wf ?m" using assms(8,10) by (simp add: funding_signed_wf_def)
  then have read: "ln_msg_funding_signed_read (funding_signed_wire ?m) = Inr ?m"
    using funding_signed.read_wire [of ?m "[]"] by simp
  define b where "b = f\<lparr>commit_local := (commit_local f)\<lparr>cd_signature := rs\<rparr>, channel_id := cid\<rparr>"
  have b: "funding_sat b = funding_sat f" "redeem_fund b = redeem_fund f" "cd_signature (commit_local b) = rs" "wf_self b"
    using assms(2,8,10) by (simp_all add: b_def wf_self_def)
  have tx: "local_commit_tx env 0 (ucast (ac_to_self_delay acc)) (oc_dust_limit_sat m) b = Inr (ws, [], fi, tx)"
    "tx_ok fi [] tx" "signable_tx tx"
    using assms(11) local_commit_tx_cong [of b f env 0 _ _] unfolding first_tx_def by (simp_all add: b_def)
  define w where "w = b\<lparr>commit_local := (commit_local b)\<lparr>txid := t, htlc_num := 0\<rparr>\<rparr>"
  have local: "create_to_local env None 0 0 (ucast (ac_to_self_delay acc)) (oc_dust_limit_sat m) b = Inr (True, w)"
    unfolding w_def by (rule first_local_commit [OF b(4) tx(1,2) _ tx(3) assms(12)]) (use b assms(1,13) in simp_all)
  have run: "recv_funding_signed env oe (funding_signed_wire ?m) f = Inr (True, start_funding_wait env oe True w)"
    using assms(3-6,9) read local
    by (simp add: recv_funding_signed_def no_establish_def read_msg_def chk_chan_def chk_channelid_def b_def [symmetric]
        cong del: prod.case_cong_weak if_weak_cong)
  note f = start_funding_wait_fields [OF _ refl, of True oe env w, simplified, OF assms(7)]
  show ?thesis
    by (rule that [OF run]) (simp_all add: f, simp_all add: w_def b_def assms(3))
qed

section \<open>The opening completes\<close>

text \<open>The parameters that one side requires of the other are those the other has taken.\<close>

definition params_mirror :: "ln_self_t \<Rightarrow> ln_self_t \<Rightarrow> bool" where
  "params_mirror a b \<longleftrightarrow> (\<forall>g \<in> {dust_limit_sat, max_htlc_value_in_flight_msat, channel_reserve_sat, htlc_minimum_msat}.
       g (commit_local a) = g (commit_remote b)) \<and>
     to_self_delay (commit_local a) = to_self_delay (commit_remote b) \<and>
     max_accepted_htlcs (commit_local a) = max_accepted_htlcs (commit_remote b)"

text \<open>\<open>a\<close> holds the signature of its peer on its own first commitment transaction, which both identify.\<close>

definition commit_held :: "'p ln_env \<Rightarrow> ln_self_t \<Rightarrow> ln_self_t \<Rightarrow> bool" where
  "commit_held env_b a b \<longleftrightarrow>
     (\<exists>tx. tx_txid env_b tx = Some (txid (commit_local a)) \<and>
       tx_sign env_b tx (funding_sat a) (redeem_fund a) = Some (der_sig (cd_signature (commit_local a)))) \<and>
     txid (commit_remote b) = txid (commit_local a) \<and>
     cd_signature (commit_remote b) = cd_signature (commit_local a) \<and>
     commit_num (commit_local a) = 0 \<and> commit_num (commit_remote b) = 0"

definition same_chain :: "'p ln_env \<Rightarrow> 'p ln_env \<Rightarrow> bool" where
  "same_chain ea eb \<longleftrightarrow> sha256 ea = sha256 eb \<and> ripemd160 ea = ripemd160 eb \<and> ec ea = ec eb \<and>
     chain_hash ea = chain_hash eb \<and> tx_txid ea = tx_txid eb \<and> (\<forall>tx. signable_tx tx \<longrightarrow> tx_txid ea tx \<noteq> None)"

lemma fee_commit_first: "fi_commit (fst (ln_script_fee_calc fr d [])) = ln_estimate_initcommittx_fee fr"
  by (simp add: ln_script_fee_calc_def ln_estimate_initcommittx_fee_def Let_def)

lemma msat2sat_rest:
  assumes "\<not> 16777216 \<le> (f :: u64)" "p \<le> f"
  shows "LN_MSAT2SATOSHI (LN_SATOSHI2MSAT f - LN_SATOSHI2MSAT p) = f - p"
proof -
  have "unat f < 16777216" "unat p \<le> unat f"
    using assms by (simp_all add: word_le_nat_alt not_le)
  then have "unat (LN_SATOSHI2MSAT f) = unat f * 1000" "unat (LN_SATOSHI2MSAT p) = unat p * 1000"
    by (simp_all add: LN_SATOSHI2MSAT_def unat_word_ariths)
  then have "unat (LN_SATOSHI2MSAT f - LN_SATOSHI2MSAT p) = (unat f - unat p) * 1000"
    using \<open>unat p \<le> unat f\<close> by (subst unat_sub) (simp_all add: word_le_nat_alt diff_mult_distrib)
  then have "unat (LN_MSAT2SATOSHI (LN_SATOSHI2MSAT f - LN_SATOSHI2MSAT p)) = unat (f - p)"
    using \<open>unat p \<le> unat f\<close> by (simp add: LN_MSAT2SATOSHI_def unat_div unat_sub word_le_nat_alt)
  then show ?thesis by (simp only: word_unat_eq_iff)
qed

text \<open>What the funder keeps covers the fee and either dust limit.\<close>

definition affordable :: "u64 \<Rightarrow> ln_open_channel_t \<Rightarrow> bool" where
  "affordable dust m \<longleftrightarrow> 0 < dust \<and> dust < 2 ^ 63 \<and> dust + ln_estimate_initcommittx_fee (oc_feerate_per_kw m) \<le>
     LN_MSAT2SATOSHI (LN_SATOSHI2MSAT (oc_funding_sat m) - oc_push_msat m)"

lemma first_tx_exists:
  assumes "wf_env env" "wf_self s" "set (cnl_add_htlc s) \<subseteq> {htlc_zero}" "feerate_per_kw s = oc_feerate_per_kw m"
    and "(if is_funder s then our_msat s else their_msat s) = LN_SATOSHI2MSAT (oc_funding_sat m) - oc_push_msat m"
    and "affordable dust m" "length (funding_txid s) = BTC_SZ_TXID"
  obtains ws fi tx where "first_tx env delay dust s ws fi tx"
proof -
  obtain ws tx where "local_commit_tx env 0 (ucast delay) dust s = Inr (ws, [], fst (ln_script_fee_calc (feerate_per_kw s) dust []), tx)"
    "tx_ok (fst (ln_script_fee_calc (feerate_per_kw s) dust [])) [] tx"
    "dust + fi_commit (fst (ln_script_fee_calc (feerate_per_kw s) dust [])) \<le>
       LN_MSAT2SATOSHI (if is_funder s then our_msat s else their_msat s) \<Longrightarrow>
     0 < dust \<Longrightarrow> dust < 2 ^ 63 \<Longrightarrow> length (funding_txid s) = BTC_SZ_TXID \<Longrightarrow> signable_tx tx"
    using first_commit_tx [OF assms(1-3)] by metis
  then show ?thesis
    using assms(4-7) by (intro that) (simp add: first_tx_def affordable_def fee_commit_first)
qed

text \<open>The funder's answer to \<open>accept_channel\<close>, given the peer's first transaction.\<close>

lemma funding_created_sent:
  assumes "bind_c (create_to_remote env (commit_remote fp) False 0 fp) (\<lambda>(ret, cd, _).
        let self = fp\<lparr>commit_remote := cd\<rparr> in
        if ret then
          bind_c (send_created (ln_msg_funding_created_create \<lparr>fc_temp_channel_id = channel_id self,
              fc_funding_txid = funding_txid self, fc_funding_output_idx = funding_txindex self,
              fc_signature = cd_signature (commit_remote self)\<rparr>) self) (\<lambda>self. Inr (True, self))
        else Inr (False, self)) = res"
    and "signs env (redeem_fund fp)" "terms_of m fp" "agreed env m acc fp" "is_funder fp" "length (funding_txid fp) = BTC_SZ_TXID"
    and "first_tx eb (oc_to_self_delay m) (ac_dust_limit_sat acc) b ws fi tx" "tx_txid env tx = Some t"
    and "commit_mirror b fp" "sha256 eb = sha256 env" "ripemd160 eb = ripemd160 env"
  obtains rs f2 where "res = Inr (True, f2)"
    "sent f2 = sent fp @ [funding_created_wire \<lparr>fc_temp_channel_id = oc_temp_channel_id m,
      fc_funding_txid = funding_txid fp, fc_funding_output_idx = funding_txindex fp, fc_signature = rs\<rparr>]"
    "length rs = LN_SZ_SIGNATURE" "tx_sign env tx (funding_sat fp) (redeem_fund fp) = Some (der_sig rs)"
    "f2 = callback (CB_SEND_REQ (Some (funding_created_wire \<lparr>fc_temp_channel_id = oc_temp_channel_id m,
      fc_funding_txid = funding_txid fp, fc_funding_output_idx = funding_txindex fp, fc_signature = rs\<rparr>)))
      (fp\<lparr>commit_remote := (commit_remote fp)\<lparr>txid := t, cd_signature := rs, htlc_num := 0\<rparr>\<rparr>)"
    "wf_self f2"
proof -
  have wf: "wf_self fp" "channel_id fp = oc_temp_channel_id m" "length (channel_id fp) = LN_SZ_CHANNEL_ID"
    using assms(3) unfolding terms_of_def wf_self_def by blast+
  have tx: "local_commit_tx eb 0 (ucast (oc_to_self_delay m)) (ac_dust_limit_sat acc) b = Inr (ws, [], fi, tx)"
    "tx_ok fi [] tx" "signable_tx tx"
    using assms(7) unfolding first_tx_def by blast+
  have par: "set_open_params m (commit_local fp) = commit_local fp" "set_accept_params acc (commit_remote fp) = commit_remote fp"
    using assms(4,5) by (simp_all add: agreed_def)
  have c: "to_self_delay (commit_local fp) = oc_to_self_delay m" "dust_limit_sat (commit_remote fp) = ac_dust_limit_sat acc"
    using arg_cong [OF par(1), of to_self_delay] arg_cong [OF par(2), of dust_limit_sat]
    by (simp_all add: set_open_params_def set_accept_params_def)
  obtain rs where rs: "create_to_remote env (commit_remote fp) False 0 fp =
      Inr (True, (commit_remote fp)\<lparr>txid := t, cd_signature := rs, htlc_num := 0\<rparr>, None)"
    "length rs = LN_SZ_SIGNATURE" "tx_sign env tx (funding_sat fp) (redeem_fund fp) = Some (der_sig rs)"
    by (rule first_remote_commit [OF wf(1) tx(1,2) assms(9,10,11) _ _ assms(2) tx(3) assms(8)]) (simp_all only: c)
  let ?m = "\<lparr>fc_temp_channel_id = oc_temp_channel_id m, fc_funding_txid = funding_txid fp,
    fc_funding_output_idx = funding_txindex fp, fc_signature = rs\<rparr>"
  have "funding_created_wf ?m" using rs(2) assms(6) wf(2,3) by (simp add: funding_created_wf_def)
  note made = funding_created.create_wire [OF this]
  let ?f2 = "callback (CB_SEND_REQ (Some (funding_created_wire ?m)))
      (fp\<lparr>commit_remote := (commit_remote fp)\<lparr>txid := t, cd_signature := rs, htlc_num := 0\<rparr>\<rparr>)"
  have "res = Inr (True, ?f2)"
    unfolding assms(1) [symmetric] using rs(1) made wf(2) by (simp add: send_created_def)
  moreover have "wf_self ?f2" using wf(1) rs(2) by (simp add: wf_self_def callback_def)
  ultimately show ?thesis
    by (intro that [OF _ _ rs(2,3) refl]) simp_all
qed

text \<open>The first two messages, up to the funding transaction.\<close>

lemma opening_offered:
  assumes "wf_env ef" "wf_env eg" "same_chain ef eg" "key_service ef pf f" "key_service eg pg g" "oe_chkpub pf = oe_chkpub pg"
    and "fresh_channel estf f" "fresh_channel estg g" "chk_peer_node f"
    and "wallet_signs pf (funding_outs ef FundingSat FeeRate fundin
        (redeem_of (channel_keys ef pf f) (channel_keys eg pg g))) (fi_amount fundin)"
    and "\<not> 16777216 \<le> FundingSat" "PushSat \<le> FundingSat" "\<not> 483 < ep_max_accepted_htlcs (estprm estf)"
    and "m = offer_of ef pf estf FundingSat PushSat FeeRate f" "acc = accept_of eg pg estg m g" "open_channel_error m = None"
    and "FundingSat + ln_calc_fee LN_SZ_FUNDINGTX_VSIZE (ucast FeeRate) \<le> fi_amount fundin"
    and "keys_derive ef (channel_keys ef pf f) (channel_keys eg pg g)"
      "keys_derive ef (channel_keys eg pg g) (channel_keys ef pf f)"
  obtains f1 m1 g1 fp where
    "ln_open_channel_create ef pf fundin FundingSat PushSat FeeRate f = Inr (True, Some m1, f1)" "sent f1 = sent f"
    "recv_open_channel eg pg m1 g = Inr (True, g1)" "sent g1 = sent g @ [accept_channel_wire acc]"
    "recv_accept_channel ef pf (accept_channel_wire acc) f1 =
      bind_c (create_to_remote ef (commit_remote fp) False 0 fp) (\<lambda>(ret, cd, _).
        let self = fp\<lparr>commit_remote := cd\<rparr> in
        if ret then
          bind_c (send_created (ln_msg_funding_created_create \<lparr>fc_temp_channel_id = channel_id self,
              fc_funding_txid = funding_txid self, fc_funding_output_idx = funding_txindex self,
              fc_signature = cd_signature (commit_remote self)\<rparr>) self) (\<lambda>self. Inr (True, self))
        else Inr (False, self))"
    "terms_of m g1" "agreed eg m acc g1" "\<not> is_funder g1" "terms_of m fp" "agreed ef m acc fp" "is_funder fp"
    "length (funding_txid fp) = BTC_SZ_TXID" "sent fp = sent f"
    "p_establish g1 = Some (estg\<lparr>cnl_open := m, cnl_accept := acc\<rparr>)"
    "p_establish fp = Some (estf\<lparr>p_fundin := Some fundin, cnl_open := m, cnl_accept := acc\<rparr>)"
proof -
  have chain: "chain_hash ef = chain_hash eg" using assms(3) by (simp add: same_chain_def)
  have wfg: "wf_self g" using assms(8) by (simp add: fresh_channel_def)
  have mk: "oc_pubkeys m = channel_keys ef pf f" "ac_pubkeys acc = channel_keys eg pg g"
    "oc_funding_sat m = FundingSat" "oc_feerate_per_kw m = FeeRate"
    by (simp_all add: assms(14,15) offer_of_def open_message_def accept_of_def accept_message_def)
  have "keys_derive eg = keys_derive ef"
    using assms(3) by (intro ext) (simp only: keys_derive_def same_chain_def)
  note kd = this assms(18,19)
  obtain f1 where f1: "ln_open_channel_create ef pf fundin FundingSat PushSat FeeRate f =
      Inr (True, Some (open_channel_wire (chain_hash ef) m), f1)"
    "open_channel_wf (oe_chkpub pf) (chain_hash ef) m" "terms_of m f1" "is_funder f1"
    "p_establish f1 = Some (estf\<lparr>p_fundin := Some fundin, cnl_open := m\<rparr>)"
    "pubkeys (funding_local f1) = oc_pubkeys m" "set_open_params m (commit_local f1) = commit_local f1" "sent f1 = sent f"
    by (rule open_sent [OF assms(1,4,7,9,11-14)])
  have wfm: "open_channel_wf (oe_chkpub pg) (chain_hash eg) m" using f1(2) assms(6) chain by simp
  obtain g1 where g1: "recv_open_channel eg pg (open_channel_wire (chain_hash eg) m) g = Inr (True, g1)"
    "sent g1 = sent g @ [accept_channel_wire acc]" "terms_of m g1" "agreed eg m acc g1" "\<not> is_funder g1"
    "p_establish g1 = Some (estg\<lparr>cnl_open := m, cnl_accept := acc\<rparr>)"
    by (rule open_accepted [OF assms(2,5,8) wfm assms(16,15)]) (simp_all add: kd mk)
  have wfa: "accept_channel_wf (oe_chkpub pf) acc"
    using accept_wf [OF wfm assms(2,5) wfg] assms(6,15) by simp
  have pk: "public_keys pf (oc_pubkeys m)" using f1(2) by (simp add: open_channel_wf_def public_keys_wf)
  have temp: "ac_temp_channel_id acc = oc_temp_channel_id m"
    by (simp add: assms(15) accept_of_def accept_message_def)
  have pay: "oc_funding_sat m + ln_calc_fee LN_SZ_FUNDINGTX_VSIZE (ucast (oc_feerate_per_kw m)) \<le> fi_amount fundin"
    using assms(17) by (simp add: assms(14) offer_of_def open_message_def)
  obtain fp where fp: "recv_accept_channel ef pf (accept_channel_wire acc) f1 =
      bind_c (create_to_remote ef (commit_remote fp) False 0 fp) (\<lambda>(ret, cd, _).
        let self = fp\<lparr>commit_remote := cd\<rparr> in
        if ret then
          bind_c (send_created (ln_msg_funding_created_create \<lparr>fc_temp_channel_id = channel_id self,
              fc_funding_txid = funding_txid self, fc_funding_output_idx = funding_txindex self,
              fc_signature = cd_signature (commit_remote self)\<rparr>) self) (\<lambda>self. Inr (True, self))
        else Inr (False, self))"
    "terms_of m fp" "agreed ef m acc fp" "is_funder fp" "length (funding_txid fp) = BTC_SZ_TXID"
    "p_establish fp = Some (estf\<lparr>p_fundin := Some fundin, cnl_open := m, cnl_accept := acc\<rparr>)" "sent fp = sent f1"
    by (rule funding_made [OF assms(1) _ _ f1(3,4,5) _ _ f1(6,7) pk wfa temp pay]) (simp_all add: kd mk assms(10))
  show ?thesis
    by (rule that [OF f1(1,8) g1(1) [folded chain] g1(2) fp(1) g1(3-5) fp(2-5) _ g1(6) fp(6)]) (simp add: fp f1)
qed

lemma params_fields:
  "set_open_params m c = c \<Longrightarrow>
     dust_limit_sat c = oc_dust_limit_sat m \<and> max_htlc_value_in_flight_msat c = oc_max_htlc_value_in_flight_msat m \<and>
     channel_reserve_sat c = oc_channel_reserve_sat m \<and> htlc_minimum_msat c = oc_htlc_minimum_msat m \<and>
     to_self_delay c = oc_to_self_delay m \<and> max_accepted_htlcs c = oc_max_accepted_htlcs m"
  "set_accept_params acc c = c \<Longrightarrow>
     dust_limit_sat c = ac_dust_limit_sat acc \<and> max_htlc_value_in_flight_msat c = ac_max_htlc_value_in_flight_msat acc \<and>
     channel_reserve_sat c = ac_channel_reserve_sat acc \<and> htlc_minimum_msat c = ac_htlc_minimum_msat acc \<and>
     to_self_delay c = ac_to_self_delay acc \<and> max_accepted_htlcs c = ac_max_accepted_htlcs acc"
  by (elim subst; simp add: set_open_params_def set_accept_params_def)+

lemma params_agreed:
  assumes "set_open_params m cf = cf" "set_accept_params acc cg = cg"
    and "set_open_params m df = df" "set_accept_params acc dg = dg"
    and "commit_local a = cf\<lparr>cd_signature := s1, txid := t1, htlc_num := 0, commit_num := 0, revoke_num := r1\<rparr>"
    and "commit_remote a = cg\<lparr>txid := t2, cd_signature := s2, htlc_num := 0, commit_num := 0, revoke_num := r2\<rparr>"
    and "commit_local b = dg\<lparr>cd_signature := s3, txid := t3, htlc_num := 0, commit_num := 0, revoke_num := r3\<rparr>"
    and "commit_remote b = df\<lparr>cd_signature := s4, txid := t4, htlc_num := 0, commit_num := 0, revoke_num := r4\<rparr>"
  shows "params_mirror a b" "params_mirror b a"
proof -
  show "params_mirror a b" "params_mirror b a"
    using params_fields(1) [OF assms(1)] params_fields(1) [OF assms(3)] params_fields(2) [OF assms(2)] params_fields(2) [OF assms(4)]
    by (simp_all add: params_mirror_def assms(5-8))
qed

text \<open>The last two messages.\<close>

lemma opening_signed:
  assumes "wf_env ef" "wf_env eg" "same_chain ef eg" "mutual_signers ef eg (redeem_fund fp)" "oe_send_funding pf"
    and "terms_of m g1" "agreed eg m acc g1" "\<not> is_funder g1" "terms_of m fp" "agreed ef m acc fp" "is_funder fp"
    and "length (funding_txid fp) = BTC_SZ_TXID"
    and "p_establish g1 = Some eg1" "cnl_open eg1 = m" "cnl_accept eg1 = acc"
    and "p_establish fp = Some ef1" "cnl_open ef1 = m" "cnl_accept ef1 = acc"
    and "affordable (oc_dust_limit_sat m) m" "affordable (ac_dust_limit_sat acc) m"
    and "bind_c (create_to_remote ef (commit_remote fp) False 0 fp) (\<lambda>(ret, cd, _).
        let self = fp\<lparr>commit_remote := cd\<rparr> in
        if ret then
          bind_c (send_created (ln_msg_funding_created_create \<lparr>fc_temp_channel_id = channel_id self,
              fc_funding_txid = funding_txid self, fc_funding_output_idx = funding_txindex self,
              fc_signature = cd_signature (commit_remote self)\<rparr>) self) (\<lambda>self. Inr (True, self))
        else Inr (False, self)) = res"
  obtains f2 m3 g2 m4 f3 where "res = Inr (True, f2)" "sent f2 = sent fp @ [m3]"
    "recv_funding_created eg pg m3 g1 = Inr (True, g2)" "sent g2 = sent g1 @ [m4]"
    "recv_funding_signed ef pf m4 f2 = Inr (True, f3)"
    "closing_mirror f3 g2" "is_funder f3" "obscured f3 = obscured g2" "funding_sat f3 = funding_sat fp" "our_msat f3 = our_msat fp"
    "params_mirror f3 g2" "params_mirror g2 f3" "commit_held eg f3 g2" "commit_held ef g2 f3"
    "ch_status f3 = LN_STATUS_ESTABLISH" "ch_status g2 = LN_STATUS_ESTABLISH"
    "CB_FUNDINGTX_WAIT True \<in> set (events f3)" "CB_FUNDINGTX_WAIT False \<in> set (events g2)"
proof -
  define b where "b = g1\<lparr>funding_txid := funding_txid fp, funding_txindex := funding_txindex fp\<rparr>"
  have same: "sha256 ef = sha256 eg" "ripemd160 ef = ripemd160 eg" "ec ef = ec eg" "tx_txid ef = tx_txid eg"
    and ids: "\<And>tx. signable_tx tx \<Longrightarrow> \<exists>t. tx_txid ef tx = Some t"
    using assms(3) by (auto simp: same_chain_def)
  have ver: "tx_verify_2of2 ef tx v (redeem_fund fp) (der_sig x) (der_sig y)"
    "tx_verify_2of2 eg tx v (redeem_fund fp) (der_sig y) (der_sig x)"
    if "signable_tx tx" "tx_sign ef tx v (redeem_fund fp) = Some (der_sig x)"
      "tx_sign eg tx v (redeem_fund fp) = Some (der_sig y)" for tx v x y
    using assms(4) that unfolding mutual_signers_def by blast+
  have "wf_self b = wf_self g1" by (simp add: b_def wf_self_def)
  then have b: "terms_of m b" "agreed eg m acc b" "\<not> is_funder b"
    using assms(6-8) by (simp_all add: b_def terms_of_def agreed_def)
  have mir: "commit_mirror fp b"
    by (rule agreed_mirror [OF assms(9) b(1) assms(10) b(2) assms(11) b(3) same(1,3)]) (simp_all add: b_def)
  have money: "funding_sat b = funding_sat fp" "redeem_fund b = redeem_fund fp" "obscured b = obscured fp"
    "feerate_per_kw b = feerate_per_kw fp" "our_msat b = their_msat fp" "their_msat b = our_msat fp"
    using mir by (simp_all add: commit_mirror_def)
  have sig: "signs ef (redeem_fund fp)" "signs eg (redeem_fund g1)"
    using assms(4) money(2) by (simp_all add: mutual_signers_def b_def)
  have idb: "length (funding_txid b) = BTC_SZ_TXID" using assms(12) by (simp add: b_def)
  obtain ws fi tx where tx: "first_tx eg (oc_to_self_delay m) (ac_dust_limit_sat acc) b ws fi tx"
    using first_tx_exists [OF assms(2) _ _ _ _ assms(20) idb, of "oc_to_self_delay m"] b(1) unfolding terms_of_def by metis
  obtain ws' fi' tx' where tx': "first_tx ef (ac_to_self_delay acc) (oc_dust_limit_sat m) fp ws' fi' tx'"
    using first_tx_exists [OF assms(1) _ _ _ _ assms(19,12), of "ac_to_self_delay acc"] assms(9) unfolding terms_of_def by metis
  have st: "signable_tx tx" "signable_tx tx'" using tx tx' by (simp_all add: first_tx_def)
  obtain t t' where t: "tx_txid ef tx = Some t" "tx_txid ef tx' = Some t'"
    using ids tx tx' unfolding first_tx_def by metis
  obtain cid where cid: "ln_misc_calc_channel_id (funding_txid fp) (funding_txindex fp) = Inr cid" "length cid = LN_SZ_CHANNEL_ID"
    by (rule calc_channel_id_ok [OF assms(12)])
  obtain rs f2 where f2: "res = Inr (True, f2)"
    "sent f2 = sent fp @ [funding_created_wire \<lparr>fc_temp_channel_id = oc_temp_channel_id m,
      fc_funding_txid = funding_txid fp, fc_funding_output_idx = funding_txindex fp, fc_signature = rs\<rparr>]"
    "length rs = LN_SZ_SIGNATURE" "tx_sign ef tx (funding_sat fp) (redeem_fund fp) = Some (der_sig rs)"
    "f2 = callback (CB_SEND_REQ (Some (funding_created_wire \<lparr>fc_temp_channel_id = oc_temp_channel_id m,
      fc_funding_txid = funding_txid fp, fc_funding_output_idx = funding_txindex fp, fc_signature = rs\<rparr>)))
      (fp\<lparr>commit_remote := (commit_remote fp)\<lparr>txid := t, cd_signature := rs, htlc_num := 0\<rparr>\<rparr>)"
    "wf_self f2"
    by (rule funding_created_sent [OF assms(21) sig(1) assms(9-12) tx t(1) commit_mirror_sym [OF mir] same(1,2) [symmetric]])
  have g1: "funding_sat g1 = funding_sat fp" "redeem_fund g1 = redeem_fund fp" "obscured g1 = obscured fp"
    "feerate_per_kw g1 = feerate_per_kw fp" "our_msat g1 = their_msat fp" "their_msat g1 = our_msat fp"
    using money by (simp_all add: b_def)
  have t_eg: "tx_txid eg tx = Some t" "tx_txid eg tx' = Some t'" using t same(4) by simp_all
  obtain g2 rs' where g2: "recv_funding_created eg pg (funding_created_wire \<lparr>fc_temp_channel_id = oc_temp_channel_id m,
      fc_funding_txid = funding_txid fp, fc_funding_output_idx = funding_txindex fp, fc_signature = rs\<rparr>) g1 = Inr (True, g2)"
    "sent g2 = sent g1 @ [funding_signed_wire \<lparr>fs_channel_id = cid, fs_signature = rs'\<rparr>]"
    "length rs' = LN_SZ_SIGNATURE" "tx_sign eg tx' (funding_sat fp) (redeem_fund fp) = Some (der_sig rs')"
    "channel_id g2 = cid" "funding_txid g2 = funding_txid fp" "funding_txindex g2 = funding_txindex fp"
    "funding_sat g2 = funding_sat fp" "redeem_fund g2 = redeem_fund fp" "feerate_per_kw g2 = feerate_per_kw fp"
    "obscured g2 = obscured fp" "\<not> is_funder g2" "our_msat g2 = their_msat fp" "their_msat g2 = our_msat fp"
    "commit_local g2 = (commit_local g1)\<lparr>cd_signature := rs, txid := t, htlc_num := 0, commit_num := 0, revoke_num := - 1\<rparr>"
    "commit_remote g2 = (commit_remote g1)\<lparr>cd_signature := rs', txid := t', htlc_num := 0, commit_num := 0, revoke_num := - 1\<rparr>"
    "CB_FUNDINGTX_WAIT False \<in> set (events g2)" "ch_status g2 = LN_STATUS_ESTABLISH"
    by (rule funding_created_answered [OF sig(2) assms(6-8,13-15,12) f2(3) b_def tx t_eg(1) _ tx' t_eg(2) mir same(1,2) cid,
          unfolded g1]) (rule ver(2) [OF st(1) f2(4)])
  have f2f: "funding_sat f2 = funding_sat fp" "redeem_fund f2 = redeem_fund fp" "funding_txid f2 = funding_txid fp"
    "funding_txindex f2 = funding_txindex fp" "is_funder f2" "p_establish f2 = Some ef1" "feerate_per_kw f2 = feerate_per_kw fp"
    "obscured f2 = obscured fp" "our_msat f2 = our_msat fp" "their_msat f2 = their_msat fp" "commit_local f2 = commit_local fp"
    "commit_remote f2 = (commit_remote fp)\<lparr>txid := t, cd_signature := rs, htlc_num := 0\<rparr>"
    using assms(11,16) by (simp_all add: f2(5))
  have tx2: "first_tx ef (ac_to_self_delay acc) (oc_dust_limit_sat m) f2 ws' fi' tx'"
    using tx' local_commit_tx_cong [of f2 fp ef 0 _ _] by (simp add: first_tx_def f2(5))
  have cid2: "ln_misc_calc_channel_id (funding_txid f2) (funding_txindex f2) = Inr cid" by (simp only: f2f cid(1))
  obtain f3 where f3: "recv_funding_signed ef pf (funding_signed_wire \<lparr>fs_channel_id = cid, fs_signature = rs'\<rparr>) f2 = Inr (True, f3)"
    "channel_id f3 = cid" "funding_txid f3 = funding_txid fp" "funding_txindex f3 = funding_txindex fp"
    "funding_sat f3 = funding_sat fp" "redeem_fund f3 = redeem_fund fp" "feerate_per_kw f3 = feerate_per_kw fp"
    "obscured f3 = obscured fp" "is_funder f3" "our_msat f3 = our_msat fp" "their_msat f3 = their_msat fp"
    "commit_local f3 = (commit_local fp)\<lparr>cd_signature := rs', txid := t', htlc_num := 0, commit_num := 0, revoke_num := - 1\<rparr>"
    "commit_remote f3 = (commit_remote fp)\<lparr>txid := t, cd_signature := rs, htlc_num := 0, commit_num := 0, revoke_num := - 1\<rparr>"
    "CB_FUNDINGTX_WAIT True \<in> set (events f3)" "ch_status f3 = LN_STATUS_ESTABLISH"
    by (rule funding_signed_taken [OF _ f2(6) f2f(5,6) assms(17,18,5) g2(3) cid2 cid(2) tx2 t(2), unfolded f2f])
      (rule sig(1), rule ver(1) [OF st(2) _ g2(4)])
  have mirror: "closing_mirror f3 g2"
    using g2 f3 by (simp add: closing_mirror_def)
  have pf: "set_open_params m (commit_local fp) = commit_local fp" "set_accept_params acc (commit_remote fp) = commit_remote fp"
    using assms(10,11) by (simp_all add: agreed_def)
  have pg: "set_open_params m (commit_remote g1) = commit_remote g1" "set_accept_params acc (commit_local g1) = commit_local g1"
    using assms(7,8) by (simp_all add: agreed_def)
  have par: "params_mirror f3 g2" "params_mirror g2 f3"
    by (rule params_agreed [OF pf(1,2) pg(1,2) f3(12,13) g2(15,16)])+
  have held: "commit_held eg f3 g2" "commit_held ef g2 f3"
    using t t_eg f2(4) g2 f3 f2f unfolding commit_held_def by auto
  show ?thesis
    by (rule that [OF f2(1,2) g2(1,2) f3(1) mirror f3(9) _ _ _ par held f3(15) g2(18) f3(14) g2(17)]) (simp_all only: f3 g2)
qed

text \<open>The request of the user can be met: the amounts, the fee rate and what the wallet offers.\<close>

definition acceptable_offer ::
  "ln_fundin_t \<Rightarrow> ln_establish_t \<Rightarrow> ln_establish_t \<Rightarrow> u64 \<Rightarrow> u64 \<Rightarrow> u32 \<Rightarrow> bool" where
  "acceptable_offer fundin estf estg FundingSat PushSat FeeRate \<longleftrightarrow>
     \<not> 16777216 \<le> FundingSat \<and> PushSat \<le> FundingSat \<and> \<not> 483 < ep_max_accepted_htlcs (estprm estf) \<and>
     LN_FEERATE_PER_KW_MIN \<le> FeeRate \<and>
     ln_estimate_initcommittx_fee FeeRate + BTC_DUST_LIMIT + LN_FUNDSAT_MIN \<le> FundingSat \<and>
     (\<forall>d\<in>{ep_dust_limit_sat (estprm estf), ep_dust_limit_sat (estprm estg)}.
        0 < d \<and> d < 2 ^ 63 \<and> d + ln_estimate_initcommittx_fee FeeRate \<le> FundingSat - PushSat) \<and>
     FundingSat + ln_calc_fee LN_SZ_FUNDINGTX_VSIZE (ucast FeeRate) \<le> fi_amount fundin"

text \<open>
  C9: a channel between two nodes of this program opens. From the request of the user, the five
  messages of the opening pass between them without an error, and then both wait for the same funding
  transaction: they agree on the channel id, the funding output and its script, the balances and the
  obscuring factor; each keeps as the peer's parameters those that the peer has taken for itself; and
  each holds the other's signature on its own first commitment transaction. Assumed are valid private keys
  for the keys of these two channels and that the ten script keys derive from their public keys, that the
  two sign and verify for the script of this funding output, and that the wallet signs this funding
  transaction.
\<close>

theorem channel_opens:
  assumes "wf_env ef" "wf_env eg" "same_chain ef eg" "oe_chkpub pf = oe_chkpub pg"
    and keys: "key_service ef pf f" "key_service eg pg g" "kf = channel_keys ef pf f" "kg = channel_keys eg pg g"
      "keys_derive ef kf kg" "keys_derive ef kg kf"
    and sign: "mutual_signers ef eg (redeem_of kf kg)"
      "wallet_signs pf (funding_outs ef FundingSat FeeRate fundin (redeem_of kf kg)) (fi_amount fundin)"
    and "chk_peer_node f" "oe_send_funding pf" "fresh_channel estf f" "fresh_channel estg g"
    and offer: "acceptable_offer fundin estf estg FundingSat PushSat FeeRate"
  shows "\<exists>f1 m1 g1 m2 f2 m3 g2 m4 f3.
    ln_open_channel_create ef pf fundin FundingSat PushSat FeeRate f = Inr (True, Some m1, f1) \<and>
    recv_open_channel eg pg m1 g = Inr (True, g1) \<and> sent g1 = sent g @ [m2] \<and>
    recv_accept_channel ef pf m2 f1 = Inr (True, f2) \<and> sent f2 = sent f @ [m3] \<and>
    recv_funding_created eg pg m3 g1 = Inr (True, g2) \<and> sent g2 = sent g1 @ [m4] \<and>
    recv_funding_signed ef pf m4 f2 = Inr (True, f3) \<and>
    closing_mirror f3 g2 \<and> is_funder f3 \<and> obscured f3 = obscured g2 \<and> funding_sat f3 = FundingSat \<and>
    our_msat f3 = LN_SATOSHI2MSAT FundingSat - LN_SATOSHI2MSAT PushSat \<and>
    params_mirror f3 g2 \<and> params_mirror g2 f3 \<and> commit_held eg f3 g2 \<and> commit_held ef g2 f3 \<and>
    ch_status f3 = LN_STATUS_ESTABLISH \<and> ch_status g2 = LN_STATUS_ESTABLISH \<and>
    CB_FUNDINGTX_WAIT True \<in> set (events f3) \<and> CB_FUNDINGTX_WAIT False \<in> set (events g2)"
proof -
  define m where "m = offer_of ef pf estf FundingSat PushSat FeeRate f"
  define acc where "acc = accept_of eg pg estg m g"
  have mf: "oc_funding_sat m = FundingSat" "oc_push_msat m = LN_SATOSHI2MSAT PushSat" "oc_feerate_per_kw m = FeeRate"
    "oc_dust_limit_sat m = ep_dust_limit_sat (estprm estf)" "ac_dust_limit_sat acc = ep_dust_limit_sat (estprm estg)"
    by (simp_all add: m_def acc_def offer_of_def open_message_def accept_of_def accept_message_def)
  have o: "\<not> 16777216 \<le> FundingSat" "PushSat \<le> FundingSat" "\<not> 483 < ep_max_accepted_htlcs (estprm estf)"
    "FundingSat + ln_calc_fee LN_SZ_FUNDINGTX_VSIZE (ucast FeeRate) \<le> fi_amount fundin"
    using offer by (simp_all add: acceptable_offer_def)
  have err: "open_channel_error m = None"
    using offer by (simp add: open_channel_error_def acceptable_offer_def mf not_less Let_def)
  have aff: "affordable (oc_dust_limit_sat m) m" "affordable (ac_dust_limit_sat acc) m"
    using offer unfolding affordable_def mf msat2sat_rest [OF o(1,2)] by (simp_all add: acceptable_offer_def)
  obtain f1 m1 g1 fp where x: "ln_open_channel_create ef pf fundin FundingSat PushSat FeeRate f = Inr (True, Some m1, f1)"
    "sent f1 = sent f" "recv_open_channel eg pg m1 g = Inr (True, g1)" "sent g1 = sent g @ [accept_channel_wire acc]"
    "recv_accept_channel ef pf (accept_channel_wire acc) f1 =
      bind_c (create_to_remote ef (commit_remote fp) False 0 fp) (\<lambda>(ret, cd, _).
        let self = fp\<lparr>commit_remote := cd\<rparr> in
        if ret then
          bind_c (send_created (ln_msg_funding_created_create \<lparr>fc_temp_channel_id = channel_id self,
              fc_funding_txid = funding_txid self, fc_funding_output_idx = funding_txindex self,
              fc_signature = cd_signature (commit_remote self)\<rparr>) self) (\<lambda>self. Inr (True, self))
        else Inr (False, self))"
    "terms_of m g1" "agreed eg m acc g1" "\<not> is_funder g1" "terms_of m fp" "agreed ef m acc fp" "is_funder fp"
    "length (funding_txid fp) = BTC_SZ_TXID" "sent fp = sent f"
    "p_establish g1 = Some (estg\<lparr>cnl_open := m, cnl_accept := acc\<rparr>)"
    "p_establish fp = Some (estf\<lparr>p_fundin := Some fundin, cnl_open := m, cnl_accept := acc\<rparr>)"
    by (rule opening_offered [OF assms(1-3) keys(1,2) assms(4,15,16,13) sign(2) [unfolded keys(3,4)] o(1-3) m_def acc_def err
          o(4) keys(5,6) [unfolded keys(3,4)]])
  have redeem: "redeem_fund fp = redeem_of kf kg"
    using x(10,11) by (simp add: agreed_def keys(3,4) m_def acc_def offer_of_def open_message_def accept_of_def accept_message_def)
  obtain f2 m3 g2 m4 f3 where y: "recv_accept_channel ef pf (accept_channel_wire acc) f1 = Inr (True, f2)" "sent f2 = sent fp @ [m3]"
    "recv_funding_created eg pg m3 g1 = Inr (True, g2)" "sent g2 = sent g1 @ [m4]"
    "recv_funding_signed ef pf m4 f2 = Inr (True, f3)"
    "closing_mirror f3 g2" "is_funder f3" "obscured f3 = obscured g2" "funding_sat f3 = funding_sat fp" "our_msat f3 = our_msat fp"
    "params_mirror f3 g2" "params_mirror g2 f3" "commit_held eg f3 g2" "commit_held ef g2 f3"
    "ch_status f3 = LN_STATUS_ESTABLISH" "ch_status g2 = LN_STATUS_ESTABLISH"
    "CB_FUNDINGTX_WAIT True \<in> set (events f3)" "CB_FUNDINGTX_WAIT False \<in> set (events g2)"
    by (rule opening_signed [OF assms(1-3) sign(1) [folded redeem] assms(14) x(6-12,14) _ _ x(15) _ _ aff x(5) [symmetric], of pg]) simp_all
  have amt: "funding_sat f3 = FundingSat" "our_msat f3 = LN_SATOSHI2MSAT FundingSat - LN_SATOSHI2MSAT PushSat"
    using x(9,11) y(9,10) by (simp_all add: terms_of_def mf)
  show ?thesis
    by (intro exI conjI) (rule x(1), rule x(3), rule x(4), rule y(1), rule y(2) [unfolded x(13)],
      rule y, rule y, rule y, rule y, rule y, rule y, rule amt, rule amt, (rule y)+)
qed

definition toy_prm :: ln_establish_prm_t where
  "toy_prm = \<lparr>ep_dust_limit_sat = 546, ep_max_htlc_value_in_flight_msat = 100000000, ep_channel_reserve_sat = 700,
     ep_htlc_minimum_msat = 0, ep_to_self_delay = 40, ep_max_accepted_htlcs = 6, ep_min_depth = 1\<rparr>"

definition toy_est :: ln_establish_t where
  "toy_est = \<lparr>cnl_open = open_message toy_prm 0 0 0 toy_self, cnl_accept = accept_message toy_prm toy_self,
     p_fundin = None, estprm = toy_prm\<rparr>"

definition toy_fresh :: ln_self_t where
  "toy_fresh = toy_self\<lparr>is_funder := False, short_channel_id := 0, p_establish := Some toy_est\<rparr>"

definition toy_fundin :: ln_fundin_t where
  "toy_fundin = \<lparr>fi_txid = replicate 32 1, fi_index = 0, fi_amount = 2000000, fi_change_spk = [0]\<rparr>"

text \<open>
  In \<open>open_toy_env\<close> the keys are those of the group of order 7, in which 0 is no private key and the point
  at infinity no public key; every hash is 1, and only what can be signed is signed.
\<close>

definition toy_point :: "nat \<Rightarrow> bytes" where
  "toy_point k = replicate 32 0 @ [of_nat k]"

definition open_toy_env :: "nat ln_env" where
  "open_toy_env = sign_toy_env\<lparr>sha256 := (\<lambda>_. replicate 31 0 @ [1]),
     priv2pub := (\<lambda>s. if mpi_read s mod 7 = 0 then None else Some (toy_point (mpi_read s mod 7))),
     tx_txid := (\<lambda>tx. if signable_tx tx then Some (replicate 32 6) else None)\<rparr>"

definition toy_open :: open_env where
  "toy_open = \<lparr>oe_chkpub = (\<lambda>k. k \<noteq> replicate 33 0), oe_privs = map (\<lambda>k. replicate 31 0 @ [k]) [1, 2, 3, 4, 5],
     oe_id = replicate 32 9, oe_feerate = 500,
     oe_sign_funding = (\<lambda>outs _. Some (rev outs, replicate 32 4)), oe_send_funding = True\<rparr>"

lemma open_toy_env_fields [simp]:
  "sha256 open_toy_env = (\<lambda>_. replicate 31 0 @ [1])" "ec open_toy_env = toy_ec" "chain_hash open_toy_env = replicate 32 9"
  "priv2pub open_toy_env = (\<lambda>s. if mpi_read s mod 7 = 0 then None else Some (toy_point (mpi_read s mod 7)))"
  by (simp_all add: open_toy_env_def sign_toy_env_def toy_env_def)

lemma mpi_read_zeros: "mpi_read (replicate n 0 @ [k]) = unat k"
  by (induction n) (simp_all add: mpi_read_def)

lemma toy_point_simps [simp]:
  "length (toy_point k) = BTC_SZ_PUBKEY" "k < 256 \<Longrightarrow> mpi_read (toy_point k) = k"
  "0 < k \<Longrightarrow> k < 256 \<Longrightarrow> toy_point k \<noteq> replicate 33 0"
proof -
  show "length (toy_point k) = BTC_SZ_PUBKEY" by (simp add: toy_point_def)
  show r: "k < 256 \<Longrightarrow> mpi_read (toy_point k) = k"
    by (simp add: toy_point_def mpi_read_zeros unat_of_nat_byte)
  have "replicate 33 (0 :: byte) = replicate 32 0 @ [0]"
    unfolding replicate_append_same by (simp flip: replicate_Suc)
  then have "mpi_read (replicate 33 0) = 0" using mpi_read_zeros [of 32 0] by simp
  then show "0 < k \<Longrightarrow> k < 256 \<Longrightarrow> toy_point k \<noteq> replicate 33 0" using r by fastforce
qed

lemma toy_privs:
  "channel_privs open_toy_env toy_open toy_fresh = map (\<lambda>k. replicate 31 0 @ [k]) [1, 2, 3, 4, 5, 1]"
proof -
  have "ln_derkey_create_secret (\<lambda>_. replicate 31 0 @ [1]) (replicate 32 1) LN_SECINDEX_INIT = replicate 31 0 @ [1]"
    by code_simp
  then show ?thesis
    by (simp add: channel_privs_def toy_open_def) (simp add: toy_fresh_def toy_self_def)
qed

lemma toy_keys:
  "channel_keys open_toy_env toy_open toy_fresh = map toy_point [1, 2, 3, 4, 5, 1]"
  "\<forall>s\<in>set (channel_privs open_toy_env toy_open toy_fresh). \<exists>p. priv2pub open_toy_env s = Some p \<and> oe_chkpub toy_open p"
  unfolding channel_keys_def toy_privs by (simp_all add: mpi_read_zeros) (simp_all add: toy_open_def)

lemma toy_keys_derive:
  assumes "x < 6" "0 < x"
  shows "keys_derive open_toy_env (map toy_point [1, 2, 3, 4, 5, x]) (map toy_point [1, 2, 3, 4, 5, y])"
proof -
  have w: "\<exists>k. mpi_write 33 v = Some k" if "v < 7" for v
    using that less_trans [of v 7 "256 ^ 33"] by (simp add: mpi_write_def)
  have "x \<in> {1, 2, 3, 4, 5}" using assms by auto
  then show ?thesis
    using w by (auto simp: keys_derive_def fundidx_defs ln_derkey_pubkey_def ln_derkey_revocationkey_def Let_def
        btc_util_ecp_muladd_def toy_ec_def mpi_read_zeros)
qed

lemma toy_opening:
  "wf_env open_toy_env" "same_chain open_toy_env open_toy_env" "mutual_signers open_toy_env open_toy_env redeem"
  "key_service open_toy_env toy_open toy_fresh" "wallet_signs toy_open outs amount" "fresh_channel toy_est toy_fresh"
  "acceptable_offer toy_fundin toy_est toy_est 1000000 1000 500"
proof -
  show "wf_env open_toy_env"
    using toy_wf(1) by (simp add: wf_env_def) (simp add: open_toy_env_def sign_toy_env_def toy_env_def toy_ec_def)
  show "same_chain open_toy_env open_toy_env" by (simp add: same_chain_def open_toy_env_def)
  show "mutual_signers open_toy_env open_toy_env redeem"
    using toy_signs(2) by (simp add: mutual_signers_def signs_def open_toy_env_def) (auto simp: sign_toy_env_def)
  show "key_service open_toy_env toy_open toy_fresh"
    using toy_keys(2) by (simp add: key_service_def) (simp add: toy_open_def)
  show "wallet_signs toy_open outs amount" by (auto simp: wallet_signs_def toy_open_def)
  show "fresh_channel toy_est toy_fresh"
    using toy_wf_self by (simp add: fresh_channel_def toy_fresh_def toy_est_def toy_self_def wf_self_def LN_HTLC_MAX_def)
  show "acceptable_offer toy_fundin toy_est toy_est 1000000 1000 500"
    by (simp add: acceptable_offer_def toy_est_def toy_prm_def toy_fundin_def LN_FEERATE_PER_KW_MIN_def
        ln_estimate_initcommittx_fee_def LN_FEE_COMMIT_BASE_def BTC_DUST_LIMIT_def LN_FUNDSAT_MIN_def ln_calc_fee_def
        LN_SZ_FUNDINGTX_VSIZE_def)
qed

theorem channel_opens_witness:
  "\<exists>f1 m1 g1 m2 f2 m3 g2 m4 f3.
    ln_open_channel_create open_toy_env toy_open toy_fundin 1000000 1000 500 toy_fresh = Inr (True, Some m1, f1) \<and>
    recv_open_channel open_toy_env toy_open m1 toy_fresh = Inr (True, g1) \<and>
    recv_accept_channel open_toy_env toy_open m2 f1 = Inr (True, f2) \<and>
    recv_funding_created open_toy_env toy_open m3 g1 = Inr (True, g2) \<and>
    recv_funding_signed open_toy_env toy_open m4 f2 = Inr (True, f3) \<and>
    closing_mirror f3 g2 \<and> our_msat f3 = 999000000"
proof -
  have c: "chk_peer_node toy_fresh" "oe_send_funding toy_open" by (simp_all add: toy_open_def chk_peer_node_def toy_fresh_def toy_self_def)
  have amt: "LN_SATOSHI2MSAT 1000000 - LN_SATOSHI2MSAT 1000 = 999000000" by (simp add: LN_SATOSHI2MSAT_def)
  have kd: "keys_derive open_toy_env (map toy_point [1, 2, 3, 4, 5, 1]) (map toy_point [1, 2, 3, 4, 5, 1])"
    by (rule toy_keys_derive) simp_all
  show ?thesis
    using channel_opens [OF toy_opening(1,1,2) refl toy_opening(4,4) toy_keys(1,1) [symmetric] kd kd
        toy_opening(3,5) c toy_opening(6,6,7)] unfolding amt by blast
qed

section \<open>The channel is locked in\<close>

text \<open>A node knows the keys of its peer, up to the per-commitment point that is on its way.\<close>

definition knows_keys :: "ln_self_t \<Rightarrow> ln_self_t \<Rightarrow> bool" where
  "knows_keys a b \<longleftrightarrow> (\<exists>old. pubkeys (funding_remote a) = (pubkeys (funding_local b))[MSG_FUNDIDX_PER_COMMIT := old])"

definition locked_of :: "ln_self_t \<Rightarrow> bytes" where
  "locked_of self = funding_locked_wire \<lparr>fl_channel_id = channel_id self,
     fl_per_commitpt = pubkeys (funding_local self) ! MSG_FUNDIDX_PER_COMMIT\<rparr>"

lemma locked_step:
  assumes "wf_env env" "wf_self self" "wf_self peer" "channel_id peer = channel_id self"
    and "knows_keys self peer"
    and kd: "keys_derive env (pubkeys (funding_local self)) (pubkeys (funding_local peer))"
      "keys_derive env (pubkeys (funding_local peer)) (pubkeys (funding_local self))"
  obtains self1 where "recv_funding_locked env (locked_of peer) self = Inr (True, self1)"
    "ln_funding_locked_create peer = Inr (buf_of (locked_of peer))"
    "pubkeys (funding_local self1) = pubkeys (funding_local self)" "pubkeys (funding_remote self1) = pubkeys (funding_local peer)"
    "scriptpubkeys (funding_local self1) = script_keys env (pubkeys (funding_local self)) (pubkeys (funding_local peer))"
    "scriptpubkeys (funding_remote self1) = script_keys env (pubkeys (funding_local peer)) (pubkeys (funding_local self))"
    "p_establish self1 = None" "is_funder self1 = is_funder self"
proof -
  let ?pt = "pubkeys (funding_local peer) ! MSG_FUNDIDX_PER_COMMIT"
  let ?m = "\<lparr>fl_channel_id = channel_id peer, fl_per_commitpt = ?pt\<rparr>"
  have six: "length (pubkeys (funding_local peer)) = 6" "\<forall>k\<in>set (pubkeys (funding_local peer)). length k = BTC_SZ_PUBKEY"
    using assms(3) by (simp_all add: wf_self_def Commit_Build.wf_keys_def)
  have "length ?pt = BTC_SZ_PUBKEY" using six by (simp add: fundidx_defs)
  moreover have "length (channel_id peer) = LN_SZ_CHANNEL_ID" using assms(3) by (simp add: wf_self_def)
  ultimately have wf: "funding_locked_wf ?m" by (simp add: funding_locked_wf_def)
  have made: "ln_funding_locked_create peer = Inr (buf_of (locked_of peer))"
    using funding_locked.create_wire [OF wf] by (simp add: ln_funding_locked_create_def locked_of_def)
  have read: "ln_msg_funding_locked_read (locked_of peer) = Inr ?m"
    using funding_locked.read_wire [OF wf, of "[]"] by (simp add: locked_of_def)
  have full: "(pubkeys (funding_remote self))[MSG_FUNDIDX_PER_COMMIT := ?pt] = pubkeys (funding_local peer)"
    using assms(5) six(1) by (auto simp: knows_keys_def fundidx_defs)
  let ?a = "free_establish True (self\<lparr>funding_remote := (funding_remote self)\<lparr>pubkeys := pubkeys (funding_local peer)\<rparr>\<rparr>)"
  let ?b = "update_scriptkeys env ?a"
  have "wf_self (self\<lparr>funding_remote := (funding_remote self)\<lparr>pubkeys := pubkeys (funding_local peer)\<rparr>\<rparr>)"
    using wf_self_funding_keys [OF assms(2) six] by blast
  then have wfa: "wf_self ?a" by (simp add: wf_self_def free_establish_def)
  have keys: "pubkeys (funding_local ?a) = pubkeys (funding_local self)" "pubkeys (funding_remote ?a) = pubkeys (funding_local peer)"
    by (simp_all add: free_establish_def)
  have run: "recv_funding_locked env (locked_of peer) self =
      Inr (True, callback CB_FUNDINGLOCKED_RECV (callback DB_SELF_SAVE ?b))"
    using assms(4) read full by (simp add: recv_funding_locked_def read_msg_def chk_chan_def chk_channelid_def Let_def)
  show ?thesis
    by (rule that [OF run made]) (use scriptkeys_derived [OF wfa, of env] kd keys in
      \<open>simp_all add: free_establish_def\<close>)
qed

text \<open>
  C27: the exchange of funding_locked makes both commitment transactions computable on both sides: each
  node then has the public keys of the other, and what the one derives as the script keys of its own
  commitment transaction the other derives as those of the remote one. The work area of the opening
  is freed. Assumed is that the script keys derive from the public keys of these two channels, that is,
  that no sum of the derivation happens to be the point at infinity.
\<close>

theorem funding_locked_agrees:
  assumes "wf_env ef" "wf_env eg" "same_chain ef eg"
    and "wf_self f" "wf_self g" "channel_id g = channel_id f" "knows_keys f g" "knows_keys g f"
    and "keys_derive ef (pubkeys (funding_local f)) (pubkeys (funding_local g))"
      "keys_derive ef (pubkeys (funding_local g)) (pubkeys (funding_local f))"
  shows "\<exists>mf mg f1 g1.
    ln_funding_locked_create f = Inr (buf_of mf) \<and> ln_funding_locked_create g = Inr (buf_of mg) \<and>
    recv_funding_locked ef mg f = Inr (True, f1) \<and> recv_funding_locked eg mf g = Inr (True, g1) \<and>
    pubkeys (funding_local f1) = pubkeys (funding_remote g1) \<and> pubkeys (funding_remote f1) = pubkeys (funding_local g1) \<and>
    scriptpubkeys (funding_local f1) = scriptpubkeys (funding_remote g1) \<and>
    scriptpubkeys (funding_remote f1) = scriptpubkeys (funding_local g1) \<and>
    p_establish f1 = None \<and> p_establish g1 = None"
proof -
  have sk: "script_keys eg = script_keys ef"
    using assms(3) by (intro ext) (simp only: script_keys_def same_chain_def)
  have kd: "keys_derive eg = keys_derive ef"
    using assms(3) by (intro ext) (simp only: keys_derive_def same_chain_def)
  obtain f1 where f1: "recv_funding_locked ef (locked_of g) f = Inr (True, f1)" "ln_funding_locked_create g = Inr (buf_of (locked_of g))"
    "pubkeys (funding_local f1) = pubkeys (funding_local f)" "pubkeys (funding_remote f1) = pubkeys (funding_local g)"
    "scriptpubkeys (funding_local f1) = script_keys ef (pubkeys (funding_local f)) (pubkeys (funding_local g))"
    "scriptpubkeys (funding_remote f1) = script_keys ef (pubkeys (funding_local g)) (pubkeys (funding_local f))"
    "p_establish f1 = None"
    by (rule locked_step [OF assms(1,4-7,9,10)])
  obtain g1 where g1: "recv_funding_locked eg (locked_of f) g = Inr (True, g1)" "ln_funding_locked_create f = Inr (buf_of (locked_of f))"
    "pubkeys (funding_local g1) = pubkeys (funding_local g)" "pubkeys (funding_remote g1) = pubkeys (funding_local f)"
    "scriptpubkeys (funding_local g1) = script_keys eg (pubkeys (funding_local g)) (pubkeys (funding_local f))"
    "scriptpubkeys (funding_remote g1) = script_keys eg (pubkeys (funding_local f)) (pubkeys (funding_local g))"
    "p_establish g1 = None"
    by (rule locked_step [OF assms(2,5,4) assms(6) [symmetric] assms(8)]) (simp_all add: kd assms(9,10))
  show ?thesis
    by (intro exI conjI, rule g1(2), rule f1(2), rule f1(1), rule g1(1)) (simp_all add: f1 g1 sk)
qed

definition toy_locked :: "nat \<Rightarrow> ln_self_t" where
  "toy_locked x = toy_self\<lparr>funding_local := toy_funding\<lparr>pubkeys := map toy_point [1, 2, 3, 4, 5, x]\<rparr>,
     funding_remote := toy_funding\<lparr>pubkeys := map toy_point [1, 2, 3, 4, 5, 6]\<rparr>\<rparr>"

lemma toy_locked_facts:
  "wf_self (toy_locked x)" "knows_keys (toy_locked x) (toy_locked y)" "channel_id (toy_locked x) = channel_id (toy_locked y)"
proof -
  show "wf_self (toy_locked x)"
    using toy_wf_self by (auto simp: toy_locked_def wf_self_def toy_self_def Commit_Build.wf_keys_def toy_funding_def)
  show "knows_keys (toy_locked x) (toy_locked y)"
    by (simp add: knows_keys_def toy_locked_def toy_self_def toy_funding_def toy_point_def fundidx_defs)
  show "channel_id (toy_locked x) = channel_id (toy_locked y)" by (simp add: toy_locked_def)
qed

lemma toy_locked_derive:
  "x < 6 \<Longrightarrow> 0 < x \<Longrightarrow> keys_derive open_toy_env (pubkeys (funding_local (toy_locked x))) (pubkeys (funding_local (toy_locked y)))"
  using toy_keys_derive by (simp add: toy_locked_def)

theorem funding_locked_agrees_witness:
  "\<exists>mf mg f1 g1.
    ln_funding_locked_create (toy_locked 3) = Inr (buf_of mf) \<and> ln_funding_locked_create (toy_locked 4) = Inr (buf_of mg) \<and>
    recv_funding_locked open_toy_env mg (toy_locked 3) = Inr (True, f1) \<and>
    recv_funding_locked open_toy_env mf (toy_locked 4) = Inr (True, g1) \<and>
    scriptpubkeys (funding_local f1) = scriptpubkeys (funding_remote g1)"
  using funding_locked_agrees [OF toy_opening(1,1,2) toy_locked_facts(1,1) toy_locked_facts(3) toy_locked_facts(2,2)
      toy_locked_derive toy_locked_derive, of 3 4] by auto

section \<open>What the opening does not check\<close>

text \<open>
  \<open>ln_open_channel_create\<close> does not look at the result of \<^verbatim>\<open>ln_msg_open_channel_create\<close>. An amount of
  2^24 satoshi or more, or more pushed than funded, is a success for the caller, without a message; the
  channel counts as being funded, and every later request is refused.
\<close>

theorem open_channel_unsendable:
  assumes "wf_env env" "key_service env oe f" "fresh_channel est f" "chk_peer_node f"
    and "16777216 \<le> FundingSat \<or> LN_SATOSHI2MSAT FundingSat < LN_SATOSHI2MSAT PushSat"
  shows "\<exists>f1. ln_open_channel_create env oe fundin FundingSat PushSat FeeRate f = Inr (True, None, f1) \<and>
    funding_sat f1 = FundingSat \<and> our_msat f1 = LN_SATOSHI2MSAT FundingSat - LN_SATOSHI2MSAT PushSat \<and>
    (\<forall>fundin F P R. ln_open_channel_create env oe fundin F P R f1 = Inr (False, None, set_err LNERR_ALREADY_FUNDING f1))"
proof -
  note fresh = assms(3) [unfolded fresh_channel_def]
  define u where "u = update_scriptkeys env (ln_signer_create_channelkeys env oe (f\<lparr>channel_id := oe_id oe\<rparr>))"
  have wfc: "wf_self (f\<lparr>channel_id := oe_id oe\<rparr>)" using assms(2) fresh by (simp add: wf_self_def key_service_def)
  have ks: "key_service env oe (f\<lparr>channel_id := oe_id oe\<rparr>)" using assms(2) by (simp add: key_service_def channel_privs_def)
  have k: "p_establish u = Some est" "init_flag u = init_flag f" "peer_node_id u = peer_node_id f"
    using fresh unfolding u_def create_channelkeys_eq [OF assms(1) ks wfc]
    by (simp_all add: update_scriptkeys_def split: prod.split)
  let ?m = "open_message (estprm est) FundingSat PushSat FeeRate u"
  have no: "with_bytes (ln_msg_open_channel_create (oe_chkpub oe) (chain_hash env) ?m) Inr = Inl Ret_False"
    using assms(5) by (auto simp: ln_msg_open_channel_create_def open_message_def check_c_def with_bytes_def)
  let ?f1 = "u\<lparr>p_establish := Some (est\<lparr>p_fundin := Some fundin, cnl_open := ?m\<rparr>),
      commit_local := set_open_params ?m (commit_local u),
      our_msat := LN_SATOSHI2MSAT FundingSat - LN_SATOSHI2MSAT PushSat, their_msat := LN_SATOSHI2MSAT PushSat,
      funding_sat := FundingSat, feerate_per_kw := FeeRate,
      is_funder := True, is_announce := oc_channel_flags ?m AND 1 \<noteq> 0, is_funding := True, is_opened := False\<rparr>"
  have "ln_open_channel_create env oe fundin FundingSat PushSat FeeRate f = Inr (True, None, ?f1)"
    using fresh assms(4) k(1) by (simp add: ln_open_channel_create_def Let_def u_def [symmetric])
      (simp add: open_message_def no [unfolded open_message_def, simplified])
  moreover have "ln_open_channel_create env oe fundin F P R ?f1 = Inr (False, None, set_err LNERR_ALREADY_FUNDING ?f1)" for fundin F P R
    using assms(4) fresh k(2,3) by (simp add: ln_open_channel_create_def chk_peer_node_def)
  ultimately show ?thesis by (intro exI [of _ ?f1]) simp
qed

theorem open_channel_unsendable_witness:
  "\<exists>f1. ln_open_channel_create open_toy_env toy_open toy_fundin 1000 2000 500 toy_fresh = Inr (True, None, f1) \<and>
    our_msat f1 = - 1000000"
proof -
  have "chk_peer_node toy_fresh" "LN_SATOSHI2MSAT 1000 < LN_SATOSHI2MSAT 2000"
    "LN_SATOSHI2MSAT 1000 - LN_SATOSHI2MSAT 2000 = - 1000000"
    by (simp_all add: chk_peer_node_def toy_fresh_def toy_self_def LN_SATOSHI2MSAT_def)
  then show ?thesis
    using open_channel_unsendable [OF toy_opening(1,4,6), where FundingSat = 1000 and PushSat = 2000] by metis
qed

text \<open>
  A message of the opening that comes after funding_locked stops the node: the work area is gone,
  and the handlers write through the pointer before they check anything but their own side.
\<close>

theorem stale_opening_crashes:
  assumes "recv_funding_locked env d self = Inr (True, self1)"
  shows "if is_funder self
    then recv_accept_channel env oe pData self1 = Inl Null_Deref \<and> recv_funding_signed env oe pData self1 = Inl Null_Deref
    else recv_funding_created env oe pData self1 = Inl Null_Deref"
proof -
  have "p_establish self1 = None" "is_funder self1 = is_funder self"
    using assms by (auto simp: recv_funding_locked_def read_msg_def chk_chan_def Let_def try_c_def free_establish_def set_err_def
        split: sum.splits if_splits)
  then show ?thesis
    by (simp add: recv_accept_channel_def recv_funding_signed_def recv_funding_created_def no_establish_def)
qed

theorem stale_opening_crashes_witness:
  "\<exists>self1. recv_funding_locked open_toy_env (locked_of (toy_locked 4)) (toy_locked 3) = Inr (True, self1) \<and>
    recv_accept_channel open_toy_env toy_open [] self1 = Inl Null_Deref"
proof -
  obtain self1 where s: "recv_funding_locked open_toy_env (locked_of (toy_locked 4)) (toy_locked 3) = Inr (True, self1)"
    using locked_step [OF toy_opening(1) toy_locked_facts(1,1,3,2) toy_locked_derive toy_locked_derive, of 3 4] by auto
  have "is_funder (toy_locked 3)" by (simp add: toy_locked_def toy_self_def)
  then show ?thesis
    using s stale_opening_crashes [OF s, of toy_open "[]"] by simp
qed

end
