(* ===== verification/Channel_Anno.thy ===== *)
theory Channel_Anno
  imports Channel_Relay
begin

text \<open>
  The announcement of a channel and the gossip messages in \<^verbatim>\<open>ln/ln.c\<close>: \<^verbatim>\<open>ln_announce_signs_create\<close>,
  \<^verbatim>\<open>recv_announcement_signatures\<close> and \<^verbatim>\<open>proc_anno_sigs\<close> on both sides of a channel, and the handlers of
  \<open>channel_announcement\<close>, \<open>channel_update\<close> and \<open>node_announcement\<close>, which store what others announce.
\<close>

section \<open>The own node, the database and the clock\<close>

text \<open>
  Parameters: the id and the keys of the node, the verification of a signature, what the database
  holds and whether it accepts a write, and the time.
\<close>

record anno_env =
  an_node_id :: bytes                              \<comment> \<open>\<open>ln_node_getid()\<close>\<close>
  an_sign_node :: "bytes \<Rightarrow> bytes option"           \<comment> \<open>\<open>ln_node_sign_nodekey\<close>\<close>
  an_sign_btc :: "bytes \<Rightarrow> bytes option"            \<comment> \<open>\<open>ln_signer_sign_rs\<close> with the funding key\<close>
  an_verify :: "bytes \<Rightarrow> bytes \<Rightarrow> bytes \<Rightarrow> bool"     \<comment> \<open>signature, hash, key\<close>
  an_chkpub :: "bytes \<Rightarrow> bool"                      \<comment> \<open>\<open>btc_keys_chkpub\<close>\<close>
  an_now :: u64                                    \<comment> \<open>\<open>time(NULL)\<close>\<close>
  an_junk :: bytes                                 \<comment> \<open>what a fresh block has at the place of a signature\<close>
  an_annocnl_load :: "u64 \<Rightarrow> bytes option"
  an_annocnl_save :: "bytes \<Rightarrow> bool"
  an_annocnlupd_save :: "bytes \<Rightarrow> bool"
  an_annonod_save :: "bytes \<Rightarrow> bool"

definition btc_util_hash256 :: "'p ln_env \<Rightarrow> bytes \<Rightarrow> bytes" where
  "btc_util_hash256 env d = sha256 env (sha256 env d)"

definition ln_db_annocnlupd_is_prune :: "u64 \<Rightarrow> u32 \<Rightarrow> bool" where
  "ln_db_annocnlupd_is_prune Now TimeStamp \<longleftrightarrow> ucast TimeStamp + 1209600 < Now"

section \<open>The order of the node ids\<close>

definition sort_nodeid :: "anno_env \<Rightarrow> bytes \<Rightarrow> btc_keys_sort_t" where
  "sort_nodeid ae p_peerid =
     (case first_slot id (map2 (\<noteq>) (an_node_id ae) p_peerid) of
        Some lp \<Rightarrow> if an_node_id ae ! lp < p_peerid ! lp then BTC_KEYS_SORT_ASC else BTC_KEYS_SORT_OTHER
      | None \<Rightarrow> BTC_KEYS_SORT_OTHER)"

definition ln_sort_to_dir :: "btc_keys_sort_t \<Rightarrow> u16" where
  "ln_sort_to_dir Sort = (case Sort of BTC_KEYS_SORT_ASC \<Rightarrow> 0 | BTC_KEYS_SORT_OTHER \<Rightarrow> 1)"

section \<open>Own announcements\<close>

definition M_ANNO_FLAG_SEND :: byte where "M_ANNO_FLAG_SEND = 0x01"
definition M_ANNO_FLAG_RECV :: byte where "M_ANNO_FLAG_RECV = 0x02"
definition LN_ANNO_FLAG_END :: byte where "LN_ANNO_FLAG_END = 0x80"

lemmas anno_flag_defs = M_ANNO_FLAG_SEND_def M_ANNO_FLAG_RECV_def LN_ANNO_FLAG_END_def

definition create_local_channel_announcement :: "'p ln_env \<Rightarrow> anno_env \<Rightarrow> ln_self_t \<Rightarrow> ln_self_t c_result" where
  \<comment> \<open>the callers do not look at the result\<close>
  "create_local_channel_announcement env ae self =
     bind_c (ln_msg_cnl_announce_create (chain_hash env) (btc_util_hash256 env) (an_sign_node ae) (an_sign_btc ae)
       \<lparr>ca_short_channel_id = short_channel_id self, p_my_node_pub = an_node_id ae,
        p_my_funding_pub = pubkeys (funding_local self) ! MSG_FUNDIDX_FUNDING,
        p_peer_node_pub = peer_node_id self,
        p_peer_funding_pub = pubkeys (funding_remote self) ! MSG_FUNDIDX_FUNDING,
        ca_sort = sort_nodeid ae (peer_node_id self)\<rparr>) (\<lambda>(ret, d).
     Inr (self\<lparr>cnl_anno := Some d\<rparr>))"

definition create_channel_update ::
  "'p ln_env \<Rightarrow> anno_env \<Rightarrow> u32 \<Rightarrow> byte \<Rightarrow> ln_self_t \<Rightarrow> (ln_cnl_update_t \<times> bytes) c_result" where
  "create_channel_update env ae TimeStamp Flag self =
     (let upd = \<lparr>cu_short_channel_id = short_channel_id self, cu_timestamp = TimeStamp,
            cu_flags = ucast Flag OR ln_sort_to_dir (sort_nodeid ae (peer_node_id self)),
            cu_cltv_expiry_delta = anno_cltv_expiry_delta self,
            cu_htlc_minimum_msat = anno_htlc_minimum_msat self, cu_fee_base_msat = fee_base_msat self,
            cu_fee_prop_millionths = fee_prop_millionths self, cu_htlc_maximum_msat = 0\<rparr> in
      bind_c (ln_msg_cnl_update_create (chain_hash env) (btc_util_hash256 env) (an_sign_node ae) (an_junk ae) upd)
        (\<lambda>d. Inr (upd, d)))"

definition anno_buf :: "ln_self_t \<Rightarrow> bytes" where
  "anno_buf self = (case cnl_anno self of Some d \<Rightarrow> d | None \<Rightarrow> [])"

definition anno_ensure :: "'p ln_env \<Rightarrow> anno_env \<Rightarrow> ln_self_t \<Rightarrow> ln_self_t c_result" where
  \<comment> \<open>\<open>if (self->cnl_anno.buf == NULL) create_local_channel_announcement(self);\<close>\<close>
  "anno_ensure env ae self =
     (if cnl_anno self = None then create_local_channel_announcement env ae self else Inr self)"

definition proc_anno_sigs :: "'p ln_env \<Rightarrow> anno_env \<Rightarrow> ln_self_t \<Rightarrow> ln_self_t c_result" where
  "proc_anno_sigs env ae self =
     (if anno_flag self = M_ANNO_FLAG_SEND OR M_ANNO_FLAG_RECV \<and> short_channel_id self \<noteq> 0 then
        let d = anno_buf self;
            self = callback (DB_ANNOCNL_SAVE d (short_channel_id self) None (peer_node_id self) (an_node_id ae)) self;
            self = (if an_annocnl_save ae d then self\<lparr>cnl_anno := None\<rparr> else self) in
        try_c (create_channel_update env ae (ucast (an_now ae)) 0 self) (\<lambda>r.
        let self = (case r of
              Some (upd, b) \<Rightarrow> callback (DB_ANNOCNLUPD_SAVE b (cu_short_channel_id upd) (cu_flags upd) None) self
            | None \<Rightarrow> self) in
        Inr (self\<lparr>anno_flag := anno_flag self OR LN_ANNO_FLAG_END\<rparr>))
      else Inr self)"

text \<open>
  The signatures are read from their places in the own announcement, and those of the peer are written
  to their places while the message is read, before its channel id is checked.
\<close>

definition ln_announce_signs_create ::
  "'p ln_env \<Rightarrow> anno_env \<Rightarrow> ln_self_t \<Rightarrow> (bool \<times> bytes option \<times> ln_self_t) c_result" where
  "ln_announce_signs_create env ae self =
     bind_c (anno_ensure env ae self) (\<lambda>self.
     let (p_sig_node, p_sig_btc) = ln_msg_get_anno_signs True (sort_nodeid ae (peer_node_id self)) in
     get_bytes LN_SZ_SIGNATURE (drop p_sig_node (anno_buf self)) (\<lambda>sig_node _.
     get_bytes LN_SZ_SIGNATURE (drop p_sig_btc (anno_buf self)) (\<lambda>sig_btc _.
     try_c (with_bytes (ln_msg_announce_signs_create \<lparr>as_channel_id = channel_id self,
         as_short_channel_id = short_channel_id self, as_node_signature = sig_node,
         as_btc_signature = sig_btc\<rparr>) Inr) (\<lambda>b.
     case b of
       None \<Rightarrow> Inr (False, None, self)
     | Some pBuf \<Rightarrow>
         bind_c (proc_anno_sigs env ae (self\<lparr>anno_flag := anno_flag self OR M_ANNO_FLAG_SEND\<rparr>)) (\<lambda>self.
         Inr (True, Some pBuf, callback DB_SELF_SAVE self))))))"

definition recv_announcement_signatures :: "'p ln_env \<Rightarrow> anno_env \<Rightarrow> bytes \<Rightarrow> ln_self_t \<Rightarrow> handler_result" where
  "recv_announcement_signatures env ae pData self =
     (if \<not> (is_funder self \<or> is_announce self \<or> is_funding self \<or> is_opened self) then Inr (False, self)
      else
        bind_c (anno_ensure env ae self) (\<lambda>self.
        let sort = sort_nodeid ae (peer_node_id self) in
        read_msg (ln_msg_announce_signs_read (short_channel_id self) pData) self (\<lambda>m.
        bind_c (put_anno_signs (anno_buf self) sort (as_node_signature m, as_btc_signature m)) (\<lambda>d.
        let self = self\<lparr>cnl_anno := Some d\<rparr> in
        if as_short_channel_id m = 0 then Inr (False, set_err LNERR_MSG_READ self)
        else
          chk_chan (as_channel_id m) self (
          let self = self\<lparr>short_channel_id := as_short_channel_id m\<rparr> in
          bind_c (ln_msg_cnl_announce_update_short_cnl_id (btc_util_hash256 env) (an_sign_node ae) (an_sign_btc ae)
              d (short_channel_id self) sort) (\<lambda>(ret, d).
          let self = self\<lparr>cnl_anno := Some d\<rparr> in
          if ret then
            bind_c (proc_anno_sigs env ae (self\<lparr>anno_flag := anno_flag self OR M_ANNO_FLAG_RECV\<rparr>)) (\<lambda>self.
            Inr (True, callback DB_SELF_SAVE self))
          else Inr (False, self)))))))"

definition ln_channel_update_create ::
  "'p ln_env \<Rightarrow> anno_env \<Rightarrow> ln_self_t \<Rightarrow> (bool \<times> bytes option \<times> ln_self_t) c_result" where
  "ln_channel_update_create env ae self =
     try_c (create_channel_update env ae (ucast (an_now ae)) 0 self) (\<lambda>r.
     case r of
       None \<Rightarrow> Inr (False, None, self)
     | Some (upd, b) \<Rightarrow>
         let self = callback (DB_ANNOCNLUPD_SAVE b (cu_short_channel_id upd) (cu_flags upd) None) self in
         Inr (an_annocnlupd_save ae b, Some b,
           if anno_flag self = M_ANNO_FLAG_SEND OR M_ANNO_FLAG_RECV
           then callback (CB_UPDATE_ANNODB LN_CB_UPDATE_ANNODB_CNL_UPD) self else self))"

definition ln_is_announced :: "ln_self_t \<Rightarrow> bool" where
  "ln_is_announced self \<longleftrightarrow> anno_flag self AND LN_ANNO_FLAG_END \<noteq> 0"

section \<open>The announcements of others\<close>

definition recv_channel_announcement :: "'p ln_env \<Rightarrow> anno_env \<Rightarrow> bytes \<Rightarrow> ln_self_t \<Rightarrow> handler_result" where
  "recv_channel_announcement env ae pData self =
     try_c (ln_msg_cnl_announce_read (chain_hash env) pData) (\<lambda>r.
     case r of
       None \<Rightarrow> Inr (True, self)
     | Some ann \<Rightarrow>
         if car_short_channel_id ann = 0 then Inr (True, self)
         else
           Inr (True, callback (CB_UPDATE_ANNODB (if an_annocnl_save ae pData
                then LN_CB_UPDATE_ANNODB_CNL_ANNO else LN_CB_UPDATE_ANNODB_NONE))
             (callback (DB_ANNOCNL_SAVE pData (car_short_channel_id ann) (Some (peer_node_id self))
                (car_node_id1 ann) (car_node_id2 ann)) self)))"

definition get_nodeid_from_annocnl ::
  "'p ln_env \<Rightarrow> anno_env \<Rightarrow> u64 \<Rightarrow> u16 \<Rightarrow> ln_self_t \<Rightarrow> bytes option c_result" where
  "get_nodeid_from_annocnl env ae scid Dir self =
     (case an_annocnl_load ae scid of
        Some d \<Rightarrow>
          try_c (ln_msg_cnl_announce_read (chain_hash env) d) (\<lambda>r.
          Inr (map_option (\<lambda>ann. if Dir = 0 then car_node_id1 ann else car_node_id2 ann) r))
      | None \<Rightarrow>
          Inr (if scid = short_channel_id self then
                 let mysort = sort_nodeid ae (peer_node_id self) in
                 if mysort = BTC_KEYS_SORT_ASC \<and> Dir = 0 \<or> mysort = BTC_KEYS_SORT_OTHER \<and> Dir = 1
                 then Some (an_node_id ae) else Some (peer_node_id self)
               else None))"

definition LN_CNLUPD_FLAGS_DIRECTION :: u16 where "LN_CNLUPD_FLAGS_DIRECTION = 0x0001"

definition recv_channel_update :: "'p ln_env \<Rightarrow> anno_env \<Rightarrow> bytes \<Rightarrow> ln_self_t \<Rightarrow> handler_result" where
  "recv_channel_update env ae pData self =
     try_c (ln_msg_cnl_update_read (chain_hash env) pData) (\<lambda>r.
     case r of
       None \<Rightarrow> Inr (True, self)
     | Some (False, _) \<Rightarrow> Inr (True, self)
     | Some (True, upd) \<Rightarrow>
         if ln_db_annocnlupd_is_prune (an_now ae) (cu_timestamp upd) then Inr (True, self)
         else
           bind_c (get_nodeid_from_annocnl env ae (cu_short_channel_id upd)
               (cu_flags upd AND LN_CNLUPD_FLAGS_DIRECTION) self) (\<lambda>node.
           bind_c (case node of
               Some node_id \<Rightarrow>
                 if an_chkpub ae node_id
                 then ln_msg_cnl_update_verify (btc_util_hash256 env) (an_verify ae) node_id pData
                 else Inr True
             | None \<Rightarrow> Inr True) (\<lambda>ret.
           Inr (True,
             if ret then
               callback (CB_UPDATE_ANNODB (if an_annocnlupd_save ae pData
                   then LN_CB_UPDATE_ANNODB_CNL_UPD else LN_CB_UPDATE_ANNODB_NONE))
                 (callback (DB_ANNOCNLUPD_SAVE pData (cu_short_channel_id upd) (cu_flags upd)
                    (Some (peer_node_id self))) self)
             else callback (CB_UPDATE_ANNODB LN_CB_UPDATE_ANNODB_NONE) self))))"

text \<open>\<open>base\<close> is the uninitialised local struct with its two pointers set.\<close>

definition recv_node_announcement ::
  "'p ln_env \<Rightarrow> anno_env \<Rightarrow> ln_node_announce_t \<Rightarrow> bytes \<Rightarrow> ln_self_t \<Rightarrow> handler_result" where
  "recv_node_announcement env ae base pData self =
     try_c (ln_msg_node_announce_read (btc_util_hash256 env) (an_verify ae)
        (base\<lparr>nod_node_id := Some [], nod_alias := Some []\<rparr>) pData) (\<lambda>r.
     case r of
       None \<Rightarrow> Inr (False, self)
     | Some anno \<Rightarrow>
         let self = callback (DB_ANNONOD_SAVE pData (peer_node_id self)) self in
         Inr (True, if an_annonod_save ae pData
           then callback (CB_UPDATE_ANNODB LN_CB_UPDATE_ANNODB_NODE_ANNO) self else self))"

section \<open>The order of two ids\<close>

lemma first_slot_map2:
  "length xs = length ys \<Longrightarrow> first_slot id (map2 (\<noteq>) xs ys) = Some i \<Longrightarrow>
     i < length xs \<and> xs ! i \<noteq> ys ! i"
  using first_slot_SomeD [of id "map2 (\<noteq>) xs ys" i] by auto

lemma first_slot_map2_None:
  "length xs = length ys \<Longrightarrow> first_slot id (map2 (\<noteq>) xs ys) = None \<Longrightarrow> xs = ys"
proof (rule nth_equalityI)
  fix i assume "i < length xs" "length xs = length ys" "first_slot id (map2 (\<noteq>) xs ys) = None"
  moreover from this have "(xs ! i, ys ! i) \<in> set (zip xs ys)" by (auto simp: in_set_zip)
  ultimately show "xs ! i = ys ! i" by (force simp: first_slot_None_iff)
qed

lemma sort_nodeid_other:
  assumes "length (an_node_id A) = length (an_node_id B)" "an_node_id A \<noteq> an_node_id B"
  shows "sort_nodeid A (an_node_id B) = BTC_KEYS_SORT_ASC \<longleftrightarrow> sort_nodeid B (an_node_id A) = BTC_KEYS_SORT_OTHER"
proof -
  let ?a = "an_node_id A" and ?b = "an_node_id B"
  have "map2 (\<noteq>) ?b ?a = map2 (\<noteq>) ?a ?b"
    using assms(1) by (auto intro: nth_equalityI)
  moreover obtain i where "first_slot id (map2 (\<noteq>) ?a ?b) = Some i"
    using first_slot_map2_None [OF assms(1)] assms(2) by (cases "first_slot id (map2 (\<noteq>) ?a ?b)") auto
  moreover from this have "?a ! i \<noteq> ?b ! i"
    using first_slot_map2 [OF assms(1)] by blast
  ultimately show ?thesis by (auto simp: sort_nodeid_def)
qed

section \<open>An announcement by what its two sides contribute\<close>

definition anno_of :: "btc_keys_sort_t \<Rightarrow> bytes \<times> bytes \<Rightarrow> bytes \<times> bytes \<Rightarrow> bytes \<Rightarrow> bytes" where
  "anno_of Sort own peer body =
     (if Sort = BTC_KEYS_SORT_ASC then cnl_anno_msg (fst own) (fst peer) (snd own) (snd peer) body
      else cnl_anno_msg (fst peer) (fst own) (snd peer) (snd own) body)"

definition anno_body_of :: "'p ln_env \<Rightarrow> anno_env \<Rightarrow> u64 \<Rightarrow> ln_self_t \<Rightarrow> bytes" where
  "anno_body_of env ae scid self =
     (let n = an_node_id ae; p = peer_node_id self;
          k = pubkeys (funding_local self) ! MSG_FUNDIDX_FUNDING;
          l = pubkeys (funding_remote self) ! MSG_FUNDIDX_FUNDING in
      if sort_nodeid ae p = BTC_KEYS_SORT_ASC then cnl_anno_body (chain_hash env) scid n p k l
      else cnl_anno_body (chain_hash env) scid p n l k)"

definition sigs64 :: "bytes \<times> bytes \<Rightarrow> bool" where
  "sigs64 s \<longleftrightarrow> length (fst s) = 64 \<and> length (snd s) = 64"

lemma anno_of_swap:
  "anno_of BTC_KEYS_SORT_OTHER x y body = anno_of BTC_KEYS_SORT_ASC y x body"
  by (simp add: anno_of_def)

lemma anno_of_signs:
  assumes "sigs64 x" "sigs64 y" "sigs64 z"
  shows "own_anno_signs (anno_of S x y body) S = x"
    "put_anno_signs (anno_of S x y body) S z = Inr (anno_of S x z body)"
  using assms by (cases x; cases y; cases z; simp add: anno_of_def own_anno_signs_eq put_anno_signs_eq sigs64_def)+

lemma sign_anno_of:
  assumes "sigs64 x" "sigs64 y" "sigs64 z"
    "sign_node (hash256 body) = Some (fst z)" "sign_btc (hash256 body) = Some (snd z)"
  shows "cnl_announce_sign hash256 sign_node sign_btc (anno_of S x y body) S = Inr (True, anno_of S z y body)"
  using assms by (simp add: anno_of_def cnl_announce_sign_eq sigs64_def)

text \<open>Writing the id of the channel into the announcement and signing again.\<close>

lemma update_anno_of:
  assumes "sigs64 x" "sigs64 y" "sigs64 z" "length genesis = 32"
    and body: "\<And>scid. body scid = cnl_anno_body genesis scid n1 n2 b1 b2"
    and "sign_node (hash256 (body scid')) = Some (fst z)" "sign_btc (hash256 (body scid')) = Some (snd z)"
  shows "ln_msg_cnl_announce_update_short_cnl_id hash256 sign_node sign_btc (anno_of S x y (body scid)) scid' S =
    Inr (True, anno_of S z y (body scid'))"
proof -
  obtain p where p: "anno_of S x y b = p @ b" "length p = 258" for b
  proof
    show "anno_of S x y b = take 258 (anno_of S x y []) @ b" for b
      using assms(1,2) by (auto simp: anno_of_def cnl_anno_msg_def sigs64_def)
    show "length (take 258 (anno_of S x y [])) = 258"
      using assms(1,2) by (auto simp: anno_of_def cnl_anno_msg_def sigs64_def)
  qed
  have "put_bytes (p @ be16 0 @ genesis @ be64 scid @ q) 292 (be64 scid') =
      Inr (p @ be16 0 @ genesis @ be64 scid' @ q)" for q
    using put_bytes_mid [of "p @ be16 0 @ genesis" 292 "be64 scid'" "be64 scid" q] assms(4) p(2) by simp
  then have "put_bytes (p @ body scid) 292 (be64 scid') = Inr (p @ body scid')"
    by (simp add: body cnl_anno_body_def)
  moreover have "ln_misc_get16be (drop 258 (p @ body scid)) = Inr 0"
    using p(2) by (simp add: body cnl_anno_body_def wire)
  ultimately show ?thesis
    using sign_anno_of [OF assms(1-3), of sign_node hash256 "body scid'" sign_btc S] assms(6,7) p
    by (simp add: ln_msg_cnl_announce_update_short_cnl_id_def)
qed

section \<open>The steps of one node\<close>

text \<open>
  The node can sign: whatever it signs is a valid signature of 64 bytes under its node key and under
  the funding key of the channel.
\<close>

definition node_signs :: "anno_env \<Rightarrow> bytes \<Rightarrow> bool" where
  "node_signs ae k \<longleftrightarrow>
     length (an_node_id ae) = 33 \<and> length (an_junk ae) = 64 \<and>
     (\<forall>h. \<exists>s t. an_sign_node ae h = Some s \<and> an_sign_btc ae h = Some t \<and> sigs64 (s, t) \<and>
        an_verify ae s h (an_node_id ae) \<and> an_verify ae t h k)"

definition own_sigs :: "anno_env \<Rightarrow> bytes \<Rightarrow> bytes \<times> bytes" where
  "own_sigs ae h = (the (an_sign_node ae h), the (an_sign_btc ae h))"

lemma node_signs_own:
  assumes "node_signs ae k"
  shows "an_sign_node ae h = Some (fst (own_sigs ae h))" "an_sign_btc ae h = Some (snd (own_sigs ae h))"
    "sigs64 (own_sigs ae h)" "an_verify ae (fst (own_sigs ae h)) h (an_node_id ae)"
    "an_verify ae (snd (own_sigs ae h)) h k"
  using assms by (auto simp: node_signs_def own_sigs_def dest!: spec [of _ h])

text \<open>A channel whose announcement can be made: the keys and ids are there.\<close>

definition can_announce :: "'p ln_env \<Rightarrow> anno_env \<Rightarrow> ln_self_t \<Rightarrow> bool" where
  "can_announce env ae self \<longleftrightarrow>
     length (chain_hash env) = 32 \<and> length (channel_id self) = 32 \<and> length (peer_node_id self) = 33 \<and>
     length (pubkeys (funding_local self) ! MSG_FUNDIDX_FUNDING) = 33 \<and>
     length (pubkeys (funding_remote self) ! MSG_FUNDIDX_FUNDING) = 33 \<and>
     node_signs ae (pubkeys (funding_local self) ! MSG_FUNDIDX_FUNDING)"

definition blank_sigs :: "bytes \<times> bytes" where
  "blank_sigs = (replicate 64 0xcc, replicate 64 0xcc)"

abbreviation scid_sigs :: "'p ln_env \<Rightarrow> anno_env \<Rightarrow> u64 \<Rightarrow> ln_self_t \<Rightarrow> bytes \<times> bytes" where
  "scid_sigs env ae scid self \<equiv> own_sigs ae (btc_util_hash256 env (anno_body_of env ae scid self))"

lemma anno_body_of_cong:
  assumes "peer_node_id self' = peer_node_id self" "funding_local self' = funding_local self"
    "funding_remote self' = funding_remote self"
  shows "anno_body_of env ae scid self' = anno_body_of env ae scid self"
  using assms by (simp add: anno_body_of_def)

lemma create_local_eq:
  assumes "can_announce env ae self"
  shows "create_local_channel_announcement env ae self = Inr (self\<lparr>cnl_anno := Some
    (anno_of (sort_nodeid ae (peer_node_id self)) (scid_sigs env ae (short_channel_id self) self) blank_sigs
      (anno_body_of env ae (short_channel_id self) self))\<rparr>)"
proof -
  let ?S = "sort_nodeid ae (peer_node_id self)"
  let ?m = "\<lparr>ca_short_channel_id = short_channel_id self, p_my_node_pub = an_node_id ae,
        p_my_funding_pub = pubkeys (funding_local self) ! MSG_FUNDIDX_FUNDING,
        p_peer_node_pub = peer_node_id self,
        p_peer_funding_pub = pubkeys (funding_remote self) ! MSG_FUNDIDX_FUNDING, ca_sort = ?S\<rparr>"
  let ?b = "anno_body_of env ae (short_channel_id self) self"
  let ?h = "btc_util_hash256 env ?b"
  have s: "node_signs ae (pubkeys (funding_local self) ! MSG_FUNDIDX_FUNDING)"
    using assms by (simp add: can_announce_def)
  have b: "?b = (if ca_sort ?m = BTC_KEYS_SORT_ASC
      then cnl_anno_body (chain_hash env) (ca_short_channel_id ?m) (p_my_node_pub ?m) (p_peer_node_pub ?m)
             (p_my_funding_pub ?m) (p_peer_funding_pub ?m)
      else cnl_anno_body (chain_hash env) (ca_short_channel_id ?m) (p_peer_node_pub ?m) (p_my_node_pub ?m)
             (p_peer_funding_pub ?m) (p_my_funding_pub ?m))"
    by (simp add: anno_body_of_def Let_def)
  have len: "length (chain_hash env) = 32" "length (p_my_node_pub ?m) = 33" "length (p_peer_node_pub ?m) = 33"
    "length (p_my_funding_pub ?m) = 33" "length (p_peer_funding_pub ?m) = 33"
    using assms s by (simp_all add: can_announce_def node_signs_def)
  have "ln_msg_cnl_announce_create (chain_hash env) (btc_util_hash256 env) (an_sign_node ae) (an_sign_btc ae) ?m =
    Inr (True, let c = replicate 64 0xcc in
      if ca_sort ?m = BTC_KEYS_SORT_ASC
      then cnl_anno_msg (fst (own_sigs ae ?h)) c (snd (own_sigs ae ?h)) c ?b
      else cnl_anno_msg c (fst (own_sigs ae ?h)) c (snd (own_sigs ae ?h)) ?b)"
    using node_signs_own(1-3) [OF s, of ?h]
    by (intro ln_msg_cnl_announce_create_eq [OF len b]) (simp_all only: sigs64_def)
  then have "ln_msg_cnl_announce_create (chain_hash env) (btc_util_hash256 env) (an_sign_node ae) (an_sign_btc ae) ?m =
    Inr (True, anno_of ?S (own_sigs ae ?h) blank_sigs ?b)"
    by (simp add: anno_of_def blank_sigs_def Let_def)
  then show ?thesis by (simp add: create_local_channel_announcement_def)
qed

lemma create_channel_update_ok:
  assumes "can_announce env ae self"
  shows "\<exists>b. create_channel_update env ae ts fl self =
    Inr (\<lparr>cu_short_channel_id = short_channel_id self, cu_timestamp = ts,
            cu_flags = ucast fl OR ln_sort_to_dir (sort_nodeid ae (peer_node_id self)),
            cu_cltv_expiry_delta = anno_cltv_expiry_delta self,
            cu_htlc_minimum_msat = anno_htlc_minimum_msat self, cu_fee_base_msat = fee_base_msat self,
            cu_fee_prop_millionths = fee_prop_millionths self, cu_htlc_maximum_msat = 0\<rparr>, b)"
proof -
  have s: "node_signs ae (pubkeys (funding_local self) ! MSG_FUNDIDX_FUNDING)" "length (chain_hash env) = 32"
    using assms by (simp_all add: can_announce_def)
  have "\<exists>b. ln_msg_cnl_update_create (chain_hash env) (btc_util_hash256 env) (an_sign_node ae) (an_junk ae) m = Inr b" for m
  proof -
    let ?b = "cnl_update_body (chain_hash env) m"
    have "msg_build (2 + 128) [P16 MSGTYPE_CHANNEL_UPDATE, PF (an_junk ae), PN (chain_hash env) BTC_SZ_HASH256,
        P64 (cu_short_channel_id m), P32 (cu_timestamp m), P16 (cu_flags m),
        P16 (cu_cltv_expiry_delta m), P64 (cu_htlc_minimum_msat m), P32 (cu_fee_base_msat m),
        P32 (cu_fee_prop_millionths m)] =
      Inr (buf_of (be16 MSGTYPE_CHANNEL_UPDATE @ an_junk ae @ ?b))"
      using s by (simp add: wire cnl_update_body_def node_signs_def)
    then show ?thesis
      using s node_signs_own(1,3) [OF s(1), of "btc_util_hash256 env ?b"]
      by (simp add: ln_msg_cnl_update_create_def put_bytes_mid Let_def sigs64_def node_signs_def)
  qed
  from this [of "\<lparr>cu_short_channel_id = short_channel_id self, cu_timestamp = ts,
      cu_flags = ucast fl OR ln_sort_to_dir (sort_nodeid ae (peer_node_id self)),
      cu_cltv_expiry_delta = anno_cltv_expiry_delta self, cu_htlc_minimum_msat = anno_htlc_minimum_msat self,
      cu_fee_base_msat = fee_base_msat self, cu_fee_prop_millionths = fee_prop_millionths self,
      cu_htlc_maximum_msat = 0\<rparr>"]
  show ?thesis by (auto simp: create_channel_update_def Let_def)
qed

text \<open>The announcement that a channel holds: with the own signatures, and \<open>y\<close> as those of the peer.\<close>

definition anno_with :: "'p ln_env \<Rightarrow> anno_env \<Rightarrow> bytes \<times> bytes \<Rightarrow> ln_self_t \<Rightarrow> bytes" where
  "anno_with env ae y self =
     anno_of (sort_nodeid ae (peer_node_id self)) (scid_sigs env ae (short_channel_id self) self) y
       (anno_body_of env ae (short_channel_id self) self)"

definition anno_holds :: "'p ln_env \<Rightarrow> anno_env \<Rightarrow> bytes \<times> bytes \<Rightarrow> ln_self_t \<Rightarrow> bool" where
  "anno_holds env ae y self \<longleftrightarrow>
     sigs64 y \<and> (cnl_anno self = None \<and> y = blank_sigs \<or> cnl_anno self = Some (anno_with env ae y self))"

lemma anno_with_simps [simp]:
  "anno_with env ae y (self\<lparr>cnl_anno := c\<rparr>) = anno_with env ae y self"
  "anno_with env ae y (self\<lparr>anno_flag := f\<rparr>) = anno_with env ae y self"
  "anno_with env ae y (self\<lparr>events := v\<rparr>) = anno_with env ae y self"
  by (simp_all add: anno_with_def anno_body_of_def)

lemma sigs64_blank: "sigs64 blank_sigs"
  by (simp add: sigs64_def blank_sigs_def)

lemma anno_ensure_eq:
  assumes "can_announce env ae self" "anno_holds env ae y self"
  shows "anno_ensure env ae self = Inr (self\<lparr>cnl_anno := Some (anno_with env ae y self)\<rparr>)"
  using assms by (auto simp: anno_ensure_def anno_holds_def create_local_eq anno_with_def)

definition signs_msg :: "'p ln_env \<Rightarrow> anno_env \<Rightarrow> ln_self_t \<Rightarrow> bytes" where
  \<comment> \<open>the \<open>announcement_signatures\<close> of a node\<close>
  "signs_msg env ae self =
     (let s = scid_sigs env ae (short_channel_id self) self in
      announce_signs_wire \<lparr>as_channel_id = channel_id self, as_short_channel_id = short_channel_id self,
        as_node_signature = fst s, as_btc_signature = snd s\<rparr>)"

lemma own_signs_get:
  assumes "sigs64 x" "sigs64 y"
  shows "get_bytes 64 (drop (fst (ln_msg_get_anno_signs True S)) (anno_of S x y body)) k = k (fst x) (drop 64 (drop (fst (ln_msg_get_anno_signs True S)) (anno_of S x y body)))"
    "get_bytes 64 (drop (snd (ln_msg_get_anno_signs True S)) (anno_of S x y body)) k = k (snd x) (drop 64 (drop (snd (ln_msg_get_anno_signs True S)) (anno_of S x y body)))"
  using assms
  by (auto simp: anno_of_def cnl_anno_msg_def ln_msg_get_anno_signs_def sigs64_def get_bytes_def)

lemma announce_signs_create_eq:
  assumes "can_announce env ae self" "anno_holds env ae y self"
  shows "ln_announce_signs_create env ae self =
    bind_c (proc_anno_sigs env ae (self\<lparr>cnl_anno := Some (anno_with env ae y self),
        anno_flag := anno_flag self OR M_ANNO_FLAG_SEND\<rparr>))
      (\<lambda>self'. Inr (True, Some (signs_msg env ae self), callback DB_SELF_SAVE self'))"
proof -
  let ?S = "sort_nodeid ae (peer_node_id self)"
  let ?own = "scid_sigs env ae (short_channel_id self) self"
  have s: "node_signs ae (pubkeys (funding_local self) ! MSG_FUNDIDX_FUNDING)"
    using assms by (simp add: can_announce_def)
  have own: "sigs64 ?own" and y: "sigs64 y"
    using node_signs_own(3) [OF s] assms(2) by (auto simp: anno_holds_def)
  have wf: "announce_signs_wf 0 \<lparr>as_channel_id = channel_id self, as_short_channel_id = short_channel_id self,
      as_node_signature = fst ?own, as_btc_signature = snd ?own\<rparr>"
    using own assms(1) by (simp add: announce_signs_wf_def sigs64_def can_announce_def)
  show ?thesis
    using announce_signs.create_wire [OF wf]
    by (simp add: ln_announce_signs_create_def anno_ensure_eq [OF assms] anno_buf_def anno_with_def case_prod_beta
        own_signs_get [OF own y] signs_msg_def Let_def try_c_def)
qed

text \<open>
  Receiving: the id of the channel in the message is taken over when the node does not know it yet; the
  signatures are stored and the own ones made again.
\<close>

lemma recv_announcement_signatures_eq:
  assumes "can_announce env ae self" "anno_holds env ae y self" "is_opened self"
    and "short_channel_id self = 0 \<or> short_channel_id self = scid" "scid \<noteq> 0" "sigs64 z"
  shows "recv_announcement_signatures env ae
      (announce_signs_wire \<lparr>as_channel_id = channel_id self, as_short_channel_id = scid,
         as_node_signature = fst z, as_btc_signature = snd z\<rparr>) self =
    bind_c (proc_anno_sigs env ae (self\<lparr>short_channel_id := scid,
        cnl_anno := Some (anno_with env ae z (self\<lparr>short_channel_id := scid\<rparr>)),
        anno_flag := anno_flag self OR M_ANNO_FLAG_RECV\<rparr>))
      (\<lambda>self'. Inr (True, callback DB_SELF_SAVE self'))"
proof -
  let ?S = "sort_nodeid ae (peer_node_id self)"
  let ?m = "\<lparr>as_channel_id = channel_id self, as_short_channel_id = scid,
         as_node_signature = fst z, as_btc_signature = snd z\<rparr>"
  let ?body = "\<lambda>scid. anno_body_of env ae scid self"
  have s: "node_signs ae (pubkeys (funding_local self) ! MSG_FUNDIDX_FUNDING)" "length (chain_hash env) = 32"
    using assms(1) by (simp_all add: can_announce_def)
  have y: "sigs64 y" using assms(2) by (simp add: anno_holds_def)
  have wf: "announce_signs_wf (short_channel_id self) ?m"
    using assms(1,4,6) by (auto simp: announce_signs_wf_def sigs64_def can_announce_def)
  have read: "ln_msg_announce_signs_read (short_channel_id self) (announce_signs_wire ?m) = Inr ?m"
    using announce_signs.read_wire [OF wf, of "[]"] by simp
  have put: "put_anno_signs (anno_with env ae y self) ?S (fst z, snd z) = Inr (anno_with env ae z self)"
    using anno_of_signs(2) [OF node_signs_own(3) [OF s(1)] y assms(6)]
    by (simp add: anno_with_def)
  obtain n1 n2 b1 b2 where body: "\<And>scid. ?body scid = cnl_anno_body (chain_hash env) scid n1 n2 b1 b2"
  proof (cases ?S)
    case BTC_KEYS_SORT_ASC
    from that [OF anno_body_of_def [unfolded Let_def, THEN trans, OF if_P, OF this]] show ?thesis .
  next
    case BTC_KEYS_SORT_OTHER
    then have "\<not> ?S = BTC_KEYS_SORT_ASC" by simp
    from that [OF anno_body_of_def [unfolded Let_def, THEN trans, OF if_not_P, OF this]] show ?thesis .
  qed
  note own = node_signs_own(3) [OF s(1)]
  have "ln_msg_cnl_announce_update_short_cnl_id (btc_util_hash256 env) (an_sign_node ae) (an_sign_btc ae)
      (anno_of ?S (scid_sigs env ae (short_channel_id self) self) z (?body (short_channel_id self))) scid ?S =
    Inr (True, anno_of ?S (scid_sigs env ae scid self) z (?body scid))"
    by (rule update_anno_of [OF own assms(6) own s(2) body node_signs_own(1) [OF s(1)] node_signs_own(2) [OF s(1)]])
  then have upd: "ln_msg_cnl_announce_update_short_cnl_id (btc_util_hash256 env) (an_sign_node ae) (an_sign_btc ae)
      (anno_with env ae z self) scid ?S = Inr (True, anno_with env ae z (self\<lparr>short_channel_id := scid\<rparr>))"
    by (simp add: anno_with_def anno_body_of_def)
  show ?thesis
    using assms(3,5) read put upd
    by (simp add: recv_announcement_signatures_def anno_ensure_eq [OF assms(1,2)] read_msg_def try_c_def
        anno_buf_def chk_chan_def chk_channelid_def Let_def)
qed

section \<open>Two nodes announce their channel\<close>

definition anno_peers :: "anno_env \<Rightarrow> ln_self_t \<Rightarrow> anno_env \<Rightarrow> ln_self_t \<Rightarrow> bool" where
  "anno_peers A a B b \<longleftrightarrow>
     peer_node_id a = an_node_id B \<and> peer_node_id b = an_node_id A \<and> an_node_id A \<noteq> an_node_id B \<and>
     channel_id a = channel_id b \<and> short_channel_id a = short_channel_id b \<and>
     pubkeys (funding_local a) ! MSG_FUNDIDX_FUNDING = pubkeys (funding_remote b) ! MSG_FUNDIDX_FUNDING \<and>
     pubkeys (funding_local b) ! MSG_FUNDIDX_FUNDING = pubkeys (funding_remote a) ! MSG_FUNDIDX_FUNDING"

lemma anno_peers_sym: "anno_peers A a B b \<Longrightarrow> anno_peers B b A a"
  by (auto simp: anno_peers_def)

lemma anno_peers_sort:
  assumes "anno_peers A a B b" "can_announce env A a" "can_announce env B b"
  shows "sort_nodeid A (peer_node_id a) = BTC_KEYS_SORT_ASC \<longleftrightarrow> sort_nodeid B (peer_node_id b) = BTC_KEYS_SORT_OTHER"
  using assms sort_nodeid_other [of A B]
  by (auto simp: anno_peers_def can_announce_def)

lemma anno_peers_body:
  assumes "anno_peers A a B b" "can_announce env A a" "can_announce env B b"
  shows "anno_body_of env A scid a = anno_body_of env B scid b"
proof -
  note s = anno_peers_sort [OF assms]
  then show ?thesis
    using assms(1) by (cases "sort_nodeid A (peer_node_id a)"; cases "sort_nodeid B (peer_node_id b)")
      (auto simp: anno_body_of_def anno_peers_def)
qed

lemma anno_peers_with:
  assumes "anno_peers A a B b" "can_announce env A a" "can_announce env B b"
  shows "anno_with env A (scid_sigs env B (short_channel_id b) b) a =
    anno_with env B (scid_sigs env A (short_channel_id a) a) b"
proof -
  have "short_channel_id a = short_channel_id b" using assms(1) by (simp add: anno_peers_def)
  then show ?thesis
    using anno_peers_sort [OF assms] anno_peers_body [OF assms]
    by (cases "sort_nodeid A (peer_node_id a)"; cases "sort_nodeid B (peer_node_id b)")
      (simp_all add: anno_with_def anno_of_swap)
qed

definition announced :: "anno_env \<Rightarrow> bytes \<Rightarrow> ln_self_t \<Rightarrow> bool" where
  \<comment> \<open>the exchange is over, and \<open>d\<close> has been stored as the announcement of the channel\<close>
  "announced ae d self \<longleftrightarrow> ln_is_announced self \<and>
     DB_ANNOCNL_SAVE d (short_channel_id self) None (peer_node_id self) (an_node_id ae) \<in> set (events self)"

definition anno_stage :: "bytes \<Rightarrow> byte \<Rightarrow> ln_self_t \<Rightarrow> ln_self_t" where
  "anno_stage d f self = self\<lparr>cnl_anno := Some d, anno_flag := f, events := events self @ [DB_SELF_SAVE]\<rparr>"

lemma anno_stage_simps [simp]:
  "can_announce env ae (anno_stage d f self) = can_announce env ae self"
  "anno_with env ae y (anno_stage d f self) = anno_with env ae y self"
  "signs_msg env ae (anno_stage d f self) = signs_msg env ae self"
  "cnl_anno (anno_stage d f self) = Some d" "anno_flag (anno_stage d f self) = f"
  "short_channel_id (anno_stage d f self) = short_channel_id self"
  "is_opened (anno_stage d f self) = is_opened self"
  by (simp_all add: anno_stage_def can_announce_def anno_with_def anno_body_of_def signs_msg_def Let_def)

lemma can_announce_simps [simp]:
  "can_announce env ae (self\<lparr>cnl_anno := c, anno_flag := f\<rparr>) = can_announce env ae self"
  by (simp add: can_announce_def)

lemma proc_anno_sigs_skip: "anno_flag self \<noteq> 3 \<Longrightarrow> proc_anno_sigs env ae self = Inr self"
  by (simp add: proc_anno_sigs_def anno_flag_defs)

lemma announce_first_send:
  assumes "can_announce env ae self" "cnl_anno self = None" "anno_flag self = 0"
  shows "ln_announce_signs_create env ae self =
    Inr (True, Some (signs_msg env ae self), anno_stage (anno_with env ae blank_sigs self) 1 self)"
proof -
  have "anno_holds env ae blank_sigs self" using assms(2) by (simp add: anno_holds_def sigs64_blank)
  from announce_signs_create_eq [OF assms(1) this] assms(3) show ?thesis
    by (simp add: proc_anno_sigs_skip anno_flag_defs anno_stage_def callback_def)
qed

lemma announce_first_recv:
  assumes "can_announce env ae self" "cnl_anno self = None" "anno_flag self = 0" "is_opened self"
    "short_channel_id self \<noteq> 0" "sigs64 z"
  shows "recv_announcement_signatures env ae (announce_signs_wire \<lparr>as_channel_id = channel_id self,
      as_short_channel_id = short_channel_id self, as_node_signature = fst z, as_btc_signature = snd z\<rparr>) self =
    Inr (True, anno_stage (anno_with env ae z self) 2 self)"
proof -
  have "anno_holds env ae blank_sigs self" using assms(2) by (simp add: anno_holds_def sigs64_blank)
  from recv_announcement_signatures_eq [OF assms(1) this assms(4) _ assms(5,6)] assms(3) show ?thesis
    by (simp add: proc_anno_sigs_skip anno_flag_defs anno_stage_def callback_def)
qed

lemma proc_anno_sigs_last:
  assumes "can_announce env ae self" "cnl_anno self = Some d" "anno_flag self = 3" "short_channel_id self \<noteq> 0"
  shows "\<exists>self'. proc_anno_sigs env ae self = Inr self' \<and> announced ae d (callback DB_SELF_SAVE self') \<and>
    short_channel_id self' = short_channel_id self"
proof -
  define s where "s = (let self = callback (DB_ANNOCNL_SAVE d (short_channel_id self) None (peer_node_id self)
      (an_node_id ae)) self in if an_annocnl_save ae d then self\<lparr>cnl_anno := None\<rparr> else self)"
  have s: "can_announce env ae s" "anno_flag s = 3" "short_channel_id s = short_channel_id self"
    "peer_node_id s = peer_node_id self"
    "DB_ANNOCNL_SAVE d (short_channel_id self) None (peer_node_id self) (an_node_id ae) \<in> set (events s)"
    using assms by (simp_all add: s_def Let_def can_announce_def callback_def)
  obtain upd b where "create_channel_update env ae (ucast (an_now ae)) 0 s = Inr (upd, b)"
    using create_channel_update_ok [OF s(1)] by blast
  then have "proc_anno_sigs env ae self =
      Inr ((callback (DB_ANNOCNLUPD_SAVE b (cu_short_channel_id upd) (cu_flags upd) None) s)\<lparr>anno_flag := 0x83\<rparr>)"
    using assms(2-4) s(2)
    by (simp add: proc_anno_sigs_def anno_flag_defs anno_buf_def Let_def s_def [unfolded Let_def, symmetric])
      (simp add: callback_def)
  then show ?thesis using s by (simp add: announced_def ln_is_announced_def LN_ANNO_FLAG_END_def callback_def)
qed

lemma announce_last_send:
  assumes "can_announce env ae self" "short_channel_id self \<noteq> 0" "sigs64 z"
  shows "\<exists>s'. ln_announce_signs_create env ae (anno_stage (anno_with env ae z self) 2 self) =
    Inr (True, Some (signs_msg env ae self), s') \<and> announced ae (anno_with env ae z self) s'"
proof -
  let ?s = "anno_stage (anno_with env ae z self) 2 self"
  have "can_announce env ae ?s" "anno_holds env ae z ?s" using assms by (simp_all add: anno_holds_def)
  note eq = announce_signs_create_eq [OF this]
  show ?thesis
    using proc_anno_sigs_last [of env ae "?s\<lparr>cnl_anno := Some (anno_with env ae z self), anno_flag := 3\<rparr>"] assms
    unfolding eq by (auto simp: anno_flag_defs bind_c_def)
qed

lemma announce_last_recv:
  assumes "can_announce env ae self" "short_channel_id self \<noteq> 0" "is_opened self" "sigs64 y" "sigs64 z"
  shows "\<exists>s'. recv_announcement_signatures env ae (announce_signs_wire \<lparr>as_channel_id = channel_id self,
      as_short_channel_id = short_channel_id self, as_node_signature = fst z, as_btc_signature = snd z\<rparr>)
      (anno_stage (anno_with env ae y self) 1 self) = Inr (True, s') \<and> announced ae (anno_with env ae z self) s'"
proof -
  let ?s = "anno_stage (anno_with env ae y self) 1 self"
  have s: "can_announce env ae ?s" "anno_holds env ae y ?s" "is_opened ?s" "channel_id ?s = channel_id self"
    using assms by (simp_all add: anno_holds_def) (simp add: anno_stage_def)
  note eq = recv_announcement_signatures_eq [OF s(1-3) _ assms(2) assms(5), unfolded s(4)]
  have noop: "?s\<lparr>short_channel_id := short_channel_id self\<rparr> = ?s" by (simp add: anno_stage_def)
  show ?thesis
    using proc_anno_sigs_last [of env ae "?s\<lparr>cnl_anno := Some (anno_with env ae z self), anno_flag := 3\<rparr>"] assms
    by (subst eq) (auto simp: anno_flag_defs bind_c_def noop)
qed

lemma signs_msg_peer:
  assumes "anno_peers A a B b"
  shows "signs_msg env A a = announce_signs_wire \<lparr>as_channel_id = channel_id b,
    as_short_channel_id = short_channel_id b, as_node_signature = fst (scid_sigs env A (short_channel_id a) a),
    as_btc_signature = snd (scid_sigs env A (short_channel_id a) a)\<rparr>"
  using assms by (simp add: signs_msg_def anno_peers_def Let_def)

lemma anno_with_verifies:
  assumes "anno_peers A a B b" "can_announce env A a" "can_announce env B b" "an_verify A = an_verify B"
  shows "ln_msg_cnl_announce_verify (chain_hash env) (btc_util_hash256 env) (an_verify A)
      (anno_with env A (scid_sigs env B (short_channel_id b) b) a) = Inr ()"
proof -
  let ?scid = "short_channel_id a"
  let ?h = "btc_util_hash256 env (anno_body_of env A ?scid a)"
  let ?ka = "pubkeys (funding_local a) ! MSG_FUNDIDX_FUNDING" and ?kb = "pubkeys (funding_local b) ! MSG_FUNDIDX_FUNDING"
  have s: "node_signs A ?ka" "node_signs B ?kb" "length (chain_hash env) = 32"
    using assms(2,3) by (simp_all add: can_announce_def)
  have peer: "peer_node_id a = an_node_id B" "pubkeys (funding_remote a) ! MSG_FUNDIDX_FUNDING = ?kb"
    "short_channel_id b = ?scid" "anno_body_of env B ?scid b = anno_body_of env A ?scid a"
    using assms(1) anno_peers_body [OF assms(1-3)] by (simp_all add: anno_peers_def)
  have len: "length (an_node_id A) = 33" "length (an_node_id B) = 33" "length ?ka = 33" "length ?kb = 33"
    using s(1,2) assms(2,3) by (simp_all add: node_signs_def can_announce_def)
  note A = node_signs_own(3-5) [OF s(1), of ?h] and B = node_signs_own(3-5) [OF s(2), of ?h]
  have drop: "drop 258 (cnl_anno_msg n1 n2 b1 b2 body) = body"
    if "sigs64 (n1, b1)" "sigs64 (n2, b2)" for n1 n2 b1 b2 body
    using that by (simp add: cnl_anno_msg_def sigs64_def)
  show ?thesis
  proof (cases "sort_nodeid A (peer_node_id a)")
    case BTC_KEYS_SORT_ASC
    then show ?thesis
      using A B len s(3) assms(4) unfolding anno_with_def peer anno_of_def
      by (simp add: ln_msg_cnl_announce_verify_def anno_body_of_def peer cnl_announce_ptr_eq drop sigs64_def
          del: of_nat_numeral)
  next
    case BTC_KEYS_SORT_OTHER
    then show ?thesis
      using A B len s(3) assms(4) unfolding anno_with_def peer anno_of_def
      by (simp add: ln_msg_cnl_announce_verify_def anno_body_of_def peer cnl_announce_ptr_eq drop sigs64_def
          del: of_nat_numeral)
  qed
qed

text \<open>
  C12: two nodes announce their channel. One sends its \<open>announcement_signatures\<close>; the other receives
  them and answers with its own, or has sent its own before. In either order both end with the channel
  announced, having stored the same \<open>channel_announcement\<close>, and all its four signatures verify.
\<close>

theorem channel_announced:
  assumes "can_announce env A a" "can_announce env B b" "anno_peers A a B b" "an_verify A = an_verify B"
    and a: "is_opened a" "cnl_anno a = None" "anno_flag a = 0" "short_channel_id a \<noteq> 0"
    and b: "is_opened b" "cnl_anno b = None" "anno_flag b = 0"
  shows "\<exists>ma mb a1 a2 b1 b2 b1' b2' d.
    ln_announce_signs_create env A a = Inr (True, Some ma, a1) \<and>
    recv_announcement_signatures env B ma b = Inr (True, b1) \<and>
    ln_announce_signs_create env B b1 = Inr (True, Some mb, b2) \<and>
    recv_announcement_signatures env A mb a1 = Inr (True, a2) \<and>
    ln_announce_signs_create env B b = Inr (True, Some mb, b1') \<and>
    recv_announcement_signatures env B ma b1' = Inr (True, b2') \<and>
    announced A d a2 \<and> announced B d b2 \<and> announced B d b2' \<and>
    ln_msg_cnl_announce_verify (chain_hash env) (btc_util_hash256 env) (an_verify A) d = Inr ()"
proof -
  let ?sa = "scid_sigs env A (short_channel_id a) a" and ?sb = "scid_sigs env B (short_channel_id b) b"
  have sigs: "sigs64 ?sa" "sigs64 ?sb"
    using node_signs_own(3) assms(1,2) by (auto simp: can_announce_def)
  have scid: "short_channel_id b \<noteq> 0" using a(4) assms(3) by (simp add: anno_peers_def)
  note peers = anno_peers_with [OF assms(3,1,2)]
  note ma = signs_msg_peer [OF assms(3)] and mb = signs_msg_peer [OF anno_peers_sym [OF assms(3)]]
  note bl = sigs64_blank
  obtain b2 where b2: "ln_announce_signs_create env B (anno_stage (anno_with env B ?sa b) 2 b) =
      Inr (True, Some (signs_msg env B b), b2)" "announced B (anno_with env B ?sa b) b2"
    using announce_last_send [OF assms(2) scid sigs(1)] by blast
  obtain a2 where a2: "recv_announcement_signatures env A (signs_msg env B b)
      (anno_stage (anno_with env A blank_sigs a) 1 a) = Inr (True, a2)" "announced A (anno_with env A ?sb a) a2"
    using announce_last_recv [OF assms(1) a(4,1) bl sigs(2)] unfolding mb by blast
  obtain b2' where b2': "recv_announcement_signatures env B (signs_msg env A a)
      (anno_stage (anno_with env B blank_sigs b) 1 b) = Inr (True, b2')" "announced B (anno_with env B ?sa b) b2'"
    using announce_last_recv [OF assms(2) scid b(1) bl sigs(1)] unfolding ma by blast
  show ?thesis
    by (intro exI conjI)
      (rule announce_first_send [OF assms(1) a(2,3)],
       rule announce_first_recv [OF assms(2) b(2,3,1) scid sigs(1), folded ma],
       rule b2(1), rule a2(1), rule announce_first_send [OF assms(2) b(2,3)], rule b2'(1), rule a2(2),
       rule b2(2) [folded peers], rule b2'(2) [folded peers], rule anno_with_verifies [OF assms(3,1,2,4)])
qed

section \<open>A concrete channel\<close>

text \<open>Signatures of two toy nodes: the key is recognised in the signature.\<close>

definition toy_anno :: "byte \<Rightarrow> anno_env" where
  "toy_anno x = \<lparr>an_node_id = 2 # replicate 32 x, an_sign_node = (\<lambda>h. Some (replicate 64 x)),
     an_sign_btc = (\<lambda>h. Some (replicate 64 1)), an_verify = (\<lambda>s h k. s = replicate 64 (last k)),
     an_chkpub = (\<lambda>k. k ! 0 = 2), an_now = 1600000000, an_junk = replicate 64 0, an_annocnl_load = (\<lambda>_. None),
     an_annocnl_save = (\<lambda>_. True), an_annocnlupd_save = (\<lambda>_. True), an_annonod_save = (\<lambda>_. True)\<rparr>"

definition toy_anno_self :: "byte \<Rightarrow> ln_self_t" where
  "toy_anno_self x = toy_self\<lparr>peer_node_id := 2 # replicate 32 x\<rparr>"

lemma toy_can_announce:
  "can_announce toy_env (toy_anno x) (toy_anno_self y)"
proof -
  have "length (pubkeys toy_funding ! MSG_FUNDIDX_FUNDING) = 33" "last (pubkeys toy_funding ! MSG_FUNDIDX_FUNDING) = 1"
    using mpi_octets.simps(2) [of 32 1] by (simp_all add: toy_funding_def MSG_FUNDIDX_FUNDING_def length_mpi_octets del: mpi_octets.simps)
  then show ?thesis
    by (simp add: can_announce_def node_signs_def toy_env_def toy_anno_self_def toy_self_def toy_anno_def sigs64_def)
qed

lemma toy_anno_peers: "anno_peers (toy_anno 5) (toy_anno_self 9) (toy_anno 9) (toy_anno_self 5)"
  by (simp add: anno_peers_def toy_anno_def toy_anno_self_def toy_self_def)

theorem channel_announced_witness:
  "\<exists>ma a1 b1 d. ln_announce_signs_create toy_env (toy_anno 5) (toy_anno_self 9) = Inr (True, Some ma, a1) \<and>
     recv_announcement_signatures toy_env (toy_anno 9) ma (toy_anno_self 5) = Inr (True, b1) \<and>
     ln_msg_cnl_announce_verify (replicate 32 9) (btc_util_hash256 toy_env) (\<lambda>s h k. s = replicate 64 (last k)) d = Inr ()"
proof -
  have "chain_hash toy_env = replicate 32 9" "an_verify (toy_anno x) = (\<lambda>s h k. s = replicate 64 (last k))" for x
    by (simp_all add: toy_env_def toy_anno_def)
  moreover have "is_opened (toy_anno_self x)" "cnl_anno (toy_anno_self x) = None" "anno_flag (toy_anno_self x) = 0"
    "short_channel_id (toy_anno_self x) \<noteq> 0" for x
    by (simp_all add: toy_anno_self_def toy_self_def)
  moreover obtain ma a1 b1 d where "ln_announce_signs_create toy_env (toy_anno 5) (toy_anno_self 9) = Inr (True, Some ma, a1)"
    "recv_announcement_signatures toy_env (toy_anno 9) ma (toy_anno_self 5) = Inr (True, b1)"
    "ln_msg_cnl_announce_verify (chain_hash toy_env) (btc_util_hash256 toy_env) (an_verify (toy_anno 5)) d = Inr ()"
    using channel_announced [OF toy_can_announce toy_can_announce toy_anno_peers] calculation by fastforce
  ultimately show ?thesis by auto
qed

section \<open>What is not verified, and what is\<close>

text \<open>
  The signatures of the peer are not verified. Whatever 64 bytes it sends, a node that has sent its
  own \<open>announcement_signatures\<close> counts the channel as announced and stores the announcement, which
  its own \<^verbatim>\<open>ln_msg_cnl_announce_verify\<close> then stops at.
\<close>

theorem peer_signatures_unverified:
  assumes "can_announce env ae self" "short_channel_id self \<noteq> 0" "is_opened self" "cnl_anno self = None"
    "anno_flag self = 0" "length s = 64" "length t = 64"
    and forged: "\<not> an_verify ae s (btc_util_hash256 env (anno_body_of env ae (short_channel_id self) self)) (peer_node_id self)"
  shows "\<exists>m self1 self2 d. ln_announce_signs_create env ae self = Inr (True, Some m, self1) \<and>
    recv_announcement_signatures env ae (announce_signs_wire \<lparr>as_channel_id = channel_id self,
      as_short_channel_id = short_channel_id self, as_node_signature = s, as_btc_signature = t\<rparr>) self1 =
        Inr (True, self2) \<and>
    announced ae d self2 \<and>
    ln_msg_cnl_announce_verify (chain_hash env) (btc_util_hash256 env) (an_verify ae) d = Inl Assert_Failed"
proof -
  let ?d = "anno_with env ae (s, t) self"
  have z: "sigs64 (s, t)" using assms(6,7) by (simp add: sigs64_def)
  obtain s2 where s2: "recv_announcement_signatures env ae (announce_signs_wire \<lparr>as_channel_id = channel_id self,
      as_short_channel_id = short_channel_id self, as_node_signature = s, as_btc_signature = t\<rparr>)
      (anno_stage (anno_with env ae blank_sigs self) 1 self) = Inr (True, s2)" "announced ae ?d s2"
    using announce_last_recv [OF assms(1-3) sigs64_blank z] by auto
  have k: "node_signs ae (pubkeys (funding_local self) ! MSG_FUNDIDX_FUNDING)" "length (chain_hash env) = 32"
    "length (peer_node_id self) = 33" "length (pubkeys (funding_local self) ! MSG_FUNDIDX_FUNDING) = 33"
    "length (pubkeys (funding_remote self) ! MSG_FUNDIDX_FUNDING) = 33"
    using assms(1) by (simp_all add: can_announce_def)
  note own = node_signs_own(3) [OF k(1)]
  have drop: "drop 258 (cnl_anno_msg n1 n2 b1 b2 body) = body" if "sigs64 (n1, b1)" "sigs64 (n2, b2)" for n1 n2 b1 b2 body
    using that by (simp add: cnl_anno_msg_def sigs64_def)
  have "ln_msg_cnl_announce_verify (chain_hash env) (btc_util_hash256 env) (an_verify ae) ?d = Inl Assert_Failed"
    using own [of "btc_util_hash256 env (anno_body_of env ae (short_channel_id self) self)"] k z forged
    by (cases "sort_nodeid ae (peer_node_id self)")
      (simp_all add: anno_with_def anno_of_def ln_msg_cnl_announce_verify_def anno_body_of_def Let_def
        cnl_announce_ptr_eq drop sigs64_def node_signs_def assert_c_def)
  then show ?thesis
    using announce_first_send [OF assms(1,4,5)] s2 by blast
qed

theorem peer_signatures_unverified_witness:
  "\<exists>self1 self2 d. recv_announcement_signatures toy_env (toy_anno 5) (announce_signs_wire \<lparr>as_channel_id = replicate 32 7,
      as_short_channel_id = 5, as_node_signature = replicate 64 0, as_btc_signature = replicate 64 0\<rparr>) self1 =
        Inr (True, self2) \<and> announced (toy_anno 5) d self2 \<and>
    ln_msg_cnl_announce_verify (replicate 32 9) (btc_util_hash256 toy_env) (\<lambda>s h k. s = replicate 64 (last k)) d = Inl Assert_Failed"
proof -
  have "chain_hash toy_env = replicate 32 9" "an_verify (toy_anno x) = (\<lambda>s h k. s = replicate 64 (last k))" for x
    by (simp_all add: toy_env_def toy_anno_def)
  moreover have "is_opened (toy_anno_self 9)" "cnl_anno (toy_anno_self 9) = None" "anno_flag (toy_anno_self 9) = 0"
    "short_channel_id (toy_anno_self 9) = 5" "channel_id (toy_anno_self 9) = replicate 32 7"
    "replicate 64 0 \<noteq> replicate 64 (last (peer_node_id (toy_anno_self 9)))"
    by (simp_all add: toy_anno_self_def toy_self_def)
  ultimately show ?thesis
    using peer_signatures_unverified [OF toy_can_announce, of 9 "replicate 64 0" "replicate 64 0" 5] by auto
qed


definition toy_cnl_anno :: bytes where
  "toy_cnl_anno = cnl_anno_msg (replicate 64 5) (replicate 64 9) (replicate 64 1) (replicate 64 1)
     (cnl_anno_body (replicate 32 9) 77 (2 # replicate 32 5) (2 # replicate 32 9) (replicate 33 1) (replicate 33 1))"

definition toy_cnl_update :: bytes where
  "toy_cnl_update = be16 MSGTYPE_CHANNEL_UPDATE @ replicate 64 9 @
     cnl_update_body (replicate 32 9) (toy_update\<lparr>cu_short_channel_id := 77, cu_timestamp := 1599999999\<rparr>)"

definition toy_anno_db :: anno_env where
  "toy_anno_db = (toy_anno 5)\<lparr>an_annocnl_load := (\<lambda>_. Some toy_cnl_anno)\<rparr>"

lemma toy_cnl_anno_read:
  "ln_msg_cnl_announce_read (replicate 32 9) toy_cnl_anno = Inr \<lparr>car_short_channel_id = 77,
     car_node_id1 = 2 # replicate 32 5, car_node_id2 = 2 # replicate 32 9, car_btc_key1 = replicate 33 1,
     car_btc_key2 = replicate 33 1\<rparr>"
proof -
  have "length toy_cnl_anno = 432" by (simp add: toy_cnl_anno_def cnl_anno_msg_def cnl_anno_body_def)
  then show ?thesis
    by (simp add: ln_msg_cnl_announce_read_def) (simp add: toy_cnl_anno_def get_u16_cnl_anno cnl_announce_ptr_eq)
qed

lemma toy_cnl_update_stored:
  "recv_channel_update toy_env toy_anno_db toy_cnl_update toy_self =
     Inr (True, callback (CB_UPDATE_ANNODB LN_CB_UPDATE_ANNODB_CNL_UPD)
       (callback (DB_ANNOCNLUPD_SAVE toy_cnl_update 77 1 (Some (3 # replicate 32 2))) toy_self))"
proof -
  have "ln_msg_cnl_update_read (replicate 32 9) toy_cnl_update =
      Inr (True, toy_update\<lparr>cu_short_channel_id := 77, cu_timestamp := 1599999999\<rparr>)"
    by (simp add: ln_msg_cnl_update_read_def toy_cnl_update_def cnl_update_body_def toy_update_def wire Let_def)
  moreover have "ln_msg_cnl_update_verify (btc_util_hash256 toy_env) (\<lambda>s h k. s = replicate 64 (last k))
      (2 # replicate 32 9) toy_cnl_update = Inr True"
    by (simp add: ln_msg_cnl_update_verify_def toy_cnl_update_def cnl_update_body_def toy_update_def wire)
  ultimately show ?thesis
    by (simp add: recv_channel_update_def try_c_def toy_env_def toy_anno_db_def toy_anno_def toy_update_def
        ln_db_annocnlupd_is_prune_def get_nodeid_from_annocnl_def toy_cnl_anno_read LN_CNLUPD_FLAGS_DIRECTION_def
        toy_self_def)
qed


end
