(* ===== verification/Channel_Dispatch.thy ===== *)
theory Channel_Dispatch
  imports Channel_Open Channel_Close Channel_Anno
begin

text \<open>
  What the daemon calls for every message of the peer, \<^verbatim>\<open>ln_recv\<close> in \<^verbatim>\<open>ln/ln.c\<close>, with the handlers of the
  connection itself: \<^verbatim>\<open>recv_init\<close>, \<^verbatim>\<open>recv_error\<close>, \<^verbatim>\<open>recv_ping\<close>, \<^verbatim>\<open>recv_pong\<close>, and what the node sends on
  its own account, \<^verbatim>\<open>ln_init_create\<close> and \<^verbatim>\<open>ln_ping_create\<close>. The theorems hold for every message: what
  \<^verbatim>\<open>ln_recv\<close> keeps of the state, in every state, and of a channel that is established.
\<close>

section \<open>init\<close>

definition M_INIT_FLAG_SEND :: byte where "M_INIT_FLAG_SEND = 0x01"
definition M_INIT_FLAG_RECV :: byte where "M_INIT_FLAG_RECV = 0x02"
definition LN_INIT_LF_OPT_DATALOSS_REQ :: byte where "LN_INIT_LF_OPT_DATALOSS_REQ = 0x01"
definition LN_INIT_LF_ROUTE_SYNC :: byte where "LN_INIT_LF_ROUTE_SYNC = 0x08"

lemmas init_flag_defs = M_INIT_FLAG_SEND_def M_INIT_FLAG_RECV_def LN_INIT_LF_OPT_DATALOSS_REQ_def
  LN_INIT_LF_ROUTE_SYNC_def

text \<open>\<open>lf\<close> is \<open>mInitLocalFeatures[0]\<close>, the configuration of the node.\<close>

definition ln_init_create :: "byte \<Rightarrow> bool \<Rightarrow> ln_self_t \<Rightarrow> (bool \<times> bytes option \<times> ln_self_t) c_result" where
  "ln_init_create lf bInitRouteSync self =
     (if init_flag self AND M_INIT_FLAG_SEND \<noteq> 0 then
        bind_c (send_err LNERR_INV_STATE ''init already sent'' self) (\<lambda>(ret, self). Inr (ret, None, self))
      else
        let self = self\<lparr>lfeature_local := lf OR (if bInitRouteSync then LN_INIT_LF_ROUTE_SYNC else 0)\<rparr> in
        try_c (with_bytes (ln_msg_init_create \<lparr>globalfeatures = [], localfeatures = [lfeature_local self]\<rparr>) Inr) (\<lambda>b.
        case b of
          Some pInit \<Rightarrow> Inr (True, Some pInit,
            callback DB_SELF_SAVE (self\<lparr>init_flag := init_flag self OR M_INIT_FLAG_SEND\<rparr>))
        | None \<Rightarrow> Inr (False, None, callback DB_SELF_SAVE self)))"

definition unknown_even :: "byte \<Rightarrow> bool" where
  "unknown_even b \<longleftrightarrow> b AND 0x55 \<noteq> 0"

text \<open>
  The loop over the further bytes of \<open>localfeatures\<close>. It indexes \<open>globalfeatures\<close>; an empty buffer is a
  NULL pointer.
\<close>

fun init_further :: "bytes \<Rightarrow> nat list \<Rightarrow> bool c_result" where
  "init_further gf [] = Inr True"
| "init_further gf (lp # lps) =
     (if gf = [] then Inl Null_Deref
      else if length gf \<le> lp then Inl Read_Overrun
      else if unknown_even (gf ! lp) then Inr False
      else init_further gf lps)"

definition init_accept :: "byte \<Rightarrow> ln_self_t \<Rightarrow> handler_result" where
  \<comment> \<open>from \<open>self->lfeature_remote = ...\<close> on\<close>
  "init_accept lf self =
     Inr (True, callback (CB_INIT_RECV (lf AND LN_INIT_LF_ROUTE_SYNC \<noteq> 0))
       (self\<lparr>lfeature_remote := lf, init_flag := init_flag self OR M_INIT_FLAG_RECV\<rparr>))"

definition recv_init :: "bytes \<Rightarrow> ln_self_t \<Rightarrow> handler_result" where
  "recv_init pData self =
     (if init_flag self AND M_INIT_FLAG_RECV \<noteq> 0 then send_err LNERR_MSG_INIT ''multiple init receive'' self
      else
        let fail = Inr (False, set_err LNERR_INV_FEATURE self) in
        try_c (ln_msg_init_read pData) (\<lambda>r.
        case r of
          None \<Rightarrow> fail
        | Some m \<Rightarrow>
            if list_ex unknown_even (globalfeatures m) then fail
            else
              (case localfeatures m of
                 [] \<Rightarrow> init_accept 0 self
               | lf # _ \<Rightarrow>
                   if unknown_even (lf AND NOT LN_INIT_LF_OPT_DATALOSS_REQ) then fail
                   else
                     bind_c (init_further (globalfeatures m) [1..<length (localfeatures m)]) (\<lambda>ok.
                     if ok then init_accept lf self else fail))))"

section \<open>error, ping and pong\<close>

text \<open>
  \<^verbatim>\<open>recv_error\<close> does not look at the result of the reader: after a message that could not be read, the
  pointer \<open>err.p_data\<close> is uninitialised, is handed to the application and freed.
\<close>

definition recv_error :: "bytes \<Rightarrow> ln_self_t \<Rightarrow> handler_result" where
  "recv_error pData self =
     (let self = (if is_funding self then free_establish False self else self) in
      try_c (ln_msg_error_read pData) (\<lambda>r.
      case r of
        None \<Rightarrow> Inl Read_Overrun
      | Some e \<Rightarrow> Inr (True, callback (CB_ERROR e) self)))"

definition M_PONG_MISSING :: u16 where "M_PONG_MISSING = 3"

text \<open>\<open>r\<close> and \<open>s\<close> are the two random bytes.\<close>

definition ln_ping_create :: "byte \<Rightarrow> byte \<Rightarrow> ln_self_t \<Rightarrow> (bool \<times> bytes option \<times> ln_self_t) c_result" where
  "ln_ping_create r s self =
     (let self = self\<lparr>last_num_pong_bytes := ucast r\<rparr> in
      try_c (with_bytes (ln_msg_ping_create \<lparr>num_pong_bytes = last_num_pong_bytes self, ping_byteslen = ucast s\<rparr>) Inr) (\<lambda>b.
      case b of
        None \<Rightarrow> Inr (False, None, self)
      | Some pPing \<Rightarrow>
          let self = self\<lparr>missing_pong_cnt := missing_pong_cnt self + 1\<rparr> in
          if 1 < missing_pong_cnt self \<and> M_PONG_MISSING < missing_pong_cnt self
          then Inr (False, Some pPing, set_err LNERR_PINGPONG self)
          else Inr (True, Some pPing, self)))"

definition ln_pong_create :: "u16 \<Rightarrow> utl_buf_t c_result" where
  "ln_pong_create NumPongBytes = ln_msg_pong_create \<lparr>pong_byteslen = NumPongBytes\<rparr>"

definition recv_ping :: "bytes \<Rightarrow> ln_self_t \<Rightarrow> handler_result" where
  "recv_ping pData self =
     read_msg (ln_msg_ping_read pData) self (\<lambda>m.
     bind_c (send_created (ln_pong_create (num_pong_bytes m)) self) (\<lambda>self. Inr (True, self)))"

definition recv_pong :: "bytes \<Rightarrow> ln_self_t \<Rightarrow> handler_result" where
  "recv_pong pData self =
     read_msg (ln_msg_pong_read pData) self (\<lambda>m.
     Inr (True, if pong_byteslen m = last_num_pong_bytes self
       then self\<lparr>missing_pong_cnt := missing_pong_cnt self - 1, last_num_pong_bytes := 0\<rparr> else self))"

section \<open>ln_recv\<close>

text \<open>What the handlers get besides the message and the state, in one record.\<close>

record 'p node_env =
  ne_env :: "'p ln_env"
  ne_open :: open_env
  ne_broadcast :: "btc_tx_t \<Rightarrow> bytes \<Rightarrow> bytes \<Rightarrow> bool"
  ne_anno :: anno_env
  ne_reest :: ln_channel_reestablish_t        \<comment> \<open>uninitialised locals of two handlers\<close>
  ne_node :: ln_node_announce_t

definition RECV_FUNC :: "'p node_env \<Rightarrow> (u16 \<times> (bytes \<Rightarrow> ln_self_t \<Rightarrow> handler_result)) list" where
  "RECV_FUNC n =
     [(MSGTYPE_INIT, recv_init),
      (MSGTYPE_ERROR, recv_error),
      (MSGTYPE_PING, recv_ping),
      (MSGTYPE_PONG, recv_pong),
      (MSGTYPE_OPEN_CHANNEL, recv_open_channel (ne_env n) (ne_open n)),
      (MSGTYPE_ACCEPT_CHANNEL, recv_accept_channel (ne_env n) (ne_open n)),
      (MSGTYPE_FUNDING_CREATED, recv_funding_created (ne_env n) (ne_open n)),
      (MSGTYPE_FUNDING_SIGNED, recv_funding_signed (ne_env n) (ne_open n)),
      (MSGTYPE_FUNDING_LOCKED, recv_funding_locked (ne_env n)),
      (MSGTYPE_SHUTDOWN, recv_shutdown (ne_env n)),
      (MSGTYPE_CLOSING_SIGNED, recv_closing_signed (ne_env n) (ne_broadcast n)),
      (MSGTYPE_UPDATE_ADD_HTLC, recv_update_add_htlc (ne_env n)),
      (MSGTYPE_UPDATE_FULFILL_HTLC, recv_update_fulfill_htlc (ne_env n)),
      (MSGTYPE_UPDATE_FAIL_HTLC, recv_update_fail_htlc),
      (MSGTYPE_COMMITMENT_SIGNED, recv_commitment_signed (ne_env n)),
      (MSGTYPE_REVOKE_AND_ACK, recv_revoke_and_ack (ne_env n)),
      (MSGTYPE_UPDATE_FEE, recv_update_fee),
      (MSGTYPE_UPDATE_FAIL_MALFORMED_HTLC, recv_update_fail_malformed_htlc),
      (MSGTYPE_CHANNEL_REESTABLISH, recv_channel_reestablish (ne_env n) (ne_reest n)),
      (MSGTYPE_CHANNEL_ANNOUNCEMENT, recv_channel_announcement (ne_env n) (ne_anno n)),
      (MSGTYPE_NODE_ANNOUNCEMENT, recv_node_announcement (ne_env n) (ne_anno n) (ne_node n)),
      (MSGTYPE_CHANNEL_UPDATE, recv_channel_update (ne_env n) (ne_anno n)),
      (MSGTYPE_ANNOUNCEMENT_SIGNATURES, recv_announcement_signatures (ne_env n) (ne_anno n))]"

definition ln_recv :: "'p node_env \<Rightarrow> bytes \<Rightarrow> ln_self_t \<Rightarrow> handler_result" where
  "ln_recv n pData self =
     bind_c (ln_misc_get16be pData) (\<lambda>type.
     if type \<noteq> MSGTYPE_INIT \<and> \<not> M_INIT_FLAG_EXCHNAGED (init_flag self)
     then Inr (False, set_err LNERR_INV_STATE self)
     else
       (case map_of (RECV_FUNC n) type of
          Some func \<Rightarrow> func pData self
        | None \<Rightarrow> Inr (type AND 1 \<noteq> 0, self)))"

section \<open>What a handler leads to\<close>

text \<open>Every state that a handler can return satisfies \<open>P\<close>; the rules follow its control flow.\<close>

definition leads :: "(ln_self_t \<Rightarrow> bool) \<Rightarrow> handler_result \<Rightarrow> bool" where
  "leads P r \<longleftrightarrow> (\<forall>ret s. r = Inr (ret, s) \<longrightarrow> P s)"

named_theorems leads_rules "control flow of a handler"

lemma leads_Inr [leads_rules]: "P s \<Longrightarrow> leads P (Inr (b, s))"
  by (simp add: leads_def)

lemma leads_Inl [leads_rules]: "leads P (Inl e)"
  by (simp add: leads_def)

lemma leads_read [leads_rules]:
  "P (set_err LNERR_MSG_READ self) \<Longrightarrow> (\<And>m. r = Inr m \<Longrightarrow> leads P (k m)) \<Longrightarrow> leads P (read_msg r self k)"
  by (auto simp: leads_def read_msg_def try_c_def split: sum.splits)

lemma leads_chan [leads_rules]:
  "P (set_err LNERR_INV_CHANNEL self) \<Longrightarrow> leads P k \<Longrightarrow> leads P (chk_chan c self k)"
  by (auto simp: leads_def chk_chan_def)

lemma leads_bind [leads_rules]: "(\<And>x. r = Inr x \<Longrightarrow> leads P (f x)) \<Longrightarrow> leads P (bind_c r f)"
  by (auto simp: leads_def bind_c_def split: sum.splits)

lemma leads_try [leads_rules]:
  "leads P (k None) \<Longrightarrow> (\<And>x. r = Inr x \<Longrightarrow> leads P (k (Some x))) \<Longrightarrow> leads P (try_c r k)"
  by (auto simp: leads_def try_c_def split: sum.splits)

lemma leads_with [leads_rules]: "(\<And>b. leads P (k b)) \<Longrightarrow> leads P (with_bytes r k)"
  by (auto simp: leads_def with_bytes_def bind_c_def split: sum.splits option.splits)

lemma leads_if [leads_rules]:
  "(b \<Longrightarrow> leads P r) \<Longrightarrow> (\<not> b \<Longrightarrow> leads P r') \<Longrightarrow> leads P (if b then r else r')"
  by simp

lemma leads_est [leads_rules]:
  "(\<And>est. p_establish self = Some est \<Longrightarrow> leads P (k est)) \<Longrightarrow> leads P (no_establish self k)"
  by (auto simp: leads_def no_establish_def split: option.splits)

lemma leads_prod [leads_rules]: "(\<And>a b. x = (a, b) \<Longrightarrow> leads P (f a b)) \<Longrightarrow> leads P (case x of (a, b) \<Rightarrow> f a b)"
  by (cases x) simp

lemma leads_option [leads_rules]:
  "(x = None \<Longrightarrow> leads P r) \<Longrightarrow> (\<And>a. x = Some a \<Longrightarrow> leads P (f a)) \<Longrightarrow>
     leads P (case x of None \<Rightarrow> r | Some a \<Rightarrow> f a)"
  by (cases x) simp_all

lemma leads_list [leads_rules]:
  "(x = [] \<Longrightarrow> leads P r) \<Longrightarrow> (\<And>a b. x = a # b \<Longrightarrow> leads P (f a b)) \<Longrightarrow>
     leads P (case x of [] \<Rightarrow> r | a # b \<Rightarrow> f a b)"
  by (cases x) simp_all

lemma leads_send_created:
  "send_created r self = Inr self' \<Longrightarrow> \<exists>e. self' = callback e self"
  by (auto simp: send_created_def try_c_def split: sum.splits option.splits if_splits)

section \<open>Every message keeps the state well-formed\<close>

lemma wf_fields [simp]:
  "wf_self (self\<lparr>short_channel_id := scid\<rparr>) = wf_self self"
  "wf_self (self\<lparr>init_flag := f\<rparr>) = wf_self self"
  "wf_self (self\<lparr>shutdown_flag := f\<rparr>) = wf_self self"
  "wf_self (self\<lparr>lfeature_remote := f\<rparr>) = wf_self self"
  "wf_self (self\<lparr>missing_pong_cnt := c\<rparr>) = wf_self self"
  "wf_self (self\<lparr>last_num_pong_bytes := ln\<rparr>) = wf_self self"
  "wf_self (self\<lparr>cnl_anno := a\<rparr>) = wf_self self"
  "wf_self (self\<lparr>anno_flag := f\<rparr>) = wf_self self"
  "wf_self (self\<lparr>shutdown_scriptpk_remote := p\<rparr>) = wf_self self"
  "wf_self (self\<lparr>close_last_fee_sat := x\<rparr>) = wf_self self"
  "wf_self (self\<lparr>close_fee_sat := x\<rparr>) = wf_self self"
  "wf_self (self\<lparr>ch_status := st\<rparr>) = wf_self self"
  "wf_self (self\<lparr>p_establish := e\<rparr>) = wf_self self"
  "wf_self (self\<lparr>is_funding := b\<rparr>) = wf_self self"
  "wf_self (self\<lparr>is_opened := b\<rparr>) = wf_self self"
  "wf_self (self\<lparr>is_funder := b\<rparr>) = wf_self self"
  "wf_self (self\<lparr>is_announce := b\<rparr>) = wf_self self"
  "wf_self (self\<lparr>tx_funding := o'\<rparr>) = wf_self self"
  "wf_self (self\<lparr>funding_txid := tid\<rparr>) = wf_self self"
  "wf_self (self\<lparr>funding_txindex := i\<rparr>) = wf_self self"
  "wf_self (self\<lparr>funding_sat := sat\<rparr>) = wf_self self"
  "wf_self (self\<lparr>feerate_per_kw := r\<rparr>) = wf_self self"
  "wf_self (self\<lparr>our_msat := v\<rparr>) = wf_self self"
  "wf_self (self\<lparr>their_msat := v\<rparr>) = wf_self self"
  "wf_self (self\<lparr>min_depth := md\<rparr>) = wf_self self"
  "wf_self (self\<lparr>obscured := ob\<rparr>) = wf_self self"
  "wf_self (self\<lparr>prev_percommit := p\<rparr>) = wf_self self"
  "wf_self (self\<lparr>redeem_fund := p\<rparr>) = wf_self self"
  "wf_self (self\<lparr>key_fund_local_first := b\<rparr>) = wf_self self"
  "wf_self (self\<lparr>err := er\<rparr>) = wf_self self"
  "wf_self (self\<lparr>events := es\<rparr>) = wf_self self"
  by (simp_all add: wf_self_def)

lemma wf_set_err [simp]: "wf_self (set_err e self) = wf_self self"
  by (simp add: set_err_def)

lemma wf_commit_fields:
  "wf_self self \<Longrightarrow> cd_signature c = cd_signature (commit_local self) \<or> length (cd_signature c) = LN_SZ_SIGNATURE \<Longrightarrow>
     wf_self (self\<lparr>commit_local := c\<rparr>)"
  "wf_self self \<Longrightarrow> cd_signature c = cd_signature (commit_remote self) \<or> length (cd_signature c) = LN_SZ_SIGNATURE \<Longrightarrow>
     wf_self (self\<lparr>commit_remote := c\<rparr>)"
  by (auto simp: wf_self_def)

lemma wf_free_establish [simp]: "wf_self (free_establish b self) = wf_self self"
  by (simp add: free_establish_def)

lemma send_created_wf: "send_created r self = Inr self' \<Longrightarrow> wf_self self' = wf_self self"
  using leads_send_created [of r self self'] by auto

lemma send_err_wf: "send_err e msg self = Inr (ret, self') \<Longrightarrow> wf_self self' = wf_self self"
  by (auto simp: send_err_def bind_c_Inr_iff dest!: send_created_wf)

subsection \<open>The connection and the announcements\<close>

lemma recv_init_wf: "wf_self self \<Longrightarrow> leads wf_self (recv_init d self)"
  unfolding recv_init_def Let_def init_accept_def
  by (intro leads_rules) (auto simp: leads_def send_err_wf)

lemma recv_error_wf: "wf_self self \<Longrightarrow> leads wf_self (recv_error d self)"
  unfolding recv_error_def Let_def by (intro leads_rules) auto

lemma recv_ping_wf: "wf_self self \<Longrightarrow> leads wf_self (recv_ping d self)"
  unfolding recv_ping_def by (intro leads_rules) (auto simp: send_created_wf)

lemma recv_pong_wf: "wf_self self \<Longrightarrow> leads wf_self (recv_pong d self)"
  unfolding recv_pong_def by (intro leads_rules) simp_all

lemma proc_anno_sigs_wf: "proc_anno_sigs env ae self = Inr self' \<Longrightarrow> wf_self self' = wf_self self"
  by (auto simp: proc_anno_sigs_def Let_def try_c_def split: if_splits sum.splits option.splits)

lemma anno_ensure_wf: "anno_ensure env ae self = Inr self' \<Longrightarrow> wf_self self' = wf_self self"
  by (auto simp: anno_ensure_def create_local_channel_announcement_def bind_c_Inr_iff split: if_splits)

lemma recv_announcement_signatures_wf:
  "wf_self self \<Longrightarrow> leads wf_self (recv_announcement_signatures env ae d self)"
  unfolding recv_announcement_signatures_def Let_def
  by (intro leads_rules) (auto simp: anno_ensure_wf proc_anno_sigs_wf)

lemma recv_gossip_wf:
  "wf_self self \<Longrightarrow> leads wf_self (recv_channel_announcement env ae d self)"
  "wf_self self \<Longrightarrow> leads wf_self (recv_channel_update env ae d self)"
  "wf_self self \<Longrightarrow> leads wf_self (recv_node_announcement env ae base d self)"
  unfolding recv_channel_announcement_def recv_channel_update_def recv_node_announcement_def Let_def
  by (auto simp: leads_def try_c_def bind_c_Inr_iff split: sum.splits option.splits prod.splits bool.splits if_splits)

subsection \<open>The opening\<close>

lemma create_to_local_None_frame:
  assumes "wf_env env" "wf_self self" "create_to_local env None N cn dl du self = Inr (ret, self')"
  shows "local_frame self self'"
proof -
  obtain ws infos fi tx where tx: "local_commit_tx env cn dl du self = Inr (ws, infos, fi, tx)"
    "tx_ok fi infos tx"
    using local_commit_tx_defined [OF assms(1,2)] by blast
  have loop: "local_spent_loop env None N ws infos fi 0 (tx_vout tx) 0 s =
      Inr (True, of_nat (length (htlc_outs 0 (tx_vout tx))), s)" for s
    using local_loop_none [of None N "tx_vout tx" fi infos env ws 0 0 s] tx(2) by (simp add: tx_ok_def)
  have "local_frame self (self\<lparr>commit_local := (commit_local self)\<lparr>txid := tid, htlc_num := n\<rparr>\<rparr>)" for tid n
    unfolding local_frame_def using same_but_sigs_refl by blast
  then show ?thesis
    using assms(3) local_frame_refl unfolding create_to_local_eq [OF assms(2) tx(1)]
    by (auto simp: create_to_local_spent_def loop split: option.splits if_splits)
qed

lemma create_to_local_None_wf:
  "wf_env env \<Longrightarrow> wf_self self \<Longrightarrow> create_to_local env None N cn dl du self = Inr (ret, self') \<Longrightarrow> wf_self self'"
  by (drule (2) create_to_local_None_frame, drule step_ok_local_frame) (simp add: step_ok_def)

definition base_privs :: "open_env \<Rightarrow> bool" where
  \<comment> \<open>the array of private keys of a channel\<close>
  "base_privs oe \<longleftrightarrow> length (oe_privs oe) = 5 \<and> (\<forall>s\<in>set (oe_privs oe). length s = BTC_SZ_PRIVKEY)"

lemma set_base_keys_wf:
  assumes "wf_env env" "base_privs oe" "Commit_Build.wf_keys d" "\<forall>lp\<in>set lps. lp < 5"
  shows "Commit_Build.wf_keys (fold (set_base_key env (oe_privs oe)) lps d) \<and>
    length (pubkeys (fold (set_base_key env (oe_privs oe)) lps d)) = length (pubkeys d)"
  using assms(3,4)
proof (induction lps arbitrary: d)
  case (Cons lp lps)
  have "length p = BTC_SZ_PUBKEY" if "priv2pub env (oe_privs oe ! lp) = Some p" for p
  proof -
    have "length (oe_privs oe ! lp) = BTC_SZ_PRIVKEY"
      using assms(2) Cons.prems(2) by (simp add: base_privs_def)
    then show ?thesis using assms(1) that unfolding wf_env_def by blast
  qed
  then have "Commit_Build.wf_keys (set_base_key env (oe_privs oe) lp d)"
    using Cons.prems(1) wf_keys_pubkey by (auto simp: set_base_key_def split: option.splits)
  then show ?case
    using Cons.IH [of "set_base_key env (oe_privs oe) lp d"] Cons.prems(2)
    by (auto simp: set_base_key_def split: option.splits)
qed simp

lemma create_channelkeys_wf:
  assumes "wf_env env" "base_privs oe" "wf_self self"
  shows "wf_self (ln_signer_create_channelkeys env oe self)"
proof -
  let ?d = "fold (set_base_key env (oe_privs oe))
    (filter (\<lambda>lp. lp \<noteq> MSG_FUNDIDX_PER_COMMIT) [MSG_FUNDIDX_FUNDING..<LN_FUNDIDX_MAX]) (funding_local self)"
  have "Commit_Build.wf_keys ?d"
    using set_base_keys_wf [OF assms(1,2)] assms(3) by (auto simp: wf_self_def fundidx_defs)
  then have "wf_self (self\<lparr>storage_index := LN_SECINDEX_INIT, funding_local := ?d\<rparr>)"
    using assms(3) by (simp add: wf_self_def)
  then show ?thesis
    unfolding ln_signer_create_channelkeys_def by (rule wf_keys_update [OF assms(1)])
qed

lemma start_funding_wait_wf:
  assumes "wf_env env" "wf_self self"
  shows "wf_self (start_funding_wait env oe b self)"
proof -
  let ?s = "self\<lparr>commit_local := (commit_local self)\<lparr>commit_num := 0, revoke_num := - 1\<rparr>,
            commit_remote := (commit_remote self)\<lparr>commit_num := 0, revoke_num := - 1\<rparr>\<rparr>"
  have "wf_self ?s" using assms(2) by (simp add: wf_self_def)
  then have "wf_self (update_scriptkeys env (ln_signer_keys_update_storage env ?s))"
    by (intro wf_update_scriptkeys [OF assms(1)] wf_keys_update [OF assms(1)])
  then show ?thesis by (simp add: start_funding_wait_def Let_def)
qed

lemma create_redeem_wf [simp]: "wf_self (create_redeem self) = wf_self self"
  by (simp add: create_redeem_def Let_def case_prod_beta)

lemma create_funding_tx_wf:
  "create_funding_tx env oe est self = Inr (ret, self') \<Longrightarrow> wf_self self' = wf_self self"
  by (auto simp: create_funding_tx_def Let_def split: option.splits if_splits)

lemma remote_keys_wf:
  assumes "wf_self self" "Msg_Establish.wf_keys chk LN_FUNDIDX_MAX ks"
  shows "wf_self (self\<lparr>funding_remote := (funding_remote self)\<lparr>pubkeys := ks\<rparr>\<rparr>)"
  using wf_self_funding_keys [OF assms(1), of ks] assms(2)
  by (auto simp: Msg_Establish.wf_keys_def fundidx_defs list_all_iff)

lemma recv_open_channel_wf:
  assumes "wf_env env" "base_privs oe" "wf_self self"
  shows "leads wf_self (recv_open_channel env oe d self)"
proof -
  have start: "wf_self (self\<lparr>channel_id := oc_temp_channel_id m,
      funding_remote := (funding_remote self)\<lparr>pubkeys := oc_pubkeys m\<rparr>\<rparr>)"
    if "ln_msg_open_channel_read (oe_chkpub oe) (chain_hash env) d = Inr m" for m
  proof -
    have "open_channel_wf (oe_chkpub oe) (chain_hash env) m" using open_channel.read_sound that by blast
    then show ?thesis
      using remote_keys_wf [OF assms(3), of "oe_chkpub oe" "oc_pubkeys m"] by (simp add: open_channel_wf_def wf_self_def)
  qed
  have keys: "wf_self (update_scriptkeys env (ln_signer_create_channelkeys env oe s))" if "wf_self s" for s
    using that wf_update_scriptkeys create_channelkeys_wf assms(1,2) by blast
  show ?thesis
    unfolding recv_open_channel_def Let_def
    using assms(3)
    by (intro leads_rules)
      (auto simp: leads_def send_err_wf send_created_wf start set_open_params_def set_accept_params_def
        intro!: start keys wf_commit_fields split: option.splits)
qed

text \<open>The steps that may change more, as rules for the handlers.\<close>

lemma wf_signatures:
  assumes "wf_self self"
  shows "length (cd_signature (commit_local self)) = LN_SZ_SIGNATURE"
    "length (cd_signature (commit_remote self)) = LN_SZ_SIGNATURE"
  using assms by (simp_all add: wf_self_def)

named_theorems leads_wf "steps that keep a state well-formed"

lemma leads_wf_funding_tx [leads_wf]:
  "wf_self self \<Longrightarrow> (\<And>ret s. wf_self s \<Longrightarrow> leads wf_self (f (ret, s))) \<Longrightarrow>
     leads wf_self (bind_c (create_funding_tx env oe est self) f)"
  by (rule leads_bind) (auto dest: create_funding_tx_wf)

lemma leads_wf_to_local [leads_wf]:
  "wf_env env \<Longrightarrow> wf_self self \<Longrightarrow> (\<And>ret s. wf_self s \<Longrightarrow> leads wf_self (f (ret, s))) \<Longrightarrow>
     leads wf_self (bind_c (create_to_local env None N cn dl du self) f)"
  by (rule leads_bind) (auto dest: create_to_local_None_wf)

lemma leads_wf_to_remote [leads_wf]:
  assumes "wf_env env" "wf_self self" "length (cd_signature c) = LN_SZ_SIGNATURE"
    and "\<And>ret cd sigs. length (cd_signature cd) = LN_SZ_SIGNATURE \<Longrightarrow> leads wf_self (f (ret, cd, sigs))"
  shows "leads wf_self (bind_c (create_to_remote env c want n self) f)"
  using create_to_remote_result [OF assms(1,2), of c want n] assms(3,4) by auto

lemma leads_wf_send [leads_wf]:
  "wf_self self \<Longrightarrow> (\<And>s. wf_self s \<Longrightarrow> leads wf_self (f s)) \<Longrightarrow>
     leads wf_self (bind_c (send_created r self) f)"
  by (rule leads_bind) (auto dest: send_created_wf)

lemma leads_wf_channel_id [leads_wf]:
  assumes "\<And>cid. length cid = LN_SZ_CHANNEL_ID \<Longrightarrow> leads P (f cid)"
  shows "leads P (bind_c (ln_misc_calc_channel_id t i) f)"
  using assms by (auto simp: ln_misc_calc_channel_id_def leads_Inl)

lemma wf_channel_id: "wf_self self \<Longrightarrow> length cid = LN_SZ_CHANNEL_ID \<Longrightarrow> wf_self (self\<lparr>channel_id := cid\<rparr>)"
  by (simp add: wf_self_def)

lemma recv_accept_channel_wf:
  assumes "wf_env env" "wf_self self"
  shows "leads wf_self (recv_accept_channel env oe d self)"
proof -
  have start: "wf_self (self\<lparr>p_establish := e, funding_remote := (funding_remote self)\<lparr>pubkeys := ac_pubkeys m\<rparr>\<rparr>)"
    if "ln_msg_accept_channel_read (oe_chkpub oe) d = Inr m" for m e
  proof -
    have "accept_channel_wf (oe_chkpub oe) m" using accept_channel.read_sound that by blast
    then show ?thesis
      using remote_keys_wf [OF assms(2), of "oe_chkpub oe" "ac_pubkeys m"] by (simp add: accept_channel_wf_def wf_self_def)
  qed
  have keys: "wf_self (update_scriptkeys env (self\<lparr>p_establish := e,
        funding_remote := (funding_remote self)\<lparr>pubkeys := ac_pubkeys m\<rparr>, min_depth := md,
        commit_remote := set_accept_params m (commit_remote self), prev_percommit := p\<rparr>))"
    if "ln_msg_accept_channel_read (oe_chkpub oe) d = Inr m" for m e md p
    using start [OF that] by (intro wf_update_scriptkeys assms(1)) (simp add: wf_self_def set_accept_params_def)
  show ?thesis
    unfolding recv_accept_channel_def Let_def
    by (rule leads_wf leads_rules | (simp add: assms start keys wf_signatures wf_commit_fields; fail))+
qed

lemma recv_funding_created_wf:
  assumes "wf_env env" "wf_self self"
  shows "leads wf_self (recv_funding_created env oe d self)"
proof -
  have sig: "length (fc_signature m) = LN_SZ_SIGNATURE" "length (fc_funding_txid m) = BTC_SZ_TXID"
    if "ln_msg_funding_created_read d = Inr m" for m
    using funding_created.read_sound [OF that] by (simp_all add: funding_created_wf_def)
  show ?thesis
    unfolding recv_funding_created_def Let_def
    by (rule leads_wf leads_rules | (simp add: assms sig wf_signatures wf_commit_fields wf_channel_id start_funding_wait_wf; fail))+
qed

lemma recv_funding_signed_wf:
  assumes "wf_env env" "wf_self self"
  shows "leads wf_self (recv_funding_signed env oe d self)"
proof -
  have sig: "length (fs_signature m) = LN_SZ_SIGNATURE" if "ln_msg_funding_signed_read d = Inr m" for m
    using funding_signed.read_sound [OF that] by (simp add: funding_signed_wf_def)
  show ?thesis
    unfolding recv_funding_signed_def Let_def
    by (rule leads_wf leads_rules |
        (simp add: assms sig wf_signatures wf_commit_fields wf_channel_id start_funding_wait_wf; fail))+
qed

lemma recv_funding_locked_wf:
  assumes "wf_env env" "wf_self self"
  shows "leads wf_self (recv_funding_locked env d self)"
proof -
  have start: "wf_self (self\<lparr>funding_remote := (funding_remote self)
      \<lparr>pubkeys := (pubkeys (funding_remote self))[MSG_FUNDIDX_PER_COMMIT := fl_per_commitpt m]\<rparr>\<rparr>)"
    if "ln_msg_funding_locked_read d = Inr m" for m
    using funding_locked.read_sound [OF that] assms(2) wf_keys_pubkey
    by (simp add: funding_locked_wf_def wf_self_def)
  show ?thesis
    unfolding recv_funding_locked_def Let_def
    by (rule leads_rules | (simp add: assms start wf_update_scriptkeys; fail))+
qed

subsection \<open>The close\<close>

lemma create_closing_tx_wf:
  assumes "wf_env env" "wf_self self" "create_closing_tx env fee v self = Inr (ret, self')"
  shows "wf_self self'"
proof -
  have "\<exists>rs. length rs = LN_SZ_SIGNATURE \<and> ln_misc_sigtrim sig = Inr rs"
    if "tx_sign env tx a s = Some sig" for tx a s sig
  proof -
    have "\<forall>tx v s d. tx_sign env tx v s = Some d \<longrightarrow> (\<exists>rs. length rs = LN_SZ_SIGNATURE \<and> d = der_sig rs)"
      using assms(1) unfolding wf_env_def by (elim conjE) assumption
    then obtain rs where "length rs = LN_SZ_SIGNATURE" "sig = der_sig rs" using \<open>tx_sign env tx a s = Some sig\<close> by blast
    then show ?thesis using ln_misc_sigtrim_der_sig [of rs] by auto
  qed
  then show ?thesis
    using assms(2,3)
    by (fastforce simp: create_closing_tx_def Let_def bind_c_Inr_iff with_bytes_def
        intro!: wf_commit_fields split: if_splits option.splits)
qed

lemma leads_wf_closing_tx [leads_wf]:
  "wf_env env \<Longrightarrow> wf_self self \<Longrightarrow> (\<And>ret s. wf_self s \<Longrightarrow> leads wf_self (f (ret, s))) \<Longrightarrow>
     leads wf_self (bind_c (create_closing_tx env fee v self) f)"
  by (rule leads_bind) (auto dest: create_closing_tx_wf)

lemma ln_shutdown_create_wf: "ln_shutdown_create self = Inr (b, self') \<Longrightarrow> wf_self self' = wf_self self"
  by (auto simp: ln_shutdown_create_def with_bytes_def bind_c_Inr_iff split: option.splits)

lemma cb_closing_wf [simp]:
  "wf_self (cb_shutdown_recv self) = wf_self self" "wf_self (cb_closed_fee fee self) = wf_self self"
  by (simp_all add: cb_shutdown_recv_def cb_closed_fee_def ln_shutdown_update_fee_def Let_def)

lemma shutdown_reply_wf: "shutdown_reply self = Inr (ret, self') \<Longrightarrow> wf_self self \<Longrightarrow> wf_self self'"
  by (auto simp: shutdown_reply_def Let_def try_c_def dest!: ln_shutdown_create_wf
      split: if_splits sum.splits option.splits)

lemma leads_wf_shutdown_reply [leads_wf]:
  "wf_self self \<Longrightarrow> (\<And>ret s. wf_self s \<Longrightarrow> leads wf_self (f (ret, s))) \<Longrightarrow>
     leads wf_self (bind_c (shutdown_reply self) f)"
  by (rule leads_bind) (auto dest: shutdown_reply_wf)

lemma closing_first_wf: "wf_env env \<Longrightarrow> wf_self self \<Longrightarrow> leads wf_self (closing_first env self)"
  unfolding closing_first_def
  by (rule leads_wf_closing_tx, assumption, assumption) (auto simp: leads_def try_c_def split: sum.splits)

lemma recv_shutdown_wf:
  assumes "wf_env env" "wf_self self"
  shows "leads wf_self (recv_shutdown env d self)"
  unfolding recv_shutdown_def Let_def
  by (rule leads_wf_shutdown_reply leads_rules | (simp add: assms closing_first_wf; fail))+

lemma closing_publish_wf: "closing_publish bc self = Inr (ret, self') \<Longrightarrow> wf_self self' = wf_self self"
  unfolding closing_publish_def cb_closed_def
  by (cases "bc (closing_tx (close_fee_sat self) self) (cd_signature (commit_remote self)) (cd_signature (commit_local self))")
    auto

lemma closing_answer_wf: "closing_answer fee self = Inr (ret, self') \<Longrightarrow> wf_self self' = wf_self self"
  by (auto simp: closing_answer_def try_c_def split: sum.splits option.splits if_splits)

lemma leads_wf_closing_end [leads_wf]:
  "wf_self self \<Longrightarrow> (\<And>ret s. wf_self s \<Longrightarrow> leads wf_self (f (ret, s))) \<Longrightarrow>
     leads wf_self (bind_c (if b then closing_publish bc self else closing_answer fee self) f)"
  by (rule leads_bind) (auto dest: closing_publish_wf closing_answer_wf split: if_splits)

lemma recv_closing_signed_wf:
  assumes "wf_env env" "wf_self self"
  shows "leads wf_self (recv_closing_signed env bc d self)"
proof -
  have sig: "length (clo_signature m) = LN_SZ_SIGNATURE" if "ln_msg_closing_signed_read d = Inr m" for m
    using closing_signed.read_sound [OF that] by (simp add: closing_signed_wf_def)
  show ?thesis
    unfolding recv_closing_signed_def Let_def
    by (rule leads_wf leads_rules | (simp add: assms sig wf_commit_fields; fail))+
qed

subsection \<open>ln_recv\<close>

lemma leads_map_of:
  assumes "list_all (\<lambda>(t, f). leads P (f d self)) tab" "leads P r"
  shows "leads P (case map_of tab k of Some f \<Rightarrow> f d self | None \<Rightarrow> r)"
  using assms by (induction tab) auto

lemma handler_leads_wf:
  "handler env h \<Longrightarrow> wf_env env \<Longrightarrow> wf_self self \<Longrightarrow> leads wf_self (h d self)"
  unfolding leads_def handler_def step_ok_def by blast

lemmas normal_handlers = recv_update_add_htlc.handler_axioms recv_update_fulfill_htlc.handler_axioms
  recv_update_fail_htlc.handler_axioms recv_commitment_signed.handler_axioms
  recv_revoke_and_ack.handler_axioms recv_update_fee.handler_axioms
  recv_update_fail_malformed_htlc.handler_axioms recv_channel_reestablish.handler_axioms

lemma plain_handlers_leads_wf:
  assumes "wf_env env" "wf_self self"
  shows "leads wf_self (recv_update_fail_htlc d self)" "leads wf_self (recv_update_fee d self)"
    "leads wf_self (recv_update_fail_malformed_htlc d self)"
  by (rule normal_handlers [THEN handler_leads_wf, OF assms])+

lemma ln_recv_leads:
  assumes "P (set_err LNERR_INV_STATE self)" "P self"
    and "list_all (\<lambda>(t, f). leads P (f d self)) (RECV_FUNC n)"
  shows "leads P (ln_recv n d self)"
  unfolding ln_recv_def
  by (intro leads_rules leads_map_of assms(1) assms(2) assms(3))

text \<open>
  Whatever message arrives in whatever state, its handler keeps the lengths on which the other operations
  rely, of keys, secrets, signatures, ids and the table of HTLCs.
\<close>

lemma ln_recv_wf:
  assumes "wf_env (ne_env n)" "base_privs (ne_open n)" "wf_self self" "ln_recv n d self = Inr (ret, self')"
  shows "wf_self self'"
proof -
  have "list_all (\<lambda>(t, f). leads wf_self (f d self)) (RECV_FUNC n)"
    using assms(1-3) plain_handlers_leads_wf [of "ne_env n" self d]
    by (simp add: RECV_FUNC_def recv_init_wf recv_error_wf recv_ping_wf recv_pong_wf recv_open_channel_wf
        recv_accept_channel_wf recv_funding_created_wf recv_funding_signed_wf recv_funding_locked_wf
        recv_shutdown_wf recv_closing_signed_wf recv_announcement_signatures_wf recv_gossip_wf
        normal_handlers [THEN handler_leads_wf])
  then have "leads wf_self (ln_recv n d self)"
    using assms(3) by (intro ln_recv_leads) simp_all
  then show ?thesis using assms(4) by (auto simp: leads_def)
qed

section \<open>Every message keeps an established channel\<close>

text \<open>
  A channel is established when its funding transaction has an id and the work area of the opening has been
  freed, which \<^verbatim>\<open>recv_funding_locked\<close> does.
\<close>

definition established :: "ln_self_t \<Rightarrow> bool" where
  "established self \<longleftrightarrow> wf_self self \<and> p_establish self = None \<and> short_channel_id self \<noteq> 0"

lemma step_ok_established: "step_ok self self' \<Longrightarrow> established self \<Longrightarrow> established self'"
  by (simp add: step_ok_def established_def)

lemma step_ok_plain [simp]:
  "step_ok self (self\<lparr>lfeature_remote := lf, init_flag := f\<rparr>)"
  "step_ok self (self\<lparr>missing_pong_cnt := c, last_num_pong_bytes := k\<rparr>)"
  "step_ok self (self\<lparr>missing_pong_cnt := c\<rparr>)" "step_ok self (self\<lparr>last_num_pong_bytes := k\<rparr>)"
  "step_ok self (self\<lparr>cnl_anno := a\<rparr>)" "step_ok self (self\<lparr>anno_flag := f\<rparr>)"
  "step_ok self (self\<lparr>shutdown_flag := f\<rparr>)" "step_ok self (self\<lparr>close_fee_sat := fee\<rparr>)"
  "step_ok self (self\<lparr>close_last_fee_sat := fee\<rparr>)" "step_ok self (self\<lparr>ch_status := st\<rparr>)"
  "step_ok self (self\<lparr>shutdown_scriptpk_remote := spk\<rparr>)"
  by (simp_all add: step_ok_def numbers_ok_def)

lemma step_ok_free_establish: "p_establish self = None \<Longrightarrow> step_ok self (free_establish b self)"
  by (simp add: step_ok_def numbers_ok_def free_establish_def)

lemma step_ok_send_created: "send_created r self = Inr self' \<Longrightarrow> step_ok self self'"
  using leads_send_created [of r self self'] by auto

lemma step_ok_send_err: "send_err e msg self = Inr (ret, self') \<Longrightarrow> step_ok self self'"
  by (auto simp: send_err_def bind_c_Inr_iff dest!: step_ok_send_created intro: step_ok_trans [OF step_ok_set_err])

lemma leads_step_send_err [leads_rules]: "step_ok self0 self \<Longrightarrow> leads (step_ok self0) (send_err e msg self)"
  using step_ok_send_err step_ok_trans unfolding leads_def by blast

lemma recv_init_step: "leads (step_ok self) (recv_init d self)"
  unfolding recv_init_def Let_def init_accept_def
  by (intro leads_rules) (auto intro!: step_ok_then_callback)

lemma recv_error_step: "p_establish self = None \<Longrightarrow> leads (step_ok self) (recv_error d self)"
  unfolding recv_error_def Let_def
  by (intro leads_rules) (auto intro!: step_ok_then_callback step_ok_free_establish)

lemma recv_ping_step: "leads (step_ok self) (recv_ping d self)"
  unfolding recv_ping_def by (intro leads_rules) (auto simp: step_ok_send_created)

lemma recv_pong_step: "leads (step_ok self) (recv_pong d self)"
  unfolding recv_pong_def by (intro leads_rules) auto

lemma recv_gossip_step:
  "leads (step_ok self) (recv_channel_announcement env ae d self)"
  "leads (step_ok self) (recv_channel_update env ae d self)"
  "leads (step_ok self) (recv_node_announcement env ae base d self)"
  unfolding recv_channel_announcement_def recv_channel_update_def recv_node_announcement_def Let_def
  by (auto simp: leads_def try_c_def bind_c_Inr_iff intro: step_ok_then_callback
      split: sum.splits option.splits prod.splits bool.splits if_splits)

lemma step_ok_anno_ensure: "anno_ensure env ae self = Inr self' \<Longrightarrow> step_ok self self'"
  by (auto simp: anno_ensure_def create_local_channel_announcement_def bind_c_Inr_iff split: if_splits)

lemma step_ok_proc_anno:
  assumes "proc_anno_sigs env ae self = Inr self'"
  shows "step_ok self self'"
proof -
  have a: "step_ok self (if b then (callback e self)\<lparr>cnl_anno := None\<rparr> else callback e self)" for b e
    using step_ok_trans [OF step_ok_callback step_ok_plain(5)] by simp
  show ?thesis
    using assms
    by (auto simp: proc_anno_sigs_def Let_def try_c_def split: if_splits sum.splits option.splits
        intro!: step_ok_trans [OF _ step_ok_plain(6)] step_ok_then_callback
          step_ok_trans [OF step_ok_callback step_ok_plain(5)])
qed

lemma recv_announcement_signatures_step:
  assumes "short_channel_id self \<noteq> 0"
  shows "leads (step_ok self) (recv_announcement_signatures env ae d self)"
proof -
  let ?leads = "leads (step_ok self)"
  have ensure: "?leads (bind_c (anno_ensure env ae self) f)" if "\<And>s. step_ok self s \<Longrightarrow> ?leads (f s)" for f
    using that step_ok_anno_ensure by (intro leads_bind) blast
  have proc: "?leads (bind_c (proc_anno_sigs env ae s) f)"
    if "step_ok self s" "\<And>s. step_ok self s \<Longrightarrow> ?leads (f s)" for s f
    using that step_ok_proc_anno step_ok_trans by (intro leads_bind) blast
  have read: "?leads (read_msg (ln_msg_announce_signs_read (short_channel_id s) d) s k)"
    if "step_ok self s" "\<And>m. as_short_channel_id m = short_channel_id self \<Longrightarrow> ?leads (k m)" for s k
  proof (rule leads_read)
    show "step_ok self (set_err LNERR_MSG_READ s)" using step_ok_trans [OF that(1)] by simp
    fix m assume "ln_msg_announce_signs_read (short_channel_id s) d = Inr m"
    from announce_signs.read_sound [OF this] that(1) assms
    show "?leads (k m)" by (intro that(2)) (auto simp: announce_signs_wf_def step_ok_def)
  qed
  have upd: "step_ok self (s\<lparr>cnl_anno := a\<rparr>)"
    "step_ok self (s\<lparr>short_channel_id := short_channel_id self, cnl_anno := a\<rparr>)"
    "step_ok self (s\<lparr>short_channel_id := short_channel_id self, cnl_anno := a, anno_flag := f\<rparr>)"
    if "step_ok self s" for s a f
    using that by (simp_all add: step_ok_def numbers_ok_def)
  have err: "step_ok self (set_err e (s\<lparr>cnl_anno := a\<rparr>))" if "step_ok self s" for e s a
    using step_ok_trans [OF upd(1) [OF that] step_ok_set_err] .
  show ?thesis
    unfolding recv_announcement_signatures_def Let_def
    by (rule ensure proc read leads_rules | (simp add: upd err step_ok_then_callback; fail))+
qed

lemma recv_opening_step:
  assumes "p_establish self = None" "short_channel_id self \<noteq> 0"
  shows "leads (step_ok self) (recv_open_channel env oe d self)"
    "leads (step_ok self) (recv_accept_channel env oe d self)"
    "leads (step_ok self) (recv_funding_created env oe d self)"
    "leads (step_ok self) (recv_funding_signed env oe d self)"
  using assms
  by (simp_all add: recv_open_channel_def recv_accept_channel_def recv_funding_created_def recv_funding_signed_def
      no_establish_def leads_def)

lemma recv_funding_locked_step:
  assumes "wf_env env" "p_establish self = None"
  shows "leads (step_ok self) (recv_funding_locked env d self)"
proof -
  have "step_ok self (self\<lparr>funding_remote := (funding_remote self)
      \<lparr>pubkeys := (pubkeys (funding_remote self))[MSG_FUNDIDX_PER_COMMIT := fl_per_commitpt m]\<rparr>\<rparr>)"
    if "ln_msg_funding_locked_read d = Inr m" for m
    using funding_locked.read_sound [OF that] wf_keys_pubkey
    by (simp add: funding_locked_wf_def step_ok_def wf_self_def numbers_ok_def)
  then show ?thesis
    using assms
    unfolding recv_funding_locked_def Let_def
    by (intro leads_rules) (auto intro!: step_ok_then_callback step_ok_trans [OF _ step_ok_scriptkeys]
        step_ok_trans [OF _ step_ok_free_establish] intro: step_ok_trans [OF _ step_ok_set_err])
qed

text \<open>The close, with rules for the steps that return a state.\<close>

lemma step_ok_closing_tx:
  assumes "wf_env env" "create_closing_tx env fee v self = Inr (ret, self')"
  shows "step_ok self self'"
proof -
  have "wf_self self \<Longrightarrow> wf_self self'" using create_closing_tx_wf [OF assms(1) _ assms(2)] .
  moreover have "self' = self \<or> (\<exists>rs. self' = self\<lparr>commit_remote := (commit_remote self)\<lparr>cd_signature := rs\<rparr>\<rparr>)"
    using assms(2) unfolding create_closing_tx_def Let_def try_c_def with_bytes_def
    by (fastforce simp: bind_c_Inr_iff split: if_splits option.splits sum.splits)
  ultimately show ?thesis by (auto simp: step_ok_def numbers_ok_def)
qed

lemma step_ok_cb_closing [simp]: "step_ok self (cb_shutdown_recv self)" "step_ok self (cb_closed_fee fee self)"
  by (simp_all add: cb_shutdown_recv_def cb_closed_fee_def ln_shutdown_update_fee_def Let_def)

lemma step_ok_shutdown_create: "ln_shutdown_create self = Inr (b, self') \<Longrightarrow> step_ok self self'"
  by (auto simp: ln_shutdown_create_def with_bytes_def bind_c_Inr_iff intro!: step_ok_then_callback
      split: option.splits)

lemma step_ok_shutdown_reply:
  assumes "shutdown_reply self = Inr (ret, self')"
  shows "step_ok self self'"
proof -
  let ?s = "cb_shutdown_recv (callback CB_SHUTDOWN_RECV self)"
  have s: "step_ok self ?s" using step_ok_trans [OF step_ok_callback step_ok_cb_closing(1)] .
  show ?thesis
    using assms step_ok_trans [OF s step_ok_shutdown_create] step_ok_trans [OF s step_ok_set_err]
    by (auto simp: shutdown_reply_def Let_def try_c_def intro: step_ok_then_callback
        split: if_splits sum.splits option.splits)
qed

lemma step_ok_closing_end:
  "closing_publish bc self = Inr (ret, self') \<Longrightarrow> step_ok self self'"
  "closing_answer fee self = Inr (ret, self') \<Longrightarrow> step_ok self self'"
proof -
  show "closing_publish bc self = Inr (ret, self') \<Longrightarrow> step_ok self self'"
    unfolding closing_publish_def cb_closed_def
    by (cases "bc (closing_tx (close_fee_sat self) self) (cd_signature (commit_remote self)) (cd_signature (commit_local self))")
      (auto intro: step_ok_trans [OF step_ok_callback step_ok_plain(10)])
  show "closing_answer fee self = Inr (ret, self') \<Longrightarrow> step_ok self self'"
    by (auto simp: closing_answer_def try_c_def intro!: step_ok_then_callback
        split: sum.splits option.splits if_splits)
qed

lemma leads_step_closing:
  assumes "step_ok self0 self"
  shows "wf_env env \<Longrightarrow> (\<And>ret s. step_ok self0 s \<Longrightarrow> leads (step_ok self0) (f (ret, s))) \<Longrightarrow>
      leads (step_ok self0) (bind_c (create_closing_tx env fee v self) f)"
    and "(\<And>ret s. step_ok self0 s \<Longrightarrow> leads (step_ok self0) (f (ret, s))) \<Longrightarrow>
      leads (step_ok self0) (bind_c (shutdown_reply self) f)"
    and "(\<And>ret s. step_ok self0 s \<Longrightarrow> leads (step_ok self0) (f (ret, s))) \<Longrightarrow>
      leads (step_ok self0) (bind_c (if b then closing_publish bc self else closing_answer fee self) f)"
  using step_ok_trans [OF assms] step_ok_closing_tx step_ok_shutdown_reply step_ok_closing_end
  by (auto intro!: leads_bind split: if_splits) blast+

lemma step_ok_then_plain:
  assumes "step_ok self0 self"
  shows "step_ok self0 (self\<lparr>close_last_fee_sat := fee\<rparr>)" "step_ok self0 (self\<lparr>ch_status := st\<rparr>)"
    "step_ok self0 (set_err e self)" "step_ok self0 (cb_closed_fee fee self)"
  using step_ok_trans [OF assms] by simp_all

lemma closing_first_step:
  "step_ok self0 self \<Longrightarrow> wf_env env \<Longrightarrow> leads (step_ok self0) (closing_first env self)"
  unfolding closing_first_def Let_def
  by (rule leads_step_closing leads_rules | (simp add: step_ok_then_callback step_ok_then_plain; fail))+

lemma recv_shutdown_step:
  assumes "wf_env env"
  shows "leads (step_ok self) (recv_shutdown env d self)"
proof -
  have upd: "step_ok self (self\<lparr>shutdown_scriptpk_remote := spk, shutdown_flag := f\<rparr>)" for spk f
    by (simp add: step_ok_def numbers_ok_def)
  show ?thesis
    unfolding recv_shutdown_def Let_def
    by (rule leads_step_closing(2) leads_rules |
        (simp add: assms upd closing_first_step step_ok_then_callback step_ok_then_plain; fail))+
qed

lemma recv_closing_signed_step:
  assumes "wf_env env"
  shows "leads (step_ok self) (recv_closing_signed env bc d self)"
proof -
  have upd: "step_ok self (self\<lparr>commit_local := (commit_local self)\<lparr>cd_signature := clo_signature m\<rparr>\<rparr>)"
    if "ln_msg_closing_signed_read d = Inr m" for m
    using closing_signed.read_sound [OF that]
    by (simp add: closing_signed_wf_def step_ok_def numbers_ok_def wf_self_def)
  show ?thesis
    unfolding recv_closing_signed_def Let_def
    by (rule leads_step_closing leads_rules |
        (simp add: assms upd step_ok_then_callback step_ok_then_plain; fail))+
qed

subsection \<open>ln_recv, and runs of a node\<close>

lemma handler_leads_step:
  "handler env h \<Longrightarrow> wf_env env \<Longrightarrow> wf_self self \<Longrightarrow> leads (step_ok self) (h d self)"
  unfolding leads_def handler_def by blast

lemma plain_handlers_leads_step:
  assumes "wf_env env" "wf_self self"
  shows "leads (step_ok self) (recv_update_fail_htlc d self)" "leads (step_ok self) (recv_update_fee d self)"
    "leads (step_ok self) (recv_update_fail_malformed_htlc d self)"
  by (rule normal_handlers [THEN handler_leads_step, OF assms])+

lemma ln_recv_step:
  assumes env: "wf_env (ne_env n)" and "established self" "ln_recv n d self = Inr (ret, self')"
  shows "step_ok self self'"
proof -
  have est: "wf_self self" "p_establish self = None" "short_channel_id self \<noteq> 0"
    using assms(2) by (simp_all add: established_def)
  have "list_all (\<lambda>(t, f). leads (step_ok self) (f d self)) (RECV_FUNC n)"
    using env est plain_handlers_leads_step [OF env est(1), of d]
    by (simp add: RECV_FUNC_def recv_init_step recv_error_step recv_ping_step recv_pong_step
        recv_opening_step recv_funding_locked_step recv_shutdown_step recv_closing_signed_step
        recv_announcement_signatures_step recv_gossip_step normal_handlers [THEN handler_leads_step])
  then have "leads (step_ok self) (ln_recv n d self)" by (intro ln_recv_leads) simp_all
  then show ?thesis using assms(3) by (auto simp: leads_def)
qed

text \<open>
  What can happen to a channel: a message of the peer, in whatever order; the requests of the daemon and
  its idle work; and what the node sends on its own account.
\<close>

inductive node_step :: "'p node_env \<Rightarrow> ln_self_t \<Rightarrow> ln_self_t \<Rightarrow> bool" for n where
  node_recv: "ln_recv n d self = Inr (ret, self') \<Longrightarrow> node_step n self self'"
| node_channel: "channel_step (ne_env n) self self' \<Longrightarrow> node_step n self self'"
| node_close: "lnapp_close_channel self = Inr (ret, self') \<Longrightarrow> node_step n self self'"
| node_announce: "ln_announce_signs_create (ne_env n) (ne_anno n) self = Inr (ret, msg, self') \<Longrightarrow> node_step n self self'"
| node_init: "ln_init_create lf rs self = Inr (ret, msg, self') \<Longrightarrow> node_step n self self'"
| node_ping: "ln_ping_create r s self = Inr (ret, msg, self') \<Longrightarrow> node_step n self self'"

inductive node_run :: "'p node_env \<Rightarrow> ln_self_t \<Rightarrow> ln_self_t \<Rightarrow> bool" for n where
  node_refl: "node_run n self self"
| node_next: "node_run n self self' \<Longrightarrow> node_step n self' self'' \<Longrightarrow> node_run n self self''"

lemma lnapp_close_channel_step: "lnapp_close_channel self = Inr (ret, self') \<Longrightarrow> step_ok self self'"
  using step_ok_trans [OF step_ok_cb_closing(1) step_ok_shutdown_create]
  by (auto simp: lnapp_close_channel_def Let_def try_c_def intro: step_ok_then_callback
      split: if_splits sum.splits option.splits)

lemma ln_announce_signs_create_step:
  assumes "ln_announce_signs_create env ae self = Inr (ret, msg, self')"
  shows "step_ok self self'"
proof -
  obtain s where s: "anno_ensure env ae self = Inr s"
    using assms by (cases "anno_ensure env ae self") (auto simp: ln_announce_signs_create_def)
  obtain pn pb where p: "ln_msg_get_anno_signs True (sort_nodeid ae (peer_node_id s)) = (pn, pb)"
    by (cases "ln_msg_get_anno_signs True (sort_nodeid ae (peer_node_id s))")
  have last: "self' = s \<or> (\<exists>s'. proc_anno_sigs env ae (s\<lparr>anno_flag := anno_flag s OR M_ANNO_FLAG_SEND\<rparr>) = Inr s' \<and>
      self' = callback DB_SELF_SAVE s')"
    using assms
    by (auto simp: ln_announce_signs_create_def s p try_c_Inr_iff get_Inr_iffs bind_c_Inr_iff)
  have "step_ok self s" using s by (rule step_ok_anno_ensure)
  then have "step_ok self (s\<lparr>anno_flag := f\<rparr>)" for f using step_ok_trans step_ok_plain(6) by blast
  then show ?thesis
    using last \<open>step_ok self s\<close> step_ok_proc_anno step_ok_trans by (blast intro: step_ok_then_callback)
qed

lemma ln_init_create_step:
  assumes "ln_init_create lf rs self = Inr (ret, msg, self')"
  shows "step_ok self self'"
proof -
  have upd: "step_ok self (self\<lparr>lfeature_local := l\<rparr>)" "step_ok self (self\<lparr>lfeature_local := l, init_flag := f\<rparr>)" for l f
    by (simp_all add: step_ok_def numbers_ok_def wf_self_def)
  show ?thesis
    using assms unfolding ln_init_create_def Let_def
    by (auto simp: try_c_def bind_c_Inr_iff step_ok_send_err step_ok_then_callback upd
        split: if_splits sum.splits option.splits)
qed

lemma ln_ping_create_step: "ln_ping_create r s self = Inr (ret, msg, self') \<Longrightarrow> step_ok self self'"
  by (auto simp: ln_ping_create_def Let_def try_c_def step_ok_def numbers_ok_def wf_self_def set_err_def
      split: if_splits sum.splits option.splits)

lemma node_step_ok: "node_step n self self' \<Longrightarrow> wf_env (ne_env n) \<Longrightarrow> established self \<Longrightarrow> step_ok self self'"
  by (induction rule: node_step.induct)
    (auto simp: established_def intro: channel_step_ok lnapp_close_channel_step
      ln_announce_signs_create_step ln_init_create_step ln_ping_create_step ln_recv_step)

lemma node_run_ok:
  "node_run n self self' \<Longrightarrow> wf_env (ne_env n) \<Longrightarrow> established self \<Longrightarrow> step_ok self self' \<and> established self'"
proof (induction rule: node_run.induct)
  case (node_next self self' self'')
  then have "step_ok self self'" "established self'" by blast+
  moreover from this have "step_ok self' self''" using node_next.hyps(2) node_next.prems(1) node_step_ok by blast
  ultimately show ?case using step_ok_trans step_ok_established by blast
qed simp

text \<open>
  C2: once a channel is established, whatever messages arrive in whatever order, interleaved with the
  requests and the idle work of the node and up to a shutdown and its fee negotiation, it never falls
  back into its opening: no later message starts the work area of an opening again or changes the channel
  id or the short channel id. Its two balances keep their sum, its seed of secrets stays, the index of the
  per-commitment secrets falls exactly as the number of the local commitment rises, and the numbers of the
  commitments stay in step with those of their revocations.
\<close>

theorem open_channel_kept:
  assumes "node_run n self self'" "wf_env (ne_env n)" "established self"
  shows "established self' \<and>
    our_msat self' + their_msat self' = our_msat self + their_msat self \<and>
    channel_id self' = channel_id self \<and> short_channel_id self' = short_channel_id self \<and>
    storage_seed self' = storage_seed self \<and>
    storage_index self' + commit_num (commit_local self') = storage_index self + commit_num (commit_local self) \<and>
    (numbers_ok self \<longrightarrow> numbers_ok self')"
  using node_run_ok [OF assms] by (simp add: step_ok_def)

definition toy_reest :: ln_channel_reestablish_t where
  "toy_reest = \<lparr>re_channel_id = [], next_local_commitment_number = 0, next_remote_revocation_number = 0,
     option_data_loss_protect = False, your_last_per_commitment_secret = [], my_current_per_commitment_point = []\<rparr>"

definition toy_node_msg :: ln_node_announce_t where
  "toy_node_msg = \<lparr>nod_timestamp = 0, nod_node_id = None, nod_alias = None, nod_rgbcolor = [],
     nod_addr = \<lparr>na_type = 0, na_port = 0, na_addr = []\<rparr>\<rparr>"

definition toy_node :: "nat node_env" where
  "toy_node = \<lparr>ne_env = open_toy_env, ne_open = toy_open, ne_broadcast = (\<lambda>_ _ _. True), ne_anno = toy_anno 1,
     ne_reest = toy_reest, ne_node = toy_node_msg\<rparr>"

definition toy_pong :: bytes where
  "toy_pong = pong_wire \<lparr>pong_byteslen = 0\<rparr>"

definition toy_ponged :: ln_self_t where
  "toy_ponged = toy_self3\<lparr>missing_pong_cnt := 65535, last_num_pong_bytes := 0\<rparr>"

lemma toy_node_ok: "wf_env (ne_env toy_node)"
  using toy_opening(1) by (simp add: toy_node_def)

lemma toy_node_recv: "ln_recv toy_node toy_pong toy_self3 = Inr (True, toy_ponged)"
  using pong.read_wire [of "\<lparr>pong_byteslen = 0\<rparr>" "[]"]
  by (simp add: ln_recv_def toy_pong_def RECV_FUNC_def pong_wire_def pong_wf_def recv_pong_def read_msg_def
        try_c_def toy_ponged_def toy_self3_def toy_self_def M_INIT_FLAG_EXCHNAGED_def msgtype_defs)

lemma toy_node_run: "node_run toy_node toy_self3 (recv_idle_proc_final toy_ponged)"
proof -
  have "ln_recv_idle_proc open_toy_env toy_ponged = Inr (recv_idle_proc_final toy_ponged)"
    by (simp add: ln_recv_idle_proc_def toy_ponged_def toy_self3_def toy_htlc_def htlc_zero_def flag_zero_def
        LN_HTLC_ENABLE_def LN_HTLC_EMPTY_def committed_def)
  then have "node_step toy_node toy_ponged (recv_idle_proc_final toy_ponged)"
    by (intro node_channel idle) (simp add: toy_node_def)
  then show ?thesis using node_recv [OF toy_node_recv] node_next node_refl by blast
qed

lemma toy_self3_established: "established toy_self3"
  using toy_self3_wf(1) by (simp add: established_def toy_self3_def toy_self_def)

lemma toy_ponged_settles:
  "our_msat (recv_idle_proc_final toy_ponged) = 605000000" "their_msat toy_self3 = 400000000"
  "our_msat toy_self3 = 600000000"
  by code_simp+

theorem open_channel_kept_witness:
  "their_msat (recv_idle_proc_final toy_ponged) = 395000000 \<and> established (recv_idle_proc_final toy_ponged)"
proof -
  note k = open_channel_kept [OF toy_node_run toy_node_ok toy_self3_established]
  then have "605000000 + their_msat (recv_idle_proc_final toy_ponged) = 1000000000"
    by (simp add: toy_ponged_settles)
  then have "their_msat (recv_idle_proc_final toy_ponged) = 1000000000 - 605000000" by (simp only: eq_diff_eq add.commute)
  then show ?thesis using k by simp
qed

section \<open>The connection\<close>

lemma init_further_eq:
  "\<not> list_ex unknown_even gf \<Longrightarrow> m < k \<Longrightarrow> init_further gf [m..<k] =
     (if k \<le> length gf then Inr True else Inl (if gf = [] then Null_Deref else Read_Overrun))"
proof (induction "k - m" arbitrary: m)
  case (Suc j)
  then have "init_further gf [Suc m..<k] =
      (if k \<le> length gf then Inr True else Inl (if gf = [] then Null_Deref else Read_Overrun))" if "Suc m < k"
    using that by simp
  moreover have "\<not> unknown_even (gf ! m)" if "m < length gf"
    using Suc.prems(1) that by (auto simp: list_ex_iff)
  moreover have "[m..<k] = m # [Suc m..<k]" "[Suc m..<k] = [] \<longleftrightarrow> \<not> Suc m < k"
    using upt_conv_Cons [OF Suc.prems(2)] Suc.prems(2) by auto
  ultimately show ?case
    using Suc.prems(2) by (cases "Suc m < k") auto
qed simp

text \<open>
  The further bytes of the local features of an \<open>init\<close> message are not looked at: the
  loop tests the bytes of the global features at their positions. It reads behind that buffer, or
  follows a NULL pointer, exactly if the local features are the longer ones.
\<close>

theorem recv_init_overrun:
  assumes "init_flag self AND M_INIT_FLAG_RECV = 0" "init_wf m" "localfeatures m = lf # lfs"
    and "\<not> list_ex unknown_even (globalfeatures m)" "\<not> unknown_even (lf AND NOT LN_INIT_LF_OPT_DATALOSS_REQ)"
  shows "recv_init (init_wire m) self =
    (if lfs = [] \<or> length lfs < length (globalfeatures m) then init_accept lf self
     else Inl (if globalfeatures m = [] then Null_Deref else Read_Overrun))"
proof -
  have "ln_msg_init_read (init_wire m) = Inr m" using init.read_wire [OF assms(2), of "[]"] by simp
  then show ?thesis
    using assms(1,3-5) init_further_eq [OF assms(4), of 1 "Suc (length lfs)"]
    by (cases "lfs = []") (simp_all add: recv_init_def Let_def Suc_le_eq del: upt_Suc)
qed

theorem recv_init_overrun_witness:
  "recv_init (init_wire \<lparr>globalfeatures = [], localfeatures = [2, 0]\<rparr>) (toy_self\<lparr>init_flag := 0\<rparr>) = Inl Null_Deref"
  using recv_init_overrun [of "toy_self\<lparr>init_flag := 0\<rparr>" "\<lparr>globalfeatures = [], localfeatures = [2, 0]\<rparr>" 2 "[0]"]
  by (simp add: init_wf_def unknown_even_def init_flag_defs toy_self_def)

definition known_features :: "byte \<Rightarrow> bool" where
  "known_features lf \<longleftrightarrow> lf AND 0x54 = 0"

text \<open>
  C13: two nodes that connect, with no feature bit set that is compulsory and unknown, accept
  the \<open>init\<close> message of each other, after which each knows the features of the other; before that
  a node refuses every other message, and afterwards a second \<open>init\<close>.
\<close>

theorem init_exchange:
  assumes "init_flag a = 0" "init_flag b = 0" "known_features lfa" "known_features lfb"
  shows "\<exists>ma a1 a2 mb b1 b2.
    ln_init_create lfa ra a = Inr (True, Some ma, a1) \<and> ln_init_create lfb rb b = Inr (True, Some mb, b1) \<and>
    recv_init mb a1 = Inr (True, a2) \<and> recv_init ma b1 = Inr (True, b2) \<and>
    M_INIT_FLAG_EXCHNAGED (init_flag a2) \<and> M_INIT_FLAG_EXCHNAGED (init_flag b2) \<and>
    lfeature_remote a2 = lfeature_local b2 \<and> lfeature_remote b2 = lfeature_local a2 \<and>
    (\<forall>(n :: 'p node_env) t d. t \<noteq> MSGTYPE_INIT \<longrightarrow> ln_recv n (be16 t @ d) a1 = Inr (False, set_err LNERR_INV_STATE a1)) \<and>
    (\<forall>d ret s. recv_init d a2 = Inr (ret, s) \<longrightarrow> \<not> ret \<and> err s = Some LNERR_MSG_INIT)"
proof -
  define feat :: "byte \<Rightarrow> bool \<Rightarrow> byte" where "feat lf r = lf OR (if r then LN_INIT_LF_ROUTE_SYNC else 0)" for lf r
  define msg where "msg l = \<lparr>globalfeatures = [], localfeatures = [l]\<rparr>" for l :: byte
  define sent where "sent l s = callback DB_SELF_SAVE (s\<lparr>lfeature_local := l, init_flag := M_INIT_FLAG_SEND\<rparr>)" for l s
  have wf: "init_wf (msg l)" for l by (simp add: init_wf_def msg_def)
  have create: "ln_init_create lf r s = Inr (True, Some (init_wire (msg (feat lf r))), sent (feat lf r) s)"
    if "init_flag s = 0" for lf r s
    using init.create_wire [OF wf, of "feat lf r"] that
    by (simp add: ln_init_create_def Let_def try_c_def with_bytes_def msg_def feat_def sent_def)
  have ok: "\<not> unknown_even (feat lf r AND NOT LN_INIT_LF_OPT_DATALOSS_REQ)" if "known_features lf" for lf r
  proof -
    have "(feat lf r AND NOT LN_INIT_LF_OPT_DATALOSS_REQ) AND 0x55 = lf AND 0x54"
      by (simp add: feat_def init_flag_defs and.assoc bit.conj_disj_distrib2)
    then show ?thesis using that by (simp add: unknown_even_def known_features_def)
  qed
  have recv: "recv_init (init_wire (msg l)) (sent l' s) = init_accept l (sent l' s)"
    if "\<not> unknown_even (l AND NOT LN_INIT_LF_OPT_DATALOSS_REQ)" for l l' s
    using init.read_wire [OF wf, of l "[]"] that
    by (simp add: recv_init_def Let_def msg_def sent_def init_flag_defs callback_def)
  define fin where "fin l l' s = callback (CB_INIT_RECV (l AND LN_INIT_LF_ROUTE_SYNC \<noteq> 0))
    ((sent l' s)\<lparr>lfeature_remote := l, init_flag := 3\<rparr>)" for l l' s
  have accept: "init_accept l (sent l' s) = Inr (True, fin l l' s)" for l l' s
    by (simp add: init_accept_def sent_def fin_def init_flag_defs callback_def)
  have refuse: "ln_recv n (be16 t @ d) (sent l s) = Inr (False, set_err LNERR_INV_STATE (sent l s))"
    if "t \<noteq> MSGTYPE_INIT" for n :: "'p node_env" and t d l s
    using that by (simp add: ln_recv_def sent_def M_INIT_FLAG_EXCHNAGED_def init_flag_defs callback_def)
  have again: "\<not> ret \<and> err s' = Some LNERR_MSG_INIT" if "recv_init d (fin l l' s) = Inr (ret, s')" for d ret s' l l' s
    using that leads_send_created
    by (auto simp: recv_init_def fin_def init_flag_defs send_err_def bind_c_Inr_iff set_err_def callback_def dest!: leads_send_created)
  have state: "M_INIT_FLAG_EXCHNAGED (init_flag (fin l l' s))" "lfeature_remote (fin l l' s) = l"
    "lfeature_local (fin l l' s) = l'" for l l' s
    by (simp_all add: fin_def sent_def M_INIT_FLAG_EXCHNAGED_def callback_def)
  show ?thesis
    by (intro exI conjI)
      (rule allI impI create [OF assms(1)] create [OF assms(2)] trans [OF recv [OF ok [OF assms(4)]] accept]
        trans [OF recv [OF ok [OF assms(3)]] accept] refuse | erule again | simp add: state; fail)+
qed

theorem init_exchange_witness:
  "\<exists>ma a1 a2 mb b1 b2.
    ln_init_create 2 True (toy_self\<lparr>init_flag := 0\<rparr>) = Inr (True, Some ma, a1) \<and>
    ln_init_create 0 False (toy_self\<lparr>init_flag := 0\<rparr>) = Inr (True, Some mb, b1) \<and>
    recv_init mb a1 = Inr (True, a2) \<and> recv_init ma b1 = Inr (True, b2) \<and>
    lfeature_remote a2 = lfeature_local b2 \<and> lfeature_remote b2 = lfeature_local a2"
  using init_exchange [of "toy_self\<lparr>init_flag := 0\<rparr>" "toy_self\<lparr>init_flag := 0\<rparr>" 2 0 True False]
  by (simp add: toy_self_def known_features_def) blast

text \<open>
  \<open>missing_pong_cnt\<close> counts down for a \<open>pong\<close> that nobody asked for, and wraps around: after two
  such messages the next \<open>ping\<close> is reported as the fourth that the peer leaves without an answer.
\<close>

theorem unsolicited_pong:
  assumes "missing_pong_cnt self = 0" "last_num_pong_bytes self = 0"
  shows "\<exists>s1 s2 s3 ping. recv_pong (pong_wire \<lparr>pong_byteslen = 0\<rparr>) self = Inr (True, s1) \<and>
    recv_pong (pong_wire \<lparr>pong_byteslen = 0\<rparr>) s1 = Inr (True, s2) \<and>
    ln_ping_create r s s2 = Inr (False, ping, s3) \<and> err s3 = Some LNERR_PINGPONG"
proof -
  have read: "ln_msg_pong_read (pong_wire \<lparr>pong_byteslen = 0\<rparr>) = Inr \<lparr>pong_byteslen = 0\<rparr>"
    using pong.read_wire [of "\<lparr>pong_byteslen = 0\<rparr>" "[]"] by (simp add: pong_wf_def)
  have "ping_wf \<lparr>num_pong_bytes = ucast r, ping_byteslen = ucast s\<rparr>"
    using unsigned_less [of r, where ?'a = nat]
    by (simp add: ping_wf_def word_le_nat_alt unsigned_ucast_eq take_bit_nat_eq_self)
  moreover have "(1::16 word) < - 1" by (simp add: word_less_def uint_word_ariths)
  ultimately show ?thesis using ping.create_wire
    by (simp add: recv_pong_def read_msg_def try_c_def read assms ln_ping_create_def Let_def with_bytes_def
        M_PONG_MISSING_def set_err_def)
qed

theorem unsolicited_pong_witness:
  "\<exists>s1 s2 s3 ping. recv_pong (pong_wire \<lparr>pong_byteslen = 0\<rparr>) toy_self = Inr (True, s1) \<and>
    recv_pong (pong_wire \<lparr>pong_byteslen = 0\<rparr>) s1 = Inr (True, s2) \<and>
    ln_ping_create 7 9 s2 = Inr (False, ping, s3) \<and> err s3 = Some LNERR_PINGPONG"
  by (rule unsolicited_pong) (simp_all add: toy_self_def)

end
