(* ===== verification/Onion.thy ===== *)
theory Onion
  imports Channel_State
begin

text \<open>
  \<^verbatim>\<open>ln/ln_onion.c\<close>: the onion packet of BOLT#4. \<^verbatim>\<open>ln_onion_create_packet\<close> wraps the data of the hops of a
  route in layers, \<^verbatim>\<open>ln_onion_read_packet\<close> takes off one layer; the \<^verbatim>\<open>ln_onion_failure_*\<close> functions carry the
  reason of a failure back. SHA-256, HMAC, the ChaCha20 stream and the curve are parameters; \<open>sphinx_laws\<close>
  states what is used of them.
\<close>

section \<open>Parameters and constants\<close>

record onion_env =
  on_sha256 :: "bytes \<Rightarrow> bytes"
  on_mac :: "bytes \<Rightarrow> bytes \<Rightarrow> bytes"               \<comment> \<open>\<open>ln_misc_calc_mac\<close>: key, message\<close>
  on_stream :: "bytes \<Rightarrow> nat \<Rightarrow> bytes"              \<comment> \<open>\<open>generate_cipher_stream\<close>: key, length\<close>
  on_mul :: "bytes \<Rightarrow> bytes \<Rightarrow> bytes option"        \<comment> \<open>\<open>btc_util_mul_pubkey\<close>: public key, factor\<close>
  on_priv2pub :: "bytes \<Rightarrow> bytes option"
  on_chkpub :: "bytes \<Rightarrow> bool"
  on_junk :: bytes                                \<comment> \<open>what a fresh block has at the place of a key\<close>

definition LN_HOP_MAX :: nat where [simp]: "LN_HOP_MAX = 20"
definition M_VERSION :: byte where "M_VERSION = 0x00"
definition M_REALM_VAL :: byte where "M_REALM_VAL = 0x00"
definition M_SZ_PAD :: nat where [simp]: "M_SZ_PAD = 12"
definition M_SZ_HMAC :: nat where [simp]: "M_SZ_HMAC = 32"
definition M_SZ_HOP_DATA :: nat where [simp]: "M_SZ_HOP_DATA = 1 + 8 + 8 + 4 + M_SZ_PAD + M_SZ_HMAC"
definition M_SZ_SHARED_SECRET :: nat where [simp]: "M_SZ_SHARED_SECRET = 32"
definition M_SZ_ROUTING_INFO :: nat where [simp]: "M_SZ_ROUTING_INFO = LN_HOP_MAX * M_SZ_HOP_DATA"
definition M_SZ_STREAM_BYTES :: nat where [simp]: "M_SZ_STREAM_BYTES = M_SZ_ROUTING_INFO + M_SZ_HOP_DATA"

definition LNONION_INV_REALM :: u16 where "LNONION_INV_REALM = 0x4000 OR 1"
definition LNONION_INV_ONION_VERSION :: u16 where "LNONION_INV_ONION_VERSION = 0x8000 OR 0x4000 OR 4"
definition LNONION_INV_ONION_HMAC :: u16 where "LNONION_INV_ONION_HMAC = 0x8000 OR 0x4000 OR 5"
definition LNONION_INV_ONION_KEY :: u16 where "LNONION_INV_ONION_KEY = 0x8000 OR 0x4000 OR 6"
definition LNONION_TMP_NODE_FAIL :: u16 where "LNONION_TMP_NODE_FAIL = 0x2000 OR 2"
definition LNONION_PERM_NODE_FAIL :: u16 where "LNONION_PERM_NODE_FAIL = 0x4000 OR 0x2000 OR 2"

text \<open>The strings \<open>"rho"\<close>, \<open>"mu"\<close>, \<open>"um"\<close> and \<open>"ammag"\<close>, in ASCII.\<close>

definition RHO :: bytes where "RHO = [0x72, 0x68, 0x6f]"
definition MU :: bytes where "MU = [0x6d, 0x75]"
definition UM :: bytes where "UM = [0x75, 0x6d]"
definition AMMAG :: bytes where "AMMAG = [0x61, 0x6d, 0x6d, 0x61, 0x67]"

record ln_hop_datain_t =
  in_short_channel_id :: u64
  in_amt_to_forward :: u64
  in_outgoing_cltv_value :: u32
  in_pubkey :: bytes

section \<open>Helpers\<close>

definition generate_key :: "onion_env \<Rightarrow> bytes \<Rightarrow> bytes \<Rightarrow> bytes" where
  "generate_key on pKeyStr pSharedSecret = on_mac on pKeyStr (take M_SZ_SHARED_SECRET pSharedSecret)"

definition xor_bytes :: "bytes \<Rightarrow> bytes \<Rightarrow> bytes" where
  "xor_bytes = map2 (XOR)"

definition right_shift :: "bytes \<Rightarrow> bytes" where
  "right_shift pData = replicate M_SZ_HOP_DATA 0 @ take (M_SZ_ROUTING_INFO - M_SZ_HOP_DATA) pData"

text \<open>A failed multiplication leaves the buffer \<open>old\<close>; no caller looks at the result.\<close>

definition blind_group_element :: "onion_env \<Rightarrow> bytes \<Rightarrow> bytes \<Rightarrow> bytes \<Rightarrow> bytes" where
  "blind_group_element on old pPubKey pBlindingFactor =
     (case on_mul on pPubKey pBlindingFactor of Some r \<Rightarrow> r | None \<Rightarrow> old)"

definition multi_scalar_mul :: "onion_env \<Rightarrow> bytes \<Rightarrow> bytes list \<Rightarrow> bytes" where
  "multi_scalar_mul on pPubKey pBlindingFactors =
     fold (\<lambda>f pResult. blind_group_element on pResult pResult f) pBlindingFactors pPubKey"

definition compute_blinding_factor :: "onion_env \<Rightarrow> bytes \<Rightarrow> bytes \<Rightarrow> bytes" where
  "compute_blinding_factor on pPubKey pSharedSecret = on_sha256 on (pPubKey @ pSharedSecret)"

definition onion_shared_secret :: "onion_env \<Rightarrow> bytes \<Rightarrow> bytes \<Rightarrow> bytes" where
  \<comment> \<open>\<^verbatim>\<open>ln_misc_generate_shared_secret\<close>, \<^verbatim>\<open>ln_node_generate_shared_secret\<close>\<close>
  "onion_shared_secret on pPubKey pPrivKey =
     on_sha256 on (blind_group_element on (on_junk on) pPubKey pPrivKey)"

text \<open>The area \<open>pResult\<close>, of which \<^verbatim>\<open>generate_header_padding\<close> returns the length.\<close>

definition padding_step :: "onion_env \<Rightarrow> nat \<Rightarrow> bytes list \<Rightarrow> nat \<Rightarrow> bytes \<Rightarrow> bytes" where
  "padding_step on NumHops secrets lp pResult =
     (let sz = (LN_HOP_MAX - lp + 1) * M_SZ_HOP_DATA;
          streamBytes = on_stream on (generate_key on RHO (secrets ! (lp - 1))) M_SZ_STREAM_BYTES;
          ln = (if M_SZ_HOP_DATA * (NumHops - 1) < M_SZ_HOP_DATA * lp
                then M_SZ_HOP_DATA * (NumHops - 1) else M_SZ_HOP_DATA * lp) in
      xor_bytes (take ln pResult) (take ln (drop sz streamBytes)) @ drop ln pResult)"

definition generate_header_padding :: "onion_env \<Rightarrow> nat \<Rightarrow> bytes list \<Rightarrow> bytes" where
  "generate_header_padding on NumHops secrets =
     fold (padding_step on NumHops secrets) [1..<NumHops] (replicate (M_SZ_HOP_DATA * (NumHops - 1)) 0)"

section \<open>Creating a packet\<close>

text \<open>The keys, secrets and factors of all hops: \<open>eph_pubkeys\<close>, \<open>shd_secrets\<close> and \<open>blind_factors\<close>.\<close>

definition hop_key_step ::
  "onion_env \<Rightarrow> bytes \<Rightarrow> bytes list \<Rightarrow> nat \<Rightarrow> bytes list \<times> bytes list \<times> bytes list \<Rightarrow>
   bytes list \<times> bytes list \<times> bytes list" where
  "hop_key_step on pSessionKey pKeys lp = (\<lambda>(eph, shd, blind).
     let e = blind_group_element on (on_junk on) (eph ! (lp - 1)) (blind ! (lp - 1));
         yToX = blind_group_element on (on_junk on) (pKeys ! lp) pSessionKey;
         s = on_sha256 on (multi_scalar_mul on yToX (take lp blind));
         b = compute_blinding_factor on e s in
     (eph @ [e], shd @ [s], blind @ [b]))"

definition hop_keys ::
  "onion_env \<Rightarrow> bytes \<Rightarrow> bytes list \<Rightarrow> bytes list \<times> bytes list \<times> bytes list" where
  "hop_keys on pSessionKey pKeys =
     (let e = (case on_priv2pub on pSessionKey of Some p \<Rightarrow> p | None \<Rightarrow> on_junk on);
          s = onion_shared_secret on (pKeys ! 0) pSessionKey;
          b = compute_blinding_factor on e s in
      fold (hop_key_step on pSessionKey pKeys) [1..<length pKeys] ([e], [s], [b]))"

definition hop_payload :: "ln_hop_datain_t \<Rightarrow> bytes \<Rightarrow> bytes" where
  "hop_payload h next_hmac =
     [M_REALM_VAL] @ be64 (in_short_channel_id h) @ be64 (in_amt_to_forward h) @
     be32 (in_outgoing_cltv_value h) @ replicate M_SZ_PAD 0 @ next_hmac"

definition wrap_hop ::
  "onion_env \<Rightarrow> bytes \<Rightarrow> bytes \<Rightarrow> ln_hop_datain_t list \<Rightarrow> bytes list \<Rightarrow> nat \<Rightarrow> bytes \<times> bytes \<Rightarrow> bytes \<times> bytes" where
  "wrap_hop on pAssocData filler hops secrets lp = (\<lambda>(mix_header, next_hmac).
     let rho_key = generate_key on RHO (secrets ! lp);
         mu_key = generate_key on MU (secrets ! lp);
         stream_bytes = on_stream on rho_key M_SZ_STREAM_BYTES;
         mix_header = hop_payload (hops ! lp) next_hmac @ drop M_SZ_HOP_DATA (right_shift mix_header);
         mix_header = xor_bytes mix_header (take M_SZ_ROUTING_INFO stream_bytes);
         mix_header = (if lp = length hops - 1
           then take (M_SZ_ROUTING_INFO - length filler) mix_header @ filler else mix_header) in
     (mix_header, on_mac on mu_key (mix_header @ pAssocData)))"

text \<open>
  The packet and the shared secrets, which go to the buffer \<open>pSecrets\<close>. The loop over the hops runs from
  the last to the first. The associated data are put behind the routing info in the buffer of the packet.
\<close>

definition ln_onion_create_packet ::
  "onion_env \<Rightarrow> ln_hop_datain_t list \<Rightarrow> bytes \<Rightarrow> bytes \<Rightarrow> (bytes \<times> bytes) c_result" where
  "ln_onion_create_packet on pHopData pSessionKey pAssocData =
     check_c (\<not> LN_HOP_MAX < length pHopData) (
     if pHopData = [] \<or> LN_SZ_ONION_ROUTE < M_SZ_ROUTING_INFO + length pAssocData then Inl Write_Overrun
     else
       let (eph, shd, _) = hop_keys on pSessionKey (map in_pubkey pHopData);
           filler = generate_header_padding on (length pHopData) shd;
           (mix_header, hmac) = foldr (wrap_hop on pAssocData filler pHopData shd) [0..<length pHopData]
             (replicate M_SZ_ROUTING_INFO 0, replicate M_SZ_HMAC 0) in
       Inr ([M_VERSION] @ eph ! 0 @ mix_header @ hmac, concat shd))"

section \<open>Reading a packet\<close>

definition set_reason_sha256 :: "onion_env \<Rightarrow> bytes \<Rightarrow> u16 \<Rightarrow> bytes" where
  "set_reason_sha256 on pPacket Code = be16 Code @ on_sha256 on (take LN_SZ_ONION_ROUTE pPacket)"

text \<open>
  The result has the hop data, the next packet and the shared secret, or the reason that was pushed; a
  secret that was not stored is the empty buffer. The part that reads the data follows from the test of the
  realm on.
\<close>

definition read_hop_data :: "onion_env \<Rightarrow> byte \<Rightarrow> bytes \<Rightarrow> bytes \<Rightarrow> bytes \<Rightarrow> onion_result c_result" where
  "read_hop_data on version p_dhkey shared_secret stream_bytes =
     get_u8 stream_bytes (\<lambda>realm q.
     if realm \<noteq> M_REALM_VAL then Inr (Onion_Err (be16 LNONION_INV_REALM) shared_secret)
     else
       get_u64 q (\<lambda>scid q.
       get_u64 q (\<lambda>amt q.
       get_u32 q (\<lambda>cltv _.
       let blind_factor = compute_blinding_factor on p_dhkey shared_secret;
           eph_pubkey = blind_group_element on (on_junk on) p_dhkey blind_factor;
           hmac = take M_SZ_HMAC (drop (M_SZ_HOP_DATA - M_SZ_HMAC) stream_bytes) in
       Inr (Onion_Ok \<lparr>b_exit = list_all (\<lambda>b. b = 0) hmac, hop_short_channel_id = scid,
           amt_to_forward = amt, outgoing_cltv_value = cltv\<rparr>
         ([version] @ eph_pubkey @ take M_SZ_ROUTING_INFO (drop M_SZ_HOP_DATA stream_bytes) @ hmac)
         shared_secret)))))"

text \<open>\<open>priv\<close> is the key of the own node.\<close>

definition ln_onion_read_packet ::
  "onion_env \<Rightarrow> bytes \<Rightarrow> bytes \<Rightarrow> bytes \<Rightarrow> onion_result c_result" where
  "ln_onion_read_packet on priv pPacket pAssocData =
     (if length pPacket < LN_SZ_ONION_ROUTE then Inl Read_Overrun
      else get_u8 pPacket (\<lambda>version p.
     if version \<noteq> M_VERSION then Inr (Onion_Err (set_reason_sha256 on pPacket LNONION_INV_ONION_VERSION) [])
     else
       get_bytes BTC_SZ_PUBKEY p (\<lambda>p_dhkey p.
       if \<not> on_chkpub on p_dhkey then Inr (Onion_Err (set_reason_sha256 on pPacket LNONION_INV_ONION_KEY) [])
       else
         let shared_secret = onion_shared_secret on p_dhkey priv in
         get_bytes M_SZ_ROUTING_INFO p (\<lambda>p_route p.
         get_bytes M_SZ_HMAC p (\<lambda>p_hmac _.
         if on_mac on (generate_key on MU shared_secret) (p_route @ pAssocData) \<noteq> p_hmac
         then Inr (Onion_Err (set_reason_sha256 on pPacket LNONION_INV_ONION_HMAC) shared_secret)
         else
           let stream = on_stream on (generate_key on RHO shared_secret) M_SZ_STREAM_BYTES in
           read_hop_data on version p_dhkey shared_secret
             (xor_bytes p_route (take M_SZ_ROUTING_INFO stream) @ drop M_SZ_ROUTING_INFO stream))))))"

section \<open>Failures on their way back\<close>

text \<open>The shared secret is read as an object of 32 bytes.\<close>

definition with_secret :: "bytes \<Rightarrow> 'a c_result \<Rightarrow> 'a c_result" where
  "with_secret pSharedSecret k =
     (if pSharedSecret = [] then Inl Null_Deref
      else if length pSharedSecret < M_SZ_SHARED_SECRET then Inl Read_Overrun else k)"

definition ln_onion_failure_forward :: "onion_env \<Rightarrow> bytes \<Rightarrow> bytes \<Rightarrow> bytes c_result" where
  "ln_onion_failure_forward on pSharedSecret pPacket =
     with_secret pSharedSecret (
     Inr (xor_bytes pPacket (on_stream on (generate_key on AMMAG pSharedSecret) (length pPacket))))"

definition FAILURE_DATALEN :: nat where [simp]: "FAILURE_DATALEN = 256"

text \<open>
  With a reason above 256 bytes the length of the padding wraps around, and \<open>memset\<close> leaves the buffer.
\<close>

definition ln_onion_failure_create :: "onion_env \<Rightarrow> bytes \<Rightarrow> bytes \<Rightarrow> bytes c_result" where
  "ln_onion_failure_create on pSharedSecret pReason =
     with_secret pSharedSecret (
     if FAILURE_DATALEN < length pReason then Inl Write_Overrun
     else
       let body = be16 (of_nat (length pReason)) @ pReason @ be16 (of_nat (FAILURE_DATALEN - length pReason)) @
             replicate (FAILURE_DATALEN - length pReason) 0 in
       ln_onion_failure_forward on pSharedSecret (on_mac on (generate_key on UM pSharedSecret) body @ body))"

fun all_zero :: "bytes \<Rightarrow> nat \<Rightarrow> bool c_result" where
  "all_zero p 0 = Inr True"
| "all_zero [] (Suc n) = Inl Read_Overrun"
| "all_zero (b # p) (Suc n) = (if b \<noteq> 0 then Inr False else all_zero p n)"

text \<open>
  One round of the loop: \<open>None\<close> goes on with the next hop, \<open>Some\<close> leaves the loop, with the reason if the
  code of authentication is right.
\<close>

definition failure_match :: "onion_env \<Rightarrow> bytes \<Rightarrow> bytes \<Rightarrow> bytes option option c_result" where
  "failure_match on ss out =
     get_bytes M_SZ_HMAC out (\<lambda>hmac body.
     get_u16 body (\<lambda>reason_len p.
     if \<not> unat reason_len < FAILURE_DATALEN then Inr None
     else
       get_bytes (unat reason_len) p (\<lambda>reason p.
       get_u16 p (\<lambda>pad_len p.
       if unat reason_len + unat pad_len \<noteq> FAILURE_DATALEN then Inr None
       else
         bind_c (all_zero p (unat pad_len)) (\<lambda>zero.
         if \<not> zero then Inr None
         else Inr (Some (if hmac = on_mac on (generate_key on UM ss) body then Some reason else None)))))))"

fun failure_read_loop :: "onion_env \<Rightarrow> nat \<Rightarrow> bytes list \<Rightarrow> bytes \<Rightarrow> (nat \<times> bytes) option c_result" where
  "failure_read_loop on lp [] p_in = Inr None"
| "failure_read_loop on lp (ss # secrets) p_in =
     bind_c (ln_onion_failure_forward on ss p_in) (\<lambda>p_out.
     bind_c (failure_match on ss p_out) (\<lambda>m.
     case m of
       Some (Some reason) \<Rightarrow> Inr (Some (lp, reason))
     | Some None \<Rightarrow> Inr None
     | None \<Rightarrow> failure_read_loop on (Suc lp) secrets p_out))"

definition split_secrets :: "bytes \<Rightarrow> bytes list" where
  "split_secrets pSharedSecrets =
     map (\<lambda>lp. take BTC_SZ_PRIVKEY (drop (BTC_SZ_PRIVKEY * lp) pSharedSecrets))
       [0..<length pSharedSecrets div BTC_SZ_PRIVKEY]"

definition ln_onion_failure_read :: "onion_env \<Rightarrow> bytes \<Rightarrow> bytes \<Rightarrow> (nat \<times> bytes) option c_result" where
  "ln_onion_failure_read on pSharedSecrets pPacket = failure_read_loop on 0 (split_secrets pSharedSecrets) pPacket"

text \<open>An empty reason is a NULL pointer.\<close>

fun ln_onion_read_err :: "bytes \<Rightarrow> u16 c_result" where
  "ln_onion_read_err [] = Inl Null_Deref"
| "ln_onion_read_err [_] = Inl Read_Overrun"
| "ln_onion_read_err (b0 # b1 # _) = Inr (shl 8 b0 OR shl 0 b1)"

definition ln_onion_create_reason_temp_node :: bytes where
  "ln_onion_create_reason_temp_node = be16 LNONION_TMP_NODE_FAIL"

definition ln_onion_create_reason_perm_node :: bytes where
  "ln_onion_create_reason_perm_node = be16 LNONION_PERM_NODE_FAIL"

section \<open>What is used of the cryptographic functions\<close>

text \<open>
  \<open>scalar\<close> are the factors that are not 0 modulo the order of the group. Multiplication by one of them is
  defined on a valid key, and two of them can be swapped; a public key is the product with the generator.
\<close>

definition sphinx_laws :: "onion_env \<Rightarrow> (bytes \<Rightarrow> bool) \<Rightarrow> bool" where
  "sphinx_laws on scalar \<longleftrightarrow>
     (\<forall>d. length (on_sha256 on d) = 32) \<and> (\<forall>k d. length (on_mac on k d) = 32) \<and>
     (\<forall>k n. length (on_stream on k n) = n) \<and>
     (\<forall>P a. on_chkpub on P \<and> scalar a \<longrightarrow>
        (\<exists>Q. on_mul on P a = Some Q \<and> on_chkpub on Q \<and> length Q = BTC_SZ_PUBKEY)) \<and>
     (\<forall>P a b Q R. on_chkpub on P \<and> scalar a \<and> scalar b \<and> on_mul on P a = Some Q \<and> on_mul on P b = Some R \<longrightarrow>
        on_mul on Q b = on_mul on R a) \<and>
     (\<exists>G. on_chkpub on G \<and> (\<forall>a. scalar a \<longrightarrow> on_priv2pub on a = on_mul on G a))"

lemma sphinx_lengths:
  assumes "sphinx_laws on scalar"
  shows "length (on_sha256 on d) = 32" "length (on_mac on k d) = 32" "length (on_stream on k n) = n"
  using assms by (simp_all add: sphinx_laws_def)

lemma sphinx_lawsD:
  assumes "sphinx_laws on scalar"
  shows "\<forall>P a. on_chkpub on P \<and> scalar a \<longrightarrow>
      (\<exists>Q. on_mul on P a = Some Q \<and> on_chkpub on Q \<and> length Q = BTC_SZ_PUBKEY)"
    and "\<forall>P a b Q R. on_chkpub on P \<and> scalar a \<and> scalar b \<and> on_mul on P a = Some Q \<and> on_mul on P b = Some R \<longrightarrow>
      on_mul on Q b = on_mul on R a"
    and "\<exists>G. on_chkpub on G \<and> (\<forall>a. scalar a \<longrightarrow> on_priv2pub on a = on_mul on G a)"
  using assms unfolding sphinx_laws_def by - (elim conjE, assumption)+

lemma blind_group_element_eq: "on_mul on P a = Some Q \<Longrightarrow> blind_group_element on old P a = Q"
  by (simp add: blind_group_element_def)

lemma sphinx_blind:
  assumes "sphinx_laws on scalar" "on_chkpub on P" "scalar a"
  shows "on_chkpub on (blind_group_element on old P a)" "length (blind_group_element on old P a) = BTC_SZ_PUBKEY"
    "on_mul on P a = Some (blind_group_element on old P a)"
proof -
  obtain Q where Q: "on_mul on P a = Some Q" "on_chkpub on Q" "length Q = BTC_SZ_PUBKEY"
    using sphinx_lawsD(1) [OF assms(1)] assms(2,3) by blast
  then show "on_chkpub on (blind_group_element on old P a)" "length (blind_group_element on old P a) = BTC_SZ_PUBKEY"
    "on_mul on P a = Some (blind_group_element on old P a)" using blind_group_element_eq [OF Q(1)] by simp_all
qed

lemma sphinx_blind_old:
  "sphinx_laws on scalar \<Longrightarrow> on_chkpub on P \<Longrightarrow> scalar a \<Longrightarrow>
     blind_group_element on o1 P a = blind_group_element on o2 P a"
  using sphinx_blind(3) [of on scalar P a o1] sphinx_blind(3) [of on scalar P a o2] by simp

lemma sphinx_swap:
  assumes "sphinx_laws on scalar" "on_chkpub on P" "scalar a" "scalar b"
  shows "blind_group_element on o1 (blind_group_element on o2 P a) b =
    blind_group_element on o3 (blind_group_element on o4 P b) a"
proof -
  let ?Q = "blind_group_element on o2 P a" and ?R = "blind_group_element on o4 P b"
  have "on_mul on P a = Some ?Q" "on_mul on P b = Some ?R" using sphinx_blind(3) assms by blast+
  then have eq: "on_mul on ?Q b = on_mul on ?R a" using sphinx_lawsD(2) [OF assms(1)] assms(2-4) by blast
  have "on_mul on ?R a = Some (blind_group_element on o3 ?R a)"
    using sphinx_blind(1,3) assms by blast
  then show ?thesis using eq by (intro blind_group_element_eq) simp
qed

lemma multi_scalar_mul_simps [simp]:
  "multi_scalar_mul on P [] = P"
  "multi_scalar_mul on P (fs @ [f]) =
     blind_group_element on (multi_scalar_mul on P fs) (multi_scalar_mul on P fs) f"
  by (simp_all add: multi_scalar_mul_def)

lemma multi_scalar_mul_chkpub:
  "sphinx_laws on scalar \<Longrightarrow> on_chkpub on P \<Longrightarrow> \<forall>f\<in>set fs. scalar f \<Longrightarrow> on_chkpub on (multi_scalar_mul on P fs)"
  by (induction fs rule: rev_induct) (auto intro: sphinx_blind(1))

lemma multi_scalar_mul_swap:
  assumes "sphinx_laws on scalar" "on_chkpub on P" "scalar x" "\<forall>f\<in>set fs. scalar f"
  shows "blind_group_element on old (multi_scalar_mul on P fs) x =
    multi_scalar_mul on (blind_group_element on old' P x) fs"
  using assms(4)
proof (induction fs arbitrary: old rule: rev_induct)
  case Nil
  then show ?case using sphinx_blind_old [OF assms(1-3)] by simp
next
  case (snoc f fs)
  let ?M = "multi_scalar_mul on P fs"
  from snoc have f: "scalar f" "\<forall>f\<in>set fs. scalar f" by simp_all
  have "on_chkpub on ?M" using multi_scalar_mul_chkpub [OF assms(1,2) f(2)] .
  from sphinx_swap [OF assms(1) this f(1) assms(3)]
  have "blind_group_element on old (blind_group_element on ?M ?M f) x =
      blind_group_element on (blind_group_element on old ?M x) (blind_group_element on old ?M x) f" .
  then show ?case by (simp add: snoc.IH [OF f(2)])
qed

section \<open>The keys of the sender and of the nodes\<close>

text \<open>The three lists, by what the elements are.\<close>

lemma hop_key_fold:
  assumes "0 < k" "k \<le> n" "fold (hop_key_step on s0 keys) [1..<k] ([e], [s], [b]) = (eph, shd, blind)"
    and s: "s = onion_shared_secret on (keys ! 0) s0" and b: "b = compute_blinding_factor on e s"
  shows "length eph = k \<and> length shd = k \<and> length blind = k \<and> eph ! 0 = e \<and>
    (\<forall>i<k. blind ! i = compute_blinding_factor on (eph ! i) (shd ! i)) \<and>
    (\<forall>i. Suc i < k \<longrightarrow> eph ! Suc i = blind_group_element on (on_junk on) (eph ! i) (blind ! i)) \<and>
    (\<forall>i<k. shd ! i = on_sha256 on (multi_scalar_mul on
       (blind_group_element on (on_junk on) (keys ! i) s0) (take i blind)))"
  using assms(1-3)
proof (induction k arbitrary: eph shd blind)
  case (Suc k)
  show ?case
  proof (cases "k = 0")
    case True
    then show ?thesis using Suc.prems(3) by (auto simp: s b onion_shared_secret_def)
  next
    case False
    obtain eph' shd' blind' where f: "fold (hop_key_step on s0 keys) [1..<k] ([e], [s], [b]) = (eph', shd', blind')"
      by (metis prod_cases3)
    have k: "0 < k" "k \<le> n" using False Suc.prems(2) by simp_all
    note IH = Suc.IH [OF k f]
    have "hop_key_step on s0 keys k (eph', shd', blind') = (eph, shd, blind)"
      using Suc.prems(3) False f by (simp add: upt_Suc_append)
    then show ?thesis
      using IH False not0_implies_Suc [OF False]
      by (auto simp: hop_key_step_def Let_def nth_append less_Suc_eq)
  qed
qed simp

lemma hop_keys_spec:
  assumes "hop_keys on s0 keys = (eph, shd, blind)" "keys \<noteq> []"
  shows "length eph = length keys" "length shd = length keys" "length blind = length keys"
    "eph ! 0 = (case on_priv2pub on s0 of Some p \<Rightarrow> p | None \<Rightarrow> on_junk on)"
    "i < length keys \<Longrightarrow> blind ! i = compute_blinding_factor on (eph ! i) (shd ! i)"
    "Suc i < length keys \<Longrightarrow> eph ! Suc i = blind_group_element on (on_junk on) (eph ! i) (blind ! i)"
    "i < length keys \<Longrightarrow> shd ! i = on_sha256 on (multi_scalar_mul on
       (blind_group_element on (on_junk on) (keys ! i) s0) (take i blind))"
  using hop_key_fold [OF _ order_refl assms(1) [unfolded hop_keys_def Let_def] refl refl] assms(2) by auto

lemma hop_keys_agree:
  assumes laws: "sphinx_laws on scalar" and keys: "hop_keys on s0 keys = (eph, shd, blind)" "scalar s0"
    and blind: "\<forall>f\<in>set blind. scalar f" and i: "i < length keys"
    and priv: "scalar x" "on_priv2pub on x = Some (keys ! i)"
  shows "on_chkpub on (eph ! i) \<and> length (eph ! i) = BTC_SZ_PUBKEY \<and> onion_shared_secret on (eph ! i) x = shd ! i"
proof -
  note spec = hop_keys_spec [OF keys(1)]
  have ne: "keys \<noteq> []" using i by auto
  obtain G where G: "on_chkpub on G" "\<And>a. scalar a \<Longrightarrow> on_priv2pub on a = on_mul on G a"
    using sphinx_lawsD(3) [OF laws] by blast
  let ?b = "blind_group_element on (on_junk on)"
  have eph0: "eph ! 0 = ?b G s0"
    using spec(4) [OF ne] G(2) [OF keys(2)] by (simp add: blind_group_element_def)
  have chk0: "on_chkpub on (?b G s0)" "length (?b G s0) = BTC_SZ_PUBKEY"
    using sphinx_blind(1,2) [OF laws G(1) keys(2)] by blast+
  have eph: "j < length keys \<Longrightarrow> eph ! j = multi_scalar_mul on (?b G s0) (take j blind)" for j
  proof (induction j)
    case (Suc j)
    have sc: "scalar (blind ! j)" "\<forall>f\<in>set (take j blind). scalar f"
      using blind Suc.prems spec(3) [OF ne] by (auto dest: in_set_takeD)
    have "take (Suc j) blind = take j blind @ [blind ! j]"
      using Suc.prems spec(3) [OF ne] by (simp add: take_Suc_conv_app_nth)
    then show ?case
      using Suc spec(6) [OF ne Suc.prems]
        sphinx_blind_old [OF laws multi_scalar_mul_chkpub [OF laws chk0(1) sc(2)] sc(1)] by simp
  qed (simp add: eph0)
  have sc: "\<forall>f\<in>set (take i blind). scalar f" using blind by (auto dest: in_set_takeD)
  have len: "length (eph ! i) = BTC_SZ_PUBKEY"
  proof (cases i)
    case 0
    then show ?thesis using eph0 chk0(2) by simp
  next
    case (Suc j)
    then have "on_chkpub on (eph ! j)" "scalar (blind ! j)"
      using eph [of j] i multi_scalar_mul_chkpub [OF laws chk0(1), of "take j blind"] blind spec(3) [OF ne]
      by (auto dest: in_set_takeD)
    then show ?thesis using Suc spec(6) [OF ne, of j] i sphinx_blind(2) [OF laws] by simp
  qed
  have "keys ! i = ?b G x" using G(2) [OF priv(1)] priv(2) by (intro blind_group_element_eq [symmetric]) simp
  then have "?b (?b G s0) x = ?b (keys ! i) s0" using sphinx_swap [OF laws G(1) keys(2) priv(1)] by simp
  then have "onion_shared_secret on (eph ! i) x = shd ! i"
    unfolding onion_shared_secret_def eph [OF i] spec(7) [OF ne i]
    using multi_scalar_mul_swap [OF laws chk0(1) priv(1) sc] by metis
  then show ?thesis using len eph [OF i] multi_scalar_mul_chkpub [OF laws chk0(1) sc] by simp
qed

end
