(* ===== verification/Onion_Route.thy ===== *)
theory Onion_Route
  imports Onion Channel_Recv
begin

text \<open>
  What \<^verbatim>\<open>ln/ln_onion.c\<close> achieves on a route: every node reads from the packet what the sender has written
  for it, and passes the packet of the next node on; a failure of any node comes back to the sender.
\<close>

section \<open>XOR of two areas\<close>

lemma length_xor_bytes [simp]: "length (xor_bytes a b) = min (length a) (length b)"
  by (simp add: xor_bytes_def)

lemma take_xor_bytes: "take n (xor_bytes a b) = xor_bytes (take n a) (take n b)"
  by (simp add: xor_bytes_def take_map take_zip)

lemma drop_xor_bytes: "drop n (xor_bytes a b) = xor_bytes (drop n a) (drop n b)"
  by (simp add: xor_bytes_def drop_map drop_zip)

lemma xor_bytes_append:
  "length a = length c \<Longrightarrow> xor_bytes (a @ b) (c @ d) = xor_bytes a c @ xor_bytes b d"
  by (simp add: xor_bytes_def)

lemma xor_bytes_cancel: "length a \<le> length b \<Longrightarrow> xor_bytes (xor_bytes a b) b = a"
  by (induction a b rule: list_induct2') (auto simp: xor_bytes_def xor.assoc)

lemma xor_bytes_zero: "length b \<le> n \<Longrightarrow> xor_bytes (replicate n 0) b = b"
proof (induction b arbitrary: n)
  case (Cons x b)
  then show ?case by (cases n) (simp_all add: xor_bytes_def)
qed (simp add: xor_bytes_def)

section \<open>The filler\<close>

text \<open>What the first \<open>j\<close> nodes of a route leave behind the data when each appends zeros and adds its stream.\<close>

fun left_behind :: "(nat \<Rightarrow> bytes) \<Rightarrow> nat \<Rightarrow> bytes" where
  "left_behind S 0 = []"
| "left_behind S (Suc j) = xor_bytes (left_behind S j @ replicate M_SZ_HOP_DATA 0)
     (drop ((LN_HOP_MAX - j) * M_SZ_HOP_DATA) (S j))"

lemma length_left_behind:
  "\<forall>i. length (S i) = M_SZ_STREAM_BYTES \<Longrightarrow> j \<le> LN_HOP_MAX \<Longrightarrow> length (left_behind S j) = M_SZ_HOP_DATA * j"
  by (induction j) (auto simp: algebra_simps diff_mult_distrib)

definition rho_stream :: "onion_env \<Rightarrow> bytes list \<Rightarrow> nat \<Rightarrow> bytes" where
  "rho_stream on secrets j = on_stream on (generate_key on RHO (secrets ! j)) M_SZ_STREAM_BYTES"

lemma padding_fold:
  assumes "\<forall>i. length (rho_stream on secrets i) = M_SZ_STREAM_BYTES" "Suc j \<le> n" "n \<le> LN_HOP_MAX"
  shows "fold (padding_step on n secrets) [1..<Suc j] (replicate (M_SZ_HOP_DATA * (n - 1)) 0) =
    left_behind (rho_stream on secrets) j @ replicate (M_SZ_HOP_DATA * (n - 1 - j)) 0"
  using assms(2)
proof (induction j)
  case (Suc j)
  let ?S = "rho_stream on secrets"
  have ln: "length (left_behind ?S j) = M_SZ_HOP_DATA * j"
    using length_left_behind [OF assms(1)] Suc.prems assms(3) by simp
  have z: "replicate (M_SZ_HOP_DATA * (n - 1 - j)) (0::byte) =
      replicate M_SZ_HOP_DATA 0 @ replicate (M_SZ_HOP_DATA * (n - 1 - Suc j)) 0"
    using Suc.prems by (simp add: replicate_add [symmetric] diff_mult_distrib2 algebra_simps del: replicate.simps)
  have "[1..<Suc (Suc j)] = [1..<Suc j] @ [Suc j]" by simp
  then have "fold (padding_step on n secrets) [1..<Suc (Suc j)] (replicate (M_SZ_HOP_DATA * (n - 1)) 0) =
      padding_step on n secrets (Suc j) ((left_behind ?S j @ replicate M_SZ_HOP_DATA 0) @
        replicate (M_SZ_HOP_DATA * (n - 1 - Suc j)) 0)"
    using Suc.IH Suc.prems z by simp
  also have "\<dots> = left_behind ?S (Suc j) @ replicate (M_SZ_HOP_DATA * (n - 1 - Suc j)) 0"
  proof -
    define d where "d = drop ((LN_HOP_MAX - j) * M_SZ_HOP_DATA) (?S j)"
    have j: "j + 2 \<le> n" "n \<le> 20" using Suc.prems assms(3) by simp_all
    have "LN_HOP_MAX - Suc j + 1 = LN_HOP_MAX - j" using j by simp
    moreover have "length d = M_SZ_HOP_DATA * Suc j"
      using assms(1) j by (simp add: d_def diff_mult_distrib)
    moreover have "\<not> M_SZ_HOP_DATA * (n - 1) < M_SZ_HOP_DATA * Suc j" using j by simp
    moreover define x where "x = left_behind ?S j @ replicate M_SZ_HOP_DATA 0"
    moreover have "length x = M_SZ_HOP_DATA * Suc j" using ln by (simp add: x_def)
    moreover have "left_behind ?S (Suc j) = xor_bytes x d" by (simp add: x_def d_def)
    ultimately show ?thesis
      unfolding padding_step_def Let_def diff_Suc_1 rho_stream_def [symmetric] d_def by simp
  qed
  finally show ?case .
qed simp

lemma generate_header_padding_eq:
  assumes "\<forall>i. length (rho_stream on secrets i) = M_SZ_STREAM_BYTES" "0 < n" "n \<le> LN_HOP_MAX"
  shows "generate_header_padding on n secrets = left_behind (rho_stream on secrets) (n - 1)"
  using padding_fold [OF assms(1) _ assms(3), of "n - 1"] assms(2) by (simp add: generate_header_padding_def)

section \<open>The headers\<close>

text \<open>The header and its code of authentication as the node \<open>lp\<close> gets them.\<close>

definition header_at :: "onion_env \<Rightarrow> bytes \<Rightarrow> ln_hop_datain_t list \<Rightarrow> bytes list \<Rightarrow> nat \<Rightarrow> bytes \<times> bytes" where
  "header_at on assoc hops secrets lp =
     foldr (wrap_hop on assoc (generate_header_padding on (length hops) secrets) hops secrets) [lp..<length hops]
       (replicate M_SZ_ROUTING_INFO 0, replicate M_SZ_HMAC 0)"

abbreviation next_mac :: "onion_env \<Rightarrow> bytes \<Rightarrow> ln_hop_datain_t list \<Rightarrow> bytes list \<Rightarrow> nat \<Rightarrow> bytes" where
  "next_mac on assoc hops secrets lp \<equiv> snd (header_at on assoc hops secrets (Suc lp))"

definition lengths_ok :: "onion_env \<Rightarrow> bool" where
  "lengths_ok on \<longleftrightarrow> (\<forall>k d. length (on_mac on k d) = 32) \<and> (\<forall>k n. length (on_stream on k n) = n)"

lemma length_hop_payload: "length mac = M_SZ_HMAC \<Longrightarrow> length (hop_payload h mac) = M_SZ_HOP_DATA"
  by (simp add: hop_payload_def)

lemma rho_stream_length: "lengths_ok on \<Longrightarrow> length (rho_stream on secrets i) = M_SZ_STREAM_BYTES"
  by (simp add: lengths_ok_def rho_stream_def)

text \<open>The header before the filler has been put in, and the header in terms of the one behind it.\<close>

definition layer :: "onion_env \<Rightarrow> ln_hop_datain_t list \<Rightarrow> bytes list \<Rightarrow> nat \<Rightarrow> bytes \<Rightarrow> bytes \<Rightarrow> bytes" where
  "layer on hops secrets lp mac mix =
     xor_bytes (hop_payload (hops ! lp) mac @ take (M_SZ_ROUTING_INFO - M_SZ_HOP_DATA) mix)
       (take M_SZ_ROUTING_INFO (rho_stream on secrets lp))"

lemma header_at_step:
  assumes "lp < length hops"
  shows "fst (header_at on assoc hops secrets lp) =
      (let l = layer on hops secrets lp (next_mac on assoc hops secrets lp) (fst (header_at on assoc hops secrets (Suc lp)));
           filler = generate_header_padding on (length hops) secrets in
       if lp = length hops - 1 then take (M_SZ_ROUTING_INFO - length filler) l @ filler else l)"
    and "snd (header_at on assoc hops secrets lp) = on_mac on (generate_key on MU (secrets ! lp))
      (fst (header_at on assoc hops secrets lp) @ assoc)"
  using upt_conv_Cons [OF assms]
  by (simp_all add: header_at_def wrap_hop_def layer_def rho_stream_def right_shift_def split_beta Let_def)

lemma header_at_end: "header_at on assoc hops secrets (length hops) = (replicate M_SZ_ROUTING_INFO 0, replicate M_SZ_HMAC 0)"
  by (simp add: header_at_def)

lemma length_padding:
  assumes "lengths_ok on" "hops \<noteq> []" "length hops \<le> LN_HOP_MAX"
  shows "length (generate_header_padding on (length hops) secrets) = M_SZ_HOP_DATA * (length hops - 1)"
    "M_SZ_HOP_DATA * (length hops - 1) \<le> M_SZ_ROUTING_INFO - M_SZ_HOP_DATA"
  using assms generate_header_padding_eq [of on secrets "length hops"]
    length_left_behind [of "rho_stream on secrets" "length hops - 1"]
  by (simp_all add: rho_stream_length)

lemma length_layer:
  "lengths_ok on \<Longrightarrow> length mac = M_SZ_HMAC \<Longrightarrow> length mix = M_SZ_ROUTING_INFO \<Longrightarrow>
     length (layer on hops secrets lp mac mix) = M_SZ_ROUTING_INFO"
  by (simp add: layer_def length_hop_payload rho_stream_length)

lemma header_lengths:
  assumes "lengths_ok on" "length hops \<le> LN_HOP_MAX" "lp \<le> length hops"
  shows "length (fst (header_at on assoc hops secrets lp)) = M_SZ_ROUTING_INFO \<and>
    length (snd (header_at on assoc hops secrets lp)) = M_SZ_HMAC"
  using assms(3)
proof (induction lp rule: inc_induct)
  case base
  then show ?case by (simp add: header_at_end)
next
  case (step lp)
  then have "hops \<noteq> []" by auto
  note pad = length_padding(1) [OF assms(1) this assms(2), of secrets] length_padding(2) [OF assms(1) this assms(2)]
  have mac: "length (on_mac on k d) = M_SZ_HMAC" for k d using assms(1) by (simp add: lengths_ok_def)
  have "length (layer on hops secrets lp (next_mac on assoc hops secrets lp)
      (fst (header_at on assoc hops secrets (Suc lp)))) = M_SZ_ROUTING_INFO"
    using step.IH by (intro length_layer assms(1)) simp_all
  then have "length (fst (header_at on assoc hops secrets lp)) = M_SZ_ROUTING_INFO"
    using pad unfolding header_at_step(1) [OF step.hyps(2)] Let_def by auto
  then show ?case using mac header_at_step(2) [OF step.hyps(2)] by simp
qed

text \<open>The end of a header is what the nodes before have left behind.\<close>

lemma header_tail:
  assumes "lengths_ok on" "length hops \<le> LN_HOP_MAX" "lp < length hops"
  shows "drop (M_SZ_ROUTING_INFO - M_SZ_HOP_DATA * lp) (fst (header_at on assoc hops secrets lp)) =
    left_behind (rho_stream on secrets) lp"
proof -
  have "lp \<le> length hops - 1" using assms(3) by simp
  then show ?thesis
  proof (induction lp rule: inc_induct)
    case base
    have "hops \<noteq> []" using assms(3) by auto
    note pad = length_padding(1) [OF assms(1) this assms(2), of secrets] length_padding(2) [OF assms(1) this assms(2)]
    have "length (layer on hops secrets (length hops - 1) (next_mac on assoc hops secrets (length hops - 1))
        (fst (header_at on assoc hops secrets (Suc (length hops - 1))))) = M_SZ_ROUTING_INFO"
      using header_lengths [OF assms(1,2)] assms(3) by (intro length_layer assms(1)) simp_all
    then show ?case
      using pad assms(3) \<open>hops \<noteq> []\<close> header_at_step(1) [of "length hops - 1" hops on assoc secrets]
        generate_header_padding_eq [of on secrets "length hops"] assms(1,2)
      by (simp add: Let_def rho_stream_length)
  next
    case (step lp)
    let ?S = "rho_stream on secrets" and ?m = "fst (header_at on assoc hops secrets (Suc lp))"
    have ln: "length ?m = M_SZ_ROUTING_INFO" "length (next_mac on assoc hops secrets lp) = M_SZ_HMAC"
      using header_lengths [OF assms(1,2)] step by simp_all
    have "fst (header_at on assoc hops secrets lp) = layer on hops secrets lp (next_mac on assoc hops secrets lp) ?m"
      using step header_at_step(1) [of lp hops on assoc secrets] by simp
    moreover define y where "y = take (M_SZ_HOP_DATA * lp) (drop (M_SZ_ROUTING_INFO - M_SZ_HOP_DATA * lp) (?S lp))"
    moreover have lp: "lp \<le> 18" using step assms(2) by simp
    moreover have "drop (M_SZ_ROUTING_INFO - M_SZ_HOP_DATA * lp) (take M_SZ_ROUTING_INFO (?S lp)) = y"
      using lp by (simp add: y_def drop_take)
    moreover have "drop (M_SZ_ROUTING_INFO - M_SZ_HOP_DATA * lp)
        (hop_payload (hops ! lp) (next_mac on assoc hops secrets lp) @ take (M_SZ_ROUTING_INFO - M_SZ_HOP_DATA) ?m) =
        take (M_SZ_HOP_DATA * lp) (left_behind ?S (Suc lp))"
    proof -
      have "M_SZ_ROUTING_INFO - M_SZ_HOP_DATA * lp - M_SZ_HOP_DATA = M_SZ_ROUTING_INFO - M_SZ_HOP_DATA * Suc lp"
        "M_SZ_ROUTING_INFO - M_SZ_HOP_DATA - (M_SZ_ROUTING_INFO - M_SZ_HOP_DATA * Suc lp) = M_SZ_HOP_DATA * lp"
        "M_SZ_HOP_DATA \<le> M_SZ_ROUTING_INFO - M_SZ_HOP_DATA * lp"
        using lp by simp_all
      then show ?thesis
        using step.IH length_hop_payload [OF ln(2), of "hops ! lp"] by (simp only: drop_append drop_take) (simp del: left_behind.simps)
    qed
    moreover have "take (M_SZ_HOP_DATA * lp) (left_behind ?S (Suc lp)) = xor_bytes (left_behind ?S lp) y"
      using length_left_behind [of ?S lp] rho_stream_length [OF assms(1)] lp
      by (simp add: take_xor_bytes y_def diff_mult_distrib mult.commute)
    moreover have "length (left_behind ?S lp) \<le> length y"
      using length_left_behind [of ?S lp] rho_stream_length [OF assms(1)] lp by (simp add: y_def)
    ultimately show ?case by (simp only: layer_def drop_xor_bytes xor_bytes_cancel)
  qed
qed

text \<open>What a node sees when it has added its stream.\<close>

definition unwrapped :: "onion_env \<Rightarrow> bytes \<Rightarrow> ln_hop_datain_t list \<Rightarrow> bytes list \<Rightarrow> nat \<Rightarrow> bytes" where
  "unwrapped on assoc hops secrets lp =
     xor_bytes (fst (header_at on assoc hops secrets lp)) (take M_SZ_ROUTING_INFO (rho_stream on secrets lp)) @
     drop M_SZ_ROUTING_INFO (rho_stream on secrets lp)"

lemma unwrapped_payload:
  assumes "lengths_ok on" "length hops \<le> LN_HOP_MAX" "lp < length hops"
  shows "take M_SZ_HOP_DATA (unwrapped on assoc hops secrets lp) =
    hop_payload (hops ! lp) (next_mac on assoc hops secrets lp)"
proof -
  let ?mac = "next_mac on assoc hops secrets lp" and ?m = "fst (header_at on assoc hops secrets (Suc lp))"
  let ?s = "take M_SZ_ROUTING_INFO (rho_stream on secrets lp)"
  have ln: "length ?m = M_SZ_ROUTING_INFO" "length ?mac = M_SZ_HMAC" "length (fst (header_at on assoc hops secrets lp)) = M_SZ_ROUTING_INFO"
    using header_lengths [OF assms(1,2)] assms(3) by simp_all
  have s: "length ?s = M_SZ_ROUTING_INFO" by (simp add: rho_stream_length [OF assms(1), simplified])
  have "hops \<noteq> []" using assms(3) by auto
  note pad = length_padding(1) [OF assms(1) this assms(2), of secrets] length_padding(2) [OF assms(1) this assms(2)]
  have l: "length (layer on hops secrets lp ?mac ?m) = M_SZ_ROUTING_INFO"
    by (rule length_layer [OF assms(1) ln(2,1)])
  have "take M_SZ_HOP_DATA (fst (header_at on assoc hops secrets lp)) = take M_SZ_HOP_DATA (layer on hops secrets lp ?mac ?m)"
    using pad l header_at_step(1) [OF assms(3), of on assoc secrets] by (auto simp: Let_def)
  then have "take M_SZ_HOP_DATA (unwrapped on assoc hops secrets lp) =
      xor_bytes (take M_SZ_HOP_DATA (layer on hops secrets lp ?mac ?m)) (take M_SZ_HOP_DATA ?s)"
    using ln(3) s by (simp add: unwrapped_def take_xor_bytes)
  also have "\<dots> = xor_bytes (xor_bytes (hop_payload (hops ! lp) ?mac) (take M_SZ_HOP_DATA ?s)) (take M_SZ_HOP_DATA ?s)"
    using length_hop_payload [OF ln(2), of "hops ! lp"] by (simp add: layer_def take_xor_bytes)
  also have "\<dots> = hop_payload (hops ! lp) ?mac"
    using length_hop_payload [OF ln(2), of "hops ! lp"] s by (intro xor_bytes_cancel) simp
  finally show ?thesis .
qed

lemma unwrapped_next:
  assumes "lengths_ok on" "length hops \<le> LN_HOP_MAX" "Suc lp < length hops"
  shows "drop M_SZ_HOP_DATA (unwrapped on assoc hops secrets lp) = fst (header_at on assoc hops secrets (Suc lp))"
proof -
  let ?mac = "next_mac on assoc hops secrets lp" and ?m = "fst (header_at on assoc hops secrets (Suc lp))"
  let ?S = "rho_stream on secrets" and ?k = "M_SZ_ROUTING_INFO - M_SZ_HOP_DATA"
  have ln: "length ?m = M_SZ_ROUTING_INFO" "length ?mac = M_SZ_HMAC"
    using header_lengths [OF assms(1,2)] assms(3) by simp_all
  have s: "length (?S lp) = M_SZ_STREAM_BYTES" by (rule rho_stream_length [OF assms(1)])
  have lp: "lp < length hops" "lp \<noteq> length hops - 1" "lp \<le> 18" using assms(2,3) by auto
  have "fst (header_at on assoc hops secrets lp) = layer on hops secrets lp ?mac ?m"
    using header_at_step(1) [OF lp(1), of on assoc secrets] lp(2) by simp
  then have "drop M_SZ_HOP_DATA (unwrapped on assoc hops secrets lp) =
      drop M_SZ_HOP_DATA (hop_payload (hops ! lp) ?mac @ take ?k ?m) @ drop M_SZ_ROUTING_INFO (?S lp)"
    using ln(1) length_hop_payload [OF ln(2), of "hops ! lp"] s
    by (simp add: unwrapped_def layer_def xor_bytes_cancel)
  also have "\<dots> = take ?k ?m @ drop M_SZ_ROUTING_INFO (?S lp)"
    using length_hop_payload [OF ln(2), of "hops ! lp"] by simp
  also have "drop M_SZ_ROUTING_INFO (?S lp) = drop ?k ?m"
  proof -
    have "drop ?k ?m = drop (M_SZ_HOP_DATA * lp) (drop (M_SZ_ROUTING_INFO - M_SZ_HOP_DATA * Suc lp) ?m)"
      using lp(3) by simp
    also have "\<dots> = drop (M_SZ_HOP_DATA * lp) (left_behind ?S (Suc lp))"
      using header_tail [OF assms(1,2), of "Suc lp" assoc secrets] assms(3) by simp
    also have "\<dots> = drop M_SZ_ROUTING_INFO (?S lp)"
      using length_left_behind [of ?S lp] rho_stream_length [OF assms(1)] lp(3) s
      by (simp add: drop_xor_bytes xor_bytes_zero diff_mult_distrib mult.commute)
    finally show ?thesis by simp
  qed
  finally show ?thesis by simp
qed

section \<open>A packet on its route\<close>

definition packet_at :: "onion_env \<Rightarrow> bytes \<Rightarrow> ln_hop_datain_t list \<Rightarrow> bytes list \<Rightarrow> bytes list \<Rightarrow> nat \<Rightarrow> bytes" where
  "packet_at on assoc hops eph secrets lp =
     [M_VERSION] @ eph ! lp @ fst (header_at on assoc hops secrets lp) @ snd (header_at on assoc hops secrets lp)"

lemma read_packet_eq:
  assumes "length e = BTC_SZ_PUBKEY" "length r = M_SZ_ROUTING_INFO" "length h = M_SZ_HMAC" "on_chkpub on e"
    and "onion_shared_secret on e x = s" "on_mac on (generate_key on MU s) (r @ assoc) = h"
    and "xor_bytes r (take M_SZ_ROUTING_INFO (on_stream on (generate_key on RHO s) M_SZ_STREAM_BYTES)) @
      drop M_SZ_ROUTING_INFO (on_stream on (generate_key on RHO s) M_SZ_STREAM_BYTES) = hop_payload dat mac @ rest"
    and "length mac = M_SZ_HMAC"
  shows "ln_onion_read_packet on x ([M_VERSION] @ e @ r @ h) assoc =
    Inr (Onion_Ok \<lparr>b_exit = list_all (\<lambda>b. b = 0) mac,
        hop_short_channel_id = in_short_channel_id dat, amt_to_forward = in_amt_to_forward dat,
        outgoing_cltv_value = in_outgoing_cltv_value dat\<rparr>
      ([M_VERSION] @ blind_group_element on (on_junk on) e (compute_blinding_factor on e s) @
        take M_SZ_ROUTING_INFO rest @ mac) s)"
proof -
  have mac: "take M_SZ_HMAC (drop (M_SZ_HOP_DATA - M_SZ_HMAC) (hop_payload dat mac @ rest)) = mac"
    "drop M_SZ_HOP_DATA (hop_payload dat mac @ rest) = rest"
    using assms(8) length_hop_payload [OF assms(8)] by (simp_all add: hop_payload_def)
  have "ln_onion_read_packet on x ([M_VERSION] @ e @ r @ h) assoc =
      read_hop_data on M_VERSION e s (hop_payload dat mac @ rest)"
    using assms(1-6) assms(7) [simplified] unfolding ln_onion_read_packet_def Let_def
    by (simp add: wire cong: if_cong)
  also have "\<dots> = Inr (Onion_Ok \<lparr>b_exit = list_all (\<lambda>b. b = 0) mac,
        hop_short_channel_id = in_short_channel_id dat, amt_to_forward = in_amt_to_forward dat,
        outgoing_cltv_value = in_outgoing_cltv_value dat\<rparr>
      ([M_VERSION] @ blind_group_element on (on_junk on) e (compute_blinding_factor on e s) @
        take M_SZ_ROUTING_INFO rest @ mac) s)"
    unfolding read_hop_data_def Let_def mac by (simp add: hop_payload_def wire)
  finally show ?thesis .
qed

lemma read_hop:
  assumes "lengths_ok on" "length hops \<le> LN_HOP_MAX" "lp < length hops"
    and "on_chkpub on (eph ! lp)" "length (eph ! lp) = BTC_SZ_PUBKEY" "onion_shared_secret on (eph ! lp) x = secrets ! lp"
  shows "ln_onion_read_packet on x (packet_at on assoc hops eph secrets lp) assoc =
    Inr (Onion_Ok \<lparr>b_exit = list_all (\<lambda>b. b = 0) (next_mac on assoc hops secrets lp),
        hop_short_channel_id = in_short_channel_id (hops ! lp), amt_to_forward = in_amt_to_forward (hops ! lp),
        outgoing_cltv_value = in_outgoing_cltv_value (hops ! lp)\<rparr>
      ([M_VERSION] @ blind_group_element on (on_junk on) (eph ! lp) (compute_blinding_factor on (eph ! lp) (secrets ! lp)) @
        take M_SZ_ROUTING_INFO (drop M_SZ_HOP_DATA (unwrapped on assoc hops secrets lp)) @ next_mac on assoc hops secrets lp)
      (secrets ! lp))"
proof -
  let ?mac = "next_mac on assoc hops secrets lp" and ?plain = "unwrapped on assoc hops secrets lp"
  have ln: "length (fst (header_at on assoc hops secrets lp)) = M_SZ_ROUTING_INFO"
    "length (snd (header_at on assoc hops secrets lp)) = M_SZ_HMAC" "length ?mac = M_SZ_HMAC"
    using header_lengths [OF assms(1,2)] assms(3) by simp_all
  have plain: "?plain = hop_payload (hops ! lp) ?mac @ drop M_SZ_HOP_DATA ?plain"
    using unwrapped_payload [OF assms(1-3)] append_take_drop_id by metis
  have unw: "xor_bytes (fst (header_at on assoc hops secrets lp)) (take M_SZ_ROUTING_INFO
      (on_stream on (generate_key on RHO (secrets ! lp)) M_SZ_STREAM_BYTES)) @
      drop M_SZ_ROUTING_INFO (on_stream on (generate_key on RHO (secrets ! lp)) M_SZ_STREAM_BYTES) = ?plain"
    by (simp only: unwrapped_def rho_stream_def)
  show ?thesis
    unfolding packet_at_def
    by (rule read_packet_eq [OF assms(5) ln(1,2) assms(4,6) header_at_step(2) [OF assms(3), symmetric]
        trans [OF unw plain] ln(3)])
qed

lemma sphinx_lengths_ok: "sphinx_laws on scalar \<Longrightarrow> lengths_ok on"
  by (simp add: sphinx_laws_def lengths_ok_def)

text \<open>
  C4: the sender of a payment creates one packet; every node of the route reads from its packet, with its
  own key, exactly the channel, amount and expiry that the sender has written for it and the
  secret that the sender shares with it, and the packet that it passes on is the one that the
  next node expects. The last node, and no other unless a code of authentication is zero, is told so.
\<close>

theorem onion_delivered:
  assumes laws: "sphinx_laws on scalar" and hops: "hops \<noteq> []" "length hops \<le> LN_HOP_MAX" "length assoc \<le> 66"
    and priv: "scalar session" "\<forall>i<length hops. scalar (privs ! i) \<and> on_priv2pub on (privs ! i) = Some (in_pubkey (hops ! i))"
    and blind: "\<forall>f\<in>set (snd (snd (hop_keys on session (map in_pubkey hops)))). scalar f"
  shows "\<exists>packets secrets. length packets = length hops \<and> length secrets = length hops \<and>
    ln_onion_create_packet on hops session assoc = Inr (packets ! 0, concat secrets) \<and>
    (\<forall>i<length hops. \<exists>next_packet.
      ln_onion_read_packet on (privs ! i) (packets ! i) assoc = Inr (Onion_Ok
        \<lparr>b_exit = list_all (\<lambda>b. b = 0) (drop (1 + BTC_SZ_PUBKEY + M_SZ_ROUTING_INFO) next_packet),
         hop_short_channel_id = in_short_channel_id (hops ! i), amt_to_forward = in_amt_to_forward (hops ! i),
         outgoing_cltv_value = in_outgoing_cltv_value (hops ! i)\<rparr> next_packet (secrets ! i)) \<and>
      (Suc i < length hops \<longrightarrow> next_packet = packets ! Suc i) \<and>
      (Suc i = length hops \<longrightarrow> list_all (\<lambda>b. b = 0) (drop (1 + BTC_SZ_PUBKEY + M_SZ_ROUTING_INFO) next_packet)))"
proof -
  let ?n = "length hops"
  note ok = sphinx_lengths_ok [OF laws]
  obtain eph shd bl where keys: "hop_keys on session (map in_pubkey hops) = (eph, shd, bl)" by (metis prod_cases3)
  define packets where "packets = map (packet_at on assoc hops eph shd) [0..<?n]"
  have ne: "map in_pubkey hops \<noteq> []" using hops(1) by simp
  note spec = hop_keys_spec [OF keys ne]
  have agree: "on_chkpub on (eph ! i) \<and> length (eph ! i) = BTC_SZ_PUBKEY \<and> onion_shared_secret on (eph ! i) (privs ! i) = shd ! i"
    if "i < ?n" for i
    using hop_keys_agree [OF laws keys priv(1), of i "privs ! i"] that priv(2) blind keys by simp
  have create: "ln_onion_create_packet on hops session assoc = Inr (packets ! 0, concat shd)"
    using hops by (simp add: ln_onion_create_packet_def keys packets_def packet_at_def header_at_def split_beta Let_def)
  have "\<exists>next_packet. ln_onion_read_packet on (privs ! i) (packets ! i) assoc = Inr (Onion_Ok
        \<lparr>b_exit = list_all (\<lambda>b. b = 0) (drop (1 + BTC_SZ_PUBKEY + M_SZ_ROUTING_INFO) next_packet),
         hop_short_channel_id = in_short_channel_id (hops ! i), amt_to_forward = in_amt_to_forward (hops ! i),
         outgoing_cltv_value = in_outgoing_cltv_value (hops ! i)\<rparr> next_packet (shd ! i)) \<and>
      (Suc i < ?n \<longrightarrow> next_packet = packets ! Suc i) \<and>
      (Suc i = ?n \<longrightarrow> list_all (\<lambda>b. b = 0) (drop (1 + BTC_SZ_PUBKEY + M_SZ_ROUTING_INFO) next_packet))"
    if i: "i < ?n" for i
  proof -
    let ?mac = "next_mac on assoc hops shd i"
    define e where "e = blind_group_element on (on_junk on) (eph ! i) (bl ! i)"
    define r where "r = take M_SZ_ROUTING_INFO (drop M_SZ_HOP_DATA (unwrapped on assoc hops shd i))"
    have "bl ! i \<in> set bl" using spec(3) i by simp
    then have bl: "scalar (bl ! i)" "bl ! i = compute_blinding_factor on (eph ! i) (shd ! i)"
      using blind keys spec(5) [of i] i by simp_all
    have "length e = BTC_SZ_PUBKEY" unfolding e_def using sphinx_blind(2) [OF laws _ bl(1)] agree [OF i] by blast
    moreover have "length r = M_SZ_ROUTING_INFO"
      using header_lengths [OF ok hops(2), of i] rho_stream_length [OF ok] i by (simp add: r_def unwrapped_def)
    ultimately have drop: "drop (1 + BTC_SZ_PUBKEY + M_SZ_ROUTING_INFO) ([M_VERSION] @ e @ r @ ?mac) = ?mac" by simp
    have "[M_VERSION] @ e @ r @ ?mac = packets ! Suc i" if "Suc i < ?n"
      using that unwrapped_next [OF ok hops(2) that, of assoc shd] spec(6) [of i] header_lengths [OF ok hops(2), of "Suc i"]
      by (simp add: packets_def packet_at_def e_def r_def)
    moreover have "list_all (\<lambda>b. b = 0) ?mac" if "Suc i = ?n"
      using that by (simp add: header_at_end list_all_iff)
    ultimately show ?thesis
      using read_hop [OF ok hops(2) i, where x = "privs ! i" and eph = eph and secrets = shd and assoc = assoc] agree [OF i] i bl(2) drop
      by (intro exI [of _ "[M_VERSION] @ e @ r @ ?mac"]) (simp only: e_def r_def packets_def nth_map nth_upt length_upt, simp)
  qed
  moreover have "length packets = ?n" "length shd = ?n" using spec(2) by (simp_all add: packets_def)
  ultimately show ?thesis using create by blast
qed

section \<open>A failure on its way back\<close>

text \<open>What the node \<open>k\<close> sends, and what the nodes before it make of it.\<close>

fun failure_back :: "onion_env \<Rightarrow> bytes list \<Rightarrow> bytes \<Rightarrow> bytes c_result" where
  "failure_back on [] p = Inr p"
| "failure_back on (ss # sss) p = bind_c (failure_back on sss p) (ln_onion_failure_forward on ss)"

definition failure_body :: "bytes \<Rightarrow> bytes" where
  "failure_body reason = be16 (of_nat (length reason)) @ reason @ be16 (of_nat (FAILURE_DATALEN - length reason)) @
     replicate (FAILURE_DATALEN - length reason) 0"

definition failure_plain :: "onion_env \<Rightarrow> bytes \<Rightarrow> bytes \<Rightarrow> bytes" where
  "failure_plain on ss reason = on_mac on (generate_key on UM ss) (failure_body reason) @ failure_body reason"

lemma all_zero_replicate: "all_zero (replicate n 0 @ r) n = Inr True"
  by (induction n) simp_all

lemma failure_match_plain:
  assumes "lengths_ok on" "length reason < FAILURE_DATALEN"
  shows "failure_match on ss (failure_plain on ss reason) = Inr (Some (Some reason))"
proof -
  obtain n where n: "FAILURE_DATALEN - length reason = n" "length reason + n = 256" "n < 2 ^ 16" "length reason < 2 ^ 16"
    using assms(2) by auto
  then have "unat (of_nat n :: u16) = n" "unat (of_nat (length reason) :: u16) = length reason" by simp_all
  then show ?thesis
    using assms n(2) all_zero_replicate [of n "[]"]
    unfolding failure_plain_def failure_body_def n(1)
    by (simp add: failure_match_def lengths_ok_def wire del: of_nat_add)
qed

lemma forward_forward:
  assumes "lengths_ok on" "length ss = 32"
  shows "ln_onion_failure_forward on ss p = Inr (xor_bytes p (on_stream on (generate_key on AMMAG ss) (length p)))"
    "bind_c (ln_onion_failure_forward on ss p) (ln_onion_failure_forward on ss) = Inr p"
  using assms xor_bytes_cancel [of p "on_stream on (generate_key on AMMAG ss) (length p)"]
  by (auto simp: ln_onion_failure_forward_def with_secret_def lengths_ok_def)

lemma failure_create_eq:
  "length reason \<le> FAILURE_DATALEN \<Longrightarrow> length ss = 32 \<Longrightarrow>
     ln_onion_failure_create on ss reason = ln_onion_failure_forward on ss (failure_plain on ss reason)"
  by (auto simp: ln_onion_failure_create_def with_secret_def failure_plain_def failure_body_def Let_def)

lemma take_drop_concat:
  "\<forall>s\<in>set sss. length s = k \<Longrightarrow> lp < length sss \<Longrightarrow> take k (drop (k * lp) (concat sss)) = sss ! lp"
proof (induction sss arbitrary: lp)
  case (Cons s sss)
  then show ?case by (cases lp) simp_all
qed simp

lemma split_secrets_concat:
  assumes "\<forall>s\<in>set sss. length s = 32"
  shows "split_secrets (concat sss) = sss"
proof -
  have "length (concat sss) = 32 * length sss" using assms by (induction sss) auto
  then show ?thesis
    using take_drop_concat [OF assms] by (auto simp: split_secrets_def intro: nth_equalityI)
qed

lemma failure_read_loop_back:
  assumes "lengths_ok on" "\<forall>s\<in>set sss. length s = 32" "k < length sss" "length reason < FAILURE_DATALEN"
    and "ln_onion_failure_create on (sss ! k) reason = Inr c"
    and "\<forall>j<k. \<forall>q. failure_back on (drop (Suc j) (take k sss)) c = Inr q \<longrightarrow> failure_match on (sss ! j) q = Inr None"
  shows "\<exists>p. failure_back on (take k sss) c = Inr p \<and> failure_read_loop on lp sss p = Inr (Some (lp + k, reason))"
  using assms(2,3,5,6)
proof (induction sss arbitrary: k lp)
  case (Cons s sss)
  have s: "length s = 32" using Cons.prems(1) by simp
  show ?case
  proof (cases k)
    case 0
    then have "bind_c (ln_onion_failure_forward on s c) Inr = Inr (failure_plain on s reason)"
      using Cons.prems(3) forward_forward [OF assms(1) s] failure_create_eq [of reason s on] assms(4) s
      by (auto simp: bind_c_Inr_iff)
    then show ?thesis
      using 0 failure_match_plain [OF assms(1,4), of s] by (auto simp: bind_c_Inr_iff)
  next
    case (Suc k')
    have step: "\<forall>j<k'. \<forall>q. failure_back on (drop (Suc j) (take k' sss)) c = Inr q \<longrightarrow> failure_match on (sss ! j) q = Inr None"
    proof (intro allI impI)
      fix j q assume "j < k'" "failure_back on (drop (Suc j) (take k' sss)) c = Inr q"
      then show "failure_match on (sss ! j) q = Inr None"
        using Cons.prems(4) [rule_format, of "Suc j" q] Suc by simp
    qed
    obtain q where q: "failure_back on (take k' sss) c = Inr q"
        "failure_read_loop on (Suc lp) sss q = Inr (Some (Suc lp + k', reason))"
      using Cons.IH [of k' "Suc lp"] Cons.prems(1-3) step Suc by auto
    obtain p where p: "ln_onion_failure_forward on s q = Inr p" "ln_onion_failure_forward on s p = Inr q"
      using forward_forward [OF assms(1) s, of q] by auto
    have "failure_match on s q = Inr None" using Cons.prems(4) [rule_format, of 0 q] q(1) Suc by simp
    then show ?thesis using p q Suc by simp
  qed
qed simp

text \<open>
  C17: a failure is attributed: the reason that the node \<open>k\<close> of a route sends back reaches the payer, with
  the number of that node, however many nodes have added their stream on the way, unless the packet looks
  like a complete message at an earlier node.
\<close>

theorem failure_attributed:
  assumes "lengths_ok on" "\<forall>s\<in>set secrets. length s = 32" "k < length secrets" "length reason < FAILURE_DATALEN"
    and "ln_onion_failure_create on (secrets ! k) reason = Inr c"
    and "\<forall>j<k. \<forall>q. failure_back on (drop (Suc j) (take k secrets)) c = Inr q \<longrightarrow> failure_match on (secrets ! j) q = Inr None"
  shows "\<exists>p. failure_back on (take k secrets) c = Inr p \<and>
    ln_onion_failure_read on (concat secrets) p = Inr (Some (k, reason))"
  using failure_read_loop_back [OF assms, of 0] by (simp add: ln_onion_failure_read_def split_secrets_concat [OF assms(2)])

lemma all_zero_defined: "n \<le> length p \<Longrightarrow> \<exists>b. all_zero p n = Inr b"
  by (induction p n rule: all_zero.induct) auto

lemma failure_match_defined:
  assumes "292 \<le> length out"
  shows "\<exists>m. failure_match on ss out = Inr m"
proof -
  have "32 \<le> length out" using assms by simp
  then obtain hmac body where body: "out = hmac @ body" "length hmac = 32" by (metis length_ge_append_conv)
  then have "2 \<le> length body" using assms by simp
  then obtain ln p where out: "body = be16 ln @ p" using be16_cases by blast
  then have p: "258 \<le> length p" using assms body by simp
  show ?thesis
  proof (cases "unat ln < FAILURE_DATALEN")
    case True
    then have "unat ln \<le> length p" using p by simp
    then obtain reason q where q: "p = reason @ q" "length reason = unat ln" by (metis length_ge_append_conv)
    then have "2 \<le> length q" using True p by simp
    then obtain pad r where r: "q = be16 pad @ r" using be16_cases by blast
    have "\<exists>b. all_zero r (unat pad) = Inr b" if "unat ln + unat pad = FAILURE_DATALEN"
      using that p q r by (intro all_zero_defined) simp
    then show ?thesis
      using True body(2) q(2) unfolding body(1) out q(1) r
      by (cases "unat ln + unat pad = FAILURE_DATALEN") (auto simp: failure_match_def wire)
  next
    case False
    then show ?thesis using body(2) by (simp add: failure_match_def body(1) out wire)
  qed
qed

lemma failure_read_loop_defined:
  "lengths_ok on \<Longrightarrow> \<forall>s\<in>set sss. length s = 32 \<Longrightarrow> 292 \<le> length p \<Longrightarrow> \<exists>r. failure_read_loop on lp sss p = Inr r"
proof (induction sss arbitrary: lp p)
  case (Cons s sss)
  have s: "length s = 32" using Cons.prems(2) by simp
  let ?q = "xor_bytes p (on_stream on (generate_key on AMMAG s) (length p))"
  have "length ?q = length p" using Cons.prems(1) by (simp add: lengths_ok_def)
  then have "\<exists>m. failure_match on s ?q = Inr m" "\<And>l. \<exists>r. failure_read_loop on l sss ?q = Inr r"
    using failure_match_defined [of ?q on s] Cons by simp_all
  then show ?case
    using forward_forward(1) [OF Cons.prems(1) s, of p] by (auto split: option.splits)
qed simp

text \<open>
  \<^verbatim>\<open>ln_onion_failure_read\<close> does not look at the length of what the peer has sent: it reads behind a packet of
  less than 34 bytes, and stays within one of the 292 bytes that \<^verbatim>\<open>ln_onion_failure_create\<close> makes.
\<close>

theorem failure_read_overrun:
  assumes "lengths_ok on" "\<forall>s\<in>set secrets. length s = 32" "secrets \<noteq> []"
  shows "(length p < 34 \<longrightarrow> ln_onion_failure_read on (concat secrets) p = Inl Read_Overrun) \<and>
    (292 \<le> length p \<longrightarrow> (\<exists>r. ln_onion_failure_read on (concat secrets) p = Inr r))"
proof (intro conjI impI)
  assume p: "length p < 34"
  obtain s sss where sss: "secrets = s # sss" using assms(3) by (cases secrets) auto
  let ?q = "xor_bytes p (on_stream on (generate_key on AMMAG s) (length p))"
  have "length ?q = length p" using assms(1) by (simp add: lengths_ok_def)
  then have "length (drop 32 ?q) < 2" using p by simp
  then have "ln_misc_get16be (drop 32 ?q) = Inl Read_Overrun"
    by (cases "drop 32 ?q" rule: ln_misc_get16be.cases) simp_all
  then have "failure_match on s ?q = Inl Read_Overrun"
    by (simp add: failure_match_def get_bytes_def get_u16_def del: length_xor_bytes)
  then show "ln_onion_failure_read on (concat secrets) p = Inl Read_Overrun"
    using forward_forward(1) [OF assms(1), of s p] assms(2) sss
    unfolding ln_onion_failure_read_def split_secrets_concat [OF assms(2)] by simp
next
  assume "292 \<le> length p"
  then show "\<exists>r. ln_onion_failure_read on (concat secrets) p = Inr r"
    using failure_read_loop_defined [OF assms(1,2)]
    by (simp add: ln_onion_failure_read_def split_secrets_concat [OF assms(2)])
qed

text \<open>
  C37: when the daemon of a node cannot tell the height of the block chain, the node fails an HTLC with an
  empty reason. A payer that runs this program decodes it, and then follows a NULL pointer to read the code
  of the failure.
\<close>

theorem empty_reason_crashes_payer:
  assumes "idx < length (cnl_add_htlc self)" "block_count env \<le> 0"
    and "onion_read env (buf_onion_reason (cnl_add_htlc self ! idx)) (payment_sha256 (cnl_add_htlc self ! idx)) =
      Onion_Ok hop onion ss"
    and "lengths_ok on" "length ss = 32" "\<forall>s\<in>set rest. length s = 32"
    and "ln_onion_failure_create on ss [] = Inr (failure_create env ss [])"
  shows "\<exists>self' code. add_htlc_bolt4 env idx self = Inr (LN_CB_ADD_HTLC_RESULT_FAIL, Some hop, [], self') \<and>
    buf_onion_reason (cnl_add_htlc (add_htlc_finish env idx LN_CB_ADD_HTLC_RESULT_FAIL (Some hop) [] self') ! idx) = code \<and>
    ln_onion_failure_read on (concat (ss # rest)) code = Inr (Some (0, [])) \<and>
    ln_onion_read_err [] = Inl Null_Deref"
proof -
  let ?self = "set_err LNERR_BITCOIND
    (upd_htlc idx (\<lambda>h. h\<lparr>buf_onion_reason := onion, buf_shared_secret := ss\<rparr>) self)"
  have "add_htlc_bolt4 env idx self = Inr (LN_CB_ADD_HTLC_RESULT_FAIL, Some hop, [], ?self)"
    using assms(2,3) by (simp add: add_htlc_bolt4_def Let_def)
  moreover have "buf_onion_reason (cnl_add_htlc (add_htlc_finish env idx LN_CB_ADD_HTLC_RESULT_FAIL (Some hop) [] ?self) ! idx) =
      failure_create env ss []"
    using assms(1) by (simp add: add_htlc_finish_def Let_def upd_htlc_def set_err_def)
  moreover have "ln_onion_failure_read on (concat (ss # rest)) (failure_create env ss []) = Inr (Some (0, []))"
    using failure_read_loop_back [OF assms(4), of "ss # rest" 0 "[]" "failure_create env ss []" 0] assms(5-7)
    by (simp add: ln_onion_failure_read_def split_secrets_concat del: concat.simps)
  ultimately show ?thesis by simp
qed

section \<open>A toy route\<close>

text \<open>Keys are their last byte, and multiplication is that of bytes.\<close>

definition toy_key :: "byte \<Rightarrow> bytes" where
  "toy_key x = 2 # replicate 31 0 @ [x]"

lemma toy_key [simp]: "last (toy_key x) = x" "length (toy_key x) = 33" "toy_key x = toy_key y \<longleftrightarrow> x = y"
  by (simp_all add: toy_key_def)

definition toy_onion :: onion_env where
  "toy_onion = \<lparr>on_sha256 = toy_hash, on_mac = (\<lambda>k d. toy_hash (k @ d)),
     on_stream = (\<lambda>k n. map (\<lambda>i. of_nat (i * i) + last k) [0..<n]),
     on_mul = (\<lambda>p a. Some (toy_key (last p * last a))),
     on_priv2pub = (\<lambda>a. Some (toy_key (last a))), on_chkpub = (\<lambda>_. True), on_junk = replicate 33 0\<rparr>"

definition toy_route :: "ln_hop_datain_t list" where
  "toy_route = map (\<lambda>(c, a, e, k). \<lparr>in_short_channel_id = c, in_amt_to_forward = a, in_outgoing_cltv_value = e,
     in_pubkey = toy_key k\<rparr>) [(11, 3000, 500, 3), (12, 2000, 490, 5), (0, 2000, 480, 7)]"

lemma toy_onion_laws: "sphinx_laws toy_onion (\<lambda>_. True)" "lengths_ok toy_onion"
proof -
  have len: "length (toy_hash d) = 32" for d by (simp add: toy_hash_def)
  have "\<exists>G. \<forall>a. on_priv2pub toy_onion a = on_mul toy_onion G a"
    by (rule exI [of _ "[1]"]) (simp add: toy_onion_def)
  then show "sphinx_laws toy_onion (\<lambda>_. True)"
    unfolding sphinx_laws_def using len by (intro conjI) (auto simp: toy_onion_def mult.commute mult.left_commute)
  then show "lengths_ok toy_onion" by (rule sphinx_lengths_ok)
qed

theorem onion_delivered_witness:
  "\<exists>packets secrets next_packet.
    ln_onion_create_packet toy_onion toy_route (replicate 32 9) (replicate 32 4) = Inr (packets ! 0, concat secrets) \<and>
    ln_onion_read_packet toy_onion (replicate 32 5) (packets ! 1) (replicate 32 4) = Inr (Onion_Ok
      \<lparr>b_exit = list_all (\<lambda>b. b = 0) (drop 1334 next_packet), hop_short_channel_id = 12,
       amt_to_forward = 2000, outgoing_cltv_value = 490\<rparr> next_packet (secrets ! 1)) \<and> next_packet = packets ! 2"
proof -
  let ?privs = "[replicate 32 3, replicate 32 5, replicate 32 7]"
  have ln: "length toy_route = 3" by (simp add: toy_route_def)
  then have route: "toy_route \<noteq> []" "length toy_route \<le> LN_HOP_MAX" "length (replicate 32 (4::byte)) \<le> 66" by auto
  have keys: "\<forall>i<length toy_route. True \<and> on_priv2pub toy_onion (?privs ! i) = Some (in_pubkey (toy_route ! i))"
    by (auto simp: toy_route_def toy_onion_def less_Suc_eq)
  obtain packets secrets where create:
      "ln_onion_create_packet toy_onion toy_route (replicate 32 9) (replicate 32 4) = Inr (packets ! 0, concat secrets)"
    and read: "\<forall>i<length toy_route. \<exists>next_packet.
      ln_onion_read_packet toy_onion (?privs ! i) (packets ! i) (replicate 32 4) = Inr (Onion_Ok
        \<lparr>b_exit = list_all (\<lambda>b. b = 0) (drop (1 + BTC_SZ_PUBKEY + M_SZ_ROUTING_INFO) next_packet),
         hop_short_channel_id = in_short_channel_id (toy_route ! i), amt_to_forward = in_amt_to_forward (toy_route ! i),
         outgoing_cltv_value = in_outgoing_cltv_value (toy_route ! i)\<rparr> next_packet (secrets ! i)) \<and>
      (Suc i < length toy_route \<longrightarrow> next_packet = packets ! Suc i) \<and>
      (Suc i = length toy_route \<longrightarrow> list_all (\<lambda>b. b = 0) (drop (1 + BTC_SZ_PUBKEY + M_SZ_ROUTING_INFO) next_packet))"
    using onion_delivered [OF toy_onion_laws(1) route TrueI keys] by blast
  have hop: "toy_route ! 1 = \<lparr>in_short_channel_id = 12, in_amt_to_forward = 2000, in_outgoing_cltv_value = 490,
      in_pubkey = toy_key 5\<rparr>" "?privs ! 1 = replicate 32 5" by (simp_all add: toy_route_def)
  have "1 < length toy_route" using ln by simp
  from read [rule_format, OF this, unfolded hop]
  obtain next_packet where "ln_onion_read_packet toy_onion (replicate 32 5) (packets ! 1) (replicate 32 4) = Inr (Onion_Ok
      \<lparr>b_exit = list_all (\<lambda>b. b = 0) (drop (1 + BTC_SZ_PUBKEY + M_SZ_ROUTING_INFO) next_packet), hop_short_channel_id = 12,
       amt_to_forward = 2000, outgoing_cltv_value = 490\<rparr> next_packet (secrets ! 1))" "next_packet = packets ! 2"
    using ln by (auto simp: numeral_2_eq_2)
  moreover have "1 + BTC_SZ_PUBKEY + M_SZ_ROUTING_INFO = 1334" by simp
  ultimately show ?thesis using create by metis
qed

definition toy_failure :: bytes where
  "toy_failure = projr (ln_onion_failure_create toy_onion (replicate 32 2) [0x10, 7])"

lemma toy_failure:
  "ln_onion_failure_create toy_onion (replicate 32 2) [0x10, 7] = Inr toy_failure"
  "failure_match toy_onion (replicate 32 1) toy_failure = Inr None"
proof -
  have "\<not> FAILURE_DATALEN < length [0x10, 7::byte]" "replicate 32 (2::byte) \<noteq> []" by simp_all
  then show "ln_onion_failure_create toy_onion (replicate 32 2) [0x10, 7] = Inr toy_failure"
    unfolding toy_failure_def
    by (simp add: ln_onion_failure_create_def ln_onion_failure_forward_def with_secret_def Let_def)
  let ?m = "failure_plain toy_onion (replicate 32 2) [0x10, 7]"
  define stream :: bytes where "stream = map (\<lambda>i. of_nat (i * i) + 2) [0..<292]"
  have m: "drop 32 ?m = be16 2 @ [0x10, 7] @ be16 254 @ replicate 254 0" "length ?m = 292"
    using toy_onion_laws(2) by (simp_all add: failure_plain_def failure_body_def lengths_ok_def)
  have "last (generate_key toy_onion AMMAG (replicate 32 2)) = 2"
    by (simp add: generate_key_def toy_onion_def toy_hash_def AMMAG_def last_conv_nth nth_append)
  then have "on_stream toy_onion (generate_key toy_onion AMMAG (replicate 32 2)) 292 = stream"
    by (simp add: toy_onion_def stream_def)
  then have f: "toy_failure = xor_bytes ?m stream"
    using m(2) by (simp add: toy_failure_def failure_create_eq forward_forward [OF toy_onion_laws(2)])
  have two: "take 2 (drop 32 xs) = [xs ! 32, xs ! 33]" if "34 \<le> length xs" for xs :: bytes
    using that by (simp add: numeral_2_eq_2 take_Suc_conv_app_nth)
  have len: "length stream = 292" unfolding stream_def by (simp only: length_map length_upt diff_zero)
  have nth: "map g [0..<n] ! i = g i" if "i < n" for g :: "nat \<Rightarrow> byte" and i n using that by simp
  have "stream ! 32 = of_nat (32 * 32) + 2" "stream ! 33 = of_nat (33 * 33) + 2"
    unfolding stream_def by (rule nth, simp)+
  then have "stream ! 32 = 2" "stream ! 33 = 67" by simp_all
  then have "take 2 (drop 32 stream) = [2, 67]" using two [of stream] len by simp
  then have "take 2 (drop 32 toy_failure) = xor_bytes (be16 2) [2, 67]"
    by (simp add: f take_xor_bytes drop_xor_bytes m(1))
  also have "\<dots> = be16 0x241" by (simp add: xor_bytes_def be16_def octet_def)
  finally have "drop 32 toy_failure = be16 0x241 @ drop 2 (drop 32 toy_failure)"
    using append_take_drop_id [of 2 "drop 32 toy_failure"] by (simp only:)
  moreover have "32 \<le> length toy_failure" using m(2) len by (simp add: f)
  moreover have "failure_match toy_onion ss (h @ be16 577 @ r) = Inr None" if "length h = 32" for h r ss
    using that by (simp add: failure_match_def wire)
  ultimately show "failure_match toy_onion (replicate 32 1) toy_failure = Inr None"
    by (metis append_take_drop_id length_take min.absorb2)
qed

theorem failure_attributed_witness:
  "\<exists>p. failure_back toy_onion [replicate 32 1] toy_failure = Inr p \<and>
    ln_onion_failure_read toy_onion (concat [replicate 32 1, replicate 32 2]) p = Inr (Some (1, [0x10, 7]))"
  using failure_attributed [OF toy_onion_laws(2), of "[replicate 32 1, replicate 32 2]" 1 "[0x10, 7]" toy_failure] toy_failure
  by (simp del: concat.simps)

theorem failure_read_overrun_witness:
  "ln_onion_failure_read toy_onion (concat [replicate 32 1]) (replicate 33 0) = Inl Read_Overrun"
  using failure_read_overrun [OF toy_onion_laws(2), of "[replicate 32 1]" "replicate 33 0"] by (simp del: concat.simps)

definition toy_onion_channel :: "nat ln_env" where
  "toy_onion_channel = toy_env\<lparr>block_count := 0, failure_create := (\<lambda>ss r. projr (ln_onion_failure_create toy_onion ss r))\<rparr>"

theorem empty_reason_crashes_payer_witness:
  "\<exists>self' code. add_htlc_bolt4 toy_onion_channel 0 toy_self = Inr (LN_CB_ADD_HTLC_RESULT_FAIL, Some toy_hop, [], self') \<and>
    ln_onion_failure_read toy_onion (concat [replicate 32 3]) code = Inr (Some (0, [])) \<and> ln_onion_read_err [] = Inl Null_Deref"
proof -
  have "0 < length (cnl_add_htlc toy_self)" by (simp add: toy_self_def LN_HTLC_MAX_def)
  moreover have "block_count toy_onion_channel \<le> 0" "onion_read toy_onion_channel packet hash = Onion_Ok toy_hop packet (replicate 32 3)"
    for packet hash by (simp_all add: toy_onion_channel_def toy_env_def)
  moreover have "ln_onion_failure_create toy_onion (replicate 32 3) [] = Inr (failure_create toy_onion_channel (replicate 32 3) [])"
    by (simp add: toy_onion_channel_def ln_onion_failure_create_def ln_onion_failure_forward_def with_secret_def Let_def)
  ultimately show ?thesis
    using empty_reason_crashes_payer [of 0 toy_self toy_onion_channel toy_hop _ "replicate 32 3" toy_onion "[]"] toy_onion_laws(2)
    by (auto simp del: concat.simps)
qed

end
