(* ===== verification/Btc_Tx.thy ===== *)
theory Btc_Tx
  imports Commit_Tx "HOL-Library.While_Combinator"
begin

text \<open>
  \<^verbatim>\<open>btc/btc_tx.c\<close> and the serialiser of \<^verbatim>\<open>btc/btc_util.c\<close>: a Bitcoin transaction in memory, the
  checks of \<open>btc_tx_is_valid\<close>, the writer \<open>btcl_util_create_tx\<close> and the reader \<open>btc_tx_read\<close>.
  The reader is a loop over a position and a state number; it is kept as a \<open>while_option\<close>, so
  that not returning is the value \<open>None\<close>. The arrays \<open>vin\<close>, \<open>vout\<close> and \<open>witness\<close> are
  counted pointers: \<open>None\<close> is NULL, and a count larger than the array is an overrun. What a
  fresh block of the allocator holds is the parameter \<open>tx_fresh\<close>; the source looks at no result
  of \<open>malloc\<close> here, so the model takes every allocation (also one of no bytes, as with glibc) to
  return a block. Positions are \<open>nat\<close>: for data below 2 GiB no sum of the source wraps.
  The brake that \<open>PTARM_DEBUG\<close> adds to the loop of the reader is not part of a release build and not
  modelled.
\<close>

section \<open>Transactions in memory\<close>

record btc_vin_t =
  vi_txid :: bytes
  vi_index :: u32
  vi_script :: bytes
  vi_wit_cnt :: nat
  vi_witness :: "bytes list option"
  vi_sequence :: u32

record btc_tx_mem =
  tm_version :: u32
  tm_vin_cnt :: nat
  tm_vin :: "btc_vin_t list option"
  tm_vout_cnt :: nat
  tm_vout :: "btc_vout_t list option"
  tm_locktime :: u32

record tx_fresh =
  fr_vin :: btc_vin_t
  fr_vout :: btc_vout_t
  fr_wit :: bytes

definition BTC_TX_SEQUENCE :: u32 where "BTC_TX_SEQUENCE = 0xffffffff"

text \<open>The first \<open>n\<close> elements behind a pointer, one element, a store to one element.\<close>

definition c_array :: "'a list option \<Rightarrow> nat \<Rightarrow> 'a list c_result" where
  "c_array p n =
     (if n = 0 then Inr [] else case p of None \<Rightarrow> Inl Null_Deref
      | Some xs \<Rightarrow> if length xs < n then Inl Read_Overrun else Inr (take n xs))"

definition c_index :: "'a list option \<Rightarrow> nat \<Rightarrow> 'a c_result" where
  "c_index p i =
     (case p of None \<Rightarrow> Inl Null_Deref
      | Some xs \<Rightarrow> if i < length xs then Inr (xs ! i) else Inl Read_Overrun)"

definition c_store :: "'a list option \<Rightarrow> nat \<Rightarrow> 'a \<Rightarrow> 'a list option c_result" where
  "c_store p i v =
     (case p of None \<Rightarrow> Inl Null_Deref
      | Some xs \<Rightarrow> if i < length xs then Inr (Some (xs[i := v])) else Inl Write_Overrun)"

text \<open>\<open>n\<close> bytes from offset \<open>off\<close> of the object \<open>d\<close>.\<close>

definition c_bytes :: "bytes \<Rightarrow> nat \<Rightarrow> nat \<Rightarrow> bytes c_result" where
  "c_bytes d off n =
     (if n = 0 then Inr [] else if off + n \<le> length d then Inr (take n (drop off d))
      else Inl Read_Overrun)"

definition btc_tx_init :: btc_tx_mem where
  "btc_tx_init = \<lparr>tm_version = 2, tm_vin_cnt = 0, tm_vin = None, tm_vout_cnt = 0, tm_vout = None,
     tm_locktime = 0\<rparr>"

text \<open>
  The \<open>realloc\<close>s of \<open>btc_tx_add_vin\<close>, \<open>btc_tx_add_wit\<close> and \<open>btc_tx_add_vout\<close>: the block
  grows to \<open>n + 1\<close> elements of which the last is then written.
\<close>

definition c_grow :: "'a list option \<Rightarrow> nat \<Rightarrow> 'a \<Rightarrow> 'a list option" where
  "c_grow p n v = Some ((case p of None \<Rightarrow> [] | Some xs \<Rightarrow> take n xs) @ [v])"

definition btc_tx_add_vin :: "btc_tx_mem \<Rightarrow> bytes \<Rightarrow> u32 \<Rightarrow> btc_tx_mem" where
  "btc_tx_add_vin pTx pTxId Index =
     pTx\<lparr>tm_vin := c_grow (tm_vin pTx) (tm_vin_cnt pTx)
           \<lparr>vi_txid = take 32 pTxId, vi_index = Index, vi_script = [], vi_wit_cnt = 0,
            vi_witness = None, vi_sequence = BTC_TX_SEQUENCE\<rparr>,
         tm_vin_cnt := tm_vin_cnt pTx + 1\<rparr>"

definition btc_tx_add_wit :: "btc_vin_t \<Rightarrow> bytes \<Rightarrow> btc_vin_t" where
  \<comment> \<open>with the \<open>utl_buf_alloccopy\<close> into the new item that every caller does next\<close>
  "btc_tx_add_wit pVin item =
     pVin\<lparr>vi_witness := c_grow (vi_witness pVin) (vi_wit_cnt pVin) item,
          vi_wit_cnt := vi_wit_cnt pVin + 1\<rparr>"

definition btc_tx_add_vout_spk :: "btc_tx_mem \<Rightarrow> u64 \<Rightarrow> bytes \<Rightarrow> btc_tx_mem" where
  "btc_tx_add_vout_spk pTx Value pScriptPk =
     pTx\<lparr>tm_vout := c_grow (tm_vout pTx) (tm_vout_cnt pTx)
           \<lparr>vout_value = Value, vout_script = pScriptPk, vout_opt = 0\<rparr>,
         tm_vout_cnt := tm_vout_cnt pTx + 1\<rparr>"

section \<open>btc_tx_is_valid\<close>

datatype btc_txvalid_t =
    BTC_TXVALID_OK | BTC_TXVALID_ARG | BTC_TXVALID_VERSION | BTC_TXVALID_VIN_NONE
  | BTC_TXVALID_VIN_NULL | BTC_TXVALID_VIN_WIT_NULL | BTC_TXVALID_VIN_WIT_BAD
  | BTC_TXVALID_VOUT_NONE | BTC_TXVALID_VOUT_NULL | BTC_TXVALID_VOUT_NOPKH | BTC_TXVALID_VOUT_VALUE

definition M_OP_RETURN :: byte where "M_OP_RETURN = 0x6a"

fun vins_valid :: "btc_vin_t list \<Rightarrow> btc_txvalid_t" where
  "vins_valid [] = BTC_TXVALID_OK"
| "vins_valid (vin # vins) =
     (if 0 < vi_wit_cnt vin \<and> vi_witness vin = None then BTC_TXVALID_VIN_WIT_NULL
      else if vi_wit_cnt vin = 0 \<and> vi_witness vin \<noteq> None then BTC_TXVALID_VIN_WIT_BAD
      else vins_valid vins)"

fun vouts_valid :: "btc_vout_t list \<Rightarrow> btc_txvalid_t" where
  "vouts_valid [] = BTC_TXVALID_OK"
| "vouts_valid (vout # vouts) =
     (case vout_script vout of [] \<Rightarrow> BTC_TXVALID_VOUT_NOPKH
      | op # _ \<Rightarrow> if vout_value vout = 0 \<and> op \<noteq> M_OP_RETURN then BTC_TXVALID_VOUT_VALUE
                  else vouts_valid vouts)"

definition btc_tx_is_valid :: "btc_tx_mem option \<Rightarrow> btc_txvalid_t c_result" where
  "btc_tx_is_valid pTx =
     (case pTx of None \<Rightarrow> Inr BTC_TXVALID_ARG
      | Some tx \<Rightarrow>
          if tm_version tx = 0 then Inr BTC_TXVALID_VERSION
          else if tm_vin_cnt tx = 0 then Inr BTC_TXVALID_VIN_NONE
          else if tm_vin tx = None then Inr BTC_TXVALID_VIN_NULL
          else if tm_vout_cnt tx = 0 then Inr BTC_TXVALID_VOUT_NONE
          else if tm_vout tx = None then Inr BTC_TXVALID_VOUT_NULL
          else bind_c (c_array (tm_vin tx) (tm_vin_cnt tx)) (\<lambda>vins.
            if vins_valid vins \<noteq> BTC_TXVALID_OK then Inr (vins_valid vins)
            else bind_c (c_array (tm_vout tx) (tm_vout_cnt tx)) (\<lambda>vouts.
              Inr (vouts_valid vouts))))"

section \<open>Integers and counts on the wire\<close>

definition VARINT_3BYTE_MIN :: nat where "VARINT_3BYTE_MIN = 0xfd"

definition btcl_util_get_varint_len :: "nat \<Rightarrow> nat" where
  "btcl_util_get_varint_len Len = (if Len < VARINT_3BYTE_MIN then 1 else 3)"

text \<open>What is stored at \<open>pData\<close> and how far the caller moves on.\<close>

definition btcl_util_set_varint_len :: "bytes \<Rightarrow> nat \<Rightarrow> bool \<Rightarrow> bytes \<times> nat" where
  "btcl_util_set_varint_len pOrg Len isScript =
     (if isScript \<and> Len = 1 \<and> 1 \<le> pOrg ! 0 \<and> pOrg ! 0 \<le> 16 then ([0x50 + pOrg ! 0], 0)
      else if Len < VARINT_3BYTE_MIN then ([of_nat Len], 1)
      else ([of_nat VARINT_3BYTE_MIN, of_nat Len, of_nat (Len div 256)], 3))"

definition set_le32 :: "u32 \<Rightarrow> bytes" where
  "set_le32 val = [octet 0 val, octet 8 val, octet 16 val, octet 24 val]"

definition set_le64 :: "u64 \<Rightarrow> bytes" where
  "set_le64 val = [octet 0 val, octet 8 val, octet 16 val, octet 24 val,
                   octet 32 val, octet 40 val, octet 48 val, octet 56 val]"

definition get_varint :: "bytes \<Rightarrow> (nat \<times> nat) c_result" where
  "get_varint pData =
     (case pData of [] \<Rightarrow> Inl Read_Overrun
      | b # r \<Rightarrow> if unat b < VARINT_3BYTE_MIN then Inr (unat b, 1)
                 else bind_c (utl_int_pack_u16le r) (\<lambda>v. Inr (unat v, 3)))"

definition get_le32 :: "bytes \<Rightarrow> u32 c_result" where
  "get_le32 pData = utl_int_pack_u32le pData"

definition get_le64 :: "bytes \<Rightarrow> u64 c_result" where
  "get_le64 pData = utl_int_pack_u64le pData"

section \<open>Writing a transaction\<close>

text \<open>The first pass adds up the length, the second stores the bytes.\<close>

fun wits_len :: "bytes list \<Rightarrow> nat" where
  "wits_len [] = 0"
| "wits_len (w # ws) = length w + btcl_util_get_varint_len (length w) + wits_len ws"

definition vin_len :: "bool \<Rightarrow> btc_vin_t \<Rightarrow> nat c_result" where
  "vin_len enableSegWit vin =
     (let l = 32 + 4 + length (vi_script vin) + 4 + btcl_util_get_varint_len (length (vi_script vin)) in
      if enableSegWit \<and> vi_wit_cnt vin \<noteq> 0
      then bind_c (c_array (vi_witness vin) (vi_wit_cnt vin)) (\<lambda>ws. Inr (l + 1 + wits_len ws))
      else Inr l)"

fun vins_len :: "bool \<Rightarrow> btc_vin_t list \<Rightarrow> nat c_result" where
  "vins_len sw [] = Inr 0"
| "vins_len sw (v # vs) = bind_c (vin_len sw v) (\<lambda>n. bind_c (vins_len sw vs) (\<lambda>m. Inr (n + m)))"

definition vout_len :: "btc_vout_t \<Rightarrow> nat" where
  "vout_len vout = 8 + length (vout_script vout) + btcl_util_get_varint_len (length (vout_script vout))"

definition put_var :: "bytes \<Rightarrow> bytes" where
  \<comment> \<open>a count and the bytes it counts\<close>
  "put_var xs = fst (btcl_util_set_varint_len xs (length xs) False) @ xs"

definition put_vin :: "btc_vin_t \<Rightarrow> bytes" where
  "put_vin vin = vi_txid vin @ set_le32 (vi_index vin) @ put_var (vi_script vin) @
     set_le32 (vi_sequence vin)"

definition put_vout :: "btc_vout_t \<Rightarrow> bytes" where
  "put_vout vout = set_le64 (vout_value vout) @ put_var (vout_script vout)"

definition put_wit :: "btc_vin_t \<Rightarrow> bytes c_result" where
  "put_wit vin =
     bind_c (c_array (vi_witness vin) (vi_wit_cnt vin)) (\<lambda>ws.
       Inr (fst (btcl_util_set_varint_len [] (vi_wit_cnt vin) False) @ concat (map put_var ws)))"

fun put_wits :: "btc_vin_t list \<Rightarrow> bytes c_result" where
  "put_wits [] = Inr []"
| "put_wits (v # vs) = bind_c (put_wit v) (\<lambda>a. bind_c (put_wits vs) (\<lambda>b. Inr (a @ b)))"

text \<open>
  The stores run through the block from its start without a gap, so together they are one
  sequence of bytes, which has to fit; the function then compares where it stopped with the length.
  The length, a \<^verbatim>\<open>uint32_t\<close>, is a natural number here, which makes no difference below 4 GiB.
\<close>

definition btcl_util_create_tx :: "btc_tx_mem \<Rightarrow> bool \<Rightarrow> (bool \<times> bytes) c_result" where
  "btcl_util_create_tx pTx enableSegWit =
     bind_c (c_array (tm_vin pTx) (tm_vin_cnt pTx)) (\<lambda>vins.
     bind_c (vins_len enableSegWit vins) (\<lambda>vl.
     bind_c (c_array (tm_vout pTx) (tm_vout_cnt pTx)) (\<lambda>vouts.
       let segwit = (enableSegWit \<and> (\<exists>v\<in>set vins. vi_wit_cnt v \<noteq> 0));
           l = 4 + btcl_util_get_varint_len (tm_vin_cnt pTx) +
               btcl_util_get_varint_len (tm_vout_cnt pTx) + vl + (if segwit then 2 else 0) +
               sum_list (map vout_len vouts) + 4
       in bind_c (if segwit then put_wits vins else Inr []) (\<lambda>wits.
            let p = set_le32 (tm_version pTx) @ (if segwit then [0x00, 0x01] else []) @
                    fst (btcl_util_set_varint_len [] (tm_vin_cnt pTx) False) @
                    concat (map put_vin vins) @
                    fst (btcl_util_set_varint_len [] (tm_vout_cnt pTx) False) @
                    concat (map put_vout vouts) @ wits @ set_le32 (tm_locktime pTx)
            in if l < length p then Inl Write_Overrun else Inr (length p = l, p)))))"

definition btc_tx_create :: "btc_tx_mem \<Rightarrow> (bool \<times> bytes) c_result" where
  "btc_tx_create pTx = btcl_util_create_tx pTx True"

definition btc_tx_txid :: "(bytes \<Rightarrow> bytes) \<Rightarrow> btc_tx_mem \<Rightarrow> bytes c_result" where
  \<comment> \<open>\<open>hash256\<close>: SHA-256 twice\<close>
  "btc_tx_txid hash256 pTx =
     bind_c (btcl_util_create_tx pTx False) (\<lambda>(ret, txbuf).
       assert_c ret (Inr (hash256 txbuf)))"

section \<open>Reading a transaction\<close>

record read_st =
  rd_pos :: nat
  rd_state :: nat
  rd_cnt :: nat
  rd_tx :: btc_tx_mem

definition rd_vin_cnt :: "tx_fresh \<Rightarrow> bytes \<Rightarrow> read_st \<Rightarrow> read_st c_result" where
  "rd_vin_cnt fr d st =
     bind_c (get_varint (drop (rd_pos st) d)) (\<lambda>(var, k).
       Inr (st\<lparr>rd_pos := rd_pos st + k,
               rd_state := (if var = 0 then 2 else 1),
               rd_tx := (rd_tx st)\<lparr>tm_vin_cnt := var,
                 tm_vin := (if var = 0 then None else Some (replicate var (fr_vin fr)))\<rparr>\<rparr>))"

definition rd_vin :: "bytes \<Rightarrow> nat \<Rightarrow> read_st \<Rightarrow> read_st c_result" where
  "rd_vin d Len st =
     (let pos = rd_pos st; tx = rd_tx st in
      if pos + 41 + 1 + 4 \<le> Len then
        bind_c (get_varint (drop (pos + 36) d)) (\<lambda>(var, tmp).
        bind_c (if pos + 40 + tmp + var + 1 + 4 \<le> Len then
                  bind_c (c_bytes d pos 32) (\<lambda>txid.
                  bind_c (get_le32 (drop (pos + 32) d)) (\<lambda>index.
                  bind_c (c_bytes d (pos + 36 + tmp) var) (\<lambda>script.
                  bind_c (get_le32 (drop (pos + 36 + tmp + var) d)) (\<lambda>seq.
                  bind_c (c_store (tm_vin tx) (rd_cnt st)
                      \<lparr>vi_txid = txid, vi_index = index, vi_script = script, vi_wit_cnt = 0,
                       vi_witness = None, vi_sequence = seq\<rparr>) (\<lambda>vin.
                    Inr (st\<lparr>rd_cnt := rd_cnt st + 1, rd_pos := pos + 36 + tmp + var + 4,
                            rd_tx := tx\<lparr>tm_vin := vin\<rparr>\<rparr>))))))
                else Inr st) (\<lambda>st.
          Inr (if tm_vin_cnt (rd_tx st) \<le> rd_cnt st then st\<lparr>rd_state := 2\<rparr> else st)))
      else Inr (st\<lparr>rd_state := 2\<rparr>))"

definition rd_vout_cnt :: "tx_fresh \<Rightarrow> bool \<Rightarrow> bytes \<Rightarrow> read_st \<Rightarrow> read_st c_result" where
  "rd_vout_cnt fr segwit d st =
     bind_c (get_varint (drop (rd_pos st) d)) (\<lambda>(var, k).
       Inr (st\<lparr>rd_pos := rd_pos st + k, rd_cnt := 0,
               rd_state := (if var = 0 then (if segwit then 4 else 5) else 3),
               rd_tx := (rd_tx st)\<lparr>tm_vout_cnt := var,
                 tm_vout := (if var = 0 then None else Some (replicate var (fr_vout fr)))\<rparr>\<rparr>))"

definition rd_vout :: "bool \<Rightarrow> bytes \<Rightarrow> nat \<Rightarrow> read_st \<Rightarrow> read_st c_result" where
  "rd_vout segwit d Len st =
     (let pos = rd_pos st; tx = rd_tx st in
      if pos + 9 + 4 \<le> Len then
        bind_c (get_varint (drop (pos + 8) d)) (\<lambda>(var, tmp).
        bind_c (if pos + 8 + tmp + var + 4 \<le> Len then
                  bind_c (get_le64 (drop pos d)) (\<lambda>value.
                  bind_c (c_bytes d (pos + 8 + tmp) var) (\<lambda>script.
                  bind_c (c_index (tm_vout tx) (rd_cnt st)) (\<lambda>old.
                  bind_c (c_store (tm_vout tx) (rd_cnt st)
                      (old\<lparr>vout_value := value, vout_script := script\<rparr>)) (\<lambda>vout.
                    Inr (st\<lparr>rd_cnt := rd_cnt st + 1, rd_pos := pos + 8 + tmp + var,
                            rd_tx := tx\<lparr>tm_vout := vout\<rparr>\<rparr>)))))
                else Inr st) (\<lambda>st.
          Inr (if tm_vout_cnt (rd_tx st) \<le> rd_cnt st
               then st\<lparr>rd_state := (if segwit then 4 else 5), rd_cnt := 0\<rparr> else st)))
      else Inr (st\<lparr>rd_state := (if segwit then 4 else 5), rd_cnt := 0\<rparr>))"

text \<open>The items of one witness: item \<open>lp\<close> of \<open>ws\<close> on, \<open>n\<close> of them.\<close>

fun rd_items :: "bytes \<Rightarrow> nat \<Rightarrow> nat \<Rightarrow> nat \<Rightarrow> nat \<Rightarrow> bytes list \<Rightarrow> (nat \<times> bytes list) c_result" where
  "rd_items d Len 0 lp i ws = Inr (i, ws)"
| "rd_items d Len (Suc n) lp i ws =
     bind_c (get_varint (drop i d)) (\<lambda>(var, k).
       if i + k + var + 4 \<le> Len
       then bind_c (c_bytes d (i + k) var) (\<lambda>item.
              rd_items d Len n (Suc lp) (i + k + var) (ws[lp := item]))
       else rd_items d Len n (Suc lp) (i + k) ws)"

definition rd_witness :: "tx_fresh \<Rightarrow> bytes \<Rightarrow> nat \<Rightarrow> read_st \<Rightarrow> read_st c_result" where
  "rd_witness fr d Len st =
     (let pos = rd_pos st; tx = rd_tx st in
      if pos + 4 \<le> Len \<and> rd_cnt st < tm_vin_cnt tx then
        bind_c (get_varint (drop pos d)) (\<lambda>(var, k).
        bind_c (c_index (tm_vin tx) (rd_cnt st)) (\<lambda>vin.
        bind_c (rd_items d Len var 0 (pos + k) (replicate var (fr_wit fr))) (\<lambda>(pos, ws).
        bind_c (c_store (tm_vin tx) (rd_cnt st)
            (vin\<lparr>vi_wit_cnt := var, vi_witness := Some ws\<rparr>)) (\<lambda>vins.
          Inr (st\<lparr>rd_pos := pos, rd_cnt := rd_cnt st + 1,
                  rd_state := (if tm_vin_cnt tx \<le> rd_cnt st + 1 then 5 else rd_state st),
                  rd_tx := tx\<lparr>tm_vin := vins\<rparr>\<rparr>)))))
      else Inr (st\<lparr>rd_state := 5\<rparr>))"

definition rd_locktime :: "bytes \<Rightarrow> read_st \<Rightarrow> read_st c_result" where
  "rd_locktime d st =
     bind_c (get_le32 (drop (rd_pos st) d)) (\<lambda>v.
       Inr (st\<lparr>rd_pos := rd_pos st + 4, rd_tx := (rd_tx st)\<lparr>tm_locktime := v\<rparr>\<rparr>))"

definition rd_step :: "tx_fresh \<Rightarrow> bool \<Rightarrow> bytes \<Rightarrow> nat \<Rightarrow> read_st \<Rightarrow> read_st c_result" where
  "rd_step fr segwit d Len st =
     (if rd_state st = 0 then rd_vin_cnt fr d st
      else if rd_state st = 1 then rd_vin d Len st
      else if rd_state st = 2 then rd_vout_cnt fr segwit d st
      else if rd_state st = 3 then rd_vout segwit d Len st
      else if rd_state st = 4 then rd_witness fr d Len st
      else if rd_state st = 5 then rd_locktime d st
      else Inl Assert_Failed)"

definition rd_running :: "nat \<Rightarrow> read_st c_result \<Rightarrow> bool" where
  \<comment> \<open>the loop goes on: no undefined access so far and \<open>pos < Len\<close>\<close>
  "rd_running Len r = (case r of Inl _ \<Rightarrow> False | Inr st \<Rightarrow> rd_pos st < Len)"

definition rd_loop :: "tx_fresh \<Rightarrow> bool \<Rightarrow> bytes \<Rightarrow> nat \<Rightarrow> read_st \<Rightarrow> read_st c_result option" where
  "rd_loop fr segwit d Len st =
     while_option (rd_running Len) (\<lambda>r. bind_c r (rd_step fr segwit d Len)) (Inr st)"

definition rd_start :: "bool \<Rightarrow> btc_tx_mem \<Rightarrow> read_st" where
  "rd_start segwit tx = \<lparr>rd_pos = (if segwit then 6 else 4), rd_state = 0, rd_cnt = 0, rd_tx = tx\<rparr>"

definition btc_tx_read ::
  "tx_fresh \<Rightarrow> btc_tx_mem \<Rightarrow> bytes \<Rightarrow> nat \<Rightarrow> (bool \<times> btc_tx_mem) c_result option" where
  "btc_tx_read fr pTx pData Len =
     (if Len < 8 then Some (Inr (False, pTx))
      else case bind_c (get_le32 pData) (\<lambda>version. bind_c (c_bytes pData 4 2) (\<lambda>mf.
                  Inr (version, mf))) of
        Inl e \<Rightarrow> Some (Inl e)
      | Inr (version, mf) \<Rightarrow>
          (let tx = pTx\<lparr>tm_version := version\<rparr> in
           if mf ! 0 = 0x00 \<and> mf ! 1 \<noteq> 0x01 then Some (Inr (False, tx))
           else
             (let segwit = (mf ! 0 = 0x00 \<and> mf ! 1 = 0x01) in
              map_option (\<lambda>r. bind_c r (\<lambda>st. Inr (True, rd_tx st)))
                (rd_loop fr segwit pData Len (rd_start segwit tx)))))"

definition btc_tx_get_vbyte_raw :: "tx_fresh \<Rightarrow> bytes \<Rightarrow> nat \<Rightarrow> nat c_result option" where
  "btc_tx_get_vbyte_raw fr pData Len =
     (case c_bytes pData 4 2 of Inl e \<Rightarrow> Some (Inl e)
      | Inr mf \<Rightarrow>
          if mf ! 0 = 0x00 \<and> mf ! 1 \<noteq> 0x01 then Some (Inr 0)
          else if mf ! 0 = 0x00 \<and> mf ! 1 = 0x01 then
            map_option (\<lambda>r. bind_c r (\<lambda>(_, txold).
                bind_c (btcl_util_create_tx txold False) (\<lambda>(ret, txbuf_old).
                  Inr (if ret then (length txbuf_old * 3 + Len + 3) div 4 else 0))))
              (btc_tx_read fr btc_tx_init pData Len)
          else Some (Inr Len))"

section \<open>The reader returns or stands still\<close>

definition rd_stuck :: "bytes \<Rightarrow> nat \<Rightarrow> read_st \<Rightarrow> bool" where
  \<comment> \<open>an input or an output whose script does not fit: the pass changes neither \<open>pos\<close> nor \<open>state\<close>\<close>
  "rd_stuck d Len st \<longleftrightarrow> rd_pos st < Len \<and>
     (rd_state st = 1 \<and> rd_pos st + 46 \<le> Len \<and> rd_cnt st < tm_vin_cnt (rd_tx st) \<and>
        (case get_varint (drop (rd_pos st + 36) d) of Inl _ \<Rightarrow> False
         | Inr (var, tmp) \<Rightarrow> Len < rd_pos st + 40 + tmp + var + 5) \<or>
      rd_state st = 3 \<and> rd_pos st + 13 \<le> Len \<and> rd_cnt st < tm_vout_cnt (rd_tx st) \<and>
        (case get_varint (drop (rd_pos st + 8) d) of Inl _ \<Rightarrow> False
         | Inr (var, tmp) \<Rightarrow> Len < rd_pos st + 8 + tmp + var + 4))"

inductive rd_reach :: "tx_fresh \<Rightarrow> bool \<Rightarrow> bytes \<Rightarrow> nat \<Rightarrow> read_st \<Rightarrow> read_st \<Rightarrow> bool"
  for fr segwit d Len where
  rd_here: "rd_reach fr segwit d Len st st"
| rd_pass: "rd_pos st < Len \<Longrightarrow> rd_step fr segwit d Len st = Inr st' \<Longrightarrow>
     rd_reach fr segwit d Len st' st'' \<Longrightarrow> rd_reach fr segwit d Len st st''"

lemma rd_loop_unfold:
  "rd_loop fr sw d Len st =
     (if rd_pos st < Len then
        case rd_step fr sw d Len st of Inl e \<Rightarrow> Some (Inl e) | Inr st' \<Rightarrow> rd_loop fr sw d Len st'
      else Some (Inr st))"
proof -
  have e: "while_option (rd_running Len) (\<lambda>r. bind_c r (rd_step fr sw d Len)) (Inl e) = Some (Inl e)" for e
    by (subst while_option_unfold) (simp add: rd_running_def)
  show ?thesis
    by (subst (1) rd_loop_def, subst while_option_unfold)
      (simp add: rd_running_def rd_loop_def e split: sum.split)
qed

lemma rd_loop_end: "Len \<le> rd_pos st \<Longrightarrow> rd_loop fr sw d Len st = Some (Inr st)"
  by (subst rd_loop_unfold) simp

lemma rd_loop_pass:
  "rd_pos st < Len \<Longrightarrow> rd_step fr sw d Len st = Inr st' \<Longrightarrow>
     rd_loop fr sw d Len st = rd_loop fr sw d Len st'"
  by (subst rd_loop_unfold) simp

lemma rd_loop_reach: "rd_reach fr sw d Len st st' \<Longrightarrow> rd_loop fr sw d Len st = rd_loop fr sw d Len st'"
  by (induction rule: rd_reach.induct) (simp_all add: rd_loop_pass)

lemma rd_stuck_step: "rd_stuck d Len st \<Longrightarrow> rd_step fr sw d Len st = Inr st"
  by (cases "get_varint (drop (rd_pos st + 36) d)"; cases "get_varint (drop (rd_pos st + 8) d)")
    (auto simp: rd_stuck_def rd_step_def rd_vin_def rd_vout_def Let_def)

lemma rd_stuck_loop:
  assumes "rd_stuck d Len st"
  shows "rd_loop fr sw d Len st = None"
proof -
  let ?c = "\<lambda>r. bind_c r (rd_step fr sw d Len)"
  have "(?c ^^ k) (Inr st) = Inr st" for k
    by (induction k) (simp_all add: rd_stuck_step [OF assms])
  moreover have "rd_running Len (Inr st)"
    using assms by (simp add: rd_running_def rd_stuck_def)
  ultimately have "\<forall>k. rd_running Len ((?c ^^ k) (Inr st))" by simp
  then show ?thesis by (simp add: rd_loop_def while_option_def)
qed

lemma get_varint_pos: "get_varint p = Inr (var, k) \<Longrightarrow> 0 < k"
  by (auto simp: get_varint_def bind_c_Inr_iff split: list.splits if_splits)

lemma rd_items_pos: "rd_items d Len n lp i ws = Inr (j, ws') \<Longrightarrow> i \<le> j"
  by (induction d Len n lp i ws rule: rd_items.induct)
    (fastforce simp: bind_c_Inr_iff split: if_splits)+

definition rd_todo :: "nat \<Rightarrow> read_st \<Rightarrow> nat" where
  "rd_todo Len st = 6 * (Len - rd_pos st) + (5 - rd_state st)"

lemma rd_updateD:
  "st\<lparr>rd_cnt := a, rd_pos := b, rd_tx := c\<rparr> = st \<Longrightarrow> b = rd_pos st"
  "st\<lparr>rd_state := q\<rparr> = st \<Longrightarrow> q = rd_state st"
  by (cases st, simp)+

lemma rd_step_progress:
  assumes "rd_step fr sw d Len st = Inr st'" "\<not> rd_stuck d Len st" "rd_pos st < Len"
  shows "rd_todo Len st' < rd_todo Len st"
proof -
  have less: "rd_todo Len st' < rd_todo Len st" if "rd_pos st < rd_pos st'"
    using that assms(3) by (simp add: rd_todo_def)
  have state: "rd_state st \<le> 5" using assms(1) by (auto simp: rd_step_def split: if_splits)
  then consider "rd_state st = 0" | "rd_state st = 1" | "rd_state st = 2" | "rd_state st = 3"
    | "rd_state st = 4" | "rd_state st = 5" by linarith
  then show ?thesis
  proof cases
    case 1 then show ?thesis using assms(1)
      by (intro less) (auto simp: rd_step_def rd_vin_cnt_def bind_c_Inr_iff dest: get_varint_pos)
  next
    case 2 then show ?thesis using assms
      by (auto simp: rd_step_def rd_vin_def Let_def bind_c_Inr_iff rd_stuck_def rd_todo_def
          dest: get_varint_pos rd_updateD split: if_splits)
  next
    case 3 then show ?thesis using assms(1)
      by (intro less) (auto simp: rd_step_def rd_vout_cnt_def bind_c_Inr_iff dest: get_varint_pos)
  next
    case 4 then show ?thesis using assms
      by (auto simp: rd_step_def rd_vout_def Let_def bind_c_Inr_iff rd_stuck_def rd_todo_def
          dest: get_varint_pos rd_updateD split: if_splits)
  next
    case 5 then show ?thesis using assms
      by (fastforce simp: rd_step_def rd_witness_def Let_def bind_c_Inr_iff rd_todo_def
          dest: get_varint_pos rd_items_pos split: if_splits)
  next
    case 6 then show ?thesis using assms(1)
      by (intro less) (auto simp: rd_step_def rd_locktime_def bind_c_Inr_iff)
  qed
qed

lemma rd_loop_returns:
  assumes "\<nexists>st'. rd_reach fr sw d Len st st' \<and> rd_stuck d Len st'"
  shows "rd_loop fr sw d Len st \<noteq> None"
  using assms
proof (induction "rd_todo Len st" arbitrary: st rule: less_induct)
  case less
  show ?case
  proof (cases "rd_pos st < Len")
    case False
    then show ?thesis by (simp add: rd_loop_end)
  next
    case True
    show ?thesis
    proof (cases "rd_step fr sw d Len st")
      case (Inl e)
      with True show ?thesis by (subst rd_loop_unfold) simp
    next
      case (Inr st')
      have "\<not> rd_stuck d Len st" using less.prems rd_here by blast
      then have "rd_todo Len st' < rd_todo Len st" using rd_step_progress Inr True by blast
      moreover have "\<nexists>s. rd_reach fr sw d Len st' s \<and> rd_stuck d Len s"
        using less.prems True Inr by (blast intro: rd_pass)
      ultimately show ?thesis using less.hyps True Inr by (simp add: rd_loop_pass)
    qed
  qed
qed

text \<open>
  C23: The loop of \<open>btc_tx_read\<close> fails to return exactly when it comes to an input or an output
  whose announced script is longer than the data that is left, with at least 46 respectively 13
  bytes there: that pass advances neither the position nor the state, and every later pass is the
  same. In every other case, truncated data included, the loop ends.
\<close>

theorem tx_read_returns_iff:
  "rd_loop fr segwit d Len (rd_start segwit tx) = None \<longleftrightarrow>
     (\<exists>st. rd_reach fr segwit d Len (rd_start segwit tx) st \<and> rd_stuck d Len st)"
  using rd_loop_returns [of fr segwit d Len "rd_start segwit tx"] rd_loop_reach rd_stuck_loop
  by metis

end
