(* ===== verification/Btc_Wire.thy ===== *)
theory Btc_Wire
  imports Btc_Tx
begin

text \<open>
  What \<open>btcl_util_create_tx\<close> writes and that \<open>btc_tx_read\<close> reads it back. \<open>tx_bytes\<close> is the
  format of BIP 144 for the transaction in memory as long as its counts and lengths stay below 65536;
  for larger ones \<open>count_bytes\<close> drops the upper bits, as \<open>btcl_util_set_varint_len\<close> does. The writer stores
  exactly these bytes unless the length of its first pass is too small for them.
\<close>

section \<open>The parts of a transaction\<close>

definition vins_of :: "btc_tx_mem \<Rightarrow> btc_vin_t list" where
  "vins_of tx = (case tm_vin tx of None \<Rightarrow> [] | Some vs \<Rightarrow> take (tm_vin_cnt tx) vs)"

definition vouts_of :: "btc_tx_mem \<Rightarrow> btc_vout_t list" where
  "vouts_of tx = (case tm_vout tx of None \<Rightarrow> [] | Some vs \<Rightarrow> take (tm_vout_cnt tx) vs)"

definition wits_of :: "btc_vin_t \<Rightarrow> bytes list" where
  "wits_of v = (case vi_witness v of None \<Rightarrow> [] | Some ws \<Rightarrow> take (vi_wit_cnt v) ws)"

text \<open>The arrays have the elements that the counts say.\<close>

definition wf_vin :: "btc_vin_t \<Rightarrow> bool" where
  "wf_vin v \<longleftrightarrow> length (vi_txid v) = 32 \<and> length (wits_of v) = vi_wit_cnt v"

definition wf_tx :: "btc_tx_mem \<Rightarrow> bool" where
  "wf_tx tx \<longleftrightarrow> length (vins_of tx) = tm_vin_cnt tx \<and> length (vouts_of tx) = tm_vout_cnt tx \<and>
     (\<forall>v\<in>set (vins_of tx). wf_vin v)"

lemma c_array_take:
  "length (case p of None \<Rightarrow> [] | Some xs \<Rightarrow> take n xs) = n \<Longrightarrow>
     c_array p n = Inr (case p of None \<Rightarrow> [] | Some xs \<Rightarrow> take n xs)"
  by (auto simp: c_array_def split: option.splits)

lemma c_array_parts:
  "length (vins_of tx) = tm_vin_cnt tx \<Longrightarrow> c_array (tm_vin tx) (tm_vin_cnt tx) = Inr (vins_of tx)"
  "length (vouts_of tx) = tm_vout_cnt tx \<Longrightarrow> c_array (tm_vout tx) (tm_vout_cnt tx) = Inr (vouts_of tx)"
  "length (wits_of v) = vi_wit_cnt v \<Longrightarrow> c_array (vi_witness v) (vi_wit_cnt v) = Inr (wits_of v)"
  by (simp_all add: vins_of_def vouts_of_def wits_of_def c_array_take)

section \<open>The bytes written\<close>

definition count_bytes :: "nat \<Rightarrow> bytes" where
  "count_bytes n = (if n < 0xfd then [of_nat n] else [0xfd, of_nat n, of_nat (n div 256)])"

lemma set_varint_bytes: "fst (btcl_util_set_varint_len pOrg n False) = count_bytes n"
  by (simp add: btcl_util_set_varint_len_def count_bytes_def VARINT_3BYTE_MIN_def)

lemma length_count_bytes: "length (count_bytes n) = btcl_util_get_varint_len n"
  by (simp add: count_bytes_def btcl_util_get_varint_len_def VARINT_3BYTE_MIN_def)

lemma put_var_eq: "put_var xs = count_bytes (length xs) @ xs"
  by (simp add: put_var_def set_varint_bytes)

definition wit_bytes :: "btc_vin_t \<Rightarrow> bytes" where
  "wit_bytes v = count_bytes (vi_wit_cnt v) @ concat (map put_var (wits_of v))"

definition is_segwit :: "bool \<Rightarrow> btc_tx_mem \<Rightarrow> bool" where
  "is_segwit sw tx \<longleftrightarrow> sw \<and> (\<exists>v\<in>set (vins_of tx). vi_wit_cnt v \<noteq> 0)"

definition tx_bytes :: "bool \<Rightarrow> btc_tx_mem \<Rightarrow> bytes" where
  "tx_bytes sw tx =
     set_le32 (tm_version tx) @ (if is_segwit sw tx then [0x00, 0x01] else []) @
     count_bytes (tm_vin_cnt tx) @ concat (map put_vin (vins_of tx)) @
     count_bytes (tm_vout_cnt tx) @ concat (map put_vout (vouts_of tx)) @
     (if is_segwit sw tx then concat (map wit_bytes (vins_of tx)) else []) @
     set_le32 (tm_locktime tx)"

text \<open>The bytes of a witness count that the first pass leaves out.\<close>

definition uncounted :: "btc_vin_t \<Rightarrow> nat" where
  "uncounted v = (if vi_wit_cnt v = 0 then 1 else if vi_wit_cnt v < 0xfd then 0 else 2)"

lemma length_put_vin:
  "wf_vin v \<Longrightarrow> length (put_vin v) =
     40 + length (vi_script v) + btcl_util_get_varint_len (length (vi_script v))"
  by (simp add: put_vin_def wf_vin_def set_le32_def put_var_eq length_count_bytes)

lemma length_put_vout: "length (put_vout o1) = vout_len o1"
  by (simp add: put_vout_def set_le64_def put_var_eq length_count_bytes vout_len_def)

lemma wits_len_eq: "wits_len ws = length (concat (map put_var ws))"
  by (induction ws) (simp_all add: put_var_eq length_count_bytes)

lemma vins_len_eq:
  assumes "\<forall>v\<in>set vs. wf_vin v"
  shows "\<exists>n. vins_len sw vs = Inr n \<and>
    n + (if sw then sum_list (map uncounted vs) else 0) =
      length (concat (map put_vin vs)) + (if sw then length (concat (map wit_bytes vs)) else 0)"
  using assms
proof (induction vs)
  case (Cons v vs)
  then obtain n where n: "vins_len sw vs = Inr n"
    "n + (if sw then sum_list (map uncounted vs) else 0) =
      length (concat (map put_vin vs)) + (if sw then length (concat (map wit_bytes vs)) else 0)" by auto
  have wf: "wf_vin v" using Cons.prems by simp
  then have "length (wits_of v) = vi_wit_cnt v" by (simp add: wf_vin_def)
  then show ?case using n wf c_array_parts(3) [of v]
    by (auto simp: vin_len_def length_put_vin wits_len_eq wit_bytes_def [of v] uncounted_def
        length_count_bytes btcl_util_get_varint_len_def VARINT_3BYTE_MIN_def Let_def)
qed simp

lemma put_wits_eq: "\<forall>v\<in>set vs. wf_vin v \<Longrightarrow> put_wits vs = Inr (concat (map wit_bytes vs))"
  by (induction vs) (simp_all add: put_wit_def wf_vin_def c_array_parts wit_bytes_def set_varint_bytes)

lemma vins_len_plain: "(\<forall>v\<in>set vs. vi_wit_cnt v = 0) \<Longrightarrow> vins_len sw vs = vins_len False vs"
  by (induction vs) (simp_all add: vin_len_def)

lemma create_tx_eq:
  assumes "wf_tx tx"
  shows "btcl_util_create_tx tx sw =
    (let extra = (if is_segwit sw tx then sum_list (map uncounted (vins_of tx)) else 0) in
     if extra = 0 then Inr (True, tx_bytes sw tx) else Inl Write_Overrun)"
proof -
  define vs where "vs = vins_of tx"
  have wf: "\<forall>v\<in>set vs. wf_vin v" using assms by (simp add: wf_tx_def vs_def)
  have a: "c_array (tm_vin tx) (tm_vin_cnt tx) = Inr vs"
    "c_array (tm_vout tx) (tm_vout_cnt tx) = Inr (vouts_of tx)"
    using assms by (simp_all add: wf_tx_def c_array_parts vs_def)
  have seg: "vins_len sw vs = vins_len (is_segwit sw tx) vs"
  proof (cases "is_segwit sw tx = sw")
    case False
    then have "\<not> is_segwit sw tx" "\<forall>v\<in>set vs. vi_wit_cnt v = 0"
      by (auto simp: is_segwit_def vs_def)
    then show ?thesis using vins_len_plain [of vs sw] by simp
  qed simp
  from vins_len_eq [OF wf, of "is_segwit sw tx"] obtain n where n: "vins_len (is_segwit sw tx) vs = Inr n"
    "n + (if is_segwit sw tx then sum_list (map uncounted vs) else 0) = length (concat (map put_vin vs)) +
       (if is_segwit sw tx then length (concat (map wit_bytes vs)) else 0)" by blast
  have vl: "vins_len sw vs = Inr n" by (simp only: seg n(1))
  have outs: "length (concat (map put_vout os)) = sum_list (map vout_len os)" for os
    by (induction os) (simp_all add: length_put_vout)
  have sg: "(sw \<and> (\<exists>v\<in>set vs. vi_wit_cnt v \<noteq> 0)) = is_segwit sw tx"
    by (simp add: is_segwit_def vs_def)
  define L where "L = 4 + btcl_util_get_varint_len (tm_vin_cnt tx) +
    btcl_util_get_varint_len (tm_vout_cnt tx) + n + (if is_segwit sw tx then 2 else 0) +
    sum_list (map vout_len (vouts_of tx)) + 4"
  have wits: "(if is_segwit sw tx then put_wits vs else Inr []) =
      Inr (if is_segwit sw tx then concat (map wit_bytes vs) else [])"
    by (simp add: put_wits_eq [OF wf])
  have create: "btcl_util_create_tx tx sw =
      (if L < length (tx_bytes sw tx) then Inl Write_Overrun
       else Inr (length (tx_bytes sw tx) = L, tx_bytes sw tx))"
    unfolding btcl_util_create_tx_def a vl bind_c_simps Let_def sg wits set_varint_bytes L_def
    by (simp only: tx_bytes_def flip: vs_def)
  define ex where "ex = (if is_segwit sw tx then sum_list (map uncounted vs) else 0)"
  have "length (tx_bytes sw tx) = L + ex"
    using n(2) outs [of "vouts_of tx"] unfolding ex_def [symmetric]
    by (simp add: tx_bytes_def L_def length_count_bytes set_le32_def flip: vs_def)
  then show ?thesis unfolding create Let_def vs_def [symmetric] ex_def [symmetric] by simp
qed

text \<open>
  C24: Writing a transaction. When the inputs and witnesses have the elements their counts say,
  \<open>btcl_util_create_tx\<close> stores \<open>tx_bytes\<close>, the bytes of BIP 144 for counts and lengths below 65536, and
  returns true, or it writes behind the block it allocated; the latter exactly when witnesses are written and some input has none (its count
  byte is missing in the length) or 253 items or more.
\<close>

theorem create_tx_fits:
  assumes "wf_tx tx"
  shows "btcl_util_create_tx tx sw =
    (if sw \<and> (\<exists>v\<in>set (vins_of tx). vi_wit_cnt v \<noteq> 0) \<and>
        (\<exists>v\<in>set (vins_of tx). vi_wit_cnt v = 0 \<or> 0xfd \<le> vi_wit_cnt v)
     then Inl Write_Overrun else Inr (True, tx_bytes sw tx))"
proof -
  have none: "sum_list (map uncounted vs) = 0 \<longleftrightarrow>
      \<not> (\<exists>v\<in>set vs. vi_wit_cnt v = 0 \<or> 0xfd \<le> vi_wit_cnt v)" for vs
    by (induction vs) (auto simp: uncounted_def)
  show ?thesis
    by (simp only: create_tx_eq [OF assms] Let_def is_segwit_def none if_bool_eq_conj)
      (auto simp only: if_True if_False none simp_thms split: if_split)
qed

section \<open>Reading what was written\<close>

text \<open>\<open>xs\<close> is what is left of the data at position \<open>i\<close>.\<close>

definition rd_at :: "bytes \<Rightarrow> nat \<Rightarrow> bytes \<Rightarrow> bool" where
  "rd_at d i xs \<longleftrightarrow> i \<le> length d \<and> drop i d = xs"

lemma rd_at_length: "rd_at d i xs \<Longrightarrow> length d = i + length xs"
  by (auto simp: rd_at_def)

lemma rd_at_skip: "rd_at d i (xs @ r) \<Longrightarrow> rd_at d (i + length xs) r"
proof -
  assume a: "rd_at d i (xs @ r)"
  have "drop (i + length xs) d = drop (length xs) (drop i d)" by (simp add: add.commute)
  also have "\<dots> = r" using a by (simp add: rd_at_def)
  finally show ?thesis using rd_at_length [OF a] by (simp add: rd_at_def)
qed

lemma rd_at_start: "rd_at (xs @ r) (length xs) r"
  by (simp add: rd_at_def)

lemma c_bytes_at: "rd_at d i (xs @ r) \<Longrightarrow> length xs = n \<Longrightarrow> c_bytes d i n = Inr xs"
proof -
  assume a: "rd_at d i (xs @ r)" "length xs = n"
  then have "take n (drop i d) = xs" by (simp add: rd_at_def)
  then show ?thesis using rd_at_length [OF a(1)] a(2) by (auto simp: c_bytes_def)
qed

lemma get_le32_at: "rd_at d i (set_le32 v @ r) \<Longrightarrow> get_le32 (drop i d) = Inr v"
  using u32le.get_put [of "set_le32 v @ r" v "set_le32 v @ r"]
  by (simp add: rd_at_def get_le32_def set_le32_def utl_int_unpack_u32le_def put_bytes_def)

lemma get_le64_at: "rd_at d i (set_le64 v @ r) \<Longrightarrow> get_le64 (drop i d) = Inr v"
  using u64le.get_put [of "set_le64 v @ r" v "set_le64 v @ r"]
  by (simp add: rd_at_def get_le64_def set_le64_def utl_int_unpack_u64le_def put_bytes_def)

lemma get_varint_count:
  assumes "n < 65536"
  shows "get_varint (count_bytes n @ r) = Inr (n, btcl_util_get_varint_len n)"
proof (cases "n < 0xfd")
  case True
  then show ?thesis
    by (simp add: get_varint_def count_bytes_def VARINT_3BYTE_MIN_def btcl_util_get_varint_len_def
        unat_of_nat take_bit_eq_mod)
next
  case False
  have b: "of_nat n = octet 0 (of_nat n :: u16)" "of_nat (n div 256) = octet 8 (of_nat n :: u16)"
    by (rule bit_word_eqI; simp add: bit_octet bit_of_nat_iff bit_simps;
        simp add: bit_nat_def power_add div_mult2_eq)+
  have "utl_int_pack_u16le ([octet 0 (of_nat n :: u16), octet 8 (of_nat n :: u16)] @ r) = Inr (of_nat n)"
    using u16le.get_put [of "[octet 0 (of_nat n), octet 8 (of_nat n)] @ r" "of_nat n"]
    by (simp add: utl_int_unpack_u16le_def put_bytes_def)
  then show ?thesis using False assms
    by (simp add: get_varint_def count_bytes_def VARINT_3BYTE_MIN_def btcl_util_get_varint_len_def b)
qed

definition strip_wit :: "btc_vin_t \<Rightarrow> btc_vin_t" where
  "strip_wit v = v\<lparr>vi_wit_cnt := 0, vi_witness := None\<rparr>"

lemma get_varint_at:
  "rd_at d i (count_bytes n @ r) \<Longrightarrow> n < 65536 \<Longrightarrow>
     get_varint (drop i d) = Inr (n, btcl_util_get_varint_len n)"
  by (simp add: rd_at_def get_varint_count)

lemma length_set_le [simp]: "length (set_le32 v) = 4" "length (set_le64 w) = 8"
  by (simp_all add: set_le32_def set_le64_def)

lemma rd_vin_at:
  fixes v :: btc_vin_t and st :: read_st
  defines "p \<equiv> rd_pos st"
  assumes at: "rd_at d p (put_vin v @ r)" and r: "5 \<le> length r"
    and v: "length (vi_txid v) = 32" "length (vi_script v) < 65536"
    and xs: "tm_vin (rd_tx st) = Some xs" "rd_cnt st < length xs"
  shows "rd_vin d (length d) st =
    Inr \<lparr>rd_pos = p + length (put_vin v),
         rd_state = (if tm_vin_cnt (rd_tx st) \<le> rd_cnt st + 1 then 2 else rd_state st),
         rd_cnt = rd_cnt st + 1,
         rd_tx = (rd_tx st)\<lparr>tm_vin := Some (xs[rd_cnt st := strip_wit v])\<rparr>\<rparr>"
proof -
  define n k where "n = length (vi_script v)" and "k = btcl_util_get_varint_len n"
  have a1: "rd_at d p (vi_txid v @ set_le32 (vi_index v) @ count_bytes n @ vi_script v @
      set_le32 (vi_sequence v) @ r)"
    using at by (simp add: put_vin_def put_var_eq n_def)
  from rd_at_skip [OF a1] v have a2: "rd_at d (p + 32) (set_le32 (vi_index v) @ count_bytes n @
      vi_script v @ set_le32 (vi_sequence v) @ r)" by simp
  from rd_at_skip [OF a2] have a3: "rd_at d (p + 36) (count_bytes n @ vi_script v @
      set_le32 (vi_sequence v) @ r)" by (simp add: ac_simps)
  from rd_at_skip [OF a3] have a4: "rd_at d (p + 36 + k) (vi_script v @ set_le32 (vi_sequence v) @ r)"
    by (simp add: length_count_bytes k_def)
  from rd_at_skip [OF a4] have a5: "rd_at d (p + 36 + k + n) (set_le32 (vi_sequence v) @ r)"
    by (simp add: n_def)
  have len: "length d = p + 40 + k + n + length r"
    using rd_at_length [OF a5] by simp
  have k: "1 \<le> k" by (simp add: k_def btcl_util_get_varint_len_def)
  have pl: "p + length (put_vin v) = p + 36 + k + n + 4"
    using v by (simp add: put_vin_def put_var_eq length_count_bytes n_def k_def)
  have strip: "\<lparr>vi_txid = vi_txid v, vi_index = vi_index v, vi_script = vi_script v, vi_wit_cnt = 0,
      vi_witness = None, vi_sequence = vi_sequence v\<rparr> = strip_wit v" by (simp add: strip_wit_def)
  note reads = get_varint_at [OF a3, unfolded n_def, OF v(2), folded n_def, folded k_def]
    c_bytes_at [OF a1 v(1)] get_le32_at [OF a2]
    c_bytes_at [OF a4, of n, unfolded n_def, OF refl, folded n_def] get_le32_at [OF a5]
  have c: "p + 41 + 1 + 4 \<le> length d" "p + 40 + k + n + 1 + 4 \<le> length d"
    using len k r by simp_all
  show ?thesis
    using xs unfolding rd_vin_def Let_def p_def [symmetric] pl
    by (simp only: reads c if_True bind_c_simps prod.case c_store_def option.case strip)
      (auto intro!: read_st.equality)
qed

lemma rd_vout_at:
  fixes v :: btc_vout_t and st :: read_st
  defines "p \<equiv> rd_pos st"
  assumes at: "rd_at d p (put_vout v @ r)" and r: "4 \<le> length r"
    and v: "length (vout_script v) < 65536"
    and xs: "tm_vout (rd_tx st) = Some xs" "rd_cnt st < length xs"
  shows "rd_vout sw d (length d) st =
    (let fin = tm_vout_cnt (rd_tx st) \<le> rd_cnt st + 1
     in Inr \<lparr>rd_pos = p + length (put_vout v),
          rd_state = (if fin then if sw then 4 else 5 else rd_state st),
          rd_cnt = (if fin then 0 else rd_cnt st + 1),
          rd_tx = (rd_tx st)\<lparr>tm_vout := Some (xs[rd_cnt st :=
              (xs ! rd_cnt st)\<lparr>vout_value := vout_value v, vout_script := vout_script v\<rparr>])\<rparr>\<rparr>)"
proof -
  define n k where "n = length (vout_script v)" and "k = btcl_util_get_varint_len n"
  have a1: "rd_at d p (set_le64 (vout_value v) @ count_bytes n @ vout_script v @ r)"
    using at by (simp add: put_vout_def put_var_eq n_def)
  from rd_at_skip [OF a1] have a2: "rd_at d (p + 8) (count_bytes n @ vout_script v @ r)" by simp
  from rd_at_skip [OF a2] have a3: "rd_at d (p + 8 + k) (vout_script v @ r)"
    by (simp add: length_count_bytes k_def)
  have len: "length d = p + 8 + k + n + length r"
    using rd_at_length [OF a3] by (simp add: n_def)
  have k: "1 \<le> k" by (simp add: k_def btcl_util_get_varint_len_def)
  have pl: "p + length (put_vout v) = p + 8 + k + n"
    by (simp add: put_vout_def put_var_eq length_count_bytes n_def k_def)
  note reads = get_varint_at [OF a2, unfolded n_def, OF v, folded n_def, folded k_def]
    get_le64_at [OF a1] c_bytes_at [OF a3, of n, unfolded n_def, OF refl, folded n_def]
  have c: "p + 9 + 4 \<le> length d" "p + 8 + k + n + 4 \<le> length d"
    using len k r by simp_all
  show ?thesis
    using xs unfolding rd_vout_def Let_def p_def [symmetric] pl
    by (simp only: reads c if_True bind_c_simps prod.case c_store_def c_index_def option.case)
      (auto intro!: read_st.equality)
qed

lemma put_var_nonempty: "put_var xs \<noteq> []"
  by (simp add: put_var_eq count_bytes_def)

lemma rd_items_at:
  assumes "rd_at d i (concat (map put_var ws) @ r)" "4 \<le> length r"
    "\<forall>w\<in>set ws. length w < 65536" "length xs = lp + length ws"
  shows "rd_items d (length d) (length ws) lp i xs =
    Inr (i + length (concat (map put_var ws)), take lp xs @ ws)"
  using assms
proof (induction ws arbitrary: i lp xs)
  case Nil
  then show ?case by simp
next
  case (Cons w ws)
  define n k where "n = length w" and "k = btcl_util_get_varint_len n"
  have a1: "rd_at d i (count_bytes n @ w @ concat (map put_var ws) @ r)"
    using Cons.prems(1) by (simp add: put_var_eq [of w] n_def)
  from rd_at_skip [OF a1] have a2: "rd_at d (i + k) (w @ concat (map put_var ws) @ r)"
    by (simp add: length_count_bytes k_def)
  from rd_at_skip [OF a2] have a3: "rd_at d (i + k + n) (concat (map put_var ws) @ r)"
    by (simp add: n_def)
  have n: "n < 65536" using Cons.prems(3) by (simp add: n_def)
  have c: "i + k + n + 4 \<le> length d"
    using rd_at_length [OF a3] Cons.prems(2) by simp
  have l: "length (put_var w) = k + n"
    by (simp add: put_var_eq length_count_bytes n_def k_def)
  have ih: "rd_items d (length d) (length ws) (Suc lp) (i + k + n) (xs[lp := w]) =
      Inr (i + k + n + length (concat (map put_var ws)), take (Suc lp) (xs[lp := w]) @ ws)"
    using Cons.prems by (intro Cons.IH [OF a3]) auto
  have t: "take (Suc lp) (xs[lp := w]) = take lp xs @ [w]"
    using Cons.prems(4) by (simp add: take_Suc_conv_app_nth)
  note reads = get_varint_at [OF a1 n, folded k_def] c_bytes_at [OF a2, of n, unfolded n_def, OF refl, folded n_def]
  show ?case
    by (simp only: length_Cons rd_items.simps reads c if_True bind_c_simps prod.case ih t)
      (simp add: l ac_simps)
qed

lemma rd_witness_at:
  fixes v :: btc_vin_t and st :: read_st
  defines "p \<equiv> rd_pos st"
  assumes at: "rd_at d p (wit_bytes v @ r)" and r: "4 \<le> length r"
    and v: "length (wits_of v) = vi_wit_cnt v" "vi_wit_cnt v < 65536"
      "\<forall>w\<in>set (wits_of v). length w < 65536"
    and xs: "tm_vin (rd_tx st) = Some xs" "length xs = tm_vin_cnt (rd_tx st)" "rd_cnt st < length xs"
  shows "rd_witness fr d (length d) st =
    Inr \<lparr>rd_pos = p + length (wit_bytes v),
         rd_state = (if tm_vin_cnt (rd_tx st) \<le> rd_cnt st + 1 then 5 else rd_state st),
         rd_cnt = rd_cnt st + 1,
         rd_tx = (rd_tx st)\<lparr>tm_vin := Some (xs[rd_cnt st := (xs ! rd_cnt st)
              \<lparr>vi_wit_cnt := vi_wit_cnt v, vi_witness := Some (wits_of v)\<rparr>])\<rparr>\<rparr>"
proof -
  define n k where "n = vi_wit_cnt v" and "k = btcl_util_get_varint_len n"
  have a1: "rd_at d p (count_bytes n @ concat (map put_var (wits_of v)) @ r)"
    using at by (simp add: wit_bytes_def n_def)
  from rd_at_skip [OF a1] have a2: "rd_at d (p + k) (concat (map put_var (wits_of v)) @ r)"
    by (simp add: length_count_bytes k_def)
  have n: "n < 65536" "length (wits_of v) = n" using v by (simp_all add: n_def)
  have items: "rd_items d (length d) n 0 (p + k) (replicate n (fr_wit fr)) =
      Inr (p + k + length (concat (map put_var (wits_of v))), wits_of v)"
    using rd_items_at [OF a2 r v(3), of "replicate n (fr_wit fr)" 0] n by simp
  have c: "p + 4 \<le> length d" "rd_cnt st < tm_vin_cnt (rd_tx st)"
    using rd_at_length [OF a2] r xs by simp_all
  have l: "p + length (wit_bytes v) = p + k + length (concat (map put_var (wits_of v)))"
    by (simp add: wit_bytes_def length_count_bytes n_def k_def)
  show ?thesis
    using xs(1,3) unfolding rd_witness_def Let_def p_def [symmetric] l
    by (simp only: get_varint_at [OF a1 n(1), folded k_def] items c if_True bind_c_simps prod.case
        c_store_def c_index_def option.case simp_thms)
      (auto simp: n_def intro!: read_st.equality)
qed

text \<open>The passes over all inputs, all outputs, all witnesses.\<close>

definition vin_ok :: "btc_vin_t \<Rightarrow> bool" where
  "vin_ok v \<longleftrightarrow> length (vi_txid v) = 32 \<and> length (vi_script v) < 65536"

lemma take_Suc_update: "i < length xs \<Longrightarrow> take (Suc i) (xs[i := x]) = take i xs @ [x]"
  by (simp add: take_Suc_conv_app_nth)

lemma rd_loop_vins:
  assumes "rd_at d (rd_pos st) (concat (map put_vin vs) @ r)" "5 \<le> length r" "rd_state st = 1"
    "tm_vin (rd_tx st) = Some xs" "length xs = tm_vin_cnt (rd_tx st)"
    "length xs = rd_cnt st + length vs" "vs \<noteq> []" "\<forall>v\<in>set vs. vin_ok v"
  shows "rd_loop fr sw d (length d) st = rd_loop fr sw d (length d)
    \<lparr>rd_pos = rd_pos st + length (concat (map put_vin vs)), rd_state = 2, rd_cnt = length xs,
     rd_tx = (rd_tx st)\<lparr>tm_vin := Some (take (rd_cnt st) xs @ map strip_wit vs)\<rparr>\<rparr>"
  using assms
proof (induction vs arbitrary: st xs)
  case (Cons v vs)
  define r' where "r' = concat (map put_vin vs) @ r"
  define st1 where "st1 = \<lparr>rd_pos = rd_pos st + length (put_vin v),
    rd_state = (if tm_vin_cnt (rd_tx st) \<le> rd_cnt st + 1 then 2 else rd_state st),
    rd_cnt = rd_cnt st + 1, rd_tx = (rd_tx st)\<lparr>tm_vin := Some (xs[rd_cnt st := strip_wit v])\<rparr>\<rparr>"
  have at: "rd_at d (rd_pos st) (put_vin v @ r')" using Cons.prems(1) by (simp add: r'_def)
  have lt: "rd_pos st < length d" using rd_at_length [OF at] Cons.prems(2) by (auto simp: r'_def)
  have "rd_vin d (length d) st = Inr st1"
    unfolding st1_def
    by (rule rd_vin_at [OF at]) (use Cons.prems in \<open>simp_all add: r'_def vin_ok_def\<close>)
  then have "rd_step fr sw d (length d) st = Inr st1" using Cons.prems(3) by (simp add: rd_step_def)
  with lt have pass: "rd_loop fr sw d (length d) st = rd_loop fr sw d (length d) st1"
    by (rule rd_loop_pass)
  show ?case
  proof (cases "vs = []")
    case True
    then show ?thesis unfolding pass using Cons.prems
      by (simp add: st1_def take_Suc_update [symmetric])
  next
    case False
    then have "rd_cnt st + 1 < tm_vin_cnt (rd_tx st)" using Cons.prems by (cases vs) auto
    then have "rd_loop fr sw d (length d) st1 = rd_loop fr sw d (length d)
      \<lparr>rd_pos = rd_pos st1 + length (concat (map put_vin vs)), rd_state = 2,
       rd_cnt = length (xs[rd_cnt st := strip_wit v]),
       rd_tx = (rd_tx st1)\<lparr>tm_vin := Some (take (rd_cnt st1) (xs[rd_cnt st := strip_wit v]) @
         map strip_wit vs)\<rparr>\<rparr>"
      using False Cons.prems rd_at_skip [OF at]
      by (intro Cons.IH) (simp_all add: st1_def r'_def)
    then show ?thesis unfolding pass using Cons.prems
      by (simp add: st1_def take_Suc_update ac_simps)
  qed
qed simp

lemma rd_loop_vouts:
  assumes "rd_at d (rd_pos st) (concat (map put_vout vs) @ r)" "4 \<le> length r" "rd_state st = 3"
    "tm_vout (rd_tx st) = Some xs" "length xs = tm_vout_cnt (rd_tx st)"
    "length xs = rd_cnt st + length vs" "vs \<noteq> []" "\<forall>v\<in>set vs. length (vout_script v) < 65536"
    "\<forall>x\<in>set (drop (rd_cnt st) xs). x = fr_vout fr"
  shows "rd_loop fr sw d (length d) st = rd_loop fr sw d (length d)
    \<lparr>rd_pos = rd_pos st + length (concat (map put_vout vs)), rd_state = (if sw then 4 else 5),
     rd_cnt = 0,
     rd_tx = (rd_tx st)\<lparr>tm_vout := Some (take (rd_cnt st) xs @
          map (\<lambda>v. v\<lparr>vout_opt := vout_opt (fr_vout fr)\<rparr>) vs)\<rparr>\<rparr>"
  using assms
proof (induction vs arbitrary: st xs)
  case (Cons v vs)
  define r' v' where "r' = concat (map put_vout vs) @ r" and "v' = v\<lparr>vout_opt := vout_opt (fr_vout fr)\<rparr>"
  have i: "rd_cnt st < length xs" using Cons.prems by simp
  then have "xs ! rd_cnt st = fr_vout fr"
    using Cons.prems(9) by (auto simp: Cons_nth_drop_Suc [symmetric])
  then have v': "(xs ! rd_cnt st)\<lparr>vout_value := vout_value v, vout_script := vout_script v\<rparr> = v'"
    by (simp add: v'_def)
  define fin st1 where "fin = (tm_vout_cnt (rd_tx st) \<le> rd_cnt st + 1)"
    and "st1 = \<lparr>rd_pos = rd_pos st + length (put_vout v),
      rd_state = (if fin then if sw then 4 else 5 else rd_state st),
      rd_cnt = (if fin then 0 else rd_cnt st + 1),
      rd_tx = (rd_tx st)\<lparr>tm_vout := Some (xs[rd_cnt st := v'])\<rparr>\<rparr>"
  have at: "rd_at d (rd_pos st) (put_vout v @ r')" using Cons.prems(1) by (simp add: r'_def)
  have lt: "rd_pos st < length d" using rd_at_length [OF at] Cons.prems(2) by (auto simp: r'_def)
  have "rd_vout sw d (length d) st = Inr st1"
    using rd_vout_at [OF at, where xs = xs and sw = sw] Cons.prems i
    unfolding v' st1_def fin_def by (simp add: r'_def Let_def)
  then have "rd_step fr sw d (length d) st = Inr st1" using Cons.prems(3) by (simp add: rd_step_def)
  note pass = rd_loop_pass [OF lt this]
  have "fin \<longleftrightarrow> vs = []" using Cons.prems by (cases vs) (auto simp: fin_def)
  then show ?case
  proof (cases "vs = []")
    case True
    with \<open>fin \<longleftrightarrow> vs = []\<close> show ?thesis unfolding pass using Cons.prems
      by (simp add: st1_def take_Suc_update [symmetric] flip: v'_def)
  next
    case False
    have "rd_loop fr sw d (length d) st1 = rd_loop fr sw d (length d)
      \<lparr>rd_pos = rd_pos st1 + length (concat (map put_vout vs)),
       rd_state = (if sw then 4 else 5), rd_cnt = 0,
       rd_tx = (rd_tx st1)\<lparr>tm_vout := Some (take (rd_cnt st1) (xs[rd_cnt st := v']) @
           map (\<lambda>v. v\<lparr>vout_opt := vout_opt (fr_vout fr)\<rparr>) vs)\<rparr>\<rparr>"
      using False Cons.prems rd_at_skip [OF at] \<open>fin \<longleftrightarrow> vs = []\<close>
        set_drop_subset_set_drop [of "rd_cnt st" "Suc (rd_cnt st)" xs]
      by (intro Cons.IH) (auto simp: st1_def r'_def)
    then show ?thesis unfolding pass using Cons.prems False \<open>fin \<longleftrightarrow> vs = []\<close>
      by (simp add: st1_def take_Suc_update ac_simps flip: v'_def)
  qed
qed simp

definition wit_ok :: "btc_vin_t \<Rightarrow> bool" where
  "wit_ok v \<longleftrightarrow> 0 < vi_wit_cnt v \<and> vi_wit_cnt v < 0xfd \<and> vi_witness v = Some (wits_of v) \<and>
     length (wits_of v) = vi_wit_cnt v \<and> (\<forall>w\<in>set (wits_of v). length w < 65536)"

lemma rd_loop_wits:
  assumes "rd_at d (rd_pos st) (concat (map wit_bytes vs) @ r)" "4 \<le> length r" "rd_state st = 4"
    "tm_vin (rd_tx st) = Some xs" "length xs = tm_vin_cnt (rd_tx st)"
    "drop (rd_cnt st) xs = map strip_wit vs" "rd_cnt st < length xs" "\<forall>v\<in>set vs. wit_ok v"
  shows "rd_loop fr sw d (length d) st = rd_loop fr sw d (length d)
    \<lparr>rd_pos = rd_pos st + length (concat (map wit_bytes vs)), rd_state = 5, rd_cnt = length xs,
     rd_tx = (rd_tx st)\<lparr>tm_vin := Some (take (rd_cnt st) xs @ vs)\<rparr>\<rparr>"
  using assms
proof (induction vs arbitrary: st xs)
  case Nil
  then show ?case by simp
next
  case (Cons v vs)
  define r' where "r' = concat (map wit_bytes vs) @ r"
  have v: "wit_ok v" using Cons.prems by simp
  have i: "xs ! rd_cnt st = strip_wit v" "drop (Suc (rd_cnt st)) xs = map strip_wit vs"
    using Cons.prems(6,7) by (simp_all add: Cons_nth_drop_Suc [symmetric])
  then have len: "length xs = Suc (rd_cnt st) + length vs"
    using Cons.prems(7) by (metis Suc_leI add_diff_inverse_nat length_drop length_map not_less)
  have full: "(xs ! rd_cnt st)\<lparr>vi_wit_cnt := vi_wit_cnt v, vi_witness := Some (wits_of v)\<rparr> = v"
    using v by (simp add: i strip_wit_def wit_ok_def)
  define st1 where "st1 = \<lparr>rd_pos = rd_pos st + length (wit_bytes v),
    rd_state = (if tm_vin_cnt (rd_tx st) \<le> rd_cnt st + 1 then 5 else rd_state st),
    rd_cnt = rd_cnt st + 1, rd_tx = (rd_tx st)\<lparr>tm_vin := Some (xs[rd_cnt st := v])\<rparr>\<rparr>"
  have at: "rd_at d (rd_pos st) (wit_bytes v @ r')" using Cons.prems(1) by (simp add: r'_def)
  have lt: "rd_pos st < length d" using rd_at_length [OF at] Cons.prems(2) by (auto simp: r'_def)
  have "rd_witness fr d (length d) st = Inr st1"
    using rd_witness_at [OF at, where xs = xs and fr = fr] Cons.prems v
    unfolding full st1_def by (simp add: r'_def wit_ok_def)
  then have "rd_step fr sw d (length d) st = Inr st1" using Cons.prems(3) by (simp add: rd_step_def)
  note pass = rd_loop_pass [OF lt this]
  show ?case
  proof (cases "vs = []")
    case True
    then show ?thesis unfolding pass using Cons.prems len
      by (simp add: st1_def take_Suc_update [symmetric])
  next
    case False
    then have "rd_cnt st + 1 < tm_vin_cnt (rd_tx st)" using Cons.prems len by (cases vs) auto
    then have "rd_loop fr sw d (length d) st1 = rd_loop fr sw d (length d)
      \<lparr>rd_pos = rd_pos st1 + length (concat (map wit_bytes vs)), rd_state = 5,
       rd_cnt = length (xs[rd_cnt st := v]),
       rd_tx = (rd_tx st1)\<lparr>tm_vin := Some (take (rd_cnt st1) (xs[rd_cnt st := v]) @ vs)\<rparr>\<rparr>"
      using False Cons.prems rd_at_skip [OF at] len i
      by (intro Cons.IH) (simp_all add: st1_def r'_def)
    then show ?thesis unfolding pass using Cons.prems len
      by (simp add: st1_def take_Suc_update ac_simps)
  qed
qed

section \<open>The round trip\<close>

text \<open>The transactions that have a representation: arrays as counted, lengths that fit 16 bits.\<close>

definition tx_sendable :: "btc_tx_mem \<Rightarrow> bool" where
  "tx_sendable tx \<longleftrightarrow>
     tm_vin tx = Some (vins_of tx) \<and> length (vins_of tx) = tm_vin_cnt tx \<and>
     0 < tm_vin_cnt tx \<and> tm_vin_cnt tx < 65536 \<and> (\<forall>v\<in>set (vins_of tx). vin_ok v) \<and>
     tm_vout tx = (if tm_vout_cnt tx = 0 then None else Some (vouts_of tx)) \<and>
     length (vouts_of tx) = tm_vout_cnt tx \<and> tm_vout_cnt tx < 65536 \<and>
     (\<forall>v\<in>set (vouts_of tx). length (vout_script v) < 65536) \<and>
     ((\<forall>v\<in>set (vins_of tx). wit_ok v) \<or>
      (\<forall>v\<in>set (vins_of tx). vi_wit_cnt v = 0 \<and> vi_witness v = None))"

lemma sendable_wf: "tx_sendable tx \<Longrightarrow> wf_tx tx"
  by (auto simp: tx_sendable_def wf_tx_def wf_vin_def vin_ok_def wit_ok_def wits_of_def)

lemma sendable_create: "tx_sendable tx \<Longrightarrow> btc_tx_create tx = Inr (True, tx_bytes True tx)"
  by (auto simp: btc_tx_create_def create_tx_eq [OF sendable_wf] Let_def is_segwit_def uncounted_def
      tx_sendable_def wit_ok_def)

definition reread_opts :: "tx_fresh \<Rightarrow> btc_tx_mem \<Rightarrow> btc_tx_mem" where
  \<comment> \<open>\<open>opt\<close> is not part of the format: it keeps what the fresh block held\<close>
  "reread_opts fr tx =
     tx\<lparr>tm_vout := map_option (map (\<lambda>v. v\<lparr>vout_opt := vout_opt (fr_vout fr)\<rparr>)) (tm_vout tx)\<rparr>"

text \<open>The outputs and what follows them, from the state that has read their number.\<close>

lemma rd_loop_tail:
  assumes tx: "tx_sendable tx" and sw: "sw = is_segwit True tx"
    and at: "rd_at d p (concat (map put_vout (vouts_of tx)) @
      (if sw then concat (map wit_bytes (vins_of tx)) else []) @ set_le32 (tm_locktime tx))"
    and t: "tm_version t = tm_version tx" "tm_vin_cnt t = tm_vin_cnt tx"
      "tm_vin t = Some (map strip_wit (vins_of tx))" "tm_vout_cnt t = tm_vout_cnt tx"
      "tm_vout t = (if tm_vout_cnt tx = 0 then None else Some (replicate (tm_vout_cnt tx) (fr_vout fr)))"
  shows "\<exists>st. rd_loop fr sw d (length d)
      \<lparr>rd_pos = p, rd_state = (if tm_vout_cnt tx = 0 then if sw then 4 else 5 else 3), rd_cnt = 0,
       rd_tx = t\<rparr> = Some (Inr st) \<and> rd_tx st = reread_opts fr tx"
proof -
  define opts where "opts = map (\<lambda>v :: btc_vout_t. v\<lparr>vout_opt := vout_opt (fr_vout fr)\<rparr>)"
  define wits where "wits = (if sw then concat (map wit_bytes (vins_of tx)) else [])"
  define lt where "lt = set_le32 (tm_locktime tx)"
  define p1 where "p1 = p + length (concat (map put_vout (vouts_of tx)))"
  define t1 where "t1 = t\<lparr>tm_vout := map_option opts (tm_vout tx)\<rparr>"
  have lt: "length lt = 4" by (simp add: lt_def)
  have at': "rd_at d p (concat (map put_vout (vouts_of tx)) @ wits @ lt)"
    using at by (simp add: wits_def lt_def)
  then have at1: "rd_at d p1 (wits @ lt)" unfolding p1_def by (rule rd_at_skip)
  have s1: "rd_loop fr sw d (length d)
      \<lparr>rd_pos = p, rd_state = (if tm_vout_cnt tx = 0 then if sw then 4 else 5 else 3), rd_cnt = 0,
       rd_tx = t\<rparr> = rd_loop fr sw d (length d)
      \<lparr>rd_pos = p1, rd_state = (if sw then 4 else 5), rd_cnt = 0, rd_tx = t1\<rparr>"
  proof (cases "tm_vout_cnt tx = 0")
    case True
    then have "vouts_of tx = []" "tm_vout tx = None" using tx by (simp_all add: tx_sendable_def)
    moreover from this have "t1 = t" using True t by (cases t) (simp add: t1_def)
    ultimately show ?thesis using True by (simp add: p1_def)
  next
    case False
    have "vouts_of tx \<noteq> []" "tm_vout tx = Some (vouts_of tx)"
      using tx False by (auto simp: tx_sendable_def)
    then show ?thesis
      using False at' lt t tx
      by (subst rd_loop_vouts [where vs = "vouts_of tx" and r = "wits @ lt"])
        (auto simp: tx_sendable_def p1_def t1_def opts_def)
  qed
  define t2 where "t2 = t1\<lparr>tm_vin := Some (vins_of tx)\<rparr>"
  define p2 where "p2 = p1 + length wits"
  have at2: "rd_at d p2 lt" unfolding p2_def by (rule rd_at_skip [OF at1])
  have s2: "\<exists>c. rd_loop fr sw d (length d)
      \<lparr>rd_pos = p1, rd_state = (if sw then 4 else 5), rd_cnt = 0, rd_tx = t1\<rparr> =
      rd_loop fr sw d (length d) \<lparr>rd_pos = p2, rd_state = 5, rd_cnt = c, rd_tx = t2\<rparr>"
  proof (cases sw)
    case True
    then have "\<forall>v\<in>set (vins_of tx). wit_ok v" using tx by (auto simp: sw is_segwit_def tx_sendable_def)
    then show ?thesis
      using True at1 lt t tx
      by (subst rd_loop_wits [where vs = "vins_of tx" and r = lt])
        (auto simp: tx_sendable_def p2_def t1_def t2_def wits_def)
  next
    case False
    then have "\<forall>v\<in>set (vins_of tx). strip_wit v = v"
      using tx by (auto simp: sw is_segwit_def tx_sendable_def wit_ok_def strip_wit_def)
    then have "map strip_wit (vins_of tx) = vins_of tx" by (simp add: map_idI)
    then have "t2 = t1" using t by (cases t) (simp add: t2_def t1_def)
    then show ?thesis using False by (auto simp: p2_def wits_def)
  qed
  then obtain c where c: "rd_loop fr sw d (length d)
      \<lparr>rd_pos = p1, rd_state = (if sw then 4 else 5), rd_cnt = 0, rd_tx = t1\<rparr> =
      rd_loop fr sw d (length d) \<lparr>rd_pos = p2, rd_state = 5, rd_cnt = c, rd_tx = t2\<rparr>" by blast
  define st where "st = \<lparr>rd_pos = p2 + 4, rd_state = 5, rd_cnt = c,
    rd_tx = t2\<lparr>tm_locktime := tm_locktime tx\<rparr>\<rparr>"
  have len: "length d = p2 + 4" using rd_at_length [OF at2] lt by simp
  have "rd_step fr sw d (length d) \<lparr>rd_pos = p2, rd_state = 5, rd_cnt = c, rd_tx = t2\<rparr> = Inr st"
    using get_le32_at [of d p2 "tm_locktime tx" "[]"] at2
    by (simp add: rd_step_def rd_locktime_def st_def lt_def)
  then have "rd_loop fr sw d (length d) \<lparr>rd_pos = p2, rd_state = 5, rd_cnt = c, rd_tx = t2\<rparr> =
      rd_loop fr sw d (length d) st" using len by (simp add: rd_loop_pass)
  then have "rd_loop fr sw d (length d) \<lparr>rd_pos = p2, rd_state = 5, rd_cnt = c, rd_tx = t2\<rparr> = Some (Inr st)"
    using len by (simp add: rd_loop_end st_def)
  moreover have "rd_tx st = reread_opts fr tx"
    using t tx by (auto simp: st_def t2_def t1_def reread_opts_def tx_sendable_def opts_def
        intro!: btc_tx_mem.equality)
  ultimately show ?thesis using s1 c by auto
qed

lemma rd_loop_all:
  assumes tx: "tx_sendable tx" and sw: "sw = is_segwit True tx" and ver: "tm_version t = tm_version tx"
    and at: "rd_at d (if sw then 6 else 4) (count_bytes (tm_vin_cnt tx) @
      concat (map put_vin (vins_of tx)) @ count_bytes (tm_vout_cnt tx) @
      concat (map put_vout (vouts_of tx)) @
      (if sw then concat (map wit_bytes (vins_of tx)) else []) @ set_le32 (tm_locktime tx))"
  shows "\<exists>st. rd_loop fr sw d (length d) (rd_start sw t) = Some (Inr st) \<and> rd_tx st = reread_opts fr tx"
proof -
  define n m where "n = tm_vin_cnt tx" and "m = tm_vout_cnt tx"
  define tail where "tail = concat (map put_vout (vouts_of tx)) @
      (if sw then concat (map wit_bytes (vins_of tx)) else []) @ set_le32 (tm_locktime tx)"
  define p0 :: nat where "p0 = (if sw then 6 else 4)"
  define p1 where "p1 = p0 + length (count_bytes n)"
  define p2 where "p2 = p1 + length (concat (map put_vin (vins_of tx)))"
  define p3 where "p3 = p2 + length (count_bytes m)"
  have nm: "0 < n" "n < 65536" "m < 65536" "length (vins_of tx) = n" "length (vouts_of tx) = m"
    using tx by (simp_all add: n_def m_def tx_sendable_def)
  have at0: "rd_at d p0 (count_bytes n @ concat (map put_vin (vins_of tx)) @ count_bytes m @ tail)"
    using at by (simp add: p0_def n_def m_def tail_def)
  then have at1: "rd_at d p1 (concat (map put_vin (vins_of tx)) @ count_bytes m @ tail)"
    unfolding p1_def by (rule rd_at_skip)
  then have at2: "rd_at d p2 (count_bytes m @ tail)" unfolding p2_def by (rule rd_at_skip)
  then have at3: "rd_at d p3 tail" unfolding p3_def by (rule rd_at_skip)
  have short: "4 \<le> length tail" "1 \<le> length (count_bytes k)" for k
    by (simp_all add: tail_def count_bytes_def)
  have lt: "p0 < length d" "p2 < length d"
    using rd_at_length [OF at0] rd_at_length [OF at2] short(1) by auto
  define t1 where "t1 = t\<lparr>tm_vin_cnt := n, tm_vin := Some (replicate n (fr_vin fr))\<rparr>"
  define t2 where "t2 = t1\<lparr>tm_vin := Some (map strip_wit (vins_of tx))\<rparr>"
  define t3 where "t3 = t2\<lparr>tm_vout_cnt := m,
    tm_vout := (if m = 0 then None else Some (replicate m (fr_vout fr)))\<rparr>"
  have "rd_step fr sw d (length d) (rd_start sw t) =
      Inr \<lparr>rd_pos = p1, rd_state = 1, rd_cnt = 0, rd_tx = t1\<rparr>"
    using get_varint_at [OF at0 nm(2)] nm(1)
    by (simp add: rd_step_def rd_start_def rd_vin_cnt_def p1_def t1_def length_count_bytes flip: p0_def)
  then have "rd_loop fr sw d (length d) (rd_start sw t) = rd_loop fr sw d (length d)
      \<lparr>rd_pos = p1, rd_state = 1, rd_cnt = 0, rd_tx = t1\<rparr>"
    using lt(1) by (intro rd_loop_pass) (simp_all add: rd_start_def p0_def)
  also have "\<dots> = rd_loop fr sw d (length d) \<lparr>rd_pos = p2, rd_state = 2, rd_cnt = n, rd_tx = t2\<rparr>"
    using at1 nm short(1) short(2) [of m] tx
    by (subst rd_loop_vins [where vs = "vins_of tx" and r = "count_bytes m @ tail" and xs = "replicate n (fr_vin fr)"])
      (auto simp: t1_def t2_def p2_def tx_sendable_def)
  also have "\<dots> = rd_loop fr sw d (length d)
      \<lparr>rd_pos = p3, rd_state = (if m = 0 then if sw then 4 else 5 else 3), rd_cnt = 0, rd_tx = t3\<rparr>"
    using lt(2) get_varint_at [OF at2 nm(3)]
    by (intro rd_loop_pass) (simp_all add: rd_step_def rd_vout_cnt_def p3_def t3_def length_count_bytes)
  finally have loop: "rd_loop fr sw d (length d) (rd_start sw t) = rd_loop fr sw d (length d)
      \<lparr>rd_pos = p3, rd_state = (if m = 0 then if sw then 4 else 5 else 3), rd_cnt = 0, rd_tx = t3\<rparr>" .
  show ?thesis
    unfolding loop unfolding m_def
    by (rule rd_loop_tail [OF tx sw at3 [unfolded tail_def]])
      (simp_all add: t3_def t2_def t1_def n_def m_def ver)
qed

text \<open>
  C22: A transaction read back. For every transaction with at least one input whose arrays have the
  elements that their counts say, whose scripts, counts and witness items are shorter than 64 KiB
  and whose inputs have either all a witness of up to 252 items or none at all, \<open>btc_tx_create\<close>
  succeeds, \<open>btc_tx_read\<close> of what it wrote returns true, and the transaction read is the one
  written (up to the annotation \<open>opt\<close> of the outputs, which is not part of the format), whatever
  the memory it is read into held before.
\<close>

theorem tx_roundtrip:
  assumes "tx_sendable tx"
  shows "\<exists>b. btc_tx_create tx = Inr (True, b) \<and>
    btc_tx_read fr t b (length b) = Some (Inr (True, reread_opts fr tx))"
proof (intro exI conjI)
  show "btc_tx_create tx = Inr (True, tx_bytes True tx)" by (rule sendable_create [OF assms])
  define sw d where "sw = is_segwit True tx" and "d = tx_bytes True tx"
  define n body where "n = tm_vin_cnt tx" and "body = concat (map put_vin (vins_of tx)) @
      count_bytes (tm_vout_cnt tx) @ concat (map put_vout (vouts_of tx)) @
      (if sw then concat (map wit_bytes (vins_of tx)) else []) @ set_le32 (tm_locktime tx)"
  have n: "0 < n" "n < 65536" using assms by (simp_all add: n_def tx_sendable_def)
  have d: "d = set_le32 (tm_version tx) @ (if sw then [0, 1] else []) @ count_bytes n @ body"
    by (simp add: d_def tx_bytes_def sw_def body_def n_def)
  have len: "8 \<le> length d" by (simp add: d body_def count_bytes_def)
  have ver: "get_le32 d = Inr (tm_version tx)"
    using get_le32_at [of d 0 "tm_version tx"] by (simp add: rd_at_def d)
  have at: "rd_at d (if sw then 6 else 4) (count_bytes n @ body)"
    by (simp add: rd_at_def d)
  obtain st where st: "rd_loop fr sw d (length d) (rd_start sw (t\<lparr>tm_version := tm_version tx\<rparr>)) =
      Some (Inr st)" "rd_tx st = reread_opts fr tx"
    using rd_loop_all [OF assms sw_def, of "t\<lparr>tm_version := tm_version tx\<rparr>" d fr] at
    by (auto simp: body_def n_def)
  have "unat (of_nat n :: byte) = n mod 256" by (simp add: unat_of_nat take_bit_eq_mod)
  then have head: "count_bytes n ! 0 \<noteq> 0" "0 < length (count_bytes n)"
    using n by (auto simp: count_bytes_def)
  have "\<exists>mf. c_bytes d 4 2 = Inr mf \<and> (if sw then mf ! 0 = 0 \<and> mf ! 1 = 1 else mf ! 0 \<noteq> 0)"
  proof (cases sw)
    case True
    then have "rd_at d 4 ([0, 1] @ count_bytes n @ body)" by (simp add: rd_at_def d)
    from c_bytes_at [OF this, of 2] True show ?thesis by simp
  next
    case False
    define X where "X = count_bytes n @ body"
    have X: "2 \<le> length X" "X ! 0 \<noteq> 0" using head by (simp_all add: X_def nth_append body_def)
    have "rd_at d 4 X" using False by (simp add: rd_at_def d X_def)
    then have "rd_at d 4 (take 2 X @ drop 2 X)" by simp
    from c_bytes_at [OF this, of 2] X False show ?thesis by simp
  qed
  then obtain mf where mf: "c_bytes d 4 2 = Inr mf"
    "if sw then mf ! 0 = 0 \<and> mf ! 1 = 1 else mf ! 0 \<noteq> 0" by blast
  from mf(2) have "(mf ! 0 = 0 \<and> mf ! 1 = 1) = sw" "\<not> (mf ! 0 = 0 \<and> mf ! 1 \<noteq> 1)"
    by (auto split: if_splits)
  then show "btc_tx_read fr t d (length d) = Some (Inr (True, reread_opts fr tx))"
    using len st by (simp add: btc_tx_read_def ver mf(1) Let_def)
qed

section \<open>Examples\<close>

definition toy_fresh :: tx_fresh where
  "toy_fresh = \<lparr>fr_vin = \<lparr>vi_txid = [], vi_index = 7, vi_script = [1], vi_wit_cnt = 9,
     vi_witness = None, vi_sequence = 3\<rparr>,
     fr_vout = \<lparr>vout_value = 5, vout_script = [2], vout_opt = 0xaa\<rparr>, fr_wit = [3]\<rparr>"

definition toy_vin :: "bytes list \<Rightarrow> btc_vin_t" where
  "toy_vin ws = \<lparr>vi_txid = replicate 32 0x11, vi_index = 1, vi_script = [], vi_wit_cnt = length ws,
     vi_witness = (if ws = [] then None else Some ws), vi_sequence = BTC_TX_SEQUENCE\<rparr>"

definition toy_tx :: "btc_vin_t list \<Rightarrow> btc_tx_mem" where
  "toy_tx vins = btc_tx_add_vout_spk (btc_tx_init\<lparr>tm_vin := Some vins, tm_vin_cnt := length vins\<rparr>)
     1000 [0x00, 0x14]"

lemma create_tx_fits_witness:
  "btcl_util_create_tx (toy_tx [toy_vin [[1, 2]], toy_vin []]) True = Inl Write_Overrun \<and>
   btcl_util_create_tx (toy_tx [toy_vin [[1, 2]], toy_vin [[], [3]]]) True =
     Inr (True, tx_bytes True (toy_tx [toy_vin [[1, 2]], toy_vin [[], [3]]]))"
proof -
  have wf: "wf_tx (toy_tx [toy_vin [[1, 2]], toy_vin []])"
    "wf_tx (toy_tx [toy_vin [[1, 2]], toy_vin [[], [3]]])"
    by (simp_all add: wf_tx_def toy_tx_def btc_tx_add_vout_spk_def c_grow_def btc_tx_init_def
        vins_of_def vouts_of_def wf_vin_def wits_of_def toy_vin_def)
  show ?thesis
    using create_tx_fits [OF wf(1), of True] create_tx_fits [OF wf(2), of True]
    by (simp add: vins_of_def toy_tx_def btc_tx_add_vout_spk_def btc_tx_init_def toy_vin_def)
qed

lemma tx_roundtrip_witness:
  "\<exists>b. btc_tx_create (toy_tx [toy_vin [[1, 2]], toy_vin [[], [3]]]) = Inr (True, b) \<and>
    btc_tx_read toy_fresh btc_tx_init b (length b) =
      Some (Inr (True, reread_opts toy_fresh (toy_tx [toy_vin [[1, 2]], toy_vin [[], [3]]])))"
proof (rule tx_roundtrip)
  show "tx_sendable (toy_tx [toy_vin [[1, 2]], toy_vin [[], [3]]])"
    by (simp add: tx_sendable_def toy_tx_def btc_tx_add_vout_spk_def c_grow_def btc_tx_init_def
        vins_of_def vouts_of_def vin_ok_def wit_ok_def wits_of_def toy_vin_def)
qed

text \<open>
  A transaction of 51 bytes whose first input announces a script of 252 bytes: the reader stands
  still. And an input without witness in a transaction with witnesses: it is read with a count of
  0 and a pointer that is not NULL, which \<open>btc_tx_is_valid\<close> rejects.
\<close>

lemma read_stands_still:
  assumes "length z = 36" "length y = 9"
  shows "btc_tx_read fr t ([2, 0, 0, 0, 1] @ z @ [0xfc] @ y) 51 = None"
proof -
  define d where "d = [2, 0, 0, 0, 1] @ z @ [0xfc :: byte] @ y"
  have len: "length d = 51" using assms by (simp add: d_def)
  define t1 where "t1 = t\<lparr>tm_version := 2\<rparr>"
  define st where "st = \<lparr>rd_pos = 5, rd_state = 1, rd_cnt = 0,
    rd_tx = t1\<lparr>tm_vin_cnt := 1, tm_vin := Some [fr_vin fr]\<rparr>\<rparr>"
  obtain z0 z' where z: "z = z0 # z'" using assms(1) by (cases z) auto
  have "drop 4 d = 1 # z @ [0xfc] @ y" "drop 41 d = 0xfc # y"
    using assms(1) by (simp_all add: d_def drop_append)
  then have v: "get_varint (drop 4 d) = Inr (1, 1)" "get_varint (drop 41 d) = Inr (252, 1)"
    by (simp_all add: get_varint_def VARINT_3BYTE_MIN_def)
  have "rd_step fr False d 51 (rd_start False t1) = Inr st"
    by (simp add: rd_step_def rd_start_def rd_vin_cnt_def v st_def)
  then have "rd_loop fr False d 51 (rd_start False t1) = rd_loop fr False d 51 st"
    by (intro rd_loop_pass) (simp_all add: rd_start_def)
  also have "rd_stuck d 51 st" by (simp add: rd_stuck_def st_def v)
  then have "rd_loop fr False d 51 st = None" by (rule rd_stuck_loop)
  finally have "rd_loop fr False d 51 (rd_start False t1) = None" .
  moreover have "get_le32 d = Inr 2"
    by (simp add: get_le32_def d_def shl_def)
  moreover have "c_bytes d 4 2 = Inr [1, z0]" using len by (simp add: c_bytes_def d_def z)
  ultimately show ?thesis unfolding d_def [symmetric] by (simp add: btc_tx_read_def Let_def t1_def)
qed

lemma no_witness_reread_invalid:
  assumes "rd_at d (rd_pos st) (count_bytes 0 @ r)" "4 \<le> length r"
    "tm_vin (rd_tx st) = Some xs" "length xs = tm_vin_cnt (rd_tx st)" "rd_cnt st < length xs"
    "rd_witness fr d (length d) st = Inr st'" "tm_vin (rd_tx st') = Some ys"
  shows "vins_valid [ys ! rd_cnt st] = BTC_TXVALID_VIN_WIT_BAD"
proof -
  define v where "v = (strip_wit (fr_vin fr))"
  have "wit_bytes v = count_bytes 0" "wits_of v = []" "vi_wit_cnt v = 0"
    by (simp_all add: v_def strip_wit_def wit_bytes_def wits_of_def)
  with rd_witness_at [of d st v r xs fr] assms show ?thesis by auto
qed

end
