(* ===== verification/Btc_Sw.thy ===== *)
theory Btc_Sw
  imports Btc_Wire Channel_Open
begin

text \<open>
  \<^verbatim>\<open>btc/btc_sw.c\<close>: the hash that a witness signature signs, the witness of an input and the
  check of a 2-of-2 witness, and on top of them the functions of \<^verbatim>\<open>ln/ln.c\<close> that sign and verify
  the transactions spending the funding output. The channel theories take signing and verifying as
  operations \<open>tx_sign\<close> and \<open>tx_verify_2of2\<close> of their environment; here these operations are
  given by the code, and shown to do what the channel theories rely on. \<open>hash256\<close> (SHA-256
  twice), \<open>sha\<close>, the hash \<open>h160\<close> of a key and the ECDSA functions \<open>sign\<close> and \<open>verify\<close> are mbedtls.
\<close>

section \<open>Script codes\<close>

definition btc_sw_scriptcode_p2wpkh :: "(bytes \<Rightarrow> bytes) \<Rightarrow> bytes \<Rightarrow> bytes" where
  "btc_sw_scriptcode_p2wpkh h160 pPubKey =
     [0x19, 0x76, 0xa9, 20] @ take 20 (h160 (take BTC_SZ_PUBKEY pPubKey)) @ [0x88, 0xac]"

definition btc_sw_scriptcode_p2wpkh_vin :: "(bytes \<Rightarrow> bytes) \<Rightarrow> btc_vin_t \<Rightarrow> bytes c_result" where
  "btc_sw_scriptcode_p2wpkh_vin h160 pVin =
     check_c (vi_wit_cnt pVin = 2) (
     bind_c (c_index (vi_witness pVin) 1) (\<lambda>pk. bind_c (c_bytes pk 0 BTC_SZ_PUBKEY) (\<lambda>pk.
       Inr (btc_sw_scriptcode_p2wpkh h160 pk))))"

definition btc_sw_scriptcode_p2wsh :: "bytes \<Rightarrow> bytes" where
  "btc_sw_scriptcode_p2wsh pWit = fst (btcl_util_set_varint_len [] (length pWit) False) @ pWit"

definition btc_sw_scriptcode_p2wsh_vin :: "btc_vin_t \<Rightarrow> bytes c_result" where
  "btc_sw_scriptcode_p2wsh_vin pVin =
     check_c (vi_wit_cnt pVin \<noteq> 0) (
     bind_c (c_index (vi_witness pVin) (vi_wit_cnt pVin - 1)) (\<lambda>w. Inr (btc_sw_scriptcode_p2wsh w)))"

section \<open>The signature hash\<close>

text \<open>
  The four blocks are allocated with the sum of what is then stored in them. The length of a
  script is stored in one byte.
\<close>

definition sw_prevouts :: "btc_vin_t list \<Rightarrow> bytes" where
  "sw_prevouts vins = concat (map (\<lambda>v. vi_txid v @ set_le32 (vi_index v)) vins)"

definition sw_sequence :: "btc_vin_t list \<Rightarrow> bytes" where
  "sw_sequence vins = concat (map (\<lambda>v. set_le32 (vi_sequence v)) vins)"

definition sw_outputs :: "btc_vout_t list \<Rightarrow> bytes" where
  "sw_outputs vouts = concat (map (\<lambda>v. set_le64 (vout_value v) @
     of_nat (length (vout_script v)) # vout_script v) vouts)"

definition btc_sw_sighash ::
  "(bytes \<Rightarrow> bytes) \<Rightarrow> btc_tx_mem \<Rightarrow> nat \<Rightarrow> u64 \<Rightarrow> bytes \<Rightarrow> bytes c_result" where
  "btc_sw_sighash hash256 pTx Index Value pScriptCode =
     bind_c (btc_tx_is_valid (Some pTx)) (\<lambda>txvld.
     check_c (txvld = BTC_TXVALID_OK) (
     bind_c (c_array (tm_vin pTx) (tm_vin_cnt pTx)) (\<lambda>vins.
     bind_c (c_index (tm_vin pTx) Index) (\<lambda>vin_now.
     bind_c (c_array (tm_vout pTx) (tm_vout_cnt pTx)) (\<lambda>vouts.
       Inr (hash256 (set_le32 (tm_version pTx) @ hash256 (sw_prevouts vins) @
         hash256 (sw_sequence vins) @ vi_txid vin_now @ set_le32 (vi_index vin_now) @ pScriptCode @
         set_le64 Value @ set_le32 (vi_sequence vin_now) @ hash256 (sw_outputs vouts) @
         set_le32 (tm_locktime pTx) @ set_le32 1)))))))"

definition btc_util_calc_sighash_p2wsh ::
  "(bytes \<Rightarrow> bytes) \<Rightarrow> btc_tx_mem \<Rightarrow> nat \<Rightarrow> u64 \<Rightarrow> bytes \<Rightarrow> bytes c_result" where
  "btc_util_calc_sighash_p2wsh hash256 pTx Index Value pWitScript =
     bind_c (btc_tx_is_valid (Some pTx)) (\<lambda>txvalid.
     check_c (txvalid = BTC_TXVALID_OK)
       (btc_sw_sighash hash256 pTx Index Value (btc_sw_scriptcode_p2wsh pWitScript)))"

section \<open>Witnesses\<close>

definition vin_update :: "btc_tx_mem \<Rightarrow> nat \<Rightarrow> (btc_vin_t \<Rightarrow> btc_vin_t) \<Rightarrow> btc_tx_mem c_result" where
  \<comment> \<open>\<open>vin = &(pTx->vin[Index])\<close> and the stores through it\<close>
  "vin_update pTx Index f =
     bind_c (c_index (tm_vin pTx) Index) (\<lambda>vin.
     bind_c (c_store (tm_vin pTx) Index (f vin)) (\<lambda>vins. Inr (pTx\<lparr>tm_vin := vins\<rparr>)))"

definition btc_sw_set_vin_p2wpkh ::
  "(bytes \<Rightarrow> bytes) \<Rightarrow> bool \<Rightarrow> btc_tx_mem \<Rightarrow> nat \<Rightarrow> bytes \<Rightarrow> bytes \<Rightarrow> btc_tx_mem c_result" where
  "btc_sw_set_vin_p2wpkh h160 native pTx Index pSig pPubKey =
     vin_update pTx Index (\<lambda>vin.
       let vin = vin\<lparr>vi_script := (if native then []
             else [0x16, 0x00, 20] @ take 20 (h160 (take BTC_SZ_PUBKEY pPubKey))), vi_wit_cnt := 0\<rparr>
       in btc_tx_add_wit (btc_tx_add_wit vin pSig) (take BTC_SZ_PUBKEY pPubKey))"

definition btc_sw_set_vin_p2wsh ::
  "(bytes \<Rightarrow> bytes) \<Rightarrow> bool \<Rightarrow> btc_tx_mem \<Rightarrow> nat \<Rightarrow> bytes list \<Rightarrow> btc_tx_mem c_result" where
  "btc_sw_set_vin_p2wsh sha native pTx Index pWits =
     vin_update pTx Index (\<lambda>vin.
       let vin = vin\<lparr>vi_script := (if native then vi_script vin
             else [0x22, 0x00, 32] @ sha (last pWits)), vi_wit_cnt := 0\<rparr>
       in fold (\<lambda>w v. btc_tx_add_wit v w) pWits vin)"

definition SIGHASH_ALL :: byte where "SIGHASH_ALL = 0x01"
definition BTC_SZ_2OF2 :: nat where "BTC_SZ_2OF2 = 71"

definition btc_sw_verify_2of2 ::
  "(bytes \<Rightarrow> bytes) \<Rightarrow> (bytes \<Rightarrow> bytes \<Rightarrow> bytes \<Rightarrow> bool) \<Rightarrow> btc_tx_mem \<Rightarrow> nat \<Rightarrow> bytes \<Rightarrow> bytes \<Rightarrow> bool c_result" where
  "btc_sw_verify_2of2 sha verify pTx Index pTxHash pVout =
     bind_c (c_index (tm_vin pTx) Index) (\<lambda>vin.
     check_c (vi_wit_cnt vin = 4) (
     bind_c (c_array (vi_witness vin) 4) (\<lambda>wits.
     let sig1 = wits ! 1; sig2 = wits ! 2; p = wits ! 3 in
     check_c (wits ! 0 = []) (
     check_c (sig1 \<noteq> [] \<and> last sig1 = SIGHASH_ALL) (
     check_c (sig2 \<noteq> [] \<and> last sig2 = SIGHASH_ALL) (
     check_c (length p = BTC_SZ_2OF2) (
     check_c (p ! 0 = 0x52 \<and> p ! 1 = of_nat BTC_SZ_PUBKEY \<and> p ! 35 = of_nat BTC_SZ_PUBKEY \<and>
              p ! 69 = 0x52 \<and> p ! 70 = BTC_OP_CHECKMULTISIG) (
     bind_c (c_bytes pVout 0 1) (\<lambda>v0. check_c (v0 = [0x00]) (
     bind_c (c_bytes pVout 1 1) (\<lambda>v1. check_c (v1 = [32]) (
     bind_c (c_bytes pVout 2 32) (\<lambda>prog. check_c (sha p = prog) (
     check_c (verify sig1 pTxHash (take BTC_SZ_PUBKEY (drop 2 p))) (
     check_c (verify sig2 pTxHash (take BTC_SZ_PUBKEY (drop 36 p))) (
       Inr True))))))))))))))))"

section \<open>The transactions of a channel\<close>

definition set_vin_p2wsh_2of2 ::
  "(bytes \<Rightarrow> bytes) \<Rightarrow> bool \<Rightarrow> btc_tx_mem \<Rightarrow> nat \<Rightarrow> bool \<Rightarrow> bytes \<Rightarrow> bytes \<Rightarrow> bytes \<Rightarrow> btc_tx_mem c_result" where
  \<comment> \<open>\<open>asc\<close>: \<open>Sort == BTC_KEYS_SORT_ASC\<close>\<close>
  "set_vin_p2wsh_2of2 sha native pTx Index asc pSig1 pSig2 pWit2of2 =
     btc_sw_set_vin_p2wsh sha native pTx Index
       (if asc then [[], pSig1, pSig2, pWit2of2] else [[], pSig2, pSig1, pWit2of2])"

text \<open>
  The transactions of the channel theories in memory: version 2 and the one input, which spends the
  funding output (\<open>btc_tx_init\<close>, \<open>btc_tx_add_vin\<close>, then sequence and locktime).
\<close>

definition tx_mem_of :: "btc_tx_t \<Rightarrow> btc_tx_mem" where
  "tx_mem_of tx =
     (let t = btc_tx_add_vin btc_tx_init (vin_txid tx) (vin_index tx) in
      t\<lparr>tm_vin := map_option (map (\<lambda>v. v\<lparr>vi_sequence := vin_sequence tx\<rparr>)) (tm_vin t),
        tm_vout := (if tx_vout tx = [] then None else Some (tx_vout tx)),
        tm_vout_cnt := length (tx_vout tx), tm_locktime := tx_locktime tx\<rparr>)"

text \<open>\<open>ln_signer_p2wsh\<close> of the signature hash, as \<open>ln_script_committx_create\<close> and \<open>create_closing_tx\<close> do.\<close>

definition sign_funding_spend ::
  "(bytes \<Rightarrow> bytes) \<Rightarrow> (bytes \<Rightarrow> bytes option) \<Rightarrow> btc_tx_t \<Rightarrow> u64 \<Rightarrow> bytes \<Rightarrow> bytes option" where
  "sign_funding_spend hash256 sign tx sat redeem =
     (case btc_util_calc_sighash_p2wsh hash256 (tx_mem_of tx) 0 sat redeem of
        Inr h \<Rightarrow> sign h | Inl _ \<Rightarrow> None)"

text \<open>
  \<open>create_to_local_sign_verify\<close> from the expanded signature on (ptarmd sets \<open>mNativeSegwit\<close>), and the second half of
  \<open>create_closing_tx\<close>: both set the witness, compute the hash and verify against the output script
  \<open>vout\<close> of the funding transaction.
\<close>

definition verify_funding_spend ::
  "(bytes \<Rightarrow> bytes) \<Rightarrow> (bytes \<Rightarrow> bytes) \<Rightarrow> (bytes \<Rightarrow> bytes \<Rightarrow> bytes \<Rightarrow> bool) \<Rightarrow> bool \<Rightarrow> bytes \<Rightarrow>
   btc_tx_t \<Rightarrow> u64 \<Rightarrow> bytes \<Rightarrow> bytes \<Rightarrow> bytes \<Rightarrow> bool c_result" where
  "verify_funding_spend hash256 sha verify asc vout tx sat redeem own remote =
     bind_c (set_vin_p2wsh_2of2 sha True (tx_mem_of tx) 0 asc own remote redeem) (\<lambda>t.
     bind_c (btc_sw_sighash hash256 t 0 sat (btc_sw_scriptcode_p2wsh redeem)) (\<lambda>sighash.
       btc_sw_verify_2of2 sha verify t 0 sighash vout))"

section \<open>The hash of BIP 143\<close>

definition bip143_preimage ::
  "(bytes \<Rightarrow> bytes) \<Rightarrow> btc_tx_mem \<Rightarrow> nat \<Rightarrow> u64 \<Rightarrow> bytes \<Rightarrow> bytes \<Rightarrow> bytes" where
  \<comment> \<open>\<open>outs\<close>: the outputs in the format of a transaction\<close>
  "bip143_preimage h tx i amount scriptCode outs =
     set_le32 (tm_version tx) @
     h (concat (map (\<lambda>v. vi_txid v @ set_le32 (vi_index v)) (vins_of tx))) @
     h (concat (map (\<lambda>v. set_le32 (vi_sequence v)) (vins_of tx))) @
     vi_txid (vins_of tx ! i) @ set_le32 (vi_index (vins_of tx ! i)) @ scriptCode @
     set_le64 amount @ set_le32 (vi_sequence (vins_of tx ! i)) @ h outs @
     set_le32 (tm_locktime tx) @ set_le32 1"

lemma wf_tx_index:
  assumes "wf_tx tx" "i < tm_vin_cnt tx"
  shows "c_index (tm_vin tx) i = Inr (vins_of tx ! i)"
  using assms by (auto simp: wf_tx_def vins_of_def c_index_def split: option.splits)

lemma sighash_eq:
  assumes "wf_tx tx" "btc_tx_is_valid (Some tx) = Inr BTC_TXVALID_OK" "i < tm_vin_cnt tx"
  shows "btc_sw_sighash h tx i amount sc =
    Inr (h (bip143_preimage h tx i amount sc (sw_outputs (vouts_of tx))))"
  using assms by (simp add: btc_sw_sighash_def wf_tx_index c_array_parts wf_tx_def
      bip143_preimage_def sw_prevouts_def sw_sequence_def)

lemma sw_outputs_short:
  "\<forall>v\<in>set vs. length (vout_script v) < 0xfd \<Longrightarrow> sw_outputs vs = concat (map put_vout vs)"
  by (induction vs) (simp_all add: sw_outputs_def put_vout_def put_var_eq count_bytes_def)

lemma sw_outputs_length:
  "length (sw_outputs vs) \<le> length (concat (map put_vout vs))"
  "v \<in> set vs \<Longrightarrow> 0xfd \<le> length (vout_script v) \<Longrightarrow>
     length (sw_outputs vs) < length (concat (map put_vout vs))"
proof -
  have one: "length (put_vout v) = 8 + btcl_util_get_varint_len (length (vout_script v)) +
      length (vout_script v)" for v
    by (simp add: length_put_vout vout_len_def)
  show le: "length (sw_outputs vs) \<le> length (concat (map put_vout vs))" for vs
    by (induction vs) (simp_all add: sw_outputs_def one btcl_util_get_varint_len_def)
  show "v \<in> set vs \<Longrightarrow> 0xfd \<le> length (vout_script v) \<Longrightarrow>
     length (sw_outputs vs) < length (concat (map put_vout vs))"
  proof (induction vs)
    case (Cons a vs)
    then show ?case using le [of vs]
      by (auto simp: sw_outputs_def one btcl_util_get_varint_len_def VARINT_3BYTE_MIN_def)
  qed simp
qed

text \<open>
  C25: The signature hash. For a valid transaction and an input of it, \<open>btc_sw_sighash\<close> returns the
  hash of the preimage that BIP 143 prescribes, except for how it writes the outputs; and it writes
  them in the format of BIP 143 exactly when no output script is longer than 252 bytes (a longer one
  gets a one-byte length).
\<close>

theorem sighash_bip143:
  assumes "wf_tx tx" "btc_tx_is_valid (Some tx) = Inr BTC_TXVALID_OK" "i < tm_vin_cnt tx"
  shows "btc_sw_sighash hash256 tx i amount sc =
      Inr (hash256 (bip143_preimage hash256 tx i amount sc (sw_outputs (vouts_of tx)))) \<and>
    (sw_outputs (vouts_of tx) = concat (map put_vout (vouts_of tx)) \<longleftrightarrow>
      (\<forall>v\<in>set (vouts_of tx). length (vout_script v) < 0xfd))"
proof
  show "sw_outputs (vouts_of tx) = concat (map put_vout (vouts_of tx)) \<longleftrightarrow>
      (\<forall>v\<in>set (vouts_of tx). length (vout_script v) < 0xfd)"
    using sw_outputs_short [of "vouts_of tx"] sw_outputs_length(2) [of _ "vouts_of tx"]
    by (metis less_irrefl not_le)
qed (rule sighash_eq [OF assms])

section \<open>Signing and verifying a spend of the funding output\<close>

definition spend_hash :: "(bytes \<Rightarrow> bytes) \<Rightarrow> btc_tx_t \<Rightarrow> u64 \<Rightarrow> bytes \<Rightarrow> bytes" where
  "spend_hash h tx sat redeem =
     h (bip143_preimage h (tx_mem_of tx) 0 sat (put_var redeem) (sw_outputs (tx_vout tx)))"

lemma tx_mem_of_parts [simp]:
  "tm_version (tx_mem_of tx) = 2" "tm_vin_cnt (tx_mem_of tx) = 1"
  "tm_vout_cnt (tx_mem_of tx) = length (tx_vout tx)" "tm_locktime (tx_mem_of tx) = tx_locktime tx"
  "tm_vin (tx_mem_of tx) = Some [\<lparr>vi_txid = take 32 (vin_txid tx), vi_index = vin_index tx,
     vi_script = [], vi_wit_cnt = 0, vi_witness = None, vi_sequence = vin_sequence tx\<rparr>]"
  "tm_vout (tx_mem_of tx) = (if tx_vout tx = [] then None else Some (tx_vout tx))"
  by (simp_all add: tx_mem_of_def btc_tx_add_vin_def btc_tx_init_def c_grow_def Let_def)

lemma vouts_of_tx_mem [simp]: "vouts_of (tx_mem_of tx) = tx_vout tx"
  by (simp add: vouts_of_def)

definition spendable :: "btc_tx_t \<Rightarrow> bool" where
  \<comment> \<open>what \<open>btc_tx_is_valid\<close> asks of the transaction of a channel\<close>
  "spendable tx \<longleftrightarrow> length (vin_txid tx) = 32 \<and> tx_vout tx \<noteq> [] \<and> vouts_valid (tx_vout tx) = BTC_TXVALID_OK"

lemma spendable_wf: "spendable tx \<Longrightarrow> wf_tx (tx_mem_of tx)"
  by (simp add: spendable_def wf_tx_def vins_of_def wf_vin_def wits_of_def)

lemma spendable_valid: "spendable tx \<Longrightarrow> btc_tx_is_valid (Some (tx_mem_of tx)) = Inr BTC_TXVALID_OK"
  by (simp add: spendable_def btc_tx_is_valid_def c_array_def)

lemma sign_funding_spend_eq:
  "spendable tx \<Longrightarrow> sign_funding_spend h sign tx sat redeem = sign (spend_hash h tx sat redeem)"
  by (simp add: sign_funding_spend_def btc_util_calc_sighash_p2wsh_def spendable_valid
      sighash_eq [OF spendable_wf spendable_valid] spend_hash_def btc_sw_scriptcode_p2wsh_def put_var_def
      set_varint_bytes)

lemma set_vin_2of2:
  "set_vin_p2wsh_2of2 sha True (tx_mem_of tx) 0 asc s1 s2 ws =
     Inr ((tx_mem_of tx)\<lparr>tm_vin := Some [\<lparr>vi_txid = take 32 (vin_txid tx), vi_index = vin_index tx,
       vi_script = [], vi_wit_cnt = 4,
       vi_witness = Some (if asc then [[], s1, s2, ws] else [[], s2, s1, ws]),
       vi_sequence = vin_sequence tx\<rparr>]\<rparr>)"
  by (simp add: set_vin_p2wsh_2of2_def btc_sw_set_vin_p2wsh_def vin_update_def c_index_def c_store_def
      Let_def btc_tx_add_wit_def c_grow_def)

lemma sighash_witness:
  assumes "spendable tx"
  shows "btc_sw_sighash h ((tx_mem_of tx)\<lparr>tm_vin := Some [\<lparr>vi_txid = take 32 (vin_txid tx),
      vi_index = vin_index tx, vi_script = [], vi_wit_cnt = 4, vi_witness = Some [w0, w1, w2, w3],
      vi_sequence = vin_sequence tx\<rparr>]\<rparr>) 0 sat (btc_sw_scriptcode_p2wsh redeem) =
    Inr (spend_hash h tx sat redeem)"
proof -
  let ?t = "(tx_mem_of tx)\<lparr>tm_vin := Some [\<lparr>vi_txid = take 32 (vin_txid tx),
      vi_index = vin_index tx, vi_script = [], vi_wit_cnt = 4, vi_witness = Some [w0, w1, w2, w3],
      vi_sequence = vin_sequence tx\<rparr>]\<rparr>"
  have vo: "vouts_of ?t = tx_vout tx" by (simp add: vouts_of_def)
  have wf: "wf_tx ?t" using assms
    by (simp add: wf_tx_def vo) (simp add: spendable_def vins_of_def wf_vin_def wits_of_def)
  have valid: "btc_tx_is_valid (Some ?t) = Inr BTC_TXVALID_OK"
    using assms by (simp add: spendable_def btc_tx_is_valid_def c_array_def)
  have sc: "btc_sw_scriptcode_p2wsh redeem = put_var redeem"
    by (simp add: btc_sw_scriptcode_p2wsh_def put_var_def set_varint_bytes)
  show ?thesis
    by (subst sighash_eq [OF wf valid])
      (simp_all add: spend_hash_def sc vo bip143_preimage_def vins_of_def)
qed

lemma length_2of2: "length k1 = 33 \<Longrightarrow> length k2 = 33 \<Longrightarrow> length (btc_keys_create2of2 k1 k2) = 71"
  by (simp add: btc_keys_create2of2_def)

lemma keys_2of2:
  assumes "length k1 = 33" "length k2 = 33"
  defines "p \<equiv> btc_keys_create2of2 k1 k2"
  shows "p ! 0 = 0x52" "p ! Suc 0 = 33" "p ! 35 = 33" "p ! 69 = 0x52"
    "p ! 70 = BTC_OP_CHECKMULTISIG" "take 33 (drop 2 p) = k1" "take 33 (drop 36 p) = k2"
  using assms by (simp_all add: btc_keys_create2of2_def nth_append nth_Cons')

lemma last_der_sig: "der_sig rs \<noteq> [] \<and> last (der_sig rs) = SIGHASH_ALL"
  by (simp add: der_sig_def Let_def SIGHASH_ALL_def)

lemma verify_2of2_eq:
  assumes "c_index (tm_vin t) 0 = Inr v" "vi_wit_cnt v = 4"
    "vi_witness v = Some [[], der_sig a, der_sig b, btc_keys_create2of2 k1 k2]"
    "length k1 = 33" "length k2 = 33" "\<forall>x. length (sha x) = 32"
  shows "btc_sw_verify_2of2 sha verify t 0 h (btc_sw_wit2prog_p2wsh sha (btc_keys_create2of2 k1 k2)) =
    (if verify (der_sig a) h k1 \<and> verify (der_sig b) h k2 then Inr True else Inl Ret_False)"
  using assms last_der_sig [of a] last_der_sig [of b]
  by (simp add: btc_sw_verify_2of2_def c_array_def Let_def keys_2of2 length_2of2 BTC_SZ_2OF2_def
      btc_sw_wit2prog_p2wsh_def c_bytes_def check_c_def)

lemma verify_funding_spend_eq:
  assumes "spendable tx" "length own = 33" "length remote = 33" "\<forall>x. length (sha x) = 32"
    and redeem: "btc_util_create2of2 own remote = (redeem, asc)"
  shows "verify_funding_spend h sha verify asc (btc_sw_wit2prog_p2wsh sha redeem) tx sat redeem
      (der_sig a) (der_sig b) =
    (if verify (der_sig a) (spend_hash h tx sat redeem) own \<and>
        verify (der_sig b) (spend_hash h tx sat redeem) remote then Inr True else Inl Ret_False)"
proof -
  define k1 k2 x y where "k1 = (if asc then own else remote)" and "k2 = (if asc then remote else own)"
    and "x = (if asc then a else b)" and "y = (if asc then b else a)"
  have k: "length k1 = 33" "length k2 = 33" using assms by (simp_all add: k1_def k2_def)
  have r: "redeem = btc_keys_create2of2 k1 k2"
    using redeem by (auto simp: btc_util_create2of2_def k1_def k2_def split: if_splits)
  define v where "v = \<lparr>vi_txid = take 32 (vin_txid tx), vi_index = vin_index tx, vi_script = [],
    vi_wit_cnt = 4, vi_witness = Some [[], der_sig x, der_sig y, redeem], vi_sequence = vin_sequence tx\<rparr>"
  define t where "t = (tx_mem_of tx)\<lparr>tm_vin := Some [v]\<rparr>"
  have set: "set_vin_p2wsh_2of2 sha True (tx_mem_of tx) 0 asc (der_sig a) (der_sig b) redeem = Inr t"
    unfolding set_vin_2of2 t_def v_def x_def y_def by simp
  have hash: "btc_sw_sighash h t 0 sat (btc_sw_scriptcode_p2wsh redeem) = Inr (spend_hash h tx sat redeem)"
    unfolding t_def v_def by (rule sighash_witness [OF assms(1)])
  have "c_index (tm_vin t) 0 = Inr v" "vi_wit_cnt v = 4"
    "vi_witness v = Some [[], der_sig x, der_sig y, btc_keys_create2of2 k1 k2]"
    by (simp_all add: t_def v_def c_index_def r)
  from verify_2of2_eq [OF this k assms(4), where h = "spend_hash h tx sat redeem" and verify = verify]
  show ?thesis
    unfolding verify_funding_spend_def set bind_c_simps hash
    by (cases asc) (auto simp: k1_def k2_def x_def y_def r)
qed

text \<open>
  The operations of a node's environment given by the code. The output script of the funding
  transaction is the witness program of \<open>redeem_fund\<close>.
\<close>

definition node_crypto ::
  "(bytes \<Rightarrow> bytes) \<Rightarrow> (bytes \<Rightarrow> bytes) \<Rightarrow> (bytes \<Rightarrow> bytes option) \<Rightarrow> (bytes \<Rightarrow> bytes \<Rightarrow> bytes \<Rightarrow> bool) \<Rightarrow>
   ln_self_t \<Rightarrow> 'p ln_env \<Rightarrow> 'p ln_env" where
  "node_crypto hash256 sha sign verify self env =
     env\<lparr>tx_sign := sign_funding_spend hash256 sign,
         tx_verify_2of2 := (\<lambda>tx sat redeem own remote.
           verify_funding_spend hash256 sha verify (key_fund_local_first self)
             (btc_sw_wit2prog_p2wsh sha redeem) tx sat redeem own remote = Inr True)\<rparr>"

definition fund_keys :: "ln_self_t \<Rightarrow> bytes \<Rightarrow> bytes \<Rightarrow> bool" where
  \<comment> \<open>the state after \<open>btc_util_create2of2\<close> on the two funding keys\<close>
  "fund_keys self own remote \<longleftrightarrow> length own = 33 \<and> length remote = 33 \<and>
     btc_util_create2of2 own remote = (redeem_fund self, key_fund_local_first self)"

lemma node_crypto_sign:
  "spendable tx \<Longrightarrow> tx_sign (node_crypto h sha sign verify self env) tx sat redeem =
     sign (spend_hash h tx sat redeem)"
  by (simp add: node_crypto_def sign_funding_spend_eq)

lemma node_crypto_verify:
  assumes "spendable tx" "fund_keys self own remote" "\<forall>x. length (sha x) = 32"
  shows "tx_verify_2of2 (node_crypto h sha sign verify self env) tx sat (redeem_fund self)
      (der_sig a) (der_sig b) \<longleftrightarrow>
    verify (der_sig a) (spend_hash h tx sat (redeem_fund self)) own \<and>
    verify (der_sig b) (spend_hash h tx sat (redeem_fund self)) remote"
proof -
  have k: "length own = 33" "length remote = 33"
    "btc_util_create2of2 own remote = (redeem_fund self, key_fund_local_first self)"
    using assms(2) by (simp_all add: fund_keys_def)
  show ?thesis
    by (simp add: node_crypto_def verify_funding_spend_eq [OF assms(1) k(1,2) assms(3) k(3)])
qed

text \<open>
  C20: The check of a received \<open>commitment_signed\<close>, down to the key. When signing and verifying are
  the code of \<^verbatim>\<open>btc_sw.c\<close> over an ECDSA, \<open>create_to_local_sign_verify\<close> accepts the two signatures for
  a commitment transaction exactly when the own one verifies under the own funding key and the one in
  \<open>commit_local\<close> under the funding key of the peer, both over the hash that the signer of either side
  signs; whichever of the two keys sorts first in the script.
\<close>

theorem commit_verify_refines:
  assumes "spendable tx" "fund_keys self own remote" "\<forall>x. length (sha x) = 32"
    and "length (cd_signature (commit_local self)) = LN_SZ_SIGNATURE"
  shows "create_to_local_sign_verify (node_crypto hash256 sha sign verify self env) self tx (der_sig a) =
      Inr (verify (der_sig a) (spend_hash hash256 tx (funding_sat self) (redeem_fund self)) own \<and>
        verify (der_sig (cd_signature (commit_local self)))
          (spend_hash hash256 tx (funding_sat self) (redeem_fund self)) remote) \<and>
    tx_sign (node_crypto hash256 sha sign verify self env) tx (funding_sat self) (redeem_fund self) =
      sign (spend_hash hash256 tx (funding_sat self) (redeem_fund self))"
  using assms(4)
  by (simp add: create_to_local_sign_verify_def ln_misc_sigexpand_eq node_crypto_verify [OF assms(1-3)]
      node_crypto_sign [OF assms(1)])

text \<open>
  The two nodes of a channel: with ECDSA functions that fit together, the signatures that both make
  for a transaction verify at both, as the channel theories assume of their environments.
\<close>

theorem funding_spend_mutual:
  assumes "spendable tx" "fund_keys f kf kg" "fund_keys g kg kf" "\<forall>x. length (sha x) = 32"
    and "\<And>h s. signf h = Some s \<Longrightarrow> verify s h kf" "\<And>h s. signg h = Some s \<Longrightarrow> verify s h kg"
    and "tx_sign (node_crypto hash256 sha signf verify f ef) tx sat (redeem_fund f) = Some (der_sig a)"
    and "tx_sign (node_crypto hash256 sha signg verify g eg) tx sat (redeem_fund f) = Some (der_sig b)"
  shows "tx_verify_2of2 (node_crypto hash256 sha signf verify f ef) tx sat (redeem_fund f) (der_sig a) (der_sig b) \<and>
    tx_verify_2of2 (node_crypto hash256 sha signg verify g eg) tx sat (redeem_fund f) (der_sig b) (der_sig a)"
proof -
  have r: "redeem_fund g = redeem_fund f"
    using assms(2,3) redeem_sym [of kf kg] by (simp add: fund_keys_def)
  show ?thesis
    using assms(5-8) by (simp add: node_crypto_verify [OF assms(1,2,4)]
        node_crypto_verify [OF assms(1,3,4), unfolded r] node_crypto_sign [OF assms(1)])
qed

lemma signable_spendable: "signable_tx tx \<Longrightarrow> spendable tx"
proof -
  have "(\<forall>v\<in>set vs. vout_script v \<noteq> [] \<and> vout_value v \<noteq> 0) \<Longrightarrow> vouts_valid vs = BTC_TXVALID_OK" for vs
    by (induction vs) (auto split: list.splits)
  then show "signable_tx tx \<Longrightarrow> spendable tx"
    by (simp add: signable_tx_def spendable_def BTC_SZ_TXID_def)
qed

definition ecdsa_key :: "(bytes \<Rightarrow> bytes option) \<Rightarrow> (bytes \<Rightarrow> bytes \<Rightarrow> bytes \<Rightarrow> bool) \<Rightarrow> bytes \<Rightarrow> bool" where
  \<comment> \<open>\<open>sign\<close> signs with the private key of the public key \<open>k\<close>\<close>
  "ecdsa_key sign verify k \<longleftrightarrow>
     (\<forall>h. length h = BTC_SZ_HASH256 \<longrightarrow> (\<exists>rs. length rs = LN_SZ_SIGNATURE \<and> sign h = Some (der_sig rs))) \<and>
     (\<forall>h s. sign h = Some s \<longrightarrow> verify s h k)"

text \<open>
  C21: The signers of a channel. The theories on opening and closing a channel ask of its two sides
  that each signs every transaction on the funding output and that both verify the two signatures
  (\<open>mutual_signers\<close>). The code meets this: with the two funding keys in the script, in the order of
  either side, and private keys that make an ECDSA signature of every 32-byte hash, which verifies under
  the public key, the functions of \<^verbatim>\<open>btc_sw.c\<close> sign every transaction whose outputs have a script and a value, and
  at either side the signatures of the two verify, in the order in which that side holds them.
\<close>

theorem node_crypto_signers:
  assumes "fund_keys f kf kg" "fund_keys g kg kf" "\<forall>x. length (sha x) = 32"
    "\<forall>x. length (hash256 x) = BTC_SZ_HASH256" "ecdsa_key signf verify kf" "ecdsa_key signg verify kg"
  shows "mutual_signers (node_crypto hash256 sha signf verify f ef) (node_crypto hash256 sha signg verify g eg)
    (redeem_fund f)"
proof -
  have h: "length (spend_hash hash256 tx v r) = BTC_SZ_HASH256" for tx v r
    using assms(4) by (simp add: spend_hash_def)
  have s: "signs (node_crypto hash256 sha sg verify self env) r" if "ecdsa_key sg verify k"
    for sg k self r and env :: "'z ln_env"
    using that h by (simp add: signs_def node_crypto_sign [OF signable_spendable] ecdsa_key_def)
  note m = funding_spend_mutual [OF signable_spendable assms(1-3), of _ signf verify signg hash256 ef _ _ eg]
  show ?thesis
    unfolding mutual_signers_def
    using s [OF assms(5)] s [OF assms(6)] m assms(5,6) unfolding ecdsa_key_def by blast
qed

section \<open>Examples\<close>

definition toy_spend :: btc_tx_t where
  "toy_spend = \<lparr>vin_txid = replicate 32 8, vin_index = 1, vin_sequence = 0x80000000,
     tx_vout = [\<lparr>vout_value = 900000, vout_script = [0x00, 0x14], vout_opt = 0\<rparr>], tx_locktime = 0x20000000\<rparr>"

text \<open>A toy ECDSA: a signature verifies under the keys that begin with its fifth byte.\<close>

definition toy_verify :: "bytes \<Rightarrow> bytes \<Rightarrow> bytes \<Rightarrow> bool" where
  "toy_verify sig hash key \<longleftrightarrow> sig ! 4 = key ! 0"

definition toy_fund_self :: ln_self_t where
  "toy_fund_self = toy_self\<lparr>redeem_fund := btc_keys_create2of2 (replicate 33 1) (1 # replicate 32 2),
     commit_local := toy_commit\<lparr>cd_signature := replicate 64 1\<rparr>\<rparr>"

lemma sighash_bip143_witness:
  "btc_sw_sighash (\<lambda>_. [1]) (tx_mem_of toy_spend) 0 5 [] =
      Inr [1] \<and>
    sw_outputs (tx_vout toy_spend) = concat (map put_vout (tx_vout toy_spend))"
proof -
  have s: "spendable toy_spend" by (simp add: spendable_def toy_spend_def)
  show ?thesis
    using sighash_bip143 [OF spendable_wf [OF s] spendable_valid [OF s], of 0 "\<lambda>_. [1]" 5 "[]"]
    by (simp add: toy_spend_def)
qed

lemma toy_signature: "der_sig (replicate 64 1) ! 4 = 1"
  by code_simp

lemma commit_verify_refines_witness:
  "create_to_local_sign_verify
     (node_crypto (\<lambda>_. []) (\<lambda>_. replicate 32 0) (\<lambda>_. None) toy_verify toy_fund_self toy_env)
     toy_fund_self toy_spend (der_sig (replicate 64 1)) = Inr True"
proof -
  have keys: "fund_keys toy_fund_self (replicate 33 1) (1 # replicate 32 2)"
    by (simp add: fund_keys_def toy_fund_self_def toy_self_def btc_util_create2of2_def numeral_eq_Suc)
  have "spendable toy_spend" by (simp add: spendable_def toy_spend_def)
  from commit_verify_refines [OF this keys, of "\<lambda>_. replicate 32 0" "\<lambda>_. []" "\<lambda>_. None" toy_verify
      toy_env "replicate 64 1"]
  show ?thesis
    by (simp add: toy_fund_self_def toy_commit_def toy_verify_def toy_signature)
qed

text \<open>A toy ECDSA whose signature is the hash with the key behind it.\<close>

definition toy_sign :: "bytes \<Rightarrow> bytes \<Rightarrow> bytes option" where
  "toy_sign k h = (if length h = 32 then Some (der_sig (h @ tl k)) else None)"

definition toy_check :: "bytes \<Rightarrow> bytes \<Rightarrow> bytes \<Rightarrow> bool" where
  "toy_check sig h k \<longleftrightarrow> sig = der_sig (h @ tl k)"

lemma node_crypto_signers_witness:
  "mutual_signers
     (node_crypto (\<lambda>_. replicate 32 7) (\<lambda>_. replicate 32 0) (toy_sign (replicate 33 1)) toy_check toy_fund_self toy_env)
     (node_crypto (\<lambda>_. replicate 32 7) (\<lambda>_. replicate 32 0) (toy_sign (1 # replicate 32 2)) toy_check
        (toy_fund_self\<lparr>key_fund_local_first := False\<rparr>) toy_env) (redeem_fund toy_fund_self)"
proof (rule node_crypto_signers)
  show "fund_keys toy_fund_self (replicate 33 1) (1 # replicate 32 2)"
    "fund_keys (toy_fund_self\<lparr>key_fund_local_first := False\<rparr>) (1 # replicate 32 2) (replicate 33 1)"
    by (simp_all add: fund_keys_def toy_fund_self_def toy_self_def btc_util_create2of2_def numeral_eq_Suc)
  show "ecdsa_key (toy_sign (replicate 33 1)) toy_check (replicate 33 1)"
    "ecdsa_key (toy_sign (1 # replicate 32 2)) toy_check (1 # replicate 32 2)"
    unfolding ecdsa_key_def toy_sign_def toy_check_def
    by (auto split: if_splits intro!: exI [of _ "_ @ _"])
qed simp_all

end
