(* ===== verification/Channel_Revoked.thy ===== *)
theory Channel_Revoked
  imports Channel_Anno Btc_Sw "HOL-Library.AList"
begin

text \<open>
  What a node does when the funding output of a channel has been spent: \<^verbatim>\<open>ln_close_change_stat\<close>
  in \<^verbatim>\<open>ln/ln.c\<close> tells what kind of close it is, \<^verbatim>\<open>ln_close_remoterevoked\<close> rebuilds the
  scripts of a revoked commitment transaction of the peer, and \<^verbatim>\<open>ln_wallet_create_tolocal\<close> and
  \<^verbatim>\<open>ln_revokedhtlc_create_spenttx\<close> build the transactions that take its outputs. With them the key
  functions of \<^verbatim>\<open>ln/ln_signer.c\<close>, the witnesses of \<^verbatim>\<open>ln/ln_script.c\<close> and the table of payment
  hashes of \<^verbatim>\<open>ln/ln_db_lmdb.c\<close>.
\<close>

section \<open>The table of payment hashes\<close>

text \<open>
  An LMDB table with keys of 34 bytes; putting a key replaces its entry, and the search compares
  every key with 34 bytes of the script it was given.
\<close>

type_synonym phash_db = "(bytes \<times> bytes \<times> ln_htlctype_t \<times> u32) list"

definition ln_db_phash_save ::
  "bytes \<Rightarrow> bytes \<Rightarrow> ln_htlctype_t \<Rightarrow> u32 \<Rightarrow> phash_db \<Rightarrow> phash_db" where
  "ln_db_phash_save pPayHash pVout Type Expiry db =
     AList.update (take 34 pVout) (take BTC_SZ_HASH256 pPayHash, Type, Expiry) db"

definition ln_db_phash_search :: "phash_db \<Rightarrow> bytes \<Rightarrow> (bytes \<times> ln_htlctype_t \<times> u32) option c_result" where
  "ln_db_phash_search db pVout =
     (if db = [] then Inr None else bind_c (c_bytes pVout 0 34) (\<lambda>key. Inr (map_of db key)))"

definition phash_saves :: "'p ln_env \<Rightarrow> ln_script_htlcinfo_t list \<Rightarrow> phash_db \<Rightarrow> phash_db" where
  \<comment> \<open>what \<open>create_to_remote\<close> saves for the HTLCs of the transaction that it signs\<close>
  "phash_saves env infos db =
     fold (\<lambda>info. ln_db_phash_save (preimage_hash info)
       (btc_sw_wit2prog_p2wsh (sha256 env) (hi_script info)) (htlc_type info) (expiry info)) infos db"

section \<open>The kind of a close\<close>

text \<open>
  The fields of \<open>ln_self_t\<close> that only this close uses. The three arrays have \<open>revoked_num\<close> entries;
  a buffer is its contents.
\<close>

record ln_revoked_t =
  p_revoked_vout :: "bytes list"
  p_revoked_wit :: "bytes list"
  p_revoked_type :: "ln_htlctype_t list"
  revoked_sec :: bytes
  revoked_num :: u16
  revoked_cnt :: u16
  revoked_chk :: u32

definition LN_RCLOSE_IDX_TOLOCAL :: nat where "LN_RCLOSE_IDX_TOLOCAL = 0"
definition LN_RCLOSE_IDX_TOREMOTE :: nat where "LN_RCLOSE_IDX_TOREMOTE = 1"
definition LN_RCLOSE_IDX_HTLC :: nat where "LN_RCLOSE_IDX_HTLC = 2"
definition BTC_SZ_WITPROG_P2WPKH :: nat where "BTC_SZ_WITPROG_P2WPKH = 22"

lemmas rclose_defs = LN_RCLOSE_IDX_TOLOCAL_def LN_RCLOSE_IDX_TOREMOTE_def LN_RCLOSE_IDX_HTLC_def
  BTC_SZ_WITPROG_P2WPKH_def

definition set_remote_percommit :: "'p ln_env \<Rightarrow> bytes \<Rightarrow> ln_self_t \<Rightarrow> ln_self_t" where
  \<comment> \<open>\<open>btc_keys_priv2pub(self->funding_remote.pubkeys[MSG_FUNDIDX_PER_COMMIT], ...)\<close>\<close>
  "set_remote_percommit env sec self =
     (case priv2pub env sec of None \<Rightarrow> self
      | Some pt \<Rightarrow> self\<lparr>funding_remote := (funding_remote self)
          \<lparr>pubkeys := (pubkeys (funding_remote self))[MSG_FUNDIDX_PER_COMMIT := pt]\<rparr>\<rparr>)"

definition looks_mutual :: "ln_self_t \<Rightarrow> btc_tx_t \<Rightarrow> bool c_result" where
  \<comment> \<open>the condition of the mutual close; it reads \<open>vout[0]\<close>\<close>
  "looks_mutual self tx =
     (if 0 < length (shutdown_scriptpk_local self) \<and> 0 < length (shutdown_scriptpk_remote self) \<and>
         length (tx_vout tx) \<le> 2 then
        (case tx_vout tx of [] \<Rightarrow> Inl Null_Deref
         | v # _ \<Rightarrow> Inr (vout_script v = shutdown_scriptpk_local self \<or>
                        vout_script v = shutdown_scriptpk_remote self))
      else Inr False)"

definition disable_update ::
  "'p ln_env \<Rightarrow> anno_env \<Rightarrow> ln_self_t \<Rightarrow> ln_self_t c_result" where
  \<comment> \<open>the own \<open>channel_update\<close> with the disable bit\<close>
  "disable_update env ae self =
     try_c (create_channel_update env ae (ucast (an_now ae)) (ucast LN_CNLUPD_FLAGS_DISABLE) self) (\<lambda>r.
     case r of None \<Rightarrow> Inr self
     | Some (upd, b) \<Rightarrow> Inr (callback (DB_ANNOCNLUPD_SAVE b (cu_short_channel_id upd)
         (cu_flags upd) (Some (peer_node_id self))) self))"

definition ln_close_change_stat ::
  "'p ln_env \<Rightarrow> anno_env \<Rightarrow> btc_tx_t \<Rightarrow> ln_self_t \<Rightarrow> ln_revoked_t \<Rightarrow> (ln_self_t \<times> ln_revoked_t) c_result" where
  "ln_close_change_stat env ae pCloseTx self rv =
     (if ch_status self = LN_STATUS_NORMAL \<or> ch_status self = LN_STATUS_CLOSE_WAIT then
        Inr (callback DB_SELF_SAVE_STATUS (self\<lparr>ch_status := LN_STATUS_CLOSE_SPENT\<rparr>), rv)
      else if ch_status self = LN_STATUS_CLOSE_SPENT then
        (case tx_txid env pCloseTx of None \<Rightarrow> Inr (self, rv)
         | Some tid \<Rightarrow>
             bind_c (looks_mutual self pCloseTx) (\<lambda>mutual.
             let (self, rv) =
               (if mutual then (self\<lparr>ch_status := LN_STATUS_CLOSE_MUTUAL\<rparr>, rv)
                else if tid = txid (commit_local self)
                then (self\<lparr>ch_status := LN_STATUS_CLOSE_UNI_LOCAL\<rparr>, rv)
                else
                  (case ln_derkey_storage_get_secret (sha256 env) (peer_storage self)
                      (LN_SECINDEX_INIT - calc_commit_num (obscured self) pCloseTx) of
                     Some sec \<Rightarrow> (set_remote_percommit env sec (self\<lparr>ch_status := LN_STATUS_CLOSE_REVOKED\<rparr>),
                                  rv\<lparr>revoked_sec := sec\<rparr>)
                   | None \<Rightarrow> (self\<lparr>ch_status := LN_STATUS_CLOSE_UNI_REMOTE\<rparr>, rv\<lparr>revoked_sec := []\<rparr>)));
               self = callback DB_SELF_SAVE_STATUS self in
             bind_c (disable_update env ae self) (\<lambda>self. Inr (self, rv))))
      else Inr (self, rv))"

section \<open>The scripts of a revoked commitment transaction\<close>

definition put_elem :: "'a list \<Rightarrow> nat \<Rightarrow> 'a \<Rightarrow> ('a list \<Rightarrow> 'b c_result) \<Rightarrow> 'b c_result" where
  \<comment> \<open>a store to an element of an array\<close>
  "put_elem xs i x k = (if i < length xs then k (xs[i := x]) else Inl Write_Overrun)"

definition ln_revoked_buf_alloc :: "ln_revoked_t \<Rightarrow> ln_revoked_t" where
  "ln_revoked_buf_alloc rv =
     rv\<lparr>p_revoked_vout := replicate (unat (revoked_num rv)) [],
        p_revoked_wit := replicate (unat (revoked_num rv)) [],
        p_revoked_type := replicate (unat (revoked_num rv)) LN_HTLCTYPE_NONE\<rparr>"

definition count_revoked :: "btc_vout_t list \<Rightarrow> u16" where
  "count_revoked vouts =
     fold (\<lambda>v n. if length (vout_script v) \<noteq> BTC_SZ_WITPROG_P2WPKH then n + 1 else n) vouts 0"

fun revoked_outs ::
  "'p ln_env \<Rightarrow> phash_db \<Rightarrow> bytes list \<Rightarrow> nat \<Rightarrow> btc_vout_t list \<Rightarrow> ln_revoked_t \<Rightarrow> ln_revoked_t c_result" where
  \<comment> \<open>the loop over the outputs; \<open>keys\<close> are the script keys, \<open>htlc_cnt\<close> counts the HTLCs found\<close>
  "revoked_outs env db keys htlc_cnt [] rv = Inr rv"
| "revoked_outs env db keys htlc_cnt (v # vs) rv =
     (if length (vout_script v) = BTC_SZ_WITPROG_P2WPKH then
        put_elem (p_revoked_wit rv) LN_RCLOSE_IDX_TOREMOTE [] (\<lambda>wit.
        put_elem (p_revoked_vout rv) LN_RCLOSE_IDX_TOREMOTE (vout_script v) (\<lambda>vout.
        revoked_outs env db keys htlc_cnt vs (rv\<lparr>p_revoked_wit := wit, p_revoked_vout := vout\<rparr>)))
      else if vout_script v = p_revoked_vout rv ! LN_RCLOSE_IDX_TOLOCAL then
        revoked_outs env db keys htlc_cnt vs rv
      else
        bind_c (ln_db_phash_search db (vout_script v)) (\<lambda>r.
        case r of None \<Rightarrow> revoked_outs env db keys htlc_cnt vs rv
        | Some (payhash, type, ex) \<Rightarrow>
            let htlc_idx = LN_RCLOSE_IDX_HTLC + htlc_cnt in
            with_bytes (ln_script_htlcinfo_script (sha256 env) (ripemd160 env) type
                (keys ! MSG_SCRIPTIDX_LOCALHTLCKEY) (keys ! MSG_SCRIPTIDX_REVOCATION)
                (keys ! MSG_SCRIPTIDX_REMOTEHTLCKEY) payhash ex) (\<lambda>s.
            put_elem (p_revoked_wit rv) htlc_idx s (\<lambda>wit.
            put_elem (p_revoked_vout rv) htlc_idx (btc_sw_wit2prog_p2wsh (sha256 env) s) (\<lambda>vout.
            put_elem (p_revoked_type rv) htlc_idx type (\<lambda>typ.
            revoked_outs env db keys (htlc_cnt + 1) vs
              (rv\<lparr>p_revoked_wit := wit, p_revoked_vout := vout, p_revoked_type := typ\<rparr>)))))))"

definition ln_close_remoterevoked ::
  "'p ln_env \<Rightarrow> phash_db \<Rightarrow> btc_tx_t \<Rightarrow> ln_self_t \<Rightarrow> ln_revoked_t \<Rightarrow>
   (bool \<times> ln_self_t \<times> ln_revoked_t) c_result" where
  "ln_close_remoterevoked env db pRevokedTx self rv =
     (let cnt = count_revoked (tx_vout pRevokedTx);
          rv = ln_revoked_buf_alloc (rv\<lparr>revoked_cnt := cnt, revoked_num := 1 + cnt\<rparr>);
          commit_num = calc_commit_num (obscured self) pRevokedTx in
      case ln_derkey_storage_get_secret (sha256 env) (peer_storage self) (LN_SECINDEX_INIT - commit_num) of
        None \<Rightarrow> Inl Assert_Failed      \<comment> \<open>\<open>abort()\<close>\<close>
      | Some sec \<Rightarrow>
          let self = set_remote_percommit env sec self;
              self = ln_signer_keys_update_force env (LN_SECINDEX_INIT - commit_num) self;
              self = update_scriptkeys env self;
              keys = scriptpubkeys (funding_remote self) in
          with_bytes (ln_script_create_tolocal (keys ! MSG_SCRIPTIDX_REVOCATION)
              (keys ! MSG_SCRIPTIDX_DELAYED) (ucast (to_self_delay (commit_local self)))) (\<lambda>ws.
          put_elem (p_revoked_wit rv) LN_RCLOSE_IDX_TOLOCAL ws (\<lambda>wit.
          put_elem (p_revoked_vout rv) LN_RCLOSE_IDX_TOLOCAL (btc_sw_wit2prog_p2wsh (sha256 env) ws) (\<lambda>vout.
          bind_c (revoked_outs env db keys 0 (tx_vout pRevokedTx)
              (rv\<lparr>revoked_sec := sec, p_revoked_wit := wit, p_revoked_vout := vout\<rparr>)) (\<lambda>rv.
          Inr (True, self, rv))))))"

section \<open>Keys and witnesses\<close>

text \<open>
  The private keys of the node other than the per-commitment secret, the signing with a private key,
  the double SHA-256, and what uninitialised keys and hashes hold.
\<close>

record sign_env =
  priv_data :: "bytes list"                    \<comment> \<open>\<open>priv_data.priv\<close>\<close>
  btc_tx_sign :: "bytes \<Rightarrow> bytes \<Rightarrow> bytes option"  \<comment> \<open>hash, private key\<close>
  se_hash256 :: "bytes \<Rightarrow> bytes"
  junk_priv :: bytes
  junk_pub :: bytes
  junk_txid :: bytes

record btc_util_keys_t =
  k_priv :: bytes
  k_pub :: bytes

definition fill_keys :: "'p ln_env \<Rightarrow> sign_env \<Rightarrow> bytes option \<Rightarrow> btc_util_keys_t" where
  \<comment> \<open>the derived key and \<open>btc_keys_priv2pub(pKeys->pub, pKeys->priv)\<close>\<close>
  "fill_keys env se derived =
     (let priv = (case derived of Some k \<Rightarrow> k | None \<Rightarrow> junk_priv se) in
      \<lparr>k_priv = priv, k_pub = (case priv2pub env priv of Some p \<Rightarrow> p | None \<Rightarrow> junk_pub se)\<rparr>)"

definition get_secret ::
  "'p ln_env \<Rightarrow> sign_env \<Rightarrow> ln_self_t \<Rightarrow> nat \<Rightarrow> bytes \<Rightarrow> btc_util_keys_t" where
  "get_secret env se self MsgFundIdx pPerCommit =
     fill_keys env se (ln_derkey_privkey (ec env) (sha256 env) (pubkeys (funding_local self) ! MsgFundIdx)
       pPerCommit (priv_data se ! MsgFundIdx))"

definition ln_signer_get_revokesec ::
  "'p ln_env \<Rightarrow> sign_env \<Rightarrow> ln_self_t \<Rightarrow> bytes \<Rightarrow> bytes \<Rightarrow> btc_util_keys_t" where
  "ln_signer_get_revokesec env se self pPerCommit pRevokedSec =
     fill_keys env se (ln_derkey_revocationprivkey (ec env) (sha256 env)
       (pubkeys (funding_local self) ! MSG_FUNDIDX_REVOCATION) pPerCommit
       (priv_data se ! MSG_FUNDIDX_REVOCATION) pRevokedSec)"

definition ln_signer_tolocal_key ::
  "'p ln_env \<Rightarrow> sign_env \<Rightarrow> ln_self_t \<Rightarrow> ln_revoked_t \<Rightarrow> bool \<Rightarrow> btc_util_keys_t" where
  "ln_signer_tolocal_key env se self rv bRevoked =
     (if \<not> bRevoked then
        get_secret env se self MSG_FUNDIDX_DELAYED (pubkeys (funding_local self) ! MSG_FUNDIDX_PER_COMMIT)
      else
        ln_signer_get_revokesec env se self (pubkeys (funding_remote self) ! MSG_FUNDIDX_PER_COMMIT)
          (revoked_sec rv))"

definition ln_signer_toremote_key ::
  "'p ln_env \<Rightarrow> sign_env \<Rightarrow> ln_self_t \<Rightarrow> btc_util_keys_t" where
  "ln_signer_toremote_key env se self =
     get_secret env se self MSG_FUNDIDX_PAYMENT (pubkeys (funding_remote self) ! MSG_FUNDIDX_PER_COMMIT)"

definition ln_script_tolocal_wit ::
  "'p ln_env \<Rightarrow> btc_tx_mem \<Rightarrow> btc_util_keys_t \<Rightarrow> bytes \<Rightarrow> bool \<Rightarrow> btc_tx_mem c_result" where
  \<comment> \<open>the key stands where the signature will; the daemon sets \<open>mNativeSegwit\<close>\<close>
  "ln_script_tolocal_wit env pTx pKey pWitScript bRevoked =
     btc_sw_set_vin_p2wsh (sha256 env) True pTx 0
       [take BTC_SZ_PRIVKEY (k_priv pKey), if bRevoked then [0x01] else [], pWitScript]"

definition ln_script_toremote_wit :: "btc_tx_mem \<Rightarrow> btc_util_keys_t \<Rightarrow> btc_tx_mem c_result" where
  "ln_script_toremote_wit pTx pKey =
     vin_update pTx 0 (\<lambda>vin. vin\<lparr>vi_wit_cnt := 2,
       vi_witness := Some [take BTC_SZ_PRIVKEY (k_priv pKey), take BTC_SZ_PUBKEY (k_pub pKey)]\<rparr>)"

definition create_basetx ::
  "btc_tx_mem \<Rightarrow> u64 \<Rightarrow> bytes option \<Rightarrow> u32 \<Rightarrow> bytes \<Rightarrow> u32 \<Rightarrow> bool \<Rightarrow> btc_tx_mem c_result" where
  "create_basetx pTx Value pScriptPk LockTime pTxid Index bRevoked =
     (let pTx = btc_tx_add_vout_spk pTx Value (case pScriptPk of Some s \<Rightarrow> s | None \<Rightarrow> []);
          pTx = btc_tx_add_vin pTx pTxid Index in
      if \<not> bRevoked then vin_update pTx 0 (\<lambda>vin. vin\<lparr>vi_sequence := LockTime\<rparr>) else Inr pTx)"

definition ln_wallet_create_tolocal ::
  "'p ln_env \<Rightarrow> sign_env \<Rightarrow> ln_self_t \<Rightarrow> ln_revoked_t \<Rightarrow> btc_tx_mem \<Rightarrow> u64 \<Rightarrow> u32 \<Rightarrow> bytes \<Rightarrow> bytes \<Rightarrow> u32 \<Rightarrow>
   bool \<Rightarrow> btc_tx_mem c_result" where
  "ln_wallet_create_tolocal env se self rv pTx Value ToSelfDelay pScript pTxid Index bRevoked =
     bind_c (create_basetx pTx Value None ToSelfDelay pTxid Index bRevoked) (\<lambda>pTx.
       ln_script_tolocal_wit env pTx (ln_signer_tolocal_key env se self rv bRevoked) pScript bRevoked)"

definition ln_wallet_create_toremote ::
  "'p ln_env \<Rightarrow> sign_env \<Rightarrow> ln_self_t \<Rightarrow> btc_tx_mem \<Rightarrow> u64 \<Rightarrow> bytes \<Rightarrow> u32 \<Rightarrow> btc_tx_mem c_result" where
  "ln_wallet_create_toremote env se self pTx Value pTxid Index =
     bind_c (create_basetx pTx Value None 0 pTxid Index False) (\<lambda>pTx.
       ln_script_toremote_wit pTx (ln_signer_toremote_key env se self))"

section \<open>The transaction that takes a revoked HTLC output\<close>

datatype ln_script_htlcsign_t = LN_HTLCSIGN_NONE | LN_HTLCSIGN_TIMEOUT_SUCCESS | LN_HTLCSIGN_REMOTE_OFFER
  | LN_HTLCSIGN_REMOTE_RECV | LN_HTLCSIGN_REVOKE_RECV | LN_HTLCSIGN_REVOKE_OFFER

definition ln_script_htlctx_sign ::
  "sign_env \<Rightarrow> btc_tx_mem \<Rightarrow> u64 \<Rightarrow> btc_util_keys_t \<Rightarrow> bytes \<Rightarrow> bytes c_result" where
  "ln_script_htlctx_sign se pTx Value pKeys pWitScript =
     check_c (tm_vin_cnt pTx = 1 \<and> tm_vout_cnt pTx = 1) (
     bind_c (btc_util_calc_sighash_p2wsh (se_hash256 se) pTx 0 Value pWitScript) (\<lambda>sighash.
     case btc_tx_sign se sighash (k_priv pKeys) of Some sig \<Rightarrow> Inr sig | None \<Rightarrow> Inl Ret_False))"

text \<open>The pointers to the arrays of the inner blocks are taken to be valid until the call at the end.\<close>

definition ln_script_htlctx_wit ::
  "'p ln_env \<Rightarrow> btc_tx_mem \<Rightarrow> bytes \<Rightarrow> btc_util_keys_t \<Rightarrow> bytes option \<Rightarrow> bytes option \<Rightarrow> bytes \<Rightarrow>
   ln_script_htlcsign_t \<Rightarrow> btc_tx_mem c_result" where
  "ln_script_htlctx_wit env pTx pLocalSig pKeys pRemoteSig pPreImage pWitScript HtlcSign =
     (let set_wits = btc_sw_set_vin_p2wsh (sha256 env) True pTx 0 in
      case HtlcSign of
        LN_HTLCSIGN_TIMEOUT_SUCCESS \<Rightarrow>
          set_wits (case pRemoteSig of None \<Rightarrow> []
            | Some sig \<Rightarrow> [[], sig, pLocalSig,
                case pPreImage of Some p \<Rightarrow> take LN_SZ_PREIMAGE p | None \<Rightarrow> [], pWitScript])
      | LN_HTLCSIGN_REMOTE_OFFER \<Rightarrow>
          (case pPreImage of None \<Rightarrow> Inl Assert_Failed
           | Some p \<Rightarrow> set_wits [pLocalSig, take LN_SZ_PREIMAGE p, pWitScript])
      | LN_HTLCSIGN_REMOTE_RECV \<Rightarrow> set_wits [pLocalSig, [], pWitScript]
      | LN_HTLCSIGN_NONE \<Rightarrow> Inl Assert_Failed
      | _ \<Rightarrow> set_wits [pLocalSig, take BTC_SZ_PUBKEY (k_pub pKeys), pWitScript])"

definition ln_revokedhtlc_create_spenttx ::
  "'p ln_env \<Rightarrow> sign_env \<Rightarrow> ln_self_t \<Rightarrow> ln_revoked_t \<Rightarrow> u64 \<Rightarrow> nat \<Rightarrow> bytes \<Rightarrow> nat \<Rightarrow>
   (bool \<times> btc_tx_mem) c_result" where
  \<comment> \<open>\<open>pTx\<close> is empty at the start, the transaction is the second component of the result\<close>
  "ln_revokedhtlc_create_spenttx env se self rv Value WitIndex pTxid Index =
     bind_c (c_index (Some (p_revoked_type rv)) WitIndex) (\<lambda>type.
     let fi = fst (ln_script_fee_calc (feerate_per_kw self) 0 []);
         fee = (if type = LN_HTLCTYPE_OFFERED then htlc_timeout fi else htlc_success fi) in
     bind_c (ln_script_htlctx_create (sha256 env) (Value - fee) (shutdown_scriptpk_local self) type 0
         pTxid Index) (\<lambda>tx.
     let pTx = tx_mem_of tx;
         signkey = ln_signer_get_revokesec env se self
           (pubkeys (funding_remote self) ! MSG_FUNDIDX_PER_COMMIT) (revoked_sec rv);
         htlcsign = (if type = LN_HTLCTYPE_OFFERED then LN_HTLCSIGN_REVOKE_OFFER
                     else LN_HTLCSIGN_REVOKE_RECV) in
     bind_c (c_index (Some (p_revoked_wit rv)) WitIndex) (\<lambda>script.
     try_c (bind_c (ln_script_htlctx_sign se pTx Value signkey script) (\<lambda>sig.
         ln_script_htlctx_wit env pTx sig signkey None None script htlcsign)) (\<lambda>r.
     case r of Some pTx \<Rightarrow> Inr (True, pTx) | None \<Rightarrow> Inr (False, pTx)))))"

section \<open>The loop over the outputs\<close>

text \<open>
  The outputs of a commitment transaction are 22 or 34 bytes long. \<open>htlc_found\<close> are those that the
  table of payment hashes answers for, \<open>htlc_script\<close> is the script that is then rebuilt.
\<close>

definition segwit_outs :: "btc_vout_t list \<Rightarrow> bool" where
  "segwit_outs vs \<longleftrightarrow> (\<forall>v\<in>set vs. length (vout_script v) = 22 \<or> length (vout_script v) = 34)"

definition htlc_found :: "phash_db \<Rightarrow> bytes \<Rightarrow> btc_vout_t list \<Rightarrow> btc_vout_t list" where
  "htlc_found db prog = filter (\<lambda>v. length (vout_script v) \<noteq> 22 \<and> vout_script v \<noteq> prog \<and>
     map_of db (vout_script v) \<noteq> None)"

definition htlc_script ::
  "'p ln_env \<Rightarrow> bytes list \<Rightarrow> ln_htlctype_t \<Rightarrow> bytes \<Rightarrow> u32 \<Rightarrow> bytes" where
  "htlc_script env keys type hash ex =
     (case with_bytes (ln_script_htlcinfo_script (sha256 env) (ripemd160 env) type
        (keys ! MSG_SCRIPTIDX_LOCALHTLCKEY) (keys ! MSG_SCRIPTIDX_REVOCATION)
        (keys ! MSG_SCRIPTIDX_REMOTEHTLCKEY) hash ex) Inr of Inr s \<Rightarrow> s | Inl _ \<Rightarrow> [])"

definition wf_scriptkeys :: "bytes list \<Rightarrow> bool" where
  "wf_scriptkeys keys \<longleftrightarrow> length keys = 5 \<and> (\<forall>k\<in>set keys. length k = BTC_SZ_PUBKEY)"

lemma wf_scriptkeys_nth: "wf_scriptkeys keys \<Longrightarrow> i < 5 \<Longrightarrow> length (keys ! i) = BTC_SZ_PUBKEY"
  by (simp add: wf_scriptkeys_def)

lemma htlc_script_eq:
  assumes "wf_env env" "wf_scriptkeys keys"
  shows "ln_script_htlcinfo_script (sha256 env) (ripemd160 env) type (keys ! MSG_SCRIPTIDX_LOCALHTLCKEY)
        (keys ! MSG_SCRIPTIDX_REVOCATION) (keys ! MSG_SCRIPTIDX_REMOTEHTLCKEY) hash ex =
     Inr (buf_of (htlc_script env keys type hash ex))"
proof -
  obtain s where "ln_script_htlcinfo_script (sha256 env) (ripemd160 env) type
      (keys ! MSG_SCRIPTIDX_LOCALHTLCKEY) (keys ! MSG_SCRIPTIDX_REVOCATION)
      (keys ! MSG_SCRIPTIDX_REMOTEHTLCKEY) hash ex = Inr (buf_of s)"
    by (atomize_elim, rule htlcinfo_script_defined [OF assms(1)])
       (simp_all add: wf_scriptkeys_nth [OF assms(2)] fundidx_defs)
  then show ?thesis by (simp add: htlc_script_def)
qed

lemma htlc_script_take [simp]:
  "htlc_script env keys type (take 32 hash) ex = htlc_script env keys type hash ex"
  by (cases type) (simp_all add: htlc_script_def ln_script_htlcinfo_script_def)

lemma phash_search_p2wsh: "length s = 34 \<Longrightarrow> ln_db_phash_search db s = Inr (map_of db s)"
  by (simp add: ln_db_phash_search_def c_bytes_def)

definition db_script :: "'p ln_env \<Rightarrow> bytes list \<Rightarrow> phash_db \<Rightarrow> bytes \<Rightarrow> bytes" where
  \<comment> \<open>the script rebuilt for an output that the table answers for\<close>
  "db_script env keys db s =
     (case the (map_of db s) of (hash, type, ex) \<Rightarrow> htlc_script env keys type hash ex)"

text \<open>
  What the loop does: the arrays have \<open>N\<close> elements. It fails exactly when a 22-byte output is met and
  there is no second element, or when the HTLCs found do not fit behind it; otherwise the \<open>k\<close>-th HTLC
  found is in element \<open>2 + k\<close>.
\<close>

definition arrays_of :: "nat \<Rightarrow> ln_revoked_t \<Rightarrow> bool" where
  "arrays_of N rv \<longleftrightarrow> length (p_revoked_vout rv) = N \<and> length (p_revoked_wit rv) = N \<and>
     length (p_revoked_type rv) = N"

lemma arrays_of_simps:
  "arrays_of N rv \<Longrightarrow> length (p_revoked_vout rv) = N \<and> length (p_revoked_wit rv) = N \<and>
     length (p_revoked_type rv) = N"
  by (simp add: arrays_of_def)

lemma found_Cons:
  "htlc_found db prog (v # vs) =
     (if length (vout_script v) \<noteq> 22 \<and> vout_script v \<noteq> prog \<and> map_of db (vout_script v) \<noteq> None
      then v # htlc_found db prog vs else htlc_found db prog vs)"
  by (simp add: htlc_found_def)

definition outs_fit :: "nat \<Rightarrow> nat \<Rightarrow> phash_db \<Rightarrow> bytes \<Rightarrow> btc_vout_t list \<Rightarrow> bool" where
  "outs_fit N hc db prog vs \<longleftrightarrow>
     ((\<exists>v\<in>set vs. length (vout_script v) = 22) \<longrightarrow> 2 \<le> N) \<and>
     (htlc_found db prog vs \<noteq> [] \<longrightarrow> 2 + hc + length (htlc_found db prog vs) \<le> N)"

definition outs_done ::
  "'p ln_env \<Rightarrow> bytes list \<Rightarrow> phash_db \<Rightarrow> nat \<Rightarrow> btc_vout_t list \<Rightarrow> ln_revoked_t \<Rightarrow> ln_revoked_t \<Rightarrow> bool" where
  "outs_done env keys db hc fs rv rv' \<longleftrightarrow>
     (\<forall>k<length fs. p_revoked_wit rv' ! (2 + hc + k) = db_script env keys db (vout_script (fs ! k)) \<and>
        p_revoked_vout rv' ! (2 + hc + k) =
          btc_sw_wit2prog_p2wsh (sha256 env) (db_script env keys db (vout_script (fs ! k))) \<and>
        p_revoked_type rv' ! (2 + hc + k) = fst (snd (the (map_of db (vout_script (fs ! k)))))) \<and>
     (\<forall>i. i \<noteq> 1 \<and> (i < 2 + hc \<or> 2 + hc + length fs \<le> i) \<longrightarrow> p_revoked_wit rv' ! i = p_revoked_wit rv ! i \<and>
        p_revoked_vout rv' ! i = p_revoked_vout rv ! i \<and> p_revoked_type rv' ! i = p_revoked_type rv ! i) \<and>
     revoked_sec rv' = revoked_sec rv \<and> revoked_num rv' = revoked_num rv \<and>
     revoked_cnt rv' = revoked_cnt rv \<and> revoked_chk rv' = revoked_chk rv"

lemma outs_done_skip:
  assumes "outs_done env keys db hc fs rv0 rv'"
    and "\<forall>i. i \<noteq> 1 \<longrightarrow> p_revoked_wit rv0 ! i = p_revoked_wit rv ! i \<and>
        p_revoked_vout rv0 ! i = p_revoked_vout rv ! i \<and> p_revoked_type rv0 ! i = p_revoked_type rv ! i"
    and "revoked_sec rv0 = revoked_sec rv" "revoked_num rv0 = revoked_num rv"
      "revoked_cnt rv0 = revoked_cnt rv" "revoked_chk rv0 = revoked_chk rv"
  shows "outs_done env keys db hc fs rv rv'"
  using assms by (simp add: outs_done_def)

lemma outs_done_step:
  assumes "outs_done env keys db (hc + 1) fs rv0 rv'" "arrays_of N rv" "2 + hc < N"
    and "map_of db (vout_script v) = Some (hash, type, ex)"
    and rv0: "rv0 = rv\<lparr>p_revoked_wit := (p_revoked_wit rv)[2 + hc := htlc_script env keys type hash ex],
      p_revoked_vout := (p_revoked_vout rv)[2 + hc :=
        btc_sw_wit2prog_p2wsh (sha256 env) (htlc_script env keys type hash ex)],
      p_revoked_type := (p_revoked_type rv)[2 + hc := type]\<rparr>"
  shows "outs_done env keys db hc (v # fs) rv rv'"
proof -
  have s: "db_script env keys db (vout_script v) = htlc_script env keys type hash ex"
    using assms(4) by (simp add: db_script_def)
  have el: "p_revoked_wit rv' ! (2 + hc) = htlc_script env keys type hash ex \<and>
    p_revoked_vout rv' ! (2 + hc) = btc_sw_wit2prog_p2wsh (sha256 env) (htlc_script env keys type hash ex) \<and>
    p_revoked_type rv' ! (2 + hc) = type"
    using assms(1,3) arrays_of_simps [OF assms(2)] unfolding outs_done_def rv0 by simp
  have "p_revoked_wit rv' ! (2 + hc + k) = db_script env keys db (vout_script ((v # fs) ! k)) \<and>
        p_revoked_vout rv' ! (2 + hc + k) =
          btc_sw_wit2prog_p2wsh (sha256 env) (db_script env keys db (vout_script ((v # fs) ! k))) \<and>
        p_revoked_type rv' ! (2 + hc + k) = fst (snd (the (map_of db (vout_script ((v # fs) ! k)))))"
    if "k < length (v # fs)" for k
  proof (cases k)
    case 0
    with el s assms(4) show ?thesis by simp
  next
    case (Suc j)
    with that show ?thesis
      using assms(1) [unfolded outs_done_def, THEN conjunct1, rule_format, of j] by (simp add: ac_simps)
  qed
  moreover have "p_revoked_wit rv' ! i = p_revoked_wit rv ! i \<and>
      p_revoked_vout rv' ! i = p_revoked_vout rv ! i \<and> p_revoked_type rv' ! i = p_revoked_type rv ! i"
    if "i \<noteq> 1" "i < 2 + hc \<or> 2 + hc + length (v # fs) \<le> i" for i
    using that assms(1) unfolding outs_done_def rv0 by auto
  ultimately show ?thesis
    using assms(1) unfolding outs_done_def rv0 by simp
qed

lemma outs_fit_skip:
  assumes "length (vout_script v) \<noteq> 22" "vout_script v = prog \<or> map_of db (vout_script v) = None"
  shows "outs_fit N hc db prog (v # vs) = outs_fit N hc db prog vs"
    "htlc_found db prog (v # vs) = htlc_found db prog vs"
  using assms by (auto simp: outs_fit_def found_Cons)

lemma outs_fit_found:
  assumes "length (vout_script v) \<noteq> 22" "vout_script v \<noteq> prog" "map_of db (vout_script v) \<noteq> None"
  shows "outs_fit N hc db prog (v # vs) \<longleftrightarrow> 2 + hc < N \<and> outs_fit N (hc + 1) db prog vs"
    "htlc_found db prog (v # vs) = v # htlc_found db prog vs"
  using assms by (auto simp: outs_fit_def found_Cons)

definition last_remote :: "btc_vout_t list \<Rightarrow> ln_revoked_t \<Rightarrow> ln_revoked_t \<Rightarrow> bool" where
  "last_remote vs rv rv' \<longleftrightarrow>
     (if \<exists>v\<in>set vs. length (vout_script v) = 22
      then \<exists>v\<in>set vs. length (vout_script v) = 22 \<and> p_revoked_vout rv' ! 1 = vout_script v
      else p_revoked_vout rv' ! 1 = p_revoked_vout rv ! 1)"

lemma revoked_outs_result:
  assumes "wf_env env" "wf_scriptkeys keys" "segwit_outs vs" "arrays_of N rv"
    and "p_revoked_vout rv ! 0 = prog" "0 < N"
  shows "if outs_fit N hc db prog vs
    then \<exists>rv'. revoked_outs env db keys hc vs rv = Inr rv' \<and> arrays_of N rv' \<and>
      outs_done env keys db hc (htlc_found db prog vs) rv rv' \<and> last_remote vs rv rv'
    else revoked_outs env db keys hc vs rv = Inl Write_Overrun"
  using assms(3-)
proof (induction vs arbitrary: hc rv)
  case Nil
  then show ?case by (simp add: outs_fit_def htlc_found_def outs_done_def last_remote_def)
next
  case (Cons v vs)
  have vs: "segwit_outs vs" and v: "length (vout_script v) = 22 \<or> length (vout_script v) = 34"
    using Cons.prems(1) by (simp_all add: segwit_outs_def)
  note ar = arrays_of_simps [OF Cons.prems(2)]
  consider "length (vout_script v) = 22"
    | "length (vout_script v) \<noteq> 22" "vout_script v = prog \<or> map_of db (vout_script v) = None"
    | hash type ex where "length (vout_script v) \<noteq> 22" "vout_script v \<noteq> prog"
        "map_of db (vout_script v) = Some (hash, type, ex)"
    by (cases "map_of db (vout_script v)") auto
  then show ?case
  proof cases
    case 1
    show ?thesis
    proof (cases "2 \<le> N")
      case True
      let ?rv = "rv\<lparr>p_revoked_wit := (p_revoked_wit rv)[1 := []],
        p_revoked_vout := (p_revoked_vout rv)[1 := vout_script v]\<rparr>"
      have fit: "outs_fit N hc db prog (v # vs) = outs_fit N hc db prog vs"
        "htlc_found db prog (v # vs) = htlc_found db prog vs"
        using 1 True by (auto simp: outs_fit_def found_Cons)
      have step: "revoked_outs env db keys hc (v # vs) rv = revoked_outs env db keys hc vs ?rv"
        using 1 True ar by (simp add: put_elem_def rclose_defs)
      have IH: "if outs_fit N hc db prog vs
          then \<exists>rv'. revoked_outs env db keys hc vs ?rv = Inr rv' \<and> arrays_of N rv' \<and>
            outs_done env keys db hc (htlc_found db prog vs) ?rv rv' \<and> last_remote vs ?rv rv'
          else revoked_outs env db keys hc vs ?rv = Inl Write_Overrun"
        using Cons.prems ar by (intro Cons.IH [OF vs]) (simp_all add: arrays_of_def)
      have "last_remote (v # vs) rv rv'" if "last_remote vs ?rv rv'" for rv'
        using that 1 True ar by (auto simp: last_remote_def split: if_splits)
      moreover have "outs_done env keys db hc fs rv rv'" if "outs_done env keys db hc fs ?rv rv'" for fs rv'
        using that by (rule outs_done_skip) simp_all
      ultimately show ?thesis using IH unfolding fit step by (auto split: if_splits)
    next
      case False
      then show ?thesis using 1 ar by (simp add: outs_fit_def put_elem_def rclose_defs)
    qed
  next
    case 2
    have step: "revoked_outs env db keys hc (v # vs) rv = revoked_outs env db keys hc vs rv"
      using 2 v Cons.prems(3) by (auto simp: rclose_defs phash_search_p2wsh)
    have "last_remote (v # vs) rv rv' = last_remote vs rv rv'" for rv'
      using 2 by (simp add: last_remote_def)
    with Cons.IH [OF vs Cons.prems(2-)] show ?thesis
      unfolding step outs_fit_skip [OF 2] by simp
  next
    case 3
    let ?s = "htlc_script env keys type hash ex"
    let ?rv = "rv\<lparr>p_revoked_wit := (p_revoked_wit rv)[2 + hc := ?s],
      p_revoked_vout := (p_revoked_vout rv)[2 + hc := btc_sw_wit2prog_p2wsh (sha256 env) ?s],
      p_revoked_type := (p_revoked_type rv)[2 + hc := type]\<rparr>"
    have f: "map_of db (vout_script v) \<noteq> None" using 3 by simp
    have step: "revoked_outs env db keys hc (v # vs) rv =
        (if 2 + hc < N then revoked_outs env db keys (hc + 1) vs ?rv else Inl Write_Overrun)"
      using 3 v Cons.prems(3) ar
      by (simp add: rclose_defs phash_search_p2wsh htlc_script_eq [OF assms(1,2)] put_elem_def)
    show ?thesis
    proof (cases "2 + hc < N")
      case True
      have IH: "if outs_fit N (hc + 1) db prog vs
          then \<exists>rv'. revoked_outs env db keys (hc + 1) vs ?rv = Inr rv' \<and> arrays_of N rv' \<and>
            outs_done env keys db (hc + 1) (htlc_found db prog vs) ?rv rv' \<and> last_remote vs ?rv rv'
          else revoked_outs env db keys (hc + 1) vs ?rv = Inl Write_Overrun"
        using Cons.prems ar by (intro Cons.IH [OF vs]) (simp_all add: arrays_of_def)
      have "last_remote (v # vs) rv rv'" if "last_remote vs ?rv rv'" for rv'
        using that 3 by (cases "\<exists>v\<in>set vs. length (vout_script v) = 22") (auto simp: last_remote_def)
      moreover have "outs_done env keys db hc (v # fs) rv rv'"
        if "outs_done env keys db (hc + 1) fs ?rv rv'" for fs rv'
        by (rule outs_done_step [OF that Cons.prems(2) True 3(3) refl])
      ultimately show ?thesis
        using IH True unfolding outs_fit_found [OF 3(1,2) f] step by (auto split: if_splits)
    next
      case False
      then show ?thesis unfolding outs_fit_found [OF 3(1,2) f] step by simp
    qed
  qed
qed

section \<open>Which scripts are rebuilt\<close>

definition tolocal_script :: "bytes list \<Rightarrow> u32 \<Rightarrow> bytes" where
  "tolocal_script keys delay =
     [BTC_OP_IF, BTC_OP_SZ_PUBKEY] @ keys ! MSG_SCRIPTIDX_REVOCATION @ [BTC_OP_ELSE] @
     script_num (ucast delay) @ [BTC_OP_CSV, BTC_OP_DROP, BTC_OP_SZ_PUBKEY] @
     keys ! MSG_SCRIPTIDX_DELAYED @ [BTC_OP_ENDIF, BTC_OP_CHECKSIG]"

lemma create_tolocal_script:
  "wf_scriptkeys keys \<Longrightarrow> ln_script_create_tolocal (keys ! MSG_SCRIPTIDX_REVOCATION)
     (keys ! MSG_SCRIPTIDX_DELAYED) delay = Inr (buf_of (tolocal_script keys delay))"
  unfolding tolocal_script_def
  by (rule create_tolocal_eq) (simp_all add: wf_scriptkeys_nth fundidx_defs)

definition revoked_state :: "'p ln_env \<Rightarrow> bytes \<Rightarrow> u64 \<Rightarrow> ln_self_t \<Rightarrow> ln_self_t" where
  \<comment> \<open>the channel with the keys of commitment \<open>n\<close> of the peer\<close>
  "revoked_state env sec n self =
     update_scriptkeys env (ln_signer_keys_update_force env (LN_SECINDEX_INIT - n)
       (set_remote_percommit env sec self))"

definition revoked_keys :: "'p ln_env \<Rightarrow> bytes \<Rightarrow> u64 \<Rightarrow> ln_self_t \<Rightarrow> bytes list" where
  "revoked_keys env sec n self = scriptpubkeys (funding_remote (revoked_state env sec n self))"

definition revoked_tolocal :: "'p ln_env \<Rightarrow> bytes \<Rightarrow> u64 \<Rightarrow> ln_self_t \<Rightarrow> bytes" where
  "revoked_tolocal env sec n self =
     tolocal_script (revoked_keys env sec n self) (ucast (to_self_delay (commit_local self)))"

lemma set_remote_percommit_simps [simp]:
  "commit_local (set_remote_percommit env sec self) = commit_local self"
  "storage_seed (set_remote_percommit env sec self) = storage_seed self"
  "funding_local (set_remote_percommit env sec self) = funding_local self"
  "obscured (set_remote_percommit env sec self) = obscured self"
  "scriptpubkeys (funding_remote (set_remote_percommit env sec self)) = scriptpubkeys (funding_remote self)"
  by (simp_all add: set_remote_percommit_def split: option.split)

lemma keys_update_force_simps [simp]:
  "commit_local (ln_signer_keys_update_force env i self) = commit_local self"
  "funding_remote (ln_signer_keys_update_force env i self) = funding_remote self"
  "scriptpubkeys (funding_local (ln_signer_keys_update_force env i self)) = scriptpubkeys (funding_local self)"
  by (simp_all add: ln_signer_keys_update_force_def Let_def split: prod.split option.split)

lemma wf_revoked_state:
  assumes "wf_env env" "wf_self self" "length sec = BTC_SZ_PRIVKEY"
  shows "wf_self (revoked_state env sec n self)"
proof -
  have r: "wf_self (set_remote_percommit env sec self)"
    using assms wf_keys_pubkey [of "funding_remote self"]
    by (auto simp: set_remote_percommit_def wf_env_def wf_self_def split: option.split)
  have "length p = BTC_SZ_PUBKEY"
    if "priv2pub env (ln_derkey_create_secret (sha256 env)
      (storage_seed (set_remote_percommit env sec self)) I) = Some p" for p I
    using assms(1) that length_create_secret [OF assms(1) r, of I] by (simp add: wf_env_def)
  then have "wf_self (ln_signer_keys_update_force env (LN_SECINDEX_INIT - n) (set_remote_percommit env sec self))"
    using r wf_keys_pubkey
    by (auto simp: ln_signer_keys_update_force_def create_percommitsec_def wf_self_def Let_def
        split: option.split)
  then show ?thesis unfolding revoked_state_def by (rule wf_update_scriptkeys [OF assms(1)])
qed

lemma wf_revoked_keys:
  assumes "wf_env env" "wf_self self" "length sec = BTC_SZ_PRIVKEY"
  shows "wf_scriptkeys (revoked_keys env sec n self)"
  using wf_revoked_state [OF assms, of n]
  by (simp add: revoked_keys_def wf_scriptkeys_def wf_self_def Commit_Build.wf_keys_def)

lemma count_revoked_eq:
  "count_revoked vs = of_nat (length (filter (\<lambda>v. length (vout_script v) \<noteq> 22) vs))"
proof -
  have "fold (\<lambda>v n. if length (vout_script v) \<noteq> 22 then n + 1 else n) vs n =
      n + of_nat (length (filter (\<lambda>v. length (vout_script v) \<noteq> 22) vs))" for n :: u16
    by (induction vs arbitrary: n) simp_all
  then show ?thesis by (simp add: count_revoked_def rclose_defs)
qed

definition claims :: "btc_vout_t list \<Rightarrow> nat" where
  "claims vs = length (filter (\<lambda>v. length (vout_script v) \<noteq> 22) vs)"

definition known_outs :: "phash_db \<Rightarrow> bytes \<Rightarrow> btc_vout_t list \<Rightarrow> bool" where
  \<comment> \<open>every output is 22 bytes long or an HTLC that the table knows\<close>
  "known_outs db prog vs \<longleftrightarrow> (\<forall>v\<in>set vs. length (vout_script v) = 22 \<or>
     vout_script v \<noteq> prog \<and> map_of db (vout_script v) \<noteq> None)"

lemma filter_all_length: "length (filter P xs) = length xs \<Longrightarrow> \<forall>x\<in>set xs. P x"
  by (metis length_filter_less less_irrefl)

lemma outs_fit_claims: "outs_fit (claims vs + 1) 0 db prog vs \<longleftrightarrow> \<not> (vs \<noteq> [] \<and> known_outs db prog vs)"
proof -
  let ?c = "filter (\<lambda>v. length (vout_script v) \<noteq> 22) vs"
  have f: "htlc_found db prog vs = filter (\<lambda>v. vout_script v \<noteq> prog \<and> map_of db (vout_script v) \<noteq> None) ?c"
    by (simp add: htlc_found_def conj_ac)
  have le: "length (htlc_found db prog vs) \<le> claims vs" unfolding f claims_def by (rule length_filter_le)
  have eq: "length (htlc_found db prog vs) = claims vs \<longleftrightarrow> known_outs db prog vs"
  proof
    assume "length (htlc_found db prog vs) = claims vs"
    then have "\<forall>v\<in>set ?c. vout_script v \<noteq> prog \<and> map_of db (vout_script v) \<noteq> None"
      unfolding f claims_def by (rule filter_all_length)
    then show "known_outs db prog vs" by (auto simp: known_outs_def)
  next
    assume "known_outs db prog vs"
    then have "htlc_found db prog vs = ?c" unfolding f known_outs_def by (subst filter_True) auto
    then show "length (htlc_found db prog vs) = claims vs" by (simp add: claims_def)
  qed
  have c0: "claims vs = 0 \<longleftrightarrow> (\<forall>v\<in>set vs. length (vout_script v) = 22)"
    by (simp add: claims_def filter_empty_conv)
  show ?thesis
  proof (cases "claims vs")
    case 0
    moreover have "known_outs db prog vs" using 0 c0 by (simp add: known_outs_def)
    moreover have "(\<exists>v\<in>set vs. length (vout_script v) = 22) \<longleftrightarrow> vs \<noteq> []"
      using 0 c0 by (cases vs) auto
    ultimately show ?thesis using le by (simp add: outs_fit_def)
  next
    case (Suc c)
    moreover have "vs \<noteq> []" using Suc by (auto simp: claims_def)
    ultimately show ?thesis using le eq by (auto simp: outs_fit_def)
  qed
qed

text \<open>The state that the function leaves when the arrays suffice.\<close>

definition revoked_done ::
  "'p ln_env \<Rightarrow> phash_db \<Rightarrow> btc_tx_t \<Rightarrow> bytes \<Rightarrow> u64 \<Rightarrow> ln_self_t \<Rightarrow> ln_revoked_t \<Rightarrow> bool" where
  "revoked_done env db tx sec n self rv' \<longleftrightarrow>
     (let keys = revoked_keys env sec n self; ws = revoked_tolocal env sec n self;
          prog = btc_sw_wit2prog_p2wsh (sha256 env) ws; fs = htlc_found db prog (tx_vout tx) in
      arrays_of (claims (tx_vout tx) + 1) rv' \<and> revoked_sec rv' = sec \<and>
      unat (revoked_cnt rv') = claims (tx_vout tx) \<and> unat (revoked_num rv') = claims (tx_vout tx) + 1 \<and>
      p_revoked_wit rv' ! 0 = ws \<and> p_revoked_vout rv' ! 0 = prog \<and>
      (\<forall>k<length fs. p_revoked_wit rv' ! (2 + k) = db_script env keys db (vout_script (fs ! k)) \<and>
        p_revoked_vout rv' ! (2 + k) =
          btc_sw_wit2prog_p2wsh (sha256 env) (db_script env keys db (vout_script (fs ! k))) \<and>
        p_revoked_type rv' ! (2 + k) = fst (snd (the (map_of db (vout_script (fs ! k)))))) \<and>
      (\<forall>i. 2 + length fs \<le> i \<and> i < claims (tx_vout tx) + 1 \<longrightarrow> p_revoked_vout rv' ! i = []) \<and>
      (if \<exists>v\<in>set (tx_vout tx). length (vout_script v) = 22
       then \<exists>v\<in>set (tx_vout tx). length (vout_script v) = 22 \<and> p_revoked_vout rv' ! 1 = vout_script v
       else 0 < claims (tx_vout tx) \<longrightarrow> p_revoked_vout rv' ! 1 = []))"

lemma remoterevoked_result:
  fixes tx :: btc_tx_t
  defines "n \<equiv> \<lambda>self. calc_commit_num (obscured self) tx"
  assumes "wf_env env" "wf_self self" "length sec = BTC_SZ_PRIVKEY"
    and vs: "segwit_outs (tx_vout tx)" "length (tx_vout tx) < 65535"
    and sec: "ln_derkey_storage_get_secret (sha256 env) (peer_storage self)
      (LN_SECINDEX_INIT - n self) = Some sec"
  shows "if tx_vout tx \<noteq> [] \<and>
        known_outs db (btc_sw_wit2prog_p2wsh (sha256 env) (revoked_tolocal env sec (n self) self)) (tx_vout tx)
    then ln_close_remoterevoked env db tx self rv = Inl Write_Overrun
    else \<exists>rv'. ln_close_remoterevoked env db tx self rv = Inr (True, revoked_state env sec (n self) self, rv') \<and>
      revoked_done env db tx sec (n self) self rv'"
proof -
  let ?keys = "revoked_keys env sec (n self) self" and ?ws = "revoked_tolocal env sec (n self) self"
  let ?prog = "btc_sw_wit2prog_p2wsh (sha256 env) ?ws" and ?N = "claims (tx_vout tx) + 1"
  note wk = wf_revoked_keys [OF assms(2-4), of "n self"]
  have le: "claims (tx_vout tx) \<le> length (tx_vout tx)" by (simp add: claims_def)
  have cnt: "unat (count_revoked (tx_vout tx)) = claims (tx_vout tx)"
    using le vs(2) by (simp add: count_revoked_eq unat_of_nat take_bit_nat_eq_self flip: claims_def)
  have num: "unat (1 + count_revoked (tx_vout tx)) = ?N"
    using le vs(2) cnt by (simp add: unat_word_ariths)
  let ?rv = "ln_revoked_buf_alloc (rv\<lparr>revoked_cnt := count_revoked (tx_vout tx),
    revoked_num := 1 + count_revoked (tx_vout tx)\<rparr>)"
  let ?rv1 = "?rv\<lparr>revoked_sec := sec, p_revoked_wit := (p_revoked_wit ?rv)[0 := ?ws],
    p_revoked_vout := (p_revoked_vout ?rv)[0 := ?prog]\<rparr>"
  have ar: "arrays_of ?N ?rv1" and p0: "p_revoked_vout ?rv1 ! 0 = ?prog"
    using num by (simp_all add: arrays_of_def ln_revoked_buf_alloc_def)
  have dl: "ucast (to_self_delay (commit_local (revoked_state env sec (n self) self))) =
      (ucast (to_self_delay (commit_local self)) :: u32)"
    by (simp add: revoked_state_def)
  have ct: "ln_script_create_tolocal (?keys ! MSG_SCRIPTIDX_REVOCATION) (?keys ! MSG_SCRIPTIDX_DELAYED)
      (ucast (to_self_delay (commit_local (revoked_state env sec (n self) self)))) = Inr (buf_of ?ws)"
    unfolding dl revoked_tolocal_def by (rule create_tolocal_script [OF wk])
  have run: "ln_close_remoterevoked env db tx self rv =
      bind_c (revoked_outs env db ?keys 0 (tx_vout tx) ?rv1)
        (\<lambda>rv. Inr (True, revoked_state env sec (n self) self, rv))"
    using sec ct num
    by (simp add: ln_close_remoterevoked_def n_def Let_def revoked_state_def revoked_keys_def put_elem_def
        rclose_defs ln_revoked_buf_alloc_def)
  note res = revoked_outs_result [OF assms(2) wk vs(1) ar p0, of 0 db, unfolded outs_fit_claims]
  show ?thesis
  proof (cases "tx_vout tx \<noteq> [] \<and> known_outs db ?prog (tx_vout tx)")
    case True
    then show ?thesis using res unfolding run by simp
  next
    case False
    then obtain rv' where rv': "revoked_outs env db ?keys 0 (tx_vout tx) ?rv1 = Inr rv'" "arrays_of ?N rv'"
      "outs_done env ?keys db 0 (htlc_found db ?prog (tx_vout tx)) ?rv1 rv'" "last_remote (tx_vout tx) ?rv1 rv'"
      using res by auto
    have old: "p_revoked_vout ?rv1 ! i = []" if "0 < i" "i < ?N" for i
      using that num by (simp add: ln_revoked_buf_alloc_def)
    have "revoked_done env db tx sec (n self) self rv'"
      using rv'(2-) old cnt num p0
      unfolding revoked_done_def Let_def outs_done_def last_remote_def
      by (auto simp: ln_revoked_buf_alloc_def split: if_splits)
    then show ?thesis using False rv'(1) unfolding run by auto
  qed
qed

section \<open>A revoked commitment transaction of the channel\<close>

text \<open>
  The outputs of the transaction that \<open>remote_commit_tx\<close> describes, and the scripts of its HTLCs.
\<close>

lemma htlcinfo_scripts_built:
  assumes "wf_env env" "wf_scriptkeys keys" "htlcinfo_scripts env keys infos = Inr r"
  shows "\<forall>info\<in>set r. hi_script info = htlc_script env keys (htlc_type info) (preimage_hash info) (expiry info)"
  using assms(3)
proof (induction infos arbitrary: r)
  case (Cons info infos)
  then obtain r' where "htlcinfo_scripts env keys infos = Inr r'"
    "r = info\<lparr>hi_script := htlc_script env keys (htlc_type info) (preimage_hash info) (expiry info)\<rparr> # r'"
    by (auto simp: htlc_script_eq [OF assms(1,2)] bind_c_Inr_iff)
  with Cons.IH show ?case by auto
qed simp

lemma committx_out_cases:
  assumes "v \<in> set (tx_vout (ln_script_committx_create sha rip cmt Local))"
    and "length (ct_htlcinfos cmt) \<le> 253" "\<forall>info\<in>set (ct_htlcinfos cmt). htlc_type info \<noteq> LN_HTLCTYPE_NONE"
  shows "vout_opt v = LN_HTLCTYPE_TOREMOTE \<and> vout_script v = p2wpkh_pub sha rip (remote_pubkey cmt) \<or>
    vout_opt v = LN_HTLCTYPE_TOLOCAL \<and> vout_script v = btc_sw_wit2prog_p2wsh sha (local_script cmt) \<or>
    is_htlc_out v \<and> (\<exists>info\<in>set (ct_htlcinfos cmt). vout_script v = btc_sw_wit2prog_p2wsh sha (hi_script info))"
proof -
  have "v \<in> set (committx_vouts sha rip cmt Local)"
    using assms(1) bip69_mset [of "committx_vouts sha rip cmt Local"]
    by (simp add: ln_script_committx_create_def) (metis set_mset_mset)
  then consider "vout_opt v = LN_HTLCTYPE_TOREMOTE" "vout_script v = p2wpkh_pub sha rip (remote_pubkey cmt)"
    | "vout_opt v = LN_HTLCTYPE_TOLOCAL" "vout_script v = btc_sw_wit2prog_p2wsh sha (local_script cmt)"
    | "v \<in> set (htlc_vouts sha (ct_feeinfo cmt) 0 (ct_htlcinfos cmt))"
    by (auto simp: committx_vouts_def Let_def split: if_splits)
  then show ?thesis
  proof cases
    case 3
    then have "is_htlc_out v" using htlc_vouts_ok [OF assms(2,3) 3] by simp
    moreover have "\<exists>info\<in>set (ct_htlcinfos cmt). vout_script v = btc_sw_wit2prog_p2wsh sha (hi_script info)"
      using 3 by (auto simp: htlc_vouts_def Let_def in_set_enumerate_eq split: if_splits)
    ultimately show ?thesis by simp
  qed simp_all
qed

lemma remote_commit_parts:
  assumes "wf_env env" "wf_self s" "remote_commit_tx env n dust s = Inr (ws, infos, fi, tx)"
  defines "keys \<equiv> scriptpubkeys (funding_remote s)"
  shows "ws = tolocal_script keys (ucast (to_self_delay (commit_local s)))"
    and "\<forall>info\<in>set infos. hi_script info = htlc_script env keys (htlc_type info) (preimage_hash info) (expiry info)"
    and "length infos \<le> LN_HTLC_MAX" "\<forall>info\<in>set infos. htlc_type info \<noteq> LN_HTLCTYPE_NONE"
    and "\<exists>our their. tx = ln_script_committx_create (sha256 env) (ripemd160 env)
      (commit_struct s ws keys fi infos our their n) (\<not> is_funder s)"
proof -
  have d: "wf_keys (funding_remote s)" using assms(2) by (simp add: wf_self_def)
  then have wk: "wf_scriptkeys keys" by (simp add: keys_def wf_scriptkeys_def Commit_Build.wf_keys_def)
  obtain infos0 our their where amt: "create_to_remote_htlcinfo (cnl_add_htlc s) (their_msat s) (our_msat s) =
      (infos0, our, their)" by (metis prod_cases3)
  have ok: "length infos0 \<le> LN_HTLC_MAX" "\<forall>info\<in>set infos0. info_ok (cnl_add_htlc s) info"
    using htlcinfos_ok(2) [OF amt] assms(2) by (auto simp: wf_self_def)
  obtain r where r: "htlcinfo_scripts env keys infos0 = Inr r"
    "list_all2 (\<lambda>i j. \<exists>s. j = i\<lparr>hi_script := s\<rparr>) infos0 r"
    using htlcinfo_scripts_defined [OF assms(1) d, folded keys_def] by blast
  have eq: "ws = tolocal_script keys (ucast (to_self_delay (commit_local s)))" "infos = r"
    "tx = ln_script_committx_create (sha256 env) (ripemd160 env)
      (commit_struct s ws keys fi infos our their n) (\<not> is_funder s)"
    using assms(3) amt r(1)
    by (auto simp: remote_commit_tx_def Let_def create_tolocal_script [OF wk] simp flip: keys_def)
  show "ws = tolocal_script keys (ucast (to_self_delay (commit_local s)))" by (rule eq)
  show "\<exists>our their. tx = ln_script_committx_create (sha256 env) (ripemd160 env)
      (commit_struct s ws keys fi infos our their n) (\<not> is_funder s)" using eq(3) by blast
  show "\<forall>info\<in>set infos. hi_script info = htlc_script env keys (htlc_type info) (preimage_hash info) (expiry info)"
    unfolding eq(2) by (rule htlcinfo_scripts_built [OF assms(1) wk r(1)])
  show "length infos \<le> LN_HTLC_MAX" "\<forall>info\<in>set infos. htlc_type info \<noteq> LN_HTLCTYPE_NONE"
    using list_all2_scripts [OF r(2), of "cnl_add_htlc s"] ok unfolding eq(2) by (auto simp: info_ok_def)
qed

text \<open>
  The script keys of a state are those of its public keys; a later state is of the same channel when
  it has the same base points, delay and obscuring factor. The table of payment hashes has an entry
  for every HTLC.
\<close>

definition keys_current :: "'p ln_env \<Rightarrow> ln_self_t \<Rightarrow> bool" where
  "keys_current env s \<longleftrightarrow> (\<forall>keys. length keys = 5 \<longrightarrow>
     scriptpubkeys (snd (ln_misc_update_scriptkeys (ec env) (sha256 env) (funding_local s)
       ((funding_remote s)\<lparr>scriptpubkeys := keys\<rparr>))) = scriptpubkeys (funding_remote s))"

definition same_channel :: "ln_self_t \<Rightarrow> ln_self_t \<Rightarrow> bool" where
  "same_channel s self \<longleftrightarrow> obscured self = obscured s \<and>
     to_self_delay (commit_local self) = to_self_delay (commit_local s) \<and>
     (\<forall>i<5. pubkeys (funding_local self) ! i = pubkeys (funding_local s) ! i \<and>
            pubkeys (funding_remote self) ! i = pubkeys (funding_remote s) ! i)"

definition htlcs_saved :: "'p ln_env \<Rightarrow> ln_script_htlcinfo_t list \<Rightarrow> phash_db \<Rightarrow> bool" where
  "htlcs_saved env infos db \<longleftrightarrow> (\<forall>i\<in>set infos. \<exists>j\<in>set infos.
     btc_sw_wit2prog_p2wsh (sha256 env) (hi_script j) = btc_sw_wit2prog_p2wsh (sha256 env) (hi_script i) \<and>
     map_of db (btc_sw_wit2prog_p2wsh (sha256 env) (hi_script i)) =
       Some (take BTC_SZ_HASH256 (preimage_hash j), htlc_type j, expiry j))"

lemma length_p2wsh: "wf_env env \<Longrightarrow> length (btc_sw_wit2prog_p2wsh (sha256 env) s) = 34"
  by (simp add: btc_sw_wit2prog_p2wsh_def wf_env_def)

lemma length_p2wpkh: "wf_env env \<Longrightarrow> length (p2wpkh_pub (sha256 env) (ripemd160 env) k) = 22"
  by (simp add: p2wpkh_pub_def btc_util_hash160_def wf_env_def)

text \<open>What \<open>create_to_remote\<close> saves is such a table.\<close>

lemma phash_saves_saved:
  assumes "wf_env env"
  shows "htlcs_saved env infos (phash_saves env infos db)"
proof -
  have "\<forall>i\<in>set infos \<union> D. \<exists>j\<in>set infos \<union> D.
     btc_sw_wit2prog_p2wsh (sha256 env) (hi_script j) = btc_sw_wit2prog_p2wsh (sha256 env) (hi_script i) \<and>
     map_of (phash_saves env infos db) (btc_sw_wit2prog_p2wsh (sha256 env) (hi_script i)) =
       Some (take BTC_SZ_HASH256 (preimage_hash j), htlc_type j, expiry j)"
    if "\<forall>i\<in>D. \<exists>j\<in>D.
     btc_sw_wit2prog_p2wsh (sha256 env) (hi_script j) = btc_sw_wit2prog_p2wsh (sha256 env) (hi_script i) \<and>
     map_of db (btc_sw_wit2prog_p2wsh (sha256 env) (hi_script i)) =
       Some (take BTC_SZ_HASH256 (preimage_hash j), htlc_type j, expiry j)" for D
    using that
  proof (induction infos arbitrary: db D)
    case (Cons info infos)
    let ?db = "ln_db_phash_save (preimage_hash info) (btc_sw_wit2prog_p2wsh (sha256 env) (hi_script info))
      (htlc_type info) (expiry info) db"
    have s: "map_of ?db = (map_of db)(btc_sw_wit2prog_p2wsh (sha256 env) (hi_script info) \<mapsto>
        (take BTC_SZ_HASH256 (preimage_hash info), htlc_type info, expiry info))"
      using length_p2wsh [OF assms, of "hi_script info"] by (simp add: ln_db_phash_save_def update_conv')
    have "\<forall>i\<in>insert info D. \<exists>j\<in>insert info D.
       btc_sw_wit2prog_p2wsh (sha256 env) (hi_script j) = btc_sw_wit2prog_p2wsh (sha256 env) (hi_script i) \<and>
       map_of ?db (btc_sw_wit2prog_p2wsh (sha256 env) (hi_script i)) =
         Some (take BTC_SZ_HASH256 (preimage_hash j), htlc_type j, expiry j)"
    proof
      fix i assume "i \<in> insert info D"
      then show "\<exists>j\<in>insert info D.
         btc_sw_wit2prog_p2wsh (sha256 env) (hi_script j) = btc_sw_wit2prog_p2wsh (sha256 env) (hi_script i) \<and>
         map_of ?db (btc_sw_wit2prog_p2wsh (sha256 env) (hi_script i)) =
           Some (take BTC_SZ_HASH256 (preimage_hash j), htlc_type j, expiry j)"
        using Cons.prems unfolding s
        by (cases "btc_sw_wit2prog_p2wsh (sha256 env) (hi_script i) =
            btc_sw_wit2prog_p2wsh (sha256 env) (hi_script info)") auto
    qed
    from Cons.IH [OF this] show ?case by (simp add: phash_saves_def)
  qed (simp add: phash_saves_def)
  from this [of "{}"] show ?thesis by (simp add: htlcs_saved_def)
qed

lemma remote_scriptkeys_cong:
  assumes "\<forall>i<5. pubkeys l ! i = pubkeys l' ! i" "pubkeys r = pubkeys r'"
  shows "scriptpubkeys (snd (ln_misc_update_scriptkeys g sha l r)) =
    scriptpubkeys (snd (ln_misc_update_scriptkeys g sha l' (r'\<lparr>scriptpubkeys := scriptpubkeys r\<rparr>)))"
proof -
  have set: "scriptpubkeys (set_script_key i k d) = scriptpubkeys (set_script_key i k e)"
    if "scriptpubkeys d = scriptpubkeys e" for i k d e
    using that by (simp add: set_script_key_def split: option.splits)
  show ?thesis
    using assms unfolding ln_misc_update_scriptkeys_def Let_def by (auto intro!: set simp: fundidx_defs)
qed

lemma revoked_keys_restored:
  assumes "wf_self s" "wf_self self" "keys_current env s" "same_channel s self"
    and "priv2pub env sec = Some (pubkeys (funding_remote s) ! MSG_FUNDIDX_PER_COMMIT)"
  shows "revoked_keys env sec n self = scriptpubkeys (funding_remote s)"
proof -
  have len: "length (pubkeys (funding_remote self)) = 6" "length (pubkeys (funding_remote s)) = 6"
    "length (scriptpubkeys (funding_remote self)) = 5"
    using assms(1,2) by (simp_all add: wf_self_def Commit_Build.wf_keys_def)
  let ?t = "ln_signer_keys_update_force env (LN_SECINDEX_INIT - n) (set_remote_percommit env sec self)"
  have "pubkeys (funding_remote ?t) = pubkeys (funding_remote s)"
  proof (rule nth_equalityI)
    show "length (pubkeys (funding_remote ?t)) = length (pubkeys (funding_remote s))"
      using len assms(5) by (simp add: set_remote_percommit_def)
    fix i assume "i < length (pubkeys (funding_remote ?t))"
    then show "pubkeys (funding_remote ?t) ! i = pubkeys (funding_remote s) ! i"
      using len assms(4,5)
      by (cases "i = 5") (simp_all add: set_remote_percommit_def same_channel_def fundidx_defs)
  qed
  moreover have "\<forall>i<5. pubkeys (funding_local ?t) ! i = pubkeys (funding_local s) ! i"
    using assms(4) by (auto simp: ln_signer_keys_update_force_def Let_def same_channel_def fundidx_defs
        split: prod.split option.split)
  ultimately have "revoked_keys env sec n self =
      scriptpubkeys (snd (ln_misc_update_scriptkeys (ec env) (sha256 env) (funding_local s)
        ((funding_remote s)\<lparr>scriptpubkeys := scriptpubkeys (funding_remote ?t)\<rparr>)))"
    unfolding revoked_keys_def revoked_state_def update_scriptkeys_def
    using remote_scriptkeys_cong [of "funding_local ?t" "funding_local s" "funding_remote ?t"
        "funding_remote s" "ec env" "sha256 env"]
    by (simp add: case_prod_beta)
  also have "\<dots> = scriptpubkeys (funding_remote s)"
    using assms(3) len(3) by (simp add: keys_current_def)
  finally show ?thesis .
qed

text \<open>The outputs of the revoked transaction by their scripts: which of them have to be taken back.\<close>

lemma remote_commit_outs:
  assumes "wf_env env" "wf_self s" "remote_commit_tx env n dust s = Inr (ws, infos, fi, tx)"
    and v: "v \<in> set (tx_vout tx)"
  shows "vout_opt v = LN_HTLCTYPE_TOREMOTE \<and> length (vout_script v) = 22 \<or>
    vout_opt v = LN_HTLCTYPE_TOLOCAL \<and> vout_script v = btc_sw_wit2prog_p2wsh (sha256 env) ws \<or>
    is_htlc_out v \<and> (\<exists>info\<in>set infos. vout_script v = btc_sw_wit2prog_p2wsh (sha256 env) (hi_script info))"
proof -
  note parts = remote_commit_parts [OF assms(1-3)]
  obtain our their where "tx = ln_script_committx_create (sha256 env) (ripemd160 env)
      (commit_struct s ws (scriptpubkeys (funding_remote s)) fi infos our their n) (\<not> is_funder s)"
    using parts(5) by blast
  with committx_out_cases [of v "sha256 env" "ripemd160 env" "commit_struct s ws
      (scriptpubkeys (funding_remote s)) fi infos our their n" "\<not> is_funder s"] v parts(3,4)
  show ?thesis
    by (auto simp: commit_struct_def LN_HTLC_MAX_def length_p2wpkh [OF assms(1)])
qed

lemma remote_commit_claims:
  assumes "wf_env env" "wf_self s" "remote_commit_tx env n dust s = Inr (ws, infos, fi, tx)"
  shows "claims (tx_vout tx) = length (filter (\<lambda>v. vout_opt v \<noteq> LN_HTLCTYPE_TOREMOTE) (tx_vout tx))"
    and "segwit_outs (tx_vout tx)" "length (tx_vout tx) < 65535"
proof -
  have "length (vout_script v) \<noteq> 22 \<longleftrightarrow> vout_opt v \<noteq> LN_HTLCTYPE_TOREMOTE" if "v \<in> set (tx_vout tx)" for v
    using remote_commit_outs [OF assms that]
    by (auto simp: length_p2wsh [OF assms(1)] is_htlc_out_def LN_HTLCTYPE_TOREMOTE_def LN_HTLCTYPE_TOLOCAL_def)
  then show "claims (tx_vout tx) = length (filter (\<lambda>v. vout_opt v \<noteq> LN_HTLCTYPE_TOREMOTE) (tx_vout tx))"
    by (simp add: claims_def cong: filter_cong)
  show "segwit_outs (tx_vout tx)"
    using remote_commit_outs [OF assms] length_p2wsh [OF assms(1)] unfolding segwit_outs_def by metis
  note parts = remote_commit_parts [OF assms]
  obtain our their where tx: "tx = ln_script_committx_create (sha256 env) (ripemd160 env)
      (commit_struct s ws (scriptpubkeys (funding_remote s)) fi infos our their n) (\<not> is_funder s)"
    using parts(5) by blast
  let ?c = "commit_struct s ws (scriptpubkeys (funding_remote s)) fi infos our their n"
  have "length (tx_vout tx) = length (committx_vouts (sha256 env) (ripemd160 env) ?c (\<not> is_funder s))"
    unfolding tx using bip69_mset [THEN arg_cong [of _ _ size]] by (simp add: ln_script_committx_create_def)
  also have "\<dots> \<le> 2 + length infos"
    using length_htlc_vouts [of "sha256 env" fi 0 infos]
    by (simp add: committx_vouts_def commit_struct_def Let_def)
  finally show "length (tx_vout tx) < 65535" using parts(3) by (simp add: LN_HTLC_MAX_def)
qed

text \<open>
  C8: A revoked commitment is recognised. For a transaction that the channel signed for the peer as
  its commitment \<open>n\<close> and that has an output to the peer, a later state of the channel that knows the
  secret of commitment \<open>n\<close> rebuilds, from the transaction, the secret and the table of payment
  hashes alone, the script of every output that is not its own: the count of outputs to be taken is
  right, and for each of them the arrays have its \<open>scriptPubKey\<close> and the script that it hashes, which is
  that of the peer's output or of an HTLC of the revoked state, with its type.
\<close>

theorem revoked_scripts_recovered:
  assumes env: "wf_env env" and s: "wf_self s" "keys_current env s"
    and self: "wf_self self" "same_channel s self"
    and tx: "remote_commit_tx env n dust s = Inr (ws, infos, fi, tx)" "n < 2 ^ 48"
      "obscured s = ln_script_calc_obscured_txnum (sha256 env) p q"
      "\<exists>v\<in>set (tx_vout tx). vout_opt v = LN_HTLCTYPE_TOLOCAL"
    and sec: "ln_derkey_storage_get_secret (sha256 env) (peer_storage self) (LN_SECINDEX_INIT - n) = Some sec"
      "length sec = BTC_SZ_PRIVKEY" "priv2pub env sec = Some (pubkeys (funding_remote s) ! MSG_FUNDIDX_PER_COMMIT)"
    and db: "htlcs_saved env infos db"
  shows "\<exists>rv'. ln_close_remoterevoked env db tx self rv = Inr (True, revoked_state env sec n self, rv') \<and>
    unat (revoked_cnt rv') = length (filter (\<lambda>v. vout_opt v \<noteq> LN_HTLCTYPE_TOREMOTE) (tx_vout tx)) \<and>
    (\<forall>v\<in>set (tx_vout tx). vout_opt v \<noteq> LN_HTLCTYPE_TOREMOTE \<longrightarrow>
      (\<exists>i<unat (revoked_num rv'). p_revoked_vout rv' ! i = vout_script v \<and>
        vout_script v = btc_sw_wit2prog_p2wsh (sha256 env) (p_revoked_wit rv' ! i) \<and>
        (i = 0 \<and> p_revoked_wit rv' ! i = ws \<or>
         2 \<le> i \<and> (\<exists>info\<in>set infos. p_revoked_wit rv' ! i = hi_script info \<and> p_revoked_type rv' ! i = htlc_type info))))"
proof -
  let ?P = "btc_sw_wit2prog_p2wsh (sha256 env)" and ?keys = "scriptpubkeys (funding_remote s)"
  note parts = remote_commit_parts [OF env s(1) tx(1)] and outs = remote_commit_outs [OF env s(1) tx(1)]
    and cl = remote_commit_claims [OF env s(1) tx(1)]
  obtain our their where txd: "tx = ln_script_committx_create (sha256 env) (ripemd160 env)
      (commit_struct s ws ?keys fi infos our their n) (\<not> is_funder s)"
    using parts(5) by blast
  have n: "calc_commit_num (obscured self) tx = n"
    using self(2) tx(3) commit_number_recovered [OF tx(2), of _ "sha256 env" p q]
    unfolding txd same_channel_def by (simp add: commit_struct_def)
  have keys: "revoked_keys env sec n self = ?keys"
    by (rule revoked_keys_restored [OF s(1) self(1) s(2) self(2) sec(3)])
  have ws: "revoked_tolocal env sec n self = ws"
    using self(2) parts(1) by (simp add: revoked_tolocal_def keys same_channel_def)
  have "\<not> known_outs db (?P ws) (tx_vout tx)"
  proof -
    obtain v where v: "v \<in> set (tx_vout tx)" "vout_opt v = LN_HTLCTYPE_TOLOCAL" using tx(4) by blast
    then have "vout_script v = ?P ws"
      using outs [OF v(1)] by (auto simp: is_htlc_out_def LN_HTLCTYPE_TOREMOTE_def LN_HTLCTYPE_TOLOCAL_def)
    then show ?thesis using v(1) length_p2wsh [OF env, of ws] by (auto simp: known_outs_def intro!: bexI [of _ v])
  qed
  then obtain rv' where rv': "ln_close_remoterevoked env db tx self rv =
      Inr (True, revoked_state env sec n self, rv')" "revoked_done env db tx sec n self rv'"
    using remoterevoked_result [OF env self(1) sec(2) cl(2,3), of db rv] sec(1) unfolding n ws by auto
  let ?fs = "htlc_found db (?P ws) (tx_vout tx)"
  note d = rv'(2) [unfolded revoked_done_def Let_def keys ws]
  have fl: "length ?fs < claims (tx_vout tx) \<or> ?fs = []"
    using outs_fit_claims [of "tx_vout tx" db "?P ws"] \<open>\<not> known_outs db (?P ws) (tx_vout tx)\<close>
    by (auto simp: outs_fit_def)
  have "\<exists>i<unat (revoked_num rv'). p_revoked_vout rv' ! i = vout_script v \<and>
        vout_script v = ?P (p_revoked_wit rv' ! i) \<and>
        (i = 0 \<and> p_revoked_wit rv' ! i = ws \<or>
         2 \<le> i \<and> (\<exists>info\<in>set infos. p_revoked_wit rv' ! i = hi_script info \<and> p_revoked_type rv' ! i = htlc_type info))"
    if v: "v \<in> set (tx_vout tx)" "vout_opt v \<noteq> LN_HTLCTYPE_TOREMOTE" for v
  proof (cases "vout_script v = ?P ws")
    case True
    then show ?thesis using d by (intro exI [of _ 0]) simp
  next
    case False
    with outs [OF v(1)] v(2) obtain i where i: "i \<in> set infos" "vout_script v = ?P (hi_script i)" by blast
    then obtain j where j: "j \<in> set infos" "?P (hi_script j) = vout_script v"
      "map_of db (vout_script v) = Some (take BTC_SZ_HASH256 (preimage_hash j), htlc_type j, expiry j)"
      using db unfolding htlcs_saved_def by metis
    have sc: "db_script env ?keys db (vout_script v) = hi_script j"
      using j parts(2) by (simp add: db_script_def)
    have "v \<in> set ?fs" using v(1) False j(3) i(2) length_p2wsh [OF env] by (simp add: htlc_found_def)
    then obtain k where k: "k < length ?fs" "?fs ! k = v" by (metis in_set_conv_nth)
    with d sc j(3) have "p_revoked_wit rv' ! (2 + k) = hi_script j" "p_revoked_type rv' ! (2 + k) = htlc_type j"
      "p_revoked_vout rv' ! (2 + k) = ?P (hi_script j)" by auto
    moreover have "2 + k < unat (revoked_num rv')" using d k(1) fl by auto
    ultimately show ?thesis using j(1,2) by (intro exI [of _ "2 + k"]) auto
  qed
  then show ?thesis using rv'(1) d cl(1) by auto
qed

text \<open>
  C33: The arrays are one too small when no output is the peer's own. For any close whose outputs are
  P2WPKH or P2WSH, \<open>ln_close_remoterevoked\<close> writes behind the arrays that it allocated exactly when the
  transaction has outputs and each of them is 22 bytes long or an HTLC that the table of payment
  hashes knows; otherwise it returns.
\<close>

theorem revoked_arrays_overrun:
  assumes "wf_env env" "wf_self self" "length sec = BTC_SZ_PRIVKEY"
    and "segwit_outs (tx_vout tx)" "length (tx_vout tx) < 65535"
    and "n = calc_commit_num (obscured self) tx"
    and "ln_derkey_storage_get_secret (sha256 env) (peer_storage self) (LN_SECINDEX_INIT - n) = Some sec"
  shows "(ln_close_remoterevoked env db tx self rv = Inl Write_Overrun \<longleftrightarrow> tx_vout tx \<noteq> [] \<and>
      known_outs db (btc_sw_wit2prog_p2wsh (sha256 env) (revoked_tolocal env sec n self)) (tx_vout tx)) \<and>
    (\<forall>e. ln_close_remoterevoked env db tx self rv = Inl e \<longrightarrow> e = Write_Overrun)"
  using remoterevoked_result [OF assms(1-5), of db rv] assms(6,7) by (auto split: if_splits)

section \<open>A revoked close that is taken for a mutual one\<close>

lemma disable_update_ok:
  assumes "can_announce env ae self"
  shows "\<exists>e. disable_update env ae self = Inr (callback e self)"
  using create_channel_update_ok [OF assms, of "ucast (an_now ae)" "ucast LN_CNLUPD_FLAGS_DISABLE"]
  by (auto simp: disable_update_def)

lemma close_classified:
  assumes "ch_status self = LN_STATUS_CLOSE_SPENT" "tx_txid env tx = Some tid"
    and "can_announce env ae self" "looks_mutual self tx = Inr m"
  shows "\<exists>self' rv'. ln_close_change_stat env ae tx self rv = Inr (self', rv') \<and>
    ch_status self' =
      (if m then LN_STATUS_CLOSE_MUTUAL
       else if tid = txid (commit_local self) then LN_STATUS_CLOSE_UNI_LOCAL
       else if ln_derkey_storage_get_secret (sha256 env) (peer_storage self)
           (LN_SECINDEX_INIT - calc_commit_num (obscured self) tx) \<noteq> None then LN_STATUS_CLOSE_REVOKED
       else LN_STATUS_CLOSE_UNI_REMOTE)"
proof -
  have can: "can_announce env ae (callback e (self\<lparr>ch_status := st\<rparr>))" for e st
    using assms(3) by (simp add: can_announce_def callback_def)
  have can': "can_announce env ae (callback e (set_remote_percommit env sec (self\<lparr>ch_status := st\<rparr>)))" for e sec st
    using assms(3)
    by (cases "length (pubkeys (funding_remote self))")
       (auto simp: can_announce_def callback_def set_remote_percommit_def fundidx_defs split: option.split)
  have st: "ch_status (callback e s) = ch_status s" "ch_status (set_remote_percommit env sec s) = ch_status s" for e sec s
    by (simp_all add: callback_def set_remote_percommit_def split: option.split)
  define kind where "kind = (if m then (self\<lparr>ch_status := LN_STATUS_CLOSE_MUTUAL\<rparr>, rv)
    else if tid = txid (commit_local self) then (self\<lparr>ch_status := LN_STATUS_CLOSE_UNI_LOCAL\<rparr>, rv)
    else (case ln_derkey_storage_get_secret (sha256 env) (peer_storage self)
        (LN_SECINDEX_INIT - calc_commit_num (obscured self) tx) of
      Some sec \<Rightarrow> (set_remote_percommit env sec (self\<lparr>ch_status := LN_STATUS_CLOSE_REVOKED\<rparr>),
        rv\<lparr>revoked_sec := sec\<rparr>)
    | None \<Rightarrow> (self\<lparr>ch_status := LN_STATUS_CLOSE_UNI_REMOTE\<rparr>, rv\<lparr>revoked_sec := []\<rparr>)))"
  have "can_announce env ae (callback DB_SELF_SAVE_STATUS (fst kind))"
    using can can' by (simp add: kind_def split: option.split)
  then obtain e where "disable_update env ae (callback DB_SELF_SAVE_STATUS (fst kind)) =
      Inr (callback e (callback DB_SELF_SAVE_STATUS (fst kind)))"
    using disable_update_ok by blast
  then have "ln_close_change_stat env ae tx self rv =
      Inr (callback e (callback DB_SELF_SAVE_STATUS (fst kind)), snd kind)"
    using assms(1,2,4) by (simp add: ln_close_change_stat_def Let_def case_prod_beta flip: kind_def)
  then show ?thesis by (auto simp: st kind_def split: option.split)
qed

text \<open>
  C32: The peer can hide a revoked commitment. The script of an output of any commitment transaction
  passes the check that \<open>recv_shutdown\<close> makes of the script of the peer. If the peer has sent the
  script of the first output of a revoked commitment of at most two outputs as its shutdown script,
  its publication is classified as a mutual close: the channel is closed without a penalty, whatever
  secrets of the peer are known.
\<close>

theorem revoked_taken_for_mutual:
  assumes "wf_env env" "wf_self s" "remote_commit_tx env n dust s = Inr (ws, infos, fi, tx)"
    and "tx_vout tx = v # vs" "length vs \<le> 1"
    and "ch_status self = LN_STATUS_CLOSE_SPENT" "tx_txid env tx \<noteq> None" "can_announce env ae self"
    and "shutdown_scriptpk_local self \<noteq> []" "shutdown_scriptpk_remote self = vout_script v"
  shows "ln_script_scriptpkh_check (vout_script v) \<and>
    (\<exists>self' rv'. ln_close_change_stat env ae tx self rv = Inr (self', rv') \<and>
      ch_status self' = LN_STATUS_CLOSE_MUTUAL)"
proof
  have "vout_script v = p2wpkh_pub (sha256 env) (ripemd160 env) (scriptpubkeys (funding_remote s) ! MSG_SCRIPTIDX_REMOTEKEY) \<or>
    (\<exists>w. vout_script v = btc_sw_wit2prog_p2wsh (sha256 env) w)"
  proof -
    note parts = remote_commit_parts [OF assms(1-3)]
    obtain our their where "tx = ln_script_committx_create (sha256 env) (ripemd160 env)
        (commit_struct s ws (scriptpubkeys (funding_remote s)) fi infos our their n) (\<not> is_funder s)"
      using parts(5) by blast
    with committx_out_cases [of v "sha256 env" "ripemd160 env" "commit_struct s ws
        (scriptpubkeys (funding_remote s)) fi infos our their n" "\<not> is_funder s"] assms(4) parts(3,4)
    show ?thesis by (auto simp: commit_struct_def LN_HTLC_MAX_def)
  qed
  moreover have "length (p2wpkh_pub (sha256 env) (ripemd160 env) k) = 22"
    "length (btc_sw_wit2prog_p2wsh (sha256 env) w) = 34" for k w
    using length_p2wpkh length_p2wsh assms(1) by auto
  ultimately show "ln_script_scriptpkh_check (vout_script v)"
    by (auto simp: ln_script_scriptpkh_check_def p2wpkh_pub_def btc_sw_wit2prog_p2wsh_def)
  then have "vout_script v \<noteq> []" by (auto simp: ln_script_scriptpkh_check_def)
  then have "looks_mutual self tx = Inr True" using assms(4,5,9,10) by (simp add: looks_mutual_def)
  then show "\<exists>self' rv'. ln_close_change_stat env ae tx self rv = Inr (self', rv') \<and>
      ch_status self' = LN_STATUS_CLOSE_MUTUAL"
    using close_classified [OF assms(6) _ assms(8), of tx _ True rv] assms(7) by auto
qed

section \<open>The penalty of an HTLC output\<close>

text \<open>The revocation key of the node belongs to the key in the scripts of the peer.\<close>

lemma revocation_key_pair:
  assumes ec: "ec_laws g P pub"
    and x: "x = mpi_read bsec" "ec_scalar g x"
    and y: "y = mpi_read csec" "ec_scalar g y"
    and sc: "ec_scalar g (mpi_read (sha (pub x @ pub y)))" "ec_scalar g (mpi_read (sha (pub y @ pub x)))"
    and "(mpi_read (sha (pub x @ pub y)) * x + mpi_read (sha (pub y @ pub x)) * y) mod ec_N g \<noteq> 0"
  shows "\<exists>rk. length rk = 32 \<and> ln_derkey_revocationprivkey g sha (pub x) (pub y) bsec csec = Some rk \<and>
    ln_derkey_revocationkey g sha (pub x) (pub y) = Some (pub (mpi_read rk)) \<and> ec_scalar g (mpi_read rk)"
proof -
  have nz: "x mod ec_N g \<noteq> 0" "y mod ec_N g \<noteq> 0" using x(2) y(2) by (simp_all add: ec_scalar_def)
  have rd: "ec_read g (pub x) = Some (P x)" "ec_read g (pub y) = Some (P y)"
    and ma: "ec_muladd g (mpi_read (sha (pub x @ pub y))) (P x) (mpi_read (sha (pub y @ pub x))) (P y) =
      Some (P (mpi_read (sha (pub x @ pub y)) * x + mpi_read (sha (pub y @ pub x)) * y))"
    using ec nz sc by (simp_all add: ec_laws_def)
  obtain rk where "mpi_write 32 ((mpi_read (sha (pub x @ pub y)) * x +
      mpi_read (sha (pub y @ pub x)) * y) mod ec_N g) = Some rk" "length rk = 32"
    "ec_write g (P (mpi_read (sha (pub x @ pub y)) * x + mpi_read (sha (pub y @ pub x)) * y)) =
      Some (pub (mpi_read rk))" "ec_scalar g (mpi_read rk)"
    using ec_reduce [OF ec assms(8)] by blast
  then show ?thesis
    using rd by (simp add: ln_derkey_revocationprivkey_def ln_derkey_revocationkey_def ma Let_def flip: x(1) y(1))
qed

lemma script_key_set:
  "j \<noteq> i \<Longrightarrow> scriptpubkeys (set_script_key j k' d) ! i = scriptpubkeys d ! i"
  "i < length (scriptpubkeys d) \<Longrightarrow> scriptpubkeys (set_script_key i (Some k) d) ! i = k"
  "length (scriptpubkeys (set_script_key j k' d)) = length (scriptpubkeys d)"
  by (auto simp: set_script_key_def split: option.split)

lemma revoked_revocation_key:
  assumes "wf_self s" "priv2pub env sec = Some py"
    and "ln_derkey_revocationkey (ec env) (sha256 env) (pubkeys (funding_local s) ! MSG_FUNDIDX_REVOCATION) py = Some k"
  shows "revoked_keys env sec n s ! MSG_SCRIPTIDX_REVOCATION = k"
    "pubkeys (funding_remote (revoked_state env sec n s)) ! MSG_FUNDIDX_PER_COMMIT = py"
    "pubkeys (funding_local (revoked_state env sec n s)) ! MSG_FUNDIDX_REVOCATION =
      pubkeys (funding_local s) ! MSG_FUNDIDX_REVOCATION"
proof -
  have len: "length (pubkeys (funding_remote s)) = 6" "length (scriptpubkeys (funding_remote s)) = 5"
    using assms(1) by (simp_all add: wf_self_def Commit_Build.wf_keys_def)
  let ?t = "ln_signer_keys_update_force env (LN_SECINDEX_INIT - n) (set_remote_percommit env sec s)"
  have t: "pubkeys (funding_remote ?t) ! MSG_FUNDIDX_PER_COMMIT = py"
    "pubkeys (funding_local ?t) ! MSG_FUNDIDX_REVOCATION = pubkeys (funding_local s) ! MSG_FUNDIDX_REVOCATION"
    "length (scriptpubkeys (funding_remote ?t)) = 5"
    using len assms(2) by (auto simp: set_remote_percommit_def ln_signer_keys_update_force_def Let_def
        fundidx_defs split: prod.split option.split)
  then show "pubkeys (funding_remote (revoked_state env sec n s)) ! MSG_FUNDIDX_PER_COMMIT = py"
    "pubkeys (funding_local (revoked_state env sec n s)) ! MSG_FUNDIDX_REVOCATION =
      pubkeys (funding_local s) ! MSG_FUNDIDX_REVOCATION"
    by (simp_all add: revoked_state_def)
  have "scriptpubkeys (funding_remote (update_scriptkeys env ?t)) ! MSG_SCRIPTIDX_REVOCATION = k"
    using t assms(3)
    by (simp add: update_scriptkeys_def ln_misc_update_scriptkeys_def Let_def script_key_set
        MSG_SCRIPTIDX_REMOTEKEY_def MSG_SCRIPTIDX_DELAYED_def MSG_SCRIPTIDX_REVOCATION_def
        MSG_SCRIPTIDX_LOCALHTLCKEY_def MSG_SCRIPTIDX_REMOTEHTLCKEY_def)
  then show "revoked_keys env sec n s ! MSG_SCRIPTIDX_REVOCATION = k"
    by (simp add: revoked_keys_def revoked_state_def)
qed

lemma sighash_spend:
  "spendable tx \<Longrightarrow> btc_util_calc_sighash_p2wsh h (tx_mem_of tx) 0 sat redeem = Inr (spend_hash h tx sat redeem)"
  by (simp add: btc_util_calc_sighash_p2wsh_def spendable_valid
      sighash_eq [OF spendable_wf spendable_valid] spend_hash_def btc_sw_scriptcode_p2wsh_def put_var_def
      set_varint_bytes)

text \<open>The unsigned transaction: the revoked output to the script, with the fee for its type deducted.\<close>

definition penalty_tx ::
  "'p ln_env \<Rightarrow> ln_self_t \<Rightarrow> ln_htlctype_t \<Rightarrow> u64 \<Rightarrow> bytes \<Rightarrow> bytes \<Rightarrow> nat \<Rightarrow> btc_tx_t" where
  "penalty_tx env self type Value script pTxid Index =
     \<lparr>vin_txid = pTxid, vin_index = of_nat Index, vin_sequence = 0,
      tx_vout = [\<lparr>vout_value = Value - (if type = LN_HTLCTYPE_OFFERED then M_FEE_HTLCTIMEOUT else M_FEE_HTLCSUCCESS) *
            ucast (feerate_per_kw self) div 1000,
          vout_script = script, vout_opt = (if type = LN_HTLCTYPE_OFFERED then 1 else 2)\<rparr>],
      tx_locktime = 0\<rparr>"

text \<open>
  C18: The penalty for an HTLC output of a revoked commitment. After \<open>ln_close_remoterevoked\<close> the key with
  which \<open>ln_revokedhtlc_create_spenttx\<close> signs is the private key of the revocation key in the scripts
  of the revoked state; the witness is its signature of the BIP 143 hash of the transaction for the
  value of the output, that public key and the script. The transaction pays the value less the fee
  of an HTLC transaction at the present feerate, not to \<open>shutdown_scriptpk_local\<close> but to its P2WSH form:
  to whoever can satisfy that \<open>scriptPubKey\<close> as a witness script. Assumed is the group of the curve, that
  the two secrets and the two hashes of the derivation are scalars between 1 and the group order and do
  not happen to sum up to 0, that a valid private key has its public key, and that this one hash can be
  signed with a valid private key.
\<close>

theorem penalty_htlc_spend:
  assumes ec: "ec_laws (ec env) P pub"
      "\<forall>k. length k = 32 \<and> ec_scalar (ec env) (mpi_read k) \<longrightarrow> priv2pub env k = Some (pub (mpi_read k))"
      "\<forall>z. ec_scalar (ec env) z \<longrightarrow> length (pub z) = BTC_SZ_PUBKEY"
    and base: "wf_self s" "pubkeys (funding_local s) ! MSG_FUNDIDX_REVOCATION = pub x"
      "x = mpi_read (priv_data se ! MSG_FUNDIDX_REVOCATION)" "ec_scalar (ec env) x"
    and sec: "length sec = 32" "ec_scalar (ec env) (mpi_read sec)"
      "ec_scalar (ec env) (mpi_read (sha256 env (pub x @ pub (mpi_read sec))))"
      "ec_scalar (ec env) (mpi_read (sha256 env (pub (mpi_read sec) @ pub x)))"
      "(mpi_read (sha256 env (pub x @ pub (mpi_read sec))) * x +
        mpi_read (sha256 env (pub (mpi_read sec) @ pub x)) * mpi_read sec) mod ec_N (ec env) \<noteq> 0"
    and rv: "revoked_sec rv = sec" "i < length (p_revoked_type rv)" "i < length (p_revoked_wit rv)"
      "p_revoked_type rv ! i = type" "type \<noteq> LN_HTLCTYPE_NONE"
    and tx: "t = penalty_tx env self type Value (btc_sw_wit2prog_p2wsh (sha256 env) (shutdown_scriptpk_local self)) pTxid Index"
      "self = revoked_state env sec n s" "length pTxid = 32" "vout_value (tx_vout t ! 0) \<noteq> 0"
    and sign: "\<forall>k. length k = 32 \<and> ec_scalar (ec env) (mpi_read k) \<longrightarrow>
      btc_tx_sign se (spend_hash (se_hash256 se) t Value (p_revoked_wit rv ! i)) k \<noteq> None"
  shows "\<exists>rk sig. revoked_keys env sec n s ! MSG_SCRIPTIDX_REVOCATION = pub (mpi_read rk) \<and> length rk = 32 \<and>
    btc_tx_sign se (spend_hash (se_hash256 se) t Value (p_revoked_wit rv ! i)) rk = Some sig \<and>
    ln_revokedhtlc_create_spenttx env se self rv Value i pTxid Index =
      Inr (True, (tx_mem_of t)\<lparr>tm_vin := Some [\<lparr>vi_txid = pTxid, vi_index = of_nat Index, vi_script = [],
        vi_wit_cnt = 3, vi_witness = Some [sig, pub (mpi_read rk), p_revoked_wit rv ! i], vi_sequence = 0\<rparr>]\<rparr>)"
proof -
  obtain rk where rk: "length rk = 32"
    "ln_derkey_revocationprivkey (ec env) (sha256 env) (pub x) (pub (mpi_read sec))
       (priv_data se ! MSG_FUNDIDX_REVOCATION) sec = Some rk"
    "ln_derkey_revocationkey (ec env) (sha256 env) (pub x) (pub (mpi_read sec)) = Some (pub (mpi_read rk))"
    "ec_scalar (ec env) (mpi_read rk)"
    using revocation_key_pair [OF ec(1) base(3,4) refl sec(2-5)] by blast
  have "priv2pub env sec = Some (pub (mpi_read sec))" using ec(2) sec(1,2) by blast
  note key = revoked_revocation_key [OF base(1) this rk(3) [folded base(2)], of n]
  have signkey: "ln_signer_get_revokesec env se self (pubkeys (funding_remote self) ! MSG_FUNDIDX_PER_COMMIT)
      (revoked_sec rv) = \<lparr>k_priv = rk, k_pub = pub (mpi_read rk)\<rparr>"
    using rk(1,2,4) ec(2) unfolding tx(2) ln_signer_get_revokesec_def key rv(1) base(2)
    by (simp add: fill_keys_def)
  have sp: "spendable t"
    using tx(3,4) unfolding tx(1)
    by (simp add: spendable_def penalty_tx_def btc_sw_wit2prog_p2wsh_def)
  have htlctx: "ln_script_htlctx_create (sha256 env)
      (Value - (if type = LN_HTLCTYPE_OFFERED then htlc_timeout (fst (ln_script_fee_calc (feerate_per_kw self) 0 []))
         else htlc_success (fst (ln_script_fee_calc (feerate_per_kw self) 0 []))))
      (shutdown_scriptpk_local self) type 0 pTxid Index = Inr t"
    using rv(5) unfolding tx(1)
    by (cases type) (simp_all add: ln_script_htlctx_create_def ln_script_fee_calc_def penalty_tx_def Let_def
        case_prod_beta)
  obtain sig where sig: "btc_tx_sign se (spend_hash (se_hash256 se) t Value (p_revoked_wit rv ! i)) rk = Some sig"
    using sign rk(1,4) by (metis option.exhaust)
  have one: "tm_vin_cnt (tx_mem_of t) = 1" "tm_vout_cnt (tx_mem_of t) = 1"
    unfolding tx(1) by (simp_all add: penalty_tx_def)
  have sgn: "ln_script_htlctx_sign se (tx_mem_of t) Value \<lparr>k_priv = rk, k_pub = pub (mpi_read rk)\<rparr>
      (p_revoked_wit rv ! i) = Inr sig"
    by (simp add: ln_script_htlctx_sign_def one [simplified] sighash_spend [OF sp] sig)
  have wit: "ln_script_htlctx_wit env (tx_mem_of t) sig \<lparr>k_priv = rk, k_pub = pub (mpi_read rk)\<rparr> None None
      (p_revoked_wit rv ! i) (if type = LN_HTLCTYPE_OFFERED then LN_HTLCSIGN_REVOKE_OFFER else LN_HTLCSIGN_REVOKE_RECV) =
    Inr ((tx_mem_of t)\<lparr>tm_vin := Some [\<lparr>vi_txid = pTxid, vi_index = of_nat Index, vi_script = [],
        vi_wit_cnt = 3, vi_witness = Some [sig, pub (mpi_read rk), p_revoked_wit rv ! i], vi_sequence = 0\<rparr>]\<rparr>)"
    using ec(3) rk(4) tx(3) unfolding tx(1)
    by (simp add: ln_script_htlctx_wit_def btc_sw_set_vin_p2wsh_def vin_update_def c_index_def c_store_def
        Let_def btc_tx_add_wit_def c_grow_def penalty_tx_def)
  have "ln_revokedhtlc_create_spenttx env se self rv Value i pTxid Index =
      Inr (True, (tx_mem_of t)\<lparr>tm_vin := Some [\<lparr>vi_txid = pTxid, vi_index = of_nat Index, vi_script = [],
        vi_wit_cnt = 3, vi_witness = Some [sig, pub (mpi_read rk), p_revoked_wit rv ! i], vi_sequence = 0\<rparr>]\<rparr>)"
    using rv(2,3,4) htlctx
    by (simp add: ln_revokedhtlc_create_spenttx_def Let_def c_index_def signkey sgn wit)
  with rk(1) key(1) sig show ?thesis by blast
qed

section \<open>A concrete revoked close\<close>

text \<open>
  A channel that knows one secret, that of commitment \<open>0xffffffffffff\<close> of the peer; in the curve of
  \<open>rev_env\<close> every derived key is the same.
\<close>

definition rev_env :: "nat ln_env" where
  "rev_env = toy_env\<lparr>ec := \<lparr>ec_read = (\<lambda>_. Some 0), ec_write = (\<lambda>_. Some (replicate 33 0)),
     ec_muladd = (\<lambda>_ _ _ _. Some 1), ec_G = 0, ec_inf = (\<lambda>_. False), ec_N = 7\<rparr>\<rparr>"

definition rev_secret :: bytes where "rev_secret = replicate 31 0 @ [6]"

definition rev_self :: ln_self_t where
  "rev_self = toy_self2\<lparr>peer_storage := replicate 48 entry_init @ [\<lparr>secret = rev_secret, index = 0\<rparr>]\<rparr>"

definition toy_rv :: ln_revoked_t where
  "toy_rv = \<lparr>p_revoked_vout = [], p_revoked_wit = [[], [], [7]],
     p_revoked_type = [LN_HTLCTYPE_NONE, LN_HTLCTYPE_NONE, LN_HTLCTYPE_RECEIVED],
     revoked_sec = rev_secret, revoked_num = 0, revoked_cnt = 0, revoked_chk = 0\<rparr>"

lemma rev_env_fields [simp]:
  "sha256 rev_env = sha256 toy_env" "ripemd160 rev_env = ripemd160 toy_env" "priv2pub rev_env = priv2pub toy_env"
  by (simp_all add: rev_env_def)

lemma rev_wf: "wf_env rev_env" "wf_self rev_self"
  using toy_wf by (simp_all add: wf_env_def rev_env_def wf_self_def rev_self_def)

lemma rev_sec:
  "ln_derkey_storage_get_secret sha (peer_storage rev_self) 0 = Some rev_secret"
  "length rev_secret = BTC_SZ_PRIVKEY"
  "priv2pub rev_env rev_secret = Some (pubkeys (funding_remote toy_self2) ! MSG_FUNDIDX_PER_COMMIT)"
proof -
  have "get_loop sha st 0 (Suc n) = Some (secret (st ! n))" if "index (st ! n) = 0" for st n
    using that by simp
  from this [of "peer_storage rev_self" 48]
  show "ln_derkey_storage_get_secret sha (peer_storage rev_self) 0 = Some rev_secret"
    by (simp add: ln_derkey_storage_get_secret_def rev_self_def nth_append)
  show "length rev_secret = BTC_SZ_PRIVKEY" by (simp add: rev_secret_def)
  have "mpi_octets 33 6 = 0 # rev_secret" by code_simp
  then show "priv2pub rev_env rev_secret = Some (pubkeys (funding_remote toy_self2) ! MSG_FUNDIDX_PER_COMMIT)"
    by (simp add: toy_env_def toy_self2_def toy_self_def toy_funding_def fundidx_defs)
qed

lemma rev_keys: "keys_current rev_env toy_self2"
proof -
  have "scriptpubkeys (snd (ln_misc_update_scriptkeys (ec rev_env) sha l (r\<lparr>scriptpubkeys := keys\<rparr>))) =
      replicate 5 (replicate 33 0)" if "length keys = 5" for l r keys sha
  proof -
    have "\<exists>a b c d e. keys = [a, b, c, d, e]"
      using that by (simp add: numeral_eq_Suc length_Suc_conv) blast
    then obtain a b c d e where "keys = [a, b, c, d, e]" by blast
    then show ?thesis
      by (simp add: ln_misc_update_scriptkeys_def Let_def set_script_key_def fundidx_defs rev_env_def
          ln_derkey_pubkey_def ln_derkey_revocationkey_def btc_util_ecp_muladd_def numeral_eq_Suc)
  qed
  moreover have "scriptpubkeys (funding_remote toy_self2) = replicate 5 (replicate 33 0)"
    by (simp add: toy_self2_def toy_self_def toy_funding_def)
  ultimately show ?thesis by (simp add: keys_current_def)
qed

lemma rev_commit: "remote_commit_tx rev_env n dust s = remote_commit_tx toy_env n dust s"
proof -
  have "htlcinfo_scripts rev_env k infos = htlcinfo_scripts toy_env k infos" for k infos
    by (induction infos) simp_all
  then show ?thesis by (simp add: remote_commit_tx_def)
qed

lemma revoked_scripts_recovered_witness:
  "\<exists>ws infos fi tx rv'. remote_commit_tx rev_env 0xffffffffffff 546 toy_self2 = Inr (ws, infos, fi, tx) \<and>
     ln_close_remoterevoked rev_env (phash_saves rev_env infos []) tx rev_self toy_rv =
       Inr (True, revoked_state rev_env rev_secret 0xffffffffffff rev_self, rv') \<and>
     length (filter is_htlc_out (tx_vout tx)) = 2 \<and>
     unat (revoked_cnt rv') = length (filter (\<lambda>v. vout_opt v \<noteq> LN_HTLCTYPE_TOREMOTE) (tx_vout tx))"
proof -
  obtain ws infos fi tx where tx: "remote_commit_tx rev_env 0xffffffffffff 546 toy_self2 = Inr (ws, infos, fi, tx)"
    "length (htlc_outs 0 (tx_vout tx)) = 2" "\<exists>v\<in>set (tx_vout tx). vout_opt v = LN_HTLCTYPE_TOLOCAL"
    using toy_remote_commit [of "0xffffffffffff"] unfolding rev_commit by blast
  have obs: "obscured toy_self2 = ln_script_calc_obscured_txnum (sha256 rev_env) (replicate 33 0) (replicate 33 0)"
    by (simp add: ln_script_calc_obscured_txnum_def toy_env_def toy_hash_def toy_self2_def toy_self_def
        upt_rec nth_append)
  have same: "same_channel toy_self2 rev_self" by (simp add: same_channel_def rev_self_def)
  have sec: "ln_derkey_storage_get_secret (sha256 rev_env) (peer_storage rev_self)
      (LN_SECINDEX_INIT - 0xffffffffffff) = Some rev_secret"
    using rev_sec(1) by (simp add: LN_SECINDEX_INIT_def)
  show ?thesis
    using revoked_scripts_recovered [OF rev_wf(1) toy_wf(2) rev_keys rev_wf(2) same tx(1) _ obs tx(3) sec
        rev_sec(2,3) phash_saves_saved [OF rev_wf(1)], of "[]" toy_rv] tx(1,2)
    by (auto simp: length_htlc_outs)
qed

lemma revoked_arrays_overrun_witness:
  "ln_close_remoterevoked rev_env [] \<lparr>vin_txid = [], vin_index = 0, vin_sequence = 0xffffffff,
     tx_vout = [\<lparr>vout_value = 1, vout_script = replicate 22 0, vout_opt = 0\<rparr>], tx_locktime = 0xffffff\<rparr>
     rev_self toy_rv = Inl Write_Overrun"
proof -
  let ?tx = "\<lparr>vin_txid = [], vin_index = 0, vin_sequence = 0xffffffff,
     tx_vout = [\<lparr>vout_value = 1, vout_script = replicate 22 0, vout_opt = 0\<rparr>], tx_locktime = 0xffffff\<rparr>"
  have n: "calc_commit_num (obscured rev_self) ?tx = 0xffffffffffff"
    by (simp add: calc_commit_num_def rev_self_def toy_self2_def toy_self_def)
  have sec: "ln_derkey_storage_get_secret (sha256 rev_env) (peer_storage rev_self)
      (LN_SECINDEX_INIT - 0xffffffffffff) = Some rev_secret"
    using rev_sec(1) by (simp add: LN_SECINDEX_INIT_def)
  show ?thesis
    using revoked_arrays_overrun [OF rev_wf rev_sec(2), of ?tx "0xffffffffffff" "[]" toy_rv, OF _ _ n [symmetric] sec]
    by (simp add: segwit_outs_def known_outs_def)
qed

lemma toy_plain_commit:
  "\<exists>ws fi tx v vs. remote_commit_tx toy_env 0 546 toy_self = Inr (ws, [], fi, tx) \<and> tx_vout tx = v # vs \<and>
     length vs \<le> 1"
proof -
  have d: "wf_keys (funding_remote toy_self)" using toy_wf_self by (simp add: wf_self_def)
  have amt: "create_to_remote_htlcinfo (cnl_add_htlc toy_self) a b = ([], a, b)" for a b
    by (simp add: create_to_remote_htlcinfo_def toy_self_def LN_HTLC_MAX_def remote_htlcinfo_step_def
        htlc_zero_def flag_zero_def LN_HTLC_ENABLE_def LN_HTLC_EMPTY_def eval_nat_numeral)
  obtain ws fi where tx: "remote_commit_tx toy_env 0 546 toy_self = Inr (ws, [], fi,
      ln_script_committx_create (sha256 toy_env) (ripemd160 toy_env) (commit_struct toy_self ws
        (scriptpubkeys (funding_remote toy_self)) fi [] 400000000 600000000 0) False)"
    "fi = fst (ln_script_fee_calc 500 546 [])"
    using amt by (auto simp: remote_commit_tx_def Let_def fundidx_defs
        create_tolocal_eq [OF wf_keys_nth [OF d] wf_keys_nth [OF d]]) (simp_all add: toy_self_def)
  let ?c = "commit_struct toy_self ws (scriptpubkeys (funding_remote toy_self)) fi [] 400000000 600000000 0"
  have "length (committx_vouts (sha256 toy_env) (ripemd160 toy_env) ?c False) = 2"
    unfolding tx(2)
    by (simp add: committx_vouts_def commit_struct_def LN_MSAT2SATOSHI_def ln_script_fee_calc_def
        LN_FEE_COMMIT_BASE_def htlc_vouts_def Let_def)
  then have "length (tx_vout (ln_script_committx_create (sha256 toy_env) (ripemd160 toy_env) ?c False)) = 2"
    using bip69_mset [THEN arg_cong [of _ _ size]]
    by (simp del: btc_util_sort_bip69.simps add: ln_script_committx_create_def)
  then obtain v vs where "tx_vout (ln_script_committx_create (sha256 toy_env) (ripemd160 toy_env) ?c False) = v # vs"
    "length vs \<le> 1" by (auto simp: numeral_eq_Suc length_Suc_conv)
  with tx(1) show ?thesis by blast
qed

lemma revoked_taken_for_mutual_witness:
  "\<exists>ws fi tx v vs self' rv'. remote_commit_tx toy_env 0 546 toy_self = Inr (ws, [], fi, tx) \<and> tx_vout tx = v # vs \<and>
     ln_close_change_stat toy_env (toy_anno 5) tx ((toy_anno_self 9)\<lparr>ch_status := LN_STATUS_CLOSE_SPENT,
       shutdown_scriptpk_remote := vout_script v\<rparr>) toy_rv = Inr (self', rv') \<and>
     ch_status self' = LN_STATUS_CLOSE_MUTUAL"
proof -
  obtain ws fi tx v vs where tx: "remote_commit_tx toy_env 0 546 toy_self = Inr (ws, [], fi, tx)"
    "tx_vout tx = v # vs" "length vs \<le> 1" using toy_plain_commit by blast
  let ?self = "(toy_anno_self 9)\<lparr>ch_status := LN_STATUS_CLOSE_SPENT, shutdown_scriptpk_remote := vout_script v\<rparr>"
  have can: "can_announce toy_env (toy_anno 5) ?self"
    using toy_can_announce [of 5 9] by (simp add: can_announce_def)
  have "tx_txid toy_env tx \<noteq> None" "shutdown_scriptpk_local ?self \<noteq> []"
    by (simp_all add: toy_env_def toy_anno_self_def toy_self_def)
  then show ?thesis
    using revoked_taken_for_mutual [OF toy_wf(1) toy_wf_self tx, of ?self "toy_anno 5" toy_rv] can tx(1,2) by auto
qed

definition valid_toy_key :: "bytes \<Rightarrow> bool" where
  "valid_toy_key k \<longleftrightarrow> 0 < mpi_read k \<and> mpi_read k < 7"

definition pen_toy_env :: "nat ln_env" where
  "pen_toy_env = toy_env\<lparr>sha256 := \<lambda>_. replicate 31 0 @ [1],
     priv2pub := \<lambda>k. if valid_toy_key k then Some (mpi_octets 33 (mpi_read k mod 7)) else None\<rparr>"

definition pen_toy_signer :: sign_env where
  "pen_toy_signer = \<lparr>priv_data = [[], [2]], btc_tx_sign = \<lambda>h k. if valid_toy_key k then Some [1] else None, se_hash256 = id,
     junk_priv = [], junk_pub = [], junk_txid = []\<rparr>"

lemma penalty_htlc_spend_witness:
  "\<exists>t. ln_revokedhtlc_create_spenttx pen_toy_env pen_toy_signer (revoked_state pen_toy_env rev_secret 0 toy_self)
     toy_rv 10000 2 (replicate 32 4) 0 = Inr (True, t)"
proof -
  let ?env = pen_toy_env and ?se = pen_toy_signer
  let ?self = "revoked_state ?env rev_secret 0 toy_self"
  have ec: "ec_laws (ec ?env) (\<lambda>x. x mod 7) (\<lambda>x. mpi_octets 33 (x mod 7))" "ec_N (ec ?env) = 7"
    using toy_ec_laws by (simp_all add: pen_toy_env_def toy_env_def toy_ec_def)
  have m: "mpi_read rev_secret = 6" "mpi_read [2] = 2" "mpi_read (replicate 31 0 @ [1]) = 1" "length rev_secret = 32"
    by (simp_all add: rev_secret_def) (code_simp+)
  have sha: "sha256 ?env d = replicate 31 0 @ [1]" for d by (simp add: pen_toy_env_def)
  have fee: "feerate_per_kw ?self = 500"
    by (simp add: revoked_state_def ln_signer_keys_update_force_def set_remote_percommit_def Let_def toy_self_def
        split: prod.split option.split)
  let ?t = "penalty_tx ?env ?self LN_HTLCTYPE_RECEIVED 10000 (btc_sw_wit2prog_p2wsh (sha256 ?env)
    (shutdown_scriptpk_local ?self)) (replicate 32 4) 0"
  have pub: "\<forall>k. length k = 32 \<and> ec_scalar (ec ?env) (mpi_read k) \<longrightarrow>
      priv2pub ?env k = Some (mpi_octets 33 (mpi_read k mod 7))"
    "\<forall>z. ec_scalar (ec ?env) z \<longrightarrow> length (mpi_octets 33 (z mod 7)) = BTC_SZ_PUBKEY"
    using ec(2) by (simp_all add: ec_scalar_def) (simp add: pen_toy_env_def valid_toy_key_def)
  have base: "pubkeys (funding_local toy_self) ! MSG_FUNDIDX_REVOCATION = mpi_octets 33 (2 mod 7)"
    "2 = mpi_read (priv_data ?se ! MSG_FUNDIDX_REVOCATION)" "ec_scalar (ec ?env) 2"
    using m(2) ec(2)
    by (simp_all add: toy_self_def toy_funding_def MSG_FUNDIDX_REVOCATION_def ec_scalar_def pen_toy_signer_def)
  have sc: "ec_scalar (ec ?env) (mpi_read rev_secret)"
    "ec_scalar (ec ?env) (mpi_read (sha256 ?env (mpi_octets 33 (2 mod 7) @ mpi_octets 33 (mpi_read rev_secret mod 7))))"
    "ec_scalar (ec ?env) (mpi_read (sha256 ?env (mpi_octets 33 (mpi_read rev_secret mod 7) @ mpi_octets 33 (2 mod 7))))"
    "(mpi_read (sha256 ?env (mpi_octets 33 (2 mod 7) @ mpi_octets 33 (mpi_read rev_secret mod 7))) * 2 +
      mpi_read (sha256 ?env (mpi_octets 33 (mpi_read rev_secret mod 7) @ mpi_octets 33 (2 mod 7))) *
      mpi_read rev_secret) mod ec_N (ec ?env) \<noteq> 0"
    using m(1,3) ec(2) by (simp_all add: sha ec_scalar_def)
  have rv: "revoked_sec toy_rv = rev_secret" "2 < length (p_revoked_type toy_rv)" "2 < length (p_revoked_wit toy_rv)"
    "p_revoked_type toy_rv ! 2 = LN_HTLCTYPE_RECEIVED" by (simp_all add: toy_rv_def)
  have val: "vout_value (tx_vout ?t ! 0) \<noteq> 0"
    using fee by (simp add: penalty_tx_def M_FEE_HTLCSUCCESS_def)
  have sign: "\<forall>k. length k = 32 \<and> ec_scalar (ec ?env) (mpi_read k) \<longrightarrow>
      btc_tx_sign ?se (spend_hash (se_hash256 ?se) ?t 10000 (p_revoked_wit toy_rv ! 2)) k \<noteq> None"
    using ec(2) by (simp add: ec_scalar_def pen_toy_signer_def valid_toy_key_def)
  show ?thesis
    using penalty_htlc_spend [OF ec(1) pub toy_wf_self base m(4) sc rv _ refl refl _ val sign] by auto
qed

end
