(* ===== verification/Ptarmd_Revoked.thy ===== *)
theory Ptarmd_Revoked
  imports Channel_Revoked
begin

text \<open>
  The daemon after a revoked close: \<^verbatim>\<open>ptarmd/monitoring.c\<close> takes the outputs of the revoked commitment
  transaction, at once or through its wallet, and \<^verbatim>\<open>ptarmd/wallet.c\<close> collects the entries of the wallet
  in a transaction. What the chain backend answers is a parameter; what the daemon does is recorded
  in the order in which it is done.
\<close>

section \<open>Entries of the wallet\<close>

definition LN_DB_WALLET_TYPE_TOLOCAL :: byte where "LN_DB_WALLET_TYPE_TOLOCAL = 1"
definition LN_DB_WALLET_TYPE_TOREMOTE :: byte where "LN_DB_WALLET_TYPE_TOREMOTE = 2"
definition LN_DB_WALLET_TYPE_HTLCOUT :: byte where "LN_DB_WALLET_TYPE_HTLCOUT = 3"
definition BTC_TX_LOCKTIME_LIMIT :: u32 where "BTC_TX_LOCKTIME_LIMIT = 500000000"

record ln_db_wallet_t =
  w_type :: byte
  w_txid :: bytes
  w_index :: u32
  w_amount :: u64
  w_sequence :: u32
  w_locktime :: u32
  w_wits :: "bytes list"       \<comment> \<open>\<open>p_wit\<close>, \<open>wit_cnt\<close> of them\<close>

datatype revoked_act =
    WALLET_ADD ln_db_wallet_t
  | WALLET_DEL bytes u32
  | SEND_RAWTX bytes
  | REVTX_SAVE ln_revoked_t

definition set_wallet_data :: "byte \<Rightarrow> btc_tx_mem \<Rightarrow> ln_db_wallet_t c_result" where
  \<comment> \<open>with \<open>LN_DB_WALLET_INIT(type)\<close>\<close>
  "set_wallet_data type pTx =
     bind_c (c_index (tm_vin pTx) 0) (\<lambda>vin.
     bind_c (c_index (tm_vout pTx) 0) (\<lambda>vout.
     bind_c (c_array (vi_witness vin) (vi_wit_cnt vin)) (\<lambda>wits.
       Inr \<lparr>w_type = type, w_txid = vi_txid vin, w_index = vi_index vin, w_amount = vout_value vout,
            w_sequence = vi_sequence vin, w_locktime = tm_locktime pTx, w_wits = wits\<rparr>)))"

section \<open>Taking the outputs of the revoked transaction\<close>

text \<open>
  \<open>send\<close> is \<^verbatim>\<open>btcrpc_send_rawtx\<close>, whose answer may depend on what was done before. The state of a loop
  is \<open>self\<close> as far as it changes and the record of what was done.
\<close>

type_synonym mon_state = "ln_revoked_t \<times> revoked_act list"

definition tx_id :: "'p ln_env \<Rightarrow> sign_env \<Rightarrow> btc_tx_t \<Rightarrow> bytes" where
  \<comment> \<open>\<open>btc_tx_txid\<close>, its result not looked at\<close>
  "tx_id env se pTx = (case tx_txid env pTx of Some t \<Rightarrow> t | None \<Rightarrow> junk_txid se)"

definition close_revoked_tolocal ::
  "'p ln_env \<Rightarrow> sign_env \<Rightarrow> ln_self_t \<Rightarrow> btc_tx_t \<Rightarrow> nat \<Rightarrow> mon_state \<Rightarrow> (bool \<times> mon_state) c_result" where
  "close_revoked_tolocal env se self pTx VIndex = (\<lambda>(rv, acts).
     bind_c (c_index (Some (tx_vout pTx)) VIndex) (\<lambda>v.
     bind_c (c_index (Some (p_revoked_wit rv)) 0) (\<lambda>wit.
     try_c (ln_wallet_create_tolocal env se self rv btc_tx_init (vout_value v)
         (ucast (to_self_delay (commit_local self))) wit (tx_id env se pTx) (of_nat VIndex) True) (\<lambda>r.
     case r of None \<Rightarrow> Inr (False, rv, acts)
     | Some tx \<Rightarrow>
         if 0 < tm_vin_cnt tx then
           bind_c (set_wallet_data LN_DB_WALLET_TYPE_TOLOCAL tx) (\<lambda>wlt.
           Inr (True, rv, acts @ [WALLET_ADD (wlt\<lparr>w_sequence := ucast (to_self_delay (commit_local self))\<rparr>)]))
         else Inr (True, rv, acts)))))"

definition close_revoked_toremote ::
  "'p ln_env \<Rightarrow> sign_env \<Rightarrow> ln_self_t \<Rightarrow> btc_tx_t \<Rightarrow> nat \<Rightarrow> mon_state \<Rightarrow> (bool \<times> mon_state) c_result" where
  "close_revoked_toremote env se self pTx VIndex = (\<lambda>(rv, acts).
     bind_c (c_index (Some (tx_vout pTx)) VIndex) (\<lambda>v.
     try_c (ln_wallet_create_toremote env se self btc_tx_init (vout_value v) (tx_id env se pTx)
         (of_nat VIndex)) (\<lambda>r.
     case r of None \<Rightarrow> Inr (False, rv, acts)
     | Some tx \<Rightarrow>
         if 0 < tm_vin_cnt tx then
           bind_c (set_wallet_data LN_DB_WALLET_TYPE_TOREMOTE tx) (\<lambda>wlt.
           bind_c (c_index (Some (w_wits wlt)) 0) (\<lambda>w0.
           bind_c (c_bytes w0 0 BTC_SZ_PRIVKEY) (\<lambda>priv.
           let pub = (case priv2pub env priv of Some p \<Rightarrow> p | None \<Rightarrow> junk_pub se) in
           Inr (True, rv, acts @ [WALLET_ADD (wlt\<lparr>w_wits := [priv, pub]\<rparr>)]))))
         else Inr (True, rv, acts))))"

definition close_revoked_htlc ::
  "'p ln_env \<Rightarrow> sign_env \<Rightarrow> (revoked_act list \<Rightarrow> bytes \<Rightarrow> bool) \<Rightarrow> ln_self_t \<Rightarrow> btc_tx_t \<Rightarrow> nat \<Rightarrow> nat \<Rightarrow>
   mon_state \<Rightarrow> (bool \<times> mon_state) c_result" where
  "close_revoked_htlc env se send self pTx VIndex WitIndex = (\<lambda>(rv, acts).
     bind_c (c_index (Some (tx_vout pTx)) VIndex) (\<lambda>v.
     bind_c (ln_revokedhtlc_create_spenttx env se self rv (vout_value v) WitIndex (tx_id env se pTx)
         VIndex) (\<lambda>(_, tx).
     bind_c (btc_tx_create tx) (\<lambda>(_, buf).
     Inr (send acts buf, rv, acts @ [SEND_RAWTX buf])))))"

definition ln_revoked_cnt_dec :: "ln_revoked_t \<Rightarrow> bool \<times> ln_revoked_t" where
  "ln_revoked_cnt_dec rv = (revoked_cnt rv - 1 = 0, rv\<lparr>revoked_cnt := revoked_cnt rv - 1\<rparr>)"

definition count_taken :: "u32 \<Rightarrow> mon_state \<Rightarrow> bool \<times> mon_state" where
  \<comment> \<open>\<open>del = ln_revoked_cnt_dec(self); ln_set_revoked_confm(self, confm);\<close>\<close>
  "count_taken confm = (\<lambda>(rv, acts).
     let (del, rv) = ln_revoked_cnt_dec rv in (del, rv\<lparr>revoked_chk := confm\<rparr>, acts))"

fun first_htlcs ::
  "'p ln_env \<Rightarrow> sign_env \<Rightarrow> (revoked_act list \<Rightarrow> bytes \<Rightarrow> bool) \<Rightarrow> u32 \<Rightarrow> btc_tx_t \<Rightarrow> ln_self_t \<Rightarrow> nat \<Rightarrow>
   nat list \<Rightarrow> bool \<Rightarrow> mon_state \<Rightarrow> (bool \<times> mon_state) c_result" where
  \<comment> \<open>the loop over \<open>lp2\<close> for output \<open>lp\<close>\<close>
  "first_htlcs env se send confm pTx self lp [] del st = Inr (del, st)"
| "first_htlcs env se send confm pTx self lp (lp2 # lps) del (rv, acts) =
     bind_c (c_index (Some (tx_vout pTx)) lp) (\<lambda>v.
     bind_c (c_index (Some (p_revoked_vout rv)) lp2) (\<lambda>script.
     if vout_script v = script then
       bind_c (close_revoked_htlc env se send self pTx lp lp2 (rv, acts)) (\<lambda>(ret, st).
       let (del, st) = (if ret then count_taken confm st else (del, st)) in
       first_htlcs env se send confm pTx self lp lps del st)
     else first_htlcs env se send confm pTx self lp lps del (rv, acts)))"

fun first_outs ::
  "'p ln_env \<Rightarrow> sign_env \<Rightarrow> (revoked_act list \<Rightarrow> bytes \<Rightarrow> bool) \<Rightarrow> u32 \<Rightarrow> btc_tx_t \<Rightarrow> ln_self_t \<Rightarrow>
   (nat \<times> btc_vout_t) list \<Rightarrow> bool \<Rightarrow> bool \<Rightarrow> mon_state \<Rightarrow> (bool \<times> bool \<times> mon_state) c_result" where
  \<comment> \<open>the loop over the outputs; \<open>del\<close> and \<open>save\<close>\<close>
  "first_outs env se send confm pTx self [] del save st = Inr (del, save, st)"
| "first_outs env se send confm pTx self ((lp, v) # vs) del save (rv, acts) =
     bind_c (c_index (Some (p_revoked_vout rv)) LN_RCLOSE_IDX_TOLOCAL) (\<lambda>tolocal.
     if vout_script v = tolocal then
       bind_c (close_revoked_tolocal env se self pTx lp (rv, acts)) (\<lambda>(ret, st).
       let (del, save, st) = (if ret then let (del, st) = count_taken confm st in (del, save, st)
                              else (del, False, st)) in
       first_outs env se send confm pTx self vs del save st)
     else
       bind_c (c_index (Some (p_revoked_vout rv)) LN_RCLOSE_IDX_TOREMOTE) (\<lambda>toremote.
       if vout_script v = toremote then
         bind_c (close_revoked_toremote env se self pTx lp (rv, acts)) (\<lambda>(ret, st).
         first_outs env se send confm pTx self vs del (if ret then True else save) st)
       else
         bind_c (first_htlcs env se send confm pTx self lp [LN_RCLOSE_IDX_HTLC..<unat (revoked_num rv)] del
             (rv, acts)) (\<lambda>(del, st).
         first_outs env se send confm pTx self vs del save st)))"

definition close_revoked_first ::
  "'p ln_env \<Rightarrow> sign_env \<Rightarrow> (revoked_act list \<Rightarrow> bytes \<Rightarrow> bool) \<Rightarrow> u32 \<Rightarrow> btc_tx_t \<Rightarrow> ln_self_t \<Rightarrow>
   mon_state \<Rightarrow> (bool \<times> mon_state) c_result" where
  "close_revoked_first env se send confm pTx self st =
     bind_c (first_outs env se send confm pTx self (enumerate 0 (tx_vout pTx)) False True st)
       (\<lambda>(del, save, rv, acts).
       Inr (del, rv, if save then acts @ [REVTX_SAVE rv] else acts))"

text \<open>
  The later rounds: transactions of the peer that pay to the script of its output, found in the blocks
  since the last round (\<open>None\<close> when the search finds none), are taken like that output.
\<close>

fun after_txs ::
  "'p ln_env \<Rightarrow> sign_env \<Rightarrow> ln_self_t \<Rightarrow> btc_tx_t list \<Rightarrow> bool \<Rightarrow> mon_state \<Rightarrow>
   (bool \<times> bool \<times> mon_state) c_result" where
  \<comment> \<open>\<open>del\<close> and \<open>sendret\<close>\<close>
  "after_txs env se self [] del st = Inr (del, True, st)"
| "after_txs env se self (tx # txs) del st =
     bind_c (close_revoked_tolocal env se self tx 0 st) (\<lambda>(ret, rv, acts).
     if ret then (let (del, rv) = ln_revoked_cnt_dec rv in after_txs env se self txs del (rv, acts))
     else Inr (del, False, rv, acts))"

definition close_revoked_after ::
  "'p ln_env \<Rightarrow> sign_env \<Rightarrow> (u32 \<Rightarrow> bytes \<Rightarrow> btc_tx_t list option) \<Rightarrow> u32 \<Rightarrow> ln_self_t \<Rightarrow> mon_state \<Rightarrow>
   (bool \<times> mon_state) c_result" where
  "close_revoked_after env se search_vout confm self = (\<lambda>(rv, acts).
     if confm \<noteq> revoked_chk rv then
       bind_c (c_index (Some (p_revoked_vout rv)) 0) (\<lambda>script.
       case search_vout (confm - revoked_chk rv) script of
         Some txs \<Rightarrow>
           bind_c (after_txs env se self txs False (rv, acts)) (\<lambda>(del, sendret, rv, acts).
           if sendret then
             (let rv = rv\<lparr>revoked_chk := confm\<rparr> in Inr (del, rv, acts @ [REVTX_SAVE rv]))
           else Inr (del, rv, acts))
       | None \<Rightarrow> (let rv = rv\<lparr>revoked_chk := confm\<rparr> in Inr (False, rv, acts @ [REVTX_SAVE rv])))
     else Inr (False, rv, acts))"

section \<open>Collecting the wallet\<close>

record wallet_t =
  wl_tx :: btc_tx_mem
  wl_amount :: u64

record chain_env =
  check_unspent :: "bytes \<Rightarrow> u32 \<Rightarrow> bool option"    \<comment> \<open>\<^verbatim>\<open>btcrpc_check_unspent\<close>\<close>
  get_confirm :: "bytes \<Rightarrow> u32 option"              \<comment> \<open>\<^verbatim>\<open>btcrpc_get_confirm\<close>\<close>

definition wallet_mature :: "chain_env \<Rightarrow> ln_db_wallet_t \<Rightarrow> btc_tx_mem \<Rightarrow> bool" where
  \<comment> \<open>the check of \<open>sequence\<close> and \<open>locktime\<close>\<close>
  "wallet_mature ce pWallet tx =
     (if w_sequence pWallet \<noteq> BTC_TX_SEQUENCE \<or> tm_locktime tx \<noteq> 0 \<and> tm_locktime tx < BTC_TX_LOCKTIME_LIMIT then
        (case get_confirm ce (w_txid pWallet) of None \<Rightarrow> False
         | Some conf \<Rightarrow>
             if w_sequence pWallet \<noteq> BTC_TX_SEQUENCE then \<not> conf < w_sequence pWallet
             else \<not> conf < tm_locktime tx)
      else True)"

definition wallet_input :: "ln_db_wallet_t \<Rightarrow> bytes \<Rightarrow> btc_tx_mem \<Rightarrow> btc_tx_mem c_result" where
  \<comment> \<open>the new input: \<open>wit[0]\<close> is the key with type and amount behind it\<close>
  "wallet_input pWallet w0 tx =
     (let n = tm_vin_cnt tx; tx = btc_tx_add_vin tx (w_txid pWallet) (w_index pWallet) in
      bind_c (vin_update tx n (\<lambda>vin.
        fold (\<lambda>w v. btc_tx_add_wit v w)
          ((w0 @ [w_type pWallet] @ set_le64 (w_amount pWallet)) # tl (w_wits pWallet))
          (vin\<lparr>vi_sequence := w_sequence pWallet\<rparr>)))
      (\<lambda>tx. Inr (if tm_locktime tx < w_locktime pWallet then tx\<lparr>tm_locktime := w_locktime pWallet\<rparr> else tx)))"

definition wallet_dbfunc ::
  "chain_env \<Rightarrow> ln_db_wallet_t \<Rightarrow> wallet_t \<times> revoked_act list \<Rightarrow> (wallet_t \<times> revoked_act list) c_result" where
  "wallet_dbfunc ce pWallet = (\<lambda>(wl, acts).
     if w_wits pWallet = [] then Inr (wl, acts)
     else if check_unspent ce (w_txid pWallet) (w_index pWallet) = Some False then
       Inr (wl, acts @ [WALLET_DEL (w_txid pWallet) (w_index pWallet)])
     else if length (hd (w_wits pWallet)) \<noteq> BTC_SZ_PRIVKEY then Inr (wl, acts)
     else if \<not> wallet_mature ce pWallet (wl_tx wl) then Inr (wl, acts)
     else
       bind_c (wallet_input pWallet (hd (w_wits pWallet)) (wl_tx wl)) (\<lambda>tx.
       Inr (wl\<lparr>wl_tx := tx, wl_amount := wl_amount wl + w_amount pWallet\<rparr>, acts)))"

section \<open>The penalty for the output of the peer waits\<close>

text \<open>The entry for the output of the peer, or for one of its HTLC transactions.\<close>

definition tolocal_entry ::
  "'p ln_env \<Rightarrow> sign_env \<Rightarrow> ln_self_t \<Rightarrow> ln_revoked_t \<Rightarrow> btc_tx_t \<Rightarrow> nat \<Rightarrow> ln_db_wallet_t" where
  "tolocal_entry env se self rv pTx VIndex =
     \<lparr>w_type = LN_DB_WALLET_TYPE_TOLOCAL, w_txid = take 32 (tx_id env se pTx), w_index = of_nat VIndex,
      w_amount = vout_value (tx_vout pTx ! VIndex), w_sequence = ucast (to_self_delay (commit_local self)),
      w_locktime = 0,
      w_wits = [take BTC_SZ_PRIVKEY (k_priv (ln_signer_tolocal_key env se self rv True)), [0x01],
        p_revoked_wit rv ! 0]\<rparr>"

lemma close_revoked_tolocal_eq:
  assumes "VIndex < length (tx_vout pTx)" "0 < length (p_revoked_wit rv)"
  shows "close_revoked_tolocal env se self pTx VIndex (rv, acts) =
    Inr (True, rv, acts @ [WALLET_ADD (tolocal_entry env se self rv pTx VIndex)])"
  using assms
  by (simp add: close_revoked_tolocal_def c_index_def ln_wallet_create_tolocal_def create_basetx_def Let_def
      ln_script_tolocal_wit_def btc_sw_set_vin_p2wsh_def vin_update_def c_store_def btc_tx_add_wit_def c_grow_def
      btc_tx_add_vin_def btc_tx_add_vout_spk_def btc_tx_init_def set_wallet_data_def c_array_def
      tolocal_entry_def)

lemma fold_add_wit:
  "vi_txid (fold (\<lambda>w v. btc_tx_add_wit v w) ws vin) = vi_txid vin"
  "vi_index (fold (\<lambda>w v. btc_tx_add_wit v w) ws vin) = vi_index vin"
  "vi_sequence (fold (\<lambda>w v. btc_tx_add_wit v w) ws vin) = vi_sequence vin"
  by (induction ws arbitrary: vin) (simp_all add: btc_tx_add_wit_def)

lemma wallet_input_last:
  assumes "wallet_input w w0 tx = Inr tx'" "tm_vin tx = None \<longrightarrow> tm_vin_cnt tx = 0"
    "\<forall>vins. tm_vin tx = Some vins \<longrightarrow> length vins = tm_vin_cnt tx"
  shows "\<exists>vins vin. tm_vin tx' = Some (vins @ [vin]) \<and> vi_txid vin = take 32 (w_txid w) \<and>
    vi_index vin = w_index w \<and> vi_sequence vin = w_sequence w"
proof -
  obtain vins where v: "c_grow (tm_vin tx) (tm_vin_cnt tx) x = Some (vins @ [x])" "length vins = tm_vin_cnt tx" for x
  proof (cases "tm_vin tx")
    case None
    then show ?thesis using assms(2) that [of "[]"] by (simp add: c_grow_def)
  next
    case (Some vins)
    then show ?thesis using assms(3) that [of vins] by (simp add: c_grow_def)
  qed
  have n: "(vins @ [x]) ! tm_vin_cnt tx = x" "(vins @ [x])[tm_vin_cnt tx := y] = vins @ [y]" for x y
    by (simp_all flip: v(2))
  have wit: "vi_txid (btc_tx_add_wit x b) = vi_txid x" "vi_index (btc_tx_add_wit x b) = vi_index x"
    "vi_sequence (btc_tx_add_wit x b) = vi_sequence x" for x b
    by (simp_all add: btc_tx_add_wit_def)
  show ?thesis
    using assms(1) v(2)
    by (auto simp: wallet_input_def Let_def btc_tx_add_vin_def vin_update_def c_index_def c_store_def
        v(1) n fold_add_wit wit split: if_splits)
qed

text \<open>
  C34: The penalty gives the peer the time that it needs. The entry with which the daemon wants to take
  the peer's output of a revoked commitment carries \<open>to_self_delay\<close> as its sequence, although the
  branch of the revocation key has no delay: the wallet leaves the entry aside until the revoked
  transaction has \<open>to_self_delay\<close> confirmations, and the input that it then makes has that sequence. This is the
  delay after which the script lets the peer spend the output itself.
\<close>

theorem penalty_waits_for_delay:
  assumes "VIndex < length (tx_vout pTx)" "0 < length (p_revoked_wit rv)"
    and "tx_txid env pTx = Some tid" "length tid = 32"
  shows "\<exists>w. close_revoked_tolocal env se self pTx VIndex (rv, acts) = Inr (True, rv, acts @ [WALLET_ADD w]) \<and>
    w_txid w = tid \<and> w_index w = of_nat VIndex \<and> w_amount w = vout_value (tx_vout pTx ! VIndex) \<and>
    (\<forall>ce wl acts. (\<forall>conf. get_confirm ce tid = Some conf \<longrightarrow> conf < ucast (to_self_delay (commit_local self))) \<longrightarrow>
       (\<exists>acts'. wallet_dbfunc ce w (wl, acts) = Inr (wl, acts'))) \<and>
    (\<forall>ce wl acts wl' acts'. wallet_dbfunc ce w (wl, acts) = Inr (wl', acts') \<longrightarrow> wl' \<noteq> wl \<longrightarrow>
       (case tm_vin (wl_tx wl) of None \<Rightarrow> 0 | Some vins \<Rightarrow> length vins) = tm_vin_cnt (wl_tx wl) \<longrightarrow>
       (\<exists>vins vin. tm_vin (wl_tx wl') = Some (vins @ [vin]) \<and> vi_txid vin = tid \<and> vi_index vin = of_nat VIndex \<and>
          vi_sequence vin = ucast (to_self_delay (commit_local self))))"
proof -
  let ?w = "tolocal_entry env se self rv pTx VIndex"
  have sq: "w_sequence ?w = ucast (to_self_delay (commit_local self))" "w_txid ?w = tid"
    "w_index ?w = of_nat VIndex" "w_amount ?w = vout_value (tx_vout pTx ! VIndex)"
    using assms(3,4) by (simp_all add: tolocal_entry_def tx_id_def)
  have "\<not> bit (to_self_delay (commit_local self)) 31"
    using bit_imp_le_length [of "to_self_delay (commit_local self)" 31] by auto
  then have "\<not> bit (ucast (to_self_delay (commit_local self)) :: u32) 31" "bit BTC_TX_SEQUENCE 31"
    by (simp_all add: bit_simps BTC_TX_SEQUENCE_def)
  then have ns: "w_sequence ?w \<noteq> BTC_TX_SEQUENCE"
    unfolding sq by metis
  have wait: "\<exists>acts'. wallet_dbfunc ce ?w (wl, acts) = Inr (wl, acts')"
    if "\<forall>conf. get_confirm ce tid = Some conf \<longrightarrow> conf < ucast (to_self_delay (commit_local self))" for ce wl acts
  proof -
    have "\<not> wallet_mature ce ?w (wl_tx wl)"
      using that ns by (auto simp: wallet_mature_def sq split: option.splits)
    then show ?thesis by (simp add: wallet_dbfunc_def)
  qed
  have late: "\<exists>vins vin. tm_vin (wl_tx wl') = Some (vins @ [vin]) \<and> vi_txid vin = tid \<and> vi_index vin = of_nat VIndex \<and>
          vi_sequence vin = ucast (to_self_delay (commit_local self))"
    if "wallet_dbfunc ce ?w (wl, acts) = Inr (wl', acts')" "wl' \<noteq> wl"
      "(case tm_vin (wl_tx wl) of None \<Rightarrow> 0 | Some vins \<Rightarrow> length vins) = tm_vin_cnt (wl_tx wl)" for ce wl acts wl' acts'
  proof -
    note hyps = that
    obtain tx where tx: "wallet_input ?w (hd (w_wits ?w)) (wl_tx wl) = Inr tx" "wl_tx wl' = tx"
      using hyps(1,2) by (auto simp: wallet_dbfunc_def bind_c_Inr_iff split: if_splits)
    show ?thesis
      using wallet_input_last [OF tx(1)] hyps(3) assms(4) unfolding tx(2) sq by (auto split: option.splits)
  qed
  show ?thesis
    by (rule exI [of _ ?w]) (use close_revoked_tolocal_eq [OF assms(1,2)] sq wait late in auto)
qed

section \<open>A penalty that is not accepted is lost\<close>

lemma first_htlcs_wit:
  "first_htlcs env se send confm pTx self lp lps del st = Inr (del', st') \<Longrightarrow>
   p_revoked_wit (fst st') = p_revoked_wit (fst st)"
proof (induction env se send confm pTx self lp lps del st arbitrary: del' st' rule: first_htlcs.induct)
  case (2 env se send confm pTx self lp lp2 lps del rv acts)
  obtain v script where vs: "c_index (Some (tx_vout pTx)) lp = Inr v" "c_index (Some (p_revoked_vout rv)) lp2 = Inr script"
    using "2.prems" by (auto simp: bind_c_Inr_iff)
  show ?case
  proof (cases "vout_script v = script")
    case False
    then show ?thesis using "2.prems" "2.IH"(2) [OF False] vs by simp
  next
    case True
    obtain ret st1 where r: "close_revoked_htlc env se send self pTx lp lp2 (rv, acts) = Inr (ret, st1)"
      using "2.prems" vs True by (auto simp: bind_c_Inr_iff)
    obtain del2 st2 where st: "(if ret then count_taken confm st1 else (del, st1)) = (del2, st2)"
      by (cases "if ret then count_taken confm st1 else (del, st1)")
    have "p_revoked_wit (fst st2) = p_revoked_wit rv"
      using r st by (auto simp: close_revoked_htlc_def bind_c_Inr_iff count_taken_def ln_revoked_cnt_dec_def
          split: if_splits)
    moreover have "p_revoked_wit (fst st') = p_revoked_wit (fst st2)"
      using "2.prems" "2.IH"(1) [OF True refl st [symmetric]] vs True r st by simp
    ultimately show ?thesis by simp
  qed
qed simp

lemma close_revoked_toremote_fst:
  "close_revoked_toremote env se self pTx lp st = Inr (ret, st') \<Longrightarrow> fst st' = fst st"
  by (cases st) (auto simp: close_revoked_toremote_def bind_c_Inr_iff try_c_Inr_iff Let_def split: if_splits)

lemma first_htlcs_refused:
  assumes "\<forall>acts buf. \<not> send acts buf"
    "first_htlcs env se send confm pTx self lp lps del (rv, acts) = Inr (del', rv', acts')"
  shows "rv' = rv \<and> del' = del"
  using assms(2)
proof (induction lps arbitrary: acts)
  case (Cons lp2 lps)
  obtain v script where vs: "c_index (Some (tx_vout pTx)) lp = Inr v" "c_index (Some (p_revoked_vout rv)) lp2 = Inr script"
    using Cons.prems by (auto simp: bind_c_Inr_iff)
  have never: "send = (\<lambda>_ _. False)" using assms(1) by (intro ext) simp
  obtain acts1 where "first_htlcs env se send confm pTx self lp lps del (rv, acts1) = Inr (del', rv', acts')"
    using Cons.prems vs unfolding never by (auto simp: bind_c_Inr_iff close_revoked_htlc_def split: if_splits)
  then show ?case by (rule Cons.IH)
qed simp

lemma first_outs_step:
  assumes lp: "lp < length (tx_vout pTx)" and wit: "0 < length (p_revoked_wit rv)"
    and run: "first_outs env se send confm pTx self ((lp, v) # vs) del True (rv, acts) = Inr (del', save', st')"
  obtains del1 rv1 acts1 where
    "first_outs env se send confm pTx self vs del1 True (rv1, acts1) = Inr (del', save', st')"
    "p_revoked_wit rv1 = p_revoked_wit rv"
    "(\<forall>acts buf. \<not> send acts buf) \<longrightarrow> p_revoked_vout rv1 = p_revoked_vout rv \<and>
       revoked_cnt rv1 = revoked_cnt rv - (if vout_script v = p_revoked_vout rv ! LN_RCLOSE_IDX_TOLOCAL then 1 else 0)"
proof -
  obtain tl where tl: "c_index (Some (p_revoked_vout rv)) LN_RCLOSE_IDX_TOLOCAL = Inr tl"
    using run by (auto simp: bind_c_Inr_iff)
  have tln: "p_revoked_vout rv ! LN_RCLOSE_IDX_TOLOCAL = tl"
    using tl by (simp add: c_index_def split: if_splits)
  consider (local) "vout_script v = tl" | (remote) "vout_script v \<noteq> tl"
      "c_index (Some (p_revoked_vout rv)) LN_RCLOSE_IDX_TOREMOTE = Inr (vout_script v)"
    | (htlc) tr where "vout_script v \<noteq> tl" "vout_script v \<noteq> tr"
      "c_index (Some (p_revoked_vout rv)) LN_RCLOSE_IDX_TOREMOTE = Inr tr"
    using run tl by (force simp: bind_c_Inr_iff)
  then show ?thesis
  proof cases
    case local
    show ?thesis
      using run local tl tln that
      by (simp add: close_revoked_tolocal_eq [OF lp wit] count_taken_def ln_revoked_cnt_dec_def)
  next
    case remote
    obtain ret st1 where "close_revoked_toremote env se self pTx lp (rv, acts) = Inr (ret, st1)"
      "first_outs env se send confm pTx self vs del True st1 = Inr (del', save', st')"
      using run remote tl by (auto simp: bind_c_Inr_iff)
    then show ?thesis
      using remote tln that [of del "fst st1" "snd st1"] close_revoked_toremote_fst by fastforce
  next
    case htlc
    obtain del1 st1 where h: "first_htlcs env se send confm pTx self lp [LN_RCLOSE_IDX_HTLC..<unat (revoked_num rv)]
        del (rv, acts) = Inr (del1, st1)"
      "first_outs env se send confm pTx self vs del1 True st1 = Inr (del', save', st')"
      using run htlc tl by (auto simp: bind_c_Inr_iff)
    obtain rv1 acts1 where st1: "st1 = (rv1, acts1)" by (cases st1)
    show ?thesis
      using that [of del1 rv1 acts1] h htlc tln first_htlcs_wit [OF h(1)]
        first_htlcs_refused [OF _ h(1) [unfolded st1]] unfolding st1 by auto
  qed
qed

lemma first_outs_result:
  assumes "0 < length (p_revoked_wit rv)" "\<forall>(lp, v) \<in> set vs. lp < length (tx_vout pTx)"
    "first_outs env se send confm pTx self vs del True (rv, acts) = Inr (del', save', rv', acts')"
  shows "save' \<and> ((\<forall>acts buf. \<not> send acts buf) \<longrightarrow> revoked_cnt rv' = revoked_cnt rv -
    of_nat (length (filter (\<lambda>(lp, v). vout_script v = p_revoked_vout rv ! LN_RCLOSE_IDX_TOLOCAL) vs)))"
  using assms
proof (induction vs arbitrary: del rv acts)
  case (Cons lpv vs)
  obtain lp v where lpv: "lpv = (lp, v)" by (cases lpv)
  have lp: "lp < length (tx_vout pTx)" and vs: "\<forall>(lp, v) \<in> set vs. lp < length (tx_vout pTx)"
    using Cons.prems(2) by (auto simp: lpv)
  obtain del1 rv1 acts1 where n:
      "first_outs env se send confm pTx self vs del1 True (rv1, acts1) = Inr (del', save', rv', acts')"
      "p_revoked_wit rv1 = p_revoked_wit rv"
      "(\<forall>acts buf. \<not> send acts buf) \<longrightarrow> p_revoked_vout rv1 = p_revoked_vout rv \<and>
       revoked_cnt rv1 = revoked_cnt rv - (if vout_script v = p_revoked_vout rv ! LN_RCLOSE_IDX_TOLOCAL then 1 else 0)"
    using first_outs_step [OF lp Cons.prems(1) Cons.prems(3) [unfolded lpv]] by blast
  show ?case
    using Cons.IH [OF _ vs n(1)] Cons.prems(1) n(2,3) by (auto simp: lpv)
qed simp

lemma after_txs_acts:
  "after_txs env se self txs del (rv, acts) = Inr (del', sendret, rv', acts') \<Longrightarrow>
   \<exists>xs. acts' = acts @ xs \<and> (\<forall>b. SEND_RAWTX b \<notin> set xs)"
proof (induction txs arbitrary: del rv acts)
  case (Cons tx txs)
  obtain ret rv1 acts1 where t: "close_revoked_tolocal env se self tx 0 (rv, acts) = Inr (ret, rv1, acts1)"
    using Cons.prems by (auto simp: bind_c_Inr_iff)
  have "\<exists>xs. acts1 = acts @ xs \<and> (\<forall>b. SEND_RAWTX b \<notin> set xs)"
    using t by (auto simp: close_revoked_tolocal_def bind_c_Inr_iff try_c_Inr_iff split: if_splits)
  then obtain xs where xs: "acts1 = acts @ xs" "\<forall>b. SEND_RAWTX b \<notin> set xs" by blast
  show ?case
  proof (cases ret)
    case True
    then obtain d rv2 where "after_txs env se self txs d (rv2, acts1) = Inr (del', sendret, rv', acts')"
      using Cons.prems t by (auto simp: ln_revoked_cnt_dec_def)
    from Cons.IH [OF this] obtain ys where "acts' = acts1 @ ys" "\<forall>b. SEND_RAWTX b \<notin> set ys" by blast
    then show ?thesis using xs by (intro exI [of _ "xs @ ys"]) auto
  qed (use Cons.prems t xs in auto)
qed simp

text \<open>
  C35: A penalty that the backend does not take is not sent again. Whatever the backend answers to the
  penalties for the HTLC outputs, the first round ends with saving the entry of the revoked close, which makes
  every later round a call of \<open>close_revoked_after\<close>; and \<open>close_revoked_after\<close> never sends a
  transaction. The counter of the open outputs does not move for the penalty that failed, so with
  every penalty refused it keeps its value minus the peer's outputs that were entered in the wallet.
\<close>

theorem failed_penalty_not_retried:
  assumes "0 < length (p_revoked_wit rv)"
    and "close_revoked_first env se send confm pTx self (rv, acts) = Inr (del, rv1, acts1)"
  shows "last acts1 = REVTX_SAVE rv1 \<and>
    ((\<forall>acts buf. \<not> send acts buf) \<longrightarrow> revoked_cnt rv1 = revoked_cnt rv -
       of_nat (length (filter (\<lambda>v. vout_script v = p_revoked_vout rv ! LN_RCLOSE_IDX_TOLOCAL) (tx_vout pTx)))) \<and>
    (\<forall>env' se' search confm' del' rv2 acts2.
       close_revoked_after env' se' search confm' self (rv1, acts1) = Inr (del', rv2, acts2) \<longrightarrow>
       (\<exists>xs. acts2 = acts1 @ xs \<and> (\<forall>buf. SEND_RAWTX buf \<notin> set xs)))"
proof -
  obtain save acts2 where f: "first_outs env se send confm pTx self (enumerate 0 (tx_vout pTx)) False True (rv, acts) =
      Inr (del, save, rv1, acts2)" "acts1 = (if save then acts2 @ [REVTX_SAVE rv1] else acts2)"
    using assms(2) by (auto simp: close_revoked_first_def bind_c_Inr_iff)
  have "\<forall>(lp, v) \<in> set (enumerate 0 (tx_vout pTx)). lp < length (tx_vout pTx)"
    by (auto simp: in_set_enumerate_eq)
  note r = first_outs_result [OF assms(1) this f(1)]
  have "length (filter (\<lambda>(lp, v). P v) (enumerate n vs)) = length (filter P vs)" for P n and vs :: "btc_vout_t list"
    by (induction vs arbitrary: n) auto
  with r f(2) have one: "last acts1 = REVTX_SAVE rv1"
    "(\<forall>acts buf. \<not> send acts buf) \<longrightarrow> revoked_cnt rv1 = revoked_cnt rv -
       of_nat (length (filter (\<lambda>v. vout_script v = p_revoked_vout rv ! LN_RCLOSE_IDX_TOLOCAL) (tx_vout pTx)))"
    by auto
  have two: "\<exists>xs. acts3 = acts1 @ xs \<and> (\<forall>buf. SEND_RAWTX buf \<notin> set xs)"
    if "close_revoked_after env' se' search confm' self (rv1, acts1) = Inr (del', rv2, acts3)"
    for env' :: "'d ln_env" and se' search confm' del' rv2 acts3
    using that by (fastforce simp: close_revoked_after_def bind_c_Inr_iff Let_def dest: after_txs_acts
        split: if_splits option.splits)
  show ?thesis using one two by blast
qed

section \<open>The first round takes every output\<close>

text \<open>
  The lengths of hashes and keys, also in the buffers that a failing derivation leaves as they are.
\<close>

definition penalty_keys :: "'p ln_env \<Rightarrow> sign_env \<Rightarrow> bool" where
  "penalty_keys env se \<longleftrightarrow> length (junk_priv se) = BTC_SZ_PRIVKEY \<and> length (junk_pub se) = BTC_SZ_PUBKEY \<and>
     (\<forall>k p. priv2pub env k = Some p \<longrightarrow> length p = BTC_SZ_PUBKEY) \<and> (\<forall>d. length (sha256 env d) = 32)"

lemma mpi_write_length: "mpi_write n v = Some b \<Longrightarrow> length b = n"
  by (auto simp: mpi_write_def split: if_splits)

lemma fill_keys_lengths:
  assumes "penalty_keys env se" "\<And>k. derived = Some k \<Longrightarrow> length k = BTC_SZ_PRIVKEY"
  shows "length (k_priv (fill_keys env se derived)) = BTC_SZ_PRIVKEY"
    "length (k_pub (fill_keys env se derived)) = BTC_SZ_PUBKEY"
  using assms by (auto simp: fill_keys_def penalty_keys_def Let_def split: option.splits)

lemma key_lengths:
  assumes "penalty_keys env se"
  shows "length (k_priv (ln_signer_toremote_key env se self)) = BTC_SZ_PRIVKEY"
    "length (k_pub (ln_signer_get_revokesec env se self point sec)) = BTC_SZ_PUBKEY"
  unfolding ln_signer_toremote_key_def ln_signer_get_revokesec_def get_secret_def
  by (rule fill_keys_lengths [OF assms],
      simp add: ln_derkey_privkey_def ln_derkey_revocationprivkey_def Let_def mpi_write_length)+

definition to_remote_entry ::
  "'p ln_env \<Rightarrow> sign_env \<Rightarrow> ln_self_t \<Rightarrow> btc_tx_t \<Rightarrow> nat \<Rightarrow> ln_db_wallet_t" where
  "to_remote_entry env se self pTx VIndex =
     (let priv = k_priv (ln_signer_toremote_key env se self) in
      \<lparr>w_type = LN_DB_WALLET_TYPE_TOREMOTE, w_txid = take 32 (tx_id env se pTx), w_index = of_nat VIndex,
       w_amount = vout_value (tx_vout pTx ! VIndex), w_sequence = 0, w_locktime = 0,
       w_wits = [priv, case priv2pub env priv of Some p \<Rightarrow> p | None \<Rightarrow> junk_pub se]\<rparr>)"

lemma close_revoked_toremote_eq:
  assumes "penalty_keys env se" "VIndex < length (tx_vout pTx)"
  shows "close_revoked_toremote env se self pTx VIndex (rv, acts) =
    Inr (True, rv, acts @ [WALLET_ADD (to_remote_entry env se self pTx VIndex)])"
  using assms(2) key_lengths(1) [OF assms(1), of self]
  by (simp add: close_revoked_toremote_def c_index_def ln_wallet_create_toremote_def create_basetx_def Let_def
      ln_script_toremote_wit_def vin_update_def c_store_def c_grow_def btc_tx_add_vin_def
      btc_tx_add_vout_spk_def btc_tx_init_def set_wallet_data_def c_array_def c_bytes_def to_remote_entry_def)

definition penalty_sent ::
  "'p ln_env \<Rightarrow> sign_env \<Rightarrow> ln_self_t \<Rightarrow> ln_revoked_t \<Rightarrow> btc_tx_t \<Rightarrow> nat \<Rightarrow> nat \<Rightarrow> bytes \<Rightarrow> bool" where
  \<comment> \<open>a transaction on the wire that spends output \<open>lp\<close> with script \<open>i\<close> and the revocation key\<close>
  "penalty_sent env se self rv pTx lp i raw \<longleftrightarrow>
     (let key = ln_signer_get_revokesec env se self
          (pubkeys (funding_remote self) ! MSG_FUNDIDX_PER_COMMIT) (revoked_sec rv);
        t = penalty_tx env self (p_revoked_type rv ! i) (vout_value (tx_vout pTx ! lp))
          (btc_sw_wit2prog_p2wsh (sha256 env) (shutdown_scriptpk_local self)) (tx_id env se pTx) lp in
      \<exists>sig. btc_tx_sign se (spend_hash (se_hash256 se) t (vout_value (tx_vout pTx ! lp)) (p_revoked_wit rv ! i))
          (k_priv key) = Some sig \<and>
        btc_tx_create ((tx_mem_of t)\<lparr>tm_vin := Some [\<lparr>vi_txid = tx_id env se pTx, vi_index = of_nat lp,
          vi_script = [], vi_wit_cnt = 3, vi_witness = Some [sig, k_pub key, p_revoked_wit rv ! i],
          vi_sequence = 0\<rparr>]\<rparr>) = Inr (True, raw))"

definition penalty_ok ::
  "'p ln_env \<Rightarrow> sign_env \<Rightarrow> ln_self_t \<Rightarrow> ln_revoked_t \<Rightarrow> btc_tx_t \<Rightarrow> nat \<Rightarrow> nat \<Rightarrow> bool" where
  \<comment> \<open>script \<open>i\<close> has a type and can be written, the fee does not eat up the value of output \<open>lp\<close>, and
    the revocation key signs this one transaction\<close>
  "penalty_ok env se self rv pTx lp i \<longleftrightarrow> i < length (p_revoked_type rv) \<and> i < length (p_revoked_wit rv) \<and>
     p_revoked_type rv ! i \<noteq> LN_HTLCTYPE_NONE \<and> length (p_revoked_wit rv ! i) < 65536 \<and>
     (if p_revoked_type rv ! i = LN_HTLCTYPE_OFFERED then M_FEE_HTLCTIMEOUT else M_FEE_HTLCSUCCESS) *
       ucast (feerate_per_kw self) div 1000 \<noteq> vout_value (tx_vout pTx ! lp) \<and>
     (let key = ln_signer_get_revokesec env se self
          (pubkeys (funding_remote self) ! MSG_FUNDIDX_PER_COMMIT) (revoked_sec rv);
        t = penalty_tx env self (p_revoked_type rv ! i) (vout_value (tx_vout pTx ! lp))
          (btc_sw_wit2prog_p2wsh (sha256 env) (shutdown_scriptpk_local self)) (tx_id env se pTx) lp in
      \<exists>sig. btc_tx_sign se (spend_hash (se_hash256 se) t (vout_value (tx_vout pTx ! lp)) (p_revoked_wit rv ! i))
          (k_priv key) = Some sig \<and> length sig < 65536)"

lemma close_revoked_htlc_sends:
  assumes keys: "penalty_keys env se" and id: "length (tx_id env se pTx) = 32" and lp: "lp < length (tx_vout pTx)"
    and ok: "penalty_ok env se self rv pTx lp i"
  obtains raw where "penalty_sent env se self rv pTx lp i raw"
    "close_revoked_htlc env se send self pTx lp i (rv, acts) = Inr (send acts raw, rv, acts @ [SEND_RAWTX raw])"
proof -
  let ?key = "ln_signer_get_revokesec env se self
          (pubkeys (funding_remote self) ! MSG_FUNDIDX_PER_COMMIT) (revoked_sec rv)"
  let ?v = "vout_value (tx_vout pTx ! lp)" and ?type = "p_revoked_type rv ! i" and ?script = "p_revoked_wit rv ! i"
  let ?t = "penalty_tx env self ?type ?v (btc_sw_wit2prog_p2wsh (sha256 env) (shutdown_scriptpk_local self))
    (tx_id env se pTx) lp"
  have sp: "spendable ?t"
    using id ok by (auto simp: spendable_def penalty_tx_def btc_sw_wit2prog_p2wsh_def penalty_ok_def)
  obtain sig where sig: "btc_tx_sign se (spend_hash (se_hash256 se) ?t ?v ?script) (k_priv ?key) = Some sig"
    "length sig < 65536"
    using ok unfolding penalty_ok_def Let_def by blast
  note pub = key_lengths(2) [OF keys, of self "pubkeys (funding_remote self) ! MSG_FUNDIDX_PER_COMMIT" "revoked_sec rv"]
  let ?m = "(tx_mem_of ?t)\<lparr>tm_vin := Some [\<lparr>vi_txid = tx_id env se pTx, vi_index = of_nat lp, vi_script = [],
        vi_wit_cnt = 3, vi_witness = Some [sig, k_pub ?key, ?script], vi_sequence = 0\<rparr>]\<rparr>"
  have "ln_script_htlctx_create (sha256 env)
      (?v - (if ?type = LN_HTLCTYPE_OFFERED then htlc_timeout (fst (ln_script_fee_calc (feerate_per_kw self) 0 []))
         else htlc_success (fst (ln_script_fee_calc (feerate_per_kw self) 0 []))))
      (shutdown_scriptpk_local self) ?type 0 (tx_id env se pTx) lp = Inr ?t"
    using ok by (cases ?type) (simp_all add: ln_script_htlctx_create_def ln_script_fee_calc_def penalty_tx_def Let_def
        case_prod_beta penalty_ok_def)
  moreover have "ln_script_htlctx_sign se (tx_mem_of ?t) ?v ?key ?script = Inr sig"
    by (simp add: ln_script_htlctx_sign_def sighash_spend [OF sp] sig) (simp add: penalty_tx_def)
  moreover have "ln_script_htlctx_wit env (tx_mem_of ?t) sig ?key None None ?script
      (if ?type = LN_HTLCTYPE_OFFERED then LN_HTLCSIGN_REVOKE_OFFER else LN_HTLCSIGN_REVOKE_RECV) = Inr ?m"
    using id pub by (simp add: ln_script_htlctx_wit_def btc_sw_set_vin_p2wsh_def vin_update_def c_index_def c_store_def
        Let_def btc_tx_add_wit_def c_grow_def penalty_tx_def)
  ultimately have spend: "ln_revokedhtlc_create_spenttx env se self rv ?v i (tx_id env se pTx) lp = Inr (True, ?m)"
    using ok by (simp add: ln_revokedhtlc_create_spenttx_def Let_def c_index_def penalty_ok_def)
  have "tx_sendable ?m"
    using id ok sig(2) pub keys by (simp add: penalty_keys_def tx_sendable_def vins_of_def vouts_of_def penalty_tx_def vin_ok_def wit_ok_def
        wits_of_def penalty_ok_def btc_sw_wit2prog_p2wsh_def numeral_3_eq_3)
  note raw = sendable_create [OF this]
  show thesis
  proof (rule that [of "tx_bytes True ?m"])
    show "penalty_sent env se self rv pTx lp i (tx_bytes True ?m)"
      unfolding penalty_sent_def Let_def using sig(1) raw by blast
    show "close_revoked_htlc env se send self pTx lp i (rv, acts) =
        Inr (send acts (tx_bytes True ?m), rv, acts @ [SEND_RAWTX (tx_bytes True ?m)])"
      using lp by (simp add: close_revoked_htlc_def c_index_def spend raw)
  qed
qed

definition same_arrays :: "ln_revoked_t \<Rightarrow> ln_revoked_t \<Rightarrow> bool" where
  "same_arrays rv rv' \<longleftrightarrow> (\<exists>cnt confm. rv' = rv\<lparr>revoked_cnt := cnt, revoked_chk := confm\<rparr>)"

lemma same_arrays_update [simp]: "same_arrays rv (rv\<lparr>revoked_cnt := cnt, revoked_chk := confm\<rparr>)"
  by (auto simp: same_arrays_def)

lemma same_arrays_refl [simp]: "same_arrays rv rv"
  unfolding same_arrays_def by (intro exI [of _ "revoked_cnt rv"] exI [of _ "revoked_chk rv"]) simp

lemma same_arrays_fields:
  assumes "same_arrays rv rv'"
  shows "p_revoked_vout rv' = p_revoked_vout rv" "p_revoked_wit rv' = p_revoked_wit rv"
    "p_revoked_type rv' = p_revoked_type rv" "revoked_num rv' = revoked_num rv" "revoked_sec rv' = revoked_sec rv"
  using assms by (auto simp: same_arrays_def)

lemma same_arrays_trans: "same_arrays rv rv1 \<Longrightarrow> same_arrays rv1 rv2 \<Longrightarrow> same_arrays rv rv2"
  unfolding same_arrays_def by (elim exE) (simp, blast)

lemma same_arrays_entry:
  "same_arrays rv rv' \<Longrightarrow> tolocal_entry env se self rv' pTx lp = tolocal_entry env se self rv pTx lp"
  "same_arrays rv rv' \<Longrightarrow> penalty_sent env se self rv' pTx lp i raw = penalty_sent env se self rv pTx lp i raw"
  "same_arrays rv rv' \<Longrightarrow> penalty_ok env se self rv' pTx lp i = penalty_ok env se self rv pTx lp i"
  by (simp_all add: tolocal_entry_def ln_signer_tolocal_key_def penalty_sent_def penalty_ok_def Let_def same_arrays_fields)

text \<open>
  The loop over the scripts of the HTLCs sends a penalty for every script that fits the output, and counts
  each of them.
\<close>

lemma first_htlcs_sends:
  assumes keys: "penalty_keys env se" and id: "length (tx_id env se pTx) = 32" and lp: "lp < length (tx_vout pTx)"
    and send: "\<forall>acts raw. send acts raw"
    and lps: "\<forall>j\<in>set lps. j < length (p_revoked_vout rv) \<and>
       (p_revoked_vout rv ! j = vout_script (tx_vout pTx ! lp) \<longrightarrow> penalty_ok env se self rv pTx lp j)"
    and fit: "fit = filter (\<lambda>j. p_revoked_vout rv ! j = vout_script (tx_vout pTx ! lp)) lps"
  shows "\<exists>rv1 xs. same_arrays rv rv1 \<and> revoked_cnt rv1 = revoked_cnt rv - of_nat (length fit) \<and>
    first_htlcs env se send confm pTx self lp lps del (rv, acts) =
      Inr (if fit = [] then del else revoked_cnt rv1 = 0, rv1, acts @ xs) \<and>
    (\<forall>i\<in>set fit. \<exists>raw. penalty_sent env se self rv pTx lp i raw \<and> SEND_RAWTX raw \<in> set xs)"
  using lps fit
proof (induction lps arbitrary: rv acts del fit)
  case Nil
  then show ?case by (intro exI [of _ rv] exI [of _ "[]"]) simp
next
  case (Cons j lps)
  let ?script = "vout_script (tx_vout pTx ! lp)"
  let ?fit = "filter (\<lambda>j. p_revoked_vout rv ! j = ?script) lps"
  have j: "j < length (p_revoked_vout rv)" using Cons.prems(1) by simp
  show ?case
  proof (cases "p_revoked_vout rv ! j = ?script")
    case False
    then show ?thesis
      using Cons.IH [of rv ?fit del acts] Cons.prems j lp by (simp add: c_index_def)
  next
    case True
    let ?rv = "rv\<lparr>revoked_cnt := revoked_cnt rv - 1, revoked_chk := confm\<rparr>"
    obtain raw where raw: "penalty_sent env se self rv pTx lp j raw"
      "close_revoked_htlc env se send self pTx lp j (rv, acts) = Inr (send acts raw, rv, acts @ [SEND_RAWTX raw])"
      using close_revoked_htlc_sends [OF keys id lp] Cons.prems(1) True by (metis list.set_intros(1))
    have one: "first_htlcs env se send confm pTx self lp (j # lps) del (rv, acts) =
        first_htlcs env se send confm pTx self lp lps (revoked_cnt rv = 1) (?rv, acts @ [SEND_RAWTX raw])"
      using j lp True raw(2) send by (simp add: c_index_def count_taken_def ln_revoked_cnt_dec_def)
    have same: "penalty_ok env se self ?rv pTx lp i = penalty_ok env se self rv pTx lp i"
      "penalty_sent env se self ?rv pTx lp i raw = penalty_sent env se self rv pTx lp i raw" for i raw
      by (rule same_arrays_entry [OF same_arrays_update])+
    obtain rv1 xs where rest: "same_arrays ?rv rv1" "revoked_cnt rv1 = revoked_cnt rv - 1 - of_nat (length ?fit)"
      "first_htlcs env se send confm pTx self lp lps (revoked_cnt rv = 1) (?rv, acts @ [SEND_RAWTX raw]) =
        Inr (if ?fit = [] then revoked_cnt rv = 1 else revoked_cnt rv1 = 0, rv1, acts @ SEND_RAWTX raw # xs)"
      "\<forall>i\<in>set ?fit. \<exists>raw. penalty_sent env se self rv pTx lp i raw \<and> SEND_RAWTX raw \<in> set xs"
      using Cons.IH [of ?rv ?fit "revoked_cnt rv = 1" "acts @ [SEND_RAWTX raw]"] Cons.prems(1) by (auto simp: same)
    have del: "(if ?fit = [] then revoked_cnt rv = 1 else revoked_cnt rv1 = 0) \<longleftrightarrow> revoked_cnt rv1 = 0"
      using rest(2) by auto
    have fit: "fit = j # ?fit" using Cons.prems(2) True by simp
    show ?thesis
      using same_arrays_trans [OF same_arrays_update rest(1)] rest(2-4) raw(1) one unfolding del fit
      by (intro exI [of _ rv1] exI [of _ "SEND_RAWTX raw # xs"]) auto
  qed
qed

text \<open>
  The outputs that the arrays know: the script of the peer's output, that of the node's own output, or
  scripts of HTLCs, each of which can be taken. \<open>counted\<close> is by how much such an output is counted.
\<close>

definition fitting :: "ln_revoked_t \<Rightarrow> btc_vout_t \<Rightarrow> nat list" where
  \<comment> \<open>the HTLC entries with the script of the output\<close>
  "fitting rv v =
     filter (\<lambda>j. p_revoked_vout rv ! j = vout_script v) [LN_RCLOSE_IDX_HTLC..<unat (revoked_num rv)]"

definition counted :: "ln_revoked_t \<Rightarrow> btc_vout_t \<Rightarrow> nat" where
  "counted rv v =
     (if vout_script v = p_revoked_vout rv ! LN_RCLOSE_IDX_TOLOCAL then 1
      else if vout_script v = p_revoked_vout rv ! LN_RCLOSE_IDX_TOREMOTE then 0
      else length (fitting rv v))"

definition takeable ::
  "'p ln_env \<Rightarrow> sign_env \<Rightarrow> ln_self_t \<Rightarrow> ln_revoked_t \<Rightarrow> btc_tx_t \<Rightarrow> nat \<Rightarrow> bool" where
  "takeable env se self rv pTx lp \<longleftrightarrow>
     vout_script (tx_vout pTx ! lp) = p_revoked_vout rv ! LN_RCLOSE_IDX_TOLOCAL \<or>
     vout_script (tx_vout pTx ! lp) = p_revoked_vout rv ! LN_RCLOSE_IDX_TOREMOTE \<or>
     fitting rv (tx_vout pTx ! lp) \<noteq> [] \<and>
       (\<forall>i\<in>set (fitting rv (tx_vout pTx ! lp)). penalty_ok env se self rv pTx lp i)"

definition output_taken ::
  "'p ln_env \<Rightarrow> sign_env \<Rightarrow> ln_self_t \<Rightarrow> ln_revoked_t \<Rightarrow> btc_tx_t \<Rightarrow> revoked_act list \<Rightarrow> nat \<Rightarrow> bool" where
  "output_taken env se self rv pTx acts lp \<longleftrightarrow>
     (if vout_script (tx_vout pTx ! lp) = p_revoked_vout rv ! LN_RCLOSE_IDX_TOLOCAL then
        WALLET_ADD (tolocal_entry env se self rv pTx lp) \<in> set acts
      else if vout_script (tx_vout pTx ! lp) = p_revoked_vout rv ! LN_RCLOSE_IDX_TOREMOTE then
        WALLET_ADD (to_remote_entry env se self pTx lp) \<in> set acts
      else fitting rv (tx_vout pTx ! lp) \<noteq> [] \<and>
        (\<forall>i\<in>set (fitting rv (tx_vout pTx ! lp)).
           \<exists>raw. penalty_sent env se self rv pTx lp i raw \<and> SEND_RAWTX raw \<in> set acts))"

definition not_ours :: "ln_revoked_t \<Rightarrow> btc_vout_t \<Rightarrow> bool" where
  \<comment> \<open>the outputs that \<open>ln_close_remoterevoked\<close> counts\<close>
  "not_ours rv v \<longleftrightarrow> vout_script v = p_revoked_vout rv ! LN_RCLOSE_IDX_TOLOCAL \<or>
     vout_script v \<noteq> p_revoked_vout rv ! LN_RCLOSE_IDX_TOREMOTE"

definition arrays_full :: "ln_revoked_t \<Rightarrow> bool" where
  "arrays_full rv \<longleftrightarrow> 2 \<le> unat (revoked_num rv) \<and> unat (revoked_num rv) \<le> length (p_revoked_vout rv) \<and>
     p_revoked_wit rv \<noteq> []"

lemma takeable_same:
  assumes "same_arrays rv rv'"
  shows "takeable env se self rv' pTx lp = takeable env se self rv pTx lp" "counted rv' v = counted rv v"
    "output_taken env se self rv' pTx acts lp = output_taken env se self rv pTx acts lp"
    "arrays_full rv' = arrays_full rv"
  by (simp_all add: takeable_def counted_def fitting_def output_taken_def arrays_full_def same_arrays_fields [OF assms]
      same_arrays_entry [OF assms])

lemma output_taken_mono: "output_taken env se self rv pTx acts lp \<Longrightarrow> output_taken env se self rv pTx (acts @ xs) lp"
  by (auto simp: output_taken_def split: if_splits)

lemma first_outs_takes_one:
  assumes keys: "penalty_keys env se" and id: "length (tx_id env se pTx) = 32" and send: "\<forall>acts raw. send acts raw"
    and arr: "arrays_full rv" and lp: "lp < length (tx_vout pTx)" "tx_vout pTx ! lp = v" "takeable env se self rv pTx lp"
  obtains rv1 acts1 where "same_arrays rv rv1" "output_taken env se self rv pTx (acts @ acts1) lp"
    "revoked_cnt rv1 = revoked_cnt rv - of_nat (counted rv v)"
    "first_outs env se send confm pTx self ((lp, v) # vs) del True (rv, acts) =
     first_outs env se send confm pTx self vs (if counted rv v = 0 then del else revoked_cnt rv1 = 0) True
       (rv1, acts @ acts1)"
proof -
  let ?rv = "rv\<lparr>revoked_cnt := revoked_cnt rv - 1, revoked_chk := confm\<rparr>"
  have ix: "c_index (Some (p_revoked_vout rv)) LN_RCLOSE_IDX_TOLOCAL = Inr (p_revoked_vout rv ! LN_RCLOSE_IDX_TOLOCAL)"
    "c_index (Some (p_revoked_vout rv)) LN_RCLOSE_IDX_TOREMOTE = Inr (p_revoked_vout rv ! LN_RCLOSE_IDX_TOREMOTE)"
    using arr by (auto simp: c_index_def arrays_full_def LN_RCLOSE_IDX_TOLOCAL_def LN_RCLOSE_IDX_TOREMOTE_def)
  have wit: "0 < length (p_revoked_wit rv)" using arr by (simp add: arrays_full_def)
  consider (local) "vout_script v = p_revoked_vout rv ! LN_RCLOSE_IDX_TOLOCAL"
    | (remote) "vout_script v \<noteq> p_revoked_vout rv ! LN_RCLOSE_IDX_TOLOCAL"
      "vout_script v = p_revoked_vout rv ! LN_RCLOSE_IDX_TOREMOTE"
    | (htlc) "vout_script v \<noteq> p_revoked_vout rv ! LN_RCLOSE_IDX_TOLOCAL"
      "vout_script v \<noteq> p_revoked_vout rv ! LN_RCLOSE_IDX_TOREMOTE" by blast
  then show thesis
  proof cases
    case local
    show thesis
      by (rule that [of ?rv "[WALLET_ADD (tolocal_entry env se self rv pTx lp)]"])
         (use local in \<open>simp_all add: ix close_revoked_tolocal_eq [OF lp(1) wit] count_taken_def
            ln_revoked_cnt_dec_def counted_def output_taken_def lp(2)\<close>)
  next
    case remote
    show thesis
      by (rule that [of rv "[WALLET_ADD (to_remote_entry env se self pTx lp)]"])
         (use remote in \<open>simp_all add: ix close_revoked_toremote_eq [OF keys lp(1)] counted_def output_taken_def lp(2)\<close>)
  next
    case htlc
    let ?lps = "[LN_RCLOSE_IDX_HTLC..<unat (revoked_num rv)]"
    have fits: "fitting rv v \<noteq> []" "\<forall>i\<in>set (fitting rv v). penalty_ok env se self rv pTx lp i"
      using lp(3) htlc unfolding takeable_def lp(2) by blast+
    have lps: "\<forall>j\<in>set ?lps. j < length (p_revoked_vout rv) \<and>
       (p_revoked_vout rv ! j = vout_script (tx_vout pTx ! lp) \<longrightarrow> penalty_ok env se self rv pTx lp j)"
      using fits(2) arr by (auto simp: fitting_def lp(2) arrays_full_def)
    have "fitting rv v = filter (\<lambda>j. p_revoked_vout rv ! j = vout_script (tx_vout pTx ! lp)) ?lps"
      by (simp add: fitting_def lp(2))
    from first_htlcs_sends [OF keys id lp(1) send lps this, of confm del acts] obtain rv1 xs where h:
      "same_arrays rv rv1" "revoked_cnt rv1 = revoked_cnt rv - of_nat (length (fitting rv v))"
      "first_htlcs env se send confm pTx self lp ?lps del (rv, acts) = Inr (revoked_cnt rv1 = 0, rv1, acts @ xs)"
      "\<forall>i\<in>set (fitting rv v). \<exists>raw. penalty_sent env se self rv pTx lp i raw \<and> SEND_RAWTX raw \<in> set xs"
      using fits(1) by auto
    show thesis
    proof (rule that [OF h(1), of xs])
      show "output_taken env se self rv pTx (acts @ xs) lp"
        using htlc fits(1) h(4) by (auto simp: output_taken_def lp(2))
    qed (use htlc h(2,3) fits(1) in \<open>simp_all add: ix counted_def\<close>)
  qed
qed

lemma first_outs_takes:
  assumes keys: "penalty_keys env se" and id: "length (tx_id env se pTx) = 32" and send: "\<forall>acts raw. send acts raw"
    and "arrays_full rv" "\<forall>(lp, v)\<in>set vs. lp < length (tx_vout pTx) \<and> tx_vout pTx ! lp = v \<and> takeable env se self rv pTx lp"
  shows "\<exists>rv' acts'. first_outs env se send confm pTx self vs del True (rv, acts) =
      Inr (if \<exists>(lp, v)\<in>set vs. counted rv v \<noteq> 0 then revoked_cnt rv' = 0 else del, True, rv', acts @ acts') \<and>
    revoked_cnt rv' = revoked_cnt rv - of_nat (sum_list (map (\<lambda>(lp, v). counted rv v) vs)) \<and>
    (\<forall>(lp, v)\<in>set vs. output_taken env se self rv pTx (acts @ acts') lp)"
  using assms(4,5)
proof (induction vs arbitrary: del rv acts)
  case (Cons lpv vs)
  obtain lp v where lpv: "lpv = (lp, v)" by (cases lpv)
  have lp: "lp < length (tx_vout pTx)" "tx_vout pTx ! lp = v" "takeable env se self rv pTx lp"
    using Cons.prems(2) by (auto simp: lpv)
  obtain rv1 acts1 where one: "same_arrays rv rv1" "output_taken env se self rv pTx (acts @ acts1) lp"
    "revoked_cnt rv1 = revoked_cnt rv - of_nat (counted rv v)"
    "first_outs env se send confm pTx self ((lp, v) # vs) del True (rv, acts) =
     first_outs env se send confm pTx self vs (if counted rv v = 0 then del else revoked_cnt rv1 = 0) True
       (rv1, acts @ acts1)"
    by (rule first_outs_takes_one [OF keys id send Cons.prems(1) lp])
  let ?del = "if counted rv v = 0 then del else revoked_cnt rv1 = 0"
  obtain rv' acts' where rest: "first_outs env se send confm pTx self vs ?del True (rv1, acts @ acts1) =
      Inr (if \<exists>(lp, v)\<in>set vs. counted rv v \<noteq> 0 then revoked_cnt rv' = 0 else ?del, True, rv', (acts @ acts1) @ acts')"
    "revoked_cnt rv' = revoked_cnt rv1 - of_nat (sum_list (map (\<lambda>(lp, v). counted rv v) vs))"
    "\<forall>(lp, v)\<in>set vs. output_taken env se self rv pTx ((acts @ acts1) @ acts') lp"
    using Cons.IH [of rv1 ?del "acts @ acts1"] Cons.prems unfolding takeable_same [OF one(1)] by auto
  have none0: "sum_list (map (\<lambda>(lp, v). counted rv v) vs) = 0" if "\<not> (\<exists>(lp, v)\<in>set vs. counted rv v \<noteq> 0)"
    using that by (induction vs) auto
  have none: "revoked_cnt rv' = revoked_cnt rv1" if "\<not> (\<exists>(lp, v)\<in>set vs. counted rv v \<noteq> 0)"
    unfolding rest(2) none0 [OF that] by simp
  have "revoked_cnt rv' = revoked_cnt rv - of_nat (sum_list (map (\<lambda>(lp, v). counted rv v) (lpv # vs)))"
    using one(3) rest(2) by (simp add: lpv)
  then show ?case
    by (intro exI [of _ rv'] exI [of _ "acts1 @ acts'"])
       (use one(4) rest none output_taken_mono [OF one(2), of acts'] in \<open>auto simp: lpv\<close>)
qed simp

lemma close_revoked_first_takes:
  assumes "penalty_keys env se" "tx_txid env pTx = Some tid" "length tid = 32"
    and "\<forall>acts raw. send acts raw" "arrays_full rv" "\<forall>lp<length (tx_vout pTx). takeable env se self rv pTx lp"
  obtains rv' acts where
    "close_revoked_first env se send confm pTx self (rv, []) =
      Inr ((\<exists>v\<in>set (tx_vout pTx). counted rv v \<noteq> 0) \<and> revoked_cnt rv' = 0, rv', acts @ [REVTX_SAVE rv'])"
    "revoked_cnt rv' = revoked_cnt rv - of_nat (sum_list (map (counted rv) (tx_vout pTx)))"
    "\<forall>lp<length (tx_vout pTx). output_taken env se self rv pTx acts lp"
proof -
  let ?vs = "enumerate 0 (tx_vout pTx)"
  have vs: "\<forall>(lp, v)\<in>set ?vs. lp < length (tx_vout pTx) \<and> tx_vout pTx ! lp = v \<and> takeable env se self rv pTx lp"
    using assms(6) by (auto simp: in_set_enumerate_eq)
  have id: "length (tx_id env se pTx) = 32" using assms(2,3) by (simp add: tx_id_def)
  obtain rv' acts where f: "first_outs env se send confm pTx self ?vs False True (rv, []) =
      Inr (if \<exists>(lp, v)\<in>set ?vs. counted rv v \<noteq> 0 then revoked_cnt rv' = 0 else False, True, rv', [] @ acts)"
    "revoked_cnt rv' = revoked_cnt rv - of_nat (sum_list (map (\<lambda>(lp, v). counted rv v) ?vs))"
    "\<forall>(lp, v)\<in>set ?vs. output_taken env se self rv pTx ([] @ acts) lp"
    using first_outs_takes [OF assms(1) id assms(4,5) vs, of confm False "[]"] by blast
  have "map (\<lambda>(lp, v). P v) (enumerate n vs) = map P vs" for P :: "btc_vout_t \<Rightarrow> nat" and n vs
    by (induction vs arbitrary: n) auto
  then have cnt: "revoked_cnt rv' = revoked_cnt rv - of_nat (sum_list (map (counted rv) (tx_vout pTx)))"
    using f(2) by simp
  have in_snd: "(\<exists>(lp, v)\<in>set (enumerate n vs). P v) \<longleftrightarrow> (\<exists>v\<in>set vs. P v)" for P n and vs :: "btc_vout_t list"
    by (induction vs arbitrary: n) auto
  have "(\<exists>(lp, v)\<in>set ?vs. counted rv v \<noteq> 0) \<longleftrightarrow> (\<exists>v\<in>set (tx_vout pTx). counted rv v \<noteq> 0)"
    by (rule in_snd)
  moreover have "output_taken env se self rv pTx acts lp" if "lp < length (tx_vout pTx)" for lp
    using f(3) that by (fastforce simp: in_set_enumerate_eq)
  ultimately show ?thesis using f(1) cnt by (intro that [of rv' acts]) (simp_all add: close_revoked_first_def)
qed

lemma counted_sum:
  assumes "\<forall>v\<in>set vs. not_ours rv v \<longrightarrow> counted rv v = 1"
  shows "sum_list (map (counted rv) vs) = length (filter (not_ours rv) vs)"
proof -
  have "counted rv v = 0" if "\<not> not_ours rv v" for v using that by (auto simp: counted_def not_ours_def)
  then show ?thesis using assms by (induction vs) auto
qed

text \<open>
  C19: The first round after a revoked close. If the arrays know every output of the revoked transaction and
  the backend takes what it is sent, then \<open>close_revoked_first\<close> enters the peer's output and the node's
  own in the wallet, which takes them later, and sends, for every HTLC output and every script that fits
  it, a transaction that spends the output with that script and the revocation key. The state is saved; the
  counter falls by one for each entry of the peer's output and by one for each transaction sent, and the
  channel is reported as done exactly if it ends at zero. That is so if the counter counts the outputs that
  are not the node's own and only one script fits each HTLC output.
\<close>

theorem revoked_outputs_taken:
  assumes "penalty_keys env se" "tx_txid env pTx = Some tid" "length tid = 32"
    and "\<forall>acts raw. send acts raw" "arrays_full rv" "\<forall>lp<length (tx_vout pTx). takeable env se self rv pTx lp"
    and "\<exists>v\<in>set (tx_vout pTx). not_ours rv v"
  shows "\<exists>rv' acts finished.
    close_revoked_first env se send confm pTx self (rv, []) = Inr (finished, rv', acts @ [REVTX_SAVE rv']) \<and>
    (\<forall>lp<length (tx_vout pTx). output_taken env se self rv pTx acts lp) \<and>
    revoked_cnt rv' = revoked_cnt rv - of_nat (sum_list (map (counted rv) (tx_vout pTx))) \<and>
    (finished \<longleftrightarrow> revoked_cnt rv' = 0) \<and>
    (unat (revoked_cnt rv) = length (filter (not_ours rv) (tx_vout pTx)) \<and>
       (\<forall>v\<in>set (tx_vout pTx). not_ours rv v \<longrightarrow> counted rv v = 1) \<longrightarrow> finished)"
proof -
  obtain rv' acts where r: "close_revoked_first env se send confm pTx self (rv, []) =
      Inr ((\<exists>v\<in>set (tx_vout pTx). counted rv v \<noteq> 0) \<and> revoked_cnt rv' = 0, rv', acts @ [REVTX_SAVE rv'])"
    "revoked_cnt rv' = revoked_cnt rv - of_nat (sum_list (map (counted rv) (tx_vout pTx)))"
    "\<forall>lp<length (tx_vout pTx). output_taken env se self rv pTx acts lp"
    by (rule close_revoked_first_takes [OF assms(1-6)])
  obtain lp where lp: "lp < length (tx_vout pTx)" "not_ours rv (tx_vout pTx ! lp)"
    using assms(7) by (auto simp: in_set_conv_nth)
  then have "counted rv (tx_vout pTx ! lp) \<noteq> 0"
    using assms(6) by (auto simp: takeable_def counted_def not_ours_def)
  then have c: "\<exists>v\<in>set (tx_vout pTx). counted rv v \<noteq> 0" using lp(1) nth_mem by blast
  have "revoked_cnt rv' = 0"
    if "unat (revoked_cnt rv) = length (filter (not_ours rv) (tx_vout pTx))"
      "\<forall>v\<in>set (tx_vout pTx). not_ours rv v \<longrightarrow> counted rv v = 1"
    using r(2) unfolding counted_sum [OF that(2)] by (simp flip: that(1))
  then show ?thesis using r c by auto
qed


section \<open>A concrete round\<close>

text \<open>A revoked transaction with the output of the peer, that of the node and one HTLC.\<close>

definition pen_env :: "nat ln_env" where
  "pen_env = toy_env\<lparr>priv2pub := \<lambda>k. if valid_toy_key k then Some (replicate 33 2) else None,
     sha256 := \<lambda>_. replicate 31 0 @ [1]\<rparr>"

definition pen_sign :: sign_env where
  "pen_sign = \<lparr>priv_data = replicate 5 (replicate 31 0 @ [2]),
     btc_tx_sign = \<lambda>_ k. if valid_toy_key k then Some [1] else None, se_hash256 = id,
     junk_priv = replicate 32 0, junk_pub = replicate 33 0, junk_txid = replicate 32 0\<rparr>"

definition pen_tx :: btc_tx_t where
  "pen_tx = \<lparr>vin_txid = replicate 32 5, vin_index = 0, vin_sequence = 0,
     tx_vout = [\<lparr>vout_value = 70000, vout_script = [10], vout_opt = 0\<rparr>,
       \<lparr>vout_value = 80000, vout_script = [11], vout_opt = 0\<rparr>,
       \<lparr>vout_value = 90000, vout_script = [12], vout_opt = 0\<rparr>],
     tx_locktime = 0\<rparr>"

definition pen_rv :: ln_revoked_t where
  "pen_rv = \<lparr>p_revoked_vout = [[10], [11], [12]], p_revoked_wit = [[7], [], [8]],
     p_revoked_type = [LN_HTLCTYPE_NONE, LN_HTLCTYPE_NONE, LN_HTLCTYPE_OFFERED],
     revoked_sec = replicate 31 0 @ [3], revoked_num = 3, revoked_cnt = 2, revoked_chk = 0\<rparr>"

lemmas pen_defs = pen_tx_def pen_rv_def LN_RCLOSE_IDX_TOLOCAL_def LN_RCLOSE_IDX_TOREMOTE_def LN_RCLOSE_IDX_HTLC_def

lemma pen_fields:
  "tx_vout pen_tx = [\<lparr>vout_value = 70000, vout_script = [10], vout_opt = 0\<rparr>,
     \<lparr>vout_value = 80000, vout_script = [11], vout_opt = 0\<rparr>, \<lparr>vout_value = 90000, vout_script = [12], vout_opt = 0\<rparr>]"
  "p_revoked_vout pen_rv = [[10], [11], [12]]" "revoked_cnt pen_rv = 2"
  by (simp_all add: pen_tx_def pen_rv_def)

lemma pen_keys: "penalty_keys pen_env pen_sign"
  using toy_wf(1) by (simp add: penalty_keys_def pen_env_def pen_sign_def wf_env_def)

lemma pen_id: "tx_txid pen_env t = Some (replicate 32 6)" "tx_id pen_env pen_sign t = replicate 32 6"
  by (simp_all add: pen_env_def toy_env_def tx_id_def)

lemma pen_key:
  "valid_toy_key (k_priv (ln_signer_get_revokesec pen_env pen_sign toy_self
     (pubkeys (funding_remote toy_self) ! MSG_FUNDIDX_PER_COMMIT) (replicate 31 0 @ [3])))"
proof -
  have m: "mpi_read (replicate 31 0 @ [1]) = 1" "mpi_read (replicate 31 0 @ [2]) = 2" "mpi_read (replicate 31 0 @ [3]) = 3"
    by code_simp+
  have "(mpi_read (replicate 31 0 @ [1]) * mpi_read (replicate 31 0 @ [2]) +
      mpi_read (replicate 31 0 @ [1]) * mpi_read (replicate 31 0 @ [3])) mod ec_N (ec pen_env) = 5"
    unfolding m by (simp add: pen_env_def toy_env_def toy_ec_def)
  moreover have "sha256 pen_env d = replicate 31 0 @ [1]"
    "priv_data pen_sign ! MSG_FUNDIDX_REVOCATION = replicate 31 0 @ [2]" for d
    by (simp_all add: pen_env_def pen_sign_def MSG_FUNDIDX_REVOCATION_def)
  ultimately show ?thesis
    by (simp add: ln_signer_get_revokesec_def ln_derkey_revocationprivkey_def fill_keys_def mpi_write_def
        mpi_read_octets valid_toy_key_def Let_def)
qed

lemma pen_htlc: "penalty_ok pen_env pen_sign toy_self pen_rv pen_tx 2 2"
proof -
  have "revoked_sec pen_rv = replicate 31 0 @ [3]" by (simp add: pen_rv_def)
  then have "\<exists>sig. btc_tx_sign pen_sign h (k_priv (ln_signer_get_revokesec pen_env pen_sign toy_self
      (pubkeys (funding_remote toy_self) ! MSG_FUNDIDX_PER_COMMIT) (revoked_sec pen_rv))) = Some sig \<and> length sig < 65536" for h
    using pen_key by (simp add: pen_sign_def)
  then show ?thesis
    unfolding penalty_ok_def Let_def
    by (intro conjI) (simp_all add: pen_rv_def pen_tx_def toy_self_def M_FEE_HTLCTIMEOUT_def)
qed

lemma penalty_waits_for_delay_witness:
  "\<exists>w. close_revoked_tolocal pen_env pen_sign toy_self pen_tx 0 (pen_rv, []) = Inr (True, pen_rv, [WALLET_ADD w]) \<and>
     (\<forall>wl acts. \<exists>acts'. wallet_dbfunc \<lparr>check_unspent = \<lambda>_ _. Some True, get_confirm = \<lambda>_. Some 39\<rparr> w (wl, acts) =
        Inr (wl, acts'))"
proof -
  let ?ce = "\<lparr>check_unspent = \<lambda>_ _. Some True, get_confirm = \<lambda>_. Some 39\<rparr>"
  obtain w where w: "close_revoked_tolocal pen_env pen_sign toy_self pen_tx 0 (pen_rv, []) =
      Inr (True, pen_rv, [] @ [WALLET_ADD w])"
    "\<forall>ce wl acts. (\<forall>conf. get_confirm ce (replicate 32 6) = Some conf \<longrightarrow>
         conf < ucast (to_self_delay (commit_local toy_self))) \<longrightarrow>
       (\<exists>acts'. wallet_dbfunc ce w (wl, acts) = Inr (wl, acts'))"
    using penalty_waits_for_delay [of 0 pen_tx pen_rv pen_env "replicate 32 6" pen_sign toy_self "[]"]
    by (auto simp: pen_id pen_defs)
  have "to_self_delay (commit_local toy_self) = 40" by (simp add: toy_self_def toy_commit_def)
  then show ?thesis using w(1) spec [OF w(2), of ?ce] by auto
qed

lemma pen_takeable: "\<forall>lp<length (tx_vout pen_tx). takeable pen_env pen_sign toy_self pen_rv pen_tx lp"
proof -
  have lp: "lp = 0 \<or> lp = 1 \<or> lp = 2" if "lp < length (tx_vout pen_tx)" for lp
    using that by (auto simp: pen_tx_def)
  have "takeable pen_env pen_sign toy_self pen_rv pen_tx 0" "takeable pen_env pen_sign toy_self pen_rv pen_tx 1"
    by (simp_all add: takeable_def pen_defs)
  moreover have "fitting pen_rv (tx_vout pen_tx ! 2) = [2]" by (simp add: fitting_def pen_defs)
  then have "takeable pen_env pen_sign toy_self pen_rv pen_tx 2" using pen_htlc by (simp add: takeable_def)
  ultimately show ?thesis using lp by blast
qed

lemma revoked_outputs_taken_witness:
  "\<exists>rv' acts. close_revoked_first pen_env pen_sign (\<lambda>_ _. True) 3 pen_tx toy_self (pen_rv, []) =
     Inr (True, rv', acts @ [REVTX_SAVE rv']) \<and> revoked_cnt rv' = 0 \<and> (\<exists>raw. SEND_RAWTX raw \<in> set acts)"
proof -
  have n: "unat (revoked_cnt pen_rv) = length (filter (not_ours pen_rv) (tx_vout pen_tx))"
    "\<forall>v\<in>set (tx_vout pen_tx). not_ours pen_rv v \<longrightarrow> counted pen_rv v = 1"
    "\<exists>v\<in>set (tx_vout pen_tx). not_ours pen_rv v" "arrays_full pen_rv"
    by (simp_all add: not_ours_def arrays_full_def counted_def fitting_def pen_defs)
  obtain rv' acts where r: "close_revoked_first pen_env pen_sign (\<lambda>_ _. True) 3 pen_tx toy_self (pen_rv, []) =
      Inr (True, rv', acts @ [REVTX_SAVE rv'])" "revoked_cnt rv' = 0"
    "\<forall>lp<length (tx_vout pen_tx). output_taken pen_env pen_sign toy_self pen_rv pen_tx acts lp"
    using revoked_outputs_taken [OF pen_keys pen_id(1) _ _ n(4) pen_takeable n(3), of "\<lambda>_ _. True" 3] n(1,2) by auto
  have "output_taken pen_env pen_sign toy_self pen_rv pen_tx acts 2" using r(3) by (simp add: pen_tx_def)
  then have "\<exists>raw. SEND_RAWTX raw \<in> set acts" by (auto simp: output_taken_def fitting_def pen_defs)
  with r show ?thesis by blast
qed

text \<open>The same round with two HTLCs of one payment hash.\<close>

definition pen_tx2 :: btc_tx_t where
  "pen_tx2 = pen_tx\<lparr>tx_vout := tx_vout pen_tx @ [\<lparr>vout_value = 90000, vout_script = [12], vout_opt = 0\<rparr>]\<rparr>"

definition pen_rv2 :: ln_revoked_t where
  "pen_rv2 = pen_rv\<lparr>p_revoked_vout := [[10], [11], [12], [12]], p_revoked_wit := [[7], [], [8], [8]],
     p_revoked_type := [LN_HTLCTYPE_NONE, LN_HTLCTYPE_NONE, LN_HTLCTYPE_OFFERED, LN_HTLCTYPE_OFFERED],
     revoked_num := 4, revoked_cnt := 3\<rparr>"

lemma pen2_takeable: "\<forall>lp<length (tx_vout pen_tx2). takeable pen_env pen_sign toy_self pen_rv2 pen_tx2 lp"
proof -
  have "revoked_sec pen_rv2 = replicate 31 0 @ [3]" by (simp add: pen_rv2_def pen_rv_def)
  then have s: "\<exists>sig. btc_tx_sign pen_sign h (k_priv (ln_signer_get_revokesec pen_env pen_sign toy_self
      (pubkeys (funding_remote toy_self) ! MSG_FUNDIDX_PER_COMMIT) (revoked_sec pen_rv2))) = Some sig \<and> length sig < 65536" for h
    using pen_key by (simp add: pen_sign_def)
  have ok: "penalty_ok pen_env pen_sign toy_self pen_rv2 pen_tx2 lp i" if "lp = 2 \<or> lp = 3" "i = 2 \<or> i = 3" for lp i
    unfolding penalty_ok_def Let_def using that s
    by (intro conjI) (auto simp: pen_rv2_def pen_tx2_def pen_tx_def toy_self_def M_FEE_HTLCTIMEOUT_def)
  have lp: "lp = 0 \<or> lp = 1 \<or> lp = 2 \<or> lp = 3" if "lp < length (tx_vout pen_tx2)" for lp
    using that by (auto simp: pen_tx2_def pen_tx_def)
  have "takeable pen_env pen_sign toy_self pen_rv2 pen_tx2 0" "takeable pen_env pen_sign toy_self pen_rv2 pen_tx2 1"
    by (simp_all add: takeable_def pen_tx2_def pen_rv2_def pen_defs)
  moreover have "fitting pen_rv2 (tx_vout pen_tx2 ! 2) = [2, 3]" "fitting pen_rv2 (tx_vout pen_tx2 ! 3) = [2, 3]"
    by (simp_all add: fitting_def pen_tx2_def pen_rv2_def pen_defs upt_rec)
  then have "takeable pen_env pen_sign toy_self pen_rv2 pen_tx2 2" "takeable pen_env pen_sign toy_self pen_rv2 pen_tx2 3"
    using ok by (simp_all add: takeable_def)
  ultimately show ?thesis using lp by blast
qed


lemma failed_penalty_not_retried_witness:
  "\<exists>del rv1 acts1 raw. close_revoked_first pen_env pen_sign (\<lambda>_ _. False) 3 pen_tx toy_self (pen_rv, []) =
     Inr (del, rv1, acts1) \<and> SEND_RAWTX raw \<in> set acts1 \<and> last acts1 = REVTX_SAVE rv1 \<and> revoked_cnt rv1 = 1"
proof -
  let ?rv = "pen_rv\<lparr>revoked_cnt := 1, revoked_chk := 3\<rparr>"
  have w: "(0::nat) < length (p_revoked_wit pen_rv)" by (simp add: pen_rv_def)
  have lp: "0 < length (tx_vout pen_tx)" "1 < length (tx_vout pen_tx)" "2 < length (tx_vout pen_tx)"
    by (simp_all add: pen_tx_def)
  let ?a = "[WALLET_ADD (tolocal_entry pen_env pen_sign toy_self pen_rv pen_tx 0),
    WALLET_ADD (to_remote_entry pen_env pen_sign toy_self pen_tx 1)]"
  have ok: "penalty_ok pen_env pen_sign toy_self ?rv pen_tx 2 2"
    using pen_htlc unfolding same_arrays_entry(3) [OF same_arrays_update] .
  have id: "length (tx_id pen_env pen_sign pen_tx) = 32" by (simp add: pen_id)
  obtain raw where raw: "close_revoked_htlc pen_env pen_sign (\<lambda>_ _. False) toy_self pen_tx 2 2 (?rv, ?a) =
      Inr (False, ?rv, ?a @ [SEND_RAWTX raw])"
    by (rule close_revoked_htlc_sends [OF pen_keys id lp(3) ok])
  have htlcs: "[LN_RCLOSE_IDX_HTLC..<unat (revoked_num pen_rv)] = [2]"
    by (simp add: LN_RCLOSE_IDX_HTLC_def pen_rv_def)
  have "first_outs pen_env pen_sign (\<lambda>_ _. False) 3 pen_tx toy_self (enumerate 0 (tx_vout pen_tx)) False True (pen_rv, []) =
      Inr (False, True, ?rv, ?a @ [SEND_RAWTX raw])"
    using close_revoked_tolocal_eq [OF lp(1) w, of pen_env pen_sign toy_self "[]"]
      close_revoked_toremote_eq [OF pen_keys lp(2), of toy_self ?rv "[WALLET_ADD (tolocal_entry pen_env pen_sign toy_self pen_rv pen_tx 0)]"]
      raw [unfolded numeral_2_eq_2]
    by (simp add: pen_fields LN_RCLOSE_IDX_TOLOCAL_def LN_RCLOSE_IDX_TOREMOTE_def htlcs [unfolded numeral_2_eq_2]
        c_index_def count_taken_def ln_revoked_cnt_dec_def)
  then have r: "close_revoked_first pen_env pen_sign (\<lambda>_ _. False) 3 pen_tx toy_self (pen_rv, []) =
      Inr (False, ?rv, (?a @ [SEND_RAWTX raw]) @ [REVTX_SAVE ?rv])"
    by (simp add: close_revoked_first_def)
  show ?thesis
    using failed_penalty_not_retried [OF w r] r by (auto simp: pen_defs)
qed

end
